(* ===== verification/Prelude.thy ===== *)
theory Prelude
  imports Main "HOL-Library.List_Lexorder" "HOL-Library.Char_ord"
begin

text \<open>
  The vocabulary every component shares: results (the Rust \<open>Result\<close>) as sums,
  the operations of \<open>str\<close>, \<open>String\<close>, \<open>Vec\<close>, \<open>BTreeMap\<close> and \<open>BTreeSet\<close> that the
  sources call, and the lemmas on them that carry the component proofs.

  A Rust string is its list of UTF-8 bytes, a HOL \<open>string\<close> (a \<open>char\<close> is a byte).
  All delimiters the sources search for are ASCII, so splitting bytes and
  splitting code points agree; \<open>trim\<close> is written out for every White-Space
  code point, each by its UTF-8 encoding.
\<close>

named_theorems result_simps "unfolding rules of the result combinators"
named_theorems str_simps "rules of the string operations"

type_synonym str = string

section \<open>Results\<close>

text \<open>\<open>Inl\<close> is Rust's \<open>Err\<close>, \<open>Inr\<close> is \<open>Ok\<close>; \<open>rbind\<close> is the \<open>?\<close> operator.\<close>

fun rbind :: "'e + 'a \<Rightarrow> ('a \<Rightarrow> 'e + 'b) \<Rightarrow> 'e + 'b" where
  "rbind (Inl e) f = Inl e"
| "rbind (Inr a) f = f a"

definition rmap :: "('a \<Rightarrow> 'b) \<Rightarrow> 'e + 'a \<Rightarrow> 'e + 'b" where
  "rmap f r = rbind r (\<lambda>a. Inr (f a))"

definition is_ok :: "'e + 'a \<Rightarrow> bool" where
  "is_ok r = (case r of Inl _ \<Rightarrow> False | Inr _ \<Rightarrow> True)"

lemma rbind_Inr_iff [result_simps]:
  "rbind r f = Inr b \<longleftrightarrow> (\<exists>a. r = Inr a \<and> f a = Inr b)"
  by (cases r) auto

lemma rbind_Inl_iff [result_simps]:
  "rbind r f = Inl e \<longleftrightarrow> r = Inl e \<or> (\<exists>a. r = Inr a \<and> f a = Inl e)"
  by (cases r) auto

lemma rmap_simps [simp]: "rmap f (Inl e) = Inl e" "rmap f (Inr a) = Inr (f a)"
  by (simp_all add: rmap_def)

lemma rmap_Inr_iff [result_simps]: "rmap f r = Inr b \<longleftrightarrow> (\<exists>a. r = Inr a \<and> b = f a)"
  by (cases r) auto

lemma rmap_Inl_iff [result_simps]: "rmap f r = Inl e \<longleftrightarrow> r = Inl e"
  by (cases r) auto

lemma is_ok_simps [simp]: "is_ok (Inr a)" "\<not> is_ok (Inl e)"
  by (simp_all add: is_ok_def)

lemma is_ok_iff: "is_ok r \<longleftrightarrow> (\<exists>a. r = Inr a)"
  by (cases r) auto

text \<open>\<open>into_iter().map(f).collect::<Result<Vec<_>>>()\<close>: the first error wins.\<close>

fun rcollect :: "('a \<Rightarrow> 'e + 'b) \<Rightarrow> 'a list \<Rightarrow> 'e + 'b list" where
  "rcollect f [] = Inr []"
| "rcollect f (x # xs) = rbind (f x) (\<lambda>y. rbind (rcollect f xs) (\<lambda>ys. Inr (y # ys)))"

lemma rcollect_Inr_list_all2:
  "rcollect f xs = Inr ys \<Longrightarrow> list_all2 (\<lambda>x y. f x = Inr y) xs ys"
  by (induction xs arbitrary: ys) (auto simp: result_simps)

lemma rcollect_cong_Inr: "(\<And>x. x \<in> set xs \<Longrightarrow> f x = Inr (g x)) \<Longrightarrow> rcollect f xs = Inr (map g xs)"
  by (induction xs) auto

section \<open>Options\<close>

definition opt_filter :: "('a \<Rightarrow> bool) \<Rightarrow> 'a option \<Rightarrow> 'a option" where
  "opt_filter p x = (case x of None \<Rightarrow> None | Some a \<Rightarrow> if p a then Some a else None)"

definition or_else :: "'a option \<Rightarrow> 'a option \<Rightarrow> 'a option" where
  "or_else x y = (case x of None \<Rightarrow> y | Some a \<Rightarrow> Some a)"

lemma opt_filter_simps [simp]:
  "opt_filter p None = None" "opt_filter p (Some a) = (if p a then Some a else None)"
  by (simp_all add: opt_filter_def)

lemma opt_filter_Some_iff: "opt_filter p x = Some a \<longleftrightarrow> x = Some a \<and> p a"
  by (auto simp: opt_filter_def split: option.splits if_splits)

lemma or_else_simps [simp]: "or_else None y = y" "or_else (Some a) y = Some a"
  by (simp_all add: or_else_def)

text \<open>The first element satisfying a predicate (\<open>iter().find(..)\<close>) is \<open>List.find\<close>.\<close>

lemma find_None_iff_all: "List.find P xs = None \<longleftrightarrow> (\<forall>x \<in> set xs. \<not> P x)"
  by (induction xs) auto

lemma find_ex_iff: "(\<exists>y. List.find P xs = Some y) \<longleftrightarrow> (\<exists>x \<in> set xs. P x)"
  by (induction xs) auto

lemma or_else_ex_iff: "(\<exists>z. or_else x y = Some z) \<longleftrightarrow> (\<exists>z. x = Some z) \<or> (\<exists>z. y = Some z)"
  by (cases x) auto

lemma find_SomeD: "List.find P xs = Some x \<Longrightarrow> x \<in> set xs \<and> P x"
  by (induction xs) (auto split: if_splits)

section \<open>Strings\<close>

definition byte :: "char \<Rightarrow> nat" where
  "byte c = of_char c"

fun split_on :: "char \<Rightarrow> str \<Rightarrow> str list" where
  "split_on c [] = [[]]"
| "split_on c (x # xs) =
     (if x = c then [] # split_on c xs
      else (case split_on c xs of [] \<Rightarrow> [[x]] | y # ys \<Rightarrow> (x # y) # ys))"

fun join_with :: "str \<Rightarrow> str list \<Rightarrow> str" where
  "join_with sep [] = []"
| "join_with sep [x] = x"
| "join_with sep (x # y # ys) = x @ sep @ join_with sep (y # ys)"

fun split_once :: "char \<Rightarrow> str \<Rightarrow> (str \<times> str) option" where
  "split_once c [] = None"
| "split_once c (x # xs) =
     (if x = c then Some ([], xs)
      else (case split_once c xs of None \<Rightarrow> None | Some (a, b) \<Rightarrow> Some (x # a, b)))"

fun strip_prefix_str :: "str \<Rightarrow> str \<Rightarrow> str option" where
  "strip_prefix_str [] s = Some s"
| "strip_prefix_str (p # ps) [] = None"
| "strip_prefix_str (p # ps) (x # xs) = (if p = x then strip_prefix_str ps xs else None)"

definition strip_suffix_str :: "str \<Rightarrow> str \<Rightarrow> str option" where
  "strip_suffix_str p s = map_option rev (strip_prefix_str (rev p) (rev s))"

definition starts_with :: "str \<Rightarrow> str \<Rightarrow> bool" where
  "starts_with p s = (strip_prefix_str p s \<noteq> None)"

definition ends_with :: "str \<Rightarrow> str \<Rightarrow> bool" where
  "ends_with p s = (strip_suffix_str p s \<noteq> None)"

definition contains_any :: "char list \<Rightarrow> str \<Rightarrow> bool" where
  "contains_any cs s = list_ex (\<lambda>x. List.member cs x) s"

definition trim_start_char :: "char \<Rightarrow> str \<Rightarrow> str" where
  "trim_start_char c s = dropWhile (\<lambda>x. x = c) s"

definition trim_end_char :: "char \<Rightarrow> str \<Rightarrow> str" where
  "trim_end_char c s = rev (dropWhile (\<lambda>x. x = c) (rev s))"

definition trim_char :: "char \<Rightarrow> str \<Rightarrow> str" where
  "trim_char c s = trim_end_char c (trim_start_char c s)"

text \<open>The UTF-8 encodings of the code points with the White-Space property.\<close>

fun ws_bytes :: "nat list \<Rightarrow> bool" where
  "ws_bytes [a] = ((9 \<le> a \<and> a \<le> 13) \<or> a = 32)"
| "ws_bytes [a, b] = (a = 194 \<and> (b = 133 \<or> b = 160))"
| "ws_bytes [a, b, c] =
     ((a = 225 \<and> b = 154 \<and> c = 128)
      \<or> (a = 226 \<and> b = 128 \<and> ((128 \<le> c \<and> c \<le> 138) \<or> c = 168 \<or> c = 169 \<or> c = 175))
      \<or> (a = 226 \<and> b = 129 \<and> c = 159)
      \<or> (a = 227 \<and> b = 128 \<and> c = 128))"
| "ws_bytes _ = False"

definition ws_prefix :: "str \<Rightarrow> nat" where
  "ws_prefix s =
     (if ws_bytes (map byte (take 1 s)) then 1
      else if ws_bytes (map byte (take 2 s)) then 2
      else if ws_bytes (map byte (take 3 s)) then 3 else 0)"

definition ws_suffix_rev :: "str \<Rightarrow> nat" where
  "ws_suffix_rev r =
     (if ws_bytes (map byte (rev (take 1 r))) then 1
      else if ws_bytes (map byte (rev (take 2 r))) then 2
      else if ws_bytes (map byte (rev (take 3 r))) then 3 else 0)"

function trim_start :: "str \<Rightarrow> str" where
  "trim_start s = (if s = [] \<or> ws_prefix s = 0 then s else trim_start (drop (ws_prefix s) s))"
  by pat_completeness auto
termination
  by (relation "measure length") auto

function trim_start_rev :: "str \<Rightarrow> str" where
  "trim_start_rev r =
     (if r = [] \<or> ws_suffix_rev r = 0 then r else trim_start_rev (drop (ws_suffix_rev r) r))"
  by pat_completeness auto
termination
  by (relation "measure length") auto

declare trim_start.simps [simp del] trim_start_rev.simps [simp del]

definition trim_end :: "str \<Rightarrow> str" where
  "trim_end s = rev (trim_start_rev (rev s))"

definition trim :: "str \<Rightarrow> str" where
  "trim s = trim_end (trim_start s)"

fun has_whitespace :: "str \<Rightarrow> bool" where
  "has_whitespace [] = False"
| "has_whitespace (x # xs) = (ws_prefix (x # xs) \<noteq> 0 \<or> has_whitespace xs)"

definition ascii_lower_char :: "char \<Rightarrow> char" where
  "ascii_lower_char c = (if 65 \<le> byte c \<and> byte c \<le> 90 then char_of (byte c + 32) else c)"

definition ascii_upper_char :: "char \<Rightarrow> char" where
  "ascii_upper_char c = (if 97 \<le> byte c \<and> byte c \<le> 122 then char_of (byte c - 32) else c)"

definition to_ascii_lowercase :: "str \<Rightarrow> str" where
  "to_ascii_lowercase s = map ascii_lower_char s"

definition to_ascii_uppercase :: "str \<Rightarrow> str" where
  "to_ascii_uppercase s = map ascii_upper_char s"

definition eq_ignore_ascii_case :: "str \<Rightarrow> str \<Rightarrow> bool" where
  "eq_ignore_ascii_case a b = (to_ascii_lowercase a = to_ascii_lowercase b)"

definition is_ascii_digit :: "char \<Rightarrow> bool" where
  "is_ascii_digit c = (48 \<le> byte c \<and> byte c \<le> 57)"

definition is_ascii_alpha :: "char \<Rightarrow> bool" where
  "is_ascii_alpha c = ((65 \<le> byte c \<and> byte c \<le> 90) \<or> (97 \<le> byte c \<and> byte c \<le> 122))"

definition is_ascii_hexdigit :: "char \<Rightarrow> bool" where
  "is_ascii_hexdigit c =
     (is_ascii_digit c \<or> (65 \<le> byte c \<and> byte c \<le> 70) \<or> (97 \<le> byte c \<and> byte c \<le> 102))"

text \<open>\<open>to_string\<close> of an unsigned integer.\<close>

fun show_nat :: "nat \<Rightarrow> str" where
  "show_nat n =
     (if n < 10 then [char_of (48 + n)] else show_nat (n div 10) @ [char_of (48 + n mod 10)])"

declare show_nat.simps [simp del]

subsection \<open>Lemmas on strings\<close>

lemma split_on_neq_Nil [simp]: "split_on c s \<noteq> []"
  by (induction s) (auto split: list.splits)

lemma split_on_no_sep: "x \<in> set (split_on c s) \<Longrightarrow> c \<notin> set x"
  by (induction s arbitrary: x) (auto split: list.splits if_splits)

lemma join_with_Cons: "ys \<noteq> [] \<Longrightarrow> join_with sep (x # ys) = x @ sep @ join_with sep ys"
  by (cases ys) auto

lemma join_with_Cons_head: "join_with sep ((x # y) # ys) = x # join_with sep (y # ys)"
  by (cases ys) auto

lemma join_split [str_simps]: "join_with [c] (split_on c s) = s"
proof (induction s)
  case (Cons x xs)
  obtain y ys where y: "split_on c xs = y # ys"
    by (cases "split_on c xs") auto
  with Cons.IH show ?case
    by (simp add: join_with_Cons_head)
qed simp

lemma split_on_free: "c \<notin> set s \<Longrightarrow> split_on c s = [s]"
  by (induction s) auto

lemma split_on_append: "c \<notin> set x \<Longrightarrow> split_on c (x @ c # ys) = x # split_on c ys"
  by (induction x) auto

lemma split_join:
  "xs \<noteq> [] \<Longrightarrow> (\<And>x. x \<in> set xs \<Longrightarrow> c \<notin> set x) \<Longrightarrow> split_on c (join_with [c] xs) = xs"
proof (induction xs)
  case (Cons x xs)
  show ?case
  proof (cases xs)
    case Nil
    with Cons.prems show ?thesis by (simp add: split_on_free)
  next
    case (Cons y ys)
    with Cons.prems Cons.IH show ?thesis by (simp add: split_on_append)
  qed
qed simp

lemma strip_prefix_append [simp]: "strip_prefix_str p (p @ s) = Some s"
  by (induction p) auto

lemma strip_prefix_Some_iff: "strip_prefix_str p s = Some r \<longleftrightarrow> s = p @ r"
  by (induction p s rule: strip_prefix_str.induct) auto

lemma strip_suffix_Some_iff: "strip_suffix_str p s = Some r \<longleftrightarrow> s = r @ p"
proof -
  have "strip_suffix_str p s = Some r \<longleftrightarrow> strip_prefix_str (rev p) (rev s) = Some (rev r)"
    by (auto simp: strip_suffix_str_def)
  also have "\<dots> \<longleftrightarrow> s = r @ p"
    by (simp add: strip_prefix_Some_iff) (metis rev_append rev_rev_ident)
  finally show ?thesis .
qed

lemma starts_with_iff: "starts_with p s \<longleftrightarrow> (\<exists>r. s = p @ r)"
  by (auto simp: starts_with_def strip_prefix_Some_iff not_None_eq)

lemma split_once_Some_iff:
  "split_once c s = Some (a, b) \<longleftrightarrow> s = a @ c # b \<and> c \<notin> set a"
proof (induction s arbitrary: a)
  case (Cons x xs)
  have step: "split_once c (x # xs) = Some (y # as, b) \<longleftrightarrow>
      x \<noteq> c \<and> y = x \<and> split_once c xs = Some (as, b)" for y as
    by (cases "split_once c xs") auto
  have none: "split_once c (x # xs) = Some ([], b) \<longleftrightarrow> x = c \<and> b = xs"
    by (cases "split_once c xs") auto
  show ?case
  proof (cases a)
    case Nil
    show ?thesis using none by (auto simp: Nil simp del: split_once.simps)
  next
    case (Cons y as)
    show ?thesis
      unfolding Cons step Cons.IH by auto
  qed
qed simp

lemma split_once_None_iff: "split_once c s = None \<longleftrightarrow> c \<notin> set s"
  by (induction s) (auto split: option.splits)

lemma contains_any_iff: "contains_any cs s \<longleftrightarrow> (\<exists>x \<in> set s. x \<in> set cs)"
  by (auto simp: contains_any_def list_ex_iff)

lemma trim_start_char_no_lead: "s = [] \<or> hd s \<noteq> c \<Longrightarrow> trim_start_char c s = s"
  by (cases s) (auto simp: trim_start_char_def)

lemma byte_char_of [simp]: "n < 256 \<Longrightarrow> byte (char_of n) = n"
  by (simp add: byte_def)

lemma ascii_lower_idem [simp]: "ascii_lower_char (ascii_lower_char c) = ascii_lower_char c"
proof (cases "65 \<le> byte c \<and> byte c \<le> 90")
  case True
  then have "byte (char_of (byte c + 32)) = byte c + 32" by simp
  with True show ?thesis by (simp add: ascii_lower_char_def)
next
  case False
  then have "ascii_lower_char c = c" by (auto simp: ascii_lower_char_def)
  then show ?thesis by simp
qed

lemma byte_inject: "byte a = byte b \<longleftrightarrow> a = b"
  by (simp add: byte_def)

lemma ascii_lower_byte:
  "byte (ascii_lower_char c) = (if 65 \<le> byte c \<and> byte c \<le> 90 then byte c + 32 else byte c)"
  by (simp add: ascii_lower_char_def)

text \<open>A byte that is not a letter has no other preimage.\<close>

lemma ascii_lower_eq_nonletter:
  "\<not> (97 \<le> byte d \<and> byte d \<le> 122) \<Longrightarrow> \<not> (65 \<le> byte d \<and> byte d \<le> 90) \<Longrightarrow>
     ascii_lower_char c = d \<longleftrightarrow> c = d"
  unfolding byte_inject [symmetric] ascii_lower_byte by auto

lemma to_ascii_lowercase_idem [simp]:
  "to_ascii_lowercase (to_ascii_lowercase s) = to_ascii_lowercase s"
  by (simp add: to_ascii_lowercase_def)

lemma eq_ignore_ascii_case_refl [simp]: "eq_ignore_ascii_case s s"
  by (simp add: eq_ignore_ascii_case_def)

lemma eq_ignore_ascii_case_lower [simp]:
  "eq_ignore_ascii_case (to_ascii_lowercase a) b = eq_ignore_ascii_case a b"
  "eq_ignore_ascii_case a (to_ascii_lowercase b) = eq_ignore_ascii_case a b"
  by (simp_all add: eq_ignore_ascii_case_def)

lemma trim_start_no_ws: "ws_prefix s = 0 \<Longrightarrow> trim_start s = s"
  by (subst trim_start.simps) simp

lemma trim_start_suffix: "\<exists>p. s = p @ trim_start s"
proof (induction s rule: trim_start.induct)
  case (1 s)
  show ?case
  proof (cases "s = [] \<or> ws_prefix s = 0")
    case True
    then show ?thesis by (subst trim_start.simps) auto
  next
    case False
    from "1.IH" [OF False]
    obtain p where "drop (ws_prefix s) s = p @ trim_start (drop (ws_prefix s) s)" ..
    then have "s = (take (ws_prefix s) s @ p) @ trim_start (drop (ws_prefix s) s)"
      by (metis append_take_drop_id append.assoc)
    moreover have "trim_start s = trim_start (drop (ws_prefix s) s)"
      using False by (subst trim_start.simps) simp
    ultimately show ?thesis by metis
  qed
qed

lemma trim_start_rev_suffix: "\<exists>p. r = p @ trim_start_rev r"
proof (induction r rule: trim_start_rev.induct)
  case (1 r)
  show ?case
  proof (cases "r = [] \<or> ws_suffix_rev r = 0")
    case True
    then show ?thesis by (subst trim_start_rev.simps) auto
  next
    case False
    from "1.IH" [OF False]
    obtain p where "drop (ws_suffix_rev r) r = p @ trim_start_rev (drop (ws_suffix_rev r) r)" ..
    then have "r = (take (ws_suffix_rev r) r @ p) @ trim_start_rev (drop (ws_suffix_rev r) r)"
      by (metis append_take_drop_id append.assoc)
    moreover have "trim_start_rev r = trim_start_rev (drop (ws_suffix_rev r) r)"
      using False by (subst trim_start_rev.simps) simp
    ultimately show ?thesis by metis
  qed
qed

lemma set_trim_subset: "set (trim s) \<subseteq> set s"
proof -
  obtain p where p: "s = p @ trim_start s" using trim_start_suffix by blast
  obtain q where q: "rev (trim_start s) = q @ trim_start_rev (rev (trim_start s))"
    using trim_start_rev_suffix by blast
  have "set (trim s) \<subseteq> set (rev (trim_start s))"
    unfolding trim_def trim_end_def by (subst q) auto
  also have "\<dots> \<subseteq> set s" by (subst p) auto
  finally show ?thesis .
qed

lemma trim_Nil [simp]: "trim [] = []"
  by (simp add: trim_def trim_end_def trim_start.simps trim_start_rev.simps)

section \<open>Ordered maps and sets\<close>

text \<open>
  \<open>BTreeMap\<close> is a list of pairs with strictly increasing keys, which is also its
  iteration order; \<open>BTreeSet\<close> is a strictly increasing list. Byte order on strings is
  the library's lexicographic order on \<open>char list\<close>.
\<close>

type_synonym ('k, 'v) btree = "('k \<times> 'v) list"

fun bt_insert :: "'k::linorder \<Rightarrow> 'v \<Rightarrow> ('k, 'v) btree \<Rightarrow> ('k, 'v) btree" where
  "bt_insert k v [] = [(k, v)]"
| "bt_insert k v ((a, b) # m) =
     (if k < a then (k, v) # (a, b) # m
      else if k = a then (k, v) # m else (a, b) # bt_insert k v m)"

definition bt_remove :: "'k \<Rightarrow> ('k, 'v) btree \<Rightarrow> ('k, 'v) btree" where
  "bt_remove k m = filter (\<lambda>(a, _). a \<noteq> k) m"

definition bt_get :: "('k, 'v) btree \<Rightarrow> 'k \<Rightarrow> 'v option" where
  "bt_get m k = map_of m k"

definition bt_wf :: "('k::linorder, 'v) btree \<Rightarrow> bool" where
  "bt_wf m = sorted_wrt (<) (map fst m)"

definition bt_of_list :: "('k::linorder \<times> 'v) list \<Rightarrow> ('k, 'v) btree" where
  "bt_of_list ps = fold (\<lambda>(k, v). bt_insert k v) ps []"

fun bs_insert :: "'a::linorder \<Rightarrow> 'a list \<Rightarrow> 'a list" where
  "bs_insert x [] = [x]"
| "bs_insert x (y # ys) =
     (if x < y then x # y # ys else if x = y then y # ys else y # bs_insert x ys)"

definition bs_of_list :: "'a::linorder list \<Rightarrow> 'a list" where
  "bs_of_list xs = fold bs_insert xs []"

lemma bt_get_insert [simp]: "bt_get (bt_insert k v m) x = (if x = k then Some v else bt_get m x)"
  by (induction m) (auto simp: bt_get_def)

lemma bt_get_remove [simp]: "bt_get (bt_remove k m) x = (if x = k then None else bt_get m x)"
  by (induction m) (auto simp: bt_get_def bt_remove_def)

lemma bt_get_Nil [simp]: "bt_get [] k = None"
  by (simp add: bt_get_def)

lemma fst_bt_insert [simp]: "fst ` set (bt_insert k v m) = insert k (fst ` set m)"
proof (induction m)
  case (Cons p m)
  then show ?case
    by (cases p) auto
qed simp

lemma fst_bt_insert_ball [simp]:
  "(\<forall>x \<in> set (bt_insert k v m). P (fst x)) \<longleftrightarrow> P k \<and> (\<forall>x \<in> set m. P (fst x))"
proof -
  have "(\<forall>x \<in> set (bt_insert k v m). P (fst x)) \<longleftrightarrow> (\<forall>a \<in> fst ` set (bt_insert k v m). P a)"
    by blast
  then show ?thesis by auto
qed

lemma bt_wf_insert [simp]: "bt_wf m \<Longrightarrow> bt_wf (bt_insert k v m)"
proof (induction m)
  case (Cons p m)
  then show ?case
    by (cases p) (auto simp: bt_wf_def)
qed (simp add: bt_wf_def)

lemma bt_wf_remove [simp]: "bt_wf m \<Longrightarrow> bt_wf (bt_remove k m)"
  by (induction m) (auto simp: bt_wf_def bt_remove_def)

lemma bt_wf_Nil [simp]: "bt_wf []"
  by (simp add: bt_wf_def)

lemma bt_get_None_iff: "bt_get m k = None \<longleftrightarrow> k \<notin> fst ` set m"
  by (simp add: bt_get_def map_of_eq_None_iff)

lemma bt_get_Some_in: "bt_get m k = Some v \<Longrightarrow> (k, v) \<in> set m"
  by (simp add: bt_get_def map_of_SomeD)

lemma bt_wf_distinct: "bt_wf m \<Longrightarrow> distinct (map fst m)"
  by (simp add: bt_wf_def strict_sorted_iff)

lemma set_bs_insert [simp]: "set (bs_insert x xs) = insert x (set xs)"
  by (induction xs) auto

lemma bs_insert_sorted [simp]: "sorted_wrt (<) xs \<Longrightarrow> sorted_wrt (<) (bs_insert x xs)"
  by (induction xs) auto

lemma bs_fold_sorted: "sorted_wrt (<) acc \<Longrightarrow> sorted_wrt (<) (fold bs_insert xs acc)"
  by (induction xs arbitrary: acc) auto

lemma bs_of_list_sorted [simp]: "sorted_wrt (<) (bs_of_list xs)"
  by (simp add: bs_of_list_def bs_fold_sorted)

lemma set_fold_bs_insert: "set (fold bs_insert xs acc) = set xs \<union> set acc"
  by (induction xs arbitrary: acc) auto

lemma set_bs_of_list [simp]: "set (bs_of_list xs) = set xs"
  by (simp add: bs_of_list_def set_fold_bs_insert)

text \<open>Two ordered maps with the same bindings are the same list.\<close>

lemma bt_ext:
  fixes m :: "('a::linorder, 'b) btree"
  assumes "bt_wf m" "bt_wf m'" and eq: "\<And>k. bt_get m k = bt_get m' k"
  shows "m = m'"
proof -
  have keys: "map fst m = map fst m'"
  proof (rule sorted_distinct_set_unique)
    show "set (map fst m) = set (map fst m')"
      using eq by (metis bt_get_None_iff list.set_map subsetI subset_antisym)
  qed (use assms in \<open>simp_all add: bt_wf_def strict_sorted_iff\<close>)
  have tab: "n = map (\<lambda>k. (k, the (bt_get n k))) (map fst n)" if "distinct (map fst n)" for n :: "('a, 'b) btree"
    using that
  proof (induction n)
    case (Cons p n)
    have "map (\<lambda>k. (k, the (bt_get (p # n) k))) (map fst n)
        = map (\<lambda>k. (k, the (bt_get n k))) (map fst n)"
      using Cons.prems by (auto simp: bt_get_def image_iff)
    with Cons show ?case by (cases p) (simp add: bt_get_def)
  qed simp
  show ?thesis
    using tab [of m] tab [of m'] assms(1,2) by (simp only: bt_wf_distinct keys eq)
qed

subsection \<open>The interface of a key-value store\<close>

text \<open>
  What the stores of the framework (sessions, cache entries, idempotency records, rate
  limit buckets) rely on. \<open>lk\<close> reads, \<open>pt\<close> writes, \<open>rm\<close> removes.
\<close>

locale kv_store =
  fixes lk :: "'m \<Rightarrow> 'k \<Rightarrow> 'v option"
    and pt :: "'k \<Rightarrow> 'v \<Rightarrow> 'm \<Rightarrow> 'm"
    and rm :: "'k \<Rightarrow> 'm \<Rightarrow> 'm"
    and ok :: "'m \<Rightarrow> bool"
  assumes lk_pt: "ok m \<Longrightarrow> lk (pt k v m) x = (if x = k then Some v else lk m x)"
    and lk_rm: "ok m \<Longrightarrow> lk (rm k m) x = (if x = k then None else lk m x)"
    and ok_pt: "ok m \<Longrightarrow> ok (pt k v m)"
    and ok_rm: "ok m \<Longrightarrow> ok (rm k m)"
begin

lemma put_then_get: "ok m \<Longrightarrow> lk (pt k v m) k = Some v"
  by (simp add: lk_pt)

lemma put_other: "ok m \<Longrightarrow> x \<noteq> k \<Longrightarrow> lk (pt k v m) x = lk m x"
  by (simp add: lk_pt)

lemma last_put_wins: "ok m \<Longrightarrow> lk (pt k w (pt k v m)) x = lk (pt k w m) x"
  by (simp add: lk_pt ok_pt)

lemma remove_then_get: "ok m \<Longrightarrow> lk (rm k m) k = None"
  by (simp add: lk_rm)

lemma put_then_remove: "ok m \<Longrightarrow> lk (rm k (pt k v m)) x = (if x = k then None else lk m x)"
  by (simp add: lk_rm lk_pt ok_pt)

lemma puts_commute: "ok m \<Longrightarrow> j \<noteq> k \<Longrightarrow> lk (pt j v (pt k w m)) x = lk (pt k w (pt j v m)) x"
  by (simp add: lk_pt ok_pt)

end

interpretation bt: kv_store bt_get bt_insert bt_remove bt_wf
  by unfold_locales auto

end
