(* ===== verification/Errors.thy ===== *)
theory Errors
  imports Prelude
begin

text \<open>
  \<open>src/error.rs\<close>: the framework's error type, its stable categories, the HTTP
  status and body an error becomes, the construction of an error from a status, and the
  copy handed to exception filters. The two results of interest are that the copy
  really is the original error and that status and message survive a round trip.
  Statuses are natural numbers (\<open>u16\<close> in the code, where no arithmetic is done on them).
\<close>

text \<open>\<open>std::io::ErrorKind\<close>: \<open>Other\<close>, or any other kind by its number.\<close>

datatype io_kind = IoOther | IoKind nat

datatype boot_error =
    EmptyModuleName
  | InvalidRoutePath str
  | InvalidHostPattern str
  | DuplicateRoute str
  | NotFound str
  | MethodNotAllowed str
  | DuplicateProvider str
  | MissingProvider str
  | ProviderTypeMismatch str
  | HttpException nat str
  | Forbidden str
  | Unauthorized str
  | BadRequest str
  | RequestTimeout str
  | Conflict str
  | Gone str
  | PreconditionFailed str
  | PayloadTooLarge str
  | UnsupportedMediaType str
  | NotAcceptable str
  | ImATeapot str
  | UnprocessableEntity str
  | TooManyRequests str
  | InternalServerError str
  | NotImplemented str
  | BadGateway str
  | ServiceUnavailable str
  | GatewayTimeout str
  | Adapter str
  | Internal str
  | Io io_kind str

datatype boot_error_kind =
    K_EmptyModuleName
  | K_InvalidRoutePath
  | K_InvalidHostPattern
  | K_DuplicateRoute
  | K_NotFound
  | K_MethodNotAllowed
  | K_DuplicateProvider
  | K_MissingProvider
  | K_ProviderTypeMismatch
  | K_HttpException
  | K_Forbidden
  | K_Unauthorized
  | K_BadRequest
  | K_RequestTimeout
  | K_Conflict
  | K_Gone
  | K_PreconditionFailed
  | K_PayloadTooLarge
  | K_UnsupportedMediaType
  | K_NotAcceptable
  | K_ImATeapot
  | K_UnprocessableEntity
  | K_TooManyRequests
  | K_InternalServerError
  | K_NotImplemented
  | K_BadGateway
  | K_ServiceUnavailable
  | K_GatewayTimeout
  | K_Adapter
  | K_Internal
  | K_Io

type_synonym 'a result = "boot_error + 'a"

primrec kind :: "boot_error \<Rightarrow> boot_error_kind" where
  "kind EmptyModuleName = K_EmptyModuleName"
| "kind (InvalidRoutePath m) = K_InvalidRoutePath"
| "kind (InvalidHostPattern m) = K_InvalidHostPattern"
| "kind (DuplicateRoute m) = K_DuplicateRoute"
| "kind (NotFound m) = K_NotFound"
| "kind (MethodNotAllowed m) = K_MethodNotAllowed"
| "kind (DuplicateProvider m) = K_DuplicateProvider"
| "kind (MissingProvider m) = K_MissingProvider"
| "kind (ProviderTypeMismatch m) = K_ProviderTypeMismatch"
| "kind (HttpException status m) = K_HttpException"
| "kind (Forbidden m) = K_Forbidden"
| "kind (Unauthorized m) = K_Unauthorized"
| "kind (BadRequest m) = K_BadRequest"
| "kind (RequestTimeout m) = K_RequestTimeout"
| "kind (Conflict m) = K_Conflict"
| "kind (Gone m) = K_Gone"
| "kind (PreconditionFailed m) = K_PreconditionFailed"
| "kind (PayloadTooLarge m) = K_PayloadTooLarge"
| "kind (UnsupportedMediaType m) = K_UnsupportedMediaType"
| "kind (NotAcceptable m) = K_NotAcceptable"
| "kind (ImATeapot m) = K_ImATeapot"
| "kind (UnprocessableEntity m) = K_UnprocessableEntity"
| "kind (TooManyRequests m) = K_TooManyRequests"
| "kind (InternalServerError m) = K_InternalServerError"
| "kind (NotImplemented m) = K_NotImplemented"
| "kind (BadGateway m) = K_BadGateway"
| "kind (ServiceUnavailable m) = K_ServiceUnavailable"
| "kind (GatewayTimeout m) = K_GatewayTimeout"
| "kind (Adapter m) = K_Adapter"
| "kind (Internal m) = K_Internal"
| "kind (Io k m) = K_Io"

text \<open>\<open>to_string()\<close>, the \<open>thiserror\<close> messages.\<close>

primrec boot_error_display :: "boot_error \<Rightarrow> str" where
  "boot_error_display EmptyModuleName = ''module name cannot be empty''"
| "boot_error_display (HttpException status m) = ''http exception '' @ show_nat status @ '': '' @ m"
| "boot_error_display (Io k m) = ''I/O error: '' @ m"
| "boot_error_display (InvalidRoutePath m) =
     ''route path must start with '' @ [CHR 0x27, CHR ''/'', CHR 0x27] @ '': '' @ m"
| "boot_error_display (InvalidHostPattern m) = ''host pattern is invalid: '' @ m"
| "boot_error_display (DuplicateRoute m) = ''route is already registered: '' @ m"
| "boot_error_display (NotFound m) = ''route was not found: '' @ m"
| "boot_error_display (MethodNotAllowed m) = ''method is not allowed: '' @ m"
| "boot_error_display (DuplicateProvider m) = ''provider token is already registered: '' @ m"
| "boot_error_display (MissingProvider m) = ''provider token is not registered: '' @ m"
| "boot_error_display (ProviderTypeMismatch m) = ''provider token has a different concrete type: '' @ m"
| "boot_error_display (Forbidden m) = ''request was forbidden: '' @ m"
| "boot_error_display (Unauthorized m) = ''request was unauthorized: '' @ m"
| "boot_error_display (BadRequest m) = ''bad request: '' @ m"
| "boot_error_display (RequestTimeout m) = ''request timed out: '' @ m"
| "boot_error_display (Conflict m) = ''resource conflict: '' @ m"
| "boot_error_display (Gone m) = ''resource is gone: '' @ m"
| "boot_error_display (PreconditionFailed m) = ''precondition failed: '' @ m"
| "boot_error_display (PayloadTooLarge m) = ''payload is too large: '' @ m"
| "boot_error_display (UnsupportedMediaType m) = ''unsupported media type: '' @ m"
| "boot_error_display (NotAcceptable m) = ''not acceptable: '' @ m"
| "boot_error_display (ImATeapot m) = ''I am a teapot: '' @ m"
| "boot_error_display (UnprocessableEntity m) = ''unprocessable entity: '' @ m"
| "boot_error_display (TooManyRequests m) = ''too many requests: '' @ m"
| "boot_error_display (InternalServerError m) = ''internal server error: '' @ m"
| "boot_error_display (NotImplemented m) = ''not implemented: '' @ m"
| "boot_error_display (BadGateway m) = ''bad gateway: '' @ m"
| "boot_error_display (ServiceUnavailable m) = ''service unavailable: '' @ m"
| "boot_error_display (GatewayTimeout m) = ''gateway timeout: '' @ m"
| "boot_error_display (Adapter m) = ''adapter error: '' @ m"
| "boot_error_display (Internal m) = ''internal error: '' @ m"

primrec http_status_code :: "boot_error \<Rightarrow> nat" where
  "http_status_code (HttpException status m) = status"
| "http_status_code (NotFound m) = 404"
| "http_status_code (MethodNotAllowed m) = 405"
| "http_status_code (Unauthorized m) = 401"
| "http_status_code (Forbidden m) = 403"
| "http_status_code (BadRequest m) = 400"
| "http_status_code (RequestTimeout m) = 408"
| "http_status_code (Conflict m) = 409"
| "http_status_code (Gone m) = 410"
| "http_status_code (PreconditionFailed m) = 412"
| "http_status_code (PayloadTooLarge m) = 413"
| "http_status_code (UnsupportedMediaType m) = 415"
| "http_status_code (NotAcceptable m) = 406"
| "http_status_code (ImATeapot m) = 418"
| "http_status_code (UnprocessableEntity m) = 422"
| "http_status_code (TooManyRequests m) = 429"
| "http_status_code (InternalServerError m) = 500"
| "http_status_code (NotImplemented m) = 501"
| "http_status_code (BadGateway m) = 502"
| "http_status_code (ServiceUnavailable m) = 503"
| "http_status_code (GatewayTimeout m) = 504"
| "http_status_code EmptyModuleName = 500"
| "http_status_code (InvalidRoutePath m) = 500"
| "http_status_code (InvalidHostPattern m) = 500"
| "http_status_code (DuplicateRoute m) = 500"
| "http_status_code (DuplicateProvider m) = 500"
| "http_status_code (MissingProvider m) = 500"
| "http_status_code (ProviderTypeMismatch m) = 500"
| "http_status_code (Adapter m) = 500"
| "http_status_code (Internal m) = 500"
| "http_status_code (Io k m) = 500"

primrec http_response_message :: "boot_error \<Rightarrow> str" where
  "http_response_message (HttpException status m) = m"
| "http_response_message (NotFound m) = m"
| "http_response_message (MethodNotAllowed m) = m"
| "http_response_message (Unauthorized m) = m"
| "http_response_message (Forbidden m) = m"
| "http_response_message (BadRequest m) = m"
| "http_response_message (RequestTimeout m) = m"
| "http_response_message (Conflict m) = m"
| "http_response_message (Gone m) = m"
| "http_response_message (PreconditionFailed m) = m"
| "http_response_message (PayloadTooLarge m) = m"
| "http_response_message (UnsupportedMediaType m) = m"
| "http_response_message (NotAcceptable m) = m"
| "http_response_message (ImATeapot m) = m"
| "http_response_message (UnprocessableEntity m) = m"
| "http_response_message (TooManyRequests m) = m"
| "http_response_message (InternalServerError m) = m"
| "http_response_message (NotImplemented m) = m"
| "http_response_message (BadGateway m) = m"
| "http_response_message (ServiceUnavailable m) = m"
| "http_response_message (GatewayTimeout m) = m"
| "http_response_message EmptyModuleName = boot_error_display EmptyModuleName"
| "http_response_message (InvalidRoutePath m) = boot_error_display (InvalidRoutePath m)"
| "http_response_message (InvalidHostPattern m) = boot_error_display (InvalidHostPattern m)"
| "http_response_message (DuplicateRoute m) = boot_error_display (DuplicateRoute m)"
| "http_response_message (DuplicateProvider m) = boot_error_display (DuplicateProvider m)"
| "http_response_message (MissingProvider m) = boot_error_display (MissingProvider m)"
| "http_response_message (ProviderTypeMismatch m) = boot_error_display (ProviderTypeMismatch m)"
| "http_response_message (Adapter m) = boot_error_display (Adapter m)"
| "http_response_message (Internal m) = boot_error_display (Internal m)"
| "http_response_message (Io k m) = boot_error_display (Io k m)"

definition from_http_status :: "nat \<Rightarrow> str \<Rightarrow> boot_error" where
  "from_http_status status m =
     (if status = 400 then BadRequest m
      else if status = 401 then Unauthorized m
      else if status = 403 then Forbidden m
      else if status = 404 then NotFound m
      else if status = 405 then MethodNotAllowed m
      else if status = 406 then NotAcceptable m
      else if status = 408 then RequestTimeout m
      else if status = 409 then Conflict m
      else if status = 410 then Gone m
      else if status = 412 then PreconditionFailed m
      else if status = 413 then PayloadTooLarge m
      else if status = 415 then UnsupportedMediaType m
      else if status = 418 then ImATeapot m
      else if status = 422 then UnprocessableEntity m
      else if status = 429 then TooManyRequests m
      else if status = 500 then InternalServerError m
      else if status = 501 then NotImplemented m
      else if status = 502 then BadGateway m
      else if status = 503 then ServiceUnavailable m
      else if status = 504 then GatewayTimeout m
      else HttpException status m)"

definition http_exception :: "nat \<Rightarrow> str \<Rightarrow> boot_error result" where
  "http_exception status m =
     (if 100 \<le> status \<and> status < 600 then Inr (from_http_status status m)
      else Inl (Internal (''invalid HTTP exception status '' @ show_nat status)))"

primrec from_kind_and_message :: "boot_error_kind \<Rightarrow> str \<Rightarrow> boot_error" where
  "from_kind_and_message K_EmptyModuleName m = EmptyModuleName"
| "from_kind_and_message K_InvalidRoutePath m = InvalidRoutePath m"
| "from_kind_and_message K_InvalidHostPattern m = InvalidHostPattern m"
| "from_kind_and_message K_DuplicateRoute m = DuplicateRoute m"
| "from_kind_and_message K_NotFound m = NotFound m"
| "from_kind_and_message K_MethodNotAllowed m = MethodNotAllowed m"
| "from_kind_and_message K_DuplicateProvider m = DuplicateProvider m"
| "from_kind_and_message K_MissingProvider m = MissingProvider m"
| "from_kind_and_message K_ProviderTypeMismatch m = ProviderTypeMismatch m"
| "from_kind_and_message K_HttpException m = HttpException 500 m"
| "from_kind_and_message K_Forbidden m = Forbidden m"
| "from_kind_and_message K_Unauthorized m = Unauthorized m"
| "from_kind_and_message K_BadRequest m = BadRequest m"
| "from_kind_and_message K_RequestTimeout m = RequestTimeout m"
| "from_kind_and_message K_Conflict m = Conflict m"
| "from_kind_and_message K_Gone m = Gone m"
| "from_kind_and_message K_PreconditionFailed m = PreconditionFailed m"
| "from_kind_and_message K_PayloadTooLarge m = PayloadTooLarge m"
| "from_kind_and_message K_UnsupportedMediaType m = UnsupportedMediaType m"
| "from_kind_and_message K_NotAcceptable m = NotAcceptable m"
| "from_kind_and_message K_ImATeapot m = ImATeapot m"
| "from_kind_and_message K_UnprocessableEntity m = UnprocessableEntity m"
| "from_kind_and_message K_TooManyRequests m = TooManyRequests m"
| "from_kind_and_message K_InternalServerError m = InternalServerError m"
| "from_kind_and_message K_NotImplemented m = NotImplemented m"
| "from_kind_and_message K_BadGateway m = BadGateway m"
| "from_kind_and_message K_ServiceUnavailable m = ServiceUnavailable m"
| "from_kind_and_message K_GatewayTimeout m = GatewayTimeout m"
| "from_kind_and_message K_Adapter m = Adapter m"
| "from_kind_and_message K_Internal m = Internal m"
| "from_kind_and_message K_Io m = Io IoOther m"

primrec clone_for_filter :: "boot_error \<Rightarrow> boot_error" where
  "clone_for_filter (HttpException status m) = HttpException status m"
| "clone_for_filter (InvalidRoutePath m) = from_kind_and_message (kind (InvalidRoutePath m)) m"
| "clone_for_filter (InvalidHostPattern m) = from_kind_and_message (kind (InvalidHostPattern m)) m"
| "clone_for_filter (DuplicateRoute m) = from_kind_and_message (kind (DuplicateRoute m)) m"
| "clone_for_filter (NotFound m) = from_kind_and_message (kind (NotFound m)) m"
| "clone_for_filter (MethodNotAllowed m) = from_kind_and_message (kind (MethodNotAllowed m)) m"
| "clone_for_filter (DuplicateProvider m) = from_kind_and_message (kind (DuplicateProvider m)) m"
| "clone_for_filter (MissingProvider m) = from_kind_and_message (kind (MissingProvider m)) m"
| "clone_for_filter (ProviderTypeMismatch m) = from_kind_and_message (kind (ProviderTypeMismatch m)) m"
| "clone_for_filter (Forbidden m) = from_kind_and_message (kind (Forbidden m)) m"
| "clone_for_filter (Unauthorized m) = from_kind_and_message (kind (Unauthorized m)) m"
| "clone_for_filter (BadRequest m) = from_kind_and_message (kind (BadRequest m)) m"
| "clone_for_filter (RequestTimeout m) = from_kind_and_message (kind (RequestTimeout m)) m"
| "clone_for_filter (Conflict m) = from_kind_and_message (kind (Conflict m)) m"
| "clone_for_filter (Gone m) = from_kind_and_message (kind (Gone m)) m"
| "clone_for_filter (PreconditionFailed m) = from_kind_and_message (kind (PreconditionFailed m)) m"
| "clone_for_filter (PayloadTooLarge m) = from_kind_and_message (kind (PayloadTooLarge m)) m"
| "clone_for_filter (UnsupportedMediaType m) = from_kind_and_message (kind (UnsupportedMediaType m)) m"
| "clone_for_filter (NotAcceptable m) = from_kind_and_message (kind (NotAcceptable m)) m"
| "clone_for_filter (ImATeapot m) = from_kind_and_message (kind (ImATeapot m)) m"
| "clone_for_filter (UnprocessableEntity m) = from_kind_and_message (kind (UnprocessableEntity m)) m"
| "clone_for_filter (TooManyRequests m) = from_kind_and_message (kind (TooManyRequests m)) m"
| "clone_for_filter (InternalServerError m) = from_kind_and_message (kind (InternalServerError m)) m"
| "clone_for_filter (NotImplemented m) = from_kind_and_message (kind (NotImplemented m)) m"
| "clone_for_filter (BadGateway m) = from_kind_and_message (kind (BadGateway m)) m"
| "clone_for_filter (ServiceUnavailable m) = from_kind_and_message (kind (ServiceUnavailable m)) m"
| "clone_for_filter (GatewayTimeout m) = from_kind_and_message (kind (GatewayTimeout m)) m"
| "clone_for_filter (Adapter m) = from_kind_and_message (kind (Adapter m)) m"
| "clone_for_filter (Internal m) = from_kind_and_message (kind (Internal m)) m"
| "clone_for_filter EmptyModuleName = EmptyModuleName"
| "clone_for_filter (Io k m) = Io k m"

section \<open>What exception filters see, and statuses\<close>

lemma clone_for_filter_id [simp]: "clone_for_filter e = e"
  by (cases e) simp_all

lemma status_from_http_status: "http_status_code (from_http_status s m) = s"
  by (simp add: from_http_status_def)

lemma message_from_http_status: "http_response_message (from_http_status s m) = m"
  by (simp add: from_http_status_def)

lemma http_exception_bounds: "is_ok (http_exception s m) \<longleftrightarrow> 100 \<le> s \<and> s < 600"
  by (simp add: http_exception_def)

text \<open>
  Raising an HTTP exception with a status of the range 100 to 599 succeeds, and the
  error renders with exactly that status and message; every other status is an error
  that renders as 500.
\<close>

theorem http_exception_roundtrip:
  "(case http_exception s m of
      Inr e \<Rightarrow> 100 \<le> s \<and> s < 600 \<and> http_status_code e = s \<and> http_response_message e = m
    | Inl e \<Rightarrow> (s < 100 \<or> 600 \<le> s) \<and> http_status_code e = 500)"
  by (auto simp: http_exception_def status_from_http_status message_from_http_status)

end
