(* ===== verification/Http_Header.thy ===== *)
theory Http_Header
  imports Complex_Main Errors
begin

text \<open>
  \<open>src/http/header.rs\<close>, \<open>src/http/cookie.rs\<close>: header names and values, media types and
  content negotiation, content lengths, cookies. Parsing a quality value as \<open>f32\<close> is the
  argument \<open>pq\<close>: the finite number the text denotes, which is rational, or none. The
  \<open>Debug\<close> rendering of a string in messages is the argument \<open>dbg\<close>.
\<close>

section \<open>Names, values and lookup\<close>

definition normalize_header_name :: "str \<Rightarrow> str" where
  "normalize_header_name name = to_ascii_lowercase name"

definition normalize_headers :: "(str, str) btree \<Rightarrow> (str, str) btree" where
  "normalize_headers hs = bt_of_list (map (\<lambda>(n, v). (normalize_header_name n, v)) hs)"

definition is_header_name_byte :: "char \<Rightarrow> bool" where
  "is_header_name_byte b =
     (b \<in> set [CHR ''!'', CHR ''#'', CHR ''$'', CHR ''%'', CHR ''&'', CHR 39, CHR ''*'', CHR ''+'',
               CHR ''-'', CHR ''.'', CHR ''^'', CHR ''_'', CHR 96, CHR ''|'', CHR ''~'']
      \<or> is_ascii_digit b \<or> is_ascii_alpha b)"

definition is_header_value_byte :: "char \<Rightarrow> bool" where
  "is_header_value_byte b = (byte b = 9 \<or> (32 \<le> byte b \<and> byte b \<le> 126))"

definition validate_header_name :: "str \<Rightarrow> str + unit" where
  "validate_header_name name =
     (if name = [] then Inl ''header name cannot be empty''
      else if list_all is_header_name_byte name then Inr ()
      else Inl ''header name contains invalid characters'')"

definition validate_header_value :: "str \<Rightarrow> str + unit" where
  "validate_header_value v =
     (if list_all is_header_value_byte v then Inr ()
      else Inl ''header value contains invalid characters'')"

definition get_header :: "(str, str) btree \<Rightarrow> str \<Rightarrow> str option" where
  "get_header headers name =
     or_else (bt_get headers (normalize_header_name name))
       (map_option snd (List.find (\<lambda>(k, _). eq_ignore_ascii_case k name) headers))"

section \<open>Media types\<close>

definition media_type :: "str \<Rightarrow> str" where
  "media_type v = trim (hd (split_on (CHR '';'') v))"

definition matches_media_type :: "str \<Rightarrow> str \<Rightarrow> bool" where
  "matches_media_type v expected = eq_ignore_ascii_case (media_type v) (media_type expected)"

definition is_json_media_type :: "str \<Rightarrow> bool" where
  "is_json_media_type v =
     (case split_once (CHR ''/'') (media_type v) of
        None \<Rightarrow> False
      | Some (_, subtype) \<Rightarrow>
          eq_ignore_ascii_case subtype ''json'' \<or> ends_with ''+json'' (to_ascii_lowercase subtype))"

section \<open>Content length\<close>

definition digits_value :: "str \<Rightarrow> nat" where
  "digits_value s = foldl (\<lambda>n c. n * 10 + (byte c - 48)) 0 s"

definition parse_content_length :: "str \<Rightarrow> nat option" where
  "parse_content_length v =
     (let v = trim v in
      if v = [] \<or> \<not> list_all is_ascii_digit v then None
      else opt_filter (\<lambda>n. n \<le> 2 ^ 64 - 1) (Some (digits_value v)))"

fun strict_content_length_loop ::
    "(str \<Rightarrow> boot_error) \<Rightarrow> (nat \<Rightarrow> nat \<Rightarrow> boot_error) \<Rightarrow> str list \<Rightarrow> nat option \<Rightarrow> nat option result"
where
  "strict_content_length_loop bad confl [] expected = Inr expected"
| "strict_content_length_loop bad confl (v # vs) expected =
     (case parse_content_length v of
        None \<Rightarrow> Inl (bad v)
      | Some parsed \<Rightarrow>
          (case expected of
             Some e \<Rightarrow> if parsed \<noteq> e then Inl (confl e parsed)
                       else strict_content_length_loop bad confl vs expected
           | None \<Rightarrow> strict_content_length_loop bad confl vs (Some parsed)))"

definition strict_content_length_values ::
    "str list \<Rightarrow> (str \<Rightarrow> boot_error) \<Rightarrow> (nat \<Rightarrow> nat \<Rightarrow> boot_error) \<Rightarrow> nat option result" where
  "strict_content_length_values vs bad confl = strict_content_length_loop bad confl vs None"

section \<open>Negotiation\<close>

record accepted_media_range =
  amr_value :: str
  amr_q :: rat

definition media_range_parse :: "(str \<Rightarrow> rat option) \<Rightarrow> str \<Rightarrow> accepted_media_range" where
  "media_range_parse pq v =
     (let parts = split_on (CHR '';'') v;
          params = List.map_filter (\<lambda>p. split_once (CHR ''='') (trim p)) (tl parts);
          q = Option.bind
                (map_option (\<lambda>(_, w). trim w)
                   (List.find (\<lambda>(n, _). eq_ignore_ascii_case n ''q'') params)) pq
      in \<lparr>amr_value = trim (hd parts),
          amr_q = (case q of None \<Rightarrow> 1 | Some x \<Rightarrow> max 0 (min 1 x))\<rparr>)"

definition json_specificity :: "accepted_media_range \<Rightarrow> nat option" where
  "json_specificity r =
     (case split_once (CHR ''/'') (amr_value r) of
        None \<Rightarrow> None
      | Some (mt, subtype) \<Rightarrow>
          if mt = ''*'' \<and> subtype = ''*'' then Some 0
          else if \<not> eq_ignore_ascii_case mt ''application'' then None
          else if subtype = ''*'' then Some 1
          else if eq_ignore_ascii_case subtype ''*+json'' then Some 2
          else if eq_ignore_ascii_case subtype ''json'' \<or> ends_with ''+json'' (to_ascii_lowercase subtype)
          then Some 3 else None)"

definition event_stream_specificity :: "accepted_media_range \<Rightarrow> nat option" where
  "event_stream_specificity r =
     (case split_once (CHR ''/'') (amr_value r) of
        None \<Rightarrow> None
      | Some (mt, subtype) \<Rightarrow>
          if mt = ''*'' \<and> subtype = ''*'' then Some 0
          else if \<not> eq_ignore_ascii_case mt ''text'' then None
          else if subtype = ''*'' then Some 1
          else if eq_ignore_ascii_case subtype ''event-stream'' then Some 2 else None)"

fun best_match_step :: "(nat \<times> rat) option \<Rightarrow> nat \<Rightarrow> rat \<Rightarrow> (nat \<times> rat) option" where
  "best_match_step (Some (bs, bq)) s q =
     (if bs > s then Some (bs, bq) else if bs = s then Some (bs, max bq q) else Some (s, q))"
| "best_match_step None s q = Some (s, q)"

fun best_match_loop ::
    "(accepted_media_range \<Rightarrow> nat option) \<Rightarrow> accepted_media_range list \<Rightarrow> (nat \<times> rat) option
       \<Rightarrow> (nat \<times> rat) option" where
  "best_match_loop spec [] best = best"
| "best_match_loop spec (r # rs) best =
     best_match_loop spec rs
       (case spec r of None \<Rightarrow> best | Some s \<Rightarrow> best_match_step best s (amr_q r))"

definition accepted_ranges :: "(str \<Rightarrow> rat option) \<Rightarrow> str list \<Rightarrow> accepted_media_range list" where
  "accepted_ranges pq vals = map (media_range_parse pq) (concat (map (split_on (CHR '','')) vals))"

definition accepts_json_response :: "(str \<Rightarrow> rat option) \<Rightarrow> str list \<Rightarrow> bool" where
  "accepts_json_response pq vals =
     (if vals = [] then True
      else (case best_match_loop json_specificity (accepted_ranges pq vals) None of
              None \<Rightarrow> False | Some (_, q) \<Rightarrow> q > 0))"

definition accepts_event_stream_response :: "(str \<Rightarrow> rat option) \<Rightarrow> str list \<Rightarrow> bool" where
  "accepts_event_stream_response pq vals =
     (if vals = [] then True
      else (case best_match_loop event_stream_specificity (accepted_ranges pq vals) None of
              None \<Rightarrow> False | Some (_, q) \<Rightarrow> q > 0))"

section \<open>Cookies\<close>

definition unquote_cookie_value :: "str \<Rightarrow> str" where
  "unquote_cookie_value v =
     (case Option.bind (strip_prefix_str [CHR 34] v) (strip_suffix_str [CHR 34]) of
        None \<Rightarrow> v | Some w \<Rightarrow> w)"

definition parse_cookie_pair :: "str \<Rightarrow> (str \<times> str) option result" where
  "parse_cookie_pair p =
     (let pair = trim p in
      if pair = [] then Inr None
      else (case split_once (CHR ''='') pair of
              None \<Rightarrow> Inl (BadRequest (''invalid cookie pair: '' @ pair))
            | Some (name, v) \<Rightarrow>
                let name = trim name in
                if name = [] then Inl (BadRequest ''cookie name cannot be empty'')
                else Inr (Some (name, unquote_cookie_value (trim v)))))"

definition parse_cookie_header_values :: "str list \<Rightarrow> (str \<times> str) list result" where
  "parse_cookie_header_values vals =
     rmap (List.map_filter id)
       (rcollect parse_cookie_pair (concat (map (split_on (CHR '';'')) vals)))"

datatype cookie_same_site = SS_Strict | SS_Lax | SS_None

fun same_site_str :: "cookie_same_site \<Rightarrow> str" where
  "same_site_str SS_Strict = ''Strict''"
| "same_site_str SS_Lax = ''Lax''"
| "same_site_str SS_None = ''None''"

record cookie_options =
  co_path :: "str option"
  co_domain :: "str option"
  co_max_age :: "nat option"
  co_http_only :: bool
  co_secure :: bool
  co_same_site :: "cookie_same_site option"

definition cookie_options_default :: cookie_options where
  "cookie_options_default =
     \<lparr>co_path = Some ''/'', co_domain = None, co_max_age = None, co_http_only = False,
      co_secure = False, co_same_site = None\<rparr>"

definition is_cookie_name_byte :: "char \<Rightarrow> bool" where
  "is_cookie_name_byte b =
     (b \<in> set [CHR ''!'', CHR ''#'', CHR ''$'', CHR ''%'', CHR ''&'', CHR 39, CHR ''*'', CHR ''+'',
               CHR ''-'', CHR ''.'', CHR ''^'', CHR ''_'', CHR 96, CHR ''|'', CHR ''~'']
      \<or> is_ascii_digit b \<or> is_ascii_alpha b)"

definition is_cookie_value_byte :: "char \<Rightarrow> bool" where
  "is_cookie_value_byte c =
     (let b = byte c in b = 33 \<or> (35 \<le> b \<and> b \<le> 43) \<or> (45 \<le> b \<and> b \<le> 58)
        \<or> (60 \<le> b \<and> b \<le> 91) \<or> (93 \<le> b \<and> b \<le> 126))"

definition validate_cookie_name :: "(str \<Rightarrow> str) \<Rightarrow> str \<Rightarrow> unit result" where
  "validate_cookie_name dbg name =
     (if name = [] then Inl (Internal ''cookie name cannot be empty'')
      else if list_all is_cookie_name_byte name then Inr ()
      else Inl (Internal (''invalid cookie name '' @ dbg name
                          @ '': cookie name contains invalid characters'')))"

definition validate_cookie_value :: "str \<Rightarrow> unit result" where
  "validate_cookie_value v =
     (if list_all is_cookie_value_byte v then Inr ()
      else Inl (Internal ''cookie value contains invalid characters''))"

definition validate_cookie_attribute :: "str \<Rightarrow> str \<Rightarrow> unit result" where
  "validate_cookie_attribute name v =
     (if v = [] then Inl (Internal (name @ '' cannot be empty''))
      else if list_all (\<lambda>b. 32 \<le> byte b \<and> byte b \<le> 126 \<and> b \<noteq> CHR '';'') v then Inr ()
      else Inl (Internal (name @ '' contains invalid characters'')))"

definition cookie_attribute :: "str \<Rightarrow> str \<Rightarrow> str option \<Rightarrow> str \<Rightarrow> str result" where
  "cookie_attribute label key v cookie =
     (case v of
        None \<Rightarrow> Inr cookie
      | Some v \<Rightarrow> rbind (validate_cookie_attribute label v) (\<lambda>_. Inr (cookie @ key @ v)))"

definition cookie_header :: "cookie_options \<Rightarrow> str \<Rightarrow> str \<Rightarrow> nat option \<Rightarrow> str result" where
  "cookie_header opts name v max_age =
     rbind (cookie_attribute ''cookie path'' ''; Path='' (co_path opts) (name @ ''='' @ v)) (\<lambda>c.
     rbind (cookie_attribute ''cookie domain'' ''; Domain='' (co_domain opts) c) (\<lambda>c.
       let c = (case max_age of None \<Rightarrow> c | Some m \<Rightarrow> c @ ''; Max-Age='' @ show_nat m);
           c = (if co_http_only opts then c @ ''; HttpOnly'' else c);
           c = (if co_secure opts then c @ ''; Secure'' else c)
       in Inr (case co_same_site opts of None \<Rightarrow> c | Some s \<Rightarrow> c @ ''; SameSite='' @ same_site_str s)))"

definition set_cookie_header :: "(str \<Rightarrow> str) \<Rightarrow> cookie_options \<Rightarrow> str \<Rightarrow> str \<Rightarrow> str result" where
  "set_cookie_header dbg opts name v =
     rbind (validate_cookie_name dbg name) (\<lambda>_.
     rbind (validate_cookie_value v) (\<lambda>_. cookie_header opts name v (co_max_age opts)))"

definition delete_cookie_header :: "(str \<Rightarrow> str) \<Rightarrow> cookie_options \<Rightarrow> str \<Rightarrow> str result" where
  "delete_cookie_header dbg opts name =
     rbind (validate_cookie_name dbg name) (\<lambda>_. cookie_header opts name [] (Some 0))"

section \<open>Lemmas\<close>

lemma header_name_lower: "is_header_name_byte (ascii_lower_char c) = is_header_name_byte c"
proof (cases "65 \<le> byte c \<and> byte c \<le> 90")
  case True
  then have "is_ascii_alpha c" "is_ascii_alpha (ascii_lower_char c)"
    by (simp_all add: is_ascii_alpha_def ascii_lower_byte)
  then show ?thesis unfolding is_header_name_byte_def by blast
next
  case False
  then have "ascii_lower_char c = c" unfolding ascii_lower_char_def by presburger
  then show ?thesis by simp
qed

lemma normalize_header_name_valid:
  "validate_header_name (normalize_header_name n) = validate_header_name n"
  by (simp add: validate_header_name_def normalize_header_name_def to_ascii_lowercase_def
      list_all_iff header_name_lower)

definition headers_normal :: "(str, str) btree \<Rightarrow> bool" where
  "headers_normal hs = (bt_wf hs \<and> list_all (\<lambda>k. normalize_header_name k = k) (map fst hs))"

lemma headers_normal_iff:
  "headers_normal hs \<longleftrightarrow> bt_wf hs \<and> (\<forall>k \<in> fst ` set hs. normalize_header_name k = k)"
  by (simp add: headers_normal_def list_all_iff)

lemma normalize_header_name_idem [simp]:
  "normalize_header_name (normalize_header_name n) = normalize_header_name n"
  by (simp add: normalize_header_name_def)

lemma headers_normal_insert:
  "headers_normal hs \<Longrightarrow> headers_normal (bt_insert (normalize_header_name n) v hs)"
  unfolding headers_normal_iff fst_bt_insert by simp

lemma headers_normal_Nil [simp]: "headers_normal []"
  by (simp add: headers_normal_def)

lemma fold_headers_normal:
  "headers_normal m \<Longrightarrow>
     headers_normal (fold (\<lambda>(k, v). bt_insert k v) (map (\<lambda>(n, v). (normalize_header_name n, v)) hs) m)"
  by (induction hs arbitrary: m) (auto simp: headers_normal_insert)

lemma normalize_headers_normal [simp]: "headers_normal (normalize_headers hs)"
  by (simp add: normalize_headers_def bt_of_list_def fold_headers_normal)

lemma get_header_normal:
  assumes "headers_normal hs"
  shows "get_header hs n = bt_get hs (normalize_header_name n)"
proof (cases "bt_get hs (normalize_header_name n)")
  case None
  have "List.find (\<lambda>(k, _). eq_ignore_ascii_case k n) hs = None"
  proof (rule ccontr)
    assume "List.find (\<lambda>(k, _). eq_ignore_ascii_case k n) hs \<noteq> None"
    then obtain k v where kv: "(k, v) \<in> set hs" "eq_ignore_ascii_case k n"
      by (auto dest: find_SomeD)
    have "k \<in> fst ` set hs" using kv(1) by (rule image_eqI [rotated]) simp
    with assms kv(2) have "k = normalize_header_name n"
      by (metis headers_normal_iff normalize_header_name_def eq_ignore_ascii_case_def)
    with \<open>k \<in> fst ` set hs\<close> None show False by (simp add: bt_get_None_iff)
  qed
  with None show ?thesis by (simp add: get_header_def)
qed (simp add: get_header_def)

lemma get_header_insert:
  "headers_normal hs \<Longrightarrow> get_header (bt_insert (normalize_header_name n) v hs) m =
     (if eq_ignore_ascii_case n m then Some v else get_header hs m)"
  using headers_normal_insert [of hs n v]
  by (auto simp: get_header_normal eq_ignore_ascii_case_def normalize_header_name_def)

lemma strict_content_length_Inr:
  "strict_content_length_loop bad confl vs expected = Inr r \<longleftrightarrow>
     (\<forall>v \<in> set vs. parse_content_length v \<noteq> None \<and> parse_content_length v = r)
     \<and> (case expected of Some e \<Rightarrow> r = Some e | None \<Rightarrow> vs = [] \<longrightarrow> r = None)"
  by (induction vs arbitrary: expected) (auto split: option.splits)

text \<open>The best match: the largest specificity, and among its ranges the largest quality.\<close>

definition best_of :: "(accepted_media_range \<Rightarrow> nat option) \<Rightarrow> accepted_media_range set
    \<Rightarrow> (nat \<times> rat) option \<Rightarrow> bool" where
  "best_of spec R best \<longleftrightarrow>
     (case best of
        None \<Rightarrow> (\<forall>r \<in> R. spec r = None)
      | Some (s, q) \<Rightarrow>
          (\<exists>r \<in> R. spec r = Some s \<and> amr_q r = q)
          \<and> (\<forall>r \<in> R. \<forall>t. spec r = Some t \<longrightarrow> t < s \<or> (t = s \<and> amr_q r \<le> q)))"

lemma best_of_step:
  assumes "best_of spec R best"
  shows "best_of spec (insert r R)
     (case spec r of None \<Rightarrow> best | Some s \<Rightarrow> best_match_step best s (amr_q r))"
proof (cases "spec r")
  case None
  with assms show ?thesis by (auto simp: best_of_def split: option.splits)
next
  case (Some s)
  show ?thesis
  proof (cases best)
    case None
    with assms Some show ?thesis by (auto simp: best_of_def)
  next
    case b: (Some bq)
    obtain t q where bq: "bq = (t, q)" by (cases bq)
    from assms b bq have ex: "\<exists>r \<in> R. spec r = Some t \<and> amr_q r = q"
      and le: "\<And>x u. x \<in> R \<Longrightarrow> spec x = Some u \<Longrightarrow> u < t \<or> (u = t \<and> amr_q x \<le> q)"
      by (auto simp: best_of_def)
    consider "t > s" | "t = s" | "t < s" by linarith
    then show ?thesis
    proof cases
      case 1
      with Some b bq ex le show ?thesis by (fastforce simp: best_of_def)
    next
      case 2
      with Some b bq ex le show ?thesis by (fastforce simp: best_of_def max_def)
    next
      case 3
      with Some b bq ex le show ?thesis by (fastforce simp: best_of_def)
    qed
  qed
qed

lemma best_match_loop_best:
  "best_of spec R best \<Longrightarrow> best_of spec (R \<union> set rs) (best_match_loop spec rs best)"
proof (induction rs arbitrary: R best)
  case (Cons r rs)
  from Cons.IH [OF best_of_step [OF Cons.prems, of r]] show ?case by simp
qed simp

lemma best_match_best: "best_of spec (set rs) (best_match_loop spec rs None)"
  using best_match_loop_best [of spec "{}" None rs] by (simp add: best_of_def)

lemma best_match_positive:
  "(case best_match_loop spec rs None of None \<Rightarrow> False | Some (_, q) \<Rightarrow> q > 0) \<longleftrightarrow>
     (\<exists>r \<in> set rs. amr_q r > 0 \<and> spec r \<noteq> None
        \<and> (\<forall>x \<in> set rs. \<forall>t. spec x = Some t \<longrightarrow> t \<le> the (spec r)))"
proof (cases "best_match_loop spec rs None")
  case None
  with best_match_best [of spec rs] show ?thesis by (auto simp: best_of_def)
next
  case (Some bq)
  obtain s q where bq: "bq = (s, q)" by (cases bq)
  from best_match_best [of spec rs] Some bq
  have ex: "\<exists>r \<in> set rs. spec r = Some s \<and> amr_q r = q"
    and le: "\<And>x u. x \<in> set rs \<Longrightarrow> spec x = Some u \<Longrightarrow> u < s \<or> (u = s \<and> amr_q x \<le> q)"
    by (auto simp: best_of_def)
  show ?thesis
  proof
    assume "case best_match_loop spec rs None of None \<Rightarrow> False | Some (_, q) \<Rightarrow> q > 0"
    with Some bq have "q > 0" by simp
    with ex le show "\<exists>r \<in> set rs. amr_q r > 0 \<and> spec r \<noteq> None
        \<and> (\<forall>x \<in> set rs. \<forall>t. spec x = Some t \<longrightarrow> t \<le> the (spec r))"
      by (metis less_imp_le option.distinct(1) option.sel order_refl)
  next
    assume "\<exists>r \<in> set rs. amr_q r > 0 \<and> spec r \<noteq> None
        \<and> (\<forall>x \<in> set rs. \<forall>t. spec x = Some t \<longrightarrow> t \<le> the (spec r))"
    then obtain r t where r: "r \<in> set rs" "amr_q r > 0" "spec r = Some t"
      and max: "\<And>x u. x \<in> set rs \<Longrightarrow> spec x = Some u \<Longrightarrow> u \<le> t" by auto
    from ex max have "s \<le> t" by blast
    with le [OF r(1,3)] r(2) have "q > 0" by auto
    with Some bq show "case best_match_loop spec rs None of None \<Rightarrow> False | Some (_, q) \<Rightarrow> q > 0"
      by simp
  qed
qed

text \<open>
  Negotiation of a JSON response. With an Accept header, JSON is acceptable exactly
  when some media range that covers JSON at the highest specificity present has a positive
  quality: a more specific range overrides a wildcard, whatever the order of the ranges.
\<close>

theorem accepts_json_exact:
  "accepts_json_response pq vals \<longleftrightarrow>
     vals = [] \<or>
     (\<exists>r \<in> set (accepted_ranges pq vals). amr_q r > 0 \<and> json_specificity r \<noteq> None
        \<and> (\<forall>x \<in> set (accepted_ranges pq vals). \<forall>t. json_specificity x = Some t \<longrightarrow>
             t \<le> the (json_specificity r)))"
  unfolding accepts_json_response_def best_match_positive by simp

theorem accepts_json_exact_witness:
  "\<not> accepts_json_response (\<lambda>s. if s = ''0'' then Some 0 else None)
     [''*/*, application/json;q=0'']"
proof -
  let ?pq = "\<lambda>s. if s = ''0'' then Some (0::rat) else None"
  have R: "accepted_ranges ?pq [''*/*, application/json;q=0'']
      = [\<lparr>amr_value = ''*/*'', amr_q = 1\<rparr>, \<lparr>amr_value = ''application/json'', amr_q = 0\<rparr>]"
    by code_simp
  have s: "json_specificity \<lparr>amr_value = ''*/*'', amr_q = 1\<rparr> = Some 0"
    "json_specificity \<lparr>amr_value = ''application/json'', amr_q = 0\<rparr> = Some 3" by code_simp+
  show ?thesis
    unfolding accepts_json_exact R by (auto simp: s)
qed

section \<open>Cookie headers carry no injected attributes\<close>

definition cookie_attrs :: "cookie_options \<Rightarrow> nat option \<Rightarrow> str list" where
  "cookie_attrs opts age =
     (case co_path opts of None \<Rightarrow> [] | Some p \<Rightarrow> [''Path='' @ p])
     @ (case co_domain opts of None \<Rightarrow> [] | Some d \<Rightarrow> [''Domain='' @ d])
     @ (case age of None \<Rightarrow> [] | Some m \<Rightarrow> [''Max-Age='' @ show_nat m])
     @ (if co_http_only opts then [''HttpOnly''] else [])
     @ (if co_secure opts then [''Secure''] else [])
     @ (case co_same_site opts of None \<Rightarrow> [] | Some s \<Rightarrow> [''SameSite='' @ same_site_str s])"

lemma show_nat_digits: "c \<in> set (show_nat n) \<Longrightarrow> is_ascii_digit c"
proof (induction n arbitrary: c rule: show_nat.induct)
  case (1 n)
  have d: "is_ascii_digit (char_of (48 + k))" if "k < 10" for k :: nat
    using that by (simp add: is_ascii_digit_def)
  show ?case
  proof (cases "n < 10")
    case True
    with 1 d show ?thesis by (subst (asm) (2) show_nat.simps) simp
  next
    case False
    with 1 d [of "n mod 10"] show ?thesis by (subst (asm) (2) show_nat.simps) auto
  qed
qed

definition attr_byte :: "char \<Rightarrow> bool" where
  "attr_byte c = (32 \<le> byte c \<and> byte c \<le> 126 \<and> c \<noteq> CHR '';'')"

lemma cookie_attribute_Inr:
  "cookie_attribute label key v c = Inr d \<Longrightarrow>
     d = c @ (case v of None \<Rightarrow> [] | Some w \<Rightarrow> key @ w) \<and> (\<forall>w. v = Some w \<longrightarrow> list_all attr_byte w)"
  by (cases v)
    (auto simp: cookie_attribute_def validate_cookie_attribute_def attr_byte_def list_all_iff
      result_simps split: if_splits)

lemma attr_bytes [simp]:
  "list_all attr_byte (show_nat n)" "list_all attr_byte (same_site_str s)"
  "list_all attr_byte ''Path=''" "list_all attr_byte ''Domain=''" "list_all attr_byte ''Max-Age=''"
  "list_all attr_byte ''SameSite=''" "list_all attr_byte ''HttpOnly''" "list_all attr_byte ''Secure''"
proof -
  show "list_all attr_byte (show_nat n)"
    using show_nat_digits [of _ n]
    by (fastforce simp: list_all_iff attr_byte_def is_ascii_digit_def byte_def)
  show "list_all attr_byte (same_site_str s)"
    by (cases s) (simp_all add: attr_byte_def byte_def)
qed (simp_all add: attr_byte_def byte_def)

lemma cookie_header_shape:
  assumes "cookie_header opts name v age = Inr h"
  shows "h = name @ ''='' @ v @ concat (map (\<lambda>a. CHR '';'' # CHR '' '' # a) (cookie_attrs opts age))"
    and "list_all (list_all attr_byte) (cookie_attrs opts age)"
proof -
  from assms obtain c d where
    c: "cookie_attribute ''cookie path'' ''; Path='' (co_path opts) (name @ ''='' @ v) = Inr c"
    and d: "cookie_attribute ''cookie domain'' ''; Domain='' (co_domain opts) c = Inr d"
    and h: "h = d @ (case age of None \<Rightarrow> [] | Some m \<Rightarrow> ''; Max-Age='' @ show_nat m)
        @ (if co_http_only opts then ''; HttpOnly'' else [])
        @ (if co_secure opts then ''; Secure'' else [])
        @ (case co_same_site opts of None \<Rightarrow> [] | Some s \<Rightarrow> ''; SameSite='' @ same_site_str s)"
    by (auto simp: cookie_header_def result_simps Let_def split: option.splits)
  note c = cookie_attribute_Inr [OF c] and d = cookie_attribute_Inr [OF d]
  show "h = name @ ''='' @ v @ concat (map (\<lambda>a. CHR '';'' # CHR '' '' # a) (cookie_attrs opts age))"
    using c d h by (simp add: cookie_attrs_def split: option.split)
  show "list_all (list_all attr_byte) (cookie_attrs opts age)"
    using c d by (simp add: cookie_attrs_def attr_byte_def byte_def split: option.split)
qed

lemma split_on_attrs:
  "c \<notin> set x \<Longrightarrow> (\<And>a. a \<in> set as \<Longrightarrow> c \<notin> set a) \<Longrightarrow> d \<noteq> c \<Longrightarrow>
     split_on c (x @ concat (map (\<lambda>a. c # d # a) as)) = x # map (\<lambda>a. d # a) as"
proof (induction as arbitrary: x)
  case (Cons a as)
  then show ?case using Cons.IH [of "d # a"] by (simp add: split_on_append)
qed (simp add: split_on_free)

lemma ws_prefix_printable: "33 \<le> byte c \<Longrightarrow> byte c \<le> 126 \<Longrightarrow> ws_prefix (c # cs) = 0"
  by (cases cs; cases "tl cs") (auto simp: ws_prefix_def)

lemma ws_suffix_printable: "33 \<le> byte c \<Longrightarrow> byte c \<le> 126 \<Longrightarrow> ws_suffix_rev (c # cs) = 0"
  by (cases cs; cases "tl cs") (auto simp: ws_suffix_rev_def)

lemma trim_printable: "list_all (\<lambda>c. 33 \<le> byte c \<and> byte c \<le> 126) s \<Longrightarrow> trim s = s"
proof (cases s)
  case (Cons c cs)
  assume p: "list_all (\<lambda>c. 33 \<le> byte c \<and> byte c \<le> 126) s"
  then have "trim_start s = s"
    using Cons by (subst trim_start.simps) (simp add: ws_prefix_printable)
  moreover obtain d ds where r: "rev s = d # ds" using Cons by (cases "rev s") auto
  then have "d \<in> set s" by (metis list.set_intros(1) set_rev)
  with p have "ws_suffix_rev (rev s) = 0" by (simp add: r list_all_iff ws_suffix_printable)
  then have "trim_start_rev (rev s) = rev s" by (subst trim_start_rev.simps) simp
  ultimately show ?thesis by (simp add: trim_def trim_end_def)
qed simp

lemma cookie_name_byte: "is_cookie_name_byte c \<Longrightarrow> 33 \<le> byte c \<and> byte c \<le> 126 \<and> c \<noteq> CHR '';'' \<and> c \<noteq> CHR ''=''"
  by (auto simp: is_cookie_name_byte_def is_ascii_digit_def is_ascii_alpha_def byte_def)

lemma cookie_value_byte: "is_cookie_value_byte c \<Longrightarrow> 33 \<le> byte c \<and> byte c \<le> 126 \<and> c \<noteq> CHR '';'' \<and> c \<noteq> CHR 34"
  by (auto simp: is_cookie_value_byte_def Let_def byte_def)

lemma list_all_impD: "list_all P xs \<Longrightarrow> (\<And>x. P x \<Longrightarrow> Q x) \<Longrightarrow> list_all Q xs"
  by (auto simp: list_all_iff)

text \<open>A pair of a cookie name and a printable value without delimiters is read back as it is.\<close>

definition plain_cookie_byte :: "char \<Rightarrow> bool" where
  "plain_cookie_byte c = (33 \<le> byte c \<and> byte c \<le> 126 \<and> c \<noteq> CHR '';'' \<and> c \<noteq> CHR 34)"

lemma cookie_pair_read_back:
  assumes "list_all is_cookie_name_byte name" "name \<noteq> []" "list_all plain_cookie_byte v"
  shows "CHR '';'' \<notin> set (name @ ''='' @ v)"
    and "parse_cookie_header_values [name @ ''='' @ v] = Inr [(name, v)]"
proof -
  have nb: "list_all (\<lambda>c. 33 \<le> byte c \<and> byte c \<le> 126 \<and> c \<noteq> CHR '';'' \<and> c \<noteq> CHR ''='') name"
    using assms(1) by (rule list_all_impD) (rule cookie_name_byte)
  note vb = assms(3) [unfolded plain_cookie_byte_def]
  show free: "CHR '';'' \<notin> set (name @ ''='' @ v)"
    using nb vb by (auto simp: list_all_iff)
  have np: "list_all (\<lambda>c. 33 \<le> byte c \<and> byte c \<le> 126) name"
    and vp: "list_all (\<lambda>c. 33 \<le> byte c \<and> byte c \<le> 126) v"
    using nb vb by (simp_all add: list_all_iff)
  have "trim (name @ ''='' @ v) = name @ ''='' @ v"
    using np vp by (intro trim_printable) (simp add: byte_def)
  moreover note trim_printable [OF np] trim_printable [OF vp]
  moreover have "CHR ''='' \<notin> set name" using nb by (auto simp: list_all_iff)
  then have "split_once (CHR ''='') (name @ ''='' @ v) = Some (name, v)"
    unfolding split_once_Some_iff by simp
  moreover have "unquote_cookie_value v = v"
    using vb by (cases v) (auto simp: unquote_cookie_value_def)
  ultimately have "parse_cookie_pair (name @ ''='' @ v) = Inr (Some (name, v))"
    using assms(2) by (simp add: parse_cookie_pair_def)
  with split_on_free [OF free] show "parse_cookie_header_values [name @ ''='' @ v] = Inr [(name, v)]"
    by (simp add: parse_cookie_header_values_def List.map_filter_simps)
qed

lemma header_value_attrs:
  "list_all (list_all attr_byte) as \<Longrightarrow>
   list_all is_header_value_byte (concat (map (\<lambda>a. CHR '';'' # CHR '' '' # a) as))"
proof (induction as)
  case (Cons a as)
  from Cons.prems have "list_all attr_byte a" by simp
  then have "list_all is_header_value_byte a"
    by (rule list_all_impD) (simp add: is_header_value_byte_def attr_byte_def)
  moreover have "is_header_value_byte (CHR '';'')" "is_header_value_byte (CHR '' '')"
    by (simp_all add: is_header_value_byte_def byte_def)
  ultimately show ?case using Cons by simp
qed simp

text \<open>
  C16. An accepted cookie cannot smuggle anything into its header: the header is a valid
  header value, it splits at semicolons into exactly the pair and the attributes that the
  options ask for, and a client that sends the pair back is read as the same name and value.
\<close>

theorem set_cookie_safe:
  assumes "set_cookie_header dbg opts name v = Inr h"
  shows "validate_header_value h = Inr ()
     \<and> split_on (CHR '';'') h = (name @ ''='' @ v) # map (\<lambda>a. CHR '' '' # a) (cookie_attrs opts (co_max_age opts))
     \<and> parse_cookie_header_values [name @ ''='' @ v] = Inr [(name, v)]"
proof (intro conjI)
  from assms have n: "list_all is_cookie_name_byte name" "name \<noteq> []"
    and v: "list_all is_cookie_value_byte v"
    and c: "cookie_header opts name v (co_max_age opts) = Inr h"
    by (auto simp: set_cookie_header_def validate_cookie_name_def validate_cookie_value_def
        result_simps split: if_splits)
  have vb: "list_all plain_cookie_byte v"
    using v by (rule list_all_impD) (simp add: plain_cookie_byte_def cookie_value_byte)
  note h = cookie_header_shape(1) [OF c] and attrs = cookie_header_shape(2) [OF c]
  have "list_all is_header_value_byte name" "list_all is_header_value_byte v"
    using n(1) v by (auto elim!: list_all_impD dest!: cookie_name_byte cookie_value_byte simp: is_header_value_byte_def)
  then show "validate_header_value h = Inr ()"
    using header_value_attrs [OF attrs] by (simp add: validate_header_value_def h is_header_value_byte_def byte_def)
  have "CHR '';'' \<notin> set a" if "a \<in> set (cookie_attrs opts (co_max_age opts))" for a
    using attrs that by (auto simp: list_all_iff attr_byte_def)
  with cookie_pair_read_back(1) [OF n vb] show "split_on (CHR '';'') h
      = (name @ ''='' @ v) # map (\<lambda>a. CHR '' '' # a) (cookie_attrs opts (co_max_age opts))"
    using split_on_attrs [of "CHR '';''" "name @ ''='' @ v" "cookie_attrs opts (co_max_age opts)" "CHR '' ''"]
    unfolding h by simp
  show "parse_cookie_header_values [name @ ''='' @ v] = Inr [(name, v)]"
    using n vb by (rule cookie_pair_read_back(2))
qed

theorem set_cookie_safe_witness:
  "\<exists>h. set_cookie_header id (cookie_options_default\<lparr>co_secure := True\<rparr>) ''sid'' ''abc'' = Inr h
     \<and> split_on (CHR '';'') h = [''sid=abc'', '' Path=/'', '' Secure'']"
proof -
  let ?opts = "cookie_options_default\<lparr>co_secure := True\<rparr>"
  have h: "set_cookie_header id ?opts ''sid'' ''abc'' = Inr ''sid=abc; Path=/; Secure''"
    by code_simp
  have a: "cookie_attrs ?opts (co_max_age ?opts) = [''Path=/'', ''Secure'']" by code_simp
  from set_cookie_safe [OF h] a h show ?thesis by simp
qed

end
