(* ===== verification/Http_Basics.thy ===== *)
theory Http_Basics
  imports Errors
begin

text \<open>
  \<open>src/http/method.rs\<close>, \<open>src/security/http_methods.rs\<close>, \<open>src/percent.rs\<close> and
  \<open>src/http/query.rs\<close>: the HTTP methods and sets of methods, the check of percent
  escapes and the parsing of query strings. The decoder itself
  (\<open>percent_encoding::percent_decode_str(..).decode_utf8()\<close>) is a third-party crate: the
  argument \<open>dec\<close>, which returns the decoded text or the message of its error.
\<close>

section \<open>Methods\<close>

datatype http_method = M_All | M_Get | M_Post | M_Put | M_Patch | M_Delete | M_Options | M_Head

definition standard_methods :: "http_method list" where
  "standard_methods = [M_Get, M_Post, M_Put, M_Patch, M_Delete, M_Options, M_Head]"

primrec method_as_str :: "http_method \<Rightarrow> str" where
  "method_as_str M_All = ''ALL''"
| "method_as_str M_Get = ''GET''"
| "method_as_str M_Post = ''POST''"
| "method_as_str M_Put = ''PUT''"
| "method_as_str M_Patch = ''PATCH''"
| "method_as_str M_Delete = ''DELETE''"
| "method_as_str M_Options = ''OPTIONS''"
| "method_as_str M_Head = ''HEAD''"

definition is_wildcard :: "http_method \<Rightarrow> bool" where
  "is_wildcard m = (m = M_All)"

definition is_standard :: "http_method \<Rightarrow> bool" where
  "is_standard m = (\<not> is_wildcard m)"

definition method_matches :: "http_method \<Rightarrow> http_method \<Rightarrow> bool" where
  "method_matches self req = (self = req \<or> (is_wildcard self \<and> is_standard req))"

definition method_from_str :: "str \<Rightarrow> http_method result" where
  "method_from_str s =
     (if s = ''GET'' then Inr M_Get
      else if s = ''POST'' then Inr M_Post
      else if s = ''PUT'' then Inr M_Put
      else if s = ''PATCH'' then Inr M_Patch
      else if s = ''DELETE'' then Inr M_Delete
      else if s = ''OPTIONS'' then Inr M_Options
      else if s = ''HEAD'' then Inr M_Head
      else Inl (MethodNotAllowed s))"

text \<open>The derived \<open>Ord\<close>: declaration order. Sets of methods iterate in it.\<close>

primrec method_rank :: "http_method \<Rightarrow> nat" where
  "method_rank M_All = 0"
| "method_rank M_Get = 1"
| "method_rank M_Post = 2"
| "method_rank M_Put = 3"
| "method_rank M_Patch = 4"
| "method_rank M_Delete = 5"
| "method_rank M_Options = 6"
| "method_rank M_Head = 7"

lemma method_rank_inj: "method_rank a = method_rank b \<Longrightarrow> a = b"
  by (cases a; cases b) simp_all

instantiation http_method :: linorder
begin

definition less_eq_http_method :: "http_method \<Rightarrow> http_method \<Rightarrow> bool" where
  "less_eq_http_method a b = (method_rank a \<le> method_rank b)"

definition less_http_method :: "http_method \<Rightarrow> http_method \<Rightarrow> bool" where
  "less_http_method a b = (method_rank a < method_rank b)"

instance
  by standard (auto simp: less_eq_http_method_def less_http_method_def intro: method_rank_inj)

end

lemma method_roundtrip: "is_standard m \<Longrightarrow> method_from_str (method_as_str m) = Inr m"
  by (cases m) (simp_all add: method_from_str_def is_standard_def is_wildcard_def)

lemma method_from_str_sound: "method_from_str s = Inr m \<Longrightarrow> method_as_str m = s \<and> is_standard m"
  by (auto simp: method_from_str_def is_standard_def is_wildcard_def split: if_splits)

lemma standard_methods_iff: "m \<in> set standard_methods \<longleftrightarrow> is_standard m"
  by (cases m) (simp_all add: standard_methods_def is_standard_def is_wildcard_def)

subsection \<open>Sets of methods\<close>

definition insert_http_method :: "http_method \<Rightarrow> http_method list \<Rightarrow> http_method list" where
  "insert_http_method m ms =
     (if is_wildcard m then fold bs_insert standard_methods ms else bs_insert m ms)"

definition collect_http_methods :: "http_method list \<Rightarrow> http_method list" where
  "collect_http_methods ms = fold insert_http_method ms []"

lemma set_insert_http_method:
  "set (insert_http_method m ms) = (if is_wildcard m then set standard_methods else {m}) \<union> set ms"
  by (auto simp: insert_http_method_def set_fold_bs_insert)

lemma insert_http_method_sorted:
  "sorted_wrt (<) ms \<Longrightarrow> sorted_wrt (<) (insert_http_method m ms)"
  by (simp add: insert_http_method_def bs_fold_sorted)

text \<open>A route set never holds the wildcard: it is expanded when it is inserted.\<close>

lemma collect_http_methods_standard: "m \<in> set (collect_http_methods ms) \<Longrightarrow> is_standard m"
proof -
  have "\<forall>m \<in> set acc. is_standard m \<Longrightarrow> \<forall>m \<in> set (fold insert_http_method ms acc). is_standard m"
    for acc
  proof (induction ms arbitrary: acc)
    case (Cons a ms)
    have "\<forall>m \<in> set (insert_http_method a acc). is_standard m"
      using Cons.prems
      by (auto simp: set_insert_http_method standard_methods_iff is_standard_def)
    then show ?case using Cons.IH by simp
  qed simp
  from this [of "[]"] show "m \<in> set (collect_http_methods ms) \<Longrightarrow> is_standard m"
    by (auto simp: collect_http_methods_def)
qed

section \<open>Percent escapes\<close>

text \<open>The scanning loop of \<open>validate_percent_encoding\<close>, by its index.\<close>

function pct_scan :: "str \<Rightarrow> nat \<Rightarrow> bool" where
  "pct_scan bs i =
     (if i < length bs then
        (if bs ! i = CHR ''%'' then
           (if length bs \<le> i + 2 \<or> \<not> is_ascii_hexdigit (bs ! (i + 1))
               \<or> \<not> is_ascii_hexdigit (bs ! (i + 2))
            then False else pct_scan bs (i + 3))
         else pct_scan bs (i + 1))
      else True)"
  by pat_completeness auto
termination
  by (relation "measure (\<lambda>(bs, i). length bs - i)") auto

declare pct_scan.simps [simp del]

definition validate_percent_encoding :: "str \<Rightarrow> unit result" where
  "validate_percent_encoding v =
     (if pct_scan v 0 then Inr ()
      else Inl (BadRequest (''invalid percent encoding: '' @ v)))"

definition decode_percent_encoded :: "(str \<Rightarrow> str + str) \<Rightarrow> str \<Rightarrow> str result" where
  "decode_percent_encoded dec v =
     rbind (validate_percent_encoding v)
       (\<lambda>_. case dec v of Inl e \<Rightarrow> Inl (BadRequest e) | Inr s \<Rightarrow> Inr s)"

text \<open>What the loop accepts: every percent sign starts an escape of two hex digits.\<close>

fun pct_wf :: "str \<Rightarrow> bool" where
  "pct_wf [] = True"
| "pct_wf (c # cs) =
     (if c = CHR ''%'' then
        (case cs of a # b # ds \<Rightarrow> is_ascii_hexdigit a \<and> is_ascii_hexdigit b \<and> pct_wf ds
         | _ \<Rightarrow> False)
      else pct_wf cs)"

lemma pct_scan_drop: "pct_scan bs i = pct_wf (drop i bs)"
proof (induction bs i rule: pct_scan.induct)
  case (1 bs i)
  show ?case
  proof (cases "i < length bs")
    case False
    then show ?thesis by (subst pct_scan.simps) simp
  next
    case lt: True
    then have drop: "drop i bs = bs ! i # drop (i + 1) bs"
      by (simp add: Cons_nth_drop_Suc)
    show ?thesis
    proof (cases "bs ! i = CHR ''%''")
      case False
      with lt drop "1.IH"(2) show ?thesis by (subst pct_scan.simps) simp
    next
      case pc: True
      show ?thesis
      proof (cases "i + 2 < length bs")
        case False
        then have len: "length (drop (i + 1) bs) < 2" by simp
        have "drop (i + 1) bs \<noteq> a # b # ds" for a b ds
        proof
          assume "drop (i + 1) bs = a # b # ds"
          then have "length (drop (i + 1) bs) = Suc (Suc (length ds))" by simp
          with len show False by simp
        qed
        with lt drop pc False show ?thesis
          by (subst pct_scan.simps) (auto split: list.split)
      next
        case True
        then have "drop (i + 1) bs = bs ! (i + 1) # bs ! (i + 2) # drop (i + 3) bs"
          by (simp add: Cons_nth_drop_Suc eval_nat_numeral)
        with lt drop pc True "1.IH"(1) show ?thesis
          by (subst pct_scan.simps) auto
      qed
    qed
  qed
qed

lemma validate_percent_encoding_iff: "is_ok (validate_percent_encoding v) \<longleftrightarrow> pct_wf v"
  by (simp add: validate_percent_encoding_def pct_scan_drop)

lemma pct_wf_no_percent: "CHR ''%'' \<notin> set v \<Longrightarrow> pct_wf v"
  by (induction v) auto

lemma decode_percent_encoded_wf: "decode_percent_encoded dec v = Inr s \<Longrightarrow> pct_wf v \<and> dec v = Inr s"
  by (auto simp: decode_percent_encoded_def result_simps validate_percent_encoding_def pct_scan_drop
      split: sum.splits if_splits)

text \<open>
  The index loop that checks percent escapes accepts exactly the strings in which each
  percent sign is followed by two hex digits, so that the decoder only ever sees
  well-formed escapes; a rejected string is a 400 error.
\<close>

theorem percent_check_exact:
  "(\<forall>s. decode_percent_encoded dec v = Inr s \<longrightarrow> pct_wf v \<and> dec v = Inr s)
   \<and> (\<not> pct_wf v \<longrightarrow> decode_percent_encoded dec v
        = Inl (BadRequest (''invalid percent encoding: '' @ v)))
   \<and> is_ok (validate_percent_encoding v) = pct_wf v"
  by (auto simp: decode_percent_encoded_wf validate_percent_encoding_iff)
    (simp_all add: decode_percent_encoded_def validate_percent_encoding_def pct_scan_drop)

theorem percent_check_exact_witness:
  "decode_percent_encoded Inr ''a%2Fb'' = Inr ''a%2Fb''
   \<and> decode_percent_encoded Inr ''a%2''
      = Inl (BadRequest (''invalid percent encoding: '' @ ''a%2''))"
proof -
  have "\<not> pct_wf ''a%2''" by simp
  then have "decode_percent_encoded Inr ''a%2''
      = Inl (BadRequest (''invalid percent encoding: '' @ ''a%2''))"
    using percent_check_exact [of Inr "''a%2''"] by blast
  moreover have "decode_percent_encoded Inr ''a%2Fb'' = Inr ''a%2Fb''"
    by (simp add: decode_percent_encoded_def validate_percent_encoding_def pct_scan_drop
        is_ascii_hexdigit_def is_ascii_digit_def byte_def)
  ultimately show ?thesis by blast
qed

section \<open>Query strings\<close>

definition decode_query_part :: "(str \<Rightarrow> str + str) \<Rightarrow> str \<Rightarrow> str result" where
  "decode_query_part dec v =
     decode_percent_encoded dec (map (\<lambda>c. if c = CHR ''+'' then CHR '' '' else c) v)"

definition parse_query_pair :: "(str \<Rightarrow> str + str) \<Rightarrow> str \<Rightarrow> (str \<times> str) result" where
  "parse_query_pair dec pair =
     (let (name, v) = (case split_once (CHR ''='') pair of None \<Rightarrow> (pair, []) | Some nv \<Rightarrow> nv)
      in rbind (decode_query_part dec name)
           (\<lambda>n. rbind (decode_query_part dec v) (\<lambda>w. Inr (n, w))))"

definition parse_query_pairs :: "(str \<Rightarrow> str + str) \<Rightarrow> str \<Rightarrow> (str \<times> str) list result" where
  "parse_query_pairs dec q =
     (if q = [] then Inr []
      else rcollect (parse_query_pair dec) (filter (\<lambda>p. p \<noteq> []) (split_on (CHR ''&'') q)))"

definition parse_query :: "(str \<Rightarrow> str + str) \<Rightarrow> str \<Rightarrow> (str, str) btree" where
  "parse_query dec q =
     (case parse_query_pairs dec q of Inl _ \<Rightarrow> [] | Inr ps \<Rightarrow> bt_of_list ps)"

definition split_path_query ::
    "(str \<Rightarrow> str + str) \<Rightarrow> str \<Rightarrow> str \<times> str option \<times> (str, str) btree" where
  "split_path_query dec v =
     (case split_once (CHR ''?'') v of
        Some (path, query) \<Rightarrow> (path, Some query, parse_query dec query)
      | None \<Rightarrow> (v, None, []))"

lemma bt_of_list_fold_get:
  "bt_get (fold (\<lambda>(k, v). bt_insert k v) ps m) x = or_else (map_of (rev ps) x) (bt_get m x)"
  by (induction ps arbitrary: m) (auto simp: map_add_def or_else_def split: option.splits)

lemma bt_of_list_get: "bt_get (bt_of_list ps) x = map_of (rev ps) x"
  unfolding bt_of_list_def bt_of_list_fold_get
  by (cases "map_of (rev ps) x") auto

lemma split_path_query_path: "CHR ''?'' \<notin> set (fst (split_path_query dec v))"
  by (auto simp: split_path_query_def split_once_Some_iff split_once_None_iff split: option.splits)

lemma split_path_query_recompose:
  "split_path_query dec v = (path, q, m) \<Longrightarrow>
     v = (case q of None \<Rightarrow> path | Some s \<Rightarrow> path @ ''?'' @ s)"
  by (auto simp: split_path_query_def split_once_Some_iff split: option.splits)

end
