(* ===== verification/Host_Pattern.thy ===== *)
theory Host_Pattern
  imports Errors
begin

text \<open>
  \<open>src/routing/host.rs\<close>: host patterns. A pattern is a list of labels separated by dots, a
  label is a literal, compared without ASCII case, or a parameter \<open>{name}\<close> or \<open>:name\<close>.
  Unlike paths there is no wildcard, so pattern and host have the same number of labels.
\<close>

section \<open>Labels and headers\<close>

definition normalize_host_header :: "str \<Rightarrow> str option" where
  "normalize_host_header v =
     (let v = trim v in
      if v = [] then None
      else (case strip_prefix_str ''['' v of
              Some rest \<Rightarrow> map_option fst (split_once (CHR '']'') rest)
            | None \<Rightarrow>
                opt_filter (\<lambda>host. host \<noteq> [])
                  (Some (case split_once (CHR '':'') v of None \<Rightarrow> v | Some (host, _) \<Rightarrow> host))))"

definition split_host :: "str \<Rightarrow> str list" where
  "split_host host = filter (\<lambda>l. l \<noteq> []) (split_on (CHR ''.'') (trim_char (CHR ''.'') host))"

definition host_param_name :: "str \<Rightarrow> str option" where
  "host_param_name label =
     opt_filter (\<lambda>n. n \<noteq> [] \<and> \<not> contains_any [CHR ''{'', CHR ''}'', CHR '':'', CHR ''.''] n)
       (or_else (Option.bind (strip_prefix_str ''{'' label) (strip_suffix_str ''}''))
          (strip_prefix_str '':'' label))"

section \<open>Validation\<close>

definition validate_host_label :: "str \<Rightarrow> str \<Rightarrow> str list \<Rightarrow> str list result" where
  "validate_host_label pattern label params =
     (if label = [] then Inl (InvalidHostPattern pattern)
      else if \<not> contains_any [CHR ''{'', CHR ''}'', CHR '':''] label then Inr params
      else (case host_param_name label of
              None \<Rightarrow> Inl (InvalidHostPattern pattern)
            | Some name \<Rightarrow> if List.member params name then Inl (InvalidHostPattern pattern)
                           else Inr (bs_insert name params)))"

fun validate_host_labels :: "str \<Rightarrow> str list \<Rightarrow> str list \<Rightarrow> unit result" where
  "validate_host_labels pattern [] params = Inr ()"
| "validate_host_labels pattern (l # ls) params =
     rbind (validate_host_label pattern l params) (validate_host_labels pattern ls)"

definition validate_host_pattern :: "str \<Rightarrow> unit result" where
  "validate_host_pattern pattern =
     (if trim pattern = [] \<or> contains_any [CHR ''/'', CHR ''?'', CHR ''#''] pattern
         \<or> has_whitespace pattern
      then Inl (InvalidHostPattern pattern)
      else validate_host_labels pattern (split_host pattern) [])"

section \<open>Matching\<close>

fun match_host_loop :: "(str \<times> str) list \<Rightarrow> (str, str) btree \<Rightarrow> (str, str) btree option" where
  "match_host_loop [] ps = Some ps"
| "match_host_loop ((p, v) # rest) ps =
     (case host_param_name p of
        Some name \<Rightarrow> match_host_loop rest (bt_insert name v ps)
      | None \<Rightarrow> if \<not> eq_ignore_ascii_case p v then None else match_host_loop rest ps)"

definition host_or_header :: "str \<Rightarrow> str" where
  "host_or_header host = (case normalize_host_header host of None \<Rightarrow> host | Some h \<Rightarrow> h)"

definition match_host_params :: "str \<Rightarrow> str \<Rightarrow> (str, str) btree option result" where
  "match_host_params pattern host =
     rbind (validate_host_pattern pattern) (\<lambda>_.
       let pattern_labels = split_host pattern; host_labels = split_host (host_or_header host)
       in if length pattern_labels \<noteq> length host_labels then Inr None
          else Inr (match_host_loop (zip pattern_labels host_labels) []))"

definition match_host_shape :: "str \<Rightarrow> str \<Rightarrow> bool" where
  "match_host_shape pattern host =
     (let pattern_labels = split_host pattern; host_labels = split_host (host_or_header host)
      in length pattern_labels = length host_labels
         \<and> list_all (\<lambda>(p, v). host_param_name p \<noteq> None \<or> eq_ignore_ascii_case p v)
             (zip pattern_labels host_labels))"

definition host_label_key :: "str \<Rightarrow> str" where
  "host_label_key label =
     (if host_param_name label \<noteq> None then ''{}'' else to_ascii_lowercase label)"

definition host_shape_key :: "str \<Rightarrow> str" where
  "host_shape_key pattern = join_with ''.'' (map host_label_key (split_host pattern))"

definition host_param_names :: "str \<Rightarrow> str list" where
  "host_param_names pattern = List.map_filter host_param_name (split_host pattern)"

definition host_specificity :: "str option \<Rightarrow> nat list" where
  "host_specificity pattern =
     (case pattern of
        Some p \<Rightarrow> map (\<lambda>l. if host_param_name l = None then 1 else 0) (split_host p)
      | None \<Rightarrow> [0])"

section \<open>Lemmas\<close>

lemma split_host_label: "l \<in> set (split_host h) \<Longrightarrow> l \<noteq> [] \<and> CHR ''.'' \<notin> set l"
  by (auto simp: split_host_def dest: split_on_no_sep)

lemma host_labels_checked:
  "validate_host_labels pattern ls params = Inr () \<Longrightarrow>
     (\<forall>l \<in> set ls. l \<noteq> [] \<and> (host_param_name l = None \<longrightarrow> CHR ''{'' \<notin> set l \<and> CHR '':'' \<notin> set l))
     \<and> distinct (List.map_filter host_param_name ls)
     \<and> set (List.map_filter host_param_name ls) \<inter> set params = {}"
proof (induction ls arbitrary: params)
  case (Cons l ls)
  from Cons.prems obtain ps where ps: "validate_host_label pattern l params = Inr ps"
    and rest: "validate_host_labels pattern ls ps = Inr ()"
    by (auto simp: result_simps)
  have name: "contains_any [CHR ''{'', CHR ''}'', CHR '':''] l" if "host_param_name l = Some n" for n
  proof -
    from that have "strip_prefix_str ''{'' l \<noteq> None \<or> strip_prefix_str '':'' l \<noteq> None"
      by (cases "strip_prefix_str ''{'' l"; cases "strip_prefix_str '':'' l")
        (simp_all add: host_param_name_def)
    then obtain r where "l = ''{'' @ r \<or> l = '':'' @ r"
      by (metis strip_prefix_Some_iff option.exhaust)
    then show ?thesis by (auto simp: contains_any_def)
  qed
  show ?case
  proof (cases "host_param_name l")
    case None
    with ps have "ps = params" "l \<noteq> []" "CHR ''{'' \<notin> set l" "CHR '':'' \<notin> set l"
      by (auto simp: validate_host_label_def contains_any_iff split: if_splits)
    with Cons.IH [OF rest] None show ?thesis by (simp add: List.map_filter_simps)
  next
    case (Some n)
    with ps name [OF Some] have "ps = bs_insert n params" "n \<notin> set params" "l \<noteq> []"
      by (auto simp: validate_host_label_def split: if_splits)
    with Cons.IH [OF rest] Some show ?thesis by (auto simp: List.map_filter_simps)
  qed
qed (simp add: List.map_filter_simps)

lemma host_pattern_checked:
  assumes "validate_host_pattern p = Inr ()"
  shows "\<forall>l \<in> set (split_host p). host_param_name l = None \<longrightarrow> CHR ''{'' \<notin> set l \<and> CHR '':'' \<notin> set l"
    and "distinct (host_param_names p)"
  using assms host_labels_checked [of p "split_host p" "[]"]
  by (auto simp: validate_host_pattern_def host_param_names_def split: if_splits)

lemma match_host_loop_None_iff:
  "match_host_loop pvs ps = None \<longleftrightarrow>
     \<not> list_all (\<lambda>(p, v). host_param_name p \<noteq> None \<or> eq_ignore_ascii_case p v) pvs"
  by (induction pvs ps rule: match_host_loop.induct) (auto split: option.splits)

lemma match_host_loop_keep:
  "match_host_loop pvs ps = Some m \<Longrightarrow> k \<notin> set (List.map_filter host_param_name (map fst pvs)) \<Longrightarrow>
     bt_get m k = bt_get ps k"
  by (induction pvs ps rule: match_host_loop.induct)
    (auto simp: List.map_filter_simps split: option.splits if_splits)

lemma match_host_loop_get:
  "match_host_loop pvs ps = Some m \<Longrightarrow> distinct (List.map_filter host_param_name (map fst pvs)) \<Longrightarrow>
     (p, v) \<in> set pvs \<Longrightarrow> host_param_name p = Some n \<Longrightarrow> bt_get m n = Some v"
proof (induction pvs ps rule: match_host_loop.induct)
  case (2 q w rest ps)
  show ?case
  proof (cases "host_param_name q")
    case None
    with "2.prems" "2.IH"(1) show ?thesis
      by (auto simp: List.map_filter_simps split: if_splits)
  next
    case (Some k)
    show ?thesis
    proof (cases "(p, v) = (q, w)")
      case True
      with Some "2.prems" show ?thesis
        using match_host_loop_keep [of rest "bt_insert k w ps" m n]
        by (simp add: List.map_filter_simps)
    next
      case False
      with Some "2.prems" "2.IH"(2) [OF Some] show ?thesis
        by (auto simp: List.map_filter_simps)
    qed
  qed
qed simp

lemma lower_brace: "ascii_lower_char c = CHR ''{'' \<longleftrightarrow> c = CHR ''{''"
  by (rule ascii_lower_eq_nonletter) (simp_all add: byte_def)

lemma lower_dot: "ascii_lower_char c = CHR ''.'' \<longleftrightarrow> c = CHR ''.''"
  by (rule ascii_lower_eq_nonletter) (simp_all add: byte_def)

lemma lower_no_dot: "CHR ''.'' \<notin> set l \<Longrightarrow> CHR ''.'' \<notin> set (to_ascii_lowercase l)"
  using lower_dot by (force simp: to_ascii_lowercase_def)

lemma lower_no_brace: "CHR ''{'' \<notin> set l \<Longrightarrow> to_ascii_lowercase l \<noteq> ''{}''"
  by (auto simp: to_ascii_lowercase_def map_eq_Cons_conv lower_brace)

lemma host_key_label:
  assumes "\<forall>l \<in> set (split_host p). host_param_name l = None \<longrightarrow> CHR ''{'' \<notin> set l \<and> CHR '':'' \<notin> set l"
  shows "k \<in> set (map host_label_key (split_host p)) \<Longrightarrow> CHR ''.'' \<notin> set k \<and> k \<noteq> []"
  using split_host_label [of _ p] lower_no_dot
  by (auto simp: host_label_key_def to_ascii_lowercase_def split: if_splits)

lemma join_with_dot_inj:
  assumes "join_with ''.'' xs = join_with ''.'' ys"
    and "\<And>x. x \<in> set xs \<Longrightarrow> CHR ''.'' \<notin> set x \<and> x \<noteq> []" "\<And>y. y \<in> set ys \<Longrightarrow> CHR ''.'' \<notin> set y \<and> y \<noteq> []"
  shows "xs = ys"
proof -
  have nil: "zs = []" if "join_with ''.'' zs = []" "\<And>z. z \<in> set zs \<Longrightarrow> z \<noteq> []" for zs
    using that by (cases zs rule: remdups_adj.cases) auto
  show ?thesis
  proof (cases "xs = [] \<or> ys = []")
    case True
    with assms nil [of xs] nil [of ys] show ?thesis by (metis join_with.simps(1))
  next
    case False
    with assms show ?thesis using split_join [of xs "CHR ''.''"] split_join [of ys "CHR ''.''"] by metis
  qed
qed

lemma label_match_key:
  assumes "host_param_name p = None \<longrightarrow> CHR ''{'' \<notin> set p"
  shows "(host_param_name p \<noteq> None \<or> eq_ignore_ascii_case p v)
     \<longleftrightarrow> host_label_key p = ''{}'' \<or> host_label_key p = to_ascii_lowercase v"
  using assms lower_no_brace [of p] by (auto simp: host_label_key_def eq_ignore_ascii_case_def)

lemma host_shape_keys:
  assumes "validate_host_pattern p = Inr ()"
  shows "match_host_shape p host \<longleftrightarrow>
     list_all2 (\<lambda>k v. k = ''{}'' \<or> k = to_ascii_lowercase v) (map host_label_key (split_host p))
       (split_host (host_or_header host))"
proof -
  have "(\<forall>(l, v) \<in> set (zip (split_host p) vs). host_param_name l \<noteq> None \<or> eq_ignore_ascii_case l v) \<longleftrightarrow>
      (\<forall>(l, v) \<in> set (zip (split_host p) vs). host_label_key l = ''{}'' \<or> host_label_key l = to_ascii_lowercase v)" for vs
  proof (intro ball_cong refl)
    fix x assume "x \<in> set (zip (split_host p) vs)"
    then obtain l v where x: "x = (l, v)" and "l \<in> set (split_host p)"
      by (metis surj_pair set_zip_leftD)
    with host_pattern_checked(1) [OF assms] have "host_param_name l = None \<longrightarrow> CHR ''{'' \<notin> set l"
      by blast
    then show "(case x of (l, v) \<Rightarrow> host_param_name l \<noteq> None \<or> eq_ignore_ascii_case l v)
        = (case x of (l, v) \<Rightarrow> host_label_key l = ''{}'' \<or> host_label_key l = to_ascii_lowercase v)"
      unfolding x prod.case by (rule label_match_key)
  qed
  then show ?thesis
    unfolding list_all2_map1 unfolding match_host_shape_def Let_def list_all2_iff list_all_iff
    by simp
qed

text \<open>
  Host patterns behave like a valid pattern should: the parameter matcher succeeds
  exactly on the hosts that have the shape and then binds every parameter to the host label
  at its position; and valid patterns with the same shape key accept the same hosts.
\<close>

theorem host_match_exact:
  assumes "validate_host_pattern p = Inr ()"
  shows "(\<exists>r. match_host_params p host = Inr r \<and> (r \<noteq> None) = match_host_shape p host)
     \<and> (\<forall>m. match_host_params p host = Inr (Some m) \<longrightarrow>
          (\<forall>i < length (split_host p). \<forall>n. host_param_name (split_host p ! i) = Some n \<longrightarrow>
             bt_get m n = Some (split_host (host_or_header host) ! i)))
     \<and> (\<forall>q. validate_host_pattern q = Inr () \<and> host_shape_key q = host_shape_key p \<longrightarrow>
          match_host_shape q host = match_host_shape p host)"
proof (intro conjI)
  show "\<exists>r. match_host_params p host = Inr r \<and> (r \<noteq> None) = match_host_shape p host"
    using assms
    by (auto simp: match_host_params_def match_host_shape_def Let_def match_host_loop_None_iff
        simp del: not_None_eq)
next
  show "\<forall>m. match_host_params p host = Inr (Some m) \<longrightarrow>
      (\<forall>i < length (split_host p). \<forall>n. host_param_name (split_host p ! i) = Some n \<longrightarrow>
         bt_get m n = Some (split_host (host_or_header host) ! i))"
  proof (intro allI impI)
    fix m i n
    assume m: "match_host_params p host = Inr (Some m)" and i: "i < length (split_host p)"
      and n: "host_param_name (split_host p ! i) = Some n"
    let ?hs = "split_host (host_or_header host)"
    from m assms have len: "length (split_host p) = length ?hs"
      and loop: "match_host_loop (zip (split_host p) ?hs) [] = Some m"
      by (auto simp: match_host_params_def Let_def split: if_splits)
    have "(split_host p ! i, ?hs ! i) \<in> set (zip (split_host p) ?hs)"
      using i len by (auto simp: set_zip)
    moreover have "distinct (List.map_filter host_param_name (map fst (zip (split_host p) ?hs)))"
      using len host_pattern_checked(2) [OF assms] by (simp add: host_param_names_def)
    ultimately show "bt_get m n = Some (?hs ! i)"
      using match_host_loop_get [OF loop _ _ n] by blast
  qed
next
  show "\<forall>q. validate_host_pattern q = Inr () \<and> host_shape_key q = host_shape_key p \<longrightarrow>
      match_host_shape q host = match_host_shape p host"
  proof (intro allI impI)
    fix q assume q: "validate_host_pattern q = Inr () \<and> host_shape_key q = host_shape_key p"
    then have "map host_label_key (split_host q) = map host_label_key (split_host p)"
      using assms host_key_label host_pattern_checked(1)
      by (intro join_with_dot_inj) (auto simp: host_shape_key_def)
    with q assms show "match_host_shape q host = match_host_shape p host"
      by (simp add: host_shape_keys)
  qed
qed

theorem host_match_exact_witness:
  "match_host_params ''{tenant}.Example.com'' ''acme.example.COM:8080''
     = Inr (Some [(''tenant'', ''acme'')])
   \<and> match_host_shape '':t.example.com'' ''acme.example.COM:8080''"
proof -
  have v: "validate_host_pattern ''{tenant}.Example.com'' = Inr ()"
    "validate_host_pattern '':t.example.com'' = Inr ()" by code_simp+
  have k: "host_shape_key '':t.example.com'' = host_shape_key ''{tenant}.Example.com''" by code_simp
  have m: "match_host_params ''{tenant}.Example.com'' ''acme.example.COM:8080''
     = Inr (Some [(''tenant'', ''acme'')])" by code_simp
  from host_match_exact [OF v(1), of "''acme.example.COM:8080''"] v(2) k m
  show ?thesis by auto
qed

end
