(* ===== verification/Http_Message.thy ===== *)
theory Http_Message
  imports Http_Header Http_Basics Host_Pattern
begin

text \<open>
  \<open>src/http/request.rs\<close>, \<open>src/http/request_cookie.rs\<close>, \<open>src/http/response.rs\<close> and
  \<open>src/http/response_passthrough.rs\<close>: requests and responses. Bodies are byte strings.
  The module reference that a request carries has the type \<open>'m\<close>. A streaming response
  holds a handle to a shared slot (the \<open>Arc<Mutex<Option<..>>>\<close> of the source); the slots
  live in a store, so that clones of a response share them. Typed extraction through
  serde (\<open>json\<close>, \<open>params\<close>, \<open>query\<close>) is left out, and so is the principal that the
  \<open>auth\<close> feature adds.
\<close>

section \<open>Requests\<close>

record 'm boot_request =
  rq_method :: http_method
  rq_path :: str
  rq_query_string :: "str option"
  rq_query :: "(str, str) btree"
  rq_params :: "(str, str) btree"
  rq_host_params :: "(str, str) btree"
  rq_headers :: "(str, str) btree"
  rq_appended_headers :: "(str \<times> str) list"
  rq_body :: str
  rq_module_ref :: "'m option"

definition request_new :: "(str \<Rightarrow> str + str) \<Rightarrow> http_method \<Rightarrow> str \<Rightarrow> 'm boot_request" where
  "request_new dec m p =
     (let (path, qs, q) = split_path_query dec p
      in \<lparr>rq_method = m, rq_path = path, rq_query_string = qs, rq_query = q, rq_params = [],
          rq_host_params = [], rq_headers = [], rq_appended_headers = [], rq_body = [],
          rq_module_ref = None\<rparr>)"

definition with_query_string :: "(str \<Rightarrow> str + str) \<Rightarrow> str \<Rightarrow> 'm boot_request \<Rightarrow> 'm boot_request" where
  "with_query_string dec qs r = r\<lparr>rq_query := parse_query dec qs, rq_query_string := Some qs\<rparr>"

definition with_matched_path :: "str \<Rightarrow> 'm boot_request \<Rightarrow> 'm boot_request" where
  "with_matched_path p r = r\<lparr>rq_path := p\<rparr>"

definition with_module_ref :: "'m \<Rightarrow> 'm boot_request \<Rightarrow> 'm boot_request" where
  "with_module_ref m r = r\<lparr>rq_module_ref := Some m\<rparr>"

definition with_path_params :: "(str, str) btree \<Rightarrow> 'm boot_request \<Rightarrow> 'm boot_request" where
  "with_path_params ps r = r\<lparr>rq_params := ps\<rparr>"

definition with_host_params :: "(str, str) btree \<Rightarrow> 'm boot_request \<Rightarrow> 'm boot_request" where
  "with_host_params ps r = r\<lparr>rq_host_params := ps\<rparr>"

definition with_param :: "str \<Rightarrow> str \<Rightarrow> 'm boot_request \<Rightarrow> 'm boot_request" where
  "with_param n v r = r\<lparr>rq_params := bt_insert n v (rq_params r)\<rparr>"

definition with_host_param :: "str \<Rightarrow> str \<Rightarrow> 'm boot_request \<Rightarrow> 'm boot_request" where
  "with_host_param n v r = r\<lparr>rq_host_params := bt_insert n v (rq_host_params r)\<rparr>"

definition with_query_param :: "str \<Rightarrow> str \<Rightarrow> 'm boot_request \<Rightarrow> 'm boot_request" where
  "with_query_param n v r = r\<lparr>rq_query := bt_insert n v (rq_query r), rq_query_string := None\<rparr>"

definition request_with_body :: "str \<Rightarrow> 'm boot_request \<Rightarrow> 'm boot_request" where
  "request_with_body b r = r\<lparr>rq_body := b\<rparr>"

definition request_with_header :: "str \<Rightarrow> str \<Rightarrow> 'm boot_request \<Rightarrow> 'm boot_request" where
  "request_with_header n v r = r\<lparr>rq_headers := bt_insert (normalize_header_name n) v (rq_headers r)\<rparr>"

definition request_with_headers :: "(str, str) btree \<Rightarrow> 'm boot_request \<Rightarrow> 'm boot_request" where
  "request_with_headers hs r = r\<lparr>rq_headers := normalize_headers hs\<rparr>"

definition request_append_header :: "str \<Rightarrow> str \<Rightarrow> 'm boot_request \<Rightarrow> 'm boot_request" where
  "request_append_header n v r =
     r\<lparr>rq_appended_headers := rq_appended_headers r @ [(normalize_header_name n, v)]\<rparr>"

definition request_with_text :: "str \<Rightarrow> 'm boot_request \<Rightarrow> 'm boot_request" where
  "request_with_text b r =
     request_with_header ''content-type'' ''text/plain; charset=utf-8'' (request_with_body b r)"

definition request_with_content_length :: "nat \<Rightarrow> 'm boot_request \<Rightarrow> 'm boot_request" where
  "request_with_content_length n r = request_with_header ''content-length'' (show_nat n) r"

subsection \<open>Reading headers\<close>

definition header_entries_of :: "(str, str) btree \<Rightarrow> (str \<times> str) list \<Rightarrow> (str \<times> str) list" where
  "header_entries_of hs app = hs @ app"

definition header_values_of :: "(str, str) btree \<Rightarrow> (str \<times> str) list \<Rightarrow> str \<Rightarrow> str list" where
  "header_values_of hs app name =
     (case get_header hs name of None \<Rightarrow> [] | Some v \<Rightarrow> [v])
     @ map snd (filter (\<lambda>(k, _). eq_ignore_ascii_case k name) app)"

definition request_header :: "'m boot_request \<Rightarrow> str \<Rightarrow> str option" where
  "request_header r n = get_header (rq_headers r) n"

definition request_header_values :: "'m boot_request \<Rightarrow> str \<Rightarrow> str list" where
  "request_header_values r n = header_values_of (rq_headers r) (rq_appended_headers r) n"

definition first_of :: "'a list \<Rightarrow> 'a option" where
  "first_of xs = (case xs of [] \<Rightarrow> None | x # _ \<Rightarrow> Some x)"

definition authorization :: "'m boot_request \<Rightarrow> str option" where
  "authorization r = first_of (request_header_values r ''authorization'')"

definition request_content_type :: "'m boot_request \<Rightarrow> str option" where
  "request_content_type r = first_of (request_header_values r ''content-type'')"

definition request_host :: "'m boot_request \<Rightarrow> str option" where
  "request_host r = Option.bind (request_header r ''host'') normalize_host_header"

fun split_ws :: "str \<Rightarrow> (str \<times> str) option" where
  "split_ws [] = None"
| "split_ws (c # cs) =
     (if ws_prefix (c # cs) \<noteq> 0 then Some ([], drop (ws_prefix (c # cs)) (c # cs))
      else map_option (\<lambda>(a, b). (c # a, b)) (split_ws cs))"

definition bearer_token :: "'m boot_request \<Rightarrow> str option" where
  "bearer_token r =
     Option.bind (authorization r) (\<lambda>a.
     Option.bind (split_ws (trim a)) (\<lambda>(scheme, rest).
       let token = trim rest
       in if eq_ignore_ascii_case scheme ''bearer'' \<and> token \<noteq> [] then Some token else None))"

definition require_bearer_token :: "'m boot_request \<Rightarrow> str result" where
  "require_bearer_token r =
     (case bearer_token r of
        None \<Rightarrow> Inl (Unauthorized ''missing bearer token'') | Some t \<Rightarrow> Inr t)"

definition trim_brackets :: "str \<Rightarrow> str" where
  "trim_brackets s =
     (let b = (\<lambda>c. c = CHR ''['' \<or> c = CHR '']'')
      in rev (dropWhile b (rev (dropWhile b s))))"

definition forwarded_header_ip :: "'m boot_request \<Rightarrow> str \<Rightarrow> str option" where
  "forwarded_header_ip r name =
     List.find (\<lambda>v. v \<noteq> [])
       (map trim (concat (map (split_on (CHR '','')) (request_header_values r name))))"

definition forwarded_for_ip :: "'m boot_request \<Rightarrow> str option" where
  "forwarded_for_ip r =
     opt_filter (\<lambda>v. v \<noteq> [])
       (map_option (\<lambda>(_, v). trim_brackets (trim_char (CHR 34) (trim v)))
         (List.find (\<lambda>(k, _). eq_ignore_ascii_case (trim k) ''for'')
           (List.map_filter (\<lambda>part. split_once (CHR ''='') (trim part))
             (concat (map (split_on (CHR '';''))
               (concat (map (split_on (CHR '','')) (request_header_values r ''forwarded''))))))))"

definition request_ip :: "'m boot_request \<Rightarrow> str option" where
  "request_ip r =
     or_else (forwarded_for_ip r)
       (or_else (forwarded_header_ip r ''x-forwarded-for'') (forwarded_header_ip r ''x-real-ip''))"

subsection \<open>Query and cookies\<close>

definition query_pairs :: "(str \<Rightarrow> str + str) \<Rightarrow> 'm boot_request \<Rightarrow> (str \<times> str) list result" where
  "query_pairs dec r =
     (case rq_query_string r of Some q \<Rightarrow> parse_query_pairs dec q | None \<Rightarrow> Inr (rq_query r))"

definition query_value :: "(str \<Rightarrow> str + str) \<Rightarrow> 'm boot_request \<Rightarrow> str \<Rightarrow> str option result" where
  "query_value dec r n =
     rmap (\<lambda>ps. map_option snd (List.find (\<lambda>(k, _). k = n) ps)) (query_pairs dec r)"

definition query_values :: "(str \<Rightarrow> str + str) \<Rightarrow> 'm boot_request \<Rightarrow> str \<Rightarrow> str list result" where
  "query_values dec r n = rmap (\<lambda>ps. map snd (filter (\<lambda>(k, _). k = n) ps)) (query_pairs dec r)"

definition cookie_pairs :: "'m boot_request \<Rightarrow> (str \<times> str) list result" where
  "cookie_pairs r = parse_cookie_header_values (request_header_values r ''cookie'')"

definition request_cookie :: "'m boot_request \<Rightarrow> str \<Rightarrow> str option result" where
  "request_cookie r n = rmap (\<lambda>ps. map_option snd (List.find (\<lambda>(k, _). k = n) ps)) (cookie_pairs r)"

definition require_cookie :: "'m boot_request \<Rightarrow> str \<Rightarrow> str result" where
  "require_cookie r n =
     rbind (request_cookie r n) (\<lambda>c. case c of
       None \<Rightarrow> Inl (Unauthorized (''missing cookie: '' @ n)) | Some v \<Rightarrow> Inr v)"

definition cookie_values :: "'m boot_request \<Rightarrow> str \<Rightarrow> str list result" where
  "cookie_values r n = rmap (\<lambda>ps. map snd (filter (\<lambda>(k, _). k = n) ps)) (cookie_pairs r)"

definition cookies :: "'m boot_request \<Rightarrow> (str, str) btree result" where
  "cookies r =
     rmap (\<lambda>ps. fold (\<lambda>(n, v) m. if bt_get m n = None then bt_insert n v m else m) ps [])
       (cookie_pairs r)"

text \<open>\<open>pr\<close> is the \<open>FromStr\<close> of the target type, with the message of its error.\<close>

definition parse_value :: "(str \<Rightarrow> str + 'a) \<Rightarrow> str \<Rightarrow> str \<Rightarrow> str \<Rightarrow> 'a result" where
  "parse_value pr v label name =
     (case pr v of
        Inl e \<Rightarrow> Inl (BadRequest (''invalid '' @ label @ '' '' @ name @ '': '' @ e)) | Inr a \<Rightarrow> Inr a)"

definition parse_required_value ::
    "(str \<Rightarrow> str + 'a) \<Rightarrow> str option \<Rightarrow> str \<Rightarrow> str \<Rightarrow> 'a result" where
  "parse_required_value pr v label name =
     (case v of
        None \<Rightarrow> Inl (BadRequest (''missing '' @ label @ '': '' @ name))
      | Some v \<Rightarrow> parse_value pr v label name)"

definition parse_optional_value ::
    "(str \<Rightarrow> str + 'a) \<Rightarrow> str option \<Rightarrow> str \<Rightarrow> str \<Rightarrow> 'a option result" where
  "parse_optional_value pr v label name =
     (case v of None \<Rightarrow> Inr None | Some v \<Rightarrow> rmap Some (parse_value pr v label name))"

subsection \<open>Validation\<close>

definition validate_request_header :: "(str \<Rightarrow> str) \<Rightarrow> str \<Rightarrow> str \<Rightarrow> unit result" where
  "validate_request_header dbg name v =
     (case validate_header_name name of
        Inl m \<Rightarrow> Inl (BadRequest (''invalid request header name '' @ dbg name @ '': '' @ m))
      | Inr _ \<Rightarrow>
          (case validate_header_value v of
             Inl m \<Rightarrow> Inl (BadRequest (''invalid request header value for '' @ dbg name @ '': '' @ m))
           | Inr _ \<Rightarrow> Inr ()))"

fun validate_header_entries :: "(str \<Rightarrow> str \<Rightarrow> unit result) \<Rightarrow> (str \<times> str) list \<Rightarrow> unit result" where
  "validate_header_entries chk [] = Inr ()"
| "validate_header_entries chk ((n, v) # hs) = rbind (chk n v) (\<lambda>_. validate_header_entries chk hs)"

definition request_validate_headers :: "(str \<Rightarrow> str) \<Rightarrow> 'm boot_request \<Rightarrow> unit result" where
  "request_validate_headers dbg r =
     validate_header_entries (validate_request_header dbg)
       (header_entries_of (rq_headers r) (rq_appended_headers r))"

definition request_content_length :: "'m boot_request \<Rightarrow> nat option result" where
  "request_content_length r =
     (case first_of (request_header_values r ''content-length'') of
        None \<Rightarrow> Inr None
      | Some cl \<Rightarrow>
          (case parse_content_length cl of
             Some n \<Rightarrow> Inr (Some n)
           | None \<Rightarrow> Inl (BadRequest (''invalid content-length header: '' @ cl))))"

definition request_strict_content_length :: "'m boot_request \<Rightarrow> nat option result" where
  "request_strict_content_length r =
     strict_content_length_values (request_header_values r ''content-length'')
       (\<lambda>cl. BadRequest (''invalid content-length header: '' @ cl))
       (\<lambda>e cl. BadRequest (''conflicting content-length headers: '' @ show_nat e @ '' != '' @ show_nat cl))"

definition request_validate_content_length :: "'m boot_request \<Rightarrow> unit result" where
  "request_validate_content_length r =
     rbind (request_strict_content_length r) (\<lambda>cl. case cl of
       None \<Rightarrow> Inr ()
     | Some n \<Rightarrow>
         if length (rq_body r) = n then Inr ()
         else Inl (BadRequest
           (''content-length header does not match request body length: expected '' @ show_nat n
            @ '', got '' @ show_nat (length (rq_body r)))))"

definition validate_body_limit :: "nat \<Rightarrow> 'm boot_request \<Rightarrow> unit result" where
  "validate_body_limit limit r =
     rbind (request_strict_content_length r) (\<lambda>cl.
       if (case cl of None \<Rightarrow> False | Some n \<Rightarrow> n > limit) \<or> length (rq_body r) > limit
       then Inl (PayloadTooLarge (''request body exceeds '' @ show_nat limit @ '' bytes''))
       else Inr ())"

definition request_validate :: "(str \<Rightarrow> str) \<Rightarrow> 'm boot_request \<Rightarrow> unit result" where
  "request_validate dbg r =
     rbind (request_validate_headers dbg r) (\<lambda>_. request_validate_content_length r)"

definition validate_with_body_limit :: "(str \<Rightarrow> str) \<Rightarrow> nat \<Rightarrow> 'm boot_request \<Rightarrow> unit result" where
  "validate_with_body_limit dbg limit r =
     rbind (request_validate_headers dbg r) (\<lambda>_.
     rbind (validate_body_limit limit r) (\<lambda>_. request_validate_content_length r))"

definition request_is_json :: "'m boot_request \<Rightarrow> bool" where
  "request_is_json r =
     (case request_content_type r of None \<Rightarrow> False | Some ct \<Rightarrow> is_json_media_type ct)"

definition require_json_content_type :: "'m boot_request \<Rightarrow> unit result" where
  "require_json_content_type r =
     (if request_is_json r then Inr ()
      else Inl (UnsupportedMediaType
        (case request_content_type r of
           Some ct \<Rightarrow> ''expected JSON content type, got '' @ ct
         | None \<Rightarrow> ''expected JSON content type'')))"

definition require_accepts_json :: "(str \<Rightarrow> rat option) \<Rightarrow> 'm boot_request \<Rightarrow> unit result" where
  "require_accepts_json pq r =
     (if accepts_json_response pq (request_header_values r ''accept'') then Inr ()
      else Inl (NotAcceptable ''expected client to accept JSON response''))"

definition require_accepts_event_stream :: "(str \<Rightarrow> rat option) \<Rightarrow> 'm boot_request \<Rightarrow> unit result" where
  "require_accepts_event_stream pq r =
     (if accepts_event_stream_response pq (request_header_values r ''accept'') then Inr ()
      else Inl (NotAcceptable ''expected client to accept text/event-stream response''))"

section \<open>Responses\<close>

datatype stream_kind = SK_Sse | SK_Body

record boot_response =
  rs_status :: nat
  rs_headers :: "(str, str) btree"
  rs_appended_headers :: "(str \<times> str) list"
  rs_body :: str
  rs_stream :: "(stream_kind \<times> nat) option"

text \<open>The slots of the shared streams: what is still to be taken from a slot.\<close>

type_synonym stream_slots = "nat \<Rightarrow> stream_kind option"

definition response_new :: "nat \<Rightarrow> str \<Rightarrow> boot_response" where
  "response_new status body =
     \<lparr>rs_status = status, rs_headers = [], rs_appended_headers = [], rs_body = body, rs_stream = None\<rparr>"

definition response_empty :: "nat \<Rightarrow> boot_response" where
  "response_empty status = response_new status []"

definition with_status :: "nat \<Rightarrow> boot_response \<Rightarrow> boot_response" where
  "with_status s r = r\<lparr>rs_status := s\<rparr>"

definition response_with_header :: "str \<Rightarrow> str \<Rightarrow> boot_response \<Rightarrow> boot_response" where
  "response_with_header n v r = r\<lparr>rs_headers := bt_insert (normalize_header_name n) v (rs_headers r)\<rparr>"

definition response_with_headers :: "(str, str) btree \<Rightarrow> boot_response \<Rightarrow> boot_response" where
  "response_with_headers hs r = r\<lparr>rs_headers := normalize_headers hs\<rparr>"

definition response_append_header :: "str \<Rightarrow> str \<Rightarrow> boot_response \<Rightarrow> boot_response" where
  "response_append_header n v r =
     r\<lparr>rs_appended_headers := rs_appended_headers r @ [(normalize_header_name n, v)]\<rparr>"

definition redirect_with_status :: "nat \<Rightarrow> str \<Rightarrow> boot_response" where
  "redirect_with_status s loc = response_with_header ''location'' loc (response_empty s)"

definition text_with_status :: "nat \<Rightarrow> str \<Rightarrow> boot_response" where
  "text_with_status s body =
     response_with_header ''content-type'' ''text/plain; charset=utf-8'' (response_new s body)"

definition html_with_status :: "nat \<Rightarrow> str \<Rightarrow> boot_response" where
  "html_with_status s body =
     response_with_header ''content-type'' ''text/html; charset=utf-8'' (response_new s body)"

definition with_cookie ::
    "(str \<Rightarrow> str) \<Rightarrow> str \<Rightarrow> str \<Rightarrow> cookie_options \<Rightarrow> boot_response \<Rightarrow> boot_response result" where
  "with_cookie dbg n v opts r =
     rmap (\<lambda>h. response_append_header ''set-cookie'' h r) (set_cookie_header dbg opts n v)"

definition delete_cookie ::
    "(str \<Rightarrow> str) \<Rightarrow> str \<Rightarrow> cookie_options \<Rightarrow> boot_response \<Rightarrow> boot_response result" where
  "delete_cookie dbg n opts r =
     rmap (\<lambda>h. response_append_header ''set-cookie'' h r) (delete_cookie_header dbg opts n)"

definition is_streaming :: "boot_response \<Rightarrow> bool" where
  "is_streaming r = (rs_stream r \<noteq> None)"

definition is_file_stream :: "boot_response \<Rightarrow> bool" where
  "is_file_stream r = (case rs_stream r of None \<Rightarrow> False | Some (k, _) \<Rightarrow> k = SK_Body)"

text \<open>
  \<open>take\<close> and \<open>take_body\<close>: the slot is emptied first and filled again when it holds the
  other kind. \<open>sse\<close> and \<open>streamable_file\<close> put a fresh stream into the slot \<open>a\<close>.
\<close>

definition slot_take :: "stream_kind \<Rightarrow> nat \<Rightarrow> stream_slots \<Rightarrow> stream_kind option \<times> stream_slots" where
  "slot_take want a slots =
     (case slots a of
        None \<Rightarrow> (None, slots)
      | Some k \<Rightarrow> if k = want then (Some k, slots(a := None)) else (None, slots(a := Some k)))"

definition into_sse_stream :: "boot_response \<Rightarrow> stream_slots \<Rightarrow> stream_kind option \<times> stream_slots" where
  "into_sse_stream r slots =
     (case rs_stream r of None \<Rightarrow> (None, slots) | Some (_, a) \<Rightarrow> slot_take SK_Sse a slots)"

definition into_body_stream :: "boot_response \<Rightarrow> stream_slots \<Rightarrow> stream_kind option \<times> stream_slots" where
  "into_body_stream r slots =
     (case rs_stream r of None \<Rightarrow> (None, slots) | Some (_, a) \<Rightarrow> slot_take SK_Body a slots)"

definition with_stream :: "stream_kind \<Rightarrow> nat \<Rightarrow> stream_slots \<Rightarrow> boot_response \<Rightarrow> boot_response \<times> stream_slots" where
  "with_stream k a slots r = (r\<lparr>rs_stream := Some (k, a)\<rparr>, slots(a := Some k))"

definition response_sse :: "nat \<Rightarrow> stream_slots \<Rightarrow> boot_response \<times> stream_slots" where
  "response_sse a slots =
     with_stream SK_Sse a slots
       (response_with_header ''connection'' ''keep-alive''
         (response_with_header ''cache-control'' ''no-cache''
           (response_with_header ''content-type'' ''text/event-stream; charset=utf-8''
             (response_empty 200))))"

definition response_header :: "boot_response \<Rightarrow> str \<Rightarrow> str option" where
  "response_header r n = get_header (rs_headers r) n"

definition response_header_values :: "boot_response \<Rightarrow> str \<Rightarrow> str list" where
  "response_header_values r n = header_values_of (rs_headers r) (rs_appended_headers r) n"

definition response_content_type :: "boot_response \<Rightarrow> str option" where
  "response_content_type r = first_of (response_header_values r ''content-type'')"

definition http_error_name :: "nat \<Rightarrow> str" where
  "http_error_name status =
     (case map_of
        [(400, ''Bad Request''), (401, ''Unauthorized''), (402, ''Payment Required''),
         (403, ''Forbidden''), (404, ''Not Found''), (405, ''Method Not Allowed''),
         (406, ''Not Acceptable''), (407, ''Proxy Authentication Required''),
         (408, ''Request Timeout''), (409, ''Conflict''), (410, ''Gone''),
         (411, ''Length Required''), (412, ''Precondition Failed''), (413, ''Payload Too Large''),
         (414, ''URI Too Long''), (415, ''Unsupported Media Type''),
         (416, ''Range Not Satisfiable''), (417, ''Expectation Failed''), (418, ''I'' @ [CHR 39] @ ''m a teapot''),
         (421, ''Misdirected Request''), (422, ''Unprocessable Entity''), (423, ''Locked''),
         (424, ''Failed Dependency''), (425, ''Too Early''), (426, ''Upgrade Required''),
         (428, ''Precondition Required''), (429, ''Too Many Requests''),
         (431, ''Request Header Fields Too Large''), (451, ''Unavailable For Legal Reasons''),
         (500, ''Internal Server Error''), (501, ''Not Implemented''), (502, ''Bad Gateway''),
         (503, ''Service Unavailable''), (504, ''Gateway Timeout''),
         (505, ''HTTP Version Not Supported''), (506, ''Variant Also Negotiates''),
         (507, ''Insufficient Storage''), (508, ''Loop Detected''), (510, ''Not Extended''),
         (511, ''Network Authentication Required'')] status of
        Some n \<Rightarrow> n | None \<Rightarrow> ''Http Exception'')"

text \<open>
  \<open>enc\<close> is the JSON encoding of the error body (status, message, error name), or none when
  the encoder fails; \<open>fallback\<close> is the literal body the code uses then.
\<close>

definition from_error ::
    "(nat \<Rightarrow> str \<Rightarrow> str \<Rightarrow> str option) \<Rightarrow> str \<Rightarrow> boot_error \<Rightarrow> boot_response" where
  "from_error enc fallback e =
     (let status = http_status_code e;
          body = (case enc status (http_response_message e) (http_error_name status) of
                    Some b \<Rightarrow> b | None \<Rightarrow> fallback)
      in response_with_header ''content-type'' ''application/json'' (response_new status body))"

subsection \<open>Validation of responses\<close>

definition is_informational :: "boot_response \<Rightarrow> bool" where
  "is_informational r = (100 \<le> rs_status r \<and> rs_status r < 200)"

definition is_valid_status :: "boot_response \<Rightarrow> bool" where
  "is_valid_status r = (100 \<le> rs_status r \<and> rs_status r < 1000)"

definition has_body :: "boot_response \<Rightarrow> bool" where
  "has_body r = (is_streaming r \<or> rs_body r \<noteq> [])"

definition allows_body :: "boot_response \<Rightarrow> bool" where
  "allows_body r = (\<not> (is_informational r \<or> rs_status r = 204 \<or> rs_status r = 304))"

definition validate_response_header :: "(str \<Rightarrow> str) \<Rightarrow> str \<Rightarrow> str \<Rightarrow> unit result" where
  "validate_response_header dbg name v =
     (case validate_header_name name of
        Inl m \<Rightarrow> Inl (Internal (''invalid response header name '' @ dbg name @ '': '' @ m))
      | Inr _ \<Rightarrow>
          (case validate_header_value v of
             Inl m \<Rightarrow> Inl (Internal (''invalid response header value for '' @ dbg name @ '': '' @ m))
           | Inr _ \<Rightarrow> Inr ()))"

definition response_validate_headers :: "(str \<Rightarrow> str) \<Rightarrow> boot_response \<Rightarrow> unit result" where
  "response_validate_headers dbg r =
     validate_header_entries (validate_response_header dbg)
       (header_entries_of (rs_headers r) (rs_appended_headers r))"

definition response_strict_content_length :: "boot_response \<Rightarrow> nat option result" where
  "response_strict_content_length r =
     strict_content_length_values (response_header_values r ''content-length'')
       (\<lambda>cl. Internal (''invalid response content-length header: '' @ cl))
       (\<lambda>e cl. Internal (''conflicting response content-length headers: '' @ show_nat e @ '' != ''
                         @ show_nat cl))"

definition response_validate_content_length :: "boot_response \<Rightarrow> unit result" where
  "response_validate_content_length r =
     rbind (response_strict_content_length r) (\<lambda>cl. case cl of
       None \<Rightarrow> Inr ()
     | Some n \<Rightarrow>
         if is_streaming r then
           (if is_file_stream r then Inr ()
            else Inl (Internal ''streaming responses must not include a content-length header''))
         else if length (rs_body r) = n then Inr ()
         else Inl (Internal
           (''response content-length header does not match response body length: expected ''
            @ show_nat n @ '', got '' @ show_nat (length (rs_body r)))))"

definition validate_body_allowed :: "boot_response \<Rightarrow> unit result" where
  "validate_body_allowed r =
     (if \<not> has_body r \<or> allows_body r then Inr ()
      else Inl (Internal (''response status '' @ show_nat (rs_status r) @ '' must not include a body'')))"

definition validate_status :: "boot_response \<Rightarrow> unit result" where
  "validate_status r =
     (if is_valid_status r then Inr ()
      else Inl (Internal (''invalid response status '' @ show_nat (rs_status r))))"

definition response_validate :: "(str \<Rightarrow> str) \<Rightarrow> boot_response \<Rightarrow> unit result" where
  "response_validate dbg r =
     rbind (validate_status r) (\<lambda>_.
     rbind (response_validate_content_length r) (\<lambda>_.
     rbind (validate_body_allowed r) (\<lambda>_. response_validate_headers dbg r)))"

section \<open>Response passthrough\<close>

record passthrough_state =
  pt_status :: "nat option"
  pt_headers :: "(str, str) btree"
  pt_appended_headers :: "(str \<times> str) list"

definition passthrough_new :: passthrough_state where
  "passthrough_new = \<lparr>pt_status = None, pt_headers = [], pt_appended_headers = []\<rparr>"

definition passthrough_set_status :: "nat \<Rightarrow> passthrough_state \<Rightarrow> passthrough_state result" where
  "passthrough_set_status s st =
     rbind (validate_status (response_empty s)) (\<lambda>_. Inr (st\<lparr>pt_status := Some s\<rparr>))"

definition normalized_header :: "(str \<Rightarrow> str) \<Rightarrow> str \<Rightarrow> str \<Rightarrow> (str \<times> str) result" where
  "normalized_header dbg n v =
     (let response = response_with_header n v (response_empty 200) in
      rbind (response_validate_headers dbg response) (\<lambda>_.
        case rs_headers response of
          [] \<Rightarrow> Inl (Internal ''missing normalized response header'')
        | h # _ \<Rightarrow> Inr h))"

definition passthrough_set_header ::
    "(str \<Rightarrow> str) \<Rightarrow> str \<Rightarrow> str \<Rightarrow> passthrough_state \<Rightarrow> passthrough_state result" where
  "passthrough_set_header dbg n v st =
     rmap (\<lambda>(n, v). st\<lparr>pt_headers := bt_insert n v (pt_headers st)\<rparr>) (normalized_header dbg n v)"

definition passthrough_append_header ::
    "(str \<Rightarrow> str) \<Rightarrow> str \<Rightarrow> str \<Rightarrow> passthrough_state \<Rightarrow> passthrough_state result" where
  "passthrough_append_header dbg n v st =
     rmap (\<lambda>h. st\<lparr>pt_appended_headers := pt_appended_headers st @ [h]\<rparr>) (normalized_header dbg n v)"

definition passthrough_set_cookie ::
    "(str \<Rightarrow> str) \<Rightarrow> str \<Rightarrow> str \<Rightarrow> cookie_options \<Rightarrow> passthrough_state \<Rightarrow> passthrough_state result" where
  "passthrough_set_cookie dbg n v opts st =
     rbind (set_cookie_header dbg opts n v) (\<lambda>h. passthrough_append_header dbg ''set-cookie'' h st)"

definition passthrough_delete_cookie ::
    "(str \<Rightarrow> str) \<Rightarrow> str \<Rightarrow> cookie_options \<Rightarrow> passthrough_state \<Rightarrow> passthrough_state result" where
  "passthrough_delete_cookie dbg n opts st =
     rbind (delete_cookie_header dbg opts n) (\<lambda>h. passthrough_append_header dbg ''set-cookie'' h st)"

definition passthrough_has_changes :: "passthrough_state \<Rightarrow> bool" where
  "passthrough_has_changes st =
     (pt_status st \<noteq> None \<or> pt_headers st \<noteq> [] \<or> pt_appended_headers st \<noteq> [])"

definition passthrough_apply :: "passthrough_state \<Rightarrow> boot_response \<Rightarrow> boot_response" where
  "passthrough_apply st r =
     (let r1 = (case pt_status st of None \<Rightarrow> r | Some s \<Rightarrow> with_status s r);
          r2 = fold (\<lambda>(n, v). response_with_header n v) (pt_headers st) r1
      in fold (\<lambda>(n, v). response_append_header n v) (pt_appended_headers st) r2)"

section \<open>The header operations that requests and responses share\<close>

locale header_carrier =
  fixes hd_of :: "'r \<Rightarrow> (str, str) btree"
    and ap_of :: "'r \<Rightarrow> (str \<times> str) list"
    and put :: "str \<Rightarrow> str \<Rightarrow> 'r \<Rightarrow> 'r"
    and add :: "str \<Rightarrow> str \<Rightarrow> 'r \<Rightarrow> 'r"
  assumes hd_put: "hd_of (put n v r) = bt_insert (normalize_header_name n) v (hd_of r)"
    and ap_put: "ap_of (put n v r) = ap_of r"
    and hd_add: "hd_of (add n v r) = hd_of r"
    and ap_add: "ap_of (add n v r) = ap_of r @ [(normalize_header_name n, v)]"
begin

lemma put_normal: "headers_normal (hd_of r) \<Longrightarrow> headers_normal (hd_of (put n v r))"
  by (simp add: hd_put headers_normal_insert)

lemma add_normal: "headers_normal (hd_of r) \<Longrightarrow> headers_normal (hd_of (add n v r))"
  by (simp add: hd_add)

lemma get_put:
  "headers_normal (hd_of r) \<Longrightarrow> get_header (hd_of (put n v r)) m =
     (if eq_ignore_ascii_case n m then Some v else get_header (hd_of r) m)"
  by (simp add: hd_put get_header_insert)

lemma values_put:
  "headers_normal (hd_of r) \<Longrightarrow> eq_ignore_ascii_case n m \<Longrightarrow>
     first_of (header_values_of (hd_of (put n v r)) (ap_of (put n v r)) m) = Some v"
  by (simp add: header_values_of_def get_put first_of_def)

lemma values_put_other:
  "headers_normal (hd_of r) \<Longrightarrow> \<not> eq_ignore_ascii_case n m \<Longrightarrow>
     header_values_of (hd_of (put n v r)) (ap_of (put n v r)) m = header_values_of (hd_of r) (ap_of r) m"
  by (simp add: header_values_of_def get_put ap_put)

lemma values_add:
  "header_values_of (hd_of (add n v r)) (ap_of (add n v r)) m =
     header_values_of (hd_of r) (ap_of r) m @ (if eq_ignore_ascii_case n m then [v] else [])"
  by (simp add: header_values_of_def hd_add ap_add normalize_header_name_def)

lemma fold_put_normal:
  "headers_normal (hd_of r) \<Longrightarrow> headers_normal (hd_of (fold (\<lambda>(n, v). put n v) hs r))"
  by (induction hs arbitrary: r) (auto simp: put_normal)

lemma fold_put_get:
  "headers_normal (hd_of r) \<Longrightarrow> list_all (\<lambda>k. normalize_header_name k = k) (map fst hs) \<Longrightarrow> distinct (map fst hs) \<Longrightarrow>
     get_header (hd_of (fold (\<lambda>(n, v). put n v) hs r)) m =
     (case map_of hs (normalize_header_name m) of Some v \<Rightarrow> Some v | None \<Rightarrow> get_header (hd_of r) m)"
proof (induction hs arbitrary: r)
  case (Cons h hs)
  obtain n v where h: "h = (n, v)" by (cases h)
  have n: "normalize_header_name n = n" using Cons.prems(2) by (simp add: h)
  have e: "eq_ignore_ascii_case n m \<longleftrightarrow> n = normalize_header_name m"
    using n by (auto simp: eq_ignore_ascii_case_def normalize_header_name_def)
  have "map_of hs n = None" using Cons.prems(3) by (simp add: h map_of_eq_None_iff)
  with Cons.prems Cons.IH [of "put n v r"] show ?case
    by (auto simp: h put_normal get_put e split: option.split)
qed simp

lemma fold_add:
  "hd_of (fold (\<lambda>(n, v). add n v) hs r) = hd_of r
   \<and> ap_of (fold (\<lambda>(n, v). add n v) hs r) = ap_of r @ map (\<lambda>(n, v). (normalize_header_name n, v)) hs"
  by (induction hs arbitrary: r) (auto simp: hd_add ap_add)

end

interpretation rq: header_carrier rq_headers rq_appended_headers request_with_header request_append_header
  by unfold_locales (simp_all add: request_with_header_def request_append_header_def)

interpretation rs: header_carrier rs_headers rs_appended_headers response_with_header response_append_header
  by unfold_locales (simp_all add: response_with_header_def response_append_header_def)

section \<open>Properties\<close>

text \<open>
  Header fields are case-insensitive in every operation. After \<open>with_header\<close> any
  spelling of the name reads the new value first and every other name reads what it read
  before; \<open>append_header\<close> adds the value after all the present ones.
\<close>

theorem response_header_laws:
  assumes "headers_normal (rs_headers r)"
  shows "response_header (response_with_header n v r) m
       = (if eq_ignore_ascii_case n m then Some v else response_header r m)
     \<and> (\<not> eq_ignore_ascii_case n m \<longrightarrow>
           response_header_values (response_with_header n v r) m = response_header_values r m)
     \<and> response_header_values (response_append_header n v r) m
       = response_header_values r m @ (if eq_ignore_ascii_case n m then [v] else [])
     \<and> headers_normal (rs_headers (response_with_header n v r))"
  using rs.get_put [OF assms] rs.values_put_other [OF assms] rs.values_add rs.put_normal [OF assms]
  by (simp add: response_header_def response_header_values_def)

theorem response_header_laws_witness:
  "response_header (response_with_header ''X-Id'' ''1'' (response_empty 200)) ''x-ID'' = Some ''1''"
proof -
  have "headers_normal (rs_headers (response_empty 200))"
    by (simp add: response_empty_def response_new_def)
  moreover have "eq_ignore_ascii_case ''X-Id'' ''x-ID''" by code_simp
  ultimately show ?thesis
    using response_header_laws [of "response_empty 200" "''X-Id''" "''1''" "''x-ID''"] by simp
qed

lemma validate_header_entries_iff:
  "validate_header_entries chk hs = Inr () \<longleftrightarrow> (\<forall>(n, v) \<in> set hs. chk n v = Inr ())"
  by (induction chk hs rule: validate_header_entries.induct) (auto simp: result_simps)

definition header_ok :: "str \<Rightarrow> str \<Rightarrow> bool" where
  "header_ok n v = (n \<noteq> [] \<and> list_all is_header_name_byte n \<and> list_all is_header_value_byte v)"

lemma validate_header_iffs:
  "validate_request_header dbg n v = Inr () \<longleftrightarrow> header_ok n v"
  "validate_response_header dbg n v = Inr () \<longleftrightarrow> header_ok n v"
  by (auto simp: validate_request_header_def validate_response_header_def header_ok_def
      validate_header_name_def validate_header_value_def)

lemma strict_values_Inr:
  "strict_content_length_values vs bad confl = Inr r \<longleftrightarrow>
     (\<forall>v \<in> set vs. parse_content_length v \<noteq> None \<and> parse_content_length v = r) \<and> (vs = [] \<longrightarrow> r = None)"
  by (simp add: strict_content_length_values_def strict_content_length_Inr)

text \<open>
  A request that passes \<open>validate_with_body_limit\<close> is unambiguous and bounded: its body
  is no longer than the limit, every Content-Length field, wherever it was set, is a number
  and equals the length of the body (no two fields conflict), and every header has a valid
  name and value. Nothing else passes.
\<close>

theorem body_limit_exact:
  "validate_with_body_limit dbg limit r = Inr () \<longleftrightarrow>
     length (rq_body r) \<le> limit
     \<and> (\<forall>v \<in> set (request_header_values r ''content-length'').
          parse_content_length v = Some (length (rq_body r)))
     \<and> (\<forall>(n, v) \<in> set (rq_headers r @ rq_appended_headers r). header_ok n v)"
proof -
  let ?vs = "request_header_values r ''content-length''"
  have strict: "request_strict_content_length r = Inr cl \<longleftrightarrow>
      (\<forall>v \<in> set ?vs. parse_content_length v \<noteq> None \<and> parse_content_length v = cl) \<and> (?vs = [] \<longrightarrow> cl = None)" for cl
    by (simp add: request_strict_content_length_def strict_values_Inr)
  have limit: "validate_body_limit limit r = Inr () \<longleftrightarrow>
      (\<exists>cl. request_strict_content_length r = Inr cl \<and> length (rq_body r) \<le> limit
         \<and> (case cl of None \<Rightarrow> True | Some n \<Rightarrow> n \<le> limit))"
    by (auto simp: validate_body_limit_def result_simps not_less split: option.splits)
  have len: "request_validate_content_length r = Inr () \<longleftrightarrow>
      (\<exists>cl. request_strict_content_length r = Inr cl
         \<and> (case cl of None \<Rightarrow> True | Some n \<Rightarrow> n = length (rq_body r)))"
    by (auto simp: request_validate_content_length_def result_simps split: option.splits)
  have hdr: "request_validate_headers dbg r = Inr () \<longleftrightarrow>
      (\<forall>(n, v) \<in> set (rq_headers r @ rq_appended_headers r). header_ok n v)"
    by (simp add: request_validate_headers_def validate_header_entries_iff header_entries_of_def
        validate_header_iffs)
  have all: "validate_with_body_limit dbg limit r = Inr () \<longleftrightarrow>
      request_validate_headers dbg r = Inr () \<and> validate_body_limit limit r = Inr ()
      \<and> request_validate_content_length r = Inr ()"
    by (auto simp: validate_with_body_limit_def result_simps)
  have "(\<exists>cl. request_strict_content_length r = Inr cl \<and> length (rq_body r) \<le> limit
         \<and> (case cl of None \<Rightarrow> True | Some n \<Rightarrow> n \<le> limit))
      \<and> (\<exists>cl. request_strict_content_length r = Inr cl
         \<and> (case cl of None \<Rightarrow> True | Some n \<Rightarrow> n = length (rq_body r)))
    \<longleftrightarrow> length (rq_body r) \<le> limit \<and> (\<forall>v \<in> set ?vs. parse_content_length v = Some (length (rq_body r)))"
    unfolding strict by (cases ?vs) (auto split: option.splits)
  then show ?thesis unfolding all hdr limit len by blast
qed

theorem body_limit_exact_witness:
  "validate_with_body_limit id 5
     (request_with_content_length 3 (request_with_body ''abc'' (request_new Inr M_Post ''/a''))) = Inr ()
   \<and> validate_with_body_limit id 2 (request_with_body ''abc'' (request_new Inr M_Post ''/a'')) \<noteq> Inr ()"
proof -
  let ?r = "request_with_content_length 3 (request_with_body ''abc'' (request_new Inr M_Post ''/a''))"
  let ?s = "request_with_body ''abc'' (request_new Inr M_Post ''/a'')"
  have b: "rq_body ?r = ''abc''" "rq_body ?s = ''abc''" by code_simp+
  have v: "request_header_values ?r ''content-length'' = [''3'']" by code_simp
  have "trim ''3'' = ''3''" by code_simp
  then have p: "parse_content_length ''3'' = Some 3"
    by (simp add: parse_content_length_def digits_value_def is_ascii_digit_def byte_def)
  have h: "rq_headers ?r @ rq_appended_headers ?r = [(''content-length'', ''3'')]" by code_simp
  have o: "header_ok ''content-length'' ''3''" by code_simp
  have "validate_with_body_limit id 5 ?r = Inr ()"
    unfolding body_limit_exact b v h using p o by simp
  moreover have "validate_with_body_limit id 2 ?s \<noteq> Inr ()"
    unfolding body_limit_exact b by simp
  ultimately show ?thesis by blast
qed

lemma from_error_fields:
  "rs_status (from_error enc fb e) = http_status_code e"
  "rs_headers (from_error enc fb e) = [(''content-type'', ''application/json'')]"
  "rs_appended_headers (from_error enc fb e) = []" "rs_stream (from_error enc fb e) = None"
proof -
  have "normalize_header_name ''content-type'' = ''content-type''" by code_simp
  then show "rs_headers (from_error enc fb e) = [(''content-type'', ''application/json'')]"
    by (simp add: from_error_def Let_def response_with_header_def response_new_def)
qed (simp_all add: from_error_def Let_def response_with_header_def response_new_def)

text \<open>
  Every error turns into a response the adapters accept: for an error whose status is
  one that \<open>http_exception\<close> and the error constructors produce, \<open>from_error\<close> yields a
  response with that status that passes \<open>validate\<close>, whatever the JSON encoder returns.
\<close>

theorem error_response_valid:
  assumes "200 \<le> http_status_code e" "http_status_code e < 1000"
    and "http_status_code e \<noteq> 204" "http_status_code e \<noteq> 304"
  shows "response_validate dbg (from_error enc fb e) = Inr ()
     \<and> rs_status (from_error enc fb e) = http_status_code e"
proof -
  let ?r = "from_error enc fb e"
  have "get_header (rs_headers ?r) ''content-length'' = None"
    unfolding from_error_fields by code_simp
  then have "response_header_values ?r ''content-length'' = []"
    by (simp add: response_header_values_def header_values_of_def from_error_fields)
  then have "response_validate_content_length ?r = Inr ()"
    by (simp add: response_validate_content_length_def response_strict_content_length_def
        strict_content_length_values_def)
  moreover have "header_ok ''content-type'' ''application/json''" by code_simp
  then have "response_validate_headers dbg ?r = Inr ()"
    by (simp only: response_validate_headers_def header_entries_of_def from_error_fields
        validate_header_iffs validate_header_entries_iff) simp
  ultimately show ?thesis
    using assms
    by (simp add: response_validate_def validate_status_def is_valid_status_def
        validate_body_allowed_def allows_body_def is_informational_def from_error_fields)
qed

theorem error_response_valid_witness:
  "response_validate id (from_error (\<lambda>_ _ _. None) ''{}'' (NotFound ''GET /x'')) = Inr ()"
  using error_response_valid [of "NotFound ''GET /x''"] by simp

text \<open>
  The response passthrough wins over the handler's response: after \<open>apply\<close> a header set
  through it has its value under any spelling, other headers and (unless one was set) the
  status are the handler's, the body is untouched and appended headers come last.
\<close>

theorem passthrough_apply_exact:
  assumes "headers_normal (rs_headers r)" "headers_normal (pt_headers st)"
  shows "response_header (passthrough_apply st r) n =
       (case bt_get (pt_headers st) (normalize_header_name n) of
          Some v \<Rightarrow> Some v | None \<Rightarrow> response_header r n)
     \<and> rs_status (passthrough_apply st r) = (case pt_status st of None \<Rightarrow> rs_status r | Some s \<Rightarrow> s)
     \<and> rs_body (passthrough_apply st r) = rs_body r
     \<and> rs_appended_headers (passthrough_apply st r) = rs_appended_headers r
         @ map (\<lambda>(n, v). (normalize_header_name n, v)) (pt_appended_headers st)"
proof -
  let ?r1 = "case pt_status st of None \<Rightarrow> r | Some s \<Rightarrow> with_status s r"
  let ?r2 = "fold (\<lambda>(n, v). response_with_header n v) (pt_headers st) ?r1"
  have normal1: "headers_normal (rs_headers ?r1)"
    using assms(1) by (simp add: with_status_def split: option.split)
  have r1: "rs_headers ?r1 = rs_headers r" "rs_body ?r1 = rs_body r"
    "rs_appended_headers ?r1 = rs_appended_headers r"
    "rs_status ?r1 = (case pt_status st of None \<Rightarrow> rs_status r | Some s \<Rightarrow> s)"
    by (auto simp: with_status_def split: option.split)
  have keep: "rs_status (fold (\<lambda>(n, v). response_with_header n v) hs x) = rs_status x
      \<and> rs_body (fold (\<lambda>(n, v). response_with_header n v) hs x) = rs_body x
      \<and> rs_appended_headers (fold (\<lambda>(n, v). response_with_header n v) hs x) = rs_appended_headers x" for hs x
    by (induction hs arbitrary: x) (auto simp: response_with_header_def)
  have keep2: "rs_status (fold (\<lambda>(n, v). response_append_header n v) hs x) = rs_status x
      \<and> rs_body (fold (\<lambda>(n, v). response_append_header n v) hs x) = rs_body x" for hs x
    by (induction hs arbitrary: x) (auto simp: response_append_header_def)
  have "distinct (map fst (pt_headers st))" "list_all (\<lambda>k. normalize_header_name k = k) (map fst (pt_headers st))"
    using assms(2) by (simp_all add: headers_normal_def bt_wf_distinct)
  then have "get_header (rs_headers ?r2) n =
      (case map_of (pt_headers st) (normalize_header_name n) of
         Some v \<Rightarrow> Some v | None \<Rightarrow> get_header (rs_headers r) n)"
    using rs.fold_put_get [of ?r1 "pt_headers st" n, OF normal1] by (simp only: r1(1))
  moreover have "passthrough_apply st r
      = fold (\<lambda>(n, v). response_append_header n v) (pt_appended_headers st) ?r2"
    by (simp add: passthrough_apply_def Let_def)
  ultimately show ?thesis
    using rs.fold_add [of "pt_appended_headers st" ?r2] keep [of "pt_headers st" ?r1]
      keep2 [of "pt_appended_headers st" ?r2]
    unfolding response_header_def bt_get_def by (simp add: r1)
qed

theorem passthrough_apply_exact_witness:
  "response_header (passthrough_apply \<lparr>pt_status = Some 201, pt_headers = [(''x-a'', ''1'')],
     pt_appended_headers = []\<rparr> (response_empty 200)) ''X-A'' = Some ''1''"
proof -
  have "headers_normal (rs_headers (response_empty 200))" by code_simp
  moreover have "headers_normal [(''x-a'', ''1'')]" by code_simp
  moreover have "bt_get [(''x-a'', ''1'')] (normalize_header_name ''X-A'') = Some ''1''" by code_simp
  ultimately show ?thesis
    using passthrough_apply_exact [of "response_empty 200"
        "\<lparr>pt_status = Some 201, pt_headers = [(''x-a'', ''1'')], pt_appended_headers = []\<rparr>" "''X-A''"]
    by simp
qed

end
