(* ===== verification/Route_Path.thy ===== *)
theory Route_Path
  imports Http_Basics
begin

text \<open>
  \<open>src/routing/path.rs\<close>: validation, joining, matching, shape keys and specificity
  of route patterns. A pattern is a list of segments: a literal, a parameter
  \<open>{name}\<close> or, last, a wildcard \<open>{*name}\<close>. \<open>match_path_shape\<close> decides whether a
  path matches, \<open>match_path_params\<close> decides it and captures the decoded parameters,
  \<open>route_shape_key\<close> names the set of paths a pattern matches.
\<close>

section \<open>Segments\<close>

definition split_path :: "str \<Rightarrow> str list" where
  "split_path path =
     (let p = (case strip_prefix_str ''/'' path of None \<Rightarrow> path | Some r \<Rightarrow> r)
      in if p = [] then [] else split_on (CHR ''/'') p)"

definition route_param_name :: "str \<Rightarrow> str option" where
  "route_param_name segment =
     opt_filter (\<lambda>n. n \<noteq> [] \<and> \<not> starts_with ''*'' n \<and> \<not> contains_any [CHR ''{'', CHR ''}''] n)
       (Option.bind (strip_prefix_str ''{'' segment) (strip_suffix_str ''}''))"

definition route_wildcard_name :: "str \<Rightarrow> str option" where
  "route_wildcard_name segment =
     opt_filter (\<lambda>n. n \<noteq> [] \<and> \<not> contains_any [CHR ''{'', CHR ''}'', CHR ''*''] n)
       (Option.bind (strip_prefix_str ''{*'' segment) (strip_suffix_str ''}''))"

definition route_path_param_name :: "str \<Rightarrow> str option" where
  "route_path_param_name segment = or_else (route_param_name segment) (route_wildcard_name segment)"

definition route_param_names :: "str \<Rightarrow> str list" where
  "route_param_names path = List.map_filter route_path_param_name (split_path path)"

definition has_catch_all :: "str \<Rightarrow> bool" where
  "has_catch_all path = list_ex (\<lambda>s. route_wildcard_name s \<noteq> None) (split_path path)"

section \<open>Validation\<close>

text \<open>\<open>params\<close> is the set of names seen so far; the result is the set after the segment.\<close>

definition validate_route_segment :: "str \<Rightarrow> str \<Rightarrow> bool \<Rightarrow> str list \<Rightarrow> str list result" where
  "validate_route_segment path segment is_last params =
     (if \<not> contains_any [CHR ''{'', CHR ''}''] segment then Inr params
      else
        rbind
          (case route_wildcard_name segment of
             Some name \<Rightarrow> if \<not> is_last then Inl (InvalidRoutePath path) else Inr name
           | None \<Rightarrow>
               (case route_param_name segment of
                  Some name \<Rightarrow> Inr name
                | None \<Rightarrow> Inl (InvalidRoutePath path)))
          (\<lambda>name. if List.member params name then Inl (InvalidRoutePath path)
                  else Inr (bs_insert name params)))"

fun validate_segments :: "str \<Rightarrow> str list \<Rightarrow> str list \<Rightarrow> unit result" where
  "validate_segments path [] params = Inr ()"
| "validate_segments path (s # ss) params =
     rbind (validate_route_segment path s (ss = []) params) (validate_segments path ss)"

definition validate_route_path :: "str \<Rightarrow> unit result" where
  "validate_route_path path =
     (if \<not> starts_with ''/'' path \<or> contains_any [CHR ''?'', CHR ''#''] path
      then Inl (InvalidRoutePath path)
      else validate_segments path (split_path path) [])"

definition normalize_prefix :: "str \<Rightarrow> str result" where
  "normalize_prefix pre =
     (if pre = [] \<or> pre = ''/'' then Inr []
      else rbind (validate_route_path pre) (\<lambda>_. Inr (trim_end_char (CHR ''/'') pre)))"

definition join_paths :: "str \<Rightarrow> str \<Rightarrow> str result" where
  "join_paths pre path =
     rbind (validate_route_path path) (\<lambda>_.
     rbind (normalize_prefix pre) (\<lambda>p.
       let rest = trim_start_char (CHR ''/'') path in
       if p = [] then Inr (if rest = [] then ''/'' else ''/'' @ rest)
       else
         let joined = (if rest = [] then p else p @ ''/'' @ rest) in
         rbind (validate_route_path joined) (\<lambda>_. Inr joined)))"

section \<open>Matching\<close>

text \<open>
  The loops over the pattern segments. The code keeps an index into the path segments;
  the second argument is the part of the path from that index on.
\<close>

definition decode_path_param :: "(str \<Rightarrow> str + str) \<Rightarrow> str \<Rightarrow> str result" where
  "decode_path_param dec v = decode_percent_encoded dec v"

fun match_params_loop ::
    "(str \<Rightarrow> str + str) \<Rightarrow> str list \<Rightarrow> str list \<Rightarrow> (str, str) btree \<Rightarrow> (str, str) btree option result"
where
  "match_params_loop dec [] vs ps = Inr (if vs = [] then Some ps else None)"
| "match_params_loop dec (p # pts) vs ps =
     (case route_wildcard_name p of
        Some name \<Rightarrow>
          rbind (decode_path_param dec (join_with ''/'' vs)) (\<lambda>d. Inr (Some (bt_insert name d ps)))
      | None \<Rightarrow>
          (case vs of
             [] \<Rightarrow> Inr None
           | v # rest \<Rightarrow>
               (case route_param_name p of
                  Some name \<Rightarrow>
                    rbind (decode_path_param dec v)
                      (\<lambda>d. match_params_loop dec pts rest (bt_insert name d ps))
                | None \<Rightarrow> if p \<noteq> v then Inr None else match_params_loop dec pts rest ps)))"

definition match_path_params ::
    "(str \<Rightarrow> str + str) \<Rightarrow> str \<Rightarrow> str \<Rightarrow> (str, str) btree option result" where
  "match_path_params dec pattern path =
     match_params_loop dec (split_path pattern) (split_path path) []"

fun match_shape_loop :: "str list \<Rightarrow> str list \<Rightarrow> bool" where
  "match_shape_loop [] vs = (vs = [])"
| "match_shape_loop (p # pts) vs =
     (if route_wildcard_name p \<noteq> None then True
      else (case vs of
              [] \<Rightarrow> False
            | v # rest \<Rightarrow>
                if route_param_name p = None \<and> p \<noteq> v then False else match_shape_loop pts rest))"

definition match_path_shape :: "str \<Rightarrow> str \<Rightarrow> bool" where
  "match_path_shape pattern path = match_shape_loop (split_path pattern) (split_path path)"

section \<open>Shape keys and specificity\<close>

definition segment_key :: "str \<Rightarrow> str" where
  "segment_key s =
     (if route_wildcard_name s \<noteq> None then ''{*}''
      else if route_param_name s \<noteq> None then ''{}'' else s)"

definition route_shape_key :: "str \<Rightarrow> str" where
  "route_shape_key path =
     (let segments = map segment_key (split_path path)
      in if segments = [] then ''/'' else ''/'' @ join_with ''/'' segments)"

definition segment_specificity :: "str \<Rightarrow> nat" where
  "segment_specificity s =
     (if route_wildcard_name s \<noteq> None then 0 else if route_param_name s \<noteq> None then 1 else 2)"

definition route_specificity :: "str \<Rightarrow> nat list" where
  "route_specificity path = map segment_specificity (split_path path)"

section \<open>Lemmas on segments\<close>

lemma route_param_name_Some_iff:
  "route_param_name s = Some n \<longleftrightarrow>
     s = ''{'' @ n @ ''}'' \<and> n \<noteq> [] \<and> \<not> starts_with ''*'' n \<and> CHR ''{'' \<notin> set n \<and> CHR ''}'' \<notin> set n"
  by (auto simp: route_param_name_def opt_filter_Some_iff Option.bind_eq_Some_conv
      strip_prefix_Some_iff strip_suffix_Some_iff contains_any_iff simp del: strip_prefix_str.simps)

lemma route_wildcard_name_Some_iff:
  "route_wildcard_name s = Some n \<longleftrightarrow>
     s = ''{*'' @ n @ ''}'' \<and> n \<noteq> [] \<and> CHR ''{'' \<notin> set n \<and> CHR ''}'' \<notin> set n \<and> CHR ''*'' \<notin> set n"
  by (auto simp: route_wildcard_name_def opt_filter_Some_iff Option.bind_eq_Some_conv
      strip_prefix_Some_iff strip_suffix_Some_iff contains_any_iff simp del: strip_prefix_str.simps)

lemma param_not_wildcard:
  assumes "route_wildcard_name s = Some n"
  shows "route_param_name s = None"
proof (rule ccontr)
  assume "route_param_name s \<noteq> None"
  then obtain m where "route_param_name s = Some m" by auto
  then have m: "s = ''{'' @ m @ ''}''" "\<not> starts_with ''*'' m"
    by (simp_all add: route_param_name_Some_iff)
  from assms have "s = ''{'' @ (''*'' @ n) @ ''}''"
    by (simp add: route_wildcard_name_Some_iff)
  with m(1) have "m @ ''}'' = (''*'' @ n) @ ''}''" by simp
  then have "m = ''*'' @ n" by (simp only: append_same_eq)
  with m(2) show False by (auto simp: starts_with_iff)
qed

lemma plain_segment:
  assumes "CHR ''{'' \<notin> set s"
  shows "route_wildcard_name s = None" "route_param_name s = None"
  using assms
  by (auto simp: route_wildcard_name_Some_iff route_param_name_Some_iff simp flip: not_Some_eq)

lemma split_path_no_slash: "s \<in> set (split_path p) \<Longrightarrow> CHR ''/'' \<notin> set s"
  by (auto simp: split_path_def Let_def split: if_splits dest: split_on_no_sep)

lemma split_path_not_empty_segment: "split_path p \<noteq> [[]]"
proof
  assume "split_path p = [[]]"
  then obtain q where "q \<noteq> []" "split_on (CHR ''/'') q = [[]]"
    by (auto simp: split_path_def Let_def split: if_splits)
  then show False using join_split [of "CHR ''/''" q] by simp
qed

lemma split_path_join:
  assumes "\<And>s. s \<in> set ss \<Longrightarrow> CHR ''/'' \<notin> set s" and "ss \<noteq> [[]]"
  shows "split_path (''/'' @ join_with ''/'' ss) = ss"
proof (cases "ss = []")
  case False
  have "join_with ''/'' ss \<noteq> []"
  proof (cases ss)
    case (Cons s rest)
    with assms(2) show ?thesis by (cases rest) (auto simp: join_with_Cons)
  qed (use False in simp)
  with False assms(1) show ?thesis
    by (simp add: split_path_def Let_def split_join)
qed (simp add: split_path_def Let_def)

section \<open>Valid patterns\<close>

text \<open>
  What \<open>validate_route_path\<close> establishes, as a predicate on segments: literals have no
  brace, parameter names are distinct, a wildcard is last.
\<close>

fun segs_valid :: "str set \<Rightarrow> str list \<Rightarrow> bool" where
  "segs_valid seen [] = True"
| "segs_valid seen (s # ss) =
     (case route_wildcard_name s of
        Some n \<Rightarrow> ss = [] \<and> n \<notin> seen
      | None \<Rightarrow>
          (case route_param_name s of
             Some n \<Rightarrow> n \<notin> seen \<and> segs_valid (insert n seen) ss
           | None \<Rightarrow> CHR ''{'' \<notin> set s \<and> CHR ''}'' \<notin> set s \<and> segs_valid seen ss))"

lemma braces_of_names:
  "route_wildcard_name s = Some n \<Longrightarrow> contains_any [CHR ''{'', CHR ''}''] s"
  "route_param_name s = Some n \<Longrightarrow> contains_any [CHR ''{'', CHR ''}''] s"
  by (auto simp: route_wildcard_name_Some_iff route_param_name_Some_iff contains_any_iff)

lemma validate_segments_iff:
  "validate_segments path ss params = Inr () \<longleftrightarrow> segs_valid (set params) ss"
proof (induction ss arbitrary: params)
  case (Cons s ss)
  show ?case
  proof (cases "route_wildcard_name s")
    case w: (Some n)
    then have "contains_any [CHR ''{'', CHR ''}''] s" by (rule braces_of_names)
    with w show ?thesis by (auto simp: validate_route_segment_def)
  next
    case w: None
    show ?thesis
    proof (cases "route_param_name s")
      case p: (Some n)
      then have "contains_any [CHR ''{'', CHR ''}''] s" by (rule braces_of_names)
      with w p Cons.IH show ?thesis by (auto simp: validate_route_segment_def)
    next
      case None
      with w Cons.IH show ?thesis
        by (auto simp: validate_route_segment_def contains_any_iff)
    qed
  qed
qed simp

lemma validate_route_path_iff:
  "validate_route_path p = Inr () \<longleftrightarrow>
     starts_with ''/'' p \<and> CHR ''?'' \<notin> set p \<and> CHR ''#'' \<notin> set p \<and> segs_valid {} (split_path p)"
  by (auto simp: validate_route_path_def validate_segments_iff contains_any_iff)

lemma segs_valid_mono: "segs_valid A ss \<Longrightarrow> B \<subseteq> A \<Longrightarrow> segs_valid B ss"
proof (induction ss arbitrary: A B)
  case (Cons s ss)
  then show ?case by (auto split: option.splits; metis insert_mono)
qed simp

lemma segs_valid_names:
  "segs_valid A ss \<Longrightarrow> distinct (List.map_filter route_path_param_name ss)
     \<and> set (List.map_filter route_path_param_name ss) \<inter> A = {}"
proof (induction ss arbitrary: A)
  case (Cons s ss)
  show ?case
  proof (cases "route_wildcard_name s")
    case w: None
    show ?thesis
    proof (cases "route_param_name s")
      case None
      with w Cons.prems Cons.IH [of A] show ?thesis
        by (simp add: List.map_filter_simps route_path_param_name_def)
    next
      case (Some n)
      with w Cons.prems Cons.IH [of "insert n A"] show ?thesis
        by (auto simp: List.map_filter_simps route_path_param_name_def)
    qed
  next
    case (Some n)
    with Cons.prems show ?thesis
      by (simp add: List.map_filter_simps route_path_param_name_def param_not_wildcard)
  qed
qed (simp add: List.map_filter_simps)

section \<open>What the parameter matcher captures\<close>

text \<open>
  The declarative reading of a match: each parameter is bound to the decoded segment at its
  position, the wildcard to the decoded rest of the path, literals agree, and a pattern
  without wildcard covers the whole path.
\<close>

fun captures ::
    "(str \<Rightarrow> str + str) \<Rightarrow> (str, str) btree \<Rightarrow> str list \<Rightarrow> str list \<Rightarrow> bool" where
  "captures dec ps [] vs = (vs = [])"
| "captures dec ps (p # pts) vs =
     (case route_wildcard_name p of
        Some n \<Rightarrow> map_option Inr (bt_get ps n) = Some (decode_path_param dec (join_with ''/'' vs))
      | None \<Rightarrow>
          (case vs of
             [] \<Rightarrow> False
           | v # rest \<Rightarrow>
               (case route_param_name p of
                  Some n \<Rightarrow> map_option Inr (bt_get ps n) = Some (decode_path_param dec v)
                | None \<Rightarrow> p = v) \<and> captures dec ps pts rest))"

lemma match_params_loop_iff:
  assumes "segs_valid A pts" "bt_wf acc" "fst ` set acc \<subseteq> A"
  shows "match_params_loop dec pts vs acc = Inr (Some ps) \<longleftrightarrow>
     bt_wf ps \<and> fst ` set ps = fst ` set acc \<union> set (List.map_filter route_path_param_name pts)
     \<and> (\<forall>k \<in> fst ` set acc. bt_get ps k = bt_get acc k) \<and> captures dec ps pts vs"
  using assms
proof (induction pts arbitrary: A vs acc)
  case Nil
  have "ps = acc" if "bt_wf ps" "fst ` set ps = fst ` set acc"
    "\<forall>k \<in> fst ` set acc. bt_get ps k = bt_get acc k"
  proof (rule bt_ext)
    fix k
    show "bt_get ps k = bt_get acc k"
      using that by (cases "k \<in> fst ` set acc") (auto simp: bt_get_None_iff, metis bt_get_None_iff)
  qed (use that Nil in auto)
  with Nil show ?case by (auto simp: List.map_filter_simps)
next
  case (Cons p pts)
  have ext: "fst ` set m = insert n (fst ` set acc) \<Longrightarrow> bt_wf m \<Longrightarrow>
      (\<forall>k \<in> fst ` set acc. bt_get m k = bt_get acc k) \<Longrightarrow> bt_get m n = Some d \<Longrightarrow>
      m = bt_insert n d acc" for m n d
  proof (rule bt_ext)
    fix k
    assume a: "fst ` set m = insert n (fst ` set acc)"
      "\<forall>k \<in> fst ` set acc. bt_get m k = bt_get acc k" "bt_get m n = Some d"
    show "bt_get m k = bt_get (bt_insert n d acc) k"
    proof (cases "k \<in> insert n (fst ` set acc)")
      case False
      then have "bt_get m k = None" "bt_get acc k = None"
        using a(1) by (simp_all add: bt_get_None_iff)
      with False show ?thesis by simp
    qed (use a in auto)
  qed (use Cons.prems in auto)
  show ?case
  proof (cases "route_wildcard_name p")
    case (Some n)
    with Cons.prems(1) have "pts = []" "n \<notin> A" by auto
    with Cons.prems have n: "n \<notin> fst ` set acc" by auto
    show ?thesis
    proof (cases "decode_path_param dec (join_with ''/'' vs)")
      case (Inr d)
      have "(bt_insert n d acc = ps) \<longleftrightarrow> bt_wf ps \<and> fst ` set ps = insert n (fst ` set acc)
          \<and> (\<forall>k \<in> fst ` set acc. bt_get ps k = bt_get acc k) \<and> bt_get ps n = Some d"
      proof
        assume ps: "bt_insert n d acc = ps"
        have "bt_get acc k = bt_get (bt_insert n d acc) k" if "k \<in> fst ` set acc" for k
          using that n by auto
        then show "bt_wf ps \<and> fst ` set ps = insert n (fst ` set acc)
            \<and> (\<forall>k \<in> fst ` set acc. bt_get ps k = bt_get acc k) \<and> bt_get ps n = Some d"
          unfolding ps [symmetric] using Cons.prems(2) by simp
      qed (use ext [of ps n d] in auto)
      with Some Inr \<open>pts = []\<close> show ?thesis
        by (auto simp: List.map_filter_simps route_path_param_name_def param_not_wildcard)
    qed (use Some in auto)
  next
    case w: None
    show ?thesis
    proof (cases vs)
      case v: (Cons v rest)
      show ?thesis
      proof (cases "route_param_name p")
        case None
        with w v Cons.prems Cons.IH [of A acc rest] show ?thesis
          by (auto simp: List.map_filter_simps route_path_param_name_def)
      next
        case (Some n)
        with w Cons.prems have n: "n \<notin> A" "segs_valid (insert n A) pts" "n \<notin> fst ` set acc" by auto
        show ?thesis
        proof (cases "decode_path_param dec v")
          case (Inr d)
          have sub: "fst ` set (bt_insert n d acc) \<subseteq> insert n A"
            using Cons.prems(3) by auto
          have IH: "match_params_loop dec pts rest (bt_insert n d acc) = Inr (Some ps) \<longleftrightarrow>
              bt_wf ps \<and> fst ` set ps = insert n (fst ` set acc) \<union> set (List.map_filter route_path_param_name pts)
              \<and> (\<forall>k \<in> insert n (fst ` set acc). bt_get ps k = bt_get (bt_insert n d acc) k)
              \<and> captures dec ps pts rest"
            using Cons.IH [OF n(2) bt_wf_insert [OF Cons.prems(2)] sub, of rest]
            unfolding fst_bt_insert .
          have "(\<forall>k \<in> insert n (fst ` set acc). bt_get ps k = bt_get (bt_insert n d acc) k) \<longleftrightarrow>
              bt_get ps n = Some d \<and> (\<forall>k \<in> fst ` set acc. bt_get ps k = bt_get acc k)"
            using n(3) by auto
          moreover have "match_params_loop dec (p # pts) vs acc
              = match_params_loop dec pts rest (bt_insert n d acc)"
            using w v Some Inr by simp
          moreover have "captures dec ps (p # pts) vs
              \<longleftrightarrow> bt_get ps n = Some d \<and> captures dec ps pts rest"
            using w v Some Inr by (cases "bt_get ps n") auto
          moreover have "set (List.map_filter route_path_param_name (p # pts))
              = insert n (set (List.map_filter route_path_param_name pts))"
            using Some by (simp add: List.map_filter_simps route_path_param_name_def)
          ultimately show ?thesis
            by (simp add: IH del: match_params_loop.simps captures.simps) blast
        qed (use w v Some in auto)
      qed
    qed (use w in simp)
  qed
qed

lemma captures_shape: "captures dec ps pts vs \<Longrightarrow> match_shape_loop pts vs"
  by (induction dec ps pts vs rule: captures.induct) (auto split: option.splits list.splits)

lemma params_None_shape: "match_params_loop dec pts vs ps = Inr None \<Longrightarrow> \<not> match_shape_loop pts vs"
  by (induction dec pts vs ps rule: match_params_loop.induct)
    (auto simp: result_simps split: option.splits list.splits if_splits)

lemma set_join_with: "c \<notin> set sep \<Longrightarrow> c \<in> set (join_with sep xs) \<longleftrightarrow> (\<exists>x \<in> set xs. c \<in> set x)"
  by (induction sep xs rule: join_with.induct) auto

lemma decode_path_param_plain:
  assumes "\<And>v. CHR ''%'' \<notin> set v \<Longrightarrow> dec v = Inr v" and "CHR ''%'' \<notin> set v"
  shows "decode_path_param dec v = Inr v"
  using assms pct_wf_no_percent [of v]
  by (simp add: decode_path_param_def decode_percent_encoded_def validate_percent_encoding_def
      pct_scan_drop)

lemma match_params_plain_shape:
  assumes dec: "\<And>v. CHR ''%'' \<notin> set v \<Longrightarrow> dec v = Inr v"
  shows "\<forall>v \<in> set vs. CHR ''%'' \<notin> set v \<Longrightarrow>
     (match_params_loop dec pts vs ps = Inr None \<and> \<not> match_shape_loop pts vs)
     \<or> (\<exists>m. match_params_loop dec pts vs ps = Inr (Some m) \<and> match_shape_loop pts vs)"
proof (induction pts arbitrary: vs ps)
  case (Cons p pts)
  have "CHR ''%'' \<notin> set (join_with ''/'' vs)"
    using Cons.prems by (simp add: set_join_with)
  then have all: "decode_path_param dec (join_with ''/'' vs) = Inr (join_with ''/'' vs)"
    by (simp add: decode_path_param_plain dec)
  show ?case
  proof (cases "route_wildcard_name p")
    case None
    show ?thesis
    proof (cases vs)
      case (Cons v rest)
      with Cons.prems have "decode_path_param dec v = Inr v"
        by (simp add: decode_path_param_plain dec)
      with None Cons Cons.prems Cons.IH [of rest] show ?thesis
        by (auto split: option.split)
    qed (use None in simp)
  qed (use all in simp)
qed simp

lemma set_split_on_subset: "v \<in> set (split_on c s) \<Longrightarrow> set v \<subseteq> set s"
proof (induction s arbitrary: v)
  case (Cons a s)
  obtain y ys where y: "split_on c s = y # ys"
    by (cases "split_on c s") auto
  with Cons.IH have "set y \<subseteq> set s" "\<And>z. z \<in> set ys \<Longrightarrow> set z \<subseteq> set s" by auto
  with y Cons show ?case by (fastforce split: if_splits)
qed simp

lemma set_split_path: "v \<in> set (split_path p) \<Longrightarrow> set v \<subseteq> set p"
  by (auto simp: split_path_def Let_def strip_prefix_Some_iff
      split: if_splits option.splits dest!: set_split_on_subset)

text \<open>
  On a valid pattern the parameter matcher returns exactly one map: the ordered map
  whose keys are the parameter names of the pattern and that binds each of them to the
  decoded segment at its position (the wildcard to the decoded rest of the path). It
  returns no map when there is none, or when a captured value does not decode.
\<close>

theorem match_params_exact:
  assumes "validate_route_path pattern = Inr ()"
  shows "match_path_params dec pattern path = Inr (Some ps) \<longleftrightarrow>
     bt_wf ps \<and> fst ` set ps = set (route_param_names pattern)
     \<and> captures dec ps (split_path pattern) (split_path path)"
  using assms match_params_loop_iff [of "{}" "split_path pattern" "[]"]
  by (simp add: validate_route_path_iff match_path_params_def route_param_names_def)

theorem match_params_exact_witness:
  "match_path_params Inr ''/users/{id}/{*rest}'' ''/users/7/a/b''
     = Inr (Some [(''id'', ''7''), (''rest'', ''a/b'')])"
proof -
  have "validate_route_path ''/users/{id}/{*rest}'' = Inr ()" by code_simp
  moreover have "bt_wf [(''id'', ''7''), (''rest'', ''a/b'')]" by code_simp
  moreover have "fst ` set [(''id'', ''7''), (''rest'', ''a/b'')]
      = set (route_param_names ''/users/{id}/{*rest}'')" by code_simp
  moreover have "captures Inr [(''id'', ''7''), (''rest'', ''a/b'')]
      (split_path ''/users/{id}/{*rest}'') (split_path ''/users/7/a/b'')" by code_simp
  ultimately show ?thesis
    using match_params_exact [of "''/users/{id}/{*rest}''"] by blast
qed

text \<open>
  The two matchers agree. Whatever the decoder does, a path for which parameters are
  captured has the shape and a path that is reported as no match does not; on a path
  without percent signs the parameter matcher never fails and succeeds exactly when the
  shape matcher does.
\<close>

theorem params_shape_agree:
  assumes "\<And>v. CHR ''%'' \<notin> set v \<Longrightarrow> dec v = Inr v" and "validate_route_path pattern = Inr ()"
  shows "(match_path_params dec pattern path = Inr None \<longrightarrow> \<not> match_path_shape pattern path)
     \<and> (\<forall>m. match_path_params dec pattern path = Inr (Some m) \<longrightarrow> match_path_shape pattern path)
     \<and> (CHR ''%'' \<notin> set path \<longrightarrow>
          (\<exists>m. match_path_params dec pattern path = Inr (Some m)) = match_path_shape pattern path
          \<and> is_ok (match_path_params dec pattern path))"
proof -
  have "match_shape_loop (split_path pattern) (split_path path)"
    if "match_path_params dec pattern path = Inr (Some m)" for m
    using that assms(2) match_params_loop_iff [of "{}" "split_path pattern" "[]" dec "split_path path" m]
    by (auto simp: match_path_params_def validate_route_path_iff dest: captures_shape)
  moreover have "\<forall>v \<in> set (split_path path). CHR ''%'' \<notin> set v" if "CHR ''%'' \<notin> set path"
    using that set_split_path by blast
  ultimately show ?thesis
    using match_params_plain_shape [of dec "split_path path" "split_path pattern" "[]"] assms(1)
      params_None_shape [of dec "split_path pattern" "split_path path" "[]"]
    by (auto simp: match_path_params_def match_path_shape_def is_ok_iff)
qed

theorem params_shape_agree_witness:
  "match_path_shape ''/users/{id}'' ''/users/7''
   \<and> (\<exists>m. match_path_params Inr ''/users/{id}'' ''/users/7'' = Inr (Some m))"
proof -
  have "validate_route_path ''/users/{id}'' = Inr ()" by code_simp
  moreover have "CHR ''%'' \<notin> set ''/users/7''" by simp
  moreover have "match_path_shape ''/users/{id}'' ''/users/7''" by code_simp
  ultimately show ?thesis
    using params_shape_agree [of Inr "''/users/{id}''" "''/users/7''"] by blast
qed

section \<open>Shape keys name the matched set\<close>

text \<open>The matcher read off the key segments; it agrees with the code's on valid patterns.\<close>

fun match_keys :: "str list \<Rightarrow> str list \<Rightarrow> bool" where
  "match_keys [] vs = (vs = [])"
| "match_keys (k # ks) vs =
     (if k = ''{*}'' then True
      else (case vs of [] \<Rightarrow> False | v # rest \<Rightarrow> (k = ''{}'' \<or> k = v) \<and> match_keys ks rest))"

definition key_ok :: "str \<Rightarrow> bool" where
  "key_ok k = (k = ''{*}'' \<or> k = ''{}'' \<or> (CHR ''{'' \<notin> set k \<and> CHR ''/'' \<notin> set k))"

fun keys_valid :: "str list \<Rightarrow> bool" where
  "keys_valid [] = True"
| "keys_valid (k # ks) = (key_ok k \<and> (k = ''{*}'' \<longrightarrow> ks = []) \<and> keys_valid ks)"

lemma plain_not_key: "CHR ''{'' \<notin> set s \<Longrightarrow> s \<noteq> ''{*}'' \<and> s \<noteq> ''{}''"
  by auto

lemma match_shape_keys:
  "segs_valid A ss \<Longrightarrow> match_shape_loop ss vs = match_keys (map segment_key ss) vs"
proof (induction ss arbitrary: A vs)
  case (Cons s ss)
  then show ?case
    using plain_not_key [of s]
    by (cases "route_wildcard_name s"; cases "route_param_name s"; cases vs)
      (auto simp: segment_key_def)
qed simp

lemma keys_valid_segs:
  "segs_valid A ss \<Longrightarrow> \<forall>s \<in> set ss. CHR ''/'' \<notin> set s \<Longrightarrow> keys_valid (map segment_key ss)"
proof (induction ss arbitrary: A)
  case (Cons s ss)
  then show ?case
    by (cases "route_wildcard_name s"; cases "route_param_name s")
      (auto simp: segment_key_def key_ok_def)
qed simp

lemma keys_valid_no_slash: "keys_valid ks \<Longrightarrow> k \<in> set ks \<Longrightarrow> CHR ''/'' \<notin> set k"
  by (induction ks) (auto simp: key_ok_def)

lemma segment_key_Nil_iff: "segment_key s = [] \<longleftrightarrow> s = []"
  by (auto simp: segment_key_def route_wildcard_name_Some_iff route_param_name_Some_iff)

lemma route_shape_key_join: "route_shape_key p = ''/'' @ join_with ''/'' (map segment_key (split_path p))"
  by (simp add: route_shape_key_def Let_def)

lemma route_shape_key_split:
  assumes "validate_route_path p = Inr ()"
  shows "split_path (route_shape_key p) = map segment_key (split_path p)"
  unfolding route_shape_key_join
proof (rule split_path_join)
  fix s assume "s \<in> set (map segment_key (split_path p))"
  with assms show "CHR ''/'' \<notin> set s"
    using keys_valid_no_slash keys_valid_segs split_path_no_slash
    by (metis validate_route_path_iff)
next
  show "map segment_key (split_path p) \<noteq> [[]]"
    using split_path_not_empty_segment [of p] by (auto simp: map_eq_Cons_conv segment_key_Nil_iff)
qed

lemma route_shape_key_eq_iff:
  "validate_route_path p = Inr () \<Longrightarrow> validate_route_path q = Inr () \<Longrightarrow>
     route_shape_key p = route_shape_key q \<longleftrightarrow>
     map segment_key (split_path p) = map segment_key (split_path q)"
  by (metis route_shape_key_split route_shape_key_join)

lemma match_path_shape_keys:
  "validate_route_path p = Inr () \<Longrightarrow>
     match_path_shape p x = match_keys (map segment_key (split_path p)) (split_path x)"
  by (auto simp: match_path_shape_def validate_route_path_iff match_shape_keys)

lemma shape_key_sound:
  "validate_route_path p = Inr () \<Longrightarrow> validate_route_path q = Inr () \<Longrightarrow>
     route_shape_key p = route_shape_key q \<Longrightarrow> match_path_shape p x = match_path_shape q x"
  by (simp add: match_path_shape_keys route_shape_key_eq_iff)

text \<open>
  Segment lists are told apart by what they match: a parameter by a segment that no literal
  can be (one with a brace), a wildcard by an overlong list.
\<close>

definition key_fill :: "str \<Rightarrow> str" where
  "key_fill k = (if k = ''{}'' then ''{'' else k)"

lemma key_fill_match:
  "keys_valid ks \<Longrightarrow> match_keys ks (map key_fill ks)
     \<and> (\<forall>v \<in> set (map key_fill ks). CHR ''/'' \<notin> set v)"
  by (induction ks) (auto simp: key_fill_def key_ok_def)

lemma match_keys_determine:
  assumes "keys_valid ks" "keys_valid ls"
    and "\<And>vs. \<forall>v \<in> set vs. CHR ''/'' \<notin> set v \<Longrightarrow> match_keys ks vs = match_keys ls vs"
  shows "ks = ls"
  using assms
proof (induction ks arbitrary: ls)
  case Nil
  from Nil(3) [of "[]"] have "match_keys ls []" by simp
  moreover from Nil(3) [of "[''{'', ''{'']"] have "\<not> match_keys ls [''{'', ''{'']" by simp
  ultimately show ?case by (cases ls) (auto split: if_splits)
next
  case (Cons k ks)
  show ?case
  proof (cases ls)
    case Nil
    from Cons.prems(3) [of "[]"] Nil have "k = ''{*}''" by (auto split: if_splits)
    with Cons.prems(3) [of "[''{'']"] Nil show ?thesis by simp
  next
    case ls: (Cons l ls')
    show ?thesis
    proof (cases "k = ''{*}'' \<or> l = ''{*}''")
      case True
      with Cons.prems(3) [of "[]"] ls have "k = ''{*}'' \<and> l = ''{*}''" by (auto split: if_splits)
      with Cons.prems ls show ?thesis by simp
    next
      case nw: False
      have "\<forall>v \<in> set (map key_fill (k # ks)). CHR ''/'' \<notin> set v"
        "\<forall>v \<in> set (map key_fill (l # ls')). CHR ''/'' \<notin> set v"
        using key_fill_match Cons.prems ls by blast+
      then have "match_keys (l # ls') (map key_fill (k # ks))"
        "match_keys (k # ks) (map key_fill (l # ls'))"
        using Cons.prems key_fill_match ls by blast+
      then have "(l = ''{}'' \<or> l = key_fill k) \<and> (k = ''{}'' \<or> k = key_fill l)"
        using nw by simp
      then have "k = l"
        using Cons.prems(1,2) ls nw by (auto simp: key_fill_def key_ok_def split: if_splits)
      moreover have "ks = ls'"
      proof (rule Cons.IH)
        fix vs :: "str list" assume "\<forall>v \<in> set vs. CHR ''/'' \<notin> set v"
        moreover have "CHR ''/'' \<notin> set (key_fill k)"
          using key_fill_match [OF Cons.prems(1)] by simp
        ultimately show "match_keys ks vs = match_keys ls' vs"
          using Cons.prems(3) [of "key_fill k # vs"] nw ls \<open>k = l\<close>
          by (auto simp: key_fill_def)
      qed (use Cons.prems ls in auto)
      ultimately show ?thesis using ls by simp
    qed
  qed
qed

lemma match_keys_empty_segment:
  "keys_valid ks \<Longrightarrow> ks = [] \<or> hd ks \<noteq> [] \<Longrightarrow> match_keys ks [[]] = match_keys ks [''{'']"
  by (cases ks) (auto simp: key_ok_def)

lemma split_path_double_slash:
  "starts_with ''/'' p \<Longrightarrow> \<not> starts_with ''//'' p \<Longrightarrow> split_path p = [] \<or> hd (split_path p) \<noteq> []"
proof -
  assume "starts_with ''/'' p" "\<not> starts_with ''//'' p"
  then obtain r where p: "p = ''/'' @ r" and r: "r = [] \<or> hd r \<noteq> CHR ''/''"
    by (cases p; cases "tl p") (auto simp: starts_with_iff)
  show ?thesis
  proof (cases r)
    case (Cons c cs)
    with r have "c \<noteq> CHR ''/''" by simp
    with p Cons show ?thesis
      by (auto simp: split_path_def Let_def split: list.split)
  qed (simp add: p split_path_def Let_def)
qed



section \<open>Joining paths\<close>

lemma split_on_join_append: "split_on c (a @ c # b) = split_on c a @ split_on c b"
  by (induction a) (auto split: list.splits)

lemma split_on_rev: "split_on c (rev s) = rev (map rev (split_on c s))"
proof (induction s)
  case (Cons x s)
  have snoc: "split_on c (t @ [x]) = butlast (split_on c t) @ [last (split_on c t) @ [x]]"
    if "x \<noteq> c" for t
    using that by (induction t) (auto split: list.splits)
  obtain y ys where y: "split_on c s = y # ys" by (cases "split_on c s") auto
  show ?case
  proof (cases "x = c")
    case True
    with Cons.IH show ?thesis by (simp add: split_on_join_append)
  next
    case False
    with Cons.IH y show ?thesis by (simp add: snoc)
  qed
qed simp

lemma dropWhile_split_on:
  "dropWhile (\<lambda>s. s = []) (split_on c s) = (if dropWhile (\<lambda>x. x = c) s = [] then []
     else split_on c (dropWhile (\<lambda>x. x = c) s))"
proof (induction s)
  case (Cons x s)
  then show ?case
    by (cases "split_on c s"; cases "x = c") simp_all
qed simp

definition trim_end_segs :: "str list \<Rightarrow> str list" where
  "trim_end_segs ss = rev (dropWhile (\<lambda>s. s = []) (rev ss))"

lemma dropWhile_null_map_rev:
  "dropWhile (\<lambda>s. s = []) (map rev xs) = map rev (dropWhile (\<lambda>s. s = []) xs)"
  by (induction xs) auto

lemma trim_end_split_on:
  "trim_end_segs (split_on c s) = (if trim_end_char c s = [] then [] else split_on c (trim_end_char c s))"
proof -
  let ?d = "dropWhile (\<lambda>x. x = c) (rev s)"
  have "rev (split_on c s) = map rev (split_on c (rev s))"
    by (subst split_on_rev) (simp add: rev_map comp_def)
  then have "trim_end_segs (split_on c s)
      = rev (map rev (dropWhile (\<lambda>s. s = []) (split_on c (rev s))))"
    by (simp add: trim_end_segs_def dropWhile_null_map_rev)
  also have "\<dots> = (if ?d = [] then [] else rev (map rev (split_on c ?d)))"
    by (simp only: dropWhile_split_on) simp
  finally show ?thesis
    by (simp only: trim_end_char_def split_on_rev) simp
qed

lemma split_path_rest:
  assumes "starts_with ''/'' path"
  shows "dropWhile (\<lambda>s. s = []) (split_path path)
     = (if trim_start_char (CHR ''/'') path = [] then []
        else split_on (CHR ''/'') (trim_start_char (CHR ''/'') path))"
proof -
  from assms obtain r where r: "path = CHR ''/'' # r" by (auto simp: starts_with_iff)
  have "dropWhile (\<lambda>s. s = []) (split_path path) = dropWhile (\<lambda>s. s = []) (split_on (CHR ''/'') r)"
    by (simp add: r split_path_def Let_def)
  then show ?thesis
    unfolding dropWhile_split_on by (simp add: r trim_start_char_def)
qed

lemma split_path_prefix:
  assumes "starts_with ''/'' p"
  shows "trim_end_segs (split_path p) = split_path (trim_end_char (CHR ''/'') p)
     \<and> (trim_end_char (CHR ''/'') p = [] \<or> starts_with ''/'' (trim_end_char (CHR ''/'') p))"
proof -
  from assms obtain r where p: "p = CHR ''/'' # r" by (auto simp: starts_with_iff)
  have "trim_end_char (CHR ''/'') p
      = (if trim_end_char (CHR ''/'') r = [] then [] else CHR ''/'' # trim_end_char (CHR ''/'') r)"
    by (auto simp: p trim_end_char_def dropWhile_append)
  moreover have "trim_end_segs [] = []" by (simp add: trim_end_segs_def)
  ultimately show ?thesis
    using trim_end_split_on [of "CHR ''/''" r]
    by (auto simp: p split_path_def Let_def starts_with_iff trim_end_char_def)
qed

lemma segs_valid_dropWhile: "segs_valid A ss \<Longrightarrow> segs_valid A (dropWhile (\<lambda>s. s = []) ss)"
proof (induction ss)
  case (Cons s ss)
  have "route_wildcard_name [] = None" "route_param_name [] = None"
    by (simp_all add: plain_segment)
  with Cons show ?case by auto
qed simp

lemma set_trim_start_char: "set (trim_start_char c s) \<subseteq> set s"
  unfolding trim_start_char_def by (auto dest: set_dropWhileD)

lemma normalize_prefix_segs:
  assumes "normalize_prefix pre = Inr p"
  shows "split_path p = trim_end_segs (split_path pre) \<and> (p = [] \<or> starts_with ''/'' p)"
proof (cases "pre = [] \<or> pre = ''/''")
  case True
  with assms show ?thesis
    by (auto simp: normalize_prefix_def split_path_def Let_def trim_end_segs_def)
next
  case False
  with assms show ?thesis
    using split_path_prefix [of pre]
    by (auto simp: normalize_prefix_def result_simps validate_route_path_iff)
qed

lemma normalize_prefix_no_trailing: "normalize_prefix pre = Inr p \<Longrightarrow> p \<noteq> ''/''"
proof
  assume "normalize_prefix pre = Inr p" "p = ''/''"
  then have "rev (dropWhile (\<lambda>x. x = CHR ''/'') (rev pre)) = ''/''"
    by (auto simp: normalize_prefix_def result_simps trim_end_char_def split: if_splits)
  then have "dropWhile (\<lambda>x. x = CHR ''/'') (rev pre) = ''/''"
    by (simp only: rev_swap) simp
  then show False
    using hd_dropWhile [of "\<lambda>x. x = CHR ''/''" "rev pre"] by (auto simp: dropWhile_eq_Nil_conv)
qed

text \<open>
  A joined path is a valid pattern, also in the branch for an empty prefix, which the
  code returns without validating it again; and its segments are those of the prefix
  without trailing empty ones followed by those of the path without leading empty ones, so
  that its specificity is the concatenation of theirs.
\<close>

theorem join_paths_valid:
  assumes "join_paths pre path = Inr joined"
  shows "validate_route_path joined = Inr ()
     \<and> split_path joined = trim_end_segs (split_path pre) @ dropWhile (\<lambda>s. s = []) (split_path path)"
proof -
  from assms obtain p where path: "validate_route_path path = Inr ()"
    and p: "normalize_prefix pre = Inr p"
    by (auto simp: join_paths_def result_simps)
  let ?rest = "trim_start_char (CHR ''/'') path"
  from path have sw: "starts_with ''/'' path"
    and sv: "segs_valid {} (dropWhile (\<lambda>s. s = []) (split_path path))"
    by (auto simp: validate_route_path_iff segs_valid_dropWhile)
  note rest = split_path_rest [OF sw]
  note pre = normalize_prefix_segs [OF p]
  show ?thesis
  proof (cases "p = []")
    case True
    with assms path p have j: "joined = ''/'' @ ?rest"
      by (auto simp: join_paths_def Let_def split: if_splits)
    have "split_path joined = dropWhile (\<lambda>s. s = []) (split_path path)"
      using rest by (simp add: j split_path_def Let_def)
    moreover have "validate_route_path joined = Inr ()"
      using sv calculation path set_trim_start_char [of "CHR ''/''" path]
      by (auto simp: validate_route_path_iff j starts_with_iff)
    moreover have "trim_end_segs (split_path pre) = []"
      using pre True by (simp add: split_path_def)
    ultimately show ?thesis by simp
  next
    case False
    with assms path p have v: "validate_route_path joined = Inr ()"
      and j: "joined = (if ?rest = [] then p else p @ ''/'' @ ?rest)"
      by (auto simp: join_paths_def Let_def result_simps)
    from pre False obtain r where r: "p = CHR ''/'' # r" by (auto simp: starts_with_iff)
    from p False r have "r \<noteq> []" by (metis normalize_prefix_no_trailing)
    then have "split_path joined = split_path p @ dropWhile (\<lambda>s. s = []) (split_path path)"
      unfolding rest by (simp add: j r split_path_def Let_def split_on_join_append)
    with v pre show ?thesis by simp
  qed
qed

theorem join_paths_valid_witness:
  "join_paths ''/api/'' ''//users/{id}'' = Inr ''/api/users/{id}''
   \<and> validate_route_path ''/api/users/{id}'' = Inr ()"
proof -
  have j: "join_paths ''/api/'' ''//users/{id}'' = Inr ''/api/users/{id}''" by code_simp
  with join_paths_valid [OF j] show ?thesis by blast
qed

end
