(* ===== verification/Versioning.thy ===== *)
theory Versioning
  imports Errors
begin

text \<open>
  \<open>src/versioning.rs\<close>: API versions of routes and requests. A request yields candidates
  (a path to match and the version asked for); a route says which versions it serves.
  \<open>json_number s\<close> stands for \<open>serde_json::from_str\<close> restricted to numbers: the canonical
  text of the number that \<open>s\<close> denotes, if it denotes one.
\<close>

datatype api_versioning_strategy = Uri str | Header str | MediaType str

record api_versioning =
  av_strategy :: api_versioning_strategy
  av_default_version :: "str option"

datatype route_versioning = Unspecified | Versions "str list" | Neutral

record api_version_candidate =
  cand_path :: str
  cand_version :: "str option"

section \<open>Normalisation and builders\<close>

definition normalize_version :: "(str \<Rightarrow> str option) \<Rightarrow> str \<Rightarrow> str" where
  "normalize_version json_number v = (case json_number v of Some n \<Rightarrow> n | None \<Rightarrow> trim v)"

definition api_versioning_new :: "api_versioning_strategy \<Rightarrow> api_versioning" where
  "api_versioning_new strategy = \<lparr>av_strategy = strategy, av_default_version = None\<rparr>"

definition with_default_version ::
    "(str \<Rightarrow> str option) \<Rightarrow> str \<Rightarrow> api_versioning \<Rightarrow> api_versioning" where
  "with_default_version jn version av = av\<lparr>av_default_version := Some (normalize_version jn version)\<rparr>"

fun route_versions_loop :: "(str \<Rightarrow> str option) \<Rightarrow> str list \<Rightarrow> str list \<Rightarrow> str list" where
  "route_versions_loop jn [] vals = vals"
| "route_versions_loop jn (v # vs) vals =
     (let n = normalize_version jn v
      in route_versions_loop jn vs
           (if n \<noteq> [] \<and> \<not> List.member vals n then vals @ [n] else vals))"

definition route_versions :: "(str \<Rightarrow> str option) \<Rightarrow> str list \<Rightarrow> route_versioning" where
  "route_versions jn vs = Versions (route_versions_loop jn vs [])"

definition versioning_is_unspecified :: "route_versioning \<Rightarrow> bool" where
  "versioning_is_unspecified v = (case v of Unspecified \<Rightarrow> True | _ \<Rightarrow> False)"

definition versioning_display :: "route_versioning \<Rightarrow> str" where
  "versioning_display v =
     (case v of Unspecified \<Rightarrow> ''unspecified'' | Neutral \<Rightarrow> ''neutral''
      | Versions vs \<Rightarrow> join_with '','' vs)"

section \<open>Candidates of a request\<close>

fun uri_scan :: "str \<Rightarrow> str list \<Rightarrow> str list \<Rightarrow> (str list \<times> str) option" where
  "uri_scan pre before [] = None"
| "uri_scan pre before (s # ss) =
     (case strip_prefix_str pre s of
        None \<Rightarrow> uri_scan pre (before @ [s]) ss
      | Some version \<Rightarrow>
          if version = [] then uri_scan pre (before @ [s]) ss
          else Some (before @ ss, version))"

definition uri_candidates :: "(str \<Rightarrow> str option) \<Rightarrow> str \<Rightarrow> str \<Rightarrow> api_version_candidate list" where
  "uri_candidates jn path pre =
     (let segments = filter (\<lambda>s. s \<noteq> []) (split_on (CHR ''/'') (trim_start_char (CHR ''/'') path))
      in case uri_scan pre [] segments of
           Some (remaining, version) \<Rightarrow>
             [\<lparr>cand_path = (if remaining = [] then ''/'' else ''/'' @ join_with ''/'' remaining),
               cand_version = Some (normalize_version jn version)\<rparr>]
         | None \<Rightarrow> [\<lparr>cand_path = path, cand_version = None\<rparr>])"

definition parameter_version :: "(str \<Rightarrow> str option) \<Rightarrow> str \<Rightarrow> str \<Rightarrow> str option" where
  "parameter_version jn key parameter =
     (case split_once (CHR ''='') (trim parameter) of
        None \<Rightarrow> None
      | Some (name, v) \<Rightarrow>
          if eq_ignore_ascii_case (trim name) key then
            opt_filter (\<lambda>version. version \<noteq> [])
              (Some (normalize_version jn (trim_char (CHR 34) (trim v))))
          else None)"

fun first_some :: "('a \<Rightarrow> 'b option) \<Rightarrow> 'a list \<Rightarrow> 'b option" where
  "first_some f [] = None"
| "first_some f (x # xs) = (case f x of Some y \<Rightarrow> Some y | None \<Rightarrow> first_some f xs)"

definition media_type_version :: "(str \<Rightarrow> str option) \<Rightarrow> str list \<Rightarrow> str \<Rightarrow> str option" where
  "media_type_version jn vals key =
     first_some
       (\<lambda>v. first_some
          (\<lambda>media_range. first_some (parameter_version jn key)
             (drop 1 (split_on (CHR '';'') media_range)))
          (split_on (CHR '','') v))
       vals"

text \<open>
  The request enters through its path, the value of the configured header and the values of
  \<open>accept\<close>, read with the request's header operations.
\<close>

definition request_candidates ::
    "(str \<Rightarrow> str option) \<Rightarrow> api_versioning \<Rightarrow> str \<Rightarrow> (str \<Rightarrow> str option) \<Rightarrow> (str \<Rightarrow> str list)
       \<Rightarrow> api_version_candidate list" where
  "request_candidates jn av path header header_values =
     (case av_strategy av of
        Uri pre \<Rightarrow> uri_candidates jn path pre
      | Header h \<Rightarrow>
          [\<lparr>cand_path = path,
            cand_version = opt_filter (\<lambda>v. v \<noteq> []) (map_option (normalize_version jn) (header h))\<rparr>]
      | MediaType key \<Rightarrow>
          [\<lparr>cand_path = path, cand_version = media_type_version jn (header_values ''accept'') key\<rparr>])"

definition path_candidates ::
    "(str \<Rightarrow> str option) \<Rightarrow> api_versioning \<Rightarrow> str \<Rightarrow> api_version_candidate list" where
  "path_candidates jn av path =
     (case av_strategy av of
        Uri pre \<Rightarrow> uri_candidates jn path pre
      | _ \<Rightarrow> [\<lparr>cand_path = path, cand_version = None\<rparr>])"

section \<open>Serving a version\<close>

fun versioning_matches :: "route_versioning \<Rightarrow> str option \<Rightarrow> str option \<Rightarrow> bool" where
  "versioning_matches Neutral requested dflt = True"
| "versioning_matches Unspecified requested dflt =
     (case (requested, dflt) of
        (Some r, Some d) \<Rightarrow> r = d
      | (Some _, None) \<Rightarrow> False
      | (None, _) \<Rightarrow> True)"
| "versioning_matches (Versions vs) requested dflt =
     (case or_else requested dflt of
        Some r \<Rightarrow> list_ex (\<lambda>v. v = r) vs
      | None \<Rightarrow> False)"

fun versioning_overlaps :: "route_versioning \<Rightarrow> route_versioning \<Rightarrow> str option \<Rightarrow> bool" where
  "versioning_overlaps Neutral other dflt = True"
| "versioning_overlaps Unspecified Neutral dflt = True"
| "versioning_overlaps (Versions vs) Neutral dflt = True"
| "versioning_overlaps Unspecified Unspecified dflt = True"
| "versioning_overlaps Unspecified (Versions vs) dflt =
     (case dflt of Some d \<Rightarrow> list_ex (\<lambda>v. v = d) vs | None \<Rightarrow> False)"
| "versioning_overlaps (Versions vs) Unspecified dflt =
     (case dflt of Some d \<Rightarrow> list_ex (\<lambda>v. v = d) vs | None \<Rightarrow> False)"
| "versioning_overlaps (Versions ls) (Versions rs) dflt = list_ex (\<lambda>v. List.member rs v) ls"

section \<open>Lemmas\<close>

lemma route_versions_loop_props:
  "distinct vals \<Longrightarrow> [] \<notin> set vals \<Longrightarrow>
     distinct (route_versions_loop jn vs vals) \<and> [] \<notin> set (route_versions_loop jn vs vals)
     \<and> set (route_versions_loop jn vs vals) = set vals \<union> (normalize_version jn ` set vs - {[]})"
  by (induction vs arbitrary: vals) (auto simp: Let_def)

lemma route_versions_props:
  "route_versions jn vs = Versions ws \<Longrightarrow>
     distinct ws \<and> [] \<notin> set ws \<and> set ws = normalize_version jn ` set vs - {[]}"
  using route_versions_loop_props [of "[]"] by (auto simp: route_versions_def)

lemma uri_scan_step:
  "uri_scan pre before (s # ss) =
     (if \<exists>v. s = pre @ v \<and> v \<noteq> [] then Some (before @ ss, drop (length pre) s)
      else uri_scan pre (before @ [s]) ss)"
  by (cases "strip_prefix_str pre s") (auto simp: strip_prefix_Some_iff)

declare uri_scan.simps(2) [simp del]

lemma uri_scan_None_iff:
  "uri_scan pre before ss = None \<longleftrightarrow> (\<forall>s \<in> set ss. \<not> (\<exists>v. s = pre @ v \<and> v \<noteq> []))"
  by (induction ss arbitrary: before) (auto simp: uri_scan_step)

lemma uri_scan_Some:
  "uri_scan pre before ss = Some (rest, v) \<Longrightarrow>
     \<exists>xs ys. ss = xs @ (pre @ v) # ys \<and> rest = before @ xs @ ys \<and> v \<noteq> []
       \<and> (\<forall>s \<in> set xs. \<not> (\<exists>w. s = pre @ w \<and> w \<noteq> []))"
proof (induction ss arbitrary: before)
  case (Cons s ss)
  show ?case
  proof (cases "\<exists>w. s = pre @ w \<and> w \<noteq> []")
    case True
    then obtain w where "s = pre @ w" "w \<noteq> []" by blast
    with Cons.prems have "v = w" "rest = before @ ss" by (auto simp: uri_scan_step)
    with \<open>s = pre @ w\<close> \<open>w \<noteq> []\<close> show ?thesis
      by (intro exI [of _ "[]"] exI [of _ ss]) simp
  next
    case False
    with Cons.prems have "uri_scan pre (before @ [s]) ss = Some (rest, v)"
      by (simp add: uri_scan_step)
    from Cons.IH [OF this] obtain xs ys where
      "ss = xs @ (pre @ v) # ys" "rest = (before @ [s]) @ xs @ ys" "v \<noteq> []"
      "\<forall>s \<in> set xs. \<not> (\<exists>w. s = pre @ w \<and> w \<noteq> [])"
      by blast
    with False show ?thesis by (intro exI [of _ "s # xs"] exI [of _ ys]) auto
  qed
qed simp

fun versions_nonempty :: "route_versioning \<Rightarrow> bool" where
  "versions_nonempty (Versions vs) = (vs \<noteq> [])"
| "versions_nonempty _ = True"

lemma matches_requested:
  "versioning_matches v (Some r) dflt =
     (case v of Neutral \<Rightarrow> True | Unspecified \<Rightarrow> dflt = Some r | Versions vs \<Rightarrow> r \<in> set vs)"
  by (cases v) (auto simp: list_ex_iff split: option.splits)

lemma matches_none:
  "versioning_matches v None dflt =
     (case v of Neutral \<Rightarrow> True | Unspecified \<Rightarrow> True
      | Versions vs \<Rightarrow> (case dflt of Some d \<Rightarrow> d \<in> set vs | None \<Rightarrow> False))"
  by (cases v) (auto simp: list_ex_iff split: option.splits)

lemma ex_requested: "(\<exists>r. P r) \<longleftrightarrow> P None \<or> (\<exists>x. P (Some x))"
  by (metis not_None_eq)

lemma overlaps_common:
  "versions_nonempty a \<Longrightarrow> versions_nonempty b \<Longrightarrow>
     versioning_overlaps a b dflt \<longleftrightarrow>
     (\<exists>requested. versioning_matches a requested dflt \<and> versioning_matches b requested dflt)"
  unfolding ex_requested matches_requested matches_none
  by (cases a; cases b) (auto simp: list_ex_iff neq_Nil_conv split: option.splits)

text \<open>
  Two routes are said to overlap exactly when some request is served by both: the
  static check that registration uses is neither too strict nor too lax for the dynamic
  one. The only exception are routes with an empty list of versions, which no request reaches.
\<close>

theorem overlaps_exact:
  assumes "versions_nonempty a" and "versions_nonempty b"
  shows "versioning_overlaps a b dflt \<longleftrightarrow>
     (\<exists>requested. versioning_matches a requested dflt \<and> versioning_matches b requested dflt)"
  using assms by (rule overlaps_common)

theorem overlaps_exact_witness:
  "\<not> versioning_overlaps (Versions [''1'', ''2'']) (Versions [''3'']) (Some ''1'')
   \<and> (\<exists>requested. versioning_matches (Versions [''1'']) requested (Some ''1'')
        \<and> versioning_matches Unspecified requested (Some ''1''))"
proof
  show "\<not> versioning_overlaps (Versions [''1'', ''2'']) (Versions [''3'']) (Some ''1'')"
    by code_simp
  have "versioning_overlaps (Versions [''1'']) Unspecified (Some ''1'')" by code_simp
  then show "\<exists>requested. versioning_matches (Versions [''1'']) requested (Some ''1'')
        \<and> versioning_matches Unspecified requested (Some ''1'')"
    using overlaps_exact [of "Versions [''1'']" Unspecified "Some ''1''"] by simp
qed

definition path_segments :: "str \<Rightarrow> str list" where
  "path_segments path = filter (\<lambda>s. s \<noteq> []) (split_on (CHR ''/'') (trim_start_char (CHR ''/'') path))"

lemma path_segments_no_slash: "s \<in> set (path_segments p) \<Longrightarrow> s \<noteq> [] \<and> CHR ''/'' \<notin> set s"
  by (auto simp: path_segments_def dest: split_on_no_sep)

lemma path_segments_join:
  assumes "\<And>s. s \<in> set ss \<Longrightarrow> s \<noteq> [] \<and> CHR ''/'' \<notin> set s"
  shows "path_segments (if ss = [] then ''/'' else ''/'' @ join_with ''/'' ss) = ss"
proof (cases ss)
  case Nil
  then show ?thesis by (simp add: path_segments_def trim_start_char_def)
next
  case (Cons s rest)
  with assms [of s] obtain c cs where s: "s = c # cs" "c \<noteq> CHR ''/''" by (cases s) auto
  have "trim_start_char (CHR ''/'') (''/'' @ join_with ''/'' ss) = join_with ''/'' ss"
    using Cons s by (simp add: trim_start_char_def join_with_Cons_head)
  moreover have "filter (\<lambda>s. s \<noteq> []) ss = ss"
    using assms by (simp add: filter_id_conv)
  ultimately show ?thesis
    using Cons assms split_join [of ss "CHR ''/''"] by (auto simp: path_segments_def)
qed

text \<open>
  A request has exactly one candidate under URI versioning. It takes out the first
  segment, at any position, that is the prefix followed by something, and reads the version
  from it; a path with no such segment is left alone and has no version.
\<close>

theorem uri_candidates_exact:
  "(\<exists>c. uri_candidates jn path pre = [c]
      \<and> (case cand_version c of
           None \<Rightarrow> cand_path c = path
             \<and> (\<forall>s \<in> set (path_segments path). \<not> (\<exists>v. s = pre @ v \<and> v \<noteq> []))
         | Some version \<Rightarrow>
             (\<exists>xs v ys. path_segments path = xs @ (pre @ v) # ys \<and> v \<noteq> []
                \<and> (\<forall>s \<in> set xs. \<not> (\<exists>w. s = pre @ w \<and> w \<noteq> []))
                \<and> version = normalize_version jn v
                \<and> path_segments (cand_path c) = xs @ ys)))"
proof (cases "uri_scan pre [] (path_segments path)")
  case None
  then have "\<forall>s \<in> set (path_segments path). \<not> (\<exists>v. s = pre @ v \<and> v \<noteq> [])"
    by (simp only: uri_scan_None_iff)
  with None show ?thesis
    by (simp add: uri_candidates_def flip: path_segments_def)
next
  case (Some rv)
  obtain rest v where rv: "rv = (rest, v)" by (cases rv)
  from uri_scan_Some [OF Some [unfolded rv]] obtain xs ys where
    xs: "path_segments path = xs @ (pre @ v) # ys" "rest = xs @ ys" "v \<noteq> []"
    "\<forall>s \<in> set xs. \<not> (\<exists>w. s = pre @ w \<and> w \<noteq> [])"
    by auto
  have "path_segments (if rest = [] then ''/'' else ''/'' @ join_with ''/'' rest) = xs @ ys"
    unfolding xs(2) by (rule path_segments_join) (use xs(1) path_segments_no_slash [of _ path] in auto)
  moreover have "uri_candidates jn path pre
      = [\<lparr>cand_path = (if rest = [] then ''/'' else ''/'' @ join_with ''/'' rest),
          cand_version = Some (normalize_version jn v)\<rparr>]"
    using Some rv by (simp add: uri_candidates_def flip: path_segments_def)
  ultimately show ?thesis using xs by (intro exI conjI) (assumption, fastforce)
qed

theorem uri_candidates_exact_witness:
  "\<exists>c. uri_candidates (\<lambda>_. None) ''/v2/cats'' ''v'' = [c] \<and> cand_version c = Some ''2''
     \<and> path_segments (cand_path c) = [''cats'']"
proof -
  have c: "uri_candidates (\<lambda>_. None) ''/v2/cats'' ''v''
      = [\<lparr>cand_path = ''/cats'', cand_version = Some ''2''\<rparr>]" by code_simp
  from uri_candidates_exact [of "\<lambda>_. None" "''/v2/cats''" "''v''"]
  obtain xs v ys where "path_segments ''/v2/cats'' = xs @ (''v'' @ v) # ys"
    "path_segments ''/cats'' = xs @ ys"
    by (auto simp: c)
  have "path_segments ''/cats'' = [''cats'']" by code_simp
  with c show ?thesis by simp
qed

lemma unversioned_route_shadowed:
  "uri_candidates (\<lambda>_. None) ''/users/victor'' ''v''
     = [\<lparr>cand_path = ''/users'', cand_version = Some ''ictor''\<rparr>]"
  by code_simp

end
