(* ===== verification/Pipeline.thy ===== *)
theory Pipeline
  imports Http_Message Route_Path Versioning
begin

text \<open>
  \<open>src/routing/route/{definition,execution,pipeline}.rs\<close> and \<open>src/pipeline/{components,context,
  filter,interceptor,guard,pipe}.rs\<close>: a route and the pipeline that runs a request through
  middleware, guards, interceptors, pipes, validators and the handler, with exception
  filters on every error path.

  User code acts on a world \<open>'w\<close> that is passed through every call. \<open>'m\<close> is the type of
  module references and \<open>'v\<close> the type of JSON values (\<open>serde_json::Value\<close>). A guard, pipe,
  filter, middleware or handler is a function to a result and a new world. An interceptor
  decides when, and how often, to call the rest of the pipeline, so it is a script: a tree
  of steps on the world and of calls of the next handler, each of which continues with the
  result of the call. A script calls its handler sequentially; the check of overlapping
  calls (\<open>CallHandler::running\<close>) never fires on it. The id of the request context is an
  argument, \<open>scope\<close> is \<open>ModuleRef::context_scope\<close>.
\<close>

section \<open>Data\<close>

type_synonym ('w, 'a) step = "'w \<Rightarrow> 'a result \<times> 'w"

text \<open>Sequencing of steps: the first error ends the sequence.\<close>

definition step_bind :: "('w, 'a) step \<Rightarrow> ('a \<Rightarrow> ('w, 'b) step) \<Rightarrow> ('w, 'b) step" where
  "step_bind f k s = (case f s of (Inl e, s1) \<Rightarrow> (Inl e, s1) | (Inr a, s1) \<Rightarrow> k a s1)"

definition step_result :: "'a result \<Rightarrow> ('w, 'a) step" where
  "step_result r s = (r, s)"

lemma step_bind_simps [simp]:
  "f s = (Inr a, s1) \<Longrightarrow> step_bind f k s = k a s1"
  "f s = (Inl e, s1) \<Longrightarrow> step_bind f k s = (Inl e, s1)"
  by (simp_all add: step_bind_def)

lemma step_result_simps [simp]:
  "step_bind (step_result (Inr a)) k = k a"
  "step_bind (step_result (Inl e)) k = step_result (Inl e)"
  by (simp_all add: fun_eq_iff step_bind_def step_result_def)

datatype 'm middleware_outcome = Continue "'m boot_request" | Respond boot_response

datatype execution_protocol = EP_Http | EP_WebSocket | EP_Transport

datatype execution_transport_kind = ETK_RequestResponse | ETK_Event

record websocket_execution_context =
  wec_gateway_path :: str
  wec_event :: str
  wec_namespace :: "str option"

record transport_execution_context =
  tec_pattern :: str
  tec_kind :: execution_transport_kind

record serialization_options =
  so_include_fields :: "str list option"
  so_exclude_fields :: "str list"
  so_skip_null_fields :: bool

definition serialization_default :: serialization_options where
  "serialization_default =
     \<lparr>so_include_fields = None, so_exclude_fields = [], so_skip_null_fields = False\<rparr>"

record validation_options =
  vo_transform :: bool
  vo_whitelist :: bool
  vo_forbid_non_whitelisted :: bool

definition validation_options_default :: validation_options where
  "validation_options_default =
     \<lparr>vo_transform = False, vo_whitelist = False, vo_forbid_non_whitelisted = False\<rparr>"

definition validation_options_merge ::
    "validation_options \<Rightarrow> validation_options \<Rightarrow> validation_options" where
  "validation_options_merge a b =
     \<lparr>vo_transform = (vo_transform a \<or> vo_transform b),
      vo_whitelist = (vo_whitelist a \<or> vo_whitelist b),
      vo_forbid_non_whitelisted = (vo_forbid_non_whitelisted a \<or> vo_forbid_non_whitelisted b)\<rparr>"

record ('m, 'v) execution_context =
  ec_protocol :: execution_protocol
  ec_method :: http_method
  ec_request_path :: str
  ec_route_path :: str
  ec_module_name :: "str option"
  ec_controller_prefix :: "str option"
  ec_serialization :: serialization_options
  ec_metadata :: "(str, 'v) btree"
  ec_request :: "'m boot_request"
  ec_websocket :: "websocket_execution_context option"
  ec_transport :: "transport_execution_context option"

definition execution_context_new ::
    "'m boot_request \<Rightarrow> str \<Rightarrow> str option \<Rightarrow> str option \<Rightarrow> serialization_options
       \<Rightarrow> (str, 'v) btree \<Rightarrow> ('m, 'v) execution_context" where
  "execution_context_new request route_path module_name controller_prefix serialization metadata =
     \<lparr>ec_protocol = EP_Http, ec_method = rq_method request, ec_request_path = rq_path request,
      ec_route_path = route_path, ec_module_name = module_name,
      ec_controller_prefix = controller_prefix, ec_serialization = serialization,
      ec_metadata = metadata, ec_request = request, ec_websocket = None, ec_transport = None\<rparr>"

definition execution_context_websocket ::
    "'m boot_request \<Rightarrow> str \<Rightarrow> str \<Rightarrow> str option \<Rightarrow> str option \<Rightarrow> (str, 'v) btree
       \<Rightarrow> ('m, 'v) execution_context" where
  "execution_context_websocket request gateway_path event namespace module_name metadata =
     \<lparr>ec_protocol = EP_WebSocket, ec_method = rq_method request, ec_request_path = rq_path request,
      ec_route_path = gateway_path, ec_module_name = module_name, ec_controller_prefix = None,
      ec_serialization = serialization_default, ec_metadata = metadata, ec_request = request,
      ec_websocket = Some \<lparr>wec_gateway_path = gateway_path, wec_event = event, wec_namespace = namespace\<rparr>,
      ec_transport = None\<rparr>"

definition execution_context_transport ::
    "'m boot_request \<Rightarrow> str \<Rightarrow> execution_transport_kind \<Rightarrow> str option \<Rightarrow> (str, 'v) btree
       \<Rightarrow> ('m, 'v) execution_context" where
  "execution_context_transport request pattern knd module_name metadata =
     \<lparr>ec_protocol = EP_Transport, ec_method = M_Post, ec_request_path = pattern,
      ec_route_path = pattern, ec_module_name = module_name, ec_controller_prefix = None,
      ec_serialization = serialization_default, ec_metadata = metadata, ec_request = request,
      ec_websocket = None, ec_transport = Some \<lparr>tec_pattern = pattern, tec_kind = knd\<rparr>\<rparr>"

section \<open>Components\<close>

text \<open>\<open>resolver owner context_id\<close> runs provider resolution, which is user code too.\<close>

datatype ('w, 'm, 'b) component_source =
  Static 'b
| Provider 'm "'m \<Rightarrow> nat \<Rightarrow> 'w \<Rightarrow> 'b result \<times> 'w"

record ('w, 'm, 'b) pipeline_component =
  pc_type_id :: nat
  pc_source :: "('w, 'm, 'b) component_source"

definition component_resolve :: "('w, 'm, 'b) pipeline_component \<Rightarrow> nat \<Rightarrow> ('w, 'b) step" where
  "component_resolve c context_id w =
     (case pc_source c of
        Static inner \<Rightarrow> (Inr inner, w)
      | Provider owner resolver \<Rightarrow> resolver owner context_id w)"

datatype 'w interceptor_script =
  Finish "boot_response result"
| Act "'w \<Rightarrow> 'w interceptor_script \<times> 'w"
| HandleNext "boot_response result \<Rightarrow> 'w interceptor_script"

type_synonym ('w, 'm) middleware = "'m boot_request \<Rightarrow> ('w, 'm middleware_outcome) step"
type_synonym ('w, 'm, 'v) guard = "('m, 'v) execution_context \<Rightarrow> ('w, bool) step"
type_synonym ('w, 'm) pipe = "'m boot_request \<Rightarrow> ('w, 'm boot_request) step"
type_synonym ('w, 'm, 'v) interceptor = "('m, 'v) execution_context \<Rightarrow> 'w interceptor_script"
type_synonym ('w, 'm, 'v) exception_filter =
  "('m, 'v) execution_context \<Rightarrow> boot_error \<Rightarrow> ('w, boot_response option) step"
type_synonym 'm request_validator =
  "'m boot_request \<Rightarrow> validation_options \<Rightarrow> 'm boot_request result"
type_synonym ('w, 'm) route_handler = "'m boot_request \<Rightarrow> ('w, boot_response) step"

text \<open>The default \<open>intercept\<close>, from the hooks \<open>before\<close>, \<open>short_circuit\<close> and \<open>after\<close>.\<close>

definition script_bind :: "('w, 'a) step \<Rightarrow> ('a \<Rightarrow> 'w interceptor_script) \<Rightarrow> 'w interceptor_script" where
  "script_bind f k =
     Act (\<lambda>w. case f w of (Inl e, w') \<Rightarrow> (Finish (Inl e), w') | (Inr a, w') \<Rightarrow> (k a, w'))"

definition default_intercept ::
    "(('m, 'v) execution_context \<Rightarrow> ('w, unit) step)
     \<Rightarrow> (('m, 'v) execution_context \<Rightarrow> ('w, boot_response option) step)
     \<Rightarrow> (('m, 'v) execution_context \<Rightarrow> boot_response \<Rightarrow> ('w, boot_response) step)
     \<Rightarrow> ('w, 'm, 'v) interceptor" where
  "default_intercept before short_circuit after ctx =
     script_bind (before ctx) (\<lambda>_.
     script_bind (short_circuit ctx) (\<lambda>r. case r of
       Some response \<Rightarrow> Finish (Inr response)
     | None \<Rightarrow> HandleNext (\<lambda>res. case res of
           Inl e \<Rightarrow> Finish (Inl e)
         | Inr response \<Rightarrow> script_bind (after ctx response) (\<lambda>r. Finish (Inr r)))))"

definition static_response_header :: "str \<Rightarrow> str \<Rightarrow> ('w, 'm, 'v) interceptor" where
  "static_response_header name v =
     default_intercept (\<lambda>_ w. (Inr (), w)) (\<lambda>_ w. (Inr None, w))
       (\<lambda>_ r w. (Inr (response_with_header name v r), w))"

definition static_redirect :: "nat \<Rightarrow> str \<Rightarrow> ('w, 'm, 'v) interceptor" where
  "static_redirect status loc =
     default_intercept (\<lambda>_ w. (Inr (), w)) (\<lambda>_ w. (Inr None, w))
       (\<lambda>_ _ w. (Inr (redirect_with_status status loc), w))"

definition catch_filter ::
    "boot_error_kind list \<Rightarrow> ('w, 'm, 'v) exception_filter \<Rightarrow> ('w, 'm, 'v) exception_filter" where
  "catch_filter kinds f ctx e w =
     (if kinds = [] \<or> List.member kinds (kind e) then f ctx e w else (Inr None, w))"

section \<open>Routes\<close>

record ('w, 'm, 'v) route_definition =
  rd_method :: http_method
  rd_path :: str
  rd_host :: "str option"
  rd_handler :: "('w, 'm) route_handler"
  rd_middleware :: "('w, 'm) middleware list"
  rd_pipes :: "('w, 'm, ('w, 'm) pipe) pipeline_component list"
  rd_guards :: "('w, 'm, ('w, 'm, 'v) guard) pipeline_component list"
  rd_interceptors :: "('w, 'm, ('w, 'm, 'v) interceptor) pipeline_component list"
  rd_filters :: "('w, 'm, ('w, 'm, 'v) exception_filter) pipeline_component list"
  rd_validators :: "'m request_validator list"
  rd_validation_enabled :: bool
  rd_validation_disabled :: bool
  rd_validation_options :: validation_options
  rd_module_name :: "str option"
  rd_controller_prefix :: "str option"
  rd_module_ref :: "'m option"
  rd_versioning :: route_versioning
  rd_serialization :: serialization_options
  rd_metadata :: "(str, 'v) btree"

definition route_new ::
    "http_method \<Rightarrow> str \<Rightarrow> ('w, 'm) route_handler \<Rightarrow> ('w, 'm, 'v) route_definition result" where
  "route_new m path handler =
     rbind (validate_route_path path) (\<lambda>_. Inr
       \<lparr>rd_method = m, rd_path = path, rd_host = None, rd_handler = handler, rd_middleware = [],
        rd_pipes = [], rd_guards = [], rd_interceptors = [], rd_filters = [], rd_validators = [],
        rd_validation_enabled = False, rd_validation_disabled = False,
        rd_validation_options = validation_options_default, rd_module_name = None,
        rd_controller_prefix = None, rd_module_ref = None, rd_versioning = Unspecified,
        rd_serialization = serialization_default, rd_metadata = []\<rparr>)"

definition host_shape :: "('w, 'm, 'v) route_definition \<Rightarrow> str option" where
  "host_shape rd = map_option host_shape_key (rd_host rd)"

definition matches_path :: "('w, 'm, 'v) route_definition \<Rightarrow> str \<Rightarrow> bool" where
  "matches_path rd path = match_path_shape (rd_path rd) path"

definition matches_host :: "('w, 'm, 'v) route_definition \<Rightarrow> str option \<Rightarrow> bool" where
  "matches_host rd host =
     (case rd_host rd of
        Some pattern \<Rightarrow> (case host of None \<Rightarrow> False | Some h \<Rightarrow> match_host_shape pattern h)
      | None \<Rightarrow> True)"

definition path_params ::
    "(str \<Rightarrow> str + str) \<Rightarrow> ('w, 'm, 'v) route_definition \<Rightarrow> str \<Rightarrow> (str, str) btree option result" where
  "path_params dec rd path = match_path_params dec (rd_path rd) path"

definition host_params ::
    "('w, 'm, 'v) route_definition \<Rightarrow> str option \<Rightarrow> (str, str) btree option result" where
  "host_params rd host =
     (case (rd_host rd, host) of
        (Some pattern, Some h) \<Rightarrow> match_host_params pattern h
      | (Some _, None) \<Rightarrow> Inr None
      | (None, _) \<Rightarrow> Inr (Some []))"

definition with_host ::
    "str \<Rightarrow> ('w, 'm, 'v) route_definition \<Rightarrow> ('w, 'm, 'v) route_definition result" where
  "with_host pattern rd = rbind (validate_host_pattern pattern) (\<lambda>_. Inr (rd\<lparr>rd_host := Some pattern\<rparr>))"

definition with_host_default ::
    "str option \<Rightarrow> ('w, 'm, 'v) route_definition \<Rightarrow> ('w, 'm, 'v) route_definition result" where
  "with_host_default host rd =
     (if rd_host rd = None then (case host of Some h \<Rightarrow> with_host h rd | None \<Rightarrow> Inr rd) else Inr rd)"

definition with_metadata_defaults ::
    "(str, 'v) btree \<Rightarrow> ('w, 'm, 'v) route_definition \<Rightarrow> ('w, 'm, 'v) route_definition" where
  "with_metadata_defaults metadata rd =
     rd\<lparr>rd_metadata := fold (\<lambda>(k, v) m. if bt_get m k = None then bt_insert k v m else m)
          metadata (rd_metadata rd)\<rparr>"

definition with_prefix ::
    "str \<Rightarrow> ('w, 'm, 'v) route_definition \<Rightarrow> ('w, 'm, 'v) route_definition result" where
  "with_prefix pre rd =
     rmap (\<lambda>p. rd\<lparr>rd_path := p, rd_controller_prefix := Some (trim_end_char (CHR ''/'') pre)\<rparr>)
       (join_paths pre (rd_path rd))"

definition with_path_prefix ::
    "str \<Rightarrow> ('w, 'm, 'v) route_definition \<Rightarrow> ('w, 'm, 'v) route_definition result" where
  "with_path_prefix pre rd = rmap (\<lambda>p. rd\<lparr>rd_path := p\<rparr>) (join_paths pre (rd_path rd))"

definition with_default_module_ref ::
    "'m \<Rightarrow> ('w, 'm, 'v) route_definition \<Rightarrow> ('w, 'm, 'v) route_definition" where
  "with_default_module_ref m rd = (if rd_module_ref rd = None then rd\<lparr>rd_module_ref := Some m\<rparr> else rd)"

record ('w, 'm, 'v) pipeline_components =
  pl_middleware :: "('w, 'm) middleware list"
  pl_pipes :: "('w, 'm, ('w, 'm) pipe) pipeline_component list"
  pl_guards :: "('w, 'm, ('w, 'm, 'v) guard) pipeline_component list"
  pl_interceptors :: "('w, 'm, ('w, 'm, 'v) interceptor) pipeline_component list"
  pl_filters :: "('w, 'm, ('w, 'm, 'v) exception_filter) pipeline_component list"
  pl_validation_enabled :: bool
  pl_validation_options :: validation_options

definition pipeline_append ::
    "('w, 'm, 'v) pipeline_components \<Rightarrow> ('w, 'm, 'v) pipeline_components \<Rightarrow> ('w, 'm, 'v) pipeline_components" where
  "pipeline_append self components =
     \<lparr>pl_middleware = pl_middleware self @ pl_middleware components,
      pl_pipes = pl_pipes self @ pl_pipes components,
      pl_guards = pl_guards self @ pl_guards components,
      pl_interceptors = pl_interceptors self @ pl_interceptors components,
      pl_filters = pl_filters self @ pl_filters components,
      pl_validation_enabled = (pl_validation_enabled self \<or> pl_validation_enabled components),
      pl_validation_options = validation_options_merge (pl_validation_options self) (pl_validation_options components)\<rparr>"

definition with_pipeline_prefix ::
    "('w, 'm, 'v) pipeline_components \<Rightarrow> ('w, 'm, 'v) route_definition \<Rightarrow> ('w, 'm, 'v) route_definition" where
  "with_pipeline_prefix p rd =
     (let rd1 = rd\<lparr>rd_middleware := pl_middleware p @ rd_middleware rd,
                   rd_pipes := pl_pipes p @ rd_pipes rd, rd_guards := pl_guards p @ rd_guards rd,
                   rd_interceptors := pl_interceptors p @ rd_interceptors rd,
                   rd_filters := pl_filters p @ rd_filters rd\<rparr>
      in if \<not> rd_validation_disabled rd1 then
           rd1\<lparr>rd_validation_enabled := (pl_validation_enabled p \<or> rd_validation_enabled rd1),
               rd_validation_options :=
                 validation_options_merge (pl_validation_options p) (rd_validation_options rd1)\<rparr>
         else rd1)"

definition insert_at :: "nat \<Rightarrow> 'a \<Rightarrow> 'a list \<Rightarrow> 'a list" where
  "insert_at index x xs = (let i = min index (length xs) in take i xs @ x # drop i xs)"

definition insert_guard_prefix_at ::
    "nat \<Rightarrow> ('w, 'm, ('w, 'm, 'v) guard) pipeline_component \<Rightarrow> ('w, 'm, 'v) route_definition
       \<Rightarrow> ('w, 'm, 'v) route_definition" where
  "insert_guard_prefix_at index g rd = rd\<lparr>rd_guards := insert_at index g (rd_guards rd)\<rparr>"

definition with_validation :: "('w, 'm, 'v) route_definition \<Rightarrow> ('w, 'm, 'v) route_definition" where
  "with_validation rd = rd\<lparr>rd_validation_enabled := True, rd_validation_disabled := False\<rparr>"

definition with_validation_options ::
    "validation_options \<Rightarrow> ('w, 'm, 'v) route_definition \<Rightarrow> ('w, 'm, 'v) route_definition" where
  "with_validation_options opts rd =
     rd\<lparr>rd_validation_enabled := True, rd_validation_disabled := False,
        rd_validation_options := validation_options_merge (rd_validation_options rd) opts\<rparr>"

definition without_validation :: "('w, 'm, 'v) route_definition \<Rightarrow> ('w, 'm, 'v) route_definition" where
  "without_validation rd = rd\<lparr>rd_validation_enabled := False, rd_validation_disabled := True\<rparr>"

text \<open>\<open>PipelineOverrides\<close>: components are replaced by type id, keeping their position.\<close>

definition apply_overrides ::
    "(nat \<rightharpoonup> ('w, 'm, 'b) pipeline_component) \<Rightarrow> ('w, 'm, 'b) pipeline_component list
       \<Rightarrow> ('w, 'm, 'b) pipeline_component list" where
  "apply_overrides overrides cs =
     map (\<lambda>c. case overrides (pc_type_id c) of None \<Rightarrow> c | Some r \<Rightarrow> r) cs"

section \<open>Execution\<close>

definition route_execution_context ::
    "('w, 'm, 'v) route_definition \<Rightarrow> 'm boot_request \<Rightarrow> ('m, 'v) execution_context" where
  "route_execution_context rd request =
     execution_context_new request (rd_path rd) (rd_module_name rd) (rd_controller_prefix rd)
       (rd_serialization rd) (rd_metadata rd)"

definition attach_request_context ::
    "('m \<Rightarrow> nat \<Rightarrow> 'm) \<Rightarrow> ('w, 'm, 'v) route_definition \<Rightarrow> 'm boot_request \<Rightarrow> nat \<Rightarrow> 'm boot_request" where
  "attach_request_context scope rd request cid =
     (case rd_module_ref rd of
        Some m \<Rightarrow> with_module_ref (scope m cid) request
      | None \<Rightarrow> request)"

text \<open>The loop of \<open>handle_error\<close> over the filters, which the code runs last to first.\<close>

fun filters_loop ::
    "('w, 'm, ('w, 'm, 'v) exception_filter) pipeline_component list \<Rightarrow> nat
       \<Rightarrow> ('m, 'v) execution_context \<Rightarrow> boot_error \<Rightarrow> ('w, boot_response) step" where
  "filters_loop [] cid ctx e w = (Inl e, w)"
| "filters_loop (c # cs) cid ctx e w =
     (case component_resolve c cid w of
        (Inl err, w1) \<Rightarrow> (Inl err, w1)
      | (Inr f, w1) \<Rightarrow>
          (case f ctx (clone_for_filter e) w1 of
             (Inl err, w2) \<Rightarrow> (Inl err, w2)
           | (Inr (Some response), w2) \<Rightarrow> (Inr response, w2)
           | (Inr None, w2) \<Rightarrow> filters_loop cs cid ctx e w2))"

definition handle_error ::
    "('w, 'm, 'v) route_definition \<Rightarrow> ('m, 'v) execution_context \<Rightarrow> boot_error \<Rightarrow> nat \<Rightarrow> ('w, boot_response) step" where
  "handle_error rd ctx e cid w = filters_loop (rev (rd_filters rd)) cid ctx e w"

text \<open>
  The handler part: pipes, validators, handler. \<open>err\<close> is the shared error context
  (\<open>PipelineErrorContext\<close>): the context the filters see if the chain fails.
\<close>

type_synonym ('w, 'm, 'v, 'a) pstep =
  "('m, 'v) execution_context \<times> 'w \<Rightarrow> 'a result \<times> ('m, 'v) execution_context \<times> 'w"

fun pipes_loop ::
    "('m \<Rightarrow> nat \<Rightarrow> 'm) \<Rightarrow> ('w, 'm, 'v) route_definition \<Rightarrow> nat
       \<Rightarrow> ('w, 'm, ('w, 'm) pipe) pipeline_component list \<Rightarrow> 'm boot_request
       \<Rightarrow> ('w, 'm, 'v, 'm boot_request) pstep" where
  "pipes_loop scope rd cid [] request (err, w) = (Inr request, err, w)"
| "pipes_loop scope rd cid (c # cs) request (err, w) =
     (case component_resolve c cid w of
        (Inl e, w1) \<Rightarrow> (Inl e, err, w1)
      | (Inr p, w1) \<Rightarrow>
          (case p request w1 of
             (Inl e, w2) \<Rightarrow> (Inl e, route_execution_context rd request, w2)
           | (Inr r, w2) \<Rightarrow>
               pipes_loop scope rd cid cs (attach_request_context scope rd r cid) (err, w2)))"

fun validators_loop ::
    "('w, 'm, 'v) route_definition \<Rightarrow> 'm request_validator list \<Rightarrow> 'm boot_request
       \<Rightarrow> ('w, 'm, 'v, 'm boot_request) pstep" where
  "validators_loop rd [] request (err, w) = (Inr request, err, w)"
| "validators_loop rd (v # vs) request (err, w) =
     (case v request (rd_validation_options rd) of
        Inl e \<Rightarrow> (Inl e, route_execution_context rd request, w)
      | Inr r \<Rightarrow> validators_loop rd vs r (err, w))"

definition call_handler_pipeline ::
    "('m \<Rightarrow> nat \<Rightarrow> 'm) \<Rightarrow> ('w, 'm, 'v) route_definition \<Rightarrow> nat \<Rightarrow> 'm boot_request
       \<Rightarrow> ('w, 'm, 'v, boot_response) pstep" where
  "call_handler_pipeline scope rd cid request s =
     (case pipes_loop scope rd cid (rd_pipes rd) request s of
        (Inl e, s1) \<Rightarrow> (Inl e, s1)
      | (Inr r1, s1) \<Rightarrow>
          (case (if rd_validation_enabled rd then validators_loop rd (rd_validators rd) r1 s1
                 else (Inr r1, s1)) of
             (Inl e, s2) \<Rightarrow> (Inl e, s2)
           | (Inr r2, err, w) \<Rightarrow>
               (case rd_handler rd r2 w of (res, w') \<Rightarrow> (res, err, w'))))"

text \<open>Running an interceptor script, its calls being the rest of the chain.\<close>

primrec run_script ::
    "'w interceptor_script \<Rightarrow> ('w, 'm, 'v, boot_response) pstep \<Rightarrow> ('w, 'm, 'v, boot_response) pstep" where
  "run_script (Finish r) nxt s = (r, s)"
| "run_script (Act f) nxt s =
     (let (k, w') = map_prod run_script id (f (snd s)) in k nxt (fst s, w'))"
| "run_script (HandleNext k) nxt s = (let (r, s') = nxt s in run_script (k r) nxt s')"

definition terminal_call ::
    "('m \<Rightarrow> nat \<Rightarrow> 'm) \<Rightarrow> ('w, 'm, 'v) route_definition \<Rightarrow> nat \<Rightarrow> ('m, 'v) execution_context
       \<Rightarrow> 'm boot_request \<Rightarrow> ('w, 'm, 'v, boot_response) pstep" where
  "terminal_call scope rd cid ctx request s = call_handler_pipeline scope rd cid request (ctx, snd s)"

definition wrap_interceptor ::
    "('m, 'v) execution_context \<Rightarrow> ('w, 'm, 'v) interceptor \<Rightarrow> ('w, 'm, 'v, boot_response) pstep
       \<Rightarrow> ('w, 'm, 'v, boot_response) pstep" where
  "wrap_interceptor ctx interceptor nxt s =
     (let (res, err, w) = run_script (interceptor ctx) nxt (ctx, snd s)
      in (res, if is_ok res then ctx else err, w))"

definition interceptor_chain ::
    "('m, 'v) execution_context \<Rightarrow> ('w, 'm, 'v) interceptor list \<Rightarrow> ('w, 'm, 'v, boot_response) pstep
       \<Rightarrow> ('w, 'm, 'v, boot_response) pstep" where
  "interceptor_chain ctx interceptors terminal =
     fold (wrap_interceptor ctx) (rev interceptors) terminal"

fun resolve_all ::
    "('w, 'm, 'b) pipeline_component list \<Rightarrow> nat \<Rightarrow> ('w, 'b list) step" where
  "resolve_all [] cid w = (Inr [], w)"
| "resolve_all (c # cs) cid w =
     (case component_resolve c cid w of
        (Inl e, w1) \<Rightarrow> (Inl e, w1)
      | (Inr b, w1) \<Rightarrow>
          (case resolve_all cs cid w1 of
             (Inl e, w2) \<Rightarrow> (Inl e, w2)
           | (Inr bs, w2) \<Rightarrow> (Inr (b # bs), w2)))"

text \<open>
  The middleware loop ends with the request to continue with, with a response, or with an
  error and the request the failing middleware was given.
\<close>

datatype 'm middleware_end =
  ME_Continue "'m boot_request" | ME_Respond boot_response | ME_Error "'m boot_request" boot_error

fun middleware_loop ::
    "('m \<Rightarrow> nat \<Rightarrow> 'm) \<Rightarrow> ('w, 'm, 'v) route_definition \<Rightarrow> nat \<Rightarrow> ('w, 'm) middleware list
       \<Rightarrow> 'm boot_request \<Rightarrow> 'w \<Rightarrow> 'm middleware_end \<times> 'w" where
  "middleware_loop scope rd cid [] request w = (ME_Continue request, w)"
| "middleware_loop scope rd cid (mw # mws) request w =
     (case mw request w of
        (Inl e, w1) \<Rightarrow> (ME_Error request e, w1)
      | (Inr (Respond response), w1) \<Rightarrow> (ME_Respond response, w1)
      | (Inr (Continue r), w1) \<Rightarrow>
          middleware_loop scope rd cid mws (attach_request_context scope rd r cid) w1)"

fun guards_loop ::
    "('w, 'm, ('w, 'm, 'v) guard) pipeline_component list \<Rightarrow> nat \<Rightarrow> ('m, 'v) execution_context
       \<Rightarrow> ('w, unit) step" where
  "guards_loop [] cid ctx w = (Inr (), w)"
| "guards_loop (c # cs) cid ctx w =
     (case component_resolve c cid w of
        (Inl e, w1) \<Rightarrow> (Inl e, w1)
      | (Inr g, w1) \<Rightarrow>
          (case g ctx w1 of
             (Inl e, w2) \<Rightarrow> (Inl e, w2)
           | (Inr can_activate, w2) \<Rightarrow>
               if \<not> can_activate
               then (Inl (Forbidden (method_as_str (ec_method ctx) @ '' '' @ ec_request_path ctx)), w2)
               else guards_loop cs cid ctx w2))"

definition call_pipeline ::
    "('m \<Rightarrow> nat \<Rightarrow> 'm) \<Rightarrow> ('w, 'm, 'v) route_definition \<Rightarrow> nat \<Rightarrow> 'm boot_request \<Rightarrow> ('w, boot_response) step" where
  "call_pipeline scope rd cid request w =
     (case middleware_loop scope rd cid (rd_middleware rd) request w of
        (ME_Respond response, w1) \<Rightarrow> (Inr response, w1)
      | (ME_Error r e, w1) \<Rightarrow> handle_error rd (route_execution_context rd r) e cid w1
      | (ME_Continue request, w1) \<Rightarrow>
          (let ctx = route_execution_context rd request in
           case guards_loop (rd_guards rd) cid ctx w1 of
             (Inl e, w2) \<Rightarrow> handle_error rd ctx e cid w2
           | (Inr _, w2) \<Rightarrow>
               (case resolve_all (rd_interceptors rd) cid w2 of
                  (Inl e, w3) \<Rightarrow> handle_error rd ctx e cid w3
                | (Inr interceptors, w3) \<Rightarrow>
                    (case interceptor_chain ctx interceptors (terminal_call scope rd cid ctx request) (ctx, w3) of
                       (Inr response, err, w4) \<Rightarrow> (Inr response, w4)
                     | (Inl e, err, w4) \<Rightarrow> handle_error rd err e cid w4))))"

definition request_line :: "'m boot_request \<Rightarrow> str" where
  "request_line r = method_as_str (rq_method r) @ '' '' @ rq_path r"

definition route_call ::
    "(str \<Rightarrow> str + str) \<Rightarrow> ('m \<Rightarrow> nat \<Rightarrow> 'm) \<Rightarrow> ('w, 'm, 'v) route_definition \<Rightarrow> nat
       \<Rightarrow> 'm boot_request \<Rightarrow> ('w, boot_response) step" where
  "route_call dec scope rd cid request0 w =
     (let request = attach_request_context scope rd request0 cid;
          fail = (\<lambda>r e. handle_error rd (route_execution_context rd r) e cid w)
      in if \<not> method_matches (rd_method rd) (rq_method request)
         then fail request (MethodNotAllowed (request_line request))
         else (case path_params dec rd (rq_path request) of
             Inl e \<Rightarrow> fail request e
           | Inr None \<Rightarrow> fail request (NotFound (request_line request))
           | Inr (Some params) \<Rightarrow>
               (let request = with_path_params params request in
                case host_params rd (request_host request) of
                  Inl e \<Rightarrow> fail request e
                | Inr None \<Rightarrow> fail request (NotFound (request_line request))
                | Inr (Some hps) \<Rightarrow> call_pipeline scope rd cid (with_host_params hps request) w)))"

definition route_handle ::
    "(nat \<Rightarrow> str \<Rightarrow> str \<Rightarrow> str option) \<Rightarrow> str \<Rightarrow> (str \<Rightarrow> str + str) \<Rightarrow> ('m \<Rightarrow> nat \<Rightarrow> 'm)
       \<Rightarrow> ('w, 'm, 'v) route_definition \<Rightarrow> nat \<Rightarrow> 'm boot_request \<Rightarrow> 'w \<Rightarrow> boot_response \<times> 'w" where
  "route_handle enc fb dec scope rd cid request w =
     (case route_call dec scope rd cid request w of
        (Inr response, w1) \<Rightarrow> (response, w1)
      | (Inl e, w1) \<Rightarrow> (from_error enc fb e, w1))"

section \<open>The guards gate the handler\<close>

text \<open>\<open>admitted\<close>: no middleware answers or fails, and every guard lets the request pass.\<close>

definition admitted ::
    "('m \<Rightarrow> nat \<Rightarrow> 'm) \<Rightarrow> ('w, 'm, 'v) route_definition \<Rightarrow> nat \<Rightarrow> 'm boot_request \<Rightarrow> 'w \<Rightarrow> bool" where
  "admitted scope rd cid request w =
     (case middleware_loop scope rd cid (rd_middleware rd) request w of
        (ME_Continue r, w1) \<Rightarrow> is_ok (fst (guards_loop (rd_guards rd) cid (route_execution_context rd r) w1))
      | _ \<Rightarrow> False)"

text \<open>A route with another inner part: handler, pipes, validators and interceptors.\<close>

definition with_inner ::
    "('w, 'm) route_handler \<Rightarrow> ('w, 'm, ('w, 'm) pipe) pipeline_component list \<Rightarrow> 'm request_validator list
       \<Rightarrow> ('w, 'm, ('w, 'm, 'v) interceptor) pipeline_component list
       \<Rightarrow> ('w, 'm, 'v) route_definition \<Rightarrow> ('w, 'm, 'v) route_definition" where
  "with_inner h ps vs is rd = rd\<lparr>rd_handler := h, rd_pipes := ps, rd_validators := vs, rd_interceptors := is\<rparr>"

lemma with_inner_fields [simp]:
  "rd_middleware (with_inner h ps vs is rd) = rd_middleware rd"
  "rd_guards (with_inner h ps vs is rd) = rd_guards rd"
  "rd_filters (with_inner h ps vs is rd) = rd_filters rd"
  "rd_method (with_inner h ps vs is rd) = rd_method rd"
  "rd_path (with_inner h ps vs is rd) = rd_path rd"
  "rd_host (with_inner h ps vs is rd) = rd_host rd"
  "rd_module_ref (with_inner h ps vs is rd) = rd_module_ref rd"
  by (simp_all add: with_inner_def)

lemma route_execution_context_inner [simp]:
  "route_execution_context (with_inner h ps vs is rd) r = route_execution_context rd r"
  by (simp add: route_execution_context_def with_inner_def)

lemma attach_inner [simp]:
  "attach_request_context scope (with_inner h ps vs is rd) r cid = attach_request_context scope rd r cid"
  by (simp add: attach_request_context_def)

lemma handle_error_inner [simp]:
  "handle_error (with_inner h ps vs is rd) ctx e cid w = handle_error rd ctx e cid w"
  by (simp add: handle_error_def)

lemma middleware_loop_inner [simp]:
  "middleware_loop scope (with_inner h ps vs is rd) cid mws r w = middleware_loop scope rd cid mws r w"
  by (induction mws arbitrary: r w)
    (auto split: prod.splits sum.splits middleware_outcome.splits)

lemma call_pipeline_inner:
  "\<not> admitted scope rd cid request w \<Longrightarrow>
     call_pipeline scope (with_inner h ps vs is rd) cid request w = call_pipeline scope rd cid request w"
  by (auto simp: call_pipeline_def admitted_def is_ok_iff Let_def
      split: prod.splits middleware_end.splits sum.splits)

text \<open>
  C2. Nothing behind the guards runs for a request that is not admitted. If a middleware
  answers or fails, or a guard cannot be resolved, fails or refuses, the result and the
  final state of the world are the same whatever the interceptors, pipes, validators and
  the handler of the route are; a refusal is a 403 error given to the filters.
\<close>

theorem guards_gate_handler:
  assumes "\<not> admitted scope rd cid request w"
  shows "call_pipeline scope (with_inner h ps vs is rd) cid request w = call_pipeline scope rd cid request w
     \<and> (\<forall>g gs r w1 w2. middleware_loop scope rd cid (rd_middleware rd) request w = (ME_Continue r, w1)
          \<and> rd_guards rd = g # gs \<and> pc_source g = Static (\<lambda>_ _. (Inr False, w2)) \<longrightarrow>
          call_pipeline scope rd cid request w
            = handle_error rd (route_execution_context rd r) (Forbidden (request_line r)) cid w2)"
proof (intro conjI allI impI)
  show "call_pipeline scope (with_inner h ps vs is rd) cid request w = call_pipeline scope rd cid request w"
    using assms by (rule call_pipeline_inner)
next
  fix g gs r w1 w2
  assume "middleware_loop scope rd cid (rd_middleware rd) request w = (ME_Continue r, w1)
      \<and> rd_guards rd = g # gs \<and> pc_source g = Static (\<lambda>_ _. (Inr False, w2))"
  then show "call_pipeline scope rd cid request w
      = handle_error rd (route_execution_context rd r) (Forbidden (request_line r)) cid w2"
    by (simp add: call_pipeline_def component_resolve_def Let_def request_line_def
        route_execution_context_def execution_context_new_def)
qed

definition sample_route :: "bool \<Rightarrow> (str, unit, unit) route_definition" where
  "sample_route allow =
     \<lparr>rd_method = M_Get, rd_path = ''/a'', rd_host = None,
      rd_handler = (\<lambda>_ w. (Inr (response_empty 200), w @ ''h'')), rd_middleware = [],
      rd_pipes = [], rd_guards = [\<lparr>pc_type_id = 0, pc_source = Static (\<lambda>_ w. (Inr allow, ''g''))\<rparr>],
      rd_interceptors = [],
      rd_filters = [\<lparr>pc_type_id = 1, pc_source = Static (\<lambda>_ _ w. (Inr None, w @ ''f''))\<rparr>],
      rd_validators = [], rd_validation_enabled = False, rd_validation_disabled = False,
      rd_validation_options = validation_options_default, rd_module_name = None,
      rd_controller_prefix = None, rd_module_ref = None, rd_versioning = Unspecified,
      rd_serialization = serialization_default, rd_metadata = []\<rparr>"

theorem guards_gate_handler_witness:
  "call_pipeline (\<lambda>m _. m) (sample_route False) 0 (request_new Inr M_Get ''/a'') []
     = (Inl (Forbidden ''GET /a''), ''gf'')"
proof -
  let ?r = "request_new Inr M_Get ''/a'' :: unit boot_request"
  have na: "\<not> admitted (\<lambda>m _. m) (sample_route False) 0 ?r []"
    by (simp add: admitted_def sample_route_def component_resolve_def)
  have "call_pipeline (\<lambda>m _. m) (sample_route False) 0 ?r []
      = handle_error (sample_route False) (route_execution_context (sample_route False) ?r)
          (Forbidden (request_line ?r)) 0 ''g''"
    using guards_gate_handler [OF na] by (simp add: sample_route_def)
  also have "\<dots> = (Inl (Forbidden (request_line ?r)), ''gf'')"
    by (simp add: handle_error_def sample_route_def component_resolve_def)
  also have "request_line ?r = ''GET /a''" by code_simp
  finally show ?thesis .
qed

section \<open>Filters\<close>

definition declines ::
    "('w, 'm, ('w, 'm, 'v) exception_filter) pipeline_component \<Rightarrow> nat \<Rightarrow> ('m, 'v) execution_context
       \<Rightarrow> boot_error \<Rightarrow> 'w \<Rightarrow> 'w \<Rightarrow> bool" where
  "declines c cid ctx e w w' =
     (case component_resolve c cid w of
        (Inl _, _) \<Rightarrow> False
      | (Inr f, w1) \<Rightarrow> f ctx (clone_for_filter e) w1 = (Inr None, w'))"

fun declines_all ::
    "('w, 'm, ('w, 'm, 'v) exception_filter) pipeline_component list \<Rightarrow> nat \<Rightarrow> ('m, 'v) execution_context
       \<Rightarrow> boot_error \<Rightarrow> 'w \<Rightarrow> 'w \<Rightarrow> bool" where
  "declines_all [] cid ctx e w w' = (w' = w)"
| "declines_all (c # cs) cid ctx e w w' =
     (\<exists>w1. declines c cid ctx e w w1 \<and> declines_all cs cid ctx e w1 w')"

lemma declines_iff:
  "declines c cid ctx e w w' \<longleftrightarrow>
     (\<exists>f w1. component_resolve c cid w = (Inr f, w1) \<and> f ctx (clone_for_filter e) w1 = (Inr None, w'))"
  by (cases "component_resolve c cid w") (auto simp: declines_def split: sum.splits)

lemma filters_loop_declined:
  "declines_all cs cid ctx e w w' \<Longrightarrow> filters_loop (cs @ ds) cid ctx e w = filters_loop ds cid ctx e w'"
  by (induction cs arbitrary: w) (auto simp: declines_iff)

lemma filters_loop_answered:
  "\<not> (\<exists>w'. declines_all cs cid ctx e w w') \<Longrightarrow>
     filters_loop (cs @ ds) cid ctx e w = filters_loop cs cid ctx e w"
proof (induction cs arbitrary: w)
  case (Cons c cs)
  show ?case
  proof (cases "\<exists>w1. declines c cid ctx e w w1")
    case True
    then obtain w1 where w1: "declines c cid ctx e w w1" by blast
    with Cons.prems have "\<not> (\<exists>w'. declines_all cs cid ctx e w1 w')" by auto
    from Cons.IH [OF this] w1 show ?thesis
      by (auto simp: declines_iff)
  next
    case False
    then show ?thesis
      by (auto simp: declines_iff split: prod.splits sum.splits option.splits)
  qed
qed simp

text \<open>
  C14. Filters nest: the filters of a route are asked before the global ones that a pipeline
  prefix adds, each group last to first. The global filters see the error exactly when
  every filter of the route declines it, and they start in the state the route's filters
  leave; otherwise the outcome is that of the route alone. With no filter left the error
  itself is returned.
\<close>

theorem filter_nesting:
  "(\<forall>w'. declines_all (rev (rd_filters rd)) cid ctx e w w' \<longrightarrow>
      handle_error (with_pipeline_prefix p rd) ctx e cid w
        = filters_loop (rev (pl_filters p)) cid ctx e w'
      \<and> handle_error rd ctx e cid w = (Inl e, w'))
   \<and> ((\<forall>w'. \<not> declines_all (rev (rd_filters rd)) cid ctx e w w') \<longrightarrow>
      handle_error (with_pipeline_prefix p rd) ctx e cid w = handle_error rd ctx e cid w)"
proof -
  have f: "rd_filters (with_pipeline_prefix p rd) = pl_filters p @ rd_filters rd"
    by (simp add: with_pipeline_prefix_def Let_def)
  show ?thesis
    using filters_loop_declined [of "rev (rd_filters rd)" cid ctx e w]
      filters_loop_declined [of "rev (rd_filters rd)" cid ctx e w _ "[]"]
      filters_loop_answered [of "rev (rd_filters rd)" cid ctx e w "rev (pl_filters p)"]
    by (auto simp: handle_error_def f)
qed

theorem filter_nesting_witness:
  "handle_error (sample_route True) (route_execution_context (sample_route True) (request_new Inr M_Get ''/a''))
     (NotFound ''x'') 0 ''w'' = (Inl (NotFound ''x''), ''wf'')"
proof -
  have "declines_all (rev (rd_filters (sample_route True))) 0
      (route_execution_context (sample_route True) (request_new Inr M_Get ''/a'')) (NotFound ''x'') ''w'' ''wf''"
    by (simp add: sample_route_def declines_iff component_resolve_def)
  then show ?thesis
    using filter_nesting [of "sample_route True" 0
        "route_execution_context (sample_route True) (request_new Inr M_Get ''/a'')" "NotFound ''x''" "''w''"]
    by blast
qed

section \<open>Interceptors nest around the handler\<close>

lemma run_script_bind [simp]:
  "run_script (script_bind f k) nxt (err, w) =
     (case f w of (Inl e, w') \<Rightarrow> (Inl e, err, w') | (Inr a, w') \<Rightarrow> run_script (k a) nxt (err, w'))"
  by (auto simp: script_bind_def split: prod.splits sum.splits)

lemma chain_Nil [simp]: "interceptor_chain ctx [] t = t"
  by (simp add: interceptor_chain_def)

lemma chain_Cons: "interceptor_chain ctx (i # is) t = wrap_interceptor ctx i (interceptor_chain ctx is t)"
  by (simp add: interceptor_chain_def)

text \<open>An observer: hooks around the call that neither fail nor answer.\<close>

definition observer ::
    "('w \<Rightarrow> 'w) \<times> (boot_response \<Rightarrow> 'w \<Rightarrow> boot_response \<times> 'w) \<Rightarrow> ('w, 'm, 'v) interceptor" where
  "observer h = default_intercept (\<lambda>_ w. (Inr (), fst h w)) (\<lambda>_ w. (Inr None, w))
     (\<lambda>_ r w. (case snd h r w of (r', w') \<Rightarrow> (Inr r', w')))"

lemma wrap_observer:
  "wrap_interceptor ctx (observer h) nxt (err, w) =
     (case nxt (ctx, fst h w) of
        (Inl e, err', w1) \<Rightarrow> (Inl e, err', w1)
      | (Inr r, err', w1) \<Rightarrow> (case snd h r w1 of (r', w2) \<Rightarrow> (Inr r', ctx, w2)))"
  by (auto simp: wrap_interceptor_def observer_def default_intercept_def Let_def
      split: prod.splits sum.splits)

definition run_afters ::
    "(boot_response \<Rightarrow> 'w \<Rightarrow> boot_response \<times> 'w) list \<Rightarrow> boot_response \<times> 'w \<Rightarrow> boot_response \<times> 'w" where
  "run_afters as rw = fold (\<lambda>a (r, w). a r w) as rw"

text \<open>
  C15. Interceptors form an onion. With observing interceptors the \<open>before\<close> hooks run in
  registration order, then the handler part once, then the \<open>after\<close> hooks in reverse order,
  each on the response of the inner one; when the handler part fails no \<open>after\<close> hook runs
  and the error context is the one the handler part left.
\<close>

theorem interceptors_onion:
  assumes "\<And>s. t s = t (ctx, snd s)"
  shows "interceptor_chain ctx (map observer hs) t (ctx, w) =
     (case t (ctx, fold fst hs w) of
        (Inl e, err, w1) \<Rightarrow> (Inl e, err, w1)
      | (Inr r, err, w1) \<Rightarrow>
          (case run_afters (rev (map snd hs)) (r, w1) of
             (r', w2) \<Rightarrow> (Inr r', if hs = [] then err else ctx, w2)))"
proof (induction hs arbitrary: w)
  case Nil
  then show ?case by (auto simp: run_afters_def split: prod.splits sum.splits)
next
  case (Cons h hs)
  show ?case
    unfolding list.map chain_Cons wrap_observer Cons.IH
    by (auto simp: run_afters_def split: prod.splits sum.splits)
qed

definition sample_request :: "unit boot_request" where
  "sample_request = request_new Inr M_Get ''/a''"

definition sample_context :: "(unit, unit) execution_context" where
  "sample_context = execution_context_new sample_request ''/a'' None None serialization_default []"

theorem interceptors_onion_witness:
  "interceptor_chain sample_context
     (map observer [((\<lambda>w. w @ ''1''), (\<lambda>r w. (r, w @ ''4''))), ((\<lambda>w. w @ ''2''), (\<lambda>r w. (r, w @ ''3'')))])
     (\<lambda>s. (Inr (response_empty 200), sample_context, snd s @ ''h'')) (sample_context, [])
   = (Inr (response_empty 200), sample_context, ''12h34'')"
  by (subst interceptors_onion) (simp_all add: run_afters_def)

text \<open>The chain of a route satisfies the hypothesis: the handler part resets the error context.\<close>

lemma terminal_call_resets: "terminal_call scope rd cid ctx request s = terminal_call scope rd cid ctx request (ctx, snd s)"
  by (simp add: terminal_call_def)

end
