(* ===== verification/Route_Selection.thy ===== *)
theory Route_Selection
  imports Pipeline
begin

text \<open>
  \<open>src/app/application.rs\<close>, the route checks of \<open>src/app/builder.rs\<close> and the middleware
  consumer of \<open>src/pipeline/middleware.rs\<close>: how a request finds its route. The candidates of
  a request (its path under the versioning strategy) are matched against all routes; the
  best specificity among the matches selects the shape, and the method selects the route.
\<close>

section \<open>Matching a route\<close>

definition path_specificity :: "('w, 'm, 'v) route_definition \<Rightarrow> nat list" where
  "path_specificity rd = route_specificity (rd_path rd)"

definition request_specificity :: "('w, 'm, 'v) route_definition \<Rightarrow> nat list" where
  "request_specificity rd = path_specificity rd @ [2] @ host_specificity (rd_host rd)"

definition route_matches_path_and_version ::
    "('w, 'm, 'v) route_definition \<Rightarrow> api_version_candidate \<Rightarrow> api_versioning option \<Rightarrow> bool" where
  "route_matches_path_and_version rd cand versioning =
     (if \<not> matches_path rd (cand_path cand) then False
      else (case versioning of
              Some v \<Rightarrow> versioning_matches (rd_versioning rd) (cand_version cand) (av_default_version v)
            | None \<Rightarrow> True))"

definition route_matches_path_version_and_host ::
    "('w, 'm, 'v) route_definition \<Rightarrow> api_version_candidate \<Rightarrow> api_versioning option \<Rightarrow> str option \<Rightarrow> bool" where
  "route_matches_path_version_and_host rd cand versioning host =
     (route_matches_path_and_version rd cand versioning \<and> matches_host rd host)"

definition route_matches_candidate ::
    "('w, 'm, 'v) route_definition \<Rightarrow> api_version_candidate \<Rightarrow> nat list \<Rightarrow> api_versioning option \<Rightarrow> bool" where
  "route_matches_candidate rd cand spec versioning =
     (route_matches_path_and_version rd cand versioning \<and> path_specificity rd = spec)"

definition route_matches_request_candidate ::
    "('w, 'm, 'v) route_definition \<Rightarrow> api_version_candidate \<Rightarrow> nat list \<Rightarrow> api_versioning option
       \<Rightarrow> str option \<Rightarrow> bool" where
  "route_matches_request_candidate rd cand spec versioning host =
     (route_matches_path_version_and_host rd cand versioning host \<and> request_specificity rd = spec)"

section \<open>The best specificity\<close>

text \<open>
  The two nested loops that both \<open>best_..._specificity\<close> functions run; \<open>ok\<close> and \<open>spec\<close> are
  the match and the specificity they use. A later match replaces the best only if it is
  strictly greater in the lexicographic order.
\<close>

fun best_routes_loop ::
    "('r \<Rightarrow> bool) \<Rightarrow> ('r \<Rightarrow> nat list) \<Rightarrow> nat \<Rightarrow> 'r list \<Rightarrow> (nat \<times> nat list) option \<Rightarrow> (nat \<times> nat list) option" where
  "best_routes_loop ok spec i [] best = best"
| "best_routes_loop ok spec i (r # rs) best =
     best_routes_loop ok spec i rs
       (if ok r then
          (case best of
             None \<Rightarrow> Some (i, spec r)
           | Some (j, b) \<Rightarrow> if spec r > b then Some (i, spec r) else best)
        else best)"

fun best_loop ::
    "('c \<Rightarrow> 'r \<Rightarrow> bool) \<Rightarrow> ('r \<Rightarrow> nat list) \<Rightarrow> 'r list \<Rightarrow> nat \<Rightarrow> 'c list \<Rightarrow> (nat \<times> nat list) option
       \<Rightarrow> (nat \<times> nat list) option" where
  "best_loop ok spec routes i [] best = best"
| "best_loop ok spec routes i (c # cs) best =
     best_loop ok spec routes (i + 1) cs (best_routes_loop (ok c) spec i routes best)"

definition best_path_specificity ::
    "('w, 'm, 'v) route_definition list \<Rightarrow> api_version_candidate list \<Rightarrow> api_versioning option
       \<Rightarrow> (nat \<times> nat list) option" where
  "best_path_specificity routes cands versioning =
     best_loop (\<lambda>c r. route_matches_path_and_version r c versioning) path_specificity routes 0 cands None"

definition best_request_specificity ::
    "('w, 'm, 'v) route_definition list \<Rightarrow> api_version_candidate list \<Rightarrow> api_versioning option \<Rightarrow> str option
       \<Rightarrow> (nat \<times> nat list) option" where
  "best_request_specificity routes cands versioning host =
     best_loop (\<lambda>c r. route_matches_path_version_and_host r c versioning host) request_specificity
       routes 0 cands None"

definition matching_route_with_specificity ::
    "('w, 'm, 'v) route_definition list \<Rightarrow> api_version_candidate \<Rightarrow> nat list \<Rightarrow> api_versioning option
       \<Rightarrow> str option \<Rightarrow> (('w, 'm, 'v) route_definition \<Rightarrow> bool) \<Rightarrow> ('w, 'm, 'v) route_definition option" where
  "matching_route_with_specificity routes cand spec versioning host predicate =
     List.find (\<lambda>r. route_matches_request_candidate r cand spec versioning host \<and> predicate r) routes"

section \<open>The application\<close>

record ('w, 'm, 'v) boot_application =
  ba_routes :: "('w, 'm, 'v) route_definition list"
  ba_api_versioning :: "api_versioning option"
  ba_module_ref :: 'm
  ba_global_filters :: "('w, 'm, ('w, 'm, 'v) exception_filter) pipeline_component list"

definition app_request_candidates ::
    "(str \<Rightarrow> str option) \<Rightarrow> ('w, 'm, 'v) boot_application \<Rightarrow> 'm boot_request \<Rightarrow> api_version_candidate list" where
  "app_request_candidates jn app r =
     (case ba_api_versioning app of
        Some v \<Rightarrow> request_candidates jn v (rq_path r) (request_header r) (request_header_values r)
      | None \<Rightarrow> [\<lparr>cand_path = rq_path r, cand_version = None\<rparr>])"

definition app_path_candidates ::
    "(str \<Rightarrow> str option) \<Rightarrow> ('w, 'm, 'v) boot_application \<Rightarrow> str \<Rightarrow> api_version_candidate list" where
  "app_path_candidates jn app path =
     (case ba_api_versioning app of
        Some v \<Rightarrow> path_candidates jn v path
      | None \<Rightarrow> [\<lparr>cand_path = path, cand_version = None\<rparr>])"

definition route_for_candidates ::
    "('w, 'm, 'v) boot_application \<Rightarrow> http_method \<Rightarrow> api_version_candidate list
       \<Rightarrow> (('w, 'm, 'v) route_definition \<times> str) option" where
  "route_for_candidates app m cands =
     (case best_path_specificity (ba_routes app) cands (ba_api_versioning app) of
        None \<Rightarrow> None
      | Some (i, best) \<Rightarrow>
          (let cand = cands ! i;
               ok = (\<lambda>r. route_matches_candidate r cand best (ba_api_versioning app))
           in map_option (\<lambda>r. (r, cand_path cand))
                (or_else (List.find (\<lambda>r. ok r \<and> rd_method r = m) (ba_routes app))
                   (List.find (\<lambda>r. ok r \<and> method_matches (rd_method r) m) (ba_routes app)))))"

definition route_for ::
    "(str \<Rightarrow> str option) \<Rightarrow> ('w, 'm, 'v) boot_application \<Rightarrow> http_method \<Rightarrow> str
       \<Rightarrow> ('w, 'm, 'v) route_definition option" where
  "route_for jn app m path = map_option fst (route_for_candidates app m (app_path_candidates jn app path))"

definition route_match ::
    "(str \<Rightarrow> str option) \<Rightarrow> (str \<Rightarrow> str + str) \<Rightarrow> ('w, 'm, 'v) boot_application \<Rightarrow> http_method \<Rightarrow> str
       \<Rightarrow> (('w, 'm, 'v) route_definition \<times> (str, str) btree) option result" where
  "route_match jn dec app m path =
     (case route_for_candidates app m (app_path_candidates jn app path) of
        None \<Rightarrow> Inr None
      | Some (r, p) \<Rightarrow> rmap (map_option (\<lambda>params. (r, params))) (path_params dec r p))"

fun allowed_methods_loop ::
    "(('w, 'm, 'v) route_definition \<Rightarrow> bool) \<Rightarrow> ('w, 'm, 'v) route_definition list \<Rightarrow> http_method list \<Rightarrow> bool
       \<Rightarrow> http_method list \<times> bool" where
  "allowed_methods_loop ok [] ms wild = (ms, wild)"
| "allowed_methods_loop ok (r # rs) ms wild =
     (if \<not> ok r then allowed_methods_loop ok rs ms wild
      else if is_wildcard (rd_method r) then allowed_methods_loop ok rs ms True
      else allowed_methods_loop ok rs
             (if \<not> List.member ms (rd_method r) then ms @ [rd_method r] else ms) wild)"

definition allowed_methods ::
    "(str \<Rightarrow> str option) \<Rightarrow> ('w, 'm, 'v) boot_application \<Rightarrow> str \<Rightarrow> http_method list" where
  "allowed_methods jn app path =
     (let cands = app_path_candidates jn app path in
      case best_path_specificity (ba_routes app) cands (ba_api_versioning app) of
        None \<Rightarrow> []
      | Some (i, best) \<Rightarrow>
          (let (ms, wild) = allowed_methods_loop
                 (\<lambda>r. route_matches_candidate r (cands ! i) best (ba_api_versioning app)) (ba_routes app) [] False
           in if wild then standard_methods else ms))"

definition allowed_methods_header ::
    "(str \<Rightarrow> str option) \<Rightarrow> ('w, 'm, 'v) boot_application \<Rightarrow> str \<Rightarrow> str option" where
  "allowed_methods_header jn app path =
     (let ms = allowed_methods jn app path
      in if ms = [] then None else Some (join_with '','' (map method_as_str ms)))"

definition handle_global_error ::
    "('m \<Rightarrow> nat \<Rightarrow> 'm) \<Rightarrow> ('w, 'm, 'v) boot_application \<Rightarrow> nat \<Rightarrow> 'm boot_request \<Rightarrow> boot_error
       \<Rightarrow> ('w, boot_response) step" where
  "handle_global_error scope app cid request e w =
     (let request = with_module_ref (scope (ba_module_ref app) cid) request;
          ctx = execution_context_new request (rq_path request) None None serialization_default []
      in filters_loop (rev (ba_global_filters app)) cid ctx e w)"

definition app_call ::
    "(str \<Rightarrow> str option) \<Rightarrow> (str \<Rightarrow> str + str) \<Rightarrow> ('m \<Rightarrow> nat \<Rightarrow> 'm) \<Rightarrow> ('w, 'm, 'v) boot_application \<Rightarrow> nat
       \<Rightarrow> 'm boot_request \<Rightarrow> ('w, boot_response) step" where
  "app_call jn dec scope app cid request w =
     (let cands = app_request_candidates jn app request;
          host = request_host request;
          v = ba_api_versioning app
      in case best_request_specificity (ba_routes app) cands v host of
           None \<Rightarrow> handle_global_error scope app cid request (NotFound (request_line request)) w
         | Some (i, best) \<Rightarrow>
             (let cand = cands ! i;
                  pick = matching_route_with_specificity (ba_routes app) cand best v host;
                  run = (\<lambda>r. route_call dec scope r cid (with_matched_path (cand_path cand) request) w)
              in case pick (\<lambda>r. rd_method r = rq_method request) of
                   Some r \<Rightarrow> run r
                 | None \<Rightarrow>
                     (case pick (\<lambda>r. method_matches (rd_method r) (rq_method request)) of
                        Some r \<Rightarrow> run r
                      | None \<Rightarrow>
                          (case pick (\<lambda>_. True) of
                             Some r \<Rightarrow> run r
                           | None \<Rightarrow>
                               handle_global_error scope app cid request
                                 (NotFound (request_line request)) w))))"

definition app_handle ::
    "(nat \<Rightarrow> str \<Rightarrow> str \<Rightarrow> str option) \<Rightarrow> str \<Rightarrow> (str \<Rightarrow> str option) \<Rightarrow> (str \<Rightarrow> str + str) \<Rightarrow> ('m \<Rightarrow> nat \<Rightarrow> 'm)
       \<Rightarrow> ('w, 'm, 'v) boot_application \<Rightarrow> nat \<Rightarrow> 'm boot_request \<Rightarrow> 'w \<Rightarrow> boot_response \<times> 'w" where
  "app_handle enc fb jn dec scope app cid request w =
     (case app_call jn dec scope app cid request w of
        (Inr response, w1) \<Rightarrow> (response, w1)
      | (Inl e, w1) \<Rightarrow> (from_error enc fb e, w1))"

section \<open>Checks at build time\<close>

definition duplicate_of ::
    "api_versioning option \<Rightarrow> ('w, 'm, 'v) route_definition \<Rightarrow> ('w, 'm, 'v) route_definition \<Rightarrow> bool" where
  "duplicate_of versioning existing rd =
     (if rd_method existing \<noteq> rd_method rd
         \<or> route_shape_key (rd_path existing) \<noteq> route_shape_key (rd_path rd)
         \<or> host_shape existing \<noteq> host_shape rd
      then False
      else (case versioning of
              Some v \<Rightarrow> versioning_overlaps (rd_versioning existing) (rd_versioning rd) (av_default_version v)
            | None \<Rightarrow> True))"

fun validate_unique_routes_loop ::
    "api_versioning option \<Rightarrow> ('w, 'm, 'v) route_definition list \<Rightarrow> ('w, 'm, 'v) route_definition list \<Rightarrow> unit result" where
  "validate_unique_routes_loop versioning seen [] = Inr ()"
| "validate_unique_routes_loop versioning seen (r # rs) =
     (case List.find (\<lambda>existing. duplicate_of versioning existing r) seen of
        Some _ \<Rightarrow>
          Inl (DuplicateRoute
            (method_as_str (rd_method r) @ '' '' @ rd_path r
             @ (case rd_host r of Some h \<Rightarrow> '' host '' @ h | None \<Rightarrow> [])
             @ '' version '' @ versioning_display (rd_versioning r)))
      | None \<Rightarrow> validate_unique_routes_loop versioning (seen @ [r]) rs)"

definition validate_unique_routes ::
    "('w, 'm, 'v) route_definition list \<Rightarrow> api_versioning option \<Rightarrow> unit result" where
  "validate_unique_routes routes versioning = validate_unique_routes_loop versioning [] routes"

text \<open>Gateways enter through their paths.\<close>

fun validate_unique_gateways_loop :: "str list \<Rightarrow> str list \<Rightarrow> unit result" where
  "validate_unique_gateways_loop seen [] = Inr ()"
| "validate_unique_gateways_loop seen (g # gs) =
     (if List.member seen (route_shape_key g) then Inl (DuplicateRoute (''WS '' @ g))
      else validate_unique_gateways_loop (bs_insert (route_shape_key g) seen) gs)"

definition validate_unique_gateways :: "str list \<Rightarrow> unit result" where
  "validate_unique_gateways gateways = validate_unique_gateways_loop [] gateways"

definition validate_gateway_route_conflicts ::
    "('w, 'm, 'v) route_definition list \<Rightarrow> str list \<Rightarrow> unit result" where
  "validate_gateway_route_conflicts routes gateways =
     (let get_routes = map (\<lambda>r. route_shape_key (rd_path r)) (filter (\<lambda>r. method_matches (rd_method r) M_Get) routes)
      in case List.find (\<lambda>g. List.member get_routes (route_shape_key g)) gateways of
           Some g \<Rightarrow> Inl (DuplicateRoute (''GET '' @ g))
         | None \<Rightarrow> Inr ())"

fun validate_unique_patterns_loop :: "str list \<Rightarrow> str list \<Rightarrow> unit result" where
  "validate_unique_patterns_loop seen [] = Inr ()"
| "validate_unique_patterns_loop seen (p # ps) =
     (if List.member seen p then Inl (DuplicateRoute (''message pattern '' @ p))
      else validate_unique_patterns_loop (bs_insert p seen) ps)"

definition validate_unique_message_patterns :: "str list \<Rightarrow> unit result" where
  "validate_unique_message_patterns patterns = validate_unique_patterns_loop [] patterns"

text \<open>
  The preflight routes that \<open>use_global_cors\<close> adds. \<open>preflight\<close> is the handler of
  \<open>CorsPreflightRoute\<close>; \<open>hide_from_openapi\<close> only concerns the documentation.
\<close>

fun cors_preflight_loop ::
    "('w, 'm) route_handler \<Rightarrow> ('w, 'm, 'v) pipeline_components \<Rightarrow> str list \<Rightarrow> str list
       \<Rightarrow> ('w, 'm, 'v) route_definition list \<Rightarrow> ('w, 'm, 'v) route_definition list
       \<Rightarrow> ('w, 'm, 'v) route_definition list result" where
  "cors_preflight_loop preflight p existing generated [] routes = Inr routes"
| "cors_preflight_loop preflight p existing generated (r # rs) routes =
     (if rd_method r = M_Options then cors_preflight_loop preflight p existing generated rs routes
      else
        (let shape = route_shape_key (rd_path r) in
         if List.member existing shape then cors_preflight_loop preflight p existing generated rs routes
         else if List.member generated shape then cors_preflight_loop preflight p existing generated rs routes
         else
           rbind (route_new M_Options (rd_path r) preflight) (\<lambda>o_route.
             cors_preflight_loop preflight p existing (bs_insert shape generated) rs
               (routes @ [with_pipeline_prefix p o_route]))))"

definition add_cors_preflight_routes ::
    "('w, 'm) route_handler \<Rightarrow> ('w, 'm, 'v) pipeline_components
       \<Rightarrow> ('w, 'm, 'v) route_definition list \<Rightarrow> ('w, 'm, 'v) route_definition list result" where
  "add_cors_preflight_routes preflight p routes =
     cors_preflight_loop preflight p
       (map (\<lambda>r. route_shape_key (rd_path r)) (filter (\<lambda>r. rd_method r = M_Options) routes)) [] routes routes"

section \<open>Route-scoped middleware and prefix exclusions\<close>

record middleware_route =
  mr_method :: "http_method option"
  mr_path :: str

definition middleware_route_new :: "http_method option \<Rightarrow> str \<Rightarrow> middleware_route result" where
  "middleware_route_new m path =
     rbind (validate_route_path path) (\<lambda>_.
       Inr \<lparr>mr_method = opt_filter (\<lambda>m. \<not> is_wildcard m) m, mr_path = path\<rparr>)"

definition middleware_route_matches :: "middleware_route \<Rightarrow> http_method \<Rightarrow> str list \<Rightarrow> bool" where
  "middleware_route_matches mr route_method paths =
     ((case mr_method mr of Some m \<Rightarrow> m = route_method \<or> is_wildcard route_method | None \<Rightarrow> True)
      \<and> list_ex (match_path_shape (mr_path mr)) paths)"

record ('w, 'm) middleware_entry =
  me_middleware :: "('w, 'm) middleware list"
  me_routes :: "middleware_route list"
  me_excluded :: "middleware_route list"

definition middleware_entry_matches :: "('w, 'm) middleware_entry \<Rightarrow> http_method \<Rightarrow> str list \<Rightarrow> bool" where
  "middleware_entry_matches en m paths =
     ((me_routes en = [] \<or> list_ex (\<lambda>r. middleware_route_matches r m paths) (me_routes en))
      \<and> \<not> list_ex (\<lambda>r. middleware_route_matches r m paths) (me_excluded en))"

definition for_routes ::
    "('w, 'm) middleware list \<Rightarrow> middleware_route list \<Rightarrow> middleware_route list \<Rightarrow> ('w, 'm) middleware_entry list
       \<Rightarrow> ('w, 'm) middleware_entry list result" where
  "for_routes mws excluded routes entries =
     (if routes = [] then Inl (BadRequest ''middleware consumer requires at least one route'')
      else Inr (entries @ [\<lparr>me_middleware = mws, me_routes = routes, me_excluded = excluded\<rparr>]))"

definition for_all_routes ::
    "('w, 'm) middleware list \<Rightarrow> middleware_route list \<Rightarrow> ('w, 'm) middleware_entry list
       \<Rightarrow> ('w, 'm) middleware_entry list" where
  "for_all_routes mws excluded entries =
     entries @ [\<lparr>me_middleware = mws, me_routes = [], me_excluded = excluded\<rparr>]"

definition apply_to_route ::
    "('w, 'm) middleware_entry list \<Rightarrow> ('w, 'm, 'v) route_definition \<Rightarrow> str list \<Rightarrow> ('w, 'm, 'v) route_definition" where
  "apply_to_route entries rd paths =
     (let mws = concat (map me_middleware (filter (\<lambda>en. middleware_entry_matches en (rd_method rd) paths) entries))
      in if mws = [] then rd else rd\<lparr>rd_middleware := mws @ rd_middleware rd\<rparr>)"

definition apply_global_prefix_to_route ::
    "('w, 'm, 'v) route_definition \<Rightarrow> str option \<Rightarrow> middleware_route list \<Rightarrow> ('w, 'm, 'v) route_definition result" where
  "apply_global_prefix_to_route rd pre exclusions =
     (case pre of
        None \<Rightarrow> Inr rd
      | Some p \<Rightarrow>
          if list_ex (\<lambda>ex. middleware_route_matches ex (rd_method rd) [rd_path rd]) exclusions then Inr rd
          else with_path_prefix p rd)"

definition apply_global_prefix ::
    "('w, 'm, 'v) route_definition list \<Rightarrow> str option \<Rightarrow> middleware_route list
       \<Rightarrow> ('w, 'm, 'v) route_definition list result" where
  "apply_global_prefix routes pre exclusions =
     rcollect (\<lambda>r. apply_global_prefix_to_route r pre exclusions) routes"

section \<open>Lemmas\<close>

definition best_ok :: "(nat \<times> nat list) set \<Rightarrow> (nat \<times> nat list) option \<Rightarrow> bool" where
  "best_ok P best \<longleftrightarrow>
     (case best of
        None \<Rightarrow> P = {}
      | Some (i, s) \<Rightarrow> (i, s) \<in> P \<and> (\<forall>(j, t) \<in> P. t \<le> s))"

lemma best_ok_step:
  assumes "best_ok P best"
  shows "best_ok (insert (i, s) P)
     (case best of None \<Rightarrow> Some (i, s) | Some (j, b) \<Rightarrow> if s > b then Some (i, s) else best)"
proof (cases best)
  case None
  with assms show ?thesis by (simp add: best_ok_def)
next
  case (Some jb)
  obtain j b where jb: "jb = (j, b)" by (cases jb)
  from assms Some jb have "(j, b) \<in> P" and le: "\<And>k t. (k, t) \<in> P \<Longrightarrow> t \<le> b"
    by (auto simp: best_ok_def)
  then show ?thesis
    using Some jb by (auto simp: best_ok_def not_less dest!: le)
qed

lemma best_routes_ok:
  "best_ok P best \<Longrightarrow>
     best_ok (P \<union> {(i, spec r) | r. r \<in> set rs \<and> ok r}) (best_routes_loop ok spec i rs best)"
proof (induction rs arbitrary: P best)
  case (Cons r rs)
  let ?P = "if ok r then insert (i, spec r) P else P"
  have "best_ok ?P (if ok r then (case best of None \<Rightarrow> Some (i, spec r)
      | Some (j, b) \<Rightarrow> if spec r > b then Some (i, spec r) else best) else best)"
    using best_ok_step [OF Cons.prems] Cons.prems by simp
  from Cons.IH [OF this]
  have "best_ok (?P \<union> {(i, spec r) | r. r \<in> set rs \<and> ok r}) (best_routes_loop ok spec i (r # rs) best)"
    by simp
  moreover have "?P \<union> {(i, spec r) | r. r \<in> set rs \<and> ok r}
      = P \<union> {(i, spec x) | x. x \<in> set (r # rs) \<and> ok x}"
    by auto
  ultimately show ?case by (simp only:)
qed simp

definition match_pairs :: "('c \<Rightarrow> 'r \<Rightarrow> bool) \<Rightarrow> ('r \<Rightarrow> nat list) \<Rightarrow> 'r list \<Rightarrow> nat \<Rightarrow> 'c list \<Rightarrow> (nat \<times> nat list) set" where
  "match_pairs ok spec routes i cs =
     {(i + k, spec r) | k r. k < length cs \<and> r \<in> set routes \<and> ok (cs ! k) r}"

lemma match_pairs_Cons:
  "match_pairs ok spec routes i (c # cs) =
     {(i, spec r) | r. r \<in> set routes \<and> ok c r} \<union> match_pairs ok spec routes (i + 1) cs" (is "?L = ?R")
proof
  show "?L \<subseteq> ?R"
  proof
    fix x assume "x \<in> ?L"
    then obtain k r where "x = (i + k, spec r)" "k < length (c # cs)" "r \<in> set routes" "ok ((c # cs) ! k) r"
      by (auto simp: match_pairs_def)
    then show "x \<in> ?R" by (cases k) (auto simp: match_pairs_def)
  qed
  show "?R \<subseteq> ?L"
  proof
    fix x assume "x \<in> ?R"
    then consider r where "x = (i + 0, spec r)" "r \<in> set routes" "ok ((c # cs) ! 0) r"
      | k r where "x = (i + Suc k, spec r)" "Suc k < length (c # cs)" "r \<in> set routes" "ok ((c # cs) ! Suc k) r"
      by (auto simp: match_pairs_def)
    then show "x \<in> ?L"
    proof cases
      case 1
      then show ?thesis unfolding match_pairs_def by fastforce
    next
      case 2
      then show ?thesis unfolding match_pairs_def by blast
    qed
  qed
qed

lemma best_loop_ok:
  "best_ok P best \<Longrightarrow> best_ok (P \<union> match_pairs ok spec routes i cs) (best_loop ok spec routes i cs best)"
proof (induction cs arbitrary: P best i)
  case Nil
  then show ?case by (simp add: match_pairs_def)
next
  case (Cons c cs)
  from Cons.IH [OF best_routes_ok [OF Cons.prems, of i spec routes "ok c"], of "i + 1"]
  show ?case by (simp add: match_pairs_Cons Un_assoc)
qed

lemma best_loop_None_Some:
  "best_loop ok spec routes 0 cs None = None \<longleftrightarrow> \<not> (\<exists>k < length cs. \<exists>r \<in> set routes. ok (cs ! k) r)"
  "best_loop ok spec routes 0 cs None = Some (i, s) \<Longrightarrow>
     i < length cs \<and> (\<exists>r \<in> set routes. ok (cs ! i) r \<and> spec r = s)
     \<and> (\<forall>k < length cs. \<forall>r \<in> set routes. ok (cs ! k) r \<longrightarrow> spec r \<le> s)"
proof -
  have b: "best_ok (match_pairs ok spec routes 0 cs) (best_loop ok spec routes 0 cs None)"
    using best_loop_ok [of "{}" None ok spec routes 0 cs] by (simp add: best_ok_def)
  show "best_loop ok spec routes 0 cs None = None \<longleftrightarrow> \<not> (\<exists>k < length cs. \<exists>r \<in> set routes. ok (cs ! k) r)"
  proof (cases "best_loop ok spec routes 0 cs None")
    case None
    with b have "match_pairs ok spec routes 0 cs = {}" by (simp add: best_ok_def)
    with None show ?thesis unfolding match_pairs_def by auto
  next
    case (Some js)
    with b have "match_pairs ok spec routes 0 cs \<noteq> {}" by (auto simp: best_ok_def)
    then have "\<exists>k < length cs. \<exists>r \<in> set routes. ok (cs ! k) r"
      unfolding match_pairs_def by auto
    with Some show ?thesis by simp
  qed
  assume "best_loop ok spec routes 0 cs None = Some (i, s)"
  with b have i: "(i, s) \<in> match_pairs ok spec routes 0 cs"
    and le: "\<And>j t. (j, t) \<in> match_pairs ok spec routes 0 cs \<Longrightarrow> t \<le> s"
    by (auto simp: best_ok_def)
  have "spec r \<le> s" if "k < length cs" "r \<in> set routes" "ok (cs ! k) r" for k r
    by (rule le [of k]) (use that in \<open>auto simp: match_pairs_def\<close>)
  with i show "i < length cs \<and> (\<exists>r \<in> set routes. ok (cs ! i) r \<and> spec r = s)
     \<and> (\<forall>k < length cs. \<forall>r \<in> set routes. ok (cs ! k) r \<longrightarrow> spec r \<le> s)"
    by (auto simp: match_pairs_def)
qed

lemma pick_Some:
  "matching_route_with_specificity routes cand s v host P = Some r \<Longrightarrow>
     r \<in> set routes \<and> route_matches_path_version_and_host r cand v host \<and> request_specificity r = s \<and> P r"
  by (auto simp: matching_route_with_specificity_def route_matches_request_candidate_def dest!: find_SomeD)

lemma pick_None:
  "matching_route_with_specificity routes cand s v host P = None \<Longrightarrow> r \<in> set routes \<Longrightarrow>
     route_matches_path_version_and_host r cand v host \<Longrightarrow> request_specificity r = s \<Longrightarrow> \<not> P r"
  by (auto simp: matching_route_with_specificity_def route_matches_request_candidate_def find_None_iff_all)

section \<open>Dispatch\<close>

text \<open>What is served: a route, the index of its candidate, and the preference by method.\<close>

definition dispatch_choice ::
    "('w, 'm, 'v) boot_application \<Rightarrow> api_version_candidate list \<Rightarrow> 'm boot_request \<Rightarrow> nat
       \<Rightarrow> ('w, 'm, 'v) route_definition \<Rightarrow> bool" where
  "dispatch_choice app cands request i r \<longleftrightarrow>
     (let serves = (\<lambda>k q. route_matches_path_version_and_host q (cands ! k) (ba_api_versioning app) (request_host request));
          peers = {q \<in> set (ba_routes app). serves i q \<and> request_specificity q = request_specificity r}
      in i < length cands \<and> r \<in> peers
         \<and> (\<forall>k < length cands. \<forall>q \<in> set (ba_routes app). serves k q \<longrightarrow> request_specificity q \<le> request_specificity r)
         \<and> ((\<exists>q \<in> peers. rd_method q = rq_method request) \<longrightarrow> rd_method r = rq_method request)
         \<and> ((\<exists>q \<in> peers. method_matches (rd_method q) (rq_method request)) \<longrightarrow>
              method_matches (rd_method r) (rq_method request)))"

lemma dispatch_choiceI:
  assumes best: "best_request_specificity (ba_routes app) cands (ba_api_versioning app) (request_host request) = Some (i, s)"
    and pick: "matching_route_with_specificity (ba_routes app) (cands ! i) s (ba_api_versioning app)
        (request_host request) P = Some r"
    and exact: "\<not> P r \<or> rd_method r = rq_method request \<or>
        matching_route_with_specificity (ba_routes app) (cands ! i) s (ba_api_versioning app)
          (request_host request) (\<lambda>r. rd_method r = rq_method request) = None"
    and wild: "\<not> P r \<or> method_matches (rd_method r) (rq_method request) \<or>
        matching_route_with_specificity (ba_routes app) (cands ! i) s (ba_api_versioning app)
          (request_host request) (\<lambda>r. method_matches (rd_method r) (rq_method request)) = None"
  shows "dispatch_choice app cands request i r"
proof -
  note b = best_loop_None_Some(2) [OF best [unfolded best_request_specificity_def]]
  note p = pick_Some [OF pick]
  note n = pick_None [of "ba_routes app" "cands ! i" s "ba_api_versioning app" "request_host request"]
  from p have r: "r \<in> set (ba_routes app)" "request_specificity r = s" "P r"
    "route_matches_path_version_and_host r (cands ! i) (ba_api_versioning app) (request_host request)"
    by simp_all
  have "rd_method r = rq_method request"
    if "q \<in> set (ba_routes app)" "request_specificity q = s" "rd_method q = rq_method request"
      "route_matches_path_version_and_host q (cands ! i) (ba_api_versioning app) (request_host request)" for q
    using exact r(3) n [OF _ that(1) that(4) that(2)] that(3) by blast
  moreover have "method_matches (rd_method r) (rq_method request)"
    if "q \<in> set (ba_routes app)" "request_specificity q = s" "method_matches (rd_method q) (rq_method request)"
      "route_matches_path_version_and_host q (cands ! i) (ba_api_versioning app) (request_host request)" for q
    using wild r(3) n [OF _ that(1) that(4) that(2)] that(3) by blast
  ultimately show ?thesis
    unfolding dispatch_choice_def Let_def using b r by auto
qed

definition served ::
    "('w, 'm, 'v) boot_application \<Rightarrow> api_version_candidate list \<Rightarrow> 'm boot_request \<Rightarrow> bool" where
  "served app cands request \<longleftrightarrow>
     (\<exists>k < length cands. \<exists>q \<in> set (ba_routes app).
        route_matches_path_version_and_host q (cands ! k) (ba_api_versioning app) (request_host request))"

text \<open>
  C1. Dispatch. If no route matches the path, version and host of any candidate of the
  request, the application answers NotFound through its global filters. Otherwise exactly
  one route is called, with the candidate's path: it matches, no match of any candidate is
  more specific, and among the equally specific matches of its candidate a route for the
  very method is preferred to a wildcard one, and that to one that will answer 405.
\<close>

theorem dispatch_exact:
  "if served app (app_request_candidates jn app request) request
     then (\<exists>i r. dispatch_choice app (app_request_candidates jn app request) request i r
        \<and> app_call jn dec scope app cid request w
          = route_call dec scope r cid (with_matched_path (cand_path (app_request_candidates jn app request ! i)) request) w)
     else app_call jn dec scope app cid request w
        = handle_global_error scope app cid request (NotFound (request_line request)) w"
proof -
  let ?cands = "app_request_candidates jn app request"
  let ?best = "best_request_specificity (ba_routes app) ?cands (ba_api_versioning app) (request_host request)"
  have none: "?best = None \<longleftrightarrow> \<not> served app ?cands request"
    unfolding best_request_specificity_def best_loop_None_Some(1) served_def ..
  show ?thesis
  proof (cases ?best)
    case None
    with none show ?thesis by (simp add: app_call_def Let_def)
  next
    case (Some js)
    obtain i s where js: "js = (i, s)" by (cases js)
    let ?pick = "matching_route_with_specificity (ba_routes app) (?cands ! i) s (ba_api_versioning app)
        (request_host request)"
    have best: "?best = Some (i, s)" using Some js by simp
    have choice: "\<exists>i r. dispatch_choice app ?cands request i r
        \<and> app_call jn dec scope app cid request w
          = route_call dec scope r cid (with_matched_path (cand_path (?cands ! i)) request) w"
    proof (cases "?pick (\<lambda>r. rd_method r = rq_method request)")
      case p1: (Some r)
      then have "rd_method r = rq_method request" using pick_Some by blast
      then have "dispatch_choice app ?cands request i r"
        by (intro dispatch_choiceI [OF best p1]) (auto simp: method_matches_def)
      with best p1 show ?thesis by (auto simp: app_call_def Let_def)
    next
      case n1: None
      show ?thesis
      proof (cases "?pick (\<lambda>r. method_matches (rd_method r) (rq_method request))")
        case p2: (Some r)
        then have "method_matches (rd_method r) (rq_method request)" using pick_Some by blast
        then have "dispatch_choice app ?cands request i r"
          by (intro dispatch_choiceI [OF best p2]) (use n1 in auto)
        with best n1 p2 show ?thesis by (auto simp: app_call_def Let_def)
      next
        case n2: None
        show ?thesis
        proof (cases "?pick (\<lambda>_. True)")
          case p3: (Some r)
          then have "dispatch_choice app ?cands request i r"
            by (intro dispatch_choiceI [OF best p3]) (use n1 n2 in auto)
          with best n1 n2 p3 show ?thesis by (auto simp: app_call_def Let_def)
        next
          case None
          from best_loop_None_Some(2) [OF best [unfolded best_request_specificity_def]]
          obtain r where "r \<in> set (ba_routes app)" "request_specificity r = s"
            "route_matches_path_version_and_host r (?cands ! i) (ba_api_versioning app) (request_host request)"
            by blast
          with pick_None [OF None] show ?thesis by blast
        qed
      qed
    qed
    from Some none have "served app ?cands request" by auto
    with choice show ?thesis by simp
  qed
qed

definition sample_app_route :: "str \<Rightarrow> nat \<Rightarrow> (unit, unit, unit) route_definition" where
  "sample_app_route path status =
     \<lparr>rd_method = M_Get, rd_path = path, rd_host = None,
      rd_handler = (\<lambda>_ w. (Inr (response_empty status), w)), rd_middleware = [], rd_pipes = [],
      rd_guards = [], rd_interceptors = [], rd_filters = [], rd_validators = [],
      rd_validation_enabled = False, rd_validation_disabled = False,
      rd_validation_options = validation_options_default, rd_module_name = None,
      rd_controller_prefix = None, rd_module_ref = None, rd_versioning = Unspecified,
      rd_serialization = serialization_default, rd_metadata = []\<rparr>"

definition sample_app :: "(unit, unit, unit) boot_application" where
  "sample_app = \<lparr>ba_routes = [sample_app_route ''/files'' 201, sample_app_route ''/files/{*path}'' 202],
     ba_api_versioning = None, ba_module_ref = (), ba_global_filters = []\<rparr>"

lemma sample_matching:
  "match_path_shape ''/files'' ''/files''" "match_path_shape ''/files/{*path}'' ''/files''"
  "route_specificity ''/files'' = [2]" "route_specificity ''/files/{*path}'' = [2, 0]"
  by code_simp+

lemma sample_fields [simp]:
  "rd_path (sample_app_route p s) = p" "rd_host (sample_app_route p s) = None"
  "rd_method (sample_app_route p s) = M_Get"
  by (simp_all add: sample_app_route_def)

lemma sample_distinct: "sample_app_route ''/files/{*path}'' 202 \<noteq> sample_app_route ''/files'' 201"
  by (rule notI, drule arg_cong [where f = rd_path]) simp

text \<open>
  The lookup by path alone compares the bare specificities, in which an exact path is a
  proper prefix of, and so less than, the wildcard below it. It finds the wildcard route for
  a path that dispatch gives to the exact one.
\<close>

lemma route_for_prefers_wildcard:
  "route_for (\<lambda>_. None) sample_app M_Get ''/files'' = Some (sample_app_route ''/files/{*path}'' 202)"
proof -
  have pv: "route_matches_path_and_version (sample_app_route p st) \<lparr>cand_path = ''/files'', cand_version = None\<rparr> None
      = match_path_shape p ''/files''" for p st
    by (simp add: route_matches_path_and_version_def matches_path_def)
  have "best_path_specificity (ba_routes sample_app) [\<lparr>cand_path = ''/files'', cand_version = None\<rparr>] None
      = Some (0, [2, 0])"
    by (simp add: best_path_specificity_def sample_app_def pv sample_matching path_specificity_def)
  then show ?thesis
    by (simp add: route_for_def route_for_candidates_def app_path_candidates_def sample_app_def
        route_matches_candidate_def pv sample_matching path_specificity_def Let_def)
qed

theorem dispatch_exact_witness:
  "app_call (\<lambda>_. None) Inr (\<lambda>m _. m) sample_app 0 (request_new Inr M_Get ''/files'') ()
     = (Inr (response_empty 201), ())"
proof -
  let ?req = "request_new Inr M_Get ''/files'' :: unit boot_request"
  let ?c = "\<lparr>cand_path = ''/files'', cand_version = None\<rparr>"
  have q: "rq_path ?req = ''/files''" "rq_method ?req = M_Get" "request_host ?req = None" by code_simp+
  have cands: "app_request_candidates (\<lambda>_. None) sample_app ?req = [?c]"
    by (simp add: app_request_candidates_def sample_app_def q)
  have m: "route_matches_path_version_and_host (sample_app_route p st) ?c None None = match_path_shape p ''/files''" for p st
    by (simp add: route_matches_path_version_and_host_def route_matches_path_and_version_def
        matches_path_def matches_host_def)
  have sp: "request_specificity (sample_app_route ''/files'' 201) = [2, 2, 0]"
    "request_specificity (sample_app_route ''/files/{*path}'' 202) = [2, 0, 2, 0]"
    by (simp_all add: request_specificity_def path_specificity_def sample_matching host_specificity_def)
  have routes: "set (ba_routes sample_app) = {sample_app_route ''/files'' 201, sample_app_route ''/files/{*path}'' 202}"
    "ba_api_versioning sample_app = None"
    by (simp_all add: sample_app_def)
  have "served sample_app [?c] ?req"
    by (simp add: served_def routes q m sample_matching)
  then obtain i r where ch: "dispatch_choice sample_app [?c] ?req i r"
    and call: "app_call (\<lambda>_. None) Inr (\<lambda>m _. m) sample_app 0 ?req ()
      = route_call Inr (\<lambda>m _. m) r 0 (with_matched_path (cand_path ([?c] ! i)) ?req) ()"
    using dispatch_exact [where jn = "\<lambda>_. None" and app = sample_app and request = ?req and dec = Inr
        and scope = "\<lambda>m _. m" and cid = 0 and w = "()"]
    unfolding cands by auto
  from ch have "i = 0" "r = sample_app_route ''/files'' 201"
    by (auto simp: dispatch_choice_def Let_def routes q m sample_matching sp)
  moreover have "route_call Inr (\<lambda>m _. m) (sample_app_route ''/files'' 201) 0 (with_matched_path ''/files'' ?req) ()
      = (Inr (response_empty 201), ())"
  proof -
    have "match_path_params Inr ''/files'' ''/files'' = Inr (Some [])" by code_simp
    then show ?thesis
      by (simp add: route_call_def attach_request_context_def with_matched_path_def q path_params_def
          host_params_def method_matches_def sample_app_route_def call_pipeline_def Let_def
          terminal_call_def call_handler_pipeline_def)
  qed
  ultimately show ?thesis using call by simp
qed

section \<open>No two routes compete\<close>

lemma validate_unique_loop_pairs:
  "validate_unique_routes_loop v seen rs = Inr () \<Longrightarrow>
     (\<forall>e \<in> set seen. \<forall>r \<in> set rs. \<not> duplicate_of v e r)
     \<and> (\<forall>i j. i < j \<and> j < length rs \<longrightarrow> \<not> duplicate_of v (rs ! i) (rs ! j))"
proof (induction rs arbitrary: seen)
  case (Cons r rs)
  from Cons.prems have none: "List.find (\<lambda>e. duplicate_of v e r) seen = None"
    and rest: "validate_unique_routes_loop v (seen @ [r]) rs = Inr ()"
    by (auto split: option.splits)
  note IH = Cons.IH [OF rest]
  show ?case
  proof (intro conjI allI impI)
    show "\<forall>e \<in> set seen. \<forall>x \<in> set (r # rs). \<not> duplicate_of v e x"
      using none IH by (auto simp: find_None_iff_all)
    fix i j assume ij: "i < j \<and> j < length (r # rs)"
    then obtain k where k: "j = Suc k" by (cases j) auto
    show "\<not> duplicate_of v ((r # rs) ! i) ((r # rs) ! j)"
    proof (cases i)
      case 0
      then show ?thesis using IH ij k by simp
    next
      case (Suc m)
      then show ?thesis using IH ij k by simp
    qed
  qed
qed simp

text \<open>
  C13. After \<open>validate_unique_routes\<close> no request is ambiguous: two different routes for one
  method that both match the same candidate and host of a request differ in the shape of
  their path or of their host pattern. Without API versioning that is so for all routes,
  with it for routes that serve at least one version.
\<close>

theorem unique_routes_unambiguous:
  assumes "validate_unique_routes routes versioning = Inr ()"
    and "i < j" "j < length routes" "rd_method (routes ! i) = rd_method (routes ! j)"
    and "route_matches_path_version_and_host (routes ! i) cand versioning host"
    and "route_matches_path_version_and_host (routes ! j) cand versioning host"
    and "versioning \<noteq> None \<longrightarrow> versions_nonempty (rd_versioning (routes ! i))
           \<and> versions_nonempty (rd_versioning (routes ! j))"
  shows "route_shape_key (rd_path (routes ! i)) \<noteq> route_shape_key (rd_path (routes ! j))
     \<or> host_shape (routes ! i) \<noteq> host_shape (routes ! j)"
proof (rule ccontr)
  assume same: "\<not> ?thesis"
  have "\<not> duplicate_of versioning (routes ! i) (routes ! j)"
    using validate_unique_loop_pairs [of versioning "[]" routes] assms(1-3)
    by (simp add: validate_unique_routes_def)
  with same assms(4) obtain v where v: "versioning = Some v"
    and no: "\<not> versioning_overlaps (rd_versioning (routes ! i)) (rd_versioning (routes ! j)) (av_default_version v)"
    by (auto simp: duplicate_of_def split: option.splits if_splits)
  from assms(5,6) v have
    "versioning_matches (rd_versioning (routes ! i)) (cand_version cand) (av_default_version v)"
    "versioning_matches (rd_versioning (routes ! j)) (cand_version cand) (av_default_version v)"
    by (auto simp: route_matches_path_version_and_host_def route_matches_path_and_version_def split: if_splits)
  with no assms(7) v show False
    by (auto simp: overlaps_common)
qed

theorem unique_routes_unambiguous_witness:
  "route_shape_key (rd_path (ba_routes sample_app ! 0)) \<noteq> route_shape_key (rd_path (ba_routes sample_app ! 1))"
proof -
  let ?c = "\<lparr>cand_path = ''/files'', cand_version = None\<rparr>"
  have k: "route_shape_key ''/files'' \<noteq> route_shape_key ''/files/{*path}''" by code_simp
  have "validate_unique_routes (ba_routes sample_app) None = Inr ()"
    using k by (simp add: validate_unique_routes_def sample_app_def duplicate_of_def)
  moreover have "route_matches_path_version_and_host (ba_routes sample_app ! 0) ?c None None"
    "route_matches_path_version_and_host (ba_routes sample_app ! 1) ?c None None"
    by (simp_all add: sample_app_def route_matches_path_version_and_host_def matches_host_def
        route_matches_path_and_version_def matches_path_def sample_matching)
  moreover have "rd_method (ba_routes sample_app ! 0) = rd_method (ba_routes sample_app ! 1)"
    "1 < length (ba_routes sample_app)"
    by (simp_all add: sample_app_def)
  moreover have "host_shape (ba_routes sample_app ! 0) = host_shape (ba_routes sample_app ! 1)"
    by (simp add: sample_app_def host_shape_def)
  ultimately show ?thesis
    using unique_routes_unambiguous [of "ba_routes sample_app" None 0 1 ?c None] by simp
qed

section \<open>The methods a path allows\<close>

lemma allowed_loop_spec:
  "allowed_methods_loop ok rs ms wild = (ns, wild') \<Longrightarrow>
     set ns = set ms \<union> {rd_method r | r. r \<in> set rs \<and> ok r \<and> \<not> is_wildcard (rd_method r)}
     \<and> (distinct ms \<longrightarrow> distinct ns)
     \<and> (wild' \<longleftrightarrow> wild \<or> (\<exists>r \<in> set rs. ok r \<and> is_wildcard (rd_method r)))"
proof (induction rs arbitrary: ms wild)
  case (Cons r rs)
  consider "\<not> ok r" | "ok r" "is_wildcard (rd_method r)" | "ok r" "\<not> is_wildcard (rd_method r)" by blast
  then show ?case
  proof cases
    case 1
    with Cons.IH [of ms wild] Cons.prems show ?thesis by auto
  next
    case 2
    with Cons.IH [of ms True] Cons.prems show ?thesis by auto
  next
    case 3
    with Cons.IH [of "if rd_method r \<notin> set ms then ms @ [rd_method r] else ms" wild] Cons.prems
    show ?thesis by (auto split: if_splits)
  qed
qed auto

lemma standard_methods_distinct: "distinct standard_methods"
  by (simp add: standard_methods_def)

text \<open>
  The Allow header tells the truth about route lookup: a standard method is listed
  exactly when looking up the path with it finds a route, and no method is listed twice.
\<close>

theorem allowed_methods_exact:
  assumes "is_standard m"
  shows "(m \<in> set (allowed_methods jn app path)) = (route_for jn app m path \<noteq> None)
     \<and> distinct (allowed_methods jn app path)"
proof (cases "best_path_specificity (ba_routes app) (app_path_candidates jn app path) (ba_api_versioning app)")
  case None
  then show ?thesis by (simp add: allowed_methods_def route_for_def route_for_candidates_def Let_def)
next
  case (Some ib)
  obtain i b where ib: "ib = (i, b)" by (cases ib)
  let ?ok = "\<lambda>r. route_matches_candidate r (app_path_candidates jn app path ! i) b (ba_api_versioning app)"
  obtain ns wild where loop: "allowed_methods_loop ?ok (ba_routes app) [] False = (ns, wild)"
    by (cases "allowed_methods_loop ?ok (ba_routes app) [] False") auto
  note spec = allowed_loop_spec [OF loop]
  have am: "allowed_methods jn app path = (if wild then standard_methods else ns)"
    using Some ib loop by (simp add: allowed_methods_def Let_def)
  have "route_for jn app m path \<noteq> None \<longleftrightarrow>
      (\<exists>r \<in> set (ba_routes app). ?ok r \<and> method_matches (rd_method r) m)"
    using Some ib
    by (simp add: route_for_def route_for_candidates_def Let_def or_else_ex_iff find_ex_iff)
      (auto simp: method_matches_def)
  moreover have "m \<in> set (allowed_methods jn app path) \<longleftrightarrow>
      (\<exists>r \<in> set (ba_routes app). ?ok r \<and> method_matches (rd_method r) m)"
    using spec assms by (auto simp: am standard_methods_iff method_matches_def is_standard_def)
  ultimately show ?thesis
    using spec standard_methods_distinct by (simp add: am)
qed

theorem allowed_methods_exact_witness:
  "M_Get \<in> set (allowed_methods (\<lambda>_. None) sample_app ''/files'')"
proof -
  have "is_standard M_Get" by (simp add: is_standard_def is_wildcard_def)
  then show ?thesis
    using allowed_methods_exact [of M_Get "\<lambda>_. None" sample_app "''/files''"] route_for_prefers_wildcard by simp
qed

section \<open>Preflight routes\<close>

lemma cors_loop_covers:
  "cors_preflight_loop preflight p existing generated rs routes = Inr routes' \<Longrightarrow>
     set routes \<subseteq> set routes'
     \<and> (\<forall>r \<in> set rs. rd_method r \<noteq> M_Options \<longrightarrow>
          route_shape_key (rd_path r) \<in> set existing \<union> set generated
            \<union> {route_shape_key (rd_path x) | x. x \<in> set routes' \<and> rd_method x = M_Options})"
proof (induction rs arbitrary: generated routes)
  case (Cons r rs)
  let ?shape = "route_shape_key (rd_path r)"
  show ?case
  proof (cases "rd_method r = M_Options \<or> ?shape \<in> set existing \<or> ?shape \<in> set generated")
    case True
    with Cons.prems have "cors_preflight_loop preflight p existing generated rs routes = Inr routes'"
      by (auto simp: Let_def split: if_splits)
    from Cons.IH [OF this] True show ?thesis by auto
  next
    case False
    with Cons.prems obtain x where x: "route_new M_Options (rd_path r) preflight = Inr x"
      and rest: "cors_preflight_loop preflight p existing (bs_insert ?shape generated) rs
          (routes @ [with_pipeline_prefix p x]) = Inr routes'"
      by (auto simp: Let_def result_simps)
    from x have "rd_method (with_pipeline_prefix p x) = M_Options" "rd_path (with_pipeline_prefix p x) = rd_path r"
      by (auto simp: route_new_def result_simps with_pipeline_prefix_def Let_def)
    then have sub: "set routes \<subseteq> set routes'"
      and shape: "?shape \<in> {route_shape_key (rd_path x) | x. x \<in> set routes' \<and> rd_method x = M_Options}"
      using Cons.IH [OF rest] by (auto, metis)
    have others: "route_shape_key (rd_path q) \<in> set existing \<union> insert ?shape (set generated)
        \<union> {route_shape_key (rd_path x) | x. x \<in> set routes' \<and> rd_method x = M_Options}"
      if "q \<in> set rs" "rd_method q \<noteq> M_Options" for q
      using Cons.IH [OF rest] that by simp
    show ?thesis
    proof (intro conjI ballI impI)
      fix q assume "q \<in> set (r # rs)" "rd_method q \<noteq> M_Options"
      then show "route_shape_key (rd_path q) \<in> set existing \<union> set generated
          \<union> {route_shape_key (rd_path x) | x. x \<in> set routes' \<and> rd_method x = M_Options}"
        using shape others [of q] by (cases "q = r") auto
    qed (rule sub)
  qed
qed simp

text \<open>
  \<open>use_global_cors\<close> leaves no path without a preflight answer: afterwards every route
  has an OPTIONS route with the shape of its path, and the routes that were there remain.
\<close>

theorem cors_preflight_covers:
  assumes "add_cors_preflight_routes preflight p routes = Inr routes'"
  shows "set routes \<subseteq> set routes'
     \<and> (\<forall>r \<in> set routes. \<exists>x \<in> set routes'. rd_method x = M_Options
          \<and> route_shape_key (rd_path x) = route_shape_key (rd_path r))"
proof -
  from cors_loop_covers [OF assms [unfolded add_cors_preflight_routes_def]]
  have sub: "set routes \<subseteq> set routes'"
    and cov: "\<And>r. r \<in> set routes \<Longrightarrow> rd_method r \<noteq> M_Options \<Longrightarrow>
      route_shape_key (rd_path r) \<in> {route_shape_key (rd_path x) | x. x \<in> set routes \<and> rd_method x = M_Options}
        \<union> {route_shape_key (rd_path x) | x. x \<in> set routes' \<and> rd_method x = M_Options}"
    by (auto simp: image_iff)
  have "\<exists>x \<in> set routes'. rd_method x = M_Options \<and> route_shape_key (rd_path x) = route_shape_key (rd_path r)"
    if r: "r \<in> set routes" for r
  proof (cases "rd_method r = M_Options")
    case True
    with r sub show ?thesis by auto
  next
    case False
    from cov [OF r this] sub show ?thesis by (auto simp: subset_iff)
  qed
  with sub show ?thesis by blast
qed

theorem cors_preflight_covers_witness:
  "\<exists>routes'. add_cors_preflight_routes (\<lambda>_ w. (Inr (response_empty 204), w))
       \<lparr>pl_middleware = [], pl_pipes = [], pl_guards = [], pl_interceptors = [], pl_filters = [],
        pl_validation_enabled = False, pl_validation_options = validation_options_default\<rparr>
       [sample_app_route ''/files'' 201] = Inr routes'
     \<and> (\<exists>x \<in> set routes'. rd_method x = M_Options \<and> route_shape_key (rd_path x) = ''/files'')"
proof -
  let ?pre = "\<lambda>_ w. (Inr (response_empty 204), w)"
  let ?p = "\<lparr>pl_middleware = [], pl_pipes = [], pl_guards = [], pl_interceptors = [], pl_filters = [],
      pl_validation_enabled = False, pl_validation_options = validation_options_default\<rparr>"
  have v: "validate_route_path ''/files'' = Inr ()" and k: "route_shape_key ''/files'' = ''/files''"
    by code_simp+
  obtain routes' where r: "add_cors_preflight_routes ?pre ?p [sample_app_route ''/files'' 201] = Inr routes'"
    by (simp add: add_cors_preflight_routes_def Let_def route_new_def v)
  from cors_preflight_covers [OF r] r k show ?thesis by fastforce
qed

text \<open>
  The generated preflight route has no host pattern. For a route that is bound to a host the
  more specific route wins the preflight request too, and answers 405.
\<close>

lemma preflight_host_bound:
  assumes r: "rd_host r = Some h" "match_host_shape h hst" "match_path_shape (rd_path r) path"
    and x: "rd_host x = None" "rd_path x = rd_path r" and spec: "[0] < host_specificity (Some h)"
  shows "route_matches_path_version_and_host r \<lparr>cand_path = path, cand_version = None\<rparr> None (Some hst)
     \<and> request_specificity x < request_specificity r"
proof
  show "route_matches_path_version_and_host r \<lparr>cand_path = path, cand_version = None\<rparr> None (Some hst)"
    using r by (simp add: route_matches_path_version_and_host_def route_matches_path_and_version_def
        matches_path_def matches_host_def)
  have "us @ [0] < us @ vs" if "[0] < vs" for us vs :: "nat list"
    using that by (induction us) simp_all
  from this [OF spec, of "path_specificity r @ [2]"] show "request_specificity x < request_specificity r"
    using r(1) x by (simp add: request_specificity_def path_specificity_def host_specificity_def)
qed

lemma preflight_host_bound_example: "[0] < host_specificity (Some ''api.example.com'')"
  by code_simp

end
