(* ===== verification/Provider_Cache.thy ===== *)
theory Provider_Cache
  imports Errors
begin

text \<open>
  The provider cache (\<open>provider/cache.rs\<close>): slots that are vacant, being built by a thread,
  or ready; the global graph of threads that wait for a build; and the calls of the cache
  as steps of a concurrent system. A step is what the code does inside one critical
  section of a slot's mutex, which is where the cache reads and writes a slot; the graph's
  own mutex is only taken inside it (and, for the drop of a registration, right after it).
  The closure that builds a value is arbitrary code: it may call the cache again, and it
  ends with any result. Poisoned locks are not modelled, and build ids are natural
  numbers: the code's counter would wrap after \<open>2^64\<close> builds.
\<close>

section \<open>Data\<close>

type_synonym thread_id = nat

text \<open>Keys have the order that the code derives, field by field.\<close>

datatype provider_instance_key = ProviderKey nat | TransientKey nat nat

instantiation provider_instance_key :: linorder
begin

fun less_eq_provider_instance_key :: "provider_instance_key \<Rightarrow> provider_instance_key \<Rightarrow> bool" where
  "less_eq_provider_instance_key (ProviderKey a) (ProviderKey b) = (a \<le> b)"
| "less_eq_provider_instance_key (ProviderKey a) (TransientKey p q) = True"
| "less_eq_provider_instance_key (TransientKey p q) (ProviderKey b) = False"
| "less_eq_provider_instance_key (TransientKey p q) (TransientKey r s) = (p < r \<or> p = r \<and> q \<le> s)"

definition less_provider_instance_key :: "provider_instance_key \<Rightarrow> provider_instance_key \<Rightarrow> bool" where
  "less_provider_instance_key x y \<longleftrightarrow> x \<le> y \<and> \<not> y \<le> x"

instance
proof
  fix x y z :: provider_instance_key
  show "x \<le> x" by (cases x) auto
  show "x \<le> y \<Longrightarrow> y \<le> z \<Longrightarrow> x \<le> z" by (cases x; cases y; cases z) auto
  show "x \<le> y \<Longrightarrow> y \<le> x \<Longrightarrow> x = y" by (cases x; cases y) auto
  show "x \<le> y \<or> y \<le> x" by (cases x; cases y) auto
  show "(x < y) = (x \<le> y \<and> \<not> y \<le> x)" by (simp add: less_provider_instance_key_def)
qed

end

record provider_build =
  pb_id :: nat
  pb_builder :: thread_id

datatype 'v slot_state = Vacant | Building provider_build | Ready 'v

record provider_wait_edge =
  we_builder :: thread_id
  we_build_id :: nat

type_synonym wait_graph = "(thread_id, provider_wait_edge) btree"

section \<open>The wait graph\<close>

text \<open>The walk along the edges; \<open>None\<close> is the error of a cycle, otherwise its last thread.\<close>

function wait_walk :: "wait_graph \<Rightarrow> thread_id \<Rightarrow> thread_id \<Rightarrow> thread_id list \<Rightarrow> thread_id option" where
  "wait_walk g waiter cursor visited =
     (case bt_get g cursor of
        None \<Rightarrow> Some cursor
      | Some edge \<Rightarrow>
          (let nxt = we_builder edge in
           if nxt = waiter \<or> cursor \<in> set visited then None
           else wait_walk g waiter nxt (cursor # visited)))"
  by pat_completeness auto
termination
proof (relation "measure (\<lambda>(g, _, _, visited). card (fst ` set g - set visited))", goal_cases)
  case (2 g waiter cursor visited edge nxt)
  then have "cursor \<in> fst ` set g - set visited"
    using bt_get_None_iff [of g cursor] by simp
  then have "fst ` set g - set (cursor # visited) \<subset> fst ` set g - set visited"
    by auto
  then have "card (fst ` set g - set (cursor # visited)) < card (fst ` set g - set visited)"
    by (rule psubset_card_mono [rotated]) simp
  then show ?case
    by (simp only: in_measure split_conv)
qed (rule wf_measure)

declare wait_walk.simps [simp del]

definition cyclic_wait_error :: boot_error where
  "cyclic_wait_error = Internal ''cyclic concurrent provider dependency detected''"

text \<open>\<open>ProviderWaitRegistration::new\<close>, by the thread \<open>waiter\<close>.\<close>

definition register_wait :: "wait_graph \<Rightarrow> thread_id \<Rightarrow> provider_build \<Rightarrow> boot_error + wait_graph" where
  "register_wait g waiter b =
     (case wait_walk g waiter (pb_builder b) [] of
        None \<Rightarrow> Inl cyclic_wait_error
      | Some cursor \<Rightarrow>
          if cursor = waiter then Inl cyclic_wait_error
          else if bt_get g waiter \<noteq> None
               then Inl (Internal ''provider resolver thread is already waiting'')
          else Inr (bt_insert waiter \<lparr>we_builder = pb_builder b, we_build_id = pb_id b\<rparr> g))"

text \<open>The drop of a registration, and the end of a build.\<close>

definition drop_wait :: "wait_graph \<Rightarrow> thread_id \<Rightarrow> nat \<Rightarrow> wait_graph" where
  "drop_wait g waiter build_id =
     (case bt_get g waiter of
        Some edge \<Rightarrow> if we_build_id edge = build_id then bt_remove waiter g else g
      | None \<Rightarrow> g)"

definition clear_provider_waits :: "nat \<Rightarrow> wait_graph \<Rightarrow> wait_graph" where
  "clear_provider_waits build_id g = filter (\<lambda>(_, edge). we_build_id edge \<noteq> build_id) g"

definition finish_provider_build ::
  "'v slot_state \<Rightarrow> wait_graph \<Rightarrow> provider_build \<Rightarrow> 'v slot_state \<Rightarrow> bool \<times> 'v slot_state \<times> wait_graph" where
  "finish_provider_build st g b finished =
     (case st of
        Building active \<Rightarrow>
          if pb_id active = pb_id b then (True, finished, clear_provider_waits (pb_id b) g)
          else (False, st, g)
      | _ \<Rightarrow> (False, st, g))"

section \<open>Threads and the caches they share\<close>

text \<open>
  A thread runs, waits on the condition variable of a slot for a build (with the flag
  \<open>notified\<close> that \<open>notify_all\<close> sets), or has woken up and is about to look at the slot
  again. \<open>th_builds\<close> are its active calls of a building closure, the innermost first.
\<close>

datatype thread_status =
    Running
  | Waiting nat provider_instance_key nat bool
  | Retrying nat provider_instance_key

record thread_state =
  th_status :: thread_status
  th_builds :: "(nat \<times> provider_instance_key \<times> provider_build) list"

record 'v cache_world =
  cw_slots :: "nat \<Rightarrow> (provider_instance_key, 'v slot_state) btree"
  cw_graph :: wait_graph
  cw_next_build :: nat
  cw_threads :: "thread_id \<Rightarrow> thread_state"

definition new_provider_world :: "'v cache_world" where
  "new_provider_world =
     \<lparr>cw_slots = (\<lambda>_. []), cw_graph = [], cw_next_build = 1,
      cw_threads = (\<lambda>_. \<lparr>th_status = Running, th_builds = []\<rparr>)\<rparr>"

text \<open>\<open>ProviderCache::slot\<close>: a slot that is not there yet is created vacant.\<close>

definition cache_slot :: "'v cache_world \<Rightarrow> nat \<Rightarrow> provider_instance_key \<Rightarrow> 'v slot_state" where
  "cache_slot w c k = (case bt_get (cw_slots w c) k of Some st \<Rightarrow> st | None \<Rightarrow> Vacant)"

definition set_slot ::
  "nat \<Rightarrow> provider_instance_key \<Rightarrow> 'v slot_state \<Rightarrow> 'v cache_world \<Rightarrow> 'v cache_world" where
  "set_slot c k st w = w\<lparr>cw_slots := (cw_slots w)(c := bt_insert k st (cw_slots w c))\<rparr>"

definition set_status :: "thread_id \<Rightarrow> thread_status \<Rightarrow> 'v cache_world \<Rightarrow> 'v cache_world" where
  "set_status t s w = w\<lparr>cw_threads := (cw_threads w)(t := (cw_threads w t)\<lparr>th_status := s\<rparr>)\<rparr>"

definition set_builds ::
  "thread_id \<Rightarrow> (nat \<times> provider_instance_key \<times> provider_build) list \<Rightarrow> 'v cache_world \<Rightarrow> 'v cache_world" where
  "set_builds t bs w = w\<lparr>cw_threads := (cw_threads w)(t := (cw_threads w t)\<lparr>th_builds := bs\<rparr>)\<rparr>"

definition notified_status :: "nat \<Rightarrow> provider_instance_key \<Rightarrow> thread_status \<Rightarrow> thread_status" where
  "notified_status c k s =
     (case s of Waiting c' k' i n \<Rightarrow> Waiting c' k' i (n \<or> c' = c \<and> k' = k) | _ \<Rightarrow> s)"

definition notify_all :: "nat \<Rightarrow> provider_instance_key \<Rightarrow> 'v cache_world \<Rightarrow> 'v cache_world" where
  "notify_all c k w =
     w\<lparr>cw_threads := (\<lambda>t. (cw_threads w t)\<lparr>th_status := notified_status c k (th_status (cw_threads w t))\<rparr>)\<rparr>"

section \<open>The operations\<close>

definition provider_cache_get :: "'v cache_world \<Rightarrow> nat \<Rightarrow> provider_instance_key \<Rightarrow> 'v option" where
  "provider_cache_get w c k = (case cache_slot w c k of Ready v \<Rightarrow> Some v | _ \<Rightarrow> None)"

definition provider_cache_contains :: "'v cache_world \<Rightarrow> nat \<Rightarrow> provider_instance_key \<Rightarrow> bool" where
  "provider_cache_contains w c k \<longleftrightarrow> provider_cache_get w c k \<noteq> None"

definition provider_cache_insert ::
  "nat \<Rightarrow> provider_instance_key \<Rightarrow> 'v \<Rightarrow> 'v cache_world \<Rightarrow> 'v cache_world" where
  "provider_cache_insert c k v w =
     (let active = (case cache_slot w c k of Building b \<Rightarrow> Some (pb_id b) | _ \<Rightarrow> None);
          w1 = set_slot c k (Ready v) w;
          w2 = (case active of Some i \<Rightarrow> w1\<lparr>cw_graph := clear_provider_waits i (cw_graph w1)\<rparr>
                             | None \<Rightarrow> w1)
      in notify_all c k w2)"

text \<open>
  One round of the loop of \<open>get_or_try_insert_with\<close>. The first component is what the call
  returns, if it returns in this round: otherwise the thread has started a build (and
  runs the closure) or waits.
\<close>

definition lookup_round ::
  "thread_id \<Rightarrow> nat \<Rightarrow> provider_instance_key \<Rightarrow> 'v cache_world \<Rightarrow> (boot_error + 'v) option \<times> 'v cache_world" where
  "lookup_round t c k w =
     (case cache_slot w c k of
        Ready v \<Rightarrow> (Some (Inr v), set_status t Running w)
      | Building b \<Rightarrow>
          (case register_wait (cw_graph w) t b of
             Inl e \<Rightarrow> (Some (Inl e), set_status t Running w)
           | Inr g \<Rightarrow> (None, set_status t (Waiting c k (pb_id b) False) (w\<lparr>cw_graph := g\<rparr>)))
      | Vacant \<Rightarrow>
          (let b = \<lparr>pb_id = cw_next_build w, pb_builder = t\<rparr>;
               w1 = set_slot c k (Building b) (w\<lparr>cw_next_build := Suc (cw_next_build w)\<rparr>)
           in (None, set_builds t ((c, k, b) # th_builds (cw_threads w t)) (set_status t Running w1))))"

text \<open>The end of the wait: the registration is dropped and the loop goes round.\<close>

definition wake_up :: "thread_id \<Rightarrow> nat \<Rightarrow> provider_instance_key \<Rightarrow> nat \<Rightarrow> 'v cache_world \<Rightarrow> 'v cache_world" where
  "wake_up t c k i w = set_status t (Retrying c k) (w\<lparr>cw_graph := drop_wait (cw_graph w) t i\<rparr>)"

text \<open>
  The closure of the innermost build has ended with \<open>r\<close> (a panic ends like an error: the
  reset guard empties the slot). When the build is no longer the active one of its slot
  the call fails, and the reset guard, still armed, finds nothing to reset.
\<close>

definition finish_round ::
  "thread_id \<Rightarrow> boot_error + 'v \<Rightarrow> nat \<Rightarrow> provider_instance_key \<Rightarrow> provider_build
     \<Rightarrow> 'v cache_world \<Rightarrow> (boot_error + 'v) option \<times> 'v cache_world" where
  "finish_round t r c k b w =
     (let (done1, st, g) = finish_provider_build (cache_slot w c k) (cw_graph w) b
                            (case r of Inr v \<Rightarrow> Ready v | Inl _ \<Rightarrow> Vacant);
          w1 = set_builds t (tl (th_builds (cw_threads w t))) w
      in if done1 then (Some r, notify_all c k (set_slot c k st (w1\<lparr>cw_graph := g\<rparr>)))
         else (Some (Inl (Internal ''provider cache build state changed unexpectedly'')), w1))"

section \<open>The system\<close>

text \<open>
  What a thread may do next: call \<open>get_or_try_insert_with\<close> or \<open>insert\<close> while it runs, end
  its innermost build, wake up (also spuriously), and go round the loop again.
\<close>

datatype 'v cache_action =
    Call thread_id nat provider_instance_key
  | Insert thread_id nat provider_instance_key 'v
  | Finish thread_id "boot_error + 'v"
  | Wake thread_id
  | Retry thread_id

fun cache_apply ::
  "'v cache_action \<Rightarrow> 'v cache_world \<Rightarrow> ((boot_error + 'v) option \<times> 'v cache_world) option" where
  "cache_apply (Call t c k) w =
     (if th_status (cw_threads w t) = Running then Some (lookup_round t c k w) else None)"
| "cache_apply (Insert t c k v) w =
     (if th_status (cw_threads w t) = Running then Some (None, provider_cache_insert c k v w) else None)"
| "cache_apply (Finish t r) w =
     (case (th_status (cw_threads w t), th_builds (cw_threads w t)) of
        (Running, (c, k, b) # _) \<Rightarrow> Some (finish_round t r c k b w)
      | _ \<Rightarrow> None)"
| "cache_apply (Wake t) w =
     (case th_status (cw_threads w t) of
        Waiting c k i _ \<Rightarrow> Some (None, wake_up t c k i w)
      | _ \<Rightarrow> None)"
| "cache_apply (Retry t) w =
     (case th_status (cw_threads w t) of
        Retrying c k \<Rightarrow> Some (lookup_round t c k w)
      | _ \<Rightarrow> None)"

text \<open>
  A step is labelled with its action, the slot that the action concerns and the result
  that it returns to the caller, if any.
\<close>

fun action_slot :: "'v cache_action \<Rightarrow> 'v cache_world \<Rightarrow> (nat \<times> provider_instance_key) option" where
  "action_slot (Call t c k) w = Some (c, k)"
| "action_slot (Insert t c k v) w = Some (c, k)"
| "action_slot (Finish t r) w =
     (case th_builds (cw_threads w t) of (c, k, _) # _ \<Rightarrow> Some (c, k) | [] \<Rightarrow> None)"
| "action_slot (Wake t) w = None"
| "action_slot (Retry t) w =
     (case th_status (cw_threads w t) of Retrying c k \<Rightarrow> Some (c, k) | _ \<Rightarrow> None)"

inductive cache_step ::
  "'v cache_world \<Rightarrow> 'v cache_action \<Rightarrow> (boot_error + 'v) option \<Rightarrow> 'v cache_world \<Rightarrow> bool" where
  "cache_apply a w = Some (r, w') \<Longrightarrow> cache_step w a r w'"

inductive_simps cache_step_iff: "cache_step w a r w'"

inductive cache_reachable :: "'v cache_world \<Rightarrow> bool" where
  start: "cache_reachable new_provider_world"
| step: "cache_reachable w \<Longrightarrow> cache_step w a r w' \<Longrightarrow> cache_reachable w'"

fun cache_run :: "'v cache_action list \<Rightarrow> 'v cache_world \<Rightarrow> 'v cache_world option" where
  "cache_run [] w = Some w"
| "cache_run (a # as) w =
     (case cache_apply a w of None \<Rightarrow> None | Some (_, w') \<Rightarrow> cache_run as w')"

lemma cache_run_reachable: "cache_run as w = Some w' \<Longrightarrow> cache_reachable w \<Longrightarrow> cache_reachable w'"
proof (induction as arbitrary: w)
  case (Cons a as)
  then obtain r w1 where "cache_apply a w = Some (r, w1)" "cache_run as w1 = Some w'"
    by (auto split: option.splits)
  with Cons show ?case by (meson cache_reachable.step cache_step.intros)
qed simp

lemma cache_run_the:
  "\<not> Option.is_none (cache_run as new_provider_world) \<Longrightarrow> cache_reachable (the (cache_run as new_provider_world))"
  by (auto simp del: cache_run.simps simp: Option.is_none_def intro: cache_run_reachable cache_reachable.start)

section \<open>The walk finds exactly the cycles\<close>

definition wait_edges :: "wait_graph \<Rightarrow> (thread_id \<times> thread_id) set" where
  "wait_edges g = {(t, we_builder e) | t e. bt_get g t = Some e}"

lemma wait_edgesI: "bt_get g t = Some e \<Longrightarrow> (t, we_builder e) \<in> wait_edges g"
  by (auto simp: wait_edges_def)

lemma wait_edges_out: "(t, u) \<in> wait_edges g \<Longrightarrow> \<exists>e. bt_get g t = Some e \<and> u = we_builder e"
  by (auto simp: wait_edges_def)

lemma no_edge_no_trancl: "bt_get g t = None \<Longrightarrow> (t, u) \<notin> (wait_edges g)\<^sup>+"
  by (auto dest!: tranclD wait_edges_out)

lemma finite_wait_edges: "finite (wait_edges g)"
proof -
  have "wait_edges g \<subseteq> (\<lambda>(t, e). (t, we_builder e)) ` set g"
    by (auto simp: wait_edges_def image_iff dest!: bt_get_Some_in intro!: bexI)
  then show ?thesis by (rule finite_subset) simp
qed

lemma wait_walk_Some:
  "wait_walk g waiter c visited = Some u \<Longrightarrow>
     (c, u) \<in> (wait_edges g)\<^sup>* \<and> bt_get g u = None \<and> (c, waiter) \<notin> (wait_edges g)\<^sup>+"
proof (induction g waiter c visited rule: wait_walk.induct)
  case (1 g waiter c visited)
  show ?case
  proof (cases "bt_get g c")
    case None
    with 1 show ?thesis by (auto simp: wait_walk.simps [of g waiter c] no_edge_no_trancl)
  next
    case (Some e)
    with "1.prems" have ne: "\<not> (we_builder e = waiter \<or> c \<in> set visited)"
      and w: "wait_walk g waiter (we_builder e) (c # visited) = Some u"
      by (auto simp: wait_walk.simps [of g waiter c] Let_def split: if_splits)
    note ih = "1.IH" [OF Some refl ne w] and edge = wait_edgesI [OF Some]
    have "(c, waiter) \<notin> (wait_edges g)\<^sup>+"
    proof
      assume "(c, waiter) \<in> (wait_edges g)\<^sup>+"
      then obtain x where x: "(c, x) \<in> wait_edges g" "(x, waiter) \<in> (wait_edges g)\<^sup>*"
        by (auto dest: tranclD)
      then have "x = we_builder e" using Some by (auto dest: wait_edges_out)
      with x(2) ne ih show False by (auto dest: rtranclD)
    qed
    with ih edge show ?thesis by (auto intro: converse_rtrancl_into_rtrancl)
  qed
qed

lemma wait_walk_None:
  "wait_walk g waiter c visited = None \<Longrightarrow> acyclic (wait_edges g) \<Longrightarrow>
     (\<And>v. v \<in> set visited \<Longrightarrow> (v, c) \<in> (wait_edges g)\<^sup>+) \<Longrightarrow> (c, waiter) \<in> (wait_edges g)\<^sup>+"
proof (induction g waiter c visited rule: wait_walk.induct)
  case (1 g waiter c visited)
  then obtain e where e: "bt_get g c = Some e"
    by (auto simp: wait_walk.simps [of g waiter c] split: option.splits)
  note edge = wait_edgesI [OF e]
  have fresh: "c \<notin> set visited"
    using "1.prems"(2,3) by (auto simp: acyclic_def)
  show ?case
  proof (cases "we_builder e = waiter")
    case True
    with edge show ?thesis by auto
  next
    case False
    with fresh have ne: "\<not> (we_builder e = waiter \<or> c \<in> set visited)" by simp
    have "wait_walk g waiter (we_builder e) (c # visited) = None"
      using "1.prems"(1) e ne by (simp add: wait_walk.simps [of g waiter c])
    moreover have "(v, we_builder e) \<in> (wait_edges g)\<^sup>+" if "v \<in> set (c # visited)" for v
      using that "1.prems"(3) edge by (auto intro: trancl_into_trancl)
    ultimately have "(we_builder e, waiter) \<in> (wait_edges g)\<^sup>+"
      using "1.IH" [OF e refl ne] "1.prems"(2) by blast
    with edge show ?thesis by (rule trancl_into_trancl2)
  qed
qed

text \<open>A registration fails exactly if the new edge would close a cycle.\<close>

lemma register_wait_eq:
  assumes "acyclic (wait_edges g)" "bt_get g waiter = None"
  shows "register_wait g waiter b =
           (if (pb_builder b, waiter) \<in> (wait_edges g)\<^sup>* then Inl cyclic_wait_error
            else Inr (bt_insert waiter \<lparr>we_builder = pb_builder b, we_build_id = pb_id b\<rparr> g))"
proof (cases "wait_walk g waiter (pb_builder b) []")
  case None
  then have "(pb_builder b, waiter) \<in> (wait_edges g)\<^sup>+"
    using wait_walk_None assms(1) by fastforce
  with None show ?thesis by (simp add: register_wait_def trancl_into_rtrancl)
next
  case (Some u)
  note w = wait_walk_Some [OF Some]
  have "u = waiter \<longleftrightarrow> (pb_builder b, waiter) \<in> (wait_edges g)\<^sup>*"
  proof
    assume "(pb_builder b, waiter) \<in> (wait_edges g)\<^sup>*"
    with w have "pb_builder b = waiter" by (auto dest: rtranclD)
    with w assms(2) show "u = waiter" by (auto dest: rtranclD simp: no_edge_no_trancl)
  qed (use w in auto)
  with Some assms(2) show ?thesis by (auto simp: register_wait_def)
qed

lemma wait_edges_insert:
  "bt_get g t = None \<Longrightarrow> wait_edges (bt_insert t e g) = insert (t, we_builder e) (wait_edges g)"
  by (auto simp: wait_edges_def split: if_splits)

lemma bt_get_clear:
  assumes "bt_wf g"
  shows "bt_get (clear_provider_waits i g) t = opt_filter (\<lambda>e. we_build_id e \<noteq> i) (bt_get g t)"
proof -
  have "distinct (map fst g) \<Longrightarrow> ?thesis"
    by (induction g)
      (auto simp: clear_provider_waits_def bt_get_def map_of_eq_None_iff image_iff
            intro!: map_of_eq_None_iff [THEN iffD2])
  with assms show ?thesis by (simp add: bt_wf_distinct)
qed

lemma bt_wf_clear [simp]: "bt_wf g \<Longrightarrow> bt_wf (clear_provider_waits i g)"
  by (auto simp: bt_wf_def clear_provider_waits_def sorted_wrt_map sorted_wrt_filter)

lemma wait_edges_clear: "bt_wf g \<Longrightarrow> wait_edges (clear_provider_waits i g) \<subseteq> wait_edges g"
  by (auto simp: wait_edges_def bt_get_clear opt_filter_Some_iff)

lemma bt_get_drop:
  "bt_get (drop_wait g t i) u =
     (if u = t then opt_filter (\<lambda>e. we_build_id e \<noteq> i) (bt_get g u) else bt_get g u)"
  by (auto simp: drop_wait_def split: option.splits)

lemma bt_wf_drop [simp]: "bt_wf g \<Longrightarrow> bt_wf (drop_wait g t i)"
  by (auto simp: drop_wait_def split: option.splits)

lemma wait_edges_drop: "wait_edges (drop_wait g t i) \<subseteq> wait_edges g"
  by (auto simp: wait_edges_def bt_get_drop opt_filter_Some_iff split: if_splits)

section \<open>The invariant\<close>

named_theorems world_simps "projections of the updates of a world"

lemma cache_slot_simps [world_simps]:
  "cache_slot (set_slot c k st w) c' k' = (if c' = c \<and> k' = k then st else cache_slot w c' k')"
  "cache_slot (set_status t s w) = cache_slot w"
  "cache_slot (set_builds t bs w) = cache_slot w"
  "cache_slot (notify_all c k w) = cache_slot w"
  "cache_slot (w\<lparr>cw_graph := g\<rparr>) = cache_slot w"
  "cache_slot (w\<lparr>cw_next_build := n\<rparr>) = cache_slot w"
  by (auto simp: cache_slot_def set_slot_def set_status_def set_builds_def notify_all_def fun_eq_iff)

lemma cw_graph_simps [world_simps]:
  "cw_graph (set_slot c k st w) = cw_graph w"
  "cw_graph (set_status t s w) = cw_graph w"
  "cw_graph (set_builds t bs w) = cw_graph w"
  "cw_graph (notify_all c k w) = cw_graph w"
  by (simp_all add: set_slot_def set_status_def set_builds_def notify_all_def)

lemma cw_next_simps [world_simps]:
  "cw_next_build (set_slot c k st w) = cw_next_build w"
  "cw_next_build (set_status t s w) = cw_next_build w"
  "cw_next_build (set_builds t bs w) = cw_next_build w"
  "cw_next_build (notify_all c k w) = cw_next_build w"
  by (simp_all add: set_slot_def set_status_def set_builds_def notify_all_def)

lemma th_status_simps [world_simps]:
  "th_status (cw_threads (set_slot c k st w) u) = th_status (cw_threads w u)"
  "th_status (cw_threads (set_status t s w) u) = (if u = t then s else th_status (cw_threads w u))"
  "th_status (cw_threads (set_builds t bs w) u) = th_status (cw_threads w u)"
  "th_status (cw_threads (notify_all c k w) u) = notified_status c k (th_status (cw_threads w u))"
  by (simp_all add: set_slot_def set_status_def set_builds_def notify_all_def)

lemma th_builds_simps [world_simps]:
  "th_builds (cw_threads (set_slot c k st w) u) = th_builds (cw_threads w u)"
  "th_builds (cw_threads (set_status t s w) u) = th_builds (cw_threads w u)"
  "th_builds (cw_threads (set_builds t bs w) u) = (if u = t then bs else th_builds (cw_threads w u))"
  "th_builds (cw_threads (notify_all c k w) u) = th_builds (cw_threads w u)"
  by (simp_all add: set_slot_def set_status_def set_builds_def notify_all_def)

lemma notified_Waiting_False [simp]:
  "notified_status c k s = Waiting c' k' i False \<longleftrightarrow> s = Waiting c' k' i False \<and> \<not> (c' = c \<and> k' = k)"
  by (cases s) (auto simp: notified_status_def)

text \<open>
  Active builds have ids below the counter and a call of their builder, and no two slots
  share an id; the edges of the graph are the waits that are not notified yet, each for
  the active build of its slot; and the graph has no cycle.
\<close>

definition builds_ok :: "'v cache_world \<Rightarrow> bool" where
  "builds_ok w \<longleftrightarrow>
     (\<forall>c k b. cache_slot w c k = Building b \<longrightarrow>
        pb_id b < cw_next_build w \<and> (c, k, b) \<in> set (th_builds (cw_threads w (pb_builder b)))) \<and>
     (\<forall>c k b c' k' b'. cache_slot w c k = Building b \<longrightarrow> cache_slot w c' k' = Building b' \<longrightarrow>
        pb_id b = pb_id b' \<longrightarrow> c = c' \<and> k = k')"

definition waits_ok :: "'v cache_world \<Rightarrow> bool" where
  "waits_ok w \<longleftrightarrow>
     (\<forall>t e. bt_get (cw_graph w) t = Some e \<longrightarrow>
        (\<exists>c k b. cache_slot w c k = Building b \<and> we_builder e = pb_builder b \<and> we_build_id e = pb_id b \<and>
           th_status (cw_threads w t) = Waiting c k (pb_id b) False)) \<and>
     (\<forall>t c k i. th_status (cw_threads w t) = Waiting c k i False \<longrightarrow>
        (\<exists>e. bt_get (cw_graph w) t = Some e))"

definition cache_inv :: "'v cache_world \<Rightarrow> bool" where
  "cache_inv w \<longleftrightarrow> builds_ok w \<and> waits_ok w \<and> bt_wf (cw_graph w) \<and> acyclic (wait_edges (cw_graph w))"

lemma builds_okD:
  "builds_ok w \<Longrightarrow> cache_slot w c k = Building b \<Longrightarrow>
     pb_id b < cw_next_build w \<and> (c, k, b) \<in> set (th_builds (cw_threads w (pb_builder b)))"
  unfolding builds_ok_def by blast

lemma builds_ok_unique:
  "builds_ok w \<Longrightarrow> cache_slot w c k = Building b \<Longrightarrow> cache_slot w c' k' = Building b' \<Longrightarrow>
     pb_id b = pb_id b' \<Longrightarrow> c = c' \<and> k = k'"
  unfolding builds_ok_def by metis

lemma waits_okD:
  "waits_ok w \<Longrightarrow> bt_get (cw_graph w) t = Some e \<Longrightarrow>
     \<exists>c k b. cache_slot w c k = Building b \<and> we_builder e = pb_builder b \<and> we_build_id e = pb_id b \<and>
       th_status (cw_threads w t) = Waiting c k (pb_id b) False"
  unfolding waits_ok_def by blast

lemma waits_ok_edge:
  "waits_ok w \<Longrightarrow> th_status (cw_threads w t) = Waiting c k i False \<Longrightarrow> \<exists>e. bt_get (cw_graph w) t = Some e"
  unfolding waits_ok_def by blast

lemma not_waiting_no_edge:
  "waits_ok w \<Longrightarrow> \<forall>c k i. th_status (cw_threads w t) \<noteq> Waiting c k i False \<Longrightarrow> bt_get (cw_graph w) t = None"
  by (cases "bt_get (cw_graph w) t") (auto dest: waits_okD)

text \<open>
  Leaving the active build \<open>i\<close> of a slot, by a finished build or an insertion: the slot
  gets another state, the waits of the build are cleared and its waiters are notified.
\<close>

definition settle :: "nat \<Rightarrow> provider_instance_key \<Rightarrow> nat \<Rightarrow> 'v slot_state \<Rightarrow> 'v cache_world \<Rightarrow> 'v cache_world" where
  "settle c k i st w =
     notify_all c k (set_slot c k st (w\<lparr>cw_graph := clear_provider_waits i (cw_graph w)\<rparr>))"

lemma settle_proj [world_simps]:
  "cache_slot (settle c k i st w) c' k' = (if c' = c \<and> k' = k then st else cache_slot w c' k')"
  "cw_graph (settle c k i st w) = clear_provider_waits i (cw_graph w)"
  "cw_next_build (settle c k i st w) = cw_next_build w"
  "th_status (cw_threads (settle c k i st w) u) = notified_status c k (th_status (cw_threads w u))"
  "th_builds (cw_threads (settle c k i st w) u) = th_builds (cw_threads w u)"
  by (simp_all add: settle_def world_simps cong: if_cong)

lemma settle_waits:
  assumes inv: "cache_inv w" and act: "cache_slot w c k = Building b"
  shows "waits_ok (settle c k (pb_id b) st w)"
proof -
  from inv have b: "builds_ok w" and wt: "waits_ok w" and wf: "bt_wf (cw_graph w)"
    by (simp_all add: cache_inv_def)
  let ?w = "settle c k (pb_id b) st w"
  show ?thesis
    unfolding waits_ok_def
  proof (intro conjI allI impI)
    fix t e assume "bt_get (cw_graph ?w) t = Some e"
    then have e: "bt_get (cw_graph w) t = Some e" and ne: "we_build_id e \<noteq> pb_id b"
      by (simp_all add: world_simps bt_get_clear [OF wf] opt_filter_Some_iff)
    from waits_okD [OF wt e] obtain c' k' b' where
      *: "cache_slot w c' k' = Building b'" "we_builder e = pb_builder b'" "we_build_id e = pb_id b'"
         "th_status (cw_threads w t) = Waiting c' k' (pb_id b') False" by blast
    with ne act have "\<not> (c' = c \<and> k' = k)" by auto
    with * show "\<exists>c' k' b'. cache_slot ?w c' k' = Building b' \<and> we_builder e = pb_builder b' \<and>
        we_build_id e = pb_id b' \<and> th_status (cw_threads ?w t) = Waiting c' k' (pb_id b') False"
      by (intro exI [of _ c'] exI [of _ k'] exI [of _ b']) (auto simp: world_simps)
  next
    fix t c' k' i assume "th_status (cw_threads ?w t) = Waiting c' k' i False"
    then have s: "th_status (cw_threads w t) = Waiting c' k' i False" and ne: "\<not> (c' = c \<and> k' = k)"
      by (simp_all add: world_simps)
    from waits_ok_edge [OF wt s] obtain e where e: "bt_get (cw_graph w) t = Some e" ..
    from waits_okD [OF wt e] s obtain b' where
      "cache_slot w c' k' = Building b'" "we_build_id e = pb_id b'" by auto
    with builds_ok_unique [OF b _ act] ne have "we_build_id e \<noteq> pb_id b" by metis
    with e show "\<exists>e. bt_get (cw_graph ?w) t = Some e"
      by (simp add: world_simps bt_get_clear [OF wf] opt_filter_Some_iff)
  qed
qed

lemma settle_graph:
  assumes "cache_inv w"
  shows "bt_wf (cw_graph (settle c k i st w)) \<and> acyclic (wait_edges (cw_graph (settle c k i st w)))"
  using assms wait_edges_clear [of "cw_graph w" i]
  by (auto simp: world_simps cache_inv_def intro: acyclic_subset)

subsection \<open>Every operation keeps it\<close>

lemma cache_inv_start: "cache_inv new_provider_world"
  by (simp add: cache_inv_def builds_ok_def waits_ok_def new_provider_world_def cache_slot_def
      wait_edges_def acyclic_def)

text \<open>Only the status of a thread without an edge changes, to one that does not wait.\<close>

lemma cache_inv_set_status:
  assumes "cache_inv w" "bt_get (cw_graph w) t = None" "\<forall>c k i. s \<noteq> Waiting c k i False"
  shows "cache_inv (set_status t s w)"
proof -
  have "waits_ok (set_status t s w)"
    unfolding waits_ok_def
  proof (intro conjI allI impI)
    fix u e assume "bt_get (cw_graph (set_status t s w)) u = Some e"
    then have e: "bt_get (cw_graph w) u = Some e" by (simp add: world_simps)
    with assms(2) have "u \<noteq> t" by auto
    with waits_okD [OF _ e] assms(1)
    show "\<exists>c k b. cache_slot (set_status t s w) c k = Building b \<and> we_builder e = pb_builder b \<and>
        we_build_id e = pb_id b \<and> th_status (cw_threads (set_status t s w) u) = Waiting c k (pb_id b) False"
      by (simp add: world_simps cache_inv_def)
  next
    fix u c k i assume "th_status (cw_threads (set_status t s w) u) = Waiting c k i False"
    with assms(3) have "th_status (cw_threads w u) = Waiting c k i False"
      by (simp add: world_simps split: if_splits)
    with assms(1) show "\<exists>e. bt_get (cw_graph (set_status t s w)) u = Some e"
      by (simp add: world_simps cache_inv_def waits_ok_edge)
  qed
  with assms(1) show ?thesis
    by (simp add: cache_inv_def builds_ok_def world_simps)
qed

lemma cache_inv_wait:
  assumes inv: "cache_inv w" and idle: "\<forall>c k i. th_status (cw_threads w t) \<noteq> Waiting c k i False"
    and act: "cache_slot w c k = Building b" and g: "register_wait (cw_graph w) t b = Inr g"
  shows "cache_inv (set_status t (Waiting c k (pb_id b) False) (w\<lparr>cw_graph := g\<rparr>))"
    (is "cache_inv ?w")
proof -
  from inv have b: "builds_ok w" and wt: "waits_ok w" and wf: "bt_wf (cw_graph w)"
    and ac: "acyclic (wait_edges (cw_graph w))" by (simp_all add: cache_inv_def)
  have none: "bt_get (cw_graph w) t = None"
    using not_waiting_no_edge [OF wt idle] .
  from g have g_eq: "g = bt_insert t \<lparr>we_builder = pb_builder b, we_build_id = pb_id b\<rparr> (cw_graph w)"
    and nc: "(pb_builder b, t) \<notin> (wait_edges (cw_graph w))\<^sup>*"
    by (simp_all add: register_wait_eq [OF ac none] split: if_splits)
  have "waits_ok ?w"
    unfolding waits_ok_def
  proof (intro conjI allI impI)
    fix u e assume e: "bt_get (cw_graph ?w) u = Some e"
    show "\<exists>c k b. cache_slot ?w c k = Building b \<and> we_builder e = pb_builder b \<and>
        we_build_id e = pb_id b \<and> th_status (cw_threads ?w u) = Waiting c k (pb_id b) False"
    proof (cases "u = t")
      case True
      with e act g_eq show ?thesis
        by (intro exI [of _ c] exI [of _ k] exI [of _ b]) (auto simp: world_simps)
    next
      case False
      with e g_eq have "bt_get (cw_graph w) u = Some e" by (simp add: world_simps)
      from waits_okD [OF wt this] False show ?thesis by (simp add: world_simps)
    qed
  next
    fix u c' k' i assume s: "th_status (cw_threads ?w u) = Waiting c' k' i False"
    show "\<exists>e. bt_get (cw_graph ?w) u = Some e"
    proof (cases "u = t")
      case False
      with s waits_ok_edge [OF wt] g_eq show ?thesis by (simp add: world_simps)
    qed (simp add: world_simps g_eq)
  qed
  moreover have "builds_ok ?w"
    using b by (simp add: builds_ok_def world_simps)
  ultimately show ?thesis
    using wf ac nc by (simp add: cache_inv_def world_simps g_eq wait_edges_insert [OF none] acyclic_insert)
qed

lemma cache_inv_build:
  assumes inv: "cache_inv w" and idle: "\<forall>c k i. th_status (cw_threads w t) \<noteq> Waiting c k i False"
    and vac: "cache_slot w c k = Vacant"
  shows "cache_inv (snd (lookup_round t c k w))"
proof -
  let ?b = "\<lparr>pb_id = cw_next_build w, pb_builder = t\<rparr>"
  let ?w = "snd (lookup_round t c k w)"
  from inv have b: "builds_ok w" and wt: "waits_ok w" by (simp_all add: cache_inv_def)
  have none: "bt_get (cw_graph w) t = None"
    using not_waiting_no_edge [OF wt idle] .
  have slot: "cache_slot ?w c' k' = (if c' = c \<and> k' = k then Building ?b else cache_slot w c' k')" for c' k'
    using vac by (simp add: lookup_round_def Let_def world_simps)
  have rest: "cw_graph ?w = cw_graph w" "cw_next_build ?w = Suc (cw_next_build w)"
    "th_status (cw_threads ?w u) = (if u = t then Running else th_status (cw_threads w u))"
    "th_builds (cw_threads ?w u) =
       (if u = t then (c, k, ?b) # th_builds (cw_threads w u) else th_builds (cw_threads w u))" for u
    using vac by (simp_all add: lookup_round_def Let_def world_simps)
  have "builds_ok ?w"
    unfolding builds_ok_def
  proof (intro conjI allI impI)
    fix c' k' b' assume "cache_slot ?w c' k' = Building b'"
    then show "pb_id b' < cw_next_build ?w" "(c', k', b') \<in> set (th_builds (cw_threads ?w (pb_builder b')))"
      using builds_okD [OF b, of c' k' b'] by (auto simp: slot rest less_Suc_eq split: if_splits)
  next
    fix c1 k1 b1 c2 k2 b2
    assume *: "cache_slot ?w c1 k1 = Building b1" "cache_slot ?w c2 k2 = Building b2" "pb_id b1 = pb_id b2"
    have same: "c1 = c2 \<and> k1 = k2"
    proof (cases "(c1 = c \<and> k1 = k) \<or> (c2 = c \<and> k2 = k)")
      case True
      with * show ?thesis
        using builds_okD [OF b, of c1 k1 b1] builds_okD [OF b, of c2 k2 b2]
        by (cases "c1 = c \<and> k1 = k"; cases "c2 = c \<and> k2 = k") (simp_all add: slot, auto)
    next
      case False
      with * have "cache_slot w c1 k1 = Building b1" "cache_slot w c2 k2 = Building b2"
        by (simp_all add: slot split: if_splits)
      from builds_ok_unique [OF b this *(3)] show ?thesis .
    qed
    show "c1 = c2" "k1 = k2" using same by simp_all
  qed
  moreover have "waits_ok ?w"
    unfolding waits_ok_def
  proof (intro conjI allI impI)
    fix u e assume "bt_get (cw_graph ?w) u = Some e"
    then have e: "bt_get (cw_graph w) u = Some e" by (simp add: rest)
    with none have "u \<noteq> t" by auto
    moreover from waits_okD [OF wt e] obtain c' k' b' where
      "cache_slot w c' k' = Building b'" "we_builder e = pb_builder b'" "we_build_id e = pb_id b'"
      "th_status (cw_threads w u) = Waiting c' k' (pb_id b') False" by blast
    moreover from this(1) vac have "\<not> (c' = c \<and> k' = k)" by auto
    ultimately show "\<exists>c k b. cache_slot ?w c k = Building b \<and> we_builder e = pb_builder b \<and>
        we_build_id e = pb_id b \<and> th_status (cw_threads ?w u) = Waiting c k (pb_id b) False"
      by (intro exI [of _ c'] exI [of _ k'] exI [of _ b']) (auto simp: slot rest)
  next
    fix u c' k' i assume "th_status (cw_threads ?w u) = Waiting c' k' i False"
    then have "th_status (cw_threads w u) = Waiting c' k' i False" by (simp add: rest split: if_splits)
    then show "\<exists>e. bt_get (cw_graph ?w) u = Some e"
      using waits_ok_edge [OF wt] by (simp add: rest)
  qed
  ultimately show ?thesis
    using inv by (simp add: cache_inv_def rest)
qed

lemma cache_inv_return:
  assumes "cache_inv w" "\<forall>c k i. th_status (cw_threads w t) \<noteq> Waiting c k i False"
  shows "cache_inv (set_status t Running w)"
  by (rule cache_inv_set_status [OF assms(1)])
    (use assms in \<open>simp_all add: cache_inv_def not_waiting_no_edge\<close>)

lemma cache_inv_lookup:
  assumes inv: "cache_inv w" and idle: "\<forall>c k i. th_status (cw_threads w t) \<noteq> Waiting c k i False"
  shows "cache_inv (snd (lookup_round t c k w))"
proof (cases "cache_slot w c k")
  case Vacant
  with assms show ?thesis by (rule_tac cache_inv_build)
next
  case (Building b)
  then show ?thesis
    using cache_inv_wait [OF inv idle Building] cache_inv_return [OF inv idle]
    by (cases "register_wait (cw_graph w) t b") (simp_all add: lookup_round_def)
next
  case (Ready v)
  with cache_inv_return [OF inv idle] show ?thesis by (simp add: lookup_round_def)
qed

lemma waits_ok_set_builds [simp]:
  "waits_ok (set_builds t bs w) = waits_ok w"
  "waits_ok (settle c k i st (set_builds t bs w)) = waits_ok (settle c k i st w)"
  by (simp_all add: waits_ok_def world_simps)

lemma cache_inv_settle:
  assumes inv: "cache_inv w" and act: "cache_slot w c k = Building b" and st: "\<forall>b. st \<noteq> Building b"
    and bs: "\<And>c' k' b'. \<not> (c' = c \<and> k' = k) \<Longrightarrow> pb_builder b' = t \<Longrightarrow>
       (c', k', b') \<in> set (th_builds (cw_threads w t)) \<Longrightarrow> (c', k', b') \<in> set bs"
  shows "cache_inv (settle c k (pb_id b) st (set_builds t bs w))"
proof -
  from inv have b: "builds_ok w" by (simp add: cache_inv_def)
  let ?w = "settle c k (pb_id b) st (set_builds t bs w)"
  have old: "cache_slot w c' k' = Building b' \<and> \<not> (c' = c \<and> k' = k)"
    if "cache_slot ?w c' k' = Building b'" for c' k' b'
    using that st by (auto simp: world_simps split: if_splits)
  have "builds_ok ?w"
    unfolding builds_ok_def
  proof (intro conjI allI impI)
    fix c' k' b' assume "cache_slot ?w c' k' = Building b'"
    note o = old [OF this]
    with builds_okD [OF b, of c' k' b'] show "pb_id b' < cw_next_build ?w"
      by (simp add: world_simps)
    from o builds_okD [OF b, of c' k' b'] bs [of c' k' b']
    show "(c', k', b') \<in> set (th_builds (cw_threads ?w (pb_builder b')))"
      by (auto simp: world_simps)
  next
    fix c1 k1 b1 c2 k2 b2
    assume "cache_slot ?w c1 k1 = Building b1" "cache_slot ?w c2 k2 = Building b2" "pb_id b1 = pb_id b2"
    with old builds_ok_unique [OF b] have same: "c1 = c2 \<and> k1 = k2" by meson
    show "c1 = c2" "k1 = k2" using same by simp_all
  qed
  moreover have "waits_ok ?w"
    using settle_waits [OF inv act] by simp
  moreover have "bt_wf (cw_graph ?w) \<and> acyclic (wait_edges (cw_graph ?w))"
    using settle_graph [OF inv, of c k "pb_id b" st] by (simp add: world_simps)
  ultimately show ?thesis by (simp add: cache_inv_def)
qed

lemma cache_inv_insert:
  assumes inv: "cache_inv w"
  shows "cache_inv (provider_cache_insert c k v w)"
proof (cases "\<exists>b. cache_slot w c k = Building b")
  case True
  then obtain b where b: "cache_slot w c k = Building b" ..
  have "provider_cache_insert c k v w = settle c k (pb_id b) (Ready v) (set_builds 0 (th_builds (cw_threads w 0)) w)"
    using b by (simp add: provider_cache_insert_def settle_def notify_all_def set_slot_def set_builds_def fun_eq_iff)
  then show ?thesis
    using cache_inv_settle [OF inv b, of "Ready v" 0 "th_builds (cw_threads w 0)"] by simp
next
  case False
  let ?w = "provider_cache_insert c k v w"
  have eq: "?w = notify_all c k (set_slot c k (Ready v) w)"
    using False by (auto simp: provider_cache_insert_def split: slot_state.splits)
  have slot: "cache_slot ?w c' k' = Building b' \<longleftrightarrow> cache_slot w c' k' = Building b'" for c' k' b'
    using False by (auto simp: eq world_simps)
  have status: "th_status (cw_threads ?w u) = Waiting c' k' i False \<longleftrightarrow> th_status (cw_threads w u) = Waiting c' k' i False"
    for u c' k' i
  proof -
    have "\<not> (c' = c \<and> k' = k)" if "th_status (cw_threads w u) = Waiting c' k' i False"
    proof -
      from inv have wt: "waits_ok w" by (simp add: cache_inv_def)
      from waits_ok_edge [OF wt that] obtain e where "bt_get (cw_graph w) u = Some e" ..
      from waits_okD [OF wt this] that False show ?thesis by auto
    qed
    then show ?thesis by (auto simp: eq world_simps)
  qed
  show ?thesis
    using inv unfolding cache_inv_def builds_ok_def waits_ok_def slot status
    by (simp add: eq world_simps)
qed

lemma finish_round_active:
  assumes "cache_slot w c k = Building a" "pb_id a = pb_id b"
  shows "finish_round t r c k b w =
           (Some r, settle c k (pb_id a) (case r of Inr v \<Rightarrow> Ready v | Inl _ \<Rightarrow> Vacant)
                      (set_builds t (tl (th_builds (cw_threads w t))) w))"
  using assms by (simp add: finish_round_def finish_provider_build_def settle_def Let_def set_builds_def)

lemma finish_round_stale:
  assumes "\<forall>a. cache_slot w c k = Building a \<longrightarrow> pb_id a \<noteq> pb_id b"
  shows "finish_round t r c k b w =
           (Some (Inl (Internal ''provider cache build state changed unexpectedly'')),
            set_builds t (tl (th_builds (cw_threads w t))) w)"
  using assms by (auto simp: finish_round_def finish_provider_build_def Let_def split: slot_state.splits)

lemma cache_inv_finish:
  assumes inv: "cache_inv w" and top: "th_builds (cw_threads w t) = (c, k, b) # bs"
  shows "cache_inv (snd (finish_round t r c k b w))"
proof (cases "\<exists>a. cache_slot w c k = Building a \<and> pb_id a = pb_id b")
  case True
  then obtain a where a: "cache_slot w c k = Building a" "pb_id a = pb_id b" by blast
  have "cache_inv (settle c k (pb_id a) (case r of Inr v \<Rightarrow> Ready v | Inl _ \<Rightarrow> Vacant) (set_builds t bs w))"
    by (rule cache_inv_settle [OF inv a(1)]) (use top in \<open>auto split: sum.splits\<close>)
  with finish_round_active [OF a, of t r] top show ?thesis by simp
next
  case False
  from inv have b: "builds_ok w" by (simp add: cache_inv_def)
  have "builds_ok (set_builds t bs w)"
    unfolding builds_ok_def
  proof (intro conjI allI impI)
    fix c' k' b' assume "cache_slot (set_builds t bs w) c' k' = Building b'"
    then have s: "cache_slot w c' k' = Building b'" by (simp add: world_simps)
    with builds_okD [OF b s] show "pb_id b' < cw_next_build (set_builds t bs w)"
      by (simp add: world_simps)
    from s False have "(c', k', b') \<noteq> (c, k, b)" by auto
    with builds_okD [OF b s] top
    show "(c', k', b') \<in> set (th_builds (cw_threads (set_builds t bs w) (pb_builder b')))"
      by (auto simp: world_simps)
  next
    fix c1 k1 b1 c2 k2 b2
    assume "cache_slot (set_builds t bs w) c1 k1 = Building b1"
      "cache_slot (set_builds t bs w) c2 k2 = Building b2" "pb_id b1 = pb_id b2"
    with builds_ok_unique [OF b, of c1 k1 b1 c2 k2 b2] have same: "c1 = c2 \<and> k1 = k2"
      by (simp add: world_simps)
    show "c1 = c2" "k1 = k2" using same by simp_all
  qed
  moreover have "snd (finish_round t r c k b w) = set_builds t bs w"
    using finish_round_stale [of w c k b t r] False top by auto
  ultimately show ?thesis
    using inv by (simp add: cache_inv_def world_simps)
qed

lemma cache_inv_wake:
  assumes inv: "cache_inv w" and s: "th_status (cw_threads w t) = Waiting c k i n"
  shows "cache_inv (wake_up t c k i w)"
proof -
  from inv have b: "builds_ok w" and wt: "waits_ok w" by (simp_all add: cache_inv_def)
  let ?w = "wake_up t c k i w"
  have gone: "bt_get (drop_wait (cw_graph w) t i) t = None"
  proof (cases "bt_get (cw_graph w) t")
    case (Some e)
    from waits_okD [OF wt Some] s have "we_build_id e = i" by auto
    with Some show ?thesis by (simp add: bt_get_drop)
  qed (simp add: bt_get_drop)
  then have graph: "bt_get (cw_graph ?w) u = (if u = t then None else bt_get (cw_graph w) u)" for u
    by (simp add: wake_up_def world_simps) (simp add: bt_get_drop)
  have status: "th_status (cw_threads ?w u) = (if u = t then Retrying c k else th_status (cw_threads w u))" for u
    by (simp add: wake_up_def world_simps)
  have slot: "cache_slot ?w = cache_slot w" by (simp add: wake_up_def world_simps)
  have "waits_ok ?w"
    using waits_okD [OF wt] waits_ok_edge [OF wt]
    unfolding waits_ok_def graph status slot by (simp split: if_split) blast
  moreover have "builds_ok ?w"
    using b by (simp add: builds_ok_def wake_up_def world_simps)
  moreover have "bt_wf (cw_graph ?w)" "acyclic (wait_edges (cw_graph ?w))"
    using inv wait_edges_drop [of "cw_graph w" t i]
    by (auto simp: cache_inv_def wake_up_def world_simps intro: acyclic_subset)
  ultimately show ?thesis by (simp add: cache_inv_def)
qed

lemma cache_inv_apply: "cache_inv w \<Longrightarrow> cache_apply a w = Some (r, w') \<Longrightarrow> cache_inv w'"
proof (cases a)
  case (Call t c k)
  assume "cache_inv w" "cache_apply a w = Some (r, w')"
  with Call show ?thesis
    using cache_inv_lookup [of w t c k] by (auto split: if_splits)
next
  case (Insert t c k v)
  assume "cache_inv w" "cache_apply a w = Some (r, w')"
  with Insert show ?thesis by (auto simp: cache_inv_insert split: if_splits)
next
  case (Finish t q)
  assume "cache_inv w" "cache_apply a w = Some (r, w')"
  with Finish show ?thesis
    using cache_inv_finish [of w t _ _ _ _ q] by (auto split: thread_status.splits list.splits)
next
  case (Wake t)
  assume "cache_inv w" "cache_apply a w = Some (r, w')"
  with Wake show ?thesis by (auto simp: cache_inv_wake split: thread_status.splits)
next
  case (Retry t)
  assume "cache_inv w" "cache_apply a w = Some (r, w')"
  with Retry show ?thesis
    using cache_inv_lookup [of w t] by (auto split: thread_status.splits) (metis snd_conv)
qed

theorem reachable_cache_inv: "cache_reachable w \<Longrightarrow> cache_inv w"
  by (induction rule: cache_reachable.induct) (auto simp: cache_inv_start cache_step_iff cache_inv_apply)

section \<open>Properties\<close>

lemma unblocked_builder:
  assumes inv: "cache_inv w" and act: "cache_slot w c k = Building b"
  shows "\<exists>u c' k' b'. (pb_builder b, u) \<in> (wait_edges (cw_graph w))\<^sup>* \<and> cache_slot w c' k' = Building b' \<and>
           pb_builder b' = u \<and> (c', k', b') \<in> set (th_builds (cw_threads w u)) \<and>
           (\<forall>c k i. th_status (cw_threads w u) \<noteq> Waiting c k i False)"
proof -
  from inv have b: "builds_ok w" and wt: "waits_ok w" by (simp_all add: cache_inv_def)
  have "wf ((wait_edges (cw_graph w))\<inverse>)"
    using inv by (simp add: cache_inv_def finite_wait_edges finite_acyclic_wf_converse)
  then show ?thesis
    using act
  proof (induction "pb_builder b" arbitrary: c k b rule: wf_induct_rule)
    case less
    show ?case
    proof (cases "\<forall>c k i. th_status (cw_threads w (pb_builder b)) \<noteq> Waiting c k i False")
      case True
      with less.prems builds_okD [OF b less.prems] show ?thesis
        by (intro exI [of _ "pb_builder b"] exI [of _ c] exI [of _ k] exI [of _ b]) auto
    next
      case False
      then obtain e where e: "bt_get (cw_graph w) (pb_builder b) = Some e"
        using waits_ok_edge [OF wt] by blast
      from waits_okD [OF wt e] obtain c' k' b' where
        *: "cache_slot w c' k' = Building b'" "we_builder e = pb_builder b'" by blast
      from wait_edgesI [OF e] * have edge: "(pb_builder b, pb_builder b') \<in> wait_edges (cw_graph w)"
        by simp
      with less.hyps [OF _ *(1)] show ?thesis
        by (meson converse_rtrancl_into_rtrancl converseI)
    qed
  qed
qed

text \<open>
  C3. No deadlock and no lost wake-up: in every reachable state, a thread that waits and
  has not been notified waits for the build that is active in its slot, and the chain of
  waits from that build's thread ends in a thread that has an active build on its own
  stack and is not blocked.
\<close>

theorem no_deadlock:
  assumes "cache_reachable w" "th_status (cw_threads w t) = Waiting c k i False"
  shows "\<exists>b u c' k' b'. cache_slot w c k = Building b \<and> pb_id b = i \<and>
           (pb_builder b, u) \<in> (wait_edges (cw_graph w))\<^sup>* \<and> cache_slot w c' k' = Building b' \<and>
           pb_builder b' = u \<and> (c', k', b') \<in> set (th_builds (cw_threads w u)) \<and>
           (\<forall>c k i. th_status (cw_threads w u) \<noteq> Waiting c k i False)"
proof -
  note inv = reachable_cache_inv [OF assms(1)]
  then have wt: "waits_ok w" by (simp add: cache_inv_def)
  from waits_ok_edge [OF wt assms(2)] obtain e where "bt_get (cw_graph w) t = Some e" ..
  from waits_okD [OF wt this] assms(2) obtain b where "cache_slot w c k = Building b" "pb_id b = i"
    by auto
  with unblocked_builder [OF inv this(1)] show ?thesis by blast
qed

abbreviation wait_example :: "nat cache_world" where
  "wait_example \<equiv> the (cache_run [Call 7 0 (ProviderKey 1), Call 8 0 (ProviderKey 1)] new_provider_world)"

theorem no_deadlock_witness:
  "th_status (cw_threads wait_example 8) = Waiting 0 (ProviderKey 1) 1 False \<and>
   (\<exists>b u c' k' b'. cache_slot wait_example 0 (ProviderKey 1) = Building b \<and> pb_id b = 1 \<and>
      (pb_builder b, u) \<in> (wait_edges (cw_graph wait_example))\<^sup>* \<and> cache_slot wait_example c' k' = Building b' \<and>
      pb_builder b' = u \<and> (c', k', b') \<in> set (th_builds (cw_threads wait_example u)) \<and>
      (\<forall>c k i. th_status (cw_threads wait_example u) \<noteq> Waiting c k i False))"
proof
  show s: "th_status (cw_threads wait_example 8) = Waiting 0 (ProviderKey 1) 1 False"
    by code_simp
  have "cache_reachable wait_example"
    by (rule cache_run_the) code_simp
  from no_deadlock [OF this s]
  show "\<exists>b u c' k' b'. cache_slot wait_example 0 (ProviderKey 1) = Building b \<and> pb_id b = 1 \<and>
      (pb_builder b, u) \<in> (wait_edges (cw_graph wait_example))\<^sup>* \<and> cache_slot wait_example c' k' = Building b' \<and>
      pb_builder b' = u \<and> (c', k', b') \<in> set (th_builds (cw_threads wait_example u)) \<and>
      (\<forall>c k i. th_status (cw_threads wait_example u) \<noteq> Waiting c k i False)" .
qed

text \<open>
  C5. A lookup that finds a build in progress fails with the error of a cyclic dependency
  exactly if waiting would close a cycle of waiting threads (the thread's own nested
  lookup included); otherwise it waits, and the graph stays acyclic. The error of a thread
  that already waits does not occur.
\<close>

theorem cyclic_lookup_exact:
  assumes "cache_reachable w" "th_status (cw_threads w t) = Running" "cache_slot w c k = Building b"
  shows "cache_apply (Call t c k) w =
     (if (pb_builder b, t) \<in> (wait_edges (cw_graph w))\<^sup>*
      then Some (Some (Inl cyclic_wait_error), w)
      else Some (None, set_status t (Waiting c k (pb_id b) False)
             (w\<lparr>cw_graph := bt_insert t \<lparr>we_builder = pb_builder b, we_build_id = pb_id b\<rparr> (cw_graph w)\<rparr>)))"
proof -
  note inv = reachable_cache_inv [OF assms(1)]
  then have wt: "waits_ok w" and ac: "acyclic (wait_edges (cw_graph w))" by (simp_all add: cache_inv_def)
  have none: "bt_get (cw_graph w) t = None"
    by (rule not_waiting_no_edge [OF wt]) (simp add: assms(2))
  have "(cw_threads w t)\<lparr>th_status := Running\<rparr> = cw_threads w t"
    using assms(2) by (cases "cw_threads w t") simp
  then have same: "set_status t Running w = w"
    by (simp add: set_status_def fun_upd_idem)
  show ?thesis
    using assms(2,3) by (simp add: lookup_round_def register_wait_eq [OF ac none] same)
qed

abbreviation cross_example :: "nat cache_world" where
  "cross_example \<equiv> the (cache_run [Call 7 0 (ProviderKey 1), Call 8 0 (ProviderKey 2), Call 8 0 (ProviderKey 1)]
     new_provider_world)"

theorem cyclic_lookup_exact_witness:
  "cache_apply (Call 7 0 (ProviderKey 2)) cross_example =
     Some (Some (Inl cyclic_wait_error), cross_example)"
proof -
  have r: "cache_reachable cross_example"
    by (rule cache_run_the) code_simp
  have s: "th_status (cw_threads cross_example 7) = Running"
    by code_simp
  have b: "cache_slot cross_example 0 (ProviderKey 2) = Building \<lparr>pb_id = 2, pb_builder = 8\<rparr>"
    by code_simp
  have "bt_get (cw_graph cross_example) 8 = Some \<lparr>we_builder = 7, we_build_id = 1\<rparr>"
    by code_simp
  then have "(8, 7) \<in> (wait_edges (cw_graph cross_example))\<^sup>*"
    using wait_edgesI by fastforce
  with cyclic_lookup_exact [OF r s b] show ?thesis by simp
qed

text \<open>The results of a run, each with the slot that its action concerns.\<close>

fun cache_log ::
  "'v cache_action list \<Rightarrow> 'v cache_world
     \<Rightarrow> ((nat \<times> provider_instance_key) option \<times> (boot_error + 'v) option) list" where
  "cache_log [] w = []"
| "cache_log (a # as) w =
     (case cache_apply a w of
        None \<Rightarrow> []
      | Some (r, w') \<Rightarrow> (action_slot a w, r) # cache_log as w')"

lemma ready_kept:
  assumes "cache_slot w c k = Ready v" "cache_apply a w = Some (r, w')" "\<forall>t x. a \<noteq> Insert t c k x"
  shows "cache_slot w' c k = Ready v \<and> (action_slot a w = Some (c, k) \<longrightarrow> r = Some (Inr x) \<longrightarrow> x = v)"
  using assms
  by (cases a)
    (auto simp: lookup_round_def Let_def finish_round_def finish_provider_build_def
       provider_cache_insert_def wake_up_def world_simps
       split: if_splits slot_state.splits sum.splits thread_status.splits list.splits option.splits)

lemma returned_is_ready:
  assumes "cache_apply a w = Some (Some (Inr v), w')" "action_slot a w = Some (c, k)"
  shows "cache_slot w' c k = Ready v"
  using assms
  by (cases a)
    (auto simp: lookup_round_def Let_def finish_round_def finish_provider_build_def
       provider_cache_insert_def wake_up_def world_simps
       split: if_splits slot_state.splits sum.splits thread_status.splits list.splits option.splits)

lemma ready_log:
  assumes "cache_slot w c k = Ready v" "\<forall>t x. Insert t c k x \<notin> set as"
    "(Some (c, k), Some (Inr x)) \<in> set (cache_log as w)"
  shows "x = v"
  using assms
proof (induction as arbitrary: w)
  case (Cons a as)
  from Cons.prems(3) obtain r w' where s: "cache_apply a w = Some (r, w')"
    by (cases "cache_apply a w") auto
  with Cons.prems(3)
  have "(action_slot a w = Some (c, k) \<and> r = Some (Inr x)) \<or> (Some (c, k), Some (Inr x)) \<in> set (cache_log as w')"
    by auto
  moreover from ready_kept [OF Cons.prems(1) s] Cons.prems(2)
  have "cache_slot w' c k = Ready v \<and> (action_slot a w = Some (c, k) \<longrightarrow> r = Some (Inr x) \<longrightarrow> x = v)"
    by auto
  ultimately show ?case using Cons.IH [of w'] Cons.prems(2) by auto
qed simp

text \<open>
  C4. One instance per key: as long as nobody inserts a value for the key, all calls for a
  key that return a value return the same one, whatever the threads, the failed builds
  and the order in which they run.
\<close>

theorem one_instance_per_key:
  assumes "\<forall>t x. Insert t c k x \<notin> set as"
    "(Some (c, k), Some (Inr x)) \<in> set (cache_log as w)" "(Some (c, k), Some (Inr y)) \<in> set (cache_log as w)"
  shows "x = y"
  using assms
proof (induction as arbitrary: w)
  case (Cons a as)
  from Cons.prems(2) obtain r w' where s: "cache_apply a w = Some (r, w')"
    by (cases "cache_apply a w") auto
  show ?case
  proof (cases "\<exists>v. action_slot a w = Some (c, k) \<and> r = Some (Inr v)")
    case True
    then obtain v where v: "action_slot a w = Some (c, k)" "r = Some (Inr v)" by blast
    with s have "cache_slot w' c k = Ready v" by (auto intro: returned_is_ready)
    from ready_log [OF this] Cons.prems(1) have "x = v" if "(Some (c, k), Some (Inr x)) \<in> set (cache_log as w')" for x
      using that by auto
    with Cons.prems(2,3) s v show ?thesis by auto
  next
    case False
    with Cons.prems s Cons.IH [of w'] show ?thesis by auto
  qed
qed simp

theorem one_instance_per_key_witness:
  "map snd (filter (\<lambda>(p, r). r \<noteq> None)
     (cache_log [Call 7 0 (ProviderKey 1), Call 8 0 (ProviderKey 1), Finish 7 (Inr 42), Wake 8, Retry 8]
        new_provider_world)) = [Some (Inr 42), Some (Inr (42 :: nat))] \<and> (42 :: nat) = 42"
  (is "?log = _ \<and> _")
proof
  let ?as = "[Call 7 0 (ProviderKey 1), Call 8 0 (ProviderKey 1), Finish 7 (Inr 42), Wake 8, Retry 8] :: nat cache_action list"
  show "?log = [Some (Inr 42), Some (Inr 42)]" by code_simp
  have l: "(Some (0, ProviderKey 1), Some (Inr 42)) \<in> set (cache_log ?as new_provider_world)"
    by code_simp
  show "(42 :: nat) = 42"
    by (rule one_instance_per_key [OF _ l l]) simp
qed

end
