(* ===== verification/Provider_Graph.thy ===== *)
theory Provider_Graph
  imports Provider_Cache
begin

text \<open>
  Dependency injection without the values (\<open>provider/definition.rs\<close>,
  \<open>provider/entry.rs\<close>, \<open>provider/module_ref.rs\<close>, \<open>provider/resolution.rs\<close>): provider
  definitions, the registries of the modules and the scopes that they see, the search for
  a provider, the resolution plan that decides whether a provider needs a request context,
  the order in which asynchronous singletons are built, and the decision which cache an
  instance comes from. A module reference is the index of its registry in the store (the
  code shares the registries behind \<open>Arc\<close>). The factory closures and the hooks are code
  outside the framework and only their presence is kept.
\<close>

section \<open>Definitions of providers\<close>

datatype provider_scope = SingletonScope | RequestScope | TransientScope

record provider_dependency =
  pdep_token :: str
  pdep_optional :: bool
  pdep_lazy :: bool

definition dependency_named :: "str \<Rightarrow> provider_dependency" where
  "dependency_named tok = \<lparr>pdep_token = tok, pdep_optional = False, pdep_lazy = False\<rparr>"

definition dependency_optional :: "provider_dependency \<Rightarrow> provider_dependency" where
  "dependency_optional d = d\<lparr>pdep_optional := True\<rparr>"

definition dependency_lazy :: "provider_dependency \<Rightarrow> provider_dependency" where
  "dependency_lazy d = d\<lparr>pdep_lazy := True\<rparr>"

datatype provider_factory_kind = SyncFactory | AsyncFactory

record provider_lifecycle_hooks =
  ph_module_init :: bool
  ph_application_bootstrap :: bool
  ph_module_destroy :: bool
  ph_before_shutdown :: bool
  ph_application_shutdown :: bool

definition has_hooks :: "provider_lifecycle_hooks \<Rightarrow> bool" where
  "has_hooks h \<longleftrightarrow> ph_module_init h \<or> ph_application_bootstrap h \<or> ph_module_destroy h \<or>
     ph_before_shutdown h \<or> ph_application_shutdown h"

definition no_hooks :: provider_lifecycle_hooks where
  "no_hooks = \<lparr>ph_module_init = False, ph_application_bootstrap = False, ph_module_destroy = False,
     ph_before_shutdown = False, ph_application_shutdown = False\<rparr>"

record provider_definition =
  pdf_token :: str
  pdf_factory :: provider_factory_kind
  pdf_scope :: provider_scope
  pdf_lifecycle :: provider_lifecycle_hooks
  pdf_alias :: "str option"
  pdf_dependencies :: "provider_dependency list option"
  pdf_enhancers :: "nat list"

definition named_from_arc :: "str \<Rightarrow> provider_definition" where
  "named_from_arc tok =
     \<lparr>pdf_token = tok, pdf_factory = SyncFactory, pdf_scope = SingletonScope, pdf_lifecycle = no_hooks,
      pdf_alias = None, pdf_dependencies = Some [], pdf_enhancers = []\<rparr>"

definition named_factory :: "str \<Rightarrow> provider_definition" where
  "named_factory tok =
     \<lparr>pdf_token = tok, pdf_factory = SyncFactory, pdf_scope = SingletonScope, pdf_lifecycle = no_hooks,
      pdf_alias = None, pdf_dependencies = None, pdf_enhancers = []\<rparr>"

definition named_async_factory :: "str \<Rightarrow> provider_definition" where
  "named_async_factory tok =
     \<lparr>pdf_token = tok, pdf_factory = AsyncFactory, pdf_scope = SingletonScope, pdf_lifecycle = no_hooks,
      pdf_alias = None, pdf_dependencies = None, pdf_enhancers = []\<rparr>"

definition named_alias :: "str \<Rightarrow> str \<Rightarrow> provider_definition" where
  "named_alias tok target =
     \<lparr>pdf_token = tok, pdf_factory = SyncFactory, pdf_scope = SingletonScope, pdf_lifecycle = no_hooks,
      pdf_alias = Some target, pdf_dependencies = Some [dependency_named target], pdf_enhancers = []\<rparr>"

definition with_scope :: "provider_scope \<Rightarrow> provider_definition \<Rightarrow> provider_definition" where
  "with_scope sc d = d\<lparr>pdf_scope := sc\<rparr>"

definition with_dependencies :: "provider_dependency list \<Rightarrow> provider_definition \<Rightarrow> provider_definition" where
  "with_dependencies ds d = d\<lparr>pdf_dependencies := Some ds\<rparr>"

definition with_dependency :: "provider_dependency \<Rightarrow> provider_definition \<Rightarrow> provider_definition" where
  "with_dependency dep d =
     d\<lparr>pdf_dependencies := Some ((case pdf_dependencies d of Some ds \<Rightarrow> ds | None \<Rightarrow> []) @ [dep])\<rparr>"

definition with_enhancer :: "nat \<Rightarrow> provider_definition \<Rightarrow> provider_definition" where
  "with_enhancer e d = d\<lparr>pdf_enhancers := pdf_enhancers d @ [e]\<rparr>"

definition with_enhancers_from :: "provider_definition \<Rightarrow> provider_definition \<Rightarrow> provider_definition" where
  "with_enhancers_from source d = d\<lparr>pdf_enhancers := pdf_enhancers source\<rparr>"

section \<open>Registries\<close>

record provider_entry =
  pe_key :: nat
  pe_definition :: provider_definition
  pe_owner :: "nat option"

definition with_owner :: "nat \<Rightarrow> provider_entry \<Rightarrow> provider_entry" where
  "with_owner m e = (if pe_owner e = None then e\<lparr>pe_owner := Some m\<rparr> else e)"

definition owner_or :: "nat \<Rightarrow> provider_entry \<Rightarrow> nat" where
  "owner_or m e = (case pe_owner e of Some i \<Rightarrow> i | None \<Rightarrow> m)"

record module_data =
  md_providers :: "(str, provider_entry) btree"
  md_order :: "str list"
  md_visible :: "nat list"

text \<open>The registries, and the counter of cache keys.\<close>

record provider_store =
  ps_modules :: "module_data list"
  ps_next_key :: nat

definition module_data_new :: module_data where
  "module_data_new = \<lparr>md_providers = [], md_order = [], md_visible = []\<rparr>"

definition module_of :: "provider_store \<Rightarrow> nat \<Rightarrow> module_data" where
  "module_of s m = (if m < length (ps_modules s) then ps_modules s ! m else module_data_new)"

definition update_module :: "nat \<Rightarrow> module_data \<Rightarrow> provider_store \<Rightarrow> provider_store" where
  "update_module m d s = s\<lparr>ps_modules := (ps_modules s)[m := d]\<rparr>"

definition module_ref_new :: "provider_store \<Rightarrow> nat \<times> provider_store" where
  "module_ref_new s = (length (ps_modules s), s\<lparr>ps_modules := ps_modules s @ [module_data_new]\<rparr>)"

definition provider_entry_new :: "provider_definition \<Rightarrow> provider_store \<Rightarrow> provider_entry \<times> provider_store" where
  "provider_entry_new d s =
     (\<lparr>pe_key = ps_next_key s, pe_definition = d, pe_owner = None\<rparr>,
      s\<lparr>ps_next_key := Suc (ps_next_key s)\<rparr>)"

definition insert_entry :: "nat \<Rightarrow> str \<Rightarrow> provider_entry \<Rightarrow> provider_store \<Rightarrow> boot_error + provider_store" where
  "insert_entry m tok e s =
     (let d = module_of s m in
      if bt_get (md_providers d) tok \<noteq> None then Inl (DuplicateProvider tok)
      else Inr (update_module m
             (d\<lparr>md_providers := bt_insert tok e (md_providers d), md_order := md_order d @ [tok]\<rparr>) s))"

definition validate_registration ::
  "nat \<Rightarrow> str \<Rightarrow> provider_definition \<Rightarrow> provider_store \<Rightarrow> boot_error + unit" where
  "validate_registration m tok d s =
     (if bt_get (md_providers (module_of s m)) tok \<noteq> None then Inl (DuplicateProvider tok)
      else if pdf_factory d = AsyncFactory \<and> pdf_scope d \<noteq> SingletonScope
      then Inl (Internal (''async provider factories require singleton scope: '' @ tok))
      else if has_hooks (pdf_lifecycle d) \<and> pdf_scope d \<noteq> SingletonScope
      then Inl (Internal (''provider lifecycle hooks require singleton scope: '' @ tok))
      else if has_hooks (pdf_lifecycle d) \<and> pdf_alias d \<noteq> None
      then Inl (Internal (''provider aliases cannot define lifecycle hooks: '' @ tok))
      else Inr ())"

definition register_provider :: "nat \<Rightarrow> provider_definition \<Rightarrow> provider_store \<Rightarrow> boot_error + provider_store" where
  "register_provider m d s =
     rbind (validate_registration m (pdf_token d) d s) (\<lambda>_.
       if pdf_factory d = AsyncFactory
       then Inl (Internal (''async provider factory requires async registration: '' @ pdf_token d))
       else (let (e, s1) = provider_entry_new d s in insert_entry m (pdf_token d) e s1))"

definition register_provider_async ::
  "nat \<Rightarrow> provider_definition \<Rightarrow> provider_store \<Rightarrow> boot_error + provider_store" where
  "register_provider_async m d s =
     rbind (validate_registration m (pdf_token d) d s) (\<lambda>_.
       (let (e, s1) = provider_entry_new d s in insert_entry m (pdf_token d) e s1))"

definition add_visible_scope :: "nat \<Rightarrow> nat \<Rightarrow> provider_store \<Rightarrow> provider_store" where
  "add_visible_scope m v s =
     update_module m ((module_of s m)\<lparr>md_visible := md_visible (module_of s m) @ [v]\<rparr>) s"

section \<open>The search for a provider\<close>

text \<open>
  \<open>get_entry\<close> follows the visible scopes depth first. The outer option is the fuel: the
  code does not return when the scopes see each other in a cycle. The number of
  registries is enough when they do not (\<open>get_entry_total\<close>).
\<close>

primrec scope_search :: "(nat \<Rightarrow> 'e option option) \<Rightarrow> nat list \<Rightarrow> 'e option option" where
  "scope_search f [] = Some None"
| "scope_search f (v # vs) =
     (case f v of
        None \<Rightarrow> None
      | Some (Some e) \<Rightarrow> Some (Some e)
      | Some None \<Rightarrow> scope_search f vs)"

primrec get_entry_fuel :: "nat \<Rightarrow> provider_store \<Rightarrow> str \<Rightarrow> nat \<Rightarrow> provider_entry option option" where
  "get_entry_fuel 0 s tok m = None"
| "get_entry_fuel (Suc n) s tok m =
     (case bt_get (md_providers (module_of s m)) tok of
        Some e \<Rightarrow> Some (Some (with_owner m e))
      | None \<Rightarrow> scope_search (get_entry_fuel n s tok) (md_visible (module_of s m)))"

definition get_entry :: "provider_store \<Rightarrow> nat \<Rightarrow> str \<Rightarrow> provider_entry option option" where
  "get_entry s m tok = get_entry_fuel (Suc (length (ps_modules s))) s tok m"

definition export_from ::
  "nat \<Rightarrow> nat \<Rightarrow> str \<Rightarrow> provider_store \<Rightarrow> (boot_error + provider_store) option" where
  "export_from m source tok s =
     (case get_entry s source tok of
        None \<Rightarrow> None
      | Some None \<Rightarrow> Some (Inl (MissingProvider tok))
      | Some (Some e) \<Rightarrow> Some (insert_entry m tok (with_owner source e) s))"

definition local_entries :: "provider_store \<Rightarrow> nat \<Rightarrow> provider_entry list" where
  "local_entries s m =
     List.map_filter (\<lambda>tok. bt_get (md_providers (module_of s m)) tok) (md_order (module_of s m))"

section \<open>Resolution plans\<close>

record resolution_plan =
  rp_scope :: provider_scope
  rp_contextual :: bool

definition plan_declared :: "provider_scope \<Rightarrow> resolution_plan" where
  "plan_declared sc = \<lparr>rp_scope = sc, rp_contextual = (sc = RequestScope)\<rparr>"

record plan_state =
  pl_visiting :: "nat list"
  pl_memo :: "(nat, resolution_plan) btree"

type_synonym plan_result = "(boot_error + resolution_plan \<times> plan_state) option"

text \<open>The loop over the declared dependencies; \<open>rec\<close> plans an entry.\<close>

primrec plan_dependencies ::
  "(provider_entry \<Rightarrow> plan_state \<Rightarrow> plan_result) \<Rightarrow> provider_store \<Rightarrow> nat
     \<Rightarrow> provider_dependency list \<Rightarrow> resolution_plan \<Rightarrow> plan_state \<Rightarrow> plan_result" where
  "plan_dependencies rec s base [] plan st = Some (Inr (plan, st))"
| "plan_dependencies rec s base (d # ds) plan st =
     (case get_entry s base (pdep_token d) of
        None \<Rightarrow> None
      | Some None \<Rightarrow>
          if pdep_optional d then plan_dependencies rec s base ds plan st
          else Some (Inl (MissingProvider (pdep_token d)))
      | Some (Some e) \<Rightarrow>
          if pdep_lazy d then plan_dependencies rec s base ds plan st
          else (case rec e st of
                  None \<Rightarrow> None
                | Some (Inl err) \<Rightarrow> Some (Inl err)
                | Some (Inr (p, st')) \<Rightarrow>
                    plan_dependencies rec s base ds
                      (if rp_contextual p then plan\<lparr>rp_contextual := True\<rparr> else plan) st'))"

text \<open>
  \<open>resolution_plan_inner\<close>: entries under construction answer with their declared plan,
  finished ones with the remembered one. The fuel bounds the depth of the recursion; the
  number of cache keys is enough (\<open>plan_entry_total\<close>).
\<close>

primrec plan_entry ::
  "nat \<Rightarrow> provider_store \<Rightarrow> nat \<Rightarrow> provider_entry \<Rightarrow> plan_state \<Rightarrow> plan_result" where
  "plan_entry 0 s m e st = None"
| "plan_entry (Suc n) s m e st =
     (case bt_get (pl_memo st) (pe_key e) of
        Some p \<Rightarrow> Some (Inr (p, st))
      | None \<Rightarrow>
          (let declared = plan_declared (pdf_scope (pe_definition e)) in
           if pe_key e \<in> set (pl_visiting st) then Some (Inr (declared, st))
           else
             (let st1 = st\<lparr>pl_visiting := bs_insert (pe_key e) (pl_visiting st)\<rparr>;
                  base = owner_or m e;
                  outcome =
                    (case pdf_alias (pe_definition e) of
                       Some target \<Rightarrow>
                         (case get_entry s base target of
                            None \<Rightarrow> None
                          | Some None \<Rightarrow> Some (Inl (MissingProvider target))
                          | Some (Some t) \<Rightarrow> plan_entry n s base t st1)
                     | None \<Rightarrow>
                         (case pdf_dependencies (pe_definition e) of
                            None \<Rightarrow> Some (Inr (declared, st1))
                          | Some ds \<Rightarrow> plan_dependencies (plan_entry n s base) s base ds declared st1))
              in (case outcome of
                    None \<Rightarrow> None
                  | Some (Inl err) \<Rightarrow> Some (Inl err)
                  | Some (Inr (p, st2)) \<Rightarrow>
                      Some (Inr (p, \<lparr>pl_visiting = filter (\<lambda>k. k \<noteq> pe_key e) (pl_visiting st2),
                                     pl_memo = bt_insert (pe_key e) p (pl_memo st2)\<rparr>))))))"

text \<open>\<open>resolution_plan\<close>: a fresh state, with the counter of cache keys as fuel.\<close>

definition resolution_plan_of ::
  "provider_store \<Rightarrow> nat \<Rightarrow> provider_entry \<Rightarrow> (boot_error + resolution_plan) option" where
  "resolution_plan_of s m e =
     (case plan_entry (Suc (Suc (ps_next_key s))) s m e \<lparr>pl_visiting = [], pl_memo = []\<rparr> of
        None \<Rightarrow> None
      | Some r \<Rightarrow> Some (rmap fst r))"

definition validate_resolution_plan :: "provider_entry \<Rightarrow> resolution_plan \<Rightarrow> boot_error + unit" where
  "validate_resolution_plan e p =
     (if rp_contextual p \<and> pdf_factory (pe_definition e) = AsyncFactory
      then Inl (Internal (''async provider `'' @ pdf_token (pe_definition e) @
                          ''` cannot depend on a request-context provider''))
      else if rp_contextual p \<and> has_hooks (pdf_lifecycle (pe_definition e))
      then Inl (Internal (''provider `'' @ pdf_token (pe_definition e) @
                          ''` cannot use singleton lifecycle hooks because request scope propagated through its dependencies''))
      else Inr ())"

text \<open>The plans of all entries of a registry, in registration order.\<close>

fun validate_plans_loop ::
  "provider_store \<Rightarrow> nat \<Rightarrow> provider_entry list \<Rightarrow> (boot_error + unit) option" where
  "validate_plans_loop s m [] = Some (Inr ())"
| "validate_plans_loop s m (e # es) =
     (case resolution_plan_of s m e of
        None \<Rightarrow> None
      | Some (Inl err) \<Rightarrow> Some (Inl err)
      | Some (Inr p) \<Rightarrow>
          (case validate_resolution_plan e p of
             Inl err \<Rightarrow> Some (Inl err)
           | Inr _ \<Rightarrow> validate_plans_loop s m es))"

definition validate_local_resolution_plans :: "provider_store \<Rightarrow> nat \<Rightarrow> (boot_error + unit) option" where
  "validate_local_resolution_plans s m = validate_plans_loop s m (local_entries s m)"

definition token_is_contextual :: "provider_store \<Rightarrow> nat \<Rightarrow> str \<Rightarrow> (boot_error + bool) option" where
  "token_is_contextual s m tok =
     (case get_entry s m tok of
        None \<Rightarrow> None
      | Some None \<Rightarrow> Some (Inl (MissingProvider tok))
      | Some (Some e) \<Rightarrow>
          (case resolution_plan_of s m e of None \<Rightarrow> None | Some r \<Rightarrow> Some (rmap rp_contextual r)))"

definition token_scope :: "provider_store \<Rightarrow> nat \<Rightarrow> str \<Rightarrow> (boot_error + provider_scope) option" where
  "token_scope s m tok =
     (case get_entry s m tok of
        None \<Rightarrow> None
      | Some None \<Rightarrow> Some (Inl (MissingProvider tok))
      | Some (Some e) \<Rightarrow>
          (case resolution_plan_of s m e of None \<Rightarrow> None | Some r \<Rightarrow> Some (rmap rp_scope r)))"

section \<open>Stores\<close>

text \<open>
  What registration keeps: keys are below the counter, and an entry is determined by its
  key once it carries its owner, which is how the search returns it.
\<close>

definition stored :: "provider_store \<Rightarrow> provider_entry set" where
  "stored s = {with_owner m e | m tok e. bt_get (md_providers (module_of s m)) tok = Some e}"

definition store_ok :: "provider_store \<Rightarrow> bool" where
  "store_ok s \<longleftrightarrow> (\<forall>e \<in> stored s. pe_key e < ps_next_key s) \<and>
     (\<forall>e \<in> stored s. \<forall>e' \<in> stored s. pe_key e = pe_key e' \<longrightarrow> e = e')"

text \<open>The scopes that a registry sees are ranked below it.\<close>

definition ranked :: "provider_store \<Rightarrow> (nat \<Rightarrow> nat) \<Rightarrow> bool" where
  "ranked s rank \<longleftrightarrow>
     (\<forall>m. rank m \<le> length (ps_modules s) \<and> (\<forall>v \<in> set (md_visible (module_of s m)). rank v < rank m))"

lemma scope_search_total:
  "(\<And>v. v \<in> set vs \<Longrightarrow> f v \<noteq> None) \<Longrightarrow> scope_search f vs \<noteq> None"
  by (induction vs) (auto split: option.splits)

lemma scope_search_Some:
  "scope_search f vs = Some (Some e) \<Longrightarrow> \<exists>v \<in> set vs. f v = Some (Some e)"
  by (induction vs) (auto split: option.splits)

lemma get_entry_fuel_total:
  assumes "ranked s rank"
  shows "rank m < n \<Longrightarrow> get_entry_fuel n s tok m \<noteq> None"
proof (induction n arbitrary: m)
  case (Suc n)
  have "scope_search (get_entry_fuel n s tok) (md_visible (module_of s m)) \<noteq> None"
  proof (rule scope_search_total)
    fix v assume "v \<in> set (md_visible (module_of s m))"
    with assms have "rank v < rank m" by (auto simp: ranked_def)
    with Suc show "get_entry_fuel n s tok v \<noteq> None" by auto
  qed
  then show ?case by (auto split: option.splits)
qed simp

lemma get_entry_total: "ranked s rank \<Longrightarrow> get_entry s m tok \<noteq> None"
  unfolding get_entry_def by (rule get_entry_fuel_total) (auto simp: ranked_def less_Suc_eq_le)

lemma get_entry_fuel_stored: "get_entry_fuel n s tok m = Some (Some e) \<Longrightarrow> e \<in> stored s"
proof (induction n arbitrary: m)
  case (Suc n)
  show ?case
  proof (cases "bt_get (md_providers (module_of s m)) tok")
    case None
    with Suc.prems have "scope_search (get_entry_fuel n s tok) (md_visible (module_of s m)) = Some (Some e)"
      by simp
    from scope_search_Some [OF this] Suc.IH show ?thesis by blast
  next
    case (Some d)
    with Suc.prems show ?thesis by (auto simp: stored_def)
  qed
qed simp

lemma get_entry_stored: "get_entry s m tok = Some (Some e) \<Longrightarrow> e \<in> stored s"
  unfolding get_entry_def by (rule get_entry_fuel_stored)

lemma stored_owner: "e \<in> stored s \<Longrightarrow> pe_owner e \<noteq> None"
  by (auto simp: stored_def with_owner_def)

lemma with_owner_id [simp]: "pe_owner e \<noteq> None \<Longrightarrow> with_owner m e = e"
  by (simp add: with_owner_def)

lemma with_owner_simps [simp]:
  "pe_key (with_owner m e) = pe_key e" "pe_definition (with_owner m e) = pe_definition e"
  "owner_or m' (with_owner m e) = owner_or m e" "pe_owner (with_owner m e) = Some (owner_or m e)"
  by (auto simp: with_owner_def owner_or_def split: option.splits)

text \<open>The plan does not depend on whether the entry carries its owner already.\<close>

lemma plan_entry_with_owner: "plan_entry n s m' (with_owner m e) st = plan_entry n s m e st"
proof (cases n)
  case (Suc k)
  show ?thesis unfolding Suc plan_entry.simps with_owner_simps ..
qed simp

section \<open>What a plan says\<close>

text \<open>
  The edges that a plan follows: an alias has its target, another entry its declared
  dependencies that are not lazy. An entry is broken when the target of its alias or a
  required dependency, lazy or not, is not visible.
\<close>

definition eager_edges :: "provider_store \<Rightarrow> (provider_entry \<times> provider_entry) set" where
  "eager_edges s = {(x, y).
     (\<exists>tok. pdf_alias (pe_definition x) = Some tok \<and> get_entry s (owner_or 0 x) tok = Some (Some y)) \<or>
     (pdf_alias (pe_definition x) = None \<and>
       (\<exists>ds d. pdf_dependencies (pe_definition x) = Some ds \<and> d \<in> set ds \<and> \<not> pdep_lazy d \<and>
          get_entry s (owner_or 0 x) (pdep_token d) = Some (Some y)))}"

definition broken :: "provider_store \<Rightarrow> provider_entry \<Rightarrow> bool" where
  "broken s x \<longleftrightarrow>
     (\<exists>tok. pdf_alias (pe_definition x) = Some tok \<and> get_entry s (owner_or 0 x) tok = Some None) \<or>
     (pdf_alias (pe_definition x) = None \<and>
       (\<exists>ds d. pdf_dependencies (pe_definition x) = Some ds \<and> d \<in> set ds \<and> \<not> pdep_optional d \<and>
          get_entry s (owner_or 0 x) (pdep_token d) = Some None))"

definition request_entry :: "provider_entry \<Rightarrow> bool" where
  "request_entry x \<longleftrightarrow> pdf_scope (pe_definition x) = RequestScope"

lemma owner_or_owned: "pe_owner x \<noteq> None \<Longrightarrow> owner_or m x = owner_or m' x"
  by (auto simp: owner_or_def)

lemma eager_edges_stored: "(x, y) \<in> eager_edges s \<Longrightarrow> y \<in> stored s"
  by (auto simp: eager_edges_def intro: get_entry_stored)

lemma eager_reach_stored: "(x, y) \<in> (eager_edges s)\<^sup>* \<Longrightarrow> x \<in> stored s \<Longrightarrow> y \<in> stored s"
  by (induction rule: rtrancl_induct) (auto dest: eager_edges_stored)

text \<open>
  What one call of the search leaves behind, for the finished keys that it adds: their
  entries are not broken, their successors are finished or under construction, and a
  request entry among them makes the result contextual.
\<close>

definition planned :: "plan_state \<Rightarrow> nat set" where
  "planned st = {k. bt_get (pl_memo st) k \<noteq> None}"

definition explored :: "provider_store \<Rightarrow> nat set \<Rightarrow> nat set \<Rightarrow> nat set \<Rightarrow> bool \<Rightarrow> bool" where
  "explored s V D D' ctx \<longleftrightarrow>
     (\<forall>x \<in> stored s. pe_key x \<in> D' - D \<longrightarrow>
        \<not> broken s x \<and> (\<forall>y. (x, y) \<in> eager_edges s \<longrightarrow> pe_key y \<in> D' \<union> V) \<and>
        (pdf_alias (pe_definition x) = None \<longrightarrow> request_entry x \<longrightarrow> ctx))"

definition call_ok ::
  "provider_store \<Rightarrow> provider_entry \<Rightarrow> plan_state \<Rightarrow> resolution_plan \<Rightarrow> plan_state \<Rightarrow> bool" where
  "call_ok s x st p st' \<longleftrightarrow>
     set (pl_visiting st') = set (pl_visiting st) \<and> planned st \<subseteq> planned st' \<and>
     pe_key x \<in> planned st' \<union> set (pl_visiting st) \<and>
     explored s (set (pl_visiting st)) (planned st) (planned st') (rp_contextual p)"

lemma explored_trans:
  "explored s V D D1 c1 \<Longrightarrow> explored s V D1 D2 c2 \<Longrightarrow> D1 \<subseteq> D2 \<Longrightarrow> (c1 \<longrightarrow> c2) \<Longrightarrow> explored s V D D2 c2"
  unfolding explored_def by blast

lemma explored_same: "explored s V D D c"
  by (simp add: explored_def)

lemma plan_dependencies_ok:
  assumes rec: "\<And>y st p st'. y \<in> stored s \<Longrightarrow> rec y st = Some (Inr (p, st')) \<Longrightarrow> call_ok s y st p st'"
  shows "plan_dependencies rec s base ds plan st = Some (Inr (p, st')) \<Longrightarrow>
     set (pl_visiting st') = set (pl_visiting st) \<and> planned st \<subseteq> planned st' \<and>
     (\<forall>d \<in> set ds. \<not> pdep_optional d \<longrightarrow> get_entry s base (pdep_token d) \<noteq> Some None) \<and>
     (\<forall>d \<in> set ds. \<forall>y. \<not> pdep_lazy d \<longrightarrow> get_entry s base (pdep_token d) = Some (Some y) \<longrightarrow>
        pe_key y \<in> planned st' \<union> set (pl_visiting st)) \<and>
     explored s (set (pl_visiting st)) (planned st) (planned st') (rp_contextual p) \<and>
     (rp_contextual plan \<longrightarrow> rp_contextual p) \<and> rp_scope p = rp_scope plan"
proof (induction ds arbitrary: plan st)
  case Nil
  then show ?case by (simp add: explored_same)
next
  case (Cons d ds)
  consider (skip) "get_entry s base (pdep_token d) = Some None" "pdep_optional d"
      "plan_dependencies rec s base ds plan st = Some (Inr (p, st'))"
    | (later) e where "get_entry s base (pdep_token d) = Some (Some e)" "pdep_lazy d"
      "plan_dependencies rec s base ds plan st = Some (Inr (p, st'))"
    | (now) e q st1 where "get_entry s base (pdep_token d) = Some (Some e)" "\<not> pdep_lazy d"
      "rec e st = Some (Inr (q, st1))"
      "plan_dependencies rec s base ds (if rp_contextual q then plan\<lparr>rp_contextual := True\<rparr> else plan) st1
         = Some (Inr (p, st'))"
    using Cons.prems by (auto split: option.splits if_splits sum.splits)
  then show ?case
  proof cases
    case skip
    with Cons.IH [OF skip(3)] show ?thesis by simp
  next
    case (later e)
    with Cons.IH [OF later(3)] show ?thesis by simp
  next
    case (now e q st1)
    let ?plan = "if rp_contextual q then plan\<lparr>rp_contextual := True\<rparr> else plan"
    from rec [OF get_entry_stored [OF now(1)] now(3)] have
      V1: "set (pl_visiting st1) = set (pl_visiting st)" and D1: "planned st \<subseteq> planned st1"
      and e: "pe_key e \<in> planned st1 \<union> set (pl_visiting st)"
      and x1: "explored s (set (pl_visiting st)) (planned st) (planned st1) (rp_contextual q)"
      by (simp_all add: call_ok_def)
    from Cons.IH [OF now(4)] V1 have
      V2: "set (pl_visiting st') = set (pl_visiting st)" and D2: "planned st1 \<subseteq> planned st'"
      and opt: "\<forall>d \<in> set ds. \<not> pdep_optional d \<longrightarrow> get_entry s base (pdep_token d) \<noteq> Some None"
      and nxt: "\<forall>d \<in> set ds. \<forall>y. \<not> pdep_lazy d \<longrightarrow> get_entry s base (pdep_token d) = Some (Some y) \<longrightarrow>
        pe_key y \<in> planned st' \<union> set (pl_visiting st)"
      and x2: "explored s (set (pl_visiting st)) (planned st1) (planned st') (rp_contextual p)"
      and c: "rp_contextual ?plan \<longrightarrow> rp_contextual p" and sc: "rp_scope p = rp_scope ?plan"
      by simp_all
    from c have c': "rp_contextual q \<longrightarrow> rp_contextual p" "rp_contextual plan \<longrightarrow> rp_contextual p"
      by (auto split: if_splits)
    from sc have "rp_scope p = rp_scope plan" by (auto split: if_splits)
    with V2 D1 D2 opt nxt e c' now(1,2) explored_trans [OF x1 x2 D2 c'(1)] show ?thesis
      by auto
  qed
qed

definition plan_outcome ::
  "nat \<Rightarrow> provider_store \<Rightarrow> nat \<Rightarrow> provider_entry \<Rightarrow> plan_state \<Rightarrow> plan_result" where
  "plan_outcome n s base e st1 =
     (case pdf_alias (pe_definition e) of
        Some target \<Rightarrow>
          (case get_entry s base target of
             None \<Rightarrow> None
           | Some None \<Rightarrow> Some (Inl (MissingProvider target))
           | Some (Some t) \<Rightarrow> plan_entry n s base t st1)
      | None \<Rightarrow>
          (case pdf_dependencies (pe_definition e) of
             None \<Rightarrow> Some (Inr (plan_declared (pdf_scope (pe_definition e)), st1))
           | Some ds \<Rightarrow> plan_dependencies (plan_entry n s base) s base ds
                          (plan_declared (pdf_scope (pe_definition e))) st1))"

lemma plan_entry_Suc:
  "plan_entry (Suc n) s m e st =
     (case bt_get (pl_memo st) (pe_key e) of
        Some p \<Rightarrow> Some (Inr (p, st))
      | None \<Rightarrow>
          if pe_key e \<in> set (pl_visiting st)
          then Some (Inr (plan_declared (pdf_scope (pe_definition e)), st))
          else (case plan_outcome n s (owner_or m e) e
                       (st\<lparr>pl_visiting := bs_insert (pe_key e) (pl_visiting st)\<rparr>) of
                  None \<Rightarrow> None
                | Some (Inl err) \<Rightarrow> Some (Inl err)
                | Some (Inr (p, st2)) \<Rightarrow>
                    Some (Inr (p, \<lparr>pl_visiting = filter (\<lambda>k. k \<noteq> pe_key e) (pl_visiting st2),
                                   pl_memo = bt_insert (pe_key e) p (pl_memo st2)\<rparr>))))"
  unfolding plan_entry.simps plan_outcome_def Let_def ..

lemma plan_outcome_ok:
  assumes rec: "\<And>y st p st'. y \<in> stored s \<Longrightarrow> plan_entry n s base y st = Some (Inr (p, st')) \<Longrightarrow> call_ok s y st p st'"
    and base: "base = owner_or 0 e"
    and out: "plan_outcome n s base e st = Some (Inr (p, st'))"
  shows "set (pl_visiting st') = set (pl_visiting st) \<and> planned st \<subseteq> planned st' \<and>
     explored s (set (pl_visiting st)) (planned st) (planned st') (rp_contextual p) \<and>
     \<not> broken s e \<and> (\<forall>y. (e, y) \<in> eager_edges s \<longrightarrow> pe_key y \<in> planned st' \<union> set (pl_visiting st)) \<and>
     (pdf_alias (pe_definition e) = None \<longrightarrow> request_entry e \<longrightarrow> rp_contextual p)"
proof (cases "pdf_alias (pe_definition e)")
  case (Some target)
  with out obtain t where t: "get_entry s base target = Some (Some t)"
    "plan_entry n s base t st = Some (Inr (p, st'))"
    by (auto simp: plan_outcome_def split: option.splits)
  from rec [OF get_entry_stored [OF t(1)] t(2)] t(1) Some show ?thesis
    by (simp add: call_ok_def broken_def eager_edges_def base)
next
  case None
  note no_alias = None
  show ?thesis
  proof (cases "pdf_dependencies (pe_definition e)")
    case None
    with out no_alias show ?thesis
      by (auto simp: plan_outcome_def explored_same broken_def eager_edges_def plan_declared_def request_entry_def)
  next
    case (Some ds)
    with out no_alias have l: "plan_dependencies (plan_entry n s base) s base ds
        (plan_declared (pdf_scope (pe_definition e))) st = Some (Inr (p, st'))"
      by (simp add: plan_outcome_def)
    from plan_dependencies_ok [OF rec l] Some no_alias show ?thesis
      by (auto simp: broken_def eager_edges_def base plan_declared_def request_entry_def)
  qed
qed

lemma plan_entry_ok:
  assumes ok: "store_ok s"
  shows "e \<in> stored s \<Longrightarrow> plan_entry n s m e st = Some (Inr (p, st')) \<Longrightarrow> call_ok s e st p st'"
proof (induction n arbitrary: m e st p st')
  case (Suc n)
  show ?case
  proof (cases "bt_get (pl_memo st) (pe_key e)")
    case (Some q)
    with Suc.prems(2) have "st' = st"
      unfolding plan_entry_Suc by simp
    with Some show ?thesis by (simp add: call_ok_def planned_def explored_same)
  next
    case None
    note no_memo = None
    show ?thesis
    proof (cases "pe_key e \<in> set (pl_visiting st)")
      case True
      with no_memo Suc.prems(2) have "st' = st"
        unfolding plan_entry_Suc by simp
      with True show ?thesis by (simp add: call_ok_def explored_same)
    next
      case False
      let ?st1 = "st\<lparr>pl_visiting := bs_insert (pe_key e) (pl_visiting st)\<rparr>"
      let ?V = "set (pl_visiting st)"
      from no_memo False Suc.prems(2) obtain st2 where
        out: "plan_outcome n s (owner_or m e) e ?st1 = Some (Inr (p, st2))"
        and st': "st' = \<lparr>pl_visiting = filter (\<lambda>k. k \<noteq> pe_key e) (pl_visiting st2),
                        pl_memo = bt_insert (pe_key e) p (pl_memo st2)\<rparr>"
        unfolding plan_entry_Suc by (auto split: option.splits sum.splits)
      have base: "owner_or m e = owner_or 0 e"
        using stored_owner [OF Suc.prems(1)] by (rule owner_or_owned)
      have p1: "planned ?st1 = planned st" by (simp add: planned_def)
      have p2: "planned st' = insert (pe_key e) (planned st2)"
        by (auto simp: planned_def st')
      from plan_outcome_ok [OF Suc.IH base out] have
        V2: "set (pl_visiting st2) = insert (pe_key e) ?V" and D2: "planned st \<subseteq> planned st2"
        and ex: "explored s (insert (pe_key e) ?V) (planned st) (planned st2) (rp_contextual p)"
        and e: "\<not> broken s e" "\<forall>y. (e, y) \<in> eager_edges s \<longrightarrow> pe_key y \<in> planned st2 \<union> insert (pe_key e) ?V"
          "pdf_alias (pe_definition e) = None \<longrightarrow> request_entry e \<longrightarrow> rp_contextual p"
        by (simp_all add: p1)
      have same: "x = e" if "x \<in> stored s" "pe_key x = pe_key e" for x
        using that ok Suc.prems(1) unfolding store_ok_def by blast
      have "explored s ?V (planned st) (planned st') (rp_contextual p)"
        unfolding explored_def
      proof (intro ballI impI)
        fix x assume x: "x \<in> stored s" "pe_key x \<in> planned st' - planned st"
        show "\<not> broken s x \<and> (\<forall>y. (x, y) \<in> eager_edges s \<longrightarrow> pe_key y \<in> planned st' \<union> ?V) \<and>
          (pdf_alias (pe_definition x) = None \<longrightarrow> request_entry x \<longrightarrow> rp_contextual p)"
        proof (cases "pe_key x = pe_key e")
          case True
          then have "x = e" using same x(1) by blast
          with e show ?thesis by (auto simp: p2)
        next
          case False
          with x p2 have "pe_key x \<in> planned st2 - planned st" by simp
          with ex x(1) show ?thesis unfolding explored_def p2 by blast
        qed
      qed
      moreover have V': "set (pl_visiting st') = ?V"
        using V2 False by (auto simp: st')
      ultimately show ?thesis
        using D2 unfolding call_ok_def V' p2 by auto
    qed
  qed
qed simp

text \<open>The other direction: only reachable entries make a plan contextual or fail.\<close>

definition reaches_request :: "provider_store \<Rightarrow> provider_entry \<Rightarrow> bool" where
  "reaches_request s x \<longleftrightarrow> (\<exists>y. (x, y) \<in> (eager_edges s)\<^sup>* \<and> request_entry y)"

definition reaches_broken :: "provider_store \<Rightarrow> provider_entry \<Rightarrow> bool" where
  "reaches_broken s x \<longleftrightarrow> (\<exists>y. (x, y) \<in> (eager_edges s)\<^sup>* \<and> broken s y)"

lemma reaches_step:
  "(x, y) \<in> eager_edges s \<Longrightarrow> reaches_request s y \<Longrightarrow> reaches_request s x"
  "(x, y) \<in> eager_edges s \<Longrightarrow> reaches_broken s y \<Longrightarrow> reaches_broken s x"
  unfolding reaches_request_def reaches_broken_def by (meson converse_rtrancl_into_rtrancl)+

lemma reaches_self:
  "request_entry x \<Longrightarrow> reaches_request s x" "broken s x \<Longrightarrow> reaches_broken s x"
  unfolding reaches_request_def reaches_broken_def by blast+

definition memo_sound :: "provider_store \<Rightarrow> plan_state \<Rightarrow> bool" where
  "memo_sound s st \<longleftrightarrow>
     (\<forall>x \<in> stored s. \<forall>p. bt_get (pl_memo st) (pe_key x) = Some p \<longrightarrow> rp_contextual p \<longrightarrow> reaches_request s x)"

fun result_sound :: "provider_store \<Rightarrow> provider_entry \<Rightarrow> boot_error + resolution_plan \<times> plan_state \<Rightarrow> bool" where
  "result_sound s x (Inl err) = (reaches_broken s x \<and> (\<exists>tok. err = MissingProvider tok))"
| "result_sound s x (Inr (p, st)) = (memo_sound s st \<and> (rp_contextual p \<longrightarrow> reaches_request s x))"

lemma plan_dependencies_sound:
  assumes rec: "\<And>y st r. y \<in> stored s \<Longrightarrow> memo_sound s st \<Longrightarrow> rec y st = Some r \<Longrightarrow> result_sound s y r"
    and x: "pdf_alias (pe_definition x) = None" "pdf_dependencies (pe_definition x) = Some all" "base = owner_or 0 x"
  shows "set ds \<subseteq> set all \<Longrightarrow> memo_sound s st \<Longrightarrow> (rp_contextual plan \<longrightarrow> reaches_request s x) \<Longrightarrow>
     plan_dependencies rec s base ds plan st = Some r \<Longrightarrow> result_sound s x r"
proof (induction ds arbitrary: plan st)
  case Nil
  then show ?case by auto
next
  case (Cons d ds)
  have sub: "set ds \<subseteq> set all" "d \<in> set all" using Cons.prems(1) by auto
  show ?case
  proof (cases "get_entry s base (pdep_token d)")
    case None
    with Cons.prems(4) show ?thesis by simp
  next
    case (Some found)
    note entry = Some
    show ?thesis
    proof (cases found)
      case None
      show ?thesis
      proof (cases "pdep_optional d")
        case True
        with Cons.prems(4) entry None have "plan_dependencies rec s base ds plan st = Some r" by simp
        with Cons.IH [OF sub(1) Cons.prems(2,3)] show ?thesis by blast
      next
        case False
        with x sub entry None have "broken s x" unfolding broken_def by blast
        with False Cons.prems(4) entry None reaches_self(2) show ?thesis by auto
      qed
    next
      case (Some e)
      show ?thesis
      proof (cases "pdep_lazy d")
        case True
        with Cons.prems(4) entry Some have "plan_dependencies rec s base ds plan st = Some r" by simp
        with Cons.IH [OF sub(1) Cons.prems(2,3)] show ?thesis by blast
      next
        case False
        with x sub entry Some have edge: "(x, e) \<in> eager_edges s" unfolding eager_edges_def by blast
        from entry Some have e: "e \<in> stored s" by (simp add: get_entry_stored)
        from Cons.prems(4) entry Some False obtain q where q: "rec e st = Some q"
          by (auto split: option.splits)
        note snd_ok = rec [OF e Cons.prems(2) q]
        show ?thesis
        proof (cases q)
          case (Inl err)
          with Cons.prems(4) entry Some False q have "r = Inl err" by simp
          with snd_ok Inl reaches_step(2) [OF edge] show ?thesis by simp
        next
          case (Inr ps)
          obtain p st1 where ps: "ps = (p, st1)" by (cases ps)
          from snd_ok Inr ps have st1: "memo_sound s st1" and p: "rp_contextual p \<longrightarrow> reaches_request s e"
            by simp_all
          from Cons.prems(4) entry Some False q Inr ps have l:
            "plan_dependencies rec s base ds (if rp_contextual p then plan\<lparr>rp_contextual := True\<rparr> else plan) st1 = Some r"
            by simp
          show ?thesis
            by (rule Cons.IH [OF sub(1) st1 _ l]) (use p Cons.prems(3) reaches_step(1) [OF edge] in auto)
        qed
      qed
    qed
  qed
qed

lemma plan_outcome_sound:
  assumes rec: "\<And>y st r. y \<in> stored s \<Longrightarrow> memo_sound s st \<Longrightarrow> plan_entry n s base y st = Some r \<Longrightarrow> result_sound s y r"
    and base: "base = owner_or 0 e" and st: "memo_sound s st"
    and out: "plan_outcome n s base e st = Some r"
  shows "result_sound s e r"
proof (cases "pdf_alias (pe_definition e)")
  case (Some target)
  show ?thesis
  proof (cases "get_entry s base target = Some None")
    case True
    with Some base have "broken s e" by (simp add: broken_def)
    with True Some out reaches_self show ?thesis by (auto simp: plan_outcome_def)
  next
    case False
    with Some out obtain t where t: "get_entry s base target = Some (Some t)" "plan_entry n s base t st = Some r"
      by (auto simp: plan_outcome_def split: option.splits)
    with Some base have "(e, t) \<in> eager_edges s" by (simp add: eager_edges_def)
    with rec [OF get_entry_stored [OF t(1)] st t(2)] reaches_step show ?thesis
      by (cases r) auto
  qed
next
  case None
  have decl: "rp_contextual (plan_declared (pdf_scope (pe_definition e))) \<longrightarrow> reaches_request s e"
    by (auto simp: plan_declared_def request_entry_def intro: reaches_self)
  show ?thesis
  proof (cases "pdf_dependencies (pe_definition e)")
    case (Some ds)
    with None out plan_dependencies_sound [OF rec None Some base subset_refl st decl] show ?thesis
      by (simp add: plan_outcome_def)
  qed (use None out decl st in \<open>auto simp: plan_outcome_def\<close>)
qed

lemma plan_entry_sound:
  assumes ok: "store_ok s"
  shows "e \<in> stored s \<Longrightarrow> memo_sound s st \<Longrightarrow> plan_entry n s m e st = Some r \<Longrightarrow> result_sound s e r"
proof (induction n arbitrary: m e st r)
  case (Suc n)
  let ?st1 = "st\<lparr>pl_visiting := bs_insert (pe_key e) (pl_visiting st)\<rparr>"
  have base: "owner_or m e = owner_or 0 e"
    using stored_owner [OF Suc.prems(1)] by (rule owner_or_owned)
  have st1: "memo_sound s ?st1"
    using Suc.prems(2) by (simp add: memo_sound_def)
  have decl: "rp_contextual (plan_declared (pdf_scope (pe_definition e))) \<longrightarrow> reaches_request s e"
    by (auto simp: plan_declared_def request_entry_def intro: reaches_self)
  consider (memo) p where "bt_get (pl_memo st) (pe_key e) = Some p" "r = Inr (p, st)"
    | (visiting) "r = Inr (plan_declared (pdf_scope (pe_definition e)), st)"
    | (fail) err where "plan_outcome n s (owner_or m e) e ?st1 = Some (Inl err)" "r = Inl err"
    | (fresh) p st2 where "plan_outcome n s (owner_or m e) e ?st1 = Some (Inr (p, st2))"
      "r = Inr (p, \<lparr>pl_visiting = filter (\<lambda>k. k \<noteq> pe_key e) (pl_visiting st2),
                    pl_memo = bt_insert (pe_key e) p (pl_memo st2)\<rparr>)"
    using Suc.prems(3) unfolding plan_entry_Suc by (auto split: option.splits sum.splits if_splits)
  then show ?case
  proof cases
    case memo
    with Suc.prems(1,2) show ?thesis by (auto simp: memo_sound_def)
  next
    case visiting
    with Suc.prems(2) decl show ?thesis by simp
  next
    case (fail err)
    with plan_outcome_sound [OF Suc.IH base st1 fail(1)] show ?thesis by simp
  next
    case (fresh p st2)
    from plan_outcome_sound [OF Suc.IH base st1 fresh(1)]
    have st2: "memo_sound s st2" and p: "rp_contextual p \<longrightarrow> reaches_request s e" by simp_all
    have same: "x = e" if "x \<in> stored s" "pe_key x = pe_key e" for x
      using that ok Suc.prems(1) unfolding store_ok_def by blast
    have "memo_sound s \<lparr>pl_visiting = filter (\<lambda>k. k \<noteq> pe_key e) (pl_visiting st2),
                    pl_memo = bt_insert (pe_key e) p (pl_memo st2)\<rparr>"
      using st2 p same unfolding memo_sound_def by (auto split: if_splits)
    with fresh(2) p show ?thesis by simp
  qed
qed simp

subsection \<open>The fuel is enough\<close>

lemma plan_dependencies_total:
  assumes "ranked s rank"
    and tot: "\<And>y st. y \<in> stored s \<Longrightarrow> set (pl_visiting st) = W \<Longrightarrow> rec y st \<noteq> None"
    and keep: "\<And>y st p st'. y \<in> stored s \<Longrightarrow> rec y st = Some (Inr (p, st')) \<Longrightarrow> set (pl_visiting st') = set (pl_visiting st)"
  shows "set (pl_visiting st) = W \<Longrightarrow> plan_dependencies rec s base ds plan st \<noteq> None"
proof (induction ds arbitrary: plan st)
  case (Cons d ds)
  from get_entry_total [OF assms(1)] obtain found where f: "get_entry s base (pdep_token d) = Some found"
    by blast
  show ?case
  proof (cases found)
    case None
    with f Cons show ?thesis by simp
  next
    case (Some e)
    with f have e: "e \<in> stored s" by (simp add: get_entry_stored)
    from tot [OF e Cons.prems] obtain q where q: "rec e st = Some q" by blast
    show ?thesis
    proof (cases q)
      case (Inl err)
      with q f Some Cons show ?thesis by simp
    next
      case (Inr ps)
      obtain p st1 where "ps = (p, st1)" by (cases ps)
      with Inr q keep [OF e] Cons.prems have "rec e st = Some (Inr (p, st1))" "set (pl_visiting st1) = W" by auto
      with f Some Cons show ?thesis by simp
    qed
  qed
qed simp

lemma plan_entry_total:
  assumes ok: "store_ok s" and rk: "ranked s rank"
  shows "e \<in> stored s \<Longrightarrow> card ({..<ps_next_key s} - set (pl_visiting st)) < n \<Longrightarrow> plan_entry n s m e st \<noteq> None"
proof (induction n arbitrary: m e st)
  case (Suc n)
  show ?case
  proof (cases "bt_get (pl_memo st) (pe_key e) = None \<and> pe_key e \<notin> set (pl_visiting st)")
    case False
    then show ?thesis unfolding plan_entry_Suc by (auto split: option.splits)
  next
    case True
    let ?st1 = "st\<lparr>pl_visiting := bs_insert (pe_key e) (pl_visiting st)\<rparr>"
    let ?W = "insert (pe_key e) (set (pl_visiting st))"
    have "pe_key e < ps_next_key s"
      using ok Suc.prems(1) by (auto simp: store_ok_def)
    with True have "{..<ps_next_key s} - ?W \<subset> {..<ps_next_key s} - set (pl_visiting st)" by auto
    then have "card ({..<ps_next_key s} - ?W) < card ({..<ps_next_key s} - set (pl_visiting st))"
      by (rule psubset_card_mono [rotated]) simp
    with Suc.prems(2) have less: "card ({..<ps_next_key s} - ?W) < n" by simp
    have rec: "plan_entry n s b y st' \<noteq> None" if "y \<in> stored s" "set (pl_visiting st') = ?W" for b y st'
      using Suc.IH [of y st' b] that less by simp
    have keep: "set (pl_visiting st') = set (pl_visiting st)"
      if "y \<in> stored s" "plan_entry n s b y st = Some (Inr (p, st'))" for b y st p st'
      using plan_entry_ok [OF ok that] by (simp add: call_ok_def)
    have "plan_outcome n s (owner_or m e) e ?st1 \<noteq> None"
    proof (cases "pdf_alias (pe_definition e)")
      case None
      then show ?thesis
        using plan_dependencies_total [OF rk, of ?W "plan_entry n s (owner_or m e)" ?st1, OF rec keep]
        by (auto simp: plan_outcome_def split: option.splits)
    next
      case (Some target)
      from get_entry_total [OF rk] obtain found where f: "get_entry s (owner_or m e) target = Some found" by blast
      with Some show ?thesis
        using rec [OF get_entry_stored, of "owner_or m e" target _ ?st1 "owner_or m e"]
        by (cases found) (auto simp: plan_outcome_def)
    qed
    with True show ?thesis
      unfolding plan_entry_Suc by (auto split: option.splits sum.splits)
  qed
qed simp

lemma resolution_plan_total:
  assumes "store_ok s" "ranked s rank" "with_owner m e \<in> stored s"
  shows "\<exists>r. plan_entry (Suc (Suc (ps_next_key s))) s m e \<lparr>pl_visiting = [], pl_memo = []\<rparr> = Some r"
proof -
  have "plan_entry (Suc (Suc (ps_next_key s))) s m (with_owner m e) \<lparr>pl_visiting = [], pl_memo = []\<rparr> \<noteq> None"
    by (rule plan_entry_total [OF assms]) simp
  then show ?thesis by (auto simp only: plan_entry_with_owner not_None_eq)
qed

lemma closed_reach:
  assumes "explored s {} {} D c" "pe_key x \<in> D" "x \<in> stored s" "(x, y) \<in> (eager_edges s)\<^sup>*"
  shows "pe_key y \<in> D \<and> y \<in> stored s"
  using assms(4)
proof (induction rule: rtrancl_induct)
  case (step y z)
  with assms(1) show ?case unfolding explored_def by (auto intro: eager_edges_stored)
qed (use assms in simp)

lemma plan_correct:
  assumes ok: "store_ok s" and rk: "ranked s rank" and e: "with_owner m e \<in> stored s"
    and plain: "\<forall>x \<in> stored s. pdf_alias (pe_definition x) \<noteq> None \<longrightarrow> \<not> request_entry x"
  shows "\<exists>r. resolution_plan_of s m e = Some r \<and>
           (is_ok r \<longleftrightarrow> \<not> reaches_broken s (with_owner m e)) \<and>
           (\<forall>p. r = Inr p \<longrightarrow>
              (rp_contextual p \<longleftrightarrow> reaches_request s (with_owner m e)) \<and>
              (pdf_alias (pe_definition e) = None \<longrightarrow> rp_scope p = pdf_scope (pe_definition e)))"
proof -
  let ?x = "with_owner m e" and ?st = "\<lparr>pl_visiting = [], pl_memo = []\<rparr>"
  let ?n = "Suc (ps_next_key s)"
  from resolution_plan_total [OF ok rk e] obtain r where
    r: "plan_entry (Suc ?n) s m e ?st = Some r" ..
  then have rx: "plan_entry (Suc ?n) s m ?x ?st = Some r" by (simp only: plan_entry_with_owner)
  have sound: "result_sound s ?x r"
    by (rule plan_entry_sound [OF ok e _ rx]) (simp add: memo_sound_def)
  have res: "resolution_plan_of s m e = Some (rmap fst r)"
    using r by (simp only: resolution_plan_of_def option.case)
  show ?thesis
  proof (cases r)
    case (Inl err)
    with sound res show ?thesis by simp
  next
    case (Inr ps)
    obtain p st' where ps: "ps = (p, st')" by (cases ps)
    with Inr rx have "plan_entry (Suc ?n) s m ?x ?st = Some (Inr (p, st'))" by simp
    note done1 = plan_entry_ok [OF ok e this]
    then have x: "pe_key ?x \<in> planned st'" and ex: "explored s {} {} (planned st') (rp_contextual p)"
      by (simp_all add: call_ok_def planned_def)
    have reach: "pe_key y \<in> planned st' \<and> y \<in> stored s" if "(?x, y) \<in> (eager_edges s)\<^sup>*" for y
      by (rule closed_reach [OF ex x e that])
    have "\<not> reaches_broken s ?x"
      using reach ex unfolding reaches_broken_def explored_def by blast
    moreover have "rp_contextual p" if "reaches_request s ?x"
    proof -
      from that obtain y where "(?x, y) \<in> (eager_edges s)\<^sup>*" "request_entry y"
        unfolding reaches_request_def by blast
      with reach [of y] ex plain show ?thesis unfolding explored_def by blast
    qed
    moreover have "rp_scope p = pdf_scope (pe_definition e)" if none: "pdf_alias (pe_definition e) = None"
    proof -
      from r Inr ps obtain st2 where
        out: "plan_outcome ?n s (owner_or m e) e (?st\<lparr>pl_visiting := [pe_key e]\<rparr>) = Some (Inr (p, st2))"
        unfolding plan_entry_Suc by (auto split: option.splits sum.splits)
      show ?thesis
      proof (cases "pdf_dependencies (pe_definition e)")
        case None
        with out none show ?thesis by (auto simp: plan_outcome_def plan_declared_def)
      next
        case (Some ds)
        with out none have "plan_dependencies (plan_entry ?n s (owner_or m e)) s (owner_or m e) ds
            (plan_declared (pdf_scope (pe_definition e))) (?st\<lparr>pl_visiting := [pe_key e]\<rparr>) = Some (Inr (p, st2))"
          by (simp add: plan_outcome_def del: plan_entry.simps)
        note l = this
        have "call_ok s y st q st1"
          if "y \<in> stored s" "plan_entry ?n s (owner_or m e) y st = Some (Inr (q, st1))" for y st q st1
          using that by (rule plan_entry_ok [OF ok])
        from plan_dependencies_ok [OF this l]
        have "rp_scope p = rp_scope (plan_declared (pdf_scope (pe_definition e)))" by blast
        then show ?thesis by (simp add: plan_declared_def)
      qed
    qed
    moreover have "rp_contextual p \<Longrightarrow> reaches_request s ?x"
      using sound Inr ps by simp
    ultimately show ?thesis using res Inr ps by auto
  qed
qed


abbreviation graph_service :: provider_entry where
  "graph_service \<equiv> \<lparr>pe_key = 2,
     pe_definition = with_dependency (dependency_named ''Cfg'') (named_factory ''Svc''), pe_owner = None\<rparr>"

abbreviation graph_example :: provider_store where
  "graph_example \<equiv> \<lparr>ps_modules =
     [\<lparr>md_providers =
         [(''Cfg'', \<lparr>pe_key = 1, pe_definition = with_scope RequestScope (named_factory ''Cfg''), pe_owner = None\<rparr>),
          (''Svc'', graph_service)],
       md_order = [''Cfg'', ''Svc''], md_visible = []\<rparr>], ps_next_key = 3\<rparr>"

lemma graph_example_stored:
  "stored graph_example \<subseteq>
     {\<lparr>pe_key = 1, pe_definition = with_scope RequestScope (named_factory ''Cfg''), pe_owner = Some 0\<rparr>,
      with_owner 0 graph_service}"
  by (auto simp: stored_def module_of_def module_data_new_def bt_get_def with_owner_def split: if_splits)

lemma store_ok_two:
  "stored s \<subseteq> {a, b} \<Longrightarrow> pe_key a \<noteq> pe_key b \<Longrightarrow> pe_key a < ps_next_key s \<Longrightarrow> pe_key b < ps_next_key s
     \<Longrightarrow> store_ok s"
  unfolding store_ok_def by (metis (no_types, lifting) empty_iff insert_iff subsetD)


section \<open>Registration keeps stores well-formed\<close>

lemma stored_update:
  "stored (update_module m d s) \<subseteq>
     stored s \<union> {with_owner m e | tok e. bt_get (md_providers d) tok = Some e}"
proof
  fix x assume "x \<in> stored (update_module m d s)"
  then obtain i tok e where x: "x = with_owner i e"
    and e: "bt_get (md_providers (module_of (update_module m d s) i)) tok = Some e"
    by (auto simp: stored_def)
  show "x \<in> stored s \<union> {with_owner m e | tok e. bt_get (md_providers d) tok = Some e}"
  proof (cases "i = m \<and> m < length (ps_modules s)")
    case True
    with e x show ?thesis by (auto simp: update_module_def module_of_def)
  next
    case False
    then have "module_of (update_module m d s) i = module_of s i"
      by (auto simp: update_module_def module_of_def)
    with e x show ?thesis by (auto simp: stored_def)
  qed
qed

lemma ps_next_update [simp]: "ps_next_key (update_module m d s) = ps_next_key s"
  by (simp add: update_module_def)

lemma module_of_stored:
  "bt_get (md_providers (module_of s m)) tok = Some e \<Longrightarrow> with_owner m e \<in> stored s"
  by (auto simp: stored_def)

lemma store_ok_mono:
  "store_ok s \<Longrightarrow> stored s' \<subseteq> stored s \<Longrightarrow> ps_next_key s \<le> ps_next_key s' \<Longrightarrow> store_ok s'"
  unfolding store_ok_def by (meson order_less_le_trans subsetD)

lemma store_ok_new_module: "store_ok s \<Longrightarrow> store_ok (snd (module_ref_new s))"
  by (erule store_ok_mono)
    (auto simp: stored_def module_ref_new_def module_of_def nth_append module_data_new_def split: if_splits)

lemma store_ok_visible: "store_ok s \<Longrightarrow> store_ok (add_visible_scope m v s)"
proof (erule store_ok_mono)
  show "stored (add_visible_scope m v s) \<subseteq> stored s"
    unfolding add_visible_scope_def using stored_update by (fastforce dest: module_of_stored)
qed (simp add: add_visible_scope_def)

lemma stored_insert_entry:
  "insert_entry m tok e s = Inr s' \<Longrightarrow> stored s' \<subseteq> insert (with_owner m e) (stored s) \<and> ps_next_key s' = ps_next_key s"
proof -
  assume "insert_entry m tok e s = Inr s'"
  then have s': "s' = update_module m ((module_of s m)\<lparr>md_providers := bt_insert tok e (md_providers (module_of s m)),
      md_order := md_order (module_of s m) @ [tok]\<rparr>) s"
    by (auto simp: insert_entry_def Let_def split: if_splits)
  have "stored s' \<subseteq> stored s \<union> {with_owner m x | t x. (if t = tok then Some e
      else bt_get (md_providers (module_of s m)) t) = Some x}"
    unfolding s' by (rule order_trans [OF stored_update]) simp
  also have "\<dots> \<subseteq> insert (with_owner m e) (stored s)"
    by (auto dest: module_of_stored split: if_splits)
  finally show ?thesis by (simp add: s')
qed

lemma store_ok_register:
  assumes ok: "store_ok s"
    and reg: "register_provider m d s = Inr s' \<or> register_provider_async m d s = Inr s'"
  shows "store_ok s'"
proof -
  let ?e = "\<lparr>pe_key = ps_next_key s, pe_definition = d, pe_owner = None\<rparr>"
  let ?s1 = "s\<lparr>ps_next_key := Suc (ps_next_key s)\<rparr>"
  from reg have "insert_entry m (pdf_token d) ?e ?s1 = Inr s'"
    by (auto simp: register_provider_def register_provider_async_def provider_entry_new_def
        result_simps split: if_splits)
  note ins = stored_insert_entry [OF this]
  have "stored ?s1 = stored s" by (simp add: stored_def module_of_def)
  with ins have sub: "stored s' \<subseteq> insert (with_owner m ?e) (stored s)" and n: "ps_next_key s' = Suc (ps_next_key s)"
    by simp_all
  have small: "pe_key x < ps_next_key s" if "x \<in> stored s" for x
    using ok that by (simp add: store_ok_def)
  have "x = y" if "x \<in> stored s'" "y \<in> stored s'" "pe_key x = pe_key y" for x y
  proof (cases "x \<in> stored s \<and> y \<in> stored s")
    case True
    with ok that show ?thesis by (simp add: store_ok_def)
  next
    case False
    with sub that have "x = with_owner m ?e \<or> y = with_owner m ?e" by auto
    then have "pe_key x = ps_next_key s" using that(3) by auto
    with small that(3) have "x \<notin> stored s" "y \<notin> stored s" by (metis less_irrefl)+
    with sub that(1,2) show ?thesis by auto
  qed
  moreover have "pe_key x < ps_next_key s'" if "x \<in> stored s'" for x
    using sub that small n by (auto simp: less_Suc_eq)
  ultimately show ?thesis by (simp add: store_ok_def)
qed

lemma store_ok_export:
  assumes ok: "store_ok s" and ex: "export_from m source tok s = Some (Inr s')"
  shows "store_ok s'"
proof -
  from ex obtain e where e: "get_entry s source tok = Some (Some e)"
    and ins: "insert_entry m tok (with_owner source e) s = Inr s'"
    by (auto simp: export_from_def split: option.splits)
  from get_entry_stored [OF e] have "with_owner source e = e" "with_owner m e = e" "e \<in> stored s"
    by (auto dest: stored_owner)
  with stored_insert_entry [OF ins] ok show ?thesis
    by (auto intro: store_ok_mono)
qed

end
