(* ===== verification/Provider_Resolve.thy ===== *)
theory Provider_Resolve
  imports Provider_Graph
begin

text \<open>
  The run-time side of dependency injection without the values: the stack of providers
  under construction (\<open>provider/resolution.rs\<close>), the decision where an instance comes from
  (\<open>resolve\<close> and its parts in \<open>provider/entry.rs\<close>, \<open>get_any_with_context_inner\<close> in
  \<open>provider/module_ref.rs\<close>), and the order in which asynchronous singletons are built
  (\<open>seed_async_dependency_tree\<close>). What the decision returns is the cache and the key of the
  call of \<open>get_or_try_insert_with\<close> that \<^theory_text>\<open>Provider_Cache\<close> models, with the view of the module
  that the factory would get.
\<close>

section \<open>The resolution stack\<close>

text \<open>The flag of a frame is shared with its guard, which clears it.\<close>

record resolution_frame =
  rf_key :: nat
  rf_token :: str
  rf_active :: bool

definition resolution_stack_is_empty :: "resolution_frame list \<Rightarrow> bool" where
  "resolution_stack_is_empty fs \<longleftrightarrow> \<not> list_ex rf_active fs"

definition ensure_not_resolving :: "resolution_frame list \<Rightarrow> nat \<Rightarrow> str \<Rightarrow> boot_error + unit" where
  "ensure_not_resolving fs key tok =
     (let active = filter rf_active fs;
          rest = dropWhile (\<lambda>f. rf_key f \<noteq> key) active
      in if rest \<noteq> []
         then Inl (Internal (''cyclic provider dependency detected: '' @
                             join_with '' -> '' (map rf_token rest @ [tok])))
         else Inr ())"

definition enter_resolution_stack ::
  "resolution_frame list \<Rightarrow> nat \<Rightarrow> str \<Rightarrow> boot_error + resolution_frame list" where
  "enter_resolution_stack fs key tok =
     rbind (ensure_not_resolving fs key tok) (\<lambda>_.
       Inr (filter rf_active fs @ [\<lparr>rf_key = key, rf_token = tok, rf_active = True\<rparr>]))"

definition resolution_chain_with :: "resolution_frame list \<Rightarrow> str \<Rightarrow> str" where
  "resolution_chain_with fs tok = join_with '' -> '' (map rf_token (filter rf_active fs) @ [tok])"

section \<open>Where an instance comes from\<close>

text \<open>
  A context is strong or a weak reference; \<open>live\<close> says of a weak one whether its state is
  still there.
\<close>

record context_id =
  ci_id :: nat
  ci_strong :: bool

definition context_downgrade :: "context_id \<Rightarrow> context_id" where
  "context_downgrade c = c\<lparr>ci_strong := False\<rparr>"

datatype cache_ref = SingletonCache nat | ContextCache nat | TransientCache nat

definition context_cache :: "(nat \<Rightarrow> bool) \<Rightarrow> context_id \<Rightarrow> boot_error + cache_ref" where
  "context_cache live c =
     (if ci_strong c \<or> live (ci_id c) then Inr (ContextCache (ci_id c))
      else Inl (Internal (''dependency-injection context '' @ show_nat (ci_id c) @ '' is no longer active'')))"

text \<open>The view that a factory gets, and the place of the instance.\<close>

record factory_view =
  fv_module :: nat
  fv_context :: "context_id option"
  fv_transient :: nat
  fv_inquirer :: nat

datatype instance_source =
    Cached cache_ref provider_instance_key factory_view
  | Fresh factory_view

definition factory_ref :: "provider_entry \<Rightarrow> nat \<Rightarrow> context_id option \<Rightarrow> nat \<Rightarrow> factory_view" where
  "factory_ref e m ctx transient_cache =
     \<lparr>fv_module = m, fv_context = map_option context_downgrade ctx,
      fv_transient = transient_cache, fv_inquirer = pe_key e\<rparr>"

definition missing_request_context_error :: "resolution_frame list \<Rightarrow> str \<Rightarrow> boot_error" where
  "missing_request_context_error fs tok =
     Internal (''contextual provider chain `'' @ resolution_chain_with fs tok @
       ''` requires an active request scope; use ModuleRef::resolve(...) for an isolated context or declare factory dependencies so request scope can propagate'')"

definition resolve_singleton ::
  "provider_entry \<Rightarrow> nat \<Rightarrow> nat \<Rightarrow> resolution_frame list \<Rightarrow> boot_error + instance_source" where
  "resolve_singleton e m transient_cache fs =
     rbind (ensure_not_resolving fs (pe_key e) (pdf_token (pe_definition e))) (\<lambda>_.
       Inr (Cached (SingletonCache (pe_key e)) (ProviderKey (pe_key e)) (factory_ref e m None transient_cache)))"

definition resolve_contextual ::
  "(nat \<Rightarrow> bool) \<Rightarrow> provider_entry \<Rightarrow> factory_view \<Rightarrow> context_id option \<Rightarrow> resolution_frame list
     \<Rightarrow> boot_error + instance_source" where
  "resolve_contextual live e view ctx fs =
     (case ctx of
        None \<Rightarrow> Inl (missing_request_context_error fs (pdf_token (pe_definition e)))
      | Some c \<Rightarrow>
          rbind (ensure_not_resolving fs (pe_key e) (pdf_token (pe_definition e))) (\<lambda>_.
          rbind (context_cache live c) (\<lambda>cache.
            Inr (Cached cache (ProviderKey (pe_key e)) view))))"

definition resolve_transient ::
  "(nat \<Rightarrow> bool) \<Rightarrow> provider_entry \<Rightarrow> factory_view \<Rightarrow> context_id option \<Rightarrow> nat \<Rightarrow> nat option
     \<Rightarrow> resolution_frame list \<Rightarrow> boot_error + instance_source" where
  "resolve_transient live e view ctx transient_cache inquirer fs =
     (case (if ctx \<noteq> None \<and> inquirer = None then Some (pe_key e) else inquirer) of
        None \<Rightarrow> Inr (Fresh view)
      | Some i \<Rightarrow>
          rbind (ensure_not_resolving fs (pe_key e) (pdf_token (pe_definition e))) (\<lambda>_.
          rbind (case ctx of Some c \<Rightarrow> context_cache live c | None \<Rightarrow> Inr (TransientCache transient_cache)) (\<lambda>cache.
            Inr (Cached cache (TransientKey (pe_key e) i) view))))"

text \<open>The part of \<open>resolve\<close> that follows a plan (for an entry that is not an alias).\<close>

definition resolve_planned ::
  "(nat \<Rightarrow> bool) \<Rightarrow> resolution_plan \<Rightarrow> provider_entry \<Rightarrow> nat \<Rightarrow> context_id option \<Rightarrow> nat \<Rightarrow> nat option
     \<Rightarrow> resolution_frame list \<Rightarrow> boot_error + instance_source" where
  "resolve_planned live p e base ctx transient_cache inquirer fs =
     (case rp_scope p of
        SingletonScope \<Rightarrow>
          if \<not> rp_contextual p then resolve_singleton e base transient_cache fs
          else resolve_contextual live e (factory_ref e base ctx transient_cache) ctx fs
      | RequestScope \<Rightarrow> resolve_contextual live e (factory_ref e base ctx transient_cache) ctx fs
      | TransientScope \<Rightarrow>
          if rp_contextual p \<and> ctx = None
          then Inl (missing_request_context_error fs (pdf_token (pe_definition e)))
          else resolve_transient live e (factory_ref e base ctx transient_cache) ctx transient_cache inquirer fs)"

text \<open>
  \<open>get_any_with_context_inner\<close>, \<open>resolve\<close> and \<open>resolve_alias\<close>, which call each other. The
  fuel bounds the depth of scopes and aliases. The path of aliases is only extended on the
  way down, since every error ends the search.
\<close>

primrec scope_resolve ::
  "(nat \<Rightarrow> (boot_error + 'a option) option) \<Rightarrow> nat list \<Rightarrow> (boot_error + 'a option) option" where
  "scope_resolve f [] = Some (Inr None)"
| "scope_resolve f (v # vs) =
     (case f v of
        None \<Rightarrow> None
      | Some (Inl err) \<Rightarrow> Some (Inl err)
      | Some (Inr (Some x)) \<Rightarrow> Some (Inr (Some x))
      | Some (Inr None) \<Rightarrow> scope_resolve f vs)"

definition alias_cycle_error :: "str list \<Rightarrow> str \<Rightarrow> boot_error" where
  "alias_cycle_error alias_path tok =
     Internal (''cyclic provider alias detected: '' @ join_with '' -> '' (alias_path @ [tok]))"

primrec get_any ::
  "nat \<Rightarrow> provider_store \<Rightarrow> (nat \<Rightarrow> bool) \<Rightarrow> context_id option \<Rightarrow> nat \<Rightarrow> nat option
     \<Rightarrow> resolution_frame list \<Rightarrow> str \<Rightarrow> str list \<Rightarrow> nat \<Rightarrow> (boot_error + instance_source option) option" where
  "get_any 0 s live ctx transient_cache inquirer fs tok alias_path m = None"
| "get_any (Suc n) s live ctx transient_cache inquirer fs tok alias_path m =
     (case bt_get (md_providers (module_of s m)) tok of
        None \<Rightarrow>
          scope_resolve (get_any n s live ctx transient_cache inquirer fs tok alias_path)
            (md_visible (module_of s m))
      | Some e \<Rightarrow>
          (let base = owner_or m e in
           case pdf_alias (pe_definition e) of
             Some target \<Rightarrow>
               if pdf_token (pe_definition e) \<in> set alias_path
               then Some (Inl (alias_cycle_error alias_path (pdf_token (pe_definition e))))
               else (case get_any n s live ctx transient_cache inquirer fs target
                            (alias_path @ [pdf_token (pe_definition e)]) base of
                       None \<Rightarrow> None
                     | Some (Inl err) \<Rightarrow> Some (Inl err)
                     | Some (Inr None) \<Rightarrow> Some (Inl (MissingProvider target))
                     | Some (Inr (Some src)) \<Rightarrow> Some (Inr (Some src)))
           | None \<Rightarrow>
               (case resolution_plan_of s base e of
                  None \<Rightarrow> None
                | Some (Inl err) \<Rightarrow> Some (Inl err)
                | Some (Inr p) \<Rightarrow>
                    Some (rmap Some (resolve_planned live p e base ctx transient_cache inquirer fs)))))"

section \<open>Scopes are kept apart\<close>

definition source_cache :: "instance_source \<Rightarrow> cache_ref option" where
  "source_cache src = (case src of Cached c _ _ \<Rightarrow> Some c | Fresh _ \<Rightarrow> None)"

definition source_view :: "instance_source \<Rightarrow> factory_view" where
  "source_view src = (case src of Cached _ _ v \<Rightarrow> v | Fresh v \<Rightarrow> v)"

lemma rbind_ok: "rbind r f = Inr x \<Longrightarrow> \<exists>y. r = Inr y \<and> f y = Inr x"
  by (simp add: rbind_Inr_iff)

lemma context_cache_Inr: "context_cache live c = Inr cache \<Longrightarrow> cache = ContextCache (ci_id c)"
  by (simp add: context_cache_def split: if_splits)

lemma resolve_planned_cases:
  assumes "resolve_planned live p e base ctx tc inq fs = Inr src"
    and "rp_scope p = RequestScope \<Longrightarrow> rp_contextual p"
  shows "(rp_contextual p \<longrightarrow> (\<exists>c. ctx = Some c \<and> source_cache src = Some (ContextCache (ci_id c)))) \<and>
         (\<not> rp_contextual p \<longrightarrow> rp_scope p = SingletonScope \<longrightarrow>
            source_cache src = Some (SingletonCache (pe_key e)) \<and> fv_context (source_view src) = None) \<and>
         (\<forall>k. source_cache src = Some (SingletonCache k) \<longrightarrow>
            k = pe_key e \<and> \<not> rp_contextual p \<and> fv_context (source_view src) = None)"
  using assms
  by (cases "rp_scope p")
    (auto simp: resolve_planned_def resolve_singleton_def resolve_contextual_def resolve_transient_def
       source_cache_def source_view_def factory_ref_def
       dest!: rbind_ok context_cache_Inr split: if_splits option.splits)

text \<open>More fuel does not change the answer of a search.\<close>

lemma scope_search_mono:
  "scope_search f vs = Some r \<Longrightarrow> (\<And>v r. f v = Some r \<Longrightarrow> g v = Some r) \<Longrightarrow> scope_search g vs = Some r"
proof (induction vs)
  case (Cons v vs)
  then obtain x where x: "f v = Some x" by (auto split: option.splits)
  with Cons.prems(2) have "g v = Some x" by blast
  with x Cons show ?case by (cases x) auto
qed simp

lemma get_entry_fuel_mono:
  "get_entry_fuel n s tok m = Some r \<Longrightarrow> n \<le> n' \<Longrightarrow> get_entry_fuel n' s tok m = Some r"
proof (induction n arbitrary: n' m r)
  case (Suc n)
  then obtain k where k: "n' = Suc k" "n \<le> k" by (cases n') auto
  show ?case
  proof (cases "bt_get (md_providers (module_of s m)) tok")
    case None
    with Suc.prems(1) have "scope_search (get_entry_fuel n s tok) (md_visible (module_of s m)) = Some r"
      by simp
    then have "scope_search (get_entry_fuel k s tok) (md_visible (module_of s m)) = Some r"
      by (rule scope_search_mono) (rule Suc.IH [OF _ k(2)])
    with None k(1) show ?thesis by simp
  qed (use Suc.prems(1) k in auto)
qed simp

lemma get_entry_fuel_eq:
  assumes "ranked s rank" "get_entry_fuel n s tok m = Some r"
  shows "get_entry s m tok = Some r"
proof -
  from get_entry_total [OF assms(1)] obtain q where q: "get_entry s m tok = Some q" by blast
  let ?N = "max n (Suc (length (ps_modules s)))"
  have "get_entry_fuel ?N s tok m = Some r" "get_entry_fuel ?N s tok m = Some q"
    using get_entry_fuel_mono [OF assms(2)] q unfolding get_entry_def
    by (simp, meson get_entry_fuel_mono max.cobounded2)
  with q show ?thesis by simp
qed

text \<open>
  What a successful resolution found: the entry \<open>y\<close> of the token, the entry \<open>x\<close> at the end
  of its chain of aliases, and the plan by which the place of the instance was chosen.
\<close>

definition resolved_by ::
  "provider_store \<Rightarrow> (nat \<Rightarrow> bool) \<Rightarrow> context_id option \<Rightarrow> nat \<Rightarrow> nat option \<Rightarrow> resolution_frame list
     \<Rightarrow> provider_entry \<Rightarrow> provider_entry \<Rightarrow> instance_source \<Rightarrow> bool" where
  "resolved_by s live ctx tc inq fs y x src \<longleftrightarrow>
     x \<in> stored s \<and> (y, x) \<in> (eager_edges s)\<^sup>* \<and> pdf_alias (pe_definition x) = None \<and>
     (\<exists>p base. resolution_plan_of s base x = Some (Inr p) \<and>
        resolve_planned live p x base ctx tc inq fs = Inr src)"

lemma resolve_planned_with_owner:
  "resolve_planned live p (with_owner m e) base ctx tc inq fs = resolve_planned live p e base ctx tc inq fs"
  unfolding resolve_planned_def resolve_singleton_def resolve_contextual_def resolve_transient_def
    factory_ref_def with_owner_simps ..

lemma resolution_plan_with_owner: "resolution_plan_of s m' (with_owner m e) = resolution_plan_of s m e"
  unfolding resolution_plan_of_def plan_entry_with_owner ..

lemma scope_resolve_found:
  assumes none: "\<And>v. f v = Some (Inr None) \<Longrightarrow> g v = Some None"
    and some: "\<And>v src. f v = Some (Inr (Some src)) \<Longrightarrow> \<exists>y. g v = Some (Some y) \<and> P y src"
  shows "(scope_resolve f vs = Some (Inr None) \<longrightarrow> scope_search g vs = Some None) \<and>
         (\<forall>src. scope_resolve f vs = Some (Inr (Some src)) \<longrightarrow> (\<exists>y. scope_search g vs = Some (Some y) \<and> P y src))"
proof (induction vs)
  case (Cons v vs)
  show ?case
  proof (cases "f v")
    case (Some r)
    show ?thesis
    proof (cases r)
      case (Inr found)
      show ?thesis
      proof (cases found)
        case None
        with Some Inr none [of v] Cons show ?thesis by simp
      next
        fix src assume "found = Some src"
        with Some Inr some [of v src] show ?thesis by auto
      qed
    qed (use Some in simp)
  qed simp
qed simp

lemma get_any_found:
  assumes rk: "ranked s rank"
  shows "(get_any n s live ctx tc inq fs tok ap m = Some (Inr None) \<longrightarrow> get_entry_fuel n s tok m = Some None) \<and>
    (\<forall>src. get_any n s live ctx tc inq fs tok ap m = Some (Inr (Some src)) \<longrightarrow>
      (\<exists>y. get_entry_fuel n s tok m = Some (Some y) \<and> (\<exists>x. resolved_by s live ctx tc inq fs y x src)))"
proof (induction n arbitrary: tok ap m)
  case (Suc n)
  show ?case
  proof (cases "bt_get (md_providers (module_of s m)) tok")
    case None
    let ?f = "get_any n s live ctx tc inq fs tok ap" and ?g = "get_entry_fuel n s tok"
    have "?f v = Some (Inr None) \<Longrightarrow> ?g v = Some None" for v using Suc.IH by blast
    moreover have "?f v = Some (Inr (Some src)) \<Longrightarrow> \<exists>y. ?g v = Some (Some y) \<and> (\<exists>x. resolved_by s live ctx tc inq fs y x src)"
      for v src using Suc.IH by blast
    ultimately show ?thesis
      using None scope_resolve_found [of ?f ?g "\<lambda>y src. \<exists>x. resolved_by s live ctx tc inq fs y x src"
        "md_visible (module_of s m)"] by simp
  next
    case (Some e)
    let ?y = "with_owner m e"
    have y: "?y \<in> stored s" by (rule module_of_stored [OF Some])
    have "\<exists>x. resolved_by s live ctx tc inq fs ?y x src"
      if got: "get_any (Suc n) s live ctx tc inq fs tok ap m = Some (Inr (Some src))" for src
    proof (cases "pdf_alias (pe_definition e)")
      case None
      with Some got obtain p where p: "resolution_plan_of s (owner_or m e) e = Some (Inr p)"
        "resolve_planned live p e (owner_or m e) ctx tc inq fs = Inr src"
        by (auto simp: Let_def rmap_Inr_iff split: option.splits sum.splits)
      have "resolution_plan_of s (owner_or m e) ?y = Some (Inr p)"
        using p(1) resolution_plan_with_owner [of s "owner_or m e" "owner_or m e" e]
        by (cases "pe_owner e") (simp_all add: owner_or_def)
      with p(2) y None have "resolved_by s live ctx tc inq fs ?y ?y src"
        unfolding resolved_by_def by (auto simp: resolve_planned_with_owner)
      then show ?thesis ..
    next
      case (Some target)
      obtain ap' where inner: "get_any n s live ctx tc inq fs target ap' (owner_or m e) = Some (Inr (Some src))"
        using \<open>bt_get _ tok = Some e\<close> got Some by (auto simp: Let_def split: option.splits sum.splits if_splits)
      from Suc.IH [of target ap' "owner_or m e"] inner obtain y' x where
        y': "get_entry_fuel n s target (owner_or m e) = Some (Some y')" and x: "resolved_by s live ctx tc inq fs y' x src"
        by blast
      have "(?y, y') \<in> eager_edges s"
        using get_entry_fuel_eq [OF rk y'] Some by (simp add: eager_edges_def)
      with x have "resolved_by s live ctx tc inq fs ?y x src"
        unfolding resolved_by_def by (meson converse_rtrancl_into_rtrancl)
      then show ?thesis ..
    qed
    moreover have "get_any (Suc n) s live ctx tc inq fs tok ap m \<noteq> Some (Inr None)"
      using Some by (auto simp: Let_def rmap_Inr_iff split: option.splits sum.splits)
    ultimately show ?thesis using Some by auto
  qed
qed simp



text \<open>
  The alias path holds token names only. An alias that leads into a module where the same
  name is an alias for something else is taken for a cycle, although the plan, which goes
  by cache keys, follows it to its end.
\<close>

abbreviation alias_example :: provider_store where
  "alias_example \<equiv> \<lparr>ps_modules =
     [\<lparr>md_providers = [(''db'', \<lparr>pe_key = 1, pe_definition = named_alias ''db'' ''store'', pe_owner = None\<rparr>)],
       md_order = [''db''], md_visible = [1]\<rparr>,
      \<lparr>md_providers = [(''store'', \<lparr>pe_key = 2, pe_definition = named_alias ''store'' ''db'', pe_owner = Some 2\<rparr>)],
       md_order = [''store''], md_visible = []\<rparr>,
      \<lparr>md_providers =
         [(''db'', \<lparr>pe_key = 3, pe_definition = named_alias ''db'' ''pool'', pe_owner = None\<rparr>),
          (''pool'', \<lparr>pe_key = 4, pe_definition = named_from_arc ''pool'', pe_owner = None\<rparr>),
          (''store'', \<lparr>pe_key = 2, pe_definition = named_alias ''store'' ''db'', pe_owner = None\<rparr>)],
       md_order = [''pool'', ''db'', ''store''], md_visible = []\<rparr>], ps_next_key = 5\<rparr>"

lemma alias_name_taken_for_cycle:
  "token_scope alias_example 0 ''db'' = Some (Inr SingletonScope) \<and>
   get_any 9 alias_example (\<lambda>_. True) None 0 None [] ''db'' [] 0 =
     Some (Inl (Internal ''cyclic provider alias detected: db -> store -> db''))"
proof
  show "token_scope alias_example 0 ''db'' = Some (Inr SingletonScope)" by code_simp
  show "get_any 9 alias_example (\<lambda>_. True) None 0 None [] ''db'' [] 0 =
     Some (Inl (Internal ''cyclic provider alias detected: db -> store -> db''))" by code_simp
qed

section \<open>The order of asynchronous singletons\<close>

record seed_state =
  sd_complete :: "nat list"
  sd_visiting :: "(nat \<times> str) list"

definition seed_enter :: "provider_entry \<Rightarrow> seed_state \<Rightarrow> boot_error + bool \<times> seed_state" where
  "seed_enter e st =
     (if pe_key e \<in> set (sd_complete st) then Inr (False, st)
      else (let rest = dropWhile (\<lambda>(k, _). k \<noteq> pe_key e) (sd_visiting st) in
        if rest \<noteq> []
        then Inl (Internal (''cyclic async provider dependency detected: '' @
               join_with '' -> '' (map snd rest @ [pdf_token (pe_definition e)])))
        else Inr (True, st\<lparr>sd_visiting := sd_visiting st @ [(pe_key e, pdf_token (pe_definition e))]\<rparr>)))"

definition seed_exit :: "nat \<Rightarrow> bool \<Rightarrow> seed_state \<Rightarrow> boot_error + seed_state" where
  "seed_exit key finished st =
     (if sd_visiting st = [] then Inl (Internal ''async provider dependency stack underflow'')
      else (let st1 = st\<lparr>sd_visiting := butlast (sd_visiting st)\<rparr> in
        if fst (last (sd_visiting st)) \<noteq> key
        then Inl (Internal ''async provider dependency stack is inconsistent'')
        else Inr (if finished then st1\<lparr>sd_complete := bs_insert key (sd_complete st1)\<rparr> else st1)))"

text \<open>\<open>eager_dependency_entries\<close>: the edges that order the builds.\<close>

fun eager_dependencies_loop ::
  "provider_store \<Rightarrow> nat \<Rightarrow> provider_dependency list \<Rightarrow> (boot_error + provider_entry list) option" where
  "eager_dependencies_loop s base [] = Some (Inr [])"
| "eager_dependencies_loop s base (d # ds) =
     (case get_entry s base (pdep_token d) of
        None \<Rightarrow> None
      | Some None \<Rightarrow>
          if pdep_optional d then eager_dependencies_loop s base ds
          else Some (Inl (MissingProvider (pdep_token d)))
      | Some (Some e) \<Rightarrow>
          if pdep_lazy d then eager_dependencies_loop s base ds
          else (case eager_dependencies_loop s base ds of
                  None \<Rightarrow> None
                | Some r \<Rightarrow> Some (rmap ((#) e) r)))"

definition eager_dependency_entries ::
  "provider_store \<Rightarrow> nat \<Rightarrow> provider_entry \<Rightarrow> (boot_error + provider_entry list) option" where
  "eager_dependency_entries s m e =
     (let base = owner_or m e in
      case pdf_alias (pe_definition e) of
        Some target \<Rightarrow>
          (case get_entry s base target of
             None \<Rightarrow> None
           | Some None \<Rightarrow> Some (Inl (MissingProvider target))
           | Some (Some t) \<Rightarrow> Some (Inr [t]))
      | None \<Rightarrow>
          (case pdf_dependencies (pe_definition e) of
             None \<Rightarrow> Some (Inr [])
           | Some ds \<Rightarrow> eager_dependencies_loop s base ds))"

text \<open>
  The recursion over the dependencies. \<open>build\<close> stands for \<open>seed_singleton_async\<close>, which
  awaits a factory; \<open>w\<close> is what it changes. The result is kept apart from the state, which
  the exit updates in both cases.
\<close>

type_synonym 'w seed_result = "((boot_error + unit) \<times> seed_state \<times> 'w) option"

primrec seed_all ::
  "(provider_entry \<Rightarrow> seed_state \<Rightarrow> 'w \<Rightarrow> 'w seed_result) \<Rightarrow> provider_entry list
     \<Rightarrow> seed_state \<Rightarrow> 'w \<Rightarrow> 'w seed_result" where
  "seed_all rec [] st w = Some (Inr (), st, w)"
| "seed_all rec (e # es) st w =
     (case rec e st w of
        None \<Rightarrow> None
      | Some (Inl err, st1, w1) \<Rightarrow> Some (Inl err, st1, w1)
      | Some (Inr _, st1, w1) \<Rightarrow> seed_all rec es st1 w1)"

definition seed_body ::
  "(provider_entry \<Rightarrow> seed_state \<Rightarrow> 'w \<Rightarrow> 'w seed_result) \<Rightarrow> (nat \<Rightarrow> provider_entry \<Rightarrow> 'w \<Rightarrow> (boot_error + unit) \<times> 'w)
     \<Rightarrow> provider_store \<Rightarrow> nat \<Rightarrow> provider_entry \<Rightarrow> seed_state \<Rightarrow> 'w \<Rightarrow> 'w seed_result" where
  "seed_body rec build s owner e st w =
     (case resolution_plan_of s owner e of
        None \<Rightarrow> None
      | Some (Inl err) \<Rightarrow> Some (Inl err, st, w)
      | Some (Inr p) \<Rightarrow>
          (case validate_resolution_plan e p of
             Inl err \<Rightarrow> Some (Inl err, st, w)
           | Inr _ \<Rightarrow>
               (case eager_dependency_entries s owner e of
                  None \<Rightarrow> None
                | Some (Inl err) \<Rightarrow> Some (Inl err, st, w)
                | Some (Inr es) \<Rightarrow>
                    (case seed_all rec es st w of
                       None \<Rightarrow> None
                     | Some (Inl err, st1, w1) \<Rightarrow> Some (Inl err, st1, w1)
                     | Some (Inr _, st1, w1) \<Rightarrow>
                         if pdf_factory (pe_definition e) = AsyncFactory
                         then (let (r, w2) = build owner e w1 in Some (r, st1, w2))
                         else Some (Inr (), st1, w1)))))"

primrec seed_tree ::
  "nat \<Rightarrow> (nat \<Rightarrow> provider_entry \<Rightarrow> 'w \<Rightarrow> (boot_error + unit) \<times> 'w) \<Rightarrow> provider_store \<Rightarrow> nat
     \<Rightarrow> provider_entry \<Rightarrow> seed_state \<Rightarrow> 'w \<Rightarrow> 'w seed_result" where
  "seed_tree 0 build s m e st w = None"
| "seed_tree (Suc n) build s m e st w =
     (case seed_enter e st of
        Inl err \<Rightarrow> Some (Inl err, st, w)
      | Inr (entered, st1) \<Rightarrow>
          if \<not> entered then Some (Inr (), st1, w)
          else
            (let owner = owner_or m e in
             case seed_body (seed_tree n build s owner) build s owner e st1 w of
               None \<Rightarrow> None
             | Some (r, st2, w2) \<Rightarrow>
                 (case (r, seed_exit (pe_key e) (is_ok r) st2) of
                    (Inl err, Inr st3) \<Rightarrow> Some (Inl err, st3, w2)
                  | (Inl err, Inl _) \<Rightarrow> Some (Inl err, st2, w2)
                  | (Inr _, Inl err) \<Rightarrow> Some (Inl err, st2, w2)
                  | (Inr _, Inr st3) \<Rightarrow> Some (Inr (), st3, w2))))"

fun seed_local_loop ::
  "nat \<Rightarrow> (nat \<Rightarrow> provider_entry \<Rightarrow> 'w \<Rightarrow> (boot_error + unit) \<times> 'w) \<Rightarrow> provider_store \<Rightarrow> nat
     \<Rightarrow> provider_entry list \<Rightarrow> seed_state \<Rightarrow> 'w \<Rightarrow> 'w seed_result" where
  "seed_local_loop n build s m [] st w = Some (Inr (), st, w)"
| "seed_local_loop n build s m (e # es) st w =
     (case resolution_plan_of s m e of
        None \<Rightarrow> None
      | Some (Inl err) \<Rightarrow> Some (Inl err, st, w)
      | Some (Inr p) \<Rightarrow>
          if rp_scope p = SingletonScope \<and> \<not> rp_contextual p \<and> pdf_alias (pe_definition e) = None \<and>
             pdf_factory (pe_definition e) = AsyncFactory
          then (case seed_tree n build s m e st w of
                  None \<Rightarrow> None
                | Some (Inl err, st1, w1) \<Rightarrow> Some (Inl err, st1, w1)
                | Some (Inr _, st1, w1) \<Rightarrow> seed_local_loop n build s m es st1 w1)
          else seed_local_loop n build s m es st w)"

definition seed_local_async_singletons ::
  "nat \<Rightarrow> (nat \<Rightarrow> provider_entry \<Rightarrow> 'w \<Rightarrow> (boot_error + unit) \<times> 'w) \<Rightarrow> provider_store \<Rightarrow> nat \<Rightarrow> 'w
     \<Rightarrow> ((boot_error + unit) \<times> 'w) option" where
  "seed_local_async_singletons n build s m w =
     (case validate_local_resolution_plans s m of
        None \<Rightarrow> None
      | Some (Inl err) \<Rightarrow> Some (Inl err, w)
      | Some (Inr _) \<Rightarrow>
          (case seed_local_loop n build s m (local_entries s m) \<lparr>sd_complete = [], sd_visiting = []\<rparr> w of
             None \<Rightarrow> None
           | Some (r, _, w1) \<Rightarrow> Some (r, w1)))"

lemma eager_dependencies_loop_set:
  "eager_dependencies_loop s base ds = Some (Inr es) \<Longrightarrow>
     set es = {y. \<exists>d \<in> set ds. \<not> pdep_lazy d \<and> get_entry s base (pdep_token d) = Some (Some y)}"
proof (induction ds arbitrary: es)
  case (Cons d ds)
  then show ?case
    by (auto simp: rmap_Inr_iff split: option.splits if_splits)
qed simp

lemma eager_dependency_entries_set:
  assumes "eager_dependency_entries s m e = Some (Inr es)"
  shows "set es = {y. (with_owner m e, y) \<in> eager_edges s}"
proof (cases "pdf_alias (pe_definition e)")
  case None
  with assms show ?thesis
    by (auto simp: eager_dependency_entries_def eager_edges_def dest!: eager_dependencies_loop_set split: option.splits)
qed (use assms in \<open>auto simp: eager_dependency_entries_def eager_edges_def split: option.splits\<close>)

lemma eager_dependencies_loop_total: "ranked s rank \<Longrightarrow> eager_dependencies_loop s base ds \<noteq> None"
proof (induction ds)
  case (Cons d ds)
  from get_entry_total [OF Cons.prems] obtain found where "get_entry s base (pdep_token d) = Some found" by blast
  with Cons show ?case by (cases found) auto
qed simp

lemma eager_dependency_entries_total: "ranked s rank \<Longrightarrow> eager_dependency_entries s m e \<noteq> None"
proof -
  assume rk: "ranked s rank"
  have "get_entry s b t \<noteq> None" for b t by (rule get_entry_total [OF rk])
  then have "\<not> Option.is_none (get_entry s b t)" for b t by (simp add: Option.is_none_def)
  then show ?thesis
    using eager_dependencies_loop_total [OF rk]
    by (cases "pdf_alias (pe_definition e)"; cases "pdf_dependencies (pe_definition e)")
      (auto simp: eager_dependency_entries_def Let_def Option.is_none_def split: option.splits)
qed

text \<open>A successful call leaves the stack of visited entries as it was.\<close>

definition visits_kept :: "(seed_state \<Rightarrow> 'w \<Rightarrow> 'w seed_result) \<Rightarrow> bool" where
  "visits_kept f \<longleftrightarrow>
     (\<forall>st w u st' w'. f st w = Some (Inr u, st', w') \<longrightarrow> sd_visiting st' = sd_visiting st)"

lemma visits_keptD: "visits_kept f \<Longrightarrow> f st w = Some (Inr u, st', w') \<Longrightarrow> sd_visiting st' = sd_visiting st"
  unfolding visits_kept_def by blast

lemma seed_all_visiting:
  "(\<And>e. e \<in> set es \<Longrightarrow> visits_kept (rec e)) \<Longrightarrow> visits_kept (seed_all rec es)"
proof (induction es)
  case (Cons e es)
  show ?case
    unfolding visits_kept_def
  proof (intro allI impI)
    fix st w u st' w' assume "seed_all rec (e # es) st w = Some (Inr u, st', w')"
    then obtain v st1 w1 where 1: "rec e st w = Some (Inr v, st1, w1)"
      and 2: "seed_all rec es st1 w1 = Some (Inr u, st', w')"
      by (auto split: option.splits sum.splits)
    from Cons have "visits_kept (rec e)" "visits_kept (seed_all rec es)" by simp_all
    from visits_keptD [OF this(1) 1] visits_keptD [OF this(2) 2]
    show "sd_visiting st' = sd_visiting st" by simp
  qed
qed (simp add: visits_kept_def)

lemma seed_body_Inr:
  assumes "seed_body rec build s owner e st w = Some (Inr u, st', w')"
  obtains es w1 v where "eager_dependency_entries s owner e = Some (Inr es)"
    "seed_all rec es st w = Some (Inr v, st', w1)"
    "pdf_factory (pe_definition e) = AsyncFactory \<Longrightarrow> build owner e w1 = (Inr u, w')"
    "pdf_factory (pe_definition e) \<noteq> AsyncFactory \<Longrightarrow> w' = w1"
  using assms by (auto simp: seed_body_def Let_def split: option.splits sum.splits prod.splits if_splits)

definition seed_entered :: "provider_entry \<Rightarrow> seed_state \<Rightarrow> seed_state" where
  "seed_entered e st = st\<lparr>sd_visiting := sd_visiting st @ [(pe_key e, pdf_token (pe_definition e))]\<rparr>"

lemma seed_enter_cases:
  "seed_enter e st =
     (if pe_key e \<in> set (sd_complete st) then Inr (False, st)
      else if pe_key e \<in> fst ` set (sd_visiting st)
      then Inl (Internal (''cyclic async provider dependency detected: '' @
               join_with '' -> '' (map snd (dropWhile (\<lambda>(k, _). k \<noteq> pe_key e) (sd_visiting st)) @ [pdf_token (pe_definition e)])))
      else Inr (True, seed_entered e st))"
  by (force simp: seed_enter_def seed_entered_def Let_def)

lemma seed_tree_cases [consumes 1, case_names complete cyclic run]:
  assumes "seed_tree (Suc n) build s m e st w = Some (r, st', w')"
  obtains "pe_key e \<in> set (sd_complete st)" "r = Inr ()" "st' = st" "w' = w"
  | err where "pe_key e \<notin> set (sd_complete st)" "pe_key e \<in> fst ` set (sd_visiting st)" "r = Inl err" "w' = w"
  | q st2 where "pe_key e \<notin> set (sd_complete st)" "pe_key e \<notin> fst ` set (sd_visiting st)"
      "seed_body (seed_tree n build s (owner_or m e)) build s (owner_or m e) e (seed_entered e st) w = Some (q, st2, w')"
      "is_ok r \<Longrightarrow> is_ok q \<and> seed_exit (pe_key e) True st2 = Inr st'"
proof (cases "pe_key e \<in> set (sd_complete st) \<or> pe_key e \<in> fst ` set (sd_visiting st)")
  case True
  with assms that(1,2) show ?thesis
    by (auto simp: seed_enter_cases split: if_splits)
next
  case False
  let ?body = "seed_body (seed_tree n build s (owner_or m e)) build s (owner_or m e) e (seed_entered e st) w"
  from False assms obtain q st2 w2 where b: "?body = Some (q, st2, w2)"
    by (cases ?body) (auto simp: seed_enter_cases Let_def)
  show ?thesis
  proof (rule that(3))
    show "pe_key e \<notin> set (sd_complete st)" "pe_key e \<notin> fst ` set (sd_visiting st)" using False by simp_all
    show "?body = Some (q, st2, w')" "is_ok r \<Longrightarrow> is_ok q \<and> seed_exit (pe_key e) True st2 = Inr st'"
      using False assms b
      by (auto simp: seed_enter_cases Let_def is_ok_iff split: sum.splits)
  qed
qed

lemma seed_tree_visiting: "visits_kept (seed_tree n build s m e)"
proof (induction n arbitrary: m e)
  case 0
  show ?case by (simp add: visits_kept_def)
next
  case (Suc n)
  show ?case
    unfolding visits_kept_def
  proof (intro allI impI)
    fix st w u st' w' assume "seed_tree (Suc n) build s m e st w = Some (Inr u, st', w')"
    then show "sd_visiting st' = sd_visiting st"
    proof (cases rule: seed_tree_cases)
      case (run q st2)
      then obtain v where "q = Inr v" and ex: "seed_exit (pe_key e) True st2 = Inr st'"
        by (auto simp: is_ok_iff)
      with run(3) have "seed_body (seed_tree n build s (owner_or m e)) build s (owner_or m e) e (seed_entered e st) w
          = Some (Inr v, st2, w')" by simp
      then obtain es w1 v where
        "seed_all (seed_tree n build s (owner_or m e)) es (seed_entered e st) w = Some (Inr v, st2, w1)"
        by (rule seed_body_Inr)
      from visits_keptD [OF seed_all_visiting [OF Suc.IH] this] ex show ?thesis
        by (auto simp: seed_exit_def seed_entered_def Let_def split: if_splits)
    qed simp_all
  qed
qed

subsection \<open>Dependencies first\<close>

text \<open>The calls of the factories, recorded in a log.\<close>

definition logged ::
  "(nat \<Rightarrow> provider_entry \<Rightarrow> 'w \<Rightarrow> (boot_error + unit) \<times> 'w)
     \<Rightarrow> nat \<Rightarrow> provider_entry \<Rightarrow> 'w \<times> provider_entry list \<Rightarrow> (boot_error + unit) \<times> 'w \<times> provider_entry list" where
  "logged build owner e wl =
     (let (r, w') = build owner e (fst wl) in (r, w', snd wl @ [with_owner owner e]))"

abbreviation async_entry :: "provider_entry \<Rightarrow> bool" where
  "async_entry e \<equiv> pdf_factory (pe_definition e) = AsyncFactory"

definition in_order :: "provider_store \<Rightarrow> provider_entry list \<Rightarrow> bool" where
  "in_order s log \<longleftrightarrow> distinct log \<and>
     (\<forall>i < length log. \<forall>y. (log ! i, y) \<in> (eager_edges s)\<^sup>+ \<longrightarrow> async_entry y \<longrightarrow> y \<in> set (take i log))"

definition seed_inv :: "provider_store \<Rightarrow> seed_state \<Rightarrow> provider_entry list \<Rightarrow> bool" where
  "seed_inv s st log \<longleftrightarrow> in_order s log \<and>
     (\<forall>x \<in> stored s. pe_key x \<in> set (sd_complete st) \<longrightarrow>
        (async_entry x \<longrightarrow> x \<in> set log) \<and> (\<forall>y. (x, y) \<in> eager_edges s \<longrightarrow> pe_key y \<in> set (sd_complete st))) \<and>
     (\<forall>x \<in> set log. pe_key x \<in> set (sd_complete st)) \<and>
     set (sd_complete st) \<inter> fst ` set (sd_visiting st) = {}"

lemma in_order_append:
  assumes "in_order s log" "x \<notin> set log"
    "\<And>y. (x, y) \<in> (eager_edges s)\<^sup>+ \<Longrightarrow> async_entry y \<Longrightarrow> y \<in> set log"
  shows "in_order s (log @ [x])"
  using assms unfolding in_order_def
  by (auto simp: nth_append less_Suc_eq)

lemma seed_inv_visiting:
  assumes "seed_inv s st log" "sd_complete st' = sd_complete st"
    "set (sd_complete st) \<inter> fst ` set (sd_visiting st') = {}"
  shows "seed_inv s st' log"
  using assms(1) unfolding seed_inv_def assms(2) using assms(3)
  by (elim conjE) (intro conjI, assumption+)

lemma seed_inv_disjoint: "seed_inv s st log \<Longrightarrow> set (sd_complete st) \<inter> fst ` set (sd_visiting st) = {}"
  unfolding seed_inv_def by (elim conjE)

lemma seed_inv_logged:
  "seed_inv s st log \<Longrightarrow> x \<in> stored s \<Longrightarrow> pe_key x \<in> set (sd_complete st) \<Longrightarrow> async_entry x \<Longrightarrow> x \<in> set log"
  unfolding seed_inv_def by blast

lemma seed_inv_edge:
  "seed_inv s st log \<Longrightarrow> x \<in> stored s \<Longrightarrow> pe_key x \<in> set (sd_complete st) \<Longrightarrow> (x, y) \<in> eager_edges s
     \<Longrightarrow> pe_key y \<in> set (sd_complete st)"
  unfolding seed_inv_def by blast

lemma seed_inv_log_keys: "seed_inv s st log \<Longrightarrow> x \<in> set log \<Longrightarrow> pe_key x \<in> set (sd_complete st)"
  unfolding seed_inv_def by blast

lemma complete_reach:
  assumes "seed_inv s st log" "x \<in> stored s" "pe_key x \<in> set (sd_complete st)" "(x, y) \<in> (eager_edges s)\<^sup>*"
  shows "y \<in> stored s \<and> pe_key y \<in> set (sd_complete st)"
  using assms(4)
proof (induction rule: rtrancl_induct)
  case (step y z)
  with assms(1) show ?case by (auto simp: seed_inv_def intro: eager_edges_stored)
qed (use assms in simp)

definition seed_post :: "provider_store \<Rightarrow> nat set \<Rightarrow> seed_state \<Rightarrow> (boot_error + unit) \<Rightarrow> seed_state \<Rightarrow> provider_entry list \<Rightarrow> bool" where
  "seed_post s keys st r st' log \<longleftrightarrow> in_order s log \<and>
     (is_ok r \<longrightarrow> seed_inv s st' log \<and> sd_visiting st' = sd_visiting st \<and>
        set (sd_complete st) \<subseteq> set (sd_complete st') \<and> keys \<subseteq> set (sd_complete st'))"

lemma seed_inv_in_order: "seed_inv s st log \<Longrightarrow> in_order s log"
  by (simp add: seed_inv_def)

lemma seed_all_post:
  assumes rec: "\<And>e st w log r st' w' log'. e \<in> set es \<Longrightarrow> seed_inv s st log \<Longrightarrow>
      rec e st (w, log) = Some (r, st', (w', log')) \<Longrightarrow> seed_post s {pe_key e} st r st' log'"
  shows "seed_inv s st log \<Longrightarrow> seed_all rec es st (w, log) = Some (r, st', (w', log')) \<Longrightarrow>
      seed_post s (pe_key ` set es) st r st' log'"
  using rec
proof (induction es arbitrary: st w log)
  case Nil
  then show ?case by (auto simp: seed_post_def seed_inv_in_order)
next
  case (Cons e es)
  from Cons.prems(2) obtain q st1 w1 log1 where 1: "rec e st (w, log) = Some (q, st1, (w1, log1))"
    by (cases "rec e st (w, log)") auto
  note p1 = Cons.prems(3) [OF _ Cons.prems(1) 1]
  show ?case
  proof (cases q)
    case (Inl err)
    with 1 Cons.prems(2) p1 show ?thesis by (auto simp: seed_post_def)
  next
    case (Inr u)
    with 1 Cons.prems(2) have 2: "seed_all rec es st1 (w1, log1) = Some (r, st', (w', log'))" by simp
    from p1 Inr have inv1: "seed_inv s st1 log1" and m: "sd_visiting st1 = sd_visiting st"
      "set (sd_complete st) \<subseteq> set (sd_complete st1)" "pe_key e \<in> set (sd_complete st1)"
      by (simp_all add: seed_post_def)
    have "seed_post s (pe_key ` set es) st1 r st' log'"
      by (rule Cons.IH [OF inv1 2]) (rule Cons.prems(3), simp_all)
    with m show ?thesis by (auto simp: seed_post_def)
  qed
qed

lemma not_is_okI: "Inl err = r \<Longrightarrow> \<not> is_ok r"
  by auto

lemma seed_body_log:
  assumes body: "seed_body rec (logged build) s owner e st (w, log) = Some (q, st2, (w', log'))"
    and inv: "seed_inv s st log" and e: "with_owner owner e \<in> stored s"
    and vis: "pe_key e \<in> fst ` set (sd_visiting st)"
    and rec: "\<And>e st w log r st' w' log'. e \<in> stored s \<Longrightarrow> seed_inv s st log \<Longrightarrow>
      rec e st (w, log) = Some (r, st', (w', log')) \<Longrightarrow> seed_post s {pe_key e} st r st' log'"
  shows "in_order s log' \<and>
    (is_ok q \<longrightarrow> sd_visiting st2 = sd_visiting st \<and> set (sd_complete st) \<subseteq> set (sd_complete st2) \<and>
       (\<forall>y. (with_owner owner e, y) \<in> eager_edges s \<longrightarrow> pe_key y \<in> set (sd_complete st2)) \<and>
       (\<exists>log1. seed_inv s st2 log1 \<and>
          log' = (if async_entry e then log1 @ [with_owner owner e] else log1)))"
proof -
  let ?e = "with_owner owner e"
  consider (early) "log' = log" "\<not> is_ok q"
    | (run) es where "eager_dependency_entries s owner e = Some (Inr es)"
      "(case seed_all rec es st (w, log) of
         None \<Rightarrow> None
       | Some (Inl err, st1, w1) \<Rightarrow> Some (Inl err, st1, w1)
       | Some (Inr _, st1, w1) \<Rightarrow>
           if async_entry e then (let (r, w2) = logged build owner e w1 in Some (r, st1, w2))
           else Some (Inr (), st1, w1)) = Some (q, st2, (w', log'))"
    using body unfolding seed_body_def
    by (auto dest: not_is_okI split: option.splits sum.splits)
  then show ?thesis
  proof cases
    case early
    with inv show ?thesis by (simp add: seed_inv_in_order)
  next
    case (run es)
    have es: "set es = {y. (?e, y) \<in> eager_edges s}"
      by (rule eager_dependency_entries_set [OF run(1)])
    from run(2) obtain r1 st1 w1 log1 where all: "seed_all rec es st (w, log) = Some (r1, st1, (w1, log1))"
      by (cases "seed_all rec es st (w, log)") auto
    have p: "seed_post s (pe_key ` set es) st r1 st1 log1"
      by (rule seed_all_post [OF rec inv all]) (use es in \<open>simp_all add: eager_edges_stored\<close>)
    show ?thesis
    proof (cases r1)
      case (Inl err)
      with run(2) all p show ?thesis by (auto simp: seed_post_def)
    next
      case (Inr u)
      with p have inv1: "seed_inv s st1 log1" and v1: "sd_visiting st1 = sd_visiting st"
        and sub: "set (sd_complete st) \<subseteq> set (sd_complete st1)" and es_c: "pe_key ` set es \<subseteq> set (sd_complete st1)"
        by (simp_all add: seed_post_def)
      from run(2) all Inr have st2: "st2 = st1"
        and log': "log' = (if async_entry e then log1 @ [?e] else log1)"
        by (auto simp: logged_def Let_def split: if_splits prod.splits)
      have fresh: "?e \<notin> set log1"
        using inv1 vis v1 unfolding seed_inv_def by (metis disjoint_iff with_owner_simps(1))
      have "y \<in> set log1" if path: "(?e, y) \<in> (eager_edges s)\<^sup>+" and a: "async_entry y" for y
      proof -
        from path obtain z where z: "(?e, z) \<in> eager_edges s" "(z, y) \<in> (eager_edges s)\<^sup>*"
          by (auto dest: tranclD)
        with es es_c have "pe_key z \<in> set (sd_complete st1)" by auto
        from complete_reach [OF inv1 eager_edges_stored [OF z(1)] this z(2)] inv1 a
        show ?thesis by (simp add: seed_inv_def)
      qed
      with in_order_append [OF seed_inv_in_order [OF inv1] fresh] have "in_order s log'"
        by (simp add: log' seed_inv_in_order [OF inv1])
      with inv1 v1 sub es es_c st2 log' show ?thesis by auto
    qed
  qed
qed

lemma with_owner_owner_or: "with_owner (owner_or m e) e = with_owner m e"
  by (cases "pe_owner e") (simp_all add: with_owner_def owner_or_def)

lemma seed_tree_post:
  assumes ok: "store_ok s"
  shows "with_owner m e \<in> stored s \<Longrightarrow> seed_inv s st log \<Longrightarrow>
     seed_tree n (logged build) s m e st (w, log) = Some (r, st', (w', log')) \<Longrightarrow>
     seed_post s {pe_key e} st r st' log'"
proof (induction n arbitrary: m e st w log r st' w' log')
  case (Suc n)
  let ?e = "with_owner m e"
  from Suc.prems(3) show ?case
  proof (cases rule: seed_tree_cases)
    case complete
    with Suc.prems(2) show ?thesis by (auto simp: seed_post_def seed_inv_in_order)
  next
    case (cyclic err)
    with Suc.prems(2) show ?thesis by (auto simp: seed_post_def seed_inv_in_order)
  next
    case (run q st2)
    let ?st1 = "seed_entered e st"
    have inv1: "seed_inv s ?st1 log"
      by (rule seed_inv_visiting [OF Suc.prems(2)])
        (use seed_inv_disjoint [OF Suc.prems(2)] run(1) in \<open>auto simp: seed_entered_def\<close>)
    have own: "with_owner (owner_or m e) e = ?e"
      by (rule with_owner_owner_or)
    have vis: "pe_key e \<in> fst ` set (sd_visiting ?st1)" by (simp add: seed_entered_def)
    have rec: "seed_post s {pe_key x} st r st' log'"
      if "x \<in> stored s" "seed_inv s st log"
        "seed_tree n (logged build) s (owner_or m e) x st (w, log) = Some (r, st', (w', log'))"
      for x st w log r st' w' log'
      by (rule Suc.IH [OF _ that(2,3)]) (use that(1) in \<open>simp add: stored_owner\<close>)
    have b: "in_order s log' \<and>
      (is_ok q \<longrightarrow> sd_visiting st2 = sd_visiting ?st1 \<and> set (sd_complete ?st1) \<subseteq> set (sd_complete st2) \<and>
         (\<forall>y. (?e, y) \<in> eager_edges s \<longrightarrow> pe_key y \<in> set (sd_complete st2)) \<and>
         (\<exists>log1. seed_inv s st2 log1 \<and> log' = (if async_entry e then log1 @ [?e] else log1)))"
      by (rule seed_body_log [OF run(3) inv1 _ vis, unfolded own, OF Suc.prems(1)]) (rule rec)
    show ?thesis
    proof (cases "is_ok r")
      case False
      with b show ?thesis by (simp add: seed_post_def)
    next
      case True
      from b run(4) [OF True] obtain log1 where
        v2: "sd_visiting st2 = sd_visiting ?st1" and sub1: "set (sd_complete ?st1) \<subseteq> set (sd_complete st2)"
        and succ: "\<forall>y. (?e, y) \<in> eager_edges s \<longrightarrow> pe_key y \<in> set (sd_complete st2)"
        and inv2: "seed_inv s st2 log1" and log': "log' = (if async_entry e then log1 @ [?e] else log1)"
        and ord: "in_order s log'" and ex: "seed_exit (pe_key e) True st2 = Inr st'"
        by blast
      have sub: "set (sd_complete st) \<subseteq> set (sd_complete st2)"
        using sub1 by (simp add: seed_entered_def)
      from ex v2 have st': "sd_visiting st' = sd_visiting st"
        "set (sd_complete st') = insert (pe_key e) (set (sd_complete st2))"
        by (auto simp: seed_exit_def seed_entered_def Let_def split: if_splits)
      have same: "x = ?e" if "x \<in> stored s" "pe_key x = pe_key e" for x
        using ok that Suc.prems(1) unfolding store_ok_def by (metis with_owner_simps(1))
      have "seed_inv s st' log'"
        unfolding seed_inv_def
      proof (intro conjI ballI impI allI)
        fix x assume x: "x \<in> stored s" "pe_key x \<in> set (sd_complete st')"
        show "x \<in> set log'" if "async_entry x"
        proof (cases "pe_key x = pe_key e")
          case True
          then have "x = ?e" using same x(1) by blast
          with that show ?thesis by (auto simp: log')
        next
          case False
          with x st'(2) have "pe_key x \<in> set (sd_complete st2)" by simp
          from seed_inv_logged [OF inv2 x(1) this that] show ?thesis by (simp add: log')
        qed
        show "pe_key y \<in> set (sd_complete st')" if "(x, y) \<in> eager_edges s" for y
        proof (cases "pe_key x = pe_key e")
          case True
          then have "x = ?e" using same x(1) by blast
          with that succ show ?thesis by (auto simp: st'(2))
        next
          case False
          with x st'(2) have "pe_key x \<in> set (sd_complete st2)" by simp
          from seed_inv_edge [OF inv2 x(1) this that] show ?thesis by (simp add: st'(2))
        qed
      next
        fix x assume "x \<in> set log'"
        then show "pe_key x \<in> set (sd_complete st')"
          using seed_inv_log_keys [OF inv2] by (auto simp: log' st'(2) split: if_splits)
      next
        show "set (sd_complete st') \<inter> fst ` set (sd_visiting st') = {}"
          using seed_inv_disjoint [OF inv2] v2 run(2) by (auto simp: st' seed_entered_def)
      qed (rule ord)
      with ord sub st' show ?thesis by (auto simp: seed_post_def)
    qed
  qed
qed simp

lemma local_entries_stored: "e \<in> set (local_entries s m) \<Longrightarrow> with_owner m e \<in> stored s"
  by (auto simp: local_entries_def map_filter_def intro: module_of_stored split: if_splits)

definition seedable :: "provider_store \<Rightarrow> nat \<Rightarrow> provider_entry \<Rightarrow> bool" where
  "seedable s m e \<longleftrightarrow> async_entry e \<and> pdf_alias (pe_definition e) = None \<and>
     (\<exists>p. resolution_plan_of s m e = Some (Inr p) \<and> rp_scope p = SingletonScope \<and> \<not> rp_contextual p)"

lemma seed_local_loop_post:
  assumes ok: "store_ok s"
  shows "set es \<subseteq> {e. with_owner m e \<in> stored s} \<Longrightarrow> seed_inv s st log \<Longrightarrow>
     seed_local_loop n (logged build) s m es st (w, log) = Some (r, st', (w', log')) \<Longrightarrow>
     in_order s log' \<and>
     (is_ok r \<longrightarrow> seed_inv s st' log' \<and> set (sd_complete st) \<subseteq> set (sd_complete st') \<and>
        (\<forall>e \<in> set es. seedable s m e \<longrightarrow> pe_key e \<in> set (sd_complete st')))"
proof (induction es arbitrary: st w log)
  case Nil
  then show ?case by (auto simp: seed_inv_in_order)
next
  case (Cons e es)
  from Cons.prems(1) have sub: "set es \<subseteq> {e. with_owner m e \<in> stored s}" and e: "with_owner m e \<in> stored s"
    by auto
  from Cons.prems(3) obtain pr where pr: "resolution_plan_of s m e = Some pr"
    by (cases "resolution_plan_of s m e") auto
  show ?case
  proof (cases "seedable s m e")
    case False
    show ?thesis
    proof (cases pr)
      case (Inl err)
      with Cons.prems(3) pr have "r = Inl err" "log' = log" by auto
      with Cons.prems(2) show ?thesis by (simp add: seed_inv_in_order)
    next
      case (Inr p)
      with Cons.prems(3) pr False have "seed_local_loop n (logged build) s m es st (w, log) = Some (r, st', (w', log'))"
        by (auto simp: seedable_def split: if_splits)
      from Cons.IH [OF sub Cons.prems(2) this] False show ?thesis by auto
    qed
  next
    case True
    then obtain p where p: "pr = Inr p" "rp_scope p = SingletonScope" "\<not> rp_contextual p"
      "pdf_alias (pe_definition e) = None" "async_entry e"
      using pr by (auto simp: seedable_def)
    with Cons.prems(3) pr obtain q st1 w1 log1 where
      t: "seed_tree n (logged build) s m e st (w, log) = Some (q, st1, (w1, log1))"
      by (cases "seed_tree n (logged build) s m e st (w, log)") auto
    note post = seed_tree_post [OF ok e Cons.prems(2) t]
    show ?thesis
    proof (cases q)
      case (Inl err)
      with t Cons.prems(3) pr p have "r = Inl err" "log' = log1" by auto
      with post show ?thesis by (simp add: seed_post_def)
    next
      case (Inr u)
      with t Cons.prems(3) pr p
      have l: "seed_local_loop n (logged build) s m es st1 (w1, log1) = Some (r, st', (w', log'))" by simp
      from post Inr have inv1: "seed_inv s st1 log1" and "set (sd_complete st) \<subseteq> set (sd_complete st1)"
        "pe_key e \<in> set (sd_complete st1)" by (simp_all add: seed_post_def)
      with Cons.IH [OF sub inv1 l] show ?thesis by auto
    qed
  qed
qed

lemma seed_inv_start: "seed_inv s \<lparr>sd_complete = [], sd_visiting = []\<rparr> []"
  by (simp add: seed_inv_def in_order_def)


abbreviation seed_dep :: provider_entry where
  "seed_dep \<equiv> \<lparr>pe_key = 1, pe_definition = with_dependencies [] (named_async_factory ''Pool''), pe_owner = None\<rparr>"

abbreviation seed_top :: provider_entry where
  "seed_top \<equiv> \<lparr>pe_key = 2,
     pe_definition = with_dependencies [dependency_named ''Pool''] (named_async_factory ''Repo''), pe_owner = None\<rparr>"

abbreviation seed_example :: provider_store where
  "seed_example \<equiv> \<lparr>ps_modules = [\<lparr>md_providers = [(''Pool'', seed_dep), (''Repo'', seed_top)],
     md_order = [''Repo'', ''Pool''], md_visible = []\<rparr>], ps_next_key = 3\<rparr>"

lemma seed_example_stored: "stored seed_example \<subseteq> {with_owner 0 seed_dep, with_owner 0 seed_top}"
  by (auto simp: stored_def module_of_def module_data_new_def bt_get_def split: if_splits)

lemma seed_example_ok: "store_ok seed_example"
  by (rule store_ok_two [OF seed_example_stored]) simp_all


subsection \<open>Seeding ends\<close>

lemma seed_all_total:
  assumes tot: "\<And>e st w. e \<in> set es \<Longrightarrow> sd_visiting st = V \<Longrightarrow> rec e st w \<noteq> None"
    and keep: "\<And>e. visits_kept (rec e)"
  shows "sd_visiting st = V \<Longrightarrow> seed_all rec es st w \<noteq> None"
  using tot
proof (induction es arbitrary: st w)
  case (Cons e es)
  have "rec e st w \<noteq> None" by (rule Cons.prems(2)) (simp_all add: Cons.prems(1))
  then obtain q st1 w1 where q: "rec e st w = Some (q, st1, w1)"
    by (cases "rec e st w") auto
  show ?case
  proof (cases q)
    case (Inr u)
    with visits_keptD [OF keep] q Cons.prems(1) have "sd_visiting st1 = V" by blast
    with Cons q Inr show ?thesis by auto
  qed (use q in simp)
qed simp

lemma resolution_plan_not_None:
  assumes "store_ok s" "ranked s rank" "with_owner m e \<in> stored s"
  shows "resolution_plan_of s m e \<noteq> None"
  using resolution_plan_total [OF assms] unfolding resolution_plan_of_def by force

lemma seed_tree_total:
  assumes ok: "store_ok s" and rk: "ranked s rank"
  shows "with_owner m e \<in> stored s \<Longrightarrow> card ({..<ps_next_key s} - fst ` set (sd_visiting st)) < n \<Longrightarrow>
     seed_tree n build s m e st w \<noteq> None"
proof (induction n arbitrary: m e st w)
  case (Suc n)
  show ?case
  proof (cases "pe_key e \<in> set (sd_complete st) \<or> pe_key e \<in> fst ` set (sd_visiting st)")
    case True
    then show ?thesis by (auto simp: seed_enter_cases)
  next
    case False
    let ?st1 = "seed_entered e st" and ?o = "owner_or m e"
    have o: "with_owner ?o e = with_owner m e" by (rule with_owner_owner_or)
    have "pe_key e < ps_next_key s"
      using ok Suc.prems(1) by (auto simp: store_ok_def)
    with False have "{..<ps_next_key s} - fst ` set (sd_visiting ?st1) \<subset> {..<ps_next_key s} - fst ` set (sd_visiting st)"
      by (auto simp: seed_entered_def)
    then have "card ({..<ps_next_key s} - fst ` set (sd_visiting ?st1)) < card ({..<ps_next_key s} - fst ` set (sd_visiting st))"
      by (rule psubset_card_mono [rotated]) simp
    with Suc.prems(2) have less: "card ({..<ps_next_key s} - fst ` set (sd_visiting ?st1)) < n" by simp
    have all: "seed_all (seed_tree n build s ?o) es ?st1 w \<noteq> None"
      if es: "eager_dependency_entries s ?o e = Some (Inr es)" for es
    proof (rule seed_all_total [where V = "sd_visiting ?st1"])
      fix x and st' :: seed_state and w' assume "x \<in> set es" "sd_visiting st' = sd_visiting ?st1"
      with less eager_dependency_entries_set [OF es] show "seed_tree n build s ?o x st' w' \<noteq> None"
        by (intro Suc.IH) (auto dest!: eager_edges_stored simp: stored_owner)
    qed (simp_all add: seed_tree_visiting)
    obtain pr where "resolution_plan_of s ?o e = Some pr"
      using resolution_plan_not_None [OF ok rk, of ?o e] o Suc.prems(1) by auto
    moreover obtain dr where "eager_dependency_entries s ?o e = Some dr"
      using eager_dependency_entries_total [OF rk] by blast
    ultimately have "seed_body (seed_tree n build s ?o) build s ?o e ?st1 w \<noteq> None"
      using all by (auto simp: seed_body_def Let_def split: sum.splits option.splits prod.splits)
    with False show ?thesis
      by (auto simp: seed_enter_cases Let_def split: sum.splits option.splits)
  qed
qed simp

lemma validate_plans_total:
  assumes "store_ok s" "ranked s rank"
  shows "set es \<subseteq> {e. with_owner m e \<in> stored s} \<Longrightarrow> validate_plans_loop s m es \<noteq> None"
proof (induction es)
  case (Cons e es)
  then obtain pr where "resolution_plan_of s m e = Some pr"
    using resolution_plan_not_None [OF assms, of m e] by auto
  with Cons show ?case by (auto split: sum.splits)
qed simp

text \<open>
  Seeding a module ends for every store that registration can build, also when the
  dependencies are cyclic, with the number of cache keys as the depth of the recursion;
  the factories are assumed to return.
\<close>

theorem async_seeding_terminates:
  assumes ok: "store_ok s" and rk: "ranked s rank" and n: "ps_next_key s < n"
  shows "\<exists>r w'. seed_local_async_singletons n build s m w = Some (r, w')"
proof -
  have sub: "set (local_entries s m) \<subseteq> {e. with_owner m e \<in> stored s}"
    by (auto intro: local_entries_stored)
  have tree: "seed_tree n build s m e \<lparr>sd_complete = cs, sd_visiting = []\<rparr> w \<noteq> None" if "with_owner m e \<in> stored s" for e cs w
    by (rule seed_tree_total [OF ok rk that]) (use n in simp)
  have "seed_local_loop n build s m es st w \<noteq> None"
    if "set es \<subseteq> {e. with_owner m e \<in> stored s}" "sd_visiting st = []" for es st w
    using that
  proof (induction es arbitrary: st w)
    case (Cons e es)
    then obtain pr where pr: "resolution_plan_of s m e = Some pr"
      using resolution_plan_not_None [OF ok rk, of m e] by auto
    have st: "st = \<lparr>sd_complete = sd_complete st, sd_visiting = []\<rparr>"
      using Cons.prems(2) by simp
    obtain q st1 w1 where q: "seed_tree n build s m e st w = Some (q, st1, w1)"
      using tree [of e "sd_complete st" w] st Cons.prems(1) by (cases "seed_tree n build s m e st w") auto
    have "q = Inr u \<Longrightarrow> sd_visiting st1 = []" for u
      using visits_keptD [OF seed_tree_visiting, of n build s m e st w u] q Cons.prems(2) by auto
    with Cons pr q show ?case by (auto split: sum.splits)
  qed simp
  moreover have "validate_local_resolution_plans s m \<noteq> None"
    unfolding validate_local_resolution_plans_def by (rule validate_plans_total [OF ok rk sub])
  ultimately show ?thesis
    using sub by (force simp: seed_local_async_singletons_def split: option.splits sum.splits)
qed

theorem async_seeding_terminates_witness:
  "\<exists>r w'. seed_local_async_singletons 4 (\<lambda>_ _ w. (Inr (), Suc w)) seed_example 0 0 = Some (r, w')"
proof (rule async_seeding_terminates [OF seed_example_ok])
  show "ranked seed_example (\<lambda>_. 0)"
    by (simp add: ranked_def module_of_def module_data_new_def)
qed simp

end
