(* ===== verification/Module_Registry.thy ===== *)
theory Module_Registry
  imports Provider_Resolve Route_Path
begin

text \<open>
  The registration of the module graph (\<open>app/registration.rs\<close>) and the part of
  \<open>BootApplicationBuilder::build\<close> (\<open>app/builder.rs\<close>) that drives it: imports first, visible
  scopes, providers with their overrides, exports, global exports. The modules are trait
  objects: the model reads their answers from a table, so a module is an index into it,
  and \<open>imports()\<close> and \<open>forward_imports()\<close> answer with indices. The state is the registry and
  the store of \<^theory_text>\<open>Provider_Graph\<close>; an error ends the whole build and carries no state. The
  synchronous and the asynchronous variant differ in the registration of providers only.
\<close>

section \<open>Modules and the registry\<close>

record boot_module =
  bm_name :: str
  bm_imports :: "nat list"
  bm_forward_imports :: "nat list"
  bm_providers :: "boot_error + provider_definition list"
  bm_exports :: "boot_error + str list"
  bm_is_global :: bool
  bm_route_prefix :: "str option"

record registered_module =
  rg_name :: str
  rg_ref :: nat
  rg_exports :: nat

record pending_module =
  pm_module :: nat
  pm_name :: str
  pm_route_prefix :: str
  pm_ref :: nat
  pm_imports :: "str list"
  pm_exported :: "str list"
  pm_is_global :: bool

record module_registry =
  rr_registered :: "(str, registered_module) btree"
  rr_active :: "(str, registered_module) btree"
  rr_pending :: "pending_module list"
  rr_visiting :: "str list"
  rr_global :: nat
  rr_provider_overrides :: "(str, provider_definition) btree"
  rr_module_overrides :: "(str, nat) btree"
  rr_enhancers :: "(nat \<times> nat) list"

definition module_registry_new ::
  "nat \<Rightarrow> (str, provider_definition) btree \<Rightarrow> (str, nat) btree \<Rightarrow> module_registry" where
  "module_registry_new global_ref provider_overrides module_overrides =
     \<lparr>rr_registered = [], rr_active = [], rr_pending = [], rr_visiting = [], rr_global = global_ref,
      rr_provider_overrides = provider_overrides, rr_module_overrides = module_overrides,
      rr_enhancers = []\<rparr>"

definition enter_module :: "str \<Rightarrow> module_registry \<Rightarrow> boot_error + module_registry" where
  "enter_module name reg =
     (let rest = dropWhile (\<lambda>n. n \<noteq> name) (rr_visiting reg) in
      if rest \<noteq> []
      then Inl (Internal (''cyclic module import detected: '' @ join_with '' -> '' (rest @ [name])))
      else Inr (reg\<lparr>rr_visiting := rr_visiting reg @ [name]\<rparr>))"

definition exit_module :: "module_registry \<Rightarrow> module_registry" where
  "exit_module reg = reg\<lparr>rr_visiting := butlast (rr_visiting reg)\<rparr>"

definition provider_override_or :: "module_registry \<Rightarrow> provider_definition \<Rightarrow> provider_definition" where
  "provider_override_or reg d =
     (case bt_get (rr_provider_overrides reg) (pdf_token d) of
        Some replacement \<Rightarrow> with_enhancers_from d replacement
      | None \<Rightarrow> d)"

definition module_override_or :: "module_registry \<Rightarrow> (nat \<Rightarrow> boot_module) \<Rightarrow> nat \<Rightarrow> nat" where
  "module_override_or reg env i =
     (case bt_get (rr_module_overrides reg) (bm_name (env i)) of Some j \<Rightarrow> j | None \<Rightarrow> i)"

definition module_route_prefix :: "str \<Rightarrow> str option \<Rightarrow> boot_error + str" where
  "module_route_prefix parent own =
     (let p = (case own of Some p \<Rightarrow> p | None \<Rightarrow> []) in
      if parent = [] \<and> (p = [] \<or> p = ''/'') then Inr []
      else if p = [] \<or> p = ''/'' then Inr parent
      else join_paths parent p)"

type_synonym graph_result = "(boot_error + registered_module \<times> module_registry \<times> provider_store) option"

section \<open>Registration of one module\<close>

text \<open>The loop over the providers; \<open>add\<close> is \<open>register\<close> or \<open>register_async\<close>.\<close>

fun register_providers ::
  "(nat \<Rightarrow> provider_definition \<Rightarrow> provider_store \<Rightarrow> boot_error + provider_store) \<Rightarrow> nat
     \<Rightarrow> provider_definition list \<Rightarrow> module_registry \<Rightarrow> provider_store
     \<Rightarrow> boot_error + module_registry \<times> provider_store" where
  "register_providers add m [] reg s = Inr (reg, s)"
| "register_providers add m (d # ds) reg s =
     (let d' = provider_override_or reg d in
      rbind (add m d' s) (\<lambda>s1.
        register_providers add m ds
          (reg\<lparr>rr_enhancers := rr_enhancers reg @ map (\<lambda>k. (k, m)) (pdf_enhancers d')\<rparr>) s1))"

fun export_tokens ::
  "nat \<Rightarrow> nat \<Rightarrow> str list \<Rightarrow> provider_store \<Rightarrow> (boot_error + provider_store) option" where
  "export_tokens target source [] s = Some (Inr s)"
| "export_tokens target source (tok # toks) s =
     (case export_from target source tok s of
        None \<Rightarrow> None
      | Some (Inl err) \<Rightarrow> Some (Inl err)
      | Some (Inr s1) \<Rightarrow> export_tokens target source toks s1)"

text \<open>
  The second half of \<open>register_module_inner\<close>, once the imports are registered.
\<close>

definition complete_module ::
  "(nat \<Rightarrow> provider_definition \<Rightarrow> provider_store \<Rightarrow> boot_error + provider_store)
     \<Rightarrow> (nat \<Rightarrow> boot_module) \<Rightarrow> nat \<Rightarrow> str \<Rightarrow> str \<Rightarrow> nat \<Rightarrow> nat \<Rightarrow> registered_module list
     \<Rightarrow> module_registry \<Rightarrow> provider_store \<Rightarrow> graph_result" where
  "complete_module add env i name prefix mref exps imported reg s =
     (let s1 = fold (\<lambda>v. add_visible_scope mref v) (rr_global reg # map rg_exports imported) s in
      case rbind (bm_providers (env i)) (\<lambda>ds. register_providers add mref ds reg s1) of
        Inl err \<Rightarrow> Some (Inl err)
      | Inr (reg2, s2) \<Rightarrow>
          (case bm_exports (env i) of
             Inl err \<Rightarrow> Some (Inl err)
           | Inr toks \<Rightarrow>
               (case export_tokens exps mref toks s2 of
                  None \<Rightarrow> None
                | Some (Inl err) \<Rightarrow> Some (Inl err)
                | Some (Inr s3) \<Rightarrow>
                    (let exported = md_order (module_of s3 exps) in
                     case (if bm_is_global (env i) then export_tokens (rr_global reg2) exps exported s3
                           else Some (Inr s3)) of
                       None \<Rightarrow> None
                     | Some (Inl err) \<Rightarrow> Some (Inl err)
                     | Some (Inr s4) \<Rightarrow>
                         (let r = \<lparr>rg_name = name, rg_ref = mref, rg_exports = exps\<rparr> in
                          Some (Inr (r,
                            reg2\<lparr>rr_pending := rr_pending reg2 @
                                   [\<lparr>pm_module = i, pm_name = name, pm_route_prefix = prefix, pm_ref = mref,
                                     pm_imports = map rg_name imported, pm_exported = exported,
                                     pm_is_global = bm_is_global (env i)\<rparr>],
                                 rr_registered := bt_insert name r (rr_registered reg2)\<rparr>, s4)))))))"

text \<open>The loop over imports; \<open>rec\<close> registers one of them.\<close>

fun register_imports ::
  "(nat \<Rightarrow> module_registry \<Rightarrow> provider_store \<Rightarrow> graph_result) \<Rightarrow> nat list \<Rightarrow> registered_module list
     \<Rightarrow> module_registry \<Rightarrow> provider_store
     \<Rightarrow> (boot_error + registered_module list \<times> module_registry \<times> provider_store) option" where
  "register_imports rec [] acc reg s = Some (Inr (acc, reg, s))"
| "register_imports rec (i # is) acc reg s =
     (case rec i reg s of
        None \<Rightarrow> None
      | Some (Inl err) \<Rightarrow> Some (Inl err)
      | Some (Inr (r, reg1, s1)) \<Rightarrow> register_imports rec is (acc @ [r]) reg1 s1)"

text \<open>\<open>register_forward_module_with_prefix\<close>: a module under registration will do.\<close>

definition register_forward ::
  "(nat \<Rightarrow> module_registry \<Rightarrow> provider_store \<Rightarrow> graph_result) \<Rightarrow> (nat \<Rightarrow> boot_module) \<Rightarrow> nat
     \<Rightarrow> module_registry \<Rightarrow> provider_store \<Rightarrow> graph_result" where
  "register_forward rec env i reg s =
     (let i1 = module_override_or reg env i; name = bm_name (env i1) in
      if trim name = [] then Some (Inl EmptyModuleName)
      else (case bt_get (rr_registered reg) name of
              Some r \<Rightarrow> Some (Inr (r, reg, s))
            | None \<Rightarrow>
                (case bt_get (rr_active reg) name of
                   Some r \<Rightarrow> Some (Inr (r, reg, s))
                 | None \<Rightarrow> rec i1 reg s)))"

primrec register_module ::
  "nat \<Rightarrow> (nat \<Rightarrow> provider_definition \<Rightarrow> provider_store \<Rightarrow> boot_error + provider_store)
     \<Rightarrow> (nat \<Rightarrow> boot_module) \<Rightarrow> str \<Rightarrow> nat \<Rightarrow> module_registry \<Rightarrow> provider_store \<Rightarrow> graph_result" where
  "register_module 0 add env parent i reg s = None"
| "register_module (Suc n) add env parent i reg s =
     (let i1 = module_override_or reg env i; b = env i1; name = bm_name b in
      if trim name = [] then Some (Inl EmptyModuleName)
      else (case bt_get (rr_registered reg) name of
              Some r \<Rightarrow> Some (Inr (r, reg, s))
            | None \<Rightarrow>
                (case rbind (module_route_prefix parent (bm_route_prefix b)) (\<lambda>prefix.
                        rmap (Pair prefix) (enter_module name reg)) of
                   Inl err \<Rightarrow> Some (Inl err)
                 | Inr (prefix, reg1) \<Rightarrow>
                     (let (mref, s1) = module_ref_new s;
                          (exps, s2) = module_ref_new s1;
                          reg2 = reg1\<lparr>rr_active := bt_insert name
                                   \<lparr>rg_name = name, rg_ref = mref, rg_exports = exps\<rparr> (rr_active reg1)\<rparr>;
                          rec = register_module n add env prefix
                      in (case register_imports rec (bm_imports b) [] reg2 s2 of
                            None \<Rightarrow> None
                          | Some (Inl err) \<Rightarrow> Some (Inl err)
                          | Some (Inr (imported, reg3, s3)) \<Rightarrow>
                              (case register_imports (register_forward rec env) (bm_forward_imports b) imported reg3 s3 of
                                 None \<Rightarrow> None
                               | Some (Inl err) \<Rightarrow> Some (Inl err)
                               | Some (Inr (imported, reg4, s4)) \<Rightarrow>
                                   (case complete_module add env i1 name prefix mref exps imported reg4 s4 of
                                      None \<Rightarrow> None
                                    | Some (Inl err) \<Rightarrow> Some (Inl err)
                                    | Some (Inr (r, reg5, s5)) \<Rightarrow>
                                        Some (Inr (r, exit_module
                                          (reg5\<lparr>rr_active := bt_remove name (rr_active reg5)\<rparr>), s5)))))))))"

section \<open>The build\<close>

text \<open>
  The start of \<open>build\<close>: the references of the application and of the global exports, with
  the lazy loader in the latter, then the modules one by one, each visible to the
  application.
\<close>

definition lazy_loader_token :: str where
  "lazy_loader_token = ''a3s_boot::app::lazy::LazyModuleLoader''"

definition build_start :: "boot_error + provider_store" where
  "build_start =
     (let (root, s0) = module_ref_new \<lparr>ps_modules = [], ps_next_key = 1\<rparr>;
          (glob, s1) = module_ref_new s0;
          (e, s2) = provider_entry_new (named_from_arc lazy_loader_token) s1
      in rmap (add_visible_scope root glob) (insert_entry glob lazy_loader_token e s2))"

fun build_modules ::
  "nat \<Rightarrow> (nat \<Rightarrow> provider_definition \<Rightarrow> provider_store \<Rightarrow> boot_error + provider_store)
     \<Rightarrow> (nat \<Rightarrow> boot_module) \<Rightarrow> nat list \<Rightarrow> module_registry \<Rightarrow> provider_store
     \<Rightarrow> (boot_error + module_registry \<times> provider_store) option" where
  "build_modules n add env [] reg s = Some (Inr (reg, s))"
| "build_modules n add env (i # is) reg s =
     (case register_module n add env [] i reg s of
        None \<Rightarrow> None
      | Some (Inl err) \<Rightarrow> Some (Inl err)
      | Some (Inr (r, reg1, s1)) \<Rightarrow> build_modules n add env is reg1 (add_visible_scope 0 (rg_ref r) s1))"

definition build_graph ::
  "nat \<Rightarrow> (nat \<Rightarrow> provider_definition \<Rightarrow> provider_store \<Rightarrow> boot_error + provider_store)
     \<Rightarrow> (nat \<Rightarrow> boot_module) \<Rightarrow> (str, provider_definition) btree \<Rightarrow> (str, nat) btree \<Rightarrow> nat list
     \<Rightarrow> (boot_error + module_registry \<times> provider_store) option" where
  "build_graph n add env provider_overrides module_overrides is =
     (case build_start of
        Inl err \<Rightarrow> Some (Inl err)
      | Inr s \<Rightarrow> build_modules n add env is (module_registry_new 1 provider_overrides module_overrides) s)"

text \<open>The two phases of \<open>finalize\<close> that check the plans, in registration order.\<close>

fun finalize_plans :: "provider_store \<Rightarrow> pending_module list \<Rightarrow> (boot_error + unit) option" where
  "finalize_plans s [] = Some (Inr ())"
| "finalize_plans s (p # ps) =
     (case validate_local_resolution_plans s (pm_ref p) of
        None \<Rightarrow> None
      | Some (Inl err) \<Rightarrow> Some (Inl err)
      | Some (Inr _) \<Rightarrow> finalize_plans s ps)"

section \<open>The shape of the store\<close>

text \<open>
  References come in pairs: an even one for the module (0 is the application) and an odd
  one for its exports (1 for the global exports). Exports see nothing, modules see exports,
  and the application sees modules too.
\<close>

definition shape :: "provider_store \<Rightarrow> nat list list" where
  "shape s = map md_visible (ps_modules s)"

definition layered :: "nat list list \<Rightarrow> bool" where
  "layered vss \<longleftrightarrow> even (length vss) \<and> 2 \<le> length vss \<and>
     (\<forall>m < length vss. \<forall>v \<in> set (vss ! m). (odd v \<and> even m) \<or> (m = 0 \<and> even v \<and> 2 \<le> v))"

definition layer :: "nat \<Rightarrow> nat" where
  "layer m = (if odd m then 0 else if m = 0 then 2 else 1)"

lemma layered_ranked: "layered (shape s) \<Longrightarrow> ranked s layer"
  unfolding ranked_def
proof (intro allI conjI ballI)
  fix m assume l: "layered (shape s)"
  then show "layer m \<le> length (ps_modules s)"
    by (auto simp: layer_def layered_def shape_def)
  fix v assume v: "v \<in> set (md_visible (module_of s m))"
  then have "m < length (ps_modules s)" by (auto simp: module_of_def module_data_new_def split: if_splits)
  with l v have "(odd v \<and> even m) \<or> (m = 0 \<and> even v \<and> 2 \<le> v)"
    by (auto simp: layered_def shape_def module_of_def)
  then show "layer v < layer m" by (auto simp: layer_def)
qed

lemma shape_insert_entry: "insert_entry m tok e s = Inr s' \<Longrightarrow> shape s' = shape s"
  by (auto simp: insert_entry_def Let_def update_module_def shape_def module_of_def map_update list_update_same_conv
      list_update_beyond split: if_splits)

lemma shape_register:
  "register_provider m d s = Inr s' \<or> register_provider_async m d s = Inr s' \<Longrightarrow> shape s' = shape s"
  by (auto simp: register_provider_def register_provider_async_def provider_entry_new_def result_simps shape_def
      dest!: shape_insert_entry split: if_splits)

lemma shape_export: "export_from m source tok s = Some (Inr s') \<Longrightarrow> shape s' = shape s"
  by (auto simp: export_from_def dest: shape_insert_entry split: option.splits)

lemma shape_visible: "shape (add_visible_scope m v s) = (shape s)[m := shape s ! m @ [v]]"
proof (cases "m < length (ps_modules s)")
  case True
  then show ?thesis by (simp add: add_visible_scope_def update_module_def shape_def module_of_def map_update)
next
  case False
  then show ?thesis by (simp add: add_visible_scope_def update_module_def shape_def list_update_beyond)
qed

lemma shape_new: "shape (snd (module_ref_new s)) = shape s @ [[]]"
  by (simp add: module_ref_new_def shape_def module_data_new_def)

lemma length_shape [simp]: "length (shape s) = length (ps_modules s)"
  by (simp add: shape_def)

lemma layered_new_pair:
  "layered vss \<Longrightarrow> layered (vss @ [[], []])"
  by (auto simp: layered_def nth_append nth_Cons' split: if_splits)

lemma layered_visible:
  "layered vss \<Longrightarrow> (odd v \<and> even m) \<or> (m = 0 \<and> even v \<and> 2 \<le> v) \<Longrightarrow> layered (vss[m := vss ! m @ [v]])"
  by (cases "m < length vss") (auto simp: layered_def nth_list_update list_update_beyond split: if_splits)

lemma visible_fold:
  assumes "even m" "store_ok s" "layered (shape s)" "\<forall>v \<in> set vs. odd v"
  shows "store_ok (fold (\<lambda>v. add_visible_scope m v) vs s) \<and> layered (shape (fold (\<lambda>v. add_visible_scope m v) vs s)) \<and>
    length (ps_modules (fold (\<lambda>v. add_visible_scope m v) vs s)) = length (ps_modules s)"
  using assms
proof (induction vs arbitrary: s)
  case (Cons v vs)
  have "length (ps_modules (add_visible_scope m v s)) = length (ps_modules s)"
    by (simp add: add_visible_scope_def update_module_def)
  with Cons show ?case
    by (simp add: store_ok_visible shape_visible layered_visible)
qed simp

lemma export_tokens_ok:
  "export_tokens target source toks s = Some (Inr s') \<Longrightarrow> store_ok s \<Longrightarrow> store_ok s' \<and> shape s' = shape s"
proof (induction toks arbitrary: s)
  case (Cons tok toks)
  then obtain s1 where 1: "export_from target source tok s = Some (Inr s1)"
    and 2: "export_tokens target source toks s1 = Some (Inr s')"
    by (auto split: option.splits sum.splits)
  from Cons.IH [OF 2] store_ok_export [OF Cons.prems(2) 1] shape_export [OF 1] show ?case by simp
qed simp

section \<open>The invariant of the registry\<close>

text \<open>
  \<open>ordered env over ps\<close>: in the list of finished modules, each module follows its imports
  (not its forward imports), as they are after the overrides.
\<close>

definition target_name :: "(nat \<Rightarrow> boot_module) \<Rightarrow> (str, nat) btree \<Rightarrow> nat \<Rightarrow> str" where
  "target_name env over i = bm_name (env (case bt_get over (bm_name (env i)) of Some j \<Rightarrow> j | None \<Rightarrow> i))"

definition ordered :: "(nat \<Rightarrow> boot_module) \<Rightarrow> (str, nat) btree \<Rightarrow> pending_module list \<Rightarrow> bool" where
  "ordered env over ps \<longleftrightarrow> distinct (map pm_name ps) \<and>
     (\<forall>k < length ps. pm_name (ps ! k) = bm_name (env (pm_module (ps ! k))) \<and>
        (\<forall>j \<in> set (bm_imports (env (pm_module (ps ! k)))).
           target_name env over j \<in> set (map pm_name (take k ps))))"

definition ref_ok :: "provider_store \<Rightarrow> registered_module \<Rightarrow> bool" where
  "ref_ok s r \<longleftrightarrow> even (rg_ref r) \<and> 2 \<le> rg_ref r \<and> odd (rg_exports r) \<and>
     rg_ref r < length (ps_modules s) \<and> rg_exports r < length (ps_modules s)"

definition registry_inv :: "(nat \<Rightarrow> boot_module) \<Rightarrow> module_registry \<Rightarrow> provider_store \<Rightarrow> bool" where
  "registry_inv env reg s \<longleftrightarrow> store_ok s \<and> layered (shape s) \<and> odd (rr_global reg) \<and>
     (\<forall>name r. bt_get (rr_registered reg) name = Some r \<longrightarrow> ref_ok s r) \<and>
     (\<forall>name r. bt_get (rr_active reg) name = Some r \<longrightarrow> ref_ok s r) \<and>
     ordered env (rr_module_overrides reg) (rr_pending reg) \<and>
     (\<forall>name. bt_get (rr_registered reg) name \<noteq> None \<longleftrightarrow> name \<in> set (map pm_name (rr_pending reg))) \<and>
     (\<forall>name \<in> set (rr_visiting reg). bt_get (rr_registered reg) name = None)"

text \<open>What a successful call keeps of the state it found.\<close>

definition extends :: "module_registry \<Rightarrow> provider_store \<Rightarrow> module_registry \<Rightarrow> provider_store \<Rightarrow> bool" where
  "extends reg s reg' s' \<longleftrightarrow>
     rr_visiting reg' = rr_visiting reg \<and> rr_global reg' = rr_global reg \<and>
     rr_module_overrides reg' = rr_module_overrides reg \<and>
     set (map pm_name (rr_pending reg)) \<subseteq> set (map pm_name (rr_pending reg')) \<and>
     length (ps_modules s) \<le> length (ps_modules s')"

lemma extends_refl [simp]: "extends reg s reg s"
  by (simp add: extends_def)

lemma extends_trans: "extends reg s reg1 s1 \<Longrightarrow> extends reg1 s1 reg2 s2 \<Longrightarrow> extends reg s reg2 s2"
  by (auto simp: extends_def)

lemma ref_ok_mono: "ref_ok s r \<Longrightarrow> length (ps_modules s) \<le> length (ps_modules s') \<Longrightarrow> ref_ok s' r"
  by (auto simp: ref_ok_def)

lemma ordered_append:
  assumes "ordered env over ps" "pm_name p \<notin> set (map pm_name ps)" "pm_name p = bm_name (env (pm_module p))"
    "\<forall>j \<in> set (bm_imports (env (pm_module p))). target_name env over j \<in> set (map pm_name ps)"
  shows "ordered env over (ps @ [p])"
  using assms by (auto simp: ordered_def nth_append less_Suc_eq)

text \<open>
  What the registry relies on when it registers a provider: the store stays well-formed
  and no visible scope changes.
\<close>

locale provider_registration =
  fixes add :: "nat \<Rightarrow> provider_definition \<Rightarrow> provider_store \<Rightarrow> boot_error + provider_store"
  assumes add_store_ok: "add m d s = Inr s' \<Longrightarrow> store_ok s \<Longrightarrow> store_ok s'"
    and add_shape: "add m d s = Inr s' \<Longrightarrow> shape s' = shape s"
begin

lemma register_providers_ok:
  "register_providers add m ds reg s = Inr (reg', s') \<Longrightarrow> store_ok s \<Longrightarrow>
     store_ok s' \<and> shape s' = shape s \<and> (\<exists>es. reg' = reg\<lparr>rr_enhancers := es\<rparr>)"
proof (induction ds arbitrary: reg s)
  case Nil
  then show ?case by (auto intro: exI [of _ "rr_enhancers reg"])
next
  case (Cons d ds)
  then obtain s1 where 1: "add m (provider_override_or reg d) s = Inr s1"
    and 2: "register_providers add m ds
      (reg\<lparr>rr_enhancers := rr_enhancers reg @ map (\<lambda>k. (k, m)) (pdf_enhancers (provider_override_or reg d))\<rparr>) s1
      = Inr (reg', s')"
    by (auto simp: Let_def result_simps)
  from Cons.IH [OF 2] add_store_ok [OF 1] add_shape [OF 1] Cons.prems(2) show ?case by auto
qed

end

interpretation sync: provider_registration register_provider
  by unfold_locales (blast intro: store_ok_register shape_register)+

interpretation async: provider_registration register_provider_async
  by unfold_locales (blast intro: store_ok_register shape_register)+

lemma register_imports_ok:
  assumes rec: "\<And>i reg s r reg' s'. registry_inv env reg s \<Longrightarrow> rr_module_overrides reg = over \<Longrightarrow>
      rec i reg s = Some (Inr (r, reg', s')) \<Longrightarrow>
      registry_inv env reg' s' \<and> extends reg s reg' s' \<and> ref_ok s' r \<and> D i (set (map pm_name (rr_pending reg')))"
    and mono: "\<And>i A B. D i A \<Longrightarrow> A \<subseteq> B \<Longrightarrow> D i B"
  shows "register_imports rec is acc reg s = Some (Inr (rs, reg', s')) \<Longrightarrow> registry_inv env reg s \<Longrightarrow>
     rr_module_overrides reg = over \<Longrightarrow> \<forall>r \<in> set acc. ref_ok s r \<Longrightarrow>
     registry_inv env reg' s' \<and> extends reg s reg' s' \<and> (\<forall>r \<in> set rs. ref_ok s' r) \<and>
     (\<forall>i \<in> set is. D i (set (map pm_name (rr_pending reg'))))"
proof (induction "is" arbitrary: acc reg s)
  case (Cons i js)
  then obtain r reg1 s1 where 1: "rec i reg s = Some (Inr (r, reg1, s1))"
    and 2: "register_imports rec js (acc @ [r]) reg1 s1 = Some (Inr (rs, reg', s'))"
    by (auto split: option.splits sum.splits)
  from rec [OF Cons.prems(2,3) 1] have inv1: "registry_inv env reg1 s1" and e1: "extends reg s reg1 s1"
    and r: "ref_ok s1 r" and d: "D i (set (map pm_name (rr_pending reg1)))" by simp_all
  have acc: "\<forall>x \<in> set (acc @ [r]). ref_ok s1 x"
    using Cons.prems(4) r e1 by (auto simp: extends_def intro: ref_ok_mono)
  have over: "rr_module_overrides reg1 = over"
    using e1 Cons.prems(3) by (simp add: extends_def)
  note ih = Cons.IH [OF 2 inv1 over acc]
  then have "D i (set (map pm_name (rr_pending reg')))"
    using mono [OF d] by (simp add: extends_def)
  with ih extends_trans [OF e1] show ?case by auto
qed simp

context provider_registration
begin

lemma complete_module_ok:
  assumes run: "complete_module add env i name prefix mref exps imported reg s = Some (Inr (r, reg', s'))"
    and ok: "store_ok s" "layered (shape s)" "even mref" "odd (rr_global reg)" "\<forall>x \<in> set imported. ref_ok s x"
  shows "store_ok s' \<and> layered (shape s') \<and> length (ps_modules s') = length (ps_modules s) \<and>
    r = \<lparr>rg_name = name, rg_ref = mref, rg_exports = exps\<rparr> \<and>
    (\<exists>es p. pm_name p = name \<and> pm_module p = i \<and>
       reg' = reg\<lparr>rr_enhancers := es, rr_pending := rr_pending reg @ [p],
                  rr_registered := bt_insert name r (rr_registered reg)\<rparr>)"
proof -
  let ?s1 = "fold (\<lambda>v. add_visible_scope mref v) (rr_global reg # map rg_exports imported) s"
  have vis: "store_ok ?s1 \<and> layered (shape ?s1) \<and> length (ps_modules ?s1) = length (ps_modules s)"
    by (rule visible_fold) (use ok in \<open>auto simp: ref_ok_def\<close>)
  from run obtain ds reg2 s2 toks s3 s4 where
    1: "register_providers add mref ds reg ?s1 = Inr (reg2, s2)" and
    2: "export_tokens exps mref toks s2 = Some (Inr s3)" and
    3: "(if bm_is_global (env i) then export_tokens (rr_global reg2) exps (md_order (module_of s3 exps)) s3
         else Some (Inr s3)) = Some (Inr s4)" and
    r: "r = \<lparr>rg_name = name, rg_ref = mref, rg_exports = exps\<rparr>" and s': "s' = s4" and
    reg': "reg' = reg2\<lparr>rr_pending := rr_pending reg2 @
                     [\<lparr>pm_module = i, pm_name = name, pm_route_prefix = prefix, pm_ref = mref,
                       pm_imports = map rg_name imported, pm_exported = md_order (module_of s3 exps),
                       pm_is_global = bm_is_global (env i)\<rparr>],
                   rr_registered := bt_insert name r (rr_registered reg2)\<rparr>"
    unfolding complete_module_def Let_def
    by (auto simp: result_simps split: option.splits sum.splits prod.splits)
  from register_providers_ok [OF 1] vis obtain es where
    s2: "store_ok s2" "shape s2 = shape ?s1" and reg2: "reg2 = reg\<lparr>rr_enhancers := es\<rparr>" by blast
  from export_tokens_ok [OF 2 s2(1)] s2(2) have s3: "store_ok s3" "shape s3 = shape ?s1" by simp_all
  have s4: "store_ok s4 \<and> shape s4 = shape ?s1"
  proof (cases "bm_is_global (env i)")
    case True
    with 3 have "export_tokens (rr_global reg2) exps (md_order (module_of s3 exps)) s3 = Some (Inr s4)" by simp
    from export_tokens_ok [OF this s3(1)] s3(2) show ?thesis by simp
  next
    case False
    with 3 s3 show ?thesis by simp
  qed
  then have "length (ps_modules s') = length (ps_modules s)"
    using vis length_shape s' by metis
  moreover have "\<exists>es p. pm_name p = name \<and> pm_module p = i \<and>
       reg' = reg\<lparr>rr_enhancers := es, rr_pending := rr_pending reg @ [p],
                  rr_registered := bt_insert name r (rr_registered reg)\<rparr>"
    unfolding reg' reg2
    by (intro exI [of _ es] exI [of _ "\<lparr>pm_module = i, pm_name = name, pm_route_prefix = prefix, pm_ref = mref,
        pm_imports = map rg_name imported, pm_exported = md_order (module_of s3 exps),
        pm_is_global = bm_is_global (env i)\<rparr>"]) simp
  ultimately show ?thesis using s4 vis s' r by auto
qed

end

lemma enter_module_Inr:
  "enter_module name reg = Inr reg' \<longleftrightarrow>
     name \<notin> set (rr_visiting reg) \<and> reg' = reg\<lparr>rr_visiting := rr_visiting reg @ [name]\<rparr>"
  by (auto simp: enter_module_def Let_def)

definition module_entered :: "str \<Rightarrow> module_registry \<Rightarrow> provider_store \<Rightarrow> module_registry" where
  "module_entered name reg s = reg\<lparr>rr_visiting := rr_visiting reg @ [name],
     rr_active := bt_insert name \<lparr>rg_name = name, rg_ref = length (ps_modules s), rg_exports = Suc (length (ps_modules s))\<rparr>
                    (rr_active reg)\<rparr>"

definition module_pair :: "provider_store \<Rightarrow> provider_store" where
  "module_pair s = snd (module_ref_new (snd (module_ref_new s)))"

lemma register_module_cases [consumes 1, case_names known run]:
  assumes "register_module (Suc n) add env parent i reg s = Some (Inr (r, reg', s'))"
  obtains
    "bt_get (rr_registered reg) (target_name env (rr_module_overrides reg) i) = Some r" "reg' = reg" "s' = s"
  | i1 name prefix imported reg3 s3 all reg4 s4 reg5 where
    "name = bm_name (env i1)" "name = target_name env (rr_module_overrides reg) i"
    "bt_get (rr_registered reg) name = None" "name \<notin> set (rr_visiting reg)"
    "register_imports (register_module n add env prefix) (bm_imports (env i1)) []
       (module_entered name reg s) (module_pair s) = Some (Inr (imported, reg3, s3))"
    "register_imports (register_forward (register_module n add env prefix) env) (bm_forward_imports (env i1)) imported reg3 s3
       = Some (Inr (all, reg4, s4))"
    "complete_module add env i1 name prefix (length (ps_modules s)) (Suc (length (ps_modules s))) all reg4 s4
       = Some (Inr (r, reg5, s'))"
    "reg' = exit_module (reg5\<lparr>rr_active := bt_remove name (rr_active reg5)\<rparr>)"
proof -
  define i1 where "i1 = module_override_or reg env i"
  define name where "name = bm_name (env i1)"
  have tn: "name = target_name env (rr_module_overrides reg) i"
    by (simp add: name_def i1_def target_name_def module_override_or_def)
  note run = assms [unfolded register_module.simps Let_def, folded i1_def, folded name_def]
  show ?thesis
  proof (cases "bt_get (rr_registered reg) name")
    case (Some r')
    with run tn that(1) show ?thesis by (auto split: if_splits)
  next
    case None
    have "\<exists>prefix. module_route_prefix parent (bm_route_prefix (env i1)) = Inr prefix \<and> name \<notin> set (rr_visiting reg)"
      using run None
      by (cases "module_route_prefix parent (bm_route_prefix (env i1))"; cases "enter_module name reg")
        (auto simp: enter_module_Inr split: if_splits)
    then obtain prefix where pfx: "module_route_prefix parent (bm_route_prefix (env i1)) = Inr prefix"
      and v: "name \<notin> set (rr_visiting reg)" by blast
    have ent: "enter_module name reg = Inr (reg\<lparr>rr_visiting := rr_visiting reg @ [name]\<rparr>)"
      using v by (simp add: enter_module_Inr)
    obtain s1 where p1: "module_ref_new s = (length (ps_modules s), s1)"
      and p2: "module_ref_new s1 = (Suc (length (ps_modules s)), module_pair s)"
      by (simp add: module_ref_new_def module_pair_def)
    have rest: "(case register_imports (register_module n add env prefix) (bm_imports (env i1)) []
                 (module_entered name reg s) (module_pair s) of
               None \<Rightarrow> None
             | Some (Inl err) \<Rightarrow> Some (Inl err)
             | Some (Inr (imported, reg3, s3)) \<Rightarrow>
                 (case register_imports (register_forward (register_module n add env prefix) env)
                         (bm_forward_imports (env i1)) imported reg3 s3 of
                    None \<Rightarrow> None
                  | Some (Inl err) \<Rightarrow> Some (Inl err)
                  | Some (Inr (imported, reg4, s4)) \<Rightarrow>
                      (case complete_module add env i1 name prefix (length (ps_modules s))
                              (Suc (length (ps_modules s))) imported reg4 s4 of
                         None \<Rightarrow> None
                       | Some (Inl err) \<Rightarrow> Some (Inl err)
                       | Some (Inr (r, reg5, s5)) \<Rightarrow>
                           Some (Inr (r, exit_module
                             (reg5\<lparr>rr_active := bt_remove name (rr_active reg5)\<rparr>), s5))))) = Some (Inr (r, reg', s'))"
      using run None pfx ent by (simp add: p1 p2 module_entered_def split: if_splits)
    from rest obtain imported reg3 s3 where i:
      "register_imports (register_module n add env prefix) (bm_imports (env i1)) []
         (module_entered name reg s) (module_pair s) = Some (Inr (imported, reg3, s3))"
      by (auto split: option.splits sum.splits)
    with rest obtain all reg4 s4 where f:
      "register_imports (register_forward (register_module n add env prefix) env) (bm_forward_imports (env i1)) imported reg3 s3
         = Some (Inr (all, reg4, s4))"
      by (auto split: option.splits sum.splits)
    with rest i obtain reg5 where
      "complete_module add env i1 name prefix (length (ps_modules s)) (Suc (length (ps_modules s))) all reg4 s4
         = Some (Inr (r, reg5, s'))"
      "reg' = exit_module (reg5\<lparr>rr_active := bt_remove name (rr_active reg5)\<rparr>)"
      by (auto split: option.splits sum.splits)
    with that(2) [OF name_def tn None v i f] show ?thesis by blast
  qed
qed

lemma registry_inv_entered:
  assumes inv: "registry_inv env reg s" and none: "bt_get (rr_registered reg) name = None"
  shows "registry_inv env (module_entered name reg s) (module_pair s)"
proof -
  have len: "length (ps_modules (module_pair s)) = Suc (Suc (length (ps_modules s)))"
    by (simp add: module_pair_def module_ref_new_def)
  have sh: "shape (module_pair s) = shape s @ [[], []]"
    by (simp add: module_pair_def shape_new)
  have "store_ok (module_pair s)"
    using inv unfolding module_pair_def registry_inv_def by (intro store_ok_new_module) blast
  moreover have "layered (shape (module_pair s))"
    using inv unfolding sh registry_inv_def by (intro layered_new_pair) blast
  moreover have "even (length (ps_modules s))" "2 \<le> length (ps_modules s)"
    using inv by (simp_all add: registry_inv_def layered_def)
  then have "ref_ok (module_pair s) \<lparr>rg_name = name, rg_ref = length (ps_modules s), rg_exports = Suc (length (ps_modules s))\<rparr>"
    by (simp add: ref_ok_def len)
  moreover have "ref_ok (module_pair s) r" if "ref_ok s r" for r
    using that by (rule ref_ok_mono) (simp add: len)
  ultimately show ?thesis
    using inv none unfolding registry_inv_def module_entered_def by (auto split: if_splits)
qed

context provider_registration
begin

lemma register_forward_ok:
  assumes rec: "\<And>i reg s r reg' s'. registry_inv env reg s \<Longrightarrow> rec i reg s = Some (Inr (r, reg', s')) \<Longrightarrow>
      registry_inv env reg' s' \<and> extends reg s reg' s' \<and> ref_ok s' r \<and> P i reg reg'"
    and inv: "registry_inv env reg s" and run: "register_forward rec env j reg s = Some (Inr (r, reg', s'))"
  shows "registry_inv env reg' s' \<and> extends reg s reg' s' \<and> ref_ok s' r"
proof -
  let ?j = "module_override_or reg env j"
  from run have "(bt_get (rr_registered reg) (bm_name (env ?j)) = Some r \<or>
        bt_get (rr_active reg) (bm_name (env ?j)) = Some r) \<and> reg' = reg \<and> s' = s \<or>
      rec ?j reg s = Some (Inr (r, reg', s'))"
    by (auto simp: register_forward_def Let_def split: if_splits option.splits)
  then show ?thesis
  proof
    assume "(bt_get (rr_registered reg) (bm_name (env ?j)) = Some r \<or>
        bt_get (rr_active reg) (bm_name (env ?j)) = Some r) \<and> reg' = reg \<and> s' = s"
    with inv show ?thesis unfolding registry_inv_def by auto
  next
    assume "rec ?j reg s = Some (Inr (r, reg', s'))"
    with rec [OF inv this] show ?thesis by blast
  qed
qed

lemma register_module_ok:
  "registry_inv env reg s \<Longrightarrow> register_module n add env parent i reg s = Some (Inr (r, reg', s')) \<Longrightarrow>
     registry_inv env reg' s' \<and> extends reg s reg' s' \<and> ref_ok s' r \<and>
     target_name env (rr_module_overrides reg) i \<in> set (map pm_name (rr_pending reg'))"
proof (induction n arbitrary: parent i reg s r reg' s')
  case (Suc n)
  note inv = Suc.prems(1)
  from Suc.prems(2) show ?case
  proof (cases rule: register_module_cases)
    case known
    with inv show ?thesis unfolding registry_inv_def by auto
  next
    case (run i1 name prefix imported reg3 s3 all reg4 s4 reg5)
    let ?over = "rr_module_overrides reg" and ?reg2 = "module_entered name reg s" and ?s2 = "module_pair s"
    have inv2: "registry_inv env ?reg2 ?s2" by (rule registry_inv_entered [OF inv run(3)])
    have over2: "rr_module_overrides ?reg2 = ?over" by (simp add: module_entered_def)
    have rec: "registry_inv env reg' s' \<and> extends reg s reg' s' \<and> ref_ok s' r \<and>
        target_name env ?over j \<in> set (map pm_name (rr_pending reg'))"
      if "registry_inv env reg s" "rr_module_overrides reg = ?over"
        "register_module n add env prefix j reg s = Some (Inr (r, reg', s'))" for j reg s r reg' s'
      using Suc.IH [OF that(1,3)] that(2) by simp
    have 3: "registry_inv env reg3 s3 \<and> extends ?reg2 ?s2 reg3 s3 \<and> (\<forall>r \<in> set imported. ref_ok s3 r) \<and>
      (\<forall>j \<in> set (bm_imports (env i1)). target_name env ?over j \<in> set (map pm_name (rr_pending reg3)))"
      by (rule register_imports_ok [OF _ _ run(5) inv2 over2, where D = "\<lambda>j A. target_name env ?over j \<in> A"])
        (erule (2) rec, blast, simp)
    have fwd: "registry_inv env reg' s' \<and> extends reg s reg' s' \<and> ref_ok s' r \<and> True"
      if "registry_inv env reg s" "rr_module_overrides reg = ?over"
        "register_forward (register_module n add env prefix) env j reg s = Some (Inr (r, reg', s'))"
      for j reg s r reg' s'
      using register_forward_ok [OF Suc.IH that(1,3)] by simp
    have over3: "rr_module_overrides reg3 = ?over" using 3 over2 by (simp add: extends_def)
    have 4: "registry_inv env reg4 s4 \<and> extends reg3 s3 reg4 s4 \<and> (\<forall>r \<in> set all. ref_ok s4 r) \<and>
      (\<forall>j \<in> set (bm_forward_imports (env i1)). True)"
      by (rule register_imports_ok [OF _ _ run(6) _ over3, where D = "\<lambda>_ _. True"])
        (erule (2) fwd, use 3 in simp_all)
    have e4: "extends ?reg2 ?s2 reg4 s4" using 3 4 extends_trans by blast
    have inv4: "registry_inv env reg4 s4" using 4 by blast
    have 5: "store_ok s' \<and> layered (shape s') \<and> length (ps_modules s') = length (ps_modules s4) \<and>
      r = \<lparr>rg_name = name, rg_ref = length (ps_modules s), rg_exports = Suc (length (ps_modules s))\<rparr> \<and>
      (\<exists>es p. pm_name p = name \<and> pm_module p = i1 \<and>
         reg5 = reg4\<lparr>rr_enhancers := es, rr_pending := rr_pending reg4 @ [p],
                     rr_registered := bt_insert name r (rr_registered reg4)\<rparr>)"
      by (rule complete_module_ok [OF run(7)])
        (use inv inv4 4 in \<open>simp_all add: registry_inv_def layered_def\<close>)
    then obtain es p where p: "pm_name p = name" "pm_module p = i1" and
      reg5: "reg5 = reg4\<lparr>rr_enhancers := es, rr_pending := rr_pending reg4 @ [p],
                     rr_registered := bt_insert name r (rr_registered reg4)\<rparr>" by blast
    have vis4: "rr_visiting reg4 = rr_visiting reg @ [name]"
      using e4 by (simp add: extends_def module_entered_def)
    have reg': "rr_visiting reg' = rr_visiting reg" "rr_pending reg' = rr_pending reg4 @ [p]"
      "rr_registered reg' = bt_insert name r (rr_registered reg4)"
      "rr_active reg' = bt_remove name (rr_active reg4)"
      "rr_global reg' = rr_global reg4" "rr_module_overrides reg' = rr_module_overrides reg4"
      by (simp_all add: run(8) exit_module_def reg5 vis4)
    have over4: "rr_module_overrides reg4 = ?over" and glob4: "rr_global reg4 = rr_global reg"
      using e4 by (simp_all add: extends_def module_entered_def)
    have len4: "Suc (Suc (length (ps_modules s))) \<le> length (ps_modules s')"
      using e4 5 by (simp add: extends_def module_pair_def module_ref_new_def)
    have r_ok: "ref_ok s' r"
      using 5 len4 inv by (simp add: ref_ok_def registry_inv_def layered_def)
    have up: "ref_ok s' x" if "ref_ok s4 x" for x
      using that 5 by (auto intro: ref_ok_mono)
    have unreg: "bt_get (rr_registered reg4) name = None"
      using inv4 vis4 by (simp add: registry_inv_def)
    have fresh: "name \<notin> set (map pm_name (rr_pending reg4))"
      using inv4 unreg unfolding registry_inv_def by blast
    have ord: "ordered env ?over (rr_pending reg4 @ [p])"
    proof (rule ordered_append)
      show "ordered env ?over (rr_pending reg4)"
        using inv4 over4 unfolding registry_inv_def by simp
      show "\<forall>j \<in> set (bm_imports (env (pm_module p))). target_name env ?over j \<in> set (map pm_name (rr_pending reg4))"
        using 3 4 p(2) unfolding extends_def by blast
    qed (use fresh p run(1) in simp_all)
    have "registry_inv env reg' s'"
      unfolding registry_inv_def
    proof (intro conjI allI impI ballI)
      fix nm x assume "bt_get (rr_registered reg') nm = Some x"
      then show "ref_ok s' x" using inv4 r_ok up unfolding registry_inv_def by (auto simp: reg' split: if_splits)
    next
      fix nm x assume "bt_get (rr_active reg') nm = Some x"
      then show "ref_ok s' x" using inv4 up unfolding registry_inv_def by (auto simp: reg' split: if_splits)
    next
      fix nm show "bt_get (rr_registered reg') nm \<noteq> None \<longleftrightarrow> nm \<in> set (map pm_name (rr_pending reg'))"
        using inv4 p(1) unfolding registry_inv_def by (auto simp: reg')
    next
      fix nm assume "nm \<in> set (rr_visiting reg')"
      then show "bt_get (rr_registered reg') nm = None"
        using inv4 vis4 run(4) unfolding registry_inv_def by (auto simp: reg')
    qed (use 5 ord over4 glob4 inv in \<open>simp_all add: reg' registry_inv_def\<close>)
    moreover have "extends reg s reg' s'"
      using e4 len4 unfolding extends_def by (auto simp: reg' module_entered_def)
    ultimately show ?thesis
      using r_ok p(1) run(2) by (simp add: reg')
  qed
qed simp

end

section \<open>Properties of the build\<close>

lemma registry_inv_root:
  assumes "registry_inv env reg s" "ref_ok s r"
  shows "registry_inv env reg (add_visible_scope 0 (rg_ref r) s)"
proof -
  have len: "length (ps_modules (add_visible_scope 0 (rg_ref r) s)) = length (ps_modules s)"
    by (simp add: add_visible_scope_def update_module_def)
  then have "ref_ok (add_visible_scope 0 (rg_ref r) s) x \<longleftrightarrow> ref_ok s x" for x
    by (simp add: ref_ok_def)
  moreover have "layered (shape (add_visible_scope 0 (rg_ref r) s))"
    unfolding shape_visible
    by (rule layered_visible) (use assms in \<open>auto simp: registry_inv_def ref_ok_def\<close>)
  moreover have "store_ok (add_visible_scope 0 (rg_ref r) s)"
    using assms by (auto simp: registry_inv_def intro: store_ok_visible)
  ultimately show ?thesis
    using assms(1) unfolding registry_inv_def by blast
qed

lemma build_start_ok:
  assumes "build_start = Inr s"
  shows "store_ok s \<and> shape s = [[1], []]"
proof -
  let ?e = "\<lparr>pe_key = 1, pe_definition = named_from_arc lazy_loader_token, pe_owner = None\<rparr>"
  have s: "s = \<lparr>ps_modules = [\<lparr>md_providers = [], md_order = [], md_visible = [1]\<rparr>,
        \<lparr>md_providers = [(lazy_loader_token, ?e)], md_order = [lazy_loader_token], md_visible = []\<rparr>],
      ps_next_key = 2\<rparr>"
    using assms
    by (auto simp: build_start_def module_ref_new_def provider_entry_new_def insert_entry_def Let_def
        module_of_def module_data_new_def update_module_def add_visible_scope_def)
  have "stored s \<subseteq> {with_owner 1 ?e}"
    by (auto simp: stored_def s module_of_def module_data_new_def bt_get_def nth_Cons' less_Suc_eq
        split: if_splits)
  moreover have "pe_key (with_owner 1 ?e) < ps_next_key s" by (simp add: s)
  ultimately have "store_ok s"
    unfolding store_ok_def by (metis singletonD subsetD)
  then show ?thesis by (simp add: s shape_def)
qed

lemma registry_inv_start:
  assumes "build_start = Inr s"
  shows "registry_inv env (module_registry_new 1 po mo) s"
  using build_start_ok [OF assms]
  by (simp add: registry_inv_def module_registry_new_def ordered_def layered_def nth_Cons')

context provider_registration
begin

lemma build_modules_ok:
  "registry_inv env reg s \<Longrightarrow> build_modules n add env is reg s = Some (Inr (reg', s')) \<Longrightarrow>
     registry_inv env reg' s' \<and> rr_module_overrides reg' = rr_module_overrides reg \<and>
     set (map pm_name (rr_pending reg)) \<subseteq> set (map pm_name (rr_pending reg')) \<and>
     (\<forall>i \<in> set is. target_name env (rr_module_overrides reg) i \<in> set (map pm_name (rr_pending reg')))"
proof (induction "is" arbitrary: reg s)
  case (Cons i js)
  then obtain r reg1 s1 where 1: "register_module n add env [] i reg s = Some (Inr (r, reg1, s1))"
    and 2: "build_modules n add env js reg1 (add_visible_scope 0 (rg_ref r) s1) = Some (Inr (reg', s'))"
    by (auto split: option.splits sum.splits)
  from register_module_ok [OF Cons.prems(1) 1] have
    inv1: "registry_inv env reg1 s1" and e: "extends reg s reg1 s1" and r: "ref_ok s1 r"
    and t: "target_name env (rr_module_overrides reg) i \<in> set (map pm_name (rr_pending reg1))" by simp_all
  note ih = Cons.IH [OF registry_inv_root [OF inv1 r] 2]
  from e have same: "rr_module_overrides reg1 = rr_module_overrides reg"
    and sub: "set (map pm_name (rr_pending reg)) \<subseteq> set (map pm_name (rr_pending reg1))"
    unfolding extends_def by simp_all
  from ih t have "target_name env (rr_module_overrides reg) i \<in> set (map pm_name (rr_pending reg'))"
    by blast
  with ih sub show ?case unfolding same by (simp only: list.set ball_simps) blast
qed simp

lemma build_graph_ok:
  assumes "build_graph n add env po mo is = Some (Inr (reg, s))"
  shows "registry_inv env reg s \<and> rr_module_overrides reg = mo \<and>
    (\<forall>i \<in> set is. target_name env mo i \<in> set (map pm_name (rr_pending reg)))"
proof -
  from assms obtain s0 where s0: "build_start = Inr s0"
    and b: "build_modules n add env is (module_registry_new 1 po mo) s0 = Some (Inr (reg, s))"
    by (auto simp: build_graph_def split: sum.splits)
  from build_modules_ok [OF registry_inv_start [OF s0] b] show ?thesis
    by (simp add: module_registry_new_def)
qed

end

text \<open>
  C8. The order of registration, which is the order of initialisation and the reverse of
  the order of shutdown: every module of a built application is registered once under its
  own name, after all of its imports (forward imports excepted), and all modules given to
  the builder are among them, as they are after the overrides.
\<close>

theorem registration_order:
  assumes "add = register_provider \<or> add = register_provider_async"
    and "build_graph n add env po mo is = Some (Inr (reg, s))"
  shows "distinct (map pm_name (rr_pending reg)) \<and>
     (\<forall>k < length (rr_pending reg). pm_name (rr_pending reg ! k) = bm_name (env (pm_module (rr_pending reg ! k))) \<and>
        (\<forall>j \<in> set (bm_imports (env (pm_module (rr_pending reg ! k)))).
           target_name env mo j \<in> set (map pm_name (take k (rr_pending reg))))) \<and>
     (\<forall>i \<in> set is. target_name env mo i \<in> set (map pm_name (rr_pending reg)))"
proof -
  have "registry_inv env reg s \<and> rr_module_overrides reg = mo \<and>
      (\<forall>i \<in> set is. target_name env mo i \<in> set (map pm_name (rr_pending reg)))"
    using assms sync.build_graph_ok async.build_graph_ok by blast
  then show ?thesis
    unfolding registry_inv_def ordered_def by blast
qed

definition registry_example :: "nat \<Rightarrow> boot_module" where
  "registry_example i =
     (if i = 0 then
        \<lparr>bm_name = ''App'', bm_imports = [1, 2], bm_forward_imports = [],
         bm_providers = Inr [with_dependency (dependency_named ''Pool'') (named_factory ''Repo'')],
         bm_exports = Inr [], bm_is_global = False, bm_route_prefix = None\<rparr>
      else if i = 1 then
        \<lparr>bm_name = ''Users'', bm_imports = [2], bm_forward_imports = [0],
         bm_providers = Inr [], bm_exports = Inr [''Pool''], bm_is_global = False, bm_route_prefix = Some ''/users''\<rparr>
      else
        \<lparr>bm_name = ''Data'', bm_imports = [], bm_forward_imports = [],
         bm_providers = Inr [named_from_arc ''Pool''], bm_exports = Inr [''Pool''], bm_is_global = False,
         bm_route_prefix = None\<rparr>)"

definition registry_example_names :: "str list" where
  "registry_example_names =
     (case build_graph 4 register_provider registry_example [] [] [0] of
        Some (Inr (reg, _)) \<Rightarrow> map pm_name (rr_pending reg) | _ \<Rightarrow> [])"

theorem registration_order_witness:
  "registry_example_names = [''Data'', ''Users'', ''App''] \<and>
   distinct registry_example_names \<and> target_name registry_example [] 0 \<in> set registry_example_names"
proof -
  have names: "registry_example_names = [''Data'', ''Users'', ''App'']" by code_simp
  then obtain reg s where b: "build_graph 4 register_provider registry_example [] [] [0] = Some (Inr (reg, s))"
    unfolding registry_example_names_def by (auto split: option.splits sum.splits prod.splits)
  then have eq: "registry_example_names = map pm_name (rr_pending reg)"
    by (simp add: registry_example_names_def)
  from registration_order [OF disjI1 [OF refl] b] names show ?thesis
    unfolding eq by (intro conjI) (assumption, elim conjE, assumption, elim conjE, simp only: list.set_intros)
qed

text \<open>
  C9. The store of a built application is well-formed: cache keys name entries, and the
  visible scopes are layered (application, modules, exports), so that the search for a
  provider and the plan of every registered provider end.
\<close>

theorem built_store_sound:
  assumes "add = register_provider \<or> add = register_provider_async"
    and "build_graph n add env po mo is = Some (Inr (reg, s))"
  shows "store_ok s \<and> ranked s layer \<and> (\<forall>m tok. get_entry s m tok \<noteq> None) \<and>
     (\<forall>m. \<forall>e \<in> set (local_entries s m). resolution_plan_of s m e \<noteq> None)"
proof -
  have inv: "registry_inv env reg s"
    using assms sync.build_graph_ok async.build_graph_ok by blast
  then have ok: "store_ok s" and rk: "ranked s layer"
    by (auto simp: registry_inv_def intro: layered_ranked)
  have "resolution_plan_of s m e \<noteq> None" if "e \<in> set (local_entries s m)" for m e
    by (rule resolution_plan_not_None [OF ok rk local_entries_stored [OF that]])
  moreover have "get_entry s m tok \<noteq> None" for m tok by (rule get_entry_total [OF rk])
  ultimately show ?thesis using ok rk by simp
qed

theorem built_store_sound_witness:
  "\<exists>reg s. build_graph 4 register_provider registry_example [] [] [0] = Some (Inr (reg, s)) \<and>
     store_ok s \<and> ranked s layer"
proof -
  have "registry_example_names = [''Data'', ''Users'', ''App'']" by code_simp
  then obtain reg s where b: "build_graph 4 register_provider registry_example [] [] [0] = Some (Inr (reg, s))"
    unfolding registry_example_names_def by (auto split: option.splits sum.splits prod.splits)
  from built_store_sound [OF disjI1 [OF refl] b] b show ?thesis by blast
qed

section \<open>Registration ends\<close>

lemma export_from_total: "ranked s rank \<Longrightarrow> export_from m source tok s \<noteq> None"
proof -
  assume rk: "ranked s rank"
  from get_entry_total [OF rk] obtain found where "get_entry s source tok = Some found" by blast
  then show ?thesis by (cases found) (simp_all add: export_from_def)
qed

lemma export_tokens_total: "layered (shape s) \<Longrightarrow> export_tokens target source toks s \<noteq> None"
proof (induction toks arbitrary: s)
  case (Cons tok toks)
  from export_from_total [OF layered_ranked [OF Cons.prems]] obtain r where r: "export_from target source tok s = Some r"
    by blast
  show ?case
  proof (cases r)
    case (Inr s1)
    with shape_export r Cons.prems have "layered (shape s1)" by metis
    with Cons.IH r Inr show ?thesis by simp
  qed (use r in simp)
qed simp

text \<open>A table of \<open>N\<close> modules whose answers stay inside it.\<close>

definition closed_table :: "(nat \<Rightarrow> boot_module) \<Rightarrow> nat \<Rightarrow> (str, nat) btree \<Rightarrow> bool" where
  "closed_table env N mo \<longleftrightarrow>
     (\<forall>i < N. set (bm_imports (env i)) \<subseteq> {..<N} \<and> set (bm_forward_imports (env i)) \<subseteq> {..<N}) \<and>
     (\<forall>name j. bt_get mo name = Some j \<longrightarrow> j < N)"

definition table_names :: "(nat \<Rightarrow> boot_module) \<Rightarrow> nat \<Rightarrow> str set" where
  "table_names env N = (\<lambda>i. bm_name (env i)) ` {..<N}"

lemma override_in_table: "closed_table env N (rr_module_overrides reg) \<Longrightarrow> i < N \<Longrightarrow> module_override_or reg env i < N"
  by (auto simp: closed_table_def module_override_or_def split: option.splits)

lemma register_imports_total:
  assumes rec: "\<And>i reg s. i \<in> set is \<Longrightarrow> registry_inv env reg s \<Longrightarrow> rr_visiting reg = V \<Longrightarrow>
      rr_module_overrides reg = over \<Longrightarrow> rec i reg s \<noteq> None"
    and keep: "\<And>i reg s r reg' s'. registry_inv env reg s \<Longrightarrow> rec i reg s = Some (Inr (r, reg', s')) \<Longrightarrow>
      registry_inv env reg' s' \<and> extends reg s reg' s' \<and> ref_ok s' r"
  shows "registry_inv env reg s \<Longrightarrow> rr_visiting reg = V \<Longrightarrow> rr_module_overrides reg = over \<Longrightarrow>
     register_imports rec is acc reg s \<noteq> None"
  using rec
proof (induction "is" arbitrary: acc reg s)
  case (Cons i js)
  have "rec i reg s \<noteq> None" by (rule Cons.prems(4)) (simp_all add: Cons.prems(1-3))
  then obtain q where q: "rec i reg s = Some q" by blast
  show ?case
  proof (cases q)
    case (Inr ps)
    obtain r reg1 s1 where ps: "ps = (r, reg1, s1)" by (cases ps)
    from keep [OF Cons.prems(1)] q Inr ps have k: "registry_inv env reg1 s1 \<and> extends reg s reg1 s1" by blast
    then have "rr_visiting reg1 = V" "rr_module_overrides reg1 = over"
      using Cons.prems(2,3) by (simp_all add: extends_def)
    with k Cons.IH [of reg1 s1 "acc @ [r]"] Cons.prems(4) q Inr ps show ?thesis by simp
  qed (use q in simp)
qed simp

context provider_registration
begin

lemma complete_module_total:
  assumes "store_ok s" "layered (shape s)" "even mref" "odd (rr_global reg)" "\<forall>x \<in> set imported. ref_ok s x"
  shows "complete_module add env i name prefix mref exps imported reg s \<noteq> None"
proof -
  let ?s1 = "fold (\<lambda>v. add_visible_scope mref v) (rr_global reg # map rg_exports imported) s"
  have vis: "store_ok ?s1 \<and> layered (shape ?s1) \<and> length (ps_modules ?s1) = length (ps_modules s)"
    by (rule visible_fold) (use assms in \<open>auto simp: ref_ok_def\<close>)
  show ?thesis
  proof (cases "rbind (bm_providers (env i)) (\<lambda>ds. register_providers add mref ds reg ?s1)")
    case (Inl err)
    then show ?thesis by (simp add: complete_module_def Let_def)
  next
    case (Inr rs)
    obtain reg2 s2 where rs: "rs = (reg2, s2)" by (cases rs)
    with Inr obtain ds where "register_providers add mref ds reg ?s1 = Inr (reg2, s2)"
      by (auto simp: result_simps)
    from register_providers_ok [OF this] vis have s2: "store_ok s2" "layered (shape s2)" by auto
    have "export_tokens (rr_global reg2) exps toks' s3 \<noteq> None"
      if "export_tokens exps mref toks s2 = Some (Inr s3)" for toks toks' s3
      by (rule export_tokens_total) (use export_tokens_ok [OF that s2(1)] s2(2) in simp)
    with export_tokens_total [OF s2(2)] Inr rs show ?thesis
      unfolding complete_module_def Let_def by (auto simp del: not_None_eq split: sum.splits option.splits)
  qed
qed

lemma register_module_total:
  assumes tab: "closed_table env N over"
  shows "registry_inv env reg s \<Longrightarrow> rr_module_overrides reg = over \<Longrightarrow> i < N \<Longrightarrow>
     card (table_names env N - set (rr_visiting reg)) < n \<Longrightarrow> register_module n add env parent i reg s \<noteq> None"
proof (induction n arbitrary: parent i reg s)
  case (Suc n)
  define i1 where "i1 = module_override_or reg env i"
  define name where "name = bm_name (env i1)"
  have i1: "i1 < N" using override_in_table tab Suc.prems(2,3) by (simp add: i1_def)
  show ?case
  proof (cases "trim name = [] \<or> bt_get (rr_registered reg) name \<noteq> None \<or> name \<in> set (rr_visiting reg) \<or>
      (\<exists>err. module_route_prefix parent (bm_route_prefix (env i1)) = Inl err)")
    case True
    have ent: "name \<in> set (rr_visiting reg) \<Longrightarrow> \<exists>err. enter_module name reg = Inl err"
      using enter_module_Inr [of name reg] by (cases "enter_module name reg") auto
    have "\<exists>err. rbind (module_route_prefix parent (bm_route_prefix (env i1)))
        (\<lambda>prefix. rmap (Pair prefix) (enter_module name reg)) = Inl err" if "name \<in> set (rr_visiting reg)"
      using ent [OF that] by (cases "module_route_prefix parent (bm_route_prefix (env i1))") auto
    with True show ?thesis
      unfolding register_module.simps Let_def i1_def [symmetric] name_def [symmetric]
      by (auto split: option.splits)
  next
    case False
    then have v: "name \<notin> set (rr_visiting reg)" and none: "bt_get (rr_registered reg) name = None" by simp_all
    obtain prefix where pfx: "module_route_prefix parent (bm_route_prefix (env i1)) = Inr prefix"
      using False by (cases "module_route_prefix parent (bm_route_prefix (env i1))") auto
    have ent: "enter_module name reg = Inr (reg\<lparr>rr_visiting := rr_visiting reg @ [name]\<rparr>)"
      using v by (simp add: enter_module_Inr)
    obtain s1 where p1: "module_ref_new s = (length (ps_modules s), s1)"
      and p2: "module_ref_new s1 = (Suc (length (ps_modules s)), module_pair s)"
      by (simp add: module_ref_new_def module_pair_def)
    let ?reg2 = "module_entered name reg s" and ?s2 = "module_pair s"
    let ?V = "rr_visiting reg @ [name]" and ?rec = "register_module n add env prefix"
    have inv2: "registry_inv env ?reg2 ?s2" by (rule registry_inv_entered [OF Suc.prems(1) none])
    have two: "rr_visiting ?reg2 = ?V" "rr_module_overrides ?reg2 = over"
      using Suc.prems(2) by (simp_all add: module_entered_def)
    have "name \<in> table_names env N" using i1 by (auto simp: table_names_def name_def)
    with v have "table_names env N - set ?V \<subset> table_names env N - set (rr_visiting reg)" by auto
    then have "card (table_names env N - set ?V) < card (table_names env N - set (rr_visiting reg))"
      by (rule psubset_card_mono [rotated]) (simp add: table_names_def)
    with Suc.prems(4) have less: "card (table_names env N - set ?V) < n" by simp
    have rec: "?rec j reg s \<noteq> None" if "j < N" "registry_inv env reg s" "rr_visiting reg = ?V" "rr_module_overrides reg = over"
      for j reg s
      by (rule Suc.IH [OF that(2,4,1)]) (use less that(3) in simp)
    have keep: "registry_inv env reg' s' \<and> extends reg s reg' s' \<and> ref_ok s' r"
      if "registry_inv env reg s" "?rec j reg s = Some (Inr (r, reg', s'))" for j reg s r reg' s'
      using register_module_ok [OF that] by blast
    have fwd: "register_forward ?rec env j reg s \<noteq> None"
      if "j < N" "registry_inv env reg s" "rr_visiting reg = ?V" "rr_module_overrides reg = over" for j reg s
    proof -
      have "module_override_or reg env j < N" using override_in_table tab that(1,4) by simp
      from rec [OF this that(2-4)] show ?thesis by (auto simp: register_forward_def Let_def split: option.splits)
    qed
    have fkeep: "registry_inv env reg' s' \<and> extends reg s reg' s' \<and> ref_ok s' r"
      if "registry_inv env reg s" "register_forward ?rec env j reg s = Some (Inr (r, reg', s'))" for j reg s r reg' s'
      by (rule register_forward_ok [OF register_module_ok that])
    have sub: "set (bm_imports (env i1)) \<subseteq> {..<N}" "set (bm_forward_imports (env i1)) \<subseteq> {..<N}"
      using tab i1 by (simp_all add: closed_table_def)
    have "register_imports ?rec (bm_imports (env i1)) [] ?reg2 ?s2 \<noteq> None"
      by (rule register_imports_total [OF _ keep inv2 two]) (use rec sub in auto)
    then obtain q where q: "register_imports ?rec (bm_imports (env i1)) [] ?reg2 ?s2 = Some q" by blast
    have second: "register_imports (register_forward ?rec env) (bm_forward_imports (env i1)) imported reg3 s3 \<noteq> None \<and>
        (\<forall>all reg4 s4. register_imports (register_forward ?rec env) (bm_forward_imports (env i1)) imported reg3 s3
           = Some (Inr (all, reg4, s4)) \<longrightarrow>
           complete_module add env i1 name prefix (length (ps_modules s)) (Suc (length (ps_modules s))) all reg4 s4 \<noteq> None)"
      if "q = Inr (imported, reg3, s3)" for imported reg3 s3
    proof (intro conjI allI impI)
      from q that have first: "register_imports ?rec (bm_imports (env i1)) [] ?reg2 ?s2 = Some (Inr (imported, reg3, s3))" by simp
      have 3: "registry_inv env reg3 s3 \<and> extends ?reg2 ?s2 reg3 s3 \<and> (\<forall>r \<in> set imported. ref_ok s3 r) \<and>
          (\<forall>j \<in> set (bm_imports (env i1)). True)"
        by (rule register_imports_ok [OF _ _ first inv2 two(2), where D = "\<lambda>_ _. True"]) (use keep in blast, simp_all)
      then have v3: "rr_visiting reg3 = ?V" "rr_module_overrides reg3 = over" using two by (simp_all add: extends_def)
      show "register_imports (register_forward ?rec env) (bm_forward_imports (env i1)) imported reg3 s3 \<noteq> None"
        by (rule register_imports_total [OF _ fkeep _ v3]) (use fwd sub 3 in auto)
      fix all reg4 s4
      assume sec: "register_imports (register_forward ?rec env) (bm_forward_imports (env i1)) imported reg3 s3
           = Some (Inr (all, reg4, s4))"
      have 4: "registry_inv env reg4 s4 \<and> extends reg3 s3 reg4 s4 \<and> (\<forall>r \<in> set all. ref_ok s4 r) \<and>
          (\<forall>j \<in> set (bm_forward_imports (env i1)). True)"
        by (rule register_imports_ok [OF _ _ sec _ v3(2), where D = "\<lambda>_ _. True"]) (use fkeep 3 in \<open>blast+\<close>)
      show "complete_module add env i1 name prefix (length (ps_modules s)) (Suc (length (ps_modules s))) all reg4 s4 \<noteq> None"
        by (rule complete_module_total) (use 4 Suc.prems(1) in \<open>simp_all add: registry_inv_def layered_def\<close>)
    qed
    show ?thesis
      unfolding register_module.simps Let_def i1_def [symmetric] name_def [symmetric]
      using False none pfx ent q second
      by (cases q) (auto simp del: not_None_eq simp add: p1 p2 module_entered_def [symmetric]
          split: option.split sum.split)
  qed
qed simp

end

context provider_registration
begin

lemma build_modules_total:
  assumes tab: "closed_table env N over" and n: "card (table_names env N) < n"
  shows "registry_inv env reg s \<Longrightarrow> rr_module_overrides reg = over \<Longrightarrow> rr_visiting reg = [] \<Longrightarrow> set is \<subseteq> {..<N} \<Longrightarrow>
     build_modules n add env is reg s \<noteq> None"
proof (induction "is" arbitrary: reg s)
  case (Cons i js)
  have "register_module n add env [] i reg s \<noteq> None"
    by (rule register_module_total [OF tab Cons.prems(1,2)]) (use Cons.prems n in auto)
  then obtain q where q: "register_module n add env [] i reg s = Some q" by blast
  show ?case
  proof (cases q)
    case (Inr ps)
    obtain r reg1 s1 where ps: "ps = (r, reg1, s1)" by (cases ps)
    with q Inr have run: "register_module n add env [] i reg s = Some (Inr (r, reg1, s1))" by simp
    from register_module_ok [OF Cons.prems(1) run] have
      ok: "registry_inv env reg1 s1" "extends reg s reg1 s1" "ref_ok s1 r" by simp_all
    have "build_modules n add env js reg1 (add_visible_scope 0 (rg_ref r) s1) \<noteq> None"
      by (rule Cons.IH [OF registry_inv_root [OF ok(1,3)]]) (use ok(2) Cons.prems in \<open>simp_all add: extends_def\<close>)
    with run show ?thesis by simp
  qed (use q in simp)
qed simp

lemma build_graph_total:
  assumes "closed_table env N mo" "set is \<subseteq> {..<N}" "N < n"
  shows "build_graph n add env po mo is \<noteq> None"
proof -
  have "card (table_names env N) < n"
    using card_image_le [of "{..<N}" "\<lambda>i. bm_name (env i)"] assms(3) by (simp add: table_names_def)
  moreover have "build_modules n add env is (module_registry_new 1 po mo) s \<noteq> None"
    if "build_start = Inr s" "card (table_names env N) < n" for s
    by (rule build_modules_total [OF _ that(2) registry_inv_start [OF that(1)]])
      (use assms in \<open>simp_all add: module_registry_new_def\<close>)
  ultimately show ?thesis by (simp add: build_graph_def del: not_None_eq split: sum.splits)
qed

end

text \<open>
  C10. Registration ends for every table of modules whose imports, forward imports and
  overrides stay inside the table, cyclic or not: the depth of the recursion is bounded by
  the number of modules. (Plain import cycles end with the error, forward ones succeed.)
\<close>

theorem registration_terminates:
  assumes "add = register_provider \<or> add = register_provider_async"
    and "closed_table env N mo" "set is \<subseteq> {..<N}" "N < n"
  shows "\<exists>r. build_graph n add env po mo is = Some r"
  using assms sync.build_graph_total [OF assms(2-4)] async.build_graph_total [OF assms(2-4)]
  by (auto simp: not_None_eq)

definition cyclic_modules :: "nat \<Rightarrow> boot_module" where
  "cyclic_modules i =
     \<lparr>bm_name = (if i = 0 then ''A'' else ''B''), bm_imports = [1 - i], bm_forward_imports = [],
      bm_providers = Inr [], bm_exports = Inr [], bm_is_global = False, bm_route_prefix = None\<rparr>"

theorem registration_terminates_witness:
  "(\<exists>r. build_graph 3 register_provider cyclic_modules [] [] [0] = Some r) \<and>
   build_graph 3 register_provider cyclic_modules [] [] [0] =
     Some (Inl (Internal ''cyclic module import detected: A -> B -> A''))"
proof
  show "\<exists>r. build_graph 3 register_provider cyclic_modules [] [] [0] = Some r"
    by (rule registration_terminates [where N = 2])
      (auto simp: closed_table_def cyclic_modules_def)
  show "build_graph 3 register_provider cyclic_modules [] [] [0] =
     Some (Inl (Internal ''cyclic module import detected: A -> B -> A''))"
    by code_simp
qed

end
