(* ===== verification/Lifecycle.thy ===== *)
theory Lifecycle
  imports Provider_Graph
begin

text \<open>
  Startup and shutdown (\<open>app/application.rs\<close>, \<open>app/handle.rs\<close>, \<open>app/microservice.rs\<close>,
  \<open>app/shutdown.rs\<close>, the hook drivers of \<open>provider/module_ref.rs\<close> and \<open>provider/entry.rs\<close>).
  Hooks, adapters and transports are code of the application: the model takes each of them
  as an action on an arbitrary world, which returns a result and the new world. The
  registries are read from the world, as the code reads them from behind their locks.
  An action that never returns (a server that runs for ever) is outside the model.
\<close>

section \<open>Actions\<close>

type_synonym 'w act = "'w \<Rightarrow> (boot_error + unit) \<times> 'w"

definition act_ok :: "'w act" where
  "act_ok w = (Inr (), w)"

definition act_then :: "'w act \<Rightarrow> 'w act \<Rightarrow> 'w act" where
  "act_then a b w = (case a w of (Inl err, w1) \<Rightarrow> (Inl err, w1) | (Inr _, w1) \<Rightarrow> b w1)"

text \<open>A loop whose body ends in \<open>?\<close>.\<close>

fun act_for :: "('a \<Rightarrow> 'w act) \<Rightarrow> 'a list \<Rightarrow> 'w act" where
  "act_for f [] = act_ok"
| "act_for f (x # xs) = act_then (f x) (act_for f xs)"

lemma act_then_ok [simp]: "act_then act_ok a = a" "act_then a act_ok = a"
proof -
  show "act_then act_ok a = a" by (simp add: fun_eq_iff act_then_def act_ok_def)
  have "act_then a act_ok w = a w" for w
    by (cases "a w"; cases "fst (a w)") (auto simp: act_then_def act_ok_def)
  then show "act_then a act_ok = a" by blast
qed

lemma act_then_assoc: "act_then (act_then a b) c = act_then a (act_then b c)"
  by (auto simp: fun_eq_iff act_then_def split: prod.splits sum.splits)

lemma act_for_append: "act_for f (xs @ ys) = act_then (act_for f xs) (act_for f ys)"
  by (induction xs) (simp_all add: act_then_assoc)

lemma act_for_map: "act_for f (map g xs) = act_for (\<lambda>x. f (g x)) xs"
  by (induction xs) simp_all

lemma act_for_concat: "act_for f (concat xss) = act_for (act_for f) xss"
  by (induction xss) (simp_all add: act_for_append)

section \<open>Hooks\<close>

datatype lifecycle_hook =
  ModuleInit | ApplicationBootstrap | ModuleDestroy | BeforeApplicationShutdown | ApplicationShutdown

primrec hook_present :: "lifecycle_hook \<Rightarrow> provider_lifecycle_hooks \<Rightarrow> bool" where
  "hook_present ModuleInit h = ph_module_init h"
| "hook_present ApplicationBootstrap h = ph_application_bootstrap h"
| "hook_present ModuleDestroy h = ph_module_destroy h"
| "hook_present BeforeApplicationShutdown h = ph_before_shutdown h"
| "hook_present ApplicationShutdown h = ph_application_shutdown h"

text \<open>
  The code around the framework: the registries in the world, the resolution of a
  singleton, the hooks of providers, modules and gateways. The signal is \<open>None\<close> where the
  hook takes none.
\<close>

record ('w, 'v) lifecycle_env =
  le_store :: "'w \<Rightarrow> provider_store"
  le_singleton :: "provider_entry \<Rightarrow> nat \<Rightarrow> 'w \<Rightarrow> (boot_error + 'v) \<times> 'w"
  le_provider_hook :: "lifecycle_hook \<Rightarrow> provider_entry \<Rightarrow> 'v \<Rightarrow> nat \<Rightarrow> str option \<Rightarrow> 'w act"
  le_module_hook :: "lifecycle_hook \<Rightarrow> nat \<Rightarrow> nat \<Rightarrow> str option \<Rightarrow> 'w act"
  le_gateway_hook :: "nat \<Rightarrow> nat \<Rightarrow> 'w act"

text \<open>The five \<open>ProviderEntry\<close> functions of one shape: resolve the singleton, call its hook.\<close>

definition entry_hook ::
  "('w, 'v) lifecycle_env \<Rightarrow> lifecycle_hook \<Rightarrow> nat \<Rightarrow> str option \<Rightarrow> provider_entry \<Rightarrow> 'w act" where
  "entry_hook env k m sig e w =
     (if \<not> hook_present k (pdf_lifecycle (pe_definition e)) then (Inr (), w)
      else (case le_singleton env e m w of
              (Inl err, w1) \<Rightarrow> (Inl err, w1)
            | (Inr v, w1) \<Rightarrow> le_provider_hook env k e v m sig w1))"

definition initialize_local_providers :: "('w, 'v) lifecycle_env \<Rightarrow> nat \<Rightarrow> 'w act" where
  "initialize_local_providers env m w =
     act_for (entry_hook env ModuleInit m None) (local_entries (le_store env w) m) w"

definition bootstrap_local_providers :: "('w, 'v) lifecycle_env \<Rightarrow> nat \<Rightarrow> 'w act" where
  "bootstrap_local_providers env m w =
     act_for (entry_hook env ApplicationBootstrap m None) (local_entries (le_store env w) m) w"

definition destroy_local_providers :: "('w, 'v) lifecycle_env \<Rightarrow> nat \<Rightarrow> str option \<Rightarrow> 'w act" where
  "destroy_local_providers env m sig w =
     act_for (entry_hook env ModuleDestroy m sig) (rev (local_entries (le_store env w) m)) w"

definition before_application_shutdown_local_providers ::
  "('w, 'v) lifecycle_env \<Rightarrow> nat \<Rightarrow> str option \<Rightarrow> 'w act" where
  "before_application_shutdown_local_providers env m sig w =
     act_for (entry_hook env BeforeApplicationShutdown m sig) (rev (local_entries (le_store env w) m)) w"

definition shutdown_local_providers :: "('w, 'v) lifecycle_env \<Rightarrow> nat \<Rightarrow> str option \<Rightarrow> 'w act" where
  "shutdown_local_providers env m sig w =
     act_for (entry_hook env ApplicationShutdown m sig) (rev (local_entries (le_store env w) m)) w"

section \<open>The application\<close>

record module_instance =
  mi_module :: nat
  mi_ref :: nat

text \<open>The part of the application that startup and shutdown use; a gateway is its number of hooks.\<close>

record application_parts =
  ap_instances :: "module_instance list"
  ap_gateways :: "nat list"

definition gateway_after_init :: "('w, 'v) lifecycle_env \<Rightarrow> nat \<times> nat \<Rightarrow> 'w act" where
  "gateway_after_init env g = (case g of (i, hooks) \<Rightarrow> act_for (le_gateway_hook env i) [0..<hooks])"

definition application_bootstrap :: "('w, 'v) lifecycle_env \<Rightarrow> application_parts \<Rightarrow> 'w act" where
  "application_bootstrap env app =
     act_then
       (act_for (\<lambda>i. act_then (bootstrap_local_providers env (mi_ref i))
                       (le_module_hook env ApplicationBootstrap (mi_module i) (mi_ref i) None))
          (ap_instances app))
       (act_for (gateway_after_init env) (enumerate 0 (ap_gateways app)))"

definition shutdown_inner :: "('w, 'v) lifecycle_env \<Rightarrow> application_parts \<Rightarrow> str option \<Rightarrow> 'w act" where
  "shutdown_inner env app sig =
     act_then
       (act_for (\<lambda>i. act_then (le_module_hook env ModuleDestroy (mi_module i) (mi_ref i) sig)
                       (destroy_local_providers env (mi_ref i) sig))
          (rev (ap_instances app)))
     (act_then
       (act_for (\<lambda>i. act_then (le_module_hook env BeforeApplicationShutdown (mi_module i) (mi_ref i) sig)
                       (before_application_shutdown_local_providers env (mi_ref i) sig))
          (rev (ap_instances app)))
       (act_for (\<lambda>i. act_then (le_module_hook env ApplicationShutdown (mi_module i) (mi_ref i) sig)
                       (shutdown_local_providers env (mi_ref i) sig))
          (rev (ap_instances app))))"

definition application_shutdown :: "('w, 'v) lifecycle_env \<Rightarrow> application_parts \<Rightarrow> 'w act" where
  "application_shutdown env app = shutdown_inner env app None"

definition shutdown_with_signal :: "('w, 'v) lifecycle_env \<Rightarrow> application_parts \<Rightarrow> str \<Rightarrow> 'w act" where
  "shutdown_with_signal env app sig = shutdown_inner env app (Some sig)"

text \<open>The last match of \<open>serve_with\<close> and of the \<open>listen\<close> functions.\<close>

definition first_error :: "boot_error + unit \<Rightarrow> boot_error + unit \<Rightarrow> boot_error + unit" where
  "first_error served closed =
     (case served of
        Inl err \<Rightarrow> Inl err
      | Inr _ \<Rightarrow> (case closed of Inl err \<Rightarrow> Inl err | Inr _ \<Rightarrow> Inr ()))"

definition serve_with ::
  "('w, 'v) lifecycle_env \<Rightarrow> application_parts \<Rightarrow> 'w act \<Rightarrow> 'w act" where
  "serve_with env app serve w =
     (case application_bootstrap env app w of
        (Inl err, w1) \<Rightarrow> (case application_shutdown env app w1 of (_, w2) \<Rightarrow> (Inl err, w2))
      | (Inr _, w1) \<Rightarrow>
          (case serve w1 of
             (served, w2) \<Rightarrow>
               (case application_shutdown env app w2 of
                  (closed, w3) \<Rightarrow> (first_error served closed, w3))))"

section \<open>Shutdown signals\<close>

datatype shutdown_signal = Sigint | Sigterm | Sigquit | Sighup | Sigusr2

primrec signal_rank :: "shutdown_signal \<Rightarrow> nat" where
  "signal_rank Sigint = 0"
| "signal_rank Sigterm = 1"
| "signal_rank Sigquit = 2"
| "signal_rank Sighup = 3"
| "signal_rank Sigusr2 = 4"

instantiation shutdown_signal :: linorder
begin

definition less_eq_shutdown_signal :: "shutdown_signal \<Rightarrow> shutdown_signal \<Rightarrow> bool" where
  "less_eq_shutdown_signal a b \<longleftrightarrow> signal_rank a \<le> signal_rank b"

definition less_shutdown_signal :: "shutdown_signal \<Rightarrow> shutdown_signal \<Rightarrow> bool" where
  "less_shutdown_signal a b \<longleftrightarrow> signal_rank a < signal_rank b"

instance
proof
  fix x y z :: shutdown_signal
  show "(x < y) = (x \<le> y \<and> \<not> y \<le> x)"
    by (auto simp: less_eq_shutdown_signal_def less_shutdown_signal_def)
  show "x \<le> x" by (simp add: less_eq_shutdown_signal_def)
  show "x \<le> y \<Longrightarrow> y \<le> z \<Longrightarrow> x \<le> z" by (simp add: less_eq_shutdown_signal_def)
  show "x \<le> y \<Longrightarrow> y \<le> x \<Longrightarrow> x = y"
    by (cases x; cases y) (simp_all add: less_eq_shutdown_signal_def)
  show "x \<le> y \<or> y \<le> x" by (auto simp: less_eq_shutdown_signal_def)
qed

end

primrec signal_as_str :: "shutdown_signal \<Rightarrow> str" where
  "signal_as_str Sigint = ''SIGINT''"
| "signal_as_str Sigterm = ''SIGTERM''"
| "signal_as_str Sigquit = ''SIGQUIT''"
| "signal_as_str Sighup = ''SIGHUP''"
| "signal_as_str Sigusr2 = ''SIGUSR2''"

definition default_signals :: "shutdown_signal list" where
  "default_signals = [Sigint, Sigterm]"

definition normalize_shutdown_signals :: "shutdown_signal list \<Rightarrow> shutdown_signal list" where
  "normalize_shutdown_signals signals =
     (let sorted_signals = bs_of_list signals in
      if sorted_signals = [] then default_signals else sorted_signals)"

lemma normalize_shutdown_signals_ok:
  "normalize_shutdown_signals signals \<noteq> [] \<and> sorted_wrt (<) (normalize_shutdown_signals signals) \<and>
   (signals \<noteq> [] \<longrightarrow> set (normalize_shutdown_signals signals) = set signals)"
proof -
  have "bs_of_list signals = [] \<longleftrightarrow> signals = []"
    by (metis set_bs_of_list set_empty)
  then show ?thesis
    by (auto simp: normalize_shutdown_signals_def Let_def default_signals_def less_shutdown_signal_def)
qed

section \<open>Managed applications\<close>

text \<open>
  What a managed application uses of \<open>BootApplication\<close>. The owners of an application (the
  handle and the microservice) reach its hooks through these methods only.
\<close>

record 'w application_methods =
  am_bootstrap :: "'w act"
  am_shutdown :: "'w act"
  am_shutdown_with_signal :: "str \<Rightarrow> 'w act"

definition application_methods_of ::
  "('w, 'v) lifecycle_env \<Rightarrow> application_parts \<Rightarrow> 'w application_methods" where
  "application_methods_of env app =
     \<lparr>am_bootstrap = application_bootstrap env app, am_shutdown = application_shutdown env app,
      am_shutdown_with_signal = shutdown_with_signal env app\<rparr>"

text \<open>
  \<open>BootApplicationHandle\<close>: whether the application is up, the transports to start (their
  \<open>serve\<close> as actions) and the signals that close it, \<open>None\<close> where the hooks are off.
  \<open>BootApplicationContext\<close> forwards to it.
\<close>

record 'w application_handle =
  ah_initialized :: bool
  ah_microservices :: "'w act list"
  ah_signals :: "shutdown_signal list option"

type_synonym 'w handle_result = "(boot_error + unit) \<times> 'w application_handle \<times> 'w"

definition handle_from_app :: "'w application_handle" where
  "handle_from_app = \<lparr>ah_initialized = False, ah_microservices = [], ah_signals = None\<rparr>"

definition enable_shutdown_hooks :: "shutdown_signal list \<Rightarrow> 'w application_handle \<Rightarrow> 'w application_handle" where
  "enable_shutdown_hooks signals h = h\<lparr>ah_signals := Some (normalize_shutdown_signals signals)\<rparr>"

definition enable_default_shutdown_hooks :: "'w application_handle \<Rightarrow> 'w application_handle" where
  "enable_default_shutdown_hooks h = enable_shutdown_hooks default_signals h"

definition handle_init :: "'w application_methods \<Rightarrow> 'w application_handle \<Rightarrow> 'w \<Rightarrow> 'w handle_result" where
  "handle_init app h w =
     (if ah_initialized h then (Inr (), h, w)
      else (case am_bootstrap app w of
              (Inl err, w1) \<Rightarrow> (case am_shutdown app w1 of (_, w2) \<Rightarrow> (Inl err, h, w2))
            | (Inr _, w1) \<Rightarrow> (Inr (), h\<lparr>ah_initialized := True\<rparr>, w1)))"

definition handle_close_inner ::
  "'w application_methods \<Rightarrow> str option \<Rightarrow> 'w application_handle \<Rightarrow> 'w \<Rightarrow> 'w handle_result" where
  "handle_close_inner app sig h w =
     (if \<not> ah_initialized h then (Inr (), h, w)
      else (case (case sig of Some s \<Rightarrow> am_shutdown_with_signal app s w | None \<Rightarrow> am_shutdown app w) of
              (Inl err, w1) \<Rightarrow> (Inl err, h, w1)
            | (Inr _, w1) \<Rightarrow> (Inr (), h\<lparr>ah_initialized := False\<rparr>, w1)))"

definition handle_close :: "'w application_methods \<Rightarrow> 'w application_handle \<Rightarrow> 'w \<Rightarrow> 'w handle_result" where
  "handle_close app h w = handle_close_inner app None h w"

definition handle_close_with_signal ::
  "'w application_methods \<Rightarrow> str \<Rightarrow> 'w application_handle \<Rightarrow> 'w \<Rightarrow> 'w handle_result" where
  "handle_close_with_signal app sig h w = handle_close_inner app (Some sig) h w"

text \<open>
  The end of \<open>tokio::select!\<close> over the server and the signal: which of the two was ready
  first is a choice of the runtime, a parameter together with what both did to the world.
\<close>

datatype race_outcome = Served "boot_error + unit" | Signalled "boot_error + shutdown_signal"

definition listen_race ::
  "'w application_methods \<Rightarrow> ('w \<Rightarrow> race_outcome \<times> 'w) \<Rightarrow> 'w application_handle \<Rightarrow> 'w \<Rightarrow> 'w handle_result" where
  "listen_race app race h w =
     (case handle_init app h w of
        (Inl err, h1, w1) \<Rightarrow> (Inl err, h1, w1)
      | (Inr _, h1, w1) \<Rightarrow>
          (case race w1 of
             (Served served, w2) \<Rightarrow>
               (case handle_close app h1 w2 of (closed, h2, w3) \<Rightarrow> (first_error served closed, h2, w3))
           | (Signalled (Inr sig), w2) \<Rightarrow> handle_close_with_signal app (signal_as_str sig) h1 w2
           | (Signalled (Inl err), w2) \<Rightarrow>
               (case handle_close app h1 w2 of (_, h2, w3) \<Rightarrow> (Inl err, h2, w3))))"

definition listen_with ::
  "'w application_methods \<Rightarrow> 'w act \<Rightarrow> (shutdown_signal list \<Rightarrow> 'w \<Rightarrow> race_outcome \<times> 'w)
     \<Rightarrow> 'w application_handle \<Rightarrow> 'w \<Rightarrow> 'w handle_result" where
  "listen_with app serve race h w =
     (case ah_signals h of
        Some signals \<Rightarrow> listen_race app (race signals) h w
      | None \<Rightarrow>
          (case handle_init app h w of
             (Inl err, h1, w1) \<Rightarrow> (Inl err, h1, w1)
           | (Inr _, h1, w1) \<Rightarrow>
               (case serve w1 of
                  (served, w2) \<Rightarrow>
                    (case handle_close app h1 w2 of
                       (closed, h2, w3) \<Rightarrow> (first_error served closed, h2, w3)))))"

definition connect_microservice :: "'w act \<Rightarrow> 'w application_handle \<Rightarrow> nat \<times> 'w application_handle" where
  "connect_microservice serve h =
     (length (ah_microservices h), h\<lparr>ah_microservices := ah_microservices h @ [serve]\<rparr>)"

definition start_all_microservices ::
  "'w application_methods \<Rightarrow> 'w application_handle \<Rightarrow> 'w \<Rightarrow> 'w handle_result" where
  "start_all_microservices app h w =
     (case handle_init app h w of
        (Inl err, h1, w1) \<Rightarrow> (Inl err, h1, w1)
      | (Inr _, h1, w1) \<Rightarrow>
          (case act_for (\<lambda>serve. serve) (ah_microservices h1) w1 of (r, w2) \<Rightarrow> (r, h1, w2)))"

text \<open>\<open>BootMicroservice\<close> repeats the code of the handle for its one transport.\<close>

record boot_microservice =
  ms_initialized :: bool
  ms_signals :: "shutdown_signal list option"

type_synonym 'w microservice_result = "(boot_error + unit) \<times> boot_microservice \<times> 'w"

definition microservice_new :: boot_microservice where
  "microservice_new = \<lparr>ms_initialized = False, ms_signals = None\<rparr>"

definition microservice_enable_shutdown_hooks :: "shutdown_signal list \<Rightarrow> boot_microservice \<Rightarrow> boot_microservice" where
  "microservice_enable_shutdown_hooks signals m = m\<lparr>ms_signals := Some (normalize_shutdown_signals signals)\<rparr>"

definition microservice_init ::
  "'w application_methods \<Rightarrow> boot_microservice \<Rightarrow> 'w \<Rightarrow> 'w microservice_result" where
  "microservice_init app m w =
     (if ms_initialized m then (Inr (), m, w)
      else (case am_bootstrap app w of
              (Inl err, w1) \<Rightarrow> (case am_shutdown app w1 of (_, w2) \<Rightarrow> (Inl err, m, w2))
            | (Inr _, w1) \<Rightarrow> (Inr (), m\<lparr>ms_initialized := True\<rparr>, w1)))"

definition microservice_close_inner ::
  "'w application_methods \<Rightarrow> str option \<Rightarrow> boot_microservice \<Rightarrow> 'w \<Rightarrow> 'w microservice_result" where
  "microservice_close_inner app sig m w =
     (if \<not> ms_initialized m then (Inr (), m, w)
      else (case (case sig of Some s \<Rightarrow> am_shutdown_with_signal app s w | None \<Rightarrow> am_shutdown app w) of
              (Inl err, w1) \<Rightarrow> (Inl err, m, w1)
            | (Inr _, w1) \<Rightarrow> (Inr (), m\<lparr>ms_initialized := False\<rparr>, w1)))"

definition microservice_listen_race ::
  "'w application_methods \<Rightarrow> ('w \<Rightarrow> race_outcome \<times> 'w) \<Rightarrow> boot_microservice \<Rightarrow> 'w \<Rightarrow> 'w microservice_result" where
  "microservice_listen_race app race m w =
     (case microservice_init app m w of
        (Inl err, m1, w1) \<Rightarrow> (Inl err, m1, w1)
      | (Inr _, m1, w1) \<Rightarrow>
          (case race w1 of
             (Served served, w2) \<Rightarrow>
               (case microservice_close_inner app None m1 w2 of
                  (closed, m2, w3) \<Rightarrow> (first_error served closed, m2, w3))
           | (Signalled (Inr sig), w2) \<Rightarrow> microservice_close_inner app (Some (signal_as_str sig)) m1 w2
           | (Signalled (Inl err), w2) \<Rightarrow>
               (case microservice_close_inner app None m1 w2 of (_, m2, w3) \<Rightarrow> (Inl err, m2, w3))))"

definition microservice_listen ::
  "'w application_methods \<Rightarrow> 'w act \<Rightarrow> (shutdown_signal list \<Rightarrow> 'w \<Rightarrow> race_outcome \<times> 'w)
     \<Rightarrow> boot_microservice \<Rightarrow> 'w \<Rightarrow> 'w microservice_result" where
  "microservice_listen app serve race m w =
     (case ms_signals m of
        Some signals \<Rightarrow> microservice_listen_race app (race signals) m w
      | None \<Rightarrow>
          (case microservice_init app m w of
             (Inl err, m1, w1) \<Rightarrow> (Inl err, m1, w1)
           | (Inr _, m1, w1) \<Rightarrow>
               (case serve w1 of
                  (served, w2) \<Rightarrow>
                    (case microservice_close_inner app None m1 w2 of
                       (closed, m2, w3) \<Rightarrow> (first_error served closed, m2, w3)))))"

section \<open>The order of the hooks\<close>

text \<open>
  The calls of one phase, in registration order: for every module the hooks of its
  providers, in the order of their registration, then its own.
\<close>

datatype lifecycle_call =
  ProviderCall lifecycle_hook provider_entry nat
| ModuleCall lifecycle_hook nat nat
| GatewayCall nat nat

primrec run_call :: "('w, 'v) lifecycle_env \<Rightarrow> str option \<Rightarrow> lifecycle_call \<Rightarrow> 'w act" where
  "run_call env sig (ProviderCall k e m) = (\<lambda>w.
     case le_singleton env e m w of
       (Inl err, w1) \<Rightarrow> (Inl err, w1)
     | (Inr v, w1) \<Rightarrow> le_provider_hook env k e v m sig w1)"
| "run_call env sig (ModuleCall k i m) = le_module_hook env k i m sig"
| "run_call env sig (GatewayCall i j) = le_gateway_hook env i j"

definition module_calls :: "provider_store \<Rightarrow> lifecycle_hook \<Rightarrow> module_instance \<Rightarrow> lifecycle_call list" where
  "module_calls s k i =
     map (\<lambda>e. ProviderCall k e (mi_ref i))
       (filter (\<lambda>e. hook_present k (pdf_lifecycle (pe_definition e))) (local_entries s (mi_ref i)))
     @ [ModuleCall k (mi_module i) (mi_ref i)]"

definition phase_calls :: "provider_store \<Rightarrow> application_parts \<Rightarrow> lifecycle_hook \<Rightarrow> lifecycle_call list" where
  "phase_calls s app k = concat (map (module_calls s k) (ap_instances app))"

definition gateway_calls :: "application_parts \<Rightarrow> lifecycle_call list" where
  "gateway_calls app = concat (map (\<lambda>(i, hooks). map (GatewayCall i) [0..<hooks]) (enumerate 0 (ap_gateways app)))"

text \<open>The hooks register no providers: every call keeps the registries.\<close>

definition keeps_store :: "('w, 'v) lifecycle_env \<Rightarrow> bool" where
  "keeps_store env \<longleftrightarrow>
     (\<forall>e m w. le_store env (snd (le_singleton env e m w)) = le_store env w) \<and>
     (\<forall>k e v m sig w. le_store env (snd (le_provider_hook env k e v m sig w)) = le_store env w) \<and>
     (\<forall>k i m sig w. le_store env (snd (le_module_hook env k i m sig w)) = le_store env w) \<and>
     (\<forall>i j w. le_store env (snd (le_gateway_hook env i j w)) = le_store env w)"

lemma run_call_keeps: "keeps_store env \<Longrightarrow> le_store env (snd (run_call env sig c w)) = le_store env w"
proof (cases c)
  case (ProviderCall k e m)
  assume k: "keeps_store env"
  then have 1: "le_store env (snd (le_singleton env e m w)) = le_store env w"
    unfolding keeps_store_def by blast
  from k have "le_store env (snd (le_provider_hook env k e v m sig u)) = le_store env u" for k v u
    unfolding keeps_store_def by blast
  with 1 ProviderCall show ?thesis by (auto split: prod.splits sum.splits)
qed (simp_all add: keeps_store_def)

lemma act_for_keeps:
  assumes "\<And>x w. P (snd (f x w)) \<longleftrightarrow> P w"
  shows "P (snd (act_for f xs w)) \<longleftrightarrow> P w"
proof (induction xs arbitrary: w)
  case (Cons x xs)
  have "P (snd (f x w)) \<longleftrightarrow> P w" by (rule assms)
  with Cons.IH show ?case
    by (cases "f x w"; cases "fst (f x w)") (auto simp: act_then_def)
qed (simp add: act_ok_def)

text \<open>Two loops agree when their bodies do on every world with the initial registries.\<close>

lemma act_then_cong:
  assumes "f w = f' w" "P (snd (f' w))" "\<And>w. P w \<Longrightarrow> g w = g' w"
  shows "act_then f g w = act_then f' g' w"
  using assms by (cases "f' w"; cases "fst (f' w)") (auto simp: act_then_def)

lemma act_for_cong:
  assumes eq: "\<And>x w. P w \<Longrightarrow> f x w = g x w" and keep: "\<And>x w. P w \<Longrightarrow> P (snd (g x w))"
  shows "P w \<Longrightarrow> act_for f xs w = act_for g xs w"
proof (induction xs arbitrary: w)
  case (Cons x xs)
  show ?case unfolding act_for.simps
    by (rule act_then_cong [where P = P]) (use eq keep Cons in auto)
qed simp

lemma act_then_keeps:
  "(P w \<Longrightarrow> P (snd (f w))) \<Longrightarrow> (\<And>w. P w \<Longrightarrow> P (snd (g w))) \<Longrightarrow> P w \<Longrightarrow> P (snd (act_then f g w))"
  by (cases "f w"; cases "fst (f w)") (auto simp: act_then_def)

lemma entry_hooks_calls:
  "act_for (entry_hook env k m sig) es =
     act_for (run_call env sig)
       (map (\<lambda>e. ProviderCall k e m) (filter (\<lambda>e. hook_present k (pdf_lifecycle (pe_definition e))) es))"
proof (induction es)
  case (Cons e es)
  have "entry_hook env k m sig e =
      (if hook_present k (pdf_lifecycle (pe_definition e)) then run_call env sig (ProviderCall k e m) else act_ok)"
    by (auto simp: fun_eq_iff entry_hook_def act_ok_def)
  with Cons.IH show ?case by simp
qed simp

lemma run_calls_keep:
  "keeps_store env \<Longrightarrow> le_store env (snd (act_for (run_call env sig) cs w)) = s \<longleftrightarrow> le_store env w = s"
  by (rule act_for_keeps [where P = "\<lambda>w. le_store env w = s"]) (simp add: run_call_keeps)

lemma act_for_app: "act_for f (xs @ ys) w = act_then (act_for f xs) (act_for f ys) w"
  by (simp add: act_for_append)

text \<open>One module in a forward and in a backward phase.\<close>

lemma forward_module:
  assumes "le_store env w = s"
  shows "act_then (bootstrap_local_providers env (mi_ref i))
      (le_module_hook env ApplicationBootstrap (mi_module i) (mi_ref i) None) w
    = act_for (run_call env None) (module_calls s ApplicationBootstrap i) w"
  using assms
  by (simp add: module_calls_def act_for_app act_then_def [of _ _ w] bootstrap_local_providers_def entry_hooks_calls)

lemma backward_module:
  assumes keep: "keeps_store env" and w: "le_store env w = s"
    and local: "\<And>w. local w = act_for (entry_hook env k (mi_ref i) sig) (rev (local_entries (le_store env w) (mi_ref i))) w"
  shows "act_then (le_module_hook env k (mi_module i) (mi_ref i) sig) local w
    = act_for (run_call env sig) (rev (module_calls s k i)) w"
proof -
  have "act_then (le_module_hook env k (mi_module i) (mi_ref i) sig) local w =
      act_then (run_call env sig (ModuleCall k (mi_module i) (mi_ref i)))
        (act_for (entry_hook env k (mi_ref i) sig) (rev (local_entries s (mi_ref i)))) w"
    by (rule act_then_cong [where P = "\<lambda>w. le_store env w = s"])
      (use w run_call_keeps [OF keep] in \<open>auto simp: local simp del: run_call.simps(1)\<close>,
       metis run_call.simps(2))
  then show ?thesis
    by (simp add: module_calls_def entry_hooks_calls rev_map rev_filter del: run_call.simps)
qed

lemma backward_phase:
  assumes keep: "keeps_store env" and w: "le_store env w = s"
    and local: "\<And>i w. local i w =
      act_for (entry_hook env k (mi_ref i) sig) (rev (local_entries (le_store env w) (mi_ref i))) w"
  shows "act_for (\<lambda>i. act_then (le_module_hook env k (mi_module i) (mi_ref i) sig) (local i)) (rev (ap_instances app)) w
    = act_for (run_call env sig) (rev (phase_calls s app k)) w"
proof -
  have "act_for (\<lambda>i. act_then (le_module_hook env k (mi_module i) (mi_ref i) sig) (local i)) (rev (ap_instances app)) w
      = act_for (\<lambda>i. act_for (run_call env sig) (rev (module_calls s k i))) (rev (ap_instances app)) w"
    by (rule act_for_cong [where P = "\<lambda>w. le_store env w = s"])
      (simp_all add: backward_module [OF keep _ local] run_calls_keep [OF keep] w)
  also have "\<dots> = act_for (run_call env sig) (concat (map (\<lambda>i. rev (module_calls s k i)) (rev (ap_instances app)))) w"
    by (simp add: act_for_concat act_for_map)
  also have "concat (map (\<lambda>i. rev (module_calls s k i)) (rev (ap_instances app))) = rev (phase_calls s app k)"
    by (simp add: phase_calls_def rev_concat rev_map comp_def)
  finally show ?thesis .
qed

lemma forward_phase:
  assumes keep: "keeps_store env" and w: "le_store env w = s"
  shows "application_bootstrap env app w =
    act_for (run_call env None) (phase_calls s app ApplicationBootstrap @ gateway_calls app) w"
proof -
  have 1: "act_for (\<lambda>i. act_then (bootstrap_local_providers env (mi_ref i))
        (le_module_hook env ApplicationBootstrap (mi_module i) (mi_ref i) None)) (ap_instances app) w
      = act_for (run_call env None) (phase_calls s app ApplicationBootstrap) w"
  proof -
    have "act_for (\<lambda>i. act_then (bootstrap_local_providers env (mi_ref i))
        (le_module_hook env ApplicationBootstrap (mi_module i) (mi_ref i) None)) (ap_instances app) w
      = act_for (\<lambda>i. act_for (run_call env None) (module_calls s ApplicationBootstrap i)) (ap_instances app) w"
      by (rule act_for_cong [where P = "\<lambda>w. le_store env w = s"])
        (simp_all add: forward_module run_calls_keep [OF keep] w)
    then show ?thesis by (simp add: phase_calls_def act_for_concat act_for_map)
  qed
  have "gateway_after_init env = (\<lambda>(i, hooks). act_for (run_call env None) (map (GatewayCall i) [0..<hooks]))"
    by (auto simp: fun_eq_iff gateway_after_init_def act_for_map)
  then have 2: "act_for (gateway_after_init env) (enumerate 0 (ap_gateways app)) =
      act_for (run_call env None) (gateway_calls app)"
    by (simp add: gateway_calls_def act_for_concat act_for_map case_prod_unfold)
  show ?thesis
    by (simp add: application_bootstrap_def act_for_app act_then_def [of _ _ w] 1 2)
qed

text \<open>
  C17. As long as the hooks register no providers, startup calls the hooks of every module
  in registration order, its providers before the module itself, and then the gateways.
  Shutdown consists of three phases (destroy, before shutdown, shutdown), and each of them
  calls the hooks that exist in exactly the reverse of that order, with the signal. Both
  stop at the first hook that fails and return its error.
\<close>

theorem shutdown_reverses_bootstrap:
  assumes "keeps_store env" "le_store env w = s"
  shows "application_bootstrap env app w =
      act_for (run_call env None) (phase_calls s app ApplicationBootstrap @ gateway_calls app) w
    \<and> shutdown_inner env app sig w =
      act_for (run_call env sig)
        (rev (phase_calls s app ModuleDestroy) @ rev (phase_calls s app BeforeApplicationShutdown) @
         rev (phase_calls s app ApplicationShutdown)) w
    \<and> (\<forall>cs1 c cs2 w1 err. act_for (run_call env sig) cs1 w = (Inr (), w1) \<longrightarrow>
        fst (run_call env sig c w1) = Inl err \<longrightarrow>
        act_for (run_call env sig) (cs1 @ c # cs2) w = run_call env sig c w1)"
proof (intro conjI allI impI)
  show "application_bootstrap env app w =
      act_for (run_call env None) (phase_calls s app ApplicationBootstrap @ gateway_calls app) w"
    by (rule forward_phase [OF assms])
next
  let ?P = "\<lambda>w. le_store env w = s"
  note phase = backward_phase [OF assms(1), where s = s and app = app and sig = sig]
  show "shutdown_inner env app sig w =
      act_for (run_call env sig)
        (rev (phase_calls s app ModuleDestroy) @ rev (phase_calls s app BeforeApplicationShutdown) @
         rev (phase_calls s app ApplicationShutdown)) w"
    unfolding shutdown_inner_def act_for_append
    by (intro act_then_cong [where P = ?P] phase)
      (simp_all add: assms run_calls_keep [OF assms(1)] destroy_local_providers_def
        before_application_shutdown_local_providers_def shutdown_local_providers_def)
next
  fix cs1 c cs2 w1 err
  assume "act_for (run_call env sig) cs1 w = (Inr (), w1)" "fst (run_call env sig c w1) = Inl err"
  then show "act_for (run_call env sig) (cs1 @ c # cs2) w = run_call env sig c w1"
    by (cases "run_call env sig c w1") (simp add: act_for_app act_then_def)
qed

text \<open>Two modules, the first with two providers, and hooks that write a log.\<close>

definition example_hooked :: "str \<Rightarrow> provider_definition" where
  "example_hooked tok = (named_from_arc tok)
     \<lparr>pdf_lifecycle := \<lparr>ph_module_init = False, ph_application_bootstrap = True, ph_module_destroy = True,
       ph_before_shutdown = False, ph_application_shutdown = False\<rparr>\<rparr>"

definition example_registries :: provider_store where
  "example_registries =
     \<lparr>ps_modules =
        [\<lparr>md_providers = [(''a'', \<lparr>pe_key = 1, pe_definition = example_hooked ''a'', pe_owner = None\<rparr>),
                         (''b'', \<lparr>pe_key = 2, pe_definition = example_hooked ''b'', pe_owner = None\<rparr>)],
          md_order = [''b'', ''a''], md_visible = []\<rparr>,
         module_data_new],
      ps_next_key = 3\<rparr>"

definition example_log_env :: "(str list, unit) lifecycle_env" where
  "example_log_env =
     \<lparr>le_store = (\<lambda>w. example_registries), le_singleton = (\<lambda>e m w. (Inr (), w)),
      le_provider_hook = (\<lambda>k e v m sig w. (Inr (), w @ [pdf_token (pe_definition e)])),
      le_module_hook = (\<lambda>k i m sig w. (Inr (), w @ [''module '' @ show_nat i])),
      le_gateway_hook = (\<lambda>i j w. (Inr (), w @ [''gateway'']))\<rparr>"

definition example_parts :: application_parts where
  "example_parts =
     \<lparr>ap_instances = [\<lparr>mi_module = 7, mi_ref = 0\<rparr>, \<lparr>mi_module = 8, mi_ref = 1\<rparr>], ap_gateways = [1]\<rparr>"

theorem shutdown_reverses_bootstrap_witness:
  "application_bootstrap example_log_env example_parts [] =
     (Inr (), [''b'', ''a'', ''module 7'', ''module 8'', ''gateway'']) \<and>
   shutdown_inner example_log_env example_parts (Some ''SIGTERM'') [] =
     (Inr (), [''module 8'', ''module 7'', ''a'', ''b'', ''module 8'', ''module 7'', ''module 8'', ''module 7''])"
proof -
  have 1: "keeps_store example_log_env" by (simp add: keeps_store_def example_log_env_def)
  have 2: "le_store example_log_env [] = example_registries" by (simp add: example_log_env_def)
  have 3: "act_for (run_call example_log_env None)
      (phase_calls example_registries example_parts ApplicationBootstrap @ gateway_calls example_parts) [] =
      (Inr (), [''b'', ''a'', ''module 7'', ''module 8'', ''gateway''])"
    by code_simp
  have 4: "act_for (run_call example_log_env (Some ''SIGTERM''))
      (rev (phase_calls example_registries example_parts ModuleDestroy) @
       rev (phase_calls example_registries example_parts BeforeApplicationShutdown) @
       rev (phase_calls example_registries example_parts ApplicationShutdown)) [] =
      (Inr (), [''module 8'', ''module 7'', ''a'', ''b'', ''module 8'', ''module 7'', ''module 8'', ''module 7''])"
    by code_simp
  from shutdown_reverses_bootstrap [OF 1 2, of example_parts "Some ''SIGTERM''"] 3 4 show ?thesis
    by simp
qed

section \<open>The managed lifecycle\<close>

text \<open>
  What the owner of an application may do to it: a failed startup is followed by a
  shutdown, a successful one by nothing until it is closed, and a failed close leaves the
  application up.
\<close>

datatype lifecycle_event = Booted bool | ShutDown "str option" bool

inductive managed_run :: "bool \<Rightarrow> lifecycle_event list \<Rightarrow> bool \<Rightarrow> bool" where
  managed_idle: "managed_run up [] up"
| managed_boot: "managed_run True es up \<Longrightarrow> managed_run False (Booted True # es) up"
| managed_boot_failed: "managed_run False es up \<Longrightarrow> managed_run False (Booted False # ShutDown None ok # es) up"
| managed_close: "managed_run False es up \<Longrightarrow> managed_run True (ShutDown sig True # es) up"
| managed_close_failed: "managed_run True es up \<Longrightarrow> managed_run True (ShutDown sig False # es) up"

code_pred managed_run .

inductive_simps managed_run_Nil [simp]: "managed_run up [] up'"
inductive_simps managed_run_Booted [simp]: "managed_run up (Booted ok # es) up'"
inductive_simps managed_run_ShutDown [simp]: "managed_run True (ShutDown sig ok # es) up'"

lemma managed_run_trans: "managed_run a es b \<Longrightarrow> managed_run b fs c \<Longrightarrow> managed_run a (es @ fs) c"
  by (induction rule: managed_run.induct) (auto intro: managed_run.intros)

text \<open>The methods of an application, with a record of the calls in the world.\<close>

definition lift_act :: "'w act \<Rightarrow> ('w \<times> lifecycle_event list) act" where
  "lift_act a = (\<lambda>(w, log). case a w of (r, w1) \<Rightarrow> (r, w1, log))"

definition record_act :: "(bool \<Rightarrow> lifecycle_event) \<Rightarrow> 'w act \<Rightarrow> ('w \<times> lifecycle_event list) act" where
  "record_act ev a = (\<lambda>(w, log). case a w of (r, w1) \<Rightarrow> (r, w1, log @ [ev (is_ok r)]))"

definition recorded :: "'w application_methods \<Rightarrow> ('w \<times> lifecycle_event list) application_methods" where
  "recorded app =
     \<lparr>am_bootstrap = record_act Booted (am_bootstrap app),
      am_shutdown = record_act (ShutDown None) (am_shutdown app),
      am_shutdown_with_signal = (\<lambda>sig. record_act (ShutDown (Some sig)) (am_shutdown_with_signal app sig))\<rparr>"

datatype 'w handle_op =
  OpInit
| OpClose
| OpCloseWithSignal str
| OpListen "'w act" "shutdown_signal list \<Rightarrow> 'w \<Rightarrow> race_outcome \<times> 'w"
| OpStartAll
| OpConnect "'w act"
| OpEnableHooks "shutdown_signal list"

primrec handle_apply :: "'w application_methods \<Rightarrow> 'w handle_op \<Rightarrow> 'w application_handle \<Rightarrow> 'w \<Rightarrow> 'w handle_result" where
  "handle_apply app OpInit = handle_init app"
| "handle_apply app OpClose = handle_close app"
| "handle_apply app (OpCloseWithSignal sig) = handle_close_with_signal app sig"
| "handle_apply app (OpListen serve race) = listen_with app serve race"
| "handle_apply app OpStartAll = start_all_microservices app"
| "handle_apply app (OpConnect serve) = (\<lambda>h w. (Inr (), snd (connect_microservice serve h), w))"
| "handle_apply app (OpEnableHooks signals) = (\<lambda>h w. (Inr (), enable_shutdown_hooks signals h, w))"

text \<open>A sequence of calls; errors are returned to the caller, who goes on.\<close>

fun handle_run :: "'w application_methods \<Rightarrow> 'w handle_op list \<Rightarrow> 'w application_handle \<Rightarrow> 'w \<Rightarrow> 'w application_handle \<times> 'w" where
  "handle_run app [] h w = (h, w)"
| "handle_run app (c # cs) h w = (case handle_apply app c h w of (_, h1, w1) \<Rightarrow> handle_run app cs h1 w1)"

primrec lift_op :: "'w handle_op \<Rightarrow> ('w \<times> lifecycle_event list) handle_op" where
  "lift_op OpInit = OpInit"
| "lift_op OpClose = OpClose"
| "lift_op (OpCloseWithSignal sig) = OpCloseWithSignal sig"
| "lift_op (OpListen serve race) =
     OpListen (lift_act serve) (\<lambda>signals (w, log). case race signals w of (r, w1) \<Rightarrow> (r, w1, log))"
| "lift_op OpStartAll = OpStartAll"
| "lift_op (OpConnect serve) = OpConnect (lift_act serve)"
| "lift_op (OpEnableHooks signals) = OpEnableHooks signals"

text \<open>
  A step of the owner is sound if the events it adds are a run of the managed lifecycle
  between the states of the handle, and it keeps the log of what was there.
\<close>

definition sound_step ::
  "('w \<times> lifecycle_event list) application_handle \<Rightarrow> 'w \<times> lifecycle_event list
     \<Rightarrow> ('w \<times> lifecycle_event list) application_handle \<Rightarrow> 'w \<times> lifecycle_event list \<Rightarrow> bool" where
  "sound_step h w h' w' \<longleftrightarrow>
     (\<exists>es. snd w' = snd w @ es \<and> managed_run (ah_initialized h) es (ah_initialized h'))"

lemma sound_step_refl [simp]: "sound_step h w h w"
  by (auto simp: sound_step_def intro: managed_run.intros)

lemma sound_step_trans: "sound_step h w h1 w1 \<Longrightarrow> sound_step h1 w1 h2 w2 \<Longrightarrow> sound_step h w h2 w2"
  by (auto simp: sound_step_def dest: managed_run_trans)

definition keeps_log :: "('w \<times> lifecycle_event list) act \<Rightarrow> bool" where
  "keeps_log a \<longleftrightarrow> (\<forall>w. snd (snd (a w)) = snd w)"

definition quiet_services :: "('w \<times> lifecycle_event list) application_handle \<Rightarrow> bool" where
  "quiet_services h \<longleftrightarrow> (\<forall>a \<in> set (ah_microservices h). keeps_log a)"

lemma keeps_logD: "keeps_log a \<Longrightarrow> snd (snd (a w)) = snd w"
  unfolding keeps_log_def by blast

lemma lift_act_keeps [simp]: "keeps_log (lift_act a)"
  by (auto simp: keeps_log_def lift_act_def split: prod.splits)

lemma keeps_log_step: "keeps_log a \<Longrightarrow> a w = (r, w') \<Longrightarrow> sound_step h w h w'"
  by (metis keeps_log_def sound_step_refl sound_step_def append_Nil2 snd_conv)

lemma sound_update [simp]: "ah_initialized h' = ah_initialized h \<Longrightarrow> sound_step h w h' w"
  by (auto simp: sound_step_def intro: managed_run.intros)

lemma init_sound:
  "handle_init (recorded app) h w = (r, h', w') \<Longrightarrow>
     sound_step h w h' w' \<and> ah_microservices h' = ah_microservices h"
  by (cases w)
    (auto simp: handle_init_def recorded_def record_act_def sound_step_def is_ok_def
      split: if_splits prod.splits sum.splits)

lemma close_sound:
  "handle_close_inner (recorded app) sig h w = (r, h', w') \<Longrightarrow>
     sound_step h w h' w' \<and> ah_microservices h' = ah_microservices h"
proof (cases sig)
  case None
  assume "handle_close_inner (recorded app) sig h w = (r, h', w')"
  with None show ?thesis
    by (cases w; cases "am_shutdown app (fst w)"; cases "fst (am_shutdown app (fst w))")
      (auto simp: handle_close_inner_def recorded_def record_act_def sound_step_def split: if_splits)
next
  case (Some s)
  assume "handle_close_inner (recorded app) sig h w = (r, h', w')"
  with Some show ?thesis
    by (cases w; cases "am_shutdown_with_signal app s (fst w)"; cases "fst (am_shutdown_with_signal app s (fst w))")
      (auto simp: handle_close_inner_def recorded_def record_act_def sound_step_def split: if_splits)
qed

text \<open>A close after a sound step.\<close>

lemma close_after:
  assumes "handle_close_inner (recorded app) sig h1 w1 = (r, h2, w2)" "sound_step h w h1 w1"
    "ah_microservices h1 = ah_microservices h"
  shows "sound_step h w h2 w2 \<and> ah_microservices h2 = ah_microservices h"
  using close_sound [OF assms(1)] assms(2,3) by (auto intro: sound_step_trans)

lemma race_sound:
  assumes "listen_race (recorded app) race h w = (r, h', w')" "\<And>w. snd (snd (race w)) = snd w"
  shows "sound_step h w h' w' \<and> ah_microservices h' = ah_microservices h"
proof -
  obtain r1 h1 w1 where 1: "handle_init (recorded app) h w = (r1, h1, w1)" by (cases "handle_init (recorded app) h w")
  obtain o2 w2 where 2: "race w1 = (o2, w2)" by (cases "race w1")
  have "sound_step h1 w1 h1 w2" using assms(2) [of w1] 2 by (auto simp: sound_step_def intro: managed_run.intros)
  with init_sound [OF 1] have "sound_step h w h1 w2" "ah_microservices h1 = ah_microservices h"
    by (auto intro: sound_step_trans)
  note w2 = close_after [OF _ this]
  show ?thesis
  proof (cases r1)
    case (Inl err)
    with assms(1) 1 init_sound [OF 1] show ?thesis by (simp add: listen_race_def)
  next
    case (Inr u)
    show ?thesis
    proof (cases o2)
      case (Served served)
      obtain r3 h3 w3 where "handle_close_inner (recorded app) None h1 w2 = (r3, h3, w3)"
        by (cases "handle_close_inner (recorded app) None h1 w2")
      with assms(1) 1 2 Inr Served w2 [of app None r3 h3 w3] show ?thesis
        by (simp add: listen_race_def handle_close_def)
    next
      case (Signalled sig)
      obtain r3 h3 w3 where 3: "handle_close_inner (recorded app) None h1 w2 = (r3, h3, w3)"
        by (cases "handle_close_inner (recorded app) None h1 w2")
      show ?thesis
      proof (cases sig)
        case (Inl err)
        with assms(1) 1 2 Inr Signalled 3 w2 [of app None r3 h3 w3] show ?thesis
          by (simp add: listen_race_def handle_close_def)
      next
        case (Inr s)
        with assms(1) 1 2 \<open>r1 = Inr u\<close> Signalled w2 [of app "Some (signal_as_str s)" r h' w'] show ?thesis
          by (simp add: listen_race_def handle_close_with_signal_def)
      qed
    qed
  qed
qed

lemma listen_sound:
  assumes "listen_with (recorded app) serve race h w = (r, h', w')"
    "keeps_log serve" "\<And>signals w. snd (snd (race signals w)) = snd w"
  shows "sound_step h w h' w' \<and> ah_microservices h' = ah_microservices h"
proof (cases "ah_signals h")
  case (Some signals)
  with assms race_sound [of app "race signals" h w r h' w'] show ?thesis by (simp add: listen_with_def)
next
  case None
  obtain r1 h1 w1 where 1: "handle_init (recorded app) h w = (r1, h1, w1)" by (cases "handle_init (recorded app) h w")
  obtain r2 w2 where 2: "serve w1 = (r2, w2)" by (cases "serve w1")
  from init_sound [OF 1] keeps_log_step [OF assms(2) 2]
  have "sound_step h w h1 w2" "ah_microservices h1 = ah_microservices h"
    by (auto intro: sound_step_trans)
  note w2 = close_after [OF _ this]
  obtain r3 h3 w3 where "handle_close_inner (recorded app) None h1 w2 = (r3, h3, w3)"
    by (cases "handle_close_inner (recorded app) None h1 w2")
  with assms(1) 1 2 init_sound [OF 1] None w2 [of app None r3 h3 w3] show ?thesis
    by (cases r1) (simp_all add: listen_with_def handle_close_def)
qed

lemma serve_all_log:
  "\<forall>a \<in> set as. keeps_log a \<Longrightarrow> snd (snd (act_for (\<lambda>serve. serve) as w)) = snd w"
proof (induction as arbitrary: w)
  case (Cons a as)
  then have "snd (snd (a w)) = snd w" by (auto intro: keeps_logD)
  moreover have "snd (snd (act_for (\<lambda>serve. serve) as u)) = snd u" for u by (rule Cons.IH) (use Cons.prems in simp)
  ultimately show ?case
    by (cases "a w"; cases "fst (a w)") (simp_all add: act_then_def)
qed (simp add: act_ok_def)

lemma apply_sound:
  assumes "handle_apply (recorded app) (lift_op c) h w = (r, h', w')" "quiet_services h"
  shows "sound_step h w h' w' \<and> quiet_services h'"
proof (cases c)
  case (OpListen serve race)
  have "snd (snd (case w of (u, log) \<Rightarrow> case race signals u of (r, w1) \<Rightarrow> (r, w1, log))) = snd w" for signals w
    by (auto split: prod.splits)
  from listen_sound [of app "lift_act serve" _ h w r h' w', OF _ lift_act_keeps this]
  have "sound_step h w h' w' \<and> ah_microservices h' = ah_microservices h"
    using assms(1) OpListen by simp
  with assms(2) show ?thesis by (simp add: quiet_services_def)
next
  case OpStartAll
  obtain r1 h1 w1 where 1: "handle_init (recorded app) h w = (r1, h1, w1)" by (cases "handle_init (recorded app) h w")
  have ms: "ah_microservices h1 = ah_microservices h" and s1: "sound_step h w h1 w1"
    using init_sound [OF 1] by simp_all
  obtain r2 w2 where 2: "act_for (\<lambda>serve. serve) (ah_microservices h1) w1 = (r2, w2)"
    by (cases "act_for (\<lambda>serve. serve) (ah_microservices h1) w1")
  from serve_all_log [of "ah_microservices h1" w1] 2 assms(2) ms have "snd w2 = snd w1"
    by (simp add: quiet_services_def)
  then have "sound_step h1 w1 h1 w2" by (auto simp: sound_step_def intro: managed_run.intros)
  with s1 have "sound_step h w h1 w2" by (rule sound_step_trans)
  with assms OpStartAll 1 2 ms s1 show ?thesis
    by (auto simp: start_all_microservices_def quiet_services_def split: sum.splits)
next
  case OpInit
  with assms init_sound [of app h w r h' w'] show ?thesis by (simp add: quiet_services_def)
next
  case OpClose
  with assms close_sound [of app None h w r h' w'] show ?thesis by (simp add: quiet_services_def handle_close_def)
next
  case (OpCloseWithSignal sig)
  with assms close_sound [of app "Some sig" h w r h' w'] show ?thesis
    by (simp add: quiet_services_def handle_close_with_signal_def)
next
  case (OpConnect serve)
  with assms show ?thesis by (auto simp: quiet_services_def connect_microservice_def)
next
  case (OpEnableHooks signals)
  with assms show ?thesis by (auto simp: quiet_services_def enable_shutdown_hooks_def)
qed

lemma run_sound:
  "handle_run (recorded app) (map lift_op cs) h w = (h', w') \<Longrightarrow> quiet_services h \<Longrightarrow> sound_step h w h' w'"
proof (induction cs arbitrary: h w)
  case (Cons c cs)
  obtain r1 h1 w1 where 1: "handle_apply (recorded app) (lift_op c) h w = (r1, h1, w1)"
    by (cases "handle_apply (recorded app) (lift_op c) h w")
  from apply_sound [OF 1 Cons.prems(2)] Cons.IH [of h1 w1] Cons.prems(1) 1 show ?case
    by (auto intro: sound_step_trans)
qed simp

text \<open>
  C18. Whatever an owner does with an application handle, in any order and with any hooks,
  servers and transports, the startups and shutdowns of the application that this causes
  alternate: the application starts only while it is down, every failed startup is
  followed at once by a shutdown without a signal, a shutdown otherwise happens only while
  it is up, and the flag of the handle is up exactly after a successful startup that no
  successful shutdown has followed.
\<close>

theorem managed_lifecycle:
  "case handle_run (recorded app) (map lift_op ops) handle_from_app (w, []) of
     (h, _, log) \<Rightarrow> managed_run False log (ah_initialized h)"
proof -
  obtain h w' log where r: "handle_run (recorded app) (map lift_op ops) handle_from_app (w, []) = (h, w', log)"
    by (metis prod_cases3)
  from run_sound [OF r] have "sound_step handle_from_app (w, []) h (w', log)"
    by (simp add: quiet_services_def handle_from_app_def)
  with r show ?thesis by (simp add: sound_step_def handle_from_app_def)
qed

text \<open>The microservice is the handle without connected transports.\<close>

definition micro_of :: "'w application_handle \<Rightarrow> boot_microservice" where
  "micro_of h = \<lparr>ms_initialized = ah_initialized h, ms_signals = ah_signals h\<rparr>"

lemma microservice_init_eq:
  "microservice_init app (micro_of h) w = (case handle_init app h w of (r, h', w') \<Rightarrow> (r, micro_of h', w'))"
  by (auto simp: microservice_init_def handle_init_def micro_of_def split: prod.splits sum.splits)

lemma microservice_close_eq:
  "microservice_close_inner app sig (micro_of h) w =
     (case handle_close_inner app sig h w of (r, h', w') \<Rightarrow> (r, micro_of h', w'))"
  by (auto simp: microservice_close_inner_def handle_close_inner_def micro_of_def
      split: prod.splits sum.splits option.splits)

lemma microservice_race_eq:
  "microservice_listen_race app race (micro_of h) w =
     (case listen_race app race h w of (r, h', w') \<Rightarrow> (r, micro_of h', w'))"
  by (auto simp: microservice_listen_race_def listen_race_def microservice_init_eq microservice_close_eq
      handle_close_def handle_close_with_signal_def split: prod.splits sum.splits race_outcome.splits)

text \<open>
  A standalone microservice goes through exactly the transitions of a managed
  application whose adapter is its transport: same results, same state, same effects,
  with and without shutdown signals.
\<close>

lemma microservice_listen_as_handle:
  "microservice_listen app serve race (micro_of h) w =
     (case listen_with app serve race h w of (r, h', w') \<Rightarrow> (r, micro_of h', w'))"
proof -
  have "ms_signals (micro_of h) = ah_signals h" by (simp add: micro_of_def)
  then show ?thesis
    unfolding microservice_listen_def listen_with_def handle_close_def
    by (auto simp: microservice_race_eq microservice_init_eq microservice_close_eq
        split: prod.splits sum.splits option.splits)
qed

end
