(* ===== verification/Resilience.thy ===== *)
theory Resilience
  imports Prelude "HOL-Library.Word"
begin

text \<open>
  The policies of outbound calls (\<open>src/resilience\<close>): the circuit breaker, the bulkhead and the
  retry policy. Instants and durations are natural numbers of one unit, and the clock reading
  of a call is an argument. The breaker holds its lock for a whole call, so its operations are
  atomic; the bulkhead is a loop around compare-and-exchange and is modelled as the steps of
  concurrent callers. The counters are 32-bit numbers that saturate.
\<close>

section \<open>The circuit breaker\<close>

definition u32_max :: nat where
  "u32_max = 2 ^ 32 - 1"

definition saturating_add_u32 :: "nat \<Rightarrow> nat \<Rightarrow> nat" where
  "saturating_add_u32 a b = min (a + b) u32_max"

record circuit_breaker_options =
  cbo_failure_threshold :: nat
  cbo_cooldown :: nat
  cbo_success_threshold :: nat

definition circuit_breaker_options_default :: "nat \<Rightarrow> circuit_breaker_options" where
  "circuit_breaker_options_default second =
     \<lparr>cbo_failure_threshold = 5, cbo_cooldown = 30 * second, cbo_success_threshold = 1\<rparr>"

definition with_failure_threshold :: "nat \<Rightarrow> circuit_breaker_options \<Rightarrow> circuit_breaker_options" where
  "with_failure_threshold n o1 = o1\<lparr>cbo_failure_threshold := n\<rparr>"

definition with_cooldown :: "nat \<Rightarrow> circuit_breaker_options \<Rightarrow> circuit_breaker_options" where
  "with_cooldown d o1 = o1\<lparr>cbo_cooldown := d\<rparr>"

definition with_success_threshold :: "nat \<Rightarrow> circuit_breaker_options \<Rightarrow> circuit_breaker_options" where
  "with_success_threshold n o1 = o1\<lparr>cbo_success_threshold := n\<rparr>"

datatype circuit_state = Closed | Open | HalfOpen

record circuit_inner =
  ci_state :: circuit_state
  ci_failures :: nat
  ci_successes :: nat
  ci_opened_at :: "nat option"
  ci_probe :: bool

definition circuit_breaker_new :: circuit_inner where
  "circuit_breaker_new =
     \<lparr>ci_state = Closed, ci_failures = 0, ci_successes = 0, ci_opened_at = None, ci_probe = False\<rparr>"

text \<open>\<open>elapsed\<close> of an instant that is not in the past is zero.\<close>

definition maybe_half_open :: "circuit_breaker_options \<Rightarrow> nat \<Rightarrow> circuit_inner \<Rightarrow> circuit_inner" where
  "maybe_half_open o1 now i =
     (if ci_state i \<noteq> Open then i
      else (case ci_opened_at i of
              None \<Rightarrow> i
            | Some t \<Rightarrow>
                if now - t \<ge> cbo_cooldown o1
                then i\<lparr>ci_state := HalfOpen, ci_successes := 0, ci_probe := False\<rparr>
                else i))"

definition circuit_state_of :: "circuit_breaker_options \<Rightarrow> nat \<Rightarrow> circuit_inner \<Rightarrow> circuit_state \<times> circuit_inner" where
  "circuit_state_of o1 now i = (let i1 = maybe_half_open o1 now i in (ci_state i1, i1))"

text \<open>The error of a rejected call is the state that rejects it.\<close>

definition circuit_admit ::
  "circuit_breaker_options \<Rightarrow> nat \<Rightarrow> circuit_inner \<Rightarrow> (circuit_state + unit) \<times> circuit_inner" where
  "circuit_admit o1 now i =
     (let i1 = maybe_half_open o1 now i in
      (case ci_state i1 of
         Closed \<Rightarrow> (Inr (), i1)
       | Open \<Rightarrow> (Inl Open, i1)
       | HalfOpen \<Rightarrow> if ci_probe i1 then (Inl HalfOpen, i1) else (Inr (), i1\<lparr>ci_probe := True\<rparr>)))"

definition circuit_on_success :: "circuit_breaker_options \<Rightarrow> circuit_inner \<Rightarrow> circuit_inner" where
  "circuit_on_success o1 i =
     (case ci_state i of
        Closed \<Rightarrow> i\<lparr>ci_failures := 0\<rparr>
      | HalfOpen \<Rightarrow>
          (let i1 = i\<lparr>ci_successes := saturating_add_u32 (ci_successes i) 1, ci_probe := False\<rparr> in
           if ci_successes i1 \<ge> cbo_success_threshold o1
           then i1\<lparr>ci_state := Closed, ci_failures := 0, ci_successes := 0, ci_opened_at := None\<rparr>
           else i1)
      | Open \<Rightarrow> i)"

definition circuit_on_failure :: "circuit_breaker_options \<Rightarrow> nat \<Rightarrow> circuit_inner \<Rightarrow> circuit_inner" where
  "circuit_on_failure o1 now i =
     (case ci_state i of
        Closed \<Rightarrow>
          (let i1 = i\<lparr>ci_failures := saturating_add_u32 (ci_failures i) 1\<rparr> in
           if ci_failures i1 \<ge> cbo_failure_threshold o1
           then i1\<lparr>ci_state := Open, ci_successes := 0, ci_opened_at := Some now\<rparr>
           else i1)
      | HalfOpen \<Rightarrow>
          i\<lparr>ci_state := Open, ci_failures := cbo_failure_threshold o1, ci_successes := 0,
            ci_opened_at := Some now, ci_probe := False\<rparr>
      | Open \<Rightarrow> i\<lparr>ci_opened_at := Some now\<rparr>)"

text \<open>The calls on one breaker, in the order in which they take its lock.\<close>

datatype circuit_call = Admit nat | Completed nat bool | ReadState nat

primrec call_time :: "circuit_call \<Rightarrow> nat" where
  "call_time (Admit t) = t"
| "call_time (Completed t ok) = t"
| "call_time (ReadState t) = t"

datatype circuit_answer = Admitted | Rejected circuit_state | Noted | Shows circuit_state

primrec circuit_call_apply ::
  "circuit_breaker_options \<Rightarrow> circuit_call \<Rightarrow> circuit_inner \<Rightarrow> circuit_answer \<times> circuit_inner" where
  "circuit_call_apply o1 (Admit t) i =
     (case circuit_admit o1 t i of (Inr _, i1) \<Rightarrow> (Admitted, i1) | (Inl s, i1) \<Rightarrow> (Rejected s, i1))"
| "circuit_call_apply o1 (Completed t ok) i =
     (Noted, if ok then circuit_on_success o1 i else circuit_on_failure o1 t i)"
| "circuit_call_apply o1 (ReadState t) i =
     (case circuit_state_of o1 t i of (s, i1) \<Rightarrow> (Shows s, i1))"

fun circuit_run ::
  "circuit_breaker_options \<Rightarrow> circuit_call list \<Rightarrow> circuit_inner \<Rightarrow> circuit_answer list \<times> circuit_inner" where
  "circuit_run o1 [] i = ([], i)"
| "circuit_run o1 (c # cs) i =
     (case circuit_call_apply o1 c i of
        (a, i1) \<Rightarrow> (case circuit_run o1 cs i1 of (as, i2) \<Rightarrow> (a # as, i2)))"

section \<open>The contract of the breaker\<close>

text \<open>
  The abstract breaker has the data of each state only: the failures in a row of a closed
  circuit, the time at which an open one tripped, the successes and the probe of a half
  open one.
\<close>

datatype circuit = Conducting nat | Tripped nat | Probing nat bool

definition circuit_poll :: "circuit_breaker_options \<Rightarrow> nat \<Rightarrow> circuit \<Rightarrow> circuit" where
  "circuit_poll o1 now c =
     (case c of Tripped t \<Rightarrow> if t + cbo_cooldown o1 \<le> now \<or> cbo_cooldown o1 = 0 then Probing 0 False else c
              | _ \<Rightarrow> c)"

primrec circuit_shows :: "circuit \<Rightarrow> circuit_state" where
  "circuit_shows (Conducting n) = Closed"
| "circuit_shows (Tripped t) = Open"
| "circuit_shows (Probing n p) = HalfOpen"

fun contract_step :: "circuit_breaker_options \<Rightarrow> circuit_call \<Rightarrow> circuit \<Rightarrow> circuit_answer \<times> circuit" where
  "contract_step o1 (Admit t) c =
     (case circuit_poll o1 t c of
        Conducting n \<Rightarrow> (Admitted, Conducting n)
      | Tripped u \<Rightarrow> (Rejected Open, Tripped u)
      | Probing n False \<Rightarrow> (Admitted, Probing n True)
      | Probing n True \<Rightarrow> (Rejected HalfOpen, Probing n True))"
| "contract_step o1 (ReadState t) c = (Shows (circuit_shows (circuit_poll o1 t c)), circuit_poll o1 t c)"
| "contract_step o1 (Completed t True) c =
     (Noted,
      (case c of
         Conducting n \<Rightarrow> Conducting 0
       | Tripped u \<Rightarrow> Tripped u
       | Probing n p \<Rightarrow> if cbo_success_threshold o1 \<le> Suc n then Conducting 0 else Probing (Suc n) False))"
| "contract_step o1 (Completed t False) c =
     (Noted,
      (case c of
         Conducting n \<Rightarrow> if cbo_failure_threshold o1 \<le> Suc n then Tripped t else Conducting (Suc n)
       | Tripped u \<Rightarrow> Tripped t
       | Probing n p \<Rightarrow> Tripped t))"

fun contract_run :: "circuit_breaker_options \<Rightarrow> circuit_call list \<Rightarrow> circuit \<Rightarrow> circuit_answer list \<times> circuit" where
  "contract_run o1 [] c = ([], c)"
| "contract_run o1 (k # ks) c =
     (case contract_step o1 k c of (a, c1) \<Rightarrow> (case contract_run o1 ks c1 of (as, c2) \<Rightarrow> (a # as, c2)))"

definition circuit_abs :: "circuit_inner \<Rightarrow> circuit" where
  "circuit_abs i =
     (case ci_state i of
        Closed \<Rightarrow> Conducting (ci_failures i)
      | Open \<Rightarrow> Tripped (case ci_opened_at i of Some t \<Rightarrow> t | None \<Rightarrow> 0)
      | HalfOpen \<Rightarrow> Probing (ci_successes i) (ci_probe i))"

definition circuit_ok :: "circuit_breaker_options \<Rightarrow> circuit_inner \<Rightarrow> bool" where
  "circuit_ok o1 i \<longleftrightarrow>
     cbo_failure_threshold o1 \<le> u32_max \<and> cbo_success_threshold o1 \<le> u32_max \<and>
     (ci_state i = Open \<longleftrightarrow> ci_opened_at i \<noteq> None \<and> ci_state i \<noteq> HalfOpen) \<and>
     (ci_state i = Closed \<longrightarrow> ci_failures i = 0 \<or> ci_failures i < cbo_failure_threshold o1) \<and>
     (ci_state i = HalfOpen \<longrightarrow> ci_successes i = 0 \<or> ci_successes i < cbo_success_threshold o1)"

lemma circuit_step_refines:
  assumes "circuit_ok o1 i"
  shows "(case circuit_call_apply o1 k i of (a, i1) \<Rightarrow> (a, circuit_abs i1)) = contract_step o1 k (circuit_abs i)
    \<and> circuit_ok o1 (snd (circuit_call_apply o1 k i))"
proof -
  have sat: "n = 0 \<or> n < b \<Longrightarrow> b \<le> u32_max \<Longrightarrow> saturating_add_u32 n 1 = Suc n" for n b
    by (auto simp: saturating_add_u32_def u32_max_def)
  have fail: "saturating_add_u32 (ci_failures i) 1 = Suc (ci_failures i)" if "ci_state i = Closed"
    by (rule sat) (use assms that in \<open>auto simp: circuit_ok_def\<close>)
  have succ: "saturating_add_u32 (ci_successes i) 1 = Suc (ci_successes i)" if "ci_state i = HalfOpen"
    by (rule sat) (use assms that in \<open>auto simp: circuit_ok_def\<close>)
  have late: "cbo_cooldown o1 \<le> t - u \<longleftrightarrow> u + cbo_cooldown o1 \<le> t \<or> cbo_cooldown o1 = 0" for t u
    by linarith
  show ?thesis
  proof (cases k)
    case (Admit t)
    with assms late show ?thesis
      by (cases "ci_state i"; cases "ci_opened_at i"; cases "ci_probe i")
        (auto simp: circuit_ok_def circuit_abs_def circuit_admit_def maybe_half_open_def circuit_poll_def)
  next
    case (Completed t ok)
    with assms fail succ show ?thesis
      by (cases ok; cases "ci_state i")
        (auto simp: circuit_ok_def circuit_abs_def circuit_on_success_def circuit_on_failure_def Let_def)
  next
    case (ReadState t)
    with assms late show ?thesis
      by (cases "ci_state i"; cases "ci_opened_at i")
        (auto simp: circuit_ok_def circuit_abs_def circuit_state_of_def maybe_half_open_def circuit_poll_def)
  qed
qed

lemma circuit_run_refines:
  "circuit_ok o1 i \<Longrightarrow>
     (case circuit_run o1 ks i of (as, i1) \<Rightarrow> (as, circuit_abs i1)) = contract_run o1 ks (circuit_abs i)"
proof (induction ks arbitrary: i)
  case (Cons k ks)
  obtain a i1 where 1: "circuit_call_apply o1 k i = (a, i1)" by (cases "circuit_call_apply o1 k i")
  with circuit_step_refines [OF Cons.prems, of k]
  have 2: "contract_step o1 k (circuit_abs i) = (a, circuit_abs i1)" and "circuit_ok o1 i1"
    by simp_all
  with Cons.IH [of i1] 1 show ?case by (auto split: prod.splits)
qed simp

text \<open>
  C19. The circuit breaker implements its contract: for every sequence of calls on one
  breaker, at any times, the answers (admitted, rejected and by which state, the state
  shown) are those of the abstract breaker, which keeps only the failures in a row while
  the circuit is closed, the time of the last failure while it is open, and the successes
  and the outstanding probe while it is half open. The counters never saturate, for every
  threshold that fits in 32 bits.
\<close>

theorem circuit_breaker_refines:
  assumes "cbo_failure_threshold o1 \<le> u32_max" "cbo_success_threshold o1 \<le> u32_max"
  shows "(case circuit_run o1 ks circuit_breaker_new of (as, i) \<Rightarrow> (as, circuit_abs i))
    = contract_run o1 ks (Conducting 0)"
proof -
  have "circuit_ok o1 circuit_breaker_new" using assms by (simp add: circuit_ok_def circuit_breaker_new_def)
  from circuit_run_refines [OF this, of ks] show ?thesis by (simp add: circuit_abs_def circuit_breaker_new_def)
qed

definition example_breaker :: circuit_breaker_options where
  "example_breaker = \<lparr>cbo_failure_threshold = 2, cbo_cooldown = 5, cbo_success_threshold = 1\<rparr>"

theorem circuit_breaker_refines_witness:
  "fst (circuit_run example_breaker
      [Admit 0, Completed 1 False, Admit 1, Completed 2 False, Admit 6, Admit 7, Admit 8, Completed 9 True, ReadState 9]
      circuit_breaker_new) =
    [Admitted, Noted, Admitted, Noted, Rejected Open, Admitted, Rejected HalfOpen, Noted, Shows Closed]"
proof -
  let ?ks = "[Admit 0, Completed 1 False, Admit 1, Completed 2 False, Admit 6, Admit 7, Admit 8, Completed 9 True, ReadState 9]"
  have "(case circuit_run example_breaker ?ks circuit_breaker_new of (as, i) \<Rightarrow> (as, circuit_abs i))
    = contract_run example_breaker ?ks (Conducting 0)"
    by (rule circuit_breaker_refines) (simp_all add: example_breaker_def u32_max_def)
  moreover have "contract_run example_breaker ?ks (Conducting 0) =
      ([Admitted, Noted, Admitted, Noted, Rejected Open, Admitted, Rejected HalfOpen, Noted, Shows Closed], Conducting 0)"
    by code_simp
  ultimately show ?thesis by (auto split: prod.splits)
qed

section \<open>What the breaker guarantees\<close>

lemma tripped_keeps_rejecting:
  "ci_state i = Open \<Longrightarrow> ci_opened_at i = Some t \<Longrightarrow> t0 \<le> t \<Longrightarrow>
     (\<forall>k \<in> set ks. t0 \<le> call_time k \<and> call_time k < t0 + cbo_cooldown o1) \<Longrightarrow>
     j < length ks \<Longrightarrow> ks ! j = Admit u \<Longrightarrow> fst (circuit_run o1 ks i) ! j = Rejected Open"
proof (induction ks arbitrary: i t j)
  case (Cons k ks)
  obtain a i1 where 1: "circuit_call_apply o1 k i = (a, i1)" by (cases "circuit_call_apply o1 k i")
  have early: "\<not> cbo_cooldown o1 \<le> call_time k - t" using Cons.prems(3,4) by auto
  then have still: "maybe_half_open o1 (call_time k) i = i"
    using Cons.prems(1,2) by (simp add: maybe_half_open_def)
  obtain t1 where i1: "ci_state i1 = Open" "ci_opened_at i1 = Some t1" "t0 \<le> t1"
  proof (cases k)
    case (Completed v ok)
    with 1 Cons.prems that [of t] that [of v] show ?thesis
      by (cases ok) (auto simp: circuit_on_success_def circuit_on_failure_def)
  qed (use 1 still Cons.prems(1-3) that [of t] in \<open>auto simp: circuit_admit_def circuit_state_of_def\<close>)
  show ?case
  proof (cases j)
    case 0
    with Cons.prems(6) have "k = Admit u" by simp
    with 1 still Cons.prems(1) have "a = Rejected Open" by (simp add: circuit_admit_def)
    with 0 1 show ?thesis by (simp split: prod.splits)
  next
    case (Suc j')
    from Cons.IH [OF i1] Cons.prems(4-6) Suc have "fst (circuit_run o1 ks i1) ! j' = Rejected Open" by simp
    with 1 Suc show ?thesis by (auto split: prod.splits)
  qed
qed simp

lemma probing_keeps_rejecting:
  "ci_state i = HalfOpen \<Longrightarrow> ci_probe i \<Longrightarrow> (\<forall>k \<in> set ks. \<forall>v ok. k \<noteq> Completed v ok) \<Longrightarrow>
     circuit_run o1 ks i =
       (map (\<lambda>k. case k of Admit v \<Rightarrow> Rejected HalfOpen | ReadState v \<Rightarrow> Shows HalfOpen | Completed v ok \<Rightarrow> Noted) ks, i)"
proof (induction ks)
  case (Cons k ks)
  then show ?case
    by (cases k) (auto simp: circuit_admit_def circuit_state_of_def maybe_half_open_def)
qed simp

definition probe_rounds :: "nat \<Rightarrow> nat \<Rightarrow> circuit_call list" where
  "probe_rounds n u = concat (replicate n [Admit u, Completed u True])"

lemma probe_rounds_close:
  "n + m = cbo_success_threshold o1 \<Longrightarrow> 0 < m \<Longrightarrow>
     contract_run o1 (probe_rounds m u) (Probing n False) = (concat (replicate m [Admitted, Noted]), Conducting 0)"
proof (induction m arbitrary: n)
  case (Suc m)
  show ?case
  proof (cases m)
    case 0
    with Suc.prems show ?thesis by (simp add: probe_rounds_def circuit_poll_def)
  next
    case (Suc m')
    with Suc.IH [of "Suc n"] Suc.prems show ?thesis by (simp add: probe_rounds_def circuit_poll_def)
  qed
qed simp

lemma tripped_recovers:
  assumes "t + cbo_cooldown o1 \<le> u" "0 < cbo_success_threshold o1"
  shows "contract_run o1 (probe_rounds (cbo_success_threshold o1) u) (Tripped t) =
    (concat (replicate (cbo_success_threshold o1) [Admitted, Noted]), Conducting 0)"
proof -
  obtain m where m: "cbo_success_threshold o1 = Suc m" using assms(2) by (cases "cbo_success_threshold o1") auto
  have "contract_step o1 (Admit u) (Tripped t) = contract_step o1 (Admit u) (Probing 0 False)"
    using assms(1) by (simp add: circuit_poll_def)
  then have "contract_run o1 (probe_rounds (Suc m) u) (Tripped t) =
      contract_run o1 (probe_rounds (Suc m) u) (Probing 0 False)"
    by (simp add: probe_rounds_def)
  with probe_rounds_close [of 0 "Suc m" o1 u] m show ?thesis by simp
qed

lemma circuit_run_ok: "circuit_ok o1 i \<Longrightarrow> circuit_ok o1 (snd (circuit_run o1 ks i))"
proof (induction ks arbitrary: i)
  case (Cons k ks)
  obtain a i1 where 1: "circuit_call_apply o1 k i = (a, i1)" by (cases "circuit_call_apply o1 k i")
  with circuit_step_refines [OF Cons.prems, of k] Cons.IH [of i1] show ?case by (auto split: prod.splits)
qed simp

text \<open>Evaluation of concrete runs; the 32-bit bound is a numeral that only \<open>simp\<close> can handle.\<close>

lemmas circuit_eval = circuit_breaker_new_def circuit_admit_def circuit_state_of_def circuit_on_success_def
  circuit_on_failure_def maybe_half_open_def saturating_add_u32_def u32_max_def with_success_threshold_def
  example_breaker_def Let_def

text \<open>No call is admitted at a time of the cooldown of a circuit that opened at \<open>t\<close>.\<close>

definition rejects_during_cooldown :: "circuit_breaker_options \<Rightarrow> nat \<Rightarrow> circuit_inner \<Rightarrow> bool" where
  "rejects_during_cooldown o1 t i \<longleftrightarrow>
     (\<forall>ks j v. (\<forall>k \<in> set ks. t \<le> call_time k \<and> call_time k < t + cbo_cooldown o1) \<longrightarrow>
        j < length ks \<longrightarrow> ks ! j = Admit v \<longrightarrow> fst (circuit_run o1 ks i) ! j = Rejected Open)"

definition probes_close :: "circuit_breaker_options \<Rightarrow> nat \<Rightarrow> circuit_inner \<Rightarrow> bool" where
  "probes_close o1 t i \<longleftrightarrow>
     (\<forall>u \<ge> t + cbo_cooldown o1. \<exists>i1.
        circuit_run o1 (probe_rounds (cbo_success_threshold o1) u) i =
          (concat (replicate (cbo_success_threshold o1) [Admitted, Noted]), i1) \<and> ci_state i1 = Closed)"

definition rejects_until_completion :: "circuit_breaker_options \<Rightarrow> circuit_inner \<Rightarrow> bool" where
  "rejects_until_completion o1 i \<longleftrightarrow>
     (\<forall>ks. (\<forall>k \<in> set ks. \<forall>v ok. k \<noteq> Completed v ok) \<longrightarrow> Admitted \<notin> set (fst (circuit_run o1 ks i)))"

lemma open_rejects: "ci_state i = Open \<Longrightarrow> ci_opened_at i = Some t \<Longrightarrow> rejects_during_cooldown o1 t i"
  unfolding rejects_during_cooldown_def by (blast intro: tripped_keeps_rejecting)

lemma open_closes:
  assumes "circuit_ok o1 i" "ci_state i = Open" "ci_opened_at i = Some t" "0 < cbo_success_threshold o1"
  shows "probes_close o1 t i"
  unfolding probes_close_def
proof (intro allI impI)
  fix u assume u: "u \<ge> t + cbo_cooldown o1"
  let ?ks = "probe_rounds (cbo_success_threshold o1) u"
  obtain as i1 where r: "circuit_run o1 ?ks i = (as, i1)" by (cases "circuit_run o1 ?ks i")
  have "circuit_abs i = Tripped t" using assms(2,3) by (simp add: circuit_abs_def)
  with circuit_run_refines [OF assms(1), of ?ks] tripped_recovers [OF u assms(4)] r
  have "as = concat (replicate (cbo_success_threshold o1) [Admitted, Noted])" "circuit_abs i1 = Conducting 0"
    by simp_all
  moreover from this(2) have "ci_state i1 = Closed" by (simp add: circuit_abs_def split: circuit_state.splits)
  ultimately show "\<exists>i1. circuit_run o1 ?ks i =
      (concat (replicate (cbo_success_threshold o1) [Admitted, Noted]), i1) \<and> ci_state i1 = Closed"
    using r by simp
qed

lemma probing_rejects: "ci_state i = HalfOpen \<Longrightarrow> ci_probe i \<Longrightarrow> rejects_until_completion o1 i"
  by (auto simp: rejects_until_completion_def probing_keeps_rejecting split: circuit_call.splits)

text \<open>
  In every state that calls on a new breaker can lead to: while an open circuit is
  younger than its cooldown no call is admitted, whatever completes in between; once it
  is older, as many successful probes as the success threshold asks for, one after
  another, are admitted and close the circuit; and a half open circuit with a probe
  outstanding admits no other call until some call completes.
\<close>

theorem circuit_isolates_and_recovers:
  assumes "cbo_failure_threshold o1 \<le> u32_max" "cbo_success_threshold o1 \<le> u32_max" "0 < cbo_success_threshold o1"
    "snd (circuit_run o1 ks circuit_breaker_new) = i"
  shows "(ci_state i = Open \<longrightarrow>
      (\<exists>t. ci_opened_at i = Some t \<and> rejects_during_cooldown o1 t i \<and> probes_close o1 t i))
    \<and> (ci_state i = HalfOpen \<and> ci_probe i \<longrightarrow> rejects_until_completion o1 i)"
proof -
  have ok: "circuit_ok o1 i"
    using circuit_run_ok [of o1 circuit_breaker_new ks] assms by (simp add: circuit_ok_def circuit_breaker_new_def)
  moreover from this have "ci_state i = Open \<Longrightarrow> \<exists>t. ci_opened_at i = Some t" by (auto simp: circuit_ok_def)
  ultimately show ?thesis using open_rejects open_closes [OF _ _ _ assms(3)] probing_rejects by blast
qed

theorem circuit_isolates_and_recovers_witness:
  "case circuit_run example_breaker [Completed 1 False, Completed 2 False] circuit_breaker_new of
     (as, i) \<Rightarrow> ci_opened_at i = Some 2 \<and> rejects_during_cooldown example_breaker 2 i \<and> probes_close example_breaker 2 i"
proof -
  let ?i = "\<lparr>ci_state = Open, ci_failures = 2, ci_successes = 0, ci_opened_at = Some 2, ci_probe = False\<rparr>"
  have r: "circuit_run example_breaker [Completed 1 False, Completed 2 False] circuit_breaker_new = ([Noted, Noted], ?i)"
    by (simp add: circuit_eval)
  have "(ci_state ?i = Open \<longrightarrow>
      (\<exists>t. ci_opened_at ?i = Some t \<and> rejects_during_cooldown example_breaker t ?i \<and> probes_close example_breaker t ?i))
    \<and> (ci_state ?i = HalfOpen \<and> ci_probe ?i \<longrightarrow> rejects_until_completion example_breaker ?i)"
    by (rule circuit_isolates_and_recovers [where ks = "[Completed 1 False, Completed 2 False]"], simp_all only: r snd_conv)
      (simp_all add: example_breaker_def u32_max_def)
  then show ?thesis unfolding r by simp
qed

text \<open>
  A call that was admitted before the circuit opened and completes while it is half open
  ends the probe: the next call is admitted although the probe has not completed.
\<close>

lemma stale_completion_frees_probe:
  "fst (circuit_run (with_success_threshold 2 example_breaker)
      [Admit 0, Completed 1 False, Completed 2 False, Admit 7, Completed 8 True, Admit 9] circuit_breaker_new) =
    [Admitted, Noted, Noted, Admitted, Noted, Admitted]"
  by (simp add: circuit_eval)

section \<open>The bulkhead\<close>

record bulkhead_options =
  bko_max_concurrent :: nat

definition bulkhead_options_default :: bulkhead_options where
  "bulkhead_options_default = \<lparr>bko_max_concurrent = 64\<rparr>"

text \<open>
  A caller of \<open>try_acquire\<close> is between two calls, at the head of the loop, has loaded a
  value, or holds a permit. The states of all callers and the counter form the world, and a
  move is one atomic operation of one caller: the load with the comparison that follows it,
  the compare-and-exchange, or the drop of the permit.
\<close>

datatype bulkhead_caller = BkIdle | BkTrying | BkLoaded nat | BkHolding

record bulkhead_world =
  bk_in_flight :: nat
  bk_callers :: "bulkhead_caller list"

datatype bulkhead_move = BkCall | BkLoad | BkExchange | BkDrop

definition bulkhead_new :: "nat \<Rightarrow> bulkhead_world" where
  "bulkhead_new n = \<lparr>bk_in_flight = 0, bk_callers = replicate n BkIdle\<rparr>"

definition set_caller :: "nat \<Rightarrow> bulkhead_caller \<Rightarrow> bulkhead_world \<Rightarrow> bulkhead_world" where
  "set_caller t c s = s\<lparr>bk_callers := (bk_callers s)[t := c]\<rparr>"

fun bulkhead_move_apply ::
  "bulkhead_options \<Rightarrow> nat \<Rightarrow> bulkhead_move \<Rightarrow> bulkhead_caller \<Rightarrow> bulkhead_world \<Rightarrow> bulkhead_world option" where
  "bulkhead_move_apply o1 t BkCall BkIdle s = Some (set_caller t BkTrying s)"
| "bulkhead_move_apply o1 t BkLoad BkTrying s =
     Some (set_caller t (if bk_in_flight s \<ge> bko_max_concurrent o1 then BkIdle else BkLoaded (bk_in_flight s)) s)"
| "bulkhead_move_apply o1 t BkExchange (BkLoaded current) s =
     Some (if bk_in_flight s = current
           then set_caller t BkHolding (s\<lparr>bk_in_flight := current + 1\<rparr>)
           else set_caller t BkTrying s)"
| "bulkhead_move_apply o1 t BkDrop BkHolding s = Some (set_caller t BkIdle (s\<lparr>bk_in_flight := bk_in_flight s - 1\<rparr>))"
| "bulkhead_move_apply o1 t mv c s = None"

definition bulkhead_step ::
  "bulkhead_options \<Rightarrow> nat \<Rightarrow> bulkhead_move \<Rightarrow> bulkhead_world \<Rightarrow> bulkhead_world option" where
  "bulkhead_step o1 t mv s =
     (if t < length (bk_callers s) then bulkhead_move_apply o1 t mv (bk_callers s ! t) s else None)"

inductive bulkhead_reachable :: "bulkhead_options \<Rightarrow> nat \<Rightarrow> bulkhead_world \<Rightarrow> bool" for o1 n where
  bulkhead_start: "bulkhead_reachable o1 n (bulkhead_new n)"
| bulkhead_move: "bulkhead_reachable o1 n s \<Longrightarrow> bulkhead_step o1 t mv s = Some s' \<Longrightarrow> bulkhead_reachable o1 n s'"

definition permits :: "bulkhead_world \<Rightarrow> nat" where
  "permits s = length (filter (\<lambda>c. c = BkHolding) (bk_callers s))"

lemma filter_update_count:
  "t < length cs \<Longrightarrow>
     length (filter P (cs[t := c])) + (if P (cs ! t) then 1 else 0) = length (filter P cs) + (if P c then 1 else 0)"
proof (induction cs arbitrary: t)
  case (Cons x cs)
  show ?case
  proof (cases t)
    case (Suc t')
    with Cons.IH [of t'] Cons.prems show ?thesis by simp
  qed simp
qed simp

definition bulkhead_ok :: "bulkhead_options \<Rightarrow> bulkhead_world \<Rightarrow> bool" where
  "bulkhead_ok o1 s \<longleftrightarrow> bk_in_flight s = permits s \<and> bk_in_flight s \<le> bko_max_concurrent o1 \<and>
     (\<forall>current. BkLoaded current \<in> set (bk_callers s) \<longrightarrow> current < bko_max_concurrent o1)"

lemma set_update_cases: "x \<in> set (cs[t := c]) \<Longrightarrow> x = c \<or> x \<in> set cs"
  using set_update_subset_insert [of cs t c] by auto

lemma bulkhead_step_ok:
  assumes "bulkhead_step o1 t mv s = Some s'" "bulkhead_ok o1 s"
  shows "bulkhead_ok o1 s' \<and> length (bk_callers s') = length (bk_callers s)"
proof -
  have t: "t < length (bk_callers s)" using assms(1) by (simp add: bulkhead_step_def split: if_splits)
  note count = filter_update_count [OF t, of "\<lambda>c. c = BkHolding"]
  have loaded: "current < bko_max_concurrent o1" if "bk_callers s ! t = BkLoaded current" for current
    using assms(2) t that nth_mem [OF t] by (auto simp: bulkhead_ok_def)
  from assms t show ?thesis
    by (cases mv; cases "bk_callers s ! t")
      (use count [of BkIdle] count [of BkTrying] count [of BkHolding] count [of "BkLoaded (permits s)"] loaded in
        \<open>auto simp: bulkhead_step_def bulkhead_ok_def permits_def set_caller_def
         split: if_splits dest!: set_update_cases\<close>)
qed

lemma bulkhead_reachable_ok: "bulkhead_reachable o1 n s \<Longrightarrow> bulkhead_ok o1 s"
  by (induction rule: bulkhead_reachable.induct)
    (auto dest: bulkhead_step_ok simp: bulkhead_ok_def bulkhead_new_def permits_def)

text \<open>
  C20. However the concurrent callers of a bulkhead interleave: the counter is the number of
  permits held, which never exceeds the limit; a caller is turned away only at a moment
  at which all permits are held; and a caller that runs alone below the limit gets a permit
  with its next load and exchange, so the retry loop ends unless others make progress.
\<close>

theorem bulkhead_bound:
  assumes "bulkhead_reachable o1 n s"
  shows "bk_in_flight s = permits s \<and> permits s \<le> bko_max_concurrent o1
    \<and> (\<forall>t s'. bulkhead_step o1 t BkLoad s = Some s' \<longrightarrow> bk_callers s' ! t = BkIdle \<longrightarrow>
        permits s = bko_max_concurrent o1)
    \<and> (\<forall>t. t < length (bk_callers s) \<longrightarrow> bk_callers s ! t = BkTrying \<longrightarrow> permits s < bko_max_concurrent o1 \<longrightarrow>
        (\<exists>s1 s2. bulkhead_step o1 t BkLoad s = Some s1 \<and> bulkhead_step o1 t BkExchange s1 = Some s2 \<and>
           bk_callers s2 ! t = BkHolding))"
proof -
  have ok: "bulkhead_ok o1 s" by (rule bulkhead_reachable_ok [OF assms])
  have "permits s = bko_max_concurrent o1"
    if "bulkhead_step o1 t BkLoad s = Some s'" "bk_callers s' ! t = BkIdle" for t s'
    using that ok
    by (cases "bk_callers s ! t") (auto simp: bulkhead_step_def bulkhead_ok_def set_caller_def split: if_splits)
  moreover have "\<exists>s1 s2. bulkhead_step o1 t BkLoad s = Some s1 \<and> bulkhead_step o1 t BkExchange s1 = Some s2 \<and>
      bk_callers s2 ! t = BkHolding"
    if "t < length (bk_callers s)" "bk_callers s ! t = BkTrying" "permits s < bko_max_concurrent o1" for t
    using that ok by (simp add: bulkhead_step_def bulkhead_ok_def set_caller_def)
  ultimately show ?thesis using ok by (simp add: bulkhead_ok_def)
qed

theorem bulkhead_bound_witness:
  "permits \<lparr>bk_in_flight = 1, bk_callers = [BkHolding, BkTrying]\<rparr> \<le> 1"
proof -
  let ?o = "\<lparr>bko_max_concurrent = 1\<rparr>"
  have 1: "bulkhead_reachable ?o 2 \<lparr>bk_in_flight = 0, bk_callers = [BkTrying, BkIdle]\<rparr>"
    by (rule bulkhead_move [OF bulkhead_start, where t = 0 and mv = BkCall]) code_simp
  have 2: "bulkhead_reachable ?o 2 \<lparr>bk_in_flight = 0, bk_callers = [BkLoaded 0, BkIdle]\<rparr>"
    by (rule bulkhead_move [OF 1, where t = 0 and mv = BkLoad]) code_simp
  have 3: "bulkhead_reachable ?o 2 \<lparr>bk_in_flight = 1, bk_callers = [BkHolding, BkIdle]\<rparr>"
    by (rule bulkhead_move [OF 2, where t = 0 and mv = BkExchange]) code_simp
  have 4: "bulkhead_reachable ?o 2 \<lparr>bk_in_flight = 1, bk_callers = [BkHolding, BkTrying]\<rparr>"
    by (rule bulkhead_move [OF 3, where t = 1 and mv = BkCall]) code_simp
  from bulkhead_bound [OF 4] show ?thesis by simp
qed

section \<open>Retries and fallbacks\<close>

datatype retry_classifier = TransientHttp | NeverRetry

text \<open>
  The delay before an attempt is a product of floating point numbers; the policy takes it as
  the function \<open>scaled\<close> of the attempt.
\<close>

record retry_options =
  ro_max_retries :: "32 word"
  ro_scaled :: "32 word \<Rightarrow> nat"
  ro_max_delay :: nat
  ro_classifier :: retry_classifier

definition with_max_retries :: "32 word \<Rightarrow> retry_options \<Rightarrow> retry_options" where
  "with_max_retries n r = r\<lparr>ro_max_retries := n\<rparr>"

definition delay_for_attempt :: "retry_options \<Rightarrow> 32 word \<Rightarrow> nat" where
  "delay_for_attempt r attempt =
     (if attempt = 0 then 0 else min (ro_scaled r attempt) (ro_max_delay r))"

definition should_retry_status :: "retry_options \<Rightarrow> nat \<Rightarrow> 32 word \<Rightarrow> bool" where
  "should_retry_status r status attempt =
     (if attempt \<ge> ro_max_retries r then False
      else (case ro_classifier r of
              NeverRetry \<Rightarrow> False
            | TransientHttp \<Rightarrow> status = 408 \<or> status = 429 \<or> (500 \<le> status \<and> status \<le> 599)))"

definition should_retry_error :: "retry_options \<Rightarrow> 32 word \<Rightarrow> bool" where
  "should_retry_error r attempt =
     (if attempt \<ge> ro_max_retries r then False else ro_classifier r \<noteq> NeverRetry)"

record fallback_response =
  fb_status :: nat
  fb_body :: str
  fb_content_type :: str

definition fallback_json :: "nat \<Rightarrow> str \<Rightarrow> fallback_response" where
  "fallback_json status body = \<lparr>fb_status = status, fb_body = body, fb_content_type = ''application/json''\<rparr>"

definition fallback_text :: "nat \<Rightarrow> str \<Rightarrow> fallback_response" where
  "fallback_text status body =
     \<lparr>fb_status = status, fb_body = body, fb_content_type = ''text/plain; charset=utf-8''\<rparr>"

record degrade_policy =
  dp_fallback :: fallback_response
  dp_on_circuit_open :: bool
  dp_on_exhausted_retries :: bool

definition degrade_policy_new :: "fallback_response \<Rightarrow> degrade_policy" where
  "degrade_policy_new fb = \<lparr>dp_fallback = fb, dp_on_circuit_open = True, dp_on_exhausted_retries = True\<rparr>"

definition with_on_circuit_open :: "bool \<Rightarrow> degrade_policy \<Rightarrow> degrade_policy" where
  "with_on_circuit_open b p = p\<lparr>dp_on_circuit_open := b\<rparr>"

definition with_on_exhausted_retries :: "bool \<Rightarrow> degrade_policy \<Rightarrow> degrade_policy" where
  "with_on_exhausted_retries b p = p\<lparr>dp_on_exhausted_retries := b\<rparr>"

lemma retry_needs_budget:
  "should_retry_status r status attempt \<Longrightarrow> attempt < ro_max_retries r"
  "should_retry_error r attempt \<Longrightarrow> attempt < ro_max_retries r"
  by (auto simp: should_retry_status_def should_retry_error_def split: if_splits)

text \<open>\<open>saturating_add(1)\<close> on the attempt counter, and its growth below a bound.\<close>

definition next_attempt :: "32 word \<Rightarrow> 32 word" where
  "next_attempt attempt = (if attempt = - 1 then attempt else attempt + 1)"

lemma unat_next_attempt: "attempt < n \<Longrightarrow> unat (next_attempt attempt) = Suc (unat attempt)"
proof -
  assume "attempt < n"
  then have "attempt \<noteq> - 1" by (metis word_order.extremum_strict)
  then have "1 + attempt \<noteq> 0" by (metis add.commute add_eq_0_iff2 add.inverse_inverse)
  then have "unat (1 + attempt) = Suc (unat attempt)" by (rule unatSuc)
  with \<open>attempt \<noteq> - 1\<close> show ?thesis by (simp add: next_attempt_def add.commute)
qed

end
