(* ===== verification/Service_Client.thy ===== *)
theory Service_Client
  imports Resilience Http_Basics
begin

text \<open>
  Calls to other services (\<open>src/service_client.rs\<close>, \<open>src/service_discovery/mod.rs\<close>,
  \<open>src/http_client.rs\<close>): the static registry of instances, the load balancer, the outbound
  request and the call that composes them with the bulkhead, the circuit breaker, the
  retries and the fallback of \<^theory_text>\<open>Resilience\<close>. The discovery backend and the HTTP backend are
  trait objects and parameters of the model. While a call waits, other calls on the same
  client run: the backend and the sleep therefore act on the shared state of the client
  too.
\<close>

section \<open>Instances of services\<close>

record service_instance =
  si_service :: str
  si_id :: str
  si_address :: str
  si_port :: nat
  si_healthy :: bool

definition service_instance_new :: "str \<Rightarrow> str \<Rightarrow> str \<Rightarrow> nat \<Rightarrow> service_instance" where
  "service_instance_new service ident address port =
     \<lparr>si_service = service, si_id = ident, si_address = address, si_port = port, si_healthy = True\<rparr>"

definition with_healthy :: "bool \<Rightarrow> service_instance \<Rightarrow> service_instance" where
  "with_healthy h i = i\<lparr>si_healthy := h\<rparr>"

fun contains_str :: "str \<Rightarrow> str \<Rightarrow> bool" where
  "contains_str p [] = (p = [])"
| "contains_str p (c # s) = (starts_with p (c # s) \<or> contains_str p s)"

definition base_url :: "service_instance \<Rightarrow> str" where
  "base_url i =
     (if contains_str ''://'' (si_address i)
      then trim_end_char CHR ''/'' (si_address i) @ '':'' @ show_nat (si_port i)
      else ''http://'' @ si_address i @ '':'' @ show_nat (si_port i))"

text \<open>The in-memory registry: the instances of every service, in the order of their first registration.\<close>

type_synonym service_registry = "(str, service_instance list) btree"

fun replace_instance :: "service_instance \<Rightarrow> service_instance list \<Rightarrow> service_instance list" where
  "replace_instance i [] = [i]"
| "replace_instance i (x # xs) = (if si_id x = si_id i then i # xs else x # replace_instance i xs)"

definition instances_at :: "service_registry \<Rightarrow> str \<Rightarrow> service_instance list" where
  "instances_at reg service = (case bt_get reg service of Some is \<Rightarrow> is | None \<Rightarrow> [])"

definition discovery_upsert :: "service_instance \<Rightarrow> service_registry \<Rightarrow> boot_error + service_registry" where
  "discovery_upsert i reg =
     (if si_service i = [] then Inl (BadRequest ''service discovery instance service name cannot be empty'')
      else Inr (bt_insert (si_service i) (replace_instance i (instances_at reg (si_service i))) reg))"

definition discovery_remove :: "str \<Rightarrow> str \<Rightarrow> service_registry \<Rightarrow> service_registry" where
  "discovery_remove service ident reg =
     (case bt_get reg service of
        None \<Rightarrow> reg
      | Some is \<Rightarrow>
          (let rest = filter (\<lambda>i. si_id i \<noteq> ident) is in
           if rest = [] then bt_remove service reg else bt_insert service rest reg))"

definition discovery_instances :: "service_registry \<Rightarrow> str \<Rightarrow> service_instance list" where
  "discovery_instances reg service = filter si_healthy (instances_at reg service)"

datatype discovery_call = Upsert service_instance | RemoveInstance str str

definition discovery_apply :: "discovery_call \<Rightarrow> service_registry \<Rightarrow> service_registry" where
  "discovery_apply c reg =
     (case c of
        Upsert i \<Rightarrow> (case discovery_upsert i reg of Inr reg' \<Rightarrow> reg' | Inl _ \<Rightarrow> reg)
      | RemoveInstance service ident \<Rightarrow> discovery_remove service ident reg)"

text \<open>The registration of one identifier that a history of calls leaves behind.\<close>

definition registration_step ::
  "discovery_call \<Rightarrow> str \<Rightarrow> str \<Rightarrow> service_instance option \<Rightarrow> service_instance option" where
  "registration_step c service ident cur =
     (case c of
        Upsert i \<Rightarrow> if si_service i = service \<and> si_id i = ident \<and> service \<noteq> [] then Some i else cur
      | RemoveInstance s k \<Rightarrow> if s = service \<and> k = ident then None else cur)"

fun last_registration :: "str \<Rightarrow> str \<Rightarrow> discovery_call list \<Rightarrow> service_instance option \<Rightarrow> service_instance option" where
  "last_registration service ident [] cur = cur"
| "last_registration service ident (c # cs) cur =
     last_registration service ident cs (registration_step c service ident cur)"

definition registry_holds :: "service_registry \<Rightarrow> (str \<Rightarrow> str \<Rightarrow> service_instance option) \<Rightarrow> bool" where
  "registry_holds reg reg_of \<longleftrightarrow> bt_wf reg \<and>
     (\<forall>service. distinct (map si_id (instances_at reg service)) \<and>
        (\<forall>ident i. reg_of service ident = Some i \<longleftrightarrow> i \<in> set (instances_at reg service) \<and> si_id i = ident))"

lemma replace_instance_ids:
  "set (map si_id (replace_instance i is)) = insert (si_id i) (set (map si_id is))"
  by (induction "is") auto

lemma replace_instance_distinct: "distinct (map si_id is) \<Longrightarrow> distinct (map si_id (replace_instance i is))"
  by (induction "is") (auto simp: replace_instance_ids simp flip: set_map)

lemma replace_instance_mem:
  "distinct (map si_id is) \<Longrightarrow>
     j \<in> set (replace_instance i is) \<longleftrightarrow> j = i \<or> (j \<in> set is \<and> si_id j \<noteq> si_id i)"
  by (induction "is") (auto simp: rev_image_eqI)

lemma instances_at_insert [simp]:
  "instances_at (bt_insert s is reg) t = (if t = s then is else instances_at reg t)"
  by (simp add: instances_at_def)

lemma instances_at_remove [simp]:
  "instances_at (bt_remove s reg) t = (if t = s then [] else instances_at reg t)"
  by (simp add: instances_at_def)

lemma registry_holds_upsert:
  assumes "registry_holds reg reg_of" "si_service i \<noteq> []"
  shows "registry_holds (bt_insert (si_service i) (replace_instance i (instances_at reg (si_service i))) reg)
    (\<lambda>s k. if s = si_service i \<and> k = si_id i then Some i else reg_of s k)"
  unfolding registry_holds_def
proof (intro conjI allI)
  from assms(1) show "bt_wf (bt_insert (si_service i) (replace_instance i (instances_at reg (si_service i))) reg)"
    by (simp add: registry_holds_def)
  fix service
  have d: "distinct (map si_id (instances_at reg service))"
    and m: "\<And>k j. reg_of service k = Some j \<longleftrightarrow> j \<in> set (instances_at reg service) \<and> si_id j = k"
    using assms(1) unfolding registry_holds_def by blast+
  from d show "distinct (map si_id (instances_at (bt_insert (si_service i)
      (replace_instance i (instances_at reg (si_service i))) reg) service))"
    by (auto intro: replace_instance_distinct)
  fix ident j
  from m [of ident j] replace_instance_mem [OF d, of j i]
  show "(if service = si_service i \<and> ident = si_id i then Some i else reg_of service ident) = Some j \<longleftrightarrow>
      j \<in> set (instances_at (bt_insert (si_service i) (replace_instance i (instances_at reg (si_service i))) reg) service)
      \<and> si_id j = ident"
    by auto
qed

lemma registry_holds_remove:
  assumes "registry_holds reg reg_of"
  shows "registry_holds (discovery_remove s k reg) (\<lambda>s' k'. if s' = s \<and> k' = k then None else reg_of s' k')"
proof -
  have at: "instances_at (discovery_remove s k reg) t =
      (if t = s then filter (\<lambda>i. si_id i \<noteq> k) (instances_at reg t) else instances_at reg t)" for t
    by (auto simp: discovery_remove_def Let_def split: option.splits) (auto simp: instances_at_def)
  have "bt_wf (discovery_remove s k reg)"
    using assms by (auto simp: registry_holds_def discovery_remove_def Let_def split: option.splits)
  with assms show ?thesis unfolding registry_holds_def
    by (auto simp: at distinct_map_filter)
qed

lemma registry_holds_apply:
  assumes "registry_holds reg reg_of"
  shows "registry_holds (discovery_apply c reg) (\<lambda>s k. registration_step c s k (reg_of s k))"
proof (cases c)
  case (Upsert i)
  show ?thesis
  proof (cases "si_service i = []")
    case True
    with Upsert have "(\<lambda>s k. registration_step c s k (reg_of s k)) = reg_of"
      by (auto simp: fun_eq_iff registration_step_def)
    with assms Upsert True show ?thesis by (simp add: discovery_apply_def discovery_upsert_def)
  next
    case False
    with Upsert have "(\<lambda>s k. registration_step c s k (reg_of s k)) =
        (\<lambda>s k. if s = si_service i \<and> k = si_id i then Some i else reg_of s k)"
      by (auto simp: fun_eq_iff registration_step_def)
    with registry_holds_upsert [OF assms False] Upsert False show ?thesis
      by (simp add: discovery_apply_def discovery_upsert_def)
  qed
next
  case (RemoveInstance s k)
  then have "(\<lambda>s' k'. registration_step c s' k' (reg_of s' k')) =
      (\<lambda>s' k'. if s' = s \<and> k' = k then None else reg_of s' k')"
    by (auto simp: fun_eq_iff registration_step_def)
  with registry_holds_remove [OF assms, of s k] RemoveInstance show ?thesis by (simp add: discovery_apply_def)
qed

lemma discovery_run_holds:
  "registry_holds reg reg_of \<Longrightarrow>
     registry_holds (fold discovery_apply cs reg) (\<lambda>s k. last_registration s k cs (reg_of s k))"
proof (induction cs arbitrary: reg reg_of)
  case (Cons c cs)
  from Cons.IH [OF registry_holds_apply [OF Cons.prems]] show ?case by simp
qed simp

lemma registry_holds_empty: "registry_holds [] (\<lambda>s k. None)"
  by (simp add: registry_holds_def instances_at_def)

section \<open>The load balancer\<close>

datatype service_balance_strategy = RoundRobin | FirstHealthy

text \<open>The cursor is an atomic counter of 64 bits that wraps around.\<close>

definition usize_modulus :: nat where
  "usize_modulus = 2 ^ 64"

definition no_healthy_instances :: "str \<Rightarrow> boot_error" where
  "no_healthy_instances service =
     ServiceUnavailable (''no healthy instances for service '' @ [CHR 0x27] @ service @ [CHR 0x27])"

definition balancer_select ::
  "service_balance_strategy \<Rightarrow> str \<Rightarrow> boot_error + service_instance list \<Rightarrow> nat
     \<Rightarrow> (boot_error + service_instance) \<times> nat" where
  "balancer_select strategy service answer cursor =
     (case answer of
        Inl err \<Rightarrow> (Inl err, cursor)
      | Inr is \<Rightarrow>
          if is = [] then (Inl (no_healthy_instances service), cursor)
          else (case strategy of
                  FirstHealthy \<Rightarrow> (Inr (is ! 0), cursor)
                | RoundRobin \<Rightarrow> (Inr (is ! (cursor mod length is)), (cursor + 1) mod usize_modulus)))"

fun balancer_selects ::
  "nat \<Rightarrow> str \<Rightarrow> service_instance list \<Rightarrow> nat \<Rightarrow> (boot_error + service_instance) list" where
  "balancer_selects 0 service is cursor = []"
| "balancer_selects (Suc n) service is cursor =
     (case balancer_select RoundRobin service (Inr is) cursor of
        (r, cursor') \<Rightarrow> r # balancer_selects n service is cursor')"

lemma balancer_selects_nth:
  "is \<noteq> [] \<Longrightarrow> cursor + n \<le> usize_modulus \<Longrightarrow>
     balancer_selects n service is cursor = map (\<lambda>k. Inr (is ! ((cursor + k) mod length is))) [0..<n]"
proof (induction n arbitrary: cursor)
  case (Suc n)
  show ?case
  proof (cases n)
    case 0
    with Suc.prems show ?thesis by (simp add: balancer_select_def)
  next
    case (Suc n')
    with Suc.prems have c: "(cursor + 1) mod usize_modulus = cursor + 1" by simp
    have "map (\<lambda>k. Inr (is ! ((cursor + k) mod length is))) [0..<Suc n] =
        (Inr (is ! (cursor mod length is)) :: boot_error + service_instance) # map (\<lambda>k. Inr (is ! ((cursor + 1 + k) mod length is))) [0..<n]"
      by (simp add: map_upt_Suc del: upt_Suc)
    with Suc.IH [of "cursor + 1"] Suc.prems c show ?thesis by (simp add: balancer_select_def del: upt_Suc)
  qed
qed simp

lemma rotation_permutes:
  assumes "0 < n"
  shows "bij_betw (\<lambda>k. (c + k) mod n) {0..<n} {0..<n::nat}"
proof -
  have "inj_on (\<lambda>k. (c + k) mod n) {0..<n}"
  proof (rule inj_onI)
    fix j k assume jk: "j \<in> {0..<n}" "k \<in> {0..<n}" "(c + j) mod n = (c + k) mod n"
    then obtain q1 q2 where "c + j + n * q1 = c + k + n * q2" by (auto simp: nat_mod_eq_iff)
    then have "j + n * q1 = k + n * q2" by simp
    then have "j mod n = k mod n" unfolding nat_mod_eq_iff by blast
    with jk show "j = k" by simp
  qed
  moreover have "(\<lambda>k. (c + k) mod n) ` {0..<n} \<subseteq> {0..<n}" using assms by auto
  ultimately show ?thesis by (simp add: bij_betw_def endo_inj_surj)
qed

lemma balancer_round:
  assumes "is \<noteq> []" "distinct is" "cursor + length is \<le> usize_modulus"
  shows "distinct (balancer_selects (length is) service is cursor) \<and>
    set (balancer_selects (length is) service is cursor) = Inr ` set is"
proof -
  let ?p = "\<lambda>k. (cursor + k) mod length is"
  have bij: "bij_betw ?p {0..<length is} {0..<length is}" using assms(1) by (intro rotation_permutes) simp
  have nth: "balancer_selects (length is) service is cursor = map (\<lambda>k. Inr (is ! ?p k)) [0..<length is]"
    by (rule balancer_selects_nth) (use assms in auto)
  have "set (map (\<lambda>k. is ! ?p k) [0..<length is]) = (\<lambda>k. is ! k) ` ?p ` {0..<length is}"
    by (auto simp: image_image)
  also have "\<dots> = (\<lambda>k. is ! k) ` {0..<length is}" using bij by (simp add: bij_betw_def)
  also have "\<dots> = set is" by (auto simp: set_conv_nth)
  finally have set_map_nth: "set (map (\<lambda>k. is ! ?p k) [0..<length is]) = set is" .
  then have "card (set (map (\<lambda>k. is ! ?p k) [0..<length is])) = length is" using assms(2) by (simp add: distinct_card)
  then have "distinct (map (\<lambda>k. is ! ?p k) [0..<length is])" by (intro card_distinct) simp
  then have "distinct (map Inr (map (\<lambda>k. is ! ?p k) [0..<length is]))"
    by (simp only: distinct_map [of Inr] inj_on_def sum.inject) simp
  moreover have "set (map Inr (map (\<lambda>k. is ! ?p k) [0..<length is])) = Inr ` set is"
    by (simp only: set_map set_map_nth [unfolded set_map])
  moreover have "balancer_selects (length is) service is cursor = map Inr (map (\<lambda>k. is ! ?p k) [0..<length is])"
    by (simp add: nth)
  ultimately show ?thesis by simp
qed

text \<open>
  After any history of registrations and removals, one round of selections of the round
  robin balancer (as many as there are healthy instances) yields every instance that the
  history left registered and healthy exactly once, and no other one, provided that the
  64-bit cursor does not wrap in this round.
\<close>

theorem balancer_fair:
  assumes "discovery_instances (fold discovery_apply cs []) service = is" "is \<noteq> []"
    "cursor + length is \<le> usize_modulus"
  shows "distinct (balancer_selects (length is) service is cursor)
    \<and> set (balancer_selects (length is) service is cursor) =
        {Inr i | i. si_healthy i \<and> last_registration service (si_id i) cs None = Some i}"
proof -
  let ?reg = "fold discovery_apply cs []"
  have h: "registry_holds ?reg (\<lambda>s k. last_registration s k cs None)"
    by (rule discovery_run_holds [OF registry_holds_empty])
  then have "distinct (map si_id (instances_at ?reg service))" unfolding registry_holds_def by blast
  then have d: "distinct (map si_id is)" unfolding assms(1) [symmetric] discovery_instances_def
    by (rule distinct_map_filter)
  then have "distinct is" by (simp add: distinct_map)
  moreover have "i \<in> set is \<longleftrightarrow> si_healthy i \<and> last_registration service (si_id i) cs None = Some i" for i
  proof -
    have "last_registration service (si_id i) cs None = Some i \<longleftrightarrow> i \<in> set (instances_at ?reg service) \<and> si_id i = si_id i"
      using h unfolding registry_holds_def by blast
    then show ?thesis unfolding assms(1) [symmetric] discovery_instances_def by auto
  qed
  ultimately show ?thesis using balancer_round [OF assms(2) _ assms(3)] by auto
qed

theorem balancer_fair_witness:
  "balancer_selects 2 ''billing''
     (discovery_instances (fold discovery_apply
        [Upsert (service_instance_new ''billing'' ''a'' ''10.0.0.1'' 80),
         Upsert (service_instance_new ''billing'' ''b'' ''10.0.0.2'' 80),
         Upsert (with_healthy False (service_instance_new ''billing'' ''c'' ''10.0.0.3'' 80))] []) ''billing'') 0
   = [Inr (service_instance_new ''billing'' ''a'' ''10.0.0.1'' 80), Inr (service_instance_new ''billing'' ''b'' ''10.0.0.2'' 80)]
   \<and> distinct (balancer_selects 2 ''billing''
      [service_instance_new ''billing'' ''a'' ''10.0.0.1'' 80, service_instance_new ''billing'' ''b'' ''10.0.0.2'' 80] 0)"
proof -
  let ?cs = "[Upsert (service_instance_new ''billing'' ''a'' ''10.0.0.1'' 80),
         Upsert (service_instance_new ''billing'' ''b'' ''10.0.0.2'' 80),
         Upsert (with_healthy False (service_instance_new ''billing'' ''c'' ''10.0.0.3'' 80))]"
  let ?is = "[service_instance_new ''billing'' ''a'' ''10.0.0.1'' 80, service_instance_new ''billing'' ''b'' ''10.0.0.2'' 80]"
  have here: "discovery_instances (fold discovery_apply ?cs []) ''billing'' = ?is" by code_simp
  have "distinct (balancer_selects (length ?is) ''billing'' ?is 0)"
    using balancer_fair [OF here, of 0] by (simp add: usize_modulus_def)
  then have d: "distinct (balancer_selects 2 ''billing'' ?is 0)" by (simp add: numeral_2_eq_2)
  have s: "balancer_selects 2 ''billing'' ?is 0 = [Inr (?is ! 0), Inr (?is ! 1)]"
    by (simp add: numeral_2_eq_2 balancer_select_def usize_modulus_def)
  from here d s show ?thesis by simp
qed

section \<open>Outbound requests and responses\<close>

record http_client_options =
  hco_base_url :: "str option"
  hco_headers :: "(str, str) btree"
  hco_timeout :: "nat option"

definition http_client_options_default :: http_client_options where
  "http_client_options_default = \<lparr>hco_base_url = None, hco_headers = [], hco_timeout = None\<rparr>"

definition client_header_name :: "str \<Rightarrow> str" where
  "client_header_name name = to_ascii_lowercase (trim name)"

definition options_with_header :: "str \<Rightarrow> str \<Rightarrow> http_client_options \<Rightarrow> http_client_options" where
  "options_with_header name v o1 = o1\<lparr>hco_headers := bt_insert (client_header_name name) v (hco_headers o1)\<rparr>"

record http_client_request =
  hcr_method :: http_method
  hcr_url :: str
  hcr_headers :: "(str, str) btree"
  hcr_body :: str
  hcr_timeout :: "nat option"

definition client_request_new :: "http_method \<Rightarrow> str \<Rightarrow> http_client_request" where
  "client_request_new m url = \<lparr>hcr_method = m, hcr_url = url, hcr_headers = [], hcr_body = [], hcr_timeout = None\<rparr>"

definition client_request_header :: "http_client_request \<Rightarrow> str \<Rightarrow> str option" where
  "client_request_header r name = bt_get (hcr_headers r) (client_header_name name)"

definition client_with_url :: "str \<Rightarrow> http_client_request \<Rightarrow> http_client_request" where
  "client_with_url url r = r\<lparr>hcr_url := url\<rparr>"

definition client_with_header :: "str \<Rightarrow> str \<Rightarrow> http_client_request \<Rightarrow> http_client_request" where
  "client_with_header name v r = r\<lparr>hcr_headers := bt_insert (client_header_name name) v (hcr_headers r)\<rparr>"

definition client_with_text :: "str \<Rightarrow> http_client_request \<Rightarrow> http_client_request" where
  "client_with_text body r = client_with_header ''content-type'' ''text/plain; charset=utf-8'' (r\<lparr>hcr_body := body\<rparr>)"

definition client_with_timeout :: "nat \<Rightarrow> http_client_request \<Rightarrow> http_client_request" where
  "client_with_timeout t r = r\<lparr>hcr_timeout := Some t\<rparr>"

definition is_absolute_http_url :: "str \<Rightarrow> bool" where
  "is_absolute_http_url url \<longleftrightarrow> starts_with ''http://'' url \<or> starts_with ''https://'' url"

definition resolve_url :: "str option \<Rightarrow> str \<Rightarrow> boot_error + str" where
  "resolve_url base url =
     (if is_absolute_http_url url then Inr url
      else (case base of
              None \<Rightarrow> Inl (BadRequest (''relative HTTP client URL `'' @ url @ ''` requires a base URL''))
            | Some b \<Rightarrow>
                (let base = trim_end_char CHR ''/'' b; path = trim_start_char CHR ''/'' url in
                 if path = [] then Inr base else Inr (base @ ''/'' @ path))))"

text \<open>Headers of the options are added where the request has none of that name.\<close>

definition apply_options :: "http_client_options \<Rightarrow> http_client_request \<Rightarrow> boot_error + http_client_request" where
  "apply_options o1 r =
     rmap (\<lambda>url. r\<lparr>hcr_url := url,
            hcr_headers := fold (\<lambda>(n, v) hs. if bt_get hs n = None then bt_insert n v hs else hs)
                             (hco_headers o1) (hcr_headers r),
            hcr_timeout := (if hcr_timeout r = None then hco_timeout o1 else hcr_timeout r)\<rparr>)
       (resolve_url (hco_base_url o1) (hcr_url r))"

record http_client_response =
  hcs_status :: nat
  hcs_headers :: "(str, str list) btree"
  hcs_body :: str

definition client_response_new :: "nat \<Rightarrow> str \<Rightarrow> http_client_response" where
  "client_response_new status body = \<lparr>hcs_status = status, hcs_headers = [], hcs_body = body\<rparr>"

definition client_response_header_values :: "http_client_response \<Rightarrow> str \<Rightarrow> str list" where
  "client_response_header_values r name =
     (case bt_get (hcs_headers r) (client_header_name name) of Some vs \<Rightarrow> vs | None \<Rightarrow> [])"

definition client_response_with_header :: "str \<Rightarrow> str \<Rightarrow> http_client_response \<Rightarrow> http_client_response" where
  "client_response_with_header name v r =
     r\<lparr>hcs_headers := bt_insert (client_header_name name) (client_response_header_values r name @ [v]) (hcs_headers r)\<rparr>"

definition is_success :: "http_client_response \<Rightarrow> bool" where
  "is_success r \<longleftrightarrow> 200 \<le> hcs_status r \<and> hcs_status r < 300"

definition error_for_status :: "http_client_response \<Rightarrow> boot_error + http_client_response" where
  "error_for_status r =
     (if is_success r then Inr r
      else Inl (BadRequest (''HTTP request returned status '' @ show_nat (hcs_status r))))"

text \<open>The context of the inbound request that the call is part of.\<close>

record request_context =
  rctx_headers :: "(str, str) btree"
  rctx_request_id :: "str option"

definition context_header :: "request_context \<Rightarrow> str \<Rightarrow> str option" where
  "context_header c name = bt_get (rctx_headers c) (to_ascii_lowercase name)"

definition default_header :: "str \<Rightarrow> str option \<Rightarrow> http_client_request \<Rightarrow> http_client_request" where
  "default_header name v r =
     (if client_request_header r name = None
      then (case v of Some x \<Rightarrow> client_with_header name x r | None \<Rightarrow> r)
      else r)"

definition inject_propagation_headers :: "request_context option \<Rightarrow> http_client_request \<Rightarrow> http_client_request" where
  "inject_propagation_headers ctx r =
     (case ctx of
        None \<Rightarrow> r
      | Some c \<Rightarrow>
          (let request_id = or_else (rctx_request_id c) (context_header c ''x-request-id'') in
           default_header ''x-correlation-id'' (or_else (context_header c ''x-correlation-id'') request_id)
             (default_header ''x-request-id'' request_id
               (default_header ''tracestate'' (context_header c ''tracestate'')
                 (default_header ''traceparent'' (context_header c ''traceparent'') r)))))"

definition join_url :: "str \<Rightarrow> str \<Rightarrow> str" where
  "join_url base path =
     (if starts_with ''http://'' path \<or> starts_with ''https://'' path then path
      else
        (let b = trim_end_char CHR ''/'' base in
         if starts_with ''/'' path then b @ path else b @ ''/'' @ path))"

section \<open>One call\<close>

record service_client =
  scl_options :: http_client_options
  scl_breaker :: circuit_breaker_options
  scl_bulkhead :: bulkhead_options
  scl_retry :: retry_options
  scl_strategy :: service_balance_strategy
  scl_degrade :: "degrade_policy option"
  scl_timeout :: "nat option"

text \<open>What the calls on one client share.\<close>

record client_state =
  cst_breaker :: circuit_inner
  cst_in_flight :: nat
  cst_cursor :: nat

record 'w client_env =
  cle_discover :: "str \<Rightarrow> 'w \<Rightarrow> (boot_error + service_instance list) \<times> 'w"
  cle_send :: "http_client_request \<Rightarrow> client_state \<Rightarrow> 'w \<Rightarrow> (boot_error + http_client_response) \<times> client_state \<times> 'w"
  cle_sleep :: "nat \<Rightarrow> client_state \<Rightarrow> 'w \<Rightarrow> client_state \<times> 'w"
  cle_now :: "'w \<Rightarrow> nat"
  cle_context :: "'w \<Rightarrow> request_context option"

definition degraded_response :: "fallback_response \<Rightarrow> http_client_response" where
  "degraded_response fb =
     client_response_with_header ''x-a3s-degraded'' ''1''
       (client_response_with_header ''content-type'' (fb_content_type fb) (client_response_new (fb_status fb) (fb_body fb)))"

definition degrade_or_err :: "service_client \<Rightarrow> bool \<Rightarrow> boot_error \<Rightarrow> boot_error + http_client_response" where
  "degrade_or_err cl allow err =
     (if allow
      then (case scl_degrade cl of Some p \<Rightarrow> Inr (degraded_response (dp_fallback p)) | None \<Rightarrow> Inl err)
      else Inl err)"

definition policy_allows :: "(degrade_policy \<Rightarrow> bool) \<Rightarrow> service_client \<Rightarrow> bool" where
  "policy_allows f cl = (case scl_degrade cl of Some p \<Rightarrow> f p | None \<Rightarrow> False)"

definition http_service_request ::
  "'w client_env \<Rightarrow> http_client_options \<Rightarrow> http_client_request \<Rightarrow> client_state \<Rightarrow> 'w
     \<Rightarrow> (boot_error + http_client_response) \<times> client_state \<times> 'w" where
  "http_service_request env o1 r st w =
     (case apply_options o1 r of Inl err \<Rightarrow> (Inl err, st, w) | Inr r1 \<Rightarrow> cle_send env r1 st w)"

definition note_success :: "service_client \<Rightarrow> client_state \<Rightarrow> client_state" where
  "note_success cl st = st\<lparr>cst_breaker := circuit_on_success (scl_breaker cl) (cst_breaker st)\<rparr>"

definition note_failure :: "service_client \<Rightarrow> nat \<Rightarrow> client_state \<Rightarrow> client_state" where
  "note_failure cl now st = st\<lparr>cst_breaker := circuit_on_failure (scl_breaker cl) now (cst_breaker st)\<rparr>"

definition outbound_request ::
  "service_client \<Rightarrow> request_context option \<Rightarrow> service_instance \<Rightarrow> http_client_request \<Rightarrow> http_client_request" where
  "outbound_request cl ctx i r =
     (let r1 = client_with_url (join_url (base_url i) (hcr_url r)) r;
          r2 = (if hcr_timeout r1 = None
                then (case scl_timeout cl of Some t \<Rightarrow> client_with_timeout t r1 | None \<Rightarrow> r1) else r1)
      in inject_propagation_headers ctx r2)"

text \<open>The loop of \<open>call_request\<close>; the attempt is a 32-bit counter.\<close>

function call_attempts ::
  "'w client_env \<Rightarrow> service_client \<Rightarrow> str \<Rightarrow> http_client_request \<Rightarrow> 32 word \<Rightarrow> client_state \<Rightarrow> 'w
     \<Rightarrow> (boot_error + http_client_response) \<times> client_state \<times> 'w" where
  "call_attempts env cl service r attempt st w =
     (case cle_discover env service w of
        (answer, w1) \<Rightarrow>
          (case balancer_select (scl_strategy cl) service answer (cst_cursor st) of
             (Inl err, cursor) \<Rightarrow>
               (degrade_or_err cl (policy_allows dp_on_exhausted_retries cl) err,
                note_failure cl (cle_now env w1) (st\<lparr>cst_cursor := cursor\<rparr>), w1)
           | (Inr i, cursor) \<Rightarrow>
               (case http_service_request env (scl_options cl) (outbound_request cl (cle_context env w1) i r)
                       (st\<lparr>cst_cursor := cursor\<rparr>) w1 of
                  (Inr resp, st2, w2) \<Rightarrow>
                    if is_success resp then (Inr resp, note_success cl st2, w2)
                    else if should_retry_status (scl_retry cl) (hcs_status resp) attempt
                    then (case cle_sleep env (delay_for_attempt (scl_retry cl) (next_attempt attempt))
                                 (note_failure cl (cle_now env w2) st2) w2 of
                            (st3, w3) \<Rightarrow> call_attempts env cl service r (next_attempt attempt) st3 w3)
                    else (degrade_or_err cl (policy_allows dp_on_exhausted_retries cl)
                            (BadGateway (''service '' @ [CHR 0x27] @ service @ [CHR 0x27] @ '' returned status '' @
                               show_nat (hcs_status resp))),
                          note_failure cl (cle_now env w2) st2, w2)
                | (Inl err, st2, w2) \<Rightarrow>
                    if should_retry_error (scl_retry cl) attempt
                    then (case cle_sleep env (delay_for_attempt (scl_retry cl) (next_attempt attempt))
                                 (note_failure cl (cle_now env w2) st2) w2 of
                            (st3, w3) \<Rightarrow> call_attempts env cl service r (next_attempt attempt) st3 w3)
                    else (degrade_or_err cl (policy_allows dp_on_exhausted_retries cl) err,
                          note_failure cl (cle_now env w2) st2, w2))))"
  by pat_completeness auto

lemma attempts_left:
  assumes "should_retry_status r status attempt \<or> should_retry_error r attempt"
  shows "unat (ro_max_retries r) - unat (next_attempt attempt) < unat (ro_max_retries r) - unat attempt"
proof -
  from assms have "attempt < ro_max_retries r" by (auto intro: retry_needs_budget)
  with unat_next_attempt [OF this] show ?thesis by (simp add: word_less_nat_alt)
qed

termination call_attempts
  by (relation "measure (\<lambda>(env, cl, service, r, attempt, st, w). unat (ro_max_retries (scl_retry cl)) - unat attempt)")
    (use attempts_left in auto)

declare call_attempts.simps [simp del]

text \<open>
  The whole call: a permit of the bulkhead, the admission of the breaker, the attempts. The
  permit is dropped on every return.
\<close>

definition drop_permit :: "client_state \<Rightarrow> client_state" where
  "drop_permit st = st\<lparr>cst_in_flight := cst_in_flight st - 1\<rparr>"

definition circuit_state_name :: "circuit_state \<Rightarrow> str" where
  "circuit_state_name s = (case s of Closed \<Rightarrow> ''Closed'' | Open \<Rightarrow> ''Open'' | HalfOpen \<Rightarrow> ''HalfOpen'')"

definition circuit_open_error :: "str \<Rightarrow> circuit_state \<Rightarrow> boot_error" where
  "circuit_open_error service s =
     ServiceUnavailable (''circuit open for service '' @ [CHR 0x27] @ service @ [CHR 0x27] @
       '': circuit breaker is '' @ circuit_state_name s)"

definition call_request ::
  "'w client_env \<Rightarrow> service_client \<Rightarrow> str \<Rightarrow> http_client_request \<Rightarrow> client_state \<Rightarrow> 'w
     \<Rightarrow> (boot_error + http_client_response) \<times> client_state \<times> 'w" where
  "call_request env cl service r st w =
     (if cst_in_flight st \<ge> bko_max_concurrent (scl_bulkhead cl)
      then (degrade_or_err cl True (TooManyRequests ''service client bulkhead full''), st, w)
      else
        (let st1 = st\<lparr>cst_in_flight := cst_in_flight st + 1\<rparr> in
         case circuit_admit (scl_breaker cl) (cle_now env w) (cst_breaker st1) of
           (Inl s, b) \<Rightarrow>
             (degrade_or_err cl (policy_allows dp_on_circuit_open cl) (circuit_open_error service s),
              drop_permit (st1\<lparr>cst_breaker := b\<rparr>), w)
         | (Inr _, b) \<Rightarrow>
             (case call_attempts env cl service r 0 (st1\<lparr>cst_breaker := b\<rparr>) w of
                (res, st2, w2) \<Rightarrow> (res, drop_permit st2, w2))))"

section \<open>What one call does\<close>

text \<open>The attempts of a call, as its surroundings see them.\<close>

datatype attempt_event =
  SelectionFailed boot_error
| Answered "boot_error + http_client_response"

text \<open>
  An attempt is repeated if its outcome is transient, and its answer is otherwise final.
\<close>

definition retries_event :: "service_client \<Rightarrow> 32 word \<Rightarrow> attempt_event \<Rightarrow> bool" where
  "retries_event cl attempt ev =
     (case ev of
        SelectionFailed err \<Rightarrow> False
      | Answered (Inl err) \<Rightarrow> should_retry_error (scl_retry cl) attempt
      | Answered (Inr resp) \<Rightarrow>
          \<not> is_success resp \<and> should_retry_status (scl_retry cl) (hcs_status resp) attempt)"

definition event_result :: "service_client \<Rightarrow> str \<Rightarrow> attempt_event \<Rightarrow> boot_error + http_client_response" where
  "event_result cl service ev =
     (case ev of
        SelectionFailed err \<Rightarrow> degrade_or_err cl (policy_allows dp_on_exhausted_retries cl) err
      | Answered (Inl err) \<Rightarrow> degrade_or_err cl (policy_allows dp_on_exhausted_retries cl) err
      | Answered (Inr resp) \<Rightarrow>
          if is_success resp then Inr resp
          else degrade_or_err cl (policy_allows dp_on_exhausted_retries cl)
                 (BadGateway (''service '' @ [CHR 0x27] @ service @ [CHR 0x27] @ '' returned status '' @
                    show_nat (hcs_status resp))))"

text \<open>
  \<open>attempts_run ev attempt w\<close>: a sequence of outcomes in which all but the last are repeated
  and the last is not.
\<close>

fun attempt_chain :: "service_client \<Rightarrow> 32 word \<Rightarrow> attempt_event list \<Rightarrow> bool" where
  "attempt_chain cl attempt [] = False"
| "attempt_chain cl attempt [ev] = (\<not> retries_event cl attempt ev)"
| "attempt_chain cl attempt (ev # evs) = (retries_event cl attempt ev \<and> attempt_chain cl (next_attempt attempt) evs)"

lemma attempt_chain_length:
  "attempt_chain cl attempt evs \<Longrightarrow> length evs \<le> unat (ro_max_retries (scl_retry cl)) - unat attempt + 1 \<and> evs \<noteq> []"
proof (induction cl attempt evs rule: attempt_chain.induct)
  case (3 cl attempt ev ev2 evs)
  then have "should_retry_error (scl_retry cl) attempt \<or>
      (\<exists>status. should_retry_status (scl_retry cl) status attempt)"
    by (auto simp: retries_event_def split: attempt_event.splits sum.splits)
  then have "unat (ro_max_retries (scl_retry cl)) - unat (next_attempt attempt)
      < unat (ro_max_retries (scl_retry cl)) - unat attempt"
    using attempts_left by blast
  with 3 show ?case by simp
qed auto

definition recorded_env :: "'w client_env \<Rightarrow> ('w \<times> attempt_event list) client_env" where
  "recorded_env env =
     \<lparr>cle_discover = (\<lambda>service (w, log).
        case cle_discover env service w of
          (answer, w1) \<Rightarrow>
            (answer, w1,
             log @ (case answer of
                      Inl err \<Rightarrow> [SelectionFailed err]
                    | Inr is \<Rightarrow> if is = [] then [SelectionFailed (no_healthy_instances service)] else []))),
      cle_send = (\<lambda>r st (w, log). case cle_send env r st w of (a, st1, w1) \<Rightarrow> (a, st1, w1, log @ [Answered a])),
      cle_sleep = (\<lambda>d st (w, log). case cle_sleep env d st w of (st1, w1) \<Rightarrow> (st1, w1, log)),
      cle_now = (\<lambda>(w, log). cle_now env w),
      cle_context = (\<lambda>(w, log). cle_context env w)\<rparr>"

text \<open>Every discovered instance has an HTTP address.\<close>

definition http_addresses :: "'w client_env \<Rightarrow> bool" where
  "http_addresses env \<longleftrightarrow>
     (\<forall>service w is i. fst (cle_discover env service w) = Inr is \<longrightarrow> i \<in> set is \<longrightarrow> is_absolute_http_url (base_url i))"

definition keeps_permits :: "'w client_env \<Rightarrow> bool" where
  "keeps_permits env \<longleftrightarrow>
     (\<forall>r st w. cst_in_flight (fst (snd (cle_send env r st w))) = cst_in_flight st) \<and>
     (\<forall>d st w. cst_in_flight (fst (cle_sleep env d st w)) = cst_in_flight st)"

lemma show_nat_last: "last (show_nat n) \<noteq> CHR ''/''" "show_nat n \<noteq> []"
proof (induction n rule: show_nat.induct)
  case (1 n)
  have d: "char_of (48 + k) \<noteq> CHR ''/''" if "k < 10" for k :: nat
  proof
    assume "char_of (48 + k) = CHR ''/''"
    then have "of_char (char_of (48 + k) :: char) = (of_char CHR ''/'' :: nat)" by simp
    with that show False by simp
  qed
  { case 1 show ?case using d by (subst show_nat.simps) simp }
  { case 2 show ?case by (subst show_nat.simps) simp }
qed

lemma trim_end_char_last: "s \<noteq> [] \<Longrightarrow> last s \<noteq> c \<Longrightarrow> trim_end_char c s = s"
  unfolding trim_end_char_def
  by (cases s rule: rev_cases) auto

lemma base_url_trimmed: "trim_end_char CHR ''/'' (base_url i) = base_url i"
  by (rule trim_end_char_last) (simp_all add: base_url_def show_nat_last)

lemma starts_with_append: "starts_with p s \<Longrightarrow> starts_with p (s @ t)"
  by (auto simp: starts_with_iff)

lemma join_url_absolute:
  "is_absolute_http_url (base_url i) \<Longrightarrow> is_absolute_http_url (join_url (base_url i) path)"
  by (auto simp: join_url_def is_absolute_http_url_def base_url_trimmed starts_with_append Let_def)

lemma default_header_url [simp]: "hcr_url (default_header name v r) = hcr_url r"
  by (simp add: default_header_def client_with_header_def split: option.splits)

lemma inject_propagation_url [simp]: "hcr_url (inject_propagation_headers ctx r) = hcr_url r"
  by (simp add: inject_propagation_headers_def Let_def split: option.splits)

lemma outbound_url [simp]: "hcr_url (outbound_request cl ctx i r) = join_url (base_url i) (hcr_url r)"
  by (simp add: outbound_request_def client_with_timeout_def client_with_url_def Let_def split: option.splits)

lemma absolute_request_sent:
  assumes "is_absolute_http_url (hcr_url q)"
  shows "\<exists>q'. http_service_request env o1 q st w = cle_send env q' st w"
  using assms by (auto simp: http_service_request_def apply_options_def resolve_url_def)

lemma recorded_request:
  assumes "is_absolute_http_url (hcr_url q)"
  obtains a st1 w1 where
    "http_service_request (recorded_env env) o1 q st (w, log) = (a, st1, w1, log @ [Answered a])"
    "keeps_permits env \<longrightarrow> cst_in_flight st1 = cst_in_flight st"
proof -
  from absolute_request_sent [OF assms, of "recorded_env env" o1 st "(w, log)"]
  obtain q' where q': "http_service_request (recorded_env env) o1 q st (w, log) = cle_send (recorded_env env) q' st (w, log)"
    by blast
  obtain a st1 w1 where s: "cle_send env q' st w = (a, st1, w1)" by (metis prod_cases3)
  have "keeps_permits env \<longrightarrow> cst_in_flight st1 = cst_in_flight st"
    unfolding keeps_permits_def using s by (metis fst_conv snd_conv)
  with that [of a st1 w1] q' s show ?thesis by (simp add: recorded_env_def)
qed

lemma recorded_select:
  assumes "http_addresses env"
  shows "\<exists>answer w1 r c evs. cle_discover (recorded_env env) service (w, log) = (answer, w1, log @ evs)
    \<and> balancer_select strategy service answer cursor = (r, c)
    \<and> (case r of Inl err \<Rightarrow> evs = [SelectionFailed err] | Inr i \<Rightarrow> evs = [] \<and> is_absolute_http_url (base_url i))"
proof -
  obtain answer w1 where d: "cle_discover env service w = (answer, w1)" by fastforce
  show ?thesis
  proof (cases answer)
    case (Inl err)
    with d show ?thesis by (simp add: recorded_env_def balancer_select_def)
  next
    case (Inr insts)
    show ?thesis
    proof (cases "insts = []")
      case True
      with d Inr show ?thesis by (simp add: recorded_env_def balancer_select_def)
    next
      case False
      let ?i = "if strategy = FirstHealthy then insts ! 0 else insts ! (cursor mod length insts)"
      have "?i \<in> set insts" using False by simp
      with assms d Inr have "is_absolute_http_url (base_url ?i)"
        unfolding http_addresses_def by (metis fst_conv)
      with d Inr False show ?thesis
        by (cases strategy) (simp_all add: recorded_env_def balancer_select_def)
    qed
  qed
qed

lemma note_in_flight [simp]:
  "cst_in_flight (note_success cl st) = cst_in_flight st" "cst_in_flight (note_failure cl now st) = cst_in_flight st"
  by (simp_all add: note_success_def note_failure_def)

lemma recorded_sleep:
  obtains st1 w1 where "cle_sleep (recorded_env env) d st (w, log) = (st1, w1, log)"
    "keeps_permits env \<longrightarrow> cst_in_flight st1 = cst_in_flight st"
proof -
  obtain st1 w1 where s: "cle_sleep env d st w = (st1, w1)" by fastforce
  have "keeps_permits env \<longrightarrow> cst_in_flight st1 = cst_in_flight st"
    unfolding keeps_permits_def using s by (metis fst_conv)
  with that [of st1 w1] s show ?thesis by (simp add: recorded_env_def)
qed

definition explained ::
  "'w client_env \<Rightarrow> service_client \<Rightarrow> str \<Rightarrow> 32 word \<Rightarrow> client_state \<Rightarrow> attempt_event list
     \<Rightarrow> (boot_error + http_client_response) \<times> client_state \<times> 'w \<times> attempt_event list \<Rightarrow> bool" where
  "explained env cl service attempt st log out \<longleftrightarrow>
     (\<exists>evs. snd (snd (snd out)) = log @ evs \<and> attempt_chain cl attempt evs \<and>
        fst out = event_result cl service (last evs) \<and>
        (keeps_permits env \<longrightarrow> cst_in_flight (fst (snd out)) = cst_in_flight st))"

lemma explained_last:
  "\<not> retries_event cl attempt ev \<Longrightarrow> (keeps_permits env \<Longrightarrow> cst_in_flight st1 = cst_in_flight st) \<Longrightarrow>
     explained env cl service attempt st log (event_result cl service ev, st1, w1, log @ [ev])"
  by (auto simp: explained_def intro!: exI [of _ "[ev]"])

lemma explained_retry:
  assumes "explained env cl service (next_attempt attempt) st1 (log @ [ev]) out" "retries_event cl attempt ev"
    "keeps_permits env \<Longrightarrow> cst_in_flight st1 = cst_in_flight st"
  shows "explained env cl service attempt st log out"
proof -
  from assms(1) obtain evs where "snd (snd (snd out)) = (log @ [ev]) @ evs"
    "attempt_chain cl (next_attempt attempt) evs" "fst out = event_result cl service (last evs)"
    "keeps_permits env \<longrightarrow> cst_in_flight (fst (snd out)) = cst_in_flight st1"
    unfolding explained_def by blast
  moreover from this(2) obtain e es where "evs = e # es" by (cases evs) auto
  ultimately show ?thesis using assms(2,3)
    unfolding explained_def by (intro exI [of _ "ev # evs"]) simp
qed

lemma call_attempts_explained:
  assumes "http_addresses env"
  shows "explained env cl service attempt st log (call_attempts (recorded_env env) cl service q attempt st (w, log))"
proof (induction "unat (ro_max_retries (scl_retry cl)) - unat attempt" arbitrary: attempt st w log rule: less_induct)
  case less
  from recorded_select [OF assms] obtain answer w1 r c evs where
    d: "cle_discover (recorded_env env) service (w, log) = (answer, w1, log @ evs)"
    and b: "balancer_select (scl_strategy cl) service answer (cst_cursor st) = (r, c)"
    and r: "case r of Inl err \<Rightarrow> evs = [SelectionFailed err] | Inr i \<Rightarrow> evs = [] \<and> is_absolute_http_url (base_url i)"
    by blast
  show ?case
  proof (cases r)
    case (Inl err)
    with r d b have "call_attempts (recorded_env env) cl service q attempt st (w, log) =
        (event_result cl service (SelectionFailed err),
         note_failure cl (cle_now (recorded_env env) (w1, log @ evs)) (st\<lparr>cst_cursor := c\<rparr>), w1, log @ [SelectionFailed err])"
      by (subst call_attempts.simps) (simp add: event_result_def)
    then show ?thesis by (simp add: explained_last retries_event_def)
  next
    case (Inr i)
    let ?q = "outbound_request cl (cle_context (recorded_env env) (w1, log)) i q"
    from Inr r have "is_absolute_http_url (hcr_url ?q)" by (simp add: join_url_absolute)
    then obtain a st2 w2 where
      s: "http_service_request (recorded_env env) (scl_options cl) ?q (st\<lparr>cst_cursor := c\<rparr>) (w1, log) =
        (a, st2, w2, log @ [Answered a])"
      and p2: "keeps_permits env \<longrightarrow> cst_in_flight st2 = cst_in_flight (st\<lparr>cst_cursor := c\<rparr>)"
      by (rule recorded_request [of ?q env "scl_options cl" "st\<lparr>cst_cursor := c\<rparr>" w1 log])
    let ?now = "cle_now (recorded_env env) (w2, log @ [Answered a])"
    obtain st3 w3 where
      sl: "cle_sleep (recorded_env env) (delay_for_attempt (scl_retry cl) (next_attempt attempt))
        (note_failure cl ?now st2) (w2, log @ [Answered a]) = (st3, w3, log @ [Answered a])"
      and p3: "keeps_permits env \<longrightarrow> cst_in_flight st3 = cst_in_flight (note_failure cl ?now st2)"
      by (rule recorded_sleep)
    from Inr r d b s sl have step: "call_attempts (recorded_env env) cl service q attempt st (w, log) =
        (if retries_event cl attempt (Answered a)
         then call_attempts (recorded_env env) cl service q (next_attempt attempt) st3 (w3, log @ [Answered a])
         else (event_result cl service (Answered a),
               (if \<exists>resp. a = Inr resp \<and> is_success resp then note_success cl st2 else note_failure cl ?now st2),
               w2, log @ [Answered a]))"
      by (subst call_attempts.simps) (auto simp: retries_event_def event_result_def split: sum.splits)
    show ?thesis
    proof (cases "retries_event cl attempt (Answered a)")
      case False
      with p2 show ?thesis unfolding step by (simp add: explained_last)
    next
      case True
      then have "should_retry_error (scl_retry cl) attempt \<or> (\<exists>status. should_retry_status (scl_retry cl) status attempt)"
        by (auto simp: retries_event_def split: sum.splits)
      then have "unat (ro_max_retries (scl_retry cl)) - unat (next_attempt attempt)
          < unat (ro_max_retries (scl_retry cl)) - unat attempt"
        using attempts_left by blast
      from less [OF this, of st3 "log @ [Answered a]" w3] True p2 p3 show ?thesis
        unfolding step by (auto intro: explained_retry)
    qed
  qed
qed

text \<open>
  C21. A call to a service sends nothing when the bulkhead is full or the breaker rejects it,
  and answers with the fallback where the policy has one for this case, and otherwise with
  the error. An admitted call makes between one and \<open>max_retries + 1\<close> attempts, whatever the
  discovery and the other services answer and whatever other calls on the same client do
  meanwhile: all attempts but the last had a transient outcome that the retry policy accepts,
  the last had not, and the result is that of the last attempt. The permit of the bulkhead is
  returned on every path.
\<close>

theorem call_request_exact:
  assumes "http_addresses env"
  shows "case call_request (recorded_env env) cl service q st (w, []) of (res, st', w', log) \<Rightarrow>
     (if bko_max_concurrent (scl_bulkhead cl) \<le> cst_in_flight st
      then log = [] \<and> res = degrade_or_err cl True (TooManyRequests ''service client bulkhead full'')
      else (case fst (circuit_admit (scl_breaker cl) (cle_now env w) (cst_breaker st)) of
              Inl s \<Rightarrow> log = [] \<and> res = degrade_or_err cl (policy_allows dp_on_circuit_open cl) (circuit_open_error service s)
            | Inr _ \<Rightarrow> attempt_chain cl 0 log \<and> 1 \<le> length log \<and>
                length log \<le> unat (ro_max_retries (scl_retry cl)) + 1 \<and> res = event_result cl service (last log)))
     \<and> (keeps_permits env \<longrightarrow> cst_in_flight st' = cst_in_flight st)"
proof (cases "bko_max_concurrent (scl_bulkhead cl) \<le> cst_in_flight st")
  case True
  then show ?thesis by (simp add: call_request_def)
next
  case False
  let ?st = "\<lambda>b. st\<lparr>cst_in_flight := cst_in_flight st + 1, cst_breaker := b\<rparr>"
  have now: "cle_now (recorded_env env) (w, []) = cle_now env w" by (simp add: recorded_env_def)
  obtain r b where ad: "circuit_admit (scl_breaker cl) (cle_now env w) (cst_breaker st) = (r, b)" by fastforce
  show ?thesis
  proof (cases r)
    case (Inl s)
    with False ad now show ?thesis by (simp add: call_request_def drop_permit_def)
  next
    case (Inr u)
    obtain res st2 w2 log where
      c: "call_attempts (recorded_env env) cl service q 0 (?st b) (w, []) = (res, st2, w2, log)"
      by (metis prod_cases4)
    from call_attempts_explained [OF assms, of cl service 0 "?st b" "[]" q w] c
    have e: "attempt_chain cl 0 log" "res = event_result cl service (last log)"
      "keeps_permits env \<longrightarrow> cst_in_flight st2 = cst_in_flight st + 1"
      unfolding explained_def by auto
    from attempt_chain_length [OF e(1)] have "1 \<le> length log" "length log \<le> unat (ro_max_retries (scl_retry cl)) + 1"
      by (auto simp: Suc_le_eq)
    with False ad now Inr c e show ?thesis by (simp add: call_request_def drop_permit_def)
  qed
qed

text \<open>A service whose only instance answers with 503.\<close>

definition example_client :: service_client where
  "example_client =
     \<lparr>scl_options = http_client_options_default,
      scl_breaker = \<lparr>cbo_failure_threshold = 1, cbo_cooldown = 5, cbo_success_threshold = 1\<rparr>,
      scl_bulkhead = \<lparr>bko_max_concurrent = 1\<rparr>,
      scl_retry = \<lparr>ro_max_retries = 2, ro_scaled = (\<lambda>n. 1), ro_max_delay = 1, ro_classifier = TransientHttp\<rparr>,
      scl_strategy = RoundRobin, scl_degrade = None, scl_timeout = None\<rparr>"

definition example_client_env :: "unit client_env" where
  "example_client_env =
     \<lparr>cle_discover = (\<lambda>service w. (Inr [service_instance_new service ''a'' ''10.0.0.1'' 80], w)),
      cle_send = (\<lambda>r st w. (Inr (client_response_new 503 []), st, w)),
      cle_sleep = (\<lambda>d st w. (st, w)), cle_now = (\<lambda>w. 0), cle_context = (\<lambda>w. None)\<rparr>"

definition example_client_state :: client_state where
  "example_client_state = \<lparr>cst_breaker = circuit_breaker_new, cst_in_flight = 0, cst_cursor = 0\<rparr>"

lemma example_http_addresses: "http_addresses example_client_env"
  by (simp add: http_addresses_def example_client_env_def is_absolute_http_url_def base_url_def
      service_instance_new_def starts_with_def)

theorem call_request_exact_witness:
  "case call_request (recorded_env example_client_env) example_client ''billing'' (client_request_new M_Get ''/'')
      example_client_state ((), []) of (res, st', w', log) \<Rightarrow>
     attempt_chain example_client 0 log \<and> length log \<le> 3 \<and> res = event_result example_client ''billing'' (last log)
     \<and> cst_in_flight st' = 0"
proof -
  have 1: "\<not> bko_max_concurrent (scl_bulkhead example_client) \<le> cst_in_flight example_client_state"
    by (simp add: example_client_def example_client_state_def)
  have 2: "fst (circuit_admit (scl_breaker example_client) (cle_now example_client_env ()) (cst_breaker example_client_state)) = Inr ()"
    by (simp add: circuit_eval example_client_state_def)
  have 3: "keeps_permits example_client_env" by (simp add: keeps_permits_def example_client_env_def)
  have 4: "unat (ro_max_retries (scl_retry example_client)) = 2" by (simp add: example_client_def)
  have 5: "cst_in_flight example_client_state = 0" by (simp add: example_client_state_def)
  from call_request_exact [OF example_http_addresses, where cl = example_client and service = "''billing''"
      and q = "client_request_new M_Get ''/''" and st = example_client_state and w = "()"] 1 2 3 4 5
  show ?thesis by (auto split: prod.splits)
qed

text \<open>
  The first of these answers opens the circuit, and the call goes on with its retries all the
  same: attempts after the first are not admitted by the breaker.
\<close>

definition unavailable_event :: attempt_event where
  "unavailable_event = Answered (Inr (client_response_new 503 []))"

lemma example_accessors:
  "scl_options example_client = http_client_options_default" "scl_strategy example_client = RoundRobin"
  "should_retry_status (scl_retry example_client) 503 attempt \<longleftrightarrow> attempt < 2"
  "cle_discover (recorded_env example_client_env) service ((), log) =
     (Inr [service_instance_new service ''a'' ''10.0.0.1'' 80], (), log)"
  "cle_send (recorded_env example_client_env) r st ((), log) =
     (Inr (client_response_new 503 []), st, (), log @ [unavailable_event])"
  "cle_sleep (recorded_env example_client_env) d st ((), log) = (st, (), log)"
  "cle_now (recorded_env example_client_env) ((), log) = 0"
  "is_success (client_response_new 503 []) = False" "hcs_status (client_response_new 503 []) = 503"
  by (auto simp: example_client_def recorded_env_def example_client_env_def unavailable_event_def
      should_retry_status_def is_success_def client_response_new_def)

lemma example_attempt:
  "call_attempts (recorded_env example_client_env) example_client service q attempt st ((), log) =
     (let st1 = note_failure example_client 0 (st\<lparr>cst_cursor := (cst_cursor st + 1) mod usize_modulus\<rparr>) in
      if attempt < 2
      then call_attempts (recorded_env example_client_env) example_client service q (next_attempt attempt) st1
             ((), log @ [unavailable_event])
      else (event_result example_client service unavailable_event, st1, (), log @ [unavailable_event]))"
proof -
  let ?i = "service_instance_new service ''a'' ''10.0.0.1'' 80"
  have abs: "is_absolute_http_url (hcr_url (outbound_request cl ctx ?i q))" for cl ctx
    using example_http_addresses
    by (auto simp: http_addresses_def example_client_env_def intro!: join_url_absolute)
  have req: "http_service_request (recorded_env example_client_env) o1 (outbound_request cl ctx ?i q) st ((), log) =
      (Inr (client_response_new 503 []), st, (), log @ [unavailable_event])" for o1 cl ctx st
    using absolute_request_sent [OF abs, of "recorded_env example_client_env" o1 cl ctx st "((), log)"]
    by (auto simp: example_accessors)
  show ?thesis
    by (subst call_attempts.simps)
      (simp add: example_accessors req balancer_select_def Let_def event_result_def unavailable_event_def)
qed

lemma example_failure_opens [simp]: "ci_state (cst_breaker (note_failure example_client t st)) = Open"
  by (simp add: note_failure_def circuit_on_failure_def example_client_def saturating_add_u32_def u32_max_def Let_def
      split: circuit_state.splits)

lemma retries_pass_open_circuit:
  "case call_request (recorded_env example_client_env) example_client ''billing'' (client_request_new M_Get ''/'')
      example_client_state ((), []) of (res, st', w', log) \<Rightarrow>
     log = [unavailable_event, unavailable_event, unavailable_event] \<and> ci_state (cst_breaker st') = Open"
proof -
  note attempts = example_attempt [of _ _ 0] example_attempt [of _ _ 1] example_attempt [of _ _ 2]
  have n: "next_attempt 0 = 1" "next_attempt 1 = 2" by (simp_all add: next_attempt_def)
  have ad: "circuit_admit (scl_breaker example_client) t circuit_breaker_new = (Inr (), circuit_breaker_new)" for t
    by (simp add: circuit_eval)
  show ?thesis
    by (simp add: call_request_def ad attempts n Let_def drop_permit_def example_client_state_def)
      (simp add: example_client_def)
qed

end
