(* ===== verification/Http_Security.thy ===== *)
theory Http_Security
  imports Pipeline
begin

text \<open>
  \<open>src/security/{cors,csrf,headers}.rs\<close>: cross-origin requests, the CSRF guard and the
  security headers, as the middleware, guards and interceptors of \<^theory_text>\<open>Pipeline\<close>. Sets of
  methods and names are sorted lists, as they are iterated.
\<close>

section \<open>CORS\<close>

datatype cors_origin_policy = AnyOrigin | ExactOrigins "str list"

datatype cors_header_policy = AnyRequested | ExactHeaders "str list"

record cors_options =
  co_origins :: cors_origin_policy
  co_methods :: "http_method list"
  co_headers :: cors_header_policy
  co_exposed :: "str list"
  co_credentials :: bool
  co_max_age :: "nat option"

definition cors_options_default :: cors_options where
  "cors_options_default =
     \<lparr>co_origins = AnyOrigin,
      co_methods = bs_of_list [M_Get, M_Head, M_Post, M_Put, M_Patch, M_Delete, M_Options],
      co_headers = AnyRequested, co_exposed = [], co_credentials = False, co_max_age = None\<rparr>"

definition normalize_cors_header_name :: "str \<Rightarrow> str" where
  "normalize_cors_header_name h = to_ascii_lowercase (trim h)"

definition allow_any_origin :: "cors_options \<Rightarrow> cors_options" where
  "allow_any_origin o1 = o1\<lparr>co_origins := AnyOrigin\<rparr>"

definition allow_origin :: "str \<Rightarrow> cors_options \<Rightarrow> cors_options" where
  "allow_origin origin o1 =
     o1\<lparr>co_origins := (case co_origins o1 of
          AnyOrigin \<Rightarrow> ExactOrigins [origin] | ExactOrigins os \<Rightarrow> ExactOrigins (bs_insert origin os))\<rparr>"

definition allow_origins :: "str list \<Rightarrow> cors_options \<Rightarrow> cors_options" where
  "allow_origins origins o1 = o1\<lparr>co_origins := ExactOrigins (bs_of_list origins)\<rparr>"

definition allow_method :: "http_method \<Rightarrow> cors_options \<Rightarrow> cors_options" where
  "allow_method m o1 = o1\<lparr>co_methods := insert_http_method m (co_methods o1)\<rparr>"

definition allow_methods :: "http_method list \<Rightarrow> cors_options \<Rightarrow> cors_options" where
  "allow_methods ms o1 = o1\<lparr>co_methods := collect_http_methods ms\<rparr>"

definition allow_any_header :: "cors_options \<Rightarrow> cors_options" where
  "allow_any_header o1 = o1\<lparr>co_headers := AnyRequested\<rparr>"

definition allow_header :: "str \<Rightarrow> cors_options \<Rightarrow> cors_options" where
  "allow_header h o1 =
     (let header = normalize_cors_header_name h in
      o1\<lparr>co_headers := (case co_headers o1 of
           AnyRequested \<Rightarrow> ExactHeaders [header] | ExactHeaders hs \<Rightarrow> ExactHeaders (bs_insert header hs))\<rparr>)"

definition allow_headers :: "str list \<Rightarrow> cors_options \<Rightarrow> cors_options" where
  "allow_headers hs o1 = o1\<lparr>co_headers := ExactHeaders (bs_of_list (map normalize_cors_header_name hs))\<rparr>"

definition expose_header :: "str \<Rightarrow> cors_options \<Rightarrow> cors_options" where
  "expose_header h o1 = o1\<lparr>co_exposed := bs_insert (normalize_cors_header_name h) (co_exposed o1)\<rparr>"

definition expose_headers :: "str list \<Rightarrow> cors_options \<Rightarrow> cors_options" where
  "expose_headers hs o1 = fold expose_header hs o1"

definition allow_credentials :: "cors_options \<Rightarrow> cors_options" where
  "allow_credentials o1 = o1\<lparr>co_credentials := True\<rparr>"

definition with_max_age :: "nat \<Rightarrow> cors_options \<Rightarrow> cors_options" where
  "with_max_age seconds o1 = o1\<lparr>co_max_age := Some seconds\<rparr>"

definition allowed_origin_header :: "'m boot_request \<Rightarrow> cors_options \<Rightarrow> str option" where
  "allowed_origin_header request o1 =
     (case request_header request ''origin'' of
        None \<Rightarrow> None
      | Some origin \<Rightarrow>
          (case co_origins o1 of
             AnyOrigin \<Rightarrow> if co_credentials o1 then Some origin else Some ''*''
           | ExactOrigins os \<Rightarrow> if List.member os origin then Some origin else None))"

definition requested_preflight_method :: "'m boot_request \<Rightarrow> http_method result" where
  "requested_preflight_method request =
     (let v = (case request_header request ''access-control-request-method'' of Some v \<Rightarrow> v | None \<Rightarrow> []);
          m = to_ascii_uppercase (trim v) in
      case method_from_str m of
        Inr x \<Rightarrow> Inr x
      | Inl _ \<Rightarrow> Inl (BadRequest (''invalid CORS request method: '' @ m)))"

definition parse_cors_header_list :: "str \<Rightarrow> str list" where
  "parse_cors_header_list v = map to_ascii_lowercase (filter (\<lambda>h. h \<noteq> []) (map trim (split_on CHR '','' v)))"

definition requested_headers :: "'m boot_request \<Rightarrow> str list" where
  "requested_headers request =
     (case request_header request ''access-control-request-headers'' of
        Some v \<Rightarrow> parse_cors_header_list v | None \<Rightarrow> [])"

definition allowed_request_headers :: "'m boot_request \<Rightarrow> cors_options \<Rightarrow> str option result" where
  "allowed_request_headers request o1 =
     (let requested = requested_headers request in
      case co_headers o1 of
        AnyRequested \<Rightarrow> Inr (if requested = [] then None else Some (join_with '','' requested))
      | ExactHeaders hs \<Rightarrow>
          (case List.find (\<lambda>h. \<not> List.member hs h) requested of
             Some h \<Rightarrow> Inl (Forbidden (''CORS request header is not allowed: '' @ h))
           | None \<Rightarrow> Inr (if hs = [] then None else Some (join_with '','' hs))))"

definition cors_methods_header :: "http_method list \<Rightarrow> str" where
  "cors_methods_header ms =
     join_with '','' (map method_as_str
       (filter (\<lambda>m. List.member ms m) [M_Get, M_Head, M_Post, M_Put, M_Patch, M_Delete, M_Options]))"

definition ensure_vary_header :: "str \<Rightarrow> boot_response \<Rightarrow> boot_response" where
  "ensure_vary_header name r =
     (case response_header r ''vary'' of
        None \<Rightarrow> response_with_header ''vary'' name r
      | Some vary \<Rightarrow>
          if list_ex (\<lambda>v. v = ''*'' \<or> eq_ignore_ascii_case v name) (map trim (split_on CHR '','' vary))
          then r
          else response_with_header ''vary'' (vary @ '', '' @ name) r)"

definition ensure_vary_headers :: "str list \<Rightarrow> boot_response \<Rightarrow> boot_response" where
  "ensure_vary_headers names r = fold ensure_vary_header names r"

definition opt_header :: "str \<Rightarrow> str option \<Rightarrow> boot_response \<Rightarrow> boot_response" where
  "opt_header name v r = (case v of Some x \<Rightarrow> response_with_header name x r | None \<Rightarrow> r)"

definition cors_preflight_response :: "'m boot_request \<Rightarrow> cors_options \<Rightarrow> boot_response option result" where
  "cors_preflight_response request o1 =
     (if rq_method request \<noteq> M_Options \<or> request_header request ''origin'' = None
         \<or> request_header request ''access-control-request-method'' = None
      then Inr None
      else rbind (requested_preflight_method request) (\<lambda>m.
        if \<not> List.member (co_methods o1) m then Inl (Forbidden ''CORS request method is not allowed'')
        else (case allowed_origin_header request o1 of
                None \<Rightarrow> Inl (Forbidden ''CORS origin is not allowed'')
              | Some origin \<Rightarrow>
                  rbind (allowed_request_headers request o1) (\<lambda>hs.
                    Inr (Some (ensure_vary_headers
                        [''origin'', ''access-control-request-method'', ''access-control-request-headers'']
                      (opt_header ''access-control-allow-headers'' hs
                      (opt_header ''access-control-max-age'' (map_option show_nat (co_max_age o1))
                      (opt_header ''access-control-allow-credentials'' (if co_credentials o1 then Some ''true'' else None)
                      (response_with_header ''access-control-allow-methods'' (cors_methods_header (co_methods o1))
                      (response_with_header ''access-control-allow-origin'' origin
                      (response_empty 204))))))))))))"

definition add_actual_cors_headers :: "boot_response \<Rightarrow> 'm boot_request \<Rightarrow> cors_options \<Rightarrow> boot_response" where
  "add_actual_cors_headers r request o1 =
     (case allowed_origin_header request o1 of
        None \<Rightarrow> r
      | Some origin \<Rightarrow>
          (let r1 = opt_header ''access-control-expose-headers''
                 (if co_exposed o1 = [] then None else Some (join_with '','' (co_exposed o1)))
               (opt_header ''access-control-allow-credentials'' (if co_credentials o1 then Some ''true'' else None)
               (response_with_header ''access-control-allow-origin'' origin r))
           in if origin \<noteq> ''*'' then ensure_vary_headers [''origin''] r1 else r1))"

definition cors_middleware :: "cors_options \<Rightarrow> ('w, 'm) middleware" where
  "cors_middleware o1 request w =
     (rmap (\<lambda>r. case r of Some response \<Rightarrow> Respond response | None \<Rightarrow> Continue request)
        (cors_preflight_response request o1), w)"

definition cors_preflight_route :: "cors_options \<Rightarrow> ('w, 'm) route_handler" where
  "cors_preflight_route o1 request w =
     (rbind (cors_preflight_response request o1) (\<lambda>r. case r of
        Some response \<Rightarrow> Inr response
      | None \<Rightarrow> Inl (MethodNotAllowed (method_as_str (rq_method request) @ '' '' @ rq_path request))), w)"

definition cors_response_interceptor :: "cors_options \<Rightarrow> ('w, 'm, 'v) interceptor" where
  "cors_response_interceptor o1 =
     default_intercept (\<lambda>_ w. (Inr (), w)) (\<lambda>_ w. (Inr None, w))
       (\<lambda>ctx r w. (Inr (add_actual_cors_headers r (ec_request ctx) o1), w))"

section \<open>CSRF\<close>

record csrf_options =
  cf_header_name :: str
  cf_cookie_name :: str
  cf_methods :: "http_method list"

definition csrf_options_default :: csrf_options where
  "csrf_options_default =
     \<lparr>cf_header_name = ''x-csrf-token'', cf_cookie_name = ''csrf-token'',
      cf_methods = bs_of_list [M_Post, M_Put, M_Patch, M_Delete]\<rparr>"

definition protect_method :: "http_method \<Rightarrow> csrf_options \<Rightarrow> csrf_options" where
  "protect_method m o1 = o1\<lparr>cf_methods := insert_http_method m (cf_methods o1)\<rparr>"

definition protect_methods :: "http_method list \<Rightarrow> csrf_options \<Rightarrow> csrf_options" where
  "protect_methods ms o1 = o1\<lparr>cf_methods := collect_http_methods ms\<rparr>"

definition skip_method :: "http_method \<Rightarrow> csrf_options \<Rightarrow> csrf_options" where
  "skip_method m o1 =
     (if is_wildcard m then o1\<lparr>cf_methods := []\<rparr> else o1\<lparr>cf_methods := filter (\<lambda>x. x \<noteq> m) (cf_methods o1)\<rparr>)"

definition protects_method :: "csrf_options \<Rightarrow> http_method \<Rightarrow> bool" where
  "protects_method o1 m = List.member (cf_methods o1) m"

definition csrf_guard :: "csrf_options \<Rightarrow> ('w, 'm, 'v) guard" where
  "csrf_guard o1 ctx w =
     ((if \<not> protects_method o1 (ec_method ctx) then Inr True
       else
         (let header_token = opt_filter (\<lambda>t. t \<noteq> []) (map_option trim (request_header (ec_request ctx) (cf_header_name o1)))
          in rbind (request_cookie (ec_request ctx) (cf_cookie_name o1)) (\<lambda>cookie.
            (let cookie_token = opt_filter (\<lambda>t. t \<noteq> []) (map_option trim cookie) in
             case (header_token, cookie_token) of
               (Some h, Some c) \<Rightarrow> if h = c then Inr True else Inl (Forbidden ''invalid CSRF token'')
             | _ \<Rightarrow> Inl (Forbidden ''invalid CSRF token''))))), w)"

section \<open>Security headers\<close>

record security_headers_options =
  sh_content_type_options :: "str option"
  sh_frame_options :: "str option"
  sh_referrer_policy :: "str option"
  sh_opener_policy :: "str option"
  sh_resource_policy :: "str option"
  sh_content_security_policy :: "str option"
  sh_strict_transport_security :: "str option"
  sh_extra :: "(str, str) btree"

definition security_headers_default :: security_headers_options where
  "security_headers_default =
     \<lparr>sh_content_type_options = Some ''nosniff'', sh_frame_options = Some ''DENY'',
      sh_referrer_policy = Some ''no-referrer'', sh_opener_policy = Some ''same-origin'',
      sh_resource_policy = Some ''same-origin'', sh_content_security_policy = None,
      sh_strict_transport_security = None, sh_extra = []\<rparr>"

definition security_with_header :: "str \<Rightarrow> str \<Rightarrow> security_headers_options \<Rightarrow> security_headers_options" where
  "security_with_header name v o1 = o1\<lparr>sh_extra := bt_insert name v (sh_extra o1)\<rparr>"

definition set_header_if_missing :: "str \<Rightarrow> str option \<Rightarrow> boot_response \<Rightarrow> boot_response" where
  "set_header_if_missing name v r =
     (case v of
        Some x \<Rightarrow> if response_header r name = None then response_with_header name x r else r
      | None \<Rightarrow> r)"

definition add_security_headers :: "security_headers_options \<Rightarrow> boot_response \<Rightarrow> boot_response" where
  "add_security_headers o1 r =
     fold (\<lambda>(n, v) r. if response_header r n = None then response_with_header n v r else r) (sh_extra o1)
       (set_header_if_missing ''strict-transport-security'' (sh_strict_transport_security o1)
       (set_header_if_missing ''content-security-policy'' (sh_content_security_policy o1)
       (set_header_if_missing ''cross-origin-resource-policy'' (sh_resource_policy o1)
       (set_header_if_missing ''cross-origin-opener-policy'' (sh_opener_policy o1)
       (set_header_if_missing ''referrer-policy'' (sh_referrer_policy o1)
       (set_header_if_missing ''x-frame-options'' (sh_frame_options o1)
       (set_header_if_missing ''x-content-type-options'' (sh_content_type_options o1) r)))))))"

definition security_headers_interceptor :: "security_headers_options \<Rightarrow> ('w, 'm, 'v) interceptor" where
  "security_headers_interceptor o1 =
     default_intercept (\<lambda>_ w. (Inr (), w)) (\<lambda>_ w. (Inr None, w)) (\<lambda>_ r w. (Inr (add_security_headers o1 r), w))"

section \<open>Headers of responses\<close>

lemma header_put:
  "headers_normal (rs_headers r) \<Longrightarrow> response_header (response_with_header n v r) m =
     (if eq_ignore_ascii_case n m then Some v else response_header r m)"
  by (simp add: response_header_def rs.get_put)

lemma put_frame [simp]:
  "rs_status (response_with_header n v r) = rs_status r" "rs_body (response_with_header n v r) = rs_body r"
  "rs_appended_headers (response_with_header n v r) = rs_appended_headers r"
  "rs_stream (response_with_header n v r) = rs_stream r"
  by (simp_all add: response_with_header_def)

lemma opt_header_frame [simp]:
  "rs_status (opt_header n v r) = rs_status r" "rs_body (opt_header n v r) = rs_body r"
  "headers_normal (rs_headers r) \<Longrightarrow> headers_normal (rs_headers (opt_header n v r))"
  by (simp_all add: opt_header_def rs.put_normal split: option.split)

lemma opt_header_get:
  "headers_normal (rs_headers r) \<Longrightarrow> response_header (opt_header n v r) m =
     (if eq_ignore_ascii_case n m \<and> v \<noteq> None then v else response_header r m)"
  by (simp add: opt_header_def header_put split: option.split)

text \<open>The names listed in the \<open>Vary\<close> field of a response.\<close>

definition vary_lists :: "boot_response \<Rightarrow> str \<Rightarrow> bool" where
  "vary_lists r name \<longleftrightarrow>
     (case response_header r ''vary'' of
        None \<Rightarrow> False
      | Some vary \<Rightarrow> \<exists>v \<in> set (split_on CHR '','' vary). trim v = ''*'' \<or> eq_ignore_ascii_case (trim v) name)"

lemma split_on_concat: "split_on c (x @ c # y) = split_on c x @ split_on c y"
proof (induction x)
  case (Cons a x)
  show ?case
  proof (cases "a = c")
    case False
    obtain h t where s: "split_on c x = h # t" using split_on_neq_Nil by (meson neq_Nil_conv)
    with Cons False show ?thesis by simp
  qed (use Cons in simp)
qed simp

lemma split_on_join: "xs \<noteq> [] \<Longrightarrow> split_on c (join_with [c] xs) = concat (map (split_on c) xs)"
proof (induction xs)
  case (Cons x xs)
  then show ?case by (cases xs) (simp_all add: split_on_concat)
qed simp

lemma ensure_vary_normal [simp]:
  "headers_normal (rs_headers r) \<Longrightarrow> headers_normal (rs_headers (ensure_vary_header n r))"
  by (auto simp: ensure_vary_header_def rs.put_normal split: option.splits)

lemma ensure_vary_frame [simp]:
  "rs_status (ensure_vary_header n r) = rs_status r" "rs_body (ensure_vary_header n r) = rs_body r"
  by (auto simp: ensure_vary_header_def split: option.splits)

lemma ensure_vary_other:
  "headers_normal (rs_headers r) \<Longrightarrow> \<not> eq_ignore_ascii_case ''vary'' m \<Longrightarrow>
     response_header (ensure_vary_header n r) m = response_header r m"
  by (auto simp: ensure_vary_header_def header_put split: option.splits)

lemma vary_refl: "eq_ignore_ascii_case ''vary'' ''vary''"
  by simp

lemma ensure_vary_lists:
  assumes r: "headers_normal (rs_headers r)" and name: "CHR '','' \<notin> set name" "trim (CHR '' '' # name) = name" "trim name = name"
  shows "vary_lists (ensure_vary_header name r) name \<and> (vary_lists r m \<longrightarrow> vary_lists (ensure_vary_header name r) m)"
proof (cases "response_header r ''vary''")
  case None
  with r name show ?thesis
    by (simp add: ensure_vary_header_def vary_lists_def header_put split_on_free)
next
  case (Some vary)
  have s: "split_on CHR '','' (vary @ '', '' @ name) = split_on CHR '','' vary @ [CHR '' '' # name]"
    using name(1) by (simp add: split_on_concat [of _ vary "CHR '' '' # name", simplified] split_on_free)
  show ?thesis
  proof (cases "list_ex (\<lambda>v. v = ''*'' \<or> eq_ignore_ascii_case v name) (map trim (split_on CHR '','' vary))")
    case True
    with Some show ?thesis by (auto simp: ensure_vary_header_def vary_lists_def list_ex_iff)
  next
    case False
    with Some r have h: "response_header (ensure_vary_header name r) ''vary'' = Some (vary @ '', '' @ name)"
      by (simp add: ensure_vary_header_def header_put)
    show ?thesis using name(2) Some unfolding vary_lists_def h option.case s by auto
  qed
qed

lemma ensure_varies:
  "headers_normal (rs_headers r) \<Longrightarrow>
     (\<forall>n \<in> set names. CHR '','' \<notin> set n \<and> trim (CHR '' '' # n) = n \<and> trim n = n) \<Longrightarrow>
     headers_normal (rs_headers (ensure_vary_headers names r)) \<and>
     rs_status (ensure_vary_headers names r) = rs_status r \<and> rs_body (ensure_vary_headers names r) = rs_body r \<and>
     (\<forall>m. \<not> eq_ignore_ascii_case ''vary'' m \<longrightarrow> response_header (ensure_vary_headers names r) m = response_header r m) \<and>
     (\<forall>n \<in> set names. vary_lists (ensure_vary_headers names r) n) \<and>
     (\<forall>m. vary_lists r m \<longrightarrow> vary_lists (ensure_vary_headers names r) m)"
proof (induction names arbitrary: r)
  case Nil
  then show ?case by (simp add: ensure_vary_headers_def)
next
  case (Cons n names)
  let ?r = "ensure_vary_header n r"
  have e: "ensure_vary_headers (n # names) r = ensure_vary_headers names ?r"
    by (simp add: ensure_vary_headers_def)
  have l: "vary_lists ?r n" "\<And>m. vary_lists r m \<Longrightarrow> vary_lists ?r m"
    using ensure_vary_lists [of r n] Cons.prems by auto
  from Cons.IH [of ?r] Cons.prems l show ?case
    unfolding e by (auto simp: ensure_vary_other)
qed

section \<open>What a preflight is granted\<close>

text \<open>Whether the options allow what a preflight request asks for.\<close>

definition origin_allowed :: "str \<Rightarrow> cors_options \<Rightarrow> bool" where
  "origin_allowed origin o1 = (case co_origins o1 of AnyOrigin \<Rightarrow> True | ExactOrigins os \<Rightarrow> origin \<in> set os)"

definition headers_allowed :: "str list \<Rightarrow> cors_options \<Rightarrow> bool" where
  "headers_allowed hs o1 = (case co_headers o1 of AnyRequested \<Rightarrow> True | ExactHeaders ok \<Rightarrow> set hs \<subseteq> set ok)"

lemma allowed_origin_Some:
  "allowed_origin_header q o1 = Some a \<longleftrightarrow>
     (\<exists>origin. request_header q ''origin'' = Some origin \<and> origin_allowed origin o1 \<and>
        a = (if co_origins o1 = AnyOrigin \<and> \<not> co_credentials o1 then ''*'' else origin))"
  by (auto simp: allowed_origin_header_def origin_allowed_def
      split: option.splits cors_origin_policy.splits)

lemma allowed_headers_Inr:
  "(\<exists>hs. allowed_request_headers q o1 = Inr hs) \<longleftrightarrow> headers_allowed (requested_headers q) o1"
  by (auto simp: allowed_request_headers_def headers_allowed_def Let_def find_None_iff_all
      split: cors_header_policy.splits option.splits dest!: find_SomeD)

lemma lower_comma: "ascii_lower_char c = CHR '','' \<longleftrightarrow> c = CHR '',''"
  by (rule ascii_lower_eq_nonletter) (simp_all add: byte_def)

lemma lower_no_comma: "CHR '','' \<notin> set l \<Longrightarrow> CHR '','' \<notin> set (to_ascii_lowercase l)"
  using lower_comma by (force simp: to_ascii_lowercase_def)

lemma requested_header_free: "h \<in> set (requested_headers q) \<Longrightarrow> CHR '','' \<notin> set h"
proof -
  assume "h \<in> set (requested_headers q)"
  then obtain v x where x: "x \<in> set (split_on CHR '','' v)" and h: "h = to_ascii_lowercase (trim x)"
    by (auto simp: requested_headers_def parse_cors_header_list_def split: option.splits)
  from split_on_no_sep [OF x] set_trim_subset [of x] have "CHR '','' \<notin> set (trim x)" by blast
  then show ?thesis unfolding h by (rule lower_no_comma)
qed

lemma allowed_headers_cover:
  assumes "allowed_request_headers q o1 = Inr hs" "h \<in> set (requested_headers q)"
  shows "\<exists>v. hs = Some v \<and> h \<in> set (split_on CHR '','' v)"
proof -
  have split_h: "split_on CHR '','' h = [h]" using requested_header_free [OF assms(2)] by (rule split_on_free)
  have "\<exists>xs. hs = Some (join_with '','' xs) \<and> h \<in> set xs"
  proof (cases "co_headers o1")
    case AnyRequested
    with assms show ?thesis by (auto simp: allowed_request_headers_def Let_def split: if_splits)
  next
    case (ExactHeaders ok)
    with assms have "h \<in> set ok" "ok \<noteq> []" "hs = Some (join_with '','' ok)"
      by (auto simp: allowed_request_headers_def Let_def find_None_iff_all
          split: option.splits if_splits)
    then show ?thesis by blast
  qed
  then obtain xs where xs: "hs = Some (join_with '','' xs)" "h \<in> set xs" by blast
  then have "h \<in> set (split_on CHR '','' (join_with '','' xs))"
    using split_h by (subst split_on_join) (auto intro!: bexI [of _ h])
  with xs show ?thesis by blast
qed

definition is_preflight :: "'m boot_request \<Rightarrow> bool" where
  "is_preflight q \<longleftrightarrow> rq_method q = M_Options \<and> request_header q ''origin'' \<noteq> None \<and>
     request_header q ''access-control-request-method'' \<noteq> None"

definition preflight_allowed :: "'m boot_request \<Rightarrow> cors_options \<Rightarrow> bool" where
  "preflight_allowed q o1 \<longleftrightarrow>
     (\<exists>m. requested_preflight_method q = Inr m \<and> m \<in> set (co_methods o1)) \<and>
     (\<exists>origin. request_header q ''origin'' = Some origin \<and> origin_allowed origin o1) \<and>
     headers_allowed (requested_headers q) o1"

definition preflight_answer :: "'m boot_request \<Rightarrow> cors_options \<Rightarrow> str option \<Rightarrow> str \<Rightarrow> boot_response" where
  "preflight_answer q o1 hs origin =
     ensure_vary_headers [''origin'', ''access-control-request-method'', ''access-control-request-headers'']
       (opt_header ''access-control-allow-headers'' hs
       (opt_header ''access-control-max-age'' (map_option show_nat (co_max_age o1))
       (opt_header ''access-control-allow-credentials'' (if co_credentials o1 then Some ''true'' else None)
       (response_with_header ''access-control-allow-methods'' (cors_methods_header (co_methods o1))
       (response_with_header ''access-control-allow-origin'' origin
       (response_empty 204))))))"

lemma preflight_cases:
  "cors_preflight_response q o1 = Inr None \<longleftrightarrow> \<not> is_preflight q"
  "cors_preflight_response q o1 = Inr (Some r) \<longleftrightarrow> is_preflight q \<and>
     (\<exists>m origin hs. requested_preflight_method q = Inr m \<and> m \<in> set (co_methods o1) \<and>
        allowed_origin_header q o1 = Some origin \<and> allowed_request_headers q o1 = Inr hs \<and>
        r = preflight_answer q o1 hs origin)"
  by (auto simp: cors_preflight_response_def is_preflight_def preflight_answer_def result_simps
      split: option.splits)

lemma distinct_names:
  "eq_ignore_ascii_case ''access-control-allow-origin'' ''access-control-allow-methods'' = False"
  "eq_ignore_ascii_case ''access-control-allow-methods'' ''access-control-allow-origin'' = False"
  "eq_ignore_ascii_case ''access-control-allow-credentials'' ''access-control-allow-origin'' = False"
  "eq_ignore_ascii_case ''access-control-max-age'' ''access-control-allow-origin'' = False"
  "eq_ignore_ascii_case ''access-control-allow-headers'' ''access-control-allow-origin'' = False"
  "eq_ignore_ascii_case ''vary'' ''access-control-allow-origin'' = False"
  "eq_ignore_ascii_case ''access-control-allow-origin'' ''access-control-allow-credentials'' = False"
  "eq_ignore_ascii_case ''access-control-allow-methods'' ''access-control-allow-credentials'' = False"
  "eq_ignore_ascii_case ''access-control-max-age'' ''access-control-allow-credentials'' = False"
  "eq_ignore_ascii_case ''access-control-allow-headers'' ''access-control-allow-credentials'' = False"
  "eq_ignore_ascii_case ''vary'' ''access-control-allow-credentials'' = False"
  "eq_ignore_ascii_case ''vary'' ''access-control-allow-headers'' = False"
  "eq_ignore_ascii_case ''access-control-allow-credentials'' ''access-control-allow-methods'' = False"
  "eq_ignore_ascii_case ''access-control-max-age'' ''access-control-allow-methods'' = False"
  "eq_ignore_ascii_case ''access-control-allow-headers'' ''access-control-allow-methods'' = False"
  "eq_ignore_ascii_case ''vary'' ''access-control-allow-methods'' = False"
  "eq_ignore_ascii_case ''access-control-allow-origin'' ''access-control-allow-headers'' = False"
  "eq_ignore_ascii_case ''access-control-allow-methods'' ''access-control-allow-headers'' = False"
  "eq_ignore_ascii_case ''access-control-allow-credentials'' ''access-control-allow-headers'' = False"
  "eq_ignore_ascii_case ''access-control-max-age'' ''access-control-allow-headers'' = False"
  by code_simp+

lemma plain_vary_names:
  "\<forall>n \<in> set [''origin'', ''access-control-request-method'', ''access-control-request-headers''].
     CHR '','' \<notin> set n \<and> trim (CHR '' '' # n) = n \<and> trim n = n"
  by code_simp

lemma response_empty_normal [simp]: "headers_normal (rs_headers (response_empty s))"
  by (simp add: response_empty_def response_new_def)

lemma preflight_answer_headers:
  "rs_status (preflight_answer q o1 hs origin) = 204 \<and> rs_body (preflight_answer q o1 hs origin) = [] \<and>
   response_header (preflight_answer q o1 hs origin) ''access-control-allow-origin'' = Some origin \<and>
   response_header (preflight_answer q o1 hs origin) ''access-control-allow-methods'' =
     Some (cors_methods_header (co_methods o1)) \<and>
   response_header (preflight_answer q o1 hs origin) ''access-control-allow-credentials'' =
     (if co_credentials o1 then Some ''true'' else None) \<and>
   response_header (preflight_answer q o1 hs origin) ''access-control-allow-headers'' = hs \<and>
   (\<forall>n \<in> set [''origin'', ''access-control-request-method'', ''access-control-request-headers''].
      vary_lists (preflight_answer q o1 hs origin) n)"
proof -
  let ?r = "opt_header ''access-control-allow-headers'' hs
       (opt_header ''access-control-max-age'' (map_option show_nat (co_max_age o1))
       (opt_header ''access-control-allow-credentials'' (if co_credentials o1 then Some ''true'' else None)
       (response_with_header ''access-control-allow-methods'' (cors_methods_header (co_methods o1))
       (response_with_header ''access-control-allow-origin'' origin
       (response_empty 204)))))"
  have n: "headers_normal (rs_headers ?r)" by (simp add: rs.put_normal)
  have e: "response_header (response_empty 204) m = None" for m
    by (simp add: response_header_def response_empty_def response_new_def get_header_def)
  note v = ensure_varies [OF n plain_vary_names]
  have g: "response_header ?r ''access-control-allow-origin'' = Some origin"
    "response_header ?r ''access-control-allow-methods'' = Some (cors_methods_header (co_methods o1))"
    "response_header ?r ''access-control-allow-credentials'' = (if co_credentials o1 then Some ''true'' else None)"
    "response_header ?r ''access-control-allow-headers'' = hs"
    by (simp_all add: opt_header_get header_put rs.put_normal distinct_names e)
  have s: "rs_status ?r = 204" "rs_body ?r = []" by (simp_all add: response_empty_def response_new_def)
  from v g s show ?thesis unfolding preflight_answer_def by (simp add: distinct_names)
qed


definition example_preflight :: "unit boot_request" where
  "example_preflight =
     request_with_header ''access-control-request-headers'' ''X-Id, accept''
       (request_with_header ''access-control-request-method'' ''put''
       (request_with_header ''origin'' ''https://a.example''
       (request_new Inr M_Options ''/items'')))"


section \<open>The CSRF guard\<close>

text \<open>
  C23. The CSRF guard never changes anything, lets every unprotected method pass, and lets a
  request with a protected method pass exactly if its header and its cookie carry the same
  token, which is not blank; a request that it does not let pass ends with an error, never
  with a plain refusal.
\<close>

theorem csrf_exact:
  "snd (csrf_guard o1 ctx w) = w
   \<and> (fst (csrf_guard o1 ctx w) = Inr True \<longleftrightarrow>
        ec_method ctx \<notin> set (cf_methods o1)
        \<or> (\<exists>h c. request_header (ec_request ctx) (cf_header_name o1) = Some h
             \<and> request_cookie (ec_request ctx) (cf_cookie_name o1) = Inr (Some c)
             \<and> trim h = trim c \<and> trim h \<noteq> []))
   \<and> fst (csrf_guard o1 ctx w) \<noteq> Inr False"
  by (cases "request_header (ec_request ctx) (cf_header_name o1)";
      cases "request_cookie (ec_request ctx) (cf_cookie_name o1)")
    (auto simp: csrf_guard_def protects_method_def opt_filter_def Let_def split: option.splits if_splits)

theorem csrf_exact_witness:
  "fst (csrf_guard csrf_options_default
      (execution_context_new
        (request_with_header ''X-Csrf-Token'' ''t1'' (request_with_header ''cookie'' ''csrf-token=t1'' (request_new Inr M_Post ''/'')))
        ''/'' None None serialization_default []) ()) = Inr True"
proof -
  let ?q = "request_with_header ''X-Csrf-Token'' ''t1'' (request_with_header ''cookie'' ''csrf-token=t1'' (request_new Inr M_Post ''/''))"
  let ?ctx = "execution_context_new ?q ''/'' None None serialization_default []"
  have "request_header (ec_request ?ctx) (cf_header_name csrf_options_default) = Some ''t1''"
    "request_cookie (ec_request ?ctx) (cf_cookie_name csrf_options_default) = Inr (Some ''t1'')"
    "trim ''t1'' \<noteq> []"
    by code_simp+
  then show ?thesis using csrf_exact [of csrf_options_default ?ctx "()"] by blast
qed

lemma csrf_methods_sets:
  "set (cf_methods (protect_methods ms o1)) = {m. m \<in> set ms \<and> \<not> is_wildcard m} \<union> (if M_All \<in> set ms then set standard_methods else {})"
proof -
  have "set (fold insert_http_method ms acc) =
      {m. m \<in> set ms \<and> \<not> is_wildcard m} \<union> (if M_All \<in> set ms then set standard_methods else {}) \<union> set acc" for acc
    by (induction ms arbitrary: acc) (auto simp: set_insert_http_method is_wildcard_def)
  then show ?thesis by (simp add: protect_methods_def collect_http_methods_def)
qed

section \<open>The security headers\<close>

text \<open>The configured headers in the order in which they are considered.\<close>

definition configured_headers :: "security_headers_options \<Rightarrow> (str \<times> str) list" where
  "configured_headers o1 =
     List.map_filter (\<lambda>(n, v). map_option (Pair n) v)
       [(''x-content-type-options'', sh_content_type_options o1), (''x-frame-options'', sh_frame_options o1),
        (''referrer-policy'', sh_referrer_policy o1), (''cross-origin-opener-policy'', sh_opener_policy o1),
        (''cross-origin-resource-policy'', sh_resource_policy o1),
        (''content-security-policy'', sh_content_security_policy o1),
        (''strict-transport-security'', sh_strict_transport_security o1)] @ sh_extra o1"

definition put_missing :: "str \<times> str \<Rightarrow> boot_response \<Rightarrow> boot_response" where
  "put_missing h r = (case h of (n, v) \<Rightarrow> if response_header r n = None then response_with_header n v r else r)"

lemma set_header_put_missing:
  "set_header_if_missing n v r = fold put_missing (case v of Some x \<Rightarrow> [(n, x)] | None \<Rightarrow> []) r"
  by (simp add: set_header_if_missing_def put_missing_def split: option.split)

lemma add_security_headers_fold: "add_security_headers o1 r = fold put_missing (configured_headers o1) r"
proof -
  have "configured_headers o1 = concat (map (\<lambda>(n, v). case v of Some x \<Rightarrow> [(n, x)] | None \<Rightarrow> [])
       [(''x-content-type-options'', sh_content_type_options o1), (''x-frame-options'', sh_frame_options o1),
        (''referrer-policy'', sh_referrer_policy o1), (''cross-origin-opener-policy'', sh_opener_policy o1),
        (''cross-origin-resource-policy'', sh_resource_policy o1),
        (''content-security-policy'', sh_content_security_policy o1),
        (''strict-transport-security'', sh_strict_transport_security o1)]) @ sh_extra o1"
    by (simp add: configured_headers_def List.map_filter_simps split: option.split)
  moreover have "(\<lambda>(n, v) r. if response_header r n = None then response_with_header n v r else r) = put_missing"
    by (auto simp: fun_eq_iff put_missing_def)
  ultimately show ?thesis by (simp add: add_security_headers_def set_header_put_missing)
qed

lemma put_missing_normal: "headers_normal (rs_headers r) \<Longrightarrow> headers_normal (rs_headers (put_missing h r))"
  by (auto simp: put_missing_def rs.put_normal split: prod.splits)

lemma response_header_cong:
  "eq_ignore_ascii_case n m \<Longrightarrow> response_header r n = response_header r m"
  by (simp add: response_header_def get_header_def normalize_header_name_def eq_ignore_ascii_case_def)

lemma put_missing_get:
  "headers_normal (rs_headers r) \<Longrightarrow> response_header (put_missing (n, v) r) m =
     or_else (response_header r m) (if eq_ignore_ascii_case n m then Some v else None)"
  by (cases "response_header r m") (auto simp: put_missing_def header_put response_header_cong)

lemma put_missings_get:
  "headers_normal (rs_headers r) \<Longrightarrow> response_header (fold put_missing hs r) m =
     or_else (response_header r m) (map_option snd (List.find (\<lambda>(n, v). eq_ignore_ascii_case n m) hs))"
proof (induction hs arbitrary: r)
  case Nil
  then show ?case by (cases "response_header r m") simp_all
next
  case (Cons h hs)
  obtain n v where h: "h = (n, v)" by (cases h)
  from Cons.IH [OF put_missing_normal [OF Cons.prems, of h]] put_missing_get [OF Cons.prems, of n v m]
  show ?case by (cases "response_header r m") (auto simp: h)
qed

lemma put_missings_frame:
  "rs_status (fold put_missing hs r) = rs_status r \<and> rs_body (fold put_missing hs r) = rs_body r \<and>
   rs_appended_headers (fold put_missing hs r) = rs_appended_headers r \<and> rs_stream (fold put_missing hs r) = rs_stream r"
  by (induction hs arbitrary: r) (auto simp: put_missing_def split: prod.splits)

text \<open>
  The security headers never override a header of the handler, whatever its spelling;
  a header that the handler left out gets the configured value, that of the first entry
  with this name where several are configured; and nothing else of the response changes.
\<close>

theorem security_headers_exact:
  assumes "headers_normal (rs_headers r)"
  shows "response_header (add_security_headers o1 r) m =
      or_else (response_header r m)
        (map_option snd (List.find (\<lambda>(n, v). eq_ignore_ascii_case n m) (configured_headers o1)))
    \<and> rs_status (add_security_headers o1 r) = rs_status r \<and> rs_body (add_security_headers o1 r) = rs_body r
    \<and> rs_appended_headers (add_security_headers o1 r) = rs_appended_headers r
    \<and> rs_stream (add_security_headers o1 r) = rs_stream r"
  unfolding add_security_headers_fold using put_missings_get [OF assms] put_missings_frame by simp

theorem security_headers_exact_witness:
  "response_header (add_security_headers security_headers_default (response_with_header ''X-Frame-Options'' ''SAMEORIGIN''
     (response_empty 200))) ''x-frame-options'' = Some ''SAMEORIGIN''"
proof -
  have "headers_normal (rs_headers (response_with_header ''X-Frame-Options'' ''SAMEORIGIN'' (response_empty 200)))"
    by (simp add: rs.put_normal)
  moreover have "response_header (response_with_header ''X-Frame-Options'' ''SAMEORIGIN'' (response_empty 200)) ''x-frame-options''
      = Some ''SAMEORIGIN''" by code_simp
  ultimately show ?thesis by (simp add: security_headers_exact)
qed

end
