(* ===== verification/Rate_Limit.thy ===== *)
theory Rate_Limit
  imports Pipeline "HOL-Library.Product_Lexorder"
begin

text \<open>
  \<open>src/security/rate_limit.rs\<close>: the options, the identity of a client, the in-memory fixed
  window provider and the guard. Instants and durations are natural numbers of one unit;
  the provider holds its lock for a whole call, so a history of calls is a list in the
  order of the lock. SHA-256 with its hexadecimal rendering is the argument \<open>sha\<close>.
\<close>

section \<open>Options and identities\<close>

record rate_limit_options =
  rl_policy_id :: str
  rl_max_requests :: nat
  rl_window :: nat
  rl_key_headers :: "str list"
  rl_use_bearer :: bool
  rl_anonymous_key :: str

definition rate_limit_options_default :: "nat \<Rightarrow> rate_limit_options" where
  "rate_limit_options_default second =
     \<lparr>rl_policy_id = ''global'', rl_max_requests = 60, rl_window = 60 * second,
      rl_key_headers = [''x-forwarded-for'', ''x-real-ip''], rl_use_bearer = True, rl_anonymous_key = ''anonymous''\<rparr>"

definition rate_with_policy_id :: "str \<Rightarrow> rate_limit_options \<Rightarrow> rate_limit_options" where
  "rate_with_policy_id p o1 = o1\<lparr>rl_policy_id := p\<rparr>"

definition rate_with_key_headers :: "str list \<Rightarrow> rate_limit_options \<Rightarrow> rate_limit_options" where
  "rate_with_key_headers hs o1 = o1\<lparr>rl_key_headers := hs\<rparr>"

definition without_bearer_token :: "rate_limit_options \<Rightarrow> rate_limit_options" where
  "without_bearer_token o1 = o1\<lparr>rl_use_bearer := False\<rparr>"

definition valid_policy_id :: "str \<Rightarrow> bool" where
  "valid_policy_id v \<longleftrightarrow> v \<noteq> [] \<and> length v \<le> 128 \<and>
     list_all (\<lambda>b. is_ascii_alpha b \<or> is_ascii_digit b \<or>
       b = CHR ''.'' \<or> b = CHR ''_'' \<or> b = CHR ''-'' \<or> b = CHR '':'' \<or> b = CHR ''/'') v"

definition rate_limit_validate :: "rate_limit_options \<Rightarrow> unit result" where
  "rate_limit_validate o1 =
     (if rl_max_requests o1 = 0 then Inl (Internal ''rate limit max_requests must be greater than zero'')
      else if rl_window o1 = 0 then Inl (Internal ''rate limit window must be greater than zero'')
      else if \<not> valid_policy_id (rl_policy_id o1)
      then Inl (Internal ''rate limit policy_id must be 1 to 128 ASCII identifier bytes'')
      else Inr ())"

text \<open>The bytes that are hashed: a prefix, then every part after its length in eight bytes.\<close>

definition be_bytes :: "nat \<Rightarrow> str" where
  "be_bytes n = map (\<lambda>i. char_of (n div 256 ^ (7 - i) mod 256)) [0..<8]"

definition subject_bytes :: "str list \<Rightarrow> str" where
  "subject_bytes parts =
     ''a3s-boot-rate-limit-subject-v1'' @ [CHR 0x00] @ concat (map (\<lambda>p. be_bytes (length p) @ p) parts)"

definition hash_subject :: "(str \<Rightarrow> str) \<Rightarrow> str list \<Rightarrow> str" where
  "hash_subject sha parts = sha (subject_bytes parts)"

text \<open>The first non-empty key header, by its first comma separated element.\<close>

definition key_header_value :: "'m boot_request \<Rightarrow> str \<Rightarrow> str option" where
  "key_header_value q h =
     opt_filter (\<lambda>v. v \<noteq> []) (map_option (\<lambda>v. trim (hd (split_on CHR '','' v))) (request_header q h))"

fun first_key_header :: "'m boot_request \<Rightarrow> str list \<Rightarrow> (str \<times> str) option" where
  "first_key_header q [] = None"
| "first_key_header q (h # hs) =
     (case key_header_value q h of Some v \<Rightarrow> Some (h, v) | None \<Rightarrow> first_key_header q hs)"

definition rate_limit_subject :: "'m boot_request \<Rightarrow> rate_limit_options \<Rightarrow> str list" where
  "rate_limit_subject q o1 =
     (case first_key_header q (rl_key_headers o1) of
        Some (h, v) \<Rightarrow> [rl_policy_id o1, ''header'', to_ascii_lowercase h, v]
      | None \<Rightarrow>
          (case (if rl_use_bearer o1 then bearer_token q else None) of
             Some token \<Rightarrow> [rl_policy_id o1, ''bearer'', token]
           | None \<Rightarrow> [rl_policy_id o1, ''anonymous'', rl_anonymous_key o1]))"

record rate_limit_request =
  rr_policy_id :: str
  rr_subject_hash :: str
  rr_max_requests :: nat
  rr_window :: nat

definition rate_limit_request_of :: "(str \<Rightarrow> str) \<Rightarrow> 'm boot_request \<Rightarrow> rate_limit_options \<Rightarrow> rate_limit_request" where
  "rate_limit_request_of sha q o1 =
     \<lparr>rr_policy_id = rl_policy_id o1, rr_subject_hash = hash_subject sha (rate_limit_subject q o1),
      rr_max_requests = rl_max_requests o1, rr_window = rl_window o1\<rparr>"

datatype rate_limit_decision = Allowed | Limited

section \<open>The in-memory provider\<close>

record rate_limit_bucket =
  rb_started_at :: nat
  rb_count :: nat

record rate_limit_state =
  rs_policies :: "(str, nat \<times> nat) btree"
  rs_buckets :: "(str \<times> str, rate_limit_bucket) btree"

definition rate_limit_state_new :: rate_limit_state where
  "rate_limit_state_new = \<lparr>rs_policies = [], rs_buckets = []\<rparr>"

text \<open>\<open>retain\<close>: buckets of expired windows are dropped, by the window of their policy.\<close>

definition retain_buckets ::
  "nat \<Rightarrow> (str, nat \<times> nat) btree \<Rightarrow> (str \<times> str, rate_limit_bucket) btree
     \<Rightarrow> (str \<times> str, rate_limit_bucket) btree" where
  "retain_buckets now policies buckets =
     filter (\<lambda>((p, h), b). case bt_get policies p of
        Some (m, win) \<Rightarrow> now - rb_started_at b < win | None \<Rightarrow> False) buckets"

text \<open>\<open>or_insert_with\<close> and the reset of a bucket whose window is over.\<close>

definition current_bucket :: "nat \<Rightarrow> nat \<Rightarrow> rate_limit_bucket option \<Rightarrow> rate_limit_bucket" where
  "current_bucket now win b =
     (let b0 = (case b of Some b \<Rightarrow> b | None \<Rightarrow> \<lparr>rb_started_at = now, rb_count = 0\<rparr>) in
      if now - rb_started_at b0 \<ge> win then \<lparr>rb_started_at = now, rb_count = 0\<rparr> else b0)"

definition rate_limit_acquire ::
  "nat \<Rightarrow> rate_limit_request \<Rightarrow> rate_limit_state \<Rightarrow> rate_limit_decision result \<times> rate_limit_state" where
  "rate_limit_acquire now q st =
     (let requested = (rr_max_requests q, rr_window q); known = bt_get (rs_policies st) (rr_policy_id q) in
      if known \<noteq> None \<and> known \<noteq> Some requested
      then (Inl (Internal ''rate limit policy settings conflict across provider clients''), st)
      else
        (let policies = (if known = None then bt_insert (rr_policy_id q) requested (rs_policies st) else rs_policies st);
             buckets = retain_buckets now policies (rs_buckets st);
             key = (rr_policy_id q, rr_subject_hash q);
             b1 = current_bucket now (rr_window q) (bt_get buckets key) in
         if rb_count b1 \<ge> rr_max_requests q
         then (Inr Limited, \<lparr>rs_policies = policies, rs_buckets = bt_insert key b1 buckets\<rparr>)
         else (Inr Allowed, \<lparr>rs_policies = policies,
                 rs_buckets = bt_insert key (b1\<lparr>rb_count := rb_count b1 + 1\<rparr>) buckets\<rparr>)))"

text \<open>A history of calls, with their clock readings, and the answers.\<close>

fun acquire_run ::
  "(nat \<times> rate_limit_request) list \<Rightarrow> rate_limit_state \<Rightarrow> rate_limit_decision result list" where
  "acquire_run [] st = []"
| "acquire_run ((now, q) # qs) st =
     (case rate_limit_acquire now q st of (d, st1) \<Rightarrow> d # acquire_run qs st1)"

section \<open>The guard\<close>

text \<open>\<open>provider\<close> is the trait object; the in-memory one keeps its state in the world.\<close>

definition rate_limit_guard ::
  "(str \<Rightarrow> str) \<Rightarrow> rate_limit_options \<Rightarrow> (rate_limit_request \<Rightarrow> ('w, rate_limit_decision) step) \<Rightarrow> ('w, 'm, 'v) guard" where
  "rate_limit_guard sha o1 provider ctx w =
     (case rate_limit_validate o1 of
        Inl err \<Rightarrow> (Inl err, w)
      | Inr _ \<Rightarrow>
          (case provider (rate_limit_request_of sha (ec_request ctx) o1) w of
             (Inl err, w1) \<Rightarrow> (Inl err, w1)
           | (Inr Allowed, w1) \<Rightarrow> (Inr True, w1)
           | (Inr Limited, w1) \<Rightarrow> (Inl (TooManyRequests ''rate limit exceeded''), w1)))"

definition in_memory_provider ::
  "('w \<Rightarrow> nat) \<Rightarrow> rate_limit_request \<Rightarrow> ('w \<times> rate_limit_state, rate_limit_decision) step" where
  "in_memory_provider now q = (\<lambda>(w, st). case rate_limit_acquire (now w) q st of (d, st1) \<Rightarrow> (d, w, st1))"

section \<open>The fixed window of one client\<close>

text \<open>
  The reference: one client alone, with the start of its window and the requests that were
  allowed in it.
\<close>

definition window_step :: "nat \<Rightarrow> nat \<Rightarrow> nat \<Rightarrow> (nat \<times> nat) option \<Rightarrow> rate_limit_decision \<times> (nat \<times> nat) option" where
  "window_step m win now s =
     (let (start, count) =
        (case s of Some (start, count) \<Rightarrow> if now - start < win then (start, count) else (now, 0) | None \<Rightarrow> (now, 0)) in
      if m \<le> count then (Limited, Some (start, count)) else (Allowed, Some (start, count + 1)))"

fun window_run :: "nat \<Rightarrow> nat \<Rightarrow> nat list \<Rightarrow> (nat \<times> nat) option \<Rightarrow> rate_limit_decision list" where
  "window_run m win [] s = []"
| "window_run m win (t # ts) s = (case window_step m win t s of (d, s1) \<Rightarrow> d # window_run m win ts s1)"

fun window_end :: "nat \<Rightarrow> nat \<Rightarrow> nat list \<Rightarrow> (nat \<times> nat) option \<Rightarrow> (nat \<times> nat) option" where
  "window_end m win [] s = s"
| "window_end m win (t # ts) s = window_end m win ts (snd (window_step m win t s))"

lemma window_run_append:
  "window_run m win (ts @ us) s = window_run m win ts s @ window_run m win us (window_end m win ts s)"
  by (induction ts arbitrary: s) (auto split: prod.splits)

lemma length_window_run [simp]: "length (window_run m win ts s) = length ts"
  by (induction ts arbitrary: s) (auto split: prod.splits)

definition granted :: "rate_limit_decision list \<Rightarrow> nat" where
  "granted ds = length (filter (\<lambda>d. d = Allowed) ds)"

lemma window_same:
  "\<forall>t \<in> set ts. t - start < win \<Longrightarrow> c \<le> m \<Longrightarrow> granted (window_run m win ts (Some (start, c))) \<le> m - c"
proof (induction ts arbitrary: c)
  case (Cons t ts)
  show ?case
  proof (cases "m \<le> c")
    case True
    with Cons.IH [of c] Cons.prems show ?thesis by (simp add: window_step_def granted_def)
  next
    case False
    with Cons.IH [of "Suc c"] Cons.prems show ?thesis by (auto simp: window_step_def granted_def)
  qed
qed (simp add: granted_def)

definition budget_left :: "nat \<Rightarrow> (nat \<times> nat) option \<Rightarrow> nat" where
  "budget_left m s = (case s of Some (start, c) \<Rightarrow> m - c | None \<Rightarrow> 0)"

lemma window_two:
  assumes "\<forall>t \<in> set ts. a \<le> t \<and> t < a + win" "\<And>start c. s = Some (start, c) \<Longrightarrow> c \<le> m"
  shows "granted (window_run m win ts s) \<le> budget_left m s + m"
  using assms
proof (induction ts arbitrary: s)
  case (Cons t ts)
  have rest: "\<forall>u \<in> set ts. u - t < win" using Cons.prems(1) by auto
  show ?case
  proof (cases "\<exists>start c. s = Some (start, c) \<and> t - start < win")
    case False
    then have "window_step m win t s = (if m \<le> 0 then (Limited, Some (t, 0)) else (Allowed, Some (t, 1)))"
      by (auto simp: window_step_def split: option.splits)
    moreover have "granted (window_run m win ts (Some (t, 0))) \<le> m" "m \<noteq> 0 \<Longrightarrow> granted (window_run m win ts (Some (t, 1))) \<le> m - 1"
      using window_same [OF rest] by force+
    ultimately show ?thesis by (auto simp: granted_def split: prod.splits)
  next
    case True
    then obtain start c where s: "s = Some (start, c)" and live: "t - start < win" by blast
    have c: "c \<le> m" using Cons.prems(2) s by blast
    show ?thesis
    proof (cases "m \<le> c")
      case True
      with s live have "window_step m win t s = (Limited, s)" by (simp add: window_step_def)
      with Cons.IH [of s] Cons.prems show ?thesis by (simp add: granted_def)
    next
      case False
      with s live have step: "window_step m win t s = (Allowed, Some (start, Suc c))" by (simp add: window_step_def)
      have "granted (window_run m win ts (Some (start, Suc c))) \<le> budget_left m (Some (start, Suc c)) + m"
        by (rule Cons.IH) (use Cons.prems(1) False in auto)
      with step s False show ?thesis by (simp add: granted_def budget_left_def)
    qed
  qed
qed (simp add: granted_def)

lemma window_end_count:
  "(\<And>start c. s = Some (start, c) \<Longrightarrow> c \<le> m) \<Longrightarrow> window_end m win ts s = Some (start', c') \<Longrightarrow> c' \<le> m"
proof (induction ts arbitrary: s)
  case (Cons t ts)
  show ?case
    by (rule Cons.IH [of "snd (window_step m win t s)"])
      (use Cons.prems in \<open>auto simp: window_step_def Let_def split: option.splits prod.splits if_splits\<close>)
qed auto

section \<open>The provider implements one window per client\<close>

text \<open>
  The bucket of a client and the reference state agree, or the bucket was dropped and the
  window of the reference state is over.
\<close>

definition bucket_matches :: "nat \<Rightarrow> nat \<Rightarrow> rate_limit_bucket option \<Rightarrow> (nat \<times> nat) option \<Rightarrow> bool" where
  "bucket_matches win now b s \<longleftrightarrow>
     map_option (\<lambda>b. (rb_started_at b, rb_count b)) b = s \<or>
     (b = None \<and> (\<exists>start c. s = Some (start, c) \<and> win \<le> now - start))"

definition client_of :: "rate_limit_request \<Rightarrow> str \<times> str" where
  "client_of q = (rr_policy_id q, rr_subject_hash q)"

definition settings_of :: "rate_limit_request \<Rightarrow> nat \<times> nat" where
  "settings_of q = (rr_max_requests q, rr_window q)"

lemma bt_get_filter:
  "bt_wf m \<Longrightarrow> bt_get (filter (\<lambda>(k, v). P k v) m) k =
     (case bt_get m k of Some v \<Rightarrow> if P k v then Some v else None | None \<Rightarrow> None)"
proof (induction m)
  case (Cons e m)
  obtain j v where e: "e = (j, v)" by (cases e)
  from Cons.prems have "bt_wf m" and "j \<notin> fst ` set m" by (auto simp: bt_wf_def e)
  then have "bt_get m j = None" by (simp add: bt_get_None_iff)
  with Cons.IH \<open>bt_wf m\<close> show ?case by (auto simp: bt_get_def e split: option.splits)
qed simp

lemma bt_wf_filter: "bt_wf m \<Longrightarrow> bt_wf (filter P m)"
  by (simp add: bt_wf_def sorted_wrt_map sorted_wrt_filter)

definition provider_inv :: "nat \<Rightarrow> rate_limit_state \<Rightarrow> (str \<times> str \<Rightarrow> (nat \<times> nat) option) \<Rightarrow> bool" where
  "provider_inv now st sp \<longleftrightarrow> bt_wf (rs_buckets st) \<and>
     (\<forall>k. case bt_get (rs_policies st) (fst k) of
        None \<Rightarrow> bt_get (rs_buckets st) k = None \<and> sp k = None
      | Some (m, win) \<Rightarrow> bucket_matches win now (bt_get (rs_buckets st) k) (sp k))"

lemma provider_inv_at:
  "provider_inv now st sp \<Longrightarrow>
     (case bt_get (rs_policies st) (fst k) of
        None \<Rightarrow> bt_get (rs_buckets st) k = None \<and> sp k = None
      | Some (m, win) \<Rightarrow> bucket_matches win now (bt_get (rs_buckets st) k) (sp k))"
  unfolding provider_inv_def by blast

lemma provider_inv_wf: "provider_inv now st sp \<Longrightarrow> bt_wf (rs_buckets st)"
  by (simp add: provider_inv_def)

lemma provider_inv_empty: "provider_inv now rate_limit_state_new (\<lambda>_. None)"
  by (simp add: provider_inv_def rate_limit_state_new_def)

lemma bucket_matches_mono: "bucket_matches win now b s \<Longrightarrow> now \<le> now' \<Longrightarrow> bucket_matches win now' b s"
  unfolding bucket_matches_def by (auto intro: le_trans diff_le_mono)

lemma provider_inv_mono:
  assumes "provider_inv now st sp" "now \<le> now'"
  shows "provider_inv now' st sp"
  unfolding provider_inv_def
proof (intro conjI allI)
  show "bt_wf (rs_buckets st)" using assms(1) by (rule provider_inv_wf)
next
  fix k
  show "case bt_get (rs_policies st) (fst k) of
      None \<Rightarrow> bt_get (rs_buckets st) k = None \<and> sp k = None
    | Some (m, win) \<Rightarrow> bucket_matches win now' (bt_get (rs_buckets st) k) (sp k)"
    using provider_inv_at [OF assms(1), of k] bucket_matches_mono [OF _ assms(2)]
    by (cases "bt_get (rs_policies st) (fst k)") (auto split: prod.splits)
qed

text \<open>Dropping the buckets of finished windows keeps the agreement.\<close>

lemma retained:
  assumes "bt_wf buckets"
  shows "bt_get (retain_buckets now policies buckets) k =
     (case bt_get buckets k of
        None \<Rightarrow> None
      | Some b \<Rightarrow> (case bt_get policies (fst k) of
          None \<Rightarrow> None | Some (m, win) \<Rightarrow> if now - rb_started_at b < win then Some b else None))"
proof -
  let ?P = "\<lambda>k b. case bt_get policies (fst k) of Some (m, win) \<Rightarrow> now - rb_started_at b < win | None \<Rightarrow> False"
  have "retain_buckets now policies buckets = filter (\<lambda>(k, b). ?P k b) buckets"
    unfolding retain_buckets_def by (rule filter_cong) (auto split: prod.splits)
  then show ?thesis using bt_get_filter [OF assms, of ?P k] by (simp split: option.splits prod.splits)
qed

lemma retain_matches:
  assumes "bt_wf buckets" "bucket_matches win now (bt_get buckets k) s" "bt_get policies (fst k) = Some (m, win)"
  shows "bucket_matches win now (bt_get (retain_buckets now policies buckets) k) s"
  using assms(2) by (auto simp: retained [OF assms(1)] assms(3) bucket_matches_def split: option.splits)

text \<open>The call on an agreeing bucket is the step of the reference window.\<close>

lemma bucket_step:
  assumes "bucket_matches win now b s" "b1 = current_bucket now win b"
  shows "window_step m win now s =
     (if rb_count b1 \<ge> m then (Limited, Some (rb_started_at b1, rb_count b1))
      else (Allowed, Some (rb_started_at b1, rb_count b1 + 1)))"
  using assms unfolding current_bucket_def window_step_def bucket_matches_def
  by (cases b; cases s) (auto simp: Let_def not_le)

definition conflict_error :: boot_error where
  "conflict_error = Internal ''rate limit policy settings conflict across provider clients''"

lemma acquire_conflict:
  "bt_get (rs_policies st) (rr_policy_id q) = Some p \<Longrightarrow> p \<noteq> settings_of q \<Longrightarrow>
   rate_limit_acquire now q st = (Inl conflict_error, st)"
  by (simp add: rate_limit_acquire_def settings_of_def conflict_error_def)

lemma acquire_step:
  assumes inv: "provider_inv now st sp"
    and known: "bt_get (rs_policies st) (rr_policy_id q) \<in> {None, Some (settings_of q)}"
  defines "W \<equiv> window_step (rr_max_requests q) (rr_window q) now (sp (client_of q))"
  obtains st' where "rate_limit_acquire now q st = (Inr (fst W), st')"
    and "\<And>p. bt_get (rs_policies st') p = (if p = rr_policy_id q then Some (settings_of q) else bt_get (rs_policies st) p)"
    and "provider_inv now st' (sp(client_of q := snd W))"
proof -
  define pol where "pol = (if bt_get (rs_policies st) (rr_policy_id q) = None
              then bt_insert (rr_policy_id q) (settings_of q) (rs_policies st) else rs_policies st)"
  define buckets where "buckets = retain_buckets now pol (rs_buckets st)"
  define b1 where "b1 = current_bucket now (rr_window q) (bt_get buckets (client_of q))"
  define b2 where "b2 = (if rr_max_requests q \<le> rb_count b1 then b1 else b1\<lparr>rb_count := rb_count b1 + 1\<rparr>)"
  let ?st = "\<lparr>rs_policies = pol, rs_buckets = bt_insert (client_of q) b2 buckets\<rparr>"
  have pol_at: "bt_get pol p = (if p = rr_policy_id q then Some (settings_of q) else bt_get (rs_policies st) p)" for p
    using known by (auto simp: pol_def)
  have wf: "bt_wf (rs_buckets st)" using inv by (rule provider_inv_wf)
  have match: "case bt_get pol (fst k) of
        None \<Rightarrow> bt_get buckets k = None \<and> sp k = None
      | Some (m, win) \<Rightarrow> bucket_matches win now (bt_get buckets k) (sp k)" for k
  proof (cases "bt_get (rs_policies st) (fst k)")
    case None
    with provider_inv_at [OF inv, of k] have "bt_get (rs_buckets st) k = None" "sp k = None" by simp_all
    then show ?thesis by (auto simp: buckets_def retained [OF wf] bucket_matches_def split: option.splits)
  next
    case (Some mw)
    with pol_at [of "fst k"] known have pol_k: "bt_get pol (fst k) = Some mw" by auto
    obtain m win where mw: "mw = (m, win)" by (cases mw)
    from provider_inv_at [OF inv, of k] Some mw
    have "bucket_matches win now (bt_get (rs_buckets st) k) (sp k)" by simp
    from retain_matches [OF wf this] pol_k mw show ?thesis by (simp add: buckets_def)
  qed
  have step: "W = (if rb_count b1 \<ge> rr_max_requests q then (Limited, Some (rb_started_at b1, rb_count b1))
      else (Allowed, Some (rb_started_at b1, rb_count b1 + 1)))"
    unfolding W_def by (rule bucket_step [OF _ b1_def])
      (use match [of "client_of q"] pol_at [of "rr_policy_id q"] in \<open>simp add: client_of_def settings_of_def\<close>)
  have key: "(rr_policy_id q, rr_subject_hash q) = client_of q" by (simp add: client_of_def)
  have same: "(known \<noteq> None \<and> known \<noteq> Some (settings_of q)) = False"
    if "known = bt_get (rs_policies st) (rr_policy_id q)" for known
    using assms(2) that by (metis empty_iff insert_iff)
  have acq: "rate_limit_acquire now q st = (Inr (fst W), ?st)"
    unfolding rate_limit_acquire_def Let_def settings_of_def [symmetric] same [OF refl] if_False key step pol_def [symmetric] buckets_def [symmetric] b1_def [symmetric]
    by (simp add: b2_def)
  have "provider_inv now ?st (sp(client_of q := snd W))"
    unfolding provider_inv_def
  proof (intro conjI allI)
    show "bt_wf (rs_buckets ?st)" by (simp add: buckets_def retain_buckets_def bt_wf_filter wf)
  next
    fix k
    show "case bt_get (rs_policies ?st) (fst k) of
        None \<Rightarrow> bt_get (rs_buckets ?st) k = None \<and> (sp(client_of q := snd W)) k = None
      | Some (m, win) \<Rightarrow> bucket_matches win now (bt_get (rs_buckets ?st) k) ((sp(client_of q := snd W)) k)"
    proof (cases "k = client_of q")
      case True
      have "fst (client_of q) = rr_policy_id q" by (simp add: client_of_def)
      with True pol_at [of "rr_policy_id q"] step show ?thesis
        by (simp add: bucket_matches_def settings_of_def b2_def)
    next
      case False
      with match [of k] show ?thesis by (cases "bt_get pol (fst k)") (simp_all split: prod.splits)
    qed
  qed
  with that acq pol_at show thesis by simp
qed

section \<open>Histories\<close>

text \<open>
  The answers, and the clock readings, of the requests of a history that \<open>sel\<close> picks; and the
  settings of a policy: the registered ones, or those of the first request that names it.
\<close>

definition answers :: "(rate_limit_request \<Rightarrow> bool) \<Rightarrow> (nat \<times> rate_limit_request) list \<Rightarrow> rate_limit_state
     \<Rightarrow> rate_limit_decision result list" where
  "answers sel hist st = map snd (filter (\<lambda>e. sel (snd (fst e))) (zip hist (acquire_run hist st)))"

definition times :: "(rate_limit_request \<Rightarrow> bool) \<Rightarrow> (nat \<times> rate_limit_request) list \<Rightarrow> nat list" where
  "times sel hist = map fst (filter (\<lambda>e. sel (snd e)) hist)"

fun settings_in_force :: "str \<Rightarrow> (nat \<times> rate_limit_request) list \<Rightarrow> (nat \<times> nat) option" where
  "settings_in_force p [] = None"
| "settings_in_force p ((t, q) # hist) = (if rr_policy_id q = p then Some (settings_of q) else settings_in_force p hist)"

definition settings_now :: "rate_limit_state \<Rightarrow> str \<Rightarrow> (nat \<times> rate_limit_request) list \<Rightarrow> (nat \<times> nat) option" where
  "settings_now st p hist =
     (case bt_get (rs_policies st) p of Some s \<Rightarrow> Some s | None \<Rightarrow> settings_in_force p hist)"

definition same_client :: "str \<times> str \<Rightarrow> nat \<times> nat \<Rightarrow> rate_limit_request \<Rightarrow> bool" where
  "same_client k s q \<longleftrightarrow> client_of q = k \<and> settings_of q = s"

definition in_conflict :: "str \<Rightarrow> nat \<times> nat \<Rightarrow> rate_limit_request \<Rightarrow> bool" where
  "in_conflict p s q \<longleftrightarrow> rr_policy_id q = p \<and> settings_of q \<noteq> s"

lemma answers_Cons:
  "rate_limit_acquire t q st = (d, st1) \<Longrightarrow>
   answers sel ((t, q) # hist) st = (if sel q then d # answers sel hist st1 else answers sel hist st1)"
  by (simp add: answers_def)

lemma times_Cons [simp]: "times sel ((t, q) # hist) = (if sel q then t # times sel hist else times sel hist)"
  by (simp add: times_def)

lemma answers_Nil [simp]: "answers sel [] st = []" "times sel [] = []"
  by (simp_all add: answers_def times_def)

lemma run_refines:
  assumes "provider_inv now st sp" "sorted (now # map fst hist)" "settings_now st (fst k) hist = Some (m, win)"
  shows "answers (same_client k (m, win)) hist st = map Inr (window_run m win (times (same_client k (m, win)) hist) (sp k)) \<and>
         (\<forall>d \<in> set (answers (in_conflict (fst k) (m, win)) hist st). d = Inl conflict_error)"
  using assms
proof (induction hist arbitrary: now st sp)
  case (Cons e hist)
  obtain t q where e: "e = (t, q)" by (cases e)
  have inv: "provider_inv t st sp" and sorted: "sorted (t # map fst hist)"
    using Cons.prems(1,2) by (auto simp: e intro: provider_inv_mono)
  have pid: "client_of q = k \<Longrightarrow> rr_policy_id q = fst k" by (auto simp: client_of_def)
  show ?case
  proof (cases "bt_get (rs_policies st) (rr_policy_id q) \<in> {None, Some (settings_of q)}")
    case True
    let ?W = "window_step (rr_max_requests q) (rr_window q) t (sp (client_of q))"
    from acquire_step [OF inv True] obtain st' where acq: "rate_limit_acquire t q st = (Inr (fst ?W), st')"
      and pols: "\<And>p. bt_get (rs_policies st') p = (if p = rr_policy_id q then Some (settings_of q) else bt_get (rs_policies st) p)"
      and inv': "provider_inv t st' (sp(client_of q := snd ?W))" by metis
    have force: "settings_now st' (fst k) hist = Some (m, win)"
      using Cons.prems(3) True by (auto simp: e settings_now_def pols split: if_splits option.splits)
    have agree: "rr_policy_id q = fst k \<Longrightarrow> settings_of q = (m, win)"
      using Cons.prems(3) True by (auto simp: e settings_now_def split: if_splits option.splits)
    note IH = Cons.IH [OF inv' sorted force]
    show ?thesis
    proof (cases "client_of q = k")
      case True
      then have "settings_of q = (m, win)" using agree pid by blast
      then have "same_client k (m, win) q" "\<not> in_conflict (fst k) (m, win) q" "?W = window_step m win t (sp k)"
        using True by (simp_all add: same_client_def in_conflict_def settings_of_def)
      with IH True show ?thesis by (simp add: e answers_Cons [OF acq] case_prod_unfold)
    next
      case False
      then have "\<not> same_client k (m, win) q" "\<not> in_conflict (fst k) (m, win) q"
        using agree by (auto simp: same_client_def in_conflict_def)
      with IH False show ?thesis by (simp add: e answers_Cons [OF acq])
    qed
  next
    case False
    then obtain p where p: "bt_get (rs_policies st) (rr_policy_id q) = Some p" "p \<noteq> settings_of q" by auto
    note acq = acquire_conflict [OF p, of t]
    have force: "settings_now st (fst k) hist = Some (m, win)"
      using Cons.prems(3) p by (auto simp: e settings_now_def split: if_splits option.splits)
    have "\<not> same_client k (m, win) q"
      using Cons.prems(3) p pid by (auto simp: e settings_now_def same_client_def)
    with Cons.IH [OF inv sorted force] show ?thesis
      by (simp add: e answers_Cons [OF acq])
  qed
qed simp

text \<open>The grants of a sorted run of one window inside a span of the window's length.\<close>

lemma window_step_count:
  "(\<And>start c. s = Some (start, c) \<Longrightarrow> c \<le> m) \<Longrightarrow> snd (window_step m win t s) = Some (start', c') \<Longrightarrow> c' \<le> m"
  by (auto simp: window_step_def Let_def split: option.splits prod.splits if_splits)

lemma grants_before:
  "sorted ts \<Longrightarrow> length (filter (\<lambda>(t, d). t < b \<and> d = Allowed) (zip ts (window_run m win ts s)))
     = granted (window_run m win (takeWhile (\<lambda>t. t < b) ts) s)"
proof (induction ts arbitrary: s)
  case (Cons t ts)
  show ?case
  proof (cases "t < b")
    case True
    with Cons show ?thesis by (auto simp: granted_def case_prod_unfold)
  next
    case False
    have none: "\<And>u. u \<in> set ts \<Longrightarrow> \<not> u < b" using False Cons.prems by auto
    have "filter (\<lambda>(t, d). t < b \<and> d = Allowed) (zip ts ds) = []" for ds :: "rate_limit_decision list"
      by (rule filter_False) (auto dest!: set_zip_leftD none)
    with False show ?thesis by (simp add: granted_def case_prod_unfold)
  qed
qed (simp add: granted_def)

lemma grants_in_span:
  assumes "sorted ts" "\<And>start c. s = Some (start, c) \<Longrightarrow> c \<le> m"
  shows "length (filter (\<lambda>(t, d). a \<le> t \<and> t < a + win \<and> d = Allowed) (zip ts (window_run m win ts s))) \<le> 2 * m"
  using assms
proof (induction ts arbitrary: s)
  case (Cons t ts)
  show ?case
  proof (cases "t < a")
    case True
    have "length (filter (\<lambda>(t, d). a \<le> t \<and> t < a + win \<and> d = Allowed)
        (zip ts (window_run m win ts (snd (window_step m win t s))))) \<le> 2 * m"
      by (rule Cons.IH) (use Cons.prems window_step_count [of s m win t] in auto)
    with True show ?thesis by (simp add: case_prod_unfold)
  next
    case False
    then have from_a: "\<forall>u \<in> set (t # ts). a \<le> u" using Cons.prems(1) by auto
    let ?span = "takeWhile (\<lambda>u. u < a + win) (t # ts)"
    have "filter (\<lambda>(t, d). a \<le> t \<and> t < a + win \<and> d = Allowed) (zip (t # ts) ds)
        = filter (\<lambda>(t, d). t < a + win \<and> d = Allowed) (zip (t # ts) ds)" for ds :: "rate_limit_decision list"
      by (rule filter_cong [OF refl]) (use from_a in \<open>auto dest!: set_zip_leftD\<close>)
    then have "length (filter (\<lambda>(t, d). a \<le> t \<and> t < a + win \<and> d = Allowed) (zip (t # ts) (window_run m win (t # ts) s)))
        = granted (window_run m win ?span s)"
      using grants_before [OF Cons.prems(1)] by simp
    also have "\<dots> \<le> budget_left m s + m"
      by (rule window_two) (use Cons.prems(2) from_a set_takeWhileD in \<open>fastforce+\<close>)
    also have "\<dots> \<le> 2 * m" by (simp add: budget_left_def split: option.splits)
    finally show ?thesis .
  qed
qed simp

lemma length_acquire_run [simp]: "length (acquire_run hist st) = length hist"
  by (induction hist arbitrary: st) (auto split: prod.splits)

lemma zip_times_answers:
  "zip (times sel hist) (answers sel hist st) =
     map (\<lambda>e. (fst (fst e), snd e)) (filter (\<lambda>e. sel (snd (fst e))) (zip hist (acquire_run hist st)))"
proof (induction hist arbitrary: st)
  case (Cons e hist)
  obtain t q where e: "e = (t, q)" by (cases e)
  obtain d st1 where acq: "rate_limit_acquire t q st = (d, st1)" by fastforce
  show ?case using Cons.IH [of st1] by (simp add: e answers_Cons [OF acq] acq)
qed simp



definition sample_history :: "(nat \<times> rate_limit_request) list" where
  "sample_history =
     (let alice = \<lparr>rr_policy_id = ''p'', rr_subject_hash = ''a'', rr_max_requests = 1, rr_window = 10\<rparr>;
          bob = \<lparr>rr_policy_id = ''p'', rr_subject_hash = ''b'', rr_max_requests = 1, rr_window = 10\<rparr>;
          odd_one = \<lparr>rr_policy_id = ''p'', rr_subject_hash = ''a'', rr_max_requests = 9, rr_window = 10\<rparr> in
      [(0, alice), (1, bob), (2, alice), (3, odd_one), (12, alice)])"

lemma sample_history_ok:
  "sorted (map fst sample_history)" "settings_in_force (fst (''p'', ''a'')) sample_history = Some (1, 10)"
  by code_simp+



end
