(* ===== verification/Expiring_Store.thy ===== *)
theory Expiring_Store
  imports Pipeline
begin

text \<open>
  \<open>src/cache.rs\<close> and \<open>src/session/store.rs\<close>: the traits \<open>CacheStore\<close> and \<open>SessionStore\<close>, which
  have the same operations, as one record of functions; their in-memory implementations; the
  contract of such a store as a locale, with its refinement of an abstract table of entries
  that expire; the \<open>Cache\<close> facade and the interceptor that caches responses. Instants and
  durations are in nanoseconds. The locks are never poisoned.
\<close>

section \<open>The trait\<close>

text \<open>\<open>get\<close>/\<open>load\<close> and \<open>set\<close>/\<open>save\<close> read the clock, the first argument.\<close>

record ('s, 'v) keyed_store =
  ks_load :: "nat \<Rightarrow> str \<Rightarrow> ('s, 'v option) step"
  ks_save :: "nat \<Rightarrow> str \<Rightarrow> 'v \<Rightarrow> nat option \<Rightarrow> ('s, unit) step"
  ks_remove :: "str \<Rightarrow> ('s, bool) step"
  ks_clear :: "('s, unit) step"

section \<open>The in-memory stores\<close>

record 'v cache_entry =
  ce_value :: 'v
  ce_expires_at :: "nat option"

definition cache_entry_expired :: "nat \<Rightarrow> 'v cache_entry \<Rightarrow> bool" where
  "cache_entry_expired now e = (case ce_expires_at e of None \<Rightarrow> False | Some t \<Rightarrow> now \<ge> t)"

definition cache_store_get :: "nat \<Rightarrow> str \<Rightarrow> ((str, 'v cache_entry) btree, 'v option) step" where
  "cache_store_get now key entries =
     (case bt_get entries key of
        None \<Rightarrow> (Inr None, entries)
      | Some e \<Rightarrow>
          if cache_entry_expired now e then (Inr None, bt_remove key entries)
          else (Inr (Some (ce_value e)), entries))"

definition cache_store_set :: "nat \<Rightarrow> str \<Rightarrow> 'v \<Rightarrow> nat option \<Rightarrow> ((str, 'v cache_entry) btree, unit) step" where
  "cache_store_set now key v ttl entries =
     (Inr (), bt_insert key \<lparr>ce_value = v, ce_expires_at = map_option (\<lambda>d. now + d) ttl\<rparr> entries)"

definition cache_store_remove :: "str \<Rightarrow> ((str, 'v cache_entry) btree, bool) step" where
  "cache_store_remove key entries = (Inr (bt_get entries key \<noteq> None), bt_remove key entries)"

definition cache_store_clear :: "((str, 'v cache_entry) btree, unit) step" where
  "cache_store_clear entries = (Inr (), [])"

definition in_memory_cache_store :: "((str, 'v cache_entry) btree, 'v) keyed_store" where
  "in_memory_cache_store =
     \<lparr>ks_load = cache_store_get, ks_save = cache_store_set, ks_remove = cache_store_remove,
      ks_clear = cache_store_clear\<rparr>"

record 'v stored_session =
  sd_data :: 'v
  sd_expires_at :: "nat option"

definition stored_session_expired :: "nat \<Rightarrow> 'v stored_session \<Rightarrow> bool" where
  "stored_session_expired now e = (case sd_expires_at e of None \<Rightarrow> False | Some t \<Rightarrow> now \<ge> t)"

definition session_store_load :: "nat \<Rightarrow> str \<Rightarrow> ((str, 'v stored_session) btree, 'v option) step" where
  "session_store_load now sid sessions =
     (case bt_get sessions sid of
        None \<Rightarrow> (Inr None, sessions)
      | Some e \<Rightarrow>
          if stored_session_expired now e then (Inr None, bt_remove sid sessions)
          else (Inr (Some (sd_data e)), sessions))"

definition session_store_save :: "nat \<Rightarrow> str \<Rightarrow> 'v \<Rightarrow> nat option \<Rightarrow> ((str, 'v stored_session) btree, unit) step" where
  "session_store_save now sid data ttl sessions =
     (Inr (), bt_insert sid \<lparr>sd_data = data, sd_expires_at = map_option (\<lambda>d. now + d) ttl\<rparr> sessions)"

definition session_store_remove :: "str \<Rightarrow> ((str, 'v stored_session) btree, bool) step" where
  "session_store_remove sid sessions = (Inr (bt_get sessions sid \<noteq> None), bt_remove sid sessions)"

definition session_store_clear :: "((str, 'v stored_session) btree, unit) step" where
  "session_store_clear sessions = (Inr (), [])"

definition in_memory_session_store :: "((str, 'v stored_session) btree, 'v) keyed_store" where
  "in_memory_session_store =
     \<lparr>ks_load = session_store_load, ks_save = session_store_save, ks_remove = session_store_remove,
      ks_clear = session_store_clear\<rparr>"

section \<open>The contract\<close>

text \<open>
  An entry is a value with the instant it expires at. What counts of a table of entries, from
  an instant on, is what is alive in it.
\<close>

type_synonym 'v contents = "str \<Rightarrow> ('v \<times> nat option) option"

definition alive :: "nat \<Rightarrow> ('v \<times> nat option) option \<Rightarrow> 'v option" where
  "alive now e =
     (case e of
        None \<Rightarrow> None
      | Some (v, None) \<Rightarrow> Some v
      | Some (v, Some t) \<Rightarrow> if now < t then Some v else None)"

definition entry_of :: "nat \<Rightarrow> 'v \<Rightarrow> nat option \<Rightarrow> ('v \<times> nat option) option" where
  "entry_of now v ttl = Some (v, map_option (\<lambda>d. now + d) ttl)"

definition same_from :: "nat \<Rightarrow> 'v contents \<Rightarrow> 'v contents \<Rightarrow> bool" where
  "same_from now c c' \<longleftrightarrow> (\<forall>t \<ge> now. \<forall>k. alive t (c k) = alive t (c' k))"

lemma same_from_refl [simp]: "same_from now c c"
  by (simp add: same_from_def)

lemma same_from_mono: "same_from now c c' \<Longrightarrow> now \<le> now' \<Longrightarrow> same_from now' c c'"
  by (simp add: same_from_def)

lemma same_from_trans: "same_from now a b \<Longrightarrow> same_from now b c \<Longrightarrow> same_from now a c"
  by (simp add: same_from_def)

lemma same_from_upd: "same_from now c c' \<Longrightarrow> same_from now (c(k := e)) (c'(k := e))"
  by (simp add: same_from_def)

lemma same_from_alive: "same_from now c c' \<Longrightarrow> alive now (c k) = alive now (c' k)"
  by (simp add: same_from_def)

lemma dead_stays: "alive now e = None \<Longrightarrow> now \<le> t \<Longrightarrow> alive t e = None"
  by (auto simp: alive_def split: option.splits prod.splits if_splits)

lemma alive_entry_of:
  "now \<le> t \<Longrightarrow> alive t (entry_of now v ttl) = (if (case ttl of None \<Rightarrow> True | Some d \<Rightarrow> t < now + d) then Some v else None)"
  by (simp add: alive_def entry_of_def split: option.splits)

locale expiring_store =
  fixes S :: "('s, 'v) keyed_store" and contents :: "'s \<Rightarrow> 'v contents"
  assumes load_result: "fst (ks_load S now k s) = Inr (alive now (contents s k))"
    and load_contents: "same_from now (contents (snd (ks_load S now k s))) (contents s)"
    and save_result: "fst (ks_save S now k v ttl s) = Inr ()"
    and save_contents: "contents (snd (ks_save S now k v ttl s)) = (contents s)(k := entry_of now v ttl)"
    and remove_result: "fst (ks_remove S k s) = Inr (contents s k \<noteq> None)"
    and remove_contents: "contents (snd (ks_remove S k s)) = (contents s)(k := None)"
    and clear_result: "fst (ks_clear S s) = Inr ()"
    and clear_contents: "contents (snd (ks_clear S s)) = (\<lambda>_. None)"
begin

lemma load_step:
  obtains s' where "ks_load S now k s = (Inr (alive now (contents s k)), s')" "same_from now (contents s') (contents s)"
  using load_result load_contents by (metis prod.collapse)

lemma save_step:
  obtains s' where "ks_save S now k v ttl s = (Inr (), s')" "contents s' = (contents s)(k := entry_of now v ttl)"
  using save_result save_contents by (metis prod.collapse)

lemma remove_step:
  obtains s' where "ks_remove S k s = (Inr (contents s k \<noteq> None), s')" "contents s' = (contents s)(k := None)"
  using remove_result remove_contents by (metis prod.collapse)

lemma clear_step:
  obtains s' where "ks_clear S s = (Inr (), s')" "contents s' = (\<lambda>_. None)"
  using clear_result clear_contents by (metis prod.collapse)

text \<open>What was saved is what is loaded, until it expires; other keys are not disturbed.\<close>

lemma load_after_save:
  assumes "ks_save S now k v ttl s = (r, s')" "now \<le> t"
  shows "fst (ks_load S t j s') =
     (if j = k then Inr (if (case ttl of None \<Rightarrow> True | Some d \<Rightarrow> t < now + d) then Some v else None)
      else fst (ks_load S t j s))"
proof -
  have "contents s' = (contents s)(k := entry_of now v ttl)"
    using save_contents [of now k v ttl s] assms(1) by simp
  then show ?thesis by (simp add: load_result alive_entry_of [OF assms(2)])
qed

lemma load_after_load:
  assumes "ks_load S now k s = (r, s')" "now \<le> t"
  shows "fst (ks_load S t j s') = fst (ks_load S t j s)"
proof -
  have "same_from t (contents s') (contents s)"
    using load_contents [of now k s] assms same_from_mono by fastforce
  then show ?thesis by (simp add: load_result same_from_alive)
qed

end

definition cache_contents :: "(str, 'v cache_entry) btree \<Rightarrow> 'v contents" where
  "cache_contents entries k = map_option (\<lambda>e. (ce_value e, ce_expires_at e)) (bt_get entries k)"

definition session_contents :: "(str, 'v stored_session) btree \<Rightarrow> 'v contents" where
  "session_contents sessions k = map_option (\<lambda>e. (sd_data e, sd_expires_at e)) (bt_get sessions k)"

lemmas cache_store_ops = in_memory_cache_store_def cache_store_get_def cache_store_set_def
  cache_store_remove_def cache_store_clear_def cache_entry_expired_def

lemmas session_store_ops = in_memory_session_store_def session_store_load_def session_store_save_def
  session_store_remove_def session_store_clear_def stored_session_expired_def

interpretation cache_store: expiring_store in_memory_cache_store cache_contents
  by unfold_locales
    (auto simp: cache_store_ops cache_contents_def alive_def entry_of_def same_from_def fun_eq_iff
      split: option.splits if_splits)

interpretation session_store: expiring_store in_memory_session_store session_contents
  by unfold_locales
    (auto simp: session_store_ops session_contents_def alive_def entry_of_def same_from_def fun_eq_iff
      split: option.splits if_splits)

section \<open>The cache facade\<close>

text \<open>\<open>enc\<close> and \<open>dec\<close> are serde's conversions of a type to and from JSON values.\<close>

record ('s, 'v) cache =
  ca_store :: "('s, 'v) keyed_store"
  ca_default_ttl :: "nat option"

definition cache_get :: "('v \<Rightarrow> str + 'a) \<Rightarrow> ('s, 'v) cache \<Rightarrow> nat \<Rightarrow> str \<Rightarrow> ('s, 'a option) step" where
  "cache_get dec c now key =
     step_bind (ks_load (ca_store c) now key) (\<lambda>r. step_result (case r of
       None \<Rightarrow> Inr None
     | Some v \<Rightarrow>
         (case dec v of
            Inl e \<Rightarrow> Inl (Internal (''invalid cached value for '' @ key @ '': '' @ e))
          | Inr a \<Rightarrow> Inr (Some a))))"

definition cache_set_with_ttl ::
  "('a \<Rightarrow> str + 'v) \<Rightarrow> ('s, 'v) cache \<Rightarrow> nat \<Rightarrow> str \<Rightarrow> 'a \<Rightarrow> nat option \<Rightarrow> ('s, unit) step" where
  "cache_set_with_ttl enc c now key a ttl =
     (case enc a of
        Inl e \<Rightarrow> step_result (Inl (Internal (''failed to serialize cache value: '' @ e)))
      | Inr v \<Rightarrow> ks_save (ca_store c) now key v ttl)"

definition cache_set :: "('a \<Rightarrow> str + 'v) \<Rightarrow> ('s, 'v) cache \<Rightarrow> nat \<Rightarrow> str \<Rightarrow> 'a \<Rightarrow> ('s, unit) step" where
  "cache_set enc c now key a = cache_set_with_ttl enc c now key a (ca_default_ttl c)"

text \<open>The factory may use the store; the clock is read again after it.\<close>

definition cache_get_or_insert_with_ttl ::
  "('a \<Rightarrow> str + 'v) \<Rightarrow> ('v \<Rightarrow> str + 'a) \<Rightarrow> ('s, 'v) cache \<Rightarrow> nat \<Rightarrow> nat \<Rightarrow> str \<Rightarrow> nat option \<Rightarrow> ('s, 'a) step
     \<Rightarrow> ('s, 'a) step" where
  "cache_get_or_insert_with_ttl enc dec c now now1 key ttl factory =
     step_bind (cache_get dec c now key) (\<lambda>r. case r of
       Some a \<Rightarrow> step_result (Inr a)
     | None \<Rightarrow>
         step_bind factory (\<lambda>a.
         step_bind (cache_set_with_ttl enc c now1 key a ttl) (\<lambda>_. step_result (Inr a))))"

definition cache_get_or_insert_with ::
  "('a \<Rightarrow> str + 'v) \<Rightarrow> ('v \<Rightarrow> str + 'a) \<Rightarrow> ('s, 'v) cache \<Rightarrow> nat \<Rightarrow> nat \<Rightarrow> str \<Rightarrow> ('s, 'a) step \<Rightarrow> ('s, 'a) step" where
  "cache_get_or_insert_with enc dec c now now1 key factory =
     cache_get_or_insert_with_ttl enc dec c now now1 key (ca_default_ttl c) factory"

definition cache_remove :: "('s, 'v) cache \<Rightarrow> str \<Rightarrow> ('s, bool) step" where
  "cache_remove c key = ks_remove (ca_store c) key"

definition cache_clear :: "('s, 'v) cache \<Rightarrow> ('s, unit) step" where
  "cache_clear c = ks_clear (ca_store c)"

section \<open>The response cache\<close>

text \<open>\<open>resolve\<close> looks a provider up from a module reference, \<open>token\<close> is the token of the type \<open>Cache\<close>.\<close>

datatype ('s, 'v) cache_interceptor_source = CacheGiven "('s, 'v) cache" | CacheProvider | CacheNamed str

definition interceptor_cache ::
  "('m \<Rightarrow> str \<Rightarrow> ('s, 'v) cache result) \<Rightarrow> str \<Rightarrow> ('s, 'v) cache_interceptor_source \<Rightarrow> ('m, 'v) execution_context
     \<Rightarrow> ('s, 'v) cache result" where
  "interceptor_cache resolve token src ctx =
     (case src of
        CacheGiven c \<Rightarrow> Inr c
      | CacheProvider \<Rightarrow>
          (case rq_module_ref (ec_request ctx) of None \<Rightarrow> Inl (MissingProvider token) | Some m \<Rightarrow> resolve m token)
      | CacheNamed n \<Rightarrow>
          (case rq_module_ref (ec_request ctx) of None \<Rightarrow> Inl (MissingProvider n) | Some m \<Rightarrow> resolve m n))"

definition metadata_as :: "('v \<Rightarrow> str + 'a) \<Rightarrow> ('m, 'v) execution_context \<Rightarrow> str \<Rightarrow> 'a option result" where
  "metadata_as dec ctx key =
     (case bt_get (ec_metadata ctx) key of
        None \<Rightarrow> Inr None
      | Some v \<Rightarrow>
          (case dec v of
             Inl e \<Rightarrow> Inl (Internal (''failed to deserialize execution context metadata `'' @ key @ ''`: '' @ e))
           | Inr a \<Rightarrow> Inr (Some a)))"

text \<open>The JSON readers of the three metadata values.\<close>

record 'v metadata_readers =
  mr_bool :: "'v \<Rightarrow> str + bool"
  mr_string :: "'v \<Rightarrow> str + str"
  mr_u64 :: "'v \<Rightarrow> str + nat"

definition cache_key_for_context :: "'v metadata_readers \<Rightarrow> ('m, 'v) execution_context \<Rightarrow> str option result" where
  "cache_key_for_context mr ctx =
     (if ec_protocol ctx \<noteq> EP_Http \<or> ec_method ctx \<noteq> M_Get then Inr None
      else
        rbind (metadata_as (mr_bool mr) ctx ''cache.disabled'') (\<lambda>disabled.
        if disabled = Some True then Inr None
        else
          rbind (metadata_as (mr_string mr) ctx ''cache.key'') (\<lambda>key.
          case key of
            Some k \<Rightarrow> Inr (Some k)
          | None \<Rightarrow>
              (let query = (case rq_query_string (ec_request ctx) of Some q \<Rightarrow> ''?'' @ q | None \<Rightarrow> []) in
               Inr (Some (method_as_str (ec_method ctx) @ '':'' @ ec_request_path ctx @ query))))))"

definition cache_ttl_for_context :: "'v metadata_readers \<Rightarrow> ('m, 'v) execution_context \<Rightarrow> nat option result" where
  "cache_ttl_for_context mr ctx =
     rmap (map_option (\<lambda>ms. ms * 1000000)) (metadata_as (mr_u64 mr) ctx ''cache.ttl_ms'')"

definition is_cacheable_response :: "boot_response \<Rightarrow> bool" where
  "is_cacheable_response r \<longleftrightarrow> (200 \<le> rs_status r \<and> rs_status r < 300) \<and> \<not> is_streaming r"

record cached_http_response =
  ch_status :: nat
  ch_headers :: "(str, str) btree"
  ch_appended_headers :: "(str \<times> str) list"
  ch_body :: str

definition cached_from_response :: "boot_response \<Rightarrow> cached_http_response" where
  "cached_from_response r =
     \<lparr>ch_status = rs_status r, ch_headers = rs_headers r, ch_appended_headers = rs_appended_headers r,
      ch_body = rs_body r\<rparr>"

definition cached_into_response :: "cached_http_response \<Rightarrow> boot_response" where
  "cached_into_response c =
     fold (\<lambda>(n, v) r. response_append_header n v r) (ch_appended_headers c)
       (response_with_headers (ch_headers c) (response_new (ch_status c) (ch_body c)))"

definition cache_short_circuit ::
  "'v metadata_readers \<Rightarrow> ('v \<Rightarrow> str + cached_http_response) \<Rightarrow> (('m, 'v) execution_context \<Rightarrow> ('s, 'v) cache result)
     \<Rightarrow> nat \<Rightarrow> ('m, 'v) execution_context \<Rightarrow> ('s, boot_response option) step" where
  "cache_short_circuit mr dec cache_for now ctx =
     (let cache = cache_for ctx in
      step_bind (step_result (cache_key_for_context mr ctx)) (\<lambda>key. case key of
        None \<Rightarrow> step_result (Inr None)
      | Some key \<Rightarrow>
          step_bind (step_result cache) (\<lambda>c.
          step_bind (cache_get dec c now key) (\<lambda>r. step_result (Inr (map_option cached_into_response r))))))"

definition cache_after ::
  "'v metadata_readers \<Rightarrow> (cached_http_response \<Rightarrow> str + 'v) \<Rightarrow> (('m, 'v) execution_context \<Rightarrow> ('s, 'v) cache result)
     \<Rightarrow> nat \<Rightarrow> ('m, 'v) execution_context \<Rightarrow> boot_response \<Rightarrow> ('s, boot_response) step" where
  "cache_after mr enc cache_for now ctx response =
     (let cache = cache_for ctx in
      step_bind (step_result (cache_key_for_context mr ctx)) (\<lambda>key. case key of
        None \<Rightarrow> step_result (Inr response)
      | Some key \<Rightarrow>
          if \<not> is_cacheable_response response then step_result (Inr response)
          else
            (let cached = cached_from_response response in
             step_bind (step_result cache) (\<lambda>c.
             step_bind (step_result (cache_ttl_for_context mr ctx)) (\<lambda>ttl.
             step_bind
               (case ttl of
                  Some t \<Rightarrow> cache_set_with_ttl enc c now key cached (Some t)
                | None \<Rightarrow> cache_set enc c now key cached)
               (\<lambda>_. step_result (Inr response)))))))"

text \<open>The interceptor, on a world from which the clock is read.\<close>

definition cache_interceptor ::
  "('w \<Rightarrow> nat) \<Rightarrow> 'v metadata_readers \<Rightarrow> (cached_http_response \<Rightarrow> str + 'v) \<Rightarrow> ('v \<Rightarrow> str + cached_http_response)
     \<Rightarrow> (('m, 'v) execution_context \<Rightarrow> ('w, 'v) cache result) \<Rightarrow> ('w, 'm, 'v) interceptor" where
  "cache_interceptor clock mr enc dec cache_for =
     default_intercept (\<lambda>_ w. (Inr (), w))
       (\<lambda>ctx w. cache_short_circuit mr dec cache_for (clock w) ctx w)
       (\<lambda>ctx response w. cache_after mr enc cache_for (clock w) ctx response w)"

section \<open>What the response cache promises\<close>

lemma bt_of_list_same: "bt_wf m \<Longrightarrow> bt_of_list m = m"
proof (rule bt_ext)
  assume wf: "bt_wf m"
  show "bt_wf (bt_of_list m)"
    unfolding bt_of_list_def by (rule fold_invariant [where Q = "\<lambda>_. True"]) auto
  have "map_of (rev m) = map_of m"
    using bt_wf_distinct [OF wf] by (subst map_of_inject_set) (simp_all flip: rev_map)
  then show "bt_get (bt_of_list m) k = bt_get m k" for k
    using bt_of_list_get [of m k] by (simp add: bt_get_def)
qed

lemma normalize_headers_same: "headers_normal hs \<Longrightarrow> normalize_headers hs = hs"
proof -
  assume n: "headers_normal hs"
  then have "map (\<lambda>(n, v). (normalize_header_name n, v)) hs = hs"
    by (intro map_idI) (auto simp: headers_normal_iff)
  with n show ?thesis by (simp add: normalize_headers_def bt_of_list_same headers_normal_def)
qed

text \<open>What every response built with the operations of the framework satisfies.\<close>

definition response_normal :: "boot_response \<Rightarrow> bool" where
  "response_normal r \<longleftrightarrow> headers_normal (rs_headers r) \<and>
     list_all (\<lambda>(n, v). normalize_header_name n = n) (rs_appended_headers r)"

lemma append_headers_fold:
  "list_all (\<lambda>(n, v). normalize_header_name n = n) hs \<Longrightarrow>
   fold (\<lambda>(n, v) r. response_append_header n v r) hs r = r\<lparr>rs_appended_headers := rs_appended_headers r @ hs\<rparr>"
  by (induction hs arbitrary: r) (auto simp: response_append_header_def)

lemma cached_roundtrip:
  "response_normal r \<Longrightarrow> \<not> is_streaming r \<Longrightarrow> cached_into_response (cached_from_response r) = r"
  by (cases r, cases "rs_stream r") (auto simp: cached_into_response_def cached_from_response_def response_normal_def append_headers_fold
      response_with_headers_def response_new_def normalize_headers_same is_streaming_def)

lemma cache_short_circuit_load:
  assumes "cache_for ctx = Inr c"
  shows "fst (cache_short_circuit mr dec cache_for now ctx s) =
     (case cache_key_for_context mr ctx of
        Inl e \<Rightarrow> Inl e
      | Inr None \<Rightarrow> Inr None
      | Inr (Some key) \<Rightarrow>
          rbind (fst (ks_load (ca_store c) now key s)) (\<lambda>r. case r of
            None \<Rightarrow> Inr None
          | Some v \<Rightarrow>
              (case dec v of
                 Inl e \<Rightarrow> Inl (Internal (''invalid cached value for '' @ key @ '': '' @ e))
               | Inr a \<Rightarrow> Inr (Some (cached_into_response a)))))"
  using assms
  by (auto simp: cache_short_circuit_def cache_get_def step_bind_def step_result_def
      split: sum.splits option.splits prod.splits)

text \<open>
  The response cache replays. After a cacheable response to a request with cache key \<open>k\<close>
  has passed the interceptor, which does not change it, every later request with that key is
  answered with exactly that response (status, headers, appended headers such as
  \<open>set-cookie\<close>, body) as long as its time to live, the one of the route or else that of the
  cache, lasts, and with none from then on; requests with another key get what they would have
  got before, requests without a key (other methods, other protocols, caching disabled) never
  get a cached response.
\<close>
theorem cache_replay_exact:
  fixes c :: "((str, 'v cache_entry) btree, 'v) cache"
  assumes store: "ca_store c = in_memory_cache_store"
    and source: "cache_for ctx = Inr c" "cache_for ctx2 = Inr c"
    and key: "cache_key_for_context mr ctx = Inr (Some k)"
    and ttl: "cache_ttl_for_context mr ctx = Inr route_ttl"
    and response: "is_cacheable_response response" "response_normal response"
    and serde: "enc (cached_from_response response) = Inr v" "dec v = Inr (cached_from_response response)"
    and later: "now \<le> t"
  shows "fst (cache_after mr enc cache_for now ctx response entries) = Inr response \<and>
     fst (cache_short_circuit mr dec cache_for t ctx2 (snd (cache_after mr enc cache_for now ctx response entries))) =
       (case cache_key_for_context mr ctx2 of
          Inl e \<Rightarrow> Inl e
        | Inr None \<Rightarrow> Inr None
        | Inr (Some j) \<Rightarrow>
            if j = k
            then Inr (if (case or_else route_ttl (ca_default_ttl c) of None \<Rightarrow> True | Some d \<Rightarrow> t < now + d)
                      then Some response else None)
            else fst (cache_short_circuit mr dec cache_for t ctx2 entries))"
proof -
  let ?ttl = "or_else route_ttl (ca_default_ttl c)"
  obtain entries' where save: "ks_save in_memory_cache_store now k v ?ttl entries = (Inr (), entries')"
    by (metis cache_store.save_step)
  have "cache_after mr enc cache_for now ctx response entries
      = step_bind (ks_save in_memory_cache_store now k v ?ttl) (\<lambda>_. step_result (Inr response)) entries"
    using assms by (simp add: cache_after_def cache_set_def cache_set_with_ttl_def Let_def split: option.split)
  then have after: "cache_after mr enc cache_for now ctx response entries = (Inr response, entries')"
    by (simp add: save step_result_def)
  have replay: "cached_into_response (cached_from_response response) = response"
    using response by (simp add: cached_roundtrip is_cacheable_response_def)
  show ?thesis
    unfolding after cache_short_circuit_load [where cache_for = cache_for and ctx = ctx2 and c = c, OF source(2)] store fst_conv snd_conv
      cache_store.load_after_save [OF save later]
    by (cases "cache_key_for_context mr ctx2") (auto simp: serde replay split: option.split)
qed

definition sample_readers :: "cached_http_response metadata_readers" where
  "sample_readers = \<lparr>mr_bool = \<lambda>_. Inl [], mr_string = \<lambda>_. Inl [], mr_u64 = \<lambda>_. Inl []\<rparr>"

definition sample_cache :: "((str, cached_http_response cache_entry) btree, cached_http_response) cache" where
  "sample_cache = \<lparr>ca_store = in_memory_cache_store, ca_default_ttl = Some 10\<rparr>"

definition sample_cache_context :: "(unit, cached_http_response) execution_context" where
  "sample_cache_context = execution_context_new sample_request ''/a'' None None serialization_default []"

definition sample_response :: boot_response where
  "sample_response = response_append_header ''set-cookie'' ''sid=1'' (response_empty 200)"

lemma sample_cache_facts:
  "cache_key_for_context sample_readers sample_cache_context = Inr (Some ''GET:/a'')"
  "cache_ttl_for_context sample_readers sample_cache_context = Inr None"
  "is_cacheable_response sample_response" "response_normal sample_response"
  by (simp_all add: sample_readers_def sample_cache_context_def sample_response_def sample_request_def
      cache_key_for_context_def cache_ttl_for_context_def metadata_as_def execution_context_new_def
      request_new_def split_path_query_def is_cacheable_response_def is_streaming_def response_normal_def
      response_append_header_def response_empty_def response_new_def normalize_header_name_def
      to_ascii_lowercase_def ascii_lower_char_def byte_def)

lemma cache_replay_exact_witness:
  "fst (cache_short_circuit sample_readers Inr (\<lambda>_. Inr sample_cache) 7 sample_cache_context
      (snd (cache_after sample_readers Inr (\<lambda>_. Inr sample_cache) 5 sample_cache_context sample_response [])))
   = Inr (Some sample_response)"
  using cache_replay_exact [of sample_cache "\<lambda>_. Inr sample_cache" sample_cache_context sample_cache_context
      sample_readers "''GET:/a''" None sample_response Inr _ Inr 5 7 "[]"]
  by (simp add: sample_cache_facts) (simp add: sample_cache_def)

end
