(* ===== verification/Sessions.thy ===== *)
theory Sessions
  imports Expiring_Store
begin

text \<open>
  \<open>src/session/{options,id,manager,handle,middleware,interceptor}.rs\<close>: session ids, the manager
  over a session store, the handle bound to one id, the middleware that binds an id to a
  request and the interceptor that sets the session cookie. A call of the manager reads the
  clock once, its first argument. Session data are tables from keys to JSON values \<open>'v\<close>.
\<close>

section \<open>Options\<close>

text \<open>\<open>SessionCookieSameSite\<close> has the constructors and names of \<open>CookieSameSite\<close>.\<close>

record session_options =
  sn_cookie_name :: str
  sn_request_header_name :: str
  sn_ttl :: "nat option"
  sn_cookie_path :: str
  sn_cookie_domain :: "str option"
  sn_http_only :: bool
  sn_secure :: bool
  sn_same_site :: "cookie_same_site option"
  sn_rolling :: bool

definition session_options_default :: session_options where
  "session_options_default =
     \<lparr>sn_cookie_name = ''a3s.sid'', sn_request_header_name = ''x-a3s-session-id'',
      sn_ttl = Some (60 * 60 * 24 * 1000000000), sn_cookie_path = ''/'', sn_cookie_domain = None,
      sn_http_only = True, sn_secure = False, sn_same_site = Some SS_Lax, sn_rolling = False\<rparr>"

section \<open>Session ids\<close>

definition hex_digit :: "nat \<Rightarrow> char" where
  "hex_digit n = (if n < 10 then char_of (48 + n) else char_of (87 + n))"

definition hex_byte :: "char \<Rightarrow> str" where
  "hex_byte b = [hex_digit (byte b div 16), hex_digit (byte b mod 16)]"

text \<open>\<open>random\<close> is \<open>getrandom\<close> of 32 bytes, or its error.\<close>

definition generate_session_id :: "('w \<Rightarrow> (str + str) \<times> 'w) \<Rightarrow> ('w, str) step" where
  "generate_session_id random w =
     (case random w of
        (Inl e, w1) \<Rightarrow> (Inl (Internal (''failed to generate session id: '' @ e)), w1)
      | (Inr bytes, w1) \<Rightarrow> (Inr (concat (map hex_byte bytes)), w1))"

text \<open>\<open>dbg\<close> is the \<open>Debug\<close> rendering of a string.\<close>

definition validate_session_id :: "(str \<Rightarrow> str) \<Rightarrow> str \<Rightarrow> str result" where
  "validate_session_id dbg sid =
     (let sid = trim sid in
      if sid = [] \<or> has_whitespace sid \<or> (\<exists>c \<in> set sid. c = CHR '';'' \<or> c = CHR '','' \<or> c = CHR ''='')
      then Inl (BadRequest (''invalid session id: '' @ dbg sid))
      else Inr sid)"

section \<open>The manager\<close>

type_synonym 'v session_data = "(str, 'v) btree"

record ('s, 'v) session_manager =
  sm_store :: "('s, 'v session_data) keyed_store"
  sm_options :: session_options

definition manager_cookie_session_id :: "(str \<Rightarrow> str) \<Rightarrow> ('s, 'v) session_manager \<Rightarrow> 'm boot_request \<Rightarrow> str option result" where
  "manager_cookie_session_id dbg m q =
     rbind (request_cookie q (sn_cookie_name (sm_options m))) (\<lambda>c. case c of
       None \<Rightarrow> Inr None
     | Some c \<Rightarrow> rmap Some (validate_session_id dbg c))"

definition manager_session_id :: "(str \<Rightarrow> str) \<Rightarrow> ('s, 'v) session_manager \<Rightarrow> 'm boot_request \<Rightarrow> str option result" where
  "manager_session_id dbg m q =
     (case request_header q (sn_request_header_name (sm_options m)) of
        Some sid \<Rightarrow> rmap Some (validate_session_id dbg sid)
      | None \<Rightarrow> manager_cookie_session_id dbg m q)"

definition require_session_id :: "(str \<Rightarrow> str) \<Rightarrow> ('s, 'v) session_manager \<Rightarrow> 'm boot_request \<Rightarrow> str result" where
  "require_session_id dbg m q =
     rbind (manager_session_id dbg m q) (\<lambda>sid. case sid of
       None \<Rightarrow> Inl (Unauthorized ''missing session id'')
     | Some sid \<Rightarrow> Inr sid)"

definition load_data :: "('s, 'v) session_manager \<Rightarrow> nat \<Rightarrow> str \<Rightarrow> ('s, 'v session_data option) step" where
  "load_data m now sid = ks_load (sm_store m) now sid"

definition save_data :: "('s, 'v) session_manager \<Rightarrow> nat \<Rightarrow> str \<Rightarrow> 'v session_data \<Rightarrow> ('s, unit) step" where
  "save_data m now sid data =
     (if data = [] then step_bind (ks_remove (sm_store m) sid) (\<lambda>_. step_result (Inr ()))
      else ks_save (sm_store m) now sid data (sn_ttl (sm_options m)))"

definition manager_get_value :: "('s, 'v) session_manager \<Rightarrow> nat \<Rightarrow> str \<Rightarrow> str \<Rightarrow> ('s, 'v option) step" where
  "manager_get_value m now sid key =
     step_bind (load_data m now sid) (\<lambda>d. step_result (Inr (Option.bind d (\<lambda>data. bt_get data key))))"

definition manager_get :: "('v \<Rightarrow> str + 'a) \<Rightarrow> ('s, 'v) session_manager \<Rightarrow> nat \<Rightarrow> str \<Rightarrow> str \<Rightarrow> ('s, 'a option) step" where
  "manager_get dec m now sid key =
     step_bind (manager_get_value m now sid key) (\<lambda>v. step_result (case v of
       None \<Rightarrow> Inr None
     | Some v \<Rightarrow>
         (case dec v of
            Inl e \<Rightarrow> Inl (Internal (''invalid session value `'' @ key @ ''`: '' @ e))
          | Inr a \<Rightarrow> Inr (Some a))))"

definition manager_set_value ::
  "(str \<Rightarrow> str) \<Rightarrow> ('s, 'v) session_manager \<Rightarrow> nat \<Rightarrow> str \<Rightarrow> str \<Rightarrow> 'v \<Rightarrow> ('s, unit) step" where
  "manager_set_value dbg m now sid key v =
     step_bind (step_result (validate_session_id dbg sid)) (\<lambda>sid.
     step_bind (load_data m now sid) (\<lambda>d.
       save_data m now sid (bt_insert key v (case d of Some data \<Rightarrow> data | None \<Rightarrow> []))))"

definition manager_set ::
  "(str \<Rightarrow> str) \<Rightarrow> ('a \<Rightarrow> str + 'v) \<Rightarrow> ('s, 'v) session_manager \<Rightarrow> nat \<Rightarrow> str \<Rightarrow> str \<Rightarrow> 'a \<Rightarrow> ('s, unit) step" where
  "manager_set dbg enc m now sid key a =
     (case enc a of
        Inl e \<Rightarrow> step_result (Inl (Internal (''failed to serialize session value: '' @ e)))
      | Inr v \<Rightarrow> manager_set_value dbg m now sid key v)"

definition manager_remove_key :: "(str \<Rightarrow> str) \<Rightarrow> ('s, 'v) session_manager \<Rightarrow> nat \<Rightarrow> str \<Rightarrow> str \<Rightarrow> ('s, bool) step" where
  "manager_remove_key dbg m now sid key =
     step_bind (step_result (validate_session_id dbg sid)) (\<lambda>sid.
     step_bind (load_data m now sid) (\<lambda>d. case d of
       None \<Rightarrow> step_result (Inr False)
     | Some data \<Rightarrow>
         (let removed = bt_get data key \<noteq> None; data = bt_remove key data in
          step_bind
            (if data = [] then step_bind (ks_remove (sm_store m) sid) (\<lambda>_. step_result (Inr ()))
             else save_data m now sid data)
            (\<lambda>_. step_result (Inr removed)))))"

definition manager_destroy :: "(str \<Rightarrow> str) \<Rightarrow> ('s, 'v) session_manager \<Rightarrow> str \<Rightarrow> ('s, bool) step" where
  "manager_destroy dbg m sid =
     step_bind (step_result (validate_session_id dbg sid)) (\<lambda>sid. ks_remove (sm_store m) sid)"

definition manager_clear :: "('s, 'v) session_manager \<Rightarrow> ('s, unit) step" where
  "manager_clear m = ks_clear (sm_store m)"

definition manager_has_data :: "(str \<Rightarrow> str) \<Rightarrow> ('s, 'v) session_manager \<Rightarrow> nat \<Rightarrow> str \<Rightarrow> ('s, bool) step" where
  "manager_has_data dbg m now sid =
     step_bind (step_result (validate_session_id dbg sid)) (\<lambda>sid.
     step_bind (load_data m now sid) (\<lambda>d.
       step_result (Inr (case d of None \<Rightarrow> False | Some data \<Rightarrow> data \<noteq> []))))"

text \<open>The handle: an id that was validated once, and the calls of the manager with it.\<close>

record ('s, 'v) session =
  se_manager :: "('s, 'v) session_manager"
  se_id :: str

definition session_from_manager :: "(str \<Rightarrow> str) \<Rightarrow> ('s, 'v) session_manager \<Rightarrow> str \<Rightarrow> ('s, 'v) session result" where
  "session_from_manager dbg m sid = rmap (\<lambda>sid. \<lparr>se_manager = m, se_id = sid\<rparr>) (validate_session_id dbg sid)"

definition session_get_value :: "('s, 'v) session \<Rightarrow> nat \<Rightarrow> str \<Rightarrow> ('s, 'v option) step" where
  "session_get_value h now key = manager_get_value (se_manager h) now (se_id h) key"

definition session_set_value :: "(str \<Rightarrow> str) \<Rightarrow> ('s, 'v) session \<Rightarrow> nat \<Rightarrow> str \<Rightarrow> 'v \<Rightarrow> ('s, unit) step" where
  "session_set_value dbg h now key v = manager_set_value dbg (se_manager h) now (se_id h) key v"

definition session_remove_key :: "(str \<Rightarrow> str) \<Rightarrow> ('s, 'v) session \<Rightarrow> nat \<Rightarrow> str \<Rightarrow> ('s, bool) step" where
  "session_remove_key dbg h now key = manager_remove_key dbg (se_manager h) now (se_id h) key"

definition session_destroy :: "(str \<Rightarrow> str) \<Rightarrow> ('s, 'v) session \<Rightarrow> ('s, bool) step" where
  "session_destroy dbg h = manager_destroy dbg (se_manager h) (se_id h)"

definition session_has_data :: "(str \<Rightarrow> str) \<Rightarrow> ('s, 'v) session \<Rightarrow> nat \<Rightarrow> ('s, bool) step" where
  "session_has_data dbg h now = manager_has_data dbg (se_manager h) now (se_id h)"

section \<open>Middleware and interceptor\<close>

definition session_middleware ::
  "(str \<Rightarrow> str) \<Rightarrow> ('w \<Rightarrow> (str + str) \<times> 'w) \<Rightarrow> ('w, 'v) session_manager \<Rightarrow> ('w, 'm) middleware" where
  "session_middleware dbg random m q =
     step_bind (step_result (manager_cookie_session_id dbg m q)) (\<lambda>sid.
     step_bind (case sid of Some sid \<Rightarrow> step_result (Inr sid) | None \<Rightarrow> generate_session_id random) (\<lambda>sid.
       step_result (Inr (Continue (request_with_header (sn_request_header_name (sm_options m)) sid q)))))"

definition append_cookie_attributes :: "str \<Rightarrow> session_options \<Rightarrow> str" where
  "append_cookie_attributes cookie o1 =
     cookie @ (case sn_cookie_domain o1 of Some d \<Rightarrow> ''; Domain='' @ d | None \<Rightarrow> [])
       @ (if sn_http_only o1 then ''; HttpOnly'' else [])
       @ (if sn_secure o1 then ''; Secure'' else [])
       @ (case sn_same_site o1 of Some ss \<Rightarrow> ''; SameSite='' @ same_site_str ss | None \<Rightarrow> [])"

definition session_cookie_header :: "session_options \<Rightarrow> str \<Rightarrow> str" where
  "session_cookie_header o1 sid =
     append_cookie_attributes
       (sn_cookie_name o1 @ ''='' @ sid @ ''; Path='' @ sn_cookie_path o1
         @ (case sn_ttl o1 of Some ttl \<Rightarrow> ''; Max-Age='' @ show_nat (ttl div 1000000000) | None \<Rightarrow> []))
       o1"

definition expired_session_cookie_header :: "session_options \<Rightarrow> str" where
  "expired_session_cookie_header o1 =
     append_cookie_attributes
       (sn_cookie_name o1 @ ''=; Path='' @ sn_cookie_path o1 @ ''; Max-Age=0'') o1"

definition apply_session_cookie ::
  "(str \<Rightarrow> str) \<Rightarrow> nat \<Rightarrow> boot_response \<Rightarrow> 'm boot_request \<Rightarrow> ('s, 'v) session_manager \<Rightarrow> ('s, boot_response) step" where
  "apply_session_cookie dbg now response q m =
     step_bind (step_result (manager_session_id dbg m q)) (\<lambda>sid. case sid of
       None \<Rightarrow> step_result (Inr response)
     | Some sid \<Rightarrow>
         step_bind (step_result (manager_cookie_session_id dbg m q)) (\<lambda>cookie_sid.
         (let has_cookie = (cookie_sid = Some sid) in
          step_bind (manager_has_data dbg m now sid) (\<lambda>has_data.
            step_result (Inr
              (if has_data \<and> (\<not> has_cookie \<or> sn_rolling (sm_options m))
               then response_append_header ''set-cookie'' (session_cookie_header (sm_options m) sid) response
               else if \<not> has_data \<and> has_cookie
               then response_append_header ''set-cookie'' (expired_session_cookie_header (sm_options m)) response
               else response))))))"

definition session_cookie_interceptor ::
  "(str \<Rightarrow> str) \<Rightarrow> ('w \<Rightarrow> nat) \<Rightarrow> ('w, 'v) session_manager \<Rightarrow> ('w, 'm, 'j) interceptor" where
  "session_cookie_interceptor dbg clock m =
     default_intercept (\<lambda>_ w. (Inr (), w)) (\<lambda>_ w. (Inr None, w))
       (\<lambda>ctx response w. apply_session_cookie dbg (clock w) response (ec_request ctx) m w)"

section \<open>The abstract sessions\<close>

text \<open>
  A session is a finite map that expires as a whole. Writing to it, and removing a key,
  restarts its time to live; an empty session is no session.
\<close>

type_synonym 'v abstract_sessions = "(str \<rightharpoonup> 'v) contents"

definition live_data :: "nat \<Rightarrow> 'v abstract_sessions \<Rightarrow> str \<Rightarrow> (str \<rightharpoonup> 'v)" where
  "live_data now A sid = (case alive now (A sid) of None \<Rightarrow> Map.empty | Some d \<Rightarrow> d)"

definition put_data :: "nat option \<Rightarrow> nat \<Rightarrow> str \<Rightarrow> (str \<rightharpoonup> 'v) \<Rightarrow> 'v abstract_sessions \<Rightarrow> 'v abstract_sessions" where
  "put_data ttl now sid d A = A(sid := if d = Map.empty then None else entry_of now d ttl)"

datatype 'v session_call =
  GetValue str str
| SetValue str str 'v
| RemoveKey str str
| Destroy str
| HasData str
| ClearAll

datatype 'v session_answer = Value "'v option result" | Outcome "unit result" | Answer "bool result"

text \<open>
  The answer of \<open>destroy\<close> is reduced to its error: whether it reports that a session was there
  depends, for a session that has expired, on whether somebody asked for it in between.
\<close>

fun session_call_apply ::
  "(str \<Rightarrow> str) \<Rightarrow> ('s, 'v) session_manager \<Rightarrow> nat \<Rightarrow> 'v session_call \<Rightarrow> 's \<Rightarrow> 'v session_answer \<times> 's" where
  "session_call_apply dbg m now (GetValue sid key) s = map_prod Value id (manager_get_value m now sid key s)"
| "session_call_apply dbg m now (SetValue sid key v) s = map_prod Outcome id (manager_set_value dbg m now sid key v s)"
| "session_call_apply dbg m now (RemoveKey sid key) s = map_prod Answer id (manager_remove_key dbg m now sid key s)"
| "session_call_apply dbg m now (Destroy sid) s =
     map_prod (\<lambda>r. Outcome (rmap (\<lambda>_. ()) r)) id (manager_destroy dbg m sid s)"
| "session_call_apply dbg m now (HasData sid) s = map_prod Answer id (manager_has_data dbg m now sid s)"
| "session_call_apply dbg m now ClearAll s = map_prod Outcome id (manager_clear m s)"

fun session_spec ::
  "(str \<Rightarrow> str) \<Rightarrow> nat option \<Rightarrow> nat \<Rightarrow> 'v session_call \<Rightarrow> 'v abstract_sessions \<Rightarrow> 'v session_answer \<times> 'v abstract_sessions" where
  "session_spec dbg ttl now (GetValue sid key) A = (Value (Inr (live_data now A sid key)), A)"
| "session_spec dbg ttl now (SetValue sid key v) A =
     (case validate_session_id dbg sid of
        Inl e \<Rightarrow> (Outcome (Inl e), A)
      | Inr sid \<Rightarrow> (Outcome (Inr ()), put_data ttl now sid ((live_data now A sid)(key \<mapsto> v)) A))"
| "session_spec dbg ttl now (RemoveKey sid key) A =
     (case validate_session_id dbg sid of
        Inl e \<Rightarrow> (Answer (Inl e), A)
      | Inr sid \<Rightarrow> (Answer (Inr (live_data now A sid key \<noteq> None)),
          put_data ttl now sid ((live_data now A sid)(key := None)) A))"
| "session_spec dbg ttl now (Destroy sid) A =
     (case validate_session_id dbg sid of
        Inl e \<Rightarrow> (Outcome (Inl e), A)
      | Inr sid \<Rightarrow> (Outcome (Inr ()), A(sid := None)))"
| "session_spec dbg ttl now (HasData sid) A =
     (case validate_session_id dbg sid of
        Inl e \<Rightarrow> (Answer (Inl e), A)
      | Inr sid \<Rightarrow> (Answer (Inr (live_data now A sid \<noteq> Map.empty)), A))"
| "session_spec dbg ttl now ClearAll A = (Outcome (Inr ()), \<lambda>_. None)"

fun session_run ::
  "(str \<Rightarrow> str) \<Rightarrow> ('s, 'v) session_manager \<Rightarrow> (nat \<times> 'v session_call) list \<Rightarrow> 's \<Rightarrow> 'v session_answer list" where
  "session_run dbg m [] s = []"
| "session_run dbg m ((now, call) # cs) s =
     (case session_call_apply dbg m now call s of (a, s1) \<Rightarrow> a # session_run dbg m cs s1)"

fun session_spec_run ::
  "(str \<Rightarrow> str) \<Rightarrow> nat option \<Rightarrow> (nat \<times> 'v session_call) list \<Rightarrow> 'v abstract_sessions \<Rightarrow> 'v session_answer list" where
  "session_spec_run dbg ttl [] A = []"
| "session_spec_run dbg ttl ((now, call) # cs) A =
     (case session_spec dbg ttl now call A of (a, A1) \<Rightarrow> a # session_spec_run dbg ttl cs A1)"

section \<open>The manager sessions_agree contents the abstract sessions\<close>

definition abs_sessions :: "'v session_data contents \<Rightarrow> 'v abstract_sessions" where
  "abs_sessions c sid = map_option (\<lambda>(d, x). (bt_get d, x)) (c sid)"

lemma bt_get_empty_iff [simp]: "bt_get m = Map.empty \<longleftrightarrow> m = []"
  by (cases m) (auto simp: bt_get_def fun_eq_iff split: if_splits)

lemma bt_get_insert_upd [simp]: "bt_get (bt_insert k v m) = (bt_get m)(k \<mapsto> v)"
  by (simp add: fun_eq_iff)

lemma bt_get_single: "bt_get [(k, v)] = [k \<mapsto> v]"
  by (simp add: bt_get_def fun_eq_iff)

lemma bt_get_remove_upd [simp]: "bt_get (bt_remove k m) = (bt_get m)(k := None)"
  by (simp add: fun_eq_iff)

lemma bt_insert_not_Nil [simp]: "bt_insert k v m \<noteq> []"
  by (cases m) (auto split: if_splits)

lemma alive_abs: "alive t (abs_sessions c sid) = map_option bt_get (alive t (c sid))"
  by (auto simp: abs_sessions_def alive_def split: option.splits prod.splits)

lemma abs_upd: "abs_sessions (c(sid := e)) = (abs_sessions c)(sid := map_option (\<lambda>(d, x). (bt_get d, x)) e)"
  by (simp add: abs_sessions_def fun_eq_iff)

lemma abs_sessions_empty: "abs_sessions (\<lambda>_. None) = (\<lambda>_. None)"
  by (simp add: abs_sessions_def fun_eq_iff)

lemma abs_entry_of: "map_option (\<lambda>(d, x). (bt_get d, x)) (entry_of now data ttl) = entry_of now (bt_get data) ttl"
  by (simp add: entry_of_def)

lemma same_from_abs: "same_from now c c' \<Longrightarrow> same_from now (abs_sessions c) (abs_sessions c')"
  by (simp add: same_from_def alive_abs)

lemma put_empty_dead: "alive now (A sid) = None \<Longrightarrow> same_from now A (put_data ttl now sid Map.empty A)"
  by (auto simp: same_from_def put_data_def dead_stays alive_def [of _ None])

definition sessions_agree ::
  "('s \<Rightarrow> 'v session_data contents) \<Rightarrow> nat \<Rightarrow> 's \<Rightarrow> 'v abstract_sessions \<Rightarrow> bool" where
  "sessions_agree contents now s A \<longleftrightarrow> same_from now (abs_sessions (contents s)) A"

locale session_manager_store =
  expiring_store "sm_store m" contents
  for m :: "('s, 'v) session_manager" and contents :: "'s \<Rightarrow> 'v session_data contents"
begin

lemma refines_mono: "sessions_agree contents now s A \<Longrightarrow> now \<le> now' \<Longrightarrow> sessions_agree contents now' s A"
  by (auto simp: sessions_agree_def intro: same_from_mono)

lemma refines_load:
  assumes "sessions_agree contents now s A"
  obtains d s' where "load_data m now sid s = (Inr d, s')" "map_option bt_get d = alive now (A sid)" "sessions_agree contents now s' A"
proof -
  obtain s' where load: "ks_load (sm_store m) now sid s = (Inr (alive now (contents s sid)), s')"
    and same: "same_from now (contents s') (contents s)" by (rule load_step)
  have "map_option bt_get (alive now (contents s sid)) = alive now (A sid)"
    using assms by (simp add: sessions_agree_def alive_abs [symmetric] same_from_alive)
  moreover have "sessions_agree contents now s' A"
    using assms same_from_abs [OF same] by (auto simp: sessions_agree_def intro: same_from_trans)
  ultimately show thesis using that load by (simp add: load_data_def)
qed

lemma refines_save:
  assumes "sessions_agree contents now s A"
  obtains s' where "save_data m now sid data s = (Inr (), s')"
    "sessions_agree contents now s' (put_data (sn_ttl (sm_options m)) now sid (bt_get data) A)"
proof (cases "data = []")
  case True
  obtain s' where "ks_remove (sm_store m) sid s = (Inr (contents s sid \<noteq> None), s')"
    "contents s' = (contents s)(sid := None)" by (rule remove_step)
  with True assms that show thesis
    by (simp add: save_data_def sessions_agree_def abs_upd put_data_def same_from_upd step_result_def)
next
  case False
  obtain s' where "ks_save (sm_store m) now sid data (sn_ttl (sm_options m)) s = (Inr (), s')"
    "contents s' = (contents s)(sid := entry_of now data (sn_ttl (sm_options m)))" by (rule save_step)
  with False assms that show thesis
    by (simp add: save_data_def sessions_agree_def abs_upd abs_entry_of put_data_def same_from_upd)
qed

lemma live_data_of: "map_option bt_get d = alive now (A sid) \<Longrightarrow>
    live_data now A sid = (case d of None \<Rightarrow> Map.empty | Some data \<Rightarrow> bt_get data)"
  by (cases d) (auto simp: live_data_def split: option.splits)

lemma refines_step:
  assumes "sessions_agree contents now s A"
  obtains s' where
    "session_call_apply dbg m now call s = (fst (session_spec dbg (sn_ttl (sm_options m)) now call A), s')"
    "sessions_agree contents now s' (snd (session_spec dbg (sn_ttl (sm_options m)) now call A))"
proof (cases call)
  case (GetValue sid key)
  obtain d s' where load: "load_data m now sid s = (Inr d, s')" "map_option bt_get d = alive now (A sid)" "sessions_agree contents now s' A"
    using assms by (rule refines_load)
  with live_data_of [of d now A sid, OF load(2)] GetValue that show thesis
    by (cases d) (simp_all add: manager_get_value_def step_result_def)
next
  case (SetValue sid0 key v)
  show thesis
  proof (cases "validate_session_id dbg sid0")
    case (Inl e)
    with SetValue assms that show thesis by (simp add: manager_set_value_def step_result_def)
  next
    case (Inr sid)
    obtain d s1 where load: "load_data m now sid s = (Inr d, s1)" "map_option bt_get d = alive now (A sid)" "sessions_agree contents now s1 A"
      using assms by (rule refines_load)
    let ?data = "bt_insert key v (case d of Some data \<Rightarrow> data | None \<Rightarrow> [])"
    obtain s' where save: "save_data m now sid ?data s1 = (Inr (), s')"
      "sessions_agree contents now s' (put_data (sn_ttl (sm_options m)) now sid (bt_get ?data) A)"
      using load(3) by (rule refines_save)
    have "bt_get ?data = (live_data now A sid)(key \<mapsto> v)"
      using live_data_of [of d now A sid, OF load(2)] by (cases d) (simp_all add: bt_get_single)
    with SetValue Inr load(1) save that show thesis by (simp add: manager_set_value_def)
  qed
next
  case (RemoveKey sid0 key)
  show thesis
  proof (cases "validate_session_id dbg sid0")
    case (Inl e)
    with RemoveKey assms that show thesis by (simp add: manager_remove_key_def step_result_def)
  next
    case (Inr sid)
    obtain d s1 where load: "load_data m now sid s = (Inr d, s1)" "map_option bt_get d = alive now (A sid)" "sessions_agree contents now s1 A"
      using assms by (rule refines_load)
    show thesis
    proof (cases d)
      case None
      then have "alive now (A sid) = None" using load(2) by simp
      from put_empty_dead [of now A sid, OF this] load(3) have "sessions_agree contents now s1 (put_data (sn_ttl (sm_options m)) now sid Map.empty A)"
        by (auto simp: sessions_agree_def intro: same_from_trans)
      moreover have "live_data now A sid = Map.empty"
        using live_data_of [of d now A sid, OF load(2)] None by simp
      ultimately show thesis
        using RemoveKey Inr None load(1) that by (simp add: manager_remove_key_def step_result_def)
    next
      case (Some data)
      obtain s' where save: "save_data m now sid (bt_remove key data) s1 = (Inr (), s')"
        "sessions_agree contents now s' (put_data (sn_ttl (sm_options m)) now sid (bt_get (bt_remove key data)) A)"
        using load(3) by (rule refines_save)
      have live: "live_data now A sid = bt_get data"
        using live_data_of [of d now A sid, OF load(2)] Some by simp
      have "(if bt_remove key data = [] then step_bind (ks_remove (sm_store m) sid) (\<lambda>_. step_result (Inr ()))
          else save_data m now sid (bt_remove key data)) s1 = (Inr (), s')"
        using save(1) by (simp add: save_data_def split: if_splits)
      then show thesis
        using RemoveKey Inr Some load(1) save(2) live that
        by (simp add: manager_remove_key_def Let_def step_bind_def step_result_def)
    qed
  qed
next
  case (Destroy sid0)
  show thesis
  proof (cases "validate_session_id dbg sid0")
    case (Inl e)
    with Destroy assms that show thesis by (simp add: manager_destroy_def step_result_def)
  next
    case (Inr sid)
    obtain s' where "ks_remove (sm_store m) sid s = (Inr (contents s sid \<noteq> None), s')"
      "contents s' = (contents s)(sid := None)" by (rule remove_step)
    with Destroy Inr assms that show thesis
      by (simp add: manager_destroy_def sessions_agree_def abs_upd same_from_upd)
  qed
next
  case (HasData sid0)
  show thesis
  proof (cases "validate_session_id dbg sid0")
    case (Inl e)
    with HasData assms that show thesis by (simp add: manager_has_data_def step_result_def)
  next
    case (Inr sid)
    obtain d s' where load: "load_data m now sid s = (Inr d, s')" "map_option bt_get d = alive now (A sid)" "sessions_agree contents now s' A"
      using assms by (rule refines_load)
    with live_data_of [of d now A sid, OF load(2)] HasData Inr that show thesis
      by (cases d) (simp_all add: manager_has_data_def step_result_def)
  qed
next
  case ClearAll
  obtain s' where "ks_clear (sm_store m) s = (Inr (), s')" "contents s' = (\<lambda>_. None)" by (rule clear_step)
  with ClearAll that show thesis
    by (simp add: manager_clear_def sessions_agree_def abs_sessions_empty)
qed

lemma run_refines_sessions:
  "sessions_agree contents now s A \<Longrightarrow> sorted (now # map fst hist) \<Longrightarrow>
   session_run dbg m hist s = session_spec_run dbg (sn_ttl (sm_options m)) hist A"
proof (induction hist arbitrary: now s A)
  case (Cons e hist)
  obtain t call where e: "e = (t, call)" by (cases e)
  have "sessions_agree contents t s A" using Cons.prems by (auto simp: e intro: refines_mono)
  then obtain s' where
    "session_call_apply dbg m t call s = (fst (session_spec dbg (sn_ttl (sm_options m)) t call A), s')"
    "sessions_agree contents t s' (snd (session_spec dbg (sn_ttl (sm_options m)) t call A))" by (rule refines_step)
  with Cons.IH [of t s'] Cons.prems(2) show ?case by (simp add: e case_prod_unfold)
qed simp

end

lemma in_memory_manager_store:
  "session_manager_store \<lparr>sm_store = in_memory_session_store, sm_options = o1\<rparr> session_contents"
  unfolding session_manager_store_def by simp (rule session_store.expiring_store_axioms)

interpretation in_memory_sessions:
  session_manager_store "\<lparr>sm_store = in_memory_session_store, sm_options = o1\<rparr>" session_contents for o1
  by (rule in_memory_manager_store)

text \<open>
  C26. For any sequence of calls on a session manager over the in-memory store, at instants
  that do not go back, the answers are those of abstract sessions: a value that was set is read
  back until it is overwritten, removed, its session destroyed or expired; each write to a
  session restarts its time to live; sessions do not see one another; and invalid session ids
  are refused with no effect.
\<close>
theorem sessions_refine:
  assumes "sorted (map fst hist)"
  shows "session_run dbg \<lparr>sm_store = in_memory_session_store, sm_options = o1\<rparr> hist []
       = session_spec_run dbg (sn_ttl o1) hist (\<lambda>_. None)"
proof -
  have "sessions_agree session_contents 0 [] (\<lambda>_. None)"
    by (simp add: sessions_agree_def abs_sessions_def session_contents_def same_from_def)
  with assms show ?thesis
    using in_memory_sessions.run_refines_sessions [of 0 "[]" "\<lambda>_. None" hist dbg o1] by simp
qed

definition sample_session_calls :: "(nat \<times> nat session_call) list" where
  "sample_session_calls =
     [(0, SetValue ''a'' ''k'' 1), (5, SetValue ''a'' ''j'' 2), (12, GetValue ''a'' ''k''), (13, HasData ''b''),
      (15, GetValue ''a'' ''k''), (16, SetValue '' ; '' ''k'' 3)]"

lemma sessions_refine_witness:
  "session_run id \<lparr>sm_store = in_memory_session_store, sm_options = session_options_default\<lparr>sn_ttl := Some 10\<rparr>\<rparr>
     sample_session_calls []
   = [Outcome (Inr ()), Outcome (Inr ()), Value (Inr (Some 1)), Answer (Inr False), Value (Inr None),
      Outcome (Inl (BadRequest ''invalid session id: ;''))]"
proof -
  have "validate_session_id id ''a'' = Inr ''a''" "validate_session_id id ''b'' = Inr ''b''"
    "validate_session_id id '' ; '' = Inl (BadRequest ''invalid session id: ;'')"
    by code_simp+
  then show ?thesis
    by (subst sessions_refine) (simp_all add: sample_session_calls_def live_data_def put_data_def alive_def entry_of_def)
qed

section \<open>Ids and cookies\<close>

lemma byte_hex_digit: "n < 16 \<Longrightarrow> byte (hex_digit n) = (if n < 10 then 48 + n else 87 + n)"
  by (simp add: hex_digit_def byte_char_of)

lemma hex_digit_plain:
  assumes "n < 16"
  shows "plain_cookie_byte (hex_digit n)" "hex_digit n \<noteq> CHR '',''" "hex_digit n \<noteq> CHR ''=''"
proof -
  have b: "byte (hex_digit n) \<in> {48..57} \<union> {97..102}" using assms by (auto simp: byte_hex_digit)
  have ne: "hex_digit n \<noteq> c" if "byte c \<notin> {48..57} \<union> {97..102}" for c using b that by auto
  show "hex_digit n \<noteq> CHR '',''" "hex_digit n \<noteq> CHR ''=''" by (rule ne; simp add: byte_def)+
  have "hex_digit n \<noteq> CHR '';''" "hex_digit n \<noteq> CHR 34" by (rule ne; simp add: byte_def)+
  then show "plain_cookie_byte (hex_digit n)" using b by (auto simp: plain_cookie_byte_def)
qed

lemma byte_less: "byte c < 256"
  by (simp add: byte_def)

lemma no_whitespace: "list_all (\<lambda>c. 33 \<le> byte c \<and> byte c \<le> 126) s \<Longrightarrow> \<not> has_whitespace s"
  by (induction s) (auto simp: ws_prefix_printable)

lemma hex_bytes_plain:
  "list_all (\<lambda>c. plain_cookie_byte c \<and> c \<noteq> CHR '','' \<and> c \<noteq> CHR ''='') (concat (map hex_byte bytes))"
proof (induction bytes)
  case (Cons b bytes)
  have "byte b div 16 < 16" "byte b mod 16 < 16" using byte_less [of b] by auto
  with Cons show ?case by (simp add: hex_byte_def hex_digit_plain)
qed simp

text \<open>A generated id is accepted as it is.\<close>

lemma generated_id_valid:
  assumes "generate_session_id random w = (Inr sid, w')" "\<forall>bytes w''. random w = (Inr bytes, w'') \<longrightarrow> length bytes = 32"
  shows "validate_session_id dbg sid = Inr sid \<and> list_all plain_cookie_byte sid \<and> length sid = 64"
proof -
  obtain bytes where bytes: "random w = (Inr bytes, w')" and sid: "sid = concat (map hex_byte bytes)"
    using assms(1) by (auto simp: generate_session_id_def split: prod.splits sum.splits)
  have n: "length bytes = 32" using assms(2) bytes by blast
  have len: "length (concat (map hex_byte bytes)) = 2 * length bytes" for bytes
    by (induction bytes) (simp_all add: hex_byte_def)
  note plain = hex_bytes_plain [of bytes, folded sid]
  then have "list_all (\<lambda>c. 33 \<le> byte c \<and> byte c \<le> 126) sid" by (rule list_all_impD) (simp add: plain_cookie_byte_def)
  then have "trim sid = sid" "\<not> has_whitespace sid" by (rule trim_printable, rule no_whitespace)
  moreover have "length sid = 64" using len n sid by simp
  moreover have "list_all plain_cookie_byte sid" using plain by (rule list_all_impD) simp
  moreover have "\<not> (\<exists>c \<in> set sid. c = CHR '';'' \<or> c = CHR '','' \<or> c = CHR ''='')"
    using plain unfolding list_all_iff plain_cookie_byte_def by blast
  moreover have "sid \<noteq> []" using \<open>length sid = 64\<close> by auto
  ultimately show ?thesis by (simp add: validate_session_id_def)
qed

section \<open>The cookie\<close>

definition session_cookie_attrs :: "session_options \<Rightarrow> nat option \<Rightarrow> str list" where
  "session_cookie_attrs o1 max_age =
     [''Path='' @ sn_cookie_path o1]
       @ (case max_age of Some n \<Rightarrow> [''Max-Age='' @ show_nat n] | None \<Rightarrow> [])
       @ (case sn_cookie_domain o1 of Some d \<Rightarrow> [''Domain='' @ d] | None \<Rightarrow> [])
       @ (if sn_http_only o1 then [''HttpOnly''] else []) @ (if sn_secure o1 then [''Secure''] else [])
       @ (case sn_same_site o1 of Some ss \<Rightarrow> [''SameSite='' @ same_site_str ss] | None \<Rightarrow> [])"

definition cookie_line :: "str \<Rightarrow> str \<Rightarrow> str list \<Rightarrow> str" where
  "cookie_line name v as = name @ ''='' @ v @ concat (map (\<lambda>a. CHR '';'' # CHR '' '' # a) as)"

lemma show_nat_zero: "show_nat 0 = ''0''"
  by code_simp

lemma session_cookie_line:
  "session_cookie_header o1 sid
     = cookie_line (sn_cookie_name o1) sid (session_cookie_attrs o1 (map_option (\<lambda>ttl. ttl div 1000000000) (sn_ttl o1)))"
  "expired_session_cookie_header o1 = cookie_line (sn_cookie_name o1) [] (session_cookie_attrs o1 (Some 0))"
  by (simp_all add: session_cookie_header_def expired_session_cookie_header_def append_cookie_attributes_def
      cookie_line_def session_cookie_attrs_def show_nat_zero split: option.split)

lemma middleware_binds:
  assumes "session_middleware dbg random m q w = (Inr (Continue q'), w')"
  obtains sid where "q' = request_with_header (sn_request_header_name (sm_options m)) sid q"
    "manager_cookie_session_id dbg m q = Inr (Some sid) \<and> w' = w \<or>
     manager_cookie_session_id dbg m q = Inr None \<and> generate_session_id random w = (Inr sid, w')"
  using assms
  by (auto simp: session_middleware_def step_bind_def step_result_def split: sum.splits option.splits prod.splits)

text \<open>Text with no white space is trimmed to itself, so a valid id is valid as it is.\<close>

lemma has_whitespace_at: "ws_prefix y \<noteq> 0 \<Longrightarrow> y \<noteq> [] \<Longrightarrow> has_whitespace (p @ y)"
proof (induction p)
  case Nil
  then show ?case by (cases y) auto
qed simp

lemma ws_bytes_not_Nil [simp]: "\<not> ws_bytes []"
  by simp

lemma ws_prefix_of_end: "ws_bytes (map byte y) \<Longrightarrow> length y \<le> 3 \<Longrightarrow> ws_prefix y \<noteq> 0"
  by (cases "length y = 1"; cases "length y = 2") (auto simp: ws_prefix_def)

lemma trim_without_whitespace:
  assumes "\<not> has_whitespace s"
  shows "trim s = s"
proof -
  have "s = [] \<or> ws_prefix s = 0" using has_whitespace_at [of s "[]"] assms by auto
  then have start: "trim_start s = s" by (subst trim_start.simps) simp
  have no: "\<not> ws_bytes (map byte (rev (take k (rev s))))" if "k \<le> 3" for k
  proof
    assume ws: "ws_bytes (map byte (rev (take k (rev s))))"
    then have "rev (take k (rev s)) \<noteq> []" by (cases "rev (take k (rev s))") auto
    moreover have "ws_prefix (rev (take k (rev s))) \<noteq> 0" using ws that by (intro ws_prefix_of_end) auto
    moreover have "s = rev (drop k (rev s)) @ rev (take k (rev s))"
      by (metis append_take_drop_id rev_append rev_rev_ident)
    ultimately show False using has_whitespace_at assms by metis
  qed
  have "ws_suffix_rev (rev s) = 0"
    using no [of 1] no [of 2] no [of 3] by (simp add: ws_suffix_rev_def)
  then have "trim_start_rev (rev s) = rev s" by (subst trim_start_rev.simps) simp
  with start show ?thesis by (simp add: trim_def trim_end_def)
qed

lemma validate_session_id_idem:
  assumes "validate_session_id dbg c = Inr sid"
  shows "validate_session_id dbg sid = Inr sid"
proof -
  have valid: "\<not> (sid = [] \<or> has_whitespace sid \<or> (\<exists>c \<in> set sid. c = CHR '';'' \<or> c = CHR '','' \<or> c = CHR ''=''))"
    using assms by (auto simp: validate_session_id_def Let_def split: if_splits)
  then have "trim sid = sid" by (simp add: trim_without_whitespace)
  with valid show ?thesis by (simp add: validate_session_id_def)
qed

lemma cookie_session_id_valid:
  "manager_cookie_session_id dbg m q = Inr (Some sid) \<Longrightarrow> validate_session_id dbg sid = Inr sid"
  by (auto simp: manager_cookie_session_id_def result_simps split: option.splits dest: validate_session_id_idem)

lemma bound_request:
  assumes "headers_normal (rq_headers q)" "\<not> eq_ignore_ascii_case name ''cookie''"
  shows "request_header (request_with_header name v q) name = Some v"
    "request_cookie (request_with_header name v q) n = request_cookie q n"
proof -
  have "get_header (rq_headers (request_with_header name v q)) ''cookie'' = get_header (rq_headers q) ''cookie''"
    using assms by (simp add: request_with_header_def get_header_insert)
  then show "request_cookie (request_with_header name v q) n = request_cookie q n"
    by (simp add: request_cookie_def cookie_pairs_def request_header_values_def header_values_of_def)
      (simp add: request_with_header_def)
qed (use assms(1) in \<open>simp add: request_header_def request_with_header_def get_header_insert\<close>)

text \<open>
  The session a request runs under is the one of its cookie or, without a cookie, a fresh
  one of 64 hexadecimal digits; whatever the client puts into the session header of the
  request has no influence. After the handler the response is changed in exactly two cases: a
  session that has data gets its cookie if the client does not present it yet, or on every
  response when the cookie is rolling; a cookie of a session without data is revoked.
\<close>
theorem session_cookie_exact:
  assumes middleware: "session_middleware dbg random m q w = (Inr (Continue q'), w')"
    and headers: "headers_normal (rq_headers q)"
    and name: "\<not> eq_ignore_ascii_case (sn_request_header_name (sm_options m)) ''cookie''"
    and random: "\<forall>bytes w''. random w = (Inr bytes, w'') \<longrightarrow> length bytes = 32"
    and data: "\<forall>sid. manager_session_id dbg m q' = Inr (Some sid) \<longrightarrow> manager_has_data dbg m now sid s = (Inr has_data, s')"
  shows "\<exists>sid known. manager_session_id dbg m q' = Inr (Some sid) \<and>
     (case manager_cookie_session_id dbg m q of
        Inr (Some c) \<Rightarrow> known \<and> sid = c
      | _ \<Rightarrow> \<not> known \<and> length sid = 64 \<and> generate_session_id random w = (Inr sid, w')) \<and>
     apply_session_cookie dbg now response q' m s =
       (Inr (if has_data \<and> (\<not> known \<or> sn_rolling (sm_options m))
             then response_append_header ''set-cookie'' (session_cookie_header (sm_options m) sid) response
             else if \<not> has_data \<and> known
             then response_append_header ''set-cookie'' (expired_session_cookie_header (sm_options m)) response
             else response), s')"
proof -
  obtain sid where q': "q' = request_with_header (sn_request_header_name (sm_options m)) sid q"
    and source: "manager_cookie_session_id dbg m q = Inr (Some sid) \<and> w' = w \<or>
       manager_cookie_session_id dbg m q = Inr None \<and> generate_session_id random w = (Inr sid, w')"
    using middleware by (rule middleware_binds)
  let ?known = "manager_cookie_session_id dbg m q = Inr (Some sid)"
  have valid: "validate_session_id dbg sid = Inr sid" "\<not> ?known \<longrightarrow> length sid = 64"
    using source cookie_session_id_valid generated_id_valid [where random = random and w = w, OF _ random] by blast+
  have bound: "manager_session_id dbg m q' = Inr (Some sid)"
    using bound_request(1) [OF headers name, of sid] valid(1) by (simp add: manager_session_id_def q')
  have cookie: "manager_cookie_session_id dbg m q' = manager_cookie_session_id dbg m q"
    using bound_request(2) [OF headers name] by (simp add: manager_cookie_session_id_def q')
  have "apply_session_cookie dbg now response q' m s =
       (Inr (if has_data \<and> (\<not> ?known \<or> sn_rolling (sm_options m))
             then response_append_header ''set-cookie'' (session_cookie_header (sm_options m) sid) response
             else if \<not> has_data \<and> ?known
             then response_append_header ''set-cookie'' (expired_session_cookie_header (sm_options m)) response
             else response), s')"
    using source data bound
    by (auto simp: apply_session_cookie_def bound cookie Let_def step_result_def)
  moreover have "case manager_cookie_session_id dbg m q of
        Inr (Some c) \<Rightarrow> ?known \<and> sid = c
      | _ \<Rightarrow> \<not> ?known \<and> length sid = 64 \<and> generate_session_id random w = (Inr sid, w')"
    using source valid(2) by auto
  ultimately show ?thesis using bound by blast
qed

definition sample_manager :: "(unit, nat) session_manager" where
  "sample_manager =
     \<lparr>sm_store = \<lparr>ks_load = \<lambda>_ _ s. (Inr (Some [(''k'', 1)]), s), ks_save = \<lambda>_ _ _ _ s. (Inr (), s),
        ks_remove = \<lambda>_ s. (Inr True, s), ks_clear = \<lambda>s. (Inr (), s)\<rparr>,
      sm_options = session_options_default\<rparr>"

lemma sample_manager_options: "sm_options sample_manager = session_options_default"
  by (simp add: sample_manager_def)

definition sample_random :: "'w \<Rightarrow> (str + str) \<times> 'w" where
  "sample_random w = (Inr (replicate 32 CHR 0x0F), w)"

definition sample_sid :: str where
  "sample_sid = concat (replicate 32 ''0f'')"

lemma sample_generated: "generate_session_id sample_random w = (Inr sample_sid, w)"
proof -
  have "hex_byte CHR 0x0F = ''0f''" by code_simp
  then show ?thesis by (simp add: generate_session_id_def sample_random_def sample_sid_def)
qed

lemma session_cookie_exact_witness:
  "fst (apply_session_cookie id 0 (response_empty 200)
      (request_with_header ''x-a3s-session-id'' sample_sid (request_with_header ''X-A3S-Session-Id'' ''forged'' sample_request))
      sample_manager ())
   = Inr (response_append_header ''set-cookie'' (session_cookie_header session_options_default sample_sid) (response_empty 200))"
proof -
  let ?q = "request_with_header ''X-A3S-Session-Id'' ''forged'' sample_request"
  have headers: "rq_headers ?q = bt_insert (normalize_header_name ''X-A3S-Session-Id'') ''forged'' []" "rq_appended_headers ?q = []"
    by (simp_all add: request_with_header_def sample_request_def request_new_def split_path_query_def)
  then have normal: "headers_normal (rq_headers ?q)" by (metis headers_normal_Nil headers_normal_insert)
  have cookie: "manager_cookie_session_id id sample_manager ?q = Inr None"
    using headers
    by (simp add: manager_cookie_session_id_def request_cookie_def cookie_pairs_def request_header_values_def
        header_values_of_def parse_cookie_header_values_def get_header_def bt_get_def normalize_header_name_def
        to_ascii_lowercase_def ascii_lower_char_def byte_def eq_ignore_ascii_case_def List.map_filter_simps)
  have middleware: "session_middleware id sample_random sample_manager ?q ()
      = (Inr (Continue (request_with_header ''x-a3s-session-id'' sample_sid ?q)), ())"
    by (simp add: session_middleware_def cookie sample_generated step_bind_def step_result_def)
      (simp add: sample_manager_def session_options_default_def)
  have name: "\<not> eq_ignore_ascii_case (sn_request_header_name (sm_options sample_manager)) ''cookie''"
    by (simp add: sample_manager_def session_options_default_def eq_ignore_ascii_case_def to_ascii_lowercase_def ascii_lower_char_def byte_def)
  have data: "\<forall>sid. manager_session_id id sample_manager (request_with_header ''x-a3s-session-id'' sample_sid ?q) = Inr (Some sid) \<longrightarrow>
      manager_has_data id sample_manager 0 sid () = (Inr True, ())"
  proof (intro allI impI)
    fix sid
    assume "manager_session_id id sample_manager (request_with_header ''x-a3s-session-id'' sample_sid ?q) = Inr (Some sid)"
    then have "validate_session_id id sid = Inr sid"
      by (auto simp: manager_session_id_def result_simps dest: validate_session_id_idem cookie_session_id_valid
          split: option.splits)
    then show "manager_has_data id sample_manager 0 sid () = (Inr True, ())"
      by (simp add: manager_has_data_def load_data_def sample_manager_def step_bind_def step_result_def)
  qed
  have random: "\<forall>bytes w''. sample_random () = (Inr bytes, w'') \<longrightarrow> length bytes = 32"
    by (simp add: sample_random_def)
  obtain sid known where bound:
    "case manager_cookie_session_id id sample_manager ?q of
        Inr (Some c) \<Rightarrow> known \<and> sid = c
      | _ \<Rightarrow> \<not> known \<and> length sid = 64 \<and> generate_session_id sample_random () = (Inr sid, ())"
    and applied: "apply_session_cookie id 0 (response_empty 200)
        (request_with_header ''x-a3s-session-id'' sample_sid ?q) sample_manager () =
       (Inr (if True \<and> (\<not> known \<or> sn_rolling (sm_options sample_manager))
             then response_append_header ''set-cookie'' (session_cookie_header (sm_options sample_manager) sid) (response_empty 200)
             else if \<not> True \<and> known
             then response_append_header ''set-cookie'' (expired_session_cookie_header (sm_options sample_manager)) (response_empty 200)
             else response_empty 200), ())"
    using session_cookie_exact [where response = "response_empty 200", OF middleware normal name random data]
    by (elim exE conjE) (rule that)
  from bound have "\<not> known" "sid = sample_sid" by (simp_all add: cookie sample_generated)
  with applied show ?thesis by (simp add: sample_manager_options)
qed

text \<open>
  A session survives the round trip through the client: the cookie of a fresh session
  splits at semicolons into the pair of name and id and the attributes the options ask for, and
  a request that sends the pair back runs under the same id.
\<close>
theorem session_id_roundtrip:
  assumes generated: "generate_session_id random w = (Inr sid, w')"
    "\<forall>bytes w''. random w = (Inr bytes, w'') \<longrightarrow> length bytes = 32"
    and name: "list_all is_cookie_name_byte (sn_cookie_name (sm_options m))" "sn_cookie_name (sm_options m) \<noteq> []"
    and clean: "CHR '';'' \<notin> set (sn_cookie_path (sm_options m))"
      "case sn_cookie_domain (sm_options m) of None \<Rightarrow> True | Some d \<Rightarrow> CHR '';'' \<notin> set d"
    and echo: "request_header_values q ''cookie'' = [hd (split_on CHR '';'' (session_cookie_header (sm_options m) sid))]"
  shows "split_on CHR '';'' (session_cookie_header (sm_options m) sid)
       = (sn_cookie_name (sm_options m) @ ''='' @ sid)
         # map (\<lambda>a. CHR '' '' # a)
             (session_cookie_attrs (sm_options m) (map_option (\<lambda>ttl. ttl div 1000000000) (sn_ttl (sm_options m)))) \<and>
     manager_cookie_session_id dbg m q = Inr (Some sid)"
proof -
  let ?o = "sm_options m"
  let ?attrs = "session_cookie_attrs ?o (map_option (\<lambda>ttl. ttl div 1000000000) (sn_ttl ?o))"
  from generated_id_valid [OF generated]
  have valid: "validate_session_id dbg sid = Inr sid" and plain: "list_all plain_cookie_byte sid" by blast+
  have digits: "CHR '';'' \<notin> set (show_nat n)" for n
    using show_nat_digits [of "CHR '';''" n] by (auto simp: is_ascii_digit_def byte_def)
  have site: "CHR '';'' \<notin> set (same_site_str ss)" for ss by (cases ss) simp_all
  have "CHR '';'' \<notin> set a" if "a \<in> set ?attrs" for a
    using that clean digits site by (auto simp: session_cookie_attrs_def split: option.splits if_splits)
  then have split: "split_on CHR '';'' (session_cookie_header ?o sid)
      = (sn_cookie_name ?o @ ''='' @ sid) # map (\<lambda>a. CHR '' '' # a) ?attrs"
    using split_on_attrs [of "CHR '';''" "sn_cookie_name ?o @ ''='' @ sid" ?attrs "CHR '' ''"]
      cookie_pair_read_back(1) [OF name plain]
    by (simp add: session_cookie_line cookie_line_def)
  have "request_cookie q (sn_cookie_name ?o) = Inr (Some sid)"
    using cookie_pair_read_back(2) [OF name plain] echo split by (simp add: request_cookie_def cookie_pairs_def)
  with split valid show ?thesis by (simp add: manager_cookie_session_id_def)
qed

lemma session_id_roundtrip_witness:
  "manager_cookie_session_id id sample_manager
     (request_with_header ''cookie'' (''a3s.sid='' @ sample_sid) sample_request) = Inr (Some sample_sid)"
proof -
  let ?q = "request_with_header ''cookie'' (''a3s.sid='' @ sample_sid) sample_request"
  have free: "CHR '';'' \<notin> set sample_sid" by (simp add: sample_sid_def)
  have "hd (split_on CHR '';'' (session_cookie_header session_options_default sample_sid)) = ''a3s.sid='' @ sample_sid"
    using split_on_append [of "CHR '';''" "''a3s.sid='' @ sample_sid"] free
    by (simp add: session_cookie_header_def append_cookie_attributes_def session_options_default_def)
  moreover have "request_header_values ?q ''cookie'' = [''a3s.sid='' @ sample_sid]"
    by (simp add: request_header_values_def header_values_of_def get_header_def request_with_header_def sample_request_def
        request_new_def split_path_query_def normalize_header_name_def to_ascii_lowercase_def ascii_lower_char_def byte_def
        bt_get_def)
  ultimately show ?thesis
    using session_id_roundtrip [where m = sample_manager and q = ?q and dbg = id, OF sample_generated]
    by (simp add: sample_manager_options sample_random_def session_options_default_def is_cookie_name_byte_def is_ascii_alpha_def
        is_ascii_digit_def byte_def)
qed

text \<open>
  The calls of the manager load and save in two steps of the store. When two requests of one
  session interleave between them, the write of one is lost, although both succeed.
\<close>

lemma set_value_race:
  assumes "sid = ''a''" "m = \<lparr>sm_store = in_memory_session_store, sm_options = o1\<lparr>sn_ttl := None\<rparr>\<rparr>"
  shows "step_bind (load_data m 0 sid) (\<lambda>d1.
         step_bind (load_data m 0 sid) (\<lambda>d2.
         step_bind (save_data m 0 sid (bt_insert ''x'' v1 (case d1 of Some d \<Rightarrow> d | None \<Rightarrow> []))) (\<lambda>_.
         step_bind (save_data m 0 sid (bt_insert ''y'' v2 (case d2 of Some d \<Rightarrow> d | None \<Rightarrow> []))) (\<lambda>_.
           manager_get_value m 0 sid ''x'')))) [] = (Inr None, snd (save_data m 0 sid [(''y'', v2)] []))"
  by (simp add: assms load_data_def save_data_def manager_get_value_def session_store_ops step_bind_def step_result_def
      bt_get_def)

end
