(* ===== verification/Static_Files.thy ===== *)
theory Static_Files
  imports Pipeline
begin

text \<open>
  \<open>src/static_files.rs\<close>: serving files below a root directory. A path of the file system is the
  list of its components as \<open>std::path\<close> gives them on Unix; the file system is a record of
  functions on the world, so it may change between two calls. Canonicalisation, metadata and
  reading are the functions of \<open>tokio::fs\<close> and are not interpreted further.
\<close>

section \<open>Paths\<close>

datatype path_component = RootDir | CurDir | ParentDir | Normal str

type_synonym file_path = "path_component list"

definition component_of :: "str \<Rightarrow> path_component" where
  "component_of s = (if s = ''.'' then CurDir else if s = ''..'' then ParentDir else Normal s)"

text \<open>\<open>Path::components\<close>: a dot is a component only at the start of a relative path.\<close>

definition path_components :: "str \<Rightarrow> file_path" where
  "path_components p =
     (let parts = map component_of (filter (\<lambda>s. s \<noteq> []) (split_on CHR ''/'' p)) in
      if starts_with ''/'' p then RootDir # filter (\<lambda>c. c \<noteq> CurDir) parts
      else takeWhile (\<lambda>c. c = CurDir) (take 1 parts) @ filter (\<lambda>c. c \<noteq> CurDir) parts)"

text \<open>\<open>join\<close> with a string: an absolute one replaces the path.\<close>

definition path_join :: "file_path \<Rightarrow> str \<Rightarrow> file_path" where
  "path_join p s =
     (if starts_with ''/'' s then path_components s
      else if p = [] then path_components s
      else p @ filter (\<lambda>c. c \<noteq> CurDir) (path_components s))"

definition path_starts_with :: "file_path \<Rightarrow> file_path \<Rightarrow> bool" where
  "path_starts_with p base \<longleftrightarrow> take (length base) p = base"

definition component_str :: "path_component \<Rightarrow> str" where
  "component_str c = (case c of RootDir \<Rightarrow> [] | CurDir \<Rightarrow> ''.'' | ParentDir \<Rightarrow> ''..'' | Normal s \<Rightarrow> s)"

definition path_display :: "file_path \<Rightarrow> str" where
  "path_display p = (if p = [RootDir] then ''/'' else join_with ''/'' (map component_str p))"

text \<open>\<open>Path::extension\<close>: what follows the last dot of the file name, if the dot does not start it.\<close>

definition path_extension :: "file_path \<Rightarrow> str option" where
  "path_extension p =
     (case p of [] \<Rightarrow> None | _ \<Rightarrow>
       (case last p of
          Normal s \<Rightarrow>
            (case split_once CHR ''.'' (rev s) of
               Some (ext, stem) \<Rightarrow> if stem = [] then None else Some (rev ext)
             | None \<Rightarrow> None)
        | _ \<Rightarrow> None))"

section \<open>Options\<close>

record static_file_options =
  sf_serve_root :: str
  sf_index_file :: "str option"
  sf_fallback_file :: "str option"
  sf_cache_control :: "str option"
  sf_dotfiles :: bool

definition static_file_options_default :: static_file_options where
  "static_file_options_default =
     \<lparr>sf_serve_root = ''/'', sf_index_file = Some ''index.html'', sf_fallback_file = None,
      sf_cache_control = None, sf_dotfiles = False\<rparr>"

definition normalize_serve_root :: "str \<Rightarrow> str" where
  "normalize_serve_root base =
     (let trimmed = trim base in
      if trimmed = [] \<or> trimmed = ''/'' then ''/''
      else trim_end_char CHR ''/'' (if starts_with ''/'' trimmed then trimmed else ''/'' @ trimmed))"

definition with_serve_root :: "str \<Rightarrow> static_file_options \<Rightarrow> static_file_options" where
  "with_serve_root base o1 = o1\<lparr>sf_serve_root := normalize_serve_root base\<rparr>"

definition static_route_path :: "str \<Rightarrow> str" where
  "static_route_path base =
     (let base = normalize_serve_root base in
      if base = ''/'' then ''/{*path}'' else base @ ''/{*path}'')"

section \<open>The file system\<close>

datatype file_kind = RegularFile | Directory | OtherFile

record file_metadata =
  fm_kind :: file_kind
  fm_len :: nat

type_synonym io_error = "io_kind \<times> str"

record 'w file_system =
  fs_metadata :: "file_path \<Rightarrow> 'w \<Rightarrow> (io_error + file_metadata) \<times> 'w"
  fs_canonicalize :: "file_path \<Rightarrow> 'w \<Rightarrow> (io_error + file_path) \<times> 'w"
  fs_read :: "file_path \<Rightarrow> 'w \<Rightarrow> (io_error + str) \<times> 'w"

text \<open>\<open>std::io::ErrorKind::NotFound\<close>, the first of the kinds.\<close>

definition io_not_found :: io_kind where
  "io_not_found = IoKind 0"

definition static_io_error :: "str \<Rightarrow> file_path \<Rightarrow> io_error \<Rightarrow> boot_error" where
  "static_io_error subject p e =
     (if fst e = io_not_found then NotFound (subject @ '' was not found'')
      else Io (fst e) (subject @ '' `'' @ path_display p @ ''`: '' @ snd e))"

definition sanitize_component :: "bool \<Rightarrow> path_component \<Rightarrow> file_path result" where
  "sanitize_component dotfiles c =
     (case c of
        Normal part \<Rightarrow>
          if \<not> dotfiles \<and> starts_with ''.'' part
          then Inl (Forbidden ''static dotfiles are not served by default'')
          else Inr [Normal part]
      | CurDir \<Rightarrow> Inr []
      | _ \<Rightarrow> Inl (Forbidden ''static file path escapes the configured root''))"

definition sanitize_relative_path :: "str \<Rightarrow> bool \<Rightarrow> file_path result" where
  "sanitize_relative_path path dotfiles =
     (let path = trim_start_char CHR ''/'' path in
      if path = [] then Inr []
      else rmap concat (rcollect (sanitize_component dotfiles) (path_components path)))"

definition content_type_for :: "file_path \<Rightarrow> str" where
  "content_type_for p =
     (case Option.bind (map_option to_ascii_lowercase (path_extension p)) (map_of
        [(''avif'', ''image/avif''), (''css'', ''text/css; charset=utf-8''), (''csv'', ''text/csv; charset=utf-8''),
         (''gif'', ''image/gif''), (''htm'', ''text/html; charset=utf-8''), (''html'', ''text/html; charset=utf-8''),
         (''ico'', ''image/x-icon''), (''jpg'', ''image/jpeg''), (''jpeg'', ''image/jpeg''),
         (''js'', ''text/javascript; charset=utf-8''), (''mjs'', ''text/javascript; charset=utf-8''),
         (''json'', ''application/json''), (''map'', ''application/json''), (''pdf'', ''application/pdf''),
         (''png'', ''image/png''), (''svg'', ''image/svg+xml''), (''txt'', ''text/plain; charset=utf-8''),
         (''wasm'', ''application/wasm''), (''webp'', ''image/webp''), (''xml'', ''application/xml'')]) of
        Some t \<Rightarrow> t
      | None \<Rightarrow> ''application/octet-stream'')"

section \<open>Serving\<close>

text \<open>A call of the file system whose failure \<open>NotFound\<close> is an answer of its own.\<close>

definition found_or :: "('w \<Rightarrow> (io_error + 'a) \<times> 'w) \<Rightarrow> file_path \<Rightarrow> ('w, 'a option) step" where
  "found_or f p w =
     (case f w of
        (Inr a, w1) \<Rightarrow> (Inr (Some a), w1)
      | (Inl e, w1) \<Rightarrow>
          (if fst e = io_not_found then Inr None else Inl (static_io_error ''static file'' p e), w1))"

definition io_or :: "str \<Rightarrow> file_path \<Rightarrow> ('w \<Rightarrow> (io_error + 'a) \<times> 'w) \<Rightarrow> ('w, 'a) step" where
  "io_or subject p f w =
     (case f w of (Inr a, w1) \<Rightarrow> (Inr a, w1) | (Inl e, w1) \<Rightarrow> (Inl (static_io_error subject p e), w1))"

definition file_response :: "static_file_options \<Rightarrow> file_path \<Rightarrow> file_metadata \<Rightarrow> str \<Rightarrow> boot_response" where
  "file_response o1 canonical metadata body =
     (let response =
        response_with_header ''content-length'' (show_nat (fm_len metadata))
          (response_with_header ''content-type'' (content_type_for canonical) (response_new 200 body)) in
      case sf_cache_control o1 of
        Some v \<Rightarrow> response_with_header ''cache-control'' v response
      | None \<Rightarrow> response)"

text \<open>The part of \<open>try_file_response\<close> after the candidate is known.\<close>

definition canonical_file_response ::
  "'w file_system \<Rightarrow> static_file_options \<Rightarrow> file_path \<Rightarrow> file_path \<Rightarrow> ('w, boot_response option) step" where
  "canonical_file_response fs o1 base candidate =
     step_bind (found_or (fs_canonicalize fs candidate) candidate) (\<lambda>c. case c of
       None \<Rightarrow> step_result (Inr None)
     | Some canonical \<Rightarrow>
         if \<not> path_starts_with canonical base
         then step_result (Inl (Forbidden ''static file resolved outside the configured root''))
         else
           step_bind (io_or ''static file'' canonical (fs_metadata fs canonical)) (\<lambda>metadata.
           if fm_kind metadata \<noteq> RegularFile then step_result (Inr None)
           else
             step_bind (io_or ''static file'' canonical (fs_read fs canonical)) (\<lambda>body.
               step_result (Inr (Some (file_response o1 canonical metadata body))))))"

definition try_file_response ::
  "'w file_system \<Rightarrow> static_file_options \<Rightarrow> file_path \<Rightarrow> file_path \<Rightarrow> ('w, boot_response option) step" where
  "try_file_response fs o1 base path =
     step_bind (found_or (fs_metadata fs path) path) (\<lambda>md. case md of
       None \<Rightarrow> step_result (Inr None)
     | Some metadata \<Rightarrow>
         if fm_kind metadata = Directory
         then
           (case sf_index_file o1 of
              None \<Rightarrow> step_result (Inr None)
            | Some index_file \<Rightarrow> canonical_file_response fs o1 base (path_join path index_file))
         else canonical_file_response fs o1 base path)"

definition serve_fallback :: "'w file_system \<Rightarrow> static_file_options \<Rightarrow> file_path \<Rightarrow> ('w, boot_response) step" where
  "serve_fallback fs o1 base =
     (case sf_fallback_file o1 of
        None \<Rightarrow> step_result (Inl (NotFound ''static file was not found''))
      | Some fallback_file \<Rightarrow>
          step_bind (step_result (sanitize_relative_path fallback_file True)) (\<lambda>rel.
          step_bind (try_file_response fs o1 base (base @ rel)) (\<lambda>r. step_result (case r of
            Some response \<Rightarrow> Inr response
          | None \<Rightarrow> Inl (NotFound ''static file was not found'')))))"

definition serve_path ::
  "'w file_system \<Rightarrow> file_path \<Rightarrow> static_file_options \<Rightarrow> str \<Rightarrow> http_method \<Rightarrow> ('w, boot_response) step" where
  "serve_path fs root_dir o1 request_path m =
     (if m \<noteq> M_Get \<and> m \<noteq> M_Head then step_result (Inl (MethodNotAllowed (method_as_str m)))
      else
        step_bind (step_result (sanitize_relative_path request_path (sf_dotfiles o1))) (\<lambda>rel.
        step_bind (io_or ''static root'' root_dir (fs_canonicalize fs root_dir)) (\<lambda>base.
        step_bind (try_file_response fs o1 base (base @ rel)) (\<lambda>r. case r of
          Some response \<Rightarrow> step_result (Inr response)
        | None \<Rightarrow>
            if rel = [] then step_result (Inl (NotFound ''static file was not found''))
            else serve_fallback fs o1 base))))"

definition response_header_map :: "boot_response \<Rightarrow> (str, str) btree" where
  "response_header_map r = bt_of_list (header_entries_of (rs_headers r) (rs_appended_headers r))"

definition static_serve ::
  "'w file_system \<Rightarrow> file_path \<Rightarrow> static_file_options \<Rightarrow> ('w, 'm) route_handler" where
  "static_serve fs root_dir o1 q =
     (let request_path = (case bt_get (rq_params q) ''path'' of Some p \<Rightarrow> p | None \<Rightarrow> []) in
      step_bind (serve_path fs root_dir o1 request_path (rq_method q)) (\<lambda>response.
        step_result (Inr
          (if rq_method q = M_Head
           then response_with_headers (response_header_map response) (response_empty (rs_status response))
           else response))))"

definition static_routes ::
  "'w file_system \<Rightarrow> file_path \<Rightarrow> static_file_options \<Rightarrow> ('w, 'm, 'v) route_definition list result" where
  "static_routes fs root_dir o1 =
     (let path = static_route_path (sf_serve_root o1) in
      rbind (route_new M_Get path (static_serve fs root_dir o1)) (\<lambda>get.
      rbind (route_new M_Head path (static_serve fs root_dir o1)) (\<lambda>head. Inr [get, head])))"

section \<open>Sanitised paths\<close>

definition segments :: "str \<Rightarrow> str list" where
  "segments p = filter (\<lambda>s. s \<noteq> []) (split_on CHR ''/'' p)"

definition bad_segment :: "bool \<Rightarrow> str \<Rightarrow> bool" where
  "bad_segment dotfiles s \<longleftrightarrow> s = ''..'' \<or> (\<not> dotfiles \<and> starts_with ''.'' s \<and> s \<noteq> ''.'')"

definition clean_path :: "str \<Rightarrow> file_path" where
  "clean_path p = map Normal (filter (\<lambda>s. s \<noteq> ''.'') (segments p))"

lemma segments_trim: "segments (trim_start_char CHR ''/'' p) = segments p"
  by (induction p) (auto simp: segments_def trim_start_char_def)

lemma segments_Nil: "trim_start_char CHR ''/'' p = [] \<Longrightarrow> segments p = []"
  using segments_trim [of p] by (simp add: segments_def)

lemma rcollect_concat_map:
  "(\<forall>x \<in> set xs. is_ok (f x)) \<Longrightarrow> rcollect f xs = Inr (map (\<lambda>x. projr (f x)) xs)"
  by (induction xs) (auto simp: is_ok_iff)

lemma rcollect_first_error:
  "\<exists>x \<in> set xs. \<not> is_ok (f x) \<Longrightarrow> \<exists>x \<in> set xs. \<exists>e. f x = Inl e \<and> rcollect f xs = Inl e"
proof (induction xs)
  case (Cons x xs)
  then show ?case by (cases "f x") auto
qed simp

lemma components_of_relative:
  assumes "\<not> starts_with ''/'' p"
  shows "set (path_components p) \<subseteq> component_of ` set (segments p)"
    and "filter (\<lambda>c. c \<noteq> CurDir) (path_components p) = map component_of (filter (\<lambda>s. s \<noteq> ''.'') (segments p))"
    and "component_of s \<noteq> CurDir \<Longrightarrow> s \<in> set (segments p) \<Longrightarrow> component_of s \<in> set (path_components p)"
proof -
  let ?parts = "map component_of (segments p)"
  have p: "path_components p = takeWhile (\<lambda>c. c = CurDir) (take 1 ?parts) @ filter (\<lambda>c. c \<noteq> CurDir) ?parts"
    using assms by (simp add: path_components_def segments_def Let_def)
  have lead: "set (takeWhile (\<lambda>c. c = CurDir) (take 1 ?parts)) \<subseteq> set ?parts"
    by (auto dest!: set_takeWhileD in_set_takeD)
  with p show "set (path_components p) \<subseteq> component_of ` set (segments p)" by auto
  have "filter (\<lambda>c. c \<noteq> CurDir) (takeWhile (\<lambda>c. c = CurDir) xs) = []" for xs :: file_path
    by (induction xs) auto
  moreover have "(\<lambda>s. component_of s \<noteq> CurDir) = (\<lambda>s. s \<noteq> ''.'')"
    by (auto simp: component_of_def fun_eq_iff)
  ultimately show "filter (\<lambda>c. c \<noteq> CurDir) (path_components p) = map component_of (filter (\<lambda>s. s \<noteq> ''.'') (segments p))"
    by (simp add: p filter_map o_def)
  show "component_of s \<in> set (path_components p)" if "component_of s \<noteq> CurDir" "s \<in> set (segments p)"
    using that by (auto simp: p)
qed

lemma sanitize_bad: "bad_segment d s \<longleftrightarrow> \<not> is_ok (sanitize_component d (component_of s))"
  by (auto simp: bad_segment_def sanitize_component_def component_of_def)

lemma sanitize_forbids: "sanitize_component d c = Inl e \<Longrightarrow> \<exists>m. e = Forbidden m"
  by (auto simp: sanitize_component_def split: path_component.splits if_splits)

lemma concat_clean:
  "(\<forall>c \<in> set cs. is_ok (sanitize_component d c)) \<Longrightarrow>
   concat (map (\<lambda>c. projr (sanitize_component d c)) cs) = filter (\<lambda>c. c \<noteq> CurDir) cs"
  by (induction cs) (auto simp: sanitize_component_def split: path_component.splits if_splits)

lemma sanitize_exact:
  "if \<exists>s \<in> set (segments p). bad_segment d s
   then \<exists>m. sanitize_relative_path p d = Inl (Forbidden m)
   else sanitize_relative_path p d = Inr (clean_path p)"
proof (cases "trim_start_char CHR ''/'' p = []")
  case True
  then show ?thesis by (simp add: sanitize_relative_path_def segments_Nil clean_path_def)
next
  case False
  let ?q = "trim_start_char CHR ''/'' p"
  have "\<not> starts_with ''/'' ?q"
    by (induction p) (auto simp: trim_start_char_def starts_with_iff)
  note rel = components_of_relative [OF this, unfolded segments_trim]
  show ?thesis
  proof (cases "\<exists>s \<in> set (segments p). bad_segment d s")
    case True
    then obtain s where s: "s \<in> set (segments p)" "bad_segment d s" by blast
    then have "component_of s \<noteq> CurDir" by (auto simp: bad_segment_def component_of_def)
    with rel(3) s have "\<exists>c \<in> set (path_components ?q). \<not> is_ok (sanitize_component d c)"
      using sanitize_bad by blast
    then obtain c e where "sanitize_component d c = Inl e"
      "rcollect (sanitize_component d) (path_components ?q) = Inl e" using rcollect_first_error by metis
    with True False sanitize_forbids show ?thesis by (auto simp: sanitize_relative_path_def)
  next
    case none: False
    then have ok: "\<forall>c \<in> set (path_components ?q). is_ok (sanitize_component d c)"
      using rel(1) sanitize_bad by blast
    have "map component_of (filter (\<lambda>s. s \<noteq> ''.'') (segments p)) = clean_path p"
      unfolding clean_path_def using none by (auto simp: component_of_def bad_segment_def)
    with none False ok show ?thesis
      by (simp add: sanitize_relative_path_def rcollect_concat_map concat_clean rel(2))
  qed
qed

section \<open>Confinement\<close>

text \<open>
  What a served response is: the contents of a regular file below the base directory, to
  which one of the candidates was resolved. The candidates are the requested path and the
  fallback, each possibly with the index file.
\<close>

definition resolves_to ::
  "'w file_system \<Rightarrow> static_file_options \<Rightarrow> file_path \<Rightarrow> file_path \<Rightarrow> boot_response \<Rightarrow> bool" where
  "resolves_to fs o1 base candidate r \<longleftrightarrow>
     (\<exists>c md body u v w.
        fst (fs_canonicalize fs candidate u) = Inr c \<and> path_starts_with c base \<and>
        fst (fs_metadata fs c v) = Inr md \<and> fm_kind md = RegularFile \<and>
        fst (fs_read fs c w) = Inr body \<and> r = file_response o1 c md body)"

definition served_from ::
  "'w file_system \<Rightarrow> static_file_options \<Rightarrow> file_path \<Rightarrow> file_path set \<Rightarrow> boot_response \<Rightarrow> bool" where
  "served_from fs o1 base candidates r \<longleftrightarrow> (\<exists>candidate \<in> candidates. resolves_to fs o1 base candidate r)"

definition candidates_of :: "static_file_options \<Rightarrow> file_path \<Rightarrow> file_path set" where
  "candidates_of o1 p = insert p (case sf_index_file o1 of None \<Rightarrow> {} | Some i \<Rightarrow> {path_join p i})"

lemma step_bind_Inr: "step_bind f k w = (Inr b, w') \<longleftrightarrow> (\<exists>a u. f w = (Inr a, u) \<and> k a u = (Inr b, w'))"
  by (auto simp: step_bind_def split: prod.splits sum.splits)

lemma step_result_eq: "step_result r w = (r', w') \<longleftrightarrow> r = r' \<and> w = w'"
  by (auto simp: step_result_def)

lemma found_or_Some: "found_or f p w = (Inr (Some a), w') \<longleftrightarrow> f w = (Inr a, w')"
  by (auto simp: found_or_def split: prod.splits sum.splits)

lemma io_or_Inr: "io_or s p f w = (Inr a, w') \<longleftrightarrow> f w = (Inr a, w')"
  by (auto simp: io_or_def split: prod.splits sum.splits)

lemmas step_facts = step_bind_Inr step_result_eq found_or_Some io_or_Inr

lemma canonical_file_served:
  "canonical_file_response fs o1 base candidate w = (Inr (Some r), w') \<Longrightarrow> resolves_to fs o1 base candidate r"
  unfolding canonical_file_response_def resolves_to_def
  by (auto simp: step_facts split: option.splits if_splits) (metis fst_conv)

lemma try_file_served:
  "try_file_response fs o1 base p w = (Inr (Some r), w') \<Longrightarrow> served_from fs o1 base (candidates_of o1 p) r"
  by (auto simp: try_file_response_def candidates_of_def served_from_def step_facts
      split: option.splits if_splits dest!: canonical_file_served)

lemma served_from_mono: "served_from fs o1 base A r \<Longrightarrow> A \<subseteq> B \<Longrightarrow> served_from fs o1 base B r"
  unfolding served_from_def by blast

lemma serve_rest_Inr:
  "(case res1 of Some response \<Rightarrow> step_result (Inr response) | None \<Rightarrow> if P then step_result (Inl e) else k) u = (Inr r, w') \<longleftrightarrow>
   (case res1 of Some response \<Rightarrow> response = r \<and> u = w' | None \<Rightarrow> \<not> P \<and> k u = (Inr r, w'))"
  by (simp add: step_result_eq split: option.split)

lemma serve_path_Inr:
  "serve_path fs root_dir o1 p m w = (Inr r, w') \<longleftrightarrow> m \<in> {M_Get, M_Head} \<and>
     (\<exists>rel base u res1 u1. sanitize_relative_path p (sf_dotfiles o1) = Inr rel \<and>
        fs_canonicalize fs root_dir w = (Inr base, u) \<and>
        try_file_response fs o1 base (base @ rel) u = (Inr res1, u1) \<and>
        (case res1 of
           Some response \<Rightarrow> response = r \<and> u1 = w'
         | None \<Rightarrow> rel \<noteq> [] \<and> serve_fallback fs o1 base u1 = (Inr r, w')))"
  unfolding serve_path_def
  by (cases "m \<in> {M_Get, M_Head}") (auto simp: step_bind_Inr step_result_eq io_or_Inr serve_rest_Inr)

text \<open>
  C30. Static files are confined to their directory. Whatever the request path, a response is
  the contents of a regular file whose canonical path lies below the canonical base directory,
  and that was reached from the sanitised request path or the configured fallback (or their
  index files), for \<open>GET\<close> and \<open>HEAD\<close> only. A path with a parent segment, or with a dotfile
  unless those are served, is refused without a single access to the file system; any other
  path is taken segment by segment.
\<close>
theorem static_confined:
  "(case serve_path fs root_dir o1 p m w of
      (Inr r, w') \<Rightarrow>
        m \<in> {M_Get, M_Head} \<and> \<not> (\<exists>s \<in> set (segments p). bad_segment (sf_dotfiles o1) s) \<and>
        (\<exists>base. fst (fs_canonicalize fs root_dir w) = Inr base \<and>
          served_from fs o1 base
            (candidates_of o1 (base @ clean_path p) \<union>
             (case sf_fallback_file o1 of None \<Rightarrow> {} | Some f \<Rightarrow> candidates_of o1 (base @ clean_path f))) r)
    | (Inl e, w') \<Rightarrow> True) \<and>
   (m \<in> {M_Get, M_Head} \<and> (\<exists>s \<in> set (segments p). bad_segment (sf_dotfiles o1) s) \<longrightarrow>
     (\<exists>why. serve_path fs root_dir o1 p m w = (Inl (Forbidden why), w)))"
proof (intro conjI impI)
  assume "m \<in> {M_Get, M_Head} \<and> (\<exists>s \<in> set (segments p). bad_segment (sf_dotfiles o1) s)"
  then show "\<exists>why. serve_path fs root_dir o1 p m w = (Inl (Forbidden why), w)"
    using sanitize_exact [of p "sf_dotfiles o1"] by (auto simp: serve_path_def step_result_def)
next
  obtain res w' where run: "serve_path fs root_dir o1 p m w = (res, w')" by fastforce
  show "case serve_path fs root_dir o1 p m w of
      (Inr r, w') \<Rightarrow>
        m \<in> {M_Get, M_Head} \<and> \<not> (\<exists>s \<in> set (segments p). bad_segment (sf_dotfiles o1) s) \<and>
        (\<exists>base. fst (fs_canonicalize fs root_dir w) = Inr base \<and>
          served_from fs o1 base
            (candidates_of o1 (base @ clean_path p) \<union>
             (case sf_fallback_file o1 of None \<Rightarrow> {} | Some f \<Rightarrow> candidates_of o1 (base @ clean_path f))) r)
    | (Inl e, w') \<Rightarrow> True"
  proof (cases res)
    case (Inr r)
    from run Inr obtain rel base u res1 u1 where m: "m \<in> {M_Get, M_Head}"
      and rel: "sanitize_relative_path p (sf_dotfiles o1) = Inr rel"
      and base: "fs_canonicalize fs root_dir w = (Inr base, u)"
      and tried: "try_file_response fs o1 base (base @ rel) u = (Inr res1, u1)"
      and rest: "case res1 of Some response \<Rightarrow> response = r \<and> u1 = w'
        | None \<Rightarrow> rel \<noteq> [] \<and> serve_fallback fs o1 base u1 = (Inr r, w')"
      using serve_path_Inr [of fs root_dir o1 p m w r w'] by (elim iffD1 [THEN conjE] exE conjE) auto
    have ok: "\<not> (\<exists>s \<in> set (segments p). bad_segment (sf_dotfiles o1) s)" "rel = clean_path p"
      using sanitize_exact [of p "sf_dotfiles o1"] rel by (auto split: if_splits)
    have "served_from fs o1 base
        (candidates_of o1 (base @ clean_path p) \<union>
         (case sf_fallback_file o1 of None \<Rightarrow> {} | Some f \<Rightarrow> candidates_of o1 (base @ clean_path f))) r"
    proof (cases res1)
      case (Some response)
      with tried rest ok(2) show ?thesis by (auto dest!: try_file_served elim: served_from_mono)
    next
      case None
      with rest obtain f rel' u2 where f: "sf_fallback_file o1 = Some f"
        and rel': "sanitize_relative_path f True = Inr rel'"
        and tried': "try_file_response fs o1 base (base @ rel') u1 = (Inr (Some r), u2)"
        by (auto simp: serve_fallback_def step_facts split: option.splits)
      have "rel' = clean_path f" using sanitize_exact [of f True] rel' by (auto split: if_splits)
      with try_file_served [OF tried'] f show ?thesis by (auto elim: served_from_mono)
    qed
    with m ok base run Inr show ?thesis by simp
  qed (simp add: run)
qed

text \<open>A directory with one file and a link that leads out of it.\<close>

definition sample_fs :: "unit file_system" where
  "sample_fs =
     (let dir = [RootDir, Normal ''srv'']; file = dir @ [Normal ''a.txt'']; link = dir @ [Normal ''link''];
          outside = [RootDir, Normal ''etc'', Normal ''passwd''] in
      \<lparr>fs_metadata = (\<lambda>p w. (if p = dir then Inr \<lparr>fm_kind = Directory, fm_len = 0\<rparr>
         else if p = file \<or> p = link \<or> p = outside then Inr \<lparr>fm_kind = RegularFile, fm_len = 2\<rparr>
         else Inl (io_not_found, ''no such file''), w)),
       fs_canonicalize = (\<lambda>p w. (if p = link then Inr outside else Inr p, w)),
       fs_read = (\<lambda>p w. (Inr (if p = outside then ''no'' else ''ok''), w))\<rparr>)"

definition sample_dir :: file_path where
  "sample_dir = [RootDir, Normal ''srv'']"

lemma sample_served:
  "serve_path sample_fs sample_dir static_file_options_default ''a.txt'' M_Get ()
     = (Inr (file_response static_file_options_default (sample_dir @ [Normal ''a.txt'']) \<lparr>fm_kind = RegularFile, fm_len = 2\<rparr> ''ok''), ())"
  by code_simp

lemma static_confined_witness:
  "served_from sample_fs static_file_options_default sample_dir
     {sample_dir @ [Normal ''a.txt''], sample_dir @ [Normal ''a.txt'', Normal ''index.html'']}
     (file_response static_file_options_default (sample_dir @ [Normal ''a.txt'']) \<lparr>fm_kind = RegularFile, fm_len = 2\<rparr> ''ok'') \<and>
   (\<exists>why. serve_path sample_fs sample_dir static_file_options_default ''x/../../etc'' M_Get () = (Inl (Forbidden why), ()))"
proof
  have dir: "fs_canonicalize sample_fs sample_dir () = (Inr sample_dir, ())" by code_simp
  have candidates: "candidates_of static_file_options_default (sample_dir @ clean_path ''a.txt'')
      = {sample_dir @ [Normal ''a.txt''], sample_dir @ [Normal ''a.txt'', Normal ''index.html'']}"
    by (auto simp: candidates_of_def clean_path_def segments_def static_file_options_default_def path_join_def
        path_components_def component_of_def sample_dir_def starts_with_def)
  show "served_from sample_fs static_file_options_default sample_dir
     {sample_dir @ [Normal ''a.txt''], sample_dir @ [Normal ''a.txt'', Normal ''index.html'']}
     (file_response static_file_options_default (sample_dir @ [Normal ''a.txt'']) \<lparr>fm_kind = RegularFile, fm_len = 2\<rparr> ''ok'')"
    using static_confined [where fs = sample_fs and root_dir = sample_dir and ?o1.0 = static_file_options_default
        and p = "''a.txt''" and m = M_Get and w = "()"]
    by (simp add: sample_served dir candidates) (simp add: static_file_options_default_def)
  show "\<exists>why. serve_path sample_fs sample_dir static_file_options_default ''x/../../etc'' M_Get () = (Inl (Forbidden why), ())"
    using static_confined [where fs = sample_fs and root_dir = sample_dir and ?o1.0 = static_file_options_default
        and p = "''x/../../etc''" and m = M_Get and w = "()"]
    by (simp add: segments_def bad_segment_def)
qed

lemma link_refused:
  "fst (serve_path sample_fs sample_dir static_file_options_default ''link'' M_Get ())
     = Inl (Forbidden ''static file resolved outside the configured root'')"
  by code_simp

text \<open>
  The answer to a \<open>HEAD\<close> request has no body but keeps the length of the file, which the
  validation of responses, and with it the HTTP adapter, rejects.
\<close>

lemma sample_head_served:
  "serve_path sample_fs sample_dir static_file_options_default ''a.txt'' M_Head ()
     = (Inr (file_response static_file_options_default (sample_dir @ [Normal ''a.txt'']) \<lparr>fm_kind = RegularFile, fm_len = 2\<rparr> ''ok''), ())"
  using sample_served by (simp add: serve_path_def)

definition sample_head :: boot_response where
  "sample_head =
     response_with_headers
       (response_header_map
         (file_response static_file_options_default (sample_dir @ [Normal ''a.txt'']) \<lparr>fm_kind = RegularFile, fm_len = 2\<rparr> ''ok''))
       (response_empty 200)"

lemma sample_head_parts:
  "rs_status sample_head = 200" "rs_body sample_head = []" "rs_stream sample_head = None"
  "response_header_values sample_head ''content-length'' = [''2'']"
  by code_simp+

lemma sample_numbers:
  "show_nat 2 = ''2''" "show_nat 0 = ''0''" "trim ''2'' = ''2''" "is_ascii_digit CHR ''2''" "digits_value ''2'' = 2"
  by code_simp+

lemma head_response_invalid:
  "(case static_serve sample_fs sample_dir static_file_options_default
      \<lparr>rq_method = M_Head, rq_path = ''/a.txt'', rq_query_string = None, rq_query = [], rq_params = [(''path'', ''a.txt'')],
       rq_host_params = [], rq_headers = [], rq_appended_headers = [], rq_body = [], rq_module_ref = None :: unit option\<rparr> () of
      (Inr r, _) \<Rightarrow> response_validate dbg r =
        Inl (Internal ''response content-length header does not match response body length: expected 2, got 0'')
    | (Inl _, _) \<Rightarrow> False)"
proof -
  have "bt_get [(''path'', ''a.txt'')] ''path'' = Some ''a.txt''" by code_simp
  moreover have "rs_status (file_response static_file_options_default (sample_dir @ [Normal ''a.txt''])
      \<lparr>fm_kind = RegularFile, fm_len = 2\<rparr> ''ok'') = 200" by code_simp
  ultimately show ?thesis
    using sample_head_parts
    by (simp add: static_serve_def sample_head_served step_bind_def step_result_def sample_head_def [symmetric]
        response_validate_def validate_status_def is_valid_status_def response_validate_content_length_def
        response_strict_content_length_def strict_content_length_values_def parse_content_length_def
        sample_numbers is_streaming_def)
qed

end
