(* ===== verification/Messaging.thy ===== *)
theory Messaging
  imports Pipeline
begin

text \<open>
  What the message pipelines of \<open>src/transport\<close> and \<open>src/websocket\<close> have in common: an
  interceptor as a script around the rest of the pipeline, whose reply type is now a
  parameter, the loops over guards, pipes, validators and filters, the hooks that adapt
  protocol-neutral guards and interceptors, and the contract of a dispatch. The components
  act on a world \<open>'w\<close>; the pipeline itself may keep a state \<open>'x\<close> beside it.
\<close>

section \<open>Interceptors\<close>

datatype ('w, 'r) call_script =
  Finished "'r result"
| Doing "'w \<Rightarrow> ('w, 'r) call_script \<times> 'w"
| Calling "'r result \<Rightarrow> ('w, 'r) call_script"

type_synonym ('x, 'w, 'r) xstep = "'x \<times> 'w \<Rightarrow> 'r result \<times> 'x \<times> 'w"

primrec run_calls :: "('w, 'r) call_script \<Rightarrow> ('x, 'w, 'r) xstep \<Rightarrow> ('x, 'w, 'r) xstep" where
  "run_calls (Finished r) nxt s = (r, s)"
| "run_calls (Doing f) nxt s = (let (k, w') = map_prod run_calls id (f (snd s)) in k nxt (fst s, w'))"
| "run_calls (Calling k) nxt s = (let (r, s') = nxt s in run_calls (k r) nxt s')"

definition doing :: "('w, 'a) step \<Rightarrow> ('a \<Rightarrow> ('w, 'r) call_script) \<Rightarrow> ('w, 'r) call_script" where
  "doing f k = Doing (\<lambda>w. case f w of (Inl e, w') \<Rightarrow> (Finished (Inl e), w') | (Inr a, w') \<Rightarrow> (k a, w'))"

text \<open>The default \<open>intercept\<close> of message interceptors: \<open>before\<close>, the rest, \<open>after\<close>.\<close>

definition hooked_intercept ::
    "('c \<Rightarrow> ('w, unit) step) \<Rightarrow> ('c \<Rightarrow> 'r \<Rightarrow> ('w, 'r) step) \<Rightarrow> 'c \<Rightarrow> ('w, 'r) call_script" where
  "hooked_intercept before after ctx =
     doing (before ctx) (\<lambda>_. Calling (\<lambda>res. case res of
       Inl e \<Rightarrow> Finished (Inl e)
     | Inr reply \<Rightarrow> doing (after ctx reply) (\<lambda>r. Finished (Inr r))))"

text \<open>Protocol-neutral interceptors and guards see the execution context only.\<close>

record ('w, 'm, 'v) execution_interceptor =
  ei_before :: "('m, 'v) execution_context \<Rightarrow> ('w, unit) step"
  ei_after :: "('m, 'v) execution_context \<Rightarrow> ('w, unit) step"

definition adapt_interceptor ::
    "('c \<Rightarrow> ('m, 'v) execution_context) \<Rightarrow> ('w, 'm, 'v) execution_interceptor \<Rightarrow> 'c \<Rightarrow> ('w, 'r) call_script" where
  "adapt_interceptor exec inner =
     hooked_intercept (\<lambda>c. ei_before inner (exec c))
       (\<lambda>c reply. step_bind (ei_after inner (exec c)) (\<lambda>_. step_result (Inr reply)))"

definition adapt_guard ::
    "('c \<Rightarrow> ('m, 'v) execution_context) \<Rightarrow> ('w, 'm, 'v) guard \<Rightarrow> 'c \<Rightarrow> ('w, bool) step" where
  "adapt_guard exec inner c = inner (exec c)"

lemma run_doing:
  "run_calls (doing f k) nxt (x, w) =
     (case f w of (Inl e, w') \<Rightarrow> (Inl e, x, w') | (Inr a, w') \<Rightarrow> run_calls (k a) nxt (x, w'))"
  by (simp add: doing_def split: prod.split sum.split)

lemma run_hooked:
  "run_calls (hooked_intercept before after ctx) nxt (x, w) =
     (case before ctx w of
        (Inl e, w1) \<Rightarrow> (Inl e, x, w1)
      | (Inr _, w1) \<Rightarrow>
          (case nxt (x, w1) of
             (Inl e, s) \<Rightarrow> (Inl e, s)
           | (Inr reply, x2, w2) \<Rightarrow> (case after ctx reply w2 of (r, w3) \<Rightarrow> (r, x2, w3))))"
  by (auto simp: hooked_intercept_def run_doing split: prod.split sum.split)

section \<open>Components\<close>

definition source_new :: "nat \<Rightarrow> 'b \<Rightarrow> ('w, 'm, 'b) pipeline_component" where
  "source_new type_id b = \<lparr>pc_type_id = type_id, pc_source = Static b\<rparr>"

fun message_guards ::
    "boot_error \<Rightarrow> ('w, 'm, 'c \<Rightarrow> ('w, bool) step) pipeline_component list \<Rightarrow> nat \<Rightarrow> 'c \<Rightarrow> ('w, unit) step" where
  "message_guards refusal [] cid ctx w = (Inr (), w)"
| "message_guards refusal (c # cs) cid ctx w =
     (case component_resolve c cid w of
        (Inl e, w1) \<Rightarrow> (Inl e, w1)
      | (Inr g, w1) \<Rightarrow>
          (case g ctx w1 of
             (Inl e, w2) \<Rightarrow> (Inl e, w2)
           | (Inr can_activate, w2) \<Rightarrow>
               if \<not> can_activate then (Inl refusal, w2) else message_guards refusal cs cid ctx w2))"

fun message_pipes ::
    "('w, 'm, 'a \<Rightarrow> ('w, 'a) step) pipeline_component list \<Rightarrow> nat \<Rightarrow> 'a \<Rightarrow> ('w, 'a) step" where
  "message_pipes [] cid message w = (Inr message, w)"
| "message_pipes (c # cs) cid message w =
     (case component_resolve c cid w of
        (Inl e, w1) \<Rightarrow> (Inl e, w1)
      | (Inr p, w1) \<Rightarrow>
          (case p message w1 of
             (Inl e, w2) \<Rightarrow> (Inl e, w2)
           | (Inr message', w2) \<Rightarrow> message_pipes cs cid message' w2))"

fun message_validators ::
    "('a \<Rightarrow> validation_options \<Rightarrow> 'a result) list \<Rightarrow> validation_options \<Rightarrow> 'a \<Rightarrow> 'a result" where
  "message_validators [] opts message = Inr message"
| "message_validators (v # vs) opts message = rbind (v message opts) (message_validators vs opts)"

text \<open>The filters are given last to first; the reply of a filter may be empty.\<close>

fun message_filters ::
    "('w, 'm, 'c \<Rightarrow> boot_error \<Rightarrow> ('w, 'r option) step) pipeline_component list \<Rightarrow> nat \<Rightarrow> 'c \<Rightarrow> boot_error \<Rightarrow> ('w, 'r) step" where
  "message_filters [] cid ctx e w = (Inl e, w)"
| "message_filters (c # cs) cid ctx e w =
     (case component_resolve c cid w of
        (Inl err, w1) \<Rightarrow> (Inl err, w1)
      | (Inr f, w1) \<Rightarrow>
          (case f ctx (clone_for_filter e) w1 of
             (Inl err, w2) \<Rightarrow> (Inl err, w2)
           | (Inr (Some response), w2) \<Rightarrow> (Inr response, w2)
           | (Inr None, w2) \<Rightarrow> message_filters cs cid ctx e w2))"

definition message_catch_filter ::
    "boot_error_kind list \<Rightarrow> ('c \<Rightarrow> boot_error \<Rightarrow> ('w, 'r option) step) \<Rightarrow> 'c \<Rightarrow> boot_error \<Rightarrow> ('w, 'r option) step" where
  "message_catch_filter kinds f ctx e =
     (if kinds = [] \<or> List.member kinds (kind e) then f ctx e else step_result (Inr None))"

lemma message_guards_append:
  "message_guards refusal (cs @ ds) cid ctx =
     step_bind (message_guards refusal cs cid ctx) (\<lambda>_. message_guards refusal ds cid ctx)"
proof
  show "message_guards refusal (cs @ ds) cid ctx w =
      step_bind (message_guards refusal cs cid ctx) (\<lambda>_. message_guards refusal ds cid ctx) w" for w
    by (induction cs arbitrary: w) (auto simp: step_bind_def split: prod.split sum.split)
qed

lemma message_pipes_append:
  "message_pipes (cs @ ds) cid message =
     step_bind (message_pipes cs cid message) (message_pipes ds cid)"
proof
  show "message_pipes (cs @ ds) cid message w = step_bind (message_pipes cs cid message) (message_pipes ds cid) w" for w
    by (induction cs arbitrary: message w) (auto simp: step_bind_def split: prod.split sum.split)
qed

text \<open>What every filter declines is reported as it was, by filters that all ran.\<close>

definition message_declines ::
    "('w, 'm, 'c \<Rightarrow> boot_error \<Rightarrow> ('w, 'r option) step) pipeline_component \<Rightarrow> nat \<Rightarrow> 'c \<Rightarrow> boot_error \<Rightarrow> 'w \<Rightarrow> 'w \<Rightarrow> bool" where
  "message_declines c cid ctx e w w' \<longleftrightarrow>
     (\<exists>f w1. component_resolve c cid w = (Inr f, w1) \<and> f ctx (clone_for_filter e) w1 = (Inr None, w'))"

fun message_all_decline ::
    "('w, 'm, 'c \<Rightarrow> boot_error \<Rightarrow> ('w, 'r option) step) pipeline_component list \<Rightarrow> nat \<Rightarrow> 'c \<Rightarrow> boot_error \<Rightarrow> 'w \<Rightarrow> 'w \<Rightarrow> bool" where
  "message_all_decline [] cid ctx e w w' \<longleftrightarrow> w = w'"
| "message_all_decline (c # cs) cid ctx e w w' \<longleftrightarrow>
     (\<exists>u. message_declines c cid ctx e w u \<and> message_all_decline cs cid ctx e u w')"

lemma message_declines_det: "message_declines c cid ctx e w u \<Longrightarrow> message_declines c cid ctx e w v \<Longrightarrow> u = v"
  by (auto simp: message_declines_def)

lemma message_filters_declined:
  "message_all_decline cs cid ctx e w w' \<Longrightarrow> message_filters (cs @ ds) cid ctx e w = message_filters ds cid ctx e w'"
  by (induction cs arbitrary: w) (auto simp: message_declines_def)

lemma message_filters_settled:
  "\<nexists>w'. message_all_decline cs cid ctx e w w' \<Longrightarrow> message_filters (cs @ ds) cid ctx e w = message_filters cs cid ctx e w"
proof (induction cs arbitrary: w)
  case (Cons c cs)
  show ?case
  proof (cases "\<exists>u. message_declines c cid ctx e w u")
    case True
    then obtain u where u: "message_declines c cid ctx e w u" by blast
    with Cons.prems have "\<nexists>w'. message_all_decline cs cid ctx e u w'" by auto
    from Cons.IH [OF this] u show ?thesis by (auto simp: message_declines_def)
  next
    case False
    then show ?thesis by (auto simp: message_declines_def split: prod.split sum.split option.split)
  qed
qed simp

section \<open>The contract of a dispatch\<close>

text \<open>
  A dispatch runs its gate, then what is behind the gate, and recovers from the error of
  either. Its \<open>parts\<close> are read off the definition it dispatches to.
\<close>

locale gated_dispatch =
  fixes gate :: "'d \<Rightarrow> 'i \<Rightarrow> ('w, unit) step"
    and behind :: "'d \<Rightarrow> 'i \<Rightarrow> ('w, 'r) step"
    and recover :: "'d \<Rightarrow> 'i \<Rightarrow> boot_error \<Rightarrow> ('w, 'r) step"
    and dispatch :: "'d \<Rightarrow> 'i \<Rightarrow> ('w, 'r) step"
  assumes dispatch_parts:
    "dispatch d i w =
       (case gate d i w of
          (Inl e, w1) \<Rightarrow> recover d i e w1
        | (Inr _, w1) \<Rightarrow>
            (case behind d i w1 of (Inl e, w2) \<Rightarrow> recover d i e w2 | (Inr r, w2) \<Rightarrow> (Inr r, w2)))"
begin

lemma closed_gate:
  "gate d i w = (Inl e, w1) \<Longrightarrow> dispatch d i w = recover d i e w1"
  by (simp add: dispatch_parts)

text \<open>Two definitions with the same gate and recovery are the same to whom the gate stops.\<close>

lemma gate_hides:
  assumes "gate d i w = gate d' i w" and "\<And>e. recover d i e = recover d' i e" and "\<not> is_ok (fst (gate d i w))"
  shows "dispatch d i w = dispatch d' i w"
  using assms by (auto simp: dispatch_parts split: prod.splits sum.splits)

lemma open_gate:
  "gate d i w = (Inr u, w1) \<Longrightarrow> behind d i w1 = (Inr r, w2) \<Longrightarrow> dispatch d i w = (Inr r, w2)"
  by (simp add: dispatch_parts)

lemma error_recovers:
  "gate d i w = (Inr u, w1) \<Longrightarrow> behind d i w1 = (Inl e, w2) \<Longrightarrow> dispatch d i w = recover d i e w2"
  by (simp add: dispatch_parts)

text \<open>A reply that no filter gave is the reply of what is behind the gate.\<close>

lemma reply_source:
  assumes "dispatch d i w = (Inr r, w')" and "\<And>e u. \<not> is_ok (fst (recover d i e u))"
  shows "\<exists>w1. gate d i w = (Inr (), w1) \<and> behind d i w1 = (Inr r, w')"
proof -
  have "recover d i e u \<noteq> (Inr r, w')" for e u
    using assms(2) [of e u] by (auto simp: is_ok_iff)
  with assms(1) show ?thesis
    by (auto simp: dispatch_parts split: prod.splits sum.splits)
qed

end

end
