(* ===== verification/Transport.thy ===== *)
theory Transport
  imports Messaging
begin

text \<open>
  \<open>src/transport/mod.rs\<close> and \<open>src/transport/pattern.rs\<close>: message patterns of microservices and
  the dispatch of a message. Data are JSON values \<open>'v\<close>. The handler of a scoped pattern is
  built by a factory from the module context of the dispatch and kept for its whole length:
  the slot of \<open>DispatchHandlerCache\<close> is the state \<open>'x\<close> of the pipeline. The interceptors are
  resolved one by one, each when its turn comes. \<open>scope\<close> is \<open>ModuleRef::context_scope\<close>.
\<close>

section \<open>Messages\<close>

record 'v transport_message =
  tm_pattern :: str
  tm_data :: 'v

record 'v transport_reply =
  tr_data :: 'v

datatype message_pattern_kind = RequestResponse | EventPattern

definition message_pattern_kind_str :: "message_pattern_kind \<Rightarrow> str" where
  "message_pattern_kind_str k = (case k of RequestResponse \<Rightarrow> ''request-response'' | EventPattern \<Rightarrow> ''event'')"

definition to_execution_kind :: "message_pattern_kind \<Rightarrow> execution_transport_kind" where
  "to_execution_kind k = (case k of RequestResponse \<Rightarrow> ETK_RequestResponse | EventPattern \<Rightarrow> ETK_Event)"

record ('m, 'v) transport_context =
  tc_pattern :: str
  tc_kind :: message_pattern_kind
  tc_module_name :: "str option"
  tc_execution_context :: "('m, 'v) execution_context"

type_synonym 'v reply = "'v transport_reply option"
type_synonym ('w, 'v) transport_handler = "'v transport_message \<Rightarrow> ('w, 'v reply) step"
type_synonym ('w, 'm, 'v) transport_guard = "('m, 'v) transport_context \<Rightarrow> ('w, bool) step"
type_synonym ('w, 'v) transport_pipe = "'v transport_message \<Rightarrow> ('w, 'v transport_message) step"
type_synonym ('w, 'm, 'v) transport_interceptor = "('m, 'v) transport_context \<Rightarrow> ('w, 'v reply) call_script"
type_synonym ('w, 'm, 'v) transport_filter = "('m, 'v) transport_context \<Rightarrow> boot_error \<Rightarrow> ('w, 'v reply option) step"
type_synonym 'v message_validator = "'v transport_message \<Rightarrow> validation_options \<Rightarrow> 'v transport_message result"

datatype ('w, 'm, 'v) transport_handler_definition =
  StaticHandler "('w, 'v) transport_handler"
| ScopedHandler "'m \<Rightarrow> ('w, ('w, 'v) transport_handler) step"

record ('w, 'm, 'v) message_pattern =
  mp_pattern :: str
  mp_kind :: message_pattern_kind
  mp_handler :: "('w, 'm, 'v) transport_handler_definition"
  mp_pipes :: "('w, 'm, ('w, 'v) transport_pipe) pipeline_component list"
  mp_guards :: "('w, 'm, ('w, 'm, 'v) transport_guard) pipeline_component list"
  mp_interceptors :: "('w, 'm, ('w, 'm, 'v) transport_interceptor) pipeline_component list"
  mp_filters :: "('w, 'm, ('w, 'm, 'v) transport_filter) pipeline_component list"
  mp_validators :: "'v message_validator list"
  mp_validation_enabled :: bool
  mp_validation_disabled :: bool
  mp_validation_options :: validation_options
  mp_metadata :: "(str, 'v) btree"
  mp_module_name :: "str option"
  mp_module_ref :: "'m option"

section \<open>Building a pattern\<close>

definition validate_pattern :: "str \<Rightarrow> unit result" where
  "validate_pattern pattern =
     (if trim pattern = [] then Inl (BadRequest ''message pattern cannot be empty'') else Inr ())"

definition pattern_from_handler ::
    "str \<Rightarrow> message_pattern_kind \<Rightarrow> ('w, 'm, 'v) transport_handler_definition \<Rightarrow> ('w, 'm, 'v) message_pattern result" where
  "pattern_from_handler pattern k handler =
     rbind (validate_pattern pattern) (\<lambda>_. Inr
       \<lparr>mp_pattern = pattern, mp_kind = k, mp_handler = handler, mp_pipes = [], mp_guards = [],
        mp_interceptors = [], mp_filters = [], mp_validators = [], mp_validation_enabled = False,
        mp_validation_disabled = False, mp_validation_options = validation_options_default,
        mp_metadata = [], mp_module_name = None, mp_module_ref = None\<rparr>)"

definition pattern_request where
  "pattern_request pattern handler = pattern_from_handler pattern RequestResponse (StaticHandler handler)"

definition pattern_request_scoped where
  "pattern_request_scoped pattern factory = pattern_from_handler pattern RequestResponse (ScopedHandler factory)"

text \<open>The handler of an event answers with unit, which is no reply.\<close>

definition unit_handler :: "('v transport_message \<Rightarrow> ('w, unit) step) \<Rightarrow> ('w, 'v) transport_handler" where
  "unit_handler handler message = step_bind (handler message) (\<lambda>_. step_result (Inr None))"

definition pattern_event where
  "pattern_event pattern handler = pattern_from_handler pattern EventPattern (StaticHandler (unit_handler handler))"

definition pattern_event_scoped where
  "pattern_event_scoped pattern factory =
     pattern_from_handler pattern EventPattern
       (ScopedHandler (\<lambda>m. step_bind (factory m) (\<lambda>h. step_result (Inr (unit_handler h)))))"

definition pattern_is_scoped :: "('w, 'm, 'v) message_pattern \<Rightarrow> bool" where
  "pattern_is_scoped d = (case mp_handler d of ScopedHandler _ \<Rightarrow> True | StaticHandler _ \<Rightarrow> False)"

definition pattern_with_metadata_value :: "str \<Rightarrow> 'v \<Rightarrow> ('w, 'm, 'v) message_pattern \<Rightarrow> ('w, 'm, 'v) message_pattern" where
  "pattern_with_metadata_value k v d = d\<lparr>mp_metadata := bt_insert k v (mp_metadata d)\<rparr>"

text \<open>The number of a component stands for the type id of its type.\<close>

definition pattern_with_pipe where
  "pattern_with_pipe i pipe d = d\<lparr>mp_pipes := mp_pipes d @ [source_new i pipe]\<rparr>"

definition pattern_with_guard where
  "pattern_with_guard i g d = d\<lparr>mp_guards := mp_guards d @ [source_new i g]\<rparr>"

definition pattern_with_execution_guard where
  "pattern_with_execution_guard i g d =
     d\<lparr>mp_guards := mp_guards d @ [source_new i (adapt_guard tc_execution_context g)]\<rparr>"

definition pattern_with_interceptor where
  "pattern_with_interceptor i x d = d\<lparr>mp_interceptors := mp_interceptors d @ [source_new i x]\<rparr>"

definition pattern_with_execution_interceptor where
  "pattern_with_execution_interceptor i x d =
     d\<lparr>mp_interceptors := mp_interceptors d @ [source_new i (adapt_interceptor tc_execution_context x)]\<rparr>"

definition pattern_with_filter where
  "pattern_with_filter i f d = d\<lparr>mp_filters := mp_filters d @ [source_new i f]\<rparr>"

definition pattern_with_catch_filter where
  "pattern_with_catch_filter i kinds f d = pattern_with_filter i (message_catch_filter kinds f) d"

text \<open>Overrides replace components by type id, enhancers of a provider come first.\<close>

record ('w, 'm, 'v) transport_components =
  trc_pipes :: "('w, 'm, ('w, 'v) transport_pipe) pipeline_component list"
  trc_guards :: "('w, 'm, ('w, 'm, 'v) transport_guard) pipeline_component list"
  trc_interceptors :: "('w, 'm, ('w, 'm, 'v) transport_interceptor) pipeline_component list"
  trc_filters :: "('w, 'm, ('w, 'm, 'v) transport_filter) pipeline_component list"

definition pattern_with_pipeline_overrides where
  "pattern_with_pipeline_overrides pipes guards interceptors filters d =
     d\<lparr>mp_pipes := apply_overrides pipes (mp_pipes d), mp_guards := apply_overrides guards (mp_guards d),
       mp_interceptors := apply_overrides interceptors (mp_interceptors d),
       mp_filters := apply_overrides filters (mp_filters d)\<rparr>"

definition pattern_with_provider_enhancer_prefix ::
    "('w, 'm, 'v) transport_components \<Rightarrow> ('w, 'm, 'v) message_pattern \<Rightarrow> ('w, 'm, 'v) message_pattern" where
  "pattern_with_provider_enhancer_prefix c d =
     d\<lparr>mp_pipes := trc_pipes c @ mp_pipes d, mp_guards := trc_guards c @ mp_guards d,
       mp_interceptors := trc_interceptors c @ mp_interceptors d, mp_filters := trc_filters c @ mp_filters d\<rparr>"

definition pattern_with_execution_pipeline_prefix where
  "pattern_with_execution_pipeline_prefix guards interceptors d =
     d\<lparr>mp_guards := map (\<lambda>(i, g). source_new i (adapt_guard tc_execution_context g)) guards @ mp_guards d,
       mp_interceptors :=
         map (\<lambda>(i, g). source_new i (adapt_interceptor tc_execution_context g)) interceptors @ mp_interceptors d\<rparr>"

definition pattern_with_guard_prefix where
  "pattern_with_guard_prefix guards d = d\<lparr>mp_guards := guards @ mp_guards d\<rparr>"

definition pattern_with_interceptor_prefix where
  "pattern_with_interceptor_prefix interceptors d = d\<lparr>mp_interceptors := interceptors @ mp_interceptors d\<rparr>"

definition pattern_with_pipe_prefix where
  "pattern_with_pipe_prefix pipes d = d\<lparr>mp_pipes := pipes @ mp_pipes d\<rparr>"

definition pattern_with_filter_prefix where
  "pattern_with_filter_prefix filters d = d\<lparr>mp_filters := filters @ mp_filters d\<rparr>"

definition pattern_with_validation :: "('w, 'm, 'v) message_pattern \<Rightarrow> ('w, 'm, 'v) message_pattern" where
  "pattern_with_validation d = d\<lparr>mp_validation_enabled := True, mp_validation_disabled := False\<rparr>"

definition pattern_with_validation_options where
  "pattern_with_validation_options opts d =
     d\<lparr>mp_validation_enabled := True, mp_validation_disabled := False,
       mp_validation_options := validation_options_merge (mp_validation_options d) opts\<rparr>"

definition pattern_without_validation :: "('w, 'm, 'v) message_pattern \<Rightarrow> ('w, 'm, 'v) message_pattern" where
  "pattern_without_validation d = d\<lparr>mp_validation_enabled := False, mp_validation_disabled := True\<rparr>"

definition pattern_with_validation_prefix where
  "pattern_with_validation_prefix enabled opts d =
     (if \<not> mp_validation_disabled d
      then d\<lparr>mp_validation_enabled := (enabled \<or> mp_validation_enabled d),
             mp_validation_options := validation_options_merge opts (mp_validation_options d)\<rparr>
      else d)"

definition pattern_with_default_module_ref :: "'m \<Rightarrow> ('w, 'm, 'v) message_pattern \<Rightarrow> ('w, 'm, 'v) message_pattern" where
  "pattern_with_default_module_ref m d = (if mp_module_ref d = None then d\<lparr>mp_module_ref := Some m\<rparr> else d)"

section \<open>Dispatch\<close>

definition scoped_needs_module :: "str \<Rightarrow> boot_error" where
  "scoped_needs_module pattern =
     Internal (''scoped transport message pattern `'' @ pattern @
       ''` requires a declaring or default module context'')"

definition handler_definition_resolve ::
    "('w, 'm, 'v) transport_handler_definition \<Rightarrow> 'm option \<Rightarrow> str \<Rightarrow> ('w, ('w, 'v) transport_handler) step" where
  "handler_definition_resolve h m pattern =
     (case h of
        StaticHandler handler \<Rightarrow> step_result (Inr handler)
      | ScopedHandler factory \<Rightarrow>
          (case m of None \<Rightarrow> step_result (Inl (scoped_needs_module pattern)) | Some m \<Rightarrow> factory m))"

text \<open>The slot keeps a handler that was built; a failure leaves it empty.\<close>

definition handler_cache_resolve ::
    "('w, 'm, 'v) transport_handler_definition \<Rightarrow> 'm option \<Rightarrow> str
       \<Rightarrow> (('w, 'v) transport_handler option, 'w, ('w, 'v) transport_handler) xstep" where
  "handler_cache_resolve h m pattern s =
     (case s of
        (Some handler, w) \<Rightarrow> (Inr handler, Some handler, w)
      | (None, w) \<Rightarrow>
          (case handler_definition_resolve h m pattern w of
             (Inl e, w') \<Rightarrow> (Inl e, None, w')
           | (Inr handler, w') \<Rightarrow> (Inr handler, Some handler, w')))"

definition dispatch_module :: "('m \<Rightarrow> nat \<Rightarrow> 'm) \<Rightarrow> ('w, 'm, 'v) message_pattern \<Rightarrow> nat \<Rightarrow> 'm option" where
  "dispatch_module scope d cid = map_option (\<lambda>m. scope m cid) (mp_module_ref d)"

text \<open>The path has no query, so no escape is decoded.\<close>

definition dispatch_request :: "('m \<Rightarrow> nat \<Rightarrow> 'm) \<Rightarrow> ('w, 'm, 'v) message_pattern \<Rightarrow> nat \<Rightarrow> 'm boot_request" where
  "dispatch_request scope d cid =
     (let request = request_new Inr M_Post ''/__transport'' in
      case dispatch_module scope d cid of Some m \<Rightarrow> with_module_ref m request | None \<Rightarrow> request)"

definition transport_context_new ::
    "('w, 'm, 'v) message_pattern \<Rightarrow> str \<Rightarrow> 'm boot_request \<Rightarrow> ('m, 'v) transport_context" where
  "transport_context_new d pattern request =
     \<lparr>tc_pattern = pattern, tc_kind = mp_kind d, tc_module_name = mp_module_name d,
      tc_execution_context =
        execution_context_transport request pattern (to_execution_kind (mp_kind d)) (mp_module_name d) (mp_metadata d)\<rparr>"

definition event_reply :: "message_pattern_kind \<Rightarrow> 'v reply \<Rightarrow> 'v reply" where
  "event_reply k reply = (if k = EventPattern then None else reply)"

definition dispatch_handler_pipeline ::
    "('m \<Rightarrow> nat \<Rightarrow> 'm) \<Rightarrow> ('w, 'm, 'v) message_pattern \<Rightarrow> nat \<Rightarrow> 'v transport_message
       \<Rightarrow> (('w, 'v) transport_handler option, 'w, 'v reply) xstep" where
  "dispatch_handler_pipeline scope d cid message s =
     (case message_pipes (mp_pipes d) cid message (snd s) of
        (Inl e, w1) \<Rightarrow> (Inl e, fst s, w1)
      | (Inr m1, w1) \<Rightarrow>
          (case (if mp_validation_enabled d then message_validators (mp_validators d) (mp_validation_options d) m1 else Inr m1) of
             Inl e \<Rightarrow> (Inl e, fst s, w1)
           | Inr m2 \<Rightarrow>
               (case handler_cache_resolve (mp_handler d) (dispatch_module scope d cid) (mp_pattern d) (fst s, w1) of
                  (Inl e, s2) \<Rightarrow> (Inl e, s2)
                | (Inr handler, slot, w2) \<Rightarrow>
                    (case handler m2 w2 of
                       (Inl e, w3) \<Rightarrow> (Inl e, slot, w3)
                     | (Inr reply, w3) \<Rightarrow> (Inr (event_reply (mp_kind d) reply), slot, w3)))))"

fun dispatch_interceptor_chain ::
    "('w, 'm, 'c \<Rightarrow> ('w, 'r) call_script) pipeline_component list \<Rightarrow> nat \<Rightarrow> 'c
       \<Rightarrow> ('x, 'w, 'r) xstep \<Rightarrow> ('x, 'w, 'r) xstep" where
  "dispatch_interceptor_chain [] cid ctx terminal s = terminal s"
| "dispatch_interceptor_chain (c # cs) cid ctx terminal s =
     (case component_resolve c cid (snd s) of
        (Inl e, w1) \<Rightarrow> (Inl e, fst s, w1)
      | (Inr interceptor, w1) \<Rightarrow>
          run_calls (interceptor ctx) (dispatch_interceptor_chain cs cid ctx terminal) (fst s, w1))"

definition transport_refusal :: "str \<Rightarrow> boot_error" where
  "transport_refusal pattern = Forbidden (''message pattern '' @ pattern)"

definition transport_gate ::
    "('m \<Rightarrow> nat \<Rightarrow> 'm) \<Rightarrow> ('w, 'm, 'v) message_pattern \<Rightarrow> nat \<times> 'v transport_message \<Rightarrow> ('w, unit) step" where
  "transport_gate scope d i w =
     (let (cid, message) = i; ctx = transport_context_new d (tm_pattern message) (dispatch_request scope d cid) in
      if tm_pattern message \<noteq> mp_pattern d
      then (Inl (NotFound (''message pattern '' @ tm_pattern message)), w)
      else message_guards (transport_refusal (tm_pattern message)) (mp_guards d) cid ctx w)"

definition transport_behind ::
    "('m \<Rightarrow> nat \<Rightarrow> 'm) \<Rightarrow> ('w, 'm, 'v) message_pattern \<Rightarrow> nat \<times> 'v transport_message \<Rightarrow> ('w, 'v reply) step" where
  "transport_behind scope d i w =
     (let (cid, message) = i; ctx = transport_context_new d (tm_pattern message) (dispatch_request scope d cid) in
      case dispatch_interceptor_chain (mp_interceptors d) cid ctx (dispatch_handler_pipeline scope d cid message) (None, w) of
        (Inl e, _, w') \<Rightarrow> (Inl e, w')
      | (Inr reply, _, w') \<Rightarrow> (Inr (event_reply (mp_kind d) reply), w'))"

definition transport_dispatch_pipeline ::
    "('m \<Rightarrow> nat \<Rightarrow> 'm) \<Rightarrow> ('w, 'm, 'v) message_pattern \<Rightarrow> nat \<times> 'v transport_message \<Rightarrow> ('w, 'v reply) step" where
  "transport_dispatch_pipeline scope d i = step_bind (transport_gate scope d i) (\<lambda>_. transport_behind scope d i)"

definition transport_handle_error ::
    "('m \<Rightarrow> nat \<Rightarrow> 'm) \<Rightarrow> ('w, 'm, 'v) message_pattern \<Rightarrow> nat \<times> 'v transport_message \<Rightarrow> boot_error \<Rightarrow> ('w, 'v reply) step" where
  "transport_handle_error scope d i e w =
     (let (cid, message) = i; ctx = transport_context_new d (tm_pattern message) (dispatch_request scope d cid) in
      case message_filters (rev (mp_filters d)) cid ctx e w of
        (Inl err, w') \<Rightarrow> (Inl err, w')
      | (Inr reply, w') \<Rightarrow> (Inr (event_reply (mp_kind d) reply), w'))"

definition transport_dispatch ::
    "('m \<Rightarrow> nat \<Rightarrow> 'm) \<Rightarrow> ('w, 'm, 'v) message_pattern \<Rightarrow> nat \<times> 'v transport_message \<Rightarrow> ('w, 'v reply) step" where
  "transport_dispatch scope d i w =
     (case transport_dispatch_pipeline scope d i w of
        (Inr reply, w') \<Rightarrow> (Inr reply, w')
      | (Inl e, w') \<Rightarrow> transport_handle_error scope d i e w')"

text \<open>The application looks the pattern up by its name.\<close>

definition message_pattern_for :: "('w, 'm, 'v) message_pattern list \<Rightarrow> str \<Rightarrow> ('w, 'm, 'v) message_pattern option" where
  "message_pattern_for patterns pattern = List.find (\<lambda>d. mp_pattern d = pattern) patterns"

definition dispatch_message ::
    "('m \<Rightarrow> nat \<Rightarrow> 'm) \<Rightarrow> ('w, 'm, 'v) message_pattern list \<Rightarrow> nat \<Rightarrow> 'v transport_message \<Rightarrow> ('w, 'v reply) step" where
  "dispatch_message scope patterns cid message w =
     (case message_pattern_for patterns (tm_pattern message) of
        None \<Rightarrow> (Inl (NotFound (''message pattern '' @ tm_pattern message)), w)
      | Some d \<Rightarrow> transport_dispatch scope d (cid, message) w)"

definition emit_message ::
    "('m \<Rightarrow> nat \<Rightarrow> 'm) \<Rightarrow> ('w, 'm, 'v) message_pattern list \<Rightarrow> nat \<Rightarrow> 'v transport_message \<Rightarrow> ('w, unit) step" where
  "emit_message scope patterns cid message =
     step_bind (dispatch_message scope patterns cid message) (\<lambda>_. step_result (Inr ()))"

interpretation transport: gated_dispatch
  "transport_gate scope" "transport_behind scope" "transport_handle_error scope" "transport_dispatch scope"
  for scope :: "'m \<Rightarrow> nat \<Rightarrow> 'm"
  by unfold_locales
    (auto simp: transport_dispatch_def transport_dispatch_pipeline_def step_bind_def split: prod.split sum.split)

section \<open>One handler for a dispatch\<close>

text \<open>
  A world with a log to which only the factory and the handlers write: the factory gives each
  handler that it builds a number, under which the handler logs its calls.
\<close>

datatype handler_event = HandlerBuilt nat | HandlerCalled nat

definition quiet :: "('w \<Rightarrow> 'l) \<Rightarrow> ('w, 'a) step \<Rightarrow> bool" where
  "quiet L f \<longleftrightarrow> (\<forall>w. L (snd (f w)) = L w)"

primrec quiet_script :: "('w \<Rightarrow> 'l) \<Rightarrow> ('w, 'r) call_script \<Rightarrow> bool" where
  "quiet_script L (Finished r) \<longleftrightarrow> True"
| "quiet_script L (Doing f) \<longleftrightarrow> (\<forall>w. let (k, w') = map_prod (quiet_script L) id (f w) in k \<and> L w' = L w)"
| "quiet_script L (Calling k) \<longleftrightarrow> (\<forall>r. quiet_script L (k r))"

definition quiet_component :: "('w \<Rightarrow> 'l) \<Rightarrow> ('b \<Rightarrow> bool) \<Rightarrow> ('w, 'm, 'b) pipeline_component \<Rightarrow> bool" where
  "quiet_component L ok c \<longleftrightarrow>
     (\<forall>cid w. L (snd (component_resolve c cid w)) = L w \<and>
        (\<forall>b. fst (component_resolve c cid w) = Inr b \<longrightarrow> ok b))"

definition quiet_pattern :: "('w \<Rightarrow> 'l) \<Rightarrow> ('w, 'm, 'v) message_pattern \<Rightarrow> bool" where
  "quiet_pattern L d \<longleftrightarrow>
     (\<forall>c \<in> set (mp_guards d). quiet_component L (\<lambda>g. \<forall>ctx. quiet L (g ctx)) c) \<and>
     (\<forall>c \<in> set (mp_pipes d). quiet_component L (\<lambda>p. \<forall>m. quiet L (p m)) c) \<and>
     (\<forall>c \<in> set (mp_interceptors d). quiet_component L (\<lambda>i. \<forall>ctx. quiet_script L (i ctx)) c) \<and>
     (\<forall>c \<in> set (mp_filters d). quiet_component L (\<lambda>f. \<forall>ctx e. quiet L (f ctx e)) c)"

definition logs_calls :: "('w \<Rightarrow> handler_event list) \<Rightarrow> nat \<Rightarrow> ('w, 'v) transport_handler \<Rightarrow> bool" where
  "logs_calls L n h \<longleftrightarrow> (\<forall>m w. L (snd (h m w)) = L w @ [HandlerCalled n])"

definition logging_factory ::
    "('w \<Rightarrow> handler_event list) \<Rightarrow> ('m \<Rightarrow> ('w, ('w, 'v) transport_handler) step) \<Rightarrow> bool" where
  "logging_factory L factory \<longleftrightarrow>
     (\<forall>m w. case factory m w of
        (Inl e, w') \<Rightarrow> L w' = L w
      | (Inr h, w') \<Rightarrow> \<exists>n. L w' = L w @ [HandlerBuilt n] \<and> logs_calls L n h)"

definition one_handler :: "('w \<Rightarrow> handler_event list) \<Rightarrow> 'w \<Rightarrow> 'w \<Rightarrow> bool" where
  "one_handler L w w' \<longleftrightarrow>
     L w' = L w \<or> (\<exists>n k. L w' = L w @ HandlerBuilt n # replicate k (HandlerCalled n))"

definition slot_log :: "('w \<Rightarrow> handler_event list) \<Rightarrow> 'w \<Rightarrow> ('w, 'v) transport_handler option \<times> 'w \<Rightarrow> bool" where
  "slot_log L w0 s \<longleftrightarrow>
     (case s of
        (None, w) \<Rightarrow> L w = L w0
      | (Some h, w) \<Rightarrow> \<exists>n k. logs_calls L n h \<and> L w = L w0 @ HandlerBuilt n # replicate k (HandlerCalled n))"

lemma slot_log_quiet: "slot_log L w0 (x, w) \<Longrightarrow> L w' = L w \<Longrightarrow> slot_log L w0 (x, w')"
  by (auto simp: slot_log_def split: option.splits)

lemma slot_log_one: "slot_log L w0 (x, w) \<Longrightarrow> one_handler L w0 w"
  by (auto simp: slot_log_def one_handler_def split: option.splits)

lemma slot_log_called:
  assumes "slot_log L w0 (Some h, w)" shows "slot_log L w0 (Some h, snd (h m w))"
proof -
  obtain n k where "logs_calls L n h" "L w = L w0 @ HandlerBuilt n # replicate k (HandlerCalled n)"
    using assms by (auto simp: slot_log_def)
  then have "L (snd (h m w)) = L w0 @ HandlerBuilt n # replicate (Suc k) (HandlerCalled n)"
    by (simp add: logs_calls_def replicate_append_same)
  with \<open>logs_calls L n h\<close> show ?thesis
    unfolding slot_log_def prod.case option.case by (intro exI conjI)
qed

lemma quiet_component_cases:
  assumes "quiet_component L ok c"
  obtains e w' where "component_resolve c cid w = (Inl e, w')" "L w' = L w"
  | b w' where "component_resolve c cid w = (Inr b, w')" "ok b" "L w' = L w"
proof -
  have c: "L (snd (component_resolve c cid w)) = L w" "fst (component_resolve c cid w) = Inr b \<Longrightarrow> ok b" for b
    using assms by (auto simp: quiet_component_def)
  show thesis
  proof (cases "fst (component_resolve c cid w)")
    case (Inl e)
    then show ?thesis using c(1) that(1) [of e "snd (component_resolve c cid w)"] by (metis prod.collapse)
  next
    case (Inr b)
    then show ?thesis using c that(2) [of b "snd (component_resolve c cid w)"] by (metis prod.collapse)
  qed
qed

lemma quiet_step:
  "\<forall>m. quiet L (b m) \<Longrightarrow> b m w = (r, w') \<Longrightarrow> L w' = L w"
  "\<forall>m x. quiet L (f m x) \<Longrightarrow> f m x w = (r', w') \<Longrightarrow> L w' = L w"
  unfolding quiet_def by (metis snd_conv)+

lemma quiet_guards:
  "\<forall>c \<in> set cs. quiet_component L (\<lambda>g. \<forall>ctx. quiet L (g ctx)) c \<Longrightarrow> quiet L (message_guards refusal cs cid ctx)"
proof (induction cs)
  case (Cons c cs)
  then have IH: "L (snd (message_guards refusal cs cid ctx w)) = L w" for w by (simp add: quiet_def)
  have "L (snd (message_guards refusal (c # cs) cid ctx w)) = L w" for w
    using Cons.prems
    by (auto elim!: quiet_component_cases [where c = c and cid = cid and w = w] simp: IH split: prod.split sum.split
        dest: quiet_step)
  then show ?case by (simp add: quiet_def)
qed (simp add: quiet_def)

lemma quiet_pipes:
  "\<forall>c \<in> set cs. quiet_component L (\<lambda>p. \<forall>m. quiet L (p m)) c \<Longrightarrow> quiet L (message_pipes cs cid m)"
proof (induction cs arbitrary: m)
  case (Cons c cs)
  then have IH: "L (snd (message_pipes cs cid m w)) = L w" for m w by (simp add: quiet_def)
  have "L (snd (message_pipes (c # cs) cid m w)) = L w" for w
    using Cons.prems
    by (auto elim!: quiet_component_cases [where c = c and cid = cid and w = w] simp: IH split: prod.split sum.split
        dest: quiet_step)
  then show ?case by (simp add: quiet_def)
qed (simp add: quiet_def)

lemma quiet_filters:
  "\<forall>c \<in> set cs. quiet_component L (\<lambda>f. \<forall>ctx e. quiet L (f ctx e)) c \<Longrightarrow> quiet L (message_filters cs cid ctx e)"
proof (induction cs)
  case (Cons c cs)
  then have IH: "L (snd (message_filters cs cid ctx e w)) = L w" for w by (simp add: quiet_def)
  have "L (snd (message_filters (c # cs) cid ctx e w)) = L w" for w
    using Cons.prems
    by (auto elim!: quiet_component_cases [where c = c and cid = cid and w = w] simp: IH
        split: prod.split sum.split option.split dest: quiet_step)
  then show ?case by (simp add: quiet_def)
qed (simp add: quiet_def)

definition keeps_slot :: "('w \<Rightarrow> handler_event list) \<Rightarrow> 'w \<Rightarrow> (('w, 'v) transport_handler option, 'w, 'r) xstep \<Rightarrow> bool" where
  "keeps_slot L w0 f \<longleftrightarrow> (\<forall>s. slot_log L w0 s \<longrightarrow> slot_log L w0 (snd (f s)))"

lemma keeps_slotD: "keeps_slot L w0 f \<Longrightarrow> slot_log L w0 s \<Longrightarrow> f s = (r, s') \<Longrightarrow> slot_log L w0 s'"
  unfolding keeps_slot_def by (metis snd_conv)

lemma cache_keeps_slot:
  assumes "logging_factory L factory" and "slot_log L w0 s"
  shows "slot_log L w0 (snd (handler_cache_resolve (ScopedHandler factory) m pattern s)) \<and>
    (\<forall>h s'. handler_cache_resolve (ScopedHandler factory) m pattern s = (Inr h, s') \<longrightarrow> fst s' = Some h)"
proof (cases s)
  case (Pair x w)
  show ?thesis
  proof (cases x)
    case None
    show ?thesis
    proof (cases m)
      case (Some m')
      have "case factory m' w of (Inl e, w') \<Rightarrow> L w' = L w
          | (Inr h, w') \<Rightarrow> \<exists>n. L w' = L w @ [HandlerBuilt n] \<and> logs_calls L n h"
        using assms(1) by (simp add: logging_factory_def)
      moreover have "L w = L w0" using assms(2) Pair None by (simp add: slot_log_def)
      moreover have "[HandlerBuilt n] = HandlerBuilt n # replicate 0 (HandlerCalled n)" for n by simp
      ultimately show ?thesis using Pair None Some
        by (auto simp: handler_cache_resolve_def handler_definition_resolve_def slot_log_def
            split: prod.splits sum.splits simp del: replicate_0)
    qed (use assms(2) Pair None in \<open>simp add: handler_cache_resolve_def handler_definition_resolve_def step_result_def slot_log_def\<close>)
  qed (use assms(2) Pair in \<open>simp add: handler_cache_resolve_def\<close>)
qed

lemma run_calls_keeps_slot:
  "quiet_script L script \<Longrightarrow> keeps_slot L w0 nxt \<Longrightarrow> slot_log L w0 s \<Longrightarrow> slot_log L w0 (snd (run_calls script nxt s))"
proof (induction script arbitrary: s)
  case (Doing f)
  obtain k w' where f: "f (snd s) = (k, w')" by fastforce
  have "quiet_script L k \<and> L w' = L (snd s)"
    using Doing.prems(1) f by (auto dest: spec [of _ "snd s"])
  moreover have "k \<in> fst ` {f (snd s)}" using f by simp
  ultimately show ?case
    using Doing.IH [of "f (snd s)" k "(fst s, w')"] Doing.prems f slot_log_quiet [of L w0 "fst s" "snd s" w']
    by (auto simp: fsts.simps intro: range_eqI [OF sym])
next
  case (Calling k)
  obtain r s' where n: "nxt s = (r, s')" by (cases "nxt s")
  with Calling.prems have "slot_log L w0 s'" by (auto dest: keeps_slotD)
  with Calling.IH [of "k r" s'] Calling.prems n show ?case by auto
qed simp

lemma chain_keeps_slot:
  "\<forall>c \<in> set cs. quiet_component L (\<lambda>i. \<forall>ctx. quiet_script L (i ctx)) c \<Longrightarrow> keeps_slot L w0 terminal \<Longrightarrow>
   keeps_slot L w0 (dispatch_interceptor_chain cs cid ctx terminal)"
proof (induction cs)
  case (Cons c cs)
  then have IH: "keeps_slot L w0 (dispatch_interceptor_chain cs cid ctx terminal)" by simp
  have "slot_log L w0 (snd (dispatch_interceptor_chain (c # cs) cid ctx terminal s))" if s: "slot_log L w0 s" for s
  proof -
    have c: "quiet_component L (\<lambda>i. \<forall>ctx. quiet_script L (i ctx)) c" using Cons.prems by simp
    then show ?thesis
    proof (cases rule: quiet_component_cases [where cid = cid and w = "snd s"])
      case (1 e w')
      with s show ?thesis using slot_log_quiet [of L w0 "fst s" "snd s" w'] by simp
    next
      case (2 i w')
      with s have "slot_log L w0 (fst s, w')" using slot_log_quiet [of L w0 "fst s" "snd s" w'] by simp
      with 2 IH show ?thesis by (simp add: run_calls_keeps_slot)
    qed
  qed
  then show ?case unfolding keeps_slot_def by blast
qed (simp add: keeps_slot_def)

lemma handler_pipeline_keeps_slot:
  fixes d :: "('w, 'm, 'v) message_pattern"
  assumes "quiet_pattern L d" and handler: "mp_handler d = ScopedHandler factory" and "logging_factory L factory"
  shows "keeps_slot L w0 (dispatch_handler_pipeline scope d cid message)"
  unfolding keeps_slot_def
proof (intro allI impI)
  fix s :: "('w, 'v) transport_handler option \<times> 'w"
  assume s: "slot_log L w0 s"
  obtain r1 w1 where pipes: "message_pipes (mp_pipes d) cid message (snd s) = (r1, w1)" by fastforce
  have "quiet L (message_pipes (mp_pipes d) cid message)"
    using assms(1) by (intro quiet_pipes) (simp add: quiet_pattern_def)
  then have s1: "slot_log L w0 (fst s, w1)"
    using pipes s slot_log_quiet [of L w0 "fst s" "snd s" w1] by (auto simp: quiet_def dest: spec [of _ "snd s"])
  let ?resolve = "handler_cache_resolve (mp_handler d) (dispatch_module scope d cid) (mp_pattern d) (fst s, w1)"
  obtain r2 slot w2 where resolve: "?resolve = (r2, slot, w2)" by (metis prod.collapse)
  have s2: "slot_log L w0 (slot, w2)" and same: "r2 = Inr h \<Longrightarrow> slot = Some h" for h
    using cache_keeps_slot [OF assms(3) s1, of "dispatch_module scope d cid" "mp_pattern d"] resolve handler by auto
  have s3: "r2 = Inr h \<Longrightarrow> slot_log L w0 (slot, snd (h m2 w2))" for h m2
    using s2 same slot_log_called by metis
  have "h m2 w2 = (r, w3) \<Longrightarrow> r2 = Inr h \<Longrightarrow> slot_log L w0 (slot, w3)" for h m2 r w3
    using s3 [of h m2] by simp
  then show "slot_log L w0 (snd (dispatch_handler_pipeline scope d cid message s))"
    using s1 s2 pipes resolve by (auto simp: dispatch_handler_pipeline_def split: sum.splits prod.splits)
qed

text \<open>
  C28. The handler of a scoped message pattern is built at most once per dispatch: whatever
  interceptors do, however often they replay the rest of the pipeline and whatever fails, the
  factory builds at most one handler, and every call of a handler is a call of this one. (If
  the factory fails, it may be asked again by a replay.)
\<close>
theorem scoped_handler_once:
  fixes L :: "'w \<Rightarrow> handler_event list" and d :: "('w, 'm, 'v) message_pattern" and scope :: "'m \<Rightarrow> nat \<Rightarrow> 'm"
  assumes "quiet_pattern L d" and "mp_handler d = ScopedHandler factory" and "logging_factory L factory"
  shows "one_handler L w (snd (transport_dispatch scope d (cid, message) w))"
proof -
  let ?i = "(cid, message)"
  have gate: "L (snd (transport_gate scope d ?i u)) = L u" for u
    using assms(1) quiet_guards [of "mp_guards d" L "transport_refusal (tm_pattern message)" cid]
    by (auto simp: quiet_def transport_gate_def quiet_pattern_def Let_def)
  have recover: "L (snd (transport_handle_error scope d ?i e u)) = L u" for e u
  proof -
    let ?ctx = "transport_context_new d (tm_pattern message) (dispatch_request scope d cid)"
    have "quiet L (message_filters (rev (mp_filters d)) cid ?ctx e)"
      using assms(1) by (intro quiet_filters) (simp add: quiet_pattern_def)
    then have "L (snd (message_filters (rev (mp_filters d)) cid ?ctx e u)) = L u" by (simp add: quiet_def)
    then show ?thesis
      by (cases "message_filters (rev (mp_filters d)) cid ?ctx e u")
        (auto simp: transport_handle_error_def Let_def split: sum.split)
  qed
  have behind: "one_handler L u (snd (transport_behind scope d ?i u))" for u
  proof -
    let ?ctx = "transport_context_new d (tm_pattern message) (dispatch_request scope d cid)"
    obtain r x w' where run: "dispatch_interceptor_chain (mp_interceptors d) cid ?ctx
        (dispatch_handler_pipeline scope d cid message) (None, u) = (r, x, w')" by (metis prod.collapse)
    have "keeps_slot L u (dispatch_interceptor_chain (mp_interceptors d) cid ?ctx (dispatch_handler_pipeline scope d cid message))"
      using assms by (intro chain_keeps_slot handler_pipeline_keeps_slot) (simp_all add: quiet_pattern_def)
    from keeps_slotD [OF this _ run] have "slot_log L u (x, w')" by (simp add: slot_log_def)
    with run show ?thesis by (auto simp: transport_behind_def Let_def slot_log_one split: sum.split)
  qed
  obtain g w1 where g: "transport_gate scope d ?i w = (g, w1)" by fastforce
  obtain b w2 where b: "transport_behind scope d ?i w1 = (b, w2)" by fastforce
  have "L w1 = L w" "one_handler L w1 w2" using gate [of w] behind [of w1] g b by simp_all
  then show ?thesis
    using recover g b by (auto simp: transport.dispatch_parts one_handler_def split: sum.split)
qed

definition sample_factory :: "nat \<Rightarrow> (handler_event list, (handler_event list, nat) transport_handler) step" where
  "sample_factory m w =
     (Inr (\<lambda>message u. (Inr (Some \<lparr>tr_data = tm_data message\<rparr>), u @ [HandlerCalled (length w)])), w @ [HandlerBuilt (length w)])"

text \<open>An interceptor that runs the rest twice and returns the second result.\<close>

definition sample_replay :: "('m, 'v) transport_context \<Rightarrow> ('w, 'v reply) call_script" where
  "sample_replay ctx = Calling (\<lambda>_. Calling (\<lambda>r. Finished r))"

definition sample_pattern :: "(handler_event list, nat, nat) message_pattern" where
  "sample_pattern =
     \<lparr>mp_pattern = ''orders'', mp_kind = RequestResponse, mp_handler = ScopedHandler sample_factory, mp_pipes = [],
      mp_guards = [], mp_interceptors = [source_new 0 sample_replay], mp_filters = [], mp_validators = [],
      mp_validation_enabled = False, mp_validation_disabled = False, mp_validation_options = validation_options_default,
      mp_metadata = [], mp_module_name = None, mp_module_ref = Some 7\<rparr>"

lemma sample_pattern_quiet: "quiet_pattern (\<lambda>w. w) sample_pattern"
  by (simp add: quiet_pattern_def sample_pattern_def quiet_component_def component_resolve_def source_new_def sample_replay_def)

lemma sample_factory_logs: "logging_factory (\<lambda>w. w) sample_factory"
  by (auto simp: logging_factory_def sample_factory_def logs_calls_def)

lemma sample_pattern_handler: "mp_handler sample_pattern = ScopedHandler sample_factory"
  by (simp add: sample_pattern_def)

lemma sample_dispatched:
  "transport_dispatch (\<lambda>m cid. m) sample_pattern (2, \<lparr>tm_pattern = ''orders'', tm_data = 5\<rparr>) [] =
     (Inr (Some \<lparr>tr_data = 5\<rparr>), [HandlerBuilt 0, HandlerCalled 0, HandlerCalled 0])"
  by (simp add: transport.dispatch_parts transport_gate_def transport_behind_def sample_pattern_def source_new_def
      component_resolve_def sample_replay_def dispatch_handler_pipeline_def handler_cache_resolve_def
      handler_definition_resolve_def dispatch_module_def sample_factory_def event_reply_def)

lemma scoped_handler_once_witness:
  "one_handler (\<lambda>w. w) []
     (snd (transport_dispatch (\<lambda>m cid. m) sample_pattern (2, \<lparr>tm_pattern = ''orders'', tm_data = 5\<rparr>) [])) \<and>
   snd (transport_dispatch (\<lambda>m cid. m) sample_pattern (2, \<lparr>tm_pattern = ''orders'', tm_data = 5\<rparr>) []) =
     [HandlerBuilt 0, HandlerCalled 0, HandlerCalled 0]"
  using scoped_handler_once [of "\<lambda>w. w" sample_pattern sample_factory "[]" "\<lambda>m cid. m" 2 "\<lparr>tm_pattern = ''orders'', tm_data = 5\<rparr>"]
    sample_pattern_quiet sample_factory_logs by (simp add: sample_dispatched sample_pattern_handler)

section \<open>The gate and the filters\<close>

definition with_behind ::
    "('w, 'm, 'v) message_pattern \<Rightarrow> ('w, 'm, 'v) message_pattern \<Rightarrow> ('w, 'm, 'v) message_pattern" where
  "with_behind other d =
     d\<lparr>mp_handler := mp_handler other, mp_pipes := mp_pipes other, mp_interceptors := mp_interceptors other,
       mp_validators := mp_validators other, mp_validation_enabled := mp_validation_enabled other,
       mp_validation_options := mp_validation_options other\<rparr>"

lemma with_behind_fields [simp]:
  "mp_pattern (with_behind other d) = mp_pattern d" "mp_kind (with_behind other d) = mp_kind d"
  "mp_guards (with_behind other d) = mp_guards d" "mp_filters (with_behind other d) = mp_filters d"
  "mp_metadata (with_behind other d) = mp_metadata d" "mp_module_name (with_behind other d) = mp_module_name d"
  "mp_module_ref (with_behind other d) = mp_module_ref d"
  by (simp_all add: with_behind_def)

lemma with_behind_same:
  "transport_gate scope (with_behind other d) = transport_gate scope d"
  "transport_handle_error scope (with_behind other d) = transport_handle_error scope d"
  unfolding transport_gate_def transport_handle_error_def transport_context_new_def dispatch_request_def
    dispatch_module_def with_behind_fields by (rule refl)+

lemma event_silent:
  assumes "mp_kind d = EventPattern" and "transport_dispatch scope d i w = (Inr reply, w')"
  shows "reply = None"
  using assms
  by (auto simp: transport.dispatch_parts transport_behind_def transport_handle_error_def event_reply_def Let_def
      split: prod.splits sum.splits)

text \<open>
  The guards of a message pattern gate everything behind them, for requests and events
  alike: when the pattern does not fit or a guard refuses or fails, the outcome (answer and
  effects) is the same whatever the interceptors, pipes, validators and the handler are. When
  they let the message pass, the answer is the one of what is behind them, or the filters saw
  its error. An event is never answered, whatever its handler, interceptors and filters do.
\<close>
theorem transport_guards_gate:
  "(case transport_gate scope d i w of
      (Inl e, w1) \<Rightarrow> transport_dispatch scope (with_behind other d) i w = transport_handle_error scope d i e w1
    | (Inr _, w1) \<Rightarrow>
        transport_dispatch scope d i w =
          (case transport_behind scope d i w1 of
             (Inl e, w2) \<Rightarrow> transport_handle_error scope d i e w2
           | (Inr reply, w2) \<Rightarrow> (Inr reply, w2))) \<and>
   (if mp_kind d = EventPattern then fst (transport_dispatch scope d i w) \<in> {Inr None} \<union> range Inl else True)"
proof (rule conjI, goal_cases)
  case 2
  show "if mp_kind d = EventPattern then fst (transport_dispatch scope d i w) \<in> {Inr None} \<union> range Inl else True"
    using event_silent [of d scope i w]
    by (cases "transport_dispatch scope d i w"; cases "fst (transport_dispatch scope d i w)") auto
qed (auto simp: transport.dispatch_parts with_behind_same split: prod.split sum.split)

text \<open>Filters of an outer level are asked after the pattern's own, with the pattern's error.\<close>

lemma transport_outer_filters:
  assumes "message_all_decline (rev (mp_filters d)) cid
      (transport_context_new d (tm_pattern message) (dispatch_request scope d cid)) e w w1"
  shows "transport_handle_error scope (pattern_with_filter_prefix outer d) (cid, message) e w =
    transport_handle_error scope (d\<lparr>mp_filters := outer\<rparr>) (cid, message) e w1"
  using assms
  by (simp add: transport_handle_error_def pattern_with_filter_prefix_def transport_context_new_def
      dispatch_request_def dispatch_module_def message_filters_declined cong: prod.case_cong sum.case_cong)

lemma transport_own_filters:
  assumes "\<nexists>w1. message_all_decline (rev (mp_filters d)) cid
      (transport_context_new d (tm_pattern message) (dispatch_request scope d cid)) e w w1"
  shows "transport_handle_error scope (pattern_with_filter_prefix outer d) (cid, message) e w =
    transport_handle_error scope d (cid, message) e w"
  using assms
  by (simp add: transport_handle_error_def pattern_with_filter_prefix_def transport_context_new_def
      dispatch_request_def dispatch_module_def message_filters_settled cong: prod.case_cong sum.case_cong)

end
