(* ===== verification/Websocket_State.thy ===== *)
theory Websocket_State
  imports Messaging
begin

text \<open>
  \<open>src/websocket/state.rs\<close> and the opening and closing of connections in
  \<open>src/websocket/connection.rs\<close>: the open connections of a gateway with their rooms and outbound
  writers, whom a broadcast reaches, and the steps of concurrent calls of \<open>open\<close> and \<open>close\<close> on
  one connection. A writer is a handle \<open>'o\<close>. A clone of a connection shares its id and its
  \<open>opened\<close> flag, so the flags are kept by id. Connection ids do not reach \<open>2^64\<close>, and the lock of
  the connections is never poisoned.
\<close>

section \<open>Connections and rooms\<close>

record 'o ws_connection_state =
  wcs_rooms :: "str list"
  wcs_outbound :: "'o option"

record 'o ws_state =
  ws_last_id :: nat
  ws_connections :: "(nat, 'o ws_connection_state) btree"
  ws_opened :: "nat \<Rightarrow> bool"

definition ws_state_default :: "'o ws_state" where
  "ws_state_default = \<lparr>ws_last_id = 0, ws_connections = [], ws_opened = (\<lambda>_. False)\<rparr>"

definition next_connection_id :: "'o ws_state \<Rightarrow> nat \<times> 'o ws_state" where
  "next_connection_id s = (ws_last_id s + 1, s\<lparr>ws_last_id := ws_last_id s + 1\<rparr>)"

definition normalize_room :: "str \<Rightarrow> str result" where
  "normalize_room room =
     (let room = trim room in
      if room = [] then Inl (BadRequest ''websocket room cannot be empty'') else Inr room)"

definition normalize_namespace :: "str \<Rightarrow> str result" where
  "normalize_namespace namespace =
     (let namespace = trim namespace in
      if namespace = [] then Inl (BadRequest ''websocket namespace cannot be empty'')
      else if CHR ''?'' \<in> set namespace \<or> CHR ''#'' \<in> set namespace
      then Inl (BadRequest (''websocket namespace cannot contain query or fragment markers: '' @ namespace))
      else if starts_with ''/'' namespace then Inr namespace
      else Inr (''/'' @ namespace))"

definition ws_register :: "nat \<Rightarrow> 'o option \<Rightarrow> 'o ws_state \<Rightarrow> 'o ws_state" where
  "ws_register i out s =
     s\<lparr>ws_connections := bt_insert i \<lparr>wcs_rooms = [], wcs_outbound = out\<rparr> (ws_connections s)\<rparr>"

definition ws_unregister :: "nat \<Rightarrow> 'o ws_state \<Rightarrow> 'o ws_state" where
  "ws_unregister i s = s\<lparr>ws_connections := bt_remove i (ws_connections s)\<rparr>"

definition update_rooms :: "nat \<Rightarrow> 'o ws_connection_state \<Rightarrow> str list \<Rightarrow> 'o ws_state \<Rightarrow> 'o ws_state" where
  "update_rooms i c rooms s = s\<lparr>ws_connections := bt_insert i (c\<lparr>wcs_rooms := rooms\<rparr>) (ws_connections s)\<rparr>"

definition not_open :: "nat \<Rightarrow> boot_error" where
  "not_open i = BadRequest (''websocket connection '' @ show_nat i @ '' is not open'')"

definition ws_join :: "nat \<Rightarrow> str \<Rightarrow> ('o ws_state, unit) step" where
  "ws_join i room s =
     (case normalize_room room of
        Inl e \<Rightarrow> (Inl e, s)
      | Inr room \<Rightarrow>
          (case bt_get (ws_connections s) i of
             None \<Rightarrow> (Inl (not_open i), s)
           | Some c \<Rightarrow> (Inr (), update_rooms i c (bs_insert room (wcs_rooms c)) s)))"

definition ws_leave :: "nat \<Rightarrow> str \<Rightarrow> ('o ws_state, unit) step" where
  "ws_leave i room s =
     (case normalize_room room of
        Inl e \<Rightarrow> (Inl e, s)
      | Inr room \<Rightarrow>
          (case bt_get (ws_connections s) i of
             None \<Rightarrow> (Inr (), s)
           | Some c \<Rightarrow> (Inr (), update_rooms i c (filter (\<lambda>r. r \<noteq> room) (wcs_rooms c)) s)))"

definition ws_connection_count :: "'o ws_state \<Rightarrow> nat" where
  "ws_connection_count s = length (ws_connections s)"

definition ws_connection_ids :: "'o ws_state \<Rightarrow> nat list" where
  "ws_connection_ids s = map fst (ws_connections s)"

definition ws_rooms :: "'o ws_state \<Rightarrow> str list" where
  "ws_rooms s = fold (\<lambda>(_, c). fold bs_insert (wcs_rooms c)) (ws_connections s) []"

definition ws_rooms_for_connection :: "nat \<Rightarrow> 'o ws_state \<Rightarrow> str list" where
  "ws_rooms_for_connection i s =
     (case bt_get (ws_connections s) i of None \<Rightarrow> [] | Some c \<Rightarrow> wcs_rooms c)"

definition ws_room_members :: "str \<Rightarrow> 'o ws_state \<Rightarrow> nat list result" where
  "ws_room_members room s =
     rbind (normalize_room room) (\<lambda>room.
       Inr (map fst (filter (\<lambda>(_, c). room \<in> set (wcs_rooms c)) (ws_connections s))))"

definition ws_outbound_for_connection :: "nat \<Rightarrow> 'o ws_state \<Rightarrow> 'o option" where
  "ws_outbound_for_connection i s = Option.bind (bt_get (ws_connections s) i) wcs_outbound"

definition ws_broadcast_targets :: "str option \<Rightarrow> nat option \<Rightarrow> 'o ws_state \<Rightarrow> 'o list" where
  "ws_broadcast_targets room exclude s =
     List.map_filter (\<lambda>(_, c). wcs_outbound c)
       (filter (\<lambda>(i, c). Some i \<noteq> exclude \<and> (case room of Some r \<Rightarrow> r \<in> set (wcs_rooms c) | None \<Rightarrow> True))
         (ws_connections s))"

text \<open>Sending to several writers stops at the first that fails.\<close>

fun send_to_outbounds :: "('o \<Rightarrow> 'a \<Rightarrow> ('w, unit) step) \<Rightarrow> 'o list \<Rightarrow> 'a \<Rightarrow> ('w, nat) step" where
  "send_to_outbounds send [] message w = (Inr 0, w)"
| "send_to_outbounds send (out # outs) message w =
     (case send out message w of
        (Inl e, w1) \<Rightarrow> (Inl e, w1)
      | (Inr _, w1) \<Rightarrow>
          (case send_to_outbounds send outs message w1 of
             (Inl e, w2) \<Rightarrow> (Inl e, w2)
           | (Inr n, w2) \<Rightarrow> (Inr (n + 1), w2)))"

section \<open>The abstract gateway\<close>

text \<open>An open connection has a writer and a set of rooms.\<close>

type_synonym 'o gateway_view = "nat \<Rightarrow> ('o option \<times> str set) option"

datatype 'o ws_op = OpRegister nat "'o option" | OpUnregister nat | OpJoin nat str | OpLeave nat str

fun ws_apply :: "'o ws_op \<Rightarrow> ('o ws_state, unit) step" where
  "ws_apply (OpRegister i out) s = (Inr (), ws_register i out s)"
| "ws_apply (OpUnregister i) s = (Inr (), ws_unregister i s)"
| "ws_apply (OpJoin i room) s = ws_join i room s"
| "ws_apply (OpLeave i room) s = ws_leave i room s"

fun view_apply :: "'o ws_op \<Rightarrow> ('o gateway_view, unit) step" where
  "view_apply (OpRegister i out) A = (Inr (), A(i \<mapsto> (out, {})))"
| "view_apply (OpUnregister i) A = (Inr (), A(i := None))"
| "view_apply (OpJoin i room) A =
     (case (normalize_room room, A i) of
        (Inl e, _) \<Rightarrow> (Inl e, A)
      | (_, None) \<Rightarrow> (Inl (not_open i), A)
      | (Inr r, Some (out, R)) \<Rightarrow> (Inr (), A(i \<mapsto> (out, insert r R))))"
| "view_apply (OpLeave i room) A =
     (case (normalize_room room, A i) of
        (Inl e, _) \<Rightarrow> (Inl e, A)
      | (_, None) \<Rightarrow> (Inr (), A)
      | (Inr r, Some (out, R)) \<Rightarrow> (Inr (), A(i \<mapsto> (out, R - {r}))))"

fun ops_run :: "('p \<Rightarrow> ('s, unit) step) \<Rightarrow> 'p list \<Rightarrow> 's \<Rightarrow> unit result list \<times> 's" where
  "ops_run f [] s = ([], s)"
| "ops_run f (p # ps) s = (let (r, s1) = f p s; (rs, s2) = ops_run f ps s1 in (r # rs, s2))"

definition view_of :: "'o ws_state \<Rightarrow> 'o gateway_view" where
  "view_of s i = map_option (\<lambda>c. (wcs_outbound c, set (wcs_rooms c))) (bt_get (ws_connections s) i)"

definition ws_ok :: "'o ws_state \<Rightarrow> bool" where
  "ws_ok s \<longleftrightarrow> bt_wf (ws_connections s) \<and> (\<forall>(i, c) \<in> set (ws_connections s). sorted_wrt (<) (wcs_rooms c))"

lemma bt_in_get: "bt_wf m \<Longrightarrow> (k, v) \<in> set m \<longleftrightarrow> bt_get m k = Some v"
  by (simp add: bt_get_def bt_wf_distinct map_of_eq_Some_iff)

lemma set_bt_insert_subset: "set (bt_insert k v m) \<subseteq> insert (k, v) (set m)"
  by (induction m rule: bt_insert.induct) (auto split: if_splits)

lemma set_bt_remove_subset: "set (bt_remove k m) \<subseteq> set m"
  by (auto simp: bt_remove_def)

lemma ws_ok_insert:
  assumes "ws_ok s" and "sorted_wrt (<) (wcs_rooms c)"
  shows "ws_ok (s\<lparr>ws_connections := bt_insert i c (ws_connections s)\<rparr>)"
  using assms set_bt_insert_subset [of i c "ws_connections s"] by (fastforce simp: ws_ok_def)

lemma ws_ok_get: "ws_ok s \<Longrightarrow> bt_get (ws_connections s) i = Some c \<Longrightarrow> sorted_wrt (<) (wcs_rooms c)"
  by (auto simp: ws_ok_def dest: bt_get_Some_in)

lemma ws_apply_refines:
  assumes "ws_ok s"
  shows "ws_ok (snd (ws_apply p s))" and "view_apply p (view_of s) = (fst (ws_apply p s), view_of (snd (ws_apply p s)))"
proof (atomize (full), cases p)
  case (OpRegister i out)
  with assms show "ws_ok (snd (ws_apply p s)) \<and> view_apply p (view_of s) = (fst (ws_apply p s), view_of (snd (ws_apply p s)))"
    by (auto simp: ws_register_def ws_ok_insert view_of_def)
next
  case (OpUnregister i)
  with assms show "ws_ok (snd (ws_apply p s)) \<and> view_apply p (view_of s) = (fst (ws_apply p s), view_of (snd (ws_apply p s)))"
    using set_bt_remove_subset [of i "ws_connections s"]
    by (auto simp: ws_unregister_def ws_ok_def view_of_def fun_eq_iff)
next
  case (OpJoin i room)
  with assms show "ws_ok (snd (ws_apply p s)) \<and> view_apply p (view_of s) = (fst (ws_apply p s), view_of (snd (ws_apply p s)))"
    by (auto simp: ws_join_def update_rooms_def ws_ok_insert ws_ok_get view_of_def split: sum.split option.split)
next
  case (OpLeave i room)
  with assms show "ws_ok (snd (ws_apply p s)) \<and> view_apply p (view_of s) = (fst (ws_apply p s), view_of (snd (ws_apply p s)))"
    by (auto simp: ws_leave_def update_rooms_def ws_ok_insert ws_ok_get sorted_wrt_filter view_of_def split: sum.split option.split)
qed

lemma sorted_wrt_map_filter: "sorted_wrt P (map f xs) \<Longrightarrow> sorted_wrt P (map f (filter Q xs))"
  by (induction xs) auto

lemma keys_sorted_list:
  assumes "bt_wf m"
  shows "map fst (filter P m) = sorted_list_of_set {k. \<exists>v. bt_get m k = Some v \<and> P (k, v)}"
proof -
  have "sorted_wrt (<) (map fst (filter P m))" using assms sorted_wrt_map_filter by (auto simp: bt_wf_def)
  then have "sorted_list_of_set (set (map fst (filter P m))) = map fst (filter P m)"
    unfolding strict_sorted_iff by (intro sorted_list_of_set.idem_if_sorted_distinct) auto
  moreover have "set (map fst (filter P m)) = {k. \<exists>v. bt_get m k = Some v \<and> P (k, v)}"
    using assms by (force simp: bt_in_get)
  ultimately show ?thesis by simp
qed

lemma map_filter_keys:
  assumes "bt_wf m" and "\<And>k v. bt_get m k = Some v \<Longrightarrow> g k = f (k, v)" and "set ps \<subseteq> set m"
  shows "List.map_filter f ps = List.map_filter g (map fst ps)"
  using assms(3)
proof (induction ps)
  case (Cons p ps)
  then have "bt_get m (fst p) = Some (snd p)" using assms(1) bt_in_get [of m "fst p" "snd p"] by simp
  with assms(2) have "g (fst p) = f p" by (metis prod.collapse)
  with Cons show ?case by (cases "f p") (simp_all add: List.map_filter_simps)
qed (simp add: List.map_filter_simps)

definition view_outbound :: "'o gateway_view \<Rightarrow> nat \<Rightarrow> 'o option" where
  "view_outbound A i = Option.bind (A i) fst"

definition view_rooms :: "'o gateway_view \<Rightarrow> nat \<Rightarrow> str set" where
  "view_rooms A i = (case A i of None \<Rightarrow> {} | Some (_, R) \<Rightarrow> R)"

lemma set_all_rooms:
  "set (fold (\<lambda>(_, c). fold bs_insert (wcs_rooms c)) m acc) = (\<Union>(i, c) \<in> set m. set (wcs_rooms c)) \<union> set acc"
  by (induction m arbitrary: acc) (auto simp: set_fold_bs_insert)

lemma broadcast_targets_view:
  assumes "ws_ok s"
  shows "ws_broadcast_targets room exclude s =
    List.map_filter (view_outbound (view_of s))
      (sorted_list_of_set {i \<in> dom (view_of s). Some i \<noteq> exclude \<and> (case room of Some r \<Rightarrow> r \<in> view_rooms (view_of s) i | None \<Rightarrow> True)})"
proof -
  let ?P = "\<lambda>(i, c). Some i \<noteq> exclude \<and> (case room of Some r \<Rightarrow> r \<in> set (wcs_rooms c) | None \<Rightarrow> True)"
  have wf: "bt_wf (ws_connections s)" using assms by (simp add: ws_ok_def)
  have "ws_broadcast_targets room exclude s =
      List.map_filter (view_outbound (view_of s)) (map fst (filter ?P (ws_connections s)))"
    unfolding ws_broadcast_targets_def using wf
    by (intro map_filter_keys [where m = "ws_connections s"]) (auto simp: view_outbound_def view_of_def)
  moreover have "{k. \<exists>v. bt_get (ws_connections s) k = Some v \<and> ?P (k, v)} =
      {i \<in> dom (view_of s). Some i \<noteq> exclude \<and> (case room of Some r \<Rightarrow> r \<in> view_rooms (view_of s) i | None \<Rightarrow> True)}"
    by (auto simp: view_of_def view_rooms_def split: option.splits)
  ultimately show ?thesis by (simp add: keys_sorted_list [OF wf])
qed

lemma room_members_view:
  assumes "ws_ok s"
  shows "ws_room_members room s = rbind (normalize_room room) (\<lambda>r. Inr (sorted_list_of_set {i. r \<in> view_rooms (view_of s) i}))"
proof (cases "normalize_room room")
  case (Inr r)
  have wf: "bt_wf (ws_connections s)" using assms by (simp add: ws_ok_def)
  have "{k. \<exists>v. bt_get (ws_connections s) k = Some v \<and> (\<lambda>(i, c). r \<in> set (wcs_rooms c)) (k, v)} =
      {i. r \<in> view_rooms (view_of s) i}"
    by (auto simp: view_of_def view_rooms_def split: option.splits)
  with Inr show ?thesis by (simp add: ws_room_members_def keys_sorted_list [OF wf])
qed (simp add: ws_room_members_def)

text \<open>All queries read the abstract gateway off the state.\<close>

definition queries_agree :: "'o ws_state \<Rightarrow> 'o gateway_view \<Rightarrow> bool" where
  "queries_agree s A \<longleftrightarrow>
     ws_connection_ids s = sorted_list_of_set (dom A) \<and> ws_connection_count s = card (dom A) \<and>
     (\<forall>i. ws_outbound_for_connection i s = view_outbound A i) \<and>
     (\<forall>i. set (ws_rooms_for_connection i s) = view_rooms A i \<and> sorted_wrt (<) (ws_rooms_for_connection i s)) \<and>
     set (ws_rooms s) = (\<Union>i. view_rooms A i) \<and>
     (\<forall>room. ws_room_members room s =
        rbind (normalize_room room) (\<lambda>r. Inr (sorted_list_of_set {i. r \<in> view_rooms A i}))) \<and>
     (\<forall>room exclude. ws_broadcast_targets room exclude s =
        List.map_filter (view_outbound A)
          (sorted_list_of_set {i \<in> dom A. Some i \<noteq> exclude \<and> (case room of Some r \<Rightarrow> r \<in> view_rooms A i | None \<Rightarrow> True)}))"

lemma view_queries:
  assumes "ws_ok s" shows "queries_agree s (view_of s)"
proof -
  have wf: "bt_wf (ws_connections s)" using assms by (simp add: ws_ok_def)
  have ids: "ws_connection_ids s = sorted_list_of_set (dom (view_of s))"
    using keys_sorted_list [OF wf, of "\<lambda>_. True"] by (simp add: ws_connection_ids_def view_of_def dom_def)
  moreover have "ws_connection_count s = card (dom (view_of s))"
  proof -
    have "dom (view_of s) = fst ` set (ws_connections s)"
      by (auto simp: view_of_def bt_get_None_iff dom_def)
    then have "card (dom (view_of s)) = length (remdups (map fst (ws_connections s)))"
      by (metis length_remdups_card_conv list.set_map)
    then show ?thesis using bt_wf_distinct [OF wf] by (simp add: ws_connection_count_def distinct_remdups_id)
  qed
  moreover have "set (ws_rooms s) = (\<Union>i. view_rooms (view_of s) i)"
  proof -
    have "set (ws_rooms s) = (\<Union>(i, c) \<in> set (ws_connections s). set (wcs_rooms c))"
      by (simp add: ws_rooms_def set_all_rooms)
    also have "\<dots> = (\<Union>i. view_rooms (view_of s) i)"
    proof (rule set_eqI)
      fix r
      have "r \<in> (\<Union>(i, c) \<in> set (ws_connections s). set (wcs_rooms c)) \<longleftrightarrow>
          (\<exists>i c. bt_get (ws_connections s) i = Some c \<and> r \<in> set (wcs_rooms c))"
        using bt_in_get [OF wf] by fast
      also have "\<dots> \<longleftrightarrow> r \<in> (\<Union>i. view_rooms (view_of s) i)"
        by (auto simp: view_rooms_def view_of_def split: option.splits)
      finally show "r \<in> (\<Union>(i, c) \<in> set (ws_connections s). set (wcs_rooms c)) \<longleftrightarrow> r \<in> (\<Union>i. view_rooms (view_of s) i)" .
    qed
    finally show ?thesis .
  qed
  moreover have "ws_outbound_for_connection i s = view_outbound (view_of s) i" for i
    by (cases "bt_get (ws_connections s) i") (simp_all add: ws_outbound_for_connection_def view_outbound_def view_of_def)
  moreover have "set (ws_rooms_for_connection i s) = view_rooms (view_of s) i \<and> sorted_wrt (<) (ws_rooms_for_connection i s)" for i
    using ws_ok_get [OF assms] by (auto simp: ws_rooms_for_connection_def view_rooms_def view_of_def split: option.split)
  ultimately show ?thesis
    using assms by (simp add: queries_agree_def room_members_view broadcast_targets_view)
qed

lemma ops_run_refines:
  assumes "ws_ok s"
  shows "ws_ok (snd (ops_run ws_apply ps s)) \<and>
    ops_run view_apply ps (view_of s) = (fst (ops_run ws_apply ps s), view_of (snd (ops_run ws_apply ps s)))"
  using assms
proof (induction ps arbitrary: s)
  case (Cons p ps)
  have ok: "ws_ok (snd (ws_apply p s))" and
    view: "view_apply p (view_of s) = (fst (ws_apply p s), view_of (snd (ws_apply p s)))"
    using ws_apply_refines Cons.prems by blast+
  show ?case
    using Cons.IH [OF ok] view
    by (cases "ws_apply p s"; cases "ops_run ws_apply ps (snd (ws_apply p s))") auto
qed simp

text \<open>
  C27. The state of a gateway refines the abstract gateway, in which an open connection has a
  writer and a set of rooms: after any sequence of registrations, closings, joins and leaves,
  with the same answers, every query is the one of the abstract gateway. In particular a
  broadcast reaches each open connection of the room (or each, without a room) other than the
  excluded one exactly once, in the order of their ids, and room membership is symmetric.
\<close>
theorem gateway_refines:
  "fst (ops_run ws_apply ps ws_state_default) = fst (ops_run view_apply ps (\<lambda>_. None)) \<and>
   queries_agree (snd (ops_run ws_apply ps ws_state_default)) (snd (ops_run view_apply ps (\<lambda>_. None)))"
proof -
  have "ws_ok (ws_state_default :: 'a ws_state)" "view_of (ws_state_default :: 'a ws_state) = (\<lambda>_. None)"
    by (simp_all add: ws_ok_def ws_state_default_def view_of_def fun_eq_iff)
  with ops_run_refines [of ws_state_default ps] show ?thesis by (simp add: view_queries)
qed

section \<open>Opening and closing\<close>

text \<open>
  \<open>open\<close> and \<open>close\<close> as they run in one task. The hooks act on the state of the gateway and the
  rest of the world; a hook may use the connection, so it may change both.
\<close>

type_synonym ('o, 'w) gateway_world = "'o ws_state \<times> 'w"

fun hooks_loop :: "('c \<Rightarrow> ('w, unit) step) list \<Rightarrow> 'c \<Rightarrow> ('w, unit) step" where
  "hooks_loop [] c w = (Inr (), w)"
| "hooks_loop (h # hs) c w = (case h c w of (Inl e, w1) \<Rightarrow> (Inl e, w1) | (Inr _, w1) \<Rightarrow> hooks_loop hs c w1)"

definition set_opened :: "nat \<Rightarrow> bool \<Rightarrow> 'o ws_state \<Rightarrow> 'o ws_state" where
  "set_opened i b s = s\<lparr>ws_opened := (ws_opened s)(i := b)\<rparr>"

definition ws_open ::
    "('c \<Rightarrow> (('o, 'w) gateway_world, unit) step) list \<Rightarrow> nat \<Rightarrow> 'o option \<Rightarrow> 'c \<Rightarrow> (('o, 'w) gateway_world, unit) step" where
  "ws_open hooks i out c w =
     (if ws_opened (fst w) i then (Inr (), w)
      else
        (case hooks_loop hooks c (ws_register i out (set_opened i True (fst w)), snd w) of
           (Inl e, s, u) \<Rightarrow> (Inl e, ws_unregister i (set_opened i False s), u)
         | (Inr _, w1) \<Rightarrow> (Inr (), w1)))"

definition ws_close ::
    "('c \<Rightarrow> (('o, 'w) gateway_world, unit) step) list \<Rightarrow> nat \<Rightarrow> 'c \<Rightarrow> (('o, 'w) gateway_world, unit) step" where
  "ws_close hooks i c w =
     (if \<not> ws_opened (fst w) i then (Inr (), w)
      else
        (case hooks_loop (rev hooks) c (set_opened i False (fst w), snd w) of
           (r, s, u) \<Rightarrow> (r, ws_unregister i s, u)))"

definition is_registered :: "nat \<Rightarrow> 'o ws_state \<Rightarrow> bool" where
  "is_registered i s \<longleftrightarrow> bt_get (ws_connections s) i \<noteq> None"

text \<open>
  Several tasks may hold clones of a connection. The steps of their calls, between which the
  calls of others may come: the exchange of the flag, the registration, the hooks (whose
  effect on this connection is their result), the release of the flag and the removal.
\<close>

datatype conn_pc = Idle | Registering | OpenHooks | Undoing | CloseHooks | Unregistering

datatype conn_move = StartOpen | StartClose | Advance | HookFails

record 'o conn_world =
  cw_state :: "'o ws_state"
  cw_pc :: "nat \<Rightarrow> conn_pc"

definition goto :: "nat \<Rightarrow> conn_pc \<Rightarrow> ('o ws_state \<Rightarrow> 'o ws_state) \<Rightarrow> 'o conn_world \<Rightarrow> 'o conn_world" where
  "goto t pc f s = s\<lparr>cw_state := f (cw_state s), cw_pc := (cw_pc s)(t := pc)\<rparr>"

definition open_move :: "nat \<Rightarrow> 'o option \<Rightarrow> nat \<Rightarrow> conn_move \<Rightarrow> 'o conn_world \<Rightarrow> 'o conn_world option" where
  "open_move i out t m s =
     (case (cw_pc s t, m) of
        (Idle, StartOpen) \<Rightarrow>
          Some (if ws_opened (cw_state s) i then s else goto t Registering (set_opened i True) s)
      | (Registering, Advance) \<Rightarrow> Some (goto t OpenHooks (ws_register i out) s)
      | (OpenHooks, Advance) \<Rightarrow> Some (goto t Idle id s)
      | (OpenHooks, HookFails) \<Rightarrow> Some (goto t Undoing (set_opened i False) s)
      | (Undoing, Advance) \<Rightarrow> Some (goto t Idle (ws_unregister i) s)
      | _ \<Rightarrow> None)"

definition close_move :: "nat \<Rightarrow> nat \<Rightarrow> conn_move \<Rightarrow> 'o conn_world \<Rightarrow> 'o conn_world option" where
  "close_move i t m s =
     (case (cw_pc s t, m) of
        (Idle, StartClose) \<Rightarrow>
          Some (if \<not> ws_opened (cw_state s) i then s else goto t CloseHooks (set_opened i False) s)
      | (CloseHooks, Advance) \<Rightarrow> Some (goto t Unregistering id s)
      | (CloseHooks, HookFails) \<Rightarrow> Some (goto t Unregistering id s)
      | (Unregistering, Advance) \<Rightarrow> Some (goto t Idle (ws_unregister i) s)
      | _ \<Rightarrow> None)"

definition idle_world :: "'o ws_state \<Rightarrow> 'o conn_world" where
  "idle_world s = \<lparr>cw_state = s, cw_pc = (\<lambda>_. Idle)\<rparr>"

inductive conn_reachable :: "nat \<Rightarrow> 'o option \<Rightarrow> bool \<Rightarrow> 'o conn_world \<Rightarrow> bool" for i out serial where
  start: "\<not> is_registered i s \<Longrightarrow> \<not> ws_opened s i \<Longrightarrow> conn_reachable i out serial (idle_world s)"
| opens: "conn_reachable i out serial s \<Longrightarrow> serial \<longrightarrow> (\<forall>u. u \<noteq> t \<longrightarrow> cw_pc s u = Idle) \<Longrightarrow>
    open_move i out t m s = Some s' \<Longrightarrow> conn_reachable i out serial s'"
| closes: "conn_reachable i out serial s \<Longrightarrow> serial \<longrightarrow> (\<forall>u. u \<noteq> t \<longrightarrow> cw_pc s u = Idle) \<Longrightarrow>
    close_move i t m s = Some s' \<Longrightarrow> conn_reachable i out serial s'"

text \<open>Where flag and registration stand in each phase of a call that no other one overlaps.\<close>

definition phase_ok :: "nat \<Rightarrow> conn_pc \<Rightarrow> 'o ws_state \<Rightarrow> bool" where
  "phase_ok i pc s =
     (case pc of
        Idle \<Rightarrow> ws_opened s i = is_registered i s
      | Registering \<Rightarrow> ws_opened s i \<and> \<not> is_registered i s
      | OpenHooks \<Rightarrow> ws_opened s i \<and> is_registered i s
      | Undoing \<Rightarrow> \<not> ws_opened s i \<and> is_registered i s
      | CloseHooks \<Rightarrow> \<not> ws_opened s i \<and> is_registered i s
      | Unregistering \<Rightarrow> \<not> ws_opened s i \<and> is_registered i s)"

lemma registered_simps [simp]:
  "is_registered i (set_opened j b s) = is_registered i s"
  "is_registered i (ws_register i out s)" "\<not> is_registered i (ws_unregister i s)"
  "ws_opened (set_opened i b s) i = b"
  "ws_opened (ws_register j out s) = ws_opened s" "ws_opened (ws_unregister j s) = ws_opened s"
  by (auto simp: is_registered_def set_opened_def ws_register_def ws_unregister_def)

lemma goto_simps [simp]:
  "cw_state (goto t pc f s) = f (cw_state s)" "cw_pc (goto t pc f s) = (cw_pc s)(t := pc)"
  by (simp_all add: goto_def)

lemma serial_phase:
  "conn_reachable i out serial s \<Longrightarrow> serial \<Longrightarrow> \<exists>t. (\<forall>u. u \<noteq> t \<longrightarrow> cw_pc s u = Idle) \<and> phase_ok i (cw_pc s t) (cw_state s)"
proof (induction rule: conn_reachable.induct)
  case (start s)
  then show ?case by (intro exI [of _ 0]) (simp add: idle_world_def phase_ok_def)
next
  case (opens s t m s')
  then obtain t0 where "\<forall>u. u \<noteq> t0 \<longrightarrow> cw_pc s u = Idle" "phase_ok i (cw_pc s t0) (cw_state s)" by blast
  then have "phase_ok i (cw_pc s t) (cw_state s)"
    using opens.hyps(2) opens.prems by (cases "t = t0") auto
  with opens show ?case
    by (intro exI [of _ t])
      (auto simp: open_move_def phase_ok_def split: conn_pc.splits conn_move.splits if_splits)
next
  case (closes s t m s')
  then obtain t0 where "\<forall>u. u \<noteq> t0 \<longrightarrow> cw_pc s u = Idle" "phase_ok i (cw_pc s t0) (cw_state s)" by blast
  then have "phase_ok i (cw_pc s t) (cw_state s)"
    using closes.hyps(2) closes.prems by (cases "t = t0") auto
  with closes show ?case
    by (intro exI [of _ t])
      (auto simp: close_move_def phase_ok_def split: conn_pc.splits conn_move.splits if_splits)
qed

text \<open>
  Opening and closing keep the \<open>opened\<close> flag of a connection and its registration with the
  gateway together: if the calls of \<open>open\<close> and \<open>close\<close> on it do not overlap, then after any
  sequence of them, failing hooks included, the connection is registered, and so reached by
  broadcasts, exactly if it counts as open.
\<close>
theorem serial_open_close:
  assumes "conn_reachable i out True s" and "\<forall>t. cw_pc s t = Idle"
  shows "ws_opened (cw_state s) i \<longleftrightarrow> is_registered i (cw_state s)"
  using serial_phase [OF assms(1)] assms(2) by (auto simp: phase_ok_def)

text \<open>
  Without that condition they come apart: a close between the exchange of the flag and the
  registration of an open leaves a closed connection registered for good.
\<close>

lemma overlapping_close_leaks:
  "\<exists>s. conn_reachable 1 (Some ()) False s \<and> (\<forall>t. cw_pc s t = Idle) \<and>
     \<not> ws_opened (cw_state s) 1 \<and> is_registered 1 (cw_state s) \<and>
     close_move 1 0 StartClose s = Some s"
proof -
  let ?s0 = "idle_world ws_state_default :: unit conn_world"
  let ?s1 = "goto 0 Registering (set_opened 1 True) ?s0"
  let ?s2 = "goto 1 CloseHooks (set_opened 1 False) ?s1"
  let ?s3 = "goto 1 Unregistering id ?s2"
  let ?s4 = "goto 1 Idle (ws_unregister 1) ?s3"
  let ?s5 = "goto 0 OpenHooks (ws_register 1 (Some ())) ?s4"
  let ?s6 = "goto 0 Idle id ?s5"
  have "conn_reachable 1 (Some ()) False ?s0"
    by (rule conn_reachable.start) (simp_all add: ws_state_default_def is_registered_def)
  then have "conn_reachable 1 (Some ()) False ?s1"
    by (rule conn_reachable.opens [where t = 0 and m = StartOpen]) (simp_all add: open_move_def idle_world_def ws_state_default_def)
  then have "conn_reachable 1 (Some ()) False ?s2"
    by (rule conn_reachable.closes [where t = 1 and m = StartClose]) (simp_all add: close_move_def idle_world_def)
  then have "conn_reachable 1 (Some ()) False ?s3"
    by (rule conn_reachable.closes [where t = 1 and m = Advance]) (simp_all add: close_move_def)
  then have "conn_reachable 1 (Some ()) False ?s4"
    by (rule conn_reachable.closes [where t = 1 and m = Advance]) (simp_all add: close_move_def)
  then have "conn_reachable 1 (Some ()) False ?s5"
    by (rule conn_reachable.opens [where t = 0 and m = Advance]) (simp_all add: open_move_def)
  then have "conn_reachable 1 (Some ()) False ?s6"
    by (rule conn_reachable.opens [where t = 0 and m = Advance]) (simp_all add: open_move_def)
  then show ?thesis
    by (intro exI [of _ ?s6] conjI allI) (simp_all add: idle_world_def close_move_def)
qed

lemma serial_open_close_witness:
  "\<exists>s. conn_reachable 1 (Some ()) True s \<and> (\<forall>t. cw_pc s t = Idle) \<and> ws_opened (cw_state s) 1 \<and>
     (ws_opened (cw_state s) 1 \<longleftrightarrow> is_registered 1 (cw_state s))"
proof -
  let ?s0 = "idle_world ws_state_default :: unit conn_world"
  let ?s1 = "goto 0 Registering (set_opened 1 True) ?s0"
  let ?s2 = "goto 0 OpenHooks (ws_register 1 (Some ())) ?s1"
  let ?s3 = "goto 0 Idle id ?s2"
  have "conn_reachable 1 (Some ()) True ?s0"
    by (rule conn_reachable.start) (simp_all add: ws_state_default_def is_registered_def)
  then have "conn_reachable 1 (Some ()) True ?s1"
    by (rule conn_reachable.opens [where t = 0 and m = StartOpen]) (simp_all add: open_move_def idle_world_def ws_state_default_def)
  then have "conn_reachable 1 (Some ()) True ?s2"
    by (rule conn_reachable.opens [where t = 0 and m = Advance]) (simp_all add: open_move_def idle_world_def)
  then have reach: "conn_reachable 1 (Some ()) True ?s3"
    by (rule conn_reachable.opens [where t = 0 and m = Advance]) (simp_all add: open_move_def idle_world_def)
  moreover have idle: "\<forall>t. cw_pc ?s3 t = Idle" by (simp add: idle_world_def)
  ultimately show ?thesis
    using serial_open_close [OF reach idle] by (intro exI [of _ ?s3] conjI) simp_all
qed

end
