(* ===== verification/Websocket.thy ===== *)
theory Websocket
  imports Websocket_State
begin

text \<open>
  \<open>src/websocket/{message,handler,pipeline,context,gateway,connection}.rs\<close>: WebSocket gateways,
  their subscriptions and the dispatch of a message on a connection. Data are JSON values
  \<open>'v\<close>, writers are handles \<open>'o\<close>. A connection is its id and its request: the gateway it
  belongs to, which the code keeps in it, is the one that dispatches. The same holds for the
  server handle of a context. \<open>scope\<close> is \<open>ModuleRef::context_scope\<close>.
\<close>

section \<open>Messages and subscriptions\<close>

record 'v ws_message =
  wm_event :: str
  wm_data :: 'v

record 'm ws_connection =
  wc_id :: nat
  wc_request :: "'m boot_request"

record ('m, 'v) ws_context =
  wx_request :: "'m boot_request"
  wx_gateway_path :: str
  wx_event :: str
  wx_namespace :: "str option"
  wx_module_name :: "str option"
  wx_execution_context :: "('m, 'v) execution_context"

type_synonym 'v ws_reply = "'v ws_message option"
type_synonym ('w, 'm, 'v) ws_handler = "'m ws_connection \<Rightarrow> 'v ws_message \<Rightarrow> ('w, 'v ws_reply) step"
type_synonym ('w, 'm, 'v) ws_guard = "('m, 'v) ws_context \<Rightarrow> ('w, bool) step"
type_synonym ('w, 'v) ws_pipe = "'v ws_message \<Rightarrow> ('w, 'v ws_message) step"
type_synonym ('w, 'm, 'v) ws_interceptor = "('m, 'v) ws_context \<Rightarrow> ('w, 'v ws_reply) call_script"
type_synonym ('w, 'm, 'v) ws_filter = "('m, 'v) ws_context \<Rightarrow> boot_error \<Rightarrow> ('w, 'v ws_reply option) step"
type_synonym 'v ws_validator = "'v ws_message \<Rightarrow> validation_options \<Rightarrow> 'v ws_message result"

record ('w, 'm, 'v) ws_subscription =
  wsub_handler :: "('w, 'm, 'v) ws_handler"
  wsub_pipes :: "('w, 'm, ('w, 'v) ws_pipe) pipeline_component list"
  wsub_guards :: "('w, 'm, ('w, 'm, 'v) ws_guard) pipeline_component list"
  wsub_interceptors :: "('w, 'm, ('w, 'm, 'v) ws_interceptor) pipeline_component list"
  wsub_filters :: "('w, 'm, ('w, 'm, 'v) ws_filter) pipeline_component list"
  wsub_validators :: "'v ws_validator list"
  wsub_validation_enabled :: bool
  wsub_validation_disabled :: bool
  wsub_validation_options :: validation_options
  wsub_metadata :: "(str, 'v) btree"

definition subscription_new :: "('w, 'm, 'v) ws_handler \<Rightarrow> ('w, 'm, 'v) ws_subscription" where
  "subscription_new handler =
     \<lparr>wsub_handler = handler, wsub_pipes = [], wsub_guards = [], wsub_interceptors = [], wsub_filters = [],
      wsub_validators = [], wsub_validation_enabled = False, wsub_validation_disabled = False,
      wsub_validation_options = validation_options_default, wsub_metadata = []\<rparr>"

definition subscription_metadata_defaults ::
    "(str, 'v) btree \<Rightarrow> ('w, 'm, 'v) ws_subscription \<Rightarrow> ('w, 'm, 'v) ws_subscription" where
  "subscription_metadata_defaults metadata sub =
     sub\<lparr>wsub_metadata := fold (\<lambda>(k, v) m. if bt_get m k = None then bt_insert k v m else m) metadata (wsub_metadata sub)\<rparr>"

definition subscription_metadata_default_value ::
    "str \<Rightarrow> 'v \<Rightarrow> ('w, 'm, 'v) ws_subscription \<Rightarrow> ('w, 'm, 'v) ws_subscription" where
  "subscription_metadata_default_value k v sub =
     (if bt_get (wsub_metadata sub) k = None then sub\<lparr>wsub_metadata := bt_insert k v (wsub_metadata sub)\<rparr> else sub)"

definition subscription_with_validation :: "('w, 'm, 'v) ws_subscription \<Rightarrow> ('w, 'm, 'v) ws_subscription" where
  "subscription_with_validation sub = sub\<lparr>wsub_validation_enabled := True, wsub_validation_disabled := False\<rparr>"

definition subscription_with_validation_options where
  "subscription_with_validation_options opts sub =
     sub\<lparr>wsub_validation_enabled := True, wsub_validation_disabled := False,
         wsub_validation_options := validation_options_merge (wsub_validation_options sub) opts\<rparr>"

definition subscription_without_validation :: "('w, 'm, 'v) ws_subscription \<Rightarrow> ('w, 'm, 'v) ws_subscription" where
  "subscription_without_validation sub = sub\<lparr>wsub_validation_enabled := False, wsub_validation_disabled := True\<rparr>"

definition subscription_with_validation_prefix where
  "subscription_with_validation_prefix enabled opts sub =
     (if \<not> wsub_validation_disabled sub
      then sub\<lparr>wsub_validation_enabled := (enabled \<or> wsub_validation_enabled sub),
               wsub_validation_options := validation_options_merge opts (wsub_validation_options sub)\<rparr>
      else sub)"

text \<open>The number of a component stands for the type id of its type.\<close>

definition subscription_with_pipe where
  "subscription_with_pipe i pipe sub = sub\<lparr>wsub_pipes := wsub_pipes sub @ [source_new i pipe]\<rparr>"

definition subscription_with_guard where
  "subscription_with_guard i g sub = sub\<lparr>wsub_guards := wsub_guards sub @ [source_new i g]\<rparr>"

definition subscription_with_interceptor where
  "subscription_with_interceptor i x sub = sub\<lparr>wsub_interceptors := wsub_interceptors sub @ [source_new i x]\<rparr>"

definition subscription_with_filter where
  "subscription_with_filter i f sub = sub\<lparr>wsub_filters := wsub_filters sub @ [source_new i f]\<rparr>"

definition subscription_with_pipeline_overrides where
  "subscription_with_pipeline_overrides pipes guards interceptors filters sub =
     sub\<lparr>wsub_pipes := apply_overrides pipes (wsub_pipes sub), wsub_guards := apply_overrides guards (wsub_guards sub),
         wsub_interceptors := apply_overrides interceptors (wsub_interceptors sub),
         wsub_filters := apply_overrides filters (wsub_filters sub)\<rparr>"

section \<open>Gateways\<close>

record ('w, 'm, 'v) ws_gateway =
  wg_path :: str
  wg_namespace :: "str option"
  wg_handlers :: "(str, ('w, 'm, 'v) ws_subscription) btree"
  wg_connection_hooks :: "('m ws_connection \<Rightarrow> ('w, unit) step) list"
  wg_disconnect_hooks :: "('m ws_connection \<Rightarrow> ('w, unit) step) list"
  wg_pipes :: "('w, 'm, ('w, 'v) ws_pipe) pipeline_component list"
  wg_guards :: "('w, 'm, ('w, 'm, 'v) ws_guard) pipeline_component list"
  wg_interceptors :: "('w, 'm, ('w, 'm, 'v) ws_interceptor) pipeline_component list"
  wg_filters :: "('w, 'm, ('w, 'm, 'v) ws_filter) pipeline_component list"
  wg_metadata :: "(str, 'v) btree"
  wg_module_name :: "str option"
  wg_module_ref :: "'m option"

definition gateway_new :: "str \<Rightarrow> ('w, 'm, 'v) ws_gateway result" where
  "gateway_new path =
     rbind (validate_route_path path) (\<lambda>_. Inr
       \<lparr>wg_path = path, wg_namespace = None, wg_handlers = [], wg_connection_hooks = [], wg_disconnect_hooks = [],
        wg_pipes = [], wg_guards = [], wg_interceptors = [], wg_filters = [], wg_metadata = [],
        wg_module_name = None, wg_module_ref = None\<rparr>)"

definition gateway_path_shape :: "('w, 'm, 'v) ws_gateway \<Rightarrow> str" where
  "gateway_path_shape g = route_shape_key (wg_path g)"

definition gateway_with_namespace :: "str \<Rightarrow> ('w, 'm, 'v) ws_gateway \<Rightarrow> ('w, 'm, 'v) ws_gateway result" where
  "gateway_with_namespace namespace g = rmap (\<lambda>n. g\<lparr>wg_namespace := Some n\<rparr>) (normalize_namespace namespace)"

definition gateway_with_metadata_value :: "str \<Rightarrow> 'v \<Rightarrow> ('w, 'm, 'v) ws_gateway \<Rightarrow> ('w, 'm, 'v) ws_gateway" where
  "gateway_with_metadata_value k v g =
     g\<lparr>wg_metadata := bt_insert k v (wg_metadata g),
       wg_handlers := map (\<lambda>(event, sub). (event, subscription_metadata_default_value k v sub)) (wg_handlers g)\<rparr>"

definition gateway_subscribe ::
    "str \<Rightarrow> ('w, 'm, 'v) ws_subscription \<Rightarrow> ('w, 'm, 'v) ws_gateway \<Rightarrow> ('w, 'm, 'v) ws_gateway result" where
  "gateway_subscribe event sub g =
     (if trim event = [] then Inl (BadRequest ''websocket event cannot be empty'')
      else if bt_get (wg_handlers g) event \<noteq> None then Inl (DuplicateRoute (wg_path g @ '' '' @ event))
      else Inr (g\<lparr>wg_handlers := bt_insert event (subscription_metadata_defaults (wg_metadata g) sub) (wg_handlers g)\<rparr>))"

definition ws_default_intercept ::
    "(('m, 'v) ws_context \<Rightarrow> ('w, unit) step) \<Rightarrow> (('m, 'v) ws_context \<Rightarrow> 'v ws_reply \<Rightarrow> ('w, 'v ws_reply) step)
       \<Rightarrow> ('w, 'm, 'v) ws_interceptor" where
  "ws_default_intercept = hooked_intercept"

definition ws_execution_guard :: "('w, 'm, 'v) guard \<Rightarrow> ('w, 'm, 'v) ws_guard" where
  "ws_execution_guard = adapt_guard wx_execution_context"

definition ws_execution_interceptor :: "('w, 'm, 'v) execution_interceptor \<Rightarrow> ('w, 'm, 'v) ws_interceptor" where
  "ws_execution_interceptor inner =
     ws_default_intercept (\<lambda>c. ei_before inner (wx_execution_context c))
       (\<lambda>c reply. step_bind (ei_after inner (wx_execution_context c)) (\<lambda>_. step_result (Inr reply)))"

definition gateway_with_execution_pipeline_prefix where
  "gateway_with_execution_pipeline_prefix guards interceptors g =
     g\<lparr>wg_guards := map (\<lambda>(i, x). source_new i (ws_execution_guard x)) guards @ wg_guards g,
       wg_interceptors :=
         map (\<lambda>(i, x). source_new i (ws_execution_interceptor x)) interceptors @ wg_interceptors g\<rparr>"

definition gateway_with_pipe where
  "gateway_with_pipe i pipe g = g\<lparr>wg_pipes := wg_pipes g @ [source_new i pipe]\<rparr>"

definition gateway_with_guard where
  "gateway_with_guard i x g = g\<lparr>wg_guards := wg_guards g @ [source_new i x]\<rparr>"

definition gateway_with_execution_guard where
  "gateway_with_execution_guard i x g = g\<lparr>wg_guards := wg_guards g @ [source_new i (ws_execution_guard x)]\<rparr>"

definition gateway_with_interceptor where
  "gateway_with_interceptor i x g = g\<lparr>wg_interceptors := wg_interceptors g @ [source_new i x]\<rparr>"

definition gateway_with_execution_interceptor where
  "gateway_with_execution_interceptor i x g =
     g\<lparr>wg_interceptors := wg_interceptors g @ [source_new i (ws_execution_interceptor x)]\<rparr>"

definition gateway_with_filter where
  "gateway_with_filter i f g = g\<lparr>wg_filters := wg_filters g @ [source_new i f]\<rparr>"

definition gateway_with_pipeline_overrides where
  "gateway_with_pipeline_overrides pipes guards interceptors filters g =
     g\<lparr>wg_pipes := apply_overrides pipes (wg_pipes g), wg_guards := apply_overrides guards (wg_guards g),
       wg_interceptors := apply_overrides interceptors (wg_interceptors g),
       wg_filters := apply_overrides filters (wg_filters g),
       wg_handlers := map (\<lambda>(event, sub).
         (event, subscription_with_pipeline_overrides pipes guards interceptors filters sub)) (wg_handlers g)\<rparr>"

record ('w, 'm, 'v) ws_components =
  wsc_pipes :: "('w, 'm, ('w, 'v) ws_pipe) pipeline_component list"
  wsc_guards :: "('w, 'm, ('w, 'm, 'v) ws_guard) pipeline_component list"
  wsc_interceptors :: "('w, 'm, ('w, 'm, 'v) ws_interceptor) pipeline_component list"
  wsc_filters :: "('w, 'm, ('w, 'm, 'v) ws_filter) pipeline_component list"

definition gateway_with_provider_enhancer_prefix ::
    "('w, 'm, 'v) ws_components \<Rightarrow> ('w, 'm, 'v) ws_gateway \<Rightarrow> ('w, 'm, 'v) ws_gateway" where
  "gateway_with_provider_enhancer_prefix c g =
     g\<lparr>wg_pipes := wsc_pipes c @ wg_pipes g, wg_guards := wsc_guards c @ wg_guards g,
       wg_interceptors := wsc_interceptors c @ wg_interceptors g, wg_filters := wsc_filters c @ wg_filters g\<rparr>"

definition gateway_with_guard_prefix where
  "gateway_with_guard_prefix guards g = g\<lparr>wg_guards := guards @ wg_guards g\<rparr>"

definition gateway_with_interceptor_prefix where
  "gateway_with_interceptor_prefix interceptors g = g\<lparr>wg_interceptors := interceptors @ wg_interceptors g\<rparr>"

definition gateway_with_pipe_prefix where
  "gateway_with_pipe_prefix pipes g = g\<lparr>wg_pipes := pipes @ wg_pipes g\<rparr>"

definition gateway_with_filter_prefix where
  "gateway_with_filter_prefix filters g = g\<lparr>wg_filters := filters @ wg_filters g\<rparr>"

definition gateway_with_validation_prefix where
  "gateway_with_validation_prefix enabled opts g =
     g\<lparr>wg_handlers := map (\<lambda>(event, sub). (event, subscription_with_validation_prefix enabled opts sub)) (wg_handlers g)\<rparr>"

definition gateway_with_path_prefix :: "str \<Rightarrow> ('w, 'm, 'v) ws_gateway \<Rightarrow> ('w, 'm, 'v) ws_gateway result" where
  "gateway_with_path_prefix pre g = rmap (\<lambda>p. g\<lparr>wg_path := p\<rparr>) (join_paths pre (wg_path g))"

definition gateway_with_default_module_ref :: "'m \<Rightarrow> ('w, 'm, 'v) ws_gateway \<Rightarrow> ('w, 'm, 'v) ws_gateway" where
  "gateway_with_default_module_ref m g = (if wg_module_ref g = None then g\<lparr>wg_module_ref := Some m\<rparr> else g)"

definition gateway_for :: "('w, 'm, 'v) ws_gateway list \<Rightarrow> str \<Rightarrow> ('w, 'm, 'v) ws_gateway option" where
  "gateway_for gateways path = List.find (\<lambda>g. match_path_shape (wg_path g) path) gateways"

definition gateway_connect ::
    "(str \<Rightarrow> str + str) \<Rightarrow> ('w, 'm, 'v) ws_gateway \<Rightarrow> 'm boot_request \<Rightarrow> 'o ws_state
       \<Rightarrow> 'm ws_connection result \<times> 'o ws_state" where
  "gateway_connect dec g request s =
     (if rq_method request \<noteq> M_Get then (Inl (MethodNotAllowed (request_line request)), s)
      else
        (case match_path_params dec (wg_path g) (rq_path request) of
           Inl e \<Rightarrow> (Inl e, s)
         | Inr None \<Rightarrow> (Inl (NotFound (request_line request)), s)
         | Inr (Some params) \<Rightarrow>
             (let (i, s1) = next_connection_id s in
              (Inr \<lparr>wc_id = i, wc_request = with_path_params params request\<rparr>, s1))))"

section \<open>Dispatch\<close>

definition ws_context_new ::
    "('w, 'm, 'v) ws_gateway \<Rightarrow> 'm boot_request \<Rightarrow> str \<Rightarrow> ('m, 'v) ws_context" where
  "ws_context_new g request event =
     (let metadata = (case bt_get (wg_handlers g) event of Some sub \<Rightarrow> wsub_metadata sub | None \<Rightarrow> wg_metadata g) in
      \<lparr>wx_request = request, wx_gateway_path = wg_path g, wx_event = event, wx_namespace = wg_namespace g,
       wx_module_name = wg_module_name g,
       wx_execution_context =
         execution_context_websocket request (wg_path g) event (wg_namespace g) (wg_module_name g) metadata\<rparr>)"

definition ws_scoped_connection ::
    "('m \<Rightarrow> nat \<Rightarrow> 'm) \<Rightarrow> ('w, 'm, 'v) ws_gateway \<Rightarrow> nat \<Rightarrow> 'm ws_connection \<Rightarrow> 'm ws_connection" where
  "ws_scoped_connection scope g cid c =
     (case wg_module_ref g of
        Some m \<Rightarrow> c\<lparr>wc_request := with_module_ref (scope m cid) (wc_request c)\<rparr>
      | None \<Rightarrow> c)"

definition ws_refusal :: "('w, 'm, 'v) ws_gateway \<Rightarrow> str \<Rightarrow> boot_error" where
  "ws_refusal g event = Forbidden (''websocket event '' @ wg_path g @ '' '' @ event)"

definition ws_terminal ::
    "('w, 'm, 'v) ws_gateway \<Rightarrow> ('w, 'm, 'v) ws_subscription \<Rightarrow> nat \<Rightarrow> 'm ws_connection \<Rightarrow> 'v ws_message
       \<Rightarrow> (unit, 'w, 'v ws_reply) xstep" where
  "ws_terminal g sub cid c message s =
     (case step_bind (message_pipes (wg_pipes g) cid message) (message_pipes (wsub_pipes sub) cid) (snd s) of
        (Inl e, w1) \<Rightarrow> (Inl e, (), w1)
      | (Inr m1, w1) \<Rightarrow>
          (case (if wsub_validation_enabled sub
                 then message_validators (wsub_validators sub) (wsub_validation_options sub) m1 else Inr m1) of
             Inl e \<Rightarrow> (Inl e, (), w1)
           | Inr m2 \<Rightarrow> (case wsub_handler sub c m2 w1 of (r, w2) \<Rightarrow> (r, (), w2))))"

fun ws_interceptor_chain ::
    "('c \<Rightarrow> ('w, 'r) call_script) list \<Rightarrow> 'c \<Rightarrow> ('x, 'w, 'r) xstep \<Rightarrow> ('x, 'w, 'r) xstep" where
  "ws_interceptor_chain [] ctx terminal = terminal"
| "ws_interceptor_chain (i # is) ctx terminal = run_calls (i ctx) (ws_interceptor_chain is ctx terminal)"

text \<open>A call of \<open>dispatch\<close>: the id of its request context, the connection and the message.\<close>

type_synonym ('m, 'v) ws_call = "nat \<times> 'm ws_connection \<times> 'v ws_message"

definition ws_gate ::
    "('m \<Rightarrow> nat \<Rightarrow> 'm) \<Rightarrow> ('w, 'm, 'v) ws_gateway \<Rightarrow> ('m, 'v) ws_call \<Rightarrow> ('w, unit) step" where
  "ws_gate scope g i w =
     (let (cid, c0, message) = i; c = ws_scoped_connection scope g cid c0;
          ctx = ws_context_new g (wc_request c) (wm_event message); event = wm_event message in
      case bt_get (wg_handlers g) event of
        None \<Rightarrow> (Inl (NotFound (''websocket event '' @ wg_path g @ '' '' @ event)), w)
      | Some sub \<Rightarrow>
          step_bind (message_guards (ws_refusal g event) (wg_guards g) cid ctx)
            (\<lambda>_. message_guards (ws_refusal g event) (wsub_guards sub) cid ctx) w)"

definition ws_behind ::
    "('m \<Rightarrow> nat \<Rightarrow> 'm) \<Rightarrow> ('w, 'm, 'v) ws_gateway \<Rightarrow> ('m, 'v) ws_call \<Rightarrow> ('w, 'v ws_reply) step" where
  "ws_behind scope g i w =
     (let (cid, c0, message) = i; c = ws_scoped_connection scope g cid c0;
          ctx = ws_context_new g (wc_request c) (wm_event message); event = wm_event message in
      case bt_get (wg_handlers g) event of
        None \<Rightarrow> (Inl (NotFound (''websocket event '' @ wg_path g @ '' '' @ event)), w)
      | Some sub \<Rightarrow>
          (case resolve_all (wg_interceptors g @ wsub_interceptors sub) cid w of
             (Inl e, w1) \<Rightarrow> (Inl e, w1)
           | (Inr interceptors, w1) \<Rightarrow>
               (case ws_interceptor_chain interceptors ctx (ws_terminal g sub cid c message) ((), w1) of
                  (r, _, w2) \<Rightarrow> (r, w2))))"

text \<open>The subscription is looked up once; both halves of the pipeline use it.\<close>

definition ws_dispatch_pipeline ::
    "('m \<Rightarrow> nat \<Rightarrow> 'm) \<Rightarrow> ('w, 'm, 'v) ws_gateway \<Rightarrow> ('m, 'v) ws_call \<Rightarrow> ('w, 'v ws_reply) step" where
  "ws_dispatch_pipeline scope g i = step_bind (ws_gate scope g i) (\<lambda>_. ws_behind scope g i)"

definition ws_handle_error ::
    "('m \<Rightarrow> nat \<Rightarrow> 'm) \<Rightarrow> ('w, 'm, 'v) ws_gateway \<Rightarrow> ('m, 'v) ws_call \<Rightarrow> boot_error \<Rightarrow> ('w, 'v ws_reply) step" where
  "ws_handle_error scope g i e w =
     (let (cid, c0, message) = i; c = ws_scoped_connection scope g cid c0;
          ctx = ws_context_new g (wc_request c) (wm_event message);
          own = (case bt_get (wg_handlers g) (wm_event message) of Some sub \<Rightarrow> rev (wsub_filters sub) | None \<Rightarrow> []) in
      message_filters (own @ rev (wg_filters g)) cid ctx e w)"

definition ws_dispatch ::
    "('m \<Rightarrow> nat \<Rightarrow> 'm) \<Rightarrow> ('w, 'm, 'v) ws_gateway \<Rightarrow> ('m, 'v) ws_call \<Rightarrow> ('w, 'v ws_reply) step" where
  "ws_dispatch scope g i w =
     (case ws_dispatch_pipeline scope g i w of
        (Inr reply, w') \<Rightarrow> (Inr reply, w')
      | (Inl e, w') \<Rightarrow> ws_handle_error scope g i e w')"

interpretation websocket: gated_dispatch
  "ws_gate scope" "ws_behind scope" "ws_handle_error scope" "ws_dispatch scope"
  for scope :: "'m \<Rightarrow> nat \<Rightarrow> 'm"
  by unfold_locales (auto simp: ws_dispatch_def ws_dispatch_pipeline_def step_bind_def split: prod.split sum.split)

section \<open>Broadcasts\<close>

text \<open>Writers act on the whole world; the targets are those at the time of the call.\<close>

definition gateway_broadcast ::
    "('o \<Rightarrow> 'a \<Rightarrow> (('o, 'w) gateway_world, unit) step) \<Rightarrow> 'a \<Rightarrow> (('o, 'w) gateway_world, nat) step" where
  "gateway_broadcast send message w = send_to_outbounds send (ws_broadcast_targets None None (fst w)) message w"

definition gateway_broadcast_to_room ::
    "('o \<Rightarrow> 'a \<Rightarrow> (('o, 'w) gateway_world, unit) step) \<Rightarrow> str \<Rightarrow> 'a \<Rightarrow> (('o, 'w) gateway_world, nat) step" where
  "gateway_broadcast_to_room send room message =
     step_bind (step_result (normalize_room room)) (\<lambda>r w.
       send_to_outbounds send (ws_broadcast_targets (Some r) None (fst w)) message w)"

definition connection_broadcast ::
    "('o \<Rightarrow> 'a \<Rightarrow> (('o, 'w) gateway_world, unit) step) \<Rightarrow> 'm ws_connection \<Rightarrow> 'a \<Rightarrow> (('o, 'w) gateway_world, nat) step" where
  "connection_broadcast send c message w =
     send_to_outbounds send (ws_broadcast_targets None (Some (wc_id c)) (fst w)) message w"

definition connection_broadcast_to_room ::
    "('o \<Rightarrow> 'a \<Rightarrow> (('o, 'w) gateway_world, unit) step) \<Rightarrow> 'm ws_connection \<Rightarrow> str \<Rightarrow> 'a
       \<Rightarrow> (('o, 'w) gateway_world, nat) step" where
  "connection_broadcast_to_room send c room message =
     step_bind (step_result (normalize_room room)) (\<lambda>r w.
       send_to_outbounds send (ws_broadcast_targets (Some r) (Some (wc_id c)) (fst w)) message w)"

definition emit_to_connection ::
    "('o \<Rightarrow> 'a \<Rightarrow> (('o, 'w) gateway_world, unit) step) \<Rightarrow> nat \<Rightarrow> 'a \<Rightarrow> (('o, 'w) gateway_world, bool) step" where
  "emit_to_connection send i message w =
     (let outs = (case ws_outbound_for_connection i (fst w) of Some out \<Rightarrow> [out] | None \<Rightarrow> []) in
      step_bind (send_to_outbounds send outs message) (\<lambda>n. step_result (Inr (n > 0))) w)"

lemma send_to_outbounds_count: "send_to_outbounds send outs m w = (Inr n, w') \<Longrightarrow> n = length outs"
  by (induction outs arbitrary: w n w') (auto split: prod.splits sum.splits)

text \<open>A message from a connection does not come back to its own writer.\<close>

lemma emit_only_open:
  "ws_outbound_for_connection i (fst w) = None \<Longrightarrow> emit_to_connection send i message w = (Inr False, w)"
  by (simp add: emit_to_connection_def step_bind_def step_result_def)

section \<open>The gate and the filters\<close>

lemma bt_get_map: "bt_get (map (\<lambda>(k, v). (k, f k v)) m) x = map_option (f x) (bt_get m x)"
  by (induction m) (auto simp: bt_get_def)

definition sub_with_behind ::
    "('w, 'm, 'v) ws_subscription \<Rightarrow> ('w, 'm, 'v) ws_subscription \<Rightarrow> ('w, 'm, 'v) ws_subscription" where
  "sub_with_behind other sub =
     sub\<lparr>wsub_handler := wsub_handler other, wsub_pipes := wsub_pipes other,
         wsub_interceptors := wsub_interceptors other, wsub_validators := wsub_validators other,
         wsub_validation_enabled := wsub_validation_enabled other,
         wsub_validation_options := wsub_validation_options other\<rparr>"

definition gateway_with_behind ::
    "('w, 'm, 'v) ws_gateway \<Rightarrow> (str \<Rightarrow> ('w, 'm, 'v) ws_subscription) \<Rightarrow> ('w, 'm, 'v) ws_gateway \<Rightarrow> ('w, 'm, 'v) ws_gateway" where
  "gateway_with_behind other subs g =
     g\<lparr>wg_pipes := wg_pipes other, wg_interceptors := wg_interceptors other,
       wg_handlers := map (\<lambda>(event, sub). (event, sub_with_behind (subs event) sub)) (wg_handlers g)\<rparr>"

lemma with_behind_kept [simp]:
  "wg_path (gateway_with_behind other subs g) = wg_path g"
  "wg_guards (gateway_with_behind other subs g) = wg_guards g"
  "wg_filters (gateway_with_behind other subs g) = wg_filters g"
  "wg_module_ref (gateway_with_behind other subs g) = wg_module_ref g"
  "bt_get (wg_handlers (gateway_with_behind other subs g)) event = map_option (sub_with_behind (subs event)) (bt_get (wg_handlers g) event)"
  "wsub_guards (sub_with_behind o1 sub) = wsub_guards sub"
  "wsub_filters (sub_with_behind o1 sub) = wsub_filters sub"
  "wsub_metadata (sub_with_behind o1 sub) = wsub_metadata sub"
  by (simp_all add: gateway_with_behind_def bt_get_map) (simp_all add: sub_with_behind_def)

lemma context_with_behind:
  "ws_context_new (gateway_with_behind other subs g) = ws_context_new g"
  "ws_scoped_connection scope (gateway_with_behind other subs g) = ws_scoped_connection scope g"
  "ws_refusal (gateway_with_behind other subs g) = ws_refusal g"
  by (auto simp: fun_eq_iff ws_context_new_def ws_scoped_connection_def ws_refusal_def split: option.split)
    (simp_all add: gateway_with_behind_def)

lemma ws_with_behind_same:
  "ws_gate scope (gateway_with_behind other subs g) i w = ws_gate scope g i w"
  "ws_handle_error scope (gateway_with_behind other subs g) i e w = ws_handle_error scope g i e w"
  by (cases i, cases "bt_get (wg_handlers g) (wm_event (snd (snd i)))";
      simp add: ws_gate_def ws_handle_error_def context_with_behind)+

text \<open>
  The guards of a gateway and of the subscription gate every message of a connection: if
  the event has no subscription, or a guard refuses or fails, the outcome is the same whatever
  the pipes, interceptors, validators and handlers are; otherwise it is the reply of what is
  behind them, or what the filters make of its error. Filters of the subscription are asked
  before those of the gateway, which see the error exactly if all of the subscription's
  declined.
\<close>
theorem ws_guards_gate:
  "(case ws_gate scope g i w of
      (Inl e, w1) \<Rightarrow> ws_dispatch scope (gateway_with_behind other subs g) i w = ws_handle_error scope g i e w1
    | (Inr _, w1) \<Rightarrow>
        ws_dispatch scope g i w =
          (case ws_behind scope g i w1 of
             (Inl e, w2) \<Rightarrow> ws_handle_error scope g i e w2
           | (Inr reply, w2) \<Rightarrow> (Inr reply, w2))) \<and>
   (case i of (cid, c, message) \<Rightarrow>
      (case bt_get (wg_handlers g) (wm_event message) of
         None \<Rightarrow> True
       | Some sub \<Rightarrow>
           (\<forall>e u.
             let ctx = ws_context_new g (wc_request (ws_scoped_connection scope g cid c)) (wm_event message);
                 own = rev (wsub_filters sub); outer = rev (wg_filters g) in
             if \<exists>v. message_all_decline own cid ctx e u v
             then \<exists>v. message_all_decline own cid ctx e u v \<and> ws_handle_error scope g i e u = message_filters outer cid ctx e v
             else ws_handle_error scope g i e u = message_filters own cid ctx e u)))"
proof (rule conjI, goal_cases)
  case 2
  show ?case
    by (auto simp: ws_handle_error_def Let_def message_filters_declined message_filters_settled split: prod.split option.split)
qed (auto simp: websocket.dispatch_parts ws_with_behind_same split: prod.split sum.split)

end
