(* ===== verification/Json_Data.thy ===== *)
theory Json_Data
  imports Transport Websocket
begin

text \<open>
  JSON values as \<open>serde_json::Value\<close>, with object keys in sorted order, and the parts of the
  framework that look into them: the fields of request bodies and of messages
  (\<open>src/http/request_body.rs\<close>, \<open>src/transport/mod.rs\<close>, \<open>src/websocket/message.rs\<close>), the validation
  of request data (\<open>src/validation.rs\<close>) and the shaping of responses (\<open>src/serialization.rs\<close>). The
  encoders and decoders of serde, with the text of their errors, are parameters.
\<close>

section \<open>Values\<close>

text \<open>A number is the decimal text that its \<open>to_string\<close> gives.\<close>

datatype json =
  JNull | JBool bool | JNumber str | JString str | JArray "json list" | JObject "(str \<times> json) list"

definition json_get :: "(str \<times> json) list \<Rightarrow> str \<Rightarrow> json option" where
  "json_get fds name = opt_filter (\<lambda>v. v \<noteq> JNull) (map_option snd (List.find (\<lambda>(k, _). k = name) fds))"

definition json_to_text :: "(json \<Rightarrow> str + str) \<Rightarrow> json \<Rightarrow> str result" where
  "json_to_text enc v =
     (case v of
        JString s \<Rightarrow> Inr s
      | JBool b \<Rightarrow> Inr (if b then ''true'' else ''false'')
      | JNumber n \<Rightarrow> Inr n
      | JNull \<Rightarrow> Inr ''null''
      | _ \<Rightarrow> (case enc v of Inl e \<Rightarrow> Inl (BadRequest e) | Inr s \<Rightarrow> Inr s))"

section \<open>Fields of bodies and messages\<close>

definition decode_body :: "(str \<Rightarrow> str + 'a) \<Rightarrow> 'm boot_request \<Rightarrow> 'a result" where
  "decode_body dec q = (case dec (rq_body q) of Inl e \<Rightarrow> Inl (BadRequest e) | Inr v \<Rightarrow> Inr v)"

definition body_field :: "(str \<Rightarrow> str + json) \<Rightarrow> 'm boot_request \<Rightarrow> str \<Rightarrow> json option result" where
  "body_field dec q name =
     rbind (decode_body dec q) (\<lambda>body. case body of
       JObject fds \<Rightarrow> Inr (json_get fds name)
     | _ \<Rightarrow> Inl (BadRequest ''expected JSON object body''))"

text \<open>A typed field: \<open>label\<close> names its kind, \<open>from\<close> is the decoder of the type.\<close>

definition deserialize_field :: "str \<Rightarrow> (json \<Rightarrow> str + 'a) \<Rightarrow> str \<Rightarrow> json \<Rightarrow> 'a result" where
  "deserialize_field label from name v =
     (case from v of
        Inl e \<Rightarrow> Inl (BadRequest (''invalid '' @ label @ '' '' @ name @ '': '' @ e))
      | Inr a \<Rightarrow> Inr a)"

definition required_field :: "str \<Rightarrow> str \<Rightarrow> (json \<Rightarrow> 'a result) \<Rightarrow> json option result \<Rightarrow> 'a result" where
  "required_field label name conv field =
     rbind field (\<lambda>v. case v of
       None \<Rightarrow> Inl (BadRequest (''missing '' @ label @ '': '' @ name))
     | Some v \<Rightarrow> conv v)"

definition optional_field :: "(json \<Rightarrow> 'a result) \<Rightarrow> json option result \<Rightarrow> 'a option result" where
  "optional_field conv field =
     rbind field (\<lambda>v. case v of None \<Rightarrow> Inr None | Some v \<Rightarrow> rmap Some (conv v))"

definition body_field_as where
  "body_field_as dec from q name =
     required_field ''body field'' name (deserialize_field ''body field'' from name) (body_field dec q name)"

definition optional_body_field_as where
  "optional_body_field_as dec from q name =
     optional_field (deserialize_field ''body field'' from name) (body_field dec q name)"

definition body_field_string where
  "body_field_string dec enc q name =
     required_field ''body field'' name (json_to_text enc) (body_field dec q name)"

definition optional_body_field_string where
  "optional_body_field_string dec enc q name = optional_field (json_to_text enc) (body_field dec q name)"

definition transport_data_field :: "json transport_message \<Rightarrow> str \<Rightarrow> json option result" where
  "transport_data_field m name =
     (case tm_data m of
        JObject fds \<Rightarrow> Inr (json_get fds name)
      | _ \<Rightarrow> Inl (BadRequest ''expected JSON object transport data''))"

definition transport_field_as where
  "transport_field_as from m name =
     required_field ''transport data field'' name (deserialize_field ''transport data field'' from name)
       (transport_data_field m name)"

definition optional_transport_field_as where
  "optional_transport_field_as from m name =
     optional_field (deserialize_field ''transport data field'' from name) (transport_data_field m name)"

definition transport_field_string where
  "transport_field_string enc m name =
     required_field ''transport data field'' name (json_to_text enc) (transport_data_field m name)"

definition optional_transport_field_string where
  "optional_transport_field_string enc m name = optional_field (json_to_text enc) (transport_data_field m name)"

definition ws_data_field :: "json ws_message \<Rightarrow> str \<Rightarrow> json option result" where
  "ws_data_field m name =
     (case wm_data m of
        JObject fds \<Rightarrow> Inr (json_get fds name)
      | _ \<Rightarrow> Inl (BadRequest ''expected JSON object websocket data''))"

definition ws_field_as where
  "ws_field_as from m name =
     required_field ''websocket data field'' name (deserialize_field ''websocket data field'' from name)
       (ws_data_field m name)"

definition optional_ws_field_as where
  "optional_ws_field_as from m name =
     optional_field (deserialize_field ''websocket data field'' from name) (ws_data_field m name)"

definition ws_field_string where
  "ws_field_string enc m name =
     required_field ''websocket data field'' name (json_to_text enc) (ws_data_field m name)"

definition optional_ws_field_string where
  "optional_ws_field_string enc m name = optional_field (json_to_text enc) (ws_data_field m name)"

section \<open>Validation\<close>

text \<open>
  A data transfer type with its serde instances: \<open>from_pairs\<close> is the composition of the URL
  encoder and decoder on a table of strings, \<open>from_query\<close> the decoder on a query string. The
  allowed fields are those of \<open>ValidationSchema\<close>.
\<close>

record 'a dto =
  dto_name :: str
  dto_from_slice :: "str \<Rightarrow> str + 'a"
  dto_from_json :: "json \<Rightarrow> str + 'a"
  dto_to_json :: "'a \<Rightarrow> str + json"
  dto_from_pairs :: "(str, str) btree \<Rightarrow> str + 'a"
  dto_from_query :: "str \<Rightarrow> str + 'a"
  dto_to_pairs :: "'a \<Rightarrow> str + (str, str) btree"
  dto_validate :: "'a \<Rightarrow> unit result"
  dto_fields :: "str list"

definition checks_unknown_fields :: "validation_options \<Rightarrow> bool" where
  "checks_unknown_fields opts = (vo_whitelist opts \<or> vo_forbid_non_whitelisted opts)"

definition validation_bad_request :: "boot_error \<Rightarrow> str \<Rightarrow> boot_error" where
  "validation_bad_request e type_name =
     (case e of BadRequest m \<Rightarrow> BadRequest (''validation failed for '' @ type_name @ '': '' @ m) | _ \<Rightarrow> e)"

definition validate_value :: "'a dto \<Rightarrow> 'a \<Rightarrow> 'a result" where
  "validate_value d v =
     (case dto_validate d v of Inl e \<Rightarrow> Inl (validation_bad_request e (dto_name d)) | Inr _ \<Rightarrow> Inr v)"

definition plural_label :: "str \<Rightarrow> str" where
  "plural_label label =
     (if label = ''body property'' then ''body properties''
      else if label = ''message property'' then ''message properties''
      else if label = ''path parameter'' then ''path parameters''
      else if label = ''query parameter'' then ''query parameters''
      else label)"

definition handle_unknown_fields :: "str \<Rightarrow> str list \<Rightarrow> validation_options \<Rightarrow> unit result" where
  "handle_unknown_fields label unknown opts =
     (if unknown = [] \<or> \<not> vo_forbid_non_whitelisted opts then Inr ()
      else Inl (BadRequest (''non-whitelisted '' @ plural_label label @ '': '' @ join_with '', '' unknown)))"

definition apply_json_field_options :: "str list \<Rightarrow> json \<Rightarrow> validation_options \<Rightarrow> str \<Rightarrow> json result" where
  "apply_json_field_options allowed v opts label =
     (if \<not> checks_unknown_fields opts then Inr v
      else
        (case v of
           JObject fds \<Rightarrow>
             (let unknown = filter (\<lambda>k. k \<notin> set allowed) (map fst fds) in
              rbind (handle_unknown_fields label unknown opts) (\<lambda>_.
                Inr (if vo_whitelist opts then JObject (filter (\<lambda>(k, _). k \<in> set allowed) fds) else v)))
         | _ \<Rightarrow> Inr v))"

definition apply_map_field_options ::
    "str list \<Rightarrow> (str, str) btree \<Rightarrow> validation_options \<Rightarrow> str \<Rightarrow> (str, str) btree result" where
  "apply_map_field_options allowed m opts label =
     (if \<not> checks_unknown_fields opts then Inr m
      else
        rbind (handle_unknown_fields label (filter (\<lambda>k. k \<notin> set allowed) (map fst m)) opts) (\<lambda>_.
          Inr (if vo_whitelist opts then filter (\<lambda>(k, _). k \<in> set allowed) m else m)))"

definition apply_pair_field_options ::
    "str list \<Rightarrow> (str \<times> str) list \<Rightarrow> (str, str) btree \<Rightarrow> validation_options \<Rightarrow> str \<Rightarrow> (str, str) btree result" where
  "apply_pair_field_options allowed pairs m opts label =
     (if \<not> checks_unknown_fields opts then Inr m
      else
        rbind (handle_unknown_fields label (bs_of_list (filter (\<lambda>k. k \<notin> set allowed) (map fst pairs))) opts) (\<lambda>_.
          Inr (if vo_whitelist opts then filter (\<lambda>(k, _). k \<in> set allowed) m else m)))"

definition or_bad_request :: "str + 'a \<Rightarrow> 'a result" where
  "or_bad_request r = (case r of Inl e \<Rightarrow> Inl (BadRequest e) | Inr a \<Rightarrow> Inr a)"

definition or_internal :: "str + 'a \<Rightarrow> 'a result" where
  "or_internal r = (case r of Inl e \<Rightarrow> Inl (Internal e) | Inr a \<Rightarrow> Inr a)"

definition validate_json_value_with_options :: "'a dto \<Rightarrow> json \<Rightarrow> validation_options \<Rightarrow> str \<Rightarrow> json result" where
  "validate_json_value_with_options d v opts label =
     rbind (apply_json_field_options (dto_fields d) v opts label) (\<lambda>v.
     rbind (or_bad_request (dto_from_json d v)) (\<lambda>a.
     rbind (validate_value d a) (\<lambda>typed.
       if vo_transform opts then or_internal (dto_to_json d typed) else Inr v)))"

definition rewrite_request_body :: "str \<Rightarrow> 'm boot_request \<Rightarrow> 'm boot_request" where
  "rewrite_request_body body q =
     (if request_header q ''content-length'' \<noteq> None
      then q\<lparr>rq_body := body,
             rq_headers := bt_insert ''content-length'' (show_nat (length body)) (rq_headers q),
             rq_appended_headers := filter (\<lambda>(n, _). \<not> eq_ignore_ascii_case n ''content-length'') (rq_appended_headers q)\<rparr>
      else q\<lparr>rq_body := body\<rparr>)"

definition body_validator :: "'a dto \<Rightarrow> 'm request_validator" where
  "body_validator d q _ =
     rbind (require_json_content_type q) (\<lambda>_.
     rbind (decode_body (dto_from_slice d) q) (\<lambda>a. rmap (\<lambda>_. q) (validate_value d a)))"

definition body_validator_with_options ::
    "(str \<Rightarrow> str + json) \<Rightarrow> (json \<Rightarrow> str + str) \<Rightarrow> 'a dto \<Rightarrow> validation_options \<Rightarrow> 'm request_validator" where
  "body_validator_with_options dec enc d opts q inherited =
     (let opts = validation_options_merge inherited opts in
      rbind (require_json_content_type q) (\<lambda>_.
      rbind (decode_body dec q) (\<lambda>v.
      rbind (validate_json_value_with_options d v opts ''body property'') (\<lambda>v.
        if vo_transform opts \<or> vo_whitelist opts
        then rmap (\<lambda>body. rewrite_request_body body q) (or_internal (enc v))
        else Inr q))))"

definition request_params_as :: "'a dto \<Rightarrow> 'm boot_request \<Rightarrow> 'a result" where
  "request_params_as d q = or_bad_request (dto_from_pairs d (rq_params q))"

definition params_validator :: "'a dto \<Rightarrow> 'm request_validator" where
  "params_validator d q _ = rbind (request_params_as d q) (\<lambda>a. rmap (\<lambda>_. q) (validate_value d a))"

definition params_validator_with_options :: "'a dto \<Rightarrow> validation_options \<Rightarrow> 'm request_validator" where
  "params_validator_with_options d opts q inherited =
     (let opts = validation_options_merge inherited opts in
      rbind (apply_map_field_options (dto_fields d) (rq_params q) opts ''path parameter'') (\<lambda>m.
      let q = q\<lparr>rq_params := m\<rparr> in
      rbind (request_params_as d q) (\<lambda>a.
      rbind (validate_value d a) (\<lambda>v.
        if vo_transform opts then rmap (\<lambda>m. q\<lparr>rq_params := m\<rparr>) (or_internal (dto_to_pairs d v)) else Inr q))))"

definition request_query_as :: "'a dto \<Rightarrow> 'm boot_request \<Rightarrow> 'a result" where
  "request_query_as d q =
     (case rq_query_string q of
        Some s \<Rightarrow> rbind (validate_percent_encoding s) (\<lambda>_. or_bad_request (dto_from_query d s))
      | None \<Rightarrow> or_bad_request (dto_from_pairs d (rq_query q)))"

definition query_validator :: "'a dto \<Rightarrow> 'm request_validator" where
  "query_validator d q _ = rbind (request_query_as d q) (\<lambda>a. rmap (\<lambda>_. q) (validate_value d a))"

definition query_validator_with_options ::
    "(str \<Rightarrow> str + str) \<Rightarrow> 'a dto \<Rightarrow> validation_options \<Rightarrow> 'm request_validator" where
  "query_validator_with_options dec d opts q inherited =
     (let opts = validation_options_merge inherited opts in
      rbind (query_pairs dec q) (\<lambda>pairs.
      rbind (apply_pair_field_options (dto_fields d) pairs (rq_query q) opts ''query parameter'') (\<lambda>m.
      let q = q\<lparr>rq_query := m\<rparr>; q = (if vo_whitelist opts then q\<lparr>rq_query_string := None\<rparr> else q) in
      rbind (request_query_as d q) (\<lambda>a.
      rbind (validate_value d a) (\<lambda>v.
        if vo_transform opts
        then rmap (\<lambda>m. q\<lparr>rq_query := m, rq_query_string := None\<rparr>) (or_internal (dto_to_pairs d v))
        else Inr q)))))"

text \<open>The validators that message patterns and subscriptions add for a payload type.\<close>

definition transport_payload_validator :: "'a dto \<Rightarrow> validation_options \<Rightarrow> json message_validator" where
  "transport_payload_validator d opts m inherited =
     (let opts = validation_options_merge inherited opts in
      rbind (validate_json_value_with_options d (tm_data m) opts ''message property'') (\<lambda>v.
        Inr (if vo_transform opts \<or> vo_whitelist opts then m\<lparr>tm_data := v\<rparr> else m)))"

definition ws_payload_validator :: "'a dto \<Rightarrow> validation_options \<Rightarrow> json ws_validator" where
  "ws_payload_validator d opts m inherited =
     (let opts = validation_options_merge inherited opts in
      rbind (validate_json_value_with_options d (wm_data m) opts ''message data'') (\<lambda>v.
        Inr (if vo_transform opts \<or> vo_whitelist opts then m\<lparr>wm_data := v\<rparr> else m)))"

section \<open>Shaping of responses\<close>

definition serialization_is_empty :: "serialization_options \<Rightarrow> bool" where
  "serialization_is_empty o1 \<longleftrightarrow>
     so_include_fields o1 = None \<and> so_exclude_fields o1 = [] \<and> \<not> so_skip_null_fields o1"

definition include_field :: "str \<Rightarrow> serialization_options \<Rightarrow> serialization_options" where
  "include_field f o1 =
     o1\<lparr>so_include_fields := Some (bs_insert f (case so_include_fields o1 of None \<Rightarrow> [] | Some fs \<Rightarrow> fs))\<rparr>"

definition exclude_field :: "str \<Rightarrow> serialization_options \<Rightarrow> serialization_options" where
  "exclude_field f o1 = o1\<lparr>so_exclude_fields := bs_insert f (so_exclude_fields o1)\<rparr>"

definition merged_with :: "serialization_options \<Rightarrow> serialization_options \<Rightarrow> serialization_options" where
  "merged_with base route =
     \<lparr>so_include_fields = (case so_include_fields route of Some fs \<Rightarrow> Some fs | None \<Rightarrow> so_include_fields base),
      so_exclude_fields = fold bs_insert (so_exclude_fields route) (so_exclude_fields base),
      so_skip_null_fields = (so_skip_null_fields base \<or> so_skip_null_fields route)\<rparr>"

definition transform_object :: "serialization_options \<Rightarrow> (str \<times> json) list \<Rightarrow> (str \<times> json) list" where
  "transform_object o1 fds =
     (let kept = (case so_include_fields o1 of
                    Some fs \<Rightarrow> filter (\<lambda>(k, _). k \<in> set fs) fds | None \<Rightarrow> fds);
          rest = fold (\<lambda>f. filter (\<lambda>(k, _). k \<noteq> f)) (so_exclude_fields o1) kept in
      if so_skip_null_fields o1 then filter (\<lambda>(_, v). v \<noteq> JNull) rest else rest)"

definition transform_payload :: "serialization_options \<Rightarrow> json \<Rightarrow> json" where
  "transform_payload o1 v =
     (case v of
        JObject fds \<Rightarrow> JObject (transform_object o1 fds)
      | JArray vs \<Rightarrow> JArray (map (\<lambda>v. case v of JObject fds \<Rightarrow> JObject (transform_object o1 fds) | _ \<Rightarrow> v) vs)
      | _ \<Rightarrow> v)"

definition response_is_json :: "boot_response \<Rightarrow> bool" where
  "response_is_json r = (case response_content_type r of None \<Rightarrow> False | Some t \<Rightarrow> is_json_media_type t)"

definition serialize_response ::
    "(str \<Rightarrow> str + json) \<Rightarrow> (json \<Rightarrow> str + str) \<Rightarrow> boot_response \<Rightarrow> serialization_options \<Rightarrow> serialization_options
       \<Rightarrow> boot_response result" where
  "serialize_response dec enc r interceptor_options route_options =
     (let opts = merged_with interceptor_options route_options in
      if serialization_is_empty opts \<or> is_streaming r \<or> \<not> has_body r \<or> \<not> response_is_json r then Inr r
      else
        (case dec (rs_body r) of
           Inl e \<Rightarrow> Inl (Internal (''invalid JSON response body: '' @ e))
         | Inr v \<Rightarrow>
             (case enc (transform_payload opts v) of
                Inl e \<Rightarrow> Inl (Internal (''failed to serialize response: '' @ e))
              | Inr body \<Rightarrow>
                  (let r1 = r\<lparr>rs_body := body\<rparr> in
                   Inr (if response_header_values r ''content-length'' \<noteq> []
                     then response_with_header ''content-length'' (show_nat (length body))
                       (r1\<lparr>rs_headers := bt_remove ''content-length'' (rs_headers r1),
                           rs_appended_headers :=
                             filter (\<lambda>(n, _). \<not> eq_ignore_ascii_case n ''content-length'') (rs_appended_headers r1)\<rparr>)
                     else r1)))))"

definition serialization_interceptor ::
    "(str \<Rightarrow> str + json) \<Rightarrow> (json \<Rightarrow> str + str) \<Rightarrow> serialization_options \<Rightarrow> ('w, 'm, 'v) interceptor" where
  "serialization_interceptor dec enc opts =
     default_intercept (\<lambda>_ w. (Inr (), w)) (\<lambda>_ w. (Inr None, w))
       (\<lambda>ctx r w. (serialize_response dec enc r opts (ec_serialization ctx), w))"

section \<open>Lengths after a rewrite\<close>

lemma foldl_digits: "foldl (\<lambda>n c. n * 10 + (byte c - 48)) a (show_nat n) = a * 10 ^ length (show_nat n) + n"
proof (induction n arbitrary: a rule: show_nat.induct)
  case (1 n)
  show ?case
  proof (cases "n < 10")
    case True
    then show ?thesis by (simp add: show_nat.simps [of n])
  next
    case False
    have "foldl (\<lambda>n c. n * 10 + (byte c - 48)) a (show_nat n) = (a * 10 ^ length (show_nat (n div 10)) + n div 10) * 10 + n mod 10"
      using 1 False by (subst show_nat.simps) simp
    moreover have "length (show_nat n) = Suc (length (show_nat (n div 10)))"
      using False by (subst show_nat.simps) simp
    ultimately show ?thesis by (simp add: algebra_simps)
  qed
qed

lemma parse_shown_length: "n < 2 ^ 64 \<Longrightarrow> parse_content_length (show_nat n) = Some n"
proof -
  assume n: "n < 2 ^ 64"
  have "list_all is_ascii_digit (show_nat n)" by (simp add: list_all_iff show_nat_digits)
  moreover from this have "trim (show_nat n) = show_nat n"
    by (intro trim_printable) (auto simp: list_all_iff is_ascii_digit_def)
  moreover have "show_nat n \<noteq> []" by (simp add: show_nat.simps [of n])
  moreover have "digits_value (show_nat n) = n" using foldl_digits [of 0 n] by (simp add: digits_value_def)
  ultimately show ?thesis using n by (simp add: parse_content_length_def opt_filter_def)
qed

lemma cl_normal: "normalize_header_name ''content-length'' = ''content-length''"
  by code_simp

lemma rewritten_lengths:
  assumes "headers_normal (rq_headers q)" and "request_header q ''content-length'' \<noteq> None"
  shows "request_header_values (rewrite_request_body body q) ''content-length'' = [show_nat (length body)]"
  using assms(2) get_header_insert [OF assms(1), of "''content-length''" "show_nat (length body)" "''content-length''"]
  by (simp add: rewrite_request_body_def request_header_values_def header_values_of_def cl_normal)
    (auto simp: filter_empty_conv)

lemma strict_values_single: "strict_content_length_values [v] bad confl = Inr (Some n)" if "parse_content_length v = Some n"
  using that by (simp add: strict_values_Inr)

lemma rewritten_request_length:
  assumes "headers_normal (rq_headers q)" and "length body < 2 ^ 64"
    and "request_header q ''content-length'' = None \<longrightarrow> request_header_values q ''content-length'' = []"
  shows "request_validate_content_length (rewrite_request_body body q) = Inr ()"
proof (cases "request_header q ''content-length''")
  case None
  with assms(3) have "request_header_values (rewrite_request_body body q) ''content-length'' = []"
    by (simp add: rewrite_request_body_def request_header_values_def)
  then show ?thesis
    by (simp add: request_validate_content_length_def request_strict_content_length_def
        strict_content_length_values_def)
next
  case (Some v)
  then have "request_strict_content_length (rewrite_request_body body q) = Inr (Some (length body))"
    using rewritten_lengths [OF assms(1), of body] parse_shown_length [OF assms(2)]
    by (simp add: request_strict_content_length_def strict_values_single)
  then show ?thesis using Some
    by (simp add: request_validate_content_length_def) (simp add: rewrite_request_body_def)
qed

section \<open>Validated bodies\<close>

text \<open>The value that the type is decoded from, and the unknown fields.\<close>

definition unknown_fields :: "str list \<Rightarrow> json \<Rightarrow> str list" where
  "unknown_fields allowed v = (case v of JObject fs \<Rightarrow> filter (\<lambda>k. k \<notin> set allowed) (map fst fs) | _ \<Rightarrow> [])"

definition known_part :: "str list \<Rightarrow> json \<Rightarrow> json" where
  "known_part allowed v = (case v of JObject fs \<Rightarrow> JObject (filter (\<lambda>(k, _). k \<in> set allowed) fs) | _ \<Rightarrow> v)"

lemma apply_json_exact:
  "apply_json_field_options allowed v opts label =
     (if vo_forbid_non_whitelisted opts \<and> unknown_fields allowed v \<noteq> []
      then Inl (BadRequest (''non-whitelisted '' @ plural_label label @ '': '' @ join_with '', '' (unknown_fields allowed v)))
      else Inr (if vo_whitelist opts then known_part allowed v else v))"
  by (cases v) (auto simp: apply_json_field_options_def checks_unknown_fields_def handle_unknown_fields_def
      unknown_fields_def known_part_def)

lemma known_part_known: "unknown_fields allowed (known_part allowed v) = []"
  by (cases v) (auto simp: known_part_def unknown_fields_def filter_empty_conv)

lemma field_results:
  "or_bad_request r = Inr a \<longleftrightarrow> r = Inr a" "or_internal r = Inr a \<longleftrightarrow> r = Inr a"
  "validate_value d a = Inr b \<longleftrightarrow> dto_validate d a = Inr () \<and> b = a"
  by (auto simp: or_bad_request_def or_internal_def validate_value_def split: sum.split)

lemma validate_json_Inr:
  "validate_json_value_with_options d v opts label = Inr v' \<longleftrightarrow>
     \<not> (vo_forbid_non_whitelisted opts \<and> unknown_fields (dto_fields d) v \<noteq> []) \<and>
     (\<exists>a. dto_from_json d (if vo_whitelist opts then known_part (dto_fields d) v else v) = Inr a \<and>
        dto_validate d a = Inr () \<and>
        (if vo_transform opts then dto_to_json d a = Inr v'
         else v' = (if vo_whitelist opts then known_part (dto_fields d) v else v)))"
  unfolding validate_json_value_with_options_def apply_json_exact
  by (auto simp: result_simps field_results)


definition sample_dto :: "str dto" where
  "sample_dto =
     \<lparr>dto_name = ''Item'', dto_from_slice = (\<lambda>_. Inl ''not used''),
      dto_from_json = (\<lambda>v. case v of JObject [(k, JNumber n)] \<Rightarrow> Inr n | _ \<Rightarrow> Inl ''not an item''),
      dto_to_json = (\<lambda>n. Inr (JObject [(''a'', JNumber n)])), dto_from_pairs = (\<lambda>_. Inl ''not used''),
      dto_from_query = (\<lambda>_. Inl ''not used''), dto_to_pairs = (\<lambda>_. Inl ''not used''),
      dto_validate = (\<lambda>n. if n = [] then Inl (BadRequest ''empty'') else Inr ()), dto_fields = [''a'']\<rparr>"

definition sample_item :: json where
  "sample_item = JObject [(''a'', JNumber ''1'')]"

definition sample_decode :: "str \<Rightarrow> str + json" where
  "sample_decode s =
     (if s = ''A'' then Inr sample_item
      else if s = ''A+B'' then Inr (JObject [(''a'', JNumber ''1''), (''b'', JNull)]) else Inl ''syntax error'')"

definition sample_encode :: "json \<Rightarrow> str + str" where
  "sample_encode v = (if v = sample_item then Inr ''A'' else Inl ''cannot encode'')"

definition sample_body_request :: "unit boot_request" where
  "sample_body_request =
     request_with_content_length 3 (request_with_header ''content-type'' ''application/json''
       (request_with_body ''A+B'' (request_new Inr M_Post ''/items'')))"

definition whitelist_options :: validation_options where
  "whitelist_options = \<lparr>vo_transform = False, vo_whitelist = True, vo_forbid_non_whitelisted = False\<rparr>"

lemma sample_encode_decode: "sample_encode v = Inr s \<Longrightarrow> sample_decode s = Inr v"
  by (auto simp: sample_encode_def sample_decode_def split: if_splits)

lemma sample_validated:
  "body_validator_with_options sample_decode sample_encode sample_dto whitelist_options sample_body_request
     validation_options_default = Inr (rewrite_request_body ''A'' sample_body_request)"
  by code_simp

lemma sample_body_request_parts:
  "rq_body sample_body_request = ''A+B''" "request_header_values sample_body_request ''content-length'' = [''3'']"
  "request_header sample_body_request ''content-length'' = Some ''3''"
  by code_simp+

lemma sample_body_request_ok:
  "headers_normal (rq_headers sample_body_request)" "request_validate_content_length sample_body_request = Inr ()"
proof -
  show "headers_normal (rq_headers sample_body_request)"
    by code_simp
  have "show_nat 3 = ''3''" by code_simp
  with parse_shown_length [of 3] have "parse_content_length ''3'' = Some 3" by simp
  then show "request_validate_content_length sample_body_request = Inr ()"
    by (simp add: request_validate_content_length_def request_strict_content_length_def sample_body_request_parts
        strict_values_single)
qed


section \<open>Shaped responses\<close>

definition shaped_field :: "serialization_options \<Rightarrow> str \<times> json \<Rightarrow> bool" where
  "shaped_field o1 = (\<lambda>(k, v).
     (case so_include_fields o1 of None \<Rightarrow> True | Some fs \<Rightarrow> k \<in> set fs) \<and>
     k \<notin> set (so_exclude_fields o1) \<and> (if so_skip_null_fields o1 then v \<noteq> JNull else True))"

lemma fold_remove_fields: "fold (\<lambda>f. filter (\<lambda>(k, _). k \<noteq> f)) excluded fs = filter (\<lambda>(k, _). k \<notin> set excluded) fs"
  by (induction excluded arbitrary: fs) (auto simp: case_prod_unfold conj_commute)

lemma transform_object_exact: "transform_object o1 fs = filter (shaped_field o1) fs"
  by (auto simp: transform_object_def Let_def fold_remove_fields shaped_field_def case_prod_beta conj_ac
      intro!: filter_cong split: option.split)

lemma response_length_put:
  assumes "headers_normal (rs_headers r)" and "length body < 2 ^ 64" and "\<not> is_streaming r"
  shows "response_validate_content_length
      (response_with_header ''content-length'' (show_nat (length body))
        (r\<lparr>rs_body := body, rs_headers := bt_remove ''content-length'' (rs_headers r),
           rs_appended_headers := filter (\<lambda>(n, _). \<not> eq_ignore_ascii_case n ''content-length'') (rs_appended_headers r)\<rparr>)) = Inr ()"
    (is "response_validate_content_length ?r = Inr ()")
proof -
  have "headers_normal (bt_remove ''content-length'' (rs_headers r))"
    using assms(1) by (auto simp: headers_normal_def list_all_iff) (auto simp: bt_remove_def)
  then have "response_header_values ?r ''content-length'' = [show_nat (length body)]"
    using get_header_insert [of "bt_remove ''content-length'' (rs_headers r)" "''content-length''" "show_nat (length body)" "''content-length''"]
    by (simp add: response_header_values_def header_values_of_def response_with_header_def cl_normal)
      (auto simp: filter_empty_conv)
  then have "response_strict_content_length ?r = Inr (Some (length body))"
    using parse_shown_length [OF assms(2)] by (simp add: response_strict_content_length_def strict_values_single)
  with assms(3) show ?thesis
    by (simp add: response_validate_content_length_def) (simp add: response_with_header_def is_streaming_def)
qed

text \<open>
  The serialization interceptor shapes JSON responses and nothing else. A response that is
  no JSON, has no body, is streamed, or for which no option is set goes through untouched.
  Otherwise its object, or each object of its array, keeps exactly the fields that are
  included, not excluded and, if nulls are skipped, not null, in their order; the status and
  the stream stay, and a response whose lengths were consistent still has them so.
\<close>
theorem shaped_response:
  assumes shaped: "serialize_response dec enc r base route = Inr r'"
    and enc: "\<forall>v s. enc v = Inr s \<longrightarrow> dec s = Inr v"
    and normal: "headers_normal (rs_headers r)" and small: "length (rs_body r') < 2 ^ 64"
    and ok: "response_validate_content_length r = Inr ()"
  shows "(if serialization_is_empty (merged_with base route) \<or> is_streaming r \<or> \<not> has_body r \<or> \<not> response_is_json r then r' = r
     else \<exists>v. dec (rs_body r) = Inr v \<and>
       (let keep = shaped_field (merged_with base route) in
        dec (rs_body r') = Inr (case v of
            JObject fs \<Rightarrow> JObject (filter keep fs)
          | JArray vs \<Rightarrow> JArray (map (\<lambda>v. case v of JObject fs \<Rightarrow> JObject (filter keep fs) | _ \<Rightarrow> v) vs)
          | _ \<Rightarrow> v))) \<and>
    rs_status r' = rs_status r \<and> rs_stream r' = rs_stream r \<and> response_validate_content_length r' = Inr ()"
proof (cases "serialization_is_empty (merged_with base route) \<or> is_streaming r \<or> \<not> has_body r \<or> \<not> response_is_json r")
  case True
  with shaped ok show ?thesis by (auto simp: serialize_response_def Let_def)
next
  case False
  let ?o = "merged_with base route"
  from shaped False obtain v body where v: "dec (rs_body r) = Inr v" "enc (transform_payload ?o v) = Inr body"
    and r': "r' = (if response_header_values r ''content-length'' \<noteq> []
       then response_with_header ''content-length'' (show_nat (length body))
         (r\<lparr>rs_body := body, rs_headers := bt_remove ''content-length'' (rs_headers r),
            rs_appended_headers := filter (\<lambda>(n, _). \<not> eq_ignore_ascii_case n ''content-length'') (rs_appended_headers r)\<rparr>)
       else r\<lparr>rs_body := body\<rparr>)"
    by (auto simp: serialize_response_def Let_def split: sum.splits if_splits)
  have body: "rs_body r' = body" by (simp add: r' response_with_header_def)
  have "response_validate_content_length r' = Inr ()"
  proof (cases "response_header_values r ''content-length'' = []")
    case True
    then show ?thesis
      by (simp add: r' response_validate_content_length_def response_strict_content_length_def
          strict_content_length_values_def) (simp add: response_header_values_def strict_content_length_loop.simps)
  next
    case some: False
    then show ?thesis using response_length_put [OF normal] small False by (simp add: r' response_with_header_def)
  qed
  moreover have "dec (rs_body r') = Inr (transform_payload ?o v)" using v(2) enc by (simp add: body)
  ultimately show ?thesis
    using False v(1) unfolding transform_payload_def transform_object_exact Let_def
    by (simp, simp add: r' response_with_header_def)
qed

definition sample_shaping :: serialization_options where
  "sample_shaping = \<lparr>so_include_fields = None, so_exclude_fields = [''b''], so_skip_null_fields = False\<rparr>"

definition sample_json_response :: boot_response where
  "sample_json_response =
     response_with_header ''content-length'' ''3''
       (response_with_header ''content-type'' ''application/json'' (response_new 200 ''A+B''))"

lemma sample_shaped:
  "serialize_response sample_decode sample_encode sample_json_response serialization_default sample_shaping =
     Inr (response_with_header ''content-length'' (show_nat 1)
       (response_with_header ''content-type'' ''application/json'' (response_new 200 ''A'')))"
  by code_simp

lemma shaped_response_witness:
  "\<exists>r'. serialize_response sample_decode sample_encode sample_json_response serialization_default sample_shaping = Inr r' \<and>
     rs_body r' = ''A'' \<and> response_validate_content_length r' = Inr ()"
proof -
  let ?r' = "response_with_header ''content-length'' (show_nat 1)
       (response_with_header ''content-type'' ''application/json'' (response_new 200 ''A''))"
  have body: "rs_body ?r' = ''A''" by code_simp
  have normal: "headers_normal (rs_headers sample_json_response)" by code_simp
  have "response_header_values sample_json_response ''content-length'' = [''3'']" by code_simp
  moreover have "show_nat 3 = ''3''" by code_simp
  moreover have "rs_body sample_json_response = ''A+B''" "rs_stream sample_json_response = None" by code_simp+
  ultimately have "response_validate_content_length sample_json_response = Inr ()"
    using parse_shown_length [of 3]
    by (simp add: response_validate_content_length_def response_strict_content_length_def strict_values_single is_streaming_def)
  with shaped_response [OF sample_shaped _ normal] body sample_encode_decode
  have "response_validate_content_length ?r' = Inr ()" by simp
  with sample_shaped body show ?thesis by blast
qed

text \<open>
  The whitelist drops the query string and leaves the table of parameters, which has one value
  for each name: of a repeated parameter that is allowed only one value is left.
\<close>

definition sample_tags :: "str dto" where
  "sample_tags = sample_dto\<lparr>dto_from_pairs := (\<lambda>m. Inr ''x''), dto_from_query := (\<lambda>m. Inr ''x''), dto_fields := [''tag'']\<rparr>"

lemma whitelist_drops_repeats:
  "let q = request_new Inr M_Get ''/items?tag=a&tag=b'' :: unit boot_request in
   query_values Inr q ''tag'' = Inr [''a'', ''b''] \<and>
   rbind (query_validator_with_options Inr sample_tags whitelist_options q validation_options_default)
     (\<lambda>q'. query_values Inr q' ''tag'') = Inr [''b'']"
  by code_simp

end
