(* ===== verification/Request_Pipes.thy ===== *)
theory Request_Pipes
  imports Http_Message
begin

text \<open>
  \<open>src/http/extractor.rs\<close>: the pipes that parse single request values: integers of a given
  width, booleans, arrays with a separator, enumerations and UUIDs. Parsing an integer is
  \<open>str::parse\<close> of the standard library, written out with its checked arithmetic; the other
  \<open>FromStr\<close> types are a function from the text to the message of an error or the value, and
  floating point numbers are among them.
\<close>

section \<open>Integers\<close>

text \<open>The integer types: their width and whether they are signed.\<close>

record int_target =
  it_signed :: bool
  it_bits :: nat
  it_name :: str

definition int_min :: "int_target \<Rightarrow> int" where
  "int_min t = (if it_signed t then - (2 ^ (it_bits t - 1)) else 0)"

definition int_max :: "int_target \<Rightarrow> int" where
  "int_max t = (if it_signed t then 2 ^ (it_bits t - 1) - 1 else 2 ^ it_bits t - 1)"

definition int_targets :: "int_target list" where
  "int_targets =
     [\<lparr>it_signed = True, it_bits = 8, it_name = ''i8''\<rparr>, \<lparr>it_signed = True, it_bits = 16, it_name = ''i16''\<rparr>,
      \<lparr>it_signed = True, it_bits = 32, it_name = ''i32''\<rparr>, \<lparr>it_signed = True, it_bits = 64, it_name = ''i64''\<rparr>,
      \<lparr>it_signed = True, it_bits = 128, it_name = ''i128''\<rparr>, \<lparr>it_signed = True, it_bits = 64, it_name = ''isize''\<rparr>,
      \<lparr>it_signed = False, it_bits = 8, it_name = ''u8''\<rparr>, \<lparr>it_signed = False, it_bits = 16, it_name = ''u16''\<rparr>,
      \<lparr>it_signed = False, it_bits = 32, it_name = ''u32''\<rparr>, \<lparr>it_signed = False, it_bits = 64, it_name = ''u64''\<rparr>,
      \<lparr>it_signed = False, it_bits = 128, it_name = ''u128''\<rparr>, \<lparr>it_signed = False, it_bits = 64, it_name = ''usize''\<rparr>]"

definition in_range :: "int_target \<Rightarrow> int \<Rightarrow> bool" where
  "in_range t v \<longleftrightarrow> int_min t \<le> v \<and> v \<le> int_max t"

text \<open>The digits are accumulated with checked operations, downwards for a negative number.\<close>

fun int_digits :: "int_target \<Rightarrow> bool \<Rightarrow> str \<Rightarrow> int \<Rightarrow> str + int" where
  "int_digits t neg [] r = Inr r"
| "int_digits t neg (c # cs) r =
     (let overflow = (if neg then ''number too small to fit in target type'' else ''number too large to fit in target type'');
          d = int (byte c - 48) in
      if \<not> is_ascii_digit c then Inl ''invalid digit found in string''
      else if \<not> in_range t (r * 10) then Inl overflow
      else let r' = (if neg then r * 10 - d else r * 10 + d) in
           if \<not> in_range t r' then Inl overflow else int_digits t neg cs r')"

definition parse_int :: "int_target \<Rightarrow> str \<Rightarrow> str + int" where
  "parse_int t s =
     (if s = [] then Inl ''cannot parse integer from empty string''
      else if s = ''+'' \<or> s = ''-'' then Inl ''invalid digit found in string''
      else if hd s = CHR ''+'' then int_digits t False (tl s) 0
      else if hd s = CHR ''-'' \<and> it_signed t then int_digits t True (tl s) 0
      else int_digits t False s 0)"

definition parse_int_pipe :: "int_target \<Rightarrow> str \<Rightarrow> int result" where
  "parse_int_pipe t s =
     (case parse_int t (trim s) of
        Inl error \<Rightarrow> Inl (BadRequest (''validation failed: numeric string is expected for '' @ it_name t @ '': '' @ error))
      | Inr v \<Rightarrow> Inr v)"

section \<open>Other values\<close>

definition parse_bool_pipe :: "str \<Rightarrow> bool result" where
  "parse_bool_pipe s =
     (let v = to_ascii_lowercase (trim s) in
      if v = ''true'' \<or> v = ''1'' then Inr True
      else if v = ''false'' \<or> v = ''0'' then Inr False
      else Inl (BadRequest ''validation failed: boolean string is expected''))"

definition parse_float_pipe :: "str \<Rightarrow> (str \<Rightarrow> str + 'f) \<Rightarrow> str \<Rightarrow> 'f result" where
  "parse_float_pipe target_name parse s =
     (case parse (trim s) of
        Inl error \<Rightarrow> Inl (BadRequest (''validation failed: numeric string is expected for '' @ target_name @ '': '' @ error))
      | Inr v \<Rightarrow> Inr v)"

text \<open>\<open>str::split\<close> with a separator that is not empty: leftmost matches that do not overlap.\<close>

fun split_str_loop :: "str \<Rightarrow> str \<Rightarrow> str \<Rightarrow> str list" where
  "split_str_loop sep [] acc = [rev acc]"
| "split_str_loop sep (c # cs) acc =
     (if starts_with sep (c # cs) then rev acc # split_str_loop sep (drop (length sep - 1) cs) []
      else split_str_loop sep cs (c # acc))"

definition split_str :: "str \<Rightarrow> str \<Rightarrow> str list" where
  "split_str sep s = split_str_loop sep s []"

definition parse_array_value :: "str \<Rightarrow> (str \<Rightarrow> str + 'a) \<Rightarrow> str \<Rightarrow> str \<Rightarrow> 'a list result" where
  "parse_array_value type_name parse s sep =
     (if sep = [] then Inl (BadRequest ''validation failed: array separator cannot be empty'')
      else
        (let v = trim s in
         if v = [] then Inr []
         else rcollect
           (\<lambda>item. case parse (trim item) of
                Inl error \<Rightarrow> Inl (BadRequest (''validation failed: array item is invalid for '' @ type_name @ '': '' @ error))
              | Inr a \<Rightarrow> Inr a)
           (split_str sep v)))"

definition parse_array_pipe :: "str \<Rightarrow> (str \<Rightarrow> str + 'a) \<Rightarrow> str \<Rightarrow> 'a list result" where
  "parse_array_pipe type_name parse s = parse_array_value type_name parse s '',''"

definition parse_enum_pipe :: "str \<Rightarrow> (str \<Rightarrow> str + 'a) \<Rightarrow> str \<Rightarrow> 'a result" where
  "parse_enum_pipe type_name parse s =
     (case parse (trim s) of
        Inl error \<Rightarrow> Inl (BadRequest (''validation failed: enum value is expected for '' @ type_name @ '': '' @ error))
      | Inr a \<Rightarrow> Inr a)"

definition default_value_pipe :: "'a \<Rightarrow> 'a option \<Rightarrow> 'a result" where
  "default_value_pipe d v = Inr (case v of Some a \<Rightarrow> a | None \<Rightarrow> d)"

section \<open>UUIDs\<close>

datatype uuid_version = UuidAll | V1 | V3 | V4 | V5 | V6 | V7 | V8

definition expected_nibble :: "uuid_version \<Rightarrow> char option" where
  "expected_nibble v =
     (case v of UuidAll \<Rightarrow> None | V1 \<Rightarrow> Some CHR ''1'' | V3 \<Rightarrow> Some CHR ''3'' | V4 \<Rightarrow> Some CHR ''4''
      | V5 \<Rightarrow> Some CHR ''5'' | V6 \<Rightarrow> Some CHR ''6'' | V7 \<Rightarrow> Some CHR ''7'' | V8 \<Rightarrow> Some CHR ''8'')"

definition uuid_label :: "uuid_version \<Rightarrow> str" where
  "uuid_label v = (case expected_nibble v of None \<Rightarrow> ''UUID'' | Some n \<Rightarrow> ''UUID v'' @ [n])"

definition is_uuid :: "str \<Rightarrow> uuid_version \<Rightarrow> bool" where
  "is_uuid s version \<longleftrightarrow>
     length s = 36 \<and>
     list_all (\<lambda>i. s ! i = CHR ''-'') [8, 13, 18, 23] \<and>
     list_all (\<lambda>i. List.member [8, 13, 18, 23] i \<or> is_ascii_hexdigit (s ! i)) [0..<36] \<and>
     (case expected_nibble version of
        None \<Rightarrow> True
      | Some expected \<Rightarrow>
          ascii_lower_char (s ! 14) = expected \<and>
          List.member ''89ab'' (ascii_lower_char (s ! 19)))"

definition parse_uuid_value :: "str \<Rightarrow> uuid_version \<Rightarrow> str result" where
  "parse_uuid_value s version =
     (let v = trim s in
      if is_uuid v version then Inr v
      else Inl (BadRequest (''validation failed: '' @ uuid_label version @ '' string is expected'')))"

section \<open>Integers are parsed exactly\<close>

definition digit_value :: "char \<Rightarrow> int" where
  "digit_value c = int (byte c - 48)"

fun digits_int :: "str \<Rightarrow> int \<Rightarrow> int" where
  "digits_int [] r = r"
| "digits_int (c # cs) r = digits_int cs (r * 10 + digit_value c)"

definition number_text :: "int_target \<Rightarrow> str \<Rightarrow> int \<Rightarrow> bool" where
  "number_text t s v \<longleftrightarrow>
     (\<exists>ds. ds \<noteq> [] \<and> list_all is_ascii_digit ds \<and>
        ((s = ds \<or> s = CHR ''+'' # ds) \<and> v = digits_int ds 0 \<or>
         it_signed t \<and> s = CHR ''-'' # ds \<and> v = - digits_int ds 0))"

lemma digits_int_ge: "0 \<le> r \<Longrightarrow> r \<le> digits_int cs r"
proof (induction cs arbitrary: r)
  case (Cons c cs)
  then have "r * 10 + digit_value c \<le> digits_int cs (r * 10 + digit_value c)" by (simp add: digit_value_def)
  moreover have "r \<le> r * 10 + digit_value c" using Cons.prems by (simp add: digit_value_def)
  ultimately show ?case by simp
qed simp

lemma int_bounds: "int_min t \<le> 0" "0 \<le> int_max t"
  by (simp_all add: int_min_def int_max_def)

lemma int_digits_pos:
  "0 \<le> r \<Longrightarrow> in_range t r \<Longrightarrow>
   int_digits t False cs r = Inr v \<longleftrightarrow> list_all is_ascii_digit cs \<and> v = digits_int cs r \<and> in_range t v"
proof (induction cs arbitrary: r)
  case (Cons c cs)
  let ?r = "r * 10 + digit_value c"
  have le: "0 \<le> r * 10" "r * 10 \<le> ?r" "?r \<le> digits_int cs ?r"
    using Cons.prems digits_int_ge [of ?r cs] by (simp_all add: digit_value_def)
  show ?case
  proof (cases "is_ascii_digit c \<and> in_range t ?r")
    case True
    moreover have "in_range t (r * 10)" using True le int_bounds [of t] by (auto simp: in_range_def)
    ultimately show ?thesis using Cons.IH [of ?r] le by (simp add: digit_value_def Let_def)
  next
    case False
    have "is_ascii_digit c \<Longrightarrow> \<not> in_range t (digits_int cs ?r)"
      using False le int_bounds [of t] by (auto simp: in_range_def)
    with False show ?thesis by (auto simp: digit_value_def Let_def)
  qed
qed auto

lemma int_digits_neg:
  "0 \<le> r \<Longrightarrow> in_range t (- r) \<Longrightarrow>
   int_digits t True cs (- r) = Inr v \<longleftrightarrow> list_all is_ascii_digit cs \<and> v = - digits_int cs r \<and> in_range t v"
proof (induction cs arbitrary: r)
  case (Cons c cs)
  let ?r = "r * 10 + digit_value c"
  have le: "0 \<le> r * 10" "r * 10 \<le> ?r" "?r \<le> digits_int cs ?r"
    using Cons.prems digits_int_ge [of ?r cs] by (simp_all add: digit_value_def)
  have step: "- r * 10 - digit_value c = - ?r" by simp
  show ?case
  proof (cases "is_ascii_digit c \<and> in_range t (- ?r)")
    case True
    moreover have "in_range t (- r * 10)" using True le int_bounds [of t] by (auto simp: in_range_def)
    ultimately show ?thesis using Cons.IH [of ?r] le step by (simp add: digit_value_def Let_def)
  next
    case False
    have "is_ascii_digit c \<Longrightarrow> \<not> in_range t (- digits_int cs ?r)"
      using False le int_bounds [of t] by (auto simp: in_range_def)
    with False step show ?thesis by (auto simp: digit_value_def Let_def)
  qed
qed auto

lemma sign_not_digit: "\<not> is_ascii_digit CHR ''+''" "\<not> is_ascii_digit CHR ''-''"
  by (simp_all add: is_ascii_digit_def byte_def)

lemma number_text_Cons:
  "number_text t (c # cs) v \<longleftrightarrow>
     (if c = CHR ''+'' then cs \<noteq> [] \<and> list_all is_ascii_digit cs \<and> v = digits_int cs 0
      else if c = CHR ''-'' then it_signed t \<and> cs \<noteq> [] \<and> list_all is_ascii_digit cs \<and> v = - digits_int cs 0
      else list_all is_ascii_digit (c # cs) \<and> v = digits_int (c # cs) 0)"
  using sign_not_digit by (auto simp: number_text_def simp del: digits_int.simps)

lemma parse_int_exact: "parse_int t s = Inr v \<longleftrightarrow> number_text t s v \<and> in_range t v"
proof (cases s)
  case (Cons c cs)
  have zero: "in_range t 0" using int_bounds [of t] by (simp add: in_range_def)
  note pos = int_digits_pos [of 0 t, simplified, OF zero]
  note neg = int_digits_neg [of 0 t, simplified, OF zero]
  show ?thesis
    using sign_not_digit
    by (auto simp: Cons parse_int_def number_text_Cons pos neg simp del: int_digits.simps digits_int.simps)
qed (simp add: parse_int_def number_text_def)

section \<open>Round trips\<close>

definition show_int :: "int \<Rightarrow> str" where
  "show_int v = (if v < 0 then CHR ''-'' # show_nat (nat (- v)) else show_nat (nat v))"

lemma digits_int_append: "digits_int (xs @ ys) r = digits_int ys (digits_int xs r)"
  by (induction xs arbitrary: r) simp_all

lemma digit_of_nat: "n < 10 \<Longrightarrow> digit_value (char_of (48 + n)) = int n"
  by (simp add: digit_value_def)

lemma digits_int_show_nat: "digits_int (show_nat n) 0 = int n"
proof (induction n rule: show_nat.induct)
  case (1 n)
  show ?case
  proof (cases "n < 10")
    case True
    then show ?thesis by (simp add: show_nat.simps [of n] digit_of_nat)
  next
    case False
    then have "digits_int (show_nat n) 0 = int (n div 10) * 10 + int (n mod 10)"
      using 1 by (simp add: show_nat.simps [of n] digits_int_append digit_of_nat)
    then show ?thesis by (metis of_nat_add of_nat_mult of_nat_numeral div_mult_mod_eq)
  qed
qed

lemma show_nat_not_Nil: "show_nat n \<noteq> []"
  by (simp add: show_nat.simps [of n])

lemma show_nat_all_digits: "list_all is_ascii_digit (show_nat n)"
  by (simp add: list_all_iff show_nat_digits)

lemma show_int_text: "in_range t v \<Longrightarrow> number_text t (show_int v) v"
  unfolding number_text_def
  by (intro exI [of _ "show_nat (nat \<bar>v\<bar>)"])
    (auto simp: show_int_def show_nat_not_Nil show_nat_all_digits digits_int_show_nat in_range_def int_min_def split: if_splits)

lemma show_int_trim: "trim (show_int v) = show_int v"
proof (rule trim_printable)
  have "33 \<le> byte c \<and> byte c \<le> 126" if "is_ascii_digit c" for c
    using that by (auto simp: is_ascii_digit_def)
  moreover have "byte CHR ''-'' = 45" by (simp add: byte_def)
  ultimately show "list_all (\<lambda>c. 33 \<le> byte c \<and> byte c \<le> 126) (show_int v)"
    using show_nat_digits by (auto simp: show_int_def list_all_iff)
qed

text \<open>
  The integer pipe is exact for each of the twelve integer types: it accepts a value
  exactly if the trimmed text is an optional sign (a minus for signed types only) followed by
  decimal digits whose value fits the type, and then returns this value, never a wrapped one;
  otherwise it reports a bad request. The decimal text of every value of the type is accepted.
\<close>
theorem int_pipe_exact:
  "(parse_int_pipe t s = Inr v \<longleftrightarrow> number_text t (trim s) v \<and> in_range t v) \<and>
   (is_ok (parse_int_pipe t s) \<or> (\<exists>why. parse_int_pipe t s = Inl (BadRequest why))) \<and>
   (parse_int_pipe t (show_int v) = Inr v \<longleftrightarrow> in_range t v)"
proof (intro conjI)
  show "parse_int_pipe t s = Inr v \<longleftrightarrow> number_text t (trim s) v \<and> in_range t v"
    by (auto simp: parse_int_pipe_def parse_int_exact [symmetric] split: sum.split)
  show "is_ok (parse_int_pipe t s) \<or> (\<exists>why. parse_int_pipe t s = Inl (BadRequest why))"
    by (auto simp: parse_int_pipe_def split: sum.split)
  show "parse_int_pipe t (show_int v) = Inr v \<longleftrightarrow> in_range t v"
    using show_int_text [of t v]
      parse_int_exact [of t "show_int v" v]
    by (cases "parse_int t (show_int v)") (auto simp: parse_int_pipe_def show_int_trim)
qed

lemma split_str_loop_not_Nil [simp]: "split_str_loop sep s acc \<noteq> []"
  by (induction sep s acc rule: split_str_loop.induct) auto

lemma split_str_loop_join:
  "sep \<noteq> [] \<Longrightarrow> join_with sep (split_str_loop sep s acc) = rev acc @ s"
proof (induction sep s acc rule: split_str_loop.induct)
  case (2 sep c cs acc)
  show ?case
  proof (cases "starts_with sep (c # cs)")
    case True
    then obtain r where r: "c # cs = sep @ r" by (auto simp: starts_with_iff)
    have rest: "drop (length sep - 1) cs = r"
    proof -
      have "drop (length sep) (c # cs) = r" by (simp add: r)
      with 2 show ?thesis by (cases "length sep") auto
    qed
    with True have "split_str_loop sep (c # cs) acc = rev acc # split_str_loop sep r []" by simp
    with True 2 rest have "join_with sep (split_str_loop sep (c # cs) acc) = rev acc @ sep @ r" by (simp add: join_with_Cons)
    then show ?thesis by (simp add: r)
  qed (use 2 in simp)
qed simp

lemma split_str_join: "sep \<noteq> [] \<Longrightarrow> join_with sep (split_str sep s) = s"
  by (simp add: split_str_def split_str_loop_join)

section \<open>What a UUID looks like\<close>

definition uuid_text :: "str \<Rightarrow> uuid_version \<Rightarrow> bool" where
  "uuid_text s version \<longleftrightarrow>
     (\<exists>a b c d e. s = a @ ''-'' @ b @ ''-'' @ c @ ''-'' @ d @ ''-'' @ e \<and>
        map length [a, b, c, d, e] = [8, 4, 4, 4, 12] \<and> list_all is_ascii_hexdigit (a @ b @ c @ d @ e) \<and>
        (case expected_nibble version of
           None \<Rightarrow> True
         | Some n \<Rightarrow> ascii_lower_char (hd c) = n \<and> ascii_lower_char (hd d) \<in> set ''89ab''))"

lemma take_step: "n + k < length s \<Longrightarrow> drop n s = take k (drop n s) @ s ! (n + k) # drop (n + k + 1) s"
  using id_take_nth_drop [of k "drop n s"] by (simp add: add.commute add.left_commute)

lemma list_of_length_36:
  assumes "length s = 36"
  shows "s = take 8 s @ [s ! 8] @ take 4 (drop 9 s) @ [s ! 13] @ take 4 (drop 14 s) @ [s ! 18] @ take 4 (drop 19 s) @ [s ! 23] @ drop 24 s"
  using take_step [of 0 8 s] take_step [of 9 4 s] take_step [of 14 4 s] take_step [of 19 4 s] assms by simp

lemma list_all_piece:
  assumes "n + k \<le> length s"
  shows "list_all P (take k (drop n s)) \<longleftrightarrow> (\<forall>i. n \<le> i \<and> i < n + k \<longrightarrow> P (s ! i))"
proof -
  have "list_all P (take k (drop n s)) \<longleftrightarrow> (\<forall>j < k. P (s ! (n + j)))" using assms by (auto simp: list_all_length)
  also have "\<dots> \<longleftrightarrow> (\<forall>i. n \<le> i \<and> i < n + k \<longrightarrow> P (s ! i))"
    by (auto dest: spec [of _ "n + j" for j]) (metis add_less_cancel_left le_add_diff_inverse)
  finally show ?thesis .
qed

lemma between_dashes:
  "i < 36 \<and> i \<notin> {8, 13, 18, 23} \<longleftrightarrow>
     (0 \<le> i \<and> i < 0 + 8) \<or> (9 \<le> i \<and> i < 9 + 4) \<or> (14 \<le> i \<and> i < 14 + 4) \<or> (19 \<le> i \<and> i < 19 + 4) \<or> (24 \<le> i \<and> i < 24 + (12::nat))"
  by auto

lemma hex_between_dashes:
  assumes "length s = 36"
  shows "list_all (\<lambda>i. List.member [8, 13, 18, 23] i \<or> P (s ! i)) [0..<36] \<longleftrightarrow>
    list_all P (take 8 (drop 0 s) @ take 4 (drop 9 s) @ take 4 (drop 14 s) @ take 4 (drop 19 s) @ take 12 (drop 24 s))"
proof -
  have "list_all (\<lambda>i. List.member [8, 13, 18, 23] i \<or> P (s ! i)) [0..<36] \<longleftrightarrow>
      (\<forall>i. i < 36 \<and> i \<notin> {8, 13, 18, 23} \<longrightarrow> P (s ! i))"
    unfolding list_all_iff Ball_def
    by (simp only: set_upt atLeastLessThan_iff List.member_iff list.set le0 simp_thms) (rule iff_allI, argo)
  also have "\<dots> \<longleftrightarrow>
      (\<forall>i. 0 \<le> i \<and> i < 0 + 8 \<longrightarrow> P (s ! i)) \<and> (\<forall>i. 9 \<le> i \<and> i < 9 + 4 \<longrightarrow> P (s ! i)) \<and>
      (\<forall>i. 14 \<le> i \<and> i < 14 + 4 \<longrightarrow> P (s ! i)) \<and> (\<forall>i. 19 \<le> i \<and> i < 19 + 4 \<longrightarrow> P (s ! i)) \<and>
      (\<forall>i. 24 \<le> i \<and> i < 24 + 12 \<longrightarrow> P (s ! i))"
    unfolding between_dashes by (simp only: imp_disjL all_conj_distrib)
  also have "\<dots> \<longleftrightarrow>
      list_all P (take 8 (drop 0 s) @ take 4 (drop 9 s) @ take 4 (drop 14 s) @ take 4 (drop 19 s) @ take 12 (drop 24 s))"
    using list_all_piece [of 0 8 s P] list_all_piece [of 9 4 s P] list_all_piece [of 14 4 s P]
      list_all_piece [of 19 4 s P] list_all_piece [of 24 12 s P] assms by (simp only: list_all_append)
  finally show ?thesis .
qed

text \<open>
  The UUID pipe accepts exactly the canonical texts: five groups of 8, 4, 4, 4 and 12
  hexadecimal digits separated by hyphens, the third beginning with the digit of the version
  and the fourth with one of the variant digits 8, 9, a, b if a version is asked for; and the
  value it returns is the trimmed text.
\<close>
theorem uuid_pipe_exact:
  "parse_uuid_value s version =
     (if uuid_text (trim s) version then Inr (trim s)
      else Inl (BadRequest (''validation failed: '' @ uuid_label version @ '' string is expected'')))"
proof -
  have "is_uuid v version \<longleftrightarrow> uuid_text v version" for v
  proof
    assume u: "is_uuid v version"
    then have len: "length v = 36" and dash: "v ! 8 = CHR ''-''" "v ! 13 = CHR ''-''" "v ! 18 = CHR ''-''" "v ! 23 = CHR ''-''"
      unfolding is_uuid_def by (simp_all only: list.pred_inject)
    have "hd (take 4 (drop 14 v)) = v ! 14" "hd (take 4 (drop 19 v)) = v ! 19"
      using len by (simp_all add: hd_take hd_drop_conv_nth)
    moreover have "v = take 8 v @ ''-'' @ take 4 (drop 9 v) @ ''-'' @ take 4 (drop 14 v) @ ''-'' @ take 4 (drop 19 v) @ ''-'' @ drop 24 v"
      using list_of_length_36 [OF len] dash by simp
    moreover have "list_all is_ascii_hexdigit (take 8 v @ take 4 (drop 9 v) @ take 4 (drop 14 v) @ take 4 (drop 19 v) @ drop 24 v)"
    proof -
      have "list_all (\<lambda>i. List.member [8, 13, 18, 23] i \<or> is_ascii_hexdigit (v ! i)) [0..<36]"
        using u unfolding is_uuid_def by blast
      moreover have "drop 0 v = v" "take 12 (drop 24 v) = drop 24 v" using len by simp_all
      ultimately show ?thesis by (simp only: hex_between_dashes [OF len])
    qed
    moreover have "case expected_nibble version of None \<Rightarrow> True
        | Some n \<Rightarrow> ascii_lower_char (v ! 14) = n \<and> ascii_lower_char (v ! 19) \<in> set ''89ab''"
      using u unfolding is_uuid_def by (simp split: option.splits)
    moreover have "map length [take 8 v, take 4 (drop 9 v), take 4 (drop 14 v), take 4 (drop 19 v), drop 24 v] = [8, 4, 4, 4, 12]"
      using len by simp
    ultimately show "uuid_text v version" unfolding uuid_text_def by metis
  next
    assume "uuid_text v version"
    then obtain a b c d e where v: "v = a @ ''-'' @ b @ ''-'' @ c @ ''-'' @ d @ ''-'' @ e"
      and len: "length a = 8" "length b = 4" "length c = 4" "length d = 4" "length e = 12"
      and hex: "list_all is_ascii_hexdigit (a @ b @ c @ d @ e)"
      and ver: "case expected_nibble version of None \<Rightarrow> True
        | Some n \<Rightarrow> ascii_lower_char (hd c) = n \<and> ascii_lower_char (hd d) \<in> set ''89ab''"
      by (auto simp: uuid_text_def)
    have nth: "v ! 8 = CHR ''-''" "v ! 13 = CHR ''-''" "v ! 18 = CHR ''-''" "v ! 23 = CHR ''-''" "v ! 14 = hd c" "v ! 19 = hd d"
      using len by (cases c; cases d; simp add: v nth_append)+
    have len36: "length v = 36" using len by (simp add: v)
    have "take 8 (drop 0 v) @ take 4 (drop 9 v) @ take 4 (drop 14 v) @ take 4 (drop 19 v) @ take 12 (drop 24 v) = a @ b @ c @ d @ e"
      using len by (simp add: v)
    with hex have "list_all (\<lambda>i. List.member [8, 13, 18, 23] i \<or> is_ascii_hexdigit (v ! i)) [0..<36]"
      by (simp only: hex_between_dashes [OF len36])
    moreover have "list_all (\<lambda>i. v ! i = CHR ''-'') [8, 13, 18, 23]" using nth by simp
    moreover have "case expected_nibble version of None \<Rightarrow> True
        | Some n \<Rightarrow> ascii_lower_char (v ! 14) = n \<and> List.member ''89ab'' (ascii_lower_char (v ! 19))"
      using ver nth by (simp split: option.splits)
    ultimately show "is_uuid v version" using len36 unfolding is_uuid_def by blast
  qed
  then show ?thesis by (simp add: parse_uuid_value_def)
qed

end
