(* ===== verification/Response_Encoding.thy ===== *)
theory Response_Encoding
  imports Http_Security Json_Data
begin

text \<open>
  How response bodies are encoded: server-sent events (\<open>src/http/sse.rs\<close>) and gzip compression
  (\<open>src/compression.rs\<close>). The event stream is read back by the algorithm of the HTML standard
  for interpreting an event stream, which serves as the specification. The gzip encoder and the
  parser of quality values (\<open>f32\<close>, as in \<open>Http_Header\<close>) are parameters.
\<close>

section \<open>Server-sent events\<close>

record sse_event =
  sse_id :: "str option"
  sse_name :: "str option"
  sse_retry :: "nat option"
  sse_comment :: "str option"
  sse_data :: "str option"

definition sse_default :: sse_event where
  "sse_default = \<lparr>sse_id = None, sse_name = None, sse_retry = None, sse_comment = None, sse_data = None\<rparr>"

definition sse_with_id :: "str \<Rightarrow> sse_event \<Rightarrow> sse_event" where
  "sse_with_id i e = e\<lparr>sse_id := Some i\<rparr>"

definition sse_with_event :: "str \<Rightarrow> sse_event \<Rightarrow> sse_event" where
  "sse_with_event n e = e\<lparr>sse_name := Some n\<rparr>"

definition sse_with_retry :: "nat \<Rightarrow> sse_event \<Rightarrow> sse_event" where
  "sse_with_retry n e = e\<lparr>sse_retry := Some n\<rparr>"

definition sse_with_comment :: "str \<Rightarrow> sse_event \<Rightarrow> sse_event" where
  "sse_with_comment c e = e\<lparr>sse_comment := Some c\<rparr>"

definition sse_with_data :: "str \<Rightarrow> sse_event \<Rightarrow> sse_event" where
  "sse_with_data d e = e\<lparr>sse_data := Some d\<rparr>"

definition sse_new :: "str \<Rightarrow> sse_event" where
  "sse_new d = sse_with_data d sse_default"

definition sse_json :: "('a \<Rightarrow> str + str) \<Rightarrow> 'a \<Rightarrow> sse_event result" where
  "sse_json enc v = (case enc v of Inl m \<Rightarrow> Inl (Internal m) | Inr d \<Rightarrow> Inr (sse_new d))"

definition sse_only_comment :: "str \<Rightarrow> sse_event" where
  "sse_only_comment c = sse_with_comment c sse_default"

text \<open>\<open>SseEvent::stream\<close>: the items of the stream, in the order it yields them.\<close>

definition sse_stream :: "sse_event list \<Rightarrow> sse_event result list" where
  "sse_stream es = map Inr es"

abbreviation (input) CR :: char where "CR \<equiv> CHR 0x0D"
abbreviation (input) LF :: char where "LF \<equiv> CHR 0x0A"

fun replace_crlf :: "str \<Rightarrow> str" where
  "replace_crlf (a # b # s) = (if a = CR \<and> b = LF then LF # replace_crlf s else a # replace_crlf (b # s))"
| "replace_crlf s = s"

definition sse_normalized :: "str \<Rightarrow> str" where
  "sse_normalized v = map (\<lambda>c. if c = CR then LF else c) (replace_crlf v)"

definition sse_lines :: "str \<Rightarrow> str list" where
  "sse_lines v = (let normalized = sse_normalized v in if normalized = [] then [[]] else split_on LF normalized)"

definition push_comment :: "str \<Rightarrow> str" where
  "push_comment v = concat (map (\<lambda>line. '': '' @ line @ [LF]) (sse_lines v))"

definition push_field :: "str \<Rightarrow> str \<Rightarrow> str" where
  "push_field name v = concat (map (\<lambda>line. name @ '': '' @ line @ [LF]) (sse_lines v))"

definition sse_encode :: "sse_event \<Rightarrow> str" where
  "sse_encode e =
     (case sse_comment e of None \<Rightarrow> [] | Some c \<Rightarrow> push_comment c) @
     (case sse_id e of None \<Rightarrow> [] | Some i \<Rightarrow> push_field ''id'' i) @
     (case sse_name e of None \<Rightarrow> [] | Some n \<Rightarrow> push_field ''event'' n) @
     (case sse_retry e of None \<Rightarrow> [] | Some n \<Rightarrow> ''retry: '' @ show_nat n @ [LF]) @
     (case sse_data e of None \<Rightarrow> [] | Some d \<Rightarrow> push_field ''data'' d) @ [LF]"

text \<open>
  The client of the standard: the buffers for data and event type, the last event id, the
  reconnection time and the events dispatched so far (type, data, last event id). A line
  ends at CR LF, LF or CR; a last line without an end is dropped.
\<close>

record sse_client =
  cl_data :: str
  cl_type :: str
  cl_id :: str
  cl_retry :: "nat option"
  cl_events :: "(str \<times> str \<times> str) list"

definition client_field :: "str \<Rightarrow> str \<Rightarrow> sse_client \<Rightarrow> sse_client" where
  "client_field name v c =
     (if name = ''event'' then c\<lparr>cl_type := v\<rparr>
      else if name = ''data'' then c\<lparr>cl_data := cl_data c @ v @ [LF]\<rparr>
      else if name = ''id'' then (if CHR 0x00 \<in> set v then c else c\<lparr>cl_id := v\<rparr>)
      else if name = ''retry'' then (if v \<noteq> [] \<and> list_all is_ascii_digit v then c\<lparr>cl_retry := Some (digits_value v)\<rparr> else c)
      else c)"

definition client_dispatch :: "sse_client \<Rightarrow> sse_client" where
  "client_dispatch c =
     (if cl_data c = [] then c\<lparr>cl_type := []\<rparr>
      else c\<lparr>cl_data := [], cl_type := [],
             cl_events := cl_events c @ [(if cl_type c = [] then ''message'' else cl_type c, butlast (cl_data c), cl_id c)]\<rparr>)"

definition client_line :: "str \<Rightarrow> sse_client \<Rightarrow> sse_client" where
  "client_line line c =
     (if line = [] then client_dispatch c
      else if hd line = CHR '':'' then c
      else case split_once CHR '':'' line of
          Some (name, v) \<Rightarrow> client_field name (if v \<noteq> [] \<and> hd v = CHR '' '' then tl v else v) c
        | None \<Rightarrow> client_field line [] c)"

definition client_read :: "str \<Rightarrow> sse_client \<Rightarrow> sse_client" where
  "client_read s c = fold client_line (butlast (split_on LF (sse_normalized s))) c"

text \<open>What the client makes of one event: what the fields of the event say.\<close>

definition client_receive :: "sse_event \<Rightarrow> sse_client \<Rightarrow> sse_client" where
  "client_receive e c =
     (let ids = (case sse_id e of None \<Rightarrow> [] | Some i \<Rightarrow> filter (\<lambda>l. CHR 0x00 \<notin> set l) (sse_lines i));
          c1 = c\<lparr>cl_id := (if ids = [] then cl_id c else last ids),
                 cl_retry := or_else (sse_retry e) (cl_retry c)\<rparr>;
          ty = (case sse_name e of None \<Rightarrow> [] | Some n \<Rightarrow> last (sse_lines n))
      in case sse_data e of
           None \<Rightarrow> c1
         | Some d \<Rightarrow> c1\<lparr>cl_events := cl_events c @
               [(if ty = [] then ''message'' else ty, sse_normalized d, cl_id c1)]\<rparr>)"

definition client_idle :: "sse_client \<Rightarrow> bool" where
  "client_idle c \<longleftrightarrow> cl_data c = [] \<and> cl_type c = []"

section \<open>What a client reads\<close>

lemma crlf_free: "CR \<notin> set s \<Longrightarrow> replace_crlf s = s"
  by (induction s rule: replace_crlf.induct) auto

lemma normalized_free: "CR \<notin> set s \<Longrightarrow> sse_normalized s = s"
  by (auto simp: sse_normalized_def crlf_free intro!: map_idI)

lemma normalized_no_cr: "CR \<notin> set (sse_normalized s)"
  by (auto simp: sse_normalized_def)

lemma sse_lines_split: "sse_lines v = split_on LF (sse_normalized v)"
  by (simp add: sse_lines_def Let_def)

lemma sse_lines_not_Nil [simp]: "sse_lines v \<noteq> []"
  by (simp add: sse_lines_split)

lemma sse_lines_clean: "l \<in> set (sse_lines v) \<Longrightarrow> LF \<notin> set l \<and> CR \<notin> set l"
proof -
  assume l: "l \<in> set (sse_lines v)"
  have "x \<in> set (split_on c s) \<Longrightarrow> a \<in> set x \<Longrightarrow> a \<in> set s" for x c a and s :: str
  proof (induction s arbitrary: x)
    case (Cons b s)
    obtain h t where "split_on c s = h # t" using split_on_neq_Nil by (meson neq_Nil_conv)
    with Cons.prems Cons.IH [of h] Cons.IH [of x] show ?case by (auto split: if_splits)
  qed simp
  with l show ?thesis using split_on_no_sep normalized_no_cr by (fastforce simp: sse_lines_split)
qed

text \<open>The lines of an encoded event.\<close>

definition encode_lines :: "sse_event \<Rightarrow> str list" where
  "encode_lines e =
     (case sse_comment e of None \<Rightarrow> [] | Some c \<Rightarrow> map ((@) '': '') (sse_lines c)) @
     (case sse_id e of None \<Rightarrow> [] | Some i \<Rightarrow> map ((@) ''id: '') (sse_lines i)) @
     (case sse_name e of None \<Rightarrow> [] | Some n \<Rightarrow> map ((@) ''event: '') (sse_lines n)) @
     (case sse_retry e of None \<Rightarrow> [] | Some n \<Rightarrow> [''retry: '' @ show_nat n]) @
     (case sse_data e of None \<Rightarrow> [] | Some d \<Rightarrow> map ((@) ''data: '') (sse_lines d)) @ [[]]"

definition lf_ended :: "str list \<Rightarrow> str" where
  "lf_ended ls = concat (map (\<lambda>l. l @ [LF]) ls)"

lemma lf_ended_simps [simp]:
  "lf_ended [] = []" "lf_ended (l # ls) = l @ LF # lf_ended ls" "lf_ended (xs @ ys) = lf_ended xs @ lf_ended ys"
  by (simp_all add: lf_ended_def)

lemma lf_ended_concat: "lf_ended (concat lss) = concat (map lf_ended lss)"
  by (induction lss) simp_all

lemma sse_encode_lines: "sse_encode e = lf_ended (encode_lines e)"
proof -
  have field: "push_field n v = lf_ended (map ((@) (n @ '': '')) (sse_lines v))" for n v
    by (simp add: push_field_def lf_ended_def comp_def)
  have "push_comment v = lf_ended (map ((@) '': '') (sse_lines v))" for v
    by (simp add: push_comment_def lf_ended_def comp_def)
  then show ?thesis
    using field [of "''id''"] field [of "''event''"] field [of "''data''"]
    by (simp add: sse_encode_def encode_lines_def split: option.split)
qed

lemma show_nat_clean: "LF \<notin> set (show_nat n)" "CR \<notin> set (show_nat n)"
  using show_nat_digits [of LF n] show_nat_digits [of CR n] by (auto simp: is_ascii_digit_def byte_def)

lemma encode_lines_clean: "l \<in> set (encode_lines e) \<Longrightarrow> LF \<notin> set l \<and> CR \<notin> set l"
  by (auto simp: encode_lines_def show_nat_clean dest: sse_lines_clean split: option.splits)

lemma read_lines:
  assumes "\<forall>l \<in> set ls. LF \<notin> set l \<and> CR \<notin> set l"
  shows "client_read (lf_ended ls) c = fold client_line ls c"
proof -
  have "CR \<notin> set (lf_ended ls)" using assms by (auto simp: lf_ended_def)
  moreover have "butlast (split_on LF (lf_ended ls)) = ls"
    using assms by (induction ls) (simp_all add: split_on_append)
  ultimately show ?thesis by (simp add: client_read_def normalized_free)
qed

lemma fold_comment: "fold client_line (map ((@) '': '') ls) c = c"
  by (induction ls) (simp_all add: client_line_def)

lemma client_line_field:
  "name \<noteq> [] \<Longrightarrow> CHR '':'' \<notin> set name \<Longrightarrow> client_line (name @ CHR '':'' # CHR '' '' # v) c = client_field name v c"
proof -
  assume name: "name \<noteq> []" "CHR '':'' \<notin> set name"
  then have "split_once CHR '':'' (name @ CHR '':'' # CHR '' '' # v) = Some (name, CHR '' '' # v)"
    by (simp add: split_once_Some_iff)
  moreover have "hd (name @ CHR '':'' # CHR '' '' # v) \<noteq> CHR '':''"
    using name by (cases name) auto
  ultimately show ?thesis using name by (simp add: client_line_def)
qed

lemma client_line_fields:
  "client_line (''id: '' @ v) c = client_field ''id'' v c"
  "client_line (''event: '' @ v) c = client_field ''event'' v c"
  "client_line (''retry: '' @ v) c = client_field ''retry'' v c"
  "client_line (''data: '' @ v) c = client_field ''data'' v c"
  using client_line_field [of "''id''" v c] client_line_field [of "''event''" v c]
    client_line_field [of "''retry''" v c] client_line_field [of "''data''" v c] by simp_all

lemma fold_id:
  "fold client_line (map ((@) ''id: '') ls) c =
     (let ids = filter (\<lambda>l. CHR 0x00 \<notin> set l) ls in c\<lparr>cl_id := if ids = [] then cl_id c else last ids\<rparr>)"
  by (induction ls arbitrary: c)
    (auto simp: client_line_fields client_field_def Let_def simp del: append_Cons append_Nil)

lemma fold_event: "ls \<noteq> [] \<Longrightarrow> fold client_line (map ((@) ''event: '') ls) c = c\<lparr>cl_type := last ls\<rparr>"
  by (induction ls arbitrary: c rule: induct_list012)
    (simp_all add: client_line_fields client_field_def del: append_Cons append_Nil)

lemma fold_data: "fold client_line (map ((@) ''data: '') ls) c = c\<lparr>cl_data := cl_data c @ lf_ended ls\<rparr>"
proof (induction ls arbitrary: c)
  case (Cons l ls)
  then show ?case by (simp add: client_line_fields client_field_def del: append_Cons append_Nil)
qed simp

lemma line_retry: "client_line (''retry: '' @ show_nat n) c = c\<lparr>cl_retry := Some n\<rparr>"
proof -
  have "show_nat n \<noteq> []" by (simp add: show_nat.simps [of n])
  moreover have "list_all is_ascii_digit (show_nat n)" by (simp add: list_all_iff show_nat_digits)
  moreover have "digits_value (show_nat n) = n" using foldl_digits [of 0 n] by (simp add: digits_value_def)
  ultimately show ?thesis by (simp add: client_line_fields client_field_def del: append_Cons append_Nil)
qed

lemma butlast_lf_ended: "ls \<noteq> [] \<Longrightarrow> butlast (lf_ended ls) = join_with [LF] ls"
  by (induction ls rule: induct_list012) (simp_all add: butlast_append)

lemma data_joined: "butlast (lf_ended (sse_lines d)) = sse_normalized d"
  by (simp add: butlast_lf_ended) (simp add: sse_lines_split join_split)

lemma client_reads_parts:
  "fold client_line (case sse_comment e of None \<Rightarrow> [] | Some c \<Rightarrow> map ((@) '': '') (sse_lines c)) c = c"
  "fold client_line (case sse_id e of None \<Rightarrow> [] | Some i \<Rightarrow> map ((@) ''id: '') (sse_lines i)) c =
     (let ids = (case sse_id e of None \<Rightarrow> [] | Some i \<Rightarrow> filter (\<lambda>l. CHR 0x00 \<notin> set l) (sse_lines i))
      in c\<lparr>cl_id := if ids = [] then cl_id c else last ids\<rparr>)"
  "fold client_line (case sse_name e of None \<Rightarrow> [] | Some n \<Rightarrow> map ((@) ''event: '') (sse_lines n)) c =
     c\<lparr>cl_type := (case sse_name e of None \<Rightarrow> cl_type c | Some n \<Rightarrow> last (sse_lines n))\<rparr>"
  "fold client_line (case sse_retry e of None \<Rightarrow> [] | Some n \<Rightarrow> [''retry: '' @ show_nat n]) c =
     c\<lparr>cl_retry := or_else (sse_retry e) (cl_retry c)\<rparr>"
  "fold client_line (case sse_data e of None \<Rightarrow> [] | Some d \<Rightarrow> map ((@) ''data: '') (sse_lines d)) c =
     c\<lparr>cl_data := cl_data c @ (case sse_data e of None \<Rightarrow> [] | Some d \<Rightarrow> lf_ended (sse_lines d))\<rparr>"
proof -
  show "fold client_line (case sse_comment e of None \<Rightarrow> [] | Some c \<Rightarrow> map ((@) '': '') (sse_lines c)) c = c"
    by (cases "sse_comment e") (simp_all add: fold_comment)
  show "fold client_line (case sse_id e of None \<Rightarrow> [] | Some i \<Rightarrow> map ((@) ''id: '') (sse_lines i)) c =
     (let ids = (case sse_id e of None \<Rightarrow> [] | Some i \<Rightarrow> filter (\<lambda>l. CHR 0x00 \<notin> set l) (sse_lines i))
      in c\<lparr>cl_id := if ids = [] then cl_id c else last ids\<rparr>)"
    by (cases "sse_id e") (simp_all add: fold_id)
  show "fold client_line (case sse_name e of None \<Rightarrow> [] | Some n \<Rightarrow> map ((@) ''event: '') (sse_lines n)) c =
     c\<lparr>cl_type := (case sse_name e of None \<Rightarrow> cl_type c | Some n \<Rightarrow> last (sse_lines n))\<rparr>"
    by (cases "sse_name e") (simp_all add: fold_event)
  show "fold client_line (case sse_retry e of None \<Rightarrow> [] | Some n \<Rightarrow> [''retry: '' @ show_nat n]) c =
     c\<lparr>cl_retry := or_else (sse_retry e) (cl_retry c)\<rparr>"
    using line_retry by (cases "sse_retry e") simp_all
  show "fold client_line (case sse_data e of None \<Rightarrow> [] | Some d \<Rightarrow> map ((@) ''data: '') (sse_lines d)) c =
     c\<lparr>cl_data := cl_data c @ (case sse_data e of None \<Rightarrow> [] | Some d \<Rightarrow> lf_ended (sse_lines d))\<rparr>"
    by (cases "sse_data e") (simp_all add: fold_data)
qed

lemma client_reads_event:
  assumes "client_idle c"
  shows "fold client_line (encode_lines e) c = client_receive e c \<and> client_idle (client_receive e c)"
proof -
  have blank: "client_line [] c = client_dispatch c" for c by (simp add: client_line_def)
  have written: "lf_ended (sse_lines d) \<noteq> []" for d
    using sse_lines_not_Nil by (cases "sse_lines d") simp_all
  have idle: "cl_data c = []" "cl_type c = []" using assms by (simp_all add: client_idle_def)
  let ?ids = "case sse_id e of None \<Rightarrow> [] | Some i \<Rightarrow> filter (\<lambda>l. CHR 0x00 \<notin> set l) (sse_lines i)"
  have "fold client_line (encode_lines e) c =
      client_dispatch (c\<lparr>cl_data := (case sse_data e of None \<Rightarrow> [] | Some d \<Rightarrow> lf_ended (sse_lines d)),
        cl_type := (case sse_name e of None \<Rightarrow> [] | Some n \<Rightarrow> last (sse_lines n)),
        cl_id := if ?ids = [] then cl_id c else last ?ids, cl_retry := or_else (sse_retry e) (cl_retry c)\<rparr>)"
    using idle by (cases c)
      (simp add: encode_lines_def client_reads_parts blank Let_def del: append_Cons append_Nil,
        simp add: option.case_eq_if)
  then show ?thesis using idle
    by (cases "sse_data e") (simp_all add: client_dispatch_def client_receive_def client_idle_def Let_def written data_joined)
qed

text \<open>
  C34. Server-sent events arrive as they were meant. A client that follows the HTML standard and
  reads the concatenated encodings of any events sees, event by event, what their fields say:
  an event with data is dispatched once, with the data whose line ends are LF, under the last
  line of its name or \<open>message\<close>; the id and the retry time are taken over; comments and events
  without data dispatch nothing. So no text in a field, line ends included, can start another
  field or another event, and nothing of one event leaks into the next.
\<close>
theorem sse_delivery:
  assumes idle: "client_idle c"
  shows "client_read (concat (map sse_encode es)) c = fold client_receive es c"
proof -
  have "fold client_line (concat (map encode_lines es)) c = fold client_receive es c"
    using idle by (induction es arbitrary: c) (simp_all add: client_reads_event)
  moreover have "concat (map sse_encode es) = lf_ended (concat (map encode_lines es))"
    by (simp add: lf_ended_concat comp_def sse_encode_lines [abs_def])
  moreover have "\<forall>l \<in> set (concat (map encode_lines es)). LF \<notin> set l \<and> CR \<notin> set l"
    using encode_lines_clean by auto
  ultimately show ?thesis by (simp add: read_lines)
qed

definition sample_client :: sse_client where
  "sample_client = \<lparr>cl_data = [], cl_type = [], cl_id = ''0'', cl_retry = None, cl_events = []\<rparr>"

definition sample_event :: sse_event where
  "sample_event = sse_with_id ''7'' (sse_with_event (''up'' @ [LF] @ ''data: x'') (sse_new (''a'' @ [CR, LF, LF] @ ''id: 9'')))"

lemma sse_delivery_witness:
  "cl_events (client_read (concat (map sse_encode [sample_event, sse_new [], sse_only_comment ''c''])) sample_client) =
     [(''data: x'', ''a'' @ [LF, LF] @ ''id: 9'', ''7''), (''message'', [], ''7'')]"
proof -
  have "client_idle sample_client" by code_simp
  moreover have "cl_events (fold client_receive [sample_event, sse_new [], sse_only_comment ''c''] sample_client) =
     [(''data: x'', ''a'' @ [LF, LF] @ ''id: 9'', ''7''), (''message'', [], ''7'')]"
    by code_simp
  ultimately show ?thesis using sse_delivery by metis
qed

section \<open>Compression\<close>

record compression_options =
  co_min_size :: nat

definition compression_default :: compression_options where
  "compression_default = \<lparr>co_min_size = 1024\<rparr>"

definition with_min_size :: "nat \<Rightarrow> compression_options \<Rightarrow> compression_options" where
  "with_min_size n opts = opts\<lparr>co_min_size := n\<rparr>"

text \<open>One coding of an \<open>Accept-Encoding\<close> field: its name and its weight.\<close>

definition parse_coding :: "(str \<Rightarrow> rat option) \<Rightarrow> str \<Rightarrow> str \<times> rat" where
  "parse_coding pq coding =
     (let parts = split_on CHR '';'' coding
      in (trim (hd parts),
          fold (\<lambda>parameter q. case split_once CHR ''='' (trim parameter) of
              None \<Rightarrow> q
            | Some (key, v) \<Rightarrow>
                if eq_ignore_ascii_case (trim key) ''q'' then (case pq (trim v) of None \<Rightarrow> 0 | Some x \<Rightarrow> x) else q)
            (tl parts) 1))"

definition coding_step :: "str \<times> rat \<Rightarrow> rat option \<times> rat option \<Rightarrow> rat option \<times> rat option" where
  "coding_step = (\<lambda>(name, q) (gzip_q, wildcard_q).
     if eq_ignore_ascii_case name ''gzip'' then (Some q, wildcard_q)
     else if name = ''*'' then (gzip_q, Some q) else (gzip_q, wildcard_q))"

definition accept_codings :: "(str \<Rightarrow> rat option) \<Rightarrow> str list \<Rightarrow> (str \<times> rat) list" where
  "accept_codings pq vs = map (parse_coding pq) (concat (map (split_on CHR '','') vs))"

definition accepts_gzip :: "(str \<Rightarrow> rat option) \<Rightarrow> str list \<Rightarrow> bool" where
  "accepts_gzip pq vs =
     (let (gzip_q, wildcard_q) = fold coding_step (accept_codings pq vs) (None, None)
      in case or_else gzip_q wildcard_q of None \<Rightarrow> False | Some q \<Rightarrow> q > 0)"

definition is_compressible_response :: "boot_response \<Rightarrow> bool" where
  "is_compressible_response r =
     (case response_content_type r of
        None \<Rightarrow> False
      | Some ct \<Rightarrow>
          (let mt = to_ascii_lowercase (trim (hd (split_on CHR '';'' ct)))
           in starts_with ''text/'' mt
              \<or> mt \<in> {''application/json'', ''application/javascript'', ''application/xml'', ''application/xhtml+xml'',
                     ''application/rss+xml'', ''application/atom+xml'', ''image/svg+xml''}
              \<or> ends_with ''+json'' mt \<or> ends_with ''+xml'' mt))"

definition ensure_vary_accept_encoding :: "boot_response \<Rightarrow> boot_response" where
  "ensure_vary_accept_encoding r =
     (case response_header r ''vary'' of
        None \<Rightarrow> response_with_header ''vary'' ''accept-encoding'' r
      | Some vary \<Rightarrow>
          if list_ex (\<lambda>v. v = ''*'' \<or> eq_ignore_ascii_case v ''accept-encoding'') (map trim (split_on CHR '','' vary))
          then r
          else response_with_header ''vary'' (vary @ '', accept-encoding'') r)"

definition skips_compression ::
    "(str \<Rightarrow> rat option) \<Rightarrow> boot_response \<Rightarrow> ('m, 'v) execution_context \<Rightarrow> compression_options \<Rightarrow> bool" where
  "skips_compression pq r ctx opts =
     (is_streaming r \<or> \<not> has_body r \<or> \<not> allows_body r
      \<or> length (rs_body r) < co_min_size opts
      \<or> response_header r ''content-encoding'' \<noteq> None
      \<or> \<not> accepts_gzip pq (request_header_values (ec_request ctx) ''accept-encoding'')
      \<or> \<not> is_compressible_response r)"

definition compress_response ::
    "(str \<Rightarrow> rat option) \<Rightarrow> (str \<Rightarrow> str result) \<Rightarrow> boot_response \<Rightarrow> ('m, 'v) execution_context
     \<Rightarrow> compression_options \<Rightarrow> boot_response result" where
  "compress_response pq gz r ctx opts =
     (if skips_compression pq r ctx opts then Inr r
      else let had_content_length = response_header_values r ''content-length'' \<noteq> []
      in rbind (gz (rs_body r)) (\<lambda>body.
         let r1 = ensure_vary_accept_encoding (response_with_header ''content-encoding'' ''gzip'' (r\<lparr>rs_body := body\<rparr>))
         in Inr (if had_content_length then
             response_with_header ''content-length'' (show_nat (length (rs_body r1)))
               (r1\<lparr>rs_headers := bt_remove ''content-length'' (rs_headers r1),
                   rs_appended_headers := filter (\<lambda>(n, _). \<not> eq_ignore_ascii_case n ''content-length'')
                     (rs_appended_headers r1)\<rparr>)
           else r1)))"

definition compression_interceptor ::
    "(str \<Rightarrow> rat option) \<Rightarrow> (str \<Rightarrow> str result) \<Rightarrow> compression_options \<Rightarrow> ('w, 'm, 'v) interceptor" where
  "compression_interceptor pq gz opts =
     default_intercept (\<lambda>_ w. (Inr (), w)) (\<lambda>_ w. (Inr None, w))
       (\<lambda>ctx r w. (compress_response pq gz r ctx opts, w))"

section \<open>What compression does\<close>

lemma ensure_vary_same: "ensure_vary_accept_encoding r = ensure_vary_header ''accept-encoding'' r"
  by (simp add: ensure_vary_accept_encoding_def ensure_vary_header_def split: option.split)

definition last_weight :: "(str \<Rightarrow> bool) \<Rightarrow> (str \<times> rat) list \<Rightarrow> rat option" where
  "last_weight p cs = (let ds = filter (\<lambda>c. p (fst c)) cs in if ds = [] then None else Some (snd (last ds)))"

lemma last_weight_snoc: "last_weight p (cs @ [c]) = (if p (fst c) then Some (snd c) else last_weight p cs)"
  by (simp add: last_weight_def Let_def)

lemma coding_fold:
  "fold coding_step cs (None, None) =
     (last_weight (\<lambda>n. eq_ignore_ascii_case n ''gzip'') cs, last_weight (\<lambda>n. n = ''*'') cs)"
proof (induction cs rule: rev_induct)
  case (snoc c cs)
  have "\<not> eq_ignore_ascii_case ''*'' ''gzip''" by code_simp
  with snoc show ?case by (cases c) (auto simp: last_weight_snoc coding_step_def)
qed (simp add: last_weight_def)

text \<open>The last coding named \<open>gzip\<close> decides, and without one the last \<open>*\<close>.\<close>

lemma accepts_gzip_exact:
  "accepts_gzip pq vs \<longleftrightarrow>
     (case or_else (last_weight (\<lambda>n. eq_ignore_ascii_case n ''gzip'') (accept_codings pq vs))
        (last_weight (\<lambda>n. n = ''*'') (accept_codings pq vs)) of
      None \<Rightarrow> False | Some q \<Rightarrow> q > 0)"
  by (simp add: accepts_gzip_def coding_fold)

definition length_dropped :: "boot_response \<Rightarrow> boot_response" where
  "length_dropped r =
     r\<lparr>rs_headers := bt_remove ''content-length'' (rs_headers r),
       rs_appended_headers := filter (\<lambda>(n, _). \<not> eq_ignore_ascii_case n ''content-length'') (rs_appended_headers r)\<rparr>"

lemma length_dropped_normal: "headers_normal (rs_headers r) \<Longrightarrow> headers_normal (rs_headers (length_dropped r))"
  by (auto simp: length_dropped_def headers_normal_def list_all_iff) (auto simp: bt_remove_def)

lemma length_dropped_header:
  assumes "headers_normal (rs_headers r)" "\<not> eq_ignore_ascii_case ''content-length'' m"
  shows "response_header (length_dropped r) m = response_header r m"
proof -
  have "normalize_header_name m \<noteq> ''content-length''"
    using assms(2) by (metis cl_normal eq_ignore_ascii_case_def normalize_header_name_def)
  then show ?thesis
    using assms(1) length_dropped_normal [OF assms(1)]
    by (simp add: response_header_def get_header_normal) (simp add: length_dropped_def)
qed

definition gzip_labelled :: "str \<Rightarrow> boot_response \<Rightarrow> boot_response" where
  "gzip_labelled body r =
     ensure_vary_header ''accept-encoding'' (response_with_header ''content-encoding'' ''gzip'' (r\<lparr>rs_body := body\<rparr>))"

lemma gzip_labelled_facts:
  assumes "headers_normal (rs_headers r)"
  shows "headers_normal (rs_headers (gzip_labelled body r))"
    and "rs_body (gzip_labelled body r) = body" and "rs_status (gzip_labelled body r) = rs_status r"
    and "rs_stream (gzip_labelled body r) = rs_stream r"
    and "rs_appended_headers (gzip_labelled body r) = rs_appended_headers r"
    and "response_header (gzip_labelled body r) ''content-encoding'' = Some ''gzip''"
    and "vary_lists (gzip_labelled body r) ''accept-encoding''"
    and "\<not> eq_ignore_ascii_case ''content-encoding'' m \<Longrightarrow> \<not> eq_ignore_ascii_case ''vary'' m \<Longrightarrow>
      response_header (gzip_labelled body r) m = response_header r m"
proof -
  let ?r = "response_with_header ''content-encoding'' ''gzip'' (r\<lparr>rs_body := body\<rparr>)"
  have n: "headers_normal (rs_headers ?r)" using assms by (simp add: rs.put_normal)
  then show "headers_normal (rs_headers (gzip_labelled body r))" by (simp add: gzip_labelled_def)
  show "rs_body (gzip_labelled body r) = body" "rs_status (gzip_labelled body r) = rs_status r"
    by (simp_all add: gzip_labelled_def)
  show "rs_stream (gzip_labelled body r) = rs_stream r"
    and "rs_appended_headers (gzip_labelled body r) = rs_appended_headers r"
    by (auto simp: gzip_labelled_def ensure_vary_header_def response_with_header_def split: option.split)
  have "\<not> eq_ignore_ascii_case ''vary'' ''content-encoding''" by code_simp
  with n show "response_header (gzip_labelled body r) ''content-encoding'' = Some ''gzip''"
    using assms by (simp add: gzip_labelled_def ensure_vary_other header_put)
  have "CHR '','' \<notin> set ''accept-encoding''" "trim (CHR '' '' # ''accept-encoding'') = ''accept-encoding''"
    "trim ''accept-encoding'' = ''accept-encoding''" by code_simp+
  with n show "vary_lists (gzip_labelled body r) ''accept-encoding''"
    unfolding gzip_labelled_def using ensure_vary_lists by blast
  show "response_header (gzip_labelled body r) m = response_header r m"
    if "\<not> eq_ignore_ascii_case ''content-encoding'' m" "\<not> eq_ignore_ascii_case ''vary'' m"
  proof -
    have "response_header ?r m = response_header (r\<lparr>rs_body := body\<rparr>) m"
      using that assms by (simp add: header_put)
    also have "\<dots> = response_header r m" by (simp add: response_header_def)
    finally show ?thesis using that n by (simp add: gzip_labelled_def ensure_vary_other)
  qed
qed

lemma compress_response_alt:
  "compress_response pq gz r ctx opts =
     (if skips_compression pq r ctx opts then Inr r
      else rmap (\<lambda>body. let r1 = gzip_labelled body r in
          if response_header_values r ''content-length'' \<noteq> []
          then response_with_header ''content-length'' (show_nat (length (rs_body r1))) (length_dropped r1) else r1)
        (gz (rs_body r)))"
  by (cases "gz (rs_body r)")
    (simp_all add: compress_response_def ensure_vary_same gzip_labelled_def length_dropped_def Let_def)

text \<open>
  A response is compressed exactly when it should be, and stays consistent. One that is
  streamed, empty, bodyless by its status, smaller than the threshold, already encoded, of a type
  not worth it, or for a client whose \<open>Accept-Encoding\<close> gives \<open>gzip\<close> (or, without it, \<open>*\<close>) no
  positive weight goes through untouched. Any other has the gzip of its body, says so in
  \<open>Content-Encoding\<close>, lists \<open>Accept-Encoding\<close> in \<open>Vary\<close>, keeps its status and every other field,
  and if its length was declared correctly it still is.
\<close>
theorem compressed_response:
  assumes compressed: "compress_response pq gz r ctx opts = Inr r'"
    and normal: "headers_normal (rs_headers r)" and small: "length (rs_body r') < 2 ^ 64"
    and ok: "response_validate_content_length r = Inr ()"
  shows "(if skips_compression pq r ctx opts then r' = r
     else gz (rs_body r) = Inr (rs_body r') \<and> rs_status r' = rs_status r \<and>
       response_header r' ''content-encoding'' = Some ''gzip'' \<and> vary_lists r' ''accept-encoding'' \<and>
       (\<forall>m. eq_ignore_ascii_case ''content-encoding'' m \<or> eq_ignore_ascii_case ''vary'' m
          \<or> eq_ignore_ascii_case ''content-length'' m \<or> response_header r' m = response_header r m)) \<and>
    response_validate_content_length r' = Inr ()"
proof (cases "skips_compression pq r ctx opts")
  case True
  with compressed ok show ?thesis by (simp add: compress_response_def)
next
  case False
  let ?r1 = "\<lambda>body. gzip_labelled body r"
  obtain body where gz: "gz (rs_body r) = Inr body"
    and r': "r' = (if response_header_values r ''content-length'' \<noteq> []
       then response_with_header ''content-length'' (show_nat (length (rs_body (?r1 body)))) (length_dropped (?r1 body)) else ?r1 body)"
    using compressed False by (auto simp: compress_response_alt rmap_Inr_iff Let_def)
  note l = gzip_labelled_facts [OF normal, of body]
  have n: "headers_normal (rs_headers (length_dropped (?r1 body)))" using l(1) by (rule length_dropped_normal)
  have other: "response_header r' m = response_header (?r1 body) m" if "\<not> eq_ignore_ascii_case ''content-length'' m" for m
    using that n l(1) by (simp add: r' header_put length_dropped_header)
  have body: "rs_body r' = body" using l(2) by (simp add: r') (simp add: length_dropped_def)
  have streaming: "\<not> is_streaming r" using False by (simp add: skips_compression_def)
  then have unstreamed: "\<not> is_streaming (?r1 body)" using l(4) by (simp add: is_streaming_def)
  have "\<not> eq_ignore_ascii_case ''content-length'' ''content-encoding''"
    "\<not> eq_ignore_ascii_case ''content-length'' ''vary''" by code_simp+
  then have labels: "response_header r' ''content-encoding'' = Some ''gzip''" "vary_lists r' ''accept-encoding''"
    using other l(6,7) by (simp_all add: vary_lists_def)
  have "\<not> eq_ignore_ascii_case ''content-encoding'' ''content-length''"
    "\<not> eq_ignore_ascii_case ''vary'' ''content-length''" by code_simp+
  then have same: "response_header_values (?r1 body) ''content-length'' = response_header_values r ''content-length''"
    using l(5) gzip_labelled_facts(8) [OF normal, of "''content-length''" body] by (simp add: response_header_values_def header_values_of_def response_header_def)
  have "response_validate_content_length r' = Inr ()"
  proof (cases "response_header_values r ''content-length'' = []")
    case True
    with same have "response_header_values r' ''content-length'' = []" by (simp add: r')
    then show ?thesis
      by (simp add: response_validate_content_length_def response_strict_content_length_def strict_content_length_values_def)
  next
    case False
    have "r' = response_with_header ''content-length'' (show_nat (length body))
        ((?r1 body)\<lparr>rs_body := body, rs_headers := bt_remove ''content-length'' (rs_headers (?r1 body)),
           rs_appended_headers := filter (\<lambda>(n, _). \<not> eq_ignore_ascii_case n ''content-length'') (rs_appended_headers (?r1 body))\<rparr>)"
      using False l(2) by (cases "?r1 body") (simp add: r' length_dropped_def)
    with response_length_put [OF l(1) _ unstreamed, of body] small body show ?thesis by simp
  qed
  moreover have "rs_status r' = rs_status r" using l(3) by (simp add: r') (simp add: length_dropped_def)
  moreover have "eq_ignore_ascii_case ''content-encoding'' m \<or> eq_ignore_ascii_case ''vary'' m
      \<or> eq_ignore_ascii_case ''content-length'' m \<or> response_header r' m = response_header r m" for m
    using other [of m] gzip_labelled_facts(8) [OF normal, of m body] by (cases "eq_ignore_ascii_case ''content-length'' m") auto
  ultimately show ?thesis using False gz body labels by simp
qed

definition sample_text :: boot_response where
  "sample_text = response_with_header ''content-length'' ''3''
     (response_with_header ''vary'' ''origin'' (response_with_header ''content-type'' ''text/plain'' (response_new 200 ''aaa'')))"

definition sample_gzip_context :: "(unit, unit) execution_context" where
  "sample_gzip_context = sample_context\<lparr>ec_request := request_append_header ''Accept-Encoding'' ''br;q=1, GZIP;q=0.5, *;q=0'' sample_request\<rparr>"

definition sample_weight :: "str \<Rightarrow> rat option" where
  "sample_weight s = (if s = ''1'' then Some 1 else if s = ''0.5'' then Some (1 / 2) else if s = ''0'' then Some 0 else None)"

lemma sample_compressed:
  "compress_response sample_weight (\<lambda>_. Inr ''z'') sample_text sample_gzip_context \<lparr>co_min_size = 2\<rparr> =
     Inr (response_with_header ''content-length'' ''1'' (response_with_header ''content-encoding'' ''gzip''
       (response_with_header ''vary'' ''origin, accept-encoding'' (response_with_header ''content-type'' ''text/plain'' (response_new 200 ''z'')))))"
  by code_simp

lemma compressed_response_witness:
  "\<exists>r'. compress_response sample_weight (\<lambda>_. Inr ''z'') sample_text sample_gzip_context \<lparr>co_min_size = 2\<rparr> = Inr r' \<and>
     rs_body r' = ''z'' \<and> vary_lists r' ''accept-encoding'' \<and> response_validate_content_length r' = Inr ()"
proof -
  have "headers_normal (rs_headers sample_text)" by code_simp
  moreover have "response_validate_content_length sample_text = Inr ()"
  proof -
    have "response_header_values sample_text ''content-length'' = [''3'']" "rs_body sample_text = ''aaa''" "rs_stream sample_text = None"
      by code_simp+
    moreover have "show_nat 3 = ''3''" by code_simp
    ultimately show ?thesis using parse_shown_length [of 3]
      by (simp add: response_validate_content_length_def response_strict_content_length_def strict_values_single is_streaming_def)
  qed
  moreover have "\<not> skips_compression sample_weight sample_text sample_gzip_context \<lparr>co_min_size = 2\<rparr>" by code_simp
  ultimately show ?thesis
    using compressed_response [OF sample_compressed] sample_compressed by (simp add: response_new_def)
qed

end
