(* ===== verification/Scheduler.thy ===== *)
theory Scheduler
  imports Pipeline
begin

text \<open>
  \<open>src/schedule.rs\<close>: scheduled jobs, the in-process scheduler and the loops of its tasks. The
  tasks of the runtime are a list of those that have not been aborted; aborting one stops it.
  Each locked section is a step, so calls on several threads interleave between them. Cron
  expressions are a parameter, as is the error of a missing runtime. Locks are not poisoned
  and counters stay below \<open>2^64\<close>.
\<close>

section \<open>Jobs\<close>

datatype schedule_trigger = ST_Timeout nat | ST_Interval nat | ST_Cron str

definition schedule_trigger_str :: "schedule_trigger \<Rightarrow> str" where
  "schedule_trigger_str t =
     (case t of ST_Timeout _ \<Rightarrow> ''timeout'' | ST_Interval _ \<Rightarrow> ''interval'' | ST_Cron _ \<Rightarrow> ''cron'')"

record 'm schedule_context =
  scx_job_name :: str
  scx_trigger :: schedule_trigger
  scx_run_count :: nat
  scx_module_ref :: 'm

record ('w, 'm) scheduled_job =
  sj_name :: str
  sj_trigger :: schedule_trigger
  sj_task :: "'m schedule_context \<Rightarrow> ('w, unit) step"

definition scheduled_job_new ::
    "str \<Rightarrow> schedule_trigger \<Rightarrow> ('m schedule_context \<Rightarrow> ('w, unit) step) \<Rightarrow> ('w, 'm) scheduled_job" where
  "scheduled_job_new name trigger task = \<lparr>sj_name = name, sj_trigger = trigger, sj_task = task\<rparr>"

definition timeout_job :: "str \<Rightarrow> nat \<Rightarrow> ('m schedule_context \<Rightarrow> ('w, unit) step) \<Rightarrow> ('w, 'm) scheduled_job" where
  "timeout_job name delay task = scheduled_job_new name (ST_Timeout delay) task"

definition interval_job :: "str \<Rightarrow> nat \<Rightarrow> ('m schedule_context \<Rightarrow> ('w, unit) step) \<Rightarrow> ('w, 'm) scheduled_job" where
  "interval_job name interval task = scheduled_job_new name (ST_Interval interval) task"

definition cron_job :: "str \<Rightarrow> str \<Rightarrow> ('m schedule_context \<Rightarrow> ('w, unit) step) \<Rightarrow> ('w, 'm) scheduled_job" where
  "cron_job name expression task = scheduled_job_new name (ST_Cron expression) task"

definition scheduled_job_info :: "('w, 'm) scheduled_job \<Rightarrow> str \<times> schedule_trigger" where
  "scheduled_job_info job = (sj_name job, sj_trigger job)"

definition parse_cron_expression :: "(str \<Rightarrow> str + 'c) \<Rightarrow> str \<Rightarrow> str \<Rightarrow> 'c result" where
  "parse_cron_expression cron job_name expression =
     (let e = trim expression in
      if e = [] then Inl (Internal (''scheduled job `'' @ job_name @ ''` cron expression cannot be empty''))
      else case cron e of
        Inl m \<Rightarrow> Inl (Internal (''invalid cron expression for scheduled job `'' @ job_name @ ''`: '' @ m))
      | Inr c \<Rightarrow> Inr c)"

definition scheduled_job_validate :: "(str \<Rightarrow> str + 'c) \<Rightarrow> ('w, 'm) scheduled_job \<Rightarrow> unit result" where
  "scheduled_job_validate cron job =
     (if trim (sj_name job) = [] then Inl (Internal ''scheduled job name cannot be empty'')
      else let positive = (\<lambda>d. if d = 0
             then Inl (Internal (''scheduled job `'' @ sj_name job @ ''` duration must be greater than zero''))
             else Inr ())
      in case sj_trigger job of
           ST_Timeout delay \<Rightarrow> positive delay
         | ST_Interval delay \<Rightarrow> positive delay
         | ST_Cron expression \<Rightarrow> rmap (\<lambda>_. ()) (parse_cron_expression cron (sj_name job) expression))"

section \<open>The in-process scheduler\<close>

text \<open>\<open>ss_tasks\<close> are the tasks of the runtime: an id, the job and the module it runs for.\<close>

record ('w, 'm) scheduler_state =
  ss_jobs :: "(str, ('w, 'm) scheduled_job) btree"
  ss_handles :: "(str, nat) btree"
  ss_running :: "'m option"
  ss_errors :: "(str \<times> str) list"
  ss_tasks :: "(nat \<times> ('w, 'm) scheduled_job \<times> 'm) list"
  ss_next_task :: nat

definition scheduler_new :: "('w, 'm) scheduler_state" where
  "scheduler_new = \<lparr>ss_jobs = [], ss_handles = [], ss_running = None, ss_errors = [], ss_tasks = [], ss_next_task = 0\<rparr>"

definition abort_tasks :: "nat list \<Rightarrow> ('w, 'm) scheduler_state \<Rightarrow> ('w, 'm) scheduler_state" where
  "abort_tasks ids s = s\<lparr>ss_tasks := filter (\<lambda>t. fst t \<notin> set ids) (ss_tasks s)\<rparr>"

definition runtime_error :: "str \<Rightarrow> boot_error" where
  "runtime_error e = Internal (''scheduler requires a running Tokio runtime: '' @ e)"

definition spawn_job ::
    "str option \<Rightarrow> ('w, 'm) scheduled_job \<Rightarrow> 'm \<Rightarrow> ('w, 'm) scheduler_state \<Rightarrow> unit result \<times> ('w, 'm) scheduler_state" where
  "spawn_job no_runtime job m s =
     (case no_runtime of
        Some e \<Rightarrow> (Inl (runtime_error e), s)
      | None \<Rightarrow>
          if bt_get (ss_handles s) (sj_name job) \<noteq> None then (Inr (), s)
          else (Inr (), s\<lparr>ss_handles := bt_insert (sj_name job) (ss_next_task s) (ss_handles s),
                          ss_tasks := ss_tasks s @ [(ss_next_task s, job, m)],
                          ss_next_task := ss_next_task s + 1\<rparr>))"

text \<open>The locked sections of the operations.\<close>

definition insert_job :: "('w, 'm) scheduled_job \<Rightarrow> ('w, 'm) scheduler_state \<Rightarrow> unit result \<times> ('w, 'm) scheduler_state" where
  "insert_job job s =
     (if bt_get (ss_jobs s) (sj_name job) \<noteq> None
      then (Inl (Internal (''scheduled job is already registered: '' @ sj_name job)), s)
      else (Inr (), s\<lparr>ss_jobs := bt_insert (sj_name job) job (ss_jobs s)\<rparr>))"

definition remove_job :: "str \<Rightarrow> ('w, 'm) scheduler_state \<Rightarrow> ('w, 'm) scheduler_state" where
  "remove_job name s = s\<lparr>ss_jobs := bt_remove name (ss_jobs s)\<rparr>"

definition abort_handle :: "str \<Rightarrow> ('w, 'm) scheduler_state \<Rightarrow> ('w, 'm) scheduler_state" where
  "abort_handle name s =
     (case bt_get (ss_handles s) name of
        None \<Rightarrow> s
      | Some i \<Rightarrow> abort_tasks [i] (s\<lparr>ss_handles := bt_remove name (ss_handles s)\<rparr>))"

definition abort_all :: "('w, 'm) scheduler_state \<Rightarrow> ('w, 'm) scheduler_state" where
  "abort_all s = abort_tasks (map snd (ss_handles s)) (s\<lparr>ss_handles := []\<rparr>)"

fun spawn_jobs ::
    "str option \<Rightarrow> ('w, 'm) scheduled_job list \<Rightarrow> 'm \<Rightarrow> ('w, 'm) scheduler_state \<Rightarrow> unit result \<times> ('w, 'm) scheduler_state" where
  "spawn_jobs no_runtime [] m s = (Inr (), s)"
| "spawn_jobs no_runtime (job # jobs) m s =
     (case spawn_job no_runtime job m s of
        (Inl e, s') \<Rightarrow> (Inl e, s')
      | (Inr _, s') \<Rightarrow> spawn_jobs no_runtime jobs m s')"

definition schedule ::
    "(str \<Rightarrow> str + 'c) \<Rightarrow> str option \<Rightarrow> ('w, 'm) scheduled_job \<Rightarrow> ('w, 'm) scheduler_state
     \<Rightarrow> unit result \<times> ('w, 'm) scheduler_state" where
  "schedule cron no_runtime job s =
     (case scheduled_job_validate cron job of
        Inl e \<Rightarrow> (Inl e, s)
      | Inr _ \<Rightarrow> (case insert_job job s of
          (Inl e, s1) \<Rightarrow> (Inl e, s1)
        | (Inr _, s1) \<Rightarrow> (case ss_running s1 of
            None \<Rightarrow> (Inr (), s1)
          | Some m \<Rightarrow> (case spawn_job no_runtime job m s1 of
              (Inl e, s2) \<Rightarrow> (Inl e, remove_job (sj_name job) s2)
            | (Inr _, s2) \<Rightarrow> (Inr (), s2)))))"

definition scheduler_remove :: "str \<Rightarrow> ('w, 'm) scheduler_state \<Rightarrow> bool \<times> ('w, 'm) scheduler_state" where
  "scheduler_remove name s = (bt_get (ss_jobs s) name \<noteq> None, abort_handle name (remove_job name s))"

definition scheduler_clear :: "('w, 'm) scheduler_state \<Rightarrow> ('w, 'm) scheduler_state" where
  "scheduler_clear s = abort_all (s\<lparr>ss_jobs := []\<rparr>)"

definition scheduler_jobs :: "('w, 'm) scheduler_state \<Rightarrow> (str \<times> schedule_trigger) list" where
  "scheduler_jobs s = map (\<lambda>(_, job). scheduled_job_info job) (ss_jobs s)"

definition scheduler_start ::
    "str option \<Rightarrow> 'm \<Rightarrow> ('w, 'm) scheduler_state \<Rightarrow> unit result \<times> ('w, 'm) scheduler_state" where
  "scheduler_start no_runtime m s =
     (case no_runtime of
        Some e \<Rightarrow> (Inl (runtime_error e), s)
      | None \<Rightarrow>
          if ss_running s \<noteq> None then (Inr (), s)
          else (let s1 = s\<lparr>ss_running := Some m\<rparr> in spawn_jobs no_runtime (map snd (ss_jobs s1)) m s1))"

definition scheduler_shutdown :: "('w, 'm) scheduler_state \<Rightarrow> ('w, 'm) scheduler_state" where
  "scheduler_shutdown s = abort_all (s\<lparr>ss_running := None\<rparr>)"

section \<open>The loop of a task\<close>

definition push_error :: "str \<Rightarrow> boot_error \<Rightarrow> (str \<times> str) list \<Rightarrow> (str \<times> str) list" where
  "push_error name e errors = errors @ [(name, boot_error_display e)]"

text \<open>
  A task acts on the world and on the error log. \<open>sleep\<close> lets time pass in the world, \<open>now\<close>
  reads its clock, and \<open>upcoming\<close> gives the first time of a cron schedule after another. The
  loops are given up to their first \<open>n\<close> rounds.
\<close>

definition run_job_once ::
    "('w, 'm) scheduled_job \<Rightarrow> 'm \<Rightarrow> nat \<Rightarrow> 'w \<times> (str \<times> str) list \<Rightarrow> 'w \<times> (str \<times> str) list" where
  "run_job_once job m run_count st =
     (case sj_task job \<lparr>scx_job_name = sj_name job, scx_trigger = sj_trigger job,
             scx_run_count = run_count, scx_module_ref = m\<rparr> (fst st) of
        (Inl e, w) \<Rightarrow> (w, push_error (sj_name job) e (snd st))
      | (Inr _, w) \<Rightarrow> (w, snd st))"

primrec interval_loop ::
    "nat \<Rightarrow> (nat \<Rightarrow> 'w \<Rightarrow> 'w) \<Rightarrow> ('w, 'm) scheduled_job \<Rightarrow> 'm \<Rightarrow> nat \<Rightarrow> nat
     \<Rightarrow> 'w \<times> (str \<times> str) list \<Rightarrow> 'w \<times> (str \<times> str) list" where
  "interval_loop 0 sleep job m interval run_count st = st"
| "interval_loop (Suc n) sleep job m interval run_count st =
     interval_loop n sleep job m interval (run_count + 1)
       (run_job_once job m (run_count + 1) (apfst (sleep interval) st))"

primrec cron_rounds ::
    "nat \<Rightarrow> (nat \<Rightarrow> 'w \<Rightarrow> 'w) \<Rightarrow> ('w \<Rightarrow> nat) \<Rightarrow> (nat \<Rightarrow> nat option) \<Rightarrow> ('w, 'm) scheduled_job \<Rightarrow> 'm \<Rightarrow> nat
     \<Rightarrow> 'w \<times> (str \<times> str) list \<Rightarrow> 'w \<times> (str \<times> str) list" where
  "cron_rounds 0 sleep now upcoming job m run_count st = st"
| "cron_rounds (Suc n) sleep now upcoming job m run_count st =
     (case upcoming (now (fst st)) of
        None \<Rightarrow> st
      | Some t \<Rightarrow>
          cron_rounds n sleep now upcoming job m (run_count + 1)
            (run_job_once job m (run_count + 1) (apfst (sleep (t - now (fst st))) st)))"

definition run_cron_loop ::
    "nat \<Rightarrow> (str \<Rightarrow> str + 'c) \<Rightarrow> (nat \<Rightarrow> 'w \<Rightarrow> 'w) \<Rightarrow> ('w \<Rightarrow> nat) \<Rightarrow> ('c \<Rightarrow> nat \<Rightarrow> nat option)
     \<Rightarrow> ('w, 'm) scheduled_job \<Rightarrow> 'm \<Rightarrow> str \<Rightarrow> 'w \<times> (str \<times> str) list \<Rightarrow> 'w \<times> (str \<times> str) list" where
  "run_cron_loop n cron sleep now upcoming job m expression st =
     (case parse_cron_expression cron (sj_name job) expression of
        Inl e \<Rightarrow> apsnd (push_error (sj_name job) e) st
      | Inr c \<Rightarrow> cron_rounds n sleep now (upcoming c) job m 0 st)"

definition run_job_loop ::
    "nat \<Rightarrow> (str \<Rightarrow> str + 'c) \<Rightarrow> (nat \<Rightarrow> 'w \<Rightarrow> 'w) \<Rightarrow> ('w \<Rightarrow> nat) \<Rightarrow> ('c \<Rightarrow> nat \<Rightarrow> nat option)
     \<Rightarrow> ('w, 'm) scheduled_job \<Rightarrow> 'm \<Rightarrow> 'w \<times> (str \<times> str) list \<Rightarrow> 'w \<times> (str \<times> str) list" where
  "run_job_loop n cron sleep now upcoming job m st =
     (case sj_trigger job of
        ST_Timeout delay \<Rightarrow> run_job_once job m 1 (apfst (sleep delay) st)
      | ST_Interval interval \<Rightarrow> interval_loop n sleep job m interval 0 st
      | ST_Cron expression \<Rightarrow> run_cron_loop n cron sleep now upcoming job m expression st)"

section \<open>The scheduler module\<close>

record ('w, 'm) schedule_module =
  scm_name :: str
  scm_token :: str
  scm_jobs :: "('w, 'm) scheduled_job list"
  scm_global :: bool

text \<open>\<open>from_scheduler\<close>; \<open>token\<close> is the type name of \<open>Scheduler\<close>.\<close>

definition schedule_module_new :: "str \<Rightarrow> str \<Rightarrow> ('w, 'm) schedule_module" where
  "schedule_module_new token name = \<lparr>scm_name = name, scm_token = token, scm_jobs = [], scm_global = False\<rparr>"

definition schedule_module_job :: "('w, 'm) scheduled_job \<Rightarrow> ('w, 'm) schedule_module \<Rightarrow> ('w, 'm) schedule_module" where
  "schedule_module_job job d = d\<lparr>scm_jobs := scm_jobs d @ [job]\<rparr>"

definition schedule_module_jobs :: "('w, 'm) scheduled_job list \<Rightarrow> ('w, 'm) schedule_module \<Rightarrow> ('w, 'm) schedule_module" where
  "schedule_module_jobs jobs d = d\<lparr>scm_jobs := scm_jobs d @ jobs\<rparr>"

fun schedule_all ::
    "(str \<Rightarrow> str + 'c) \<Rightarrow> str option \<Rightarrow> ('w, 'm) scheduled_job list \<Rightarrow> ('w, 'm) scheduler_state
     \<Rightarrow> unit result \<times> ('w, 'm) scheduler_state" where
  "schedule_all cron no_runtime [] s = (Inr (), s)"
| "schedule_all cron no_runtime (job # jobs) s =
     (case schedule cron no_runtime job s of
        (Inl e, s') \<Rightarrow> (Inl e, s')
      | (Inr _, s') \<Rightarrow> schedule_all cron no_runtime jobs s')"

definition schedule_module_init ::
    "(str \<Rightarrow> str + 'c) \<Rightarrow> str option \<Rightarrow> ('w, 'm) schedule_module \<Rightarrow> ('w, 'm) scheduler_state
     \<Rightarrow> unit result \<times> ('w, 'm) scheduler_state" where
  "schedule_module_init cron no_runtime d s = schedule_all cron no_runtime (scm_jobs d) s"

section \<open>Calls one after the other\<close>

text \<open>Every operation with the error of the runtime it is called in, if it has none.\<close>

datatype ('w, 'm) scheduler_call =
  SC_Schedule "str option" "('w, 'm) scheduled_job"
| SC_Remove str
| SC_Clear
| SC_Start "str option" 'm
| SC_Shutdown

definition scheduler_apply ::
    "(str \<Rightarrow> str + 'c) \<Rightarrow> ('w, 'm) scheduler_call \<Rightarrow> ('w, 'm) scheduler_state \<Rightarrow> bool result \<times> ('w, 'm) scheduler_state" where
  "scheduler_apply cron c s =
     (case c of
        SC_Schedule rt job \<Rightarrow> apfst (rmap (\<lambda>_. True)) (schedule cron rt job s)
      | SC_Remove name \<Rightarrow> apfst Inr (scheduler_remove name s)
      | SC_Clear \<Rightarrow> (Inr True, scheduler_clear s)
      | SC_Start rt m \<Rightarrow> apfst (rmap (\<lambda>_. True)) (scheduler_start rt m s)
      | SC_Shutdown \<Rightarrow> (Inr True, scheduler_shutdown s))"

primrec scheduler_run ::
    "(str \<Rightarrow> str + 'c) \<Rightarrow> ('w, 'm) scheduler_call list \<Rightarrow> ('w, 'm) scheduler_state \<Rightarrow> bool result list \<times> ('w, 'm) scheduler_state" where
  "scheduler_run cron [] s = ([], s)"
| "scheduler_run cron (c # cs) s =
     (let (r, s') = scheduler_apply cron c s in apfst ((#) r) (scheduler_run cron cs s'))"

text \<open>What a scheduler promises: a table of jobs that run while it is started.\<close>

record ('w, 'm) timetable =
  tt_jobs :: "str \<Rightarrow> ('w, 'm) scheduled_job option"
  tt_running :: "'m option"

definition timetable_apply ::
    "(str \<Rightarrow> str + 'c) \<Rightarrow> ('w, 'm) scheduler_call \<Rightarrow> ('w, 'm) timetable \<Rightarrow> bool result \<times> ('w, 'm) timetable" where
  "timetable_apply cron c t =
     (case c of
        SC_Schedule rt job \<Rightarrow>
          (case scheduled_job_validate cron job of
             Inl e \<Rightarrow> (Inl e, t)
           | Inr _ \<Rightarrow>
               if tt_jobs t (sj_name job) \<noteq> None
               then (Inl (Internal (''scheduled job is already registered: '' @ sj_name job)), t)
               else if tt_running t \<noteq> None \<and> rt \<noteq> None then (Inl (runtime_error (the rt)), t)
               else (Inr True, t\<lparr>tt_jobs := (tt_jobs t)(sj_name job \<mapsto> job)\<rparr>))
      | SC_Remove name \<Rightarrow> (Inr (tt_jobs t name \<noteq> None), t\<lparr>tt_jobs := (tt_jobs t)(name := None)\<rparr>)
      | SC_Clear \<Rightarrow> (Inr True, t\<lparr>tt_jobs := (\<lambda>_. None)\<rparr>)
      | SC_Start rt m \<Rightarrow>
          (case rt of
             Some e \<Rightarrow> (Inl (runtime_error e), t)
           | None \<Rightarrow> (Inr True, if tt_running t = None then t\<lparr>tt_running := Some m\<rparr> else t))
      | SC_Shutdown \<Rightarrow> (Inr True, t\<lparr>tt_running := None\<rparr>))"

primrec timetable_run ::
    "(str \<Rightarrow> str + 'c) \<Rightarrow> ('w, 'm) scheduler_call list \<Rightarrow> ('w, 'm) timetable \<Rightarrow> bool result list \<times> ('w, 'm) timetable" where
  "timetable_run cron [] t = ([], t)"
| "timetable_run cron (c # cs) t =
     (let (r, t') = timetable_apply cron c t in apfst ((#) r) (timetable_run cron cs t'))"

definition timetable_new :: "('w, 'm) timetable" where
  "timetable_new = \<lparr>tt_jobs = (\<lambda>_. None), tt_running = None\<rparr>"

text \<open>The names of the running tasks, and the state of the handles in every interleaving.\<close>

definition task_name :: "nat \<times> ('w, 'm) scheduled_job \<times> 'm \<Rightarrow> str" where
  "task_name t = sj_name (fst (snd t))"

definition task_ids :: "(nat \<times> ('w, 'm) scheduled_job \<times> 'm) list \<Rightarrow> str \<Rightarrow> nat option" where
  "task_ids ts = map_of (map (\<lambda>t. (task_name t, fst t)) ts)"

definition handles_ok :: "('w, 'm) scheduler_state \<Rightarrow> bool" where
  "handles_ok s \<longleftrightarrow>
     bt_wf (ss_handles s) \<and> distinct (map fst (ss_tasks s)) \<and> distinct (map task_name (ss_tasks s)) \<and>
     (\<forall>t \<in> set (ss_tasks s). fst t < ss_next_task s) \<and> bt_get (ss_handles s) = task_ids (ss_tasks s)"

definition timetable_shows :: "('w, 'm) timetable \<Rightarrow> ('w, 'm) scheduler_state \<Rightarrow> bool" where
  "timetable_shows t s \<longleftrightarrow>
     tt_jobs t = bt_get (ss_jobs s) \<and> tt_running t = ss_running s \<and>
     distinct (map task_name (ss_tasks s)) \<and>
     snd ` set (ss_tasks s) = {(job, m). tt_running t = Some m \<and> tt_jobs t (sj_name job) = Some job}"

definition jobs_named :: "('w, 'm) scheduler_state \<Rightarrow> bool" where
  "jobs_named s \<longleftrightarrow> bt_wf (ss_jobs s) \<and> (\<forall>(n, job) \<in> set (ss_jobs s). sj_name job = n)"

lemma task_ids_None: "task_ids ts n = None \<longleftrightarrow> n \<notin> task_name ` set ts"
  by (simp add: task_ids_def map_of_eq_None_iff image_image)

lemma task_ids_filter:
  "task_ids (filter (\<lambda>t. task_name t \<noteq> n) ts) = (task_ids ts)(n := None)"
  by (induction ts) (auto simp: task_ids_def)

lemma task_ids_at: "distinct (map task_name ts) \<Longrightarrow> t \<in> set ts \<Longrightarrow> task_ids ts (task_name t) = Some (fst t)"
  by (simp add: task_ids_def map_of_eq_Some_iff comp_def)

lemma handles_ok_new: "handles_ok scheduler_new"
  by (simp add: handles_ok_def scheduler_new_def task_ids_def fun_eq_iff)

lemma handles_distinct: "handles_ok s \<Longrightarrow> distinct (map task_name (ss_tasks s))"
  by (simp add: handles_ok_def)

lemma spawn_handles_ok: "handles_ok s \<Longrightarrow> handles_ok (snd (spawn_job rt job m s))"
proof -
  assume s: "handles_ok s"
  show ?thesis
  proof (cases "rt = None \<and> bt_get (ss_handles s) (sj_name job) = None")
    case True
    with s have new: "task_ids (ss_tasks s) (sj_name job) = None" by (simp add: handles_ok_def)
    then have "task_ids (ss_tasks s @ [(ss_next_task s, job, m)]) n =
        (if n = sj_name job then Some (ss_next_task s) else task_ids (ss_tasks s) n)" for n
      by (simp add: task_ids_def task_name_def map_add_def split: option.split)
    moreover have "sj_name job \<notin> task_name ` set (ss_tasks s)" using new by (simp add: task_ids_None)
    ultimately show ?thesis using True s
      by (auto simp: spawn_job_def handles_ok_def fun_eq_iff less_Suc_eq) (force simp: task_name_def)
  qed (use s in \<open>auto simp: spawn_job_def split: option.split\<close>)
qed

lemma abort_handle_tasks:
  assumes "handles_ok s"
  shows "ss_tasks (abort_handle name s) = filter (\<lambda>t. task_name t \<noteq> name) (ss_tasks s)"
proof (cases "bt_get (ss_handles s) name")
  case None
  with assms have "name \<notin> task_name ` set (ss_tasks s)" by (simp add: handles_ok_def task_ids_None)
  then have "filter (\<lambda>t. task_name t \<noteq> name) (ss_tasks s) = ss_tasks s" by (intro filter_True) auto
  then show ?thesis using None by (simp add: abort_handle_def)
next
  case (Some i)
  have "fst t = i \<longleftrightarrow> task_name t = name" if "t \<in> set (ss_tasks s)" for t
  proof -
    from assms Some have ids: "task_ids (ss_tasks s) name = Some i" and d: "distinct (map task_name (ss_tasks s))"
      and inj: "inj_on fst (set (ss_tasks s))" by (simp_all add: handles_ok_def distinct_map)
    from ids obtain u where u: "u \<in> set (ss_tasks s)" "task_name u = name" "fst u = i"
      by (auto simp: task_ids_def dest!: map_of_SomeD)
    show ?thesis using task_ids_at [OF d that] ids u that inj by (metis inj_onD option.inject)
  qed
  then show ?thesis using Some
    by (auto simp: abort_handle_def abort_tasks_def intro!: filter_cong)
qed

lemma abort_handle_ok: "handles_ok s \<Longrightarrow> handles_ok (abort_handle name s)"
proof -
  assume s: "handles_ok s"
  have "bt_get (ss_handles (abort_handle name s)) = (bt_get (ss_handles s))(name := None)"
    by (auto simp: fun_eq_iff abort_handle_def abort_tasks_def split: option.split)
  moreover have "bt_wf (ss_handles (abort_handle name s))" "ss_next_task (abort_handle name s) = ss_next_task s"
    using s by (simp_all add: abort_handle_def abort_tasks_def handles_ok_def split: option.split)
  ultimately show ?thesis using s
    by (simp add: handles_ok_def abort_handle_tasks [OF s] task_ids_filter distinct_map_filter)
qed

lemma abort_all_tasks: "handles_ok s \<Longrightarrow> ss_tasks (abort_all s) = []"
proof -
  assume s: "handles_ok s"
  have "fst t \<in> set (map snd (ss_handles s))" if "t \<in> set (ss_tasks s)" for t
  proof -
    have "bt_get (ss_handles s) (task_name t) = Some (fst t)"
      using s that by (simp add: handles_ok_def task_ids_at)
    then have "(task_name t, fst t) \<in> set (ss_handles s)" by (rule bt_get_Some_in)
    then show ?thesis by force
  qed
  then show ?thesis by (auto simp: abort_all_def abort_tasks_def filter_empty_conv)
qed

lemma abort_all_ok: "handles_ok s \<Longrightarrow> handles_ok (abort_all s)"
  using abort_all_tasks [of s]
  by (simp add: handles_ok_def) (simp add: abort_all_def abort_tasks_def task_ids_def fun_eq_iff)

lemma handles_ok_frame [simp]:
  "handles_ok (s\<lparr>ss_jobs := js\<rparr>) = handles_ok s" "handles_ok (s\<lparr>ss_running := r\<rparr>) = handles_ok s"
  by (simp_all add: handles_ok_def)

subsection \<open>Refinement\<close>

lemma timetable_shows_new: "timetable_shows timetable_new scheduler_new \<and> jobs_named scheduler_new"
  by (auto simp: timetable_shows_def timetable_new_def scheduler_new_def jobs_named_def)

lemma live_name:
  assumes "timetable_shows t s" "jobs_named s" "x \<in> set (ss_tasks s)"
  shows "tt_running t = Some (snd (snd x)) \<and> tt_jobs t (task_name x) = Some (fst (snd x))"
proof -
  have "snd x \<in> snd ` set (ss_tasks s)" using assms(3) by simp
  also have "\<dots> = {(job, m). tt_running t = Some m \<and> tt_jobs t (sj_name job) = Some job}"
    using assms(1) by (simp add: timetable_shows_def)
  finally show ?thesis by (cases x) (simp add: task_name_def)
qed

lemma jobs_named_at: "jobs_named s \<Longrightarrow> bt_get (ss_jobs s) n = Some job \<Longrightarrow> sj_name job = n"
  by (auto simp: jobs_named_def dest: bt_get_Some_in)

lemma running_handle:
  assumes "timetable_shows t s" "jobs_named s" "handles_ok s"
  shows "bt_get (ss_handles s) n \<noteq> None \<longleftrightarrow> tt_running t \<noteq> None \<and> tt_jobs t n \<noteq> None"
proof -
  have "bt_get (ss_handles s) n \<noteq> None \<longleftrightarrow> n \<in> (\<lambda>p. sj_name (fst p)) ` snd ` set (ss_tasks s)"
    using assms(3) task_ids_None [of "ss_tasks s" n] by (simp add: handles_ok_def task_name_def image_image)
  also have "\<dots> \<longleftrightarrow> (\<exists>job m. tt_running t = Some m \<and> tt_jobs t n = Some job \<and> sj_name job = n)"
  proof -
    have "snd ` set (ss_tasks s) = {(job, m). tt_running t = Some m \<and> tt_jobs t (sj_name job) = Some job}"
      using assms(1) unfolding timetable_shows_def by simp
    then show ?thesis by (simp only:) force
  qed
  also have "\<dots> \<longleftrightarrow> tt_running t \<noteq> None \<and> tt_jobs t n \<noteq> None"
  proof -
    have "tt_jobs t n = Some job \<Longrightarrow> sj_name job = n" for job
      using assms(1) jobs_named_at [OF assms(2)] by (simp add: timetable_shows_def)
    then show ?thesis by auto
  qed
  finally show ?thesis .
qed

lemma spawn_job_some:
  assumes "bt_get (ss_handles s) (sj_name job) = None"
  shows "ss_tasks (snd (spawn_job None job m s)) = ss_tasks s @ [(ss_next_task s, job, m)]"
    and "bt_get (ss_handles (snd (spawn_job None job m s))) = (bt_get (ss_handles s))(sj_name job \<mapsto> ss_next_task s)"
  using assms by (auto simp: spawn_job_def fun_eq_iff)

lemma spawn_job_frame:
  "ss_jobs (snd (spawn_job rt job m s)) = ss_jobs s" "ss_running (snd (spawn_job rt job m s)) = ss_running s"
  "fst (spawn_job None job m s) = Inr ()"
  by (auto simp: spawn_job_def split: option.split)

lemma spawn_jobs_Cons:
  "spawn_jobs None (job # jobs) m s = spawn_jobs None jobs m (snd (spawn_job None job m s))"
  using spawn_job_frame(3) [of job m s] by (cases "spawn_job None job m s") simp

lemma spawn_jobs_ok:
  assumes "handles_ok s"
  shows "fst (spawn_jobs None jobs m s) = Inr () \<and> handles_ok (snd (spawn_jobs None jobs m s)) \<and>
    ss_jobs (snd (spawn_jobs None jobs m s)) = ss_jobs s \<and> ss_running (snd (spawn_jobs None jobs m s)) = ss_running s"
  using assms
proof (induction jobs arbitrary: s)
  case (Cons job jobs)
  then show ?case using spawn_handles_ok [OF Cons.prems, of None job m]
    by (simp add: spawn_jobs_Cons spawn_job_frame del: spawn_jobs.simps)
qed simp

lemma spawn_jobs_tasks:
  assumes "distinct (map sj_name jobs)" "\<And>job. job \<in> set jobs \<Longrightarrow> bt_get (ss_handles s) (sj_name job) = None"
  shows "snd ` set (ss_tasks (snd (spawn_jobs None jobs m s))) = snd ` set (ss_tasks s) \<union> (\<lambda>job. (job, m)) ` set jobs"
  using assms
proof (induction jobs arbitrary: s)
  case (Cons job jobs)
  have none: "bt_get (ss_handles s) (sj_name job) = None" using Cons.prems(2) by simp
  have "bt_get (ss_handles (snd (spawn_job None job m s))) (sj_name j) = None" if "j \<in> set jobs" for j
  proof -
    have "sj_name j \<noteq> sj_name job" using Cons.prems(1) that
      by (metis distinct.simps(2) image_eqI list.map(2) list.set_map)
    then show ?thesis using Cons.prems(2) that by (simp add: spawn_job_some(2) [OF none])
  qed
  from Cons.IH [OF _ this] Cons.prems(1) show ?case
    by (simp add: spawn_jobs_Cons spawn_job_some(1) [OF none] del: spawn_jobs.simps)
qed simp

definition scheduler_ok :: "('w, 'm) timetable \<Rightarrow> ('w, 'm) scheduler_state \<Rightarrow> bool" where
  "scheduler_ok t s \<longleftrightarrow> handles_ok s \<and> jobs_named s \<and> timetable_shows t s"

lemma ok_lookup: "scheduler_ok t s \<Longrightarrow> tt_jobs t = bt_get (ss_jobs s) \<and> tt_running t = ss_running s"
  by (simp add: scheduler_ok_def timetable_shows_def)

lemma jobs_named_insert: "jobs_named s \<Longrightarrow> jobs_named (s\<lparr>ss_jobs := bt_insert (sj_name job) job (ss_jobs s)\<rparr>)"
proof -
  assume s: "jobs_named s"
  have "set (bt_insert k v m) \<subseteq> insert (k, v) (set m)" for k :: str and v :: "('a, 'b) scheduled_job" and m
    by (induction k v m rule: bt_insert.induct) auto
  from this [of "sj_name job" job "ss_jobs s"] s show ?thesis by (auto simp: jobs_named_def)
qed

lemma jobs_named_remove: "jobs_named s \<Longrightarrow> jobs_named (s\<lparr>ss_jobs := bt_remove n (ss_jobs s)\<rparr>)"
  by (auto simp: jobs_named_def) (auto simp: bt_remove_def)

lemma jobs_named_cong: "ss_jobs s = ss_jobs s' \<Longrightarrow> jobs_named s = jobs_named s'"
  by (simp add: jobs_named_def)

lemma live_tasks: "scheduler_ok t s \<Longrightarrow>
    snd ` set (ss_tasks s) = {(job, m). ss_running s = Some m \<and> bt_get (ss_jobs s) (sj_name job) = Some job}"
  by (simp add: scheduler_ok_def timetable_shows_def)

lemma scheduler_okI:
  assumes "handles_ok s" "jobs_named s"
    "snd ` set (ss_tasks s) = {(job, m). ss_running s = Some m \<and> bt_get (ss_jobs s) (sj_name job) = Some job}"
  shows "scheduler_ok \<lparr>tt_jobs = bt_get (ss_jobs s), tt_running = ss_running s\<rparr> s"
  using assms handles_distinct [OF assms(1)] by (simp add: scheduler_ok_def timetable_shows_def)

lemma handle_free:
  assumes "scheduler_ok t s" "bt_get (ss_jobs s) n = None \<or> ss_running s = None"
  shows "bt_get (ss_handles s) n = None"
  using assms running_handle [of t s n] ok_lookup [OF assms(1)] by (auto simp: scheduler_ok_def)

lemma schedule_refines:
  assumes ok: "scheduler_ok t s"
  shows "fst (scheduler_apply cron (SC_Schedule rt job) s) = fst (timetable_apply cron (SC_Schedule rt job) t) \<and>
    scheduler_ok (snd (timetable_apply cron (SC_Schedule rt job) t)) (snd (scheduler_apply cron (SC_Schedule rt job) s))"
proof (cases "scheduled_job_validate cron job = Inr () \<and> bt_get (ss_jobs s) (sj_name job) = None")
  case False
  then show ?thesis using ok ok_lookup [OF ok]
    by (cases "scheduled_job_validate cron job")
      (auto simp: scheduler_apply_def timetable_apply_def schedule_def insert_job_def)
next
  case True
  note t = ok_lookup [OF ok]
  have h: "handles_ok s" "jobs_named s" using ok by (simp_all add: scheduler_ok_def)
  let ?s1 = "s\<lparr>ss_jobs := bt_insert (sj_name job) job (ss_jobs s)\<rparr>"
  have n1: "jobs_named ?s1" using h(2) by (rule jobs_named_insert)
  have g1: "bt_get (bt_insert (sj_name job) job (ss_jobs s)) = (bt_get (ss_jobs s))(sj_name job \<mapsto> job)" by (simp add: fun_eq_iff)
  have tt: "t = \<lparr>tt_jobs = bt_get (ss_jobs s), tt_running = ss_running s\<rparr>" using t by (cases t) simp
  show ?thesis
  proof (cases "ss_running s")
    case None
    then have "snd ` set (ss_tasks ?s1) = {(job, m). ss_running ?s1 = Some m \<and> bt_get (ss_jobs ?s1) (sj_name job) = Some job}"
      using live_tasks [OF ok] by simp
    from scheduler_okI [OF _ n1 this] h(1) show ?thesis using True None t
      by (simp add: scheduler_apply_def timetable_apply_def schedule_def insert_job_def tt g1)
  next
    case (Some m)
    show ?thesis
    proof (cases rt)
      case None
      have free: "bt_get (ss_handles ?s1) (sj_name job) = None" using handle_free [OF ok] True by simp
      let ?s2 = "snd (spawn_job None job m ?s1)"
      have "snd ` set (ss_tasks ?s2) = insert (job, m) (snd ` set (ss_tasks s))"
        by (simp add: spawn_job_some(1) [OF free])
      also have "\<dots> = {(j, m). ss_running ?s2 = Some m \<and> bt_get (ss_jobs ?s2) (sj_name j) = Some j}"
        using True Some unfolding live_tasks [OF ok] by (auto simp: spawn_job_frame g1 split: if_splits)
      finally have live: "snd ` set (ss_tasks ?s2) = \<dots>" .
      have "handles_ok ?s2" "jobs_named ?s2"
        using h(1) n1 spawn_handles_ok [of ?s1 None job m] jobs_named_cong [of ?s2 ?s1] by (simp_all add: spawn_job_frame)
      from scheduler_okI [OF this live] show ?thesis using True Some None t spawn_job_frame(3) [of job m ?s1]
          spawn_job_frame(1,2) [of None job m ?s1]
        by (cases "spawn_job None job m ?s1")
          (simp add: scheduler_apply_def timetable_apply_def schedule_def insert_job_def tt g1 spawn_job_frame)
    next
      case (Some e)
      have "bt_remove (sj_name job) (bt_insert (sj_name job) job (ss_jobs s)) = ss_jobs s"
        using h(2) True by (intro bt_ext) (auto simp: jobs_named_def fun_eq_iff)
      then show ?thesis using True Some \<open>ss_running s = Some m\<close> ok t
        by (simp add: scheduler_apply_def timetable_apply_def schedule_def insert_job_def spawn_job_def remove_job_def)
    qed
  qed
qed

lemma remove_refines:
  assumes ok: "scheduler_ok t s"
  shows "fst (scheduler_apply cron (SC_Remove n) s) = fst (timetable_apply cron (SC_Remove n) t) \<and>
    scheduler_ok (snd (timetable_apply cron (SC_Remove n) t)) (snd (scheduler_apply cron (SC_Remove n) s))"
proof -
  note t = ok_lookup [OF ok]
  have tt: "t = \<lparr>tt_jobs = bt_get (ss_jobs s), tt_running = ss_running s\<rparr>" using t by (cases t) simp
  let ?s1 = "remove_job n s" and ?s2 = "abort_handle n (remove_job n s)"
  have h: "handles_ok ?s1" using ok by (simp add: scheduler_ok_def remove_job_def)
  have n1: "jobs_named ?s1" using ok jobs_named_remove [of s n] by (simp add: scheduler_ok_def remove_job_def)
  have jobs: "ss_jobs ?s2 = ss_jobs ?s1" "ss_running ?s2 = ss_running s"
    by (simp_all add: abort_handle_def abort_tasks_def remove_job_def split: option.split)
  have g: "bt_get (ss_jobs ?s1) = (bt_get (ss_jobs s))(n := None)" by (simp add: remove_job_def fun_eq_iff)
  have "snd ` set (ss_tasks ?s2) = {x \<in> snd ` set (ss_tasks s). sj_name (fst x) \<noteq> n}"
    unfolding abort_handle_tasks [OF h] by (auto simp: remove_job_def task_name_def)
  also have "\<dots> = {(j, m). ss_running ?s2 = Some m \<and> bt_get (ss_jobs ?s2) (sj_name j) = Some j}"
    unfolding live_tasks [OF ok] by (auto simp: jobs g split: if_splits)
  finally have live: "snd ` set (ss_tasks ?s2) = \<dots>" .
  have "jobs_named ?s2" using n1 jobs_named_cong [of ?s2 ?s1] by (simp add: jobs)
  from scheduler_okI [OF abort_handle_ok [OF h] this live] show ?thesis
    by (simp add: scheduler_apply_def timetable_apply_def scheduler_remove_def tt jobs g)
qed

lemma stopped_ok:
  assumes ok: "scheduler_ok t s" and s: "ss_tasks s'' = ss_tasks s" "ss_handles s'' = ss_handles s" "ss_next_task s'' = ss_next_task s"
    and idle: "ss_running s'' = None \<or> ss_jobs s'' = []" and named: "jobs_named s''"
  shows "scheduler_ok \<lparr>tt_jobs = bt_get (ss_jobs s''), tt_running = ss_running s''\<rparr> (abort_all s'')"
proof -
  have h: "handles_ok s''" using ok s by (simp add: scheduler_ok_def handles_ok_def)
  have frame: "ss_jobs (abort_all s'') = ss_jobs s''" "ss_running (abort_all s'') = ss_running s''"
    by (simp_all add: abort_all_def abort_tasks_def)
  have "jobs_named (abort_all s'')" using named frame(1) jobs_named_cong by blast
  moreover have "snd ` set (ss_tasks (abort_all s'')) =
      {(job, m). ss_running (abort_all s'') = Some m \<and> bt_get (ss_jobs (abort_all s'')) (sj_name job) = Some job}"
    using idle by (auto simp: abort_all_tasks [OF h] frame)
  ultimately show ?thesis using scheduler_okI [OF abort_all_ok [OF h]] by (simp add: frame)
qed

lemma start_refines:
  assumes ok: "scheduler_ok t s"
  shows "fst (scheduler_apply cron (SC_Start rt m) s) = fst (timetable_apply cron (SC_Start rt m) t) \<and>
    scheduler_ok (snd (timetable_apply cron (SC_Start rt m) t)) (snd (scheduler_apply cron (SC_Start rt m) s))"
proof (cases "rt = None \<and> ss_running s = None")
  case False
  then show ?thesis using ok ok_lookup [OF ok]
    by (cases rt) (auto simp: scheduler_apply_def timetable_apply_def scheduler_start_def)
next
  case True
  note t = ok_lookup [OF ok]
  have tt: "t = \<lparr>tt_jobs = bt_get (ss_jobs s), tt_running = ss_running s\<rparr>" using t by (cases t) simp
  have h: "handles_ok s" "jobs_named s" using ok by (simp_all add: scheduler_ok_def)
  let ?s1 = "s\<lparr>ss_running := Some m\<rparr>" and ?jobs = "map snd (ss_jobs s)"
  let ?s2 = "snd (spawn_jobs None ?jobs m ?s1)"
  have sp: "fst (spawn_jobs None ?jobs m ?s1) = Inr ()" "handles_ok ?s2" "ss_jobs ?s2 = ss_jobs s" "ss_running ?s2 = Some m"
    using spawn_jobs_ok [of ?s1 ?jobs m] h(1) by simp_all
  have at: "bt_get (ss_jobs s) (sj_name j) = Some j \<longleftrightarrow> j \<in> set ?jobs" for j
  proof
    assume "bt_get (ss_jobs s) (sj_name j) = Some j"
    then show "j \<in> set ?jobs" by (force dest: bt_get_Some_in)
  next
    assume "j \<in> set ?jobs"
    then obtain n where "(n, j) \<in> set (ss_jobs s)" by auto
    with h(2) show "bt_get (ss_jobs s) (sj_name j) = Some j"
      by (auto simp: jobs_named_def bt_get_def bt_wf_distinct)
  qed
  have eq: "map sj_name ?jobs = map fst (ss_jobs s)" using h(2) by (auto simp: jobs_named_def)
  have "distinct (map sj_name ?jobs)" unfolding eq using h(2) by (simp add: jobs_named_def bt_wf_distinct)
  from spawn_jobs_tasks [OF this, of ?s1 m] have "snd ` set (ss_tasks ?s2) = snd ` set (ss_tasks s) \<union> (\<lambda>job. (job, m)) ` set ?jobs"
    using handle_free [OF ok] True by simp
  also have "\<dots> = {(j, k). ss_running ?s2 = Some k \<and> bt_get (ss_jobs ?s2) (sj_name j) = Some j}"
    using True unfolding live_tasks [OF ok] by (auto simp: sp at simp del: set_map)
  finally have live: "snd ` set (ss_tasks ?s2) = \<dots>" .
  have "jobs_named ?s2" using h(2) sp(3) jobs_named_cong by blast
  from scheduler_okI [OF sp(2) this live] show ?thesis using True sp
    by (cases "spawn_jobs None ?jobs m ?s1")
      (simp add: scheduler_apply_def timetable_apply_def scheduler_start_def tt Let_def)
qed

lemma call_refines:
  assumes "scheduler_ok t s"
  shows "fst (scheduler_apply cron c s) = fst (timetable_apply cron c t) \<and>
    scheduler_ok (snd (timetable_apply cron c t)) (snd (scheduler_apply cron c s))"
proof (cases c)
  case (SC_Schedule rt job)
  then show ?thesis using schedule_refines [OF assms] by blast
next
  case (SC_Remove n)
  then show ?thesis using remove_refines [OF assms] by blast
next
  case SC_Clear
  have none: "bt_get [] = (\<lambda>_. None)" by (simp add: fun_eq_iff)
  have "jobs_named (s\<lparr>ss_jobs := []\<rparr>)" by (simp add: jobs_named_def)
  from stopped_ok [OF assms, of "s\<lparr>ss_jobs := []\<rparr>", OF _ _ _ _ this] SC_Clear ok_lookup [OF assms] show ?thesis
    by (cases t) (simp add: scheduler_apply_def timetable_apply_def scheduler_clear_def none)
next
  case (SC_Start rt m)
  then show ?thesis using start_refines [OF assms] by blast
next
  case SC_Shutdown
  have "jobs_named (s\<lparr>ss_running := None\<rparr>)" using assms by (simp add: scheduler_ok_def jobs_named_def)
  from stopped_ok [OF assms, of "s\<lparr>ss_running := None\<rparr>", OF _ _ _ _ this] SC_Shutdown ok_lookup [OF assms] show ?thesis
    by (cases t) (simp add: scheduler_apply_def timetable_apply_def scheduler_shutdown_def)
qed

lemma scheduler_ok_new: "scheduler_ok timetable_new scheduler_new"
  by (simp add: scheduler_ok_def handles_ok_new timetable_shows_new)


section \<open>Calls that interleave\<close>

text \<open>
  The locked sections of the calls as steps of threads. A thread that is \<open>Resting\<close> may begin any
  call; the other states say which section comes next.
\<close>

datatype ('w, 'm) scheduler_pc =
  Resting
| To_Spawn_If_Running "str option" "('w, 'm) scheduled_job"
| To_Spawn "str option" "('w, 'm) scheduled_job" 'm
| To_Undo str
| To_Abort str
| To_Abort_All
| To_Read_Jobs "str option" 'm
| To_Spawn_Each "str option" 'm "('w, 'm) scheduled_job list"

definition scheduler_begin ::
    "(str \<Rightarrow> str + 'c) \<Rightarrow> ('w, 'm) scheduler_call \<Rightarrow> ('w, 'm) scheduler_state \<Rightarrow> ('w, 'm) scheduler_pc \<times> ('w, 'm) scheduler_state" where
  "scheduler_begin cron c s =
     (case c of
        SC_Schedule rt job \<Rightarrow>
          (case scheduled_job_validate cron job of
             Inl _ \<Rightarrow> (Resting, s)
           | Inr _ \<Rightarrow> (case insert_job job s of
               (Inl _, s') \<Rightarrow> (Resting, s')
             | (Inr _, s') \<Rightarrow> (To_Spawn_If_Running rt job, s')))
      | SC_Remove name \<Rightarrow> (To_Abort name, remove_job name s)
      | SC_Clear \<Rightarrow> (To_Abort_All, s\<lparr>ss_jobs := []\<rparr>)
      | SC_Start rt m \<Rightarrow>
          if rt \<noteq> None \<or> ss_running s \<noteq> None then (Resting, s)
          else (To_Read_Jobs rt m, s\<lparr>ss_running := Some m\<rparr>)
      | SC_Shutdown \<Rightarrow> (To_Abort_All, s\<lparr>ss_running := None\<rparr>))"

definition scheduler_move ::
    "('w, 'm) scheduler_pc \<Rightarrow> ('w, 'm) scheduler_state \<Rightarrow> ('w, 'm) scheduler_pc \<times> ('w, 'm) scheduler_state" where
  "scheduler_move pc s =
     (case pc of
        Resting \<Rightarrow> (Resting, s)
      | To_Spawn_If_Running rt job \<Rightarrow>
          (case ss_running s of None \<Rightarrow> (Resting, s) | Some m \<Rightarrow> (To_Spawn rt job m, s))
      | To_Spawn rt job m \<Rightarrow>
          (case spawn_job rt job m s of (Inl _, s') \<Rightarrow> (To_Undo (sj_name job), s') | (Inr _, s') \<Rightarrow> (Resting, s'))
      | To_Undo name \<Rightarrow> (Resting, remove_job name s)
      | To_Abort name \<Rightarrow> (Resting, abort_handle name s)
      | To_Abort_All \<Rightarrow> (Resting, abort_all s)
      | To_Read_Jobs rt m \<Rightarrow> (To_Spawn_Each rt m (map snd (ss_jobs s)), s)
      | To_Spawn_Each rt m [] \<Rightarrow> (Resting, s)
      | To_Spawn_Each rt m (job # jobs) \<Rightarrow>
          (case spawn_job rt job m s of (Inl _, s') \<Rightarrow> (Resting, s') | (Inr _, s') \<Rightarrow> (To_Spawn_Each rt m jobs, s')))"

type_synonym ('w, 'm) scheduler_world = "(nat \<Rightarrow> ('w, 'm) scheduler_pc) \<times> ('w, 'm) scheduler_state"

inductive scheduler_reachable :: "(str \<Rightarrow> str + 'c) \<Rightarrow> ('w, 'm) scheduler_world \<Rightarrow> bool" for cron where
  begin_new: "scheduler_reachable cron (\<lambda>_. Resting, scheduler_new)"
| begins: "scheduler_reachable cron (pcs, s) \<Longrightarrow> pcs t = Resting \<Longrightarrow> scheduler_begin cron c s = (pc, s') \<Longrightarrow>
     scheduler_reachable cron (pcs(t := pc), s')"
| moves: "scheduler_reachable cron (pcs, s) \<Longrightarrow> scheduler_move (pcs t) s = (pc, s') \<Longrightarrow>
     scheduler_reachable cron (pcs(t := pc), s')"

text \<open>A call that nobody interrupts does what the operation does.\<close>

fun move_n :: "nat \<Rightarrow> ('w, 'm) scheduler_pc \<times> ('w, 'm) scheduler_state \<Rightarrow> ('w, 'm) scheduler_pc \<times> ('w, 'm) scheduler_state" where
  "move_n 0 x = x"
| "move_n (Suc n) (pc, s) = move_n n (scheduler_move pc s)"

lemma move_n_rest: "move_n n (Resting, s) = (Resting, s)"
  by (induction n) (simp_all add: scheduler_move_def)

lemma spawn_each_uninterrupted:
  "move_n (Suc (length jobs)) (To_Spawn_Each rt m jobs, s) = (Resting, snd (spawn_jobs rt jobs m s))"
proof (induction jobs arbitrary: s)
  case (Cons job jobs)
  obtain r s' where s': "spawn_job rt job m s = (r, s')" by fastforce
  then show ?case using Cons [of s'] move_n_rest
    by (cases r) (simp_all add: scheduler_move_def)
qed (simp add: scheduler_move_def)

lemma uninterrupted_call:
  "\<exists>n. move_n n (scheduler_begin cron c s) = (Resting, snd (scheduler_apply cron c s))"
proof (cases c)
  case (SC_Schedule rt job)
  obtain r s1 where s1: "insert_job job s = (r, s1)" by fastforce
  show ?thesis
  proof (cases "is_ok (scheduled_job_validate cron job) \<and> is_ok r \<and> ss_running s1 \<noteq> None")
    case True
    then obtain m where m: "ss_running s1 = Some m" by blast
    obtain r2 s2 where s2: "spawn_job rt job m s1 = (r2, s2)" by fastforce
    show ?thesis using SC_Schedule True s1 s2 m
      by (intro exI [of _ 3])
        (cases r2, auto simp: is_ok_iff scheduler_begin_def scheduler_apply_def schedule_def scheduler_move_def numeral_3_eq_3)
  next
    case False
    then show ?thesis using SC_Schedule s1
      by (intro exI [of _ 1])
        (auto simp: is_ok_iff scheduler_begin_def scheduler_apply_def schedule_def scheduler_move_def split: sum.split)
  qed
next
  case (SC_Remove name)
  then show ?thesis
    by (intro exI [of _ 1]) (simp add: scheduler_begin_def scheduler_apply_def scheduler_remove_def scheduler_move_def)
next
  case SC_Clear
  then show ?thesis
    by (intro exI [of _ 1]) (simp add: scheduler_begin_def scheduler_apply_def scheduler_clear_def scheduler_move_def)
next
  case (SC_Start rt m)
  let ?s = "s\<lparr>ss_running := Some m\<rparr>" and ?jobs = "map snd (ss_jobs s)"
  have "move_n (Suc (Suc (length ?jobs))) (To_Read_Jobs None m, ?s) = (Resting, snd (spawn_jobs None ?jobs m ?s))"
    using spawn_each_uninterrupted [of ?jobs None m ?s] by (simp add: scheduler_move_def)
  moreover have "move_n n (Resting, s) = (Resting, s)" for n by (rule move_n_rest)
  ultimately show ?thesis using SC_Start
    by (intro exI [of _ "Suc (Suc (length ?jobs))"], cases rt)
      (simp_all add: scheduler_begin_def scheduler_apply_def scheduler_start_def Let_def)
next
  case SC_Shutdown
  then show ?thesis
    by (intro exI [of _ 1]) (simp add: scheduler_begin_def scheduler_apply_def scheduler_shutdown_def scheduler_move_def)
qed

lemma handles_ok_remove_job: "handles_ok s \<Longrightarrow> handles_ok (remove_job n s)"
  by (simp add: remove_job_def)

lemma begin_handles_ok: "handles_ok s \<Longrightarrow> scheduler_begin cron c s = (pc, s') \<Longrightarrow> handles_ok s'"
  by (auto simp: scheduler_begin_def insert_job_def remove_job_def split: scheduler_call.splits sum.splits if_splits)

lemma move_handles_ok: "handles_ok s \<Longrightarrow> scheduler_move pc s = (pc', s') \<Longrightarrow> handles_ok s'"
proof -
  assume s: "handles_ok s" and m: "scheduler_move pc s = (pc', s')"
  have spawn: "spawn_job rt job k s = (r, x) \<Longrightarrow> handles_ok x" for rt job k r x
    using spawn_handles_ok [OF s, of rt job k] by simp
  show ?thesis
    using m s abort_handle_ok [OF s] abort_all_ok [OF s] handles_ok_remove_job [OF s]
    by (auto simp: scheduler_move_def dest: spawn split: scheduler_pc.splits option.splits list.splits prod.splits sum.splits)
qed


text \<open>
  But a call that is between its sections while a shutdown runs leaves a task behind: the
  scheduler is stopped, no call is in progress, and the job runs on.
\<close>

definition sample_job :: "(unit, nat) scheduled_job" where
  "sample_job = interval_job ''tick'' 5 (\<lambda>_ w. (Inr (), w))"

definition sample_call :: "(unit, nat) scheduler_call" where
  "sample_call = SC_Schedule None sample_job"

text \<open>A schedule: which thread acts, and the call it begins or none to go on.\<close>

primrec scheduler_play ::
    "(str \<Rightarrow> str + 'c) \<Rightarrow> (nat \<times> ('w, 'm) scheduler_call option) list \<Rightarrow> ('w, 'm) scheduler_world \<Rightarrow> ('w, 'm) scheduler_world" where
  "scheduler_play cron [] x = x"
| "scheduler_play cron (a # as) x = scheduler_play cron as
     (case snd a of
        None \<Rightarrow> (let (pc, s) = scheduler_move (fst x (fst a)) (snd x) in ((fst x)(fst a := pc), s))
      | Some c \<Rightarrow> (case fst x (fst a) of
          Resting \<Rightarrow> (let (pc, s) = scheduler_begin cron c (snd x) in ((fst x)(fst a := pc), s))
        | _ \<Rightarrow> x))"

lemma play_reachable: "scheduler_reachable cron x \<Longrightarrow> scheduler_reachable cron (scheduler_play cron as x)"
proof (induction as arbitrary: x)
  case (Cons a as)
  obtain pcs s where x: "x = (pcs, s)" by (cases x)
  obtain t act where a: "a = (t, act)" by (cases a)
  show ?case
  proof (cases act)
    case None
    obtain pc s' where "scheduler_move (pcs t) s = (pc, s')" by fastforce
    with Cons scheduler_reachable.moves [of cron pcs s t pc s'] None show ?thesis by (simp add: x a)
  next
    case (Some c)
    obtain pc s' where m: "scheduler_begin cron c s = (pc, s')" by fastforce
    show ?thesis
    proof (cases "pcs t = Resting")
      case True
      with Cons scheduler_reachable.begins [of cron pcs s t c pc s'] Some m show ?thesis by (simp add: x a)
    qed (use Cons Some in \<open>simp add: x a split: scheduler_pc.split\<close>)
  qed
qed simp

definition leaking_calls :: "(nat \<times> (unit, nat) scheduler_call option) list" where
  "leaking_calls =
     [(0, Some (SC_Start None 7)), (0, None), (0, None), (0, Some sample_call), (0, None),
      (1, Some SC_Shutdown), (1, None), (0, None)]"

definition leaking_end :: "(unit, nat) scheduler_world" where
  "leaking_end = scheduler_play (\<lambda>_. Inr ()) leaking_calls (\<lambda>_. Resting, scheduler_new)"

lemma leaking_reachable: "scheduler_reachable (\<lambda>_. Inr ()) leaking_end"
  unfolding leaking_end_def by (rule play_reachable) (rule scheduler_reachable.begin_new)

lemmas scheduler_defs = scheduler_begin_def scheduler_move_def insert_job_def spawn_job_def abort_all_def abort_tasks_def
  scheduler_new_def scheduled_job_validate_def

lemma sample_job_parts: "sj_name sample_job = ''tick''" "sj_trigger sample_job = ST_Interval 5" "trim ''tick'' = ''tick''"
  by (simp_all add: sample_job_def interval_job_def scheduled_job_new_def) code_simp

lemma leaking_end_is:
  "leaking_end = (\<lambda>_. Resting, \<lparr>ss_jobs = [(''tick'', sample_job)], ss_handles = [(''tick'', 0)], ss_running = None,
     ss_errors = [], ss_tasks = [(0, sample_job, 7)], ss_next_task = 1\<rparr>)"
  by (simp add: leaking_end_def leaking_calls_def sample_call_def scheduler_defs sample_job_parts fun_upd_idem)

lemma shutdown_leaves_task:
  "\<exists>pcs s. scheduler_reachable (\<lambda>_. Inr ()) (pcs, s) \<and> pcs = (\<lambda>_. Resting) \<and> ss_running s = None \<and>
     ss_tasks s = [(0, sample_job, 7)]"
  using leaking_reachable unfolding leaking_end_is by fastforce


section \<open>Runs of a task\<close>

text \<open>The runs of an interval job are counted from one, whatever their results.\<close>

lemma interval_runs_numbered:
  assumes "\<And>c w. snd (sj_task job c w) = w @ [(scx_job_name c, scx_run_count c)]" and "\<And>d w. sleep d w = w"
  shows "fst (interval_loop n sleep job m d k st) = fst st @ map (\<lambda>i. (sj_name job, i)) [k + 1..<k + n + 1]"
proof (induction n arbitrary: k st)
  case (Suc n)
  have "fst (run_job_once job m (k + 1) (apfst (sleep d) st)) = fst st @ [(sj_name job, k + 1)]"
    using assms by (cases st) (auto simp: run_job_once_def split: prod.split sum.split dest: arg_cong [where f = snd])
  with Suc show ?case by (simp add: upt_conv_Cons)
qed simp

end
