(* ===== verification/Job_Queue.thy ===== *)
theory Job_Queue
  imports Pipeline
begin

text \<open>
  \<open>src/queue.rs\<close> and \<open>src/queue/module.rs\<close>: the queue facade over an engine of the package
  \<open>a3s-lane\<close>, its in-process backend, and the workers, whose waits end by any of the events the
  code selects on. The engine is a record of functions on the world \<open>'w\<close>, in which its jobs and
  the clock live; only the fields the code reads of its jobs are kept. Job data are JSON values
  \<open>'v\<close>, processors \<open>'p\<close>; what a processor returns is an event. Locks are not poisoned.
\<close>

section \<open>Options and jobs\<close>

text \<open>Durations are in nanoseconds.\<close>

record queue_options =
  qo_worker_count :: nat
  qo_poll_interval :: nat
  qo_lease_duration :: nat

definition queue_options_default :: queue_options where
  "queue_options_default = \<lparr>qo_worker_count = 1, qo_poll_interval = 250000000, qo_lease_duration = 30000000000\<rparr>"

definition queue_options_validate :: "queue_options \<Rightarrow> unit result" where
  "queue_options_validate opts =
     (if qo_worker_count opts = 0 then Inl (Internal ''queue worker count must be greater than zero'')
      else if qo_poll_interval opts = 0 then Inl (Internal ''queue poll interval must be greater than zero'')
      else if qo_lease_duration opts = 0 then Inl (Internal ''queue lease duration must be greater than zero'')
      else Inr ())"

definition queue_heartbeat_interval :: "nat \<Rightarrow> nat" where
  "queue_heartbeat_interval lease = (let interval = lease div 3 in if interval = 0 then 1000000 else interval)"

datatype lane_job_state = LS_Waiting | LS_Delayed | LS_WaitingChildren | LS_Active | LS_Completed | LS_Failed

record 'v lane_job =
  lj_id :: str
  lj_name :: str
  lj_payload :: 'v
  lj_state :: lane_job_state
  lj_lock_token :: "str option"
  lj_timeout :: "nat option"
  lj_failed_reason :: "str option"

datatype queue_job_state = QS_Pending | QS_Active | QS_Completed | QS_Failed

definition queue_job_state_str :: "queue_job_state \<Rightarrow> str" where
  "queue_job_state_str s =
     (case s of QS_Pending \<Rightarrow> ''pending'' | QS_Active \<Rightarrow> ''active'' | QS_Completed \<Rightarrow> ''completed'' | QS_Failed \<Rightarrow> ''failed'')"

definition job_state_from_lane :: "lane_job_state \<Rightarrow> queue_job_state" where
  "job_state_from_lane s =
     (case s of
        LS_Waiting \<Rightarrow> QS_Pending | LS_Delayed \<Rightarrow> QS_Pending | LS_WaitingChildren \<Rightarrow> QS_Pending
      | LS_Active \<Rightarrow> QS_Active | LS_Completed \<Rightarrow> QS_Completed | LS_Failed \<Rightarrow> QS_Failed)"

record 'v queue_job =
  qj_id :: str
  qj_name :: str
  qj_data :: 'v

definition queue_job_from_lane :: "'v lane_job \<Rightarrow> 'v queue_job" where
  "queue_job_from_lane job = \<lparr>qj_id = lj_id job, qj_name = lj_name job, qj_data = lj_payload job\<rparr>"

definition queue_job_data_as :: "('v \<Rightarrow> str + 'a) \<Rightarrow> 'v queue_job \<Rightarrow> 'a result" where
  "queue_job_data_as dec job =
     (case dec (qj_data job) of
        Inl m \<Rightarrow> Inl (BadRequest (''invalid queued job data for '' @ qj_id job @ '': '' @ m))
      | Inr a \<Rightarrow> Inr a)"

record queue_job_receipt =
  qr_id :: str
  qr_name :: str

record 'v queue_job_info =
  qi_id :: str
  qi_name :: str
  qi_state :: queue_job_state
  qi_data :: 'v

definition job_info_from_lane :: "'v lane_job \<Rightarrow> 'v queue_job_info" where
  "job_info_from_lane job =
     \<lparr>qi_id = lj_id job, qi_name = lj_name job, qi_state = job_state_from_lane (lj_state job), qi_data = lj_payload job\<rparr>"

record queue_job_failure =
  qf_id :: str
  qf_name :: str
  qf_message :: str

definition job_failure_from_lane :: "'v lane_job \<Rightarrow> queue_job_failure" where
  "job_failure_from_lane job =
     \<lparr>qf_id = lj_id job, qf_name = lj_name job,
      qf_message = (case lj_failed_reason job of None \<Rightarrow> ''job failed without a retained reason'' | Some m \<Rightarrow> m)\<rparr>"

record lane_stats =
  ls_waiting :: nat
  ls_delayed :: nat
  ls_waiting_children :: nat
  ls_active :: nat
  ls_completed :: nat
  ls_failed :: nat
  ls_total :: nat

record queue_stats =
  qt_pending :: nat
  qt_active :: nat
  qt_completed :: nat
  qt_failed :: nat

definition queue_stats_from_lane :: "lane_stats \<Rightarrow> queue_stats" where
  "queue_stats_from_lane s =
     \<lparr>qt_pending = ls_waiting s + ls_delayed s + ls_waiting_children s, qt_active = ls_active s,
      qt_completed = ls_completed s, qt_failed = ls_failed s\<rparr>"

section \<open>The engine\<close>

text \<open>The calls of \<open>JobQueueBackend\<close>; an error is the text it is displayed as. \<open>list\<close> takes the
  state to filter by and the limit.\<close>

type_synonym ('w, 'a) lane_step = "'w \<Rightarrow> (str + 'a) \<times> 'w"

record ('w, 'v, 'o) lane =
  la_add_job :: "str \<Rightarrow> 'v \<Rightarrow> 'o \<Rightarrow> ('w, 'v lane_job) lane_step"
  la_stats :: "('w, lane_stats) lane_step"
  la_list_jobs :: "lane_job_state option \<Rightarrow> nat \<Rightarrow> ('w, 'v lane_job list) lane_step"
  la_obliterate :: "bool \<Rightarrow> ('w, unit) lane_step"
  la_recover_stalled :: "('w, unit) lane_step"
  la_promote_due :: "('w, unit) lane_step"
  la_claim_next :: "str \<Rightarrow> nat \<Rightarrow> ('w, 'v lane_job option) lane_step"
  la_complete :: "str \<Rightarrow> str \<Rightarrow> ('w, unit) lane_step"
  la_fail :: "str \<Rightarrow> str \<Rightarrow> str \<Rightarrow> ('w, unit) lane_step"
  la_release :: "str \<Rightarrow> str \<Rightarrow> ('w, unit) lane_step"
  la_renew :: "str \<Rightarrow> str \<Rightarrow> nat \<Rightarrow> ('w, unit) lane_step"

definition lane_error :: "str \<Rightarrow> boot_error" where
  "lane_error m = Internal (''lane queue error: '' @ m)"

definition lane_call :: "('w, 'a) lane_step \<Rightarrow> ('w, 'a) step" where
  "lane_call f w = (case f w of (Inl m, w') \<Rightarrow> (Inl (lane_error m), w') | (Inr a, w') \<Rightarrow> (Inr a, w'))"

section \<open>The backend\<close>

definition validate_job_name :: "str \<Rightarrow> str result" where
  "validate_job_name name =
     (let n = trim name in if n = [] then Inl (Internal ''queue job name cannot be empty'') else Inr n)"

definition enqueue_with_options ::
    "('w, 'v, 'o) lane \<Rightarrow> str \<Rightarrow> 'v \<Rightarrow> 'o \<Rightarrow> ('w, queue_job_receipt) step" where
  "enqueue_with_options lane name data opts =
     step_bind (step_result (validate_job_name name)) (\<lambda>n.
     step_bind (lane_call (la_add_job lane n data opts)) (\<lambda>job.
     step_result (Inr \<lparr>qr_id = lj_id job, qr_name = lj_name job\<rparr>)))"

text \<open>\<open>Queue::enqueue\<close> and its siblings; \<open>ser\<close> is the serializer, \<open>none\<close> the empty job options.\<close>

definition queue_enqueue_value ::
    "('w, 'v, 'o) lane \<Rightarrow> 'o \<Rightarrow> str \<Rightarrow> 'v \<Rightarrow> ('w, queue_job_receipt) step" where
  "queue_enqueue_value lane none name data = enqueue_with_options lane name data none"

definition queue_enqueue_as ::
    "('a \<Rightarrow> str + 'v) \<Rightarrow> ('w, 'v, 'o) lane \<Rightarrow> str \<Rightarrow> 'a \<Rightarrow> 'o \<Rightarrow> ('w, queue_job_receipt) step" where
  "queue_enqueue_as ser lane name data opts =
     (case ser data of
        Inl m \<Rightarrow> step_result (Inl (Internal (''failed to serialize queued job data: '' @ m)))
      | Inr v \<Rightarrow> enqueue_with_options lane name v opts)"

definition queue_jobs :: "('w, 'v, 'o) lane \<Rightarrow> ('w, 'v queue_job_info list) step" where
  "queue_jobs lane =
     step_bind (lane_call (la_stats lane)) (\<lambda>st.
     step_bind (lane_call (la_list_jobs lane None (ls_total st))) (\<lambda>jobs.
     step_result (Inr (map job_info_from_lane jobs))))"

definition queue_failures :: "('w, 'v, 'o) lane \<Rightarrow> ('w, queue_job_failure list) step" where
  "queue_failures lane =
     step_bind (lane_call (la_stats lane)) (\<lambda>st.
     step_bind (lane_call (la_list_jobs lane (Some LS_Failed) (ls_failed st))) (\<lambda>jobs.
     step_result (Inr (map job_failure_from_lane jobs))))"

definition queue_stats_of :: "('w, 'v, 'o) lane \<Rightarrow> ('w, queue_stats) step" where
  "queue_stats_of lane =
     step_bind (lane_call (la_stats lane)) (\<lambda>st. step_result (Inr (queue_stats_from_lane st)))"

definition queue_clear :: "('w, 'v, 'o) lane \<Rightarrow> ('w, unit) step" where
  "queue_clear lane = lane_call (la_obliterate lane True)"

section \<open>Workers\<close>

text \<open>What the workers share with the operations: the processors and the flag of a started queue.\<close>

record ('w, 'm, 'p) queue_shared =
  qw_env :: 'w
  qw_processors :: "(str, 'p) btree"
  qw_running :: "'m option"

definition processor_for :: "('w, 'm, 'p) queue_shared \<Rightarrow> str \<Rightarrow> 'p option" where
  "processor_for s name = bt_get (qw_processors s) name"

definition has_processors :: "('w, 'm, 'p) queue_shared \<Rightarrow> bool" where
  "has_processors s \<longleftrightarrow> qw_processors s \<noteq> []"

definition queue_is_running :: "('w, 'm, 'p) queue_shared \<Rightarrow> bool" where
  "queue_is_running s \<longleftrightarrow> qw_running s \<noteq> None"

datatype settlement = SE_Complete | SE_Fail str | SE_Release

text \<open>Where a worker stands: before a reading or a call, or waiting.\<close>

datatype 'v worker_pc =
  WP_Check | WP_CheckProcessors | WP_NoProcessors
| WP_Recover | WP_Promote | WP_Claim | WP_Idle
| WP_Find "'v lane_job" str | WP_NoneFound "'v lane_job" str | WP_AwaitProcessor "'v lane_job" str
| WP_Select "'v lane_job" str | WP_Settle "'v lane_job" str settlement
| WP_ErrorWait | WP_Done

text \<open>
  What lets it go on: \<open>Go\<close> for readings and calls, \<open>Wake\<close> for a notification or, where the code
  polls, the end of the interval; the other events are those of a running processor.
\<close>

datatype worker_signal = Go | Wake | Returned "unit result" | TimedOut | Heartbeat

datatype ('m, 'p, 'v) worker_entry =
  WL_Claimed "'v lane_job"
| WL_Process 'p "'v queue_job" str 'm
| WL_Renewed str str bool
| WL_Returned "unit result"
| WL_TimedOut nat
| WL_Stopped
| WL_Settled str str settlement bool

record 'm worker_setup =
  ws_queue_name :: str
  ws_worker_id :: str
  ws_module_ref :: 'm
  ws_options :: queue_options

definition lane_settle :: "('w, 'v, 'o) lane \<Rightarrow> str \<Rightarrow> str \<Rightarrow> settlement \<Rightarrow> ('w, unit) lane_step" where
  "lane_settle lane jid token se =
     (case se of
        SE_Complete \<Rightarrow> la_complete lane jid token
      | SE_Fail m \<Rightarrow> la_fail lane jid token m
      | SE_Release \<Rightarrow> la_release lane jid token)"

definition timeout_message :: "(nat \<Rightarrow> str) \<Rightarrow> nat \<Rightarrow> str" where
  "timeout_message dbg d = ''queue processor timed out after Some('' @ dbg d @ '')''"

definition on_lane ::
    "('w, 'a) lane_step \<Rightarrow> ('w, 'm, 'p) queue_shared \<Rightarrow> (str + 'a) \<times> ('w, 'm, 'p) queue_shared" where
  "on_lane f s = (case f (qw_env s) of (r, w) \<Rightarrow> (r, s\<lparr>qw_env := w\<rparr>))"

definition claim_move ::
    "('w, 'v, 'o) lane \<Rightarrow> 'm worker_setup \<Rightarrow> ('w, 'm, 'p) queue_shared
     \<Rightarrow> 'v worker_pc \<times> ('m, 'p, 'v) worker_entry list \<times> ('w, 'm, 'p) queue_shared" where
  "claim_move lane cfg s =
     (case on_lane (la_claim_next lane (ws_worker_id cfg) (qo_lease_duration (ws_options cfg))) s of
        (Inl _, s') \<Rightarrow> (WP_ErrorWait, [], s')
      | (Inr None, s') \<Rightarrow> (WP_Idle, [], s')
      | (Inr (Some job), s') \<Rightarrow>
          (case lj_lock_token job of None \<Rightarrow> WP_ErrorWait | Some token \<Rightarrow> WP_Find job token, [WL_Claimed job], s'))"

definition select_move ::
    "(nat \<Rightarrow> str) \<Rightarrow> ('w, 'v, 'o) lane \<Rightarrow> 'm worker_setup \<Rightarrow> worker_signal \<Rightarrow> 'v lane_job \<Rightarrow> str \<Rightarrow> ('w, 'm, 'p) queue_shared
     \<Rightarrow> 'v worker_pc \<times> ('m, 'p, 'v) worker_entry list \<times> ('w, 'm, 'p) queue_shared" where
  "select_move dbg lane cfg sig job token s =
     (case sig of
        Returned (Inr u) \<Rightarrow> (WP_Settle job token SE_Complete, [WL_Returned (Inr u)], s)
      | Returned (Inl e) \<Rightarrow> (WP_Settle job token (SE_Fail (boot_error_display e)), [WL_Returned (Inl e)], s)
      | TimedOut \<Rightarrow>
          (case lj_timeout job of
             None \<Rightarrow> (WP_Select job token, [], s)
           | Some d \<Rightarrow> (WP_Settle job token (SE_Fail (timeout_message dbg d)), [WL_TimedOut d], s))
      | Heartbeat \<Rightarrow>
          (case on_lane (la_renew lane (lj_id job) token (qo_lease_duration (ws_options cfg))) s of
             (Inl _, s') \<Rightarrow> (WP_ErrorWait, [WL_Renewed (lj_id job) token False], s')
           | (Inr _, s') \<Rightarrow> (WP_Select job token, [WL_Renewed (lj_id job) token True], s'))
      | Wake \<Rightarrow>
          if queue_is_running s then (WP_Select job token, [], s)
          else (WP_Settle job token SE_Release, [WL_Stopped], s)
      | Go \<Rightarrow> (WP_Select job token, [], s))"

definition call_move ::
    "('w, unit) lane_step \<Rightarrow> 'v worker_pc \<Rightarrow> (bool \<Rightarrow> ('m, 'p, 'v) worker_entry list) \<Rightarrow> ('w, 'm, 'p) queue_shared
     \<Rightarrow> 'v worker_pc \<times> ('m, 'p, 'v) worker_entry list \<times> ('w, 'm, 'p) queue_shared" where
  "call_move f pc entries s =
     (case on_lane f s of (Inl _, s') \<Rightarrow> (WP_ErrorWait, entries False, s') | (Inr _, s') \<Rightarrow> (pc, entries True, s'))"

definition go_move ::
    "('w, 'v, 'o) lane \<Rightarrow> 'm worker_setup \<Rightarrow> 'v worker_pc \<Rightarrow> ('w, 'm, 'p) queue_shared
     \<Rightarrow> 'v worker_pc \<times> ('m, 'p, 'v) worker_entry list \<times> ('w, 'm, 'p) queue_shared" where
  "go_move lane cfg pc s =
     (case pc of
        WP_Check \<Rightarrow> (if queue_is_running s then WP_CheckProcessors else WP_Done, [], s)
      | WP_CheckProcessors \<Rightarrow> (if has_processors s then WP_Recover else WP_NoProcessors, [], s)
      | WP_Recover \<Rightarrow> call_move (la_recover_stalled lane) WP_Promote (\<lambda>_. []) s
      | WP_Promote \<Rightarrow> call_move (la_promote_due lane) WP_Claim (\<lambda>_. []) s
      | WP_Claim \<Rightarrow> claim_move lane cfg s
      | WP_Find job token \<Rightarrow>
          (case processor_for s (lj_name job) of
             Some p \<Rightarrow> (WP_Select job token, [WL_Process p (queue_job_from_lane job) (ws_queue_name cfg) (ws_module_ref cfg)], s)
           | None \<Rightarrow> (WP_NoneFound job token, [], s))
      | WP_NoneFound job token \<Rightarrow>
          if queue_is_running s then (WP_AwaitProcessor job token, [], s)
          else (WP_Settle job token SE_Release, [WL_Stopped], s)
      | WP_Settle job token se \<Rightarrow>
          call_move (lane_settle lane (lj_id job) token se) WP_Check (\<lambda>ok. [WL_Settled (lj_id job) token se ok]) s
      | _ \<Rightarrow> (pc, [], s))"

definition wake_move :: "'v worker_pc \<Rightarrow> 'v worker_pc" where
  "wake_move pc =
     (case pc of
        WP_NoProcessors \<Rightarrow> WP_Check | WP_Idle \<Rightarrow> WP_Check | WP_ErrorWait \<Rightarrow> WP_Check
      | WP_AwaitProcessor job token \<Rightarrow> WP_Find job token
      | _ \<Rightarrow> pc)"

definition worker_move ::
    "(nat \<Rightarrow> str) \<Rightarrow> ('w, 'v, 'o) lane \<Rightarrow> 'm worker_setup \<Rightarrow> worker_signal \<Rightarrow> 'v worker_pc \<Rightarrow> ('w, 'm, 'p) queue_shared
     \<Rightarrow> 'v worker_pc \<times> ('m, 'p, 'v) worker_entry list \<times> ('w, 'm, 'p) queue_shared" where
  "worker_move dbg lane cfg sig pc s =
     (case pc of
        WP_Select job token \<Rightarrow> select_move dbg lane cfg sig job token s
      | _ \<Rightarrow> (case sig of Go \<Rightarrow> go_move lane cfg pc s | Wake \<Rightarrow> (wake_move pc, [], s) | _ \<Rightarrow> (pc, [], s)))"

section \<open>The queue\<close>

record ('m, 'p, 'v) queue_worker =
  wk_setup :: "'m worker_setup"
  wk_pc :: "'v worker_pc"
  wk_log :: "('m, 'p, 'v) worker_entry list"

text \<open>
  \<open>qs_starts\<close> are calls of \<open>start\<close> between their locked sections, \<open>qs_stops\<close> counts those of
  \<open>shutdown\<close>, and \<open>qs_joins\<close> holds the workers that calls of \<open>shutdown\<close> wait for.
\<close>

record ('w, 'm, 'p, 'v) queue_system =
  qs_shared :: "('w, 'm, 'p) queue_shared"
  qs_workers :: "('m, 'p, 'v) queue_worker list"
  qs_handles :: "nat list"
  qs_starts :: "(str \<times> 'm) list"
  qs_stops :: nat
  qs_joins :: "nat list list"

definition queue_new :: "'w \<Rightarrow> ('w, 'm, 'p, 'v) queue_system" where
  "queue_new w = \<lparr>qs_shared = \<lparr>qw_env = w, qw_processors = [], qw_running = None\<rparr>,
     qs_workers = [], qs_handles = [], qs_starts = [], qs_stops = 0, qs_joins = []\<rparr>"

definition queue_process ::
    "str \<Rightarrow> 'p \<Rightarrow> ('w, 'm, 'p) queue_shared \<Rightarrow> unit result \<times> ('w, 'm, 'p) queue_shared" where
  "queue_process name p s =
     (case validate_job_name name of
        Inl e \<Rightarrow> (Inl e, s)
      | Inr n \<Rightarrow>
          if bt_get (qw_processors s) n \<noteq> None
          then (Inl (Internal (''queue processor is already registered: '' @ n)), s)
          else (Inr (), s\<lparr>qw_processors := bt_insert n p (qw_processors s)\<rparr>))"

definition queue_start_begin ::
    "queue_options \<Rightarrow> str option \<Rightarrow> str \<Rightarrow> 'm \<Rightarrow> ('w, 'm, 'p, 'v) queue_system \<Rightarrow> unit result \<times> ('w, 'm, 'p, 'v) queue_system" where
  "queue_start_begin opts no_runtime name m s =
     (case queue_options_validate opts of
        Inl e \<Rightarrow> (Inl e, s)
      | Inr _ \<Rightarrow> (case no_runtime of
          Some e \<Rightarrow> (Inl (Internal (''queue requires a running Tokio runtime: '' @ e)), s)
        | None \<Rightarrow>
            if qw_running (qs_shared s) \<noteq> None then (Inr (), s)
            else (Inr (), s\<lparr>qs_shared := (qs_shared s)\<lparr>qw_running := Some m\<rparr>, qs_starts := qs_starts s @ [(name, m)]\<rparr>)))"

definition spawned_worker :: "queue_options \<Rightarrow> str \<Rightarrow> 'm \<Rightarrow> nat \<Rightarrow> ('m, 'p, 'v) queue_worker" where
  "spawned_worker opts name m index =
     \<lparr>wk_setup = \<lparr>ws_queue_name = name, ws_worker_id = name @ ''-worker-'' @ show_nat (index + 1),
        ws_module_ref = m, ws_options = opts\<rparr>, wk_pc = WP_Check, wk_log = []\<rparr>"

definition queue_start_spawn ::
    "queue_options \<Rightarrow> str \<times> 'm \<Rightarrow> ('w, 'm, 'p, 'v) queue_system \<Rightarrow> ('w, 'm, 'p, 'v) queue_system" where
  "queue_start_spawn opts = (\<lambda>(name, m) s.
     s\<lparr>qs_workers := qs_workers s @ map (spawned_worker opts name m) [0..<qo_worker_count opts],
       qs_handles := qs_handles s @ map (\<lambda>i. length (qs_workers s) + i) [0..<qo_worker_count opts],
       qs_starts := remove1 (name, m) (qs_starts s)\<rparr>)"

definition queue_shutdown_begin :: "('w, 'm, 'p, 'v) queue_system \<Rightarrow> ('w, 'm, 'p, 'v) queue_system" where
  "queue_shutdown_begin s = s\<lparr>qs_shared := (qs_shared s)\<lparr>qw_running := None\<rparr>, qs_stops := qs_stops s + 1\<rparr>"

definition queue_shutdown_take :: "('w, 'm, 'p, 'v) queue_system \<Rightarrow> ('w, 'm, 'p, 'v) queue_system" where
  "queue_shutdown_take s = s\<lparr>qs_stops := qs_stops s - 1, qs_joins := qs_handles s # qs_joins s, qs_handles := []\<rparr>"

definition worker_step ::
    "(nat \<Rightarrow> str) \<Rightarrow> ('w, 'v, 'o) lane \<Rightarrow> worker_signal \<Rightarrow> nat \<Rightarrow> ('w, 'm, 'p, 'v) queue_system \<Rightarrow> ('w, 'm, 'p, 'v) queue_system" where
  "worker_step dbg lane sig i s =
     (let k = qs_workers s ! i;
          (pc, entries, sh) = worker_move dbg lane (wk_setup k) sig (wk_pc k) (qs_shared s)
      in s\<lparr>qs_shared := sh, qs_workers := (qs_workers s)[i := k\<lparr>wk_pc := pc, wk_log := wk_log k @ entries\<rparr>]\<rparr>)"

text \<open>
  The calls and workers interleaved. The world changes by itself as well: time passes, jobs are
  added, other processes work on the same engine.
\<close>

inductive queue_reachable ::
    "(nat \<Rightarrow> str) \<Rightarrow> ('w, 'v, 'o) lane \<Rightarrow> queue_options \<Rightarrow> ('w, 'm, 'p, 'v) queue_system \<Rightarrow> bool" for dbg lane opts where
  queue_begin: "queue_reachable dbg lane opts (queue_new w)"
| queue_world: "queue_reachable dbg lane opts s \<Longrightarrow>
     queue_reachable dbg lane opts (s\<lparr>qs_shared := (qs_shared s)\<lparr>qw_env := w\<rparr>\<rparr>)"
| queue_register: "queue_reachable dbg lane opts s \<Longrightarrow> queue_process name p (qs_shared s) = (r, sh) \<Longrightarrow>
     queue_reachable dbg lane opts (s\<lparr>qs_shared := sh\<rparr>)"
| queue_starts: "queue_reachable dbg lane opts s \<Longrightarrow> queue_start_begin opts no_runtime name m s = (r, s') \<Longrightarrow>
     queue_reachable dbg lane opts s'"
| queue_spawns: "queue_reachable dbg lane opts s \<Longrightarrow> x \<in> set (qs_starts s) \<Longrightarrow>
     queue_reachable dbg lane opts (queue_start_spawn opts x s)"
| queue_stops: "queue_reachable dbg lane opts s \<Longrightarrow> queue_reachable dbg lane opts (queue_shutdown_begin s)"
| queue_takes: "queue_reachable dbg lane opts s \<Longrightarrow> qs_stops s > 0 \<Longrightarrow>
     queue_reachable dbg lane opts (queue_shutdown_take s)"
| queue_joined: "queue_reachable dbg lane opts s \<Longrightarrow> ids \<in> set (qs_joins s) \<Longrightarrow>
     \<forall>i \<in> set ids. wk_pc (qs_workers s ! i) = WP_Done \<Longrightarrow>
     queue_reachable dbg lane opts (s\<lparr>qs_joins := remove1 ids (qs_joins s)\<rparr>)"
| queue_works: "queue_reachable dbg lane opts s \<Longrightarrow> i < length (qs_workers s) \<Longrightarrow>
     queue_reachable dbg lane opts (worker_step dbg lane sig i s)"

section \<open>What a worker does with its jobs\<close>

datatype 'v claim_phase = CP_Free | CP_Held "'v lane_job" str | CP_Busy "'v lane_job" str | CP_Owed "'v lane_job" str settlement

text \<open>
  The protocol of a claim: a claimed job with a token is given to a processor once or given
  back; while it is processed its lease is renewed, and a failed renewal gives it up; when the
  processor returns, runs out of time or the queue stops, one settlement with the token follows
  that says so.
\<close>

fun claim_step :: "(nat \<Rightarrow> str) \<Rightarrow> 'm worker_setup \<Rightarrow> ('m, 'p, 'v) worker_entry \<Rightarrow> 'v claim_phase \<Rightarrow> 'v claim_phase option" where
  "claim_step dbg cfg (WL_Claimed job) CP_Free =
     Some (case lj_lock_token job of None \<Rightarrow> CP_Free | Some token \<Rightarrow> CP_Held job token)"
| "claim_step dbg cfg (WL_Process p qj name m) (CP_Held job token) =
     (if qj = queue_job_from_lane job \<and> name = ws_queue_name cfg \<and> m = ws_module_ref cfg then Some (CP_Busy job token) else None)"
| "claim_step dbg cfg (WL_Renewed jid tok ok) (CP_Busy job token) =
     (if jid = lj_id job \<and> tok = token then Some (if ok then CP_Busy job token else CP_Free) else None)"
| "claim_step dbg cfg (WL_Returned r) (CP_Busy job token) =
     Some (CP_Owed job token (case r of Inl e \<Rightarrow> SE_Fail (boot_error_display e) | Inr _ \<Rightarrow> SE_Complete))"
| "claim_step dbg cfg (WL_TimedOut d) (CP_Busy job token) =
     (if lj_timeout job = Some d then Some (CP_Owed job token (SE_Fail (timeout_message dbg d))) else None)"
| "claim_step dbg cfg WL_Stopped (CP_Held job token) = Some (CP_Owed job token SE_Release)"
| "claim_step dbg cfg WL_Stopped (CP_Busy job token) = Some (CP_Owed job token SE_Release)"
| "claim_step dbg cfg (WL_Settled jid tok se ok) (CP_Owed job token se') =
     (if jid = lj_id job \<and> tok = token \<and> se = se' then Some CP_Free else None)"
| "claim_step dbg cfg entry phase = None"

primrec claim_run ::
    "(nat \<Rightarrow> str) \<Rightarrow> 'm worker_setup \<Rightarrow> ('m, 'p, 'v) worker_entry list \<Rightarrow> 'v claim_phase \<Rightarrow> 'v claim_phase option" where
  "claim_run dbg cfg [] phase = Some phase"
| "claim_run dbg cfg (e # es) phase = Option.bind (claim_step dbg cfg e phase) (claim_run dbg cfg es)"

definition pc_phase :: "'v worker_pc \<Rightarrow> 'v claim_phase" where
  "pc_phase pc =
     (case pc of
        WP_Find job token \<Rightarrow> CP_Held job token | WP_NoneFound job token \<Rightarrow> CP_Held job token
      | WP_AwaitProcessor job token \<Rightarrow> CP_Held job token | WP_Select job token \<Rightarrow> CP_Busy job token
      | WP_Settle job token se \<Rightarrow> CP_Owed job token se | _ \<Rightarrow> CP_Free)"

lemma claim_run_append:
  "claim_run dbg cfg (xs @ ys) phase = Option.bind (claim_run dbg cfg xs phase) (claim_run dbg cfg ys)"
  by (induction xs arbitrary: phase) (auto split: bind_split)

lemma move_phase:
  assumes "worker_move dbg lane cfg sig pc s = (pc', entries, s')"
  shows "claim_run dbg cfg entries (pc_phase pc) = Some (pc_phase pc')"
proof (cases "\<exists>job token. pc = WP_Select job token")
  case True
  then show ?thesis using assms
    by (auto simp: worker_move_def select_move_def pc_phase_def
        split: worker_signal.splits sum.splits option.splits prod.splits if_splits)
next
  case False
  then show ?thesis using assms
    by (auto simp: worker_move_def go_move_def claim_move_def call_move_def wake_move_def pc_phase_def
        split: worker_pc.splits worker_signal.splits sum.splits option.splits prod.splits if_splits)
qed

lemma move_shared:
  assumes "worker_move dbg lane cfg sig pc s = (pc', entries, s')"
  shows "qw_processors s' = qw_processors s \<and> qw_running s' = qw_running s \<and>
    (\<forall>p qj name m. WL_Process p qj name m \<in> set entries \<longrightarrow> bt_get (qw_processors s) (qj_name qj) = Some p)"
proof (cases "\<exists>job token. pc = WP_Select job token")
  case True
  then show ?thesis using assms
    by (auto simp: worker_move_def select_move_def on_lane_def
        split: worker_signal.splits sum.splits option.splits prod.splits if_splits)
next
  case False
  then show ?thesis using assms
    by (auto simp: worker_move_def go_move_def claim_move_def call_move_def wake_move_def on_lane_def processor_for_def
          queue_job_from_lane_def
        split: worker_pc.splits worker_signal.splits sum.splits option.splits prod.splits if_splits)
qed

definition worker_ok :: "(nat \<Rightarrow> str) \<Rightarrow> (str, 'p) btree \<Rightarrow> ('m, 'p, 'v) queue_worker \<Rightarrow> bool" where
  "worker_ok dbg ps k \<longleftrightarrow>
     claim_run dbg (wk_setup k) (wk_log k) CP_Free = Some (pc_phase (wk_pc k)) \<and>
     (\<forall>p qj name m. WL_Process p qj name m \<in> set (wk_log k) \<longrightarrow> bt_get ps (qj_name qj) = Some p)"

definition queue_ok :: "(nat \<Rightarrow> str) \<Rightarrow> ('w, 'm, 'p, 'v) queue_system \<Rightarrow> bool" where
  "queue_ok dbg s \<longleftrightarrow>
     (\<forall>k \<in> set (qs_workers s). worker_ok dbg (qw_processors (qs_shared s)) k) \<and>
     (\<forall>i < length (qs_workers s). wk_pc (qs_workers s ! i) = WP_Done
        \<or> i \<in> set (qs_handles s) \<union> \<Union> (set ` set (qs_joins s)))"

lemma worker_ok_spawned: "worker_ok dbg ps (spawned_worker opts name m i)"
  by (simp add: worker_ok_def spawned_worker_def pc_phase_def)

lemma worker_ok_more:
  assumes "worker_ok dbg ps k" and "\<And>n p. bt_get ps n = Some p \<Longrightarrow> bt_get ps' n = Some p"
  shows "worker_ok dbg ps' k"
  using assms unfolding worker_ok_def by blast

lemma process_keeps:
  "queue_process name p s = (r, s') \<Longrightarrow> bt_get (qw_processors s) n = Some q \<Longrightarrow> bt_get (qw_processors s') n = Some q"
  by (auto simp: queue_process_def split: sum.splits if_splits)

lemma move_worker_ok:
  assumes "worker_ok dbg (qw_processors s) k" and "worker_move dbg lane (wk_setup k) sig (wk_pc k) s = (pc, entries, s')"
  shows "worker_ok dbg (qw_processors s') (k\<lparr>wk_pc := pc, wk_log := wk_log k @ entries\<rparr>)"
proof -
  have "claim_run dbg (wk_setup k) (wk_log k @ entries) CP_Free = Some (pc_phase pc)"
    using assms(1) move_phase [OF assms(2)] by (simp add: worker_ok_def claim_run_append)
  then show ?thesis using assms(1) move_shared [OF assms(2)] by (simp add: worker_ok_def) blast
qed

lemma done_stays: "worker_move dbg lane cfg sig WP_Done s = (WP_Done, [], s)"
  by (simp add: worker_move_def go_move_def wake_move_def split: worker_signal.split)

lemma worker_step_ok:
  assumes s: "queue_ok dbg s" and i: "i < length (qs_workers s)"
  shows "queue_ok dbg (worker_step dbg lane sig i s)"
proof -
  let ?k = "qs_workers s ! i"
  obtain pc entries sh where m: "worker_move dbg lane (wk_setup ?k) sig (wk_pc ?k) (qs_shared s) = (pc, entries, sh)"
    using prod_cases3 by blast
  have sh: "qw_processors sh = qw_processors (qs_shared s)" using move_shared [OF m] by blast
  have step: "worker_step dbg lane sig i s =
      s\<lparr>qs_shared := sh, qs_workers := (qs_workers s)[i := ?k\<lparr>wk_pc := pc, wk_log := wk_log ?k @ entries\<rparr>]\<rparr>"
    using m by (simp add: worker_step_def Let_def)
  have "worker_ok dbg (qw_processors sh) (?k\<lparr>wk_pc := pc, wk_log := wk_log ?k @ entries\<rparr>)"
    using move_worker_ok [OF _ m] s i by (simp add: queue_ok_def)
  moreover have "wk_pc ?k = WP_Done \<Longrightarrow> pc = WP_Done" using m done_stays [of dbg lane "wk_setup ?k" sig "qs_shared s"] by simp
  ultimately show ?thesis using s i sh
    by (auto simp: queue_ok_def step nth_list_update dest: set_update_subset_insert [THEN subsetD])
qed

lemma spawn_ok:
  assumes "queue_ok dbg s"
  shows "queue_ok dbg (queue_start_spawn opts x s)"
proof -
  obtain name m where x: "x = (name, m)" by (cases x)
  have "i \<in> (\<lambda>j. length (qs_workers s) + j) ` {0..<qo_worker_count opts}"
    if "\<not> i < length (qs_workers s)" "i < length (qs_workers s) + qo_worker_count opts" for i
    using that by (intro image_eqI [of _ _ "i - length (qs_workers s)"]) auto
  then show ?thesis using assms
    by (auto simp: queue_ok_def queue_start_spawn_def x worker_ok_spawned nth_append)
qed

lemma joined_ok:
  assumes s: "queue_ok dbg s" and ids: "ids \<in> set (qs_joins s)" "\<forall>i \<in> set ids. wk_pc (qs_workers s ! i) = WP_Done"
  shows "queue_ok dbg (s\<lparr>qs_joins := remove1 ids (qs_joins s)\<rparr>)"
proof -
  have "wk_pc (qs_workers s ! i) = WP_Done \<or> i \<in> set (qs_handles s) \<union> \<Union> (set ` set (remove1 ids (qs_joins s)))"
    if i: "i < length (qs_workers s)" for i
  proof (cases "i \<in> set ids")
    case False
    have "ids' \<in> set (remove1 ids (qs_joins s))" if "ids' \<in> set (qs_joins s)" "i \<in> set ids'" for ids'
      using that False by (metis in_set_remove1)
    then show ?thesis using s i unfolding queue_ok_def by blast
  qed (use ids in blast)
  with s show ?thesis by (simp add: queue_ok_def)
qed

lemma reachable_ok:
  assumes "queue_reachable dbg lane opts s"
  shows "queue_ok dbg s"
  using assms
proof (induction rule: queue_reachable.induct)
  case (queue_register s name p r sh)
  have "\<forall>k \<in> set (qs_workers s). worker_ok dbg (qw_processors sh) k"
  proof
    fix k assume "k \<in> set (qs_workers s)"
    then have "worker_ok dbg (qw_processors (qs_shared s)) k" using queue_register.IH by (simp add: queue_ok_def)
    from worker_ok_more [OF this process_keeps [OF queue_register.hyps(2)]]
    show "worker_ok dbg (qw_processors sh) k" .
  qed
  with queue_register show ?case by (simp add: queue_ok_def)
next
  case (queue_starts s no_runtime name m r s')
  then show ?case
    by (auto simp: queue_start_begin_def queue_ok_def split: sum.splits option.splits if_splits)
next
  case (queue_works s i sig)
  then show ?case by (simp add: worker_step_ok)
next
  case (queue_spawns s x)
  then show ?case by (simp add: spawn_ok)
next
  case (queue_joined s ids)
  then show ?case by (simp add: joined_ok)
qed (auto simp: queue_new_def queue_shutdown_begin_def queue_shutdown_take_def queue_ok_def)


text \<open>
  A shutdown waits for all workers: in every interleaving a worker that has not ended is
  among the handles of the queue or among those that a call of \<open>shutdown\<close> waits for.
\<close>
theorem workers_accounted:
  assumes "queue_reachable dbg lane opts s" and "i < length (qs_workers s)"
  shows "wk_pc (qs_workers s ! i) = WP_Done \<or> i \<in> set (qs_handles s) \<union> \<Union> (set ` set (qs_joins s))"
  using reachable_ok [OF assms(1)] assms(2) by (simp add: queue_ok_def)

section \<open>Workers of a stopped queue\<close>

text \<open>The events that take a worker on: all that can end its wait but a renewed lease.\<close>

definition useful :: "worker_signal \<Rightarrow> 'v worker_pc \<Rightarrow> bool" where
  "useful sig pc =
     (case pc of
        WP_Done \<Rightarrow> False
      | WP_NoProcessors \<Rightarrow> sig = Wake | WP_Idle \<Rightarrow> sig = Wake | WP_ErrorWait \<Rightarrow> sig = Wake | WP_AwaitProcessor _ _ \<Rightarrow> sig = Wake
      | WP_Select job _ \<Rightarrow> sig = Wake \<or> (\<exists>r. sig = Returned r) \<or> sig = TimedOut \<and> lj_timeout job \<noteq> None
      | _ \<Rightarrow> sig = Go)"

primrec useful_moves ::
    "(nat \<Rightarrow> str) \<Rightarrow> ('w, 'v, 'o) lane \<Rightarrow> 'm worker_setup \<Rightarrow> (worker_signal \<times> 'w) list \<Rightarrow> 'v worker_pc
     \<Rightarrow> ('w, 'm, 'p) queue_shared \<Rightarrow> nat \<times> 'v worker_pc" where
  "useful_moves dbg lane cfg [] pc s = (0, pc)"
| "useful_moves dbg lane cfg (x # xs) pc s =
     (case worker_move dbg lane cfg (fst x) pc (s\<lparr>qw_env := snd x\<rparr>) of (pc', _, s') \<Rightarrow>
        apfst ((+) (if useful (fst x) pc then 1 else 0)) (useful_moves dbg lane cfg xs pc' s'))"

definition stop_rank :: "'v worker_pc \<Rightarrow> nat" where
  "stop_rank pc =
     (case pc of
        WP_Done \<Rightarrow> 0 | WP_Check \<Rightarrow> 1 | WP_NoProcessors \<Rightarrow> 2 | WP_Idle \<Rightarrow> 2 | WP_ErrorWait \<Rightarrow> 2
      | WP_Settle _ _ _ \<Rightarrow> 3 | WP_Select _ _ \<Rightarrow> 4 | WP_NoneFound _ _ \<Rightarrow> 4 | WP_Find _ _ \<Rightarrow> 5 | WP_AwaitProcessor _ _ \<Rightarrow> 6
      | WP_Claim \<Rightarrow> 6 | WP_Promote \<Rightarrow> 7 | WP_Recover \<Rightarrow> 8 | WP_CheckProcessors \<Rightarrow> 9)"

lemma stopped_move:
  assumes "worker_move dbg lane cfg sig pc s = (pc', entries, s')" and "qw_running s = None"
  shows "stop_rank pc' + (if useful sig pc then 1 else 0) \<le> stop_rank pc"
proof (cases "\<exists>job token. pc = WP_Select job token")
  case True
  then show ?thesis using assms
    by (auto simp: worker_move_def select_move_def stop_rank_def useful_def queue_is_running_def
        split: worker_signal.splits sum.splits option.splits prod.splits)
next
  case False
  then show ?thesis using assms
    by (auto simp: worker_move_def go_move_def claim_move_def call_move_def wake_move_def stop_rank_def useful_def queue_is_running_def
        split: worker_pc.splits worker_signal.splits sum.splits option.splits prod.splits if_splits)
qed

text \<open>
  A stopped queue comes to rest: from wherever it stands, a worker ends after at most nine
  readings, calls or waits, however often it renews a lease in between, whatever the engine
  answers and its world becomes, and until then some event can take it on.
\<close>
theorem stopped_worker_ends:
  assumes stopped: "qw_running s = None"
  shows "fst (useful_moves dbg lane cfg xs pc s) \<le> 9 \<and>
    (snd (useful_moves dbg lane cfg xs pc s) = WP_Done \<or> (\<exists>sig. useful sig (snd (useful_moves dbg lane cfg xs pc s))))"
proof -
  have "fst (useful_moves dbg lane cfg xs pc s) \<le> stop_rank pc"
    using stopped
  proof (induction xs arbitrary: pc s)
    case (Cons x xs)
    obtain pc' entries s' where m: "worker_move dbg lane cfg (fst x) pc (s\<lparr>qw_env := snd x\<rparr>) = (pc', entries, s')"
      using prod_cases3 by blast
    have "qw_running s' = None" using move_shared [OF m] Cons.prems by simp
    with Cons.IH [of s' pc'] stopped_move [OF m] Cons.prems show ?case by (simp add: m)
  qed simp
  moreover have "stop_rank pc \<le> 9" by (simp add: stop_rank_def split: worker_pc.split)
  moreover have "pc = WP_Done \<or> (\<exists>sig. useful sig pc)" for pc :: "'v worker_pc"
    by (cases pc) (auto simp: useful_def)
  ultimately show ?thesis by force
qed

section \<open>A run\<close>

text \<open>An engine with one job at most, in the world: whether it waits to be claimed.\<close>

definition sample_lane_job :: "unit lane_job" where
  "sample_lane_job = \<lparr>lj_id = ''7'', lj_name = ''mail'', lj_payload = (), lj_state = LS_Active, lj_lock_token = Some ''t'',
     lj_timeout = None, lj_failed_reason = None\<rparr>"

definition sample_lane :: "(bool, unit, unit) lane" where
  "sample_lane =
     \<lparr>la_add_job = (\<lambda>_ _ _ _. (Inr sample_lane_job, True)), la_stats = (\<lambda>w. (Inl ''none'', w)),
      la_list_jobs = (\<lambda>_ _ w. (Inr [], w)), la_obliterate = (\<lambda>_ _. (Inr (), False)),
      la_recover_stalled = (\<lambda>w. (Inr (), w)), la_promote_due = (\<lambda>w. (Inr (), w)),
      la_claim_next = (\<lambda>_ _ w. (Inr (if w then Some sample_lane_job else None), False)),
      la_complete = (\<lambda>_ _ w. (Inr (), w)), la_fail = (\<lambda>_ _ _ w. (Inr (), w)), la_release = (\<lambda>_ _ w. (Inr (), w)),
      la_renew = (\<lambda>_ _ _ w. (Inr (), w))\<rparr>"

definition sample_queue_options :: queue_options where
  "sample_queue_options = \<lparr>qo_worker_count = 1, qo_poll_interval = 1, qo_lease_duration = 3\<rparr>"

definition sample_registered :: "(bool, unit, nat, unit) queue_system" where
  "sample_registered = (let s = queue_new True in s\<lparr>qs_shared := snd (queue_process '' mail'' 5 (qs_shared s))\<rparr>)"

definition sample_started :: "(bool, unit, nat, unit) queue_system" where
  "sample_started =
     queue_start_spawn sample_queue_options (''q'', ())
       (snd (queue_start_begin sample_queue_options None ''q'' () sample_registered))"

definition sample_worked :: "(bool, unit, nat, unit) queue_system" where
  "sample_worked = fold (\<lambda>sig. worker_step (\<lambda>_. []) sample_lane sig 0)
     [Go, Go, Go, Go, Go, Go, Heartbeat, Returned (Inr ()), Go] sample_started"

lemma worked_reachable:
  "queue_reachable dbg lane opts s \<Longrightarrow> i < length (qs_workers s) \<Longrightarrow>
     queue_reachable dbg lane opts (fold (\<lambda>sig. worker_step dbg lane sig i) sigs s)"
proof (induction sigs arbitrary: s)
  case (Cons sig sigs)
  have "length (qs_workers (worker_step dbg lane sig i s)) = length (qs_workers s)"
    by (simp add: worker_step_def Let_def split: prod.split)
  with Cons.prems(2) Cons.IH [OF queue_reachable.queue_works [OF Cons.prems, of sig]] show ?case by simp
qed simp

lemma sample_started_reachable:
  "queue_reachable (\<lambda>_. []) sample_lane sample_queue_options sample_started \<and> length (qs_workers sample_started) = 1"
proof
  let ?s2 = "snd (queue_start_begin sample_queue_options None ''q'' () sample_registered)"
  have "queue_reachable (\<lambda>_. []) sample_lane sample_queue_options sample_registered" unfolding sample_registered_def Let_def
    by (rule queue_reachable.queue_register [OF queue_reachable.queue_begin]) (rule prod.collapse [symmetric])
  then have "queue_reachable (\<lambda>_. []) sample_lane sample_queue_options ?s2"
    by (rule queue_reachable.queue_starts) (rule prod.collapse [symmetric])
  moreover have "qs_starts ?s2 = [(''q'', ())]" by code_simp
  then have "(''q'', ()) \<in> set (qs_starts ?s2)" by simp
  ultimately show "queue_reachable (\<lambda>_. []) sample_lane sample_queue_options sample_started"
    unfolding sample_started_def by (rule queue_reachable.queue_spawns)
  show "length (qs_workers sample_started) = 1" by code_simp
qed

lemma sample_worked_reachable: "queue_reachable (\<lambda>_. []) sample_lane sample_queue_options sample_worked"
  unfolding sample_worked_def by (rule worked_reachable) (simp_all add: sample_started_reachable)

lemma sample_worked_log:
  "length (qs_workers sample_worked) = 1 \<and> wk_pc (qs_workers sample_worked ! 0) = WP_Check \<and>
   wk_log (qs_workers sample_worked ! 0) =
     [WL_Claimed sample_lane_job, WL_Process 5 (queue_job_from_lane sample_lane_job) ''q'' (),
      WL_Renewed ''7'' ''t'' True, WL_Returned (Inr ()), WL_Settled ''7'' ''t'' SE_Complete True]"
  by code_simp


lemma workers_accounted_witness: "0 \<in> set (qs_handles sample_worked) \<union> \<Union> (set ` set (qs_joins sample_worked))"
  using workers_accounted [OF sample_worked_reachable, of 0] sample_worked_log by simp

lemma stopped_worker_ends_witness:
  "fst (useful_moves (\<lambda>_. []) sample_lane (wk_setup (qs_workers sample_worked ! 0))
     [(Go, True), (Heartbeat, False), (Go, True)] (WP_Find sample_lane_job ''t'')
     \<lparr>qw_env = True, qw_processors = [(''mail'', 5 :: nat)], qw_running = None\<rparr>) \<le> 9"
  by (rule stopped_worker_ends [THEN conjunct1]) simp

section \<open>The queue module\<close>

record 'p queue_module =
  qm_name :: str
  qm_token :: str
  qm_processors :: "(str \<times> 'p) list"
  qm_global :: bool

text \<open>\<open>from_queue\<close>; \<open>token\<close> is the type name of \<open>Queue\<close>.\<close>

definition queue_module_new :: "str \<Rightarrow> str \<Rightarrow> 'p queue_module" where
  "queue_module_new token name = \<lparr>qm_name = name, qm_token = token, qm_processors = [], qm_global = False\<rparr>"

definition queue_module_processor :: "str \<Rightarrow> 'p \<Rightarrow> 'p queue_module \<Rightarrow> 'p queue_module" where
  "queue_module_processor name p d = d\<lparr>qm_processors := qm_processors d @ [(name, p)]\<rparr>"

fun register_processors :: "(str \<times> 'p) list \<Rightarrow> ('w, 'm, 'p) queue_shared \<Rightarrow> unit result \<times> ('w, 'm, 'p) queue_shared" where
  "register_processors [] s = (Inr (), s)"
| "register_processors ((name, p) # rest) s =
     (case queue_process name p s of
        (Inl e, s') \<Rightarrow> (Inl e, s')
      | (Inr _, s') \<Rightarrow> register_processors rest s')"

definition queue_module_init :: "'p queue_module \<Rightarrow> ('w, 'm, 'p) queue_shared \<Rightarrow> unit result \<times> ('w, 'm, 'p) queue_shared" where
  "queue_module_init d s = register_processors (qm_processors d) s"

text \<open>
  A job that was enqueued finds the processor registered under its name, up to the blanks around
  both, if the engine keeps the name of a job.
\<close>

lemma enqueued_finds_processor:
  assumes "enqueue_with_options lane name data opts w = (Inr receipt, w')"
    and "queue_process name' p s = (Inr (), s')" and "trim name' = trim name"
    and keeps: "\<And>n d x w j w'. la_add_job lane n d x w = (Inr j, w') \<Longrightarrow> lj_name j = n"
  shows "processor_for s' (qr_name receipt) = Some p"
  using assms(1-3)
  by (auto simp: enqueue_with_options_def step_bind_def step_result_def lane_call_def queue_process_def validate_job_name_def
      processor_for_def Let_def dest: keeps split: sum.splits if_splits prod.splits)

lemma heartbeat_in_time: "3 \<le> lease \<Longrightarrow> 0 < queue_heartbeat_interval lease \<and> 3 * queue_heartbeat_interval lease \<le> lease"
  by (simp add: queue_heartbeat_interval_def Let_def) linarith

end
