(* ===== verification/Route_Builders.thy ===== *)
theory Route_Builders
  imports Json_Data Messaging
begin

text \<open>
  The constructors of routes: \<open>routing/handler.rs\<close>, \<open>routing/route/builders.rs\<close>, the operations of
  \<open>routing/route/{definition,pipeline}.rs\<close> that a controller uses, and the view renderer of
  \<open>view.rs\<close>. A typed handler is a function on decoded values; \<open>dec\<close> and \<open>enc\<close> are the serde
  instances of its argument and result, \<open>pq\<close> reads the quality of a media range. The
  resolution of a provider from a module is user code and a step on the world. The OpenAPI
  metadata of a route is left out.
\<close>

section \<open>Handlers that need the module\<close>

definition scoped_handler :: "('m \<Rightarrow> ('w, ('w, 'm) route_handler) step) \<Rightarrow> ('w, 'm) route_handler" where
  "scoped_handler factory request =
     (case rq_module_ref request of
        None \<Rightarrow> step_result (Inl (Internal ''request-scoped route requires a module context''))
      | Some m \<Rightarrow> step_bind (factory m) (\<lambda>handler. handler request))"

text \<open>
  \<open>get_provider\<close> resolves the controller from the module; only the handler of the route that
  the factory builds is used.
\<close>

definition provider_handler ::
    "('m \<Rightarrow> ('w, 't) step) \<Rightarrow> ('t \<Rightarrow> ('w, ('w, 'm, 'v) route_definition) step) \<Rightarrow> ('w, 'm) route_handler" where
  "provider_handler get_provider factory request =
     (case rq_module_ref request of
        None \<Rightarrow> step_result (Inl (Internal ''provider-backed route requires a module context''))
      | Some m \<Rightarrow> step_bind (step_bind (get_provider m) factory) (\<lambda>rd. rd_handler rd request))"

definition route_new_scoped where
  "route_new_scoped m path factory = route_new m path (scoped_handler factory)"

definition route_new_provider where
  "route_new_provider m path get_provider factory = route_new m path (provider_handler get_provider factory)"

section \<open>Views\<close>

record ('w, 'c) view_renderer =
  vr_engine :: "str \<Rightarrow> 'c \<Rightarrow> ('w, str) step"
  vr_content_type :: str

definition default_view_content_type :: str where
  "default_view_content_type = ''text/html; charset=utf-8''"

definition view_renderer_new :: "(str \<Rightarrow> 'c \<Rightarrow> ('w, str) step) \<Rightarrow> ('w, 'c) view_renderer" where
  "view_renderer_new engine = \<lparr>vr_engine = engine, vr_content_type = default_view_content_type\<rparr>"

definition view_with_content_type :: "str \<Rightarrow> ('w, 'c) view_renderer \<Rightarrow> ('w, 'c) view_renderer" where
  "view_with_content_type ct v = v\<lparr>vr_content_type := ct\<rparr>"

definition view_context :: "('r \<Rightarrow> str + 'c) \<Rightarrow> str \<Rightarrow> 'r \<Rightarrow> 'c result" where
  "view_context to_value view context =
     (case to_value context of
        Inl e \<Rightarrow> Inl (Internal (''failed to serialize view context `'' @ view @ ''`: '' @ e))
      | Inr v \<Rightarrow> Inr v)"

definition render_value :: "('w, 'c) view_renderer \<Rightarrow> str \<Rightarrow> 'c \<Rightarrow> ('w, str) step" where
  "render_value v view context = vr_engine v view context"

definition view_render :: "('r \<Rightarrow> str + 'c) \<Rightarrow> ('w, 'c) view_renderer \<Rightarrow> str \<Rightarrow> 'r \<Rightarrow> ('w, str) step" where
  "view_render to_value v view context =
     step_bind (step_result (view_context to_value view context)) (render_value v view)"

definition response_with_content_type :: "str \<Rightarrow> boot_response \<Rightarrow> boot_response" where
  "response_with_content_type ct r = response_with_header ''content-type'' ct r"

definition render_value_response_with_status ::
    "('w, 'c) view_renderer \<Rightarrow> nat \<Rightarrow> str \<Rightarrow> 'c \<Rightarrow> ('w, boot_response) step" where
  "render_value_response_with_status v status view context =
     step_bind (render_value v view context) (\<lambda>html.
       step_result (Inr (response_with_content_type (vr_content_type v) (html_with_status status html))))"

definition render_value_response where
  "render_value_response v view context = render_value_response_with_status v 200 view context"

definition render_response_with_status ::
    "('r \<Rightarrow> str + 'c) \<Rightarrow> ('w, 'c) view_renderer \<Rightarrow> nat \<Rightarrow> str \<Rightarrow> 'r \<Rightarrow> ('w, boot_response) step" where
  "render_response_with_status to_value v status view context =
     step_bind (step_result (view_context to_value view context))
       (render_value_response_with_status v status view)"

definition render_response where
  "render_response to_value v view context = render_response_with_status to_value v 200 view context"

text \<open>
  The built-in template engine: a table of templates in which \<open>{{ path }}\<close> stands for a value
  of the context. \<open>enc\<close> is the compact JSON text of an array or object.
\<close>

definition view_value_to_string :: "(json \<Rightarrow> str) \<Rightarrow> json \<Rightarrow> str" where
  "view_value_to_string enc v =
     (case v of
        JNull \<Rightarrow> []
      | JBool b \<Rightarrow> (if b then ''true'' else ''false'')
      | JNumber n \<Rightarrow> n
      | JString s \<Rightarrow> s
      | JArray _ \<Rightarrow> enc v
      | JObject _ \<Rightarrow> enc v)"

fun context_walk :: "json \<Rightarrow> str list \<Rightarrow> json option" where
  "context_walk v [] = Some v"
| "context_walk v (s # ss) =
     (case v of
        JObject fds \<Rightarrow> (case map_of fds s of None \<Rightarrow> None | Some x \<Rightarrow> context_walk x ss)
      | _ \<Rightarrow> None)"

definition context_path :: "json \<Rightarrow> str \<Rightarrow> json option" where
  "context_path context path =
     (if path = [] then None else context_walk context (split_on (CHR ''.'') path))"

text \<open>\<open>find_pair c s\<close> splits at the first place where \<open>c\<close> stands twice.\<close>

fun find_pair :: "char \<Rightarrow> str \<Rightarrow> (str \<times> str) option" where
  "find_pair c (x # y # s) =
     (if x = c \<and> y = c then Some ([], s)
      else map_option (\<lambda>(a, b). (x # a, b)) (find_pair c (y # s)))"
| "find_pair c _ = None"

lemma find_pair_eq: "find_pair c s = Some (a, b) \<Longrightarrow> s = a @ c # c # b"
  by (induction c s arbitrary: a b rule: find_pair.induct) (auto split: if_splits)

function render_string_template :: "(json \<Rightarrow> str) \<Rightarrow> json \<Rightarrow> str \<Rightarrow> str" where
  "render_string_template enc context rest =
     (case find_pair (CHR ''{'') rest of
        None \<Rightarrow> rest
      | Some (before, after_start) \<Rightarrow>
          (case find_pair (CHR ''}'') after_start of
             None \<Rightarrow> before @ ''{{'' @ after_start
           | Some (key, rest') \<Rightarrow>
               before
                 @ (case context_path context (trim key) of
                      Some v \<Rightarrow> view_value_to_string enc v
                    | None \<Rightarrow> [])
                 @ render_string_template enc context rest'))"
  by pat_completeness auto
termination
  by (relation "measure (\<lambda>(enc, context, rest). length rest)") (auto dest!: find_pair_eq)

declare render_string_template.simps [simp del]

definition string_template_render ::
    "(json \<Rightarrow> str) \<Rightarrow> (str, str) btree \<Rightarrow> str \<Rightarrow> json \<Rightarrow> ('w, str) step" where
  "string_template_render enc templates view context =
     step_result
       (case bt_get templates view of
          None \<Rightarrow> Inl (NotFound (''view was not found: '' @ view))
        | Some template \<Rightarrow> Inr (render_string_template enc context template))"

section \<open>Operations of a route\<close>

definition without_host :: "('w, 'm, 'v) route_definition \<Rightarrow> ('w, 'm, 'v) route_definition" where
  "without_host rd = rd\<lparr>rd_host := None\<rparr>"

definition with_versions :: "(str \<Rightarrow> str option) \<Rightarrow> str list \<Rightarrow> ('w, 'm, 'v) route_definition \<Rightarrow> ('w, 'm, 'v) route_definition" where
  "with_versions jn vs rd = rd\<lparr>rd_versioning := route_versions jn vs\<rparr>"

definition with_version :: "(str \<Rightarrow> str option) \<Rightarrow> str \<Rightarrow> ('w, 'm, 'v) route_definition \<Rightarrow> ('w, 'm, 'v) route_definition" where
  "with_version jn v rd = rd\<lparr>rd_versioning := route_versions jn [v]\<rparr>"

definition version_neutral :: "('w, 'm, 'v) route_definition \<Rightarrow> ('w, 'm, 'v) route_definition" where
  "version_neutral rd = rd\<lparr>rd_versioning := Neutral\<rparr>"

definition with_serialization :: "serialization_options \<Rightarrow> ('w, 'm, 'v) route_definition \<Rightarrow> ('w, 'm, 'v) route_definition" where
  "with_serialization opts rd = rd\<lparr>rd_serialization := opts\<rparr>"

definition with_metadata_value :: "str \<Rightarrow> 'v \<Rightarrow> ('w, 'm, 'v) route_definition \<Rightarrow> ('w, 'm, 'v) route_definition" where
  "with_metadata_value k v rd = rd\<lparr>rd_metadata := bt_insert k v (rd_metadata rd)\<rparr>"

definition with_metadata_default_value :: "str \<Rightarrow> 'v \<Rightarrow> ('w, 'm, 'v) route_definition \<Rightarrow> ('w, 'm, 'v) route_definition" where
  "with_metadata_default_value k v rd =
     (if bt_get (rd_metadata rd) k = None then rd\<lparr>rd_metadata := bt_insert k v (rd_metadata rd)\<rparr> else rd)"

definition serialized_metadata :: "str \<Rightarrow> ('x \<Rightarrow> str + 'v) \<Rightarrow> str \<Rightarrow> 'x \<Rightarrow> 'v result" where
  "serialized_metadata what to_value k x =
     (case to_value x of
        Inl e \<Rightarrow> Inl (Internal (''failed to serialize '' @ what @ '' metadata `'' @ k @ ''`: '' @ e))
      | Inr v \<Rightarrow> Inr v)"

definition with_metadata where
  "with_metadata to_value k x rd =
     rmap (\<lambda>v. with_metadata_value k v rd) (serialized_metadata ''route'' to_value k x)"

definition route_metadata_as :: "('v \<Rightarrow> str + 'x) \<Rightarrow> ('w, 'm, 'v) route_definition \<Rightarrow> str \<Rightarrow> 'x option result" where
  "route_metadata_as from_value rd k =
     (case bt_get (rd_metadata rd) k of
        None \<Rightarrow> Inr None
      | Some v \<Rightarrow>
          (case from_value v of
             Inl e \<Rightarrow> Inl (Internal (''failed to deserialize route metadata `'' @ k @ ''`: '' @ e))
           | Inr x \<Rightarrow> Inr (Some x)))"

definition with_module_name :: "str \<Rightarrow> ('w, 'm, 'v) route_definition \<Rightarrow> ('w, 'm, 'v) route_definition" where
  "with_module_name name rd = rd\<lparr>rd_module_name := Some name\<rparr>"

definition route_with_module_ref :: "'m \<Rightarrow> ('w, 'm, 'v) route_definition \<Rightarrow> ('w, 'm, 'v) route_definition" where
  "route_with_module_ref m rd = rd\<lparr>rd_module_ref := Some m\<rparr>"

text \<open>Components: the number stands for the type id of the type of the component.\<close>

definition with_pipe where
  "with_pipe i pipe rd = rd\<lparr>rd_pipes := rd_pipes rd @ [source_new i pipe]\<rparr>"

definition with_middleware where
  "with_middleware mw rd = rd\<lparr>rd_middleware := rd_middleware rd @ [mw]\<rparr>"

definition with_guard where
  "with_guard i g rd = rd\<lparr>rd_guards := rd_guards rd @ [source_new i g]\<rparr>"

definition with_interceptor where
  "with_interceptor i x rd = rd\<lparr>rd_interceptors := rd_interceptors rd @ [source_new i x]\<rparr>"

definition with_filter where
  "with_filter i f rd = rd\<lparr>rd_filters := rd_filters rd @ [source_new i f]\<rparr>"

definition with_catch_filter where
  "with_catch_filter i kinds f rd = with_filter i (catch_filter kinds f) rd"

text \<open>An observer of executions as an interceptor of requests (\<open>ExecutionInterceptorAdapter\<close>).\<close>

definition execution_interceptor_adapter :: "('w, 'm, 'v) execution_interceptor \<Rightarrow> ('w, 'm, 'v) interceptor" where
  "execution_interceptor_adapter inner =
     default_intercept (ei_before inner) (\<lambda>_. step_result (Inr None))
       (\<lambda>c response. step_bind (ei_after inner c) (\<lambda>_. step_result (Inr response)))"

definition with_execution_interceptor where
  "with_execution_interceptor i x rd = with_interceptor i (execution_interceptor_adapter x) rd"

definition insert_middleware_prefix_at where
  "insert_middleware_prefix_at n mw rd = rd\<lparr>rd_middleware := insert_at n mw (rd_middleware rd)\<rparr>"

definition insert_pipe_prefix_at where
  "insert_pipe_prefix_at n p rd = rd\<lparr>rd_pipes := insert_at n p (rd_pipes rd)\<rparr>"

definition insert_interceptor_prefix_at where
  "insert_interceptor_prefix_at n i rd = rd\<lparr>rd_interceptors := insert_at n i (rd_interceptors rd)\<rparr>"

definition insert_filter_prefix_at where
  "insert_filter_prefix_at n f rd = rd\<lparr>rd_filters := insert_at n f (rd_filters rd)\<rparr>"

definition with_validator where
  "with_validator v rd = rd\<lparr>rd_validators := rd_validators rd @ [v]\<rparr>"

definition with_body_validation where
  "with_body_validation d rd = with_validator (body_validator d) rd"

definition with_body_validation_options where
  "with_body_validation_options dec enc d opts rd = with_validator (body_validator_with_options dec enc d opts) rd"

definition with_params_validation where
  "with_params_validation d rd = with_validator (params_validator d) rd"

definition with_params_validation_options where
  "with_params_validation_options d opts rd = with_validator (params_validator_with_options d opts) rd"

definition with_query_validation where
  "with_query_validation d rd = with_validator (query_validator d) rd"

section \<open>Typed handlers\<close>

definition response_json_with_status :: "('r \<Rightarrow> str + str) \<Rightarrow> nat \<Rightarrow> 'r \<Rightarrow> boot_response result" where
  "response_json_with_status enc status body =
     rmap (\<lambda>b. response_with_header ''content-type'' ''application/json'' (response_new status b))
       (or_internal (enc body))"

definition json_handler ::
    "(str \<Rightarrow> rat option) \<Rightarrow> (str \<Rightarrow> str + 'a) \<Rightarrow> ('r \<Rightarrow> str + str) \<Rightarrow> nat \<Rightarrow> ('a \<Rightarrow> ('w, 'r) step) \<Rightarrow> ('w, 'm) route_handler" where
  "json_handler pq dec enc status handler request =
     step_bind (step_result
       (rbind (require_json_content_type request) (\<lambda>_.
        rbind (require_accepts_json pq request) (\<lambda>_. decode_body dec request)))) (\<lambda>a.
     step_bind (handler a) (\<lambda>body. step_result (response_json_with_status enc status body)))"

definition route_json_with_status where
  "route_json_with_status pq dec enc m path status handler =
     route_new m path (json_handler pq dec enc status handler)"

definition route_json_response_with_status ::
    "(str \<Rightarrow> rat option) \<Rightarrow> ('r \<Rightarrow> str + str) \<Rightarrow> http_method \<Rightarrow> str \<Rightarrow> nat
       \<Rightarrow> ('m boot_request \<Rightarrow> ('w, 'r) step) \<Rightarrow> ('w, 'm, 'v) route_definition result" where
  "route_json_response_with_status pq enc m path status handler =
     route_new m path (\<lambda>request.
       step_bind (step_result (require_accepts_json pq request)) (\<lambda>_.
       step_bind (handler request) (\<lambda>body. step_result (response_json_with_status enc status body))))"

definition route_validated_json_with_status where
  "route_validated_json_with_status pq d enc m path status handler =
     rmap (\<lambda>rd. with_validation (with_body_validation d rd))
       (route_json_with_status pq (dto_from_slice d) enc m path status handler)"

text \<open>\<open>get_renderer\<close> resolves the view renderer from the module of the request.\<close>

definition request_get :: "str \<Rightarrow> ('m \<Rightarrow> ('w, 'x) step) \<Rightarrow> 'm boot_request \<Rightarrow> ('w, 'x) step" where
  "request_get token get_provider request =
     (case rq_module_ref request of
        None \<Rightarrow> step_result (Inl (MissingProvider token))
      | Some m \<Rightarrow> get_provider m)"

definition route_view_with_status ::
    "('m \<Rightarrow> ('w, ('w, 'c) view_renderer) step) \<Rightarrow> ('r \<Rightarrow> str + 'c) \<Rightarrow> http_method \<Rightarrow> str \<Rightarrow> str \<Rightarrow> nat
       \<Rightarrow> ('m boot_request \<Rightarrow> ('w, 'r) step) \<Rightarrow> ('w, 'm, 'v) route_definition result" where
  "route_view_with_status get_renderer to_value m path view status handler =
     route_new m path (\<lambda>request.
       step_bind (request_get ''a3s_boot::view::ViewRenderer'' get_renderer request) (\<lambda>renderer.
       step_bind (handler request) (\<lambda>r.
       step_bind (step_result (view_context to_value view r))
         (render_value_response_with_status renderer status view))))"

definition route_view where
  "route_view get_renderer to_value m path view handler =
     route_view_with_status get_renderer to_value m path view 200 handler"

text \<open>
  The handler of an event stream answers with the slot of its stream; \<open>get\<close> and \<open>put\<close> reach
  the stream slots in the world.
\<close>

definition route_sse ::
    "(str \<Rightarrow> rat option) \<Rightarrow> ('w \<Rightarrow> stream_slots) \<Rightarrow> (stream_slots \<Rightarrow> 'w \<Rightarrow> 'w) \<Rightarrow> str
       \<Rightarrow> ('m boot_request \<Rightarrow> ('w, nat) step) \<Rightarrow> ('w, 'm, 'v) route_definition result" where
  "route_sse pq get put path handler =
     route_new M_Get path (\<lambda>request.
       step_bind (step_result (require_accepts_event_stream pq request)) (\<lambda>_.
       step_bind (handler request) (\<lambda>a w.
         case response_sse a (get w) of (response, slots) \<Rightarrow> (Inr response, put slots w))))"

section \<open>Constructors by method\<close>

definition route_all where
  "route_all path handler = route_new M_All path handler"

definition route_all_scoped where
  "route_all_scoped path factory = route_new_scoped M_All path factory"

definition route_all_json_with_status where
  "route_all_json_with_status pq enc path status handler = route_json_response_with_status pq enc M_All path status handler"

definition route_all_json where
  "route_all_json pq enc path handler = route_all_json_with_status pq enc path 200 handler"

definition route_get where
  "route_get path handler = route_new M_Get path handler"

definition route_get_scoped where
  "route_get_scoped path factory = route_new_scoped M_Get path factory"

definition route_get_json_with_status where
  "route_get_json_with_status pq enc path status handler = route_json_response_with_status pq enc M_Get path status handler"

definition route_get_json where
  "route_get_json pq enc path handler = route_get_json_with_status pq enc path 200 handler"

definition route_get_view_with_status where
  "route_get_view_with_status get_renderer to_value path view status handler = route_view_with_status get_renderer to_value M_Get path view status handler"

definition route_get_view where
  "route_get_view get_renderer to_value path view handler = route_get_view_with_status get_renderer to_value path view 200 handler"

definition route_post where
  "route_post path handler = route_new M_Post path handler"

definition route_post_scoped where
  "route_post_scoped path factory = route_new_scoped M_Post path factory"

definition route_post_json_with_status where
  "route_post_json_with_status pq dec enc path status handler = route_json_with_status pq dec enc M_Post path status handler"

definition route_post_json where
  "route_post_json pq dec enc path handler = route_post_json_with_status pq dec enc path 200 handler"

definition route_post_view_with_status where
  "route_post_view_with_status get_renderer to_value path view status handler = route_view_with_status get_renderer to_value M_Post path view status handler"

definition route_post_view where
  "route_post_view get_renderer to_value path view handler = route_post_view_with_status get_renderer to_value path view 200 handler"

definition route_post_validated_json_with_status where
  "route_post_validated_json_with_status pq d enc path status handler = route_validated_json_with_status pq d enc M_Post path status handler"

definition route_post_validated_json where
  "route_post_validated_json pq d enc path handler = route_post_validated_json_with_status pq d enc path 200 handler"

definition route_put where
  "route_put path handler = route_new M_Put path handler"

definition route_put_scoped where
  "route_put_scoped path factory = route_new_scoped M_Put path factory"

definition route_put_json_with_status where
  "route_put_json_with_status pq dec enc path status handler = route_json_with_status pq dec enc M_Put path status handler"

definition route_put_json where
  "route_put_json pq dec enc path handler = route_put_json_with_status pq dec enc path 200 handler"

definition route_put_validated_json_with_status where
  "route_put_validated_json_with_status pq d enc path status handler = route_validated_json_with_status pq d enc M_Put path status handler"

definition route_put_validated_json where
  "route_put_validated_json pq d enc path handler = route_put_validated_json_with_status pq d enc path 200 handler"

definition route_patch where
  "route_patch path handler = route_new M_Patch path handler"

definition route_patch_scoped where
  "route_patch_scoped path factory = route_new_scoped M_Patch path factory"

definition route_patch_json_with_status where
  "route_patch_json_with_status pq dec enc path status handler = route_json_with_status pq dec enc M_Patch path status handler"

definition route_patch_json where
  "route_patch_json pq dec enc path handler = route_patch_json_with_status pq dec enc path 200 handler"

definition route_patch_validated_json_with_status where
  "route_patch_validated_json_with_status pq d enc path status handler = route_validated_json_with_status pq d enc M_Patch path status handler"

definition route_patch_validated_json where
  "route_patch_validated_json pq d enc path handler = route_patch_validated_json_with_status pq d enc path 200 handler"

definition route_delete where
  "route_delete path handler = route_new M_Delete path handler"

definition route_delete_scoped where
  "route_delete_scoped path factory = route_new_scoped M_Delete path factory"

definition route_delete_json_with_status where
  "route_delete_json_with_status pq enc path status handler = route_json_response_with_status pq enc M_Delete path status handler"

definition route_delete_json where
  "route_delete_json pq enc path handler = route_delete_json_with_status pq enc path 200 handler"

definition route_options where
  "route_options path handler = route_new M_Options path handler"

definition route_options_scoped where
  "route_options_scoped path factory = route_new_scoped M_Options path factory"

definition route_head where
  "route_head path handler = route_new M_Head path handler"

definition route_head_scoped where
  "route_head_scoped path factory = route_new_scoped M_Head path factory"

section \<open>A validated handler sees valid values only\<close>

text \<open>The handler of a route only matters to the end of its pipeline.\<close>

definition with_handler :: "('w, 'm) route_handler \<Rightarrow> ('w, 'm, 'v) route_definition \<Rightarrow> ('w, 'm, 'v) route_definition" where
  "with_handler h rd = rd\<lparr>rd_handler := h\<rparr>"

lemma with_handler_inner:
  "with_handler h rd = with_inner h (rd_pipes rd) (rd_validators rd) (rd_interceptors rd) rd"
  by (simp add: with_handler_def with_inner_def)

lemma with_handler_fields [simp]:
  "rd_handler (with_handler h rd) = h"
  "rd_pipes (with_handler h rd) = rd_pipes rd"
  "rd_validators (with_handler h rd) = rd_validators rd"
  "rd_interceptors (with_handler h rd) = rd_interceptors rd"
  "rd_validation_enabled (with_handler h rd) = rd_validation_enabled rd"
  "rd_validation_options (with_handler h rd) = rd_validation_options rd"
  "rd_middleware (with_handler h rd) = rd_middleware rd"
  "rd_guards (with_handler h rd) = rd_guards rd"
  "rd_method (with_handler h rd) = rd_method rd"
  "rd_path (with_handler h rd) = rd_path rd"
  "rd_host (with_handler h rd) = rd_host rd"
  by (simp_all add: with_handler_def)

lemma with_handler_steps [simp]:
  "route_execution_context (with_handler h rd) r = route_execution_context rd r"
  "attach_request_context scope (with_handler h rd) r cid = attach_request_context scope rd r cid"
  "handle_error (with_handler h rd) ctx e cid w = handle_error rd ctx e cid w"
  "middleware_loop scope (with_handler h rd) cid mws r w = middleware_loop scope rd cid mws r w"
  "path_params dec (with_handler h rd) path = path_params dec rd path"
  "host_params (with_handler h rd) host = host_params rd host"
  by (simp_all add: with_handler_inner) (simp_all add: with_inner_def path_params_def host_params_def)

lemma with_handler_loops [simp]:
  "pipes_loop scope (with_handler h rd) cid cs r s = pipes_loop scope rd cid cs r s"
  "validators_loop (with_handler h rd) vs r s = validators_loop rd vs r s"
proof -
  show "pipes_loop scope (with_handler h rd) cid cs r s = pipes_loop scope rd cid cs r s"
  proof (induction cs arbitrary: r s)
    case (Cons c cs)
    then show ?case by (cases s) (auto split: sum.split prod.split)
  next
    case Nil
    then show ?case by (cases s) simp
  qed
  show "validators_loop (with_handler h rd) vs r s = validators_loop rd vs r s"
    by (induction rd vs r s rule: validators_loop.induct) (auto split: sum.split)
qed

lemma route_call_handler:
  assumes "\<And>r s. call_handler_pipeline scope (with_handler h rd) cid r s = call_handler_pipeline scope rd cid r s"
  shows "route_call dec scope (with_handler h rd) cid request w = route_call dec scope rd cid request w"
proof -
  have "terminal_call scope (with_handler h rd) cid ctx r = terminal_call scope rd cid ctx r" for ctx r
    by (simp add: fun_eq_iff terminal_call_def assms)
  then have "call_pipeline scope (with_handler h rd) cid r w = call_pipeline scope rd cid r w" for r
    by (auto simp: call_pipeline_def Let_def split: prod.split sum.split middleware_end.split)
  then show ?thesis
    by (simp add: route_call_def cong: if_cong sum.case_cong option.case_cong)
qed

lemma validators_last:
  "validators_loop rd (vs @ [v]) r s = (Inr r', s') \<Longrightarrow>
     \<exists>r1. v r1 (rd_validation_options rd) = Inr r'"
  by (induction rd vs r s rule: validators_loop.induct) (auto split: sum.splits)

lemma body_validator_Inr:
  "body_validator d r opts = Inr r' \<Longrightarrow>
     \<exists>a. decode_body (dto_from_slice d) r' = Inr a \<and> dto_validate d a = Inr ()"
  by (cases "dto_validate d (projr (dto_from_slice d (rq_body r)))")
    (auto simp: body_validator_def decode_body_def validate_value_def rbind_Inr_iff rmap_Inr_iff split: sum.splits)


lemma validated_pipeline:
  assumes en: "rd_validation_enabled rd" and vs: "rd_validators rd = vs @ [body_validator d]"
    and h: "\<And>r a. decode_body (dto_from_slice d) r = Inr a \<Longrightarrow> dto_validate d a = Inr () \<Longrightarrow> rd_handler rd r = h r"
  shows "call_handler_pipeline scope (with_handler h rd) cid r s = call_handler_pipeline scope rd cid r s"
proof -
  have "h r2 = rd_handler rd r2" if v: "validators_loop rd (rd_validators rd) r1 s1 = (Inr r2, s2)" for r1 r2 s1 s2
  proof -
    from validators_last [of rd vs "body_validator d"] v vs
    obtain r0 where "body_validator d r0 (rd_validation_options rd) = Inr r2" by metis
    then show ?thesis using h body_validator_Inr [of d r0 _ r2] by metis
  qed
  then show ?thesis
    using en by (auto simp: call_handler_pipeline_def split: prod.split sum.split)
qed

lemma route_new_handler: "route_new m path h = Inr rd \<Longrightarrow> route_new m path h' = Inr (with_handler h' rd)"
  by (auto simp: route_new_def rbind_Inr_iff with_handler_def)

lemma route_new_fields:
  "route_new m path h = Inr rd \<Longrightarrow> rd_handler rd = h \<and> rd_validators rd = [] \<and> \<not> rd_validation_disabled rd"
  by (auto simp: route_new_def rbind_Inr_iff)

lemma validated_route_new:
  assumes "route_validated_json_with_status pq d enc m path status h = Inr rd"
  shows "rd_handler rd = json_handler pq (dto_from_slice d) enc status h"
    and "rd_validation_enabled rd" and "\<not> rd_validation_disabled rd" and "rd_validators rd = [body_validator d]"
    and "route_validated_json_with_status pq d enc m path status h' =
      Inr (with_handler (json_handler pq (dto_from_slice d) enc status h') rd)"
proof -
  from assms obtain r0 where r0: "route_new m path (json_handler pq (dto_from_slice d) enc status h) = Inr r0"
    and rd: "rd = with_validation (with_body_validation d r0)"
    by (auto simp: route_validated_json_with_status_def route_json_with_status_def rmap_Inr_iff)
  note parts = route_new_fields [OF r0]
  show "rd_handler rd = json_handler pq (dto_from_slice d) enc status h" "rd_validation_enabled rd"
    "\<not> rd_validation_disabled rd" "rd_validators rd = [body_validator d]"
    using parts by (simp_all add: rd with_validation_def with_body_validation_def with_validator_def)
  show "route_validated_json_with_status pq d enc m path status h' =
      Inr (with_handler (json_handler pq (dto_from_slice d) enc status h') rd)"
    using route_new_handler [OF r0, of "json_handler pq (dto_from_slice d) enc status h'"]
    by (simp add: route_validated_json_with_status_def route_json_with_status_def rmap_Inr_iff rd with_handler_def
        with_validation_def with_body_validation_def with_validator_def)
qed

lemma with_pipeline_prefix_handler:
  "with_pipeline_prefix p (with_handler h rd) = with_handler h (with_pipeline_prefix p rd)"
  by (simp add: with_pipeline_prefix_def with_handler_def Let_def)

lemma with_pipeline_prefix_kept [simp]:
  "rd_handler (with_pipeline_prefix p rd) = rd_handler rd"
  "rd_validators (with_pipeline_prefix p rd) = rd_validators rd"
  "rd_method (with_pipeline_prefix p rd) = rd_method rd"
  "rd_path (with_pipeline_prefix p rd) = rd_path rd"
  "rd_host (with_pipeline_prefix p rd) = rd_host rd"
  "rd_module_ref (with_pipeline_prefix p rd) = rd_module_ref rd"
  by (simp_all add: with_pipeline_prefix_def Let_def)

lemma with_pipeline_prefix_validating:
  "rd_validation_enabled rd \<Longrightarrow> rd_validation_enabled (with_pipeline_prefix p rd)"
  by (simp add: with_pipeline_prefix_def Let_def)

text \<open>
  A validated JSON route calls its handler with valid values only. Whatever middleware,
  guards, interceptors, pipes and filters are put in front of the route and whatever a pipe
  makes of the body: two handlers that agree on the values that pass the validation of the
  type give the same responses, errors and effects for every request.
\<close>

theorem validated_json_gate:
  assumes r1: "route_validated_json_with_status pq d enc m path status h1 = Inr r1"
    and r2: "route_validated_json_with_status pq d enc m path status h2 = Inr r2"
    and agree: "\<And>a. dto_validate d a = Inr () \<Longrightarrow> h1 a = h2 a"
  shows "route_call dec scope (with_pipeline_prefix p r2) cid request w
    = route_call dec scope (with_pipeline_prefix p r1) cid request w"
proof -
  note parts = validated_route_new [OF r1]
  have "r2 = with_handler (json_handler pq (dto_from_slice d) enc status h2) r1"
    using parts(5) [of h2] r2 by simp
  moreover have "json_handler pq (dto_from_slice d) enc status h1 r = json_handler pq (dto_from_slice d) enc status h2 r"
    if "decode_body (dto_from_slice d) r = Inr a" "dto_validate d a = Inr ()" for r :: "'b boot_request" and a
    using that agree [of a]
    by (cases "require_json_content_type r"; cases "require_accepts_json pq r") (simp_all add: json_handler_def)
  ultimately show ?thesis
    using parts(1-4)
    by (auto simp: with_pipeline_prefix_handler with_pipeline_prefix_validating
        intro!: route_call_handler validated_pipeline [where vs = "[]"])
qed

definition pipeline_default :: "('w, 'm, 'v) pipeline_components" where
  "pipeline_default =
     \<lparr>pl_middleware = [], pl_pipes = [], pl_guards = [], pl_interceptors = [], pl_filters = [],
      pl_validation_enabled = False, pl_validation_options = validation_options_default\<rparr>"

definition sample_read :: "bool \<Rightarrow> str \<Rightarrow> (str, str) step" where
  "sample_read careful a w = (if a = [] \<and> careful then (Inl (Internal ''empty item''), w) else (Inr a, w @ a))"

definition sample_reader :: "bool \<Rightarrow> (str, unit, unit) route_definition result" where
  "sample_reader careful =
     route_validated_json_with_status (\<lambda>_. None) (sample_dto\<lparr>dto_from_slice := Inr\<rparr>) Inr M_Post ''/items'' 200
       (sample_read careful)"

lemma validated_json_gate_witness:
  "sample_read True [] [] \<noteq> sample_read False [] [] \<and> is_ok (sample_reader False) \<and>
   route_call Inr (\<lambda>m _. m) (with_pipeline_prefix pipeline_default (projr (sample_reader True))) 0 sample_body_request []
     = route_call Inr (\<lambda>m _. m) (with_pipeline_prefix pipeline_default (projr (sample_reader False))) 0 sample_body_request []"
proof -
  have path: "validate_route_path ''/items'' = Inr ()" by code_simp
  have ok: "sample_reader c = Inr (projr (sample_reader c))" for c
    by (simp add: sample_reader_def route_validated_json_with_status_def route_json_with_status_def route_new_def path
        rmap_def)
  have agree: "dto_validate (sample_dto\<lparr>dto_from_slice := Inr\<rparr>) a = Inr () \<Longrightarrow> sample_read False a = sample_read True a" for a
    by (auto simp: sample_dto_def sample_read_def split: if_splits)
  have "is_ok (sample_reader False)" using ok [of False] by (metis is_ok_iff)
  then show ?thesis
    using validated_json_gate [OF ok [of False, unfolded sample_reader_def] ok [of True, unfolded sample_reader_def] agree]
    by (simp add: sample_read_def sample_reader_def)
qed

section \<open>Templates\<close>

text \<open>A template is a sequence of literal texts and of places for values.\<close>

datatype template_part = Literal str | Place str

primrec part_text :: "template_part \<Rightarrow> str" where
  "part_text (Literal s) = s"
| "part_text (Place k) = ''{{'' @ k @ ''}}''"

primrec part_wf :: "template_part \<Rightarrow> bool" where
  "part_wf (Literal s) \<longleftrightarrow> find_pair (CHR ''{'') s = None \<and> (s = [] \<or> last s \<noteq> CHR ''{'')"
| "part_wf (Place k) \<longleftrightarrow> find_pair (CHR ''}'') k = None \<and> (k = [] \<or> last k \<noteq> CHR ''}'')"

definition place_value :: "(json \<Rightarrow> str) \<Rightarrow> json \<Rightarrow> str \<Rightarrow> str" where
  "place_value enc context k =
     (case context_path context (trim k) of None \<Rightarrow> [] | Some v \<Rightarrow> view_value_to_string enc v)"

primrec part_value :: "(json \<Rightarrow> str) \<Rightarrow> json \<Rightarrow> template_part \<Rightarrow> str" where
  "part_value enc context (Literal s) = s"
| "part_value enc context (Place k) = place_value enc context k"

lemma find_pair_append:
  "find_pair c s = None \<Longrightarrow> s = [] \<or> last s \<noteq> c \<Longrightarrow>
     find_pair c (s @ t) = map_option (\<lambda>(a, b). (s @ a, b)) (find_pair c t)"
proof (induction c s rule: find_pair.induct)
  case (1 c x y s)
  then show ?case by (cases "find_pair c t") (auto split: if_splits)
next
  case "2_1"
  then show ?case by (simp add: option.map_ident)
next
  case "2_2"
  then show ?case by (cases t) auto
qed

lemma render_literal:
  assumes "find_pair (CHR ''{'') s = None" "s = [] \<or> last s \<noteq> CHR ''{''"
  shows "render_string_template enc context (s @ rest) = s @ render_string_template enc context rest"
  using find_pair_append [OF assms, of rest]
  by (simp add: render_string_template.simps [of enc "context" "s @ rest"]
      render_string_template.simps [of enc "context" rest] split: option.split)

lemma render_place:
  assumes "find_pair (CHR ''}'') k = None" "k = [] \<or> last k \<noteq> CHR ''}''"
  shows "render_string_template enc context (''{{'' @ k @ ''}}'' @ rest)
    = place_value enc context k @ render_string_template enc context rest"
  using find_pair_append [OF assms, of "''}}'' @ rest"]
  by (simp add: render_string_template.simps [of enc "context" "CHR ''{'' # _"] place_value_def)

text \<open>
  Rendering replaces every place by the text of its value, an unknown path by nothing, and
  copies the rest. A value is inserted as it is: it is not rendered again and not escaped.
\<close>

lemma template_exact:
  assumes "list_all part_wf parts"
  shows "render_string_template enc context (concat (map part_text parts)) = concat (map (part_value enc context) parts)"
  using assms
proof (induction parts)
  case (Cons p parts)
  then show ?case by (cases p) (simp_all add: render_literal render_place [simplified])
qed (simp add: render_string_template.simps)

end
