(* ===== verification/Controllers.thy ===== *)
theory Controllers
  imports Route_Builders
begin

text \<open>
  \<open>routing/controller.rs\<close>: a group of routes below one prefix that share pipeline components,
  a host pattern, versions, serialization options and metadata. The builder changes the
  routes that it has already, so that a route is the same whether it was added before or
  after the components of its controller. The OpenAPI fields are left out.
\<close>

section \<open>The shared pipeline\<close>

definition push_middleware :: "('w, 'm) middleware \<Rightarrow> ('w, 'm, 'v) pipeline_components \<Rightarrow> ('w, 'm, 'v) pipeline_components" where
  "push_middleware mw p = p\<lparr>pl_middleware := pl_middleware p @ [mw]\<rparr>"

definition push_pipe where
  "push_pipe i pipe p = p\<lparr>pl_pipes := pl_pipes p @ [source_new i pipe]\<rparr>"

definition push_guard where
  "push_guard i g p = p\<lparr>pl_guards := pl_guards p @ [source_new i g]\<rparr>"

definition push_interceptor where
  "push_interceptor i x p = p\<lparr>pl_interceptors := pl_interceptors p @ [source_new i x]\<rparr>"

definition push_execution_interceptor where
  "push_execution_interceptor i x p = push_interceptor i (execution_interceptor_adapter x) p"

definition push_filter where
  "push_filter i f p = p\<lparr>pl_filters := pl_filters p @ [source_new i f]\<rparr>"

definition push_catch_filter where
  "push_catch_filter i kinds f p = push_filter i (catch_filter kinds f) p"

definition enable_validation :: "('w, 'm, 'v) pipeline_components \<Rightarrow> ('w, 'm, 'v) pipeline_components" where
  "enable_validation p = p\<lparr>pl_validation_enabled := True\<rparr>"

definition enable_validation_with_options ::
    "validation_options \<Rightarrow> ('w, 'm, 'v) pipeline_components \<Rightarrow> ('w, 'm, 'v) pipeline_components" where
  "enable_validation_with_options opts p =
     p\<lparr>pl_validation_enabled := True,
       pl_validation_options := validation_options_merge (pl_validation_options p) opts\<rparr>"

section \<open>Controllers\<close>

record ('w, 'm, 'v) controller_definition =
  cd_prefix :: str
  cd_host :: "str option"
  cd_routes :: "('w, 'm, 'v) route_definition list"
  cd_pipeline :: "('w, 'm, 'v) pipeline_components"
  cd_versioning :: route_versioning
  cd_serialization :: "serialization_options option"
  cd_metadata :: "(str, 'v) btree"

definition controller_new :: "str \<Rightarrow> ('w, 'm, 'v) controller_definition result" where
  "controller_new pre =
     rmap (\<lambda>p. \<lparr>cd_prefix = p, cd_host = None, cd_routes = [], cd_pipeline = pipeline_default,
                cd_versioning = Unspecified, cd_serialization = None, cd_metadata = []\<rparr>)
       (normalize_prefix pre)"

text \<open>\<open>jn\<close> normalises the numbers among versions, those of a controller a second time.\<close>

definition controller_route ::
    "(str \<Rightarrow> str option) \<Rightarrow> ('w, 'm, 'v) route_definition \<Rightarrow> ('w, 'm, 'v) controller_definition
       \<Rightarrow> ('w, 'm, 'v) controller_definition result" where
  "controller_route jn rd c =
     rbind (with_host_default (cd_host c) rd) (\<lambda>rd.
       let rd = (if versioning_is_unspecified (rd_versioning rd) \<and> \<not> versioning_is_unspecified (cd_versioning c)
                 then (case cd_versioning c of
                         Unspecified \<Rightarrow> rd
                       | Versions vs \<Rightarrow> with_versions jn vs rd
                       | Neutral \<Rightarrow> version_neutral rd)
                 else rd);
           rd = (if serialization_is_empty (rd_serialization rd)
                 then (case cd_serialization c of Some opts \<Rightarrow> with_serialization opts rd | None \<Rightarrow> rd)
                 else rd);
           rd = with_metadata_defaults (cd_metadata c) rd
       in rmap (\<lambda>rd. c\<lparr>cd_routes := cd_routes c @ [with_pipeline_prefix (cd_pipeline c) rd]\<rparr>)
            (with_prefix (cd_prefix c) rd))"

definition controller_with_pipe where
  "controller_with_pipe i pipe c =
     (let n = length (pl_pipes (cd_pipeline c)); component = source_new i pipe in
      c\<lparr>cd_pipeline := push_pipe i pipe (cd_pipeline c),
        cd_routes := map (insert_pipe_prefix_at n component) (cd_routes c)\<rparr>)"

definition controller_with_middleware where
  "controller_with_middleware mw c =
     (let n = length (pl_middleware (cd_pipeline c)) in
      c\<lparr>cd_pipeline := push_middleware mw (cd_pipeline c),
        cd_routes := map (insert_middleware_prefix_at n mw) (cd_routes c)\<rparr>)"

definition controller_with_guard where
  "controller_with_guard i g c =
     (let n = length (pl_guards (cd_pipeline c)); component = source_new i g in
      c\<lparr>cd_pipeline := push_guard i g (cd_pipeline c),
        cd_routes := map (insert_guard_prefix_at n component) (cd_routes c)\<rparr>)"

definition controller_with_interceptor where
  "controller_with_interceptor i x c =
     (let n = length (pl_interceptors (cd_pipeline c)); component = source_new i x in
      c\<lparr>cd_pipeline := push_interceptor i x (cd_pipeline c),
        cd_routes := map (insert_interceptor_prefix_at n component) (cd_routes c)\<rparr>)"

definition controller_with_execution_interceptor where
  "controller_with_execution_interceptor i x c =
     controller_with_interceptor i (execution_interceptor_adapter x) c"

definition controller_with_filter where
  "controller_with_filter i f c =
     (let n = length (pl_filters (cd_pipeline c)); component = source_new i f in
      c\<lparr>cd_pipeline := push_filter i f (cd_pipeline c),
        cd_routes := map (insert_filter_prefix_at n component) (cd_routes c)\<rparr>)"

definition controller_with_catch_filter where
  "controller_with_catch_filter i kinds f c = controller_with_filter i (catch_filter kinds f) c"

definition apply_pipeline_prefix ::
    "('w, 'm, 'v) pipeline_components \<Rightarrow> ('w, 'm, 'v) controller_definition \<Rightarrow> ('w, 'm, 'v) controller_definition" where
  "apply_pipeline_prefix p c = c\<lparr>cd_routes := map (with_pipeline_prefix p) (cd_routes c)\<rparr>"

definition controller_with_validation :: "('w, 'm, 'v) controller_definition \<Rightarrow> ('w, 'm, 'v) controller_definition" where
  "controller_with_validation c =
     apply_pipeline_prefix (pipeline_default\<lparr>pl_validation_enabled := True\<rparr>)
       (c\<lparr>cd_pipeline := enable_validation (cd_pipeline c)\<rparr>)"

definition controller_with_validation_options ::
    "validation_options \<Rightarrow> ('w, 'm, 'v) controller_definition \<Rightarrow> ('w, 'm, 'v) controller_definition" where
  "controller_with_validation_options opts c =
     apply_pipeline_prefix (pipeline_default\<lparr>pl_validation_enabled := True, pl_validation_options := opts\<rparr>)
       (c\<lparr>cd_pipeline := enable_validation_with_options opts (cd_pipeline c)\<rparr>)"

definition controller_with_host ::
    "str \<Rightarrow> ('w, 'm, 'v) controller_definition \<Rightarrow> ('w, 'm, 'v) controller_definition result" where
  "controller_with_host pattern c =
     rbind (validate_host_pattern pattern) (\<lambda>_.
       rmap (\<lambda>rs. c\<lparr>cd_host := Some pattern, cd_routes := rs\<rparr>)
         (rcollect (with_host_default (Some pattern)) (cd_routes c)))"

definition controller_without_host :: "('w, 'm, 'v) controller_definition \<Rightarrow> ('w, 'm, 'v) controller_definition" where
  "controller_without_host c = c\<lparr>cd_host := None, cd_routes := map without_host (cd_routes c)\<rparr>"

definition controller_with_version where
  "controller_with_version jn v c = c\<lparr>cd_versioning := route_versions jn [v]\<rparr>"

definition controller_with_versions where
  "controller_with_versions jn vs c = c\<lparr>cd_versioning := route_versions jn vs\<rparr>"

definition controller_version_neutral :: "('w, 'm, 'v) controller_definition \<Rightarrow> ('w, 'm, 'v) controller_definition" where
  "controller_version_neutral c = c\<lparr>cd_versioning := Neutral\<rparr>"

definition controller_with_serialization ::
    "serialization_options \<Rightarrow> ('w, 'm, 'v) controller_definition \<Rightarrow> ('w, 'm, 'v) controller_definition" where
  "controller_with_serialization opts c = c\<lparr>cd_serialization := Some opts\<rparr>"

definition controller_with_metadata_value ::
    "str \<Rightarrow> 'v \<Rightarrow> ('w, 'm, 'v) controller_definition \<Rightarrow> ('w, 'm, 'v) controller_definition" where
  "controller_with_metadata_value k v c =
     c\<lparr>cd_metadata := bt_insert k v (cd_metadata c),
       cd_routes := map (with_metadata_default_value k v) (cd_routes c)\<rparr>"

definition controller_with_metadata where
  "controller_with_metadata to_value k x c =
     rmap (\<lambda>v. controller_with_metadata_value k v c) (serialized_metadata ''controller'' to_value k x)"

definition controller_with_cache_key :: "str \<Rightarrow> ('w, 'm, json) controller_definition \<Rightarrow> ('w, 'm, json) controller_definition" where
  "controller_with_cache_key k c = controller_with_metadata_value ''cache.key'' (JString k) c"

text \<open>\<open>ms\<close> is the duration in milliseconds; it is cut to 64 bits.\<close>

definition controller_with_cache_ttl :: "nat \<Rightarrow> ('w, 'm, json) controller_definition \<Rightarrow> ('w, 'm, json) controller_definition" where
  "controller_with_cache_ttl ms c =
     controller_with_metadata_value ''cache.ttl_ms'' (JNumber (show_nat (ms mod 2 ^ 64))) c"

definition controller_without_cache :: "('w, 'm, json) controller_definition \<Rightarrow> ('w, 'm, json) controller_definition" where
  "controller_without_cache c = controller_with_metadata_value ''cache.disabled'' (JBool True) c"

section \<open>Routes by method\<close>

definition controller_all where
  "controller_all jn path handler c =
     rbind (route_all path handler) (\<lambda>rd. controller_route jn rd c)"

definition controller_all_scoped where
  "controller_all_scoped jn path factory c =
     rbind (route_all_scoped path factory) (\<lambda>rd. controller_route jn rd c)"

definition controller_all_json_with_status where
  "controller_all_json_with_status jn pq enc path status handler c =
     rbind (route_all_json_with_status pq enc path status handler) (\<lambda>rd. controller_route jn rd c)"

definition controller_all_json where
  "controller_all_json jn pq enc path handler c =
     controller_all_json_with_status jn pq enc path 200 handler c"

definition controller_get where
  "controller_get jn path handler c =
     rbind (route_get path handler) (\<lambda>rd. controller_route jn rd c)"

definition controller_get_scoped where
  "controller_get_scoped jn path factory c =
     rbind (route_get_scoped path factory) (\<lambda>rd. controller_route jn rd c)"

definition controller_get_json_with_status where
  "controller_get_json_with_status jn pq enc path status handler c =
     rbind (route_get_json_with_status pq enc path status handler) (\<lambda>rd. controller_route jn rd c)"

definition controller_get_json where
  "controller_get_json jn pq enc path handler c =
     controller_get_json_with_status jn pq enc path 200 handler c"

definition controller_get_view_with_status where
  "controller_get_view_with_status jn get_renderer to_value path view status handler c =
     rbind (route_get_view_with_status get_renderer to_value path view status handler) (\<lambda>rd. controller_route jn rd c)"

definition controller_get_view where
  "controller_get_view jn get_renderer to_value path view handler c =
     controller_get_view_with_status jn get_renderer to_value path view 200 handler c"

definition controller_post where
  "controller_post jn path handler c =
     rbind (route_post path handler) (\<lambda>rd. controller_route jn rd c)"

definition controller_post_scoped where
  "controller_post_scoped jn path factory c =
     rbind (route_post_scoped path factory) (\<lambda>rd. controller_route jn rd c)"

definition controller_post_json_with_status where
  "controller_post_json_with_status jn pq dec enc path status handler c =
     rbind (route_post_json_with_status pq dec enc path status handler) (\<lambda>rd. controller_route jn rd c)"

definition controller_post_json where
  "controller_post_json jn pq dec enc path handler c =
     controller_post_json_with_status jn pq dec enc path 200 handler c"

definition controller_post_view_with_status where
  "controller_post_view_with_status jn get_renderer to_value path view status handler c =
     rbind (route_post_view_with_status get_renderer to_value path view status handler) (\<lambda>rd. controller_route jn rd c)"

definition controller_post_view where
  "controller_post_view jn get_renderer to_value path view handler c =
     controller_post_view_with_status jn get_renderer to_value path view 200 handler c"

definition controller_post_validated_json_with_status where
  "controller_post_validated_json_with_status jn pq d enc path status handler c =
     rbind (route_post_validated_json_with_status pq d enc path status handler) (\<lambda>rd. controller_route jn rd c)"

definition controller_post_validated_json where
  "controller_post_validated_json jn pq d enc path handler c =
     controller_post_validated_json_with_status jn pq d enc path 200 handler c"

definition controller_put where
  "controller_put jn path handler c =
     rbind (route_put path handler) (\<lambda>rd. controller_route jn rd c)"

definition controller_put_scoped where
  "controller_put_scoped jn path factory c =
     rbind (route_put_scoped path factory) (\<lambda>rd. controller_route jn rd c)"

definition controller_put_json_with_status where
  "controller_put_json_with_status jn pq dec enc path status handler c =
     rbind (route_put_json_with_status pq dec enc path status handler) (\<lambda>rd. controller_route jn rd c)"

definition controller_put_json where
  "controller_put_json jn pq dec enc path handler c =
     controller_put_json_with_status jn pq dec enc path 200 handler c"

definition controller_put_validated_json_with_status where
  "controller_put_validated_json_with_status jn pq d enc path status handler c =
     rbind (route_put_validated_json_with_status pq d enc path status handler) (\<lambda>rd. controller_route jn rd c)"

definition controller_put_validated_json where
  "controller_put_validated_json jn pq d enc path handler c =
     controller_put_validated_json_with_status jn pq d enc path 200 handler c"

definition controller_patch where
  "controller_patch jn path handler c =
     rbind (route_patch path handler) (\<lambda>rd. controller_route jn rd c)"

definition controller_patch_scoped where
  "controller_patch_scoped jn path factory c =
     rbind (route_patch_scoped path factory) (\<lambda>rd. controller_route jn rd c)"

definition controller_patch_json_with_status where
  "controller_patch_json_with_status jn pq dec enc path status handler c =
     rbind (route_patch_json_with_status pq dec enc path status handler) (\<lambda>rd. controller_route jn rd c)"

definition controller_patch_json where
  "controller_patch_json jn pq dec enc path handler c =
     controller_patch_json_with_status jn pq dec enc path 200 handler c"

definition controller_patch_validated_json_with_status where
  "controller_patch_validated_json_with_status jn pq d enc path status handler c =
     rbind (route_patch_validated_json_with_status pq d enc path status handler) (\<lambda>rd. controller_route jn rd c)"

definition controller_patch_validated_json where
  "controller_patch_validated_json jn pq d enc path handler c =
     controller_patch_validated_json_with_status jn pq d enc path 200 handler c"

definition controller_delete where
  "controller_delete jn path handler c =
     rbind (route_delete path handler) (\<lambda>rd. controller_route jn rd c)"

definition controller_delete_scoped where
  "controller_delete_scoped jn path factory c =
     rbind (route_delete_scoped path factory) (\<lambda>rd. controller_route jn rd c)"

definition controller_delete_json_with_status where
  "controller_delete_json_with_status jn pq enc path status handler c =
     rbind (route_delete_json_with_status pq enc path status handler) (\<lambda>rd. controller_route jn rd c)"

definition controller_delete_json where
  "controller_delete_json jn pq enc path handler c =
     controller_delete_json_with_status jn pq enc path 200 handler c"

definition controller_options where
  "controller_options jn path handler c =
     rbind (route_options path handler) (\<lambda>rd. controller_route jn rd c)"

definition controller_options_scoped where
  "controller_options_scoped jn path factory c =
     rbind (route_options_scoped path factory) (\<lambda>rd. controller_route jn rd c)"

definition controller_head where
  "controller_head jn path handler c =
     rbind (route_head path handler) (\<lambda>rd. controller_route jn rd c)"

definition controller_head_scoped where
  "controller_head_scoped jn path factory c =
     rbind (route_head_scoped path factory) (\<lambda>rd. controller_route jn rd c)"

definition controller_view_with_status where
  "controller_view_with_status jn get_renderer to_value m path view status handler c =
     rbind (route_view_with_status get_renderer to_value m path view status handler) (\<lambda>rd. controller_route jn rd c)"

definition controller_view where
  "controller_view jn get_renderer to_value m path view handler c =
     controller_view_with_status jn get_renderer to_value m path view 200 handler c"

definition controller_sse where
  "controller_sse jn pq get put path handler c =
     rbind (route_sse pq get put path handler) (\<lambda>rd. controller_route jn rd c)"

section \<open>The order of the calls\<close>

text \<open>The calls of the builder. A route is added as it is; the constructors above build one first.\<close>

datatype ('w, 'm, 'v) controller_call =
  AddRoute "('w, 'm, 'v) route_definition"
| AddMiddleware "('w, 'm) middleware"
| AddPipe nat "('w, 'm) pipe"
| AddGuard nat "('w, 'm, 'v) guard"
| AddInterceptor nat "('w, 'm, 'v) interceptor"
| AddFilter nat "('w, 'm, 'v) exception_filter"
| EnableValidation
| EnableValidationOptions validation_options
| SetHost str
| ClearHost
| SetVersions "str list"
| SetNeutral
| SetSerialization serialization_options
| SetMetadata str 'v

fun controller_apply ::
    "(str \<Rightarrow> str option) \<Rightarrow> ('w, 'm, 'v) controller_call \<Rightarrow> ('w, 'm, 'v) controller_definition
       \<Rightarrow> ('w, 'm, 'v) controller_definition result" where
  "controller_apply jn (AddRoute rd) c = controller_route jn rd c"
| "controller_apply jn (AddMiddleware mw) c = Inr (controller_with_middleware mw c)"
| "controller_apply jn (AddPipe i x) c = Inr (controller_with_pipe i x c)"
| "controller_apply jn (AddGuard i x) c = Inr (controller_with_guard i x c)"
| "controller_apply jn (AddInterceptor i x) c = Inr (controller_with_interceptor i x c)"
| "controller_apply jn (AddFilter i x) c = Inr (controller_with_filter i x c)"
| "controller_apply jn EnableValidation c = Inr (controller_with_validation c)"
| "controller_apply jn (EnableValidationOptions opts) c = Inr (controller_with_validation_options opts c)"
| "controller_apply jn (SetHost h) c = controller_with_host h c"
| "controller_apply jn ClearHost c = Inr (controller_without_host c)"
| "controller_apply jn (SetVersions vs) c = Inr (controller_with_versions jn vs c)"
| "controller_apply jn SetNeutral c = Inr (controller_version_neutral c)"
| "controller_apply jn (SetSerialization opts) c = Inr (controller_with_serialization opts c)"
| "controller_apply jn (SetMetadata k v) c = Inr (controller_with_metadata_value k v c)"

fun controller_run ::
    "(str \<Rightarrow> str option) \<Rightarrow> ('w, 'm, 'v) controller_call list \<Rightarrow> ('w, 'm, 'v) controller_definition
       \<Rightarrow> ('w, 'm, 'v) controller_definition result" where
  "controller_run jn [] c = Inr c"
| "controller_run jn (x # xs) c = rbind (controller_apply jn x c) (controller_run jn xs)"

text \<open>
  The specification: what the calls say about the pipeline, in their order, and the routes
  that they add, each by itself.
\<close>

fun spec_pipeline :: "('w, 'm, 'v) controller_call \<Rightarrow> ('w, 'm, 'v) pipeline_components \<Rightarrow> ('w, 'm, 'v) pipeline_components" where
  "spec_pipeline (AddMiddleware mw) p = push_middleware mw p"
| "spec_pipeline (AddPipe i x) p = push_pipe i x p"
| "spec_pipeline (AddGuard i x) p = push_guard i x p"
| "spec_pipeline (AddInterceptor i x) p = push_interceptor i x p"
| "spec_pipeline (AddFilter i x) p = push_filter i x p"
| "spec_pipeline EnableValidation p = enable_validation p"
| "spec_pipeline (EnableValidationOptions opts) p = enable_validation_with_options opts p"
| "spec_pipeline _ p = p"

definition calls_pipeline :: "('w, 'm, 'v) controller_call list \<Rightarrow> ('w, 'm, 'v) pipeline_components" where
  "calls_pipeline calls = fold spec_pipeline calls pipeline_default"

fun calls_routes :: "('w, 'm, 'v) controller_call list \<Rightarrow> ('w, 'm, 'v) route_definition list" where
  "calls_routes (AddRoute rd # xs) = rd # calls_routes xs"
| "calls_routes (x # xs) = calls_routes xs"
| "calls_routes [] = []"

text \<open>The part of a route that the pipeline runs.\<close>

definition route_pipeline :: "('w, 'm, 'v) route_definition \<Rightarrow> ('w, 'm, 'v) pipeline_components" where
  "route_pipeline rd =
     \<lparr>pl_middleware = rd_middleware rd, pl_pipes = rd_pipes rd, pl_guards = rd_guards rd,
      pl_interceptors = rd_interceptors rd, pl_filters = rd_filters rd,
      pl_validation_enabled = rd_validation_enabled rd, pl_validation_options = rd_validation_options rd\<rparr>"

definition layered_route ::
    "str \<Rightarrow> ('w, 'm, 'v) pipeline_components \<Rightarrow> ('w, 'm, 'v) route_definition \<Rightarrow> ('w, 'm, 'v) route_definition \<Rightarrow> bool" where
  "layered_route pre p rd rd' \<longleftrightarrow>
     route_pipeline rd' = route_pipeline (with_pipeline_prefix p rd) \<and>
     rd_validation_disabled rd' = rd_validation_disabled rd \<and> rd_method rd' = rd_method rd \<and>
     rd_handler rd' = rd_handler rd \<and> rd_validators rd' = rd_validators rd \<and>
     join_paths pre (rd_path rd) = Inr (rd_path rd')"

lemma insert_at_prefix [simp]: "insert_at (length xs) x (xs @ ys) = xs @ x # ys"
  by (simp add: insert_at_def Let_def)

lemma options_merge_laws [simp]:
  "validation_options_merge (validation_options_merge a b) c = validation_options_merge a (validation_options_merge b c)"
  "validation_options_merge validation_options_default a = a"
  "validation_options_merge a validation_options_default = a"
  by (simp_all add: validation_options_merge_def validation_options_default_def)

lemma options_merge_left:
  "validation_options_merge a (validation_options_merge b c) = validation_options_merge b (validation_options_merge a c)"
  by (auto simp: validation_options_merge_def)

lemmas layered_route_simps = layered_route_def route_pipeline_def with_pipeline_prefix_def Let_def

lemma layered_steps:
  assumes "layered_route pre p rd rd'"
  shows "layered_route pre (push_middleware mw p) rd (insert_middleware_prefix_at (length (pl_middleware p)) mw rd')"
    and "layered_route pre (push_pipe i pipe p) rd (insert_pipe_prefix_at (length (pl_pipes p)) (source_new i pipe) rd')"
    and "layered_route pre (push_guard i g p) rd (insert_guard_prefix_at (length (pl_guards p)) (source_new i g) rd')"
    and "layered_route pre (push_interceptor i x p) rd
           (insert_interceptor_prefix_at (length (pl_interceptors p)) (source_new i x) rd')"
    and "layered_route pre (push_filter i f p) rd (insert_filter_prefix_at (length (pl_filters p)) (source_new i f) rd')"
    and "layered_route pre (enable_validation p) rd (with_pipeline_prefix (pipeline_default\<lparr>pl_validation_enabled := True\<rparr>) rd')"
    and "layered_route pre (enable_validation_with_options opts p) rd
           (with_pipeline_prefix (pipeline_default\<lparr>pl_validation_enabled := True, pl_validation_options := opts\<rparr>) rd')"
  using assms
  by (auto simp: layered_route_simps push_middleware_def insert_middleware_prefix_at_def push_pipe_def
      insert_pipe_prefix_at_def push_guard_def insert_guard_prefix_at_def push_interceptor_def
      insert_interceptor_prefix_at_def push_filter_def insert_filter_prefix_at_def enable_validation_def
      enable_validation_with_options_def pipeline_default_def options_merge_left)

lemma layered_kept:
  assumes "layered_route pre p rd rd'"
  shows "layered_route pre p rd (without_host rd')"
    and "layered_route pre p rd (with_metadata_default_value k v rd')"
    and "with_host_default h rd' = Inr rd2 \<Longrightarrow> layered_route pre p rd rd2"
  using assms
  by (auto simp: layered_route_simps without_host_def with_metadata_default_value_def with_host_default_def with_host_def
      rbind_Inr_iff split: if_splits option.splits)

lemma layered_new:
  assumes "controller_route jn rd c = Inr c'"
  shows "\<exists>rd'. c' = c\<lparr>cd_routes := cd_routes c @ [rd']\<rparr> \<and> layered_route (cd_prefix c) (cd_pipeline c) rd rd'"
proof -
  define keeps where "keeps a b \<longleftrightarrow> rd_path b = rd_path a \<and> rd_method b = rd_method a \<and> rd_handler b = rd_handler a \<and>
      rd_validators b = rd_validators a \<and> route_pipeline b = route_pipeline a \<and>
      rd_validation_disabled b = rd_validation_disabled a" for a b :: "('a, 'b, 'c) route_definition"
  have fin: "layered_route (cd_prefix c) (cd_pipeline c) rd (with_pipeline_prefix (cd_pipeline c) rd2)"
    if "keeps rd rd1" "with_prefix (cd_prefix c) rd1 = Inr rd2" for rd1 rd2
    using that by (auto simp: keeps_def layered_route_simps with_prefix_def rmap_Inr_iff)
  have host: "keeps rd rd1" if "with_host_default (cd_host c) rd = Inr rd1" for rd1
    using that by (auto simp: keeps_def route_pipeline_def with_host_default_def with_host_def rbind_Inr_iff
        split: if_splits option.splits)
  have steps: "keeps rd (with_versions jn vs a)" "keeps rd (version_neutral a)" "keeps rd (with_serialization opts a)"
    "keeps rd (with_metadata_defaults m a)" if "keeps rd a" for a vs opts m
    using that by (simp_all add: keeps_def route_pipeline_def with_versions_def version_neutral_def
        with_serialization_def with_metadata_defaults_def)
  from assms obtain rd1 where rd1: "with_host_default (cd_host c) rd = Inr rd1"
    by (auto simp: controller_route_def rbind_Inr_iff)
  define rd2 where "rd2 = (if versioning_is_unspecified (rd_versioning rd1) \<and> \<not> versioning_is_unspecified (cd_versioning c)
       then (case cd_versioning c of Unspecified \<Rightarrow> rd1 | Versions vs \<Rightarrow> with_versions jn vs rd1 | Neutral \<Rightarrow> version_neutral rd1)
       else rd1)"
  define rd3 where "rd3 = (if serialization_is_empty (rd_serialization rd2)
       then (case cd_serialization c of Some opts \<Rightarrow> with_serialization opts rd2 | None \<Rightarrow> rd2) else rd2)"
  have "keeps rd rd2"
    using steps host [OF rd1] by (auto simp: rd2_def split: route_versioning.split)
  then have "keeps rd rd3"
    using steps by (auto simp: rd3_def split: option.split)
  then have kept: "keeps rd (with_metadata_defaults (cd_metadata c) rd3)" by (rule steps)
  have route: "controller_route jn rd c = rmap (\<lambda>rd. c\<lparr>cd_routes := cd_routes c @ [with_pipeline_prefix (cd_pipeline c) rd]\<rparr>)
      (with_prefix (cd_prefix c) (with_metadata_defaults (cd_metadata c) rd3))"
    by (simp only: controller_route_def rd1 rbind.simps Let_def rd2_def rd3_def)
  from assms obtain rd4 where rd4: "with_prefix (cd_prefix c) (with_metadata_defaults (cd_metadata c) rd3) = Inr rd4"
    and c': "c' = c\<lparr>cd_routes := cd_routes c @ [with_pipeline_prefix (cd_pipeline c) rd4]\<rparr>"
    by (auto simp: route rmap_Inr_iff)
  from fin [OF kept rd4] c' show ?thesis by blast
qed

lemma list_all2_map_step:
  "list_all2 P xs ys \<Longrightarrow> (\<And>x y. P x y \<Longrightarrow> Q x (f y)) \<Longrightarrow> list_all2 Q xs (map f ys)"
  by (simp add: list_all2_conv_all_nth)

lemma list_all2_collect_step:
  "list_all2 P xs ys \<Longrightarrow> rcollect f ys = Inr zs \<Longrightarrow> (\<And>x y z. P x y \<Longrightarrow> f y = Inr z \<Longrightarrow> Q x z) \<Longrightarrow> list_all2 Q xs zs"
  by (drule rcollect_Inr_list_all2) (auto simp: list_all2_conv_all_nth)

lemma controller_apply_step:
  assumes "controller_apply jn x c = Inr c'" and "list_all2 (layered_route (cd_prefix c) (cd_pipeline c)) rs (cd_routes c)"
  shows "cd_prefix c' = cd_prefix c \<and> cd_pipeline c' = spec_pipeline x (cd_pipeline c) \<and>
    list_all2 (layered_route (cd_prefix c) (spec_pipeline x (cd_pipeline c))) (rs @ calls_routes [x]) (cd_routes c')"
proof (cases x)
  case (AddRoute rd)
  with assms layered_new [of jn rd c c'] show ?thesis
    by (auto intro!: list_all2_appendI)
next
  case (SetHost h)
  with assms show ?thesis
    by (auto simp: controller_with_host_def rbind_Inr_iff rmap_Inr_iff
        elim!: list_all2_collect_step dest: layered_kept(3))
next
  case (AddMiddleware mw)
  with assms show ?thesis
    by (auto simp: controller_with_middleware_def Let_def elim!: list_all2_map_step intro: layered_steps)
next
  case (AddPipe i p)
  with assms show ?thesis
    by (auto simp: controller_with_pipe_def Let_def elim!: list_all2_map_step intro: layered_steps)
next
  case (AddGuard i p)
  with assms show ?thesis
    by (auto simp: controller_with_guard_def Let_def elim!: list_all2_map_step intro: layered_steps)
next
  case (AddInterceptor i p)
  with assms show ?thesis
    by (auto simp: controller_with_interceptor_def Let_def elim!: list_all2_map_step intro: layered_steps)
next
  case (AddFilter i p)
  with assms show ?thesis
    by (auto simp: controller_with_filter_def Let_def elim!: list_all2_map_step intro: layered_steps)
next
  case EnableValidation
  with assms show ?thesis
    by (auto simp: controller_with_validation_def apply_pipeline_prefix_def elim!: list_all2_map_step intro: layered_steps)
next
  case (EnableValidationOptions opts)
  with assms show ?thesis
    by (auto simp: controller_with_validation_options_def apply_pipeline_prefix_def elim!: list_all2_map_step
        intro: layered_steps)
qed (use assms in \<open>auto simp: controller_without_host_def controller_with_versions_def controller_version_neutral_def
    controller_with_serialization_def controller_with_metadata_value_def elim!: list_all2_map_step intro: layered_kept\<close>)

lemma calls_routes_Cons: "calls_routes (x # xs) = calls_routes [x] @ calls_routes xs"
  by (cases x) simp_all

lemma controller_run_steps:
  assumes "controller_run jn xs c = Inr c'" and "list_all2 (layered_route (cd_prefix c) (cd_pipeline c)) rs (cd_routes c)"
  shows "cd_prefix c' = cd_prefix c \<and> cd_pipeline c' = fold spec_pipeline xs (cd_pipeline c) \<and>
    list_all2 (layered_route (cd_prefix c) (cd_pipeline c')) (rs @ calls_routes xs) (cd_routes c')"
  using assms
proof (induction xs arbitrary: c rs)
  case (Cons x xs)
  then obtain c1 where c1: "controller_apply jn x c = Inr c1" and run: "controller_run jn xs c1 = Inr c'"
    by (auto simp: rbind_Inr_iff)
  note step = controller_apply_step [OF c1 Cons.prems(2)]
  then have "list_all2 (layered_route (cd_prefix c1) (cd_pipeline c1)) (rs @ calls_routes [x]) (cd_routes c1)" by simp
  from Cons.IH [OF run this] step show ?case
    by (auto simp: calls_routes_Cons [of x xs])
qed simp

text \<open>
  The order of the calls on a controller does not matter to its routes. After any
  sequence of calls of the builder that succeeds, every route that was added has below the
  prefix of the controller the pipeline of the whole sequence, the calls after it included,
  before its own: middleware, pipes, guards, interceptors and filters in the order of the
  calls, validation enabled by either, the union of the options, unless the route has
  disabled it. The handler, the method and the validators are the route's.
\<close>

lemma controller_layers:
  assumes start: "controller_new pre = Inr c0" and run: "controller_run jn calls c0 = Inr c"
  shows "cd_pipeline c = calls_pipeline calls \<and>
    list_all2 (layered_route (cd_prefix c) (calls_pipeline calls)) (calls_routes calls) (cd_routes c)"
proof -
  from start have c0: "cd_pipeline c0 = pipeline_default" "cd_routes c0 = []"
    by (auto simp: controller_new_def rmap_Inr_iff)
  show ?thesis
    using controller_run_steps [OF run, of "[]"] by (auto simp: c0 calls_pipeline_def)
qed

definition sample_calls :: "(str, unit, unit) controller_call list" where
  "sample_calls = [AddRoute (sample_route True), AddGuard 7 (\<lambda>_ w. (Inr True, w)), EnableValidation]"

definition sample_controller :: "(str, unit, unit) controller_definition" where
  "sample_controller = projr (controller_run (\<lambda>_. None) sample_calls (projr (controller_new ''/api'')))"

lemma sample_controller_layers:
  "length (cd_routes sample_controller) = 1 \<and>
   map pc_type_id (rd_guards (hd (cd_routes sample_controller))) = [7, 0] \<and>
   rd_validation_enabled (hd (cd_routes sample_controller))"
proof -
  have "is_ok (controller_new ''/api'' :: (str, unit, unit) controller_definition result)"
    "is_ok (controller_run (\<lambda>_. None) sample_calls (projr (controller_new ''/api'')))"
    by code_simp+
  then have "controller_new ''/api'' = Inr (projr (controller_new ''/api'' :: (str, unit, unit) controller_definition result))"
    "controller_run (\<lambda>_. None) sample_calls (projr (controller_new ''/api'')) = Inr sample_controller"
    by (auto simp: is_ok_iff sample_controller_def)
  from controller_layers [OF this]
  have layers: "list_all2 (layered_route (cd_prefix sample_controller) (calls_pipeline sample_calls)) (calls_routes sample_calls)
      (cd_routes sample_controller)" by simp
  then obtain rd where rd: "cd_routes sample_controller = [rd]"
    and l: "layered_route (cd_prefix sample_controller) (calls_pipeline sample_calls) (sample_route True) rd"
    by (auto simp: sample_calls_def list_all2_Cons1)
  from l have "rd_guards rd = source_new 7 (\<lambda>_ w. (Inr True, w)) # rd_guards (sample_route True)"
    "rd_validation_enabled rd"
    by (simp_all add: layered_route_simps calls_pipeline_def sample_calls_def push_guard_def enable_validation_def
        pipeline_default_def sample_route_def)
  then show ?thesis by (simp add: rd source_new_def sample_route_def)
qed

end
