(* ===== verification/Application_Build.thy ===== *)
theory Application_Build
  imports Controllers Route_Selection Websocket Transport Module_Registry Lifecycle Sessions Rate_Limit
    Response_Encoding
begin

text \<open>
  \<open>app/builder.rs\<close> and the second half of \<open>app/registration.rs\<close>: the settings of an application
  and its build, from the registered module graph to the finished routes, gateways and
  message patterns. The modules are asked for their middleware, controllers, routes,
  gateways and patterns; their answers are steps on the build world \<open>'s\<close>, which holds the
  registries. \<open>'w\<close> is the world of the requests. A reference to a module is its number in the
  store of providers; the application is 0. The generated OpenAPI document is a parameter,
  the seeding of the lazy module loader is left out.
\<close>

section \<open>Enhancers of providers\<close>

datatype ('w, 'v) bound_enhancer =
  BE_Pipe "('w, nat, ('w, nat) pipe) pipeline_component"
| BE_Guard "('w, nat, ('w, nat, 'v) guard) pipeline_component"
| BE_Interceptor "('w, nat, ('w, nat, 'v) interceptor) pipeline_component"
| BE_Filter "('w, nat, ('w, nat, 'v) exception_filter) pipeline_component"
| BE_WebSocketPipe "('w, nat, ('w, 'v) ws_pipe) pipeline_component"
| BE_WebSocketGuard "('w, nat, ('w, nat, 'v) ws_guard) pipeline_component"
| BE_WebSocketInterceptor "('w, nat, ('w, nat, 'v) ws_interceptor) pipeline_component"
| BE_WebSocketFilter "('w, nat, ('w, nat, 'v) ws_filter) pipeline_component"
| BE_TransportPipe "('w, nat, ('w, 'v) transport_pipe) pipeline_component"
| BE_TransportGuard "('w, nat, ('w, nat, 'v) transport_guard) pipeline_component"
| BE_TransportInterceptor "('w, nat, ('w, nat, 'v) transport_interceptor) pipeline_component"
| BE_TransportFilter "('w, nat, ('w, nat, 'v) transport_filter) pipeline_component"

record ('w, 'v) enhancer_components =
  en_http :: "('w, nat, 'v) pipeline_components"
  en_ws :: "('w, nat, 'v) ws_components"
  en_transport :: "('w, nat, 'v) transport_components"

definition no_ws_components :: "('w, 'm, 'v) ws_components" where
  "no_ws_components = \<lparr>wsc_pipes = [], wsc_guards = [], wsc_interceptors = [], wsc_filters = []\<rparr>"

definition no_transport_components :: "('w, 'm, 'v) transport_components" where
  "no_transport_components = \<lparr>trc_pipes = [], trc_guards = [], trc_interceptors = [], trc_filters = []\<rparr>"

definition enhancers_default :: "('w, 'v) enhancer_components" where
  "enhancers_default =
     \<lparr>en_http = pipeline_default, en_ws = no_ws_components, en_transport = no_transport_components\<rparr>"

fun enhancer_push :: "('w, 'v) bound_enhancer \<Rightarrow> ('w, 'v) enhancer_components \<Rightarrow> ('w, 'v) enhancer_components" where
  "enhancer_push (BE_Pipe c) e = e\<lparr>en_http := (en_http e)\<lparr>pl_pipes := pl_pipes (en_http e) @ [c]\<rparr>\<rparr>"
| "enhancer_push (BE_Guard c) e = e\<lparr>en_http := (en_http e)\<lparr>pl_guards := pl_guards (en_http e) @ [c]\<rparr>\<rparr>"
| "enhancer_push (BE_Interceptor c) e =
     e\<lparr>en_http := (en_http e)\<lparr>pl_interceptors := pl_interceptors (en_http e) @ [c]\<rparr>\<rparr>"
| "enhancer_push (BE_Filter c) e = e\<lparr>en_http := (en_http e)\<lparr>pl_filters := pl_filters (en_http e) @ [c]\<rparr>\<rparr>"
| "enhancer_push (BE_WebSocketPipe c) e = e\<lparr>en_ws := (en_ws e)\<lparr>wsc_pipes := wsc_pipes (en_ws e) @ [c]\<rparr>\<rparr>"
| "enhancer_push (BE_WebSocketGuard c) e = e\<lparr>en_ws := (en_ws e)\<lparr>wsc_guards := wsc_guards (en_ws e) @ [c]\<rparr>\<rparr>"
| "enhancer_push (BE_WebSocketInterceptor c) e =
     e\<lparr>en_ws := (en_ws e)\<lparr>wsc_interceptors := wsc_interceptors (en_ws e) @ [c]\<rparr>\<rparr>"
| "enhancer_push (BE_WebSocketFilter c) e = e\<lparr>en_ws := (en_ws e)\<lparr>wsc_filters := wsc_filters (en_ws e) @ [c]\<rparr>\<rparr>"
| "enhancer_push (BE_TransportPipe c) e =
     e\<lparr>en_transport := (en_transport e)\<lparr>trc_pipes := trc_pipes (en_transport e) @ [c]\<rparr>\<rparr>"
| "enhancer_push (BE_TransportGuard c) e =
     e\<lparr>en_transport := (en_transport e)\<lparr>trc_guards := trc_guards (en_transport e) @ [c]\<rparr>\<rparr>"
| "enhancer_push (BE_TransportInterceptor c) e =
     e\<lparr>en_transport := (en_transport e)\<lparr>trc_interceptors := trc_interceptors (en_transport e) @ [c]\<rparr>\<rparr>"
| "enhancer_push (BE_TransportFilter c) e =
     e\<lparr>en_transport := (en_transport e)\<lparr>trc_filters := trc_filters (en_transport e) @ [c]\<rparr>\<rparr>"

text \<open>
  The component of a marker resolves the provider of a token from the owner, in the context
  of the dispatch. The registry has the markers with their owners, \<open>bind\<close> is \<open>bind\<close> of the
  marker with a number.
\<close>

definition enhancer_component ::
    "nat \<Rightarrow> (str \<Rightarrow> nat \<Rightarrow> nat \<Rightarrow> ('w, 'b) step) \<Rightarrow> str \<Rightarrow> nat \<Rightarrow> ('w, nat, 'b) pipeline_component" where
  "enhancer_component type_id resolve_token token owner =
     \<lparr>pc_type_id = type_id, pc_source = Provider owner (resolve_token token)\<rparr>"

definition bound_enhancers ::
    "(nat \<Rightarrow> nat \<Rightarrow> ('w, 'v) bound_enhancer) \<Rightarrow> (nat \<times> nat) list \<Rightarrow> ('w, 'v) enhancer_components" where
  "bound_enhancers bind markers = fold (\<lambda>(k, owner). enhancer_push (bind k owner)) markers enhancers_default"

section \<open>The builder\<close>

record ('w, 'v, 'i) application_builder =
  ab_modules :: "nat list"
  ab_routes :: "('w, nat, 'v) route_definition list"
  ab_gateways :: "('w, nat, 'v) ws_gateway list"
  ab_patterns :: "('w, nat, 'v) message_pattern list"
  ab_pipeline :: "('w, nat, 'v) pipeline_components"
  ab_execution_guards :: "(nat \<times> ('w, nat, 'v) guard) list"
  ab_execution_interceptors :: "(nat \<times> ('w, nat, 'v) execution_interceptor) list"
  ab_ws :: "('w, nat, 'v) ws_components"
  ab_transport :: "('w, nat, 'v) transport_components"
  ab_prefix :: "str option"
  ab_exclusions :: "middleware_route list"
  ab_versioning :: "api_versioning option"
  ab_openapi :: "(str \<times> 'i) list"
  ab_openapi_ui :: "(str \<times> str \<times> 'i) list"
  ab_provider_overrides :: "(str, provider_definition) btree"
  ab_module_overrides :: "(str, nat) btree"
  ab_preflight :: "('w, nat) route_handler option"

definition builder_new :: "('w, 'v, 'i) application_builder" where
  "builder_new =
     \<lparr>ab_modules = [], ab_routes = [], ab_gateways = [], ab_patterns = [], ab_pipeline = pipeline_default,
      ab_execution_guards = [], ab_execution_interceptors = [], ab_ws = no_ws_components,
      ab_transport = no_transport_components, ab_prefix = None, ab_exclusions = [], ab_versioning = None,
      ab_openapi = [], ab_openapi_ui = [], ab_provider_overrides = [], ab_module_overrides = [],
      ab_preflight = None\<rparr>"

definition builder_import where
  "builder_import i b = b\<lparr>ab_modules := ab_modules b @ [i]\<rparr>"

definition builder_route where
  "builder_route rd b = b\<lparr>ab_routes := ab_routes b @ [rd]\<rparr>"

definition builder_gateway where
  "builder_gateway g b = b\<lparr>ab_gateways := ab_gateways b @ [g]\<rparr>"

definition builder_message_pattern where
  "builder_message_pattern p b = b\<lparr>ab_patterns := ab_patterns b @ [p]\<rparr>"

definition serve_openapi where
  "serve_openapi path info b = b\<lparr>ab_openapi := ab_openapi b @ [(path, info)]\<rparr>"

definition serve_openapi_ui where
  "serve_openapi_ui path document_path info b =
     b\<lparr>ab_openapi_ui := ab_openapi_ui b @ [(path, document_path, info)]\<rparr>"

definition global_prefix where
  "global_prefix pre b = b\<lparr>ab_prefix := Some pre\<rparr>"

definition exclude_global_prefix where
  "exclude_global_prefix routes b = b\<lparr>ab_exclusions := ab_exclusions b @ routes\<rparr>"

definition enable_api_versioning where
  "enable_api_versioning v b = b\<lparr>ab_versioning := Some v\<rparr>"

definition with_pipeline where
  "with_pipeline f b = b\<lparr>ab_pipeline := f (ab_pipeline b)\<rparr>"

definition use_global_middleware where
  "use_global_middleware mw b = with_pipeline (push_middleware mw) b"

definition use_global_pipe where
  "use_global_pipe i x b = with_pipeline (push_pipe i x) b"

definition use_global_guard where
  "use_global_guard i x b = with_pipeline (push_guard i x) b"

definition use_global_interceptor where
  "use_global_interceptor i x b = with_pipeline (push_interceptor i x) b"

definition use_global_filter where
  "use_global_filter i f b = with_pipeline (push_filter i f) b"

definition use_global_catch_filter where
  "use_global_catch_filter i kinds f b = with_pipeline (push_catch_filter i kinds f) b"

definition use_global_validation where
  "use_global_validation b = with_pipeline enable_validation b"

definition use_global_validation_options where
  "use_global_validation_options opts b = with_pipeline (enable_validation_with_options opts) b"

text \<open>Protocol-neutral components go into the HTTP pipeline at once, and to the other protocols in the build.\<close>

definition use_global_execution_guard where
  "use_global_execution_guard i g b =
     (with_pipeline (push_guard i g) b)\<lparr>ab_execution_guards := ab_execution_guards b @ [(i, g)]\<rparr>"

definition use_global_execution_interceptor where
  "use_global_execution_interceptor i x b =
     (with_pipeline (push_execution_interceptor i x) b)
       \<lparr>ab_execution_interceptors := ab_execution_interceptors b @ [(i, x)]\<rparr>"

definition use_global_serialization where
  "use_global_serialization i dec enc b = use_global_interceptor i (serialization_interceptor dec enc serialization_default) b"

definition use_global_compression where
  "use_global_compression i pq gz opts b = use_global_interceptor i (compression_interceptor pq gz opts) b"

definition use_global_cors where
  "use_global_cors i opts b =
     (use_global_interceptor i (cors_response_interceptor opts) (use_global_middleware (cors_middleware opts) b))
       \<lparr>ab_preflight := Some (cors_preflight_route opts)\<rparr>"

definition use_global_security_headers where
  "use_global_security_headers i opts b = use_global_interceptor i (security_headers_interceptor opts) b"

definition use_global_csrf where
  "use_global_csrf i opts b = use_global_guard i (csrf_guard opts) b"

definition use_global_rate_limit_provider where
  "use_global_rate_limit_provider i sha opts provider b = use_global_guard i (rate_limit_guard sha opts provider) b"

definition use_global_sessions where
  "use_global_sessions i dbg random clock manager b =
     use_global_interceptor i (session_cookie_interceptor dbg clock manager)
       (use_global_middleware (session_middleware dbg random manager) b)"

definition use_global_session_module where
  "use_global_session_module i dbg random clock manager m b =
     builder_import m (use_global_sessions i dbg random clock manager b)"

definition use_global_websocket_pipe where
  "use_global_websocket_pipe i x b =
     b\<lparr>ab_ws := (ab_ws b)\<lparr>wsc_pipes := wsc_pipes (ab_ws b) @ [source_new i x]\<rparr>\<rparr>"

definition use_global_websocket_guard where
  "use_global_websocket_guard i x b =
     b\<lparr>ab_ws := (ab_ws b)\<lparr>wsc_guards := wsc_guards (ab_ws b) @ [source_new i x]\<rparr>\<rparr>"

definition use_global_websocket_interceptor where
  "use_global_websocket_interceptor i x b =
     b\<lparr>ab_ws := (ab_ws b)\<lparr>wsc_interceptors := wsc_interceptors (ab_ws b) @ [source_new i x]\<rparr>\<rparr>"

definition use_global_websocket_filter where
  "use_global_websocket_filter i x b =
     b\<lparr>ab_ws := (ab_ws b)\<lparr>wsc_filters := wsc_filters (ab_ws b) @ [source_new i x]\<rparr>\<rparr>"

definition use_global_websocket_catch_filter where
  "use_global_websocket_catch_filter i kinds f b = use_global_websocket_filter i (message_catch_filter kinds f) b"

definition use_global_transport_pipe where
  "use_global_transport_pipe i x b =
     b\<lparr>ab_transport := (ab_transport b)\<lparr>trc_pipes := trc_pipes (ab_transport b) @ [source_new i x]\<rparr>\<rparr>"

definition use_global_transport_guard where
  "use_global_transport_guard i x b =
     b\<lparr>ab_transport := (ab_transport b)\<lparr>trc_guards := trc_guards (ab_transport b) @ [source_new i x]\<rparr>\<rparr>"

definition use_global_transport_interceptor where
  "use_global_transport_interceptor i x b =
     b\<lparr>ab_transport := (ab_transport b)\<lparr>trc_interceptors := trc_interceptors (ab_transport b) @ [source_new i x]\<rparr>\<rparr>"

definition use_global_transport_filter where
  "use_global_transport_filter i x b =
     b\<lparr>ab_transport := (ab_transport b)\<lparr>trc_filters := trc_filters (ab_transport b) @ [source_new i x]\<rparr>\<rparr>"

definition use_global_transport_catch_filter where
  "use_global_transport_catch_filter i kinds f b = use_global_transport_filter i (message_catch_filter kinds f) b"

definition override_provider where
  "override_provider d b = b\<lparr>ab_provider_overrides := bt_insert (pdf_token d) d (ab_provider_overrides b)\<rparr>"

definition override_module where
  "override_module target i b = b\<lparr>ab_module_overrides := bt_insert target i (ab_module_overrides b)\<rparr>"

section \<open>The second half of the registration\<close>

record ('s, 'w, 'v) module_parts =
  mo_middleware :: "('w, nat) middleware list"
  mo_configure :: "nat \<Rightarrow> ('w, nat) middleware_entry list \<Rightarrow> ('s, ('w, nat) middleware_entry list) step"
  mo_controllers :: "nat \<Rightarrow> ('s, ('w, nat, 'v) controller_definition list) step"
  mo_routes :: "('s, ('w, nat, 'v) route_definition list) step"
  mo_gateways :: "nat \<Rightarrow> ('s, ('w, nat, 'v) ws_gateway list) step"
  mo_patterns :: "nat \<Rightarrow> ('s, ('w, nat, 'v) message_pattern list) step"

record module_record = module_instance +
  mi_imports :: "str list"
  mi_exports :: "str list"
  mi_is_global :: bool
  mi_route_prefix :: "str option"

record ('w, 'v) registration_sink =
  sk_modules :: "str list"
  sk_instances :: "module_record list"
  sk_routes :: "('w, nat, 'v) route_definition list"
  sk_gateways :: "('w, nat, 'v) ws_gateway list"
  sk_patterns :: "('w, nat, 'v) message_pattern list"

record ('w, 'v) route_registration_context =
  rc_module_name :: str
  rc_module_ref :: nat
  rc_global :: "('w, nat, 'v) pipeline_components"
  rc_module :: "('w, nat, 'v) pipeline_components"
  rc_entries :: "('w, nat) middleware_entry list"
  rc_prefix :: str

definition with_route_prefix :: "('w, 'm, 'v) route_definition \<Rightarrow> str \<Rightarrow> ('w, 'm, 'v) route_definition result" where
  "with_route_prefix rd pre = (if pre = [] then Inr rd else with_path_prefix pre rd)"

definition route_path_candidates :: "str \<Rightarrow> str \<Rightarrow> str list" where
  "route_path_candidates local_path prefixed =
     (if local_path = prefixed then [local_path] else [local_path, prefixed])"

definition prepare_route ::
    "('w, 'v) route_registration_context \<Rightarrow> ('w, nat, 'v) route_definition \<Rightarrow> ('w, nat, 'v) route_definition result" where
  "prepare_route ctx rd =
     (let local_path = rd_path rd in
      rmap (\<lambda>rd1. route_with_module_ref (rc_module_ref ctx) (with_module_name (rc_module_name ctx)
              (with_pipeline_prefix (rc_global ctx) (with_pipeline_prefix (rc_module ctx)
                (apply_to_route (rc_entries ctx) rd1 (route_path_candidates local_path (rd_path rd1)))))))
        (with_route_prefix rd (rc_prefix ctx)))"

definition register_controller ::
    "('w, 'v) route_registration_context \<Rightarrow> ('w, nat, 'v) controller_definition
       \<Rightarrow> ('w, nat, 'v) route_definition list \<Rightarrow> ('w, nat, 'v) route_definition list result" where
  "register_controller ctx c routes = rmap (\<lambda>rs. routes @ rs) (rcollect (prepare_route ctx) (cd_routes c))"

fun register_controllers ::
    "('w, 'v) route_registration_context \<Rightarrow> ('w, nat, 'v) controller_definition list
       \<Rightarrow> ('w, nat, 'v) route_definition list \<Rightarrow> ('w, nat, 'v) route_definition list result" where
  "register_controllers ctx [] routes = Inr routes"
| "register_controllers ctx (c # cs) routes = rbind (register_controller ctx c routes) (register_controllers ctx cs)"

definition gateway_of_module :: "str \<Rightarrow> 'm \<Rightarrow> ('w, 'm, 'v) ws_gateway \<Rightarrow> ('w, 'm, 'v) ws_gateway" where
  "gateway_of_module name m g = g\<lparr>wg_module_name := Some name, wg_module_ref := Some m\<rparr>"

definition pattern_of_module :: "str \<Rightarrow> 'm \<Rightarrow> ('w, 'm, 'v) message_pattern \<Rightarrow> ('w, 'm, 'v) message_pattern" where
  "pattern_of_module name m p = p\<lparr>mp_module_name := Some name, mp_module_ref := Some m\<rparr>"

definition finalize_module ::
    "('s, 'x) lifecycle_env \<Rightarrow> (nat \<Rightarrow> ('s, 'w, 'v) module_parts) \<Rightarrow> ('w, nat, 'v) pipeline_components
       \<Rightarrow> pending_module \<Rightarrow> ('w, 'v) registration_sink \<Rightarrow> ('s, ('w, 'v) registration_sink) step" where
  "finalize_module le parts global p sink =
     (let m = pm_ref p; name = pm_name p; mo = parts (pm_module p) in
      step_bind (initialize_local_providers le m) (\<lambda>_.
      step_bind (le_module_hook le ModuleInit (pm_module p) m None) (\<lambda>_.
      let own = fold push_middleware (mo_middleware mo) pipeline_default in
      step_bind (mo_configure mo m []) (\<lambda>entries.
      let ctx = \<lparr>rc_module_name = name, rc_module_ref = m, rc_global = global, rc_module = own,
                 rc_entries = entries, rc_prefix = pm_route_prefix p\<rparr> in
      step_bind (mo_controllers mo m) (\<lambda>controllers.
      step_bind (step_result (register_controllers ctx controllers (sk_routes sink))) (\<lambda>routes1.
      step_bind (mo_routes mo) (\<lambda>rs.
      step_bind (step_result (rcollect (prepare_route ctx) rs)) (\<lambda>own_routes.
      step_bind (mo_gateways mo m) (\<lambda>gateways.
      step_bind (mo_patterns mo m) (\<lambda>patterns.
        step_result (Inr
          \<lparr>sk_modules = sk_modules sink @ [name],
           sk_instances = sk_instances sink @
             [\<lparr>mi_module = pm_module p, mi_ref = m, mi_imports = pm_imports p, mi_exports = pm_exported p,
               mi_is_global = pm_is_global p,
               mi_route_prefix = (if pm_route_prefix p = [] then None else Some (pm_route_prefix p))\<rparr>],
           sk_routes = routes1 @ own_routes,
           sk_gateways = sk_gateways sink @ map (gateway_of_module name m) gateways,
           sk_patterns = sk_patterns sink @ map (pattern_of_module name m) patterns\<rparr>)))))))))))"

fun finalize_modules ::
    "('s, 'x) lifecycle_env \<Rightarrow> (nat \<Rightarrow> ('s, 'w, 'v) module_parts) \<Rightarrow> ('w, nat, 'v) pipeline_components
       \<Rightarrow> pending_module list \<Rightarrow> ('w, 'v) registration_sink \<Rightarrow> ('s, ('w, 'v) registration_sink) step" where
  "finalize_modules le parts global [] sink = step_result (Inr sink)"
| "finalize_modules le parts global (p # ps) sink =
     step_bind (finalize_module le parts global p sink) (finalize_modules le parts global ps)"

text \<open>
  \<open>initialize_local_singletons\<close>: the singletons of one registry in registration order, each
  after a check of its plan. A search that does not end has no value.
\<close>

fun initialize_singletons_loop ::
    "('s, 'x) lifecycle_env \<Rightarrow> nat \<Rightarrow> provider_entry list \<Rightarrow> 's \<Rightarrow> (unit result \<times> 's) option" where
  "initialize_singletons_loop le m [] s = Some (Inr (), s)"
| "initialize_singletons_loop le m (e # es) s =
     (case resolution_plan_of (le_store le s) m e of
        None \<Rightarrow> None
      | Some (Inl err) \<Rightarrow> Some (Inl err, s)
      | Some (Inr p) \<Rightarrow>
          (case validate_resolution_plan e p of
             Inl err \<Rightarrow> Some (Inl err, s)
           | Inr _ \<Rightarrow>
               if rp_scope p = SingletonScope \<and> \<not> rp_contextual p \<and> pdf_alias (pe_definition e) = None
               then (case le_singleton le e m s of
                       (Inl err, s1) \<Rightarrow> Some (Inl err, s1)
                     | (Inr _, s1) \<Rightarrow> initialize_singletons_loop le m es s1)
               else initialize_singletons_loop le m es s))"

definition initialize_local_singletons ::
    "('s, 'x) lifecycle_env \<Rightarrow> nat \<Rightarrow> 's \<Rightarrow> (unit result \<times> 's) option" where
  "initialize_local_singletons le m s = initialize_singletons_loop le m (local_entries (le_store le s) m) s"

fun initialize_modules ::
    "('s, 'x) lifecycle_env \<Rightarrow> pending_module list \<Rightarrow> 's \<Rightarrow> (unit result \<times> 's) option" where
  "initialize_modules le [] s = Some (Inr (), s)"
| "initialize_modules le (p # ps) s =
     (case initialize_local_singletons le (pm_ref p) s of
        None \<Rightarrow> None
      | Some (Inl err, s1) \<Rightarrow> Some (Inl err, s1)
      | Some (Inr _, s1) \<Rightarrow> initialize_modules le ps s1)"

text \<open>\<open>finalize\<close>: the plans of all modules, then their singletons, then module by module the rest.\<close>

definition registry_finalize ::
    "('s, 'x) lifecycle_env \<Rightarrow> (nat \<Rightarrow> ('s, 'w, 'v) module_parts) \<Rightarrow> ('w, nat, 'v) pipeline_components
       \<Rightarrow> pending_module list \<Rightarrow> ('w, 'v) registration_sink \<Rightarrow> 's \<Rightarrow> (('w, 'v) registration_sink result \<times> 's) option" where
  "registry_finalize le parts global ps sink s =
     (case finalize_plans (le_store le s) ps of
        None \<Rightarrow> None
      | Some (Inl err) \<Rightarrow> Some (Inl err, s)
      | Some (Inr _) \<Rightarrow>
          (case initialize_modules le ps s of
             None \<Rightarrow> None
           | Some (Inl err, s1) \<Rightarrow> Some (Inl err, s1)
           | Some (Inr _, s1) \<Rightarrow> Some (finalize_modules le parts global ps sink s1)))"

text \<open>
  \<open>finalize_async\<close> builds the asynchronous singletons of all modules before the others;
  \<open>factory\<close> runs the factory of one entry, \<open>k\<close> is the fuel of the seeding.
\<close>

fun seed_modules ::
    "nat \<Rightarrow> (nat \<Rightarrow> provider_entry \<Rightarrow> 's \<Rightarrow> unit result \<times> 's) \<Rightarrow> ('s, 'x) lifecycle_env \<Rightarrow> pending_module list
       \<Rightarrow> 's \<Rightarrow> (unit result \<times> 's) option" where
  "seed_modules k factory le [] s = Some (Inr (), s)"
| "seed_modules k factory le (p # ps) s =
     (case seed_local_async_singletons k factory (le_store le s) (pm_ref p) s of
        None \<Rightarrow> None
      | Some (Inl err, s1) \<Rightarrow> Some (Inl err, s1)
      | Some (Inr _, s1) \<Rightarrow> seed_modules k factory le ps s1)"

definition registry_finalize_async ::
    "nat \<Rightarrow> (nat \<Rightarrow> provider_entry \<Rightarrow> 's \<Rightarrow> unit result \<times> 's) \<Rightarrow> ('s, 'x) lifecycle_env
       \<Rightarrow> (nat \<Rightarrow> ('s, 'w, 'v) module_parts) \<Rightarrow> ('w, nat, 'v) pipeline_components \<Rightarrow> pending_module list
       \<Rightarrow> ('w, 'v) registration_sink \<Rightarrow> 's \<Rightarrow> (('w, 'v) registration_sink result \<times> 's) option" where
  "registry_finalize_async k factory le parts global ps sink s =
     (case finalize_plans (le_store le s) ps of
        None \<Rightarrow> None
      | Some (Inl err) \<Rightarrow> Some (Inl err, s)
      | Some (Inr _) \<Rightarrow>
          (case seed_modules k factory le ps s of
             None \<Rightarrow> None
           | Some (Inl err, s1) \<Rightarrow> Some (Inl err, s1)
           | Some (Inr _, s1) \<Rightarrow>
               (case initialize_modules le ps s1 of
                  None \<Rightarrow> None
                | Some (Inl err, s2) \<Rightarrow> Some (Inl err, s2)
                | Some (Inr _, s2) \<Rightarrow> Some (finalize_modules le parts global ps sink s2))))"

section \<open>Documents and preflights\<close>

text \<open>
  \<open>doc\<close> gives the JSON text of the generated document for a list of routes, or the error of its
  serialization, \<open>title\<close> the title in its info, \<open>dbg\<close> is the quoted form of a string.
\<close>

definition openapi_json_route :: "str \<Rightarrow> str + str \<Rightarrow> ('w, 'm, 'v) route_definition result" where
  "openapi_json_route path document =
     route_get path (\<lambda>_. step_result (response_json_with_status (\<lambda>d. d) 200 document))"

definition replace_char :: "char \<Rightarrow> str \<Rightarrow> str \<Rightarrow> str" where
  "replace_char c t s = concat (map (\<lambda>x. if x = c then t else [x]) s)"

definition escape_html :: "str \<Rightarrow> str" where
  "escape_html s =
     replace_char (CHR 0x27) ''&#39;'' (replace_char (CHR 0x22) ''&quot;'' (replace_char (CHR ''>'') ''&gt;''
       (replace_char (CHR ''<'') ''&lt;'' (replace_char (CHR ''&'') ''&amp;'' s))))"

definition openapi_ui_html :: "(str \<Rightarrow> str) \<Rightarrow> str \<Rightarrow> str \<Rightarrow> str" where
  "openapi_ui_html dbg title document_path =
     join_with [CHR 0x0A]
       [
        ''<!doctype html>'',
        ''<html lang=\"en\">'',
        ''<head>'',
        ''  <meta charset=\"utf-8\">'',
        ''  <title>'' @ escape_html title @ ''</title>'',
        ''  <meta name=\"viewport\" content=\"width=device-width, initial-scale=1\">'',
        ''  <link rel=\"stylesheet\" href=\"https://unpkg.com/swagger-ui-dist@5/swagger-ui.css\">'',
        ''</head>'',
        ''<body>'',
        ''  <div id=\"swagger-ui\"></div>'',
        ''  <script src=\"https://unpkg.com/swagger-ui-dist@5/swagger-ui-bundle.js\"></script>'',
        ''  <script>'',
        ''    window.ui = SwaggerUIBundle({'',
        ''      url: '' @ dbg document_path @ '','',
        ''      dom_id: \"#swagger-ui\",'',
        ''      deepLinking: true,'',
        ''      presets: [SwaggerUIBundle.presets.apis],'',
        ''      layout: \"BaseLayout\"'',
        ''    });'',
        ''  </script>'',
        ''</body>'',
        ''</html>''
       ]"

definition openapi_ui_response :: "(str \<Rightarrow> str) \<Rightarrow> str \<Rightarrow> str \<Rightarrow> boot_response" where
  "openapi_ui_response dbg title document_path =
     response_with_header ''content-type'' ''text/html; charset=utf-8''
       (text_with_status 200 (openapi_ui_html dbg title document_path))"

definition openapi_ui_route ::
    "(str \<Rightarrow> str) \<Rightarrow> str \<Rightarrow> str \<Rightarrow> str \<Rightarrow> ('w, 'm, 'v) route_definition result" where
  "openapi_ui_route dbg path document_path title =
     route_get path (\<lambda>_. step_result (Inr (openapi_ui_response dbg title document_path)))"

definition add_openapi_ui_routes ::
    "(str \<Rightarrow> str) \<Rightarrow> ('i \<Rightarrow> str) \<Rightarrow> ('i \<Rightarrow> ('w, 'm, 'v) route_definition list \<Rightarrow> str + str)
       \<Rightarrow> ('w, 'm, 'v) route_definition list \<Rightarrow> str option \<Rightarrow> middleware_route list \<Rightarrow> ('w, 'm, 'v) pipeline_components
       \<Rightarrow> str \<times> str \<times> 'i \<Rightarrow> ('w, 'm, 'v) route_definition list \<Rightarrow> ('w, 'm, 'v) route_definition list result" where
  "add_openapi_ui_routes dbg title doc documented pre exclusions p ui routes =
     (case ui of (ui_path, document_path, info) \<Rightarrow>
        rbind (openapi_json_route document_path (doc info documented)) (\<lambda>r0.
        rbind (apply_global_prefix_to_route (with_pipeline_prefix p r0) pre exclusions) (\<lambda>json_route.
        rbind (openapi_ui_route dbg ui_path (rd_path json_route) (title info)) (\<lambda>r1.
        rbind (apply_global_prefix_to_route (with_pipeline_prefix p r1) pre exclusions) (\<lambda>ui_route.
          Inr (routes @ [json_route, ui_route]))))))"

fun openapi_loop ::
    "('i \<Rightarrow> ('w, 'm, 'v) route_definition list \<Rightarrow> str + str) \<Rightarrow> ('w, 'm, 'v) route_definition list \<Rightarrow> str option
       \<Rightarrow> middleware_route list \<Rightarrow> ('w, 'm, 'v) pipeline_components \<Rightarrow> (str \<times> 'i) list
       \<Rightarrow> ('w, 'm, 'v) route_definition list \<Rightarrow> ('w, 'm, 'v) route_definition list result" where
  "openapi_loop doc documented pre exclusions p [] routes = Inr routes"
| "openapi_loop doc documented pre exclusions p ((path, info) # os) routes =
     rbind (openapi_json_route path (doc info documented)) (\<lambda>r0.
     rbind (apply_global_prefix_to_route (with_pipeline_prefix p r0) pre exclusions) (\<lambda>r1.
       openapi_loop doc documented pre exclusions p os (routes @ [r1])))"

fun openapi_ui_loop where
  "openapi_ui_loop dbg title doc documented pre exclusions p [] routes = Inr routes"
| "openapi_ui_loop dbg title doc documented pre exclusions p (ui # uis) routes =
     rbind (add_openapi_ui_routes dbg title doc documented pre exclusions p ui routes)
       (openapi_ui_loop dbg title doc documented pre exclusions p uis)"

section \<open>The build\<close>

record ('w, 'v) built_application =
  bapp_http :: "('w, nat, 'v) boot_application"
  bapp_gateways :: "('w, nat, 'v) ws_gateway list"
  bapp_patterns :: "('w, nat, 'v) message_pattern list"
  bapp_modules :: "str list"
  bapp_instances :: "module_record list"

definition apply_global_gateway_prefix ::
    "('w, 'm, 'v) ws_gateway list \<Rightarrow> str option \<Rightarrow> ('w, 'm, 'v) ws_gateway list result" where
  "apply_global_gateway_prefix gateways pre =
     (case pre of Some p \<Rightarrow> rcollect (gateway_with_path_prefix p) gateways | None \<Rightarrow> Inr gateways)"

definition global_gateway ::
    "('w, 'v, 'i) application_builder \<Rightarrow> ('w, 'v) enhancer_components \<Rightarrow> ('w, nat, 'v) ws_gateway \<Rightarrow> ('w, nat, 'v) ws_gateway" where
  "global_gateway b en g =
     gateway_with_default_module_ref 0
       (gateway_with_validation_prefix (pl_validation_enabled (ab_pipeline b)) (pl_validation_options (ab_pipeline b))
       (gateway_with_filter_prefix (wsc_filters (ab_ws b))
       (gateway_with_pipe_prefix (wsc_pipes (ab_ws b))
       (gateway_with_execution_pipeline_prefix (ab_execution_guards b) (ab_execution_interceptors b)
       (gateway_with_interceptor_prefix (wsc_interceptors (ab_ws b))
       (gateway_with_guard_prefix (wsc_guards (ab_ws b))
       (gateway_with_provider_enhancer_prefix (en_ws en) g)))))))"

definition global_pattern ::
    "('w, 'v, 'i) application_builder \<Rightarrow> ('w, 'v) enhancer_components \<Rightarrow> ('w, nat, 'v) message_pattern
       \<Rightarrow> ('w, nat, 'v) message_pattern" where
  "global_pattern b en p =
     pattern_with_default_module_ref 0
       (pattern_with_validation_prefix (pl_validation_enabled (ab_pipeline b)) (pl_validation_options (ab_pipeline b))
       (pattern_with_filter_prefix (trc_filters (ab_transport b))
       (pattern_with_pipe_prefix (trc_pipes (ab_transport b))
       (pattern_with_execution_pipeline_prefix (ab_execution_guards b) (ab_execution_interceptors b)
       (pattern_with_interceptor_prefix (trc_interceptors (ab_transport b))
       (pattern_with_guard_prefix (trc_guards (ab_transport b))
       (pattern_with_provider_enhancer_prefix (en_transport en) p)))))))"

definition effective_pipeline ::
    "('w, 'v, 'i) application_builder \<Rightarrow> ('w, 'v) enhancer_components \<Rightarrow> ('w, nat, 'v) pipeline_components" where
  "effective_pipeline b en = pipeline_append (ab_pipeline b) (en_http en)"

text \<open>The build after the modules have answered.\<close>

definition build_assemble ::
    "(str \<Rightarrow> str) \<Rightarrow> ('i \<Rightarrow> str) \<Rightarrow> ('i \<Rightarrow> ('w, nat, 'v) route_definition list \<Rightarrow> str + str)
       \<Rightarrow> ('w, 'v, 'i) application_builder \<Rightarrow> ('w, 'v) enhancer_components \<Rightarrow> ('w, 'v) registration_sink
       \<Rightarrow> ('w, 'v) built_application result" where
  "build_assemble dbg title doc b en sink =
     (let eff = effective_pipeline b en; pre = ab_prefix b; exclusions = ab_exclusions b in
      rbind (apply_global_prefix (sk_routes sink) pre exclusions) (\<lambda>routes.
      rbind (apply_global_gateway_prefix (sk_gateways sink) pre) (\<lambda>gateways0.
      let gateways = map (global_gateway b en) gateways0;
          patterns = map (global_pattern b en) (sk_patterns sink);
          documented = routes in
      rbind (openapi_loop doc documented pre exclusions eff (ab_openapi b) routes) (\<lambda>routes.
      rbind (openapi_ui_loop dbg title doc documented pre exclusions eff (ab_openapi_ui b) routes) (\<lambda>routes.
      rbind (case ab_preflight b of
               Some preflight \<Rightarrow> add_cors_preflight_routes preflight eff routes
             | None \<Rightarrow> Inr routes) (\<lambda>routes.
      let routes = map (with_default_module_ref 0) routes in
      rbind (validate_unique_routes routes (ab_versioning b)) (\<lambda>_.
      rbind (validate_unique_gateways (map wg_path gateways)) (\<lambda>_.
      rbind (validate_unique_message_patterns (map mp_pattern patterns)) (\<lambda>_.
      rbind (validate_gateway_route_conflicts routes (map wg_path gateways)) (\<lambda>_.
        Inr \<lparr>bapp_http = \<lparr>ba_routes = routes, ba_api_versioning = ab_versioning b, ba_module_ref = 0,
                            ba_global_filters = pl_filters eff\<rparr>,
             bapp_gateways = gateways, bapp_patterns = patterns, bapp_modules = sk_modules sink,
             bapp_instances = sk_instances sink\<rparr>))))))))))"

text \<open>
  \<open>build\<close> and \<open>build_async\<close>: \<open>n\<close> is the fuel of the registration, \<open>add\<close> registers one provider
  and \<open>finalize\<close> is the second half of the registration of either, \<open>start\<close> puts the registered
  providers into the build world.
\<close>

definition build_with where
  "build_with finalize n add env start bind dbg title doc b =
     (case build_graph n add env (ab_provider_overrides b) (ab_module_overrides b) (ab_modules b) of
        None \<Rightarrow> None
      | Some (Inl err) \<Rightarrow> Some (Inl err)
      | Some (Inr (reg, store)) \<Rightarrow>
          (let en = bound_enhancers bind (rr_enhancers reg);
               eff = effective_pipeline b en;
               sink = \<lparr>sk_modules = [], sk_instances = [], sk_routes = map (with_pipeline_prefix eff) (ab_routes b),
                       sk_gateways = ab_gateways b, sk_patterns = ab_patterns b\<rparr>
           in case finalize eff (rr_pending reg) sink (start store) of
                None \<Rightarrow> None
              | Some (Inl err, s) \<Rightarrow> Some (Inl err)
              | Some (Inr sink1, s) \<Rightarrow> Some (build_assemble dbg title doc b en sink1)))"

definition application_build where
  "application_build n add env parts le start bind dbg title doc b =
     build_with (registry_finalize le parts) n add env start bind dbg title doc b"

definition application_build_async where
  "application_build_async k factory n add env parts le start bind dbg title doc b =
     build_with (registry_finalize_async k factory le parts) n add env start bind dbg title doc b"

section \<open>Every route is behind the global pipeline\<close>

definition behind :: "('w, 'm, 'v) pipeline_components \<Rightarrow> ('w, 'm, 'v) route_definition \<Rightarrow> bool" where
  "behind p rd \<longleftrightarrow>
     (\<exists>own. route_pipeline rd = route_pipeline (with_pipeline_prefix p own) \<and>
            rd_validation_disabled rd = rd_validation_disabled own)"

lemma disabled_prefix [simp]: "rd_validation_disabled (with_pipeline_prefix p rd) = rd_validation_disabled rd"
  by (simp add: with_pipeline_prefix_def Let_def)

lemma behind_prefix [intro]: "behind p (with_pipeline_prefix p rd)"
  by (auto simp: behind_def)

lemma behind_kept:
  assumes "behind p rd"
  shows "behind p (with_module_name n rd)" "behind p (route_with_module_ref m rd)"
    "behind p (with_default_module_ref m rd)"
    "with_path_prefix pre rd = Inr rd2 \<Longrightarrow> behind p rd2"
    "apply_global_prefix_to_route rd gp exclusions = Inr rd2 \<Longrightarrow> behind p rd2"
  using assms
  by (auto simp: behind_def route_pipeline_def with_module_name_def route_with_module_ref_def
      with_default_module_ref_def with_path_prefix_def apply_global_prefix_to_route_def rmap_Inr_iff
      split: option.splits if_splits)

lemma builder_step_Inr: "step_bind f k s = (Inr b, s2) \<longleftrightarrow> (\<exists>a s1. f s = (Inr a, s1) \<and> k a s1 = (Inr b, s2))"
  by (auto simp: step_bind_def split: prod.split sum.split)

lemma step_result_Inr: "step_result r s = (Inr b, s2) \<longleftrightarrow> r = Inr b \<and> s2 = s"
  by (auto simp: step_result_def)

lemma prepare_route_behind: "prepare_route ctx rd = Inr rd2 \<Longrightarrow> behind (rc_global ctx) rd2"
  by (auto simp: prepare_route_def rmap_Inr_iff Let_def intro!: behind_kept(1,2) behind_prefix)

lemma prepare_all_behind:
  assumes "rcollect (prepare_route ctx) rs = Inr ys"
  shows "list_all (behind (rc_global ctx)) ys"
  using rcollect_Inr_list_all2 [OF assms]
  by (auto simp: list_all2_conv_all_nth list_all_length intro: prepare_route_behind)

lemma register_controllers_behind:
  "register_controllers ctx cs routes = Inr routes2 \<Longrightarrow> list_all (behind (rc_global ctx)) routes \<Longrightarrow>
     list_all (behind (rc_global ctx)) routes2"
proof (induction cs arbitrary: routes)
  case (Cons c cs)
  then obtain r1 where r1: "register_controller ctx c routes = Inr r1" and r2: "register_controllers ctx cs r1 = Inr routes2"
    by (auto simp: rbind_Inr_iff)
  from r1 Cons.prems(2) have "list_all (behind (rc_global ctx)) r1"
    by (auto simp: register_controller_def rmap_Inr_iff dest!: prepare_all_behind)
  with Cons.IH [OF r2] show ?case by simp
qed simp

lemma finalize_module_behind:
  assumes "finalize_module le parts global p sink s = (Inr sink2, s2)" and "list_all (behind global) (sk_routes sink)"
  shows "list_all (behind global) (sk_routes sink2)"
  using assms
  by (auto simp: finalize_module_def Let_def builder_step_Inr step_result_Inr
      dest!: prepare_all_behind register_controllers_behind)

lemma finalize_modules_behind:
  "finalize_modules le parts global ps sink s = (Inr sink2, s2) \<Longrightarrow> list_all (behind global) (sk_routes sink) \<Longrightarrow>
     list_all (behind global) (sk_routes sink2)"
proof (induction ps arbitrary: sink s)
  case (Cons p ps)
  then show ?case by (auto simp: builder_step_Inr dest: finalize_module_behind)
qed (simp add: step_result_Inr)

lemma openapi_loop_behind:
  "openapi_loop doc documented pre exclusions p os routes = Inr routes2 \<Longrightarrow> list_all (behind p) routes \<Longrightarrow>
     list_all (behind p) routes2"
proof (induction os arbitrary: routes)
  case (Cons o1 os)
  then show ?case
    by (cases o1) (auto simp: rbind_Inr_iff dest!: behind_kept(5) [OF behind_prefix])
qed simp

lemma openapi_ui_loop_behind:
  "openapi_ui_loop dbg title doc documented pre exclusions p uis routes = Inr routes2 \<Longrightarrow> list_all (behind p) routes \<Longrightarrow>
     list_all (behind p) routes2"
proof (induction uis arbitrary: routes)
  case (Cons u uis)
  then show ?case
    by (cases u) (auto simp: rbind_Inr_iff add_openapi_ui_routes_def dest!: behind_kept(5) [OF behind_prefix])
qed simp

lemma cors_loop_behind:
  "cors_preflight_loop pf p existing generated rs routes = Inr routes2 \<Longrightarrow> list_all (behind p) routes \<Longrightarrow>
     list_all (behind p) routes2"
  by (induction pf p existing generated rs routes rule: cors_preflight_loop.induct)
    (auto simp: rbind_Inr_iff Let_def split: if_splits)


definition gateway_behind ::
    "('w, 'v, 'i) application_builder \<Rightarrow> ('w, 'v) enhancer_components \<Rightarrow> ('w, nat, 'v) ws_gateway \<Rightarrow> bool" where
  "gateway_behind b en g \<longleftrightarrow>
     (\<exists>own :: ('w, nat, 'v) ws_gateway. wg_guards g = map (\<lambda>(i, x). source_new i (ws_execution_guard x)) (ab_execution_guards b)
              @ wsc_guards (ab_ws b) @ wsc_guards (en_ws en) @ wg_guards own \<and>
            wg_pipes g = wsc_pipes (ab_ws b) @ wsc_pipes (en_ws en) @ wg_pipes own \<and>
            wg_filters g = wsc_filters (ab_ws b) @ wsc_filters (en_ws en) @ wg_filters own) \<and> wg_module_ref g \<noteq> None"

definition pattern_behind ::
    "('w, 'v, 'i) application_builder \<Rightarrow> ('w, 'v) enhancer_components \<Rightarrow> ('w, nat, 'v) message_pattern \<Rightarrow> bool" where
  "pattern_behind b en p \<longleftrightarrow>
     (\<exists>own :: ('w, nat, 'v) message_pattern. mp_guards p = map (\<lambda>(i, x). source_new i (adapt_guard tc_execution_context x)) (ab_execution_guards b)
              @ trc_guards (ab_transport b) @ trc_guards (en_transport en) @ mp_guards own \<and>
            mp_pipes p = trc_pipes (ab_transport b) @ trc_pipes (en_transport en) @ mp_pipes own \<and>
            mp_filters p = trc_filters (ab_transport b) @ trc_filters (en_transport en) @ mp_filters own)
     \<and> mp_module_ref p \<noteq> None"

lemma global_gateway_behind: "gateway_behind b en (global_gateway b en g)"
  unfolding gateway_behind_def
  by (rule conjI, rule exI [of _ g])
    (simp_all add: global_gateway_def gateway_with_default_module_ref_def gateway_with_validation_prefix_def
      gateway_with_filter_prefix_def gateway_with_pipe_prefix_def gateway_with_execution_pipeline_prefix_def
      gateway_with_interceptor_prefix_def gateway_with_guard_prefix_def gateway_with_provider_enhancer_prefix_def)

lemma global_pattern_behind: "pattern_behind b en (global_pattern b en p)"
  unfolding pattern_behind_def
  by (rule conjI, rule exI [of _ p])
    (simp_all add: global_pattern_def pattern_with_default_module_ref_def pattern_with_validation_prefix_def
      pattern_with_filter_prefix_def pattern_with_pipe_prefix_def pattern_with_execution_pipeline_prefix_def
      pattern_with_interceptor_prefix_def pattern_with_guard_prefix_def pattern_with_provider_enhancer_prefix_def)

lemma apply_global_prefix_behind:
  "apply_global_prefix rs pre exclusions = Inr rs2 \<Longrightarrow> list_all (behind p) rs \<Longrightarrow> list_all (behind p) rs2"
proof (induction rs arbitrary: rs2)
  case (Cons r rs)
  then show ?case by (auto simp: apply_global_prefix_def rbind_Inr_iff dest: behind_kept(5))
qed (simp add: apply_global_prefix_def)

lemma default_ref_some: "\<exists>m'. rd_module_ref (with_default_module_ref m rd) = Some m'"
  by (simp add: with_default_module_ref_def)

lemma build_assemble_behind:
  assumes "build_assemble dbg title doc b en sink = Inr app" and "list_all (behind (effective_pipeline b en)) (sk_routes sink)"
  shows "list_all (\<lambda>rd. behind (effective_pipeline b en) rd \<and> rd_module_ref rd \<noteq> None) (ba_routes (bapp_http app)) \<and>
    list_all (gateway_behind b en) (bapp_gateways app) \<and> list_all (pattern_behind b en) (bapp_patterns app) \<and>
    ba_global_filters (bapp_http app) = pl_filters (effective_pipeline b en) \<and>
    validate_unique_routes (ba_routes (bapp_http app)) (ba_api_versioning (bapp_http app)) = Inr ()"
proof -
  let ?p = "effective_pipeline b en"
  have "list_all (\<lambda>rd. behind ?p rd \<and> rd_module_ref rd \<noteq> None) (map (with_default_module_ref 0) routes)"
    if "list_all (behind ?p) routes" for routes
    using that by (auto simp: list_all_length default_ref_some intro: behind_kept(3))
  moreover have start: "list_all (behind ?p) routes"
    if "apply_global_prefix (sk_routes sink) pre exclusions = Inr routes" for pre exclusions routes
    using that assms(2) by (rule apply_global_prefix_behind)
  moreover from assms(1) obtain r0 r1 r2 r3 g0 where
    r0: "apply_global_prefix (sk_routes sink) (ab_prefix b) (ab_exclusions b) = Inr r0"
    and r1: "openapi_loop doc r0 (ab_prefix b) (ab_exclusions b) ?p (ab_openapi b) r0 = Inr r1"
    and r2: "openapi_ui_loop dbg title doc r0 (ab_prefix b) (ab_exclusions b) ?p (ab_openapi_ui b) r1 = Inr r2"
    and r3: "(case ab_preflight b of Some preflight \<Rightarrow> add_cors_preflight_routes preflight ?p r2 | None \<Rightarrow> Inr r2) = Inr r3"
    and u: "validate_unique_routes (map (with_default_module_ref 0) r3) (ab_versioning b) = Inr ()"
    and app: "Inr \<lparr>bapp_http = \<lparr>ba_routes = map (with_default_module_ref 0) r3, ba_api_versioning = ab_versioning b,
          ba_module_ref = 0, ba_global_filters = pl_filters ?p\<rparr>,
        bapp_gateways = map (global_gateway b en) g0, bapp_patterns = map (global_pattern b en) (sk_patterns sink),
        bapp_modules = sk_modules sink, bapp_instances = sk_instances sink\<rparr> = (Inr app :: _ result)"
    unfolding build_assemble_def Let_def rbind_Inr_iff
    apply (elim exE conjE)
    apply (rule that)
         apply assumption+
     apply simp
    apply assumption
    done
  moreover have "list_all (behind ?p) r3"
  proof -
    have "list_all (behind ?p) r2"
      using openapi_ui_loop_behind [OF r2 openapi_loop_behind [OF r1 start [OF r0]]] .
    with r3 show ?thesis
      by (auto simp: add_cors_preflight_routes_def split: option.splits dest: cors_loop_behind)
  qed
  ultimately show ?thesis
    by (auto simp: list_all_length global_gateway_behind global_pattern_behind)
qed

definition build_sink ::
    "('w, 'v, 'i) application_builder \<Rightarrow> ('w, 'v) enhancer_components \<Rightarrow> ('w, 'v) registration_sink" where
  "build_sink b en =
     \<lparr>sk_modules = [], sk_instances = [], sk_routes = map (with_pipeline_prefix (effective_pipeline b en)) (ab_routes b),
      sk_gateways = ab_gateways b, sk_patterns = ab_patterns b\<rparr>"

lemma build_with_Inr:
  assumes "build_with finalize n add env start bind dbg title doc b = Some (Inr app)"
    and "build_graph n add env (ab_provider_overrides b) (ab_module_overrides b) (ab_modules b) = Some (Inr (reg, store))"
    and "en = bound_enhancers bind (rr_enhancers reg)"
  shows "\<exists>sink1 s. finalize (effective_pipeline b en) (rr_pending reg) (build_sink b en) (start store) = Some (Inr sink1, s) \<and>
    build_assemble dbg title doc b en sink1 = Inr app"
  using assms(1)
  by (auto simp: build_with_def assms(2) assms(3) [symmetric] build_sink_def Let_def split: option.splits sum.splits)


section \<open>The layers of a controller route\<close>

definition consumer_middleware ::
    "('w, 'm) middleware_entry list \<Rightarrow> http_method \<Rightarrow> str list \<Rightarrow> ('w, 'm) middleware list" where
  "consumer_middleware entries m paths = concat (map me_middleware (filter (\<lambda>en. middleware_entry_matches en m paths) entries))"

definition stacked ::
    "('w, 'v) route_registration_context \<Rightarrow> str \<Rightarrow> ('w, nat, 'v) pipeline_components \<Rightarrow> ('w, nat, 'v) route_definition
       \<Rightarrow> ('w, nat, 'v) route_definition \<Rightarrow> bool" where
  "stacked ctx pre p rd rd' \<longleftrightarrow>
     (\<exists>local_path. join_paths pre (rd_path rd) = Inr local_path
        \<and> rd_middleware rd' = pl_middleware (rc_global ctx) @ pl_middleware (rc_module ctx)
          @ consumer_middleware (rc_entries ctx) (rd_method rd) (route_path_candidates local_path (rd_path rd'))
          @ pl_middleware p @ rd_middleware rd
        \<and> with_route_prefix (rd\<lparr>rd_path := local_path\<rparr>) (rc_prefix ctx) = Inr (rd\<lparr>rd_path := rd_path rd'\<rparr>)) \<and>
     rd_pipes rd' = pl_pipes (rc_global ctx) @ pl_pipes (rc_module ctx) @ pl_pipes p @ rd_pipes rd \<and>
     rd_guards rd' = pl_guards (rc_global ctx) @ pl_guards (rc_module ctx) @ pl_guards p @ rd_guards rd \<and>
     rd_interceptors rd' =
       pl_interceptors (rc_global ctx) @ pl_interceptors (rc_module ctx) @ pl_interceptors p @ rd_interceptors rd \<and>
     rd_filters rd' = pl_filters (rc_global ctx) @ pl_filters (rc_module ctx) @ pl_filters p @ rd_filters rd \<and>
     rd_handler rd' = rd_handler rd \<and> rd_validators rd' = rd_validators rd \<and>
     (rd_validation_disabled rd \<or> rd_validation_enabled rd' =
        (pl_validation_enabled (rc_global ctx) \<or> pl_validation_enabled (rc_module ctx) \<or> pl_validation_enabled p
         \<or> rd_validation_enabled rd))"

lemma apply_to_route_middleware:
  "apply_to_route entries rd paths = rd\<lparr>rd_middleware := consumer_middleware entries (rd_method rd) paths @ rd_middleware rd\<rparr>"
  by (simp add: apply_to_route_def consumer_middleware_def Let_def)

lemma prepare_layered_stacked:
  assumes "layered_route pre p rd rd1" and "prepare_route ctx rd1 = Inr rd2"
  shows "stacked ctx pre p rd rd2"
proof -
  from assms(2) obtain rd3 where rd3: "with_route_prefix rd1 (rc_prefix ctx) = Inr rd3"
    and rd2: "rd2 = route_with_module_ref (rc_module_ref ctx) (with_module_name (rc_module_name ctx)
          (with_pipeline_prefix (rc_global ctx) (with_pipeline_prefix (rc_module ctx)
            (apply_to_route (rc_entries ctx) rd3 (route_path_candidates (rd_path rd1) (rd_path rd3))))))"
    by (auto simp: prepare_route_def rmap_Inr_iff Let_def)
  from rd3 have "rd3 = rd1\<lparr>rd_path := rd_path rd3\<rparr>"
    and "with_route_prefix (rd\<lparr>rd_path := rd_path rd1\<rparr>) (rc_prefix ctx) = Inr (rd\<lparr>rd_path := rd_path rd3\<rparr>)"
    by (auto simp: with_route_prefix_def with_path_prefix_def rmap_Inr_iff split: if_splits)
  then obtain q where q: "rd3 = rd1\<lparr>rd_path := q\<rparr>"
    and pre: "with_route_prefix (rd\<lparr>rd_path := rd_path rd1\<rparr>) (rc_prefix ctx) = Inr (rd\<lparr>rd_path := q\<rparr>)" by metis
  show ?thesis
    using assms(1) pre
    by (auto simp: stacked_def layered_route_simps rd2 q apply_to_route_middleware route_with_module_ref_def
        with_module_name_def split: if_splits intro!: exI [of _ "rd_path rd1"])
qed


text \<open>
  C36. The layers of a route of a controller. Whatever the order of the calls that made the
  controller, the registration of its module gives every route, in this order, the global
  components, those of the module, the middleware that the module configured for the path
  of the route (with or without the prefix of the module), those of the controller and its
  own; the handler and the validators are the route's, and validation runs as soon as one of
  the layers enables it, unless the route has disabled it.
\<close>

theorem controller_route_stack:
  assumes start: "controller_new pre = Inr c0" and run: "controller_run jn calls c0 = Inr c"
    and reg: "register_controller ctx c routes = Inr routes2"
  shows "\<exists>rs. routes2 = routes @ rs \<and> list_all2 (stacked ctx (cd_prefix c) (calls_pipeline calls)) (calls_routes calls) rs"
proof -
  from reg obtain rs where rs: "rcollect (prepare_route ctx) (cd_routes c) = Inr rs" and r2: "routes2 = routes @ rs"
    by (auto simp: register_controller_def rmap_Inr_iff)
  have "list_all2 (layered_route (cd_prefix c) (calls_pipeline calls)) (calls_routes calls) (cd_routes c)"
    using controller_layers [OF start run] by blast
  then have "list_all2 (stacked ctx (cd_prefix c) (calls_pipeline calls)) (calls_routes calls) rs"
    by (rule list_all2_collect_step [OF _ rs]) (rule prepare_layered_stacked)
  with r2 show ?thesis by blast
qed

section \<open>An example\<close>

definition sample_user_calls :: "(nat list, nat, unit) controller_call list" where
  "sample_user_calls =
     [AddRoute (projr (route_get ''/me'' (\<lambda>_ w. (Inr (response_empty 200), w @ [9])))),
      AddGuard 7 (\<lambda>_ w. (Inr True, w @ [3]))]"

definition sample_users :: "(nat list, nat, unit) controller_definition result" where
  "sample_users = rbind (controller_new ''/users'') (controller_run (\<lambda>_. None) sample_user_calls)"

definition sample_parts :: "nat \<Rightarrow> (provider_store, nat list, unit) module_parts" where
  "sample_parts i =
     \<lparr>mo_middleware = [\<lambda>r w. (Inr (Continue r), w @ [1])], mo_configure = (\<lambda>_ es. step_result (Inr es)),
      mo_controllers = (\<lambda>m. step_result
        (if i = 0 then rmap (\<lambda>c. [c]) sample_users else Inr [])),
      mo_routes = step_result (Inr []), mo_gateways = (\<lambda>_. step_result (Inr [])),
      mo_patterns = (\<lambda>_. step_result (Inr []))\<rparr>"

definition sample_env :: "(provider_store, unit) lifecycle_env" where
  "sample_env =
     \<lparr>le_store = (\<lambda>s. s), le_singleton = (\<lambda>_ _ s. (Inr (), s)), le_provider_hook = (\<lambda>_ _ _ _ _. act_ok),
      le_module_hook = (\<lambda>_ _ _ _. act_ok), le_gateway_hook = (\<lambda>_ _. act_ok)\<rparr>"

definition sample_builder :: "(nat list, unit, unit) application_builder" where
  "sample_builder = global_prefix ''/api'' (use_global_guard 5 (\<lambda>_ w. (Inr True, w @ [2])) (builder_import 0 builder_new))"

definition sample_bind :: "nat \<Rightarrow> nat \<Rightarrow> (nat list, unit) bound_enhancer" where
  "sample_bind k owner = BE_Guard (enhancer_component k (\<lambda>_ _ _ w. (Inr (\<lambda>_ w. (Inr True, w)), w)) [] owner)"

definition sample_build :: "(nat list, unit) built_application result option" where
  "sample_build =
     application_build 4 register_provider registry_example sample_parts sample_env (\<lambda>s. s) sample_bind (\<lambda>s. s)
       (\<lambda>_. []) (\<lambda>_ _. Inl []) sample_builder"

definition sample_built_routes :: "(str \<times> nat list) list" where
  "sample_built_routes =
     (case sample_build of
        Some (Inr app) \<Rightarrow> map (\<lambda>rd. (rd_path rd, map pc_type_id (rd_guards rd))) (ba_routes (bapp_http app))
      | _ \<Rightarrow> [])"


definition sample_context_of :: "(nat list, unit) route_registration_context" where
  "sample_context_of =
     \<lparr>rc_module_name = ''App'', rc_module_ref = 2, rc_global = push_guard 5 (\<lambda>_ w. (Inr True, w @ [2])) pipeline_default,
      rc_module = pipeline_default, rc_entries = [], rc_prefix = ''/v''\<rparr>"

lemma controller_route_stack_witness:
  "\<exists>rd. register_controller sample_context_of (projr sample_users) [] = Inr [rd] \<and>
     map pc_type_id (rd_guards rd) = [5, 7]"
proof -
  have "is_ok sample_users" "is_ok (controller_new ''/users'' :: (nat list, nat, unit) controller_definition result)"
    "is_ok (register_controller sample_context_of (projr sample_users) [])"
    by code_simp+
  then obtain c c0 rs where users: "sample_users = Inr c" and start: "controller_new ''/users'' = Inr c0"
    and run: "controller_run (\<lambda>_. None) sample_user_calls c0 = Inr c"
    and reg: "register_controller sample_context_of c [] = Inr rs"
    by (auto simp: is_ok_iff sample_users_def)
  have "list_all2 (stacked sample_context_of (cd_prefix c) (calls_pipeline sample_user_calls)) (calls_routes sample_user_calls) rs"
    using controller_route_stack [OF start run reg] by auto
  then obtain rd where rd: "rs = [rd]"
    and st: "stacked sample_context_of (cd_prefix c) (calls_pipeline sample_user_calls)
        (projr (route_get ''/me'' (\<lambda>_ w. (Inr (response_empty 200), w @ [9])))) rd"
    by (auto simp: sample_user_calls_def list_all2_Cons1)
  have "validate_route_path ''/me'' = Inr ()" by code_simp
  then have "rd_guards (projr (route_get ''/me'' h)) = []" for h
    by (simp add: route_get_def route_new_def)
  with st have "map pc_type_id (rd_guards rd) = [5, 7]"
    by (simp add: stacked_def sample_context_of_def calls_pipeline_def sample_user_calls_def push_guard_def
        pipeline_default_def source_new_def)
  moreover have "projr sample_users = c" unfolding users by (rule sum.sel(2))
  ultimately show ?thesis using reg rd by (intro exI [of _ rd]) simp
qed

lemma replace_char_append: "replace_char c t (a @ b) = replace_char c t a @ replace_char c t b"
  by (simp add: replace_char_def)

text \<open>The title of a page cannot leave its element.\<close>

lemma escape_html_safe: "set (escape_html s) \<inter> {CHR ''<'', CHR ''>'', CHR 0x22, CHR 0x27} = {}"
proof (induction s)
  case (Cons x s)
  have "escape_html (x # s) = escape_html [x] @ escape_html s"
    using replace_char_append [of _ _ "[x]" s, simplified] by (simp add: escape_html_def replace_char_append)
  moreover have "set (escape_html [x]) \<inter> {CHR ''<'', CHR ''>'', CHR 0x22, CHR 0x27} = {}"
    by (auto simp: escape_html_def replace_char_def)
  ultimately show ?case using Cons by auto
qed (simp add: escape_html_def replace_char_def)

end
