(* ===== verification/Auth.thy ===== *)
theory Auth
  imports Expiring_Store
begin

text \<open>
  \<open>src/auth.rs\<close>, \<open>src/request_context.rs\<close> and the principal of a request
  (\<open>src/http/request.rs\<close>): identities, named strategies, the guard that asks one of them and
  checks roles and scopes, and the task-local context of a request.

  User code, the strategies and the verifiers of bearer tokens, acts on a world \<open>'u\<close>. Values
  are \<open>'v\<close>; the decoders of serde with their error texts are parameters. A poisoned lock is not
  modelled. The cell of a request that holds its principal is shared by all its clones, so it is
  part of the state; contexts are shared by their clones too, so their mutable parts live in a
  store, under the address that the context carries.
\<close>

section \<open>Identities\<close>

record 'v auth_principal =
  ap_subject :: str
  ap_strategy :: str
  ap_claims :: "(str, 'v) btree"
  ap_roles :: "str list"
  ap_scopes :: "str list"

definition principal_new :: "str \<Rightarrow> 'v auth_principal" where
  "principal_new subject =
     \<lparr>ap_subject = subject, ap_strategy = [], ap_claims = [], ap_roles = [], ap_scopes = []\<rparr>"

definition principal_claim :: "'v auth_principal \<Rightarrow> str \<Rightarrow> 'v option" where
  "principal_claim p key = bt_get (ap_claims p) key"

definition with_strategy :: "str \<Rightarrow> 'v auth_principal \<Rightarrow> 'v auth_principal" where
  "with_strategy strategy p = p\<lparr>ap_strategy := strategy\<rparr>"

definition with_claim_value :: "str \<Rightarrow> 'v \<Rightarrow> 'v auth_principal \<Rightarrow> 'v auth_principal" where
  "with_claim_value key value p = p\<lparr>ap_claims := bt_insert key value (ap_claims p)\<rparr>"

definition with_claim :: "('a \<Rightarrow> str + 'v) \<Rightarrow> str \<Rightarrow> 'a \<Rightarrow> 'v auth_principal \<Rightarrow> 'v auth_principal result" where
  "with_claim enc key a p =
     (case enc a of
        Inl e \<Rightarrow> Inl (Internal (''failed to serialize auth claim `'' @ key @ ''`: '' @ e))
      | Inr v \<Rightarrow> Inr (with_claim_value key v p))"

definition with_role :: "str \<Rightarrow> 'v auth_principal \<Rightarrow> 'v auth_principal" where
  "with_role r p = p\<lparr>ap_roles := bs_insert r (ap_roles p)\<rparr>"

definition with_roles :: "str list \<Rightarrow> 'v auth_principal \<Rightarrow> 'v auth_principal" where
  "with_roles rs p = p\<lparr>ap_roles := fold bs_insert rs (ap_roles p)\<rparr>"

definition has_role :: "'v auth_principal \<Rightarrow> str \<Rightarrow> bool" where
  "has_role p r = List.member (ap_roles p) r"

definition principal_with_scope :: "str \<Rightarrow> 'v auth_principal \<Rightarrow> 'v auth_principal" where
  "principal_with_scope s p = p\<lparr>ap_scopes := bs_insert s (ap_scopes p)\<rparr>"

definition with_scopes :: "str list \<Rightarrow> 'v auth_principal \<Rightarrow> 'v auth_principal" where
  "with_scopes ss p = p\<lparr>ap_scopes := fold bs_insert ss (ap_scopes p)\<rparr>"

definition has_scope :: "'v auth_principal \<Rightarrow> str \<Rightarrow> bool" where
  "has_scope p s = List.member (ap_scopes p) s"

definition with_default_strategy :: "str \<Rightarrow> 'v auth_principal \<Rightarrow> 'v auth_principal" where
  "with_default_strategy strategy p = (if ap_strategy p = [] then p\<lparr>ap_strategy := strategy\<rparr> else p)"

record auth_credentials =
  acr_scheme :: str
  acr_token :: str

definition credentials_bearer :: "str \<Rightarrow> auth_credentials" where
  "credentials_bearer token = \<lparr>acr_scheme = ''Bearer'', acr_token = token\<rparr>"

section \<open>The context of a request\<close>

record 'v route_context =
  rcx_method :: http_method
  rcx_request_path :: str
  rcx_route_path :: str
  rcx_module_name :: "str option"
  rcx_controller_prefix :: "str option"
  rcx_request_id :: "str option"
  rcx_headers :: "(str, str) btree"
  rcx_params :: "(str, str) btree"
  rcx_query :: "(str, str) btree"
  rcx_metadata :: "(str, 'v) btree"
  rcx_cell :: nat

text \<open>The mutable part of a context.\<close>

record 'v context_cell =
  cc_values :: "(str, 'v) btree"
  cc_principal :: "'v auth_principal option"

text \<open>
  \<open>au_request\<close> is the cell of the request, \<open>au_current\<close> the task-local context, \<open>au_cells\<close> the
  store, in which an address is a position.
\<close>

record ('v, 'u) auth_state =
  au_request :: "'v auth_principal option"
  au_current :: "'v route_context option"
  au_cells :: "'v context_cell list"
  au_user :: 'u

definition from_route_request ::
    "'m boot_request \<Rightarrow> str \<Rightarrow> str option \<Rightarrow> str option \<Rightarrow> (str, 'v) btree
       \<Rightarrow> ('v, 'u) auth_state \<Rightarrow> 'v route_context \<times> ('v, 'u) auth_state" where
  "from_route_request q route_path module_name controller_prefix metadata s =
     (\<lparr>rcx_method = rq_method q, rcx_request_path = rq_path q, rcx_route_path = route_path,
       rcx_module_name = module_name, rcx_controller_prefix = controller_prefix,
       rcx_request_id = or_else (request_header q ''x-request-id'') (request_header q ''x-correlation-id''),
       rcx_headers = bt_of_list (header_entries_of (rq_headers q) (rq_appended_headers q)), rcx_params = rq_params q, rcx_query = rq_query q,
       rcx_metadata = metadata, rcx_cell = length (au_cells s)\<rparr>,
      s\<lparr>au_cells := au_cells s @ [\<lparr>cc_values = [], cc_principal = None\<rparr>]\<rparr>)"

definition context_scope ::
    "'v route_context \<Rightarrow> (('v, 'u) auth_state \<Rightarrow> 'a \<times> ('v, 'u) auth_state) \<Rightarrow> ('v, 'u) auth_state
       \<Rightarrow> 'a \<times> ('v, 'u) auth_state" where
  "context_scope c f s =
     (let (a, s1) = f (s\<lparr>au_current := Some c\<rparr>) in (a, s1\<lparr>au_current := au_current s\<rparr>))"

definition context_current :: "('v, 'u) auth_state \<Rightarrow> 'v route_context result" where
  "context_current s =
     (case au_current s of
        None \<Rightarrow> Inl (Internal ''request context is not available'')
      | Some c \<Rightarrow> Inr c)"

definition route_context_header :: "'v route_context \<Rightarrow> str \<Rightarrow> str option" where
  "route_context_header c name = bt_get (rcx_headers c) (to_ascii_lowercase name)"

definition context_param :: "'v route_context \<Rightarrow> str \<Rightarrow> str option" where
  "context_param c name = bt_get (rcx_params c) name"

definition context_query_param :: "'v route_context \<Rightarrow> str \<Rightarrow> str option" where
  "context_query_param c name = bt_get (rcx_query c) name"

definition context_metadata_as :: "('v \<Rightarrow> str + 'a) \<Rightarrow> 'v route_context \<Rightarrow> str \<Rightarrow> 'a option result" where
  "context_metadata_as dec c key =
     (case bt_get (rcx_metadata c) key of
        None \<Rightarrow> Inr None
      | Some v \<Rightarrow>
          (case dec v of
             Inl e \<Rightarrow> Inl (Internal (''failed to deserialize request context metadata `'' @ key @ ''`: '' @ e))
           | Inr a \<Rightarrow> Inr (Some a)))"

definition update_cell :: "('v context_cell \<Rightarrow> 'v context_cell) \<Rightarrow> 'v route_context \<Rightarrow> ('v, 'u) auth_state
     \<Rightarrow> ('v, 'u) auth_state" where
  "update_cell f c s = s\<lparr>au_cells := (au_cells s)[rcx_cell c := f (au_cells s ! rcx_cell c)]\<rparr>"

definition set_value_raw :: "'v route_context \<Rightarrow> str \<Rightarrow> 'v \<Rightarrow> (('v, 'u) auth_state, unit) step" where
  "set_value_raw c key value s =
     (Inr (), update_cell (\<lambda>cell. cell\<lparr>cc_values := bt_insert key value (cc_values cell)\<rparr>) c s)"

definition set_value ::
    "('a \<Rightarrow> str + 'v) \<Rightarrow> 'v route_context \<Rightarrow> str \<Rightarrow> 'a \<Rightarrow> (('v, 'u) auth_state, unit) step" where
  "set_value enc c key a =
     (case enc a of
        Inl e \<Rightarrow> step_result (Inl (Internal (''failed to serialize request context value `'' @ key @ ''`: '' @ e)))
      | Inr v \<Rightarrow> set_value_raw c key v)"

definition context_value :: "'v route_context \<Rightarrow> str \<Rightarrow> ('v, 'u) auth_state \<Rightarrow> 'v option" where
  "context_value c key s = bt_get (cc_values (au_cells s ! rcx_cell c)) key"

definition context_value_as ::
    "('v \<Rightarrow> str + 'a) \<Rightarrow> 'v route_context \<Rightarrow> str \<Rightarrow> ('v, 'u) auth_state \<Rightarrow> 'a option result" where
  "context_value_as dec c key s =
     (case context_value c key s of
        None \<Rightarrow> Inr None
      | Some v \<Rightarrow>
          (case dec v of
             Inl e \<Rightarrow> Inl (Internal (''failed to deserialize request context value `'' @ key @ ''`: '' @ e))
           | Inr a \<Rightarrow> Inr (Some a)))"

definition context_set_principal :: "'v route_context \<Rightarrow> 'v auth_principal \<Rightarrow> (('v, 'u) auth_state, unit) step" where
  "context_set_principal c p s = (Inr (), update_cell (\<lambda>cell. cell\<lparr>cc_principal := Some p\<rparr>) c s)"

definition context_principal :: "'v route_context \<Rightarrow> ('v, 'u) auth_state \<Rightarrow> 'v auth_principal option" where
  "context_principal c s = cc_principal (au_cells s ! rcx_cell c)"

section \<open>The principal of a request\<close>

definition request_set_principal :: "'v auth_principal \<Rightarrow> (('v, 'u) auth_state, unit) step" where
  "request_set_principal p s = (Inr (), s\<lparr>au_request := Some p\<rparr>)"

definition request_clear_principal :: "(('v, 'u) auth_state, unit) step" where
  "request_clear_principal s = (Inr (), s\<lparr>au_request := None\<rparr>)"

definition require_auth_principal :: "(('v, 'u) auth_state, 'v auth_principal) step" where
  "require_auth_principal s =
     (case au_request s of
        None \<Rightarrow> (Inl (Unauthorized ''missing authenticated principal''), s)
      | Some p \<Rightarrow> (Inr p, s))"

section \<open>Strategies\<close>

type_synonym ('m, 'v, 'u) auth_strategy =
  "('m, 'v) execution_context \<Rightarrow> (('v, 'u) auth_state, 'v auth_principal option) step"

type_synonym ('m, 'v, 'u) bearer_verifier =
  "str \<Rightarrow> ('m, 'v) execution_context \<Rightarrow> (('v, 'u) auth_state, 'v auth_principal option) step"

definition bearer_authenticate :: "('m, 'v, 'u) bearer_verifier \<Rightarrow> ('m, 'v, 'u) auth_strategy" where
  "bearer_authenticate verifier ctx =
     (case bearer_token (ec_request ctx) of
        None \<Rightarrow> step_result (Inr None)
      | Some token \<Rightarrow> verifier token ctx)"

record ('m, 'v, 'u) auth_strategy_definition =
  asd_name :: str
  asd_strategy :: "('m, 'v, 'u) auth_strategy"

definition strategy_bearer :: "str \<Rightarrow> ('m, 'v, 'u) bearer_verifier \<Rightarrow> ('m, 'v, 'u) auth_strategy_definition" where
  "strategy_bearer name verifier = \<lparr>asd_name = name, asd_strategy = bearer_authenticate verifier\<rparr>"

record ('m, 'v, 'u) auth_service =
  asv_default :: str
  asv_strategies :: "(str, ('m, 'v, 'u) auth_strategy) btree"

definition auth_service_new :: "str \<Rightarrow> ('m, 'v, 'u) auth_service" where
  "auth_service_new name = \<lparr>asv_default = name, asv_strategies = []\<rparr>"

definition auth_service_default :: "('m, 'v, 'u) auth_service" where
  "auth_service_default = auth_service_new ''bearer''"

definition set_default_strategy :: "str \<Rightarrow> (('m, 'v, 'u) auth_service, unit) step" where
  "set_default_strategy name svc = (Inr (), svc\<lparr>asv_default := name\<rparr>)"

definition register_strategy :: "('m, 'v, 'u) auth_strategy_definition \<Rightarrow> (('m, 'v, 'u) auth_service, unit) step" where
  "register_strategy d svc =
     (if trim (asd_name d) = [] then (Inl (Internal ''auth strategy name cannot be empty''), svc)
      else if bt_get (asv_strategies svc) (asd_name d) \<noteq> None
      then (Inl (Internal (''auth strategy is already registered: '' @ asd_name d)), svc)
      else (Inr (), svc\<lparr>asv_strategies := bt_insert (asd_name d) (asd_strategy d) (asv_strategies svc)\<rparr>))"

definition auth_authenticate ::
    "('m, 'v, 'u) auth_service \<Rightarrow> str \<Rightarrow> ('m, 'v) execution_context
       \<Rightarrow> (('v, 'u) auth_state, 'v auth_principal option) step" where
  "auth_authenticate svc name ctx =
     (case bt_get (asv_strategies svc) name of
        None \<Rightarrow> step_result (Inl (Internal (''auth strategy is not registered: '' @ name)))
      | Some strategy \<Rightarrow>
          step_bind (strategy ctx) (\<lambda>principal.
          step_result (Inr (map_option (with_default_strategy name) principal))))"

definition strategy_count :: "('m, 'v, 'u) auth_service \<Rightarrow> nat" where
  "strategy_count svc = length (asv_strategies svc)"

definition clear_strategies :: "(('m, 'v, 'u) auth_service, unit) step" where
  "clear_strategies svc = (Inr (), svc\<lparr>asv_strategies := []\<rparr>)"

section \<open>The guard\<close>

record auth_guard =
  ag_strategy :: "str option"
  ag_roles :: "str list"
  ag_scopes :: "str list"

definition auth_guard_new :: auth_guard where
  "auth_guard_new = \<lparr>ag_strategy = None, ag_roles = [], ag_scopes = []\<rparr>"

definition guard_strategy :: "str \<Rightarrow> auth_guard \<Rightarrow> auth_guard" where
  "guard_strategy name g = g\<lparr>ag_strategy := Some name\<rparr>"

definition require_role :: "str \<Rightarrow> auth_guard \<Rightarrow> auth_guard" where
  "require_role r g = g\<lparr>ag_roles := bs_insert r (ag_roles g)\<rparr>"

definition require_roles :: "str list \<Rightarrow> auth_guard \<Rightarrow> auth_guard" where
  "require_roles rs g = g\<lparr>ag_roles := fold bs_insert rs (ag_roles g)\<rparr>"

definition require_scope :: "str \<Rightarrow> auth_guard \<Rightarrow> auth_guard" where
  "require_scope s g = g\<lparr>ag_scopes := bs_insert s (ag_scopes g)\<rparr>"

definition require_scopes :: "str list \<Rightarrow> auth_guard \<Rightarrow> auth_guard" where
  "require_scopes ss g = g\<lparr>ag_scopes := fold bs_insert ss (ag_scopes g)\<rparr>"

fun assert_required_roles :: "'v auth_principal \<Rightarrow> str list \<Rightarrow> unit result" where
  "assert_required_roles p [] = Inr ()"
| "assert_required_roles p (r # rs) =
     (if \<not> has_role p r then Inl (Forbidden (''missing required role: '' @ r)) else assert_required_roles p rs)"

fun assert_required_scopes :: "'v auth_principal \<Rightarrow> str list \<Rightarrow> unit result" where
  "assert_required_scopes p [] = Inr ()"
| "assert_required_scopes p (r # rs) =
     (if \<not> has_scope p r then Inl (Forbidden (''missing required scope: '' @ r)) else assert_required_scopes p rs)"

text \<open>
  The JSON readers of the metadata, and the lookup of the service in the module of the request.
\<close>

record ('m, 'v, 'u) auth_env =
  ae_bool :: "'v \<Rightarrow> str + bool"
  ae_string :: "'v \<Rightarrow> str + str"
  ae_strings :: "'v \<Rightarrow> str + str list"
  ae_service :: "'m boot_request \<Rightarrow> ('m, 'v, 'u) auth_service result"

definition find_auth_service :: "('m, 'v, 'u) auth_env \<Rightarrow> 'm boot_request \<Rightarrow> ('m, 'v, 'u) auth_service result" where
  "find_auth_service env q =
     (case ae_service env q of
        Inl (MissingProvider _) \<Rightarrow> Inl (Internal ''AuthService provider is not registered; import AuthModule'')
      | r \<Rightarrow> r)"

definition auth_strategy_name ::
    "('m, 'v, 'u) auth_env \<Rightarrow> auth_guard \<Rightarrow> ('m, 'v, 'u) auth_service \<Rightarrow> ('m, 'v) execution_context \<Rightarrow> str result" where
  "auth_strategy_name env g svc ctx =
     rmap (\<lambda>named. case named of
        Some name \<Rightarrow> name
      | None \<Rightarrow> (case ag_strategy g of Some name \<Rightarrow> name | None \<Rightarrow> asv_default svc))
      (metadata_as (ae_string env) ctx ''auth.strategy'')"

definition attach_principal :: "'v auth_principal \<Rightarrow> (('v, 'u) auth_state, unit) step" where
  "attach_principal p =
     step_bind (request_set_principal p) (\<lambda>_ s.
     case au_current s of
       None \<Rightarrow> (Inr (), s)
     | Some c \<Rightarrow> step_bind require_auth_principal (context_set_principal c) s)"

definition auth_can_activate ::
    "('m, 'v, 'u) auth_env \<Rightarrow> auth_guard \<Rightarrow> ('m, 'v) execution_context \<Rightarrow> (('v, 'u) auth_state, bool) step" where
  "auth_can_activate env g ctx =
     step_bind (step_result (metadata_as (ae_bool env) ctx ''auth.public'')) (\<lambda>public.
     if public = Some True then step_result (Inr True)
     else
       step_bind (step_result (find_auth_service env (ec_request ctx))) (\<lambda>svc.
       step_bind (step_result (auth_strategy_name env g svc ctx)) (\<lambda>name.
       step_bind (auth_authenticate svc name ctx) (\<lambda>found.
       case found of
         None \<Rightarrow> step_result (Inl (Unauthorized ''missing authentication credentials''))
       | Some p \<Rightarrow>
           step_bind (step_result (assert_required_roles p (ag_roles g))) (\<lambda>_.
           step_bind (step_result (assert_required_scopes p (ag_scopes g))) (\<lambda>_.
           step_bind (step_result (metadata_as (ae_strings env) ctx ''auth.roles'')) (\<lambda>roles.
           step_bind (step_result (case roles of Some rs \<Rightarrow> assert_required_roles p rs | None \<Rightarrow> Inr ())) (\<lambda>_.
           step_bind (step_result (metadata_as (ae_strings env) ctx ''auth.scopes'')) (\<lambda>scopes.
           step_bind (step_result (case scopes of Some ss \<Rightarrow> assert_required_scopes p ss | None \<Rightarrow> Inr ())) (\<lambda>_.
           step_bind (attach_principal p) (\<lambda>_. step_result (Inr True))))))))))))"

section \<open>The module\<close>

text \<open>
  The module hands its imports, providers and flag to the registration of modules; a provider is
  \<open>'p\<close>, and \<open>service_provider\<close> is the definition that holds the service.
\<close>

record ('m, 'v, 'u, 'i, 'p) auth_module =
  am_name :: str
  am_default_strategy :: str
  am_imports :: "'i list"
  am_providers :: "'p list"
  am_strategies :: "('m, 'v, 'u) auth_strategy_definition list"
  am_global :: bool

definition auth_module_new :: "str \<Rightarrow> ('m, 'v, 'u, 'i, 'p) auth_module" where
  "auth_module_new name =
     \<lparr>am_name = name, am_default_strategy = ''bearer'', am_imports = [], am_providers = [], am_strategies = [],
      am_global = False\<rparr>"

definition auth_module_default_strategy :: "str \<Rightarrow> ('m, 'v, 'u, 'i, 'p) auth_module \<Rightarrow> ('m, 'v, 'u, 'i, 'p) auth_module" where
  "auth_module_default_strategy name d = d\<lparr>am_default_strategy := name\<rparr>"

definition auth_module_import :: "'i \<Rightarrow> ('m, 'v, 'u, 'i, 'p) auth_module \<Rightarrow> ('m, 'v, 'u, 'i, 'p) auth_module" where
  "auth_module_import i d = d\<lparr>am_imports := am_imports d @ [i]\<rparr>"

definition auth_module_provider :: "'p \<Rightarrow> ('m, 'v, 'u, 'i, 'p) auth_module \<Rightarrow> ('m, 'v, 'u, 'i, 'p) auth_module" where
  "auth_module_provider p d = d\<lparr>am_providers := am_providers d @ [p]\<rparr>"

definition auth_module_strategy ::
    "('m, 'v, 'u) auth_strategy_definition \<Rightarrow> ('m, 'v, 'u, 'i, 'p) auth_module \<Rightarrow> ('m, 'v, 'u, 'i, 'p) auth_module" where
  "auth_module_strategy s d = d\<lparr>am_strategies := am_strategies d @ [s]\<rparr>"

definition auth_module_bearer_named ::
    "str \<Rightarrow> ('m, 'v, 'u) bearer_verifier \<Rightarrow> ('m, 'v, 'u, 'i, 'p) auth_module \<Rightarrow> ('m, 'v, 'u, 'i, 'p) auth_module" where
  "auth_module_bearer_named name verifier = auth_module_strategy (strategy_bearer name verifier)"

definition auth_module_bearer ::
    "('m, 'v, 'u) bearer_verifier \<Rightarrow> ('m, 'v, 'u, 'i, 'p) auth_module \<Rightarrow> ('m, 'v, 'u, 'i, 'p) auth_module" where
  "auth_module_bearer verifier d =
     auth_module_default_strategy ''bearer'' (auth_module_bearer_named ''bearer'' verifier d)"

definition auth_module_providers :: "'p \<Rightarrow> ('m, 'v, 'u, 'i, 'p) auth_module \<Rightarrow> 'p list" where
  "auth_module_providers service_provider d = service_provider # am_providers d"

fun register_strategies :: "('m, 'v, 'u) auth_strategy_definition list \<Rightarrow> (('m, 'v, 'u) auth_service, unit) step" where
  "register_strategies [] = step_result (Inr ())"
| "register_strategies (d # ds) = step_bind (register_strategy d) (\<lambda>_. register_strategies ds)"

definition auth_module_init :: "('m, 'v, 'u, 'i, 'p) auth_module \<Rightarrow> (('m, 'v, 'u) auth_service, unit) step" where
  "auth_module_init d =
     step_bind (set_default_strategy (am_default_strategy d)) (\<lambda>_. register_strategies (am_strategies d))"

section \<open>What the guard lets pass\<close>

lemma assert_required_roles_iff [simp]:
  "assert_required_roles p rs = Inr u \<longleftrightarrow> set rs \<subseteq> set (ap_roles p)"
  by (induction rs) (auto simp: has_role_def List.member_iff)

lemma assert_required_scopes_iff [simp]:
  "assert_required_scopes p rs = Inr u \<longleftrightarrow> set rs \<subseteq> set (ap_scopes p)"
  by (induction rs) (auto simp: has_scope_def List.member_iff)

lemma assert_required_forbids:
  "assert_required_roles p rs = Inl e \<Longrightarrow> kind e = K_Forbidden"
  "assert_required_scopes p rs = Inl e \<Longrightarrow> kind e = K_Forbidden"
  by (induction rs) (auto split: if_splits)

lemma set_bs_builders [simp]:
  "set (ap_roles (with_role r p)) = insert r (set (ap_roles p))"
  "set (ap_roles (with_roles rs p)) = set rs \<union> set (ap_roles p)"
  "set (ap_scopes (principal_with_scope r p)) = insert r (set (ap_scopes p))"
  "set (ap_scopes (with_scopes rs p)) = set rs \<union> set (ap_scopes p)"
  "set (ag_roles (require_role r g)) = insert r (set (ag_roles g))"
  "set (ag_roles (require_roles rs g)) = set rs \<union> set (ag_roles g)"
  "set (ag_scopes (require_scope r g)) = insert r (set (ag_scopes g))"
  "set (ag_scopes (require_scopes rs g)) = set rs \<union> set (ag_scopes g)"
  by (simp_all add: with_role_def with_roles_def principal_with_scope_def with_scopes_def require_role_def
      require_roles_def require_scope_def require_scopes_def set_fold_bs_insert)

text \<open>What a request must bring: every role and scope of the guard and of the route.\<close>

definition grants :: "auth_guard \<Rightarrow> str list option \<Rightarrow> str list option \<Rightarrow> 'v auth_principal \<Rightarrow> bool" where
  "grants g roles scopes p \<longleftrightarrow>
     set (ag_roles g) \<subseteq> set (ap_roles p) \<and> set (ag_scopes g) \<subseteq> set (ap_scopes p)
     \<and> (case roles of None \<Rightarrow> True | Some rs \<Rightarrow> set rs \<subseteq> set (ap_roles p))
     \<and> (case scopes of None \<Rightarrow> True | Some ss \<Rightarrow> set ss \<subseteq> set (ap_scopes p))"

definition authorised ::
    "('m, 'v, 'u) auth_env \<Rightarrow> auth_guard \<Rightarrow> ('m, 'v) execution_context \<Rightarrow> ('v, 'u) auth_state
       \<Rightarrow> 'v auth_principal \<Rightarrow> ('v, 'u) auth_state \<Rightarrow> bool" where
  "authorised env g ctx s p s1 \<longleftrightarrow>
     (\<exists>svc name roles scopes.
        find_auth_service env (ec_request ctx) = Inr svc
        \<and> auth_strategy_name env g svc ctx = Inr name
        \<and> auth_authenticate svc name ctx s = (Inr (Some p), s1)
        \<and> metadata_as (ae_strings env) ctx ''auth.roles'' = Inr roles
        \<and> metadata_as (ae_strings env) ctx ''auth.scopes'' = Inr scopes
        \<and> grants g roles scopes p)"

lemma step_bind_Inr_iff:
  "step_bind f k s = (Inr b, s2) \<longleftrightarrow> (\<exists>a s1. f s = (Inr a, s1) \<and> k a s1 = (Inr b, s2))"
  by (auto simp: step_bind_def split: prod.splits sum.splits)

lemma step_result_Inr_iff: "step_result r s = (Inr b, s2) \<longleftrightarrow> r = Inr b \<and> s2 = s"
  by (auto simp: step_result_def)

lemma attach_principal_ok: "fst (attach_principal p s) = Inr ()"
  by (auto simp: attach_principal_def request_set_principal_def require_auth_principal_def
      context_set_principal_def step_bind_def split: option.splits)

lemma attach_principal_iff: "attach_principal p s = (Inr u, s2) \<longleftrightarrow> s2 = snd (attach_principal p s)"
  using attach_principal_ok [of p s] by (cases "attach_principal p s") auto

lemma case_found_iff:
  "(case r of None \<Rightarrow> step_result (Inl e) | Some p \<Rightarrow> F p) s = (Inr b, s2) \<longleftrightarrow> (\<exists>p. r = Some p \<and> F p s = (Inr b, s2))"
  by (auto simp: step_result_Inr_iff split: option.split)

lemma case_check_iff:
  "(case r of None \<Rightarrow> Inr () | Some x \<Rightarrow> f x) = Inr u \<longleftrightarrow> (case r of None \<Rightarrow> True | Some x \<Rightarrow> f x = Inr ())"
  by (simp split: option.split)

lemma if_pass_iff:
  "(if c then step_result (Inr True) else F) s = (Inr b, s2) \<longleftrightarrow> (c \<and> b \<and> s2 = s) \<or> (\<not> c \<and> F s = (Inr b, s2))"
  by (auto simp: step_result_Inr_iff)

lemma auth_guard_iff:
  "auth_can_activate env g ctx s = (Inr b, s2) \<longleftrightarrow>
     b \<and> (metadata_as (ae_bool env) ctx ''auth.public'' = Inr (Some True) \<and> s2 = s
        \<or> (\<exists>x p s1. metadata_as (ae_bool env) ctx ''auth.public'' = Inr x \<and> x \<noteq> Some True
            \<and> authorised env g ctx s p s1 \<and> s2 = snd (attach_principal p s1)))"
proof (cases "metadata_as (ae_bool env) ctx ''auth.public''")
  case (Inl e)
  then show ?thesis by (simp add: auth_can_activate_def step_bind_def step_result_def)
next
  case public: (Inr x)
  show ?thesis
  proof (cases "x = Some True")
    case True
    then show ?thesis using public by (auto simp: auth_can_activate_def step_bind_def step_result_def)
  next
    case protected: False
    show ?thesis
    proof (cases "\<exists>svc name p s1. find_auth_service env (ec_request ctx) = Inr svc
        \<and> auth_strategy_name env g svc ctx = Inr name \<and> auth_authenticate svc name ctx s = (Inr (Some p), s1)")
      case False
      then show ?thesis using public protected
        by (auto simp: auth_can_activate_def authorised_def step_bind_Inr_iff step_result_Inr_iff case_found_iff)
    next
      case True
      then obtain svc name p s1 where "find_auth_service env (ec_request ctx) = Inr svc"
          "auth_strategy_name env g svc ctx = Inr name" "auth_authenticate svc name ctx s = (Inr (Some p), s1)"
        by blast
      then show ?thesis using public protected
        by (auto simp: auth_can_activate_def authorised_def grants_def step_bind_Inr_iff step_result_Inr_iff
            attach_principal_iff case_check_iff cong: option.case_cong)
    qed
  qed
qed

section \<open>A guarded route\<close>

lemma guards_loop_passes:
  "guards_loop (gs @ c # hs) cid ctx s = (Inr u, s2) \<Longrightarrow> pc_source c = Static g \<Longrightarrow> \<exists>s0 s1. g ctx s0 = (Inr True, s1)"
proof (induction gs arbitrary: s)
  case Nil
  then show ?case by (auto simp: component_resolve_def split: prod.splits sum.splits if_splits)
next
  case (Cons a gs)
  then show ?case by (auto split: prod.splits sum.splits if_splits)
qed

lemma admitted_passes_guard:
  assumes "admitted scope rd cid request s" "c \<in> set (rd_guards rd)" "pc_source c = Static g"
  shows "\<exists>r s0. middleware_loop scope rd cid (rd_middleware rd) request s = (ME_Continue r, s0)
    \<and> (\<exists>sa sb. g (route_execution_context rd r) sa = (Inr True, sb))"
proof -
  obtain gs hs where "rd_guards rd = gs @ c # hs" using assms(2) by (meson split_list)
  moreover obtain r s0 u s2 where "middleware_loop scope rd cid (rd_middleware rd) request s = (ME_Continue r, s0)"
      "guards_loop (rd_guards rd) cid (route_execution_context rd r) s0 = (Inr u, s2)"
    using assms(1) by (auto simp: admitted_def is_ok_iff split: prod.splits middleware_end.splits)
      (metis prod.collapse)
  ultimately show ?thesis using guards_loop_passes [OF _ assms(3)] by metis
qed

text \<open>
  C37. A route behind the authentication guard. Unless the route is marked public, whatever
  depends on the handler, the pipes, the validators or the interceptors of the route was
  preceded by an authentication: if replacing these parts changes the answer to a request or
  any later state, then the middleware handed on a request for which the strategy that the
  route, the guard or the service names returned an identity that has every role and every
  scope that the guard and the metadata of the route ask for.
\<close>

theorem auth_protects_route:
  assumes guard: "c \<in> set (rd_guards rd)" "pc_source c = Static (auth_can_activate env g)"
    and not_public: "bt_get (rd_metadata rd) ''auth.public'' = None"
    and differs: "call_pipeline scope (with_inner h ps vs is rd) cid request s \<noteq> call_pipeline scope rd cid request s"
  shows "\<exists>r p s0 s1 s2. middleware_loop scope rd cid (rd_middleware rd) request s = (ME_Continue r, s0)
     \<and> authorised env g (route_execution_context rd r) s1 p s2"
proof -
  have "admitted scope rd cid request s"
  proof (rule ccontr)
    assume "\<not> admitted scope rd cid request s"
    from call_pipeline_inner [OF this] differs show False by simp
  qed
  then obtain r s0 sa sb where r: "middleware_loop scope rd cid (rd_middleware rd) request s = (ME_Continue r, s0)"
      and passed: "auth_can_activate env g (route_execution_context rd r) sa = (Inr True, sb)"
    using admitted_passes_guard [OF _ guard] by metis
  have "metadata_as (ae_bool env) (route_execution_context rd r) ''auth.public'' = Inr None"
    using not_public by (simp add: metadata_as_def route_execution_context_def execution_context_new_def)
  then show ?thesis using passed r by (auto simp: auth_guard_iff)
qed

definition sample_auth_env :: "(unit, unit, unit) auth_env" where
  "sample_auth_env =
     \<lparr>ae_bool = (\<lambda>_. Inr True), ae_string = (\<lambda>_. Inr ''bearer''), ae_strings = (\<lambda>_. Inr [''write'']),
      ae_service = (\<lambda>_. Inr (snd (auth_module_init
        (auth_module_bearer (\<lambda>token _. step_result (Inr
          (if token = ''t'' then Some (with_role ''admin'' (principal_new ''ann'')) else None)))
          (auth_module_new ''auth'' :: (unit, unit, unit, unit, unit) auth_module)) auth_service_default)))\<rparr>"

definition sample_guarded_route :: "((unit, unit) auth_state, unit, unit) route_definition" where
  "sample_guarded_route =
     \<lparr>rd_method = M_Get, rd_path = ''/a'', rd_host = None,
      rd_handler = (\<lambda>_ w. (Inr (response_empty 200), w)), rd_middleware = [], rd_pipes = [],
      rd_guards = [\<lparr>pc_type_id = 0, pc_source = Static (auth_can_activate sample_auth_env (require_role ''admin'' auth_guard_new))\<rparr>],
      rd_interceptors = [], rd_filters = [],
      rd_validators = [], rd_validation_enabled = False, rd_validation_disabled = False,
      rd_validation_options = validation_options_default, rd_module_name = None,
      rd_controller_prefix = None, rd_module_ref = None, rd_versioning = Unspecified,
      rd_serialization = serialization_default, rd_metadata = []\<rparr>"

definition sample_auth_request :: "str \<Rightarrow> unit boot_request" where
  "sample_auth_request token =
     request_with_header ''authorization'' (''Bearer '' @ token) (request_new Inr M_Get ''/a'')"

definition sample_auth_state :: "(unit, unit) auth_state" where
  "sample_auth_state = \<lparr>au_request = None, au_current = None, au_cells = [], au_user = ()\<rparr>"

theorem auth_protects_route_witness:
  "\<exists>r p s0 s1 s2. middleware_loop (\<lambda>m _. m) sample_guarded_route 0 [] (sample_auth_request ''t'') sample_auth_state
       = (ME_Continue r, s0)
     \<and> authorised sample_auth_env (require_role ''admin'' auth_guard_new)
         (route_execution_context sample_guarded_route r) s1 p s2"
proof -
  let ?g = "auth_can_activate sample_auth_env (require_role ''admin'' auth_guard_new)"
  let ?c = "\<lparr>pc_type_id = 0, pc_source = Static ?g\<rparr>"
  have "?c \<in> set (rd_guards sample_guarded_route)" by (simp add: sample_guarded_route_def)
  moreover have "bt_get (rd_metadata sample_guarded_route) ''auth.public'' = None" by (simp add: sample_guarded_route_def)
  moreover have "call_pipeline (\<lambda>m _. m) (with_inner (\<lambda>_ w. (Inr (response_empty 201), w)) [] [] [] sample_guarded_route) 0
        (sample_auth_request ''t'') sample_auth_state
      \<noteq> call_pipeline (\<lambda>m _. m) sample_guarded_route 0 (sample_auth_request ''t'') sample_auth_state"
    by code_simp
  ultimately have "\<exists>r p s0 s1 s2. middleware_loop (\<lambda>m _. m) sample_guarded_route 0 (rd_middleware sample_guarded_route)
        (sample_auth_request ''t'') sample_auth_state = (ME_Continue r, s0)
      \<and> authorised sample_auth_env (require_role ''admin'' auth_guard_new)
          (route_execution_context sample_guarded_route r) s1 p s2"
    by (intro auth_protects_route [where c = ?c]) simp_all
  then show ?thesis by (simp add: sample_guarded_route_def)
qed

section \<open>The module and its service\<close>

lemma register_strategies_ok:
  "distinct (map asd_name ds) \<Longrightarrow> \<forall>d \<in> set ds. trim (asd_name d) \<noteq> [] \<and> bt_get (asv_strategies svc) (asd_name d) = None
     \<Longrightarrow> \<exists>svc2. register_strategies ds svc = (Inr (), svc2) \<and> asv_default svc2 = asv_default svc
       \<and> (\<forall>name. bt_get (asv_strategies svc2) name
            = or_else (map_option asd_strategy (List.find (\<lambda>d. asd_name d = name) ds)) (bt_get (asv_strategies svc) name))"
proof (induction ds arbitrary: svc)
  case Nil
  then show ?case by (simp add: step_result_def)
next
  case (Cons d ds)
  let ?svc = "svc\<lparr>asv_strategies := bt_insert (asd_name d) (asd_strategy d) (asv_strategies svc)\<rparr>"
  have step: "register_strategy d svc = (Inr (), ?svc)" using Cons.prems by (simp add: register_strategy_def)
  have "\<exists>svc2. register_strategies ds ?svc = (Inr (), svc2) \<and> asv_default svc2 = asv_default ?svc
      \<and> (\<forall>name. bt_get (asv_strategies svc2) name
           = or_else (map_option asd_strategy (List.find (\<lambda>d. asd_name d = name) ds)) (bt_get (asv_strategies ?svc) name))"
    using Cons.prems by (intro Cons.IH) (auto, metis imageI)
  then obtain svc2 where svc2: "register_strategies ds ?svc = (Inr (), svc2)" "asv_default svc2 = asv_default svc"
      "bt_get (asv_strategies svc2) name
           = or_else (map_option asd_strategy (List.find (\<lambda>d. asd_name d = name) ds)) (bt_get (asv_strategies ?svc) name)" for name
    by auto
  have "List.find (\<lambda>e. asd_name e = asd_name d) ds = None"
    using Cons.prems(1) by (auto simp: find_None_iff_all) (metis imageI)
  then show ?case using step svc2 by (auto simp: step_bind_def)
qed

text \<open>The module fills its service once; a second initialisation with the same service fails.\<close>

lemma auth_module_init_ok:
  assumes "distinct (map asd_name (am_strategies d))" "\<forall>s \<in> set (am_strategies d). trim (asd_name s) \<noteq> []"
  shows "\<exists>svc. auth_module_init d auth_service_default = (Inr (), svc) \<and> asv_default svc = am_default_strategy d
    \<and> (\<forall>name. bt_get (asv_strategies svc) name
          = map_option asd_strategy (List.find (\<lambda>s. asd_name s = name) (am_strategies d)))"
proof -
  let ?svc = "auth_service_new (am_default_strategy d) :: ('a, 'b, 'c) auth_service"
  have "\<exists>svc2. register_strategies (am_strategies d) ?svc = (Inr (), svc2) \<and> asv_default svc2 = asv_default ?svc
       \<and> (\<forall>name. bt_get (asv_strategies svc2) name
            = or_else (map_option asd_strategy (List.find (\<lambda>d. asd_name d = name) (am_strategies d)))
                (bt_get (asv_strategies ?svc) name))"
    using assms by (intro register_strategies_ok) (auto simp: auth_service_new_def)
  moreover have "or_else x None = x" for x :: "('a, 'b, 'c) auth_strategy option" by (cases x) simp_all
  ultimately show ?thesis
    by (auto simp: auth_module_init_def set_default_strategy_def auth_service_default_def auth_service_new_def
        step_bind_def)
qed

lemma auth_module_init_again:
  assumes "am_strategies d = s # ss" "trim (asd_name s) \<noteq> []" "bt_get (asv_strategies svc) (asd_name s) \<noteq> None"
  shows "fst (auth_module_init d svc) = Inl (Internal (''auth strategy is already registered: '' @ asd_name s))"
  using assms by (auto simp: auth_module_init_def set_default_strategy_def register_strategy_def step_bind_def)

section \<open>Contexts\<close>

lemma context_scope_restores: "au_current (snd (context_scope c f s)) = au_current s"
  by (simp add: context_scope_def split: prod.split)

lemma context_scope_current: "context_scope c (\<lambda>s1. (context_current s1, s1)) s = (Inr c, s)"
  by (simp add: context_scope_def context_current_def)

lemma set_value_exact:
  assumes "rcx_cell c < length (au_cells s)"
  shows "context_value d k (snd (set_value_raw c key v s))
      = (if rcx_cell d = rcx_cell c \<and> k = key then Some v else context_value d k s)"
  using assms by (cases "rcx_cell d = rcx_cell c") (simp_all add: context_value_def set_value_raw_def update_cell_def)

lemma from_route_request_fresh:
  "from_route_request q path m p md s = (c, s1) \<Longrightarrow>
     rcx_cell c < length (au_cells s1) \<and> context_value c k s1 = None \<and> context_principal c s1 = None
     \<and> (rcx_cell d < length (au_cells s) \<longrightarrow> context_value d k s1 = context_value d k s)"
  by (auto simp: from_route_request_def context_value_def context_principal_def nth_append)

text \<open>The guard leaves the identity with the request and with the current context, if there is one.\<close>

lemma attach_principal_exact:
  "au_request (snd (attach_principal p s)) = Some p"
  "au_current s = Some c \<Longrightarrow> rcx_cell c < length (au_cells s) \<Longrightarrow> context_principal c (snd (attach_principal p s)) = Some p"
  by (auto simp: attach_principal_def request_set_principal_def require_auth_principal_def
      context_set_principal_def context_principal_def update_cell_def step_bind_def split: option.splits)

end
