(* ===== verification/Openapi.thy ===== *)
theory Openapi
  imports Json_Data
begin

text \<open>
  \<open>src/openapi.rs\<close>, \<open>src/openapi_security.rs\<close> and \<open>src/routing/route/openapi.rs\<close>: the OpenAPI
  metadata of routes, the operations that fill it and the document of an application. A record
  is the struct, its serialized form, which serde derives, is not modelled. A schema is a JSON
  value; a value that a caller hands over for serde to encode comes with its encoder, which may
  fail. Schemas derived by \<open>schemars\<close> are values as well.
\<close>

section \<open>Information about the service\<close>

record oa_server =
  os_url :: str
  os_description :: "str option"

definition server_new :: "str \<Rightarrow> oa_server" where
  "server_new url = \<lparr>os_url = url, os_description = None\<rparr>"

definition server_with_description :: "str \<Rightarrow> oa_server \<Rightarrow> oa_server" where
  "server_with_description d sv = sv\<lparr>os_description := Some d\<rparr>"

record oa_external_docs =
  od_description :: str
  od_url :: str

definition external_docs_new :: "str \<Rightarrow> str \<Rightarrow> oa_external_docs" where
  "external_docs_new d url = \<lparr>od_description = d, od_url = url\<rparr>"

record oa_tag =
  ot_name :: str
  ot_description :: "str option"
  ot_external_docs :: "oa_external_docs option"

definition tag_new :: "str \<Rightarrow> oa_tag" where
  "tag_new name = \<lparr>ot_name = name, ot_description = None, ot_external_docs = None\<rparr>"

definition tag_with_description :: "str \<Rightarrow> oa_tag \<Rightarrow> oa_tag" where
  "tag_with_description d t = t\<lparr>ot_description := Some d\<rparr>"

definition tag_with_external_docs :: "str \<Rightarrow> str \<Rightarrow> oa_tag \<Rightarrow> oa_tag" where
  "tag_with_external_docs d url t = t\<lparr>ot_external_docs := Some (external_docs_new d url)\<rparr>"

definition tag_with_external_docs_object :: "oa_external_docs \<Rightarrow> oa_tag \<Rightarrow> oa_tag" where
  "tag_with_external_docs_object docs t = t\<lparr>ot_external_docs := Some docs\<rparr>"

record oa_info =
  oi_title :: str
  oi_version :: str
  oi_description :: "str option"
  oi_servers :: "oa_server list"
  oi_external_docs :: "oa_external_docs option"
  oi_tags :: "oa_tag list"

definition info_new :: "str \<Rightarrow> str \<Rightarrow> oa_info" where
  "info_new title version =
     \<lparr>oi_title = title, oi_version = version, oi_description = None, oi_servers = [],
      oi_external_docs = None, oi_tags = []\<rparr>"

definition info_with_description :: "str \<Rightarrow> oa_info \<Rightarrow> oa_info" where
  "info_with_description d i = i\<lparr>oi_description := Some d\<rparr>"

definition info_with_server :: "str \<Rightarrow> oa_info \<Rightarrow> oa_info" where
  "info_with_server url i = i\<lparr>oi_servers := oi_servers i @ [server_new url]\<rparr>"

definition info_with_server_description :: "str \<Rightarrow> str \<Rightarrow> oa_info \<Rightarrow> oa_info" where
  "info_with_server_description url d i =
     i\<lparr>oi_servers := oi_servers i @ [server_with_description d (server_new url)]\<rparr>"

definition info_with_external_docs :: "str \<Rightarrow> str \<Rightarrow> oa_info \<Rightarrow> oa_info" where
  "info_with_external_docs d url i = i\<lparr>oi_external_docs := Some (external_docs_new d url)\<rparr>"

text \<open>\<open>iter_mut().find(p)\<close> with an update of the element found.\<close>

fun update_first :: "('a \<Rightarrow> bool) \<Rightarrow> ('a \<Rightarrow> 'a) \<Rightarrow> 'a list \<Rightarrow> 'a list" where
  "update_first p f [] = []"
| "update_first p f (x # xs) = (if p x then f x # xs else x # update_first p f xs)"

definition info_with_tag_description :: "str \<Rightarrow> str \<Rightarrow> oa_info \<Rightarrow> oa_info" where
  "info_with_tag_description name d i =
     (let tag = tag_with_description d (tag_new name) in
      if list_ex (\<lambda>t. ot_name t = name) (oi_tags i)
      then i\<lparr>oi_tags := update_first (\<lambda>t. ot_name t = name) (\<lambda>_. tag) (oi_tags i)\<rparr>
      else i\<lparr>oi_tags := oi_tags i @ [tag]\<rparr>)"

definition info_with_tag_external_docs :: "str \<Rightarrow> str \<Rightarrow> str \<Rightarrow> oa_info \<Rightarrow> oa_info" where
  "info_with_tag_external_docs name d url i =
     (let docs = external_docs_new d url in
      if list_ex (\<lambda>t. ot_name t = name) (oi_tags i)
      then i\<lparr>oi_tags := update_first (\<lambda>t. ot_name t = name) (\<lambda>t. t\<lparr>ot_external_docs := Some docs\<rparr>) (oi_tags i)\<rparr>
      else i\<lparr>oi_tags := oi_tags i @ [tag_with_external_docs_object docs (tag_new name)]\<rparr>)"

section \<open>References\<close>

datatype oa_parameter_location = Loc_Path | Loc_Query | Loc_Header | Loc_Cookie

record oa_ref =
  orf_reference :: str
  orf_location :: "oa_parameter_location option"
  orf_name :: "str option"

definition ref_new :: "str \<Rightarrow> oa_ref" where
  "ref_new reference = \<lparr>orf_reference = reference, orf_location = None, orf_name = None\<rparr>"

definition replace_byte :: "char \<Rightarrow> str \<Rightarrow> str \<Rightarrow> str" where
  "replace_byte c r s = concat (map (\<lambda>x. if x = c then r else [x]) s)"

definition escape_openapi_component_name :: "str \<Rightarrow> str" where
  "escape_openapi_component_name name = replace_byte (CHR ''/'') ''~1'' (replace_byte (CHR ''~'') ''~0'' name)"

definition ref_component :: "str \<Rightarrow> str \<Rightarrow> oa_ref" where
  "ref_component component name =
     ref_new (''#/components/'' @ component @ ''/'' @ escape_openapi_component_name name)"

definition ref_schema :: "str \<Rightarrow> oa_ref" where "ref_schema name = ref_component ''schemas'' name"
definition ref_response :: "str \<Rightarrow> oa_ref" where "ref_response name = ref_component ''responses'' name"
definition ref_parameter :: "str \<Rightarrow> oa_ref" where "ref_parameter name = ref_component ''parameters'' name"
definition ref_example :: "str \<Rightarrow> oa_ref" where "ref_example name = ref_component ''examples'' name"
definition ref_request_body :: "str \<Rightarrow> oa_ref" where "ref_request_body name = ref_component ''requestBodies'' name"
definition ref_header :: "str \<Rightarrow> oa_ref" where "ref_header name = ref_component ''headers'' name"
definition ref_security_scheme :: "str \<Rightarrow> oa_ref" where "ref_security_scheme name = ref_component ''securitySchemes'' name"

definition with_parameter_metadata :: "oa_parameter_location \<Rightarrow> str \<Rightarrow> oa_ref \<Rightarrow> oa_ref" where
  "with_parameter_metadata location name r = r\<lparr>orf_location := Some location, orf_name := Some name\<rparr>"

definition ref_parameter_identity :: "oa_ref \<Rightarrow> (oa_parameter_location \<times> str) option" where
  "ref_parameter_identity r =
     Option.bind (orf_location r) (\<lambda>location. map_option (\<lambda>name. (location, name)) (orf_name r))"

datatype 'a reference_or = OA_Reference oa_ref | OA_Value 'a

section \<open>Schemas\<close>

type_synonym oa_schema = json

text \<open>\<open>json!({...})\<close>: an object has its keys in sorted order.\<close>

definition jobject :: "(str \<times> json) list \<Rightarrow> json" where
  "jobject ps = JObject (bt_of_list ps)"

definition schema_typed :: "str \<Rightarrow> oa_schema" where
  "schema_typed t = jobject [(''type'', JString t)]"

definition schema_string :: oa_schema where "schema_string = schema_typed ''string''"
definition schema_integer :: oa_schema where "schema_integer = schema_typed ''integer''"
definition schema_number :: oa_schema where "schema_number = schema_typed ''number''"
definition schema_boolean :: oa_schema where "schema_boolean = schema_typed ''boolean''"
definition schema_object :: oa_schema where "schema_object = schema_typed ''object''"

definition schema_array :: "oa_schema \<Rightarrow> oa_schema" where
  "schema_array items = jobject [(''type'', JString ''array''), (''items'', items)]"

definition schema_string_enum :: "str list \<Rightarrow> oa_schema" where
  "schema_string_enum values = jobject [(''type'', JString ''string''), (''enum'', JArray (map JString values))]"

definition schema_binary_file :: oa_schema where
  "schema_binary_file = jobject [(''type'', JString ''string''), (''format'', JString ''binary'')]"

definition schema_composition :: "str \<Rightarrow> oa_schema list \<Rightarrow> json" where
  "schema_composition knd schemas = JObject [(knd, JArray schemas)]"

definition schema_all_of :: "oa_schema list \<Rightarrow> oa_schema" where "schema_all_of ss = schema_composition ''allOf'' ss"
definition schema_one_of :: "oa_schema list \<Rightarrow> oa_schema" where "schema_one_of ss = schema_composition ''oneOf'' ss"
definition schema_any_of :: "oa_schema list \<Rightarrow> oa_schema" where "schema_any_of ss = schema_composition ''anyOf'' ss"

definition schema_object_with_properties :: "(str \<times> oa_schema) list \<Rightarrow> str list \<Rightarrow> oa_schema" where
  "schema_object_with_properties properties required =
     (let base = [(''type'', JString ''object''), (''properties'', JObject (bt_of_list properties))] in
      if required = [] then jobject base
      else jobject (base @ [(''required'', JArray (map JString required))]))"

definition insert_schema_field :: "str \<Rightarrow> json \<Rightarrow> json \<Rightarrow> json" where
  "insert_schema_field key v schema =
     (case schema of JObject fds \<Rightarrow> JObject (bt_insert key v fds) | _ \<Rightarrow> JObject [(key, v)])"

definition schema_with_title :: "str \<Rightarrow> oa_schema \<Rightarrow> oa_schema" where
  "schema_with_title t = insert_schema_field ''title'' (JString t)"

definition schema_with_description :: "str \<Rightarrow> oa_schema \<Rightarrow> oa_schema" where
  "schema_with_description d = insert_schema_field ''description'' (JString d)"

definition schema_with_format :: "str \<Rightarrow> oa_schema \<Rightarrow> oa_schema" where
  "schema_with_format f = insert_schema_field ''format'' (JString f)"

definition schema_nullable :: "oa_schema \<Rightarrow> oa_schema" where
  "schema_nullable = insert_schema_field ''nullable'' (JBool True)"

text \<open>The object of the schema after \<open>ensure_object_schema\<close>, which always succeeds.\<close>

definition ensure_object_schema :: "json \<Rightarrow> (str \<times> json) list" where
  "ensure_object_schema schema =
     (let fds = (case schema of JObject fds \<Rightarrow> fds | _ \<Rightarrow> [(''type'', JString ''object'')]) in
      if bt_get fds ''type'' = None then bt_insert ''type'' (JString ''object'') fds else fds)"

definition schema_with_property :: "str \<Rightarrow> oa_schema \<Rightarrow> oa_schema \<Rightarrow> oa_schema" where
  "schema_with_property name s schema =
     (let fds = ensure_object_schema schema;
          properties = (case bt_get fds ''properties'' of Some (JObject ps) \<Rightarrow> ps | _ \<Rightarrow> [])
      in JObject (bt_insert ''properties'' (JObject (bt_insert name s properties)) fds))"

definition schema_with_required :: "str \<Rightarrow> oa_schema \<Rightarrow> oa_schema" where
  "schema_with_required name schema =
     (let fds = ensure_object_schema schema;
          required = (case bt_get fds ''required'' of Some (JArray rs) \<Rightarrow> rs | _ \<Rightarrow> [])
      in JObject (bt_insert ''required''
           (JArray (if List.member required (JString name) then required else required @ [JString name])) fds))"

definition schema_with_additional_properties :: "oa_schema \<Rightarrow> oa_schema \<Rightarrow> oa_schema" where
  "schema_with_additional_properties s schema =
     insert_schema_field ''additionalProperties'' s (JObject (ensure_object_schema schema))"

definition schema_with_discriminator :: "str \<Rightarrow> oa_schema \<Rightarrow> oa_schema" where
  "schema_with_discriminator property_name =
     insert_schema_field ''discriminator'' (jobject [(''propertyName'', JString property_name)])"

definition schema_with_discriminator_mapping :: "str \<Rightarrow> (str \<times> str) list \<Rightarrow> oa_schema \<Rightarrow> oa_schema" where
  "schema_with_discriminator_mapping property_name mapping =
     insert_schema_field ''discriminator''
       (jobject [(''propertyName'', JString property_name),
                 (''mapping'', JObject (bt_of_list (map (\<lambda>(k, v). (k, JString v)) mapping)))])"

definition schema_with_extension_value :: "str \<Rightarrow> json \<Rightarrow> oa_schema \<Rightarrow> oa_schema" where
  "schema_with_extension_value name v = insert_schema_field name v"

definition schema_try_with_extension :: "('a \<Rightarrow> str + json) \<Rightarrow> str \<Rightarrow> 'a \<Rightarrow> oa_schema \<Rightarrow> oa_schema result" where
  "schema_try_with_extension enc name a schema =
     (case enc a of
        Inl e \<Rightarrow> Inl (Internal (''OpenAPI extension could not be serialized: '' @ e))
      | Inr v \<Rightarrow> Inr (schema_with_extension_value name v schema))"

definition remove_schema_required :: "json \<Rightarrow> json" where
  "remove_schema_required schema =
     (case schema of JObject fds \<Rightarrow> JObject (bt_remove ''required'' fds) | _ \<Rightarrow> schema)"

definition schema_partial :: "oa_schema \<Rightarrow> oa_schema" where
  "schema_partial = remove_schema_required"

definition retain_required :: "str list \<Rightarrow> bool \<Rightarrow> json list \<Rightarrow> json list" where
  "retain_required names keep_matches required =
     filter (\<lambda>v. case v of JString name \<Rightarrow> List.member names name = keep_matches | _ \<Rightarrow> False) required"

definition retain_schema_properties :: "json \<Rightarrow> str list \<Rightarrow> bool \<Rightarrow> json" where
  "retain_schema_properties schema names keep_matches =
     (case schema of
        JObject fds \<Rightarrow>
          (let fds1 = (case bt_get fds ''properties'' of
                 Some (JObject ps) \<Rightarrow>
                   bt_insert ''properties'' (JObject (filter (\<lambda>(name, _). List.member names name = keep_matches) ps)) fds
               | _ \<Rightarrow> fds)
           in JObject (case bt_get fds1 ''required'' of
                 Some (JArray required) \<Rightarrow>
                   (let kept = retain_required names keep_matches required in
                    if kept = [] then bt_remove ''required'' fds1 else bt_insert ''required'' (JArray kept) fds1)
               | _ \<Rightarrow> fds1))
      | _ \<Rightarrow> schema)"

definition schema_pick_properties :: "str list \<Rightarrow> oa_schema \<Rightarrow> oa_schema" where
  "schema_pick_properties names schema = retain_schema_properties schema (bs_of_list names) True"

definition schema_omit_properties :: "str list \<Rightarrow> oa_schema \<Rightarrow> oa_schema" where
  "schema_omit_properties names schema = retain_schema_properties schema (bs_of_list names) False"

definition schema_reference :: "str \<Rightarrow> oa_schema" where
  "schema_reference name = jobject [(''$ref'', JString (orf_reference (ref_schema name)))]"

text \<open>The part of a type name behind its last \<open>::\<close>.\<close>

fun behind_colons :: "str \<Rightarrow> str option" where
  "behind_colons [] = None"
| "behind_colons (c # s) =
     (case behind_colons s of
        Some r \<Rightarrow> Some r
      | None \<Rightarrow> if starts_with ''::'' (c # s) then Some (tl s) else None)"

definition openapi_schema_name :: "str \<Rightarrow> str" where
  "openapi_schema_name type_name = (case behind_colons type_name of Some r \<Rightarrow> r | None \<Rightarrow> type_name)"

section \<open>Examples and media types\<close>

record oa_example =
  oe_summary :: "str option"
  oe_description :: "str option"
  oe_value :: json

definition serialize_openapi_example :: "('a \<Rightarrow> str + json) \<Rightarrow> 'a \<Rightarrow> json result" where
  "serialize_openapi_example enc a =
     (case enc a of
        Inl e \<Rightarrow> Inl (Internal (''OpenAPI example could not be serialized: '' @ e))
      | Inr v \<Rightarrow> Inr v)"

definition example_value :: "json \<Rightarrow> oa_example" where
  "example_value v = \<lparr>oe_summary = None, oe_description = None, oe_value = v\<rparr>"

definition example_try_value :: "('a \<Rightarrow> str + json) \<Rightarrow> 'a \<Rightarrow> oa_example result" where
  "example_try_value enc a = rmap example_value (serialize_openapi_example enc a)"

definition example_with_summary :: "str \<Rightarrow> oa_example \<Rightarrow> oa_example" where
  "example_with_summary t e = e\<lparr>oe_summary := Some t\<rparr>"

definition example_with_description :: "str \<Rightarrow> oa_example \<Rightarrow> oa_example" where
  "example_with_description d e = e\<lparr>oe_description := Some d\<rparr>"

type_synonym oa_examples = "(str, oa_example reference_or) btree"

record oa_media_type =
  om_schema :: oa_schema
  om_example :: "json option"
  om_examples :: oa_examples

definition media_new :: "oa_schema \<Rightarrow> oa_media_type" where
  "media_new schema = \<lparr>om_schema = schema, om_example = None, om_examples = []\<rparr>"

definition media_with_example_value :: "json \<Rightarrow> oa_media_type \<Rightarrow> oa_media_type" where
  "media_with_example_value v m = m\<lparr>om_example := Some v, om_examples := []\<rparr>"

definition media_try_with_example :: "('a \<Rightarrow> str + json) \<Rightarrow> 'a \<Rightarrow> oa_media_type \<Rightarrow> oa_media_type result" where
  "media_try_with_example enc a m = rmap (\<lambda>v. media_with_example_value v m) (serialize_openapi_example enc a)"

definition media_with_named_example_value :: "str \<Rightarrow> oa_example \<Rightarrow> oa_media_type \<Rightarrow> oa_media_type" where
  "media_with_named_example_value name e m =
     m\<lparr>om_example := None, om_examples := bt_insert name (OA_Value e) (om_examples m)\<rparr>"

definition media_with_named_example_ref :: "str \<Rightarrow> str \<Rightarrow> oa_media_type \<Rightarrow> oa_media_type" where
  "media_with_named_example_ref name component m =
     m\<lparr>om_example := None, om_examples := bt_insert name (OA_Reference (ref_example component)) (om_examples m)\<rparr>"

definition media_try_with_named_example :: "('a \<Rightarrow> str + json) \<Rightarrow> str \<Rightarrow> 'a \<Rightarrow> oa_media_type \<Rightarrow> oa_media_type result" where
  "media_try_with_named_example enc name a m =
     rmap (\<lambda>e. media_with_named_example_value name e m) (example_try_value enc a)"

definition media_try_insert_example :: "('a \<Rightarrow> str + json) \<Rightarrow> str \<Rightarrow> 'a \<Rightarrow> oa_media_type \<Rightarrow> oa_media_type result" where
  "media_try_insert_example enc name a m =
     rmap (\<lambda>e. m\<lparr>om_example := None, om_examples := bt_insert name (OA_Value e) (om_examples m)\<rparr>)
       (example_try_value enc a)"

definition media_insert_example_ref :: "str \<Rightarrow> str \<Rightarrow> oa_media_type \<Rightarrow> oa_media_type" where
  "media_insert_example_ref name component m =
     m\<lparr>om_example := None, om_examples := bt_insert name (OA_Reference (ref_example component)) (om_examples m)\<rparr>"

text \<open>The content of a body: media types by content type. \<open>content_entry\<close> is \<open>entry(..).or_insert_with\<close>.\<close>

type_synonym oa_content = "(str, oa_media_type) btree"

definition content_entry :: "str \<Rightarrow> oa_content \<Rightarrow> oa_media_type" where
  "content_entry content_type content =
     (case bt_get content content_type of Some m \<Rightarrow> m | None \<Rightarrow> media_new schema_object)"

definition content_try_example ::
    "('a \<Rightarrow> str + json) \<Rightarrow> str \<Rightarrow> 'a \<Rightarrow> oa_content \<Rightarrow> oa_content result" where
  "content_try_example enc content_type a content =
     rmap (\<lambda>v. bt_insert content_type ((content_entry content_type content)\<lparr>om_example := Some v, om_examples := []\<rparr>) content)
       (serialize_openapi_example enc a)"

definition content_try_named_example ::
    "('a \<Rightarrow> str + json) \<Rightarrow> str \<Rightarrow> str \<Rightarrow> 'a \<Rightarrow> oa_content \<Rightarrow> oa_content result" where
  "content_try_named_example enc content_type name a content =
     rmap (\<lambda>m. bt_insert content_type m content)
       (media_try_insert_example enc name a (content_entry content_type content))"

definition content_named_example_ref :: "str \<Rightarrow> str \<Rightarrow> str \<Rightarrow> oa_content \<Rightarrow> oa_content" where
  "content_named_example_ref content_type name component content =
     bt_insert content_type (media_insert_example_ref name component (content_entry content_type content)) content"

section \<open>Parameters, bodies, headers and responses\<close>

record oa_parameter =
  opm_name :: str
  opm_location :: oa_parameter_location
  opm_required :: bool
  opm_schema :: oa_schema
  opm_description :: "str option"
  opm_deprecated :: bool
  opm_allow_reserved :: bool
  opm_style :: "str option"
  opm_explode :: "bool option"
  opm_example :: "json option"
  opm_examples :: oa_examples

definition parameter_new :: "oa_parameter_location \<Rightarrow> str \<Rightarrow> bool \<Rightarrow> oa_schema \<Rightarrow> oa_parameter" where
  "parameter_new location name required schema =
     \<lparr>opm_name = name, opm_location = location, opm_required = required, opm_schema = schema,
      opm_description = None, opm_deprecated = False, opm_allow_reserved = False, opm_style = None,
      opm_explode = None, opm_example = None, opm_examples = []\<rparr>"

definition parameter_path :: "str \<Rightarrow> oa_schema \<Rightarrow> oa_parameter" where
  "parameter_path name schema = parameter_new Loc_Path name True schema"

definition parameter_query :: "str \<Rightarrow> bool \<Rightarrow> oa_schema \<Rightarrow> oa_parameter" where
  "parameter_query name required schema = parameter_new Loc_Query name required schema"

definition parameter_header :: "str \<Rightarrow> bool \<Rightarrow> oa_schema \<Rightarrow> oa_parameter" where
  "parameter_header name required schema = parameter_new Loc_Header name required schema"

definition parameter_cookie :: "str \<Rightarrow> bool \<Rightarrow> oa_schema \<Rightarrow> oa_parameter" where
  "parameter_cookie name required schema = parameter_new Loc_Cookie name required schema"

definition parameter_with_description :: "str \<Rightarrow> oa_parameter \<Rightarrow> oa_parameter" where
  "parameter_with_description d p = p\<lparr>opm_description := Some d\<rparr>"

definition parameter_with_deprecated :: "oa_parameter \<Rightarrow> oa_parameter" where
  "parameter_with_deprecated p = p\<lparr>opm_deprecated := True\<rparr>"

definition parameter_with_allow_reserved :: "oa_parameter \<Rightarrow> oa_parameter" where
  "parameter_with_allow_reserved p = p\<lparr>opm_allow_reserved := True\<rparr>"

definition parameter_with_style :: "str \<Rightarrow> oa_parameter \<Rightarrow> oa_parameter" where
  "parameter_with_style t p = p\<lparr>opm_style := Some t\<rparr>"

definition parameter_with_explode :: "bool \<Rightarrow> oa_parameter \<Rightarrow> oa_parameter" where
  "parameter_with_explode b p = p\<lparr>opm_explode := Some b\<rparr>"

definition parameter_with_example_value :: "json \<Rightarrow> oa_parameter \<Rightarrow> oa_parameter" where
  "parameter_with_example_value v p = p\<lparr>opm_example := Some v, opm_examples := []\<rparr>"

definition parameter_try_with_example :: "('a \<Rightarrow> str + json) \<Rightarrow> 'a \<Rightarrow> oa_parameter \<Rightarrow> oa_parameter result" where
  "parameter_try_with_example enc a p = rmap (\<lambda>v. parameter_with_example_value v p) (serialize_openapi_example enc a)"

definition parameter_with_named_example_value :: "str \<Rightarrow> oa_example \<Rightarrow> oa_parameter \<Rightarrow> oa_parameter" where
  "parameter_with_named_example_value name e p =
     p\<lparr>opm_example := None, opm_examples := bt_insert name (OA_Value e) (opm_examples p)\<rparr>"

definition parameter_try_with_named_example ::
    "('a \<Rightarrow> str + json) \<Rightarrow> str \<Rightarrow> 'a \<Rightarrow> oa_parameter \<Rightarrow> oa_parameter result" where
  "parameter_try_with_named_example enc name a p =
     rmap (\<lambda>e. parameter_with_named_example_value name e p) (example_try_value enc a)"

definition parameter_with_named_example_ref :: "str \<Rightarrow> str \<Rightarrow> oa_parameter \<Rightarrow> oa_parameter" where
  "parameter_with_named_example_ref name component p =
     p\<lparr>opm_example := None, opm_examples := bt_insert name (OA_Reference (ref_example component)) (opm_examples p)\<rparr>"

definition parameter_identity :: "oa_parameter reference_or \<Rightarrow> (oa_parameter_location \<times> str) option" where
  "parameter_identity r =
     (case r of
        OA_Reference reference \<Rightarrow> ref_parameter_identity reference
      | OA_Value p \<Rightarrow> Some (opm_location p, opm_name p))"

record oa_request_body =
  orb_description :: "str option"
  orb_required :: bool
  orb_content :: oa_content

definition body_content :: "str \<Rightarrow> oa_schema \<Rightarrow> oa_request_body" where
  "body_content content_type schema =
     \<lparr>orb_description = None, orb_required = True, orb_content = [(content_type, media_new schema)]\<rparr>"

definition body_json :: "oa_schema \<Rightarrow> oa_request_body" where
  "body_json schema = body_content ''application/json'' schema"

definition body_with_description :: "str \<Rightarrow> oa_request_body \<Rightarrow> oa_request_body" where
  "body_with_description d b = b\<lparr>orb_description := Some d\<rparr>"

definition body_optional :: "oa_request_body \<Rightarrow> oa_request_body" where
  "body_optional b = b\<lparr>orb_required := False\<rparr>"

definition body_try_with_content_example ::
    "('a \<Rightarrow> str + json) \<Rightarrow> str \<Rightarrow> 'a \<Rightarrow> oa_request_body \<Rightarrow> oa_request_body result" where
  "body_try_with_content_example enc content_type a b =
     rmap (\<lambda>c. b\<lparr>orb_content := c\<rparr>) (content_try_example enc content_type a (orb_content b))"

definition body_try_with_content_named_example ::
    "('a \<Rightarrow> str + json) \<Rightarrow> str \<Rightarrow> str \<Rightarrow> 'a \<Rightarrow> oa_request_body \<Rightarrow> oa_request_body result" where
  "body_try_with_content_named_example enc content_type name a b =
     rmap (\<lambda>c. b\<lparr>orb_content := c\<rparr>) (content_try_named_example enc content_type name a (orb_content b))"

definition body_with_content_named_example_ref :: "str \<Rightarrow> str \<Rightarrow> str \<Rightarrow> oa_request_body \<Rightarrow> oa_request_body" where
  "body_with_content_named_example_ref content_type name component b =
     b\<lparr>orb_content := content_named_example_ref content_type name component (orb_content b)\<rparr>"

definition body_try_with_json_example :: "('a \<Rightarrow> str + json) \<Rightarrow> 'a \<Rightarrow> oa_request_body \<Rightarrow> oa_request_body result" where
  "body_try_with_json_example enc a b = body_try_with_content_example enc ''application/json'' a b"

definition body_try_with_json_named_example ::
    "('a \<Rightarrow> str + json) \<Rightarrow> str \<Rightarrow> 'a \<Rightarrow> oa_request_body \<Rightarrow> oa_request_body result" where
  "body_try_with_json_named_example enc name a b = body_try_with_content_named_example enc ''application/json'' name a b"

definition body_with_json_named_example_ref :: "str \<Rightarrow> str \<Rightarrow> oa_request_body \<Rightarrow> oa_request_body" where
  "body_with_json_named_example_ref name component b =
     body_with_content_named_example_ref ''application/json'' name component b"

definition body_try_content_example :: "('a \<Rightarrow> str + json) \<Rightarrow> str \<Rightarrow> oa_schema \<Rightarrow> 'a \<Rightarrow> oa_request_body result" where
  "body_try_content_example enc content_type schema a =
     body_try_with_content_example enc content_type a (body_content content_type schema)"

definition body_try_json_example :: "('a \<Rightarrow> str + json) \<Rightarrow> oa_schema \<Rightarrow> 'a \<Rightarrow> oa_request_body result" where
  "body_try_json_example enc schema a = body_try_with_json_example enc a (body_json schema)"

record oa_header =
  ohd_schema :: oa_schema
  ohd_description :: "str option"

definition header_new :: "oa_schema \<Rightarrow> oa_header" where
  "header_new schema = \<lparr>ohd_schema = schema, ohd_description = None\<rparr>"

definition header_with_description :: "str \<Rightarrow> oa_header \<Rightarrow> oa_header" where
  "header_with_description d h = h\<lparr>ohd_description := Some d\<rparr>"

record oa_response =
  ors_description :: str
  ors_headers :: "(str, oa_header reference_or) btree"
  ors_content :: oa_content

definition response_description :: "str \<Rightarrow> oa_response" where
  "response_description d = \<lparr>ors_description = d, ors_headers = [], ors_content = []\<rparr>"

definition response_content :: "str \<Rightarrow> str \<Rightarrow> oa_schema \<Rightarrow> oa_response" where
  "response_content d content_type schema =
     \<lparr>ors_description = d, ors_headers = [], ors_content = [(content_type, media_new schema)]\<rparr>"

definition oa_response_json :: "str \<Rightarrow> oa_schema \<Rightarrow> oa_response" where
  "oa_response_json d schema = response_content d ''application/json'' schema"

definition response_try_with_content_example ::
    "('a \<Rightarrow> str + json) \<Rightarrow> str \<Rightarrow> 'a \<Rightarrow> oa_response \<Rightarrow> oa_response result" where
  "response_try_with_content_example enc content_type a r =
     rmap (\<lambda>c. r\<lparr>ors_content := c\<rparr>) (content_try_example enc content_type a (ors_content r))"

definition response_try_with_content_named_example ::
    "('a \<Rightarrow> str + json) \<Rightarrow> str \<Rightarrow> str \<Rightarrow> 'a \<Rightarrow> oa_response \<Rightarrow> oa_response result" where
  "response_try_with_content_named_example enc content_type name a r =
     rmap (\<lambda>c. r\<lparr>ors_content := c\<rparr>) (content_try_named_example enc content_type name a (ors_content r))"

definition response_with_content_named_example_ref :: "str \<Rightarrow> str \<Rightarrow> str \<Rightarrow> oa_response \<Rightarrow> oa_response" where
  "response_with_content_named_example_ref content_type name component r =
     r\<lparr>ors_content := content_named_example_ref content_type name component (ors_content r)\<rparr>"

definition response_try_with_json_example :: "('a \<Rightarrow> str + json) \<Rightarrow> 'a \<Rightarrow> oa_response \<Rightarrow> oa_response result" where
  "response_try_with_json_example enc a r = response_try_with_content_example enc ''application/json'' a r"

definition response_try_with_json_named_example ::
    "('a \<Rightarrow> str + json) \<Rightarrow> str \<Rightarrow> 'a \<Rightarrow> oa_response \<Rightarrow> oa_response result" where
  "response_try_with_json_named_example enc name a r =
     response_try_with_content_named_example enc ''application/json'' name a r"

definition response_with_json_named_example_ref :: "str \<Rightarrow> str \<Rightarrow> oa_response \<Rightarrow> oa_response" where
  "response_with_json_named_example_ref name component r =
     response_with_content_named_example_ref ''application/json'' name component r"

definition response_try_content_example ::
    "('a \<Rightarrow> str + json) \<Rightarrow> str \<Rightarrow> str \<Rightarrow> oa_schema \<Rightarrow> 'a \<Rightarrow> oa_response result" where
  "response_try_content_example enc d content_type schema a =
     response_try_with_content_example enc content_type a (response_content d content_type schema)"

definition response_try_json_example :: "('a \<Rightarrow> str + json) \<Rightarrow> str \<Rightarrow> oa_schema \<Rightarrow> 'a \<Rightarrow> oa_response result" where
  "response_try_json_example enc d schema a = response_try_with_json_example enc a (oa_response_json d schema)"

definition oa_response_with_header :: "str \<Rightarrow> oa_header \<Rightarrow> oa_response \<Rightarrow> oa_response" where
  "oa_response_with_header name h r = r\<lparr>ors_headers := bt_insert name (OA_Value h) (ors_headers r)\<rparr>"

definition oa_response_with_header_ref :: "str \<Rightarrow> str \<Rightarrow> oa_response \<Rightarrow> oa_response" where
  "oa_response_with_header_ref name component r =
     r\<lparr>ors_headers := bt_insert name (OA_Reference (ref_header component)) (ors_headers r)\<rparr>"

section \<open>Security schemes\<close>

datatype oa_key_location = Key_Query | Key_Header | Key_Cookie

record oa_oauth_flow =
  of_authorization_url :: "str option"
  of_token_url :: "str option"
  of_refresh_url :: "str option"
  of_scopes :: "(str, str) btree"

definition oauth_scopes :: "(str \<times> str) list \<Rightarrow> (str, str) btree" where
  "oauth_scopes scopes = bt_of_list scopes"

definition flow_implicit :: "str \<Rightarrow> (str \<times> str) list \<Rightarrow> oa_oauth_flow" where
  "flow_implicit url scopes =
     \<lparr>of_authorization_url = Some url, of_token_url = None, of_refresh_url = None, of_scopes = oauth_scopes scopes\<rparr>"

definition flow_password :: "str \<Rightarrow> (str \<times> str) list \<Rightarrow> oa_oauth_flow" where
  "flow_password url scopes =
     \<lparr>of_authorization_url = None, of_token_url = Some url, of_refresh_url = None, of_scopes = oauth_scopes scopes\<rparr>"

definition flow_client_credentials :: "str \<Rightarrow> (str \<times> str) list \<Rightarrow> oa_oauth_flow" where
  "flow_client_credentials url scopes =
     \<lparr>of_authorization_url = None, of_token_url = Some url, of_refresh_url = None, of_scopes = oauth_scopes scopes\<rparr>"

definition flow_authorization_code :: "str \<Rightarrow> str \<Rightarrow> (str \<times> str) list \<Rightarrow> oa_oauth_flow" where
  "flow_authorization_code authorization_url token_url scopes =
     \<lparr>of_authorization_url = Some authorization_url, of_token_url = Some token_url, of_refresh_url = None,
      of_scopes = oauth_scopes scopes\<rparr>"

definition flow_with_refresh_url :: "str \<Rightarrow> oa_oauth_flow \<Rightarrow> oa_oauth_flow" where
  "flow_with_refresh_url url f = f\<lparr>of_refresh_url := Some url\<rparr>"

record oa_oauth_flows =
  ofl_implicit :: "oa_oauth_flow option"
  ofl_password :: "oa_oauth_flow option"
  ofl_client_credentials :: "oa_oauth_flow option"
  ofl_authorization_code :: "oa_oauth_flow option"

definition flows_new :: oa_oauth_flows where
  "flows_new = \<lparr>ofl_implicit = None, ofl_password = None, ofl_client_credentials = None, ofl_authorization_code = None\<rparr>"

definition with_implicit_flow :: "oa_oauth_flow \<Rightarrow> oa_oauth_flows \<Rightarrow> oa_oauth_flows" where
  "with_implicit_flow f fs = fs\<lparr>ofl_implicit := Some f\<rparr>"

definition with_password_flow :: "oa_oauth_flow \<Rightarrow> oa_oauth_flows \<Rightarrow> oa_oauth_flows" where
  "with_password_flow f fs = fs\<lparr>ofl_password := Some f\<rparr>"

definition with_client_credentials_flow :: "oa_oauth_flow \<Rightarrow> oa_oauth_flows \<Rightarrow> oa_oauth_flows" where
  "with_client_credentials_flow f fs = fs\<lparr>ofl_client_credentials := Some f\<rparr>"

definition with_authorization_code_flow :: "oa_oauth_flow \<Rightarrow> oa_oauth_flows \<Rightarrow> oa_oauth_flows" where
  "with_authorization_code_flow f fs = fs\<lparr>ofl_authorization_code := Some f\<rparr>"

definition flows_implicit :: "str \<Rightarrow> (str \<times> str) list \<Rightarrow> oa_oauth_flows" where
  "flows_implicit url scopes = with_implicit_flow (flow_implicit url scopes) flows_new"

definition flows_password :: "str \<Rightarrow> (str \<times> str) list \<Rightarrow> oa_oauth_flows" where
  "flows_password url scopes = with_password_flow (flow_password url scopes) flows_new"

definition flows_client_credentials :: "str \<Rightarrow> (str \<times> str) list \<Rightarrow> oa_oauth_flows" where
  "flows_client_credentials url scopes = with_client_credentials_flow (flow_client_credentials url scopes) flows_new"

definition flows_authorization_code :: "str \<Rightarrow> str \<Rightarrow> (str \<times> str) list \<Rightarrow> oa_oauth_flows" where
  "flows_authorization_code authorization_url token_url scopes =
     with_authorization_code_flow (flow_authorization_code authorization_url token_url scopes) flows_new"

record oa_security_scheme =
  oss_ty :: str
  oss_scheme :: "str option"
  oss_bearer_format :: "str option"
  oss_location :: "oa_key_location option"
  oss_name :: "str option"
  oss_description :: "str option"
  oss_flows :: "oa_oauth_flows option"
  oss_open_id_connect_url :: "str option"

definition scheme_http_bearer :: oa_security_scheme where
  "scheme_http_bearer =
     \<lparr>oss_ty = ''http'', oss_scheme = Some ''bearer'', oss_bearer_format = Some ''JWT'', oss_location = None,
      oss_name = None, oss_description = None, oss_flows = None, oss_open_id_connect_url = None\<rparr>"

definition scheme_api_key :: "oa_key_location \<Rightarrow> str \<Rightarrow> oa_security_scheme" where
  "scheme_api_key location name =
     \<lparr>oss_ty = ''apiKey'', oss_scheme = None, oss_bearer_format = None, oss_location = Some location,
      oss_name = Some name, oss_description = None, oss_flows = None, oss_open_id_connect_url = None\<rparr>"

definition scheme_api_key_header :: "str \<Rightarrow> oa_security_scheme" where
  "scheme_api_key_header name = scheme_api_key Key_Header name"

definition scheme_api_key_query :: "str \<Rightarrow> oa_security_scheme" where
  "scheme_api_key_query name = scheme_api_key Key_Query name"

definition scheme_api_key_cookie :: "str \<Rightarrow> oa_security_scheme" where
  "scheme_api_key_cookie name = scheme_api_key Key_Cookie name"

definition scheme_oauth2 :: "oa_oauth_flows \<Rightarrow> oa_security_scheme" where
  "scheme_oauth2 flows =
     \<lparr>oss_ty = ''oauth2'', oss_scheme = None, oss_bearer_format = None, oss_location = None,
      oss_name = None, oss_description = None, oss_flows = Some flows, oss_open_id_connect_url = None\<rparr>"

definition scheme_open_id_connect :: "str \<Rightarrow> oa_security_scheme" where
  "scheme_open_id_connect url =
     \<lparr>oss_ty = ''openIdConnect'', oss_scheme = None, oss_bearer_format = None, oss_location = None,
      oss_name = None, oss_description = None, oss_flows = None, oss_open_id_connect_url = Some url\<rparr>"

definition scheme_with_description :: "str \<Rightarrow> oa_security_scheme \<Rightarrow> oa_security_scheme" where
  "scheme_with_description d sc = sc\<lparr>oss_description := Some d\<rparr>"

type_synonym oa_security_requirement = "(str, str list) btree"

section \<open>The metadata of a route\<close>

record oa_route_metadata =
  orm_tags :: "str list"
  orm_operation_id :: "str option"
  orm_summary :: "str option"
  orm_description :: "str option"
  orm_parameters :: "oa_parameter reference_or list"
  orm_request_body :: "oa_request_body reference_or option"
  orm_responses :: "(str, oa_response reference_or) btree"
  orm_servers :: "oa_server list"
  orm_external_docs :: "oa_external_docs option"
  orm_extensions :: "(str, json) btree"
  orm_schema_components :: "(str, oa_schema) btree"
  orm_response_components :: "(str, oa_response) btree"
  orm_parameter_components :: "(str, oa_parameter) btree"
  orm_example_components :: "(str, oa_example) btree"
  orm_request_body_components :: "(str, oa_request_body) btree"
  orm_header_components :: "(str, oa_header) btree"
  orm_security_schemes :: "(str, oa_security_scheme) btree"
  orm_security :: "oa_security_requirement list"
  orm_deprecated :: bool
  orm_hidden :: bool

definition metadata_default :: oa_route_metadata where
  "metadata_default =
     \<lparr>orm_tags = [], orm_operation_id = None, orm_summary = None, orm_description = None, orm_parameters = [],
      orm_request_body = None, orm_responses = [], orm_servers = [], orm_external_docs = None, orm_extensions = [],
      orm_schema_components = [], orm_response_components = [], orm_parameter_components = [],
      orm_example_components = [], orm_request_body_components = [], orm_header_components = [],
      orm_security_schemes = [], orm_security = [], orm_deprecated = False, orm_hidden = False\<rparr>"

text \<open>
  What the document reads of a route: its method, its path and its metadata. The operations of
  \<open>RouteDefinition\<close> in \<open>routing/route/openapi.rs\<close> change the metadata only.
\<close>

type_synonym oa_update = "oa_route_metadata \<Rightarrow> oa_route_metadata"

definition oa_with_tag :: "str \<Rightarrow> oa_update" where
  "oa_with_tag tag m = (if List.member (orm_tags m) tag then m else m\<lparr>orm_tags := orm_tags m @ [tag]\<rparr>)"

definition oa_with_operation_id :: "str \<Rightarrow> oa_update" where
  "oa_with_operation_id i m = m\<lparr>orm_operation_id := Some i\<rparr>"

definition oa_with_summary :: "str \<Rightarrow> oa_update" where
  "oa_with_summary t m = m\<lparr>orm_summary := Some t\<rparr>"

definition oa_with_description :: "str \<Rightarrow> oa_update" where
  "oa_with_description d m = m\<lparr>orm_description := Some d\<rparr>"

definition oa_with_deprecated :: oa_update where
  "oa_with_deprecated m = m\<lparr>orm_deprecated := True\<rparr>"

definition with_openapi_server :: "str \<Rightarrow> oa_update" where
  "with_openapi_server url m = m\<lparr>orm_servers := orm_servers m @ [server_new url]\<rparr>"

definition with_openapi_server_description :: "str \<Rightarrow> str \<Rightarrow> oa_update" where
  "with_openapi_server_description url d m =
     m\<lparr>orm_servers := orm_servers m @ [server_with_description d (server_new url)]\<rparr>"

definition with_openapi_external_docs :: "str \<Rightarrow> str \<Rightarrow> oa_update" where
  "with_openapi_external_docs d url m = m\<lparr>orm_external_docs := Some (external_docs_new d url)\<rparr>"

definition with_openapi_extension_value :: "str \<Rightarrow> json \<Rightarrow> oa_update" where
  "with_openapi_extension_value name v m = m\<lparr>orm_extensions := bt_insert name v (orm_extensions m)\<rparr>"

definition with_openapi_extension_default_value :: "str \<Rightarrow> json \<Rightarrow> oa_update" where
  "with_openapi_extension_default_value name v m =
     (if bt_get (orm_extensions m) name = None then m\<lparr>orm_extensions := bt_insert name v (orm_extensions m)\<rparr> else m)"

definition try_with_openapi_extension :: "('a \<Rightarrow> str + json) \<Rightarrow> str \<Rightarrow> 'a \<Rightarrow> oa_route_metadata \<Rightarrow> oa_route_metadata result" where
  "try_with_openapi_extension enc name a m =
     (case enc a of
        Inl e \<Rightarrow> Inl (Internal (''OpenAPI extension `'' @ name @ ''` could not be serialized: '' @ e))
      | Inr v \<Rightarrow> Inr (with_openapi_extension_value name v m))"

definition hide_from_openapi :: oa_update where
  "hide_from_openapi m = m\<lparr>orm_hidden := True\<rparr>"

definition upsert_parameter :: "oa_parameter reference_or \<Rightarrow> oa_parameter reference_or list \<Rightarrow> oa_parameter reference_or list" where
  "upsert_parameter p ps =
     (case parameter_identity p of
        Some identity \<Rightarrow>
          (if list_ex (\<lambda>q. parameter_identity q = Some identity) ps
           then update_first (\<lambda>q. parameter_identity q = Some identity) (\<lambda>_. p) ps
           else ps @ [p])
      | None \<Rightarrow> ps @ [p])"

definition with_parameter :: "oa_parameter \<Rightarrow> oa_update" where
  "with_parameter p m = m\<lparr>orm_parameters := upsert_parameter (OA_Value p) (orm_parameters m)\<rparr>"

definition with_parameter_ref :: "oa_parameter_location \<Rightarrow> str \<Rightarrow> str \<Rightarrow> oa_update" where
  "with_parameter_ref location name component m =
     m\<lparr>orm_parameters :=
         upsert_parameter (OA_Reference (with_parameter_metadata location name (ref_parameter component))) (orm_parameters m)\<rparr>"

definition with_path_parameter :: "str \<Rightarrow> oa_schema \<Rightarrow> oa_update" where
  "with_path_parameter name schema = with_parameter (parameter_path name schema)"

definition with_path_parameter_ref :: "str \<Rightarrow> str \<Rightarrow> oa_update" where
  "with_path_parameter_ref name component = with_parameter_ref Loc_Path name component"

definition with_query_parameter :: "str \<Rightarrow> bool \<Rightarrow> oa_schema \<Rightarrow> oa_update" where
  "with_query_parameter name required schema = with_parameter (parameter_query name required schema)"

definition with_query_parameter_ref :: "str \<Rightarrow> str \<Rightarrow> oa_update" where
  "with_query_parameter_ref name component = with_parameter_ref Loc_Query name component"

definition with_header_parameter :: "str \<Rightarrow> bool \<Rightarrow> oa_schema \<Rightarrow> oa_update" where
  "with_header_parameter name required schema = with_parameter (parameter_header name required schema)"

definition with_header_parameter_ref :: "str \<Rightarrow> str \<Rightarrow> oa_update" where
  "with_header_parameter_ref name component = with_parameter_ref Loc_Header name component"

definition with_cookie_parameter :: "str \<Rightarrow> bool \<Rightarrow> oa_schema \<Rightarrow> oa_update" where
  "with_cookie_parameter name required schema = with_parameter (parameter_cookie name required schema)"

definition with_cookie_parameter_ref :: "str \<Rightarrow> str \<Rightarrow> oa_update" where
  "with_cookie_parameter_ref name component = with_parameter_ref Loc_Cookie name component"

definition with_request_body :: "oa_request_body \<Rightarrow> oa_update" where
  "with_request_body b m = m\<lparr>orm_request_body := Some (OA_Value b)\<rparr>"

definition with_request_body_ref :: "str \<Rightarrow> oa_update" where
  "with_request_body_ref component m = m\<lparr>orm_request_body := Some (OA_Reference (ref_request_body component))\<rparr>"

definition with_request_body_content_type :: "str \<Rightarrow> oa_schema \<Rightarrow> oa_update" where
  "with_request_body_content_type content_type schema = with_request_body (body_content content_type schema)"

definition with_json_request_body :: "oa_schema \<Rightarrow> oa_update" where
  "with_json_request_body schema = with_request_body (body_json schema)"

definition try_with_request_body_content_type_example ::
    "('a \<Rightarrow> str + json) \<Rightarrow> str \<Rightarrow> oa_schema \<Rightarrow> 'a \<Rightarrow> oa_route_metadata \<Rightarrow> oa_route_metadata result" where
  "try_with_request_body_content_type_example enc content_type schema a m =
     rmap (\<lambda>b. with_request_body b m) (body_try_content_example enc content_type schema a)"

definition try_with_json_request_body_example ::
    "('a \<Rightarrow> str + json) \<Rightarrow> oa_schema \<Rightarrow> 'a \<Rightarrow> oa_route_metadata \<Rightarrow> oa_route_metadata result" where
  "try_with_json_request_body_example enc schema a m = rmap (\<lambda>b. with_request_body b m) (body_try_json_example enc schema a)"

definition try_with_request_body_content_type_named_example ::
    "('a \<Rightarrow> str + json) \<Rightarrow> str \<Rightarrow> oa_schema \<Rightarrow> str \<Rightarrow> 'a \<Rightarrow> oa_route_metadata \<Rightarrow> oa_route_metadata result" where
  "try_with_request_body_content_type_named_example enc content_type schema name a m =
     rmap (\<lambda>b. with_request_body b m)
       (body_try_with_content_named_example enc content_type name a (body_content content_type schema))"

definition try_with_json_request_body_named_example ::
    "('a \<Rightarrow> str + json) \<Rightarrow> oa_schema \<Rightarrow> str \<Rightarrow> 'a \<Rightarrow> oa_route_metadata \<Rightarrow> oa_route_metadata result" where
  "try_with_json_request_body_named_example enc schema name a m =
     rmap (\<lambda>b. with_request_body b m) (body_try_with_json_named_example enc name a (body_json schema))"

definition with_request_body_content_type_named_example_ref :: "str \<Rightarrow> oa_schema \<Rightarrow> str \<Rightarrow> str \<Rightarrow> oa_update" where
  "with_request_body_content_type_named_example_ref content_type schema name component =
     with_request_body (body_with_content_named_example_ref content_type name component (body_content content_type schema))"

definition with_json_request_body_named_example_ref :: "oa_schema \<Rightarrow> str \<Rightarrow> str \<Rightarrow> oa_update" where
  "with_json_request_body_named_example_ref schema name component =
     with_request_body (body_with_json_named_example_ref name component (body_json schema))"

definition put_response :: "str \<Rightarrow> oa_response reference_or \<Rightarrow> oa_update" where
  "put_response key r m = m\<lparr>orm_responses := bt_insert key r (orm_responses m)\<rparr>"

definition with_response :: "nat \<Rightarrow> oa_response \<Rightarrow> oa_update" where
  "with_response status r = put_response (show_nat status) (OA_Value r)"

definition with_response_ref :: "nat \<Rightarrow> str \<Rightarrow> oa_update" where
  "with_response_ref status component = put_response (show_nat status) (OA_Reference (ref_response component))"

definition with_default_response :: "oa_response \<Rightarrow> oa_update" where
  "with_default_response r = put_response ''default'' (OA_Value r)"

definition with_default_response_ref :: "str \<Rightarrow> oa_update" where
  "with_default_response_ref component = put_response ''default'' (OA_Reference (ref_response component))"

text \<open>A header of a response: the response is created when it is missing, a reference is left alone.\<close>

definition put_response_header :: "str \<Rightarrow> str \<Rightarrow> str \<Rightarrow> oa_header reference_or \<Rightarrow> oa_update" where
  "put_response_header key d name h m =
     (let r = (case bt_get (orm_responses m) key of Some r \<Rightarrow> r | None \<Rightarrow> OA_Value (response_description d));
          r1 = (case r of
                  OA_Value v \<Rightarrow> OA_Value (v\<lparr>ors_headers := bt_insert name h (ors_headers v)\<rparr>)
                | OA_Reference _ \<Rightarrow> r)
      in put_response key r1 m)"

definition with_openapi_response_header :: "nat \<Rightarrow> str \<Rightarrow> oa_header \<Rightarrow> oa_update" where
  "with_openapi_response_header status name h = put_response_header (show_nat status) ''Success'' name (OA_Value h)"

definition with_openapi_response_header_ref :: "nat \<Rightarrow> str \<Rightarrow> str \<Rightarrow> oa_update" where
  "with_openapi_response_header_ref status name component =
     put_response_header (show_nat status) ''Success'' name (OA_Reference (ref_header component))"

definition with_default_openapi_response_header :: "str \<Rightarrow> oa_header \<Rightarrow> oa_update" where
  "with_default_openapi_response_header name h = put_response_header ''default'' ''Default response'' name (OA_Value h)"

definition with_default_openapi_response_header_ref :: "str \<Rightarrow> str \<Rightarrow> oa_update" where
  "with_default_openapi_response_header_ref name component =
     put_response_header ''default'' ''Default response'' name (OA_Reference (ref_header component))"

definition with_response_content_type :: "nat \<Rightarrow> str \<Rightarrow> str \<Rightarrow> oa_schema \<Rightarrow> oa_update" where
  "with_response_content_type status d content_type schema = with_response status (response_content d content_type schema)"

definition with_json_response :: "nat \<Rightarrow> str \<Rightarrow> oa_schema \<Rightarrow> oa_update" where
  "with_json_response status d schema = with_response status (oa_response_json d schema)"

definition try_with_response_content_type_example ::
    "('a \<Rightarrow> str + json) \<Rightarrow> nat \<Rightarrow> str \<Rightarrow> str \<Rightarrow> oa_schema \<Rightarrow> 'a \<Rightarrow> oa_route_metadata \<Rightarrow> oa_route_metadata result" where
  "try_with_response_content_type_example enc status d content_type schema a m =
     rmap (\<lambda>r. with_response status r m) (response_try_content_example enc d content_type schema a)"

definition try_with_json_response_example ::
    "('a \<Rightarrow> str + json) \<Rightarrow> nat \<Rightarrow> str \<Rightarrow> oa_schema \<Rightarrow> 'a \<Rightarrow> oa_route_metadata \<Rightarrow> oa_route_metadata result" where
  "try_with_json_response_example enc status d schema a m =
     rmap (\<lambda>r. with_response status r m) (response_try_json_example enc d schema a)"

definition try_with_response_content_type_named_example ::
    "('a \<Rightarrow> str + json) \<Rightarrow> nat \<Rightarrow> str \<Rightarrow> str \<Rightarrow> oa_schema \<Rightarrow> str \<Rightarrow> 'a \<Rightarrow> oa_route_metadata \<Rightarrow> oa_route_metadata result" where
  "try_with_response_content_type_named_example enc status d content_type schema name a m =
     rmap (\<lambda>r. with_response status r m)
       (response_try_with_content_named_example enc content_type name a (response_content d content_type schema))"

definition try_with_json_response_named_example ::
    "('a \<Rightarrow> str + json) \<Rightarrow> nat \<Rightarrow> str \<Rightarrow> oa_schema \<Rightarrow> str \<Rightarrow> 'a \<Rightarrow> oa_route_metadata \<Rightarrow> oa_route_metadata result" where
  "try_with_json_response_named_example enc status d schema name a m =
     rmap (\<lambda>r. with_response status r m) (response_try_with_json_named_example enc name a (oa_response_json d schema))"

definition with_response_content_type_named_example_ref :: "nat \<Rightarrow> str \<Rightarrow> str \<Rightarrow> oa_schema \<Rightarrow> str \<Rightarrow> str \<Rightarrow> oa_update" where
  "with_response_content_type_named_example_ref status d content_type schema name component =
     with_response status
       (response_with_content_named_example_ref content_type name component (response_content d content_type schema))"

definition with_json_response_named_example_ref :: "nat \<Rightarrow> str \<Rightarrow> oa_schema \<Rightarrow> str \<Rightarrow> str \<Rightarrow> oa_update" where
  "with_json_response_named_example_ref status d schema name component =
     with_response status (response_with_json_named_example_ref name component (oa_response_json d schema))"

definition with_security_requirement :: "oa_security_requirement \<Rightarrow> oa_update" where
  "with_security_requirement r m = m\<lparr>orm_security := orm_security m @ [r]\<rparr>"

definition with_api_security :: "str \<Rightarrow> str list \<Rightarrow> oa_update" where
  "with_api_security name scopes = with_security_requirement [(name, scopes)]"

definition with_security_scheme :: "str \<Rightarrow> oa_security_scheme \<Rightarrow> oa_update" where
  "with_security_scheme name sc m = m\<lparr>orm_security_schemes := bt_insert name sc (orm_security_schemes m)\<rparr>"

definition with_bearer_auth_named :: "str \<Rightarrow> oa_update" where
  "with_bearer_auth_named name m = with_api_security name [] (with_security_scheme name scheme_http_bearer m)"

definition with_bearer_auth :: oa_update where
  "with_bearer_auth = with_bearer_auth_named ''bearerAuth''"

definition with_api_key_auth :: "str \<Rightarrow> oa_key_location \<Rightarrow> str \<Rightarrow> oa_update" where
  "with_api_key_auth scheme_name location key_name m =
     with_api_security scheme_name [] (with_security_scheme scheme_name (scheme_api_key location key_name) m)"

definition with_header_api_key_auth :: "str \<Rightarrow> str \<Rightarrow> oa_update" where
  "with_header_api_key_auth scheme_name header_name = with_api_key_auth scheme_name Key_Header header_name"

definition with_query_api_key_auth :: "str \<Rightarrow> str \<Rightarrow> oa_update" where
  "with_query_api_key_auth scheme_name query_name = with_api_key_auth scheme_name Key_Query query_name"

definition with_cookie_auth :: "str \<Rightarrow> str \<Rightarrow> oa_update" where
  "with_cookie_auth scheme_name cookie_name = with_api_key_auth scheme_name Key_Cookie cookie_name"

definition with_oauth2_auth :: "str \<Rightarrow> oa_oauth_flows \<Rightarrow> str list \<Rightarrow> oa_update" where
  "with_oauth2_auth scheme_name flows scopes m =
     with_api_security scheme_name scopes (with_security_scheme scheme_name (scheme_oauth2 flows) m)"

definition with_open_id_connect_auth :: "str \<Rightarrow> str \<Rightarrow> str list \<Rightarrow> oa_update" where
  "with_open_id_connect_auth scheme_name url scopes m =
     with_api_security scheme_name scopes (with_security_scheme scheme_name (scheme_open_id_connect url) m)"

definition with_schema_component :: "str \<Rightarrow> oa_schema \<Rightarrow> oa_update" where
  "with_schema_component name schema m = m\<lparr>orm_schema_components := bt_insert name schema (orm_schema_components m)\<rparr>"

definition with_response_component :: "str \<Rightarrow> oa_response \<Rightarrow> oa_update" where
  "with_response_component name r m = m\<lparr>orm_response_components := bt_insert name r (orm_response_components m)\<rparr>"

definition with_parameter_component :: "str \<Rightarrow> oa_parameter \<Rightarrow> oa_update" where
  "with_parameter_component name p m = m\<lparr>orm_parameter_components := bt_insert name p (orm_parameter_components m)\<rparr>"

definition with_example_component :: "str \<Rightarrow> oa_example \<Rightarrow> oa_update" where
  "with_example_component name e m = m\<lparr>orm_example_components := bt_insert name e (orm_example_components m)\<rparr>"

definition try_with_example_component ::
    "('a \<Rightarrow> str + json) \<Rightarrow> str \<Rightarrow> 'a \<Rightarrow> oa_route_metadata \<Rightarrow> oa_route_metadata result" where
  "try_with_example_component enc name a m = rmap (\<lambda>e. with_example_component name e m) (example_try_value enc a)"

definition with_request_body_component :: "str \<Rightarrow> oa_request_body \<Rightarrow> oa_update" where
  "with_request_body_component name b m =
     m\<lparr>orm_request_body_components := bt_insert name b (orm_request_body_components m)\<rparr>"

definition with_header_component :: "str \<Rightarrow> oa_header \<Rightarrow> oa_update" where
  "with_header_component name h m = m\<lparr>orm_header_components := bt_insert name h (orm_header_components m)\<rparr>"

definition try_with_json_schema_component ::
    "str \<Rightarrow> (str + oa_schema) \<Rightarrow> oa_route_metadata \<Rightarrow> oa_route_metadata result" where
  "try_with_json_schema_component type_name schema m =
     (case schema of
        Inl e \<Rightarrow> Inl (Internal e)
      | Inr v \<Rightarrow> Inr (with_schema_component (openapi_schema_name type_name) v m))"

section \<open>The document\<close>

record oa_components =
  oc_schemas :: "(str, oa_schema) btree"
  oc_responses :: "(str, oa_response) btree"
  oc_parameters :: "(str, oa_parameter) btree"
  oc_examples :: "(str, oa_example) btree"
  oc_request_bodies :: "(str, oa_request_body) btree"
  oc_headers :: "(str, oa_header) btree"
  oc_security_schemes :: "(str, oa_security_scheme) btree"

definition components_default :: oa_components where
  "components_default =
     \<lparr>oc_schemas = [], oc_responses = [], oc_parameters = [], oc_examples = [], oc_request_bodies = [],
      oc_headers = [], oc_security_schemes = []\<rparr>"

definition components_is_empty :: "oa_components \<Rightarrow> bool" where
  "components_is_empty c \<longleftrightarrow>
     oc_schemas c = [] \<and> oc_responses c = [] \<and> oc_parameters c = [] \<and> oc_examples c = []
     \<and> oc_request_bodies c = [] \<and> oc_headers c = [] \<and> oc_security_schemes c = []"

definition bt_extend :: "('k::linorder, 'v) btree \<Rightarrow> ('k, 'v) btree \<Rightarrow> ('k, 'v) btree" where
  "bt_extend m extra = fold (\<lambda>(k, v). bt_insert k v) extra m"

definition merge_schemas :: "(str, oa_schema) btree \<Rightarrow> oa_components \<Rightarrow> oa_components" where
  "merge_schemas x c = c\<lparr>oc_schemas := bt_extend (oc_schemas c) x\<rparr>"
definition merge_responses :: "(str, oa_response) btree \<Rightarrow> oa_components \<Rightarrow> oa_components" where
  "merge_responses x c = c\<lparr>oc_responses := bt_extend (oc_responses c) x\<rparr>"
definition merge_parameters :: "(str, oa_parameter) btree \<Rightarrow> oa_components \<Rightarrow> oa_components" where
  "merge_parameters x c = c\<lparr>oc_parameters := bt_extend (oc_parameters c) x\<rparr>"
definition merge_examples :: "(str, oa_example) btree \<Rightarrow> oa_components \<Rightarrow> oa_components" where
  "merge_examples x c = c\<lparr>oc_examples := bt_extend (oc_examples c) x\<rparr>"
definition merge_request_bodies :: "(str, oa_request_body) btree \<Rightarrow> oa_components \<Rightarrow> oa_components" where
  "merge_request_bodies x c = c\<lparr>oc_request_bodies := bt_extend (oc_request_bodies c) x\<rparr>"
definition merge_headers :: "(str, oa_header) btree \<Rightarrow> oa_components \<Rightarrow> oa_components" where
  "merge_headers x c = c\<lparr>oc_headers := bt_extend (oc_headers c) x\<rparr>"
definition merge_security_schemes :: "(str, oa_security_scheme) btree \<Rightarrow> oa_components \<Rightarrow> oa_components" where
  "merge_security_schemes x c = c\<lparr>oc_security_schemes := bt_extend (oc_security_schemes c) x\<rparr>"

record oa_operation =
  oo_tags :: "str list"
  oo_summary :: "str option"
  oo_description :: "str option"
  oo_operation_id :: "str option"
  oo_parameters :: "oa_parameter reference_or list"
  oo_request_body :: "oa_request_body reference_or option"
  oo_responses :: "(str, oa_response reference_or) btree"
  oo_servers :: "oa_server list"
  oo_external_docs :: "oa_external_docs option"
  oo_extensions :: "(str, json) btree"
  oo_security :: "oa_security_requirement list"
  oo_deprecated :: bool

record oa_route =
  oar_method :: http_method
  oar_path :: str
  oar_openapi :: oa_route_metadata

definition with_openapi :: "oa_route_metadata \<Rightarrow> oa_route \<Rightarrow> oa_route" where
  "with_openapi m r = r\<lparr>oar_openapi := m\<rparr>"

fun add_path_parameters :: "str list \<Rightarrow> oa_parameter reference_or list \<Rightarrow> oa_parameter reference_or list" where
  "add_path_parameters [] ps = ps"
| "add_path_parameters (name # names) ps =
     add_path_parameters names
       (if \<not> list_ex (\<lambda>p. parameter_identity p = Some (Loc_Path, name)) ps
        then ps @ [OA_Value (parameter_path name schema_string)] else ps)"

definition operation_from_route :: "oa_route \<Rightarrow> oa_operation" where
  "operation_from_route r =
     (let m = oar_openapi r in
      \<lparr>oo_tags = orm_tags m, oo_summary = orm_summary m, oo_description = orm_description m,
       oo_operation_id = orm_operation_id m,
       oo_parameters = add_path_parameters (route_param_names (oar_path r)) (orm_parameters m),
       oo_request_body = orm_request_body m,
       oo_responses =
         (if orm_responses m = [] then [(''200'', OA_Value (response_description ''Success''))] else orm_responses m),
       oo_servers = orm_servers m, oo_external_docs = orm_external_docs m, oo_extensions = orm_extensions m,
       oo_security = orm_security m, oo_deprecated = orm_deprecated m\<rparr>)"

definition openapi_segment :: "str \<Rightarrow> str" where
  "openapi_segment segment =
     (case Option.bind (strip_prefix_str ''{*'' segment) (strip_suffix_str ''}'') of
        Some name \<Rightarrow> ''{'' @ name @ ''}''
      | None \<Rightarrow> segment)"

definition openapi_route_path :: "str \<Rightarrow> str" where
  "openapi_route_path path0 =
     (let path = (case strip_prefix_str ''/'' path0 of Some p \<Rightarrow> p | None \<Rightarrow> path0) in
      if path = [] then ''/'' else ''/'' @ join_with ''/'' (map openapi_segment (split_on (CHR ''/'') path)))"

fun openapi_methods :: "http_method \<Rightarrow> str list" where
  "openapi_methods M_All = [''get'', ''post'', ''put'', ''patch'', ''delete'', ''options'', ''head'']"
| "openapi_methods M_Get = [''get'']"
| "openapi_methods M_Post = [''post'']"
| "openapi_methods M_Put = [''put'']"
| "openapi_methods M_Patch = [''patch'']"
| "openapi_methods M_Delete = [''delete'']"
| "openapi_methods M_Options = [''options'']"
| "openapi_methods M_Head = [''head'']"

type_synonym oa_path_item = "(str, oa_operation) btree"

record oa_document =
  odoc_openapi :: str
  odoc_info :: oa_info
  odoc_paths :: "(str, oa_path_item) btree"
  odoc_components :: oa_components
  odoc_servers :: "oa_server list"
  odoc_tags :: "oa_tag list"
  odoc_external_docs :: "oa_external_docs option"

text \<open>The state of the loop over the routes: tags, components and paths.\<close>

record oa_draft =
  odr_tags :: "(str, oa_tag) btree"
  odr_components :: oa_components
  odr_paths :: "(str, oa_path_item) btree"

definition merge_components :: "oa_route_metadata \<Rightarrow> oa_components \<Rightarrow> oa_components" where
  "merge_components m c =
     merge_security_schemes (orm_security_schemes m)
       (merge_headers (orm_header_components m)
         (merge_request_bodies (orm_request_body_components m)
           (merge_examples (orm_example_components m)
             (merge_parameters (orm_parameter_components m)
               (merge_responses (orm_response_components m)
                 (merge_schemas (orm_schema_components m) c))))))"

definition add_tag :: "str \<Rightarrow> (str, oa_tag) btree \<Rightarrow> (str, oa_tag) btree" where
  "add_tag tag tags = (if bt_get tags tag = None then bt_insert tag (tag_new tag) tags else tags)"

definition add_operation :: "bool \<Rightarrow> oa_operation \<Rightarrow> str \<Rightarrow> oa_path_item \<Rightarrow> oa_path_item" where
  "add_operation wildcard operation m item =
     (if wildcard then (if bt_get item m = None then bt_insert m operation item else item)
      else bt_insert m operation item)"

definition document_route :: "oa_route \<Rightarrow> oa_draft \<Rightarrow> oa_draft" where
  "document_route r d =
     (if orm_hidden (oar_openapi r) then d
      else
        (let operation = operation_from_route r;
             key = openapi_route_path (oar_path r);
             item = (case bt_get (odr_paths d) key of Some i \<Rightarrow> i | None \<Rightarrow> [])
         in \<lparr>odr_tags = fold add_tag (oo_tags operation) (odr_tags d),
             odr_components = merge_components (oar_openapi r) (odr_components d),
             odr_paths = bt_insert key
               (fold (add_operation (oar_method r = M_All) operation) (openapi_methods (oar_method r)) item)
               (odr_paths d)\<rparr>))"

definition document_from_routes :: "oa_info \<Rightarrow> oa_route list \<Rightarrow> oa_document" where
  "document_from_routes info routes =
     (let d = fold document_route routes
                \<lparr>odr_tags = bt_of_list (map (\<lambda>t. (ot_name t, t)) (oi_tags info)),
                 odr_components = components_default, odr_paths = []\<rparr>
      in \<lparr>odoc_openapi = ''3.0.3'', odoc_info = info, odoc_paths = odr_paths d, odoc_components = odr_components d,
          odoc_servers = oi_servers info, odoc_tags = map snd (odr_tags d), odoc_external_docs = oi_external_docs info\<rparr>)"

section \<open>Which operation the document shows\<close>

text \<open>
  The routes that are shown and serve a method at a path of the document. Routes of the method
  itself go before routes of every method; among the former the last one is shown, among the
  latter the first.
\<close>

definition shown_at :: "str \<Rightarrow> str \<Rightarrow> oa_route \<Rightarrow> bool" where
  "shown_at key m r \<longleftrightarrow>
     \<not> orm_hidden (oar_openapi r) \<and> openapi_route_path (oar_path r) = key \<and> m \<in> set (openapi_methods (oar_method r))"

definition shown_route :: "oa_route list \<Rightarrow> str \<Rightarrow> str \<Rightarrow> oa_route option" where
  "shown_route routes key m =
     (let rs = filter (shown_at key m) routes; explicit = filter (\<lambda>r. oar_method r \<noteq> M_All) rs in
      if explicit \<noteq> [] then Some (last explicit) else if rs \<noteq> [] then Some (hd rs) else None)"

lemma bt_get_add_operations:
  "bt_get (fold (add_operation w operation) ms item) m =
     (if m \<in> set ms then (if w then or_else (bt_get item m) (Some operation) else Some operation) else bt_get item m)"
  by (induction ms arbitrary: item) (auto simp: add_operation_def or_else_def split: option.splits)

definition draft_operation :: "oa_draft \<Rightarrow> str \<Rightarrow> str \<Rightarrow> oa_operation option" where
  "draft_operation d key m = Option.bind (bt_get (odr_paths d) key) (\<lambda>item. bt_get item m)"

lemma draft_operation_route:
  "draft_operation (document_route r d) key m =
     (if shown_at key m r
      then (if oar_method r = M_All then or_else (draft_operation d key m) (Some (operation_from_route r))
            else Some (operation_from_route r))
      else draft_operation d key m)"
  by (cases "oar_method r = M_All")
    (auto simp: draft_operation_def document_route_def shown_at_def Let_def bt_get_add_operations or_else_def
      simp del: fold_simps openapi_methods.simps split: option.splits)

lemma draft_operation_routes:
  "draft_operation d key m = None \<Longrightarrow>
     draft_operation (fold document_route routes d) key m = map_option operation_from_route (shown_route routes key m)"
proof (induction routes rule: rev_induct)
  case Nil
  then show ?case by (simp add: shown_route_def)
next
  case (snoc r routes)
  then show ?case by (auto simp: draft_operation_route shown_route_def Let_def or_else_def)
qed

text \<open>
  C38. The document of an application shows, for each of its paths and methods, the operation
  of exactly one route, and no other operations: the last visible route registered for that very
  method, else the first visible route for all methods.
\<close>

theorem openapi_operations_exact:
  "Option.bind (bt_get (odoc_paths (document_from_routes info routes)) key) (\<lambda>item. bt_get item m)
     = map_option operation_from_route (shown_route routes key m)"
  using draft_operation_routes [of "\<lparr>odr_tags = bt_of_list (map (\<lambda>t. (ot_name t, t)) (oi_tags info)),
      odr_components = components_default, odr_paths = []\<rparr>" key m routes]
  by (simp add: document_from_routes_def Let_def draft_operation_def)

section \<open>Parameters of the document\<close>

definition identities :: "oa_parameter reference_or list \<Rightarrow> (oa_parameter_location \<times> str) list" where
  "identities ps = List.map_filter parameter_identity ps"

lemma identities_simps [simp]:
  "identities [] = []"
  "identities (p # ps) = (case parameter_identity p of Some i \<Rightarrow> i # identities ps | None \<Rightarrow> identities ps)"
  "identities (ps @ qs) = identities ps @ identities qs"
  by (simp_all add: identities_def map_filter_simps List.map_filter_def split: option.split)

lemma in_identities: "i \<in> set (identities ps) \<longleftrightarrow> (\<exists>p \<in> set ps. parameter_identity p = Some i)"
  by (induction ps) (auto split: option.splits)

lemma identities_update_first:
  "parameter_identity p = Some i \<Longrightarrow>
     identities (update_first (\<lambda>q. parameter_identity q = Some i) (\<lambda>_. p) ps) = identities ps"
  by (induction ps) (auto split: option.split)

lemma upsert_identities:
  "identities (upsert_parameter p ps) =
     (case parameter_identity p of
        Some i \<Rightarrow> if i \<in> set (identities ps) then identities ps else identities ps @ [i]
      | None \<Rightarrow> identities ps)"
  by (auto simp: upsert_parameter_def in_identities list_ex_iff identities_update_first split: option.splits)

lemma upsert_distinct: "distinct (identities ps) \<Longrightarrow> distinct (identities (upsert_parameter p ps))"
  by (auto simp: upsert_identities split: option.splits)

lemma add_path_parameters_identities:
  "set (identities (add_path_parameters names ps)) = set (identities ps) \<union> Pair Loc_Path ` set names"
  "distinct (identities ps) \<Longrightarrow> distinct (identities (add_path_parameters names ps))"
proof (induction names arbitrary: ps)
  case (Cons name names)
  have new: "parameter_identity (OA_Value (parameter_path name schema_string)) = Some (Loc_Path, name)"
    by (simp add: parameter_identity_def parameter_path_def parameter_new_def)
  {
    case 1
    show ?case using Cons(1) new by (auto simp: in_identities list_ex_iff)
  next
    case 2
    then show ?case using Cons(2) new by (auto simp: in_identities list_ex_iff)
  }
qed simp_all

lemma openapi_segment_names:
  assumes "route_path_param_name s = Some m \<or> CHR ''{'' \<notin> set s" "openapi_segment s = ''{'' @ n @ ''}''"
  shows "route_path_param_name s = Some n"
proof (cases "route_wildcard_name s")
  case (Some k)
  then show ?thesis using assms
    by (auto simp: openapi_segment_def route_path_param_name_def route_wildcard_name_Some_iff param_not_wildcard
        strip_suffix_str_def)
next
  case w: None
  show ?thesis
  proof (cases "route_param_name s")
    case (Some k)
    then have "s = ''{'' @ k @ ''}''" "\<not> starts_with ''*'' k" by (simp_all add: route_param_name_Some_iff)
    then have "openapi_segment s = s" by (cases k) (auto simp: openapi_segment_def starts_with_def)
    then show ?thesis using assms Some \<open>s = _\<close> by (auto simp: route_path_param_name_def)
  next
    case None
    then have "CHR ''{'' \<notin> set s" using w assms(1) by (simp add: route_path_param_name_def)
    then show ?thesis using assms(2) by (cases s) (auto simp: openapi_segment_def)
  qed
qed

lemma segs_valid_segment:
  "segs_valid seen ss \<Longrightarrow> s \<in> set ss \<Longrightarrow> route_path_param_name s \<noteq> None \<or> CHR ''{'' \<notin> set s"
  by (induction seen ss rule: segs_valid.induct) (auto simp: route_path_param_name_def or_else_def split: option.splits)

lemma openapi_segment_no_slash: "CHR ''/'' \<notin> set s \<Longrightarrow> CHR ''/'' \<notin> set (openapi_segment s)"
  by (auto simp: openapi_segment_def Option.bind_eq_Some_conv strip_prefix_Some_iff strip_suffix_Some_iff
      simp del: strip_prefix_str.simps split: option.splits)

lemma openapi_segment_Nil [simp]: "openapi_segment s = [] \<longleftrightarrow> s = []"
  by (auto simp: openapi_segment_def split: option.splits)

lemma openapi_route_path_join: "openapi_route_path p = ''/'' @ join_with ''/'' (map openapi_segment (split_path p))"
  by (simp add: openapi_route_path_def split_path_def Let_def)

lemma openapi_route_path_split: "split_path (openapi_route_path p) = map openapi_segment (split_path p)"
proof -
  have "map openapi_segment (split_path p) \<noteq> [[]]"
    using split_path_not_empty_segment [of p] by (cases "split_path p" rule: list.exhaust) auto
  then show ?thesis
    unfolding openapi_route_path_join by (intro split_path_join) (auto dest: split_path_no_slash openapi_segment_no_slash)
qed

lemma openapi_segments:
  assumes "validate_route_path path = Inr ()" "''{'' @ n @ ''}'' \<in> set (split_path (openapi_route_path path))"
  shows "n \<in> set (route_param_names path)"
proof -
  obtain s where s: "s \<in> set (split_path path)" "openapi_segment s = ''{'' @ n @ ''}''"
    using assms(2) by (auto simp: openapi_route_path_split)
  have "segs_valid {} (split_path path)" using assms(1) by (simp add: validate_route_path_iff)
  then have "route_path_param_name s = Some n" using segs_valid_segment [OF _ s(1)] openapi_segment_names [OF _ s(2)] by auto
  then show ?thesis using s(1)
    by (auto simp: route_param_names_def List.map_filter_def intro!: image_eqI [where x = s])
qed

text \<open>Parameters set by calls have distinct identities: a later one replaces its predecessor.\<close>

lemma with_parameter_distinct:
  assumes "distinct (identities (orm_parameters m))"
  shows "distinct (identities (orm_parameters (with_parameter p m)))"
    "distinct (identities (orm_parameters (with_parameter_ref location name component m)))"
  using assms by (simp_all add: with_parameter_def with_parameter_ref_def upsert_distinct)

lemma shown_route_at:
  assumes "shown_route routes key m = Some r"
  shows "r \<in> set routes \<and> shown_at key m r"
proof -
  let ?rs = "filter (shown_at key m) routes"
  let ?es = "filter (\<lambda>r. oar_method r \<noteq> M_All) ?rs"
  have "?es \<noteq> [] \<and> r = last ?es \<or> ?rs \<noteq> [] \<and> r = hd ?rs"
    using assms unfolding shown_route_def Let_def by (cases "?es = []"; cases "?rs = []") simp_all
  then show ?thesis
  proof
    assume es: "?es \<noteq> [] \<and> r = last ?es"
    then have "last ?es \<in> set ?es" by (intro last_in_set) simp
    then show ?thesis using es by simp
  next
    assume rs: "?rs \<noteq> [] \<and> r = hd ?rs"
    then have "hd ?rs \<in> set ?rs" by (intro hd_in_set) simp
    then show ?thesis using rs by simp
  qed
qed


definition sample_documented_route :: oa_route where
  "sample_documented_route =
     \<lparr>oar_method = M_Get, oar_path = ''/files/{*rest}'', oar_openapi = with_bearer_auth metadata_default\<rparr>"


section \<open>Names, schemas and examples\<close>

text \<open>The escaped name of a component can be read back from a reference, as from a JSON pointer.\<close>

fun unescape_pointer :: "str \<Rightarrow> str" where
  "unescape_pointer (c # d # s) =
     (if c = CHR ''~'' then (if d = CHR ''0'' then CHR ''~'' else CHR ''/'') # unescape_pointer s
      else c # unescape_pointer (d # s))"
| "unescape_pointer s = s"

lemma escape_roundtrip: "unescape_pointer (escape_openapi_component_name name) = name"
proof (induction name)
  case (Cons c name)
  let ?e = "escape_openapi_component_name name"
  have "escape_openapi_component_name (c # name)
      = (if c = CHR ''~'' then ''~0'' else if c = CHR ''/'' then ''~1'' else [c]) @ ?e"
    by (simp add: escape_openapi_component_name_def replace_byte_def)
  then show ?case using Cons.IH by (cases ?e) auto
qed (simp add: escape_openapi_component_name_def replace_byte_def)

lemma escape_no_slash: "CHR ''/'' \<notin> set (escape_openapi_component_name name)"
  by (auto simp: escape_openapi_component_name_def replace_byte_def)

text \<open>A media type never carries both an example and named examples.\<close>

definition one_kind_of_example :: "oa_media_type \<Rightarrow> bool" where
  "one_kind_of_example m \<longleftrightarrow> om_example m = None \<or> om_examples m = []"

lemma media_examples_exclusive:
  "one_kind_of_example (media_new schema)"
  "one_kind_of_example (media_with_example_value v m)"
  "one_kind_of_example (media_with_named_example_value name e m)"
  "one_kind_of_example (media_with_named_example_ref name component m)"
  "media_try_insert_example enc name a m = Inr m2 \<Longrightarrow> one_kind_of_example m2"
  by (auto simp: one_kind_of_example_def media_new_def media_with_example_value_def media_with_named_example_value_def
      media_with_named_example_ref_def media_try_insert_example_def result_simps)

lemma content_examples_exclusive:
  assumes "\<forall>k m. bt_get c k = Some m \<longrightarrow> one_kind_of_example m" "bt_get c2 k = Some m"
    and "content_try_example enc content_type a c = Inr c2 \<or> content_try_named_example enc content_type name a c = Inr c2
       \<or> c2 = content_named_example_ref content_type name component c"
  shows "one_kind_of_example m"
  using assms
  by (auto simp: content_try_example_def content_try_named_example_def content_named_example_ref_def result_simps
      media_try_insert_example_def media_insert_example_ref_def one_kind_of_example_def split: if_splits) (metis+)

text \<open>A schema narrowed to names, or rid of them, has and requires exactly the others.\<close>

definition schema_properties :: "json \<Rightarrow> str set" where
  "schema_properties schema =
     (case schema of
        JObject fds \<Rightarrow> (case bt_get fds ''properties'' of Some (JObject ps) \<Rightarrow> fst ` set ps | _ \<Rightarrow> {})
      | _ \<Rightarrow> {})"

definition schema_required :: "json \<Rightarrow> str set" where
  "schema_required schema =
     (case schema of
        JObject fds \<Rightarrow> (case bt_get fds ''required'' of Some (JArray rs) \<Rightarrow> {name. JString name \<in> set rs} | _ \<Rightarrow> {})
      | _ \<Rightarrow> {})"

lemma retain_required_names:
  "JString name \<in> set (retain_required names keep rs) \<longleftrightarrow> JString name \<in> set rs \<and> (name \<in> set names) = keep"
  by (auto simp: retain_required_def List.member_iff)

lemma retain_required_Nil: "retain_required names keep rs = [] \<Longrightarrow> JString name \<in> set rs \<Longrightarrow> (name \<in> set names) \<noteq> keep"
  using retain_required_names [of name names keep rs] by auto

lemma retain_exact:
  "schema_properties (retain_schema_properties schema names keep) = {n \<in> schema_properties schema. (n \<in> set names) = keep}"
  "schema_required (retain_schema_properties schema names keep) = {n \<in> schema_required schema. (n \<in> set names) = keep}"
  by (cases schema; force simp: schema_properties_def schema_required_def retain_schema_properties_def Let_def
      List.member_iff retain_required_names dest: retain_required_Nil split: option.splits json.splits if_splits)+

lemma pick_omit_exact:
  "schema_properties (schema_pick_properties names schema) = schema_properties schema \<inter> set names"
  "schema_properties (schema_omit_properties names schema) = schema_properties schema - set names"
  "schema_required (schema_pick_properties names schema) = schema_required schema \<inter> set names"
  "schema_required (schema_omit_properties names schema) = schema_required schema - set names"
  by (auto simp: schema_pick_properties_def schema_omit_properties_def retain_exact)

section \<open>The metadata a controller gives its routes\<close>

text \<open>
  The OpenAPI fields of \<open>ControllerDefinition\<close> (\<open>src/routing/controller.rs\<close>) with the metadata of
  its routes. Every call reaches the routes added before, and \<open>route\<close> gives a new route all that
  was called before.
\<close>

record oa_controller =
  och_routes :: "oa_route_metadata list"
  och_tags :: "str list"
  och_schema_components :: "(str, oa_schema) btree"
  och_response_components :: "(str, oa_response) btree"
  och_parameter_components :: "(str, oa_parameter) btree"
  och_example_components :: "(str, oa_example) btree"
  och_request_body_components :: "(str, oa_request_body) btree"
  och_header_components :: "(str, oa_header) btree"
  och_extensions :: "(str, json) btree"
  och_hidden :: bool

definition oa_controller_new :: oa_controller where
  "oa_controller_new =
     \<lparr>och_routes = [], och_tags = [], och_schema_components = [], och_response_components = [],
      och_parameter_components = [], och_example_components = [], och_request_body_components = [],
      och_header_components = [], och_extensions = [], och_hidden = False\<rparr>"

definition for_each :: "('k \<Rightarrow> 'v \<Rightarrow> oa_update) \<Rightarrow> ('k, 'v) btree \<Rightarrow> oa_update" where
  "for_each f entries = fold (\<lambda>(k, v). f k v) entries"

definition oa_controller_route :: "oa_route_metadata \<Rightarrow> oa_controller \<Rightarrow> oa_controller" where
  "oa_controller_route m c =
     c\<lparr>och_routes := och_routes c @
        [(if och_hidden c then hide_from_openapi else id)
          (for_each with_openapi_extension_default_value (och_extensions c)
          (for_each with_header_component (och_header_components c)
          (for_each with_request_body_component (och_request_body_components c)
          (for_each with_example_component (och_example_components c)
          (for_each with_parameter_component (och_parameter_components c)
          (for_each with_response_component (och_response_components c)
          (for_each with_schema_component (och_schema_components c)
          (fold oa_with_tag (och_tags c) m))))))))]\<rparr>"

definition map_routes :: "oa_update \<Rightarrow> oa_controller \<Rightarrow> oa_controller" where
  "map_routes f c = c\<lparr>och_routes := map f (och_routes c)\<rparr>"

definition oa_controller_with_tag :: "str \<Rightarrow> oa_controller \<Rightarrow> oa_controller" where
  "oa_controller_with_tag tag c =
     map_routes (oa_with_tag tag)
       (if List.member (och_tags c) tag then c else c\<lparr>och_tags := och_tags c @ [tag]\<rparr>)"

definition oa_controller_with_schema_component :: "str \<Rightarrow> oa_schema \<Rightarrow> oa_controller \<Rightarrow> oa_controller" where
  "oa_controller_with_schema_component name schema c =
     map_routes (with_schema_component name schema)
       (c\<lparr>och_schema_components := bt_insert name schema (och_schema_components c)\<rparr>)"

definition oa_controller_with_response_component :: "str \<Rightarrow> oa_response \<Rightarrow> oa_controller \<Rightarrow> oa_controller" where
  "oa_controller_with_response_component name r c =
     map_routes (with_response_component name r)
       (c\<lparr>och_response_components := bt_insert name r (och_response_components c)\<rparr>)"

definition oa_controller_with_parameter_component :: "str \<Rightarrow> oa_parameter \<Rightarrow> oa_controller \<Rightarrow> oa_controller" where
  "oa_controller_with_parameter_component name p c =
     map_routes (with_parameter_component name p)
       (c\<lparr>och_parameter_components := bt_insert name p (och_parameter_components c)\<rparr>)"

definition oa_controller_with_example_component :: "str \<Rightarrow> oa_example \<Rightarrow> oa_controller \<Rightarrow> oa_controller" where
  "oa_controller_with_example_component name e c =
     map_routes (with_example_component name e)
       (c\<lparr>och_example_components := bt_insert name e (och_example_components c)\<rparr>)"

definition oa_controller_try_with_example_component ::
    "('a \<Rightarrow> str + json) \<Rightarrow> str \<Rightarrow> 'a \<Rightarrow> oa_controller \<Rightarrow> oa_controller result" where
  "oa_controller_try_with_example_component enc name a c =
     rmap (\<lambda>e. oa_controller_with_example_component name e c) (example_try_value enc a)"

definition oa_controller_with_request_body_component :: "str \<Rightarrow> oa_request_body \<Rightarrow> oa_controller \<Rightarrow> oa_controller" where
  "oa_controller_with_request_body_component name b c =
     map_routes (with_request_body_component name b)
       (c\<lparr>och_request_body_components := bt_insert name b (och_request_body_components c)\<rparr>)"

definition oa_controller_with_header_component :: "str \<Rightarrow> oa_header \<Rightarrow> oa_controller \<Rightarrow> oa_controller" where
  "oa_controller_with_header_component name h c =
     map_routes (with_header_component name h)
       (c\<lparr>och_header_components := bt_insert name h (och_header_components c)\<rparr>)"

definition oa_controller_with_extension_value :: "str \<Rightarrow> json \<Rightarrow> oa_controller \<Rightarrow> oa_controller" where
  "oa_controller_with_extension_value name v c =
     map_routes (with_openapi_extension_default_value name v)
       (c\<lparr>och_extensions := bt_insert name v (och_extensions c)\<rparr>)"

definition oa_controller_try_with_extension ::
    "('a \<Rightarrow> str + json) \<Rightarrow> str \<Rightarrow> 'a \<Rightarrow> oa_controller \<Rightarrow> oa_controller result" where
  "oa_controller_try_with_extension enc name a c =
     (case enc a of
        Inl e \<Rightarrow> Inl (Internal (''OpenAPI extension `'' @ name @ ''` could not be serialized: '' @ e))
      | Inr v \<Rightarrow> Inr (oa_controller_with_extension_value name v c))"

definition oa_controller_hide :: "oa_controller \<Rightarrow> oa_controller" where
  "oa_controller_hide c = map_routes hide_from_openapi (c\<lparr>och_hidden := True\<rparr>)"

definition oa_controller_try_with_json_schema_component ::
    "str \<Rightarrow> (str + oa_schema) \<Rightarrow> oa_controller \<Rightarrow> oa_controller result" where
  "oa_controller_try_with_json_schema_component type_name schema c =
     (case schema of
        Inl e \<Rightarrow> Inl (Internal e)
      | Inr v \<Rightarrow> Inr (oa_controller_with_schema_component (openapi_schema_name type_name) v c))"

text \<open>What a route of the controller has of the calls made on the controller.\<close>

definition submap :: "('k, 'v) btree \<Rightarrow> ('k, 'v) btree \<Rightarrow> bool" where
  "submap a b \<longleftrightarrow> (\<forall>k v. bt_get a k = Some v \<longrightarrow> bt_get b k = Some v)"

definition carries :: "oa_controller \<Rightarrow> oa_route_metadata \<Rightarrow> bool" where
  "carries c m \<longleftrightarrow>
     set (och_tags c) \<subseteq> set (orm_tags m) \<and> (och_hidden c \<longrightarrow> orm_hidden m)
     \<and> submap (och_schema_components c) (orm_schema_components m)
     \<and> submap (och_response_components c) (orm_response_components m)
     \<and> submap (och_parameter_components c) (orm_parameter_components m)
     \<and> submap (och_example_components c) (orm_example_components m)
     \<and> submap (och_request_body_components c) (orm_request_body_components m)
     \<and> submap (och_header_components c) (orm_header_components m)
     \<and> (\<forall>k. bt_get (och_extensions c) k \<noteq> None \<longrightarrow> bt_get (orm_extensions m) k \<noteq> None)"

lemma submap_insert: "submap a b \<Longrightarrow> submap (bt_insert k v a) (bt_insert k v b)"
  by (auto simp: submap_def)

lemma carries_calls:
  assumes "\<forall>m \<in> set (och_routes c). carries c m"
  shows "\<forall>m \<in> set (och_routes (oa_controller_with_tag t c)). carries (oa_controller_with_tag t c) m"
    "\<forall>m \<in> set (och_routes (oa_controller_with_schema_component n s c)). carries (oa_controller_with_schema_component n s c) m"
    "\<forall>m \<in> set (och_routes (oa_controller_with_response_component n r c)). carries (oa_controller_with_response_component n r c) m"
    "\<forall>m \<in> set (och_routes (oa_controller_with_parameter_component n p c)). carries (oa_controller_with_parameter_component n p c) m"
    "\<forall>m \<in> set (och_routes (oa_controller_with_example_component n e c)). carries (oa_controller_with_example_component n e c) m"
    "\<forall>m \<in> set (och_routes (oa_controller_with_request_body_component n b c)).
       carries (oa_controller_with_request_body_component n b c) m"
    "\<forall>m \<in> set (och_routes (oa_controller_with_header_component n h c)). carries (oa_controller_with_header_component n h c) m"
    "\<forall>m \<in> set (och_routes (oa_controller_with_extension_value n x c)). carries (oa_controller_with_extension_value n x c) m"
    "\<forall>m \<in> set (och_routes (oa_controller_hide c)). carries (oa_controller_hide c) m"
  using assms
  by (auto simp: carries_def map_routes_def submap_insert List.member_iff oa_with_tag_def oa_controller_with_tag_def
      oa_controller_with_schema_component_def with_schema_component_def
      oa_controller_with_response_component_def with_response_component_def
      oa_controller_with_parameter_component_def with_parameter_component_def
      oa_controller_with_example_component_def with_example_component_def
      oa_controller_with_request_body_component_def with_request_body_component_def
      oa_controller_with_header_component_def with_header_component_def
      oa_controller_with_extension_value_def with_openapi_extension_default_value_def
      oa_controller_hide_def hide_from_openapi_def) blast+

lemma bt_get_extend_other: "k \<notin> fst ` set es \<Longrightarrow> bt_get (bt_extend m es) k = bt_get m k"
  by (induction es arbitrary: m) (auto simp: bt_extend_def)

lemma submap_extend: "distinct (map fst es) \<Longrightarrow> submap es (bt_extend m es)"
proof (induction es arbitrary: m)
  case (Cons e es)
  obtain k v where e: "e = (k, v)" by (cases e)
  have ext: "bt_extend m (e # es) = bt_extend (bt_insert k v m) es" by (simp add: bt_extend_def e)
  have "bt_get (bt_extend (bt_insert k v m) es) k = Some v"
    using Cons.prems by (subst bt_get_extend_other) (auto simp: e)
  moreover have "submap es (bt_extend (bt_insert k v m) es)" using Cons by simp
  ultimately show ?case unfolding ext submap_def by (auto simp: e bt_get_def)
qed (simp add: submap_def)

lemma for_each_components:
  "for_each with_schema_component e1 m = m\<lparr>orm_schema_components := bt_extend (orm_schema_components m) e1\<rparr>"
  "for_each with_response_component e2 m = m\<lparr>orm_response_components := bt_extend (orm_response_components m) e2\<rparr>"
  "for_each with_parameter_component e3 m = m\<lparr>orm_parameter_components := bt_extend (orm_parameter_components m) e3\<rparr>"
  "for_each with_example_component e4 m = m\<lparr>orm_example_components := bt_extend (orm_example_components m) e4\<rparr>"
  "for_each with_request_body_component e5 m =
     m\<lparr>orm_request_body_components := bt_extend (orm_request_body_components m) e5\<rparr>"
  "for_each with_header_component e6 m = m\<lparr>orm_header_components := bt_extend (orm_header_components m) e6\<rparr>"
proof -
  show "for_each with_schema_component e1 m = m\<lparr>orm_schema_components := bt_extend (orm_schema_components m) e1\<rparr>"
    by (induction e1 arbitrary: m) (auto simp: for_each_def bt_extend_def with_schema_component_def)
  show "for_each with_response_component e2 m = m\<lparr>orm_response_components := bt_extend (orm_response_components m) e2\<rparr>"
    by (induction e2 arbitrary: m) (auto simp: for_each_def bt_extend_def with_response_component_def)
  show "for_each with_parameter_component e3 m = m\<lparr>orm_parameter_components := bt_extend (orm_parameter_components m) e3\<rparr>"
    by (induction e3 arbitrary: m) (auto simp: for_each_def bt_extend_def with_parameter_component_def)
  show "for_each with_example_component e4 m = m\<lparr>orm_example_components := bt_extend (orm_example_components m) e4\<rparr>"
    by (induction e4 arbitrary: m) (auto simp: for_each_def bt_extend_def with_example_component_def)
  show "for_each with_request_body_component e5 m = m\<lparr>orm_request_body_components := bt_extend (orm_request_body_components m) e5\<rparr>"
    by (induction e5 arbitrary: m) (auto simp: for_each_def bt_extend_def with_request_body_component_def)
  show "for_each with_header_component e6 m = m\<lparr>orm_header_components := bt_extend (orm_header_components m) e6\<rparr>"
    by (induction e6 arbitrary: m) (auto simp: for_each_def bt_extend_def with_header_component_def)
qed

lemma for_each_extensions:
  "for_each with_openapi_extension_default_value es m = m\<lparr>orm_extensions :=
     fold (\<lambda>(k, v) x. if bt_get x k = None then bt_insert k v x else x) es (orm_extensions m)\<rparr>"
  by (induction es arbitrary: m) (auto simp: for_each_def with_openapi_extension_default_value_def split: prod.splits)

lemma bt_get_defaults:
  "bt_get (fold (\<lambda>(k, v) x. if bt_get x k = None then bt_insert k v x else x) es m) n = None
     \<longleftrightarrow> bt_get m n = None \<and> bt_get es n = None"
  by (induction es arbitrary: m) (auto simp: bt_get_None_iff split: prod.splits)

lemma fold_with_tag: "fold oa_with_tag ts m = m\<lparr>orm_tags := fold (\<lambda>t xs. if t \<in> set xs then xs else xs @ [t]) ts (orm_tags m)\<rparr>"
  by (induction ts arbitrary: m) (auto simp: oa_with_tag_def List.member_iff)

lemma fold_with_tag_tags:
  "set (fold (\<lambda>t xs. if t \<in> set xs then xs else xs @ [t]) ts xs) = set ts \<union> set xs"
  by (induction ts arbitrary: xs) (auto simp: List.member_iff)

definition keys_distinct :: "oa_controller \<Rightarrow> bool" where
  "keys_distinct c \<longleftrightarrow>
     bt_wf (och_schema_components c) \<and> bt_wf (och_response_components c) \<and> bt_wf (och_parameter_components c)
     \<and> bt_wf (och_example_components c) \<and> bt_wf (och_request_body_components c) \<and> bt_wf (och_header_components c)"

text \<open>A route added later carries all calls made before.\<close>

lemma carries_route:
  assumes "keys_distinct c" "\<forall>m \<in> set (och_routes c). carries c m"
  shows "\<forall>m \<in> set (och_routes (oa_controller_route r c)). carries (oa_controller_route r c) m"
proof -
  have same: "carries (oa_controller_route r c) = carries c"
    by (simp add: fun_eq_iff carries_def oa_controller_route_def)
  have "carries c (last (och_routes (oa_controller_route r c)))"
    using assms(1) unfolding oa_controller_route_def for_each_components for_each_extensions keys_distinct_def fold_with_tag
    by (auto simp: carries_def fold_with_tag_tags submap_extend bt_wf_distinct hide_from_openapi_def bt_get_defaults simp del: not_None_eq)
  then show ?thesis using assms(2) by (auto simp: same) (auto simp: oa_controller_route_def)
qed

end
