(* ===== verification/Message_Buses.thy ===== *)
theory Message_Buses
  imports Pipeline
begin

text \<open>
  \<open>src/cqrs/\<close> and \<open>src/events.rs\<close>: the buses that hand commands, queries and events to
  registered handlers, and the emitter of named application events.

  Handlers act on a world \<open>'w\<close>; \<open>'m\<close> is the type of module references and \<open>fresh\<close> the
  reference that \<open>ModuleRef::new\<close> makes. A value of type \<open>Any\<close> is its type, a number, with a
  payload \<open>'p\<close>. The code takes the handlers of a message before it calls the first of them, so
  the operations that dispatch get the state of the bus as it is then; poisoned locks are not
  modelled.
\<close>

section \<open>Typed handlers behind untyped ones\<close>

type_synonym 'p any = "nat \<times> 'p"

definition downcast :: "nat \<Rightarrow> 'p any \<Rightarrow> 'p option" where
  "downcast t v = (if fst v = t then Some (snd v) else None)"

text \<open>The names of types, and the output type of each message type.\<close>

record type_env =
  te_name :: "nat \<Rightarrow> str"
  te_output :: "nat \<Rightarrow> nat"

type_synonym ('w, 'm, 'p) typed_handler = "'p \<Rightarrow> 'm \<Rightarrow> ('w, 'p) step"
type_synonym ('w, 'm, 'p) erased_handler = "'p any \<Rightarrow> 'm \<Rightarrow> ('w, 'p any) step"

definition typed_execute :: "str \<Rightarrow> type_env \<Rightarrow> nat \<Rightarrow> ('w, 'm, 'p) typed_handler \<Rightarrow> ('w, 'm, 'p) erased_handler" where
  "typed_execute label te t h v m =
     (case downcast t v of
        None \<Rightarrow> step_result (Inl (Internal (label @ '' handler received the wrong '' @ label @ '' type: '' @ te_name te t)))
      | Some p \<Rightarrow> step_bind (h p m) (\<lambda>output. step_result (Inr (te_output te t, output))))"

definition command_typed_execute :: "type_env \<Rightarrow> nat \<Rightarrow> ('w, 'm, 'p) typed_handler \<Rightarrow> ('w, 'm, 'p) erased_handler" where
  "command_typed_execute = typed_execute ''command''"

definition query_typed_execute :: "type_env \<Rightarrow> nat \<Rightarrow> ('w, 'm, 'p) typed_handler \<Rightarrow> ('w, 'm, 'p) erased_handler" where
  "query_typed_execute = typed_execute ''query''"

definition downcast_output :: "nat \<Rightarrow> str \<Rightarrow> 'p any \<Rightarrow> 'p result" where
  "downcast_output t handler_name v =
     (case downcast t v of
        None \<Rightarrow> Inl (Internal (''CQRS handler returned the wrong output type: '' @ handler_name))
      | Some p \<Rightarrow> Inr p)"

record ('w, 'm, 'p) handler_definition =
  hd_type_id :: nat
  hd_type_name :: str
  hd_handler :: "('w, 'm, 'p) erased_handler"

definition command_handler_definition :: "type_env \<Rightarrow> nat \<Rightarrow> ('w, 'm, 'p) typed_handler \<Rightarrow> ('w, 'm, 'p) handler_definition" where
  "command_handler_definition te t h =
     \<lparr>hd_type_id = t, hd_type_name = te_name te t, hd_handler = command_typed_execute te t h\<rparr>"

definition query_handler_definition :: "type_env \<Rightarrow> nat \<Rightarrow> ('w, 'm, 'p) typed_handler \<Rightarrow> ('w, 'm, 'p) handler_definition" where
  "query_handler_definition te t h =
     \<lparr>hd_type_id = t, hd_type_name = te_name te t, hd_handler = query_typed_execute te t h\<rparr>"

section \<open>Commands and queries\<close>

text \<open>Both buses have the same shape; a table has one handler for each type.\<close>

record ('w, 'm, 'p) handler_registration =
  hr_type_name :: str
  hr_handler :: "('w, 'm, 'p) erased_handler"

record ('w, 'm, 'p) message_bus =
  mb_handlers :: "(nat, ('w, 'm, 'p) handler_registration) btree"
  mb_module :: "'m option"

definition message_bus_new :: "('w, 'm, 'p) message_bus" where
  "message_bus_new = \<lparr>mb_handlers = [], mb_module = None\<rparr>"

definition bus_register :: "str \<Rightarrow> ('w, 'm, 'p) handler_definition \<Rightarrow> (('w, 'm, 'p) message_bus, unit) step" where
  "bus_register label d bus =
     (if bt_get (mb_handlers bus) (hd_type_id d) \<noteq> None
      then (Inl (Internal (label @ '' handler is already registered: '' @ hd_type_name d)), bus)
      else (Inr (), bus\<lparr>mb_handlers :=
              bt_insert (hd_type_id d) \<lparr>hr_type_name = hd_type_name d, hr_handler = hd_handler d\<rparr> (mb_handlers bus)\<rparr>))"

definition command_register :: "('w, 'm, 'p) handler_definition \<Rightarrow> (('w, 'm, 'p) message_bus, unit) step" where
  "command_register = bus_register ''command''"

definition query_register :: "('w, 'm, 'p) handler_definition \<Rightarrow> (('w, 'm, 'p) message_bus, unit) step" where
  "query_register = bus_register ''query''"

definition bus_context :: "'m \<Rightarrow> ('w, 'm, 'p) message_bus \<Rightarrow> 'm" where
  "bus_context fresh bus = (case mb_module bus of Some m \<Rightarrow> m | None \<Rightarrow> fresh)"

definition bus_execute ::
    "str \<Rightarrow> type_env \<Rightarrow> 'm \<Rightarrow> ('w, 'm, 'p) message_bus \<Rightarrow> nat \<Rightarrow> 'p \<Rightarrow> ('w, 'p) step" where
  "bus_execute label te fresh bus t p =
     (case bt_get (mb_handlers bus) t of
        None \<Rightarrow> step_result (Inl (Internal (label @ '' handler is not registered: '' @ te_name te t)))
      | Some r \<Rightarrow>
          step_bind (hr_handler r (t, p) (bus_context fresh bus)) (\<lambda>output.
          step_result (downcast_output (te_output te t) (hr_type_name r) output)))"

definition command_execute :: "type_env \<Rightarrow> 'm \<Rightarrow> ('w, 'm, 'p) message_bus \<Rightarrow> nat \<Rightarrow> 'p \<Rightarrow> ('w, 'p) step" where
  "command_execute = bus_execute ''command''"

definition query_execute :: "type_env \<Rightarrow> 'm \<Rightarrow> ('w, 'm, 'p) message_bus \<Rightarrow> nat \<Rightarrow> 'p \<Rightarrow> ('w, 'p) step" where
  "query_execute = bus_execute ''query''"

definition bus_handler_count :: "('w, 'm, 'p) message_bus \<Rightarrow> nat" where
  "bus_handler_count bus = length (mb_handlers bus)"

definition bus_clear_handlers :: "(('w, 'm, 'p) message_bus, unit) step" where
  "bus_clear_handlers bus = (Inr (), bus\<lparr>mb_handlers := []\<rparr>)"

definition bus_attach_module :: "'m \<Rightarrow> (('w, 'm, 'p) message_bus, unit) step" where
  "bus_attach_module m bus = (Inr (), bus\<lparr>mb_module := Some m\<rparr>)"

section \<open>Events\<close>

type_synonym ('w, 'm, 'p) event_handler = "'p any \<Rightarrow> 'm \<Rightarrow> ('w, unit) step"

definition event_typed_handle :: "type_env \<Rightarrow> nat \<Rightarrow> ('p \<Rightarrow> 'm \<Rightarrow> ('w, unit) step) \<Rightarrow> ('w, 'm, 'p) event_handler" where
  "event_typed_handle te t h v m =
     (case downcast t v of
        None \<Rightarrow> step_result (Inl (Internal (''event handler received the wrong event type: '' @ te_name te t)))
      | Some p \<Rightarrow> h p m)"

record ('w, 'm, 'p) event_handler_definition =
  ehd_type_id :: nat
  ehd_type_name :: str
  ehd_handler :: "('w, 'm, 'p) event_handler"

definition event_handler_definition_new ::
    "type_env \<Rightarrow> nat \<Rightarrow> ('p \<Rightarrow> 'm \<Rightarrow> ('w, unit) step) \<Rightarrow> ('w, 'm, 'p) event_handler_definition" where
  "event_handler_definition_new te t h =
     \<lparr>ehd_type_id = t, ehd_type_name = te_name te t, ehd_handler = event_typed_handle te t h\<rparr>"

record ('w, 'm, 'p) event_bus =
  eb_handlers :: "(nat, ('w, 'm, 'p) event_handler list) btree"
  eb_module :: "'m option"

definition event_bus_new :: "('w, 'm, 'p) event_bus" where
  "event_bus_new = \<lparr>eb_handlers = [], eb_module = None\<rparr>"

definition event_handlers :: "('w, 'm, 'p) event_bus \<Rightarrow> nat \<Rightarrow> ('w, 'm, 'p) event_handler list" where
  "event_handlers bus t = (case bt_get (eb_handlers bus) t of Some hs \<Rightarrow> hs | None \<Rightarrow> [])"

definition event_register :: "('w, 'm, 'p) event_handler_definition \<Rightarrow> (('w, 'm, 'p) event_bus, unit) step" where
  "event_register d bus =
     (Inr (), bus\<lparr>eb_handlers :=
        bt_insert (ehd_type_id d) (event_handlers bus (ehd_type_id d) @ [ehd_handler d]) (eb_handlers bus)\<rparr>)"

definition event_context :: "'m \<Rightarrow> ('w, 'm, 'p) event_bus \<Rightarrow> 'm" where
  "event_context fresh bus = (case eb_module bus of Some m \<Rightarrow> m | None \<Rightarrow> fresh)"

text \<open>A loop over steps that ends with the first error.\<close>

fun run_steps :: "('w, unit) step list \<Rightarrow> ('w, unit) step" where
  "run_steps [] = step_result (Inr ())"
| "run_steps (f # fs) = step_bind f (\<lambda>_. run_steps fs)"

definition event_publish :: "'m \<Rightarrow> ('w, 'm, 'p) event_bus \<Rightarrow> nat \<Rightarrow> 'p \<Rightarrow> ('w, nat) step" where
  "event_publish fresh bus t p =
     (let hs = event_handlers bus t in
      step_bind (run_steps (map (\<lambda>h. h (t, p) (event_context fresh bus)) hs)) (\<lambda>_. step_result (Inr (length hs))))"

definition event_handler_count :: "('w, 'm, 'p) event_bus \<Rightarrow> nat" where
  "event_handler_count bus = sum_list (map (length \<circ> snd) (eb_handlers bus))"

definition event_clear_handlers :: "(('w, 'm, 'p) event_bus, unit) step" where
  "event_clear_handlers bus = (Inr (), bus\<lparr>eb_handlers := []\<rparr>)"

definition event_attach_module :: "'m \<Rightarrow> (('w, 'm, 'p) event_bus, unit) step" where
  "event_attach_module m bus = (Inr (), bus\<lparr>eb_module := Some m\<rparr>)"

section \<open>The module of the buses\<close>

record ('w, 'm, 'p, 'i, 'pd) cqrs_module =
  cq_name :: str
  cq_imports :: "'i list"
  cq_providers :: "'pd list"
  cq_command_handlers :: "('w, 'm, 'p) handler_definition list"
  cq_query_handlers :: "('w, 'm, 'p) handler_definition list"
  cq_event_handlers :: "('w, 'm, 'p) event_handler_definition list"
  cq_global :: bool

definition cqrs_module_new :: "str \<Rightarrow> ('w, 'm, 'p, 'i, 'pd) cqrs_module" where
  "cqrs_module_new name =
     \<lparr>cq_name = name, cq_imports = [], cq_providers = [], cq_command_handlers = [], cq_query_handlers = [],
      cq_event_handlers = [], cq_global = False\<rparr>"

definition cqrs_import :: "'i \<Rightarrow> ('w, 'm, 'p, 'i, 'pd) cqrs_module \<Rightarrow> ('w, 'm, 'p, 'i, 'pd) cqrs_module" where
  "cqrs_import i d = d\<lparr>cq_imports := cq_imports d @ [i]\<rparr>"

definition cqrs_provider :: "'pd \<Rightarrow> ('w, 'm, 'p, 'i, 'pd) cqrs_module \<Rightarrow> ('w, 'm, 'p, 'i, 'pd) cqrs_module" where
  "cqrs_provider p d = d\<lparr>cq_providers := cq_providers d @ [p]\<rparr>"

definition cqrs_command_handler ::
    "type_env \<Rightarrow> nat \<Rightarrow> ('w, 'm, 'p) typed_handler \<Rightarrow> ('w, 'm, 'p, 'i, 'pd) cqrs_module \<Rightarrow> ('w, 'm, 'p, 'i, 'pd) cqrs_module" where
  "cqrs_command_handler te t h d = d\<lparr>cq_command_handlers := cq_command_handlers d @ [command_handler_definition te t h]\<rparr>"

definition cqrs_query_handler ::
    "type_env \<Rightarrow> nat \<Rightarrow> ('w, 'm, 'p) typed_handler \<Rightarrow> ('w, 'm, 'p, 'i, 'pd) cqrs_module \<Rightarrow> ('w, 'm, 'p, 'i, 'pd) cqrs_module" where
  "cqrs_query_handler te t h d = d\<lparr>cq_query_handlers := cq_query_handlers d @ [query_handler_definition te t h]\<rparr>"

definition cqrs_event_handler ::
    "type_env \<Rightarrow> nat \<Rightarrow> ('p \<Rightarrow> 'm \<Rightarrow> ('w, unit) step) \<Rightarrow> ('w, 'm, 'p, 'i, 'pd) cqrs_module
       \<Rightarrow> ('w, 'm, 'p, 'i, 'pd) cqrs_module" where
  "cqrs_event_handler te t h d = d\<lparr>cq_event_handlers := cq_event_handlers d @ [event_handler_definition_new te t h]\<rparr>"

text \<open>The three buses of the module.\<close>

record ('w, 'm, 'p) cqrs_buses =
  qb_command :: "('w, 'm, 'p) message_bus"
  qb_query :: "('w, 'm, 'p) message_bus"
  qb_event :: "('w, 'm, 'p) event_bus"

definition on_command :: "(('w, 'm, 'p) message_bus, 'a) step \<Rightarrow> (('w, 'm, 'p) cqrs_buses, 'a) step" where
  "on_command f s = (let (r, b) = f (qb_command s) in (r, s\<lparr>qb_command := b\<rparr>))"

definition on_query :: "(('w, 'm, 'p) message_bus, 'a) step \<Rightarrow> (('w, 'm, 'p) cqrs_buses, 'a) step" where
  "on_query f s = (let (r, b) = f (qb_query s) in (r, s\<lparr>qb_query := b\<rparr>))"

definition on_event :: "(('w, 'm, 'p) event_bus, 'a) step \<Rightarrow> (('w, 'm, 'p) cqrs_buses, 'a) step" where
  "on_event f s = (let (r, b) = f (qb_event s) in (r, s\<lparr>qb_event := b\<rparr>))"

definition cqrs_init :: "'m \<Rightarrow> ('w, 'm, 'p, 'i, 'pd) cqrs_module \<Rightarrow> (('w, 'm, 'p) cqrs_buses, unit) step" where
  "cqrs_init m d =
     step_bind (on_command (bus_attach_module m)) (\<lambda>_.
     step_bind (on_query (bus_attach_module m)) (\<lambda>_.
     step_bind (on_event (event_attach_module m)) (\<lambda>_.
     step_bind (run_steps (map (on_command \<circ> command_register) (cq_command_handlers d))) (\<lambda>_.
     step_bind (run_steps (map (on_query \<circ> query_register) (cq_query_handlers d))) (\<lambda>_.
     run_steps (map (on_event \<circ> event_register) (cq_event_handlers d)))))))"

section \<open>Dispatch is typed\<close>

text \<open>A bus whose tables hold typed handlers only; \<open>hs\<close> gives the handler of each type.\<close>

definition typed_bus :: "str \<Rightarrow> type_env \<Rightarrow> (nat \<Rightarrow> ('w, 'm, 'p) typed_handler option) \<Rightarrow> ('w, 'm, 'p) message_bus \<Rightarrow> bool" where
  "typed_bus label te hs bus \<longleftrightarrow>
     (\<forall>t. bt_get (mb_handlers bus) t
        = map_option (\<lambda>h. \<lparr>hr_type_name = te_name te t, hr_handler = typed_execute label te t h\<rparr>) (hs t))"

lemma typed_bus_new: "typed_bus label te (\<lambda>_. None) message_bus_new"
  by (simp add: typed_bus_def message_bus_new_def)

lemma typed_bus_register:
  assumes "typed_bus label te hs bus"
    and "bus_register label \<lparr>hd_type_id = t, hd_type_name = te_name te t, hd_handler = typed_execute label te t h\<rparr> bus = (r, bus2)"
  shows "typed_bus label te (if hs t = None then hs(t \<mapsto> h) else hs) bus2 \<and> is_ok r = (hs t = None)"
  using assms by (auto simp: typed_bus_def bus_register_def split: if_splits)

text \<open>The handlers that a sequence of registrations leaves: the first one of each type stays.\<close>

fun first_handlers :: "(nat \<times> 'h) list \<Rightarrow> (nat \<Rightarrow> 'h option) \<Rightarrow> nat \<Rightarrow> 'h option" where
  "first_handlers [] hs = hs"
| "first_handlers ((t, h) # rs) hs = first_handlers rs (if hs t = None then hs(t \<mapsto> h) else hs)"

lemma first_handlers_eq: "first_handlers rs hs t = or_else (hs t) (map_of rs t)"
  by (induction rs arbitrary: hs) (auto simp: or_else_def split: option.splits)

fun register_each :: "str \<Rightarrow> type_env \<Rightarrow> (nat \<times> ('w, 'm, 'p) typed_handler) list \<Rightarrow> ('w, 'm, 'p) message_bus \<Rightarrow> ('w, 'm, 'p) message_bus" where
  "register_each label te [] bus = bus"
| "register_each label te ((t, h) # rs) bus =
     register_each label te rs
       (snd (bus_register label \<lparr>hd_type_id = t, hd_type_name = te_name te t, hd_handler = typed_execute label te t h\<rparr> bus))"

lemma typed_bus_registered:
  "typed_bus label te hs bus \<Longrightarrow> typed_bus label te (first_handlers rs hs) (register_each label te rs bus)"
proof (induction rs arbitrary: hs bus)
  case (Cons r rs)
  obtain t h where r: "r = (t, h)" by (cases r)
  obtain x bus2 where step: "bus_register label \<lparr>hd_type_id = t, hd_type_name = te_name te t,
      hd_handler = typed_execute label te t h\<rparr> bus = (x, bus2)" by (meson surj_pair)
  have "typed_bus label te (if hs t = None then hs(t \<mapsto> h) else hs) bus2"
    using typed_bus_register [OF Cons.prems step] by simp
  then show ?case using Cons.IH by (simp add: r step)
qed simp

lemma typed_bus_execute:
  assumes "typed_bus label te hs bus"
  shows "bus_execute label te fresh bus t p =
    (case hs t of
       None \<Rightarrow> step_result (Inl (Internal (label @ '' handler is not registered: '' @ te_name te t)))
     | Some h \<Rightarrow> h p (bus_context fresh bus))"
proof (cases "hs t")
  case None
  then have "bt_get (mb_handlers bus) t = None" using assms by (simp add: typed_bus_def)
  then show ?thesis using None by (simp add: bus_execute_def)
next
  case (Some h)
  then have "bt_get (mb_handlers bus) t = Some \<lparr>hr_type_name = te_name te t, hr_handler = typed_execute label te t h\<rparr>"
    using assms by (simp add: typed_bus_def)
  then show ?thesis using Some
    by (auto simp: bus_execute_def typed_execute_def downcast_def downcast_output_def step_bind_def step_result_def
        fun_eq_iff split: prod.splits sum.splits)
qed

lemma register_each_module: "mb_module (register_each label te rs bus) = mb_module bus"
  by (induction label te rs bus rule: register_each.induct) (auto simp: bus_register_def)

text \<open>A history of registrations at each of the buses, failed ones included.\<close>

definition command_history ::
    "type_env \<Rightarrow> (nat \<times> ('w, 'm, 'p) typed_handler) list \<Rightarrow> ('w, 'm, 'p) message_bus \<Rightarrow> ('w, 'm, 'p) message_bus" where
  "command_history te rs bus = fold (\<lambda>(t, h) b. snd (command_register (command_handler_definition te t h) b)) rs bus"

definition query_history ::
    "type_env \<Rightarrow> (nat \<times> ('w, 'm, 'p) typed_handler) list \<Rightarrow> ('w, 'm, 'p) message_bus \<Rightarrow> ('w, 'm, 'p) message_bus" where
  "query_history te rs bus = fold (\<lambda>(t, h) b. snd (query_register (query_handler_definition te t h) b)) rs bus"

lemma command_history_each: "command_history te rs bus = register_each ''command'' te rs bus"
  by (induction rs arbitrary: bus)
    (auto simp: command_history_def command_register_def command_handler_definition_def command_typed_execute_def)

lemma query_history_each: "query_history te rs bus = register_each ''query'' te rs bus"
  by (induction rs arbitrary: bus)
    (auto simp: query_history_def query_register_def query_handler_definition_def query_typed_execute_def)

lemma registered_execute:
  "bus_execute label te fresh (register_each label te rs (snd (bus_attach_module m message_bus_new))) t p =
     (case map_of rs t of
        None \<Rightarrow> step_result (Inl (Internal (label @ '' handler is not registered: '' @ te_name te t)))
      | Some h \<Rightarrow> h p m)"
proof -
  let ?new = "snd (bus_attach_module m message_bus_new)"
  have "typed_bus label te (first_handlers rs (\<lambda>_. None)) (register_each label te rs ?new)"
    by (intro typed_bus_registered) (simp add: typed_bus_def message_bus_new_def bus_attach_module_def)
  from typed_bus_execute [OF this] show ?thesis
    by (auto simp: first_handlers_eq bus_context_def register_each_module bus_attach_module_def split: option.split)
qed

text \<open>
  Commands and queries are dispatched to the handler of their own type. Whatever handlers
  were registered for whatever types, executing a message runs the first handler registered for
  its type, on the message itself, in the context of the module the bus is attached to, and
  returns what that handler returns; without one it fails and has no effect. The checks of the
  erased types never fail.
\<close>

theorem cqrs_dispatch_typed:
  "command_execute te fresh (command_history te rs (snd (bus_attach_module m message_bus_new))) t p =
     (case map_of rs t of
        None \<Rightarrow> step_result (Inl (Internal (''command handler is not registered: '' @ te_name te t)))
      | Some h \<Rightarrow> h p m)
   \<and> query_execute te fresh (query_history te rs (snd (bus_attach_module m message_bus_new))) t p =
     (case map_of rs t of
        None \<Rightarrow> step_result (Inl (Internal (''query handler is not registered: '' @ te_name te t)))
      | Some h \<Rightarrow> h p m)"
  by (simp add: command_execute_def query_execute_def command_history_each query_history_each registered_execute
      split: option.split)

section \<open>Publication\<close>

lemma run_steps_append: "run_steps (fs @ gs) = step_bind (run_steps fs) (\<lambda>_. run_steps gs)"
  by (induction fs) (auto simp: fun_eq_iff step_bind_def step_result_def split: prod.splits sum.splits)

text \<open>An event goes to the handlers of its type, in the order of their registration.\<close>

definition event_history ::
    "type_env \<Rightarrow> (nat \<times> ('p \<Rightarrow> 'm \<Rightarrow> ('w, unit) step)) list \<Rightarrow> ('w, 'm, 'p) event_bus \<Rightarrow> ('w, 'm, 'p) event_bus" where
  "event_history te rs bus = fold (\<lambda>(t, h) b. snd (event_register (event_handler_definition_new te t h) b)) rs bus"

lemma event_history_handlers:
  "event_handlers (event_history te rs bus) t
     = event_handlers bus t @ map (\<lambda>(t, h). event_typed_handle te t h) (filter (\<lambda>(u, h). u = t) rs)"
  by (induction rs arbitrary: bus)
    (auto simp: event_history_def event_register_def event_handlers_def event_handler_definition_new_def split: option.splits)

lemma event_history_module: "eb_module (event_history te rs bus) = eb_module bus"
  by (induction rs arbitrary: bus) (auto simp: event_history_def event_register_def)

lemma event_publish_typed:
  "event_publish fresh (event_history te rs (snd (event_attach_module m event_bus_new))) t p =
     (let hs = map snd (filter (\<lambda>(u, h). u = t) rs) in
      step_bind (run_steps (map (\<lambda>h. h p m) hs)) (\<lambda>_. step_result (Inr (length hs))))"
proof -
  let ?rs = "filter (\<lambda>(u, h). u = t) rs"
  have "map (\<lambda>h. h (t, p) m) (map (\<lambda>(t, h). event_typed_handle te t h) ?rs) = map (\<lambda>h. h p m) (map snd ?rs)"
    by (induction rs) (auto simp: event_typed_handle_def downcast_def)
  moreover have "event_handlers (event_history te rs (snd (event_attach_module m event_bus_new))) t
      = map (\<lambda>(t, h). event_typed_handle te t h) ?rs"
    unfolding event_history_handlers by (simp add: event_handlers_def event_attach_module_def event_bus_new_def)
  moreover have "event_context fresh (event_history te rs (snd (event_attach_module m event_bus_new))) = m"
    by (simp add: event_context_def event_history_module event_attach_module_def)
  ultimately show ?thesis by (simp only: event_publish_def Let_def length_map)
qed

section \<open>The emitter of application events\<close>

text \<open>
  The crate \<open>a3s_event\<close> is a parameter: \<open>ev_typed\<close> makes an event from subject, category, type,
  version, summary, source and payload, \<open>ev_publish\<close> hands it to the provider, with the text of
  an error, and \<open>ev_matches\<close> compares a subject with a filter. \<open>dbg\<close> quotes a string.
\<close>

record ('w, 'v, 'e) event_api =
  ev_typed :: "str \<Rightarrow> str \<Rightarrow> str \<Rightarrow> nat \<Rightarrow> str \<Rightarrow> str \<Rightarrow> 'v \<Rightarrow> 'e"
  ev_subject :: "'e \<Rightarrow> str"
  ev_publish :: "'e \<Rightarrow> 'w \<Rightarrow> (str + unit) \<times> 'w"
  ev_matches :: "str \<Rightarrow> str \<Rightarrow> bool"

record ('v, 'e) event_envelope =
  ee_name :: str
  ee_data :: 'v
  ee_event :: 'e

definition validate_event_name :: "(str \<Rightarrow> str) \<Rightarrow> str \<Rightarrow> str result" where
  "validate_event_name dbg name0 =
     (let name = trim name0 in
      if name = [] \<or> has_whitespace name
      then Inl (Internal (''event name must be non-empty and contain no whitespace: '' @ dbg name))
      else Inr name)"

definition validate_event_pattern :: "(str \<Rightarrow> str) \<Rightarrow> str \<Rightarrow> str result" where
  "validate_event_pattern dbg pattern0 =
     (let pattern = trim pattern0 in
      if pattern = ''*'' then Inr pattern
      else (case strip_suffix_str ''.*'' pattern of
              Some pre \<Rightarrow> rbind (validate_event_name dbg pre) (\<lambda>_. Inr pattern)
            | None \<Rightarrow> validate_event_name dbg pattern))"

definition event_subject :: "str \<Rightarrow> str" where
  "event_subject name = ''events.'' @ name"

definition event_pattern_subject_filter :: "str \<Rightarrow> str" where
  "event_pattern_subject_filter pattern =
     (if pattern = ''*'' then ''events.>''
      else (case strip_suffix_str ''.*'' pattern of
              Some pre \<Rightarrow> ''events.'' @ pre @ ''.>''
            | None \<Rightarrow> event_subject pattern))"

definition a3s_event_from_name :: "('w, 'v, 'e) event_api \<Rightarrow> str \<Rightarrow> 'v \<Rightarrow> 'e" where
  "a3s_event_from_name api name data =
     ev_typed api (event_subject name)
       (case split_once (CHR ''.'') name of Some (category, _) \<Rightarrow> category | None \<Rightarrow> name)
       name 1 name ''a3s-boot'' data"

definition envelope_new :: "(str \<Rightarrow> str) \<Rightarrow> ('w, 'v, 'e) event_api \<Rightarrow> str \<Rightarrow> 'v \<Rightarrow> ('v, 'e) event_envelope result" where
  "envelope_new dbg api name0 data =
     rbind (validate_event_name dbg name0) (\<lambda>name.
       Inr \<lparr>ee_name = name, ee_data = data, ee_event = a3s_event_from_name api name data\<rparr>)"

definition envelope_json ::
    "(str \<Rightarrow> str) \<Rightarrow> ('w, 'v, 'e) event_api \<Rightarrow> ('a \<Rightarrow> str + 'v) \<Rightarrow> str \<Rightarrow> 'a \<Rightarrow> ('v, 'e) event_envelope result" where
  "envelope_json dbg api enc name a =
     (case enc a of
        Inl e \<Rightarrow> Inl (Internal (''failed to serialize event: '' @ e))
      | Inr v \<Rightarrow> envelope_new dbg api name v)"

definition envelope_data_as :: "('v \<Rightarrow> str + 'a) \<Rightarrow> ('v, 'e) event_envelope \<Rightarrow> 'a result" where
  "envelope_data_as dec ev =
     (case dec (ee_data ev) of
        Inl e \<Rightarrow> Inl (Internal (''invalid event payload for '' @ ee_name ev @ '': '' @ e))
      | Inr a \<Rightarrow> Inr a)"

type_synonym ('w, 'm, 'v, 'e) event_listener = "('v, 'e) event_envelope \<Rightarrow> 'm \<Rightarrow> ('w, unit) step"

record ('w, 'm, 'v, 'e) listener_registration =
  lr_filter :: str
  lr_listener :: "('w, 'm, 'v, 'e) event_listener"

record ('w, 'm, 'v, 'e) event_emitter =
  em_listeners :: "('w, 'm, 'v, 'e) listener_registration list"
  em_module :: "'m option"

definition emitter_new :: "('w, 'm, 'v, 'e) event_emitter" where
  "emitter_new = \<lparr>em_listeners = [], em_module = None\<rparr>"

definition emitter_on ::
    "(str \<Rightarrow> str) \<Rightarrow> str \<Rightarrow> ('w, 'm, 'v, 'e) event_listener \<Rightarrow> (('w, 'm, 'v, 'e) event_emitter, unit) step" where
  "emitter_on dbg pattern0 listener s =
     (case validate_event_pattern dbg pattern0 of
        Inl e \<Rightarrow> (Inl e, s)
      | Inr pattern \<Rightarrow>
          (Inr (), s\<lparr>em_listeners := em_listeners s @
             [\<lparr>lr_filter = event_pattern_subject_filter pattern, lr_listener = listener\<rparr>]\<rparr>))"

definition matching_listeners ::
    "('w, 'v, 'e) event_api \<Rightarrow> ('w, 'm, 'v, 'e) event_emitter \<Rightarrow> 'e \<Rightarrow> ('w, 'm, 'v, 'e) event_listener list" where
  "matching_listeners api s e =
     map lr_listener (filter (\<lambda>r. ev_matches api (ev_subject api e) (lr_filter r)) (em_listeners s))"

definition emitter_module_ref :: "'m \<Rightarrow> ('w, 'm, 'v, 'e) event_emitter \<Rightarrow> 'm" where
  "emitter_module_ref fresh s = (case em_module s of Some m \<Rightarrow> m | None \<Rightarrow> fresh)"

definition publish_step :: "('w, 'v, 'e) event_api \<Rightarrow> 'e \<Rightarrow> ('w, unit) step" where
  "publish_step api e w =
     (case ev_publish api e w of
        (Inl err, w1) \<Rightarrow> (Inl (Internal (''event bus error: '' @ err)), w1)
      | (Inr _, w1) \<Rightarrow> (Inr (), w1))"

definition emit_event ::
    "('w, 'v, 'e) event_api \<Rightarrow> 'm \<Rightarrow> ('w, 'm, 'v, 'e) event_emitter \<Rightarrow> ('v, 'e) event_envelope \<Rightarrow> ('w, nat) step" where
  "emit_event api fresh s ev =
     step_bind (publish_step api (ee_event ev)) (\<lambda>_.
       (let ls = matching_listeners api s (ee_event ev) in
        step_bind (run_steps (map (\<lambda>l. l ev (emitter_module_ref fresh s)) ls)) (\<lambda>_. step_result (Inr (length ls)))))"

definition emit_value ::
    "(str \<Rightarrow> str) \<Rightarrow> ('w, 'v, 'e) event_api \<Rightarrow> 'm \<Rightarrow> ('w, 'm, 'v, 'e) event_emitter \<Rightarrow> str \<Rightarrow> 'v \<Rightarrow> ('w, nat) step" where
  "emit_value dbg api fresh s name v =
     step_bind (step_result (envelope_new dbg api name v)) (emit_event api fresh s)"

definition emit ::
    "(str \<Rightarrow> str) \<Rightarrow> ('w, 'v, 'e) event_api \<Rightarrow> ('a \<Rightarrow> str + 'v) \<Rightarrow> 'm \<Rightarrow> ('w, 'm, 'v, 'e) event_emitter \<Rightarrow> str \<Rightarrow> 'a
       \<Rightarrow> ('w, nat) step" where
  "emit dbg api enc fresh s name a =
     step_bind (step_result (envelope_json dbg api enc name a)) (emit_event api fresh s)"

definition listener_count :: "('w, 'm, 'v, 'e) event_emitter \<Rightarrow> nat" where
  "listener_count s = length (em_listeners s)"

definition clear_listeners :: "(('w, 'm, 'v, 'e) event_emitter, unit) step" where
  "clear_listeners s = (Inr (), s\<lparr>em_listeners := []\<rparr>)"

definition emitter_attach_module :: "'m \<Rightarrow> (('w, 'm, 'v, 'e) event_emitter, unit) step" where
  "emitter_attach_module m s = (Inr (), s\<lparr>em_module := Some m\<rparr>)"

record ('w, 'm, 'v, 'e) event_module =
  evm_name :: str
  evm_token :: str
  evm_bus_token :: str
  evm_listeners :: "(str \<times> ('w, 'm, 'v, 'e) event_listener) list"
  evm_global :: bool

definition event_module_new :: "str \<Rightarrow> str \<Rightarrow> str \<Rightarrow> ('w, 'm, 'v, 'e) event_module" where
  "event_module_new token bus_token name =
     \<lparr>evm_name = name, evm_token = token, evm_bus_token = bus_token, evm_listeners = [], evm_global = False\<rparr>"

definition event_module_listener ::
    "str \<Rightarrow> ('w, 'm, 'v, 'e) event_listener \<Rightarrow> ('w, 'm, 'v, 'e) event_module \<Rightarrow> ('w, 'm, 'v, 'e) event_module" where
  "event_module_listener pattern l d = d\<lparr>evm_listeners := evm_listeners d @ [(pattern, l)]\<rparr>"

definition event_module_listeners ::
    "(str \<times> ('w, 'm, 'v, 'e) event_listener) list \<Rightarrow> ('w, 'm, 'v, 'e) event_module \<Rightarrow> ('w, 'm, 'v, 'e) event_module" where
  "event_module_listeners ls d = d\<lparr>evm_listeners := evm_listeners d @ ls\<rparr>"

definition event_module_named :: "str \<Rightarrow> ('w, 'm, 'v, 'e) event_module \<Rightarrow> ('w, 'm, 'v, 'e) event_module" where
  "event_module_named token d = d\<lparr>evm_token := token\<rparr>"

definition event_module_named_bus :: "str \<Rightarrow> ('w, 'm, 'v, 'e) event_module \<Rightarrow> ('w, 'm, 'v, 'e) event_module" where
  "event_module_named_bus token d = d\<lparr>evm_bus_token := token\<rparr>"

definition event_module_exports :: "('w, 'm, 'v, 'e) event_module \<Rightarrow> str list" where
  "event_module_exports d = [evm_token d, evm_bus_token d]"

definition event_module_init ::
    "(str \<Rightarrow> str) \<Rightarrow> 'm \<Rightarrow> ('w, 'm, 'v, 'e) event_module \<Rightarrow> (('w, 'm, 'v, 'e) event_emitter, unit) step" where
  "event_module_init dbg m d =
     step_bind (emitter_attach_module m) (\<lambda>_.
       run_steps (map (\<lambda>(pattern, l). emitter_on dbg pattern l) (evm_listeners d)))"

text \<open>A pattern that is accepted filters by the subjects below it.\<close>

lemma pattern_filter:
  "event_pattern_subject_filter ''*'' = ''events.>''"
  "event_pattern_subject_filter (pre @ ''.*'') = ''events.'' @ pre @ ''.>''"
  "\<not> ends_with ''.*'' name \<Longrightarrow> name \<noteq> ''*'' \<Longrightarrow> event_pattern_subject_filter name = event_subject name"
  by (auto simp: event_pattern_subject_filter_def strip_suffix_str_def ends_with_def split: option.splits)

text \<open>
  An event that is published reaches the listeners whose filter matches its subject, in the
  order of their registration, each once, until one of them fails; the count is of all of them.
\<close>

lemma emit_value_exact:
  assumes "\<And>s c t v sm src p. ev_subject api (ev_typed api s c t v sm src p) = s"
    and "validate_event_name dbg name0 = Inr name" "ev_publish api (a3s_event_from_name api name v) w = (Inr u, w1)"
  shows "emit_value dbg api fresh s name0 v w =
     (let ls = map lr_listener (filter (\<lambda>r. ev_matches api (event_subject name) (lr_filter r)) (em_listeners s));
          ev = \<lparr>ee_name = name, ee_data = v, ee_event = a3s_event_from_name api name v\<rparr>
      in step_bind (run_steps (map (\<lambda>l. l ev (emitter_module_ref fresh s)) ls)) (\<lambda>_. step_result (Inr (length ls))) w1)"
  using assms
  by (simp add: emit_value_def envelope_new_def emit_event_def publish_step_def matching_listeners_def Let_def
      step_bind_def [of "step_result _"] step_bind_def [of "publish_step _ _"] step_result_def a3s_event_from_name_def)

end
