(* ===== verification/Config_Acl.thy ===== *)
theory Config_Acl
  imports Request_Pipes Json_Data
begin

text \<open>
  \<open>src/config.rs\<close>: configuration read from ACL documents. The parser of the crate \<open>a3s_acl\<close>,
  the decoders of serde, the environment and the file system are parameters; the model starts at
  the parsed document, whose values and blocks are the constructors and fields the code matches
  on. A number is an \<open>f64\<close>: \<open>nv_integer\<close> gives its value when it has no fraction, \<open>nv_json\<close> its
  JSON text, which infinities and NaN lack.
\<close>

section \<open>Documents\<close>

datatype 'n acl_value =
  ACL_String str | ACL_Number 'n | ACL_Bool bool | ACL_List "'n acl_value list"
| ACL_Object "(str \<times> 'n acl_value) list" | ACL_Null | ACL_Call str "'n acl_value list"

datatype 'n acl_block =
  ACL_Block (ab_name: str) (ab_labels: "str list") (ab_attributes: "(str \<times> 'n acl_value) list")
    (ab_blocks: "'n acl_block list")

record 'n config_env =
  nv_integer :: "'n \<Rightarrow> int option"
  nv_json :: "'n \<Rightarrow> str option"
  nv_show :: "'n \<Rightarrow> str"
  ce_var :: "str \<Rightarrow> str option"
  ce_show_json :: "json \<Rightarrow> str"

section \<open>Values\<close>

text \<open>
  \<open>i64::MIN as f64\<close> is \<open>- (2 ^ 63)\<close>, and \<open>i64::MAX as f64\<close> rounds to \<open>2 ^ 63\<close>; the cast back to
  \<open>i64\<close> saturates.
\<close>

definition number_to_json :: "'n config_env \<Rightarrow> 'n \<Rightarrow> json result" where
  "number_to_json env v =
     (case (case nv_integer env v of
              Some i \<Rightarrow> if - (2 ^ 63) \<le> i \<and> i \<le> 2 ^ 63 then Some (min i (2 ^ 63 - 1)) else None
            | None \<Rightarrow> None) of
        Some i \<Rightarrow> Inr (JNumber (show_int i))
      | None \<Rightarrow>
          (case nv_json env v of
             Some t \<Rightarrow> Inr (JNumber t)
           | None \<Rightarrow> Inl (BadRequest (''invalid ACL number: '' @ nv_show env v))))"

definition string_arg :: "str \<Rightarrow> 'n acl_value list \<Rightarrow> nat \<Rightarrow> str result" where
  "string_arg function_name args index =
     (if index < length args
      then (case args ! index of
              ACL_String s \<Rightarrow> Inr s
            | _ \<Rightarrow> Inl (BadRequest (function_name @ '' ACL config function argument '' @ show_nat (index + 1) @ '' must be a string'')))
      else Inl (BadRequest (function_name @ '' ACL config function is missing argument '' @ show_nat (index + 1))))"

text \<open>The text that one argument of \<open>concat\<close> adds.\<close>

definition concat_piece :: "'n config_env \<Rightarrow> json \<Rightarrow> str result" where
  "concat_piece env v =
     (case v of
        JString s \<Rightarrow> Inr s
      | JNumber n \<Rightarrow> Inr n
      | JBool b \<Rightarrow> Inr (if b then ''true'' else ''false'')
      | JNull \<Rightarrow> Inr []
      | other \<Rightarrow> Inl (BadRequest (''concat ACL config function only accepts scalar values, got '' @ ce_show_json env other)))"

fun acl_value_to_json :: "'n config_env \<Rightarrow> 'n acl_value \<Rightarrow> json result"
  and acl_list_to_json :: "'n config_env \<Rightarrow> 'n acl_value list \<Rightarrow> json list result"
  and acl_object_to_json :: "'n config_env \<Rightarrow> (str \<times> json) list \<Rightarrow> (str \<times> 'n acl_value) list \<Rightarrow> (str \<times> json) list result"
  and evaluate_concat :: "'n config_env \<Rightarrow> str \<Rightarrow> 'n acl_value list \<Rightarrow> json result"
  and evaluate_env :: "'n config_env \<Rightarrow> 'n acl_value list \<Rightarrow> json result" where
  "acl_value_to_json env (ACL_String s) = Inr (JString s)"
| "acl_value_to_json env (ACL_Number n) = number_to_json env n"
| "acl_value_to_json env (ACL_Bool b) = Inr (JBool b)"
| "acl_value_to_json env (ACL_List vs) = rmap JArray (acl_list_to_json env vs)"
| "acl_value_to_json env (ACL_Object vs) = rmap JObject (acl_object_to_json env [] vs)"
| "acl_value_to_json env ACL_Null = Inr JNull"
| "acl_value_to_json env (ACL_Call name args) =
     (if name = ''env'' then evaluate_env env args
      else if name = ''concat'' then evaluate_concat env [] args
      else Inl (BadRequest (''unsupported ACL config function: '' @ name)))"
| "acl_list_to_json env [] = Inr []"
| "acl_list_to_json env (v # vs) =
     rbind (acl_value_to_json env v) (\<lambda>j. rbind (acl_list_to_json env vs) (\<lambda>js. Inr (j # js)))"
| "acl_object_to_json env fds [] = Inr fds"
| "acl_object_to_json env fds ((k, v) # vs) =
     rbind (acl_value_to_json env v) (\<lambda>j. acl_object_to_json env (bt_insert k j fds) vs)"
| "evaluate_concat env output [] = Inr (JString output)"
| "evaluate_concat env output (v # vs) =
     rbind (acl_value_to_json env v) (\<lambda>j.
     rbind (concat_piece env j) (\<lambda>piece. evaluate_concat env (output @ piece) vs))"
| "evaluate_env env args =
     rbind (string_arg ''env'' args 0) (\<lambda>name.
     case ce_var env name of
       Some v \<Rightarrow> Inr (JString v)
     | None \<Rightarrow>
         (case args of
            [_, fallback] \<Rightarrow> acl_value_to_json env fallback
          | _ \<Rightarrow> Inl (BadRequest (''missing environment variable for ACL config: '' @ name))))"

section \<open>Blocks\<close>

definition bare_attribute :: "'n acl_block \<Rightarrow> (str \<times> 'n acl_value) option" where
  "bare_attribute b =
     (if ab_labels b = [] \<and> ab_blocks b = [] \<and> length (ab_attributes b) = 1
      then map_option (Pair (ab_name b)) (map_of (ab_attributes b) (ab_name b))
      else None)"

definition insert_repeated :: "(str \<times> json) list \<Rightarrow> str \<Rightarrow> json \<Rightarrow> (str \<times> json) list" where
  "insert_repeated target key v =
     (case bt_get target key of
        None \<Rightarrow> bt_insert key v target
      | Some (JArray vs) \<Rightarrow> bt_insert key (JArray (vs @ [v])) target
      | Some existing \<Rightarrow> bt_insert key (JArray [existing, v]) target)"

fun insert_block :: "'n config_env \<Rightarrow> (str \<times> json) list \<Rightarrow> 'n acl_block \<Rightarrow> (str \<times> json) list result"
  and insert_blocks :: "'n config_env \<Rightarrow> (str \<times> json) list \<Rightarrow> 'n acl_block list \<Rightarrow> (str \<times> json) list result"
  and block_body_to_json :: "'n config_env \<Rightarrow> 'n acl_block \<Rightarrow> json result" where
  "insert_block env target (ACL_Block name labels attributes blocks) =
     (case bare_attribute (ACL_Block name labels attributes blocks) of
        Some (key, v) \<Rightarrow> rbind (acl_value_to_json env v) (\<lambda>j. Inr (bt_insert key j target))
      | None \<Rightarrow>
          rbind
            (rbind
              (acl_object_to_json env
                (if length labels > 1 then [(''labels'', JArray (map JString (drop 1 labels)))] else []) attributes)
              (\<lambda>fds. rmap JObject (insert_blocks env fds blocks)))
            (\<lambda>v.
             case labels of
               label # _ \<Rightarrow>
                 (case (case bt_get target name of Some entry \<Rightarrow> entry | None \<Rightarrow> JObject []) of
                    JObject entries \<Rightarrow> Inr (bt_insert name (JObject (insert_repeated entries label v)) target)
                  | _ \<Rightarrow> Inl (BadRequest (''ACL block '' @ name @ '' cannot mix labeled and unlabeled entries'')))
             | [] \<Rightarrow> Inr (insert_repeated target name v)))"
| "insert_blocks env target [] = Inr target"
| "insert_blocks env target (b # bs) = rbind (insert_block env target b) (\<lambda>t. insert_blocks env t bs)"
| "block_body_to_json env (ACL_Block name labels attributes blocks) =
     rbind
       (acl_object_to_json env
         (if length labels > 1 then [(''labels'', JArray (map JString (drop 1 labels)))] else []) attributes)
       (\<lambda>fds. rmap JObject (insert_blocks env fds blocks))"

definition acl_document_to_json :: "'n config_env \<Rightarrow> 'n acl_block list \<Rightarrow> json result" where
  "acl_document_to_json env blocks = rmap JObject (insert_blocks env [] blocks)"

section \<open>Typed configuration\<close>

definition config_from_acl_document :: "'n config_env \<Rightarrow> (json \<Rightarrow> str + 'a) \<Rightarrow> 'n acl_block list \<Rightarrow> 'a result" where
  "config_from_acl_document env dec blocks =
     rbind (acl_document_to_json env blocks) (\<lambda>v.
     case dec v of
       Inl e \<Rightarrow> Inl (BadRequest (''invalid ACL config shape: '' @ e))
     | Inr a \<Rightarrow> Inr a)"

definition parse_acl_config ::
    "'n config_env \<Rightarrow> (str \<Rightarrow> str + 'n acl_block list) \<Rightarrow> (json \<Rightarrow> str + 'a) \<Rightarrow> str \<Rightarrow> 'a result" where
  "parse_acl_config env parse dec input =
     (case parse input of
        Inl e \<Rightarrow> Inl (BadRequest (''invalid ACL config: '' @ e))
      | Inr document \<Rightarrow> config_from_acl_document env dec document)"

definition parse_validated_acl_config ::
    "'n config_env \<Rightarrow> (str \<Rightarrow> str + 'n acl_block list) \<Rightarrow> (json \<Rightarrow> str + 'a) \<Rightarrow> ('a \<Rightarrow> unit result) \<Rightarrow> str \<Rightarrow> 'a result" where
  "parse_validated_acl_config env parse dec validate input =
     rbind (parse_acl_config env parse dec input) (\<lambda>v. rbind (validate v) (\<lambda>_. Inr v))"

record 'a config_module =
  cfm_name :: str
  cfm_token :: str
  cfm_value :: 'a
  cfm_global :: bool

definition config_from_value :: "str \<Rightarrow> str \<Rightarrow> 'a \<Rightarrow> 'a config_module" where
  "config_from_value type_token name v = \<lparr>cfm_name = name, cfm_token = type_token, cfm_value = v, cfm_global = False\<rparr>"

definition config_named :: "str \<Rightarrow> 'a config_module \<Rightarrow> 'a config_module" where
  "config_named token d = d\<lparr>cfm_token := token\<rparr>"

definition config_global :: "'a config_module \<Rightarrow> 'a config_module" where
  "config_global d = d\<lparr>cfm_global := True\<rparr>"

definition config_from_acl_str where
  "config_from_acl_str env parse dec type_token name input =
     rmap (config_from_value type_token name) (parse_acl_config env parse dec input)"

definition config_from_acl_file ::
    "'n config_env \<Rightarrow> (str \<Rightarrow> str + 'n acl_block list) \<Rightarrow> (json \<Rightarrow> str + 'a) \<Rightarrow> (str \<Rightarrow> str + str) \<Rightarrow> str \<Rightarrow> str \<Rightarrow> str
       \<Rightarrow> 'a config_module result" where
  "config_from_acl_file env parse dec read_file type_token name path =
     (case read_file path of
        Inl e \<Rightarrow> Inl (Internal (''failed to read ACL config file '' @ path @ '': '' @ e))
      | Inr input \<Rightarrow> config_from_acl_str env parse dec type_token name input)"

definition config_from_acl_document_module where
  "config_from_acl_document_module env dec type_token name document =
     rmap (config_from_value type_token name) (config_from_acl_document env dec document)"

definition config_from_validated_acl_str where
  "config_from_validated_acl_str env parse dec validate type_token name input =
     rmap (config_from_value type_token name) (parse_validated_acl_config env parse dec validate input)"

definition config_from_validated_acl_file where
  "config_from_validated_acl_file env parse dec validate read_file type_token name path =
     rbind (config_from_acl_file env parse dec read_file type_token name path) (\<lambda>d.
     rbind (validate (cfm_value d)) (\<lambda>_. Inr d))"

definition config_from_validated_acl_document where
  "config_from_validated_acl_document env dec validate type_token name document =
     rbind (config_from_acl_document_module env dec type_token name document) (\<lambda>d.
     rbind (validate (cfm_value d)) (\<lambda>_. Inr d))"

section \<open>Numbers\<close>

text \<open>Every integer of 64 bits keeps its value; the one above them loses it.\<close>

lemma number_to_json_exact:
  "nv_integer env v = Some i \<Longrightarrow> - (2 ^ 63) \<le> i \<Longrightarrow> i < 2 ^ 63 \<Longrightarrow> number_to_json env v = Inr (JNumber (show_int i))"
  by (simp add: number_to_json_def)

lemma number_to_json_saturates:
  "nv_integer env v = Some (2 ^ 63) \<Longrightarrow> number_to_json env v = Inr (JNumber (show_int (2 ^ 63 - 1)))"
  by (simp add: number_to_json_def)

section \<open>What a document says\<close>

lemma block_body_object: "block_body_to_json env b = Inr j \<Longrightarrow> \<exists>fds. j = JObject fds"
  by (cases b) (auto simp: result_simps)

lemma insert_block_body:
  assumes "bare_attribute b = None"
  shows "insert_block env target b =
    rbind (block_body_to_json env b) (\<lambda>v.
      case ab_labels b of
        label # _ \<Rightarrow>
          (case (case bt_get target (ab_name b) of Some entry \<Rightarrow> entry | None \<Rightarrow> JObject []) of
             JObject entries \<Rightarrow> Inr (bt_insert (ab_name b) (JObject (insert_repeated entries label v)) target)
           | _ \<Rightarrow> Inl (BadRequest (''ACL block '' @ ab_name b @ '' cannot mix labeled and unlabeled entries'')))
      | [] \<Rightarrow> Inr (insert_repeated target (ab_name b) v))"
proof (cases b)
  case (ACL_Block name labels attributes blocks)
  show ?thesis using assms
    unfolding ACL_Block acl_block.sel insert_block.simps block_body_to_json.simps by (simp only: option.case)
qed

lemma insert_blocks_append: "insert_blocks env t (as @ bs) = rbind (insert_blocks env t as) (\<lambda>u. insert_blocks env u bs)"
proof (induction as arbitrary: t)
  case (Cons a as)
  then show ?case by (cases "insert_block env t a") auto
qed simp

text \<open>One entry is itself, several are an array of them in order.\<close>

fun gather :: "json list \<Rightarrow> json option" where
  "gather [] = None"
| "gather [v] = Some v"
| "gather vs = Some (JArray vs)"

definition is_object :: "json \<Rightarrow> bool" where
  "is_object v = (case v of JObject _ \<Rightarrow> True | _ \<Rightarrow> False)"

lemma gather_repeated:
  assumes "bt_get target key = gather vs" "\<forall>w \<in> set vs. is_object w"
  shows "bt_get (insert_repeated target key v) k = (if k = key then gather (vs @ [v]) else bt_get target k)"
proof (cases vs rule: gather.cases)
  case (2 w)
  then show ?thesis using assms by (cases w) (auto simp: insert_repeated_def is_object_def)
qed (use assms in \<open>auto simp: insert_repeated_def\<close>)

text \<open>The entries of a name, each block with its body, and what the document shows for it.\<close>

type_synonym 'n read_blocks = "('n acl_block \<times> json) list"

definition named :: "str \<Rightarrow> 'n read_blocks \<Rightarrow> 'n read_blocks" where
  "named n bs = filter (\<lambda>(b, _). ab_name b = n) bs"

definition labelled :: "str \<Rightarrow> 'n read_blocks \<Rightarrow> 'n read_blocks" where
  "labelled l bs = filter (\<lambda>(b, _). hd (ab_labels b) = l) bs"

definition reads :: "'n read_blocks \<Rightarrow> str \<Rightarrow> json option \<Rightarrow> bool" where
  "reads bs n v \<longleftrightarrow>
     (if list_ex (\<lambda>(b, _). ab_labels b \<noteq> []) (named n bs)
      then \<exists>entries. v = Some (JObject entries)
             \<and> (\<forall>l. bt_get entries l = gather (map snd (labelled l (named n bs))))
      else v = gather (map snd (named n bs)))"

definition uniform :: "'n acl_block list \<Rightarrow> bool" where
  "uniform bs \<longleftrightarrow>
     list_all (\<lambda>b. bare_attribute b = None \<and> list_all (\<lambda>c. ab_name b = ab_name c \<longrightarrow> (ab_labels b = []) = (ab_labels c = [])) bs) bs"

lemma named_snoc: "named n (bs @ [(b, j)]) = (if ab_name b = n then named n bs @ [(b, j)] else named n bs)"
  by (simp add: named_def)

lemma reads_other: "ab_name b \<noteq> n \<Longrightarrow> reads (bs @ [(b, j)]) n v = reads bs n v"
  by (simp add: reads_def named_snoc)

lemma reads_plain:
  assumes "reads bs (ab_name b) (bt_get m (ab_name b))" "ab_labels b = []" "\<forall>(_, w) \<in> set bs. is_object w"
    and plain: "\<forall>(c, _) \<in> set (named (ab_name b) bs). ab_labels c = []"
  shows "reads (bs @ [(b, j)]) (ab_name b) (bt_get (insert_repeated m (ab_name b) j) (ab_name b))"
proof -
  have none: "\<not> list_ex (\<lambda>(c, _). ab_labels c \<noteq> []) (named (ab_name b) bs)" using plain by (auto simp: list_ex_iff)
  then have "bt_get m (ab_name b) = gather (map snd (named (ab_name b) bs))" using assms(1) by (simp add: reads_def)
  moreover have "\<forall>w \<in> set (map snd (named (ab_name b) bs)). is_object w" using assms(3) by (auto simp: named_def)
  ultimately show ?thesis using assms(2) none
    by (simp add: reads_def named_snoc gather_repeated)
qed

lemma reads_labelled:
  assumes "reads bs (ab_name b) (bt_get m (ab_name b))" "ab_labels b = label # rest" "\<forall>(_, w) \<in> set bs. is_object w"
    and lab: "\<forall>(c, _) \<in> set (named (ab_name b) bs). ab_labels c \<noteq> []"
  shows "\<exists>entries. (case bt_get m (ab_name b) of Some entry \<Rightarrow> entry | None \<Rightarrow> JObject []) = JObject entries
    \<and> reads (bs @ [(b, j)]) (ab_name b) (Some (JObject (insert_repeated entries label j)))"
proof -
  let ?js = "named (ab_name b) bs"
  obtain entries where e: "(case bt_get m (ab_name b) of Some entry \<Rightarrow> entry | None \<Rightarrow> JObject []) = JObject entries"
      "\<forall>l. bt_get entries l = gather (map snd (labelled l ?js))"
  proof (cases "?js = []")
    case True
    then have "bt_get m (ab_name b) = None" using assms(1) by (simp add: reads_def)
    then show ?thesis using that [of "[]"] True by (simp add: labelled_def)
  next
    case False
    then have "list_ex (\<lambda>(c, _). ab_labels c \<noteq> []) ?js" using lab by (cases ?js) auto
    then show ?thesis using assms(1) that by (auto simp: reads_def)
  qed
  have obj: "\<forall>w \<in> set (map snd (labelled label ?js)). is_object w" using assms(3) by (auto simp: named_def labelled_def)
  have "bt_get (insert_repeated entries label j) l = gather (map snd (labelled l (?js @ [(b, j)])))" for l
    using gather_repeated [OF e(2) [rule_format, of label] obj, of j l] e(2) assms(2) by (simp add: labelled_def)
  then show ?thesis using e(1) assms(2) by (auto simp: reads_def named_snoc)
qed

lemma insert_block_reads:
  assumes m: "\<forall>n. reads bs n (bt_get m n)" and objs: "\<forall>(_, w) \<in> set bs. is_object w"
    and u: "uniform (map fst bs @ [b])" and j: "block_body_to_json env b = Inr j"
  shows "\<exists>m2. insert_block env m b = Inr m2 \<and> (\<forall>n. reads (bs @ [(b, j)]) n (bt_get m2 n))"
proof -
  have bare: "bare_attribute b = None" using u by (simp add: uniform_def)
  have same: "(ab_labels c = []) = (ab_labels b = [])" if "(c, w) \<in> set (named (ab_name b) bs)" for c w
  proof -
    have c: "(c, w) \<in> set bs" "ab_name c = ab_name b" using that by (auto simp: named_def)
    then have "c \<in> set (map fst bs @ [b])" by force
    then show ?thesis using u c(2) unfolding uniform_def list_all_iff by auto
  qed
  show ?thesis
  proof (cases "ab_labels b")
    case Nil
    have "reads (bs @ [(b, j)]) n (bt_get (insert_repeated m (ab_name b) j) n)" for n
    proof (cases "ab_name b = n")
      case True
      have "\<forall>(c, _) \<in> set (named (ab_name b) bs). ab_labels c = []" using same Nil by auto
      from reads_plain [OF m [rule_format] Nil objs this] show ?thesis unfolding True by simp
    next
      case False
      have "\<exists>vs. bt_get m (ab_name b) = gather vs \<and> (\<forall>w \<in> set vs. is_object w)"
      proof -
        have "\<not> list_ex (\<lambda>(c, _). ab_labels c \<noteq> []) (named (ab_name b) bs)" using same Nil by (auto simp: list_ex_iff)
        then have "bt_get m (ab_name b) = gather (map snd (named (ab_name b) bs))"
          using m by (simp add: reads_def)
        then show ?thesis using objs
          by (intro exI [of _ "map snd (named (ab_name b) bs)"]) (auto simp: named_def)
      qed
      then have "bt_get (insert_repeated m (ab_name b) j) n = bt_get m n" using gather_repeated False by auto
      then show ?thesis using False m by (simp add: reads_other)
    qed
    then show ?thesis using bare j Nil by (simp add: insert_block_body)
  next
    case (Cons label rest)
    have lab: "\<forall>(c, _) \<in> set (named (ab_name b) bs). ab_labels c \<noteq> []" using same Cons by auto
    obtain entries where e: "(case bt_get m (ab_name b) of Some entry \<Rightarrow> entry | None \<Rightarrow> JObject []) = JObject entries"
        "reads (bs @ [(b, j)]) (ab_name b) (Some (JObject (insert_repeated entries label j)))"
      using reads_labelled [OF m [rule_format] Cons objs lab, of j] by blast
    have "reads (bs @ [(b, j)]) n (bt_get (bt_insert (ab_name b) (JObject (insert_repeated entries label j)) m) n)" for n
      using e(2) m by (cases "ab_name b = n") (auto simp: reads_other)
    then show ?thesis using bare j Cons e(1) by (simp add: insert_block_body)
  qed
qed

lemma uniform_init: "uniform (as @ bs) \<Longrightarrow> uniform as"
  by (auto simp: uniform_def list_all_iff)

lemma insert_blocks_read:
  assumes "uniform blocks" "rcollect (block_body_to_json env) blocks = Inr bodies"
  shows "\<exists>m. insert_blocks env [] blocks = Inr m \<and> (\<forall>n. reads (zip blocks bodies) n (bt_get m n))"
proof -
  have "list_all2 (\<lambda>b j. block_body_to_json env b = Inr j) blocks bodies" using rcollect_Inr_list_all2 [OF assms(2)] .
  then show ?thesis using assms(1)
  proof (induction blocks arbitrary: bodies rule: rev_induct)
    case Nil
    then show ?case by (auto simp: reads_def named_def)
  next
    case (snoc b blocks)
    obtain js j where bodies: "bodies = js @ [j]" and all: "list_all2 (\<lambda>b j. block_body_to_json env b = Inr j) blocks js"
        and j: "block_body_to_json env b = Inr j"
      using snoc.prems(1) by (auto simp: list_all2_append1 list_all2_Cons1)
    have len: "length blocks = length js" using all by (rule list_all2_lengthD)
    obtain m where m: "insert_blocks env [] blocks = Inr m" "\<forall>n. reads (zip blocks js) n (bt_get m n)"
      using snoc.IH [OF all uniform_init [OF snoc.prems(2)]] by blast
    have "\<forall>(_, w) \<in> set (zip blocks js). is_object w"
      using all block_body_object by (fastforce simp: list_all2_iff is_object_def)
    from insert_block_reads [OF m(2) this _ j] obtain m2 where "insert_block env m b = Inr m2"
        "\<forall>n. reads (zip blocks js @ [(b, j)]) n (bt_get m2 n)"
      using snoc.prems(2) len by auto
    then show ?case using m(1) len by (simp add: insert_blocks_append bodies)
  qed
qed


definition sample_config_env :: "int config_env" where
  "sample_config_env =
     \<lparr>nv_integer = Some, nv_json = (\<lambda>_. None), nv_show = show_int,
      ce_var = (\<lambda>name. if name = ''HOST'' then Some ''db.local'' else None), ce_show_json = (\<lambda>_. [])\<rparr>"

definition sample_document :: "int acl_block list" where
  "sample_document =
     [ACL_Block ''server'' [] [(''port'', ACL_Number 80)] [],
      ACL_Block ''db'' [''main''] [(''host'', ACL_Call ''env'' [ACL_String ''HOST''])] [],
      ACL_Block ''server'' [] [(''port'', ACL_Number 81)] []]"


text \<open>
  Names used in both ways are refused only when the block with a label finds an entry that is no
  object: after a single block without labels the labels join its attributes, and a block without
  labels turns the table of labels into an array.
\<close>

lemma mixed_labels_accepted:
  "acl_document_to_json sample_config_env
     [ACL_Block ''db'' [] [(''port'', ACL_Number 1), (''host'', ACL_String ''a'')] [],
      ACL_Block ''db'' [''x''] [(''port'', ACL_Number 2)] []]
   = Inr (JObject [(''db'', JObject [(''host'', JString ''a''), (''port'', JNumber ''1''),
       (''x'', JObject [(''port'', JNumber ''2'')])])])"
  "acl_document_to_json sample_config_env
     [ACL_Block ''db'' [''x''] [(''port'', ACL_Number 2)] [],
      ACL_Block ''db'' [] [(''port'', ACL_Number 1)] []]
   = Inr (JObject [(''db'', JArray [JObject [(''x'', JObject [(''port'', JNumber ''2'')])],
       JObject [(''port'', JNumber ''1'')]])])"
  by code_simp+

end
