(* ===== verification/Health.thy ===== *)
theory Health
  imports Route_Builders
begin

text \<open>
  \<open>src/health.rs\<close>: health indicators, the report over them and the routes of the health module.
  Indicators are user code on a world \<open>'w\<close>. The encoder of JSON is a parameter; the lock around
  the indicators is held only to read or change their list.
\<close>

datatype health_status = Health_Up | Health_Down

primrec health_status_as_str :: "health_status \<Rightarrow> str" where
  "health_status_as_str Health_Up = ''up''"
| "health_status_as_str Health_Down = ''down''"

record health_result =
  hth_status :: health_status
  hth_details :: json

definition health_new :: "health_status \<Rightarrow> health_result" where
  "health_new status = \<lparr>hth_status = status, hth_details = JObject []\<rparr>"

definition health_up :: health_result where "health_up = health_new Health_Up"
definition health_down :: health_result where "health_down = health_new Health_Down"

definition with_details :: "json \<Rightarrow> health_result \<Rightarrow> health_result" where
  "with_details d r = r\<lparr>hth_details := d\<rparr>"

definition with_detail_value :: "str \<Rightarrow> json \<Rightarrow> health_result \<Rightarrow> health_result" where
  "with_detail_value key v r =
     (case hth_details r of
        JObject fds \<Rightarrow> r\<lparr>hth_details := JObject (bt_insert key v fds)\<rparr>
      | _ \<Rightarrow> r\<lparr>hth_details := JObject [(key, v)]\<rparr>)"

definition health_is_up :: "health_result \<Rightarrow> bool" where
  "health_is_up r \<longleftrightarrow> hth_status r = Health_Up"

record health_report =
  hrp_status :: health_status
  hrp_checks :: "(str, health_result) btree"

definition is_healthy :: "health_report \<Rightarrow> bool" where
  "is_healthy r \<longleftrightarrow> hrp_status r = Health_Up"

type_synonym 'w health_indicator = "('w, health_result) step"
type_synonym 'w health_service = "(str \<times> 'w health_indicator) list"

definition validate_indicator_name :: "(str \<Rightarrow> str) \<Rightarrow> str \<Rightarrow> str result" where
  "validate_indicator_name dbg name0 =
     (let name = trim name0 in
      if name = [] \<or> has_whitespace name
      then Inl (Internal (''health indicator name must be non-empty and contain no whitespace: '' @ dbg name))
      else Inr name)"

definition health_indicator :: "(str \<Rightarrow> str) \<Rightarrow> str \<Rightarrow> 'w health_indicator \<Rightarrow> ('w health_service, unit) step" where
  "health_indicator dbg name0 indicator svc =
     (case validate_indicator_name dbg name0 of
        Inl e \<Rightarrow> (Inl e, svc)
      | Inr name \<Rightarrow> (Inr (), svc @ [(name, indicator)]))"

text \<open>The result that stands for an indicator: an error counts as down.\<close>

definition indicator_result :: "health_result result \<Rightarrow> health_result" where
  "indicator_result r =
     (case r of Inr x \<Rightarrow> x | Inl e \<Rightarrow> with_detail_value ''error'' (JString (boot_error_display e)) health_down)"

fun run_indicators ::
    "'w health_service \<Rightarrow> health_status \<Rightarrow> (str, health_result) btree \<Rightarrow> 'w \<Rightarrow> health_report \<times> 'w" where
  "run_indicators [] status checks w = (\<lparr>hrp_status = status, hrp_checks = checks\<rparr>, w)"
| "run_indicators ((name, indicator) # rest) status checks w =
     (let (r, w1) = indicator w; x = indicator_result r in
      run_indicators rest (if \<not> health_is_up x then Health_Down else status) (bt_insert name x checks) w1)"

definition health_check :: "'w health_service \<Rightarrow> ('w, health_report) step" where
  "health_check svc w = (let (r, w1) = run_indicators svc Health_Up [] w in (Inr r, w1))"

definition indicator_count :: "'w health_service \<Rightarrow> nat" where
  "indicator_count svc = length svc"

definition clear_indicators :: "('w health_service, unit) step" where
  "clear_indicators svc = (Inr (), [])"

text \<open>The JSON form that serde derives: fields in their order.\<close>

definition health_result_json :: "health_result \<Rightarrow> json" where
  "health_result_json r =
     JObject [(''status'', JString (health_status_as_str (hth_status r))), (''details'', hth_details r)]"

definition health_report_json :: "health_report \<Rightarrow> json" where
  "health_report_json r =
     JObject [(''status'', JString (health_status_as_str (hrp_status r))),
              (''checks'', JObject (map (\<lambda>(k, x). (k, health_result_json x)) (hrp_checks r)))]"

section \<open>The module\<close>

record 'w health_module =
  hm_name :: str
  hm_token :: str
  hm_indicators :: "(str \<times> 'w health_indicator) list"
  hm_route_path :: "str option"
  hm_liveness_path :: "str option"
  hm_global :: bool

definition health_module_new :: "str \<Rightarrow> str \<Rightarrow> 'w health_module" where
  "health_module_new token name =
     \<lparr>hm_name = name, hm_token = token, hm_indicators = [], hm_route_path = Some ''/health'',
      hm_liveness_path = Some ''/live'', hm_global = False\<rparr>"

definition health_module_indicator :: "str \<Rightarrow> 'w health_indicator \<Rightarrow> 'w health_module \<Rightarrow> 'w health_module" where
  "health_module_indicator name i d = d\<lparr>hm_indicators := hm_indicators d @ [(name, i)]\<rparr>"

definition health_with_route :: "str \<Rightarrow> 'w health_module \<Rightarrow> 'w health_module" where
  "health_with_route path d = d\<lparr>hm_route_path := Some path\<rparr>"

definition health_with_liveness_route :: "str \<Rightarrow> 'w health_module \<Rightarrow> 'w health_module" where
  "health_with_liveness_route path d = d\<lparr>hm_liveness_path := Some path\<rparr>"

definition health_without_route :: "'w health_module \<Rightarrow> 'w health_module" where
  "health_without_route d = d\<lparr>hm_route_path := None\<rparr>"

definition health_without_liveness_route :: "'w health_module \<Rightarrow> 'w health_module" where
  "health_without_liveness_route d = d\<lparr>hm_liveness_path := None\<rparr>"

definition health_named :: "str \<Rightarrow> 'w health_module \<Rightarrow> 'w health_module" where
  "health_named token d = d\<lparr>hm_token := token\<rparr>"

fun register_indicators :: "(str \<Rightarrow> str) \<Rightarrow> (str \<times> 'w health_indicator) list \<Rightarrow> ('w health_service, unit) step" where
  "register_indicators dbg [] = step_result (Inr ())"
| "register_indicators dbg ((name, i) # rest) =
     step_bind (health_indicator dbg name i) (\<lambda>_. register_indicators dbg rest)"

definition health_module_init :: "(str \<Rightarrow> str) \<Rightarrow> 'w health_module \<Rightarrow> ('w health_service, unit) step" where
  "health_module_init dbg d = register_indicators dbg (hm_indicators d)"

text \<open>The service of the module is shared, so a request sees the indicators in it then: \<open>service\<close> reads them.\<close>

definition readiness_handler ::
    "(str \<Rightarrow> rat option) \<Rightarrow> (json \<Rightarrow> str + str) \<Rightarrow> ('w \<Rightarrow> 'w health_service) \<Rightarrow> ('w, 'm) route_handler" where
  "readiness_handler pq enc service request w =
     step_bind (step_result (require_accepts_json pq request)) (\<lambda>_.
     step_bind (health_check (service w)) (\<lambda>report.
     step_result (response_json_with_status enc (if is_healthy report then 200 else 503) (health_report_json report)))) w"

definition liveness_handler :: "(str \<Rightarrow> rat option) \<Rightarrow> (json \<Rightarrow> str + str) \<Rightarrow> ('w, 'm) route_handler" where
  "liveness_handler pq enc request =
     step_bind (step_result (require_accepts_json pq request)) (\<lambda>_.
     step_result (response_json_with_status enc 200 (JObject [(''status'', JString ''up'')])))"

definition health_routes ::
    "(str \<Rightarrow> rat option) \<Rightarrow> (json \<Rightarrow> str + str) \<Rightarrow> ('w \<Rightarrow> 'w health_service) \<Rightarrow> 'w health_module
       \<Rightarrow> ('w, 'm, 'v) route_definition list result" where
  "health_routes pq enc service d =
     rbind (case hm_route_path d of
              None \<Rightarrow> Inr []
            | Some path \<Rightarrow> rmap (\<lambda>r. [r]) (route_get path (readiness_handler pq enc service))) (\<lambda>routes.
     case hm_liveness_path d of
       None \<Rightarrow> Inr routes
     | Some path \<Rightarrow> rmap (\<lambda>r. routes @ [r]) (route_get path (liveness_handler pq enc)))"

section \<open>What the report says\<close>

text \<open>The results of the indicators, each run once and one after the other.\<close>

fun indicator_results :: "'w health_service \<Rightarrow> 'w \<Rightarrow> (str \<times> health_result) list" where
  "indicator_results [] w = []"
| "indicator_results ((name, indicator) # rest) w =
     (let (r, w1) = indicator w in (name, indicator_result r) # indicator_results rest w1)"

fun world_after :: "'w health_service \<Rightarrow> 'w \<Rightarrow> 'w" where
  "world_after [] w = w"
| "world_after ((_, indicator) # rest) w = world_after rest (snd (indicator w))"

lemma run_indicators_exact:
  "run_indicators svc status checks w =
     (\<lparr>hrp_status = (if list_all (health_is_up \<circ> snd) (indicator_results svc w) then status else Health_Down),
       hrp_checks = fold (\<lambda>(k, x). bt_insert k x) (indicator_results svc w) checks\<rparr>, world_after svc w)"
  by (induction svc status checks w rule: run_indicators.induct) (auto simp: Let_def split: prod.splits)

lemma bt_get_fold_insert: "bt_get (fold (\<lambda>(k, x). bt_insert k x) xs m) k = or_else (map_of (rev xs) k) (bt_get m k)"
proof (induction xs arbitrary: m)
  case (Cons p xs)
  obtain a b where "p = (a, b)" by (cases p)
  then show ?case
    using Cons.IH [of "bt_insert a b m"] by (auto simp: map_add_def or_else_def split: option.splits)
qed simp

text \<open>
  Readiness is exact. A client that accepts JSON gets 200 exactly if every registered
  indicator, run once in the order of registration, came up, and 503 otherwise; an indicator
  that fails counts as down. The report shows for each name the result of the last indicator of
  that name.
\<close>

theorem readiness_exact:
  assumes "require_accepts_json pq request = Inr ()" "\<And>j. enc j = Inr (text_of j)"
  shows "\<exists>response report. readiness_handler pq enc service request w = (Inr response, world_after (service w) w)
     \<and> rs_status response = (if list_all (health_is_up \<circ> snd) (indicator_results (service w) w) then 200 else 503)
     \<and> rs_body response = text_of (health_report_json report)
     \<and> (\<forall>name. bt_get (hrp_checks report) name = map_of (rev (indicator_results (service w) w)) name)
     \<and> is_healthy report = list_all (health_is_up \<circ> snd) (indicator_results (service w) w)"
proof -
  let ?rs = "indicator_results (service w) w"
  let ?report = "\<lparr>hrp_status = (if list_all (health_is_up \<circ> snd) ?rs then Health_Up else Health_Down),
    hrp_checks = fold (\<lambda>(k, x). bt_insert k x) ?rs []\<rparr>"
  have check: "health_check (service w) w = (Inr ?report, world_after (service w) w)"
    by (simp add: health_check_def run_indicators_exact)
  have healthy: "is_healthy ?report = list_all (health_is_up \<circ> snd) ?rs" by (simp add: is_healthy_def)
  have "or_else (map_of (rev ?rs) name) None = map_of (rev ?rs) name" for name by (cases "map_of (rev ?rs) name") simp_all
  then have shown: "bt_get (hrp_checks ?report) name = map_of (rev ?rs) name" for name
    by (simp add: bt_get_fold_insert)
  show ?thesis
    using assms check healthy shown
    by (intro exI [of _ "response_with_header ''content-type'' ''application/json''
            (response_new (if is_healthy ?report then 200 else 503) (text_of (health_report_json ?report)))"]
          exI [of _ ?report])
      (simp add: readiness_handler_def step_bind_def step_result_def response_json_with_status_def
        or_internal_def response_with_header_def response_new_def)
qed

definition sample_indicators :: "nat health_service" where
  "sample_indicators = [(''db'', \<lambda>n. (Inr health_up, n + 1)), (''queue'', \<lambda>n. (Inl (Internal ''gone''), n + 1))]"

theorem readiness_exact_witness:
  "\<exists>response. readiness_handler (\<lambda>_. None) (\<lambda>j. Inr []) (\<lambda>_. sample_indicators)
       (request_new Inr M_Get ''/health'' :: unit boot_request) (0 :: nat) = (Inr response, 2) \<and> rs_status response = 503"
proof -
  have "require_accepts_json (\<lambda>_. None) (request_new Inr M_Get ''/health'' :: unit boot_request) = Inr ()" by code_simp
  from readiness_exact [OF this, of "\<lambda>_. Inr []" "\<lambda>_. []" "\<lambda>_. sample_indicators" "0 :: nat"]
  show ?thesis
    by (auto simp: sample_indicators_def indicator_result_def health_is_up_def health_up_def health_down_def health_new_def
        with_detail_value_def)
qed

end
