(* ===== verification/Spec2Isabelle.thy ===== *)
theory Spec2Isabelle
  imports Route_Selection Module_Registry Lifecycle Service_Client Http_Security Rate_Limit Sessions
    Static_Files Json_Data Request_Pipes Response_Encoding Scheduler Job_Queue Controllers Application_Build Auth Openapi
    Message_Buses Config_Acl Health
begin

text \<open>
  A verification development for the Boot web framework (the crate \<open>src/\<close>), a framework in
  the manner of Nest: modules register providers, controllers and routes; an application is
  built from a module graph; requests are routed through a pipeline of middleware, guards,
  interceptors, pipes and exception filters. Each theory models the files named below
  function by function and proves what makes the component correct.

  \<^bold>\<open>Conventions.\<close> A \<open>Result<T, BootError>\<close> is the sum \<open>boot_error + 'a\<close>, its \<open>?\<close> the operation
  \<open>rbind\<close>. A Rust string is its list of UTF-8 bytes. \<open>BTreeMap\<close> and \<open>BTreeSet\<close> are sorted
  association lists and lists (\<open>bt_get\<close>, \<open>bt_insert\<close>, the locale \<open>kv_store\<close>). Numbers are \<open>nat\<close>
  with their saturation or bound written out where the code has one. User code (handlers,
  guards, hooks, backends) is a function on a world \<open>'w\<close> which it may change, so a theorem
  about order or number of calls speaks of every such world. What is shared between threads
  and locked is a step relation or a history in the order of the lock. Third-party code (the
  percent decoder, serde, SHA-256, getrandom, the clock, the file system, HTTP servers) is a
  parameter; only the hypotheses a theorem names are assumed of it.

  \<^bold>\<open>Data and text.\<close>
  \<^item> \<open>Prelude\<close>: results, strings, sorted maps, the lemma collections.
  \<^item> \<open>Errors\<close> (\<open>error.rs\<close>): the error type, statuses, bodies and the copy for filters.
  \<^item> \<open>Http_Basics\<close> (\<open>http/method.rs\<close>, \<open>security/http_methods.rs\<close>, \<open>percent.rs\<close>,
    \<open>http/query.rs\<close>), \<open>Http_Header\<close> (\<open>http/header.rs\<close>, \<open>http/cookie.rs\<close>), \<open>Http_Message\<close>
    (\<open>http/{request,request_cookie,response,response_passthrough}.rs\<close>): methods, percent escapes,
    negotiation, content lengths, cookies, requests and responses. Shown: the body limit and
    content length checks accept exactly what they should, error responses are valid, a cookie
    that is accepted reads back as itself and cannot smuggle attributes.

  \<^bold>\<open>Routing.\<close>
  \<^item> \<open>Route_Path\<close> (\<open>routing/path.rs\<close>), \<open>Host_Pattern\<close> (\<open>routing/host.rs\<close>), \<open>Versioning\<close>
    (\<open>versioning.rs\<close>): patterns with their matchers; the shape key names exactly the set of
    matched paths; two version sets overlap exactly if one request is served by both.
  \<^item> \<open>Pipeline\<close> (\<open>routing/route/*\<close>, \<open>pipeline/*\<close>): one route with its pipeline, interceptors as
    scripts that may call the rest any number of times. Shown: nothing behind a refusing guard
    runs, interceptors nest, filters are asked from the route outwards.
  \<^item> \<open>Route_Selection\<close> (\<open>app/application.rs\<close>, route checks of \<open>app/builder.rs\<close>,
    \<open>pipeline/middleware.rs\<close>): dispatch selects one most specific matching route;
    uniqueness checks exclude ambiguity; allowed methods agree with the lookup.

  \<^bold>\<open>Modules and providers.\<close>
  \<^item> \<open>Provider_Cache\<close> (\<open>provider/cache.rs\<close>): slots and the wait graph as steps of concurrent
    threads; invariants by induction over reachable states: no deadlock, one instance per key,
    cycles are reported exactly when waiting would close one.
  \<^item> \<open>Provider_Graph\<close> and \<open>Provider_Resolve\<close> (\<open>provider/{definition,entry,module_ref,resolution}.rs\<close>):
    search through registries and visible scopes, resolution plans, which cache an instance
    comes from, the order of asynchronous builds. The searches recurse along a rank of the
    stores (imports come before their importers, which \<open>Module_Registry\<close> establishes), so they
    end; plans and seeding carry the sets of visited entries as the code does.
  \<^item> \<open>Module_Registry\<close> (\<open>app/registration.rs\<close>, \<open>module.rs\<close>): registration of cyclic and acyclic
    module graphs, with termination for every closed table and a sound store as result.
  \<^item> \<open>Lifecycle\<close> (\<open>app/{application,handle,microservice,shutdown,context}.rs\<close>): bootstrap, the
    shutdown phases in reverse order, the managed handle as a refinement of an abstract machine.

  \<^bold>\<open>Services.\<close>
  \<^item> \<open>Resilience\<close> (\<open>resilience/*\<close>): circuit breaker as a refinement of a contract, bulkhead as
    interleaved compare-and-exchange steps, retry. \<open>Service_Client\<close> (\<open>service_client.rs\<close>,
    \<open>service_discovery/mod.rs\<close>, \<open>http_client.rs\<close>) composes them into one call; the number of
    attempts is bounded by the retry option, so its recursion is on that number.
  \<^item> \<open>Http_Security\<close> (\<open>security/{cors,csrf,headers}.rs\<close>) and \<open>Rate_Limit\<close> (\<open>security/rate_limit.rs\<close>).
  \<^item> \<open>Expiring_Store\<close> (\<open>cache.rs\<close>, \<open>session/store.rs\<close>) and \<open>Sessions\<close> (\<open>session/*\<close>): stores with
    expiry behind one locale, the response cache, the session manager as a refinement of
    abstract sessions, cookies.
  \<^item> \<open>Static_Files\<close> (\<open>static_files.rs\<close>): serving below a root, with confinement.

  \<^bold>\<open>Messages.\<close>
  \<^item> \<open>Messaging\<close>: the dispatch both message transports share (scopes, guards, interceptors,
    pipes and filters around one handler) as scripts on the world, with its contract.
  \<^item> \<open>Transport\<close> (\<open>transport/\<close> without the broker adapters): patterns, messages and their
    dispatch; nothing behind a refusing guard runs and a handler runs at most once per scope.
  \<^item> \<open>Websocket_State\<close> and \<open>Websocket\<close> (\<open>websocket/\<close>): the gateway's connections, rooms and
    broadcasts as a refinement of a set of memberships; the gateway's dispatch.
  \<^item> \<open>Request_Pipes\<close> and \<open>Json_Data\<close> (\<open>pipeline/builtins.rs\<close>, \<open>validation.rs\<close>,
    \<open>serialization.rs\<close>): the built-in pipes accept exactly what they document; validated bodies
    carry only what their schema lists, shaped responses only the fields left visible.
  \<^item> \<open>Response_Encoding\<close> (\<open>http/sse.rs\<close>, \<open>compression.rs\<close>): an event stream is read back, by the
    algorithm of the HTML standard, as the events that were sent; compression happens exactly
    under its conditions and leaves a consistent response.

  \<^bold>\<open>Background work.\<close>
  \<^item> \<open>Scheduler\<close> (\<open>schedule.rs\<close>): for calls one after the other a refinement of a timetable; for
    interleaved calls, whose locked sections are steps, one task per job.
  \<^item> \<open>Job_Queue\<close> (\<open>queue.rs\<close>, \<open>queue/module.rs\<close>): workers and operations interleaved over an
    arbitrary engine; the log of each worker follows a protocol of claims, and the workers of a
    stopped queue end.
  \<^bold>\<open>Interfaces.\<close> The locales state what one part relies on in another, each interpreted on the
  model of the code: \<open>kv_store\<close> (sorted maps), \<open>header_carrier\<close> (requests and responses),
  \<open>provider_registration\<close> (the synchronous and asynchronous registration), \<open>expiring_store\<close> (both
  in-memory stores), \<open>session_manager_store\<close> (the manager over a store). The scripts of the message dispatch satisfy \<open>gated_dispatch\<close>, interpreted for transports and for gateways.

  \<^bold>\<open>Bounds.\<close> No theorem depends on fuel that could run out: loops recurse on their data, on a
  number the code counts down, or on a measure. Saturating counters are written with their
  bound. Instants and durations are natural numbers.

  \<^bold>\<open>Not modelled.\<close> Code generation (the procedural macros), JSON and OpenAPI documents, the network
  adapters and message brokers (they bind third-party servers and clients), the persistence
  backends in SQL, logging and test utilities, and within the modelled files the typed
  conversions through serde and \<open>Any\<close>, lock poisoning, and OpenAPI metadata.
\<close>

end
